(* ===== verification/Prelude.thy ===== *)
theory Prelude
  imports Complex_Main "HOL-Library.AList" "HOL-Library.Code_Target_Nat"
begin

text \<open>
  Shared vocabulary of the development: Python results as sums, timezone-aware and naive
  datetimes, association-list dictionaries, and the lemmas on lists and results that the
  component theories use.
\<close>

section \<open>Collections of rewrite rules\<close>

named_theorems result_simps \<open>equations of the result combinators\<close>
named_theorems store_simps \<open>reading a store after a write\<close>
named_theorems frame_simps \<open>columns an operation does not write\<close>

section \<open>Results: a raise is \<open>Inl\<close>, a return is \<open>Inr\<close>\<close>

type_synonym ('e, 'a) result = "'e + 'a"

definition bindR :: "('e, 'a) result \<Rightarrow> ('a \<Rightarrow> ('e, 'b) result) \<Rightarrow> ('e, 'b) result" where
  "bindR m f = (case m of Inl e \<Rightarrow> Inl e | Inr x \<Rightarrow> f x)"

definition require :: "bool \<Rightarrow> 'e \<Rightarrow> ('e, unit) result" where
  "require b e = (if b then Inr () else Inl e)"

definition of_option :: "'e \<Rightarrow> 'a option \<Rightarrow> ('e, 'a) result" where
  "of_option e m = (case m of None \<Rightarrow> Inl e | Some x \<Rightarrow> Inr x)"

definition map_error :: "('e \<Rightarrow> 'f) \<Rightarrow> ('e, 'a) result \<Rightarrow> ('f, 'a) result" where
  "map_error f m = (case m of Inl e \<Rightarrow> Inl (f e) | Inr x \<Rightarrow> Inr x)"

definition is_ok :: "('e, 'a) result \<Rightarrow> bool" where
  "is_ok m = (case m of Inl _ \<Rightarrow> False | Inr _ \<Rightarrow> True)"

lemma bindR_simps [simp, result_simps]:
  "bindR (Inl e) f = Inl e"
  "bindR (Inr x) f = f x"
  by (simp_all add: bindR_def)

lemma bindR_cong [fundef_cong]:
  "m = m' \<Longrightarrow> (\<And>x. m' = Inr x \<Longrightarrow> f x = g x) \<Longrightarrow> bindR m f = bindR m' g"
  by (cases m') simp_all

text \<open>Evaluation order: the continuation is looked at once the first result is known.\<close>

lemma bindR_weak_cong [cong]: "m = m' \<Longrightarrow> bindR m f = bindR m' f"
  by simp

lemma bindR_eq_Inr: "bindR m f = Inr y \<longleftrightarrow> (\<exists>x. m = Inr x \<and> f x = Inr y)"
  by (cases m) simp_all

lemma bindR_eq_Inl:
  "bindR m f = Inl e \<longleftrightarrow> m = Inl e \<or> (\<exists>x. m = Inr x \<and> f x = Inl e)"
  by (cases m) simp_all

lemma bindR_split:
  "P (bindR m f) \<longleftrightarrow> (\<forall>e. m = Inl e \<longrightarrow> P (Inl e)) \<and> (\<forall>x. m = Inr x \<longrightarrow> P (f x))"
  by (cases m) simp_all

lemma require_eq [simp, result_simps]:
  "require b e = Inr u \<longleftrightarrow> b"
  "require b e = Inl e' \<longleftrightarrow> \<not> b \<and> e = e'"
  "require True e = Inr ()"
  "require False e = Inl e"
  by (auto simp: require_def)

lemma of_option_eq [simp, result_simps]:
  "of_option e m = Inr x \<longleftrightarrow> m = Some x"
  "of_option e m = Inl e' \<longleftrightarrow> m = None \<and> e = e'"
  "of_option e (Some y) = Inr y"
  "of_option e None = Inl e"
  by (auto simp: of_option_def split: option.splits)

lemma map_error_eq [simp, result_simps]:
  "map_error f m = Inr x \<longleftrightarrow> m = Inr x"
  "map_error f m = Inl e \<longleftrightarrow> (\<exists>e'. m = Inl e' \<and> e = f e')"
  "map_error f (Inr x) = Inr x"
  "map_error f (Inl e') = Inl (f e')"
  by (auto simp: map_error_def split: sum.splits)

lemma is_ok_simps [simp, result_simps]:
  "is_ok (Inr x)"
  "\<not> is_ok (Inl e)"
  by (simp_all add: is_ok_def)

lemma is_ok_iff: "is_ok m \<longleftrightarrow> (\<exists>x. m = Inr x)"
  by (cases m) simp_all

section \<open>Datetimes\<close>

text \<open>
  A Python datetime carries its UTC instant (in microseconds) when it is timezone-aware;
  a naive one carries a wall-clock reading only. A column of type
  \<open>TIMESTAMP WITH TIME ZONE\<close> always reads back aware, so a column is a bare instant.
\<close>

datatype pydatetime = Naive int | Aware int

fun aware :: "pydatetime \<Rightarrow> bool" where
  "aware (Naive _) = False"
| "aware (Aware _) = True"

fun instant :: "pydatetime \<Rightarrow> int" where
  "instant (Naive t) = t"
| "instant (Aware t) = t"

text \<open>A Python object of unknown type in a datetime position.\<close>

datatype pyobject = PyNone | PyDatetime pydatetime | PyOther

definition usec :: "int" where "usec = 1000000"

definition seconds :: "int \<Rightarrow> int" where "seconds n = n * usec"

definition minutes :: "int \<Rightarrow> int" where "minutes n = seconds (n * 60)"

definition hours :: "int \<Rightarrow> int" where "hours n = minutes (n * 60)"

definition days :: "int \<Rightarrow> int" where "days n = hours (n * 24)"

lemmas time_defs = usec_def seconds_def minutes_def hours_def days_def

text \<open>\<open>app.core.timezone.KST\<close> is UTC+9 without daylight saving.\<close>

definition kst_offset :: int where "kst_offset = hours 9"

definition kst_midnight :: "int \<Rightarrow> int" where
  "kst_midnight t = (t + kst_offset) div days 1 * days 1 - kst_offset"

lemma days_pos [simp]: "0 < n \<Longrightarrow> 0 < days n"
  by (simp add: time_defs)

lemma days_mult: "days n = n * days 1"
  by (simp add: time_defs)

lemma days_div_bounds:
  "days 1 * (x div days 1) \<le> x" "x < days 1 * (x div days 1) + days 1"
proof -
  have e: "x = days 1 * (x div days 1) + x mod days 1" by simp
  have b: "0 \<le> x mod days 1" "x mod days 1 < days 1" by simp_all
  show "days 1 * (x div days 1) \<le> x" using e b by linarith
  show "x < days 1 * (x div days 1) + days 1" using e b by linarith
qed

lemma kst_midnight_le: "kst_midnight t \<le> t"
  using days_div_bounds(1) [of "t + kst_offset"] by (simp add: kst_midnight_def mult.commute)

lemma kst_midnight_next: "t < kst_midnight t + days 1"
  using days_div_bounds(2) [of "t + kst_offset"] by (simp add: kst_midnight_def mult.commute)

section \<open>Lists as tables\<close>

text \<open>
  A table is the list of its rows in primary-key order; \<open>upsert\<close> writes a row over the
  row with the same key.
\<close>

definition write_row :: "('r \<Rightarrow> 'k) \<Rightarrow> 'r \<Rightarrow> 'r list \<Rightarrow> 'r list" where
  "write_row key r rs = map (\<lambda>x. if key x = key r then r else x) rs"

lemma write_row_keys [simp, store_simps]:
  "map key (write_row key r rs) = map key rs"
  by (simp add: write_row_def comp_def if_distrib cong: if_cong)

lemma write_row_length [simp, store_simps]: "length (write_row key r rs) = length rs"
  by (simp add: write_row_def)

lemma write_row_set:
  "x \<in> set (write_row key r rs) \<Longrightarrow> x = r \<or> (x \<in> set rs \<and> key x \<noteq> key r)"
  by (auto simp: write_row_def split: if_splits)

lemma write_row_absent: "key r \<notin> key ` set rs \<Longrightarrow> write_row key r rs = rs"
  unfolding write_row_def by (rule map_idI) (metis imageI)

lemma same_row: "distinct (map f xs) \<Longrightarrow> x \<in> set xs \<Longrightarrow> y \<in> set xs \<Longrightarrow> f x = f y \<Longrightarrow> x = y"
  by (metis distinct_map inj_onD)

lemma find_SomeD: "find P xs = Some x \<Longrightarrow> P x \<and> x \<in> set xs"
  by (induction xs) (auto split: if_splits)

lemma find_None_all: "find P xs = None \<longleftrightarrow> (\<forall>x \<in> set xs. \<not> P x)"
  by (induction xs) auto

lemma find_some_ex: "x \<in> set xs \<Longrightarrow> P x \<Longrightarrow> \<exists>y. find P xs = Some y"
  by (induction xs) auto

lemma find_write_row:
  assumes "find (\<lambda>x. key x = k) rs = Some r0" and "key r = k"
  shows "find (\<lambda>x. key x = k) (write_row key r rs) = Some r"
  using assms by (induction rs) (auto simp: write_row_def split: if_splits)

lemma find_write_row_other:
  assumes "key r \<noteq> k"
  shows "find (\<lambda>x. key x = k) (write_row key r rs) = find (\<lambda>x. key x = k) rs"
  using assms by (induction rs) (auto simp: write_row_def)

lemma find_unique:
  "distinct (map key rs) \<Longrightarrow> r \<in> set rs \<Longrightarrow> find (\<lambda>x. key x = key r) rs = Some r"
  by (induction rs) auto

lemma filter_write_row:
  assumes "\<And>x. key x = key r \<Longrightarrow> x \<in> set rs \<Longrightarrow> P x \<longleftrightarrow> P r"
  shows "filter P (write_row key r rs) = write_row key r (filter P rs)"
  using assms by (induction rs) (auto simp: write_row_def)

section \<open>Folding a step that may raise\<close>

fun foldR :: "('s \<Rightarrow> 'x \<Rightarrow> ('e, 's) result) \<Rightarrow> 's \<Rightarrow> 'x list \<Rightarrow> ('e, 's) result" where
  "foldR f s [] = Inr s"
| "foldR f s (x # xs) = bindR (f s x) (\<lambda>s'. foldR f s' xs)"

lemma foldR_append: "foldR f s (xs @ ys) = bindR (foldR f s xs) (\<lambda>s'. foldR f s' ys)"
  by (induction xs arbitrary: s) (auto split: bindR_split)

lemma foldR_invariant:
  assumes "foldR f s xs = Inr s'" and "I s"
    and "\<And>s x s'. I s \<Longrightarrow> x \<in> set xs \<Longrightarrow> f s x = Inr s' \<Longrightarrow> I s'"
  shows "I s'"
  using assms
proof (induction xs arbitrary: s)
  case Nil
  then show ?case by simp
next
  case (Cons x xs)
  from Cons.prems(1) obtain s1 where s1: "f s x = Inr s1" "foldR f s1 xs = Inr s'"
    by (auto simp: bindR_eq_Inr)
  have "I s1" using Cons.prems(3) [OF Cons.prems(2) _ s1(1)] by simp
  then show ?case
    using Cons.IH [OF s1(2)] Cons.prems(3) by (meson list.set_intros(2))
qed

end
