(* ===== verification/TransitionGraph.thy ===== *)
theory TransitionGraph
  imports Prelude
begin

text \<open>
  The interface every lifecycle of the repository offers: a graph of allowed transitions,
  its terminal states, and a check that the writers call before a state write. The lemmas
  hold for each of them by interpretation.
\<close>

fun path_from :: "('s \<Rightarrow> 's set) \<Rightarrow> 's \<Rightarrow> 's list \<Rightarrow> bool" where
  "path_from A s [] = True"
| "path_from A s (t # ts) = (t \<in> A s \<and> path_from A t ts)"

text \<open>Writing a list of states one after the other through a check.\<close>

definition checked_write :: "('s \<Rightarrow> 's \<Rightarrow> ('e, unit) result) \<Rightarrow> 's \<Rightarrow> 's \<Rightarrow> ('e, 's) result" where
  "checked_write check s t = bindR (check s t) (\<lambda>_. Inr t)"

definition checked_writes :: "('s \<Rightarrow> 's \<Rightarrow> ('e, unit) result) \<Rightarrow> 's \<Rightarrow> 's list \<Rightarrow> ('e, 's) result" where
  "checked_writes check s ts = foldR (checked_write check) s ts"

locale transition_graph =
  fixes allowed :: "'s \<Rightarrow> 's set"
    and terminal :: "'s \<Rightarrow> bool"
  assumes terminal_iff: "terminal s \<longleftrightarrow> allowed s = {}"
begin

lemma terminal_path: "terminal s \<Longrightarrow> path_from allowed s ts \<Longrightarrow> ts = []"
  by (cases ts) (auto simp: terminal_iff)

lemma closed_path:
  assumes "\<And>s t. s \<in> C \<Longrightarrow> t \<in> allowed s \<Longrightarrow> t \<in> C"
    and "s \<in> C" and "path_from allowed s ts"
  shows "set ts \<subseteq> C"
  using assms(2,3) by (induction ts arbitrary: s) (auto dest: assms(1))

lemma gate_path:
  assumes "\<And>s t. s \<notin> C \<Longrightarrow> t \<in> allowed s \<Longrightarrow> t \<in> C \<Longrightarrow> s = g"
    and "s \<notin> C" and "path_from allowed s ts" and "set ts \<inter> C \<noteq> {}"
  shows "g \<in> set (s # ts)"
  using assms(2-4)
proof (induction ts arbitrary: s)
  case Nil
  then show ?case by simp
next
  case (Cons t ts)
  show ?case
  proof (cases "t \<in> C")
    case True
    with Cons.prems(1,2) assms(1) [of s t] show ?thesis by auto
  next
    case False
    with Cons show ?thesis by auto
  qed
qed

lemma non_terminal_exit: "\<not> terminal s \<Longrightarrow> \<exists>t. t \<in> allowed s"
  by (auto simp: terminal_iff)

end

locale guarded_graph = transition_graph allowed terminal
  for allowed :: "'s \<Rightarrow> 's set" and terminal :: "'s \<Rightarrow> bool" +
  fixes check :: "'s \<Rightarrow> 's \<Rightarrow> ('e, unit) result"
  assumes check_iff: "is_ok (check s t) \<longleftrightarrow> t \<in> allowed s"
begin

lemma check_terminal: "terminal s \<Longrightarrow> \<not> is_ok (check s t)"
  by (simp add: check_iff terminal_iff)

lemma checked_write_ok: "checked_write check s t = Inr u \<longleftrightarrow> t \<in> allowed s \<and> u = t"
  using check_iff [of s t] by (auto simp: checked_write_def bindR_eq_Inr is_ok_iff)

lemma checked_writes_path:
  "checked_writes check s ts = Inr u \<longleftrightarrow> path_from allowed s ts \<and> u = last (s # ts)"
  by (induction ts arbitrary: s)
    (auto simp: checked_writes_def bindR_eq_Inr checked_write_ok)

lemma terminal_absorbs: "terminal s \<Longrightarrow> checked_writes check s ts = Inr u \<Longrightarrow> ts = [] \<and> u = s"
  using terminal_path by (auto simp: checked_writes_path)

end

end
