(* ===== verification/RungMachine.thy ===== *)
theory RungMachine
  imports TransitionGraph
begin

text \<open>
  The rung state machine of \<open>app/services/order_proposals/state_machine.py\<close>: the states of
  one rung of a proposal, the locked transition graph, its terminal states and the check
  every state write goes through.
\<close>

section \<open>States\<close>

datatype rung_state =
    Draft | PendingApproval | Revalidating | NeedsReconfirm | Approved | Submitting
  | Acked | Resting | PartiallyFilled | Unverified
  | Filled | Cancelled | Expired | Rejected | Voided | VoidedLocalStale | Superseded

text \<open>The text the database and the Python code use for a state.\<close>

primrec state_name :: "rung_state \<Rightarrow> string" where
  "state_name Draft = ''draft''"
| "state_name PendingApproval = ''pending_approval''"
| "state_name Revalidating = ''revalidating''"
| "state_name NeedsReconfirm = ''needs_reconfirm''"
| "state_name Approved = ''approved''"
| "state_name Submitting = ''submitting''"
| "state_name Acked = ''acked''"
| "state_name Resting = ''resting''"
| "state_name PartiallyFilled = ''partially_filled''"
| "state_name Unverified = ''unverified''"
| "state_name Filled = ''filled''"
| "state_name Cancelled = ''cancelled''"
| "state_name Expired = ''expired''"
| "state_name Rejected = ''rejected''"
| "state_name Voided = ''voided''"
| "state_name VoidedLocalStale = ''voided_local_stale''"
| "state_name Superseded = ''superseded''"

definition RUNG_STATES :: "rung_state list" where
  "RUNG_STATES =
     [Draft, PendingApproval, Revalidating, NeedsReconfirm, Approved, Submitting,
      Acked, Resting, PartiallyFilled, Unverified,
      Filled, Cancelled, Expired, Rejected, Voided, VoidedLocalStale, Superseded]"

definition parse_rung_state :: "string \<Rightarrow> rung_state option" where
  "parse_rung_state t = find (\<lambda>s. state_name s = t) RUNG_STATES"

section \<open>The transition graph\<close>

fun ALLOWED :: "rung_state \<Rightarrow> rung_state set" where
  "ALLOWED Draft = {PendingApproval, Expired, Voided}"
| "ALLOWED PendingApproval =
     {Revalidating, Rejected, Expired, Voided, VoidedLocalStale, Superseded}"
| "ALLOWED Revalidating =
     {Approved, NeedsReconfirm, PendingApproval, Rejected, Superseded, Expired, Voided}"
| "ALLOWED NeedsReconfirm = {PendingApproval, Rejected, Superseded, Expired, Voided}"
| "ALLOWED Approved = {Submitting, PendingApproval, Superseded, Expired, Voided}"
| "ALLOWED Submitting =
     {PendingApproval, Acked, Resting, Rejected, Unverified, Cancelled}"
| "ALLOWED Acked = {Filled, PartiallyFilled, Cancelled, Unverified}"
| "ALLOWED Resting = {Filled, PartiallyFilled, Cancelled, Expired, Unverified}"
| "ALLOWED PartiallyFilled = {Filled, Cancelled, Expired, Unverified}"
| "ALLOWED Unverified =
     {Filled, PartiallyFilled, Cancelled, Expired, Rejected, VoidedLocalStale}"
| "ALLOWED _ = {}"

definition PROPOSAL_TERMINAL_STATES :: "rung_state set" where
  "PROPOSAL_TERMINAL_STATES = set (filter (\<lambda>s. ALLOWED s = {}) RUNG_STATES)"

definition is_terminal :: "rung_state \<Rightarrow> bool" where
  "is_terminal s \<longleftrightarrow> s \<in> PROPOSAL_TERMINAL_STATES"

datatype transition_error =
    UnknownRungState string
  | UnknownTargetState string
  | NotAllowed string string

definition assert_rung_transition :: "string \<Rightarrow> string \<Rightarrow> (transition_error, unit) result" where
  "assert_rung_transition current new =
     (case parse_rung_state current of
        None \<Rightarrow> Inl (UnknownRungState current)
      | Some c \<Rightarrow>
          (case parse_rung_state new of
             None \<Rightarrow> Inl (UnknownTargetState new)
           | Some n \<Rightarrow> if n \<notin> ALLOWED c then Inl (NotAllowed current new) else Inr ()))"

text \<open>The same check for columns that the database has already typed.\<close>

definition check_transition :: "rung_state \<Rightarrow> rung_state \<Rightarrow> (transition_error, unit) result" where
  "check_transition c n = assert_rung_transition (state_name c) (state_name n)"

section \<open>Names and states correspond\<close>

lemma RUNG_STATES_complete [simp]: "s \<in> set RUNG_STATES"
  by (cases s) (simp_all add: RUNG_STATES_def)

lemma state_name_inject: "state_name a = state_name b \<longleftrightarrow> a = b"
  by (cases a; cases b; simp)

lemma parse_state_name [simp]: "parse_rung_state (state_name s) = Some s"
  by (cases s) (simp_all add: parse_rung_state_def RUNG_STATES_def)

lemma parse_rung_state_Some: "parse_rung_state t = Some s \<longleftrightarrow> t = state_name s"
  using find_SomeD by (fastforce simp: parse_rung_state_def dest: find_SomeD
      simp: parse_state_name [unfolded parse_rung_state_def])

lemma check_transition_eq [simp]:
  "check_transition c n = Inr u \<longleftrightarrow> n \<in> ALLOWED c"
  "check_transition c n = Inl e \<longleftrightarrow> n \<notin> ALLOWED c \<and> e = NotAllowed (state_name c) (state_name n)"
  by (auto simp: check_transition_def assert_rung_transition_def)

lemma check_transition_ok: "n \<in> ALLOWED c \<Longrightarrow> check_transition c n = Inr ()"
  by simp

lemma is_terminal_iff: "is_terminal s \<longleftrightarrow> ALLOWED s = {}"
  by (simp add: is_terminal_def PROPOSAL_TERMINAL_STATES_def)

lemma is_terminal_simps [simp]:
  "is_terminal s \<longleftrightarrow>
     s \<in> {Filled, Cancelled, Expired, Rejected, Voided, VoidedLocalStale, Superseded}"
  by (cases s) (simp_all add: is_terminal_iff)

interpretation rung: guarded_graph ALLOWED is_terminal check_transition
  by unfold_locales (simp_all only: is_terminal_iff is_ok_iff check_transition_eq split_paired_Ex, auto)

section \<open>Runs of a rung\<close>

text \<open>
  A run is the list of states one rung goes through. A rung is inserted as a draft or, by
  \<open>create_proposal\<close>, as \<open>pending_approval\<close>.
\<close>

inductive rung_run :: "rung_state list \<Rightarrow> bool" where
  rung_start: "s \<in> {Draft, PendingApproval} \<Longrightarrow> rung_run [s]"
| rung_step: "rung_run (xs @ [s]) \<Longrightarrow> t \<in> ALLOWED s \<Longrightarrow> rung_run (xs @ [s, t])"

text \<open>States in which the order has left, or may have left, for the broker.\<close>

definition BROKER_SIDE :: "rung_state set" where
  "BROKER_SIDE = {Submitting, Acked, Resting, PartiallyFilled, Unverified, Filled, Cancelled}"

text \<open>States in which the broker is known, or must be assumed, to hold the order.\<close>

definition BROKER_OPEN :: "rung_state set" where
  "BROKER_OPEN = {Acked, Resting, PartiallyFilled, Unverified}"

text \<open>States from which an approval or a submission can still start.\<close>

definition PRE_BROKER :: "rung_state set" where
  "PRE_BROKER =
     {Draft, PendingApproval, Revalidating, NeedsReconfirm, Approved, Submitting}"

lemma rung_run_snoc:
  "rung_run (xs @ [t]) \<Longrightarrow>
     (xs = [] \<and> t \<in> {Draft, PendingApproval}) \<or>
     (\<exists>ys s. xs = ys @ [s] \<and> rung_run (ys @ [s]) \<and> t \<in> ALLOWED s)"
  by (cases rule: rung_run.cases) auto

lemma into_Approved: "Approved \<in> ALLOWED s \<longleftrightarrow> s = Revalidating"
  and into_Submitting: "Submitting \<in> ALLOWED s \<longleftrightarrow> s = Approved"
  by (cases s; simp)+

lemma into_BROKER_SIDE:
  "t \<in> BROKER_SIDE \<Longrightarrow> t \<in> ALLOWED s \<Longrightarrow> s \<in> BROKER_SIDE \<or> (s = Approved \<and> t = Submitting)"
  by (cases s) (auto simp: BROKER_SIDE_def)

lemma from_BROKER_OPEN:
  "s \<in> BROKER_OPEN \<Longrightarrow> t \<in> ALLOWED s \<Longrightarrow> t \<in> BROKER_OPEN \<or> is_terminal t"
  by (cases s) (auto simp: BROKER_OPEN_def)

lemma terminal_no_exit: "is_terminal s \<Longrightarrow> ALLOWED s = {}"
  by (simp only: is_terminal_iff)

lemma submitting_was_approved:
  assumes "rung_run (xs @ [Submitting])"
  shows "\<exists>us. xs = us @ [Revalidating, Approved]"
proof -
  obtain ys where ys: "xs = ys @ [Approved]" "rung_run (ys @ [Approved])"
    using rung_run_snoc [OF assms] by (auto simp: into_Submitting)
  obtain us where "ys = us @ [Revalidating]"
    using rung_run_snoc [OF ys(2)] by (auto simp: into_Approved)
  then show ?thesis using ys(1) by simp
qed

lemma run_tail_closed:
  assumes "rung_run zs" and "zs = xs @ s # ys" and "s \<in> BROKER_OPEN \<or> is_terminal s"
  shows "\<forall>t \<in> set ys. t \<in> BROKER_OPEN \<or> is_terminal t"
  using assms
proof (induction arbitrary: ys rule: rung_run.induct)
  case (rung_start t)
  then show ?case by (cases xs) auto
next
  case (rung_step us r t)
  show ?case
  proof (cases ys rule: rev_cases)
    case Nil
    then show ?thesis by simp
  next
    case (snoc ys' t')
    with rung_step.prems have eq: "us @ [r] = xs @ s # ys'" and t': "t' = t" by auto
    have IH: "\<forall>t \<in> set ys'. t \<in> BROKER_OPEN \<or> is_terminal t"
      using rung_step.IH [OF eq rung_step.prems(2)] .
    have "r \<in> set (s # ys')" using eq by (metis last_appendR last_in_set last_snoc list.distinct(1))
    then have "r \<in> BROKER_OPEN \<or> is_terminal r" using IH rung_step.prems(2) by auto
    then have "t \<in> BROKER_OPEN \<or> is_terminal t"
      using rung_step.hyps(2) from_BROKER_OPEN terminal_no_exit by blast
    with IH t' snoc show ?thesis by auto
  qed
qed

text \<open>
  C16: an order reaches the broker side (submitting, acknowledged, resting, filled,
  cancelled, unverified) only through a revalidation and an approval: the run holds
  revalidating, approved, submitting in a row, and everything after is on the broker side.
\<close>

theorem broker_side_was_revalidated_and_approved:
  assumes "rung_run (xs @ [s])" and "s \<in> BROKER_SIDE"
  shows "\<exists>us vs. xs @ [s] = us @ [Revalidating, Approved, Submitting] @ vs \<and> set vs \<subseteq> BROKER_SIDE"
  using assms
proof (induction "length xs" arbitrary: xs s rule: less_induct)
  case less
  show ?case
  proof (cases "s = Submitting")
    case True
    with submitting_was_approved less.prems(1) obtain us where "xs = us @ [Revalidating, Approved]"
      by blast
    then have "xs @ [s] = us @ [Revalidating, Approved, Submitting] @ []" by (simp add: True)
    then show ?thesis by (metis empty_set empty_subsetI)
  next
    case False
    obtain ys r where ys: "xs = ys @ [r]" "rung_run (ys @ [r])" "s \<in> ALLOWED r"
      using rung_run_snoc [OF less.prems(1)] less.prems(2) by (auto simp: BROKER_SIDE_def)
    have "r \<in> BROKER_SIDE" using into_BROKER_SIDE [OF less.prems(2) ys(3)] False by blast
    then obtain us vs where "ys @ [r] = us @ [Revalidating, Approved, Submitting] @ vs"
      and vs: "set vs \<subseteq> BROKER_SIDE"
      using less.hyps [of ys r] ys by auto
    then have "xs @ [s] = us @ [Revalidating, Approved, Submitting] @ (vs @ [s])"
      using ys(1) by simp
    moreover have "set (vs @ [s]) \<subseteq> BROKER_SIDE" using vs less.prems(2) by simp
    ultimately show ?thesis by blast
  qed
qed

lemma sample_run: "rung_run [PendingApproval, Revalidating, Approved, Submitting, Resting]"
  using rung_step [of "[PendingApproval, Revalidating, Approved]" Submitting Resting]
    rung_step [of "[PendingApproval, Revalidating]" Approved Submitting]
    rung_step [of "[PendingApproval]" Revalidating Approved]
    rung_step [of "[]" PendingApproval Revalidating] rung_start [of PendingApproval]
  by simp

theorem broker_side_was_revalidated_and_approved_witness:
  "\<exists>us vs. [PendingApproval, Revalidating, Approved, Submitting] @ [Resting]
     = us @ [Revalidating, Approved, Submitting] @ vs \<and> set vs \<subseteq> BROKER_SIDE"
  by (rule broker_side_was_revalidated_and_approved)
    (simp_all add: sample_run BROKER_SIDE_def)

text \<open>
  once the broker holds, or may hold, the order, no later state of the rung lets an
  approval or a submission start again: a rung is never submitted a second time.
\<close>

theorem no_resubmission_after_broker:
  assumes "rung_run (xs @ s # ys)" and "s \<in> BROKER_OPEN"
  shows "set ys \<inter> PRE_BROKER = {}"
proof -
  have "\<forall>t \<in> set ys. t \<in> BROKER_OPEN \<or> is_terminal t"
    using run_tail_closed [OF assms(1) refl] assms(2) by blast
  then show ?thesis by (auto simp: BROKER_OPEN_def PRE_BROKER_def)
qed

theorem no_resubmission_after_broker_witness:
  "set [Filled] \<inter> PRE_BROKER = {}"
proof (rule no_resubmission_after_broker)
  show "rung_run ([PendingApproval, Revalidating, Approved, Submitting] @ Resting # [Filled])"
    using rung_step [of "[PendingApproval, Revalidating, Approved, Submitting]" Resting Filled]
      sample_run by simp
  show "Resting \<in> BROKER_OPEN" by (simp add: BROKER_OPEN_def)
qed

text \<open>
  the string-level check raises exactly when one of the two strings is no rung state or
  the edge is not in the graph, and names the first such reason.
\<close>

theorem assert_rung_transition_cases:
  "assert_rung_transition cur new =
     (if \<forall>c. cur \<noteq> state_name c then Inl (UnknownRungState cur)
      else if \<forall>n. new \<noteq> state_name n then Inl (UnknownTargetState new)
      else if \<exists>c n. cur = state_name c \<and> new = state_name n \<and> n \<in> ALLOWED c then Inr ()
      else Inl (NotAllowed cur new))"
proof (cases "parse_rung_state cur")
  case None
  then have "\<forall>c. cur \<noteq> state_name c" by auto
  with None show ?thesis by (simp add: assert_rung_transition_def)
next
  case (Some c)
  then have c: "cur = state_name c" by (simp add: parse_rung_state_Some)
  show ?thesis
  proof (cases "parse_rung_state new")
    case None
    then have "\<forall>n. new \<noteq> state_name n" by auto
    with Some c None show ?thesis by (auto simp: assert_rung_transition_def)
  next
    case (Some n)
    then have "new = state_name n" by (simp add: parse_rung_state_Some)
    with c show ?thesis
      by (auto simp: assert_rung_transition_def state_name_inject)
  qed
qed

section \<open>The graph as the error module documents it\<close>

text \<open>
  The docstring of \<open>OrderProposalInvalidStateTransition\<close> in \<open>errors.py\<close> repeats the graph
  "for locality"; this is that copy.
\<close>

fun documented_graph :: "rung_state \<Rightarrow> rung_state set" where
  "documented_graph PendingApproval =
     {Revalidating, Rejected, Voided, VoidedLocalStale, Superseded}"
| "documented_graph Revalidating =
     {Approved, NeedsReconfirm, PendingApproval, Superseded, Voided}"
| "documented_graph NeedsReconfirm = {PendingApproval, Rejected, Superseded, Voided}"
| "documented_graph Approved = {Submitting, Superseded, Voided}"
| "documented_graph Submitting = {Acked, Resting, Rejected, Unverified}"
| "documented_graph Acked = {Filled, PartiallyFilled, Cancelled, Unverified}"
| "documented_graph Resting = {Filled, PartiallyFilled, Cancelled, Expired, Unverified}"
| "documented_graph PartiallyFilled = {Filled, Cancelled, Expired, Unverified}"
| "documented_graph Unverified =
     {Filled, PartiallyFilled, Cancelled, Expired, Rejected, VoidedLocalStale}"
| "documented_graph Draft = {PendingApproval, Voided}"
| "documented_graph _ = {}"

text \<open>
  the documented graph and the enforced one differ in exactly nine edges, all of them
  transitions that the code allows and the documentation denies: local expiry, rejection
  during revalidation, the two returns to pending approval and a cancel while submitting.
\<close>

theorem documented_graph_misses_nine_edges:
  "{(c, n). n \<in> ALLOWED c} - {(c, n). n \<in> documented_graph c} =
     {(Draft, Expired), (PendingApproval, Expired), (Revalidating, Expired),
      (NeedsReconfirm, Expired), (Approved, Expired), (Revalidating, Rejected),
      (Approved, PendingApproval), (Submitting, PendingApproval), (Submitting, Cancelled)}
   \<and> {(c, n). n \<in> documented_graph c} \<subseteq> {(c, n). n \<in> ALLOWED c}"
proof (intro conjI set_eqI subsetI; clarify?)
  fix p :: "rung_state \<times> rung_state"
  show "p \<in> {(c, n). n \<in> ALLOWED c} - {(c, n). n \<in> documented_graph c} \<longleftrightarrow>
     p \<in> {(Draft, Expired), (PendingApproval, Expired), (Revalidating, Expired),
      (NeedsReconfirm, Expired), (Approved, Expired), (Revalidating, Rejected),
      (Approved, PendingApproval), (Submitting, PendingApproval), (Submitting, Cancelled)}"
    by (cases p; cases "fst p") auto
next
  fix c n
  assume "n \<in> documented_graph c"
  then show "n \<in> ALLOWED c" by (cases c) auto
qed

end
