(* ===== verification/Telegram.thy ===== *)
theory Telegram
  imports Prelude
begin

text \<open>
  The transport contract of \<open>app/telegram_contract.py\<close>: text size in UTF-16 code units,
  lossless splitting, and the closed classification of Telegram failures. A Python string
  is the list of its code points.
\<close>

section \<open>Text size\<close>

type_synonym pytext = "int list"

datatype text_error = UnicodeEncodeError | MaxUnitsNotPositive | CharacterExceedsMaxUnits

definition TELEGRAM_SEND_MESSAGE_TEXT_LIMIT :: int where
  "TELEGRAM_SEND_MESSAGE_TEXT_LIMIT = 4096"

text \<open>
  \<open>str.encode("utf-16-le")\<close>: two bytes for a code point of the basic plane, four above
  it, and \<open>UnicodeEncodeError\<close> on a surrogate.
\<close>

definition surrogate :: "int \<Rightarrow> bool" where
  "surrogate c \<longleftrightarrow> 0xD800 \<le> c \<and> c \<le> 0xDFFF"

definition utf16_bytes :: "int \<Rightarrow> int" where
  "utf16_bytes c = (if c < 0x10000 then 2 else 4)"

definition telegram_text_length :: "pytext \<Rightarrow> (text_error, int) result" where
  "telegram_text_length t =
     (if \<exists>c \<in> set t. surrogate c then Inl UnicodeEncodeError
      else Inr (sum_list (map utf16_bytes t) div 2))"

definition telegram_text_within_limit :: "pytext \<Rightarrow> (text_error, bool) result" where
  "telegram_text_within_limit t =
     bindR (telegram_text_length t) (\<lambda>n. Inr (n \<le> TELEGRAM_SEND_MESSAGE_TEXT_LIMIT))"

section \<open>Splitting\<close>

text \<open>
  The loop of \<open>split_telegram_text\<close>. Its locals are the chunks so far, the open chunk
  \<open>text[start:index]\<close> and \<open>used_units\<close>; at the end the open chunk \<open>text[start:]\<close> is
  appended.
\<close>

fun split_loop ::
  "int \<Rightarrow> pytext list \<Rightarrow> pytext \<Rightarrow> int \<Rightarrow> pytext \<Rightarrow> (text_error, pytext list) result" where
  "split_loop max_units chunks cur used [] = Inr (chunks @ [cur])"
| "split_loop max_units chunks cur used (c # rest) =
     bindR (telegram_text_length [c]) (\<lambda>units.
       if units > max_units then Inl CharacterExceedsMaxUnits
       else if used + units > max_units
         then split_loop max_units (chunks @ [cur]) [c] units rest
         else split_loop max_units chunks (cur @ [c]) (used + units) rest)"

definition split_telegram_text :: "pytext \<Rightarrow> int \<Rightarrow> (text_error, pytext list) result" where
  "split_telegram_text t max_units =
     (if max_units \<le> 0 then Inl MaxUnitsNotPositive
      else if t = [] then Inr [[]]
      else split_loop max_units [] [] 0 t)"

definition text_units :: "pytext \<Rightarrow> int" where
  "text_units t = sum_list (map utf16_bytes t) div 2"

lemma utf16_bytes_even: "utf16_bytes c = 2 * (utf16_bytes c div 2)"
  by (simp add: utf16_bytes_def)

lemma text_units_Nil [simp]: "text_units [] = 0"
  by (simp add: text_units_def)

lemma sum_utf16_even: "even (sum_list (map utf16_bytes t))"
  by (induction t) (auto simp: utf16_bytes_def)

lemma text_units_append [simp]: "text_units (s @ t) = text_units s + text_units t"
  using sum_utf16_even by (simp add: text_units_def div_plus_div_distrib_dvd_left)

lemma text_units_singleton_pos: "0 < text_units [c]"
  by (simp add: text_units_def utf16_bytes_def)

lemma telegram_text_length_eq:
  "telegram_text_length t = Inr n \<longleftrightarrow> (\<forall>c \<in> set t. \<not> surrogate c) \<and> n = text_units t"
  by (auto simp: telegram_text_length_def text_units_def)

text \<open>The invariant of the loop, over everything the loop has read and will read.\<close>

lemma split_loop_correct:
  assumes "split_loop m chunks cur used rest = Inr out"
    and "used = text_units cur" and "used \<le> m"
    and "\<forall>ch \<in> set chunks. text_units ch \<le> m \<and> ch \<noteq> []"
    and "cur \<noteq> [] \<or> (chunks = [] \<and> rest \<noteq> [])"
  shows "concat out = concat chunks @ cur @ rest
    \<and> (\<forall>ch \<in> set out. text_units ch \<le> m \<and> ch \<noteq> [])"
  using assms
proof (induction m chunks cur used rest rule: split_loop.induct)
  case (1 m chunks cur used)
  then show ?case by auto
next
  case (2 m chunks cur used c rest)
  from "2.prems"(1) obtain units where u: "telegram_text_length [c] = Inr units"
    by (auto simp: bindR_eq_Inr)
  then have units: "units = text_units [c]" by (simp add: telegram_text_length_eq)
  from "2.prems"(1) u have le: "\<not> units > m" by (auto split: if_splits)
  show ?case
  proof (cases "used + units > m")
    case True
    with le units have ne: "cur \<noteq> []" using "2.prems"(2) by (cases cur) auto
    have "concat out = concat (chunks @ [cur]) @ [c] @ rest
      \<and> (\<forall>ch \<in> set out. text_units ch \<le> m \<and> ch \<noteq> [])"
      by (rule "2.IH"(1) [OF u le True]) (use "2.prems" u le True units ne in auto)
    then show ?thesis by simp
  next
    case False
    have "concat out = concat chunks @ (cur @ [c]) @ rest
      \<and> (\<forall>ch \<in> set out. text_units ch \<le> m \<and> ch \<noteq> [])"
      by (rule "2.IH"(2) [OF u le False]) (use "2.prems" u le False units in auto)
    then show ?thesis by simp
  qed
qed

lemma split_loop_total:
  assumes "\<forall>c \<in> set rest. \<not> surrogate c \<and> text_units [c] \<le> m"
  shows "is_ok (split_loop m chunks cur used rest)"
  using assms
proof (induction m chunks cur used rest rule: split_loop.induct)
  case (1 m chunks cur used)
  then show ?case by simp
next
  case (2 m chunks cur used c rest)
  have u: "telegram_text_length [c] = Inr (text_units [c])"
    using "2.prems" by (simp add: telegram_text_length_eq)
  have le: "\<not> text_units [c] > m" using "2.prems" by simp
  show ?case using "2.IH" [OF u le] "2.prems" u le by simp
qed

lemma split_loop_ok_iff:
  "is_ok (split_loop m chunks cur used rest) \<longleftrightarrow>
     (\<forall>c \<in> set rest. \<not> surrogate c \<and> text_units [c] \<le> m)"
proof
  show "\<forall>c \<in> set rest. \<not> surrogate c \<and> text_units [c] \<le> m"
    if "is_ok (split_loop m chunks cur used rest)"
    using that
  proof (induction m chunks cur used rest rule: split_loop.induct)
    case (1 m chunks cur used)
    then show ?case by simp
  next
    case (2 m chunks cur used c rest)
    from "2.prems" obtain units where u: "telegram_text_length [c] = Inr units"
      by (cases "telegram_text_length [c]") auto
    then have c: "\<not> surrogate c" "units = text_units [c]"
      by (simp_all add: telegram_text_length_eq)
    from "2.prems" u have le: "\<not> units > m" by (auto split: if_splits)
    show ?case
      using "2.IH" [OF u le] "2.prems" u le c by (cases "used + units > m") auto
  qed
qed (rule split_loop_total)

text \<open>
  splitting loses and rewrites nothing, every chunk passes the size check it was made
  for, and only the empty text yields an empty chunk; it raises exactly when the limit is
  not positive or one character cannot be encoded or alone exceeds the limit.
\<close>

theorem split_telegram_text_lossless:
  "case split_telegram_text t max_units of
     Inl e \<Rightarrow> max_units \<le> 0 \<or> (\<exists>c \<in> set t. surrogate c \<or> text_units [c] > max_units)
   | Inr chunks \<Rightarrow> concat chunks = t \<and> (t \<noteq> [] \<longrightarrow> [] \<notin> set chunks) \<and>
       (\<forall>ch \<in> set chunks. \<exists>n \<le> max_units. telegram_text_length ch = Inr n)"
proof (cases "max_units \<le> 0 \<or> t = []")
  case True
  then show ?thesis
    by (auto simp: split_telegram_text_def telegram_text_length_def)
next
  case False
  then have e: "split_telegram_text t max_units = split_loop max_units [] [] 0 t"
    by (simp add: split_telegram_text_def)
  note iff = split_loop_ok_iff [of max_units "[]" "[]" 0 t]
  show ?thesis
  proof (cases "split_loop max_units [] [] 0 t")
    case (Inl err)
    with iff e show ?thesis by (auto simp: not_le)
  next
    case (Inr chunks)
    have c: "concat chunks = t" and b: "\<forall>ch \<in> set chunks. text_units ch \<le> max_units \<and> ch \<noteq> []"
      using split_loop_correct [OF Inr] False by auto
    have "\<forall>ch \<in> set chunks. \<forall>x \<in> set ch. \<not> surrogate x"
      using iff Inr c [symmetric] by (auto simp only: set_concat is_ok_simps)
    with b c Inr e show ?thesis by (auto simp: telegram_text_length_eq)
  qed
qed

lemma split_telegram_text_lossless_witness:
  "split_telegram_text [97, 98, 128512, 99] 2 = Inr [[97, 98], [128512], [99]] \<and>
   concat [[97, 98], [128512], [99]] = [97, 98, 128512, 99 :: int] \<and>
   (\<exists>n \<le> 2. telegram_text_length [128512] = Inr n)"
proof -
  have e: "split_telegram_text [97, 98, 128512, 99] 2 = Inr [[97, 98], [128512], [99]]" by code_simp
  then show ?thesis using split_telegram_text_lossless [where t = "[97, 98, 128512, 99]" and max_units = 2] by simp
qed

section \<open>Failure classification\<close>

datatype telegram_error_classification =
    PAYLOAD_TOO_LONG | BAD_REQUEST | UNAUTHORIZED | FORBIDDEN | NOT_FOUND | CONFLICT
  | RATE_LIMITED | SERVER_ERROR | TRANSPORT_ERROR | INVALID_RESPONSE | NOT_CONFIGURED
  | UNKNOWN_TELEGRAM_ERROR

definition classify_telegram_error ::
  "int option \<Rightarrow> int option \<Rightarrow> telegram_error_classification" where
  "classify_telegram_error status_code error_code =
     (let numeric = (case error_code of Some e \<Rightarrow> Some e | None \<Rightarrow> status_code) in
      if numeric = Some 400 then BAD_REQUEST
      else if numeric = Some 401 then UNAUTHORIZED
      else if numeric = Some 403 then FORBIDDEN
      else if numeric = Some 404 then NOT_FOUND
      else if numeric = Some 409 then CONFLICT
      else if numeric = Some 429 then RATE_LIMITED
      else (case numeric of
              Some n \<Rightarrow> if 500 \<le> n \<and> n \<le> 599 then SERVER_ERROR else UNKNOWN_TELEGRAM_ERROR
            | None \<Rightarrow> UNKNOWN_TELEGRAM_ERROR))"

text \<open>The remote \<open>description\<close>: any Python object, a string or not.\<close>

datatype description = DescText string | DescOther

definition KNOWN_TELEGRAM_DESCRIPTIONS :: "(string \<times> telegram_error_classification) list" where
  "KNOWN_TELEGRAM_DESCRIPTIONS = [(''Bad Request: message is too long'', PAYLOAD_TOO_LONG)]"

fun classify_telegram_response_error ::
  "int option \<Rightarrow> int option \<Rightarrow> description \<Rightarrow> telegram_error_classification" where
  "classify_telegram_response_error status_code error_code (DescText d) =
     (case map_of KNOWN_TELEGRAM_DESCRIPTIONS d of
        Some c \<Rightarrow> c | None \<Rightarrow> UNKNOWN_TELEGRAM_ERROR)"
| "classify_telegram_response_error status_code error_code DescOther =
     classify_telegram_error status_code error_code"

record telegram_method_result =
  tm_ok :: bool
  tm_message_id :: "int option"
  tm_status_code :: "int option"
  tm_error_code :: "int option"
  tm_error_classification :: "telegram_error_classification option"
  tm_payload_chars :: int
  tm_failure_code :: "string option"

definition telegram_method_failed ::
  "int \<Rightarrow> string \<Rightarrow> int option \<Rightarrow> int option \<Rightarrow> telegram_error_classification option
   \<Rightarrow> telegram_method_result" where
  "telegram_method_failed payload_chars failure_code status_code error_code classification =
     \<lparr>tm_ok = False, tm_message_id = None, tm_status_code = status_code,
      tm_error_code = error_code, tm_error_classification = classification,
      tm_payload_chars = payload_chars, tm_failure_code = Some failure_code\<rparr>"

text \<open>
  Untrusted text never chooses the category: two texts that are both off the allow-list
  classify alike, whatever they hold.
\<close>

lemma description_not_generalised:
  "d \<notin> fst ` set KNOWN_TELEGRAM_DESCRIPTIONS \<Longrightarrow>
   classify_telegram_response_error s e (DescText d) = UNKNOWN_TELEGRAM_ERROR"
  by (auto simp: KNOWN_TELEGRAM_DESCRIPTIONS_def)

end
