(* ===== verification/ApprovalContract.thy ===== *)
theory ApprovalContract
  imports Telegram
begin

text \<open>
  The pure contracts of an approval card: the validity window of
  \<open>approval_window_contract.py\<close>, and the publication, ownership and callback contracts of
  \<open>dispatch_contract.py\<close>.
\<close>

section \<open>Validity of a proposal\<close>

datatype approval_window_code =
    ALLOW | EXPIRED | INVALID_VALID_UNTIL | DEFER_SESSION_CLOSED | CALENDAR_UNKNOWN
  | NO_EXECUTABLE_WINDOW

fun window_code_value :: "approval_window_code \<Rightarrow> string" where
  "window_code_value ALLOW = ''ALLOW''"
| "window_code_value EXPIRED = ''EXPIRED''"
| "window_code_value INVALID_VALID_UNTIL = ''INVALID_VALID_UNTIL''"
| "window_code_value DEFER_SESSION_CLOSED = ''DEFER_SESSION_CLOSED''"
| "window_code_value CALENDAR_UNKNOWN = ''CALENDAR_UNKNOWN''"
| "window_code_value NO_EXECUTABLE_WINDOW = ''NO_EXECUTABLE_WINDOW''"

datatype window_error = WindowNowNaive

primrec aware_object :: "pyobject \<Rightarrow> bool" where
  "aware_object PyNone = False"
| "aware_object (PyDatetime d) = aware d"
| "aware_object PyOther = False"

definition valid_until_block ::
  "pyobject \<Rightarrow> pydatetime \<Rightarrow> (window_error, (approval_window_code \<times> string) option) result"
  where
  "valid_until_block value now =
     (if \<not> aware_object (PyDatetime now) then Inl WindowNowNaive
      else case value of
        PyNone \<Rightarrow> Inr (Some (INVALID_VALID_UNTIL, ''valid_until_missing''))
      | PyOther \<Rightarrow> Inr (Some (INVALID_VALID_UNTIL, ''valid_until_invalid_type''))
      | PyDatetime d \<Rightarrow>
          if \<not> aware_object value then Inr (Some (INVALID_VALID_UNTIL, ''valid_until_naive''))
          else if instant now \<ge> instant d then Inr (Some (EXPIRED, ''now_at_or_after_valid_until''))
          else Inr None)"

text \<open>A \<open>valid_until\<close> column as the Python object the service passes.\<close>

definition column_datetime :: "int option \<Rightarrow> pyobject" where
  "column_datetime c = (case c of None \<Rightarrow> PyNone | Some t \<Rightarrow> PyDatetime (Aware t))"

lemma valid_until_block_column:
  "valid_until_block (column_datetime c) (Aware t) =
     Inr (case c of
            None \<Rightarrow> Some (INVALID_VALID_UNTIL, ''valid_until_missing'')
          | Some v \<Rightarrow> if t \<ge> v then Some (EXPIRED, ''now_at_or_after_valid_until'') else None)"
  by (simp add: valid_until_block_def column_datetime_def split: option.splits)

section \<open>Dispatch states and card kinds\<close>

datatype dispatch_state =
    DPending | SentCurrent | SentSuperseded | DFailed | PartialFailed | FailedSuperseded

primrec dispatch_state_value :: "dispatch_state \<Rightarrow> string" where
  "dispatch_state_value DPending = ''pending''"
| "dispatch_state_value SentCurrent = ''sent_current''"
| "dispatch_state_value SentSuperseded = ''sent_superseded''"
| "dispatch_state_value DFailed = ''failed''"
| "dispatch_state_value PartialFailed = ''partial_failed''"
| "dispatch_state_value FailedSuperseded = ''failed_superseded''"

definition approvable :: "dispatch_state \<Rightarrow> bool" where
  "approvable s \<longleftrightarrow> s = SentCurrent"

definition caller_state :: "dispatch_state \<Rightarrow> string" where
  "caller_state s =
     (if s = SentCurrent then ''sent''
      else if s \<in> {SentSuperseded, FailedSuperseded} then ''superseded''
      else dispatch_state_value s)"

datatype card_kind = Manual | Reconfirm | AutoVeto | LossCutConfirmation | Batch

fun ACTIONS_BY_CARD_KIND :: "card_kind \<Rightarrow> string set" where
  "ACTIONS_BY_CARD_KIND Manual = {''op'', ''dn''}"
| "ACTIONS_BY_CARD_KIND Reconfirm = {''op'', ''dn''}"
| "ACTIONS_BY_CARD_KIND AutoVeto = {''vc''}"
| "ACTIONS_BY_CARD_KIND LossCutConfirmation = {''lc'', ''dn''}"
| "ACTIONS_BY_CARD_KIND Batch = {''ba''}"

text \<open>A UUID is its canonical text, so that \<open>str(uuid)[:8]\<close> is a prefix of it.\<close>

type_synonym uuid = string

record dispatch_binding =
  b_attempt_id :: uuid
  b_card_kind :: card_kind
  b_membership_revision :: int
  b_membership_digest :: string

record callback_envelope =
  cb_action :: string
  cb_subject_short :: string
  cb_attempt_id :: uuid
  cb_membership_revision :: int
  cb_membership_digest :: string
  cb_nonce :: string

record callback_gate_snapshot =
  sn_subject_short :: string
  sn_state :: dispatch_state
  sn_attempt_id :: "uuid option"
  sn_card_kind :: "card_kind option"
  sn_membership_revision :: "int option"
  sn_membership_digest :: "string option"
  sn_nonce :: "string option"
  sn_nonce_used :: bool

section \<open>The one gate of every nonce consumer\<close>

datatype gate_error =
    SubjectMismatch | DispatchNotCurrent dispatch_state | AttemptMismatch | NonceMismatch
  | NonceReplay | RevisionMismatch | DigestMismatch | CardActionMismatch

definition assert_callback_gate ::
  "callback_gate_snapshot \<Rightarrow> callback_envelope \<Rightarrow> (gate_error, unit) result" where
  "assert_callback_gate snapshot callback =
     (if sn_subject_short snapshot \<noteq> cb_subject_short callback then Inl SubjectMismatch
      else if sn_state snapshot \<noteq> SentCurrent then Inl (DispatchNotCurrent (sn_state snapshot))
      else if sn_attempt_id snapshot \<noteq> Some (cb_attempt_id callback) then Inl AttemptMismatch
      else if sn_nonce snapshot \<noteq> Some (cb_nonce callback) then Inl NonceMismatch
      else if sn_nonce_used snapshot then Inl NonceReplay
      else if sn_membership_revision snapshot \<noteq> Some (cb_membership_revision callback)
        then Inl RevisionMismatch
      else if sn_membership_digest snapshot \<noteq> Some (cb_membership_digest callback)
        then Inl DigestMismatch
      else (case sn_card_kind snapshot of
              None \<Rightarrow> Inl CardActionMismatch
            | Some k \<Rightarrow> if cb_action callback \<notin> ACTIONS_BY_CARD_KIND k
                then Inl CardActionMismatch else Inr ()))"

text \<open>
  What a passed gate guarantees, as one record of facts: this is the contract the service
  relies on.
\<close>

definition gate_open :: "callback_gate_snapshot \<Rightarrow> callback_envelope \<Rightarrow> bool" where
  "gate_open sn cb \<longleftrightarrow>
     sn_subject_short sn = cb_subject_short cb \<and> approvable (sn_state sn) \<and>
     sn_attempt_id sn = Some (cb_attempt_id cb) \<and> sn_nonce sn = Some (cb_nonce cb) \<and>
     \<not> sn_nonce_used sn \<and>
     sn_membership_revision sn = Some (cb_membership_revision cb) \<and>
     sn_membership_digest sn = Some (cb_membership_digest cb) \<and>
     (\<exists>k. sn_card_kind sn = Some k \<and> cb_action cb \<in> ACTIONS_BY_CARD_KIND k)"

lemma assert_callback_gate_iff: "assert_callback_gate sn cb = Inr u \<longleftrightarrow> gate_open sn cb"
  by (auto simp: assert_callback_gate_def gate_open_def approvable_def split: option.splits)

section \<open>Membership digests\<close>

text \<open>
  \<open>build_membership_digest\<close> hashes the canonical JSON text of the card kind, the revision
  and the members with SHA-256 and keeps nine bytes. The hash of the standard library is a
  parameter \<open>h\<close> on the structured content, of which the canonical text is a faithful copy.
\<close>

type_synonym member = "uuid \<times> string option"
type_synonym digest_fn = "card_kind \<times> int \<times> member list \<Rightarrow> string"

definition build_membership_digest ::
  "digest_fn \<Rightarrow> card_kind \<Rightarrow> int \<Rightarrow> member list \<Rightarrow> string" where
  "build_membership_digest h card_kind membership_revision members =
     h (card_kind, membership_revision, members)"

definition build_proposal_dispatch_binding ::
  "digest_fn \<Rightarrow> uuid \<Rightarrow> string option \<Rightarrow> uuid \<Rightarrow> card_kind \<Rightarrow> int option \<Rightarrow> dispatch_binding"
  where
  "build_proposal_dispatch_binding h proposal_id nonce attempt_id card_kind current_revision =
     (let revision = (case current_revision of None \<Rightarrow> 0 | Some r \<Rightarrow> r) + 1;
          digest = build_membership_digest h card_kind revision [(proposal_id, nonce)]
      in \<lparr>b_attempt_id = attempt_id, b_card_kind = card_kind,
          b_membership_revision = revision, b_membership_digest = digest\<rparr>)"

section \<open>Publications and results\<close>

record approval_publication =
  p_card_published :: bool
  p_partial :: bool
  p_message_id :: "int option"
  p_status_code :: "int option"
  p_error_code :: "int option"
  p_error_classification :: "telegram_error_classification option"
  p_payload_chars :: int
  p_failure_code :: "string option"

definition publication_failed ::
  "int \<Rightarrow> string \<Rightarrow> bool \<Rightarrow> telegram_method_result option \<Rightarrow> approval_publication" where
  "publication_failed payload_chars failure_code partial method_result =
     \<lparr>p_card_published = False, p_partial = partial, p_message_id = None,
      p_status_code = (case method_result of Some m \<Rightarrow> tm_status_code m | None \<Rightarrow> None),
      p_error_code = (case method_result of Some m \<Rightarrow> tm_error_code m | None \<Rightarrow> None),
      p_error_classification =
        (case method_result of Some m \<Rightarrow> tm_error_classification m | None \<Rightarrow> None),
      p_payload_chars = payload_chars, p_failure_code = Some failure_code\<rparr>"

datatype publication_error = PublishedNeedsTelegramSuccess

definition publication_published ::
  "int \<Rightarrow> telegram_method_result \<Rightarrow> (publication_error, approval_publication) result" where
  "publication_published payload_chars method_result =
     (if \<not> tm_ok method_result \<or> tm_message_id method_result = None
      then Inl PublishedNeedsTelegramSuccess
      else Inr \<lparr>p_card_published = True, p_partial = False,
                p_message_id = tm_message_id method_result,
                p_status_code = tm_status_code method_result,
                p_error_code = None, p_error_classification = None,
                p_payload_chars = payload_chars, p_failure_code = None\<rparr>)"

record telegram_dispatch_result =
  d_state :: dispatch_state
  d_message_id :: "int option"
  d_status_code :: "int option"
  d_error_code :: "int option"
  d_error_classification :: "telegram_error_classification option"
  d_payload_chars :: int
  d_failure_code :: "string option"

definition dispatch_ok :: "telegram_dispatch_result \<Rightarrow> bool" where
  "dispatch_ok r \<longleftrightarrow> d_state r = SentCurrent"

definition dispatch_approvable :: "telegram_dispatch_result \<Rightarrow> bool" where
  "dispatch_approvable r = approvable (d_state r)"

definition from_publication ::
  "approval_publication \<Rightarrow> dispatch_state \<Rightarrow> string option \<Rightarrow> telegram_dispatch_result" where
  "from_publication publication state failure_code =
     \<lparr>d_state = state, d_message_id = p_message_id publication,
      d_status_code = p_status_code publication, d_error_code = p_error_code publication,
      d_error_classification = p_error_classification publication,
      d_payload_chars = p_payload_chars publication,
      d_failure_code =
        (if state = SentCurrent then None
         else if failure_code \<noteq> None then failure_code
         else p_failure_code publication)\<rparr>"

lemma dispatch_ok_approvable: "dispatch_ok r = dispatch_approvable r"
  by (simp add: dispatch_ok_def dispatch_approvable_def approvable_def)

lemma from_publication_state [simp]: "d_state (from_publication p s f) = s"
  by (simp add: from_publication_def)

end
