(* ===== verification/ProposalStore.thy ===== *)
theory ProposalStore
  imports RungMachine ApprovalContract PyText
begin

text \<open>
  The tables of \<open>app/models/order_proposals.py\<close> that the proposal service works on, and the
  queries and writes of \<open>app/services/order_proposals/repository.py\<close>. A transaction is a
  function from the store to a result: a raise leaves no store behind, as the caller rolls
  the transaction back.
\<close>

section \<open>JSON columns\<close>

text \<open>
  \<open>JTime\<close> is the ISO-8601 text of an aware datetime, kept as its instant; \<open>JStr\<close> is any
  other text. Objects are dictionaries in insertion order.
\<close>

datatype json =
  JNull | JBool bool | JInt int | JStr string | JTime int | JArr "json list"
  | JObj "(string \<times> json) list"

type_synonym dict = "(string \<times> json) list"

definition dict_set :: "string \<Rightarrow> json \<Rightarrow> dict \<Rightarrow> dict" where
  "dict_set k v d = AList.update k v d"

definition dict_get :: "dict \<Rightarrow> string \<Rightarrow> json option" where
  "dict_get d k = map_of d k"

fun is_dict :: "json option \<Rightarrow> bool" where
  "is_dict (Some (JObj _)) = True"
| "is_dict _ = False"

lemma dict_get_set [simp, store_simps]:
  "dict_get (dict_set k v d) k' = (if k' = k then Some v else dict_get d k')"
  by (simp add: dict_get_def dict_set_def update_conv')

text \<open>\<open>group.source_asof or dict()\<close>, and \<open>source_asof or None\<close> on the way back.\<close>

definition or_empty :: "dict option \<Rightarrow> dict" where
  "or_empty d = (case d of None \<Rightarrow> [] | Some x \<Rightarrow> x)"

definition or_none :: "dict \<Rightarrow> dict option" where
  "or_none d = (if d = [] then None else Some d)"

lemma or_empty_simps [simp]: "or_empty None = []" "or_empty (Some d) = d"
  by (simp_all add: or_empty_def)

lemma or_empty_or_none [simp]: "or_empty (or_none d) = d"
  by (simp add: or_none_def)

section \<open>Rows\<close>

datatype group_state =
    Proposed | GApproved | PartiallySubmitted | Submitted | Terminal | GRejected
  | GExpired | GVoided | GSuperseded

record order_proposal =
  g_id :: int
  g_proposal_id :: uuid
  g_root_proposal_id :: uuid
  g_revision :: int
  g_supersedes_proposal_id :: "uuid option"
  g_superseded_by_proposal_id :: "uuid option"
  g_no_resubmit :: bool
  g_void_reason :: "string option"
  g_payload_hash :: "string option"
  g_symbol :: string
  g_market :: string
  g_account_mode :: string
  g_side :: string
  g_order_type :: string
  g_proposer :: string
  g_thesis :: "string option"
  g_strategy :: "string option"
  g_rationale :: "dict option"
  g_broker_account_id :: "string option"
  g_lot_context :: "dict option"
  g_action :: "string option"
  g_target_broker_order_id :: "string option"
  g_exit_intent :: "string option"
  g_exit_reason :: "string option"
  g_retrospective_id :: "int option"
  g_approval_issue_id :: "string option"
  g_lifecycle_state :: group_state
  g_correlation_id :: "string option"
  g_valid_until :: "int option"
  g_validated_at :: "int option"
  g_source_asof :: "dict option"
  g_approval_nonce :: "string option"
  g_approval_nonce_used_at :: "int option"
  g_approval_dispatch_state :: "dispatch_state option"
  g_approval_dispatch_attempt_id :: "uuid option"
  g_approval_dispatch_attempted_at :: "int option"
  g_approval_dispatch_failure_code :: "string option"
  g_approval_dispatch_payload_chars :: "int option"
  g_approval_dispatch_card_kind :: "card_kind option"
  g_approval_dispatch_membership_revision :: "int option"
  g_approval_dispatch_membership_digest :: "string option"
  g_approval_dispatch_published_at :: "int option"
  g_approved_by_telegram_user_id :: "string option"
  g_approved_at :: "int option"
  g_commit_lease_until :: "int option"
  g_created_at :: int
  g_updated_at :: int

record rung =
  r_id :: int
  r_proposal_pk :: int
  r_rung_index :: int
  r_side :: string
  r_quantity :: rat
  r_limit_price :: "rat option"
  r_notional :: "rat option"
  r_state :: rung_state
  r_approval_hash_digest :: "string option"
  r_approval_revision :: "int option"
  r_idempotency_key :: "string option"
  r_broker_order_id :: "string option"
  r_correlation_id :: "string option"
  r_validated_at :: "int option"
  r_filled_qty :: "rat option"
  r_void_reason :: "string option"
  r_created_at :: int
  r_updated_at :: int

record dispatch_attempt =
  a_id :: int
  a_attempt_id :: uuid
  a_proposal_pk :: int
  a_state :: dispatch_state
  a_attempted_at :: int
  a_completed_at :: "int option"
  a_payload_chars :: int
  a_context_message_count :: int
  a_message_id :: "int option"
  a_status_code :: "int option"
  a_telegram_error_code :: "int option"
  a_error_classification :: "telegram_error_classification option"
  a_failure_code :: "string option"
  a_card_kind :: card_kind
  a_membership_revision :: int
  a_membership_digest :: string
  a_created_at :: int
  a_updated_at :: int

text \<open>
  The store: the server clock (\<open>func.now()\<close>), the three tables in primary-key order and the
  next value of each key sequence.
\<close>

record store =
  db_now :: int
  db_groups :: "order_proposal list"
  db_rungs :: "rung list"
  db_attempts :: "dispatch_attempt list"
  db_group_seq :: int
  db_rung_seq :: int
  db_attempt_seq :: int

section \<open>A table inside a store\<close>

locale keyed_table =
  fixes rows :: "'s \<Rightarrow> 'r list"
    and put :: "'r \<Rightarrow> 's \<Rightarrow> 's"
    and key :: "'r \<Rightarrow> int"
  assumes rows_put: "rows (put r s) = write_row key r (rows s)"
begin

lemma keys_put [simp]: "map key (rows (put r s)) = map key (rows s)"
  by (simp add: rows_put)

lemma put_all:
  "(\<And>x. x \<in> set (rows s) \<Longrightarrow> P x) \<Longrightarrow> P r \<Longrightarrow> x \<in> set (rows (put r s)) \<Longrightarrow> P x"
  by (auto simp: rows_put dest!: write_row_set)

lemma find_put:
  "find (\<lambda>x. key x = key r) (rows s) = Some r0 \<Longrightarrow>
   find (\<lambda>x. key x = key r) (rows (put r s)) = Some r"
  by (simp add: rows_put find_write_row)

lemma map_put_frame:
  assumes "distinct (map key (rows s))" and "r0 \<in> set (rows s)" and "key r0 = key r"
    and "f r0 = f r"
  shows "map f (rows (put r s)) = map f (rows s)"
proof -
  have "\<And>x. x \<in> set (rows s) \<Longrightarrow> f (if key x = key r then r else x) = f x"
    using assms by (metis eq_key_imp_eq_value distinct_map inj_onD)
  then show ?thesis by (simp add: rows_put write_row_def)
qed

end

definition put_group :: "order_proposal \<Rightarrow> store \<Rightarrow> store" where
  "put_group g s = s\<lparr>db_groups := write_row g_id g (db_groups s)\<rparr>"

definition put_rung :: "rung \<Rightarrow> store \<Rightarrow> store" where
  "put_rung r s = s\<lparr>db_rungs := write_row r_id r (db_rungs s)\<rparr>"

definition put_attempt :: "dispatch_attempt \<Rightarrow> store \<Rightarrow> store" where
  "put_attempt a s = s\<lparr>db_attempts := write_row a_id a (db_attempts s)\<rparr>"

interpretation groups: keyed_table db_groups put_group g_id
  by unfold_locales (simp add: put_group_def)

interpretation rungs: keyed_table db_rungs put_rung r_id
  by unfold_locales (simp add: put_rung_def)

interpretation attempts: keyed_table db_attempts put_attempt a_id
  by unfold_locales (simp add: put_attempt_def)

lemma put_frames [simp, frame_simps]:
  "db_rungs (put_group g s) = db_rungs s" "db_attempts (put_group g s) = db_attempts s"
  "db_groups (put_rung r s) = db_groups s" "db_attempts (put_rung r s) = db_attempts s"
  "db_groups (put_attempt a s) = db_groups s" "db_rungs (put_attempt a s) = db_rungs s"
  "db_now (put_group g s) = db_now s" "db_now (put_rung r s) = db_now s"
  "db_now (put_attempt a s) = db_now s"
  by (simp_all add: put_group_def put_rung_def put_attempt_def)

section \<open>Repository operations\<close>

definition get_group_by_proposal_id :: "store \<Rightarrow> uuid \<Rightarrow> order_proposal option" where
  "get_group_by_proposal_id s pid = find (\<lambda>g. g_proposal_id g = pid) (db_groups s)"

definition list_rungs :: "store \<Rightarrow> int \<Rightarrow> rung list" where
  "list_rungs s pk = sort_key r_rung_index (filter (\<lambda>r. r_proposal_pk r = pk) (db_rungs s))"

definition get_approval_dispatch_attempt :: "store \<Rightarrow> uuid \<Rightarrow> dispatch_attempt option" where
  "get_approval_dispatch_attempt s aid = find (\<lambda>a. a_attempt_id a = aid) (db_attempts s)"

text \<open>
  \<open>update_group\<close> and \<open>update_rung\<close> set the given columns; \<open>updated_at\<close> takes the server
  clock unless the caller sets it, also when the given columns already hold their values, where
  the mapper of the code would write nothing.
\<close>

definition update_group ::
  "order_proposal \<Rightarrow> (order_proposal \<Rightarrow> order_proposal) \<Rightarrow> store \<Rightarrow> store \<times> order_proposal" where
  "update_group g upd s =
     (let g' = upd (g\<lparr>g_updated_at := db_now s\<rparr>) in (put_group g' s, g'))"

definition update_rung ::
  "rung \<Rightarrow> (rung \<Rightarrow> rung) \<Rightarrow> store \<Rightarrow> store \<times> rung" where
  "update_rung r upd s =
     (let r' = upd (r\<lparr>r_updated_at := db_now s\<rparr>) in (put_rung r' s, r'))"

definition update_approval_dispatch_attempt ::
  "dispatch_attempt \<Rightarrow> (dispatch_attempt \<Rightarrow> dispatch_attempt) \<Rightarrow> store \<Rightarrow> store \<times> dispatch_attempt"
  where
  "update_approval_dispatch_attempt a upd s =
     (let a' = upd (a\<lparr>a_updated_at := db_now s\<rparr>) in (put_attempt a' s, a'))"

text \<open>
  Inserts take the next key of the sequence and fail on a violated unique constraint; the
  row passed in carries the column values, its key and clock columns are overwritten. The
  check constraints of the typed columns hold by typing; those on texts are written out.
\<close>

definition SIDES :: "string set" where "SIDES = {''buy'', ''sell''}"

definition ORDER_TYPES :: "string set" where "ORDER_TYPES = {''limit'', ''market''}"

definition insert_group :: "order_proposal \<Rightarrow> store \<Rightarrow> (store \<times> order_proposal) option" where
  "insert_group g s =
     (if (\<exists>x \<in> set (db_groups s). g_proposal_id x = g_proposal_id g) \<or>
         g_side g \<notin> SIDES \<or> g_order_type g \<notin> ORDER_TYPES then None
      else let g' = g\<lparr>g_id := db_group_seq s, g_created_at := db_now s, g_updated_at := db_now s\<rparr>
        in Some (s\<lparr>db_groups := db_groups s @ [g'], db_group_seq := db_group_seq s + 1\<rparr>, g'))"

definition insert_rung :: "rung \<Rightarrow> store \<Rightarrow> (store \<times> rung) option" where
  "insert_rung r s =
     (if (\<exists>x \<in> set (db_rungs s). r_proposal_pk x = r_proposal_pk r \<and> r_rung_index x = r_rung_index r) \<or>
         r_side r \<notin> SIDES
      then None
      else let r' = r\<lparr>r_id := db_rung_seq s, r_created_at := db_now s, r_updated_at := db_now s\<rparr>
        in Some (s\<lparr>db_rungs := db_rungs s @ [r'], db_rung_seq := db_rung_seq s + 1\<rparr>, r'))"

definition insert_approval_dispatch_attempt ::
  "dispatch_attempt \<Rightarrow> store \<Rightarrow> (store \<times> dispatch_attempt) option" where
  "insert_approval_dispatch_attempt a s =
     (if \<exists>x \<in> set (db_attempts s). a_attempt_id x = a_attempt_id a then None
      else let a' = a\<lparr>a_id := db_attempt_seq s, a_created_at := db_now s, a_updated_at := db_now s\<rparr>
        in Some (s\<lparr>db_attempts := db_attempts s @ [a'],
                   db_attempt_seq := db_attempt_seq s + 1\<rparr>, a'))"

definition EXPIRY_TERMINAL_GROUP_STATES :: "group_state set" where
  "EXPIRY_TERMINAL_GROUP_STATES = {Terminal, GRejected, GExpired, GVoided, GSuperseded}"

definition list_expiry_candidates :: "store \<Rightarrow> int \<Rightarrow> uuid list" where
  "list_expiry_candidates s now =
     map g_proposal_id
       (filter (\<lambda>g. (case g_valid_until g of None \<Rightarrow> False | Some v \<Rightarrow> v \<le> now) \<and>
                    g_lifecycle_state g \<notin> EXPIRY_TERMINAL_GROUP_STATES) (db_groups s))"

definition list_local_stale_candidates :: "store \<Rightarrow> (uuid \<times> rung) list" where
  "list_local_stale_candidates s =
     concat (map (\<lambda>r.
       if r_state r = PendingApproval \<and> r_broker_order_id r = None
       then (case find (\<lambda>g. g_id g = r_proposal_pk r) (db_groups s) of
               Some g \<Rightarrow> [(g_proposal_id g, r)] | None \<Rightarrow> [])
       else []) (db_rungs s))"

text \<open>One evidence column at a time, each query restricted and ordered by rung key.\<close>

definition rung_matches ::
  "store \<Rightarrow> (rung \<Rightarrow> string option) \<Rightarrow> string \<Rightarrow> rung_state set option \<Rightarrow> string option
   \<Rightarrow> (uuid \<times> rung) option" where
  "rung_matches s column value states account_mode =
     (case find (\<lambda>r. column r = Some value
                  \<and> (case states of None \<Rightarrow> True | Some st \<Rightarrow> r_state r \<in> st)
                  \<and> (\<exists>g \<in> set (db_groups s). g_id g = r_proposal_pk r \<and>
                       (case account_mode of None \<Rightarrow> True | Some m \<Rightarrow> g_account_mode g = m)))
            (db_rungs s) of
        None \<Rightarrow> None
      | Some r \<Rightarrow>
          (case find (\<lambda>g. g_id g = r_proposal_pk r) (db_groups s) of
             None \<Rightarrow> None | Some g \<Rightarrow> Some (g_proposal_id g, r)))"

fun first_match :: "('a \<Rightarrow> 'b option) \<Rightarrow> 'a list \<Rightarrow> 'b option" where
  "first_match f [] = None"
| "first_match f (x # xs) = (case f x of Some y \<Rightarrow> Some y | None \<Rightarrow> first_match f xs)"

definition find_rung_by_evidence ::
  "store \<Rightarrow> string option \<Rightarrow> string option \<Rightarrow> string option \<Rightarrow> rung_state set option
   \<Rightarrow> string option \<Rightarrow> (uuid \<times> rung) option" where
  "find_rung_by_evidence s correlation_id broker_order_id idempotency_key states account_mode =
     first_match
       (\<lambda>(column, value). case value of
           None \<Rightarrow> None
         | Some v \<Rightarrow> rung_matches s column v states account_mode)
       [(r_broker_order_id, broker_order_id), (r_idempotency_key, idempotency_key),
        (r_correlation_id, correlation_id)]"

section \<open>Well-formed stores\<close>

text \<open>
  The primary keys, unique constraints and the foreign key of the schema, with the sequences
  ahead of every key in use.
\<close>

definition wf_store :: "store \<Rightarrow> bool" where
  "wf_store s \<longleftrightarrow>
     distinct (map g_id (db_groups s)) \<and>
     distinct (map g_proposal_id (db_groups s)) \<and>
     distinct (map r_id (db_rungs s)) \<and>
     distinct (map (\<lambda>r. (r_proposal_pk r, r_rung_index r)) (db_rungs s)) \<and>
     (\<forall>r \<in> set (db_rungs s). r_proposal_pk r \<in> g_id ` set (db_groups s)) \<and>
     (\<forall>g \<in> set (db_groups s). g_id g < db_group_seq s) \<and>
     (\<forall>r \<in> set (db_rungs s). r_id r < db_rung_seq s)"

lemma get_group_in:
  "get_group_by_proposal_id s pid = Some g \<Longrightarrow> g \<in> set (db_groups s) \<and> g_proposal_id g = pid"
  by (auto simp: get_group_by_proposal_id_def dest: find_SomeD)

lemma list_rungs_set [simp]:
  "set (list_rungs s pk) = {r \<in> set (db_rungs s). r_proposal_pk r = pk}"
  by (auto simp: list_rungs_def)

lemma list_rungs_sorted: "sorted (map r_rung_index (list_rungs s pk))"
  by (simp add: list_rungs_def)

lemma list_rungs_put_group [simp, frame_simps]: "list_rungs (put_group g s) pk = list_rungs s pk"
  by (simp add: list_rungs_def)

lemma rung_matches_in:
  "rung_matches s column v st m = Some (pid, r) \<Longrightarrow>
   r \<in> set (db_rungs s) \<and> column r = Some v \<and> (\<forall>S. st = Some S \<longrightarrow> r_state r \<in> S)"
  by (auto simp: rung_matches_def split: option.splits dest!: find_SomeD)

lemma find_rung_by_evidence_in:
  "find_rung_by_evidence s c b k st m = Some (pid, r) \<Longrightarrow>
   r \<in> set (db_rungs s) \<and> (\<forall>S. st = Some S \<longrightarrow> r_state r \<in> S)"
  by (auto simp: find_rung_by_evidence_def split: option.splits dest: rung_matches_in)

end
