(* ===== verification/ProposalService.thy ===== *)
theory ProposalService
  imports ProposalStore
begin

text \<open>
  The lifecycle half of \<open>OrderProposalsService\<close> (\<open>app/services/order_proposals/service.py\<close>):
  locked rung transitions, the group rollup, local expiry, void with broker-absence
  evidence, and the convergence of rungs from broker evidence. Every operation takes the
  store and returns the new store with its value, or the error it raises.
\<close>

section \<open>Errors and constants\<close>

datatype block_reason =
    SupersededBy "uuid option"
  | ProposalTerminal group_state
  | NonceReplayBlock

datatype svc_error =
    NotFound uuid "int option"
  | BadTransition transition_error
  | NaiveDatetime
  | ProposalError string
  | CannotExpireProposal int rung_state
  | CannotExpireRung int rung_state
  | CannotVoidRung int rung_state
  | VoidWithoutEvidence int
  | SettlementGraceOpen int
  | EvidenceLookupFailed string
  | EvidenceIncomplete int
  | BrokerOrderExists int
  | BrokerAbsenceUnverified int string
  | LedgerHoldsEvidence int string
  | ApprovalBlocked block_reason
  | ApprovalWindowBlocked approval_window_code string
  | GateRefused gate_error
  | IntegrityError string
  | ValueError string
  | UnsupportedTargetAction string string string
  | LossCutInvalid "string list"

definition VOIDABLE_RUNG_STATES :: "rung_state set" where
  "VOIDABLE_RUNG_STATES = {Draft, PendingApproval, Revalidating, NeedsReconfirm, Approved}"

definition EVIDENCE_ACCEPTING_RUNG_STATES :: "rung_state set" where
  "EVIDENCE_ACCEPTING_RUNG_STATES = {Acked, Resting, PartiallyFilled, Unverified}"

definition UNVERIFIED_VOID_SETTLEMENT_GRACE :: int where
  "UNVERIFIED_VOID_SETTLEMENT_GRACE = minutes 5"

definition APPROVAL_TERMINAL_GROUP_STATES :: "group_state set" where
  "APPROVAL_TERMINAL_GROUP_STATES = {Terminal, GRejected, GExpired, GVoided, GSuperseded}"

definition require_timezone_aware :: "pydatetime \<Rightarrow> (svc_error, int) result" where
  "require_timezone_aware value =
     (case value of Naive _ \<Rightarrow> Inl NaiveDatetime | Aware t \<Rightarrow> Inr t)"

lemma require_timezone_aware_simps [simp, result_simps]:
  "require_timezone_aware (Aware t) = Inr t"
  "require_timezone_aware (Naive t) = Inl NaiveDatetime"
  "require_timezone_aware d = Inr t \<longleftrightarrow> d = Aware t"
  by (auto simp: require_timezone_aware_def split: pydatetime.splits)

section \<open>Group rollup\<close>

definition recompute_group_state :: "rung list \<Rightarrow> group_state" where
  "recompute_group_state rungs =
     (let states = set (map r_state rungs) in
      if states \<subseteq> {Filled, Cancelled, Expired, Rejected, Voided, VoidedLocalStale, Superseded}
      then (if states = {Expired} then GExpired
            else if states = {Rejected} then GRejected
            else if states \<subseteq> {Voided, VoidedLocalStale} then GVoided
            else Terminal)
      else if states \<inter> {Acked, Resting, PartiallyFilled, Filled, Submitting} \<noteq> {}
      then (if states \<inter> {PendingApproval, Revalidating, Approved, NeedsReconfirm} \<noteq> {}
            then PartiallySubmitted else Submitted)
      else if states \<inter> {Approved} \<noteq> {} then GApproved
      else Proposed)"

section \<open>Reading under the row lock\<close>

definition get_proposal :: "uuid \<Rightarrow> store \<Rightarrow> (svc_error, order_proposal \<times> rung list) result" where
  "get_proposal proposal_id s =
     bindR (of_option (NotFound proposal_id None) (get_group_by_proposal_id s proposal_id))
       (\<lambda>grp. Inr (grp, list_rungs s (g_id grp)))"

definition get_locked_rung ::
  "uuid \<Rightarrow> int \<Rightarrow> store \<Rightarrow> (svc_error, order_proposal \<times> rung) result" where
  "get_locked_rung proposal_id rung_index s =
     bindR (of_option (NotFound proposal_id None) (get_group_by_proposal_id s proposal_id))
       (\<lambda>grp. bindR
          (of_option (NotFound proposal_id (Some rung_index))
             (find (\<lambda>r. r_rung_index r = rung_index) (list_rungs s (g_id grp))))
          (\<lambda>rung. Inr (grp, rung)))"

section \<open>The one writer of rung states\<close>

definition rollup :: "order_proposal \<Rightarrow> rung list \<Rightarrow> (order_proposal \<Rightarrow> order_proposal)
    \<Rightarrow> store \<Rightarrow> store" where
  "rollup grp rungs upd s =
     fst (update_group grp
            (\<lambda>g. upd (g\<lparr>g_lifecycle_state := recompute_group_state rungs\<rparr>)) s)"

definition transition_locked_rung ::
  "order_proposal \<Rightarrow> rung \<Rightarrow> rung_state \<Rightarrow> (rung \<Rightarrow> rung) \<Rightarrow> store
   \<Rightarrow> (svc_error, store \<times> rung) result" where
  "transition_locked_rung grp rung new_state audit s =
     bindR (map_error BadTransition (check_transition (r_state rung) new_state)) (\<lambda>_.
       let (s1, rung1) = update_rung rung (\<lambda>r. audit (r\<lparr>r_state := new_state\<rparr>)) s;
           rungs = list_rungs s1 (g_id grp)
       in Inr (rollup grp rungs id s1, rung1))"

definition transition_rung ::
  "uuid \<Rightarrow> int \<Rightarrow> rung_state \<Rightarrow> (rung \<Rightarrow> rung) \<Rightarrow> store \<Rightarrow> (svc_error, store \<times> rung) result" where
  "transition_rung proposal_id rung_index new_state audit s =
     bindR (get_locked_rung proposal_id rung_index s) (\<lambda>(grp, rung).
       transition_locked_rung grp rung new_state audit s)"

section \<open>Local expiry\<close>

definition stamp :: "int \<Rightarrow> rung \<Rightarrow> rung" where
  "stamp now r = r\<lparr>r_updated_at := now\<rparr>"

text \<open>The write loops of expiry: check, write, collect.\<close>

definition expire_step ::
  "int \<Rightarrow> store \<times> rung list \<Rightarrow> rung \<Rightarrow> (svc_error, store \<times> rung list) result" where
  "expire_step now st rung =
     bindR (map_error BadTransition (check_transition (r_state rung) Expired)) (\<lambda>_.
       let (s1, rung1) = update_rung rung (\<lambda>r. stamp now (r\<lparr>r_state := Expired\<rparr>)) (fst st)
       in Inr (s1, snd st @ [rung1]))"

definition expire_if_needed :: "uuid \<Rightarrow> pydatetime \<Rightarrow> store \<Rightarrow> (svc_error, store \<times> bool) result" where
  "expire_if_needed proposal_id now s =
     bindR (require_timezone_aware now) (\<lambda>t.
     bindR (of_option (NotFound proposal_id None) (get_group_by_proposal_id s proposal_id)) (\<lambda>grp.
       if (case g_valid_until grp of None \<Rightarrow> False | Some v \<Rightarrow> v > t) then Inr (s, False)
       else let rungs = list_rungs s (g_id grp) in
         (case find (\<lambda>r. r_state r \<notin> VOIDABLE_RUNG_STATES) rungs of
            Some r \<Rightarrow> Inl (CannotExpireProposal (r_rung_index r) (r_state r))
          | None \<Rightarrow>
              bindR (foldR (expire_step t) (s, []) rungs) (\<lambda>(s1, expired_rungs).
                Inr (rollup grp expired_rungs (\<lambda>g. g\<lparr>g_approval_nonce := None\<rparr>) s1, True)))))"

definition LOCAL_TERMINAL_STATES :: "rung_state set" where
  "LOCAL_TERMINAL_STATES = {Expired, Rejected, Voided, VoidedLocalStale, Superseded}"

text \<open>The write: the rung, then the rollup over the materialised rung list.\<close>

definition expire_rung_write :: "int \<Rightarrow> order_proposal \<Rightarrow> rung \<Rightarrow> int \<Rightarrow> store \<Rightarrow> store" where
  "expire_rung_write t grp rung rung_index s =
     (let (s1, expired) = update_rung rung (\<lambda>r. stamp t (r\<lparr>r_state := Expired\<rparr>)) s;
          materialized = map (\<lambda>item. if r_rung_index item = rung_index then expired else item)
                           (list_rungs s1 (g_id grp));
          all_local_terminal = (\<forall>item \<in> set materialized. r_state item \<in> LOCAL_TERMINAL_STATES)
      in rollup grp materialized
           (\<lambda>g. if all_local_terminal then g\<lparr>g_approval_nonce := None\<rparr> else g) s1)"

definition expire_rung_if_needed ::
  "uuid \<Rightarrow> int \<Rightarrow> pydatetime \<Rightarrow> store \<Rightarrow> (svc_error, store \<times> bool) result" where
  "expire_rung_if_needed proposal_id rung_index now s =
     bindR (require_timezone_aware now) (\<lambda>t.
     bindR (get_locked_rung proposal_id rung_index s) (\<lambda>(grp, rung).
     bindR (map_error (\<lambda>_. NaiveDatetime)
              (valid_until_block (column_datetime (g_valid_until grp)) now)) (\<lambda>validity_block.
       if (case validity_block of None \<Rightarrow> True | Some (code, _) \<Rightarrow> code \<noteq> EXPIRED)
       then Inr (s, False)
       else if r_state rung = Expired then Inr (s, True)
       else if r_state rung \<notin> VOIDABLE_RUNG_STATES
       then Inl (CannotExpireRung rung_index (r_state rung))
       else bindR (map_error BadTransition (check_transition (r_state rung) Expired)) (\<lambda>_.
         Inr (expire_rung_write t grp rung rung_index s, True)))))"

definition expire_mutable_step ::
  "uuid \<Rightarrow> pydatetime \<Rightarrow> store \<times> int \<Rightarrow> rung \<Rightarrow> (svc_error, store \<times> int) result" where
  "expire_mutable_step proposal_id now st rung =
     (if r_state rung \<notin> VOIDABLE_RUNG_STATES then Inr st
      else bindR (expire_rung_if_needed proposal_id (r_rung_index rung) now (fst st))
             (\<lambda>(s1, b). Inr (s1, if b then snd st + 1 else snd st)))"

definition expire_mutable_rungs_if_needed ::
  "uuid \<Rightarrow> pydatetime \<Rightarrow> store \<Rightarrow> (svc_error, store \<times> int) result" where
  "expire_mutable_rungs_if_needed proposal_id now s =
     bindR (require_timezone_aware now) (\<lambda>t.
     bindR (get_proposal proposal_id s) (\<lambda>(grp, rungs).
     bindR (map_error (\<lambda>_. NaiveDatetime)
              (valid_until_block (column_datetime (g_valid_until grp)) now)) (\<lambda>validity_block.
       if validity_block = None then Inr (s, 0)
       else foldR (expire_mutable_step proposal_id now) (s, 0) rungs)))"

section \<open>The batch sweeper\<close>

record expiry_sweep_result =
  es_proposal_id :: uuid
  es_symbol :: string
  es_chat_id :: "json option"
  es_message_id :: "json option"

definition sweep_expired_one ::
  "int \<Rightarrow> store \<times> expiry_sweep_result list \<Rightarrow> uuid
   \<Rightarrow> (svc_error, store \<times> expiry_sweep_result list) result" where
  "sweep_expired_one t st proposal_id =
     (let (s, results) = st in
      case get_group_by_proposal_id s proposal_id of
        None \<Rightarrow> Inr st
      | Some grp \<Rightarrow>
          if (case g_valid_until grp of None \<Rightarrow> True | Some v \<Rightarrow> v > t) then Inr st
          else if g_lifecycle_state grp \<in> APPROVAL_TERMINAL_GROUP_STATES then Inr st
          else let rungs = list_rungs s (g_id grp) in
            if \<exists>r \<in> set rungs. r_state r \<notin> VOIDABLE_RUNG_STATES then Inr st
            else bindR (foldR (expire_step t) (s, []) rungs) (\<lambda>(s1, expired_rungs).
              Inr (rollup grp expired_rungs (\<lambda>g. g\<lparr>g_approval_nonce := None\<rparr>) s1,
                   results @ [\<lparr>es_proposal_id = proposal_id, es_symbol = g_symbol grp,
                     es_chat_id = dict_get (or_empty (g_source_asof grp)) ''approval_chat_id'',
                     es_message_id =
                       dict_get (or_empty (g_source_asof grp)) ''approval_message_id''\<rparr>])))"

definition sweep_expired ::
  "pydatetime \<Rightarrow> store \<Rightarrow> (svc_error, store \<times> expiry_sweep_result list) result" where
  "sweep_expired now s =
     bindR (require_timezone_aware now) (\<lambda>t.
       foldR (sweep_expired_one t) (s, []) (list_expiry_candidates s t))"

end
