(* ===== verification/ProposalVoid.thy ===== *)
theory ProposalVoid
  imports ProposalService
begin

text \<open>
  \<open>OrderProposalsService.void_proposal\<close>: a local void, and a void of unverified rungs that
  needs broker-absence evidence, an elapsed settlement grace and an empty Toss ledger.
\<close>

section \<open>Evidence\<close>

text \<open>
  The caller's \<open>broker_evidence\<close> callback: it raises (\<open>Inl\<close> the text) or returns a map from
  rung index to what the lookup found.
\<close>

record broker_evidence =
  ev_outcome :: string
  ev_lookup_scope :: string
  ev_broker_state :: "string option"
  ev_broker_order_id :: "string option"
  ev_reason :: "string option"

type_synonym evidence_lookup =
  "order_proposal \<Rightarrow> rung list \<Rightarrow> int \<Rightarrow> (string, (int \<times> broker_evidence) list) result"

record toss_ledger_row =
  tl_client_order_id :: "string option"
  tl_broker_order_id :: "string option"
  tl_status :: string

text \<open>The ledger rows that the \<open>SELECT ... WHERE client_order_id IN ... OR ...\<close> returns.\<close>

definition toss_rows_for :: "rung list \<Rightarrow> toss_ledger_row list \<Rightarrow> toss_ledger_row list" where
  "toss_rows_for unverified ledger =
     (let client_order_ids =
            map (\<lambda>r. strip (the (r_idempotency_key r))) (filter (\<lambda>r. truthy (r_idempotency_key r)) unverified);
          broker_order_ids =
            map (\<lambda>r. strip (the (r_broker_order_id r))) (filter (\<lambda>r. truthy (r_broker_order_id r)) unverified)
      in filter (\<lambda>row.
           (case tl_client_order_id row of None \<Rightarrow> False | Some c \<Rightarrow> c \<in> set client_order_ids) \<or>
           (case tl_broker_order_id row of None \<Rightarrow> False | Some b \<Rightarrow> b \<in> set broker_order_ids)) ledger)"

definition ledger_row_matches :: "rung \<Rightarrow> toss_ledger_row \<Rightarrow> bool" where
  "ledger_row_matches r row \<longleftrightarrow>
     (tl_broker_order_id row \<noteq> None \<or> tl_status row \<noteq> ''rejected'') \<and>
     ((truthy (r_idempotency_key r) \<and> tl_client_order_id row = r_idempotency_key r) \<or>
      (truthy (r_broker_order_id r) \<and> tl_broker_order_id row = r_broker_order_id r))"

section \<open>The void\<close>

text \<open>One turn of the evidence loop: the summary of an absent order, or the refusal.\<close>

definition absence_summary ::
  "string \<Rightarrow> (int \<times> broker_evidence) list \<Rightarrow> toss_ledger_row list \<Rightarrow> rung \<Rightarrow> (svc_error, string) result"
  where
  "absence_summary account_mode evidence_by_rung toss_rows r =
     (case map_of evidence_by_rung (r_rung_index r) of
        None \<Rightarrow> Inl (EvidenceIncomplete (r_rung_index r))
      | Some ev \<Rightarrow>
          let outcome = ev_outcome ev;
              scope = join '' '' (split_ws (ev_lookup_scope ev))
          in if outcome = ''found'' then Inl (BrokerOrderExists (r_rung_index r))
             else if outcome \<noteq> ''absent'' then Inl (BrokerAbsenceUnverified (r_rung_index r) outcome)
             else (case filter (ledger_row_matches r) toss_rows of
                     row # _ \<Rightarrow> Inl (LedgerHoldsEvidence (r_rung_index r) (tl_status row))
                   | [] \<Rightarrow> Inr (''rung='' @ show_int (r_rung_index r) @ '' outcome=absent scope='' @
                       py_repr scope @
                       (if account_mode = ''toss_live'' then '' toss_live_order_ledger rows=0'' else []))))"

definition absence_summaries ::
  "string \<Rightarrow> (int \<times> broker_evidence) list \<Rightarrow> toss_ledger_row list \<Rightarrow> rung list
   \<Rightarrow> (svc_error, string list) result" where
  "absence_summaries account_mode evidence_by_rung toss_rows unverified =
     foldR (\<lambda>acc r. bindR (absence_summary account_mode evidence_by_rung toss_rows r)
              (\<lambda>x. Inr (acc @ [x]))) [] unverified"

definition evidence_phase ::
  "order_proposal \<Rightarrow> rung list \<Rightarrow> int \<Rightarrow> evidence_lookup option \<Rightarrow> toss_ledger_row list
   \<Rightarrow> (svc_error, string) result" where
  "evidence_phase grp unverified t lookup ledger =
     (case unverified of
        [] \<Rightarrow> Inr []
      | first # _ \<Rightarrow>
          (case lookup of
             None \<Rightarrow> Inl (VoidWithoutEvidence (r_rung_index first))
           | Some broker_evidence \<Rightarrow>
               (case find (\<lambda>r. t - r_updated_at r < UNVERIFIED_VOID_SETTLEMENT_GRACE) unverified of
                  Some r \<Rightarrow> Inl (SettlementGraceOpen (r_rung_index r))
                | None \<Rightarrow>
                    bindR (map_error EvidenceLookupFailed (broker_evidence grp unverified t))
                      (\<lambda>evidence_by_rung.
                    let toss_rows = (if g_account_mode grp = ''toss_live''
                                     then toss_rows_for unverified ledger else [])
                    in bindR (absence_summaries (g_account_mode grp) evidence_by_rung toss_rows unverified)
                         (\<lambda>summaries. Inr ('' | broker_evidence: '' @ join ''; '' summaries))))))"

definition void_step ::
  "int \<Rightarrow> string \<Rightarrow> store \<times> rung list \<Rightarrow> rung \<Rightarrow> (svc_error, store \<times> rung list) result" where
  "void_step t audit_reason st r =
     (let target_state = (if r_state r = Unverified then VoidedLocalStale else Voided) in
      bindR (map_error BadTransition (check_transition (r_state r) target_state)) (\<lambda>_.
        let (s1, r1) = update_rung r
              (\<lambda>x. let y = stamp t (x\<lparr>r_state := target_state\<rparr>) in
                   if target_state = VoidedLocalStale then y\<lparr>r_void_reason := Some audit_reason\<rparr> else y)
              (fst st)
        in Inr (s1, snd st @ [r1])))"

definition void_proposal ::
  "uuid \<Rightarrow> string \<Rightarrow> pydatetime \<Rightarrow> evidence_lookup option \<Rightarrow> toss_ledger_row list \<Rightarrow> store
   \<Rightarrow> (svc_error, store \<times> rung list) result" where
  "void_proposal proposal_id reason now lookup ledger s =
     bindR (require_timezone_aware now) (\<lambda>t.
     bindR (require (strip reason \<noteq> []) (ProposalError ''void reason is required'')) (\<lambda>_.
     bindR (of_option (NotFound proposal_id None) (get_group_by_proposal_id s proposal_id)) (\<lambda>grp.
       let rungs = list_rungs s (g_id grp) in
       (case find (\<lambda>r. r_state r \<notin> VOIDABLE_RUNG_STATES \<union> {Unverified}) rungs of
          Some r \<Rightarrow> Inl (CannotVoidRung (r_rung_index r) (r_state r))
        | None \<Rightarrow>
            bindR (evidence_phase grp (filter (\<lambda>r. r_state r = Unverified) rungs) t lookup ledger)
              (\<lambda>evidence_summary.
            let audit_reason = strip reason @ evidence_summary in
            bindR (foldR (void_step t audit_reason) (s, []) rungs) (\<lambda>(s1, voided_rungs).
              Inr (rollup grp voided_rungs
                     (\<lambda>g. g\<lparr>g_void_reason := Some audit_reason, g_no_resubmit := True,
                             g_approval_nonce := None, g_approval_nonce_used_at := Some t\<rparr>) s1,
                   voided_rungs)))))))"

end
