(* ===== verification/ProposalEvidence.thy ===== *)
theory ProposalEvidence
  imports ProposalService
begin

text \<open>
  The submission and reconciliation half of the lifecycle: the \<open>record_*\<close> writers, the
  convergence of a rung from broker evidence, the stale sweeper and the commit lease
  (\<open>service.py\<close>).
\<close>

section \<open>Writers of the submit path\<close>

definition record_ack ::
  "uuid \<Rightarrow> int \<Rightarrow> string \<Rightarrow> string \<Rightarrow> string option \<Rightarrow> string option \<Rightarrow> pydatetime \<Rightarrow> store
   \<Rightarrow> (svc_error, store \<times> rung) result" where
  "record_ack proposal_id rung_index broker_order_id correlation_id idempotency_key digest now s =
     bindR (require_timezone_aware now) (\<lambda>t.
       transition_rung proposal_id rung_index Acked
         (\<lambda>r. stamp t (r\<lparr>r_broker_order_id := Some broker_order_id,
                 r_correlation_id := Some correlation_id,
                 r_idempotency_key := idempotency_key,
                 r_approval_hash_digest := digest, r_validated_at := Some t\<rparr>)) s)"

definition record_resting ::
  "uuid \<Rightarrow> int \<Rightarrow> string \<Rightarrow> string \<Rightarrow> string option \<Rightarrow> string option \<Rightarrow> pydatetime \<Rightarrow> store
   \<Rightarrow> (svc_error, store \<times> rung) result" where
  "record_resting proposal_id rung_index broker_order_id correlation_id idempotency_key digest now s =
     bindR (require_timezone_aware now) (\<lambda>t.
       transition_rung proposal_id rung_index Resting
         (\<lambda>r. stamp t (r\<lparr>r_broker_order_id := Some broker_order_id,
                 r_correlation_id := Some correlation_id,
                 r_idempotency_key := idempotency_key,
                 r_approval_hash_digest := digest, r_validated_at := Some t\<rparr>)) s)"

definition record_unverified ::
  "uuid \<Rightarrow> int \<Rightarrow> string \<Rightarrow> pydatetime \<Rightarrow> string option \<Rightarrow> string option \<Rightarrow> store
   \<Rightarrow> (svc_error, store \<times> rung) result" where
  "record_unverified proposal_id rung_index reason now correlation_id idempotency_key s =
     bindR (require_timezone_aware now) (\<lambda>t.
       transition_rung proposal_id rung_index Unverified
         (\<lambda>r. let r1 = stamp t (r\<lparr>r_void_reason := Some reason, r_validated_at := Some t\<rparr>);
                  r2 = (if correlation_id = None then r1 else r1\<lparr>r_correlation_id := correlation_id\<rparr>)
              in if idempotency_key = None then r2 else r2\<lparr>r_idempotency_key := idempotency_key\<rparr>) s)"

definition record_cancelled ::
  "uuid \<Rightarrow> int \<Rightarrow> string \<Rightarrow> pydatetime \<Rightarrow> store \<Rightarrow> (svc_error, store \<times> rung) result" where
  "record_cancelled proposal_id rung_index broker_order_id now s =
     bindR (require_timezone_aware now) (\<lambda>t.
       transition_rung proposal_id rung_index Cancelled
         (\<lambda>r. stamp t (r\<lparr>r_broker_order_id := Some broker_order_id, r_validated_at := Some t\<rparr>)) s)"

definition record_rejected ::
  "uuid \<Rightarrow> int \<Rightarrow> string \<Rightarrow> pydatetime \<Rightarrow> store \<Rightarrow> (svc_error, store \<times> rung) result" where
  "record_rejected proposal_id rung_index reason now s =
     bindR (require_timezone_aware now) (\<lambda>t.
       transition_rung proposal_id rung_index Rejected
         (\<lambda>r. stamp t (r\<lparr>r_void_reason := Some reason\<rparr>)) s)"

definition mark_needs_reconfirm ::
  "uuid \<Rightarrow> int \<Rightarrow> pydatetime \<Rightarrow> store \<Rightarrow> (svc_error, store \<times> rung) result" where
  "mark_needs_reconfirm proposal_id rung_index now s =
     bindR (require_timezone_aware now) (\<lambda>t.
     bindR (get_locked_rung proposal_id rung_index s) (\<lambda>(grp, rung).
       transition_locked_rung grp rung NeedsReconfirm
         (\<lambda>r. stamp t (r\<lparr>r_approval_revision :=
                    Some ((case r_approval_revision rung of None \<Rightarrow> 0 | Some n \<Rightarrow> n) + 1),
                  r_validated_at := Some t\<rparr>)) s))"

definition restore_pending ::
  "order_proposal \<Rightarrow> rung \<Rightarrow> int \<Rightarrow> store \<Rightarrow> (svc_error, store \<times> rung) result" where
  "restore_pending grp rung t s =
     (if r_state rung \<in> {Revalidating, Approved, Submitting}
      then transition_locked_rung grp rung PendingApproval (stamp t) s
      else Inr (s, rung))"

definition restore_rung_after_pre_send_block ::
  "uuid \<Rightarrow> int \<Rightarrow> pydatetime \<Rightarrow> bool \<Rightarrow> store \<Rightarrow> (svc_error, store \<times> rung) result" where
  "restore_rung_after_pre_send_block proposal_id rung_index now expired s =
     bindR (require_timezone_aware now) (\<lambda>t.
     bindR (get_locked_rung proposal_id rung_index s) (\<lambda>(grp, rung).
     bindR (restore_pending grp rung t s) (\<lambda>(s1, rung1).
       if expired
       then bindR (expire_rung_if_needed proposal_id rung_index now s1) (\<lambda>(s2, _).
            bindR (get_locked_rung proposal_id rung_index s2) (\<lambda>(_, rung2). Inr (s2, rung2)))
       else Inr (s1, rung1))))"

section \<open>Convergence from broker evidence\<close>

definition fill_audit :: "int \<Rightarrow> rat option \<Rightarrow> rung \<Rightarrow> rung" where
  "fill_audit t filled_qty r =
     (if filled_qty = None then stamp t r else (stamp t r)\<lparr>r_filled_qty := filled_qty\<rparr>)"

text \<open>What the evidence does to the locked rung; a re-delivered quantity that adds nothing is ignored.\<close>

definition adds_quantity :: "rat option \<Rightarrow> rung \<Rightarrow> bool" where
  "adds_quantity filled_qty locked =
     (case (filled_qty, r_filled_qty locked) of (Some q, Some q0) \<Rightarrow> q > q0 | _ \<Rightarrow> True)"

definition apply_fill_evidence ::
  "order_proposal \<Rightarrow> rung \<Rightarrow> rat option \<Rightarrow> rung_state \<Rightarrow> int \<Rightarrow> store
   \<Rightarrow> (svc_error, store \<times> rung option) result" where
  "apply_fill_evidence grp locked filled_qty terminal_state t s =
     (if is_terminal (r_state locked) then Inr (s, None)
      else if r_state locked = terminal_state
      then (if adds_quantity filled_qty locked
            then let (s1, r1) = update_rung locked (fill_audit t filled_qty) s in Inr (s1, Some r1)
            else Inr (s, None))
      else bindR (transition_locked_rung grp locked terminal_state (fill_audit t filled_qty) s)
             (\<lambda>(s1, r1). Inr (s1, Some r1)))"

text \<open>
  The match is found in one snapshot of the store and applied, under the row lock, to the
  store another transaction may have moved on to: \<open>seen\<close> is the snapshot of the search,
  \<open>s\<close> the store at the lock.
\<close>

definition record_fill_evidence ::
  "string option \<Rightarrow> string option \<Rightarrow> string option \<Rightarrow> rat option \<Rightarrow> rung_state \<Rightarrow> pydatetime
   \<Rightarrow> string option \<Rightarrow> store \<Rightarrow> store \<Rightarrow> (svc_error, store \<times> rung option) result" where
  "record_fill_evidence correlation_id broker_order_id idempotency_key filled_qty terminal_state
       now account_mode seen s =
     bindR (require_timezone_aware now) (\<lambda>t.
       (case find_rung_by_evidence seen correlation_id broker_order_id idempotency_key
               (Some EVIDENCE_ACCEPTING_RUNG_STATES) account_mode of
          None \<Rightarrow> Inr (s, None)
        | Some (proposal_id, rung) \<Rightarrow>
            bindR (get_locked_rung proposal_id (r_rung_index rung) s) (\<lambda>(grp, locked).
              apply_fill_evidence grp locked filled_qty terminal_state t s)))"

text \<open>The rows of one evidence key, among the rungs of one account, symbol and market.\<close>

definition evidence_ids ::
  "store \<Rightarrow> string \<Rightarrow> string \<Rightarrow> string \<Rightarrow> (rung \<Rightarrow> string option) \<Rightarrow> string option \<Rightarrow> int list" where
  "evidence_ids s account_mode symbol market column value =
     (case value of
        None \<Rightarrow> []
      | Some v \<Rightarrow> map r_id (filter (\<lambda>r. column r = Some v \<and>
            (\<exists>g \<in> set (db_groups s). g_id g = r_proposal_pk r \<and> g_account_mode g = account_mode \<and>
               g_symbol g = symbol \<and> g_market g = market)) (db_rungs s)))"

definition intersect_all :: "int set list \<Rightarrow> int set" where
  "intersect_all sets = (case sets of [] \<Rightarrow> {} | S # rest \<Rightarrow> fold (\<inter>) rest S)"

definition find_unambiguous_evidence_rung_id ::
  "string option \<Rightarrow> string option \<Rightarrow> string option \<Rightarrow> string \<Rightarrow> string \<Rightarrow> string \<Rightarrow> store
   \<Rightarrow> (svc_error, int option) result" where
  "find_unambiguous_evidence_rung_id correlation_id broker_order_id idempotency_key account_mode
       symbol market s =
     (if correlation_id = None \<and> broker_order_id = None \<and> idempotency_key = None then Inr None
      else
        let broker_ids = set (evidence_ids s account_mode symbol market r_broker_order_id broker_order_id);
            correlation_ids = set (evidence_ids s account_mode symbol market r_correlation_id correlation_id);
            idempotency_ids = set (evidence_ids s account_mode symbol market r_idempotency_key idempotency_key);
            evidence_sets = filter (\<lambda>ids. ids \<noteq> {}) [broker_ids, correlation_ids, idempotency_ids]
        in if evidence_sets = [] then Inr None
           else if card broker_ids > 1 then Inl (ProposalError ''broker_id_duplicate'')
           else if broker_ids = {} \<and> idempotency_ids = {} \<and> card correlation_ids > 1
           then Inl (ProposalError ''content_hash_only_ambiguous'')
           else let intersection = intersect_all evidence_sets in
             if intersection = {} then Inl (ProposalError ''proposal_evidence_conflict'')
             else if card intersection > 1 then Inl (ProposalError ''proposal_evidence_ambiguous'')
             else Inr (Some (Min intersection)))"

definition record_fill_evidence_for_rung ::
  "int \<Rightarrow> string option \<Rightarrow> string option \<Rightarrow> string option \<Rightarrow> rat option \<Rightarrow> rung_state
   \<Rightarrow> int \<Rightarrow> string \<Rightarrow> string \<Rightarrow> string \<Rightarrow> store \<Rightarrow> (svc_error, store \<times> rung option) result" where
  "record_fill_evidence_for_rung rung_id correlation_id broker_order_id idempotency_key filled_qty
       terminal_state t account_mode symbol market s =
     (case find (\<lambda>r. r_id r = rung_id) (db_rungs s) of
        None \<Rightarrow> Inr (s, None)
      | Some r \<Rightarrow>
          (case find (\<lambda>g. g_id g = r_proposal_pk r) (db_groups s) of
             None \<Rightarrow> Inr (s, None)
           | Some g \<Rightarrow>
               bindR (get_locked_rung (g_proposal_id g) (r_rung_index r) s) (\<lambda>(grp, locked).
               bindR (find_unambiguous_evidence_rung_id correlation_id broker_order_id idempotency_key
                        account_mode symbol market s) (\<lambda>verified_id.
                 if verified_id \<noteq> Some rung_id then Inr (s, None)
                 else if is_terminal (r_state locked)
                 then (if r_state locked = terminal_state \<and> r_broker_order_id locked = broker_order_id
                       then Inr (s, Some locked)
                       else Inl (ProposalError ''proposal_terminal_evidence_conflict''))
                 else bindR (transition_locked_rung grp locked terminal_state (fill_audit t filled_qty) s)
                      (\<lambda>(s1, r1). Inr (s1, Some r1))))))"

section \<open>Stale local proposals and the commit lease\<close>

definition sweep_stale_step ::
  "int \<Rightarrow> (rung \<Rightarrow> string) \<Rightarrow> store \<times> uuid list \<Rightarrow> uuid \<times> rung \<Rightarrow> (svc_error, store \<times> uuid list) result"
  where
  "sweep_stale_step t broker_evidence st item =
     (let (proposal_id, candidate) = item in
      if broker_evidence candidate \<noteq> ''no_broker_order'' then Inr st
      else bindR (get_locked_rung proposal_id (r_rung_index candidate) (fst st)) (\<lambda>(grp, rung).
        if r_state rung \<noteq> PendingApproval \<or> r_broker_order_id rung \<noteq> None then Inr st
        else bindR (transition_locked_rung grp rung VoidedLocalStale
                 (\<lambda>r. stamp t (r\<lparr>r_void_reason := Some ''no_broker_order''\<rparr>)) (fst st))
               (\<lambda>(s2, _). Inr (s2, if proposal_id \<in> set (snd st) then snd st
                                   else snd st @ [proposal_id]))))"

definition sweep_local_stale ::
  "pydatetime \<Rightarrow> (rung \<Rightarrow> string) \<Rightarrow> store \<Rightarrow> (svc_error, store \<times> uuid list) result" where
  "sweep_local_stale now broker_evidence s =
     bindR (require_timezone_aware now) (\<lambda>t.
       foldR (sweep_stale_step t broker_evidence) (s, []) (list_local_stale_candidates s))"

definition acquire_commit_lease ::
  "uuid \<Rightarrow> pydatetime \<Rightarrow> int \<Rightarrow> store \<Rightarrow> (svc_error, store \<times> bool) result" where
  "acquire_commit_lease proposal_id now lease_seconds s =
     bindR (require_timezone_aware now) (\<lambda>t.
     bindR (of_option (NotFound proposal_id None) (get_group_by_proposal_id s proposal_id)) (\<lambda>grp.
       if (case g_commit_lease_until grp of None \<Rightarrow> False | Some u \<Rightarrow> u > t) then Inr (s, False)
       else Inr (fst (update_group grp (\<lambda>g. g\<lparr>g_commit_lease_until := Some (t + seconds lease_seconds)\<rparr>) s),
                 True)))"

end
