(* ===== verification/ProposalFrames.thy ===== *)
theory ProposalFrames
  imports ProposalVoid ProposalEvidence
begin

text \<open>
  What a write of the proposal service may change: the payload of a proposal and of a rung
  is immutable, rung states move along the transition graph, a supersession is never undone.
  One lemma per operation; the reachability theorems of the root theory fold over them.
\<close>

section \<open>Evolution of rows\<close>

definition rung_edges :: "(rung_state \<times> rung_state) set" where
  "rung_edges = {(a, b). b \<in> ALLOWED a}"

definition rung_payload where
  "rung_payload r =
     (r_id r, r_proposal_pk r, r_rung_index r, r_side r, r_quantity r, r_limit_price r,
      r_notional r)"

definition rung_evolves :: "rung \<Rightarrow> rung \<Rightarrow> bool" where
  "rung_evolves r r' \<longleftrightarrow>
     rung_payload r' = rung_payload r \<and> (r_state r, r_state r') \<in> rung_edges\<^sup>*"

definition group_payload where
  "group_payload g =
     (g_id g, g_proposal_id g, g_root_proposal_id g, g_supersedes_proposal_id g,
      g_payload_hash g, g_symbol g, g_market g, g_account_mode g, g_side g, g_order_type g,
      g_broker_account_id g, g_action g, g_target_broker_order_id g, g_exit_intent g,
      g_exit_reason g, g_retrospective_id g, g_approval_issue_id g, g_valid_until g)"

text \<open>
  A nonce is spent on a group that carries another one, or that has marked it used. \<open>N\<close> is
  the set of nonces that may be issued again on the way; every other spent nonce stays spent.
\<close>

definition spent :: "string \<Rightarrow> order_proposal \<Rightarrow> bool" where
  "spent n g \<longleftrightarrow> g_approval_nonce g \<noteq> Some n \<or> g_approval_nonce_used_at g \<noteq> None"

definition group_evolves :: "string set \<Rightarrow> order_proposal \<Rightarrow> order_proposal \<Rightarrow> bool" where
  "group_evolves N g g' \<longleftrightarrow>
     group_payload g' = group_payload g \<and>
     (g_superseded_by_proposal_id g \<noteq> None \<longrightarrow> g_superseded_by_proposal_id g' \<noteq> None) \<and>
     (g_no_resubmit g \<longrightarrow> g_no_resubmit g') \<and>
     (\<forall>n. n \<notin> N \<longrightarrow> spent n g \<longrightarrow> spent n g')"

definition rollup_inv :: "store \<Rightarrow> bool" where
  "rollup_inv s \<longleftrightarrow>
     (\<forall>g \<in> set (db_groups s). g_superseded_by_proposal_id g = None \<longrightarrow>
        g_lifecycle_state g = recompute_group_state (list_rungs s (g_id g)))"

definition evolves :: "string set \<Rightarrow> store \<Rightarrow> store \<Rightarrow> bool" where
  "evolves N s s' \<longleftrightarrow>
     wf_store s' \<and>
     (\<forall>r \<in> set (db_rungs s). \<exists>r' \<in> set (db_rungs s'). rung_evolves r r') \<and>
     (\<forall>g \<in> set (db_groups s). \<exists>g' \<in> set (db_groups s'). group_evolves N g g') \<and>
     (rollup_inv s \<longrightarrow> rollup_inv s')"

lemma rung_evolves_refl [simp, intro]: "rung_evolves r r"
  by (simp add: rung_evolves_def)

lemma group_evolves_refl [simp, intro]: "group_evolves N g g"
  by (simp add: group_evolves_def)

lemma rung_evolves_trans: "rung_evolves a b \<Longrightarrow> rung_evolves b c \<Longrightarrow> rung_evolves a c"
  by (auto simp: rung_evolves_def)

lemma group_evolves_trans: "group_evolves N a b \<Longrightarrow> group_evolves N b c \<Longrightarrow> group_evolves N a c"
  by (auto simp: group_evolves_def)

lemma evolves_refl [intro]: "wf_store s \<Longrightarrow> evolves N s s"
  by (auto simp: evolves_def)

lemma evolves_trans: "evolves N s t \<Longrightarrow> evolves N t u \<Longrightarrow> evolves N s u"
  unfolding evolves_def by (blast intro: rung_evolves_trans group_evolves_trans)

lemma evolves_wf: "evolves N s s' \<Longrightarrow> wf_store s'"
  by (simp add: evolves_def)

lemma rung_payload_simps:
  "rung_payload r' = rung_payload r \<longleftrightarrow>
     r_id r' = r_id r \<and> r_proposal_pk r' = r_proposal_pk r \<and> r_rung_index r' = r_rung_index r \<and>
     r_side r' = r_side r \<and> r_quantity r' = r_quantity r \<and> r_limit_price r' = r_limit_price r \<and>
     r_notional r' = r_notional r"
  by (auto simp: rung_payload_def)

lemma recompute_cong:
  "set (map r_state rs) = set (map r_state rs') \<Longrightarrow>
   recompute_group_state rs = recompute_group_state rs'"
  by (simp add: recompute_group_state_def)

section \<open>Writing one table\<close>

lemma write_row_member:
  assumes "distinct (map key rs)" and "r0 \<in> set rs" and "key r = key r0"
  shows "x \<in> set (write_row key r rs) \<longleftrightarrow> x = r \<or> (x \<in> set rs \<and> key x \<noteq> key r)"
  using assms by (auto simp: write_row_def image_iff)

lemma wf_put_group:
  assumes "wf_store s" and "g0 \<in> set (db_groups s)" and "group_payload g = group_payload g0"
  shows "wf_store (put_group g s)"
proof -
  have id: "g_id g = g_id g0" and pid: "g_proposal_id g = g_proposal_id g0"
    using assms(3) by (auto simp: group_payload_def)
  have d: "distinct (map g_id (db_groups s))" using assms(1) by (simp add: wf_store_def)
  have m: "map g_proposal_id (db_groups (put_group g s)) = map g_proposal_id (db_groups s)"
    using groups.map_put_frame [of s g0 g g_proposal_id] d assms(2) id pid by simp
  have k: "map g_id (db_groups (put_group g s)) = map g_id (db_groups s)"
    by (rule groups.keys_put)
  have ks: "g_id ` set (db_groups (put_group g s)) = g_id ` set (db_groups s)"
    using k by (metis list.set_map)
  have lt: "\<forall>x \<in> set (db_groups (put_group g s)). g_id x < db_group_seq s"
  proof
    fix x assume "x \<in> set (db_groups (put_group g s))"
    then have "g_id x \<in> g_id ` set (db_groups s)" using ks by blast
    then show "g_id x < db_group_seq s" using assms(1) by (auto simp: wf_store_def)
  qed
  have q: "db_group_seq (put_group g s) = db_group_seq s" "db_rung_seq (put_group g s) = db_rung_seq s"
    by (simp_all add: put_group_def)
  show ?thesis using assms(1) m k ks lt q by (simp add: wf_store_def)
qed

lemma list_rungs_states_put_group:
  "recompute_group_state (list_rungs (put_group g s) pk) = recompute_group_state (list_rungs s pk)"
  by simp

lemma put_group_rows:
  assumes "wf_store s" and "g0 \<in> set (db_groups s)" and "group_payload g = group_payload g0"
  shows "x \<in> set (db_groups (put_group g s)) \<longleftrightarrow> x = g \<or> (x \<in> set (db_groups s) \<and> g_id x \<noteq> g_id g)"
proof -
  have "g_id g = g_id g0" using assms(3) by (auto simp: group_payload_def)
  then show ?thesis
    using assms(1,2) write_row_member [of g_id "db_groups s" g0 g x]
    by (simp add: groups.rows_put wf_store_def)
qed

lemma put_group_evolves:
  assumes wf: "wf_store s" and g0: "g0 \<in> set (db_groups s)" and ev: "group_evolves N g0 g"
    and roll: "g_superseded_by_proposal_id g = None \<Longrightarrow>
        g_lifecycle_state g = recompute_group_state (list_rungs s (g_id g))
        \<or> g_lifecycle_state g = g_lifecycle_state g0"
  shows "evolves N s (put_group g s)"
proof -
  have pay: "group_payload g = group_payload g0" using ev by (simp add: group_evolves_def)
  then have id: "g_id g = g_id g0" by (simp add: group_payload_def)
  note rows = put_group_rows [OF wf g0 pay]
  have uniq: "x = g0" if "x \<in> set (db_groups s)" "g_id x = g_id g0" for x
    using that g0 wf by (auto simp: wf_store_def dest: eq_key_imp_eq_value inj_onD simp: distinct_map)
  have G: "\<exists>g' \<in> set (db_groups (put_group g s)). group_evolves N x g'"
    if "x \<in> set (db_groups s)" for x
  proof (cases "g_id x = g_id g")
    case True
    then show ?thesis using uniq [OF that] id ev rows by auto
  next
    case False
    then show ?thesis using that rows by auto
  qed
  have R: "rollup_inv s \<Longrightarrow> rollup_inv (put_group g s)"
    using rows roll g0 ev id by (auto simp: rollup_inv_def group_evolves_def)
  show ?thesis using G R wf_put_group [OF wf g0 pay] by (auto simp: evolves_def)
qed

lemma put_rung_rows:
  assumes "wf_store s" and "r0 \<in> set (db_rungs s)" and "r_id r = r_id r0"
  shows "x \<in> set (db_rungs (put_rung r s)) \<longleftrightarrow> x = r \<or> (x \<in> set (db_rungs s) \<and> r_id x \<noteq> r_id r)"
  using assms write_row_member [of r_id "db_rungs s" r0 r x]
  by (simp add: rungs.rows_put wf_store_def)

lemma wf_put_rung:
  assumes "wf_store s" and "r0 \<in> set (db_rungs s)" and "rung_payload r = rung_payload r0"
  shows "wf_store (put_rung r s)"
proof -
  have eqs: "r_id r = r_id r0" "r_proposal_pk r = r_proposal_pk r0" "r_rung_index r = r_rung_index r0"
    using assms(3) by (auto simp: rung_payload_def)
  have d: "distinct (map r_id (db_rungs s))" using assms(1) by (simp add: wf_store_def)
  have k: "map r_id (db_rungs (put_rung r s)) = map r_id (db_rungs s)"
    by (rule rungs.keys_put)
  have p: "map (\<lambda>r. (r_proposal_pk r, r_rung_index r)) (db_rungs (put_rung r s))
      = map (\<lambda>r. (r_proposal_pk r, r_rung_index r)) (db_rungs s)"
    by (rule rungs.map_put_frame [of s r0]) (use d assms(2) eqs in auto)
  have q: "db_group_seq (put_rung r s) = db_group_seq s" "db_rung_seq (put_rung r s) = db_rung_seq s"
    by (simp_all add: put_rung_def)
  note rows = put_rung_rows [OF assms(1,2) eqs(1)]
  have lt: "\<forall>x \<in> set (db_rungs (put_rung r s)). r_id x < db_rung_seq s"
    using rows assms(1,2) eqs by (auto simp: wf_store_def)
  have fk: "\<forall>x \<in> set (db_rungs (put_rung r s)). r_proposal_pk x \<in> g_id ` set (db_groups s)"
    using rows assms(1,2) eqs by (auto simp: wf_store_def)
  show ?thesis using assms(1) k p q lt fk by (simp add: wf_store_def)
qed

section \<open>Writing rungs, then the rollup of their group\<close>

text \<open>
  The shape of every lifecycle operation: rungs of one group are rewritten, then the group
  row with the recomputed state.
\<close>

definition rungs_rewritten :: "int \<Rightarrow> store \<Rightarrow> store \<Rightarrow> bool" where
  "rungs_rewritten pk s s1 \<longleftrightarrow>
     wf_store s1 \<and> db_groups s1 = db_groups s \<and>
     (\<forall>r \<in> set (db_rungs s). \<exists>r' \<in> set (db_rungs s1). rung_evolves r r') \<and>
     (\<forall>pk'. pk' \<noteq> pk \<longrightarrow> set (list_rungs s1 pk') = set (list_rungs s pk'))"

lemma recompute_set_cong:
  "set rs = set rs' \<Longrightarrow> recompute_group_state rs = recompute_group_state rs'"
  by (rule recompute_cong) simp

lemma rewritten_rollup_evolves:
  assumes rw: "rungs_rewritten (g_id grp) s s1" and grp: "grp \<in> set (db_groups s)"
    and wf: "wf_store s"
    and ev: "group_evolves N grp g1"
    and life: "g_superseded_by_proposal_id g1 = None \<Longrightarrow>
        g_lifecycle_state g1 = recompute_group_state (list_rungs s1 (g_id grp))"
  shows "evolves N s (put_group g1 s1)"
proof -
  have wf1: "wf_store s1" and gs: "db_groups s1 = db_groups s" using rw by (auto simp: rungs_rewritten_def)
  have id: "g_id g1 = g_id grp" using ev by (simp add: group_evolves_def group_payload_def spent_def)
  have grp1: "grp \<in> set (db_groups s1)" using grp gs by simp
  have e1: "evolves N s1 (put_group g1 s1)"
    by (rule put_group_evolves [OF wf1 grp1 ev]) (simp add: life id)
  have pay: "group_payload g1 = group_payload grp" using ev by (simp add: group_evolves_def)
  note rows = put_group_rows [OF wf1 grp1 pay]
  have "rollup_inv (put_group g1 s1)" if inv: "rollup_inv s"
    unfolding rollup_inv_def
  proof (intro ballI impI)
    fix x assume x: "x \<in> set (db_groups (put_group g1 s1))" and ns: "g_superseded_by_proposal_id x = None"
    show "g_lifecycle_state x = recompute_group_state (list_rungs (put_group g1 s1) (g_id x))"
    proof (cases "x = g1")
      case True
      then show ?thesis using ns by (simp add: life id)
    next
      case False
      then have xs: "x \<in> set (db_groups s)" "g_id x \<noteq> g_id grp" using x rows gs id by auto
      have "set (list_rungs s1 (g_id x)) = set (list_rungs s (g_id x))"
        using rw xs(2) unfolding rungs_rewritten_def by blast
      then have "recompute_group_state (list_rungs s1 (g_id x)) = recompute_group_state (list_rungs s (g_id x))"
        by (rule recompute_set_cong)
      then show ?thesis using inv xs(1) ns by (simp add: rollup_inv_def)
    qed
  qed
  then show ?thesis using e1 rw gs by (auto simp: evolves_def rungs_rewritten_def)
qed

lemma put_rung_rewritten:
  assumes wf: "wf_store s" and r0: "r0 \<in> set (db_rungs s)" and ev: "rung_evolves r0 r"
  shows "rungs_rewritten (r_proposal_pk r0) s (put_rung r s)"
proof -
  have pay: "rung_payload r = rung_payload r0" using ev by (simp add: rung_evolves_def)
  then have eqs: "r_id r = r_id r0" "r_proposal_pk r = r_proposal_pk r0"
    by (auto simp: rung_payload_def)
  note rows = put_rung_rows [OF wf r0 eqs(1)]
  have uniq: "x = r0" if "x \<in> set (db_rungs s)" "r_id x = r_id r0" for x
    using that r0 wf by (auto simp: wf_store_def distinct_map dest: inj_onD)
  have "\<exists>r' \<in> set (db_rungs (put_rung r s)). rung_evolves x r'" if "x \<in> set (db_rungs s)" for x
    using that uniq [OF that] rows ev eqs by (cases "r_id x = r_id r") auto
  moreover have "set (list_rungs (put_rung r s) pk') = set (list_rungs s pk')"
    if "pk' \<noteq> r_proposal_pk r0" for pk'
    using that rows eqs uniq by auto
  ultimately show ?thesis
    using wf_put_rung [OF wf r0 pay] by (auto simp: rungs_rewritten_def)
qed

lemma rungs_rewritten_trans:
  "rungs_rewritten pk s s1 \<Longrightarrow> rungs_rewritten pk s1 s2 \<Longrightarrow> rungs_rewritten pk s s2"
  unfolding rungs_rewritten_def by (metis rung_evolves_trans)

lemma rungs_rewritten_refl: "wf_store s \<Longrightarrow> rungs_rewritten pk s s"
  by (auto simp: rungs_rewritten_def)

section \<open>Reading under the lock\<close>

lemma get_locked_rung_Inr:
  assumes "get_locked_rung pid i s = Inr (grp, rung)"
  shows "grp \<in> set (db_groups s)" "g_proposal_id grp = pid" "rung \<in> set (db_rungs s)"
    "r_proposal_pk rung = g_id grp" "r_rung_index rung = i"
proof -
  from assms obtain g where "get_group_by_proposal_id s pid = Some g"
    "find (\<lambda>r. r_rung_index r = i) (list_rungs s (g_id g)) = Some rung" "g = grp"
    by (auto simp: get_locked_rung_def bindR_eq_Inr)
  then show "grp \<in> set (db_groups s)" "g_proposal_id grp = pid" "rung \<in> set (db_rungs s)"
    "r_proposal_pk rung = g_id grp" "r_rung_index rung = i"
    by (auto dest!: get_group_in find_SomeD)
qed

definition audit_frame :: "(rung \<Rightarrow> rung) \<Rightarrow> bool" where
  "audit_frame f \<longleftrightarrow> (\<forall>r. rung_payload (f r) = rung_payload r \<and> r_state (f r) = r_state r)"

lemma transition_locked_rung_Inr:
  assumes "transition_locked_rung grp rung new audit s = Inr (s', r')"
  shows "new \<in> ALLOWED (r_state rung)"
    and "r' = audit (rung\<lparr>r_updated_at := db_now s, r_state := new\<rparr>)"
    and "s' = put_group (grp\<lparr>g_updated_at := db_now s,
                g_lifecycle_state := recompute_group_state (list_rungs (put_rung r' s) (g_id grp))\<rparr>)
              (put_rung r' s)"
  using assms
  by (auto simp: transition_locked_rung_def bindR_eq_Inr update_rung_def update_group_def
      rollup_def Let_def)

lemma transition_locked_rung_evolves:
  assumes wf: "wf_store s" and grp: "grp \<in> set (db_groups s)" and rung: "rung \<in> set (db_rungs s)"
    and pk: "r_proposal_pk rung = g_id grp" and frame: "audit_frame audit"
    and ok: "transition_locked_rung grp rung new audit s = Inr (s', r')"
  shows "evolves N s s'"
proof -
  note t = transition_locked_rung_Inr [OF ok]
  have ev: "rung_evolves rung r'"
    using t(1,2) frame
    by (auto simp: rung_evolves_def audit_frame_def rung_payload_def rung_edges_def intro: r_into_rtrancl)
  have "rungs_rewritten (g_id grp) s (put_rung r' s)"
    using put_rung_rewritten [OF wf rung ev] pk by simp
  then show ?thesis
    unfolding t(3)
    by (rule rewritten_rollup_evolves [OF _ grp wf]) (simp_all add: group_evolves_def group_payload_def spent_def)
qed

lemma transition_rung_evolves:
  assumes "wf_store s" and "audit_frame audit" and "transition_rung pid i new audit s = Inr (s', r')"
  shows "evolves N s s'"
proof -
  from assms(3) obtain grp rung where "get_locked_rung pid i s = Inr (grp, rung)"
    and "transition_locked_rung grp rung new audit s = Inr (s', r')"
    by (auto simp: transition_rung_def bindR_eq_Inr)
  note g = get_locked_rung_Inr [OF this(1)] and t = this(2)
  show ?thesis by (rule transition_locked_rung_evolves [OF assms(1) g(1,3,4) assms(2) t])
qed

section \<open>Check, write, collect: the loops\<close>

definition collecting :: "(store \<times> rung list \<Rightarrow> rung \<Rightarrow> (svc_error, store \<times> rung list) result) \<Rightarrow> bool"
  where
  "collecting step \<longleftrightarrow>
     (\<forall>s acc r s1 acc1. step (s, acc) r = Inr (s1, acc1) \<longrightarrow>
        (\<exists>r1. acc1 = acc @ [r1] \<and> s1 = put_rung r1 s \<and> rung_evolves r r1))"

lemma collecting_expire_step: "collecting (expire_step t)"
  unfolding collecting_def expire_step_def update_rung_def stamp_def
  by (auto simp: bindR_eq_Inr Let_def rung_evolves_def rung_payload_def rung_edges_def)

lemma collecting_void_step: "collecting (void_step t why)"
  unfolding collecting_def void_step_def update_rung_def stamp_def
  by (auto simp: bindR_eq_Inr Let_def rung_evolves_def rung_payload_def rung_edges_def split: if_splits)

lemma collecting_loop:
  assumes step: "collecting step" and wf: "wf_store s"
    and rs: "set rs \<subseteq> set (db_rungs s)" and pk: "\<forall>r \<in> set rs. r_proposal_pk r = k"
    and dist: "distinct (map r_id rs)" and ok: "foldR step (s, acc) rs = Inr (s', out)"
  shows "rungs_rewritten k s s' \<and>
    (\<exists>rs1. out = acc @ rs1 \<and> list_all2 rung_evolves rs rs1 \<and>
       (\<forall>x. x \<in> set (db_rungs s') \<longleftrightarrow> x \<in> set rs1 \<or> (x \<in> set (db_rungs s) \<and> r_id x \<notin> r_id ` set rs)))"
  using wf rs pk dist ok
proof (induction rs arbitrary: s acc)
  case Nil
  then show ?case by (auto intro: rungs_rewritten_refl)
next
  case (Cons r rs)
  from Cons.prems(5) obtain s1 acc1 where st: "step (s, acc) r = Inr (s1, acc1)"
    and rest: "foldR step (s1, acc1) rs = Inr (s', out)"
    by (auto simp: bindR_eq_Inr)
  obtain r1 where r1: "acc1 = acc @ [r1]" "s1 = put_rung r1 s" "rung_evolves r r1"
    using step st unfolding collecting_def by blast
  have r: "r \<in> set (db_rungs s)" using Cons.prems(2) by simp
  have id: "r_id r1 = r_id r" using r1(3) by (simp add: rung_evolves_def rung_payload_def)
  have rw: "rungs_rewritten k s s1"
    using put_rung_rewritten [OF Cons.prems(1) r r1(3)] Cons.prems(3) r1(2) by simp
  note rows = put_rung_rows [OF Cons.prems(1) r id, folded r1(2)]
  have ne: "\<forall>x \<in> set rs. r_id x \<noteq> r_id r" using Cons.prems(4) by (auto simp: image_iff)
  have sub: "set rs \<subseteq> set (db_rungs s1)"
  proof
    fix x assume x: "x \<in> set rs"
    then have "x \<in> set (db_rungs s)" using Cons.prems(2) by auto
    moreover have "r_id x \<noteq> r_id r" using x ne by blast
    ultimately show "x \<in> set (db_rungs s1)" using rows id by simp
  qed
  have wf1: "wf_store s1" using rw by (simp add: rungs_rewritten_def)
  obtain rs1 where IH: "rungs_rewritten k s1 s'" "out = acc1 @ rs1" "list_all2 rung_evolves rs rs1"
    "\<forall>x. x \<in> set (db_rungs s') \<longleftrightarrow> x \<in> set rs1 \<or> (x \<in> set (db_rungs s1) \<and> r_id x \<notin> r_id ` set rs)"
    using Cons.IH [OF wf1 sub _ _ rest] Cons.prems(3,4) by auto
  have "\<forall>x. x \<in> set (db_rungs s') \<longleftrightarrow>
      x \<in> set (r1 # rs1) \<or> (x \<in> set (db_rungs s) \<and> r_id x \<notin> r_id ` set (r # rs))"
    using IH(4) rows id ne by auto
  then show ?case
    using rungs_rewritten_trans [OF rw IH(1)] IH(2,3) r1(1,3)
    by (intro conjI exI [of _ "r1 # rs1"]) simp_all
qed

lemma distinct_list_rungs: "wf_store s \<Longrightarrow> distinct (map r_id (list_rungs s pk))"
  by (auto simp: wf_store_def list_rungs_def distinct_map intro: inj_on_subset)

lemma collecting_loop_rollup:
  assumes step: "collecting step" and wf: "wf_store s" and grp: "grp \<in> set (db_groups s)"
    and ok: "foldR step (s, []) (list_rungs s (g_id grp)) = Inr (s1, out)"
    and upd: "\<And>g. group_evolves N g (upd g) \<and> g_lifecycle_state (upd g) = g_lifecycle_state g"
  shows "evolves N s (rollup grp out upd s1)"
    and "set (list_rungs (rollup grp out upd s1) (g_id grp)) = set out"
    and "list_all2 rung_evolves (list_rungs s (g_id grp)) out"
proof -
  let ?rs = "list_rungs s (g_id grp)"
  obtain rs1 where rw: "rungs_rewritten (g_id grp) s s1" and out: "out = rs1"
    and ev: "list_all2 rung_evolves ?rs rs1"
    and rows: "\<forall>x. x \<in> set (db_rungs s1) \<longleftrightarrow> x \<in> set rs1 \<or> (x \<in> set (db_rungs s) \<and> r_id x \<notin> r_id ` set ?rs)"
    using collecting_loop [OF step wf _ _ distinct_list_rungs [OF wf] ok, of "g_id grp"]
    by (metis (mono_tags, lifting) append_Nil list_rungs_set mem_Collect_eq subsetI)
  have pk: "\<forall>x \<in> set rs1. r_proposal_pk x = g_id grp"
  proof
    fix x assume "x \<in> set rs1"
    then obtain i where i: "i < length rs1" "x = rs1 ! i" by (auto simp: in_set_conv_nth)
    have len: "length ?rs = length rs1" using ev by (rule list_all2_lengthD)
    have "rung_evolves (?rs ! i) x" using ev i len list_all2_nthD [OF ev] by metis
    moreover have "?rs ! i \<in> {r \<in> set (db_rungs s). r_proposal_pk r = g_id grp}"
      using nth_mem [of i ?rs] i(1) len by (simp only: list_rungs_set)
    ultimately show "r_proposal_pk x = g_id grp" by (simp add: rung_evolves_def rung_payload_def)
  qed
  have set: "set (list_rungs s1 (g_id grp)) = set out"
    using rows pk out by auto
  let ?g1 = "upd (grp\<lparr>g_updated_at := db_now s1, g_lifecycle_state := recompute_group_state out\<rparr>)"
  have roll: "rollup grp out upd s1 = put_group ?g1 s1"
    by (simp add: rollup_def update_group_def Let_def)
  have "group_evolves N grp (grp\<lparr>g_updated_at := db_now s1, g_lifecycle_state := recompute_group_state out\<rparr>)"
    by (simp add: group_evolves_def group_payload_def spent_def)
  then have "group_evolves N grp ?g1" using upd group_evolves_trans by blast
  moreover have "g_lifecycle_state ?g1 = recompute_group_state (list_rungs s1 (g_id grp))"
    using upd recompute_set_cong [OF set] by simp
  ultimately show "evolves N s (rollup grp out upd s1)"
    unfolding roll by (rule rewritten_rollup_evolves [OF rw grp wf])
  show "set (list_rungs (rollup grp out upd s1) (g_id grp)) = set out" using set by (simp add: roll)
  show "list_all2 rung_evolves ?rs out" using ev out by simp
qed

end
