(* ===== verification/ApprovalService.thy ===== *)
theory ApprovalService
  imports ProposalService
begin

text \<open>
  The approval half of \<open>OrderProposalsService\<close> (\<open>service.py\<close>): nonces, the published-callback
  gate, the two-step loss-cut confirmation, and the dispatch attempts with their
  current-owner fence.
\<close>

section \<open>Block reasons\<close>

definition proposal_approval_block_reason :: "order_proposal \<Rightarrow> block_reason option" where
  "proposal_approval_block_reason grp =
     (if g_superseded_by_proposal_id grp \<noteq> None
      then Some (SupersededBy (g_superseded_by_proposal_id grp))
      else if g_lifecycle_state grp = GSuperseded then Some (SupersededBy None)
      else if g_lifecycle_state grp \<in> APPROVAL_TERMINAL_GROUP_STATES
      then Some (ProposalTerminal (g_lifecycle_state grp))
      else None)"

fun is_superseded_reason :: "block_reason option \<Rightarrow> bool" where
  "is_superseded_reason (Some (SupersededBy _)) = True"
| "is_superseded_reason _ = False"

definition proposal_callback_block_reason :: "order_proposal \<Rightarrow> string \<Rightarrow> block_reason option" where
  "proposal_callback_block_reason grp nonce =
     (let reason = proposal_approval_block_reason grp in
      if is_superseded_reason reason then reason
      else if g_approval_nonce grp = Some nonce \<and> g_approval_nonce_used_at grp \<noteq> None
      then Some NonceReplayBlock
      else reason)"

definition auto_approved :: "order_proposal \<Rightarrow> bool" where
  "auto_approved grp = is_dict (dict_get (or_empty (g_source_asof grp)) ''auto_approved'')"

datatype batch_block =
    BatchApprovalBlock block_reason | LossCutExcluded | AutoApprovedExcluded
  | DispatchNotCurrentBlock | CardKindNotBatchable
  | BatchWindow approval_window_code string
  | ApprovalNonceMissing | ApprovalNonceUsed | NoPendingRungs

definition batch_member_block_reason ::
  "order_proposal \<Rightarrow> rung list \<Rightarrow> pydatetime \<Rightarrow> (svc_error, batch_block option) result" where
  "batch_member_block_reason grp rungs now =
     (case proposal_approval_block_reason grp of
        Some b \<Rightarrow> Inr (Some (BatchApprovalBlock b))
      | None \<Rightarrow>
          if g_exit_intent grp = Some ''loss_cut'' then Inr (Some LossCutExcluded)
          else if auto_approved grp then Inr (Some AutoApprovedExcluded)
          else if g_approval_dispatch_state grp \<noteq> Some SentCurrent
          then Inr (Some DispatchNotCurrentBlock)
          else if g_approval_dispatch_card_kind grp \<notin> {Some Manual, Some Reconfirm}
          then Inr (Some CardKindNotBatchable)
          else bindR (map_error (\<lambda>_. NaiveDatetime)
                 (valid_until_block (column_datetime (g_valid_until grp)) now)) (\<lambda>validity_block.
            case validity_block of
              Some (code, detail) \<Rightarrow> Inr (Some (BatchWindow code detail))
            | None \<Rightarrow>
                if \<not> truthy (g_approval_nonce grp) then Inr (Some ApprovalNonceMissing)
                else if g_approval_nonce_used_at grp \<noteq> None then Inr (Some ApprovalNonceUsed)
                else if \<not> (\<exists>r \<in> set rungs. r_state r = PendingApproval) then Inr (Some NoPendingRungs)
                else Inr None))"

section \<open>Locked group writes\<close>

definition locked_group :: "uuid \<Rightarrow> store \<Rightarrow> (svc_error, order_proposal) result" where
  "locked_group proposal_id s =
     of_option (NotFound proposal_id None) (get_group_by_proposal_id s proposal_id)"

text \<open>Stage a nonce while fail-closing any published card.\<close>

definition set_approval_nonce ::
  "uuid \<Rightarrow> string \<Rightarrow> bool \<Rightarrow> store \<Rightarrow> (svc_error, store) result" where
  "set_approval_nonce proposal_id nonce require_redispatchable s =
     bindR (locked_group proposal_id s) (\<lambda>grp.
       case proposal_approval_block_reason grp of
         Some b \<Rightarrow> Inl (ApprovalBlocked b)
       | None \<Rightarrow>
           if require_redispatchable \<and> g_approval_dispatch_state grp = Some DPending
           then Inl (ProposalError ''approval_dispatch_already_pending'')
           else if require_redispatchable \<and> g_approval_dispatch_state grp = Some SentCurrent
                   \<and> g_approval_nonce_used_at grp = None
           then Inl (ProposalError ''approval_dispatch_already_current'')
           else Inr (fst (update_group grp (\<lambda>g. g\<lparr>
                  g_approval_nonce := Some nonce,
                  g_approval_nonce_used_at := None,
                  g_approval_dispatch_state := Some DFailed,
                  g_approval_dispatch_published_at := None,
                  g_approval_dispatch_failure_code := Some ''approval_dispatch_snapshot_missing''\<rparr>) s)))"

definition clear_approval_nonce ::
  "uuid \<Rightarrow> string option \<Rightarrow> store \<Rightarrow> (svc_error, store \<times> order_proposal) result" where
  "clear_approval_nonce proposal_id expected_nonce s =
     bindR (locked_group proposal_id s) (\<lambda>grp.
       if expected_nonce \<noteq> None \<and> g_approval_nonce grp \<noteq> expected_nonce
       then Inl (ProposalError ''nonce_mismatch'')
       else Inr (update_group grp (\<lambda>g. g\<lparr>g_approval_nonce := None, g_approval_nonce_used_at := None\<rparr>) s))"

definition LOSS_CUT_CONFIRMATION_KEY :: string where
  "LOSS_CUT_CONFIRMATION_KEY = ''loss_cut_confirmation''"

definition restore_approval_after_window_block ::
  "uuid \<Rightarrow> string \<Rightarrow> bool \<Rightarrow> store \<Rightarrow> (svc_error, store \<times> order_proposal) result" where
  "restore_approval_after_window_block proposal_id nonce expired s =
     bindR (locked_group proposal_id s) (\<lambda>grp.
       if g_approval_nonce grp \<notin> {None, Some nonce} then Inl (ProposalError ''nonce_mismatch'')
       else
         let source_asof = or_empty (g_source_asof grp);
             source_asof1 =
               (case dict_get source_asof LOSS_CUT_CONFIRMATION_KEY of
                  Some (JObj envelope) \<Rightarrow>
                    if dict_get envelope ''nonce'' = Some (JStr nonce)
                    then dict_set LOSS_CUT_CONFIRMATION_KEY
                           (JObj (dict_set ''second_click'' JNull envelope)) source_asof
                    else source_asof
                | _ \<Rightarrow> source_asof)
         in Inr (update_group grp (\<lambda>g. g\<lparr>
              g_source_asof := or_none source_asof1,
              g_approval_nonce := (if expired then None else Some nonce),
              g_approval_nonce_used_at := None,
              g_approved_by_telegram_user_id := None,
              g_approved_at := None,
              g_commit_lease_until := None\<rparr>) s))"

section \<open>The published-callback gate\<close>

definition current_callback_envelope ::
  "order_proposal \<Rightarrow> string \<Rightarrow> string \<Rightarrow> (svc_error, callback_envelope) result" where
  "current_callback_envelope grp action nonce =
     (case (g_approval_dispatch_attempt_id grp, g_approval_dispatch_membership_revision grp,
            g_approval_dispatch_membership_digest grp) of
        (Some attempt_id, Some revision, Some digest) \<Rightarrow>
          Inr \<lparr>cb_action = action, cb_subject_short = take 8 (g_proposal_id grp),
               cb_attempt_id = attempt_id, cb_membership_revision = revision,
               cb_membership_digest = digest, cb_nonce = nonce\<rparr>
      | _ \<Rightarrow> Inl (ProposalError ''approval_dispatch_snapshot_missing''))"

definition gate_snapshot :: "order_proposal \<Rightarrow> dispatch_state \<Rightarrow> callback_gate_snapshot" where
  "gate_snapshot grp state =
     \<lparr>sn_subject_short = take 8 (g_proposal_id grp), sn_state = state,
      sn_attempt_id = g_approval_dispatch_attempt_id grp,
      sn_card_kind = g_approval_dispatch_card_kind grp,
      sn_membership_revision = g_approval_dispatch_membership_revision grp,
      sn_membership_digest = g_approval_dispatch_membership_digest grp,
      sn_nonce = g_approval_nonce grp,
      sn_nonce_used = (g_approval_nonce_used_at grp \<noteq> None)\<rparr>"

text \<open>
  The columns are typed by check constraints, so that only a null dispatch state is not a
  member of the enumeration.
\<close>

definition assert_published_proposal_binding ::
  "order_proposal \<Rightarrow> callback_envelope \<Rightarrow> (svc_error, card_kind) result" where
  "assert_published_proposal_binding grp callback =
     (case proposal_callback_block_reason grp (cb_nonce callback) of
        Some b \<Rightarrow> Inl (ApprovalBlocked b)
      | None \<Rightarrow>
          bindR (of_option (ProposalError ''approval_dispatch_state_invalid'')
                   (g_approval_dispatch_state grp)) (\<lambda>state.
          bindR (map_error GateRefused (assert_callback_gate (gate_snapshot grp state) callback)) (\<lambda>_.
          bindR (of_option (ProposalError ''approval_dispatch_card_kind_invalid'')
                   (g_approval_dispatch_card_kind grp)) (\<lambda>card_kind.
            if card_kind = AutoVeto
            then (if \<not> auto_approved grp then Inl (ProposalError ''auto_veto_not_available'')
                  else Inr card_kind)
            else if auto_approved grp then Inl (ProposalError ''auto_veto_nonce_requires_vc'')
            else Inr card_kind))))"

definition preflight_published_proposal_callback ::
  "uuid \<Rightarrow> callback_envelope \<Rightarrow> store \<Rightarrow> (svc_error, order_proposal) result" where
  "preflight_published_proposal_callback proposal_id callback s =
     bindR (locked_group proposal_id s) (\<lambda>grp.
     bindR (assert_published_proposal_binding grp callback) (\<lambda>_. Inr grp))"

section \<open>Two-step loss-cut confirmation\<close>

definition LOSS_CUT_CONFIRMABLE_RUNG_STATES :: "rung_state set" where
  "LOSS_CUT_CONFIRMABLE_RUNG_STATES = {PendingApproval, NeedsReconfirm}"

definition rung_binding :: "rung list \<Rightarrow> json list" where
  "rung_binding rungs =
     map (\<lambda>r. JObj [(''rung_index'', JInt (r_rung_index r)),
                    (''approval_revision'',
                       JInt (case r_approval_revision r of None \<Rightarrow> 0 | Some n \<Rightarrow> n))])
       (filter (\<lambda>r. r_state r \<in> LOSS_CUT_CONFIRMABLE_RUNG_STATES) (sort_key r_rung_index rungs))"

definition click :: "string \<Rightarrow> int \<Rightarrow> string \<Rightarrow> json" where
  "click telegram_user_id t nonce =
     JObj [(''telegram_user_id'', JStr telegram_user_id), (''clicked_at'', JTime t),
           (''nonce'', JStr nonce)]"

definition issue_loss_cut_confirmation ::
  "uuid \<Rightarrow> string \<Rightarrow> string \<Rightarrow> string \<Rightarrow> pydatetime \<Rightarrow> int \<Rightarrow> store
   \<Rightarrow> (svc_error, store \<times> order_proposal) result" where
  "issue_loss_cut_confirmation proposal_id first_nonce confirmation_nonce telegram_user_id now
       ttl_seconds s =
     bindR (require_timezone_aware now) (\<lambda>t.
     bindR (locked_group proposal_id s) (\<lambda>grp.
       if g_exit_intent grp \<noteq> Some ''loss_cut''
       then Inl (ProposalError ''loss_cut_confirmation_requires_loss_cut'')
       else if g_approval_nonce grp \<noteq> Some first_nonce \<or> g_approval_nonce_used_at grp = None
       then Inl (ProposalError ''loss_cut_first_nonce_not_consumed'')
       else let binding = rung_binding (list_rungs s (g_id grp)) in
         if binding = [] then Inl (ProposalError ''loss_cut_confirmation_has_no_eligible_rungs'')
         else let envelope =
                [(''proposal_id'', JStr proposal_id), (''rungs'', JArr binding),
                 (''nonce'', JStr confirmation_nonce), (''issued_at'', JTime t),
                 (''expires_at'', JTime (t + seconds ttl_seconds)),
                 (''first_click'', click telegram_user_id t first_nonce),
                 (''second_click'', JNull)]
           in Inr (update_group grp (\<lambda>g. g\<lparr>
                g_source_asof := Some (dict_set LOSS_CUT_CONFIRMATION_KEY (JObj envelope)
                                   (or_empty (g_source_asof grp))),
                g_approval_nonce := Some confirmation_nonce,
                g_approval_nonce_used_at := None\<rparr>) s)))"

definition validated_loss_cut_confirmation_source ::
  "order_proposal \<Rightarrow> string \<Rightarrow> string \<Rightarrow> int \<Rightarrow> store \<Rightarrow> (svc_error, dict) result" where
  "validated_loss_cut_confirmation_source grp nonce telegram_user_id t s =
     (case dict_get (or_empty (g_source_asof grp)) LOSS_CUT_CONFIRMATION_KEY of
        Some (JObj envelope) \<Rightarrow>
          (case dict_get envelope ''expires_at'' of
             Some (JTime expires_at) \<Rightarrow>
               if t \<ge> expires_at then Inl (ProposalError ''loss_cut_confirmation_expired'')
               else if dict_get envelope ''proposal_id'' \<noteq> Some (JStr (g_proposal_id grp))
                     \<or> dict_get envelope ''nonce'' \<noteq> Some (JStr nonce)
                     \<or> dict_get envelope ''rungs'' \<noteq> Some (JArr (rung_binding (list_rungs s (g_id grp))))
               then Inl (ProposalError ''loss_cut_confirmation_binding_mismatch'')
               else Inr (dict_set LOSS_CUT_CONFIRMATION_KEY
                      (JObj (dict_set ''second_click'' (click telegram_user_id t nonce) envelope))
                      (or_empty (g_source_asof grp)))
           | _ \<Rightarrow> Inl (ProposalError ''loss_cut_confirmation_invalid''))
      | _ \<Rightarrow> Inl (ProposalError ''loss_cut_confirmation_missing''))"

section \<open>The single nonce consumer\<close>

definition require_open_window :: "order_proposal \<Rightarrow> pydatetime \<Rightarrow> (svc_error, unit) result" where
  "require_open_window grp now =
     bindR (map_error (\<lambda>_. NaiveDatetime)
              (valid_until_block (column_datetime (g_valid_until grp)) now)) (\<lambda>validity_block.
       case validity_block of
         Some (code, detail) \<Rightarrow> Inl (ApprovalWindowBlocked code detail)
       | None \<Rightarrow> Inr ())"

definition mark_nonce_used ::
  "order_proposal \<Rightarrow> callback_envelope \<Rightarrow> string option \<Rightarrow> int \<Rightarrow> store
   \<Rightarrow> (svc_error, store \<times> order_proposal) result" where
  "mark_nonce_used grp callback telegram_user_id t s =
     (if cb_action callback = ''lc''
      then bindR (validated_loss_cut_confirmation_source grp (cb_nonce callback)
                    (case telegram_user_id of None \<Rightarrow> [] | Some u \<Rightarrow> u) t s)
             (\<lambda>source_asof. Inr (update_group grp (\<lambda>g. g\<lparr>
                g_approval_nonce_used_at := Some t, g_source_asof := Some source_asof\<rparr>) s))
      else Inr (update_group grp (\<lambda>g. g\<lparr>g_approval_nonce_used_at := Some t\<rparr>) s))"

definition consume_published_proposal_callback ::
  "uuid \<Rightarrow> callback_envelope \<Rightarrow> pydatetime \<Rightarrow> string option \<Rightarrow> store
   \<Rightarrow> (svc_error, store \<times> order_proposal) result" where
  "consume_published_proposal_callback proposal_id callback now telegram_user_id s =
     bindR (require_timezone_aware now) (\<lambda>t.
     bindR (locked_group proposal_id s) (\<lambda>grp.
     bindR (assert_published_proposal_binding grp callback) (\<lambda>_.
     bindR (require_open_window grp now) (\<lambda>_.
       mark_nonce_used grp callback telegram_user_id t s))))"

definition consume_approval_nonce ::
  "uuid \<Rightarrow> string \<Rightarrow> pydatetime \<Rightarrow> store \<Rightarrow> (svc_error, store \<times> order_proposal) result" where
  "consume_approval_nonce proposal_id nonce now s =
     bindR (locked_group proposal_id s) (\<lambda>grp.
       case proposal_callback_block_reason grp nonce of
         Some b \<Rightarrow> Inl (ApprovalBlocked b)
       | None \<Rightarrow>
           bindR (require_open_window grp now) (\<lambda>_.
           bindR (current_callback_envelope grp ''op'' nonce) (\<lambda>callback.
             consume_published_proposal_callback proposal_id callback now None s)))"

definition consume_with_action ::
  "string \<Rightarrow> uuid \<Rightarrow> string \<Rightarrow> string option \<Rightarrow> pydatetime \<Rightarrow> store
   \<Rightarrow> (svc_error, store \<times> order_proposal) result" where
  "consume_with_action action proposal_id nonce telegram_user_id now s =
     bindR (locked_group proposal_id s) (\<lambda>grp.
       case proposal_callback_block_reason grp nonce of
         Some b \<Rightarrow> Inl (ApprovalBlocked b)
       | None \<Rightarrow>
           bindR (current_callback_envelope grp action nonce) (\<lambda>callback.
             consume_published_proposal_callback proposal_id callback now telegram_user_id s))"

definition consume_auto_veto_nonce ::
  "uuid \<Rightarrow> string \<Rightarrow> pydatetime \<Rightarrow> store \<Rightarrow> (svc_error, store \<times> order_proposal) result" where
  "consume_auto_veto_nonce proposal_id nonce now s =
     consume_with_action ''vc'' proposal_id nonce None now s"

definition consume_loss_cut_confirmation ::
  "uuid \<Rightarrow> string \<Rightarrow> string \<Rightarrow> pydatetime \<Rightarrow> store \<Rightarrow> (svc_error, store \<times> order_proposal) result" where
  "consume_loss_cut_confirmation proposal_id nonce telegram_user_id now s =
     consume_with_action ''lc'' proposal_id nonce (Some telegram_user_id) now s"

end
