(* ===== verification/DispatchService.thy ===== *)
theory DispatchService
  imports ApprovalService
begin

text \<open>
  Approval dispatch (\<open>service.py\<close>): a pending attempt is committed before any Telegram I/O,
  and its physical publication is resolved through the current-owner fence. Also the audit
  writers of approvals and automatic approvals.
\<close>

section \<open>Audit writers\<close>

definition record_approval ::
  "uuid \<Rightarrow> string \<Rightarrow> pydatetime \<Rightarrow> store \<Rightarrow> (svc_error, store \<times> order_proposal) result" where
  "record_approval proposal_id telegram_user_id now s =
     bindR (require_timezone_aware now) (\<lambda>t.
     bindR (locked_group proposal_id s) (\<lambda>grp.
       Inr (update_group grp (\<lambda>g. g\<lparr>g_approved_by_telegram_user_id := Some telegram_user_id,
              g_approved_at := Some t\<rparr>) s)))"

definition location_fields :: "int option \<Rightarrow> string option \<Rightarrow> int \<Rightarrow> string option \<Rightarrow> dict \<Rightarrow> dict" where
  "location_fields message_id chat_id t policy_stamp d =
     (let d1 = dict_set ''approval_message_id''
                 (case message_id of None \<Rightarrow> JNull | Some m \<Rightarrow> JInt m) d;
          d2 = dict_set ''approval_chat_id'' (case chat_id of None \<Rightarrow> JNull | Some c \<Rightarrow> JStr c) d1;
          d3 = dict_set ''approval_sent_at'' (JTime t) d2
      in case policy_stamp of
           None \<Rightarrow> d3 | Some p \<Rightarrow> dict_set ''approval_window_policy_stamp'' (JStr p) d3)"

definition record_approval_dispatch ::
  "uuid \<Rightarrow> int \<Rightarrow> string \<Rightarrow> pydatetime \<Rightarrow> string option \<Rightarrow> store
   \<Rightarrow> (svc_error, store \<times> order_proposal) result" where
  "record_approval_dispatch proposal_id message_id chat_id now policy_stamp s =
     bindR (require_timezone_aware now) (\<lambda>t.
     bindR (locked_group proposal_id s) (\<lambda>grp.
       Inr (update_group grp (\<lambda>g. g\<lparr>
         g_source_asof := Some (location_fields (Some message_id) (Some chat_id) t policy_stamp
                            (or_empty (g_source_asof grp))),
         g_approval_dispatch_state := Some DFailed,
         g_approval_dispatch_attempted_at :=
           (case g_approval_dispatch_attempted_at grp of None \<Rightarrow> Some t | Some x \<Rightarrow> Some x),
         g_approval_dispatch_published_at := None,
         g_approval_dispatch_failure_code := Some ''approval_dispatch_snapshot_missing'',
         g_approval_nonce := None,
         g_approval_nonce_used_at := None\<rparr>) s)))"

text \<open>\<open>dict(source_asof.get("auto_approved") or dict())\<close>\<close>

definition auto_dict :: "order_proposal \<Rightarrow> dict" where
  "auto_dict grp =
     (case dict_get (or_empty (g_source_asof grp)) ''auto_approved'' of
        Some (JObj d) \<Rightarrow> d | _ \<Rightarrow> [])"

definition record_auto_approval ::
  "uuid \<Rightarrow> string \<Rightarrow> json list \<Rightarrow> string list \<Rightarrow> pydatetime \<Rightarrow> store
   \<Rightarrow> (svc_error, store \<times> order_proposal) result" where
  "record_auto_approval proposal_id policy_version eligibility outcomes now s =
     bindR (require_timezone_aware now) (\<lambda>t.
     bindR (locked_group proposal_id s) (\<lambda>grp.
       Inr (update_group grp (\<lambda>g. g\<lparr>g_source_asof :=
         Some (dict_set ''auto_approved''
           (JObj [(''policy_version'', JStr policy_version), (''approved_at'', JTime t),
                  (''eligibility'', JArr eligibility), (''outcomes'', JArr (map JStr outcomes))])
           (or_empty (g_source_asof grp)))\<rparr>) s)))"

definition record_auto_note ::
  "string \<Rightarrow> dict \<Rightarrow> uuid \<Rightarrow> store \<Rightarrow> (svc_error, store \<times> order_proposal) result" where
  "record_auto_note key note proposal_id s =
     bindR (locked_group proposal_id s) (\<lambda>grp.
       Inr (update_group grp (\<lambda>g. g\<lparr>g_source_asof :=
         Some (dict_set ''auto_approved'' (JObj (dict_set key (JObj note) (auto_dict grp)))
                 (or_empty (g_source_asof grp)))\<rparr>) s))"

definition record_auto_veto ::
  "uuid \<Rightarrow> string \<Rightarrow> json list \<Rightarrow> pydatetime \<Rightarrow> store
   \<Rightarrow> (svc_error, store \<times> order_proposal) result" where
  "record_auto_veto proposal_id telegram_user_id outcomes now s =
     bindR (require_timezone_aware now) (\<lambda>t.
       record_auto_note ''veto''
         [(''telegram_user_id'', JStr telegram_user_id), (''clicked_at'', JTime t),
          (''outcomes'', JArr outcomes)] proposal_id s)"

definition record_auto_notification_failure ::
  "uuid \<Rightarrow> string \<Rightarrow> json list \<Rightarrow> pydatetime \<Rightarrow> store
   \<Rightarrow> (svc_error, store \<times> order_proposal) result" where
  "record_auto_notification_failure proposal_id error outcomes now s =
     bindR (require_timezone_aware now) (\<lambda>t.
       record_auto_note ''notification_failure''
         [(''error'', JStr error), (''handled_at'', JTime t), (''outcomes'', JArr outcomes)]
         proposal_id s)"

definition record_approval_dispatch_alert ::
  "uuid \<Rightarrow> string \<Rightarrow> string option \<Rightarrow> string \<Rightarrow> pydatetime \<Rightarrow> store
   \<Rightarrow> (svc_error, store \<times> order_proposal) result" where
  "record_approval_dispatch_alert proposal_id state alert_failure_code dispatch_failure_code now s =
     bindR (require_timezone_aware now) (\<lambda>t.
     bindR (require (state \<in> {''sent'', ''failed''})
              (ValueError ''approval dispatch alert state must be sent or failed'')) (\<lambda>_.
     bindR (locked_group proposal_id s) (\<lambda>grp.
       Inr (update_group grp (\<lambda>g. g\<lparr>g_source_asof :=
         Some (dict_set ''approval_dispatch_alert''
           (JObj [(''state'', JStr state), (''channel'', JStr ''discord''), (''attempted_at'', JTime t),
                  (''failure_code'', case alert_failure_code of None \<Rightarrow> JNull | Some c \<Rightarrow> JStr c),
                  (''dispatch_failure_code'', JStr dispatch_failure_code),
                  (''dispatch_attempt_id'',
                     case g_approval_dispatch_attempt_id grp of None \<Rightarrow> JNull | Some a \<Rightarrow> JStr a)])
           (or_empty (g_source_asof grp)))\<rparr>) s))))"

section \<open>Starting an attempt\<close>

definition supersede_previous_attempt :: "order_proposal \<Rightarrow> uuid \<Rightarrow> store \<Rightarrow> store" where
  "supersede_previous_attempt grp attempt_id s =
     (case g_approval_dispatch_attempt_id grp of
        None \<Rightarrow> s
      | Some previous_attempt_id \<Rightarrow>
          if previous_attempt_id = attempt_id then s
          else (case get_approval_dispatch_attempt s previous_attempt_id of
                  None \<Rightarrow> s
                | Some previous \<Rightarrow>
                    if a_state previous = SentCurrent
                    then fst (update_approval_dispatch_attempt previous
                           (\<lambda>a. a\<lparr>a_state := SentSuperseded,
                                  a_failure_code := Some ''approval_dispatch_superseded''\<rparr>) s)
                    else s))"

definition new_attempt :: "order_proposal \<Rightarrow> uuid \<Rightarrow> dispatch_binding \<Rightarrow> int \<Rightarrow> int \<Rightarrow> int \<Rightarrow> dispatch_attempt"
  where
  "new_attempt grp attempt_id binding t payload_chars context_message_count =
     \<lparr>a_id = 0, a_attempt_id = attempt_id, a_proposal_pk = g_id grp, a_state = DPending,
      a_attempted_at = t, a_completed_at = None, a_payload_chars = payload_chars,
      a_context_message_count = context_message_count, a_message_id = None, a_status_code = None,
      a_telegram_error_code = None, a_error_classification = None, a_failure_code = None,
      a_card_kind = b_card_kind binding, a_membership_revision = b_membership_revision binding,
      a_membership_digest = b_membership_digest binding, a_created_at = 0, a_updated_at = 0\<rparr>"

definition start_approval_dispatch ::
  "digest_fn \<Rightarrow> uuid \<Rightarrow> uuid \<Rightarrow> dispatch_binding \<Rightarrow> pydatetime \<Rightarrow> int \<Rightarrow> int \<Rightarrow> store
   \<Rightarrow> (svc_error, store \<times> dispatch_attempt) result" where
  "start_approval_dispatch h proposal_id attempt_id binding now payload_chars
       context_message_count s =
     bindR (require_timezone_aware now) (\<lambda>t.
     bindR (require (payload_chars \<ge> 0) (ValueError ''payload_chars must be non-negative'')) (\<lambda>_.
     bindR (require (context_message_count \<ge> 0)
              (ValueError ''context_message_count must be non-negative'')) (\<lambda>_.
     bindR (require (b_attempt_id binding = attempt_id)
              (ValueError ''dispatch binding attempt_id mismatch'')) (\<lambda>_.
     bindR (locked_group proposal_id s) (\<lambda>grp.
     bindR (require (b_membership_revision binding =
                (case g_approval_dispatch_membership_revision grp of None \<Rightarrow> 0 | Some n \<Rightarrow> n) + 1)
              (ProposalError ''approval_membership_revision_not_next'')) (\<lambda>_.
     bindR (require (b_card_kind binding \<noteq> Batch)
              (ProposalError ''proposal_dispatch_card_kind_invalid'')) (\<lambda>_.
     bindR (require (b_membership_digest binding =
                build_membership_digest h (b_card_kind binding) (b_membership_revision binding)
                  [(g_proposal_id grp, g_approval_nonce grp)])
              (ProposalError ''approval_membership_digest_invalid'')) (\<lambda>_.
     bindR (of_option (IntegrityError ''uq_order_proposal_approval_dispatch_attempt_id'')
              (insert_approval_dispatch_attempt
                 (new_attempt grp attempt_id binding t payload_chars context_message_count)
                 (supersede_previous_attempt grp attempt_id s))) (\<lambda>(s1, attempt).
       Inr (fst (update_group grp (\<lambda>g. g\<lparr>
              g_approval_dispatch_state := Some DPending,
              g_approval_dispatch_attempt_id := Some attempt_id,
              g_approval_dispatch_attempted_at := Some t,
              g_approval_dispatch_published_at := None,
              g_approval_dispatch_failure_code := None,
              g_approval_dispatch_payload_chars := Some payload_chars,
              g_approval_dispatch_card_kind := Some (b_card_kind binding),
              g_approval_dispatch_membership_revision := Some (b_membership_revision binding),
              g_approval_dispatch_membership_digest := Some (b_membership_digest binding)\<rparr>) s1),
            attempt))))))))))"

section \<open>Finishing an attempt\<close>

definition is_current_owner :: "digest_fn \<Rightarrow> order_proposal \<Rightarrow> dispatch_attempt \<Rightarrow> bool" where
  "is_current_owner h grp attempt \<longleftrightarrow>
     g_approval_dispatch_state grp = Some DPending \<and>
     g_approval_dispatch_attempt_id grp = Some (a_attempt_id attempt) \<and>
     g_approval_dispatch_card_kind grp = Some (a_card_kind attempt) \<and>
     g_approval_dispatch_membership_revision grp = Some (a_membership_revision attempt) \<and>
     g_approval_dispatch_membership_digest grp = Some (a_membership_digest attempt) \<and>
     build_membership_digest h (a_card_kind attempt) (a_membership_revision attempt)
       [(g_proposal_id grp, g_approval_nonce grp)] = a_membership_digest attempt"

definition publication_outcome ::
  "bool \<Rightarrow> order_proposal \<Rightarrow> approval_publication \<Rightarrow> dispatch_state \<times> string option" where
  "publication_outcome owner grp publication =
     (let snapshot_missing = p_card_published publication \<and> \<not> truthy (g_approval_nonce grp);
          failure = (if truthy (p_failure_code publication) then p_failure_code publication
                     else Some ''telegram_dispatch_failed'')
      in if \<not> owner
         then (if p_card_published publication then SentSuperseded else FailedSuperseded,
               Some ''approval_dispatch_superseded'')
         else if snapshot_missing then (DFailed, Some ''approval_dispatch_snapshot_missing'')
         else if p_card_published publication then (SentCurrent, None)
         else if p_partial publication then (PartialFailed, failure)
         else (DFailed, failure))"

text \<open>The receipt of the physical send, written on the attempt row.\<close>

definition finish_attempt ::
  "dispatch_attempt \<Rightarrow> approval_publication \<Rightarrow> dispatch_state \<Rightarrow> string option \<Rightarrow> int \<Rightarrow> store \<Rightarrow> store"
  where
  "finish_attempt attempt publication state failure_code t s =
     fst (update_approval_dispatch_attempt attempt (\<lambda>a. a\<lparr>
            a_state := state, a_completed_at := Some t,
            a_message_id := p_message_id publication,
            a_status_code := p_status_code publication,
            a_telegram_error_code := p_error_code publication,
            a_error_classification := p_error_classification publication,
            a_failure_code := failure_code\<rparr>) s)"

text \<open>What the owner writes on the group row.\<close>

definition finish_group ::
  "order_proposal \<Rightarrow> approval_publication \<Rightarrow> dispatch_state \<Rightarrow> string option \<Rightarrow> string option \<Rightarrow> int
   \<Rightarrow> string option \<Rightarrow> order_proposal \<Rightarrow> order_proposal" where
  "finish_group grp publication state failure_code chat_id t policy_stamp g =
     (let g1 = g\<lparr>g_approval_dispatch_state := Some state,
                 g_approval_dispatch_failure_code := failure_code,
                 g_approval_dispatch_payload_chars := Some (p_payload_chars publication)\<rparr>
      in if state = SentCurrent
         then g1\<lparr>g_source_asof := Some (location_fields (p_message_id publication) chat_id t
                                    policy_stamp (or_empty (g_source_asof grp))),
                 g_approval_dispatch_published_at := Some t\<rparr>
         else g1\<lparr>g_approval_nonce := None, g_approval_nonce_used_at := None,
                 g_approval_dispatch_published_at := None\<rparr>)"

definition finish_approval_dispatch ::
  "digest_fn \<Rightarrow> uuid \<Rightarrow> uuid \<Rightarrow> approval_publication \<Rightarrow> string option \<Rightarrow> pydatetime
   \<Rightarrow> string option \<Rightarrow> store \<Rightarrow> (svc_error, store \<times> telegram_dispatch_result) result" where
  "finish_approval_dispatch h proposal_id attempt_id publication chat_id now policy_stamp s =
     bindR (require_timezone_aware now) (\<lambda>t.
     bindR (locked_group proposal_id s) (\<lambda>grp.
     bindR (of_option (ProposalError ''approval_dispatch_attempt_not_found'')
              (case get_approval_dispatch_attempt s attempt_id of
                 None \<Rightarrow> None
               | Some a \<Rightarrow> if a_proposal_pk a \<noteq> g_id grp then None else Some a)) (\<lambda>attempt.
     bindR (require (a_state attempt = DPending)
              (ProposalError ''approval_dispatch_attempt_already_finished'')) (\<lambda>_.
     bindR (require (\<not> (p_card_published publication
                        \<and> (p_message_id publication = None \<or> chat_id = None)))
              (ProposalError ''successful dispatch requires message_id and chat_id'')) (\<lambda>_.
       let owner = is_current_owner h grp attempt;
           state = fst (publication_outcome owner grp publication);
           failure_code = snd (publication_outcome owner grp publication);
           s1 = finish_attempt attempt publication state failure_code t s;
           result = from_publication publication state failure_code
       in if \<not> owner then Inr (s1, result)
          else Inr (fst (update_group grp
                      (finish_group grp publication state failure_code chat_id t policy_stamp) s1),
                    result))))))"

end
