(* ===== verification/PyDecimal.thy ===== *)
theory PyDecimal
  imports PyText
begin

text \<open>
  The part of Python's \<open>decimal\<close> that the program uses: a decimal is a sign, a coefficient
  and an exponent, or a special value; it is read from text, printed in fixed notation and
  normalised in the default context (28 digits, half to even). The exponent limits of the
  context (999999) are not modelled.
\<close>

datatype pydecimal = Dec (neg: bool) (coeff: nat) (expo: int) | DecInf bool | DecNaN

definition is_finite :: "pydecimal \<Rightarrow> bool" where
  "is_finite d = (case d of Dec _ _ _ \<Rightarrow> True | _ \<Rightarrow> False)"

definition pow10 :: "int \<Rightarrow> rat" where
  "pow10 e = (if 0 \<le> e then 10 ^ nat e else 1 / 10 ^ nat (- e))"

definition dec_value :: "pydecimal \<Rightarrow> rat" where
  "dec_value d = (case d of
     Dec n c e \<Rightarrow> (if n then - (of_nat c) else of_nat c) * pow10 e
   | _ \<Rightarrow> 0)"

section \<open>Reading\<close>

definition is_digit :: "char \<Rightarrow> bool" where
  "is_digit c \<longleftrightarrow> 48 \<le> char_code c \<and> char_code c \<le> 57"

definition digit_value :: "char \<Rightarrow> nat" where
  "digit_value c = char_code c - 48"

definition digits_value :: "string \<Rightarrow> nat" where
  "digits_value s = foldl (\<lambda>a c. a * 10 + digit_value c) 0 s"

text \<open>The optional sign in front of a number.\<close>

fun take_sign :: "string \<Rightarrow> bool \<times> string" where
  "take_sign [] = (False, [])"
| "take_sign (c # s) = (if c = CHR ''-'' then (True, s) else if c = CHR ''+'' then (False, s)
                        else (False, c # s))"

text \<open>What follows the digits: nothing, or \<open>e\<close> and a signed run of digits.\<close>

definition parse_exponent :: "string \<Rightarrow> int option" where
  "parse_exponent s =
     (case s of
        [] \<Rightarrow> Some 0
      | c # r \<Rightarrow>
          if c = CHR ''e'' \<or> c = CHR ''E''
          then let (n, ds) = take_sign r in
            if ds = [] \<or> \<not> list_all is_digit ds then None
            else Some (if n then - int (digits_value ds) else int (digits_value ds))
          else None)"

definition parse_fraction :: "string \<Rightarrow> string \<times> string" where
  "parse_fraction s =
     (case s of
        [] \<Rightarrow> ([], [])
      | c # r \<Rightarrow> if c = CHR ''.'' then (takeWhile is_digit r, dropWhile is_digit r) else ([], s))"

definition parse_finite :: "bool \<Rightarrow> string \<Rightarrow> pydecimal option" where
  "parse_finite n s =
     (let i = takeWhile is_digit s;
          (f, rest) = parse_fraction (dropWhile is_digit s)
      in if i @ f = [] then None
         else (case parse_exponent rest of
                 None \<Rightarrow> None
               | Some e \<Rightarrow> Some (Dec n (digits_value (i @ f)) (e - int (length f)))))"

definition is_nan_text :: "string \<Rightarrow> bool" where
  "is_nan_text s \<longleftrightarrow>
     (take 3 s = ''nan'' \<and> list_all is_digit (drop 3 s)) \<or>
     (take 4 s = ''snan'' \<and> list_all is_digit (drop 4 s))"

definition parse_decimal :: "string \<Rightarrow> pydecimal option" where
  "parse_decimal text =
     (let (n, s) = take_sign (filter (\<lambda>c. c \<noteq> CHR ''_'') (strip text))
      in if lower s \<in> {''inf'', ''infinity''} then Some (DecInf n)
         else if is_nan_text (lower s) then Some DecNaN
         else parse_finite n s)"

section \<open>Normalising and printing\<close>

definition PRECISION :: nat where "PRECISION = 28"

definition digit_count :: "nat \<Rightarrow> nat" where
  "digit_count c = length (show_nat c)"

text \<open>Rounding a coefficient to the precision of the context, half to even.\<close>

definition round_context :: "nat \<Rightarrow> int \<Rightarrow> nat \<times> int" where
  "round_context c e =
     (if digit_count c \<le> PRECISION then (c, e)
      else let k = digit_count c - PRECISION;
               q = c div 10 ^ k;
               r = c mod 10 ^ k;
               up = 2 * r > 10 ^ k \<or> (2 * r = 10 ^ k \<and> odd q);
               q' = (if up then q + 1 else q)
           in if digit_count q' > PRECISION then (q' div 10, e + int k + 1) else (q', e + int k))"

function strip_zeros :: "nat \<Rightarrow> int \<Rightarrow> nat \<times> int" where
  "strip_zeros c e = (if c \<noteq> 0 \<and> c mod 10 = 0 then strip_zeros (c div 10) (e + 1) else (c, e))"
  by pat_completeness auto
termination by (relation "measure fst") auto

declare strip_zeros.simps [simp del]

definition normalize :: "pydecimal \<Rightarrow> pydecimal" where
  "normalize d = (case d of
     Dec n c e \<Rightarrow>
       (let (c1, e1) = round_context c e in
        if c1 = 0 then Dec n 0 0
        else let (c2, e2) = strip_zeros c1 e1 in Dec n c2 e2)
   | _ \<Rightarrow> d)"

text \<open>\<open>format(d, "f")\<close> of a finite decimal.\<close>

definition fixed_digits :: "nat \<Rightarrow> int \<Rightarrow> string" where
  "fixed_digits c e =
     (if 0 \<le> e then show_nat (c * 10 ^ nat e)
      else let k = nat (- e);
               ds = show_nat c;
               padded = replicate (k + 1 - length ds) (CHR ''0'') @ ds
           in take (length padded - k) padded @ ''.'' @ drop (length padded - k) padded)"

definition format_f :: "pydecimal \<Rightarrow> string" where
  "format_f d = (case d of
     Dec n c e \<Rightarrow> (if n then ''-'' else []) @ fixed_digits c e
   | DecInf n \<Rightarrow> (if n then ''-Infinity'' else ''Infinity'')
   | DecNaN \<Rightarrow> ''NaN'')"

definition rstrip_char :: "char \<Rightarrow> string \<Rightarrow> string" where
  "rstrip_char c s = rev (dropWhile (\<lambda>x. x = c) (rev s))"

text \<open>The text of \<open>target_order.canonical_decimal\<close> for a finite decimal.\<close>

definition canonical_text :: "pydecimal \<Rightarrow> string" where
  "canonical_text d =
     (let text = format_f (normalize d);
          text1 = (if CHR ''.'' \<in> set text then rstrip_char (CHR ''.'') (rstrip_char (CHR ''0'') text)
                   else text)
      in if text1 \<in> {'''', ''-0''} then ''0'' else text1)"

text \<open>\<open>str(d)\<close>: scientific notation for a positive exponent or a small value.\<close>

definition dec_str :: "pydecimal \<Rightarrow> string" where
  "dec_str d = (case d of
     Dec n c e \<Rightarrow>
       (let ds = show_nat c; left = e + int (length ds) in
        (if n then ''-'' else []) @
        (if e \<le> 0 \<and> left > - 6 then fixed_digits c e
         else (take 1 ds @ (if length ds > 1 then ''.'' @ drop 1 ds else [])) @ ''E'' @
              (if left - 1 \<ge> 0 then ''+'' else []) @ show_int (left - 1)))
   | DecInf n \<Rightarrow> (if n then ''-Infinity'' else ''Infinity'')
   | DecNaN \<Rightarrow> ''NaN'')"

section \<open>Canonical texts and values\<close>


lemma digit_char_code: "d < 10 \<Longrightarrow> char_code (digit_char d) = 48 + d"
  by (simp add: char_code_def digit_char_def)

lemma digit_char_digit: "d < 10 \<Longrightarrow> is_digit (digit_char d) \<and> digit_value (digit_char d) = d"
  by (simp add: is_digit_def digit_value_def digit_char_code)

lemma show_nat_digits: "list_all is_digit (show_nat n)"
proof (induction n rule: show_nat.induct)
  case (1 n)
  then show ?case by (subst show_nat.simps) (simp add: digit_char_digit)
qed

lemma digits_value_snoc: "digits_value (s @ [c]) = digits_value s * 10 + digit_value c"
  by (simp add: digits_value_def)

lemma digits_value_show_nat [simp]: "digits_value (show_nat n) = n"
proof (induction n rule: show_nat.induct)
  case (1 n)
  show ?case
  proof (cases "n < 10")
    case True
    then show ?thesis by (subst show_nat.simps) (simp add: digits_value_def digit_char_digit)
  next
    case False
    then show ?thesis using 1 by (subst show_nat.simps) (simp add: digits_value_snoc digit_char_digit)
  qed
qed

lemma digits_value_zeros [simp]: "digits_value (replicate k (CHR ''0'') @ s) = digits_value s"
  by (induction k) (simp_all add: digits_value_def digit_value_def char_code_def)

text \<open>A digit is none of the punctuation that the readers look for.\<close>

lemma digit_neq: "is_digit c \<Longrightarrow> c \<noteq> CHR ''.'' \<and> c \<noteq> CHR ''_'' \<and> c \<noteq> CHR ''-'' \<and> c \<noteq> CHR ''+''"
  by (auto simp: is_digit_def char_code_def)

lemma digit_not_space: "is_digit c \<Longrightarrow> \<not> is_space c"
  by (simp add: is_digit_def char_code_def is_space_def Let_def)

lemma digit_lower: "is_digit c \<Longrightarrow> lower_char c = c"
  by (simp add: is_digit_def lower_char_def Let_def)

lemma punctuation_not_space: "\<not> is_space (CHR ''-'')" "\<not> is_space (CHR ''.'')"
  by (simp_all add: is_space_def)

lemma strip_id: "\<forall>c \<in> set s. \<not> is_space c \<Longrightarrow> strip s = s"
proof -
  assume a: "\<forall>c \<in> set s. \<not> is_space c"
  have dw: "\<And>t. (\<forall>c \<in> set t. \<not> is_space c) \<Longrightarrow> dropWhile is_space t = t"
    by (metis dropWhile_eq_self_iff hd_in_set)
  show ?thesis using a dw [of s] dw [of "rev s"] by (simp add: strip_def lstrip_def)
qed

lemma takeWhile_digits: "list_all is_digit s \<Longrightarrow> takeWhile is_digit s = s \<and> dropWhile is_digit s = []"
  by (induction s) auto

lemma takeWhile_digits_dot:
  "list_all is_digit a \<Longrightarrow> takeWhile is_digit (a @ CHR ''.'' # b) = a \<and>
     dropWhile is_digit (a @ CHR ''.'' # b) = CHR ''.'' # b"
  by (induction a) (auto simp: is_digit_def char_code_def)

lemma parse_finite_integer:
  "list_all is_digit s \<Longrightarrow> s \<noteq> [] \<Longrightarrow> parse_finite n s = Some (Dec n (digits_value s) 0)"
  by (simp add: parse_finite_def parse_fraction_def parse_exponent_def takeWhile_digits Let_def)

lemma parse_finite_fraction:
  "list_all is_digit a \<Longrightarrow> list_all is_digit b \<Longrightarrow> a \<noteq> [] \<Longrightarrow>
   parse_finite n (a @ ''.'' @ b) = Some (Dec n (digits_value (a @ b)) (- int (length b)))"
  by (simp add: parse_finite_def parse_fraction_def parse_exponent_def takeWhile_digits_dot
      takeWhile_digits Let_def)

text \<open>Text that starts with a digit, after an optional minus, is read as a finite decimal.\<close>

lemma parse_decimal_finite:
  assumes d: "is_digit c" and s: "\<forall>x \<in> set s. is_digit x \<or> x = CHR ''.''"
  shows "parse_decimal ((if n then ''-'' else []) @ c # s) = parse_finite n (c # s)"
proof -
  let ?t = "(if n then ''-'' else []) @ c # s"
  have sp: "\<forall>x \<in> set ?t. \<not> is_space x"
    using d s digit_not_space punctuation_not_space by (auto split: if_splits)
  have us: "filter (\<lambda>x. x \<noteq> CHR ''_'') ?t = ?t"
    using d s digit_neq by (auto simp: filter_id_conv split: if_splits)
  have sg: "take_sign ?t = (n, c # s)" using digit_neq [OF d] by simp
  have l: "lower (c # s) = c # lower s" using digit_lower [OF d] by (simp add: lower_def)
  have "c \<noteq> CHR ''i'' \<and> c \<noteq> CHR ''n'' \<and> c \<noteq> CHR ''s''" using d by (auto simp: is_digit_def char_code_def)
  then have "lower (c # s) \<notin> {''inf'', ''infinity''}" "\<not> is_nan_text (lower (c # s))"
    by (auto simp: l is_nan_text_def)
  then show ?thesis
    unfolding parse_decimal_def strip_id [OF sp] us sg Let_def by simp
qed

lemma split_point:
  assumes "k < length p"
  shows "take (length p - k) p \<noteq> []" "length (drop (length p - k) p) = k"
    "0 < k \<Longrightarrow> drop (length p - k) p \<noteq> [] \<and> last (drop (length p - k) p) = last p"
  using assms by (auto simp: last_drop)

lemma fixed_digits_form:
  obtains "0 \<le> e" "fixed_digits c e = show_nat (c * 10 ^ nat e)"
  | a b where "e < 0" "fixed_digits c e = a @ ''.'' @ b" "list_all is_digit a" "list_all is_digit b" "a \<noteq> []"
      "int (length b) = - e" "digits_value (a @ b) = c" "b \<noteq> []" "last b = last (show_nat c)"
proof (cases "0 \<le> e")
  case True
  then show thesis using that(1) by (simp add: fixed_digits_def)
next
  case False
  define k where "k = nat (- e)"
  define p where "p = replicate (k + 1 - length (show_nat c)) (CHR ''0'') @ show_nat c"
  have k: "0 < k" "int k = - e" using False by (auto simp: k_def)
  have len: "k < length p" by (simp add: p_def)
  have all: "list_all is_digit p"
    using show_nat_digits [of c] by (auto simp: p_def list_all_iff is_digit_def char_code_def)
  have form: "fixed_digits c e = take (length p - k) p @ ''.'' @ drop (length p - k) p"
    using False by (simp add: fixed_digits_def Let_def p_def k_def)
  have dig: "list_all is_digit (take (length p - k) p)" "list_all is_digit (drop (length p - k) p)"
    using all by (metis append_take_drop_id list_all_append)+
  have val: "digits_value (take (length p - k) p @ drop (length p - k) p) = c"
    unfolding append_take_drop_id by (simp add: p_def)
  have "last p = last (show_nat c)" using show_nat_nonempty [of c] by (simp add: p_def)
  then show thesis
    using that(2) [OF _ form dig split_point(1) [OF len] _ val] split_point(2,3) [OF len] k False by simp
qed

lemma pow10_Suc: "pow10 (e + 1) = 10 * pow10 e"
proof (cases "0 \<le> e")
  case True
  then show ?thesis by (simp add: pow10_def nat_add_distrib)
next
  case False
  then obtain k where k: "e = - int (Suc k)" by (metis negD not_less)
  then show ?thesis by (cases k) (simp_all add: pow10_def nat_add_distrib)
qed

lemma last_show_nat: "digit_value (last (show_nat c)) = c mod 10 \<and> is_digit (last (show_nat c))"
  by (subst (1 2) show_nat.simps) (simp add: digit_char_digit)

lemma strip_zeros_result:
  "strip_zeros c e = (c', e') \<Longrightarrow>
     of_nat c' * pow10 e' = of_nat c * pow10 e \<and> (c \<noteq> 0 \<longrightarrow> c' \<noteq> 0 \<and> c' mod 10 \<noteq> 0) \<and> e \<le> e'"
proof (induction c e rule: strip_zeros.induct)
  case (1 c e)
  show ?case
  proof (cases "c \<noteq> 0 \<and> c mod 10 = 0")
    case True
    then have s: "strip_zeros (c div 10) (e + 1) = (c', e')"
      using "1.prems" by (subst (asm) strip_zeros.simps) simp
    have nz: "c div 10 \<noteq> 0" using True by (metis div_eq_0_iff mod_less zero_neq_numeral)
    have c: "of_nat c = (of_nat (c div 10) * 10 :: rat)"
      using True by (metis mult.commute mult_div_mod_eq add.right_neutral of_nat_mult of_nat_numeral)
    have p: "pow10 (e + 1) = 10 * pow10 e" by (rule pow10_Suc)
    from "1.IH" [OF True s] nz show ?thesis by (auto simp: c p)
  next
    case False
    then have "strip_zeros c e = (c, e)" by (subst strip_zeros.simps) auto
    then have "c' = c" "e' = e" using "1.prems" by simp_all
    then show ?thesis using False by auto
  qed
qed
lemma fixed_digits_nonempty: "\<exists>x s. fixed_digits c e = x # s \<and> is_digit x \<and> (\<forall>y \<in> set s. is_digit y \<or> y = CHR ''.'')"
proof (cases rule: fixed_digits_form [of e c])
  case 1
  then show ?thesis
    using show_nat_nonempty [of "c * 10 ^ nat e"] show_nat_digits [of "c * 10 ^ nat e"]
    by (cases "show_nat (c * 10 ^ nat e)") (auto simp: list_all_iff)
next
  case (2 a b)
  then show ?thesis by (cases a) (auto simp: list_all_iff)
qed

text \<open>Fixed notation reads back as a decimal of the same value.\<close>

lemma parse_fixed:
  "\<exists>c' e'. parse_decimal ((if n then ''-'' else []) @ fixed_digits c e) = Some (Dec n c' e') \<and>
     dec_value (Dec n c' e') = dec_value (Dec n c e)"
proof -
  obtain x s where xs: "fixed_digits c e = x # s" "is_digit x" "\<forall>y \<in> set s. is_digit y \<or> y = CHR ''.''"
    using fixed_digits_nonempty [of c e] by (elim exE conjE)
  have p: "parse_decimal ((if n then ''-'' else []) @ fixed_digits c e) = parse_finite n (fixed_digits c e)"
    using parse_decimal_finite [OF xs(2,3), of n] by (simp add: xs(1))
  show ?thesis
  proof (cases rule: fixed_digits_form [of e c])
    case 1
    then show ?thesis
      unfolding p using parse_finite_integer [OF show_nat_digits show_nat_nonempty, of n "c * 10 ^ nat e"]
      by (simp add: dec_value_def pow10_def)
  next
    case (2 a b)
    then show ?thesis
      unfolding p using parse_finite_fraction [OF 2(3,4,5), of n] by (simp add: dec_value_def)
  qed
qed

lemma canonical_text_normalized:
  assumes c: "c \<noteq> 0" and prec: "digit_count c \<le> PRECISION" and sz: "strip_zeros c e = (c', e')"
  shows "canonical_text (Dec n c e) = (if n then ''-'' else []) @ fixed_digits c' e'"
proof -
  let ?t = "(if n then ''-'' else []) @ fixed_digits c' e'"
  have nz: "c' \<noteq> 0" "c' mod 10 \<noteq> 0" using strip_zeros_result [OF sz] c by auto
  have f: "format_f (normalize (Dec n c e)) = ?t"
    using c prec sz by (simp add: normalize_def round_context_def format_f_def)
  have v: "dec_value (Dec n c' e') \<noteq> 0" using nz by (auto simp: dec_value_def pow10_def)
  obtain c1 e1 where p1: "parse_decimal ?t = Some (Dec n c1 e1)" "dec_value (Dec n c1 e1) \<noteq> 0"
    using parse_fixed [of n c' e'] v by auto
  have "parse_decimal ''-0'' = Some (Dec True 0 0)" by code_simp
  then have ne0: "?t \<noteq> ''-0''" using p1 by (auto simp: dec_value_def)
  have ne: "?t \<noteq> []" using fixed_digits_nonempty [of c' e'] by auto
  show ?thesis
  proof (cases "CHR ''.'' \<in> set ?t")
    case False
    then show ?thesis using ne0 ne unfolding canonical_text_def f Let_def by simp
  next
    case True
    have "0 \<le> e' \<Longrightarrow> CHR ''.'' \<notin> set ?t"
      using show_nat_digits [of "c' * 10 ^ nat e'"] digit_neq by (auto simp: fixed_digits_def list_all_iff)
    then have neg: "e' < 0" using True by linarith
    have last: "last ?t = last (show_nat c')" by (cases rule: fixed_digits_form [of e' c']) (use neg in auto)
    then have "last ?t \<noteq> CHR ''0'' \<and> last ?t \<noteq> CHR ''.''"
      using last_show_nat [of c'] nz digit_neq by (auto simp: digit_value_def char_code_def)
    then have l: "\<And>ch. ch \<in> {CHR ''0'', CHR ''.''} \<Longrightarrow> rstrip_char ch ?t = ?t"
      unfolding rstrip_char_def using ne by (metis dropWhile_eq_self_iff hd_rev insert_iff rev_rev_ident singletonD)
    then show ?thesis using ne0 ne True unfolding canonical_text_def f Let_def by simp
  qed
qed

lemma show_nat_zero: "show_nat 0 = ''0''"
  by code_simp

lemma canonical_text_zero: "digit_count 0 \<le> PRECISION \<Longrightarrow> canonical_text (Dec n 0 e) = ''0''"
  by (cases n) (simp_all add: canonical_text_def normalize_def round_context_def format_f_def
      fixed_digits_def show_nat_zero)

lemma digit_count_zero: "digit_count 0 \<le> PRECISION"
  by (simp add: digit_count_def show_nat.simps [of 0] PRECISION_def)

text \<open>Within the precision of the context, the canonical text reads back as the value.\<close>

lemma canonical_text_reads_back:
  assumes "digit_count c \<le> PRECISION"
  shows "\<exists>d. parse_decimal (canonical_text (Dec n c e)) = Some d \<and> is_finite d \<and>
    dec_value d = dec_value (Dec n c e)"
proof (cases "c = 0")
  case True
  have "parse_decimal ''0'' = Some (Dec False 0 0)" by code_simp
  then show ?thesis
    using True canonical_text_zero [OF digit_count_zero] by (simp add: dec_value_def is_finite_def)
next
  case False
  obtain c' e' where sz: "strip_zeros c e = (c', e')" by (cases "strip_zeros c e")
  have "dec_value (Dec n c' e') = dec_value (Dec n c e)"
    using strip_zeros_result [OF sz] by (cases n) (simp_all add: dec_value_def)
  then show ?thesis
    using parse_fixed [of n c' e'] unfolding canonical_text_normalized [OF False assms sz]
    by (auto simp: is_finite_def)
qed

text \<open>A value has one coefficient without a trailing zero.\<close>

lemma pow10_add: "0 \<le> k \<Longrightarrow> pow10 (e + k) = pow10 e * 10 ^ nat k"
proof (induction "nat k" arbitrary: k)
  case 0
  then show ?case by simp
next
  case (Suc m)
  then have k: "m = nat (k - 1)" "0 \<le> k - 1" "nat k = Suc (nat (k - 1))" by auto
  have "pow10 (e + k) = 10 * pow10 (e + (k - 1))" using pow10_Suc [of "e + (k - 1)"] by (simp add: algebra_simps)
  then show ?case using Suc(1) [OF k(1,2)] k(3) by simp
qed

lemma pow10_pos: "0 < pow10 e"
  by (simp add: pow10_def)

lemma normal_form_unique_le:
  assumes "of_nat c1 * pow10 e1 = (of_nat c2 * pow10 e2 :: rat)" and "c1 mod 10 \<noteq> 0" and "e1 \<le> e2"
  shows "c1 = c2 \<and> e1 = e2"
proof -
  have "pow10 e2 = pow10 e1 * 10 ^ nat (e2 - e1)" using pow10_add [of "e2 - e1" e1] assms(3) by simp
  then have "(of_nat c1 :: rat) = of_nat (c2 * 10 ^ nat (e2 - e1))" using assms(1) pow10_pos [of e1] by simp
  then have c: "c1 = c2 * 10 ^ nat (e2 - e1)" by (simp only: of_nat_eq_iff)
  then have "nat (e2 - e1) = 0" using assms(2) by (cases "nat (e2 - e1)") auto
  then show ?thesis using c assms(3) by simp
qed

lemma canonical_text_eq_iff:
  assumes p1: "digit_count c1 \<le> PRECISION" and p2: "digit_count c2 \<le> PRECISION"
  shows "canonical_text (Dec n1 c1 e1) = canonical_text (Dec n2 c2 e2) \<longleftrightarrow>
    dec_value (Dec n1 c1 e1) = dec_value (Dec n2 c2 e2)"
proof
  assume "canonical_text (Dec n1 c1 e1) = canonical_text (Dec n2 c2 e2)"
  then show "dec_value (Dec n1 c1 e1) = dec_value (Dec n2 c2 e2)"
    using canonical_text_reads_back [OF p1, of n1 e1] canonical_text_reads_back [OF p2, of n2 e2] by auto
next
  assume v: "dec_value (Dec n1 c1 e1) = dec_value (Dec n2 c2 e2)"
  have zero: "dec_value (Dec n c e) = 0 \<longleftrightarrow> c = 0" for n c e
    using pow10_pos [of e] by (simp add: dec_value_def)
  show "canonical_text (Dec n1 c1 e1) = canonical_text (Dec n2 c2 e2)"
  proof (cases "c1 = 0")
    case True
    then have "c2 = 0" using v zero by metis
    then show ?thesis using True canonical_text_zero [OF digit_count_zero] by simp
  next
    case False
    then have c2: "c2 \<noteq> 0" using v zero by metis
    obtain d1 f1 where s1: "strip_zeros c1 e1 = (d1, f1)" by (cases "strip_zeros c1 e1")
    obtain d2 f2 where s2: "strip_zeros c2 e2 = (d2, f2)" by (cases "strip_zeros c2 e2")
    note z1 = strip_zeros_result [OF s1] and z2 = strip_zeros_result [OF s2]
    have pos: "0 < of_nat c1 * pow10 e1" "0 < of_nat c2 * pow10 e2"
      using False c2 pow10_pos [of e1] pow10_pos [of e2] by simp_all
    have n: "n1 = n2" and a: "of_nat c1 * pow10 e1 = of_nat c2 * pow10 e2"
      using v pos by (auto simp: dec_value_def split: if_splits)
    have "of_nat d1 * pow10 f1 = (of_nat d2 * pow10 f2 :: rat)" using z1 z2 a by simp
    then have "d1 = d2 \<and> f1 = f2"
      using normal_form_unique_le [of d1 f1 d2 f2] normal_form_unique_le [of d2 f2 d1 f1] z1 z2 False c2
      by (metis linear)
    then show ?thesis
      unfolding canonical_text_normalized [OF False p1 s1] canonical_text_normalized [OF c2 p2 s2] by (simp add: n)
  qed
qed

end
