(* ===== verification/ProposalCreate.thy ===== *)
theory ProposalCreate
  imports ProposalService PyDecimal
begin

text \<open>
  Creating a proposal: the action capability matrix, the target-order snapshot of a replace
  or cancel (\<open>target_order.py\<close>), the defensive validity floor (\<open>defensive_ttl.py\<close>), the payload
  hash (\<open>payload.py\<close>), the loss-cut binding and the insert with its supersession
  (\<open>service.py\<close>). The text of an ISO-8601 datetime is read and printed by the standard
  library: \<open>read_iso\<close> and \<open>show_iso\<close> are parameters.
\<close>

section \<open>Canonical decimals\<close>

datatype raw_number = RawNone | RawText string | RawDec pydecimal

definition raw_decimal :: "raw_number \<Rightarrow> pydecimal option option" where
  "raw_decimal v = (case v of
     RawNone \<Rightarrow> None
   | RawText s \<Rightarrow> Some (parse_decimal s)
   | RawDec d \<Rightarrow> Some (Some d))"

definition canonical_decimal :: "raw_number \<Rightarrow> (svc_error, string option) result" where
  "canonical_decimal v = (case raw_decimal v of
     None \<Rightarrow> Inr None
   | Some None \<Rightarrow> Inl (ProposalError ''invalid decimal value'')
   | Some (Some d) \<Rightarrow>
       if is_finite d then Inr (Some (canonical_text d))
       else Inl (ProposalError ''invalid decimal value''))"

section \<open>Target order snapshots\<close>

record target_order_snapshot =
  t_broker_order_id :: string
  t_symbol :: string
  t_side :: string
  t_order_type :: string
  t_limit_price :: "string option"
  t_remaining_quantity :: string
  t_status :: string
  t_observed_at :: string

type_synonym payload = "(string \<times> string option) list"
type_synonym iso_reader = "string \<Rightarrow> pydatetime option"
type_synonym iso_printer = "int \<Rightarrow> string"

definition payload_get :: "payload \<Rightarrow> string \<Rightarrow> string option" where
  "payload_get p k = (case map_of p k of None \<Rightarrow> None | Some v \<Rightarrow> v)"

definition text_of :: "string option \<Rightarrow> string" where
  "text_of v = (case v of None \<Rightarrow> [] | Some s \<Rightarrow> s)"

definition required_text :: "string \<Rightarrow> string option \<Rightarrow> (svc_error, string) result" where
  "required_text name v =
     (let text = strip (text_of v) in
      if text = [] then Inl (ProposalError (''target '' @ name @ '' is required'')) else Inr text)"

definition normalize_status :: "string option \<Rightarrow> string" where
  "normalize_status v =
     (let status = lower (strip (text_of v)) in
      if status \<in> {''pending'', ''partial'', ''open''} then ''open'' else status)"

definition VALID_STATUSES :: "string set" where
  "VALID_STATUSES = {''open'', ''filled'', ''cancelled'', ''expired'', ''rejected''}"

definition from_parts ::
  "iso_printer \<Rightarrow> string option \<Rightarrow> string option \<Rightarrow> string option \<Rightarrow> string option \<Rightarrow> string option
   \<Rightarrow> string \<Rightarrow> string \<Rightarrow> pydatetime \<Rightarrow> (svc_error, target_order_snapshot) result" where
  "from_parts show_iso broker_order_id symbol side order_type limit_price remaining_quantity
       status observed_at =
     bindR (required_text ''broker_order_id'' broker_order_id) (\<lambda>boid.
     bindR (required_text ''symbol'' symbol) (\<lambda>sym.
     bindR (required_text ''side'' side) (\<lambda>sd0.
     bindR (required_text ''order_type'' order_type) (\<lambda>ot0.
     bindR (required_text ''status'' (Some status)) (\<lambda>st0.
     let sd = lower sd0; ot = lower ot0; st = lower st0 in
     bindR (require (sd \<in> SIDES) (ProposalError ''target side must be buy or sell'')) (\<lambda>_.
     bindR (require (ot \<in> ORDER_TYPES) (ProposalError ''target order_type must be limit or market'')) (\<lambda>_.
     bindR (require (st \<in> VALID_STATUSES) (ProposalError ''unsupported target order status'')) (\<lambda>_.
     bindR (of_option (ProposalError ''target observed_at must be timezone-aware'')
              (case observed_at of Aware t \<Rightarrow> Some t | Naive _ \<Rightarrow> None)) (\<lambda>t.
     bindR (of_option (ProposalError ''invalid decimal value'') (parse_decimal remaining_quantity))
       (\<lambda>remaining.
     bindR (require (0 \<le> dec_value remaining)
              (ProposalError ''target remaining quantity cannot be negative'')) (\<lambda>_.
     bindR (require (\<not> (st = ''open'' \<and> dec_value remaining \<le> 0))
              (ProposalError ''open target requires positive remaining quantity'')) (\<lambda>_.
       Inr \<lparr>t_broker_order_id = boid, t_symbol = sym, t_side = sd, t_order_type = ot,
            t_limit_price = limit_price, t_remaining_quantity = remaining_quantity,
            t_status = st, t_observed_at = show_iso t\<rparr>))))))))))))"

definition replace_z :: "string \<Rightarrow> string" where
  "replace_z s = concat (map (\<lambda>c. if c = CHR ''Z'' then ''+00:00'' else [c]) s)"

definition raw_of :: "string option \<Rightarrow> raw_number" where
  "raw_of v = (case v of None \<Rightarrow> RawNone | Some s \<Rightarrow> RawText s)"

definition or_zero :: "string option \<Rightarrow> string" where
  "or_zero v = (if truthy v then the v else ''0'')"

definition from_payload ::
  "iso_reader \<Rightarrow> iso_printer \<Rightarrow> payload \<Rightarrow> (svc_error, target_order_snapshot) result" where
  "from_payload read_iso show_iso p =
     bindR (of_option (ProposalError ''target observed_at is required'') (payload_get p ''observed_at''))
       (\<lambda>observed_raw.
     bindR (of_option (ProposalError ''target observed_at must be ISO-8601'') (read_iso (replace_z observed_raw)))
       (\<lambda>observed_at.
     bindR (canonical_decimal (raw_of (payload_get p ''limit_price''))) (\<lambda>limit_price.
     bindR (canonical_decimal (raw_of (payload_get p ''remaining_quantity''))) (\<lambda>remaining.
       from_parts show_iso (payload_get p ''broker_order_id'') (payload_get p ''symbol'')
         (payload_get p ''side'') (payload_get p ''order_type'') limit_price (or_zero remaining)
         (normalize_status (payload_get p ''status'')) observed_at))))"

text \<open>A row of the broker's order history; its numbers come as text or as decimals.\<close>

record broker_order_row =
  bo_order_id :: "string option"
  bo_symbol :: "string option"
  bo_side :: "string option"
  bo_order_type :: "string option"
  bo_ordered_price :: raw_number
  bo_remaining_qty :: raw_number
  bo_status :: "string option"

definition from_broker_order ::
  "iso_printer \<Rightarrow> broker_order_row \<Rightarrow> pydatetime \<Rightarrow> (svc_error, target_order_snapshot) result" where
  "from_broker_order show_iso row observed_at =
     bindR (canonical_decimal (bo_ordered_price row)) (\<lambda>limit_price.
     bindR (canonical_decimal (bo_remaining_qty row)) (\<lambda>remaining.
       from_parts show_iso (bo_order_id row) (bo_symbol row) (bo_side row)
         (if truthy (bo_order_type row) then bo_order_type row else Some ''limit'')
         limit_price (or_zero remaining) (normalize_status (bo_status row)) observed_at))"

definition to_payload :: "target_order_snapshot \<Rightarrow> payload" where
  "to_payload t =
     [(''broker_order_id'', Some (t_broker_order_id t)), (''symbol'', Some (t_symbol t)),
      (''side'', Some (t_side t)), (''order_type'', Some (t_order_type t)),
      (''limit_price'', t_limit_price t), (''remaining_quantity'', Some (t_remaining_quantity t)),
      (''status'', Some (t_status t)), (''observed_at'', Some (t_observed_at t))]"

definition matches_approved :: "target_order_snapshot \<Rightarrow> target_order_snapshot \<Rightarrow> bool" where
  "matches_approved t fresh \<longleftrightarrow>
     t_broker_order_id t = t_broker_order_id fresh \<and> t_symbol t = t_symbol fresh \<and>
     t_side t = t_side fresh \<and> t_order_type t = t_order_type fresh \<and>
     t_limit_price t = t_limit_price fresh \<and>
     t_remaining_quantity t = t_remaining_quantity fresh \<and> t_status t = t_status fresh"

section \<open>The action contract\<close>

definition SUPPORTED_TARGET_ACTIONS :: "(string \<times> string) set" where
  "SUPPORTED_TARGET_ACTIONS =
     {(''kis_live'', ''equity_kr''), (''kis_live'', ''equity_us''), (''toss_live'', ''equity_kr''),
      (''toss_live'', ''equity_us''), (''upbit'', ''crypto'')}"

definition SUBMITTABLE_ACCOUNT_MODE_MARKETS :: "(string \<times> string) set" where
  "SUBMITTABLE_ACCOUNT_MODE_MARKETS =
     {(''kis_live'', ''equity_kr''), (''kis_live'', ''equity_us''), (''toss_live'', ''equity_kr''),
      (''toss_live'', ''equity_us''), (''upbit'', ''crypto'')}"

definition action_capabilities :: "string \<Rightarrow> (string \<times> string) set option" where
  "action_capabilities action =
     (if action = ''place'' then Some SUBMITTABLE_ACCOUNT_MODE_MARKETS
      else if action \<in> {''replace'', ''cancel''} then Some SUPPORTED_TARGET_ACTIONS
      else None)"

definition check_action_capability ::
  "string option \<Rightarrow> string \<Rightarrow> string \<Rightarrow> (svc_error, string) result" where
  "check_action_capability action account_mode market =
     (let normalized = (if truthy action then the action else ''place'') in
      case action_capabilities normalized of
        None \<Rightarrow> Inl (ProposalError ''action must be one of: place, replace, cancel'')
      | Some pairs \<Rightarrow>
          if (account_mode, market) \<notin> pairs
          then Inl (UnsupportedTargetAction account_mode market normalized)
          else Inr normalized)"

record rung_input =
  ri_rung_index :: int
  ri_side :: string
  ri_quantity :: pydecimal
  ri_limit_price :: "pydecimal option"
  ri_notional :: "pydecimal option"

definition raw_price :: "pydecimal option \<Rightarrow> raw_number" where
  "raw_price v = (case v of None \<Rightarrow> RawNone | Some d \<Rightarrow> RawDec d)"

definition check_cancel_rung ::
  "rung_input \<Rightarrow> target_order_snapshot \<Rightarrow> (svc_error, unit) result" where
  "check_cancel_rung r snapshot =
     bindR (canonical_decimal (RawDec (ri_quantity r))) (\<lambda>q.
       if q \<noteq> Some (t_remaining_quantity snapshot)
       then Inl (ProposalError ''cancel rung must equal target broker snapshot'')
       else bindR (canonical_decimal (raw_price (ri_limit_price r))) (\<lambda>p.
         require (p = t_limit_price snapshot \<and> ri_side r = t_side snapshot)
           (ProposalError ''cancel rung must equal target broker snapshot'')))"

text \<open>
  The remaining quantity of a snapshot was read as a decimal when the snapshot was built, so
  \<open>Decimal(snapshot.remaining_quantity)\<close> cannot fail here.
\<close>

definition open_with_remaining :: "target_order_snapshot \<Rightarrow> bool" where
  "open_with_remaining snapshot \<longleftrightarrow>
     t_status snapshot = ''open'' \<and>
     (case parse_decimal (t_remaining_quantity snapshot) of
        None \<Rightarrow> False | Some d \<Rightarrow> 0 < dec_value d)"

definition validate_action_contract ::
  "iso_reader \<Rightarrow> iso_printer \<Rightarrow> string option \<Rightarrow> string \<Rightarrow> string \<Rightarrow> string \<Rightarrow> string \<Rightarrow> string
   \<Rightarrow> rung_input list \<Rightarrow> string option \<Rightarrow> payload option
   \<Rightarrow> (svc_error, string \<times> target_order_snapshot option) result" where
  "validate_action_contract read_iso show_iso action account_mode market symbol side order_type
       rungs target_broker_order_id target_snapshot =
     bindR (check_action_capability action account_mode market) (\<lambda>normalized.
       if normalized = ''place''
       then (if target_broker_order_id \<noteq> None \<or> target_snapshot \<noteq> None
             then Inl (ProposalError ''place proposal cannot target a broker order'')
             else Inr (normalized, None))
       else case rungs of
         [r] \<Rightarrow>
           (case target_snapshot of
              None \<Rightarrow> Inl (ProposalError (normalized @ '' requires target broker evidence''))
            | Some p \<Rightarrow>
                if \<not> truthy target_broker_order_id
                then Inl (ProposalError (normalized @ '' requires target broker evidence''))
                else bindR (from_payload read_iso show_iso p) (\<lambda>snapshot.
                  if Some (t_broker_order_id snapshot) \<noteq> target_broker_order_id
                  then Inl (ProposalError ''target broker order id does not match snapshot'')
                  else if \<not> open_with_remaining snapshot
                  then Inl (ProposalError ''target broker order must be open with remaining quantity'')
                  else if t_symbol snapshot \<noteq> symbol \<or> t_side snapshot \<noteq> side
                          \<or> t_order_type snapshot \<noteq> order_type
                  then Inl (ProposalError ''target broker evidence conflicts with proposal'')
                  else if normalized = ''cancel''
                  then bindR (check_cancel_rung r snapshot) (\<lambda>_. Inr (normalized, Some snapshot))
                  else Inr (normalized, Some snapshot)))
       | _ \<Rightarrow> Inl (ProposalError (normalized @ '' proposal requires exactly one rung'')))"

section \<open>The defensive validity floor\<close>

definition DEFENSIVE_EXIT_INTENTS :: "string set" where
  "DEFENSIVE_EXIT_INTENTS = {''loss_cut'', ''defensive_trim''}"

text \<open>Windows of a KST day, as offsets from midnight.\<close>

definition clock :: "int \<Rightarrow> int \<Rightarrow> int" where
  "clock h m = hours h + minutes m"

definition US_APPROVAL_WINDOWS :: "(int \<times> int) list" where
  "US_APPROVAL_WINDOWS = [(clock 22 30, clock 23 30)]"

definition KR_APPROVAL_WINDOWS :: "(int \<times> int) list" where
  "KR_APPROVAL_WINDOWS = [(clock 8 10, clock 9 30), (clock 12 0, clock 12 15)]"

definition APPROVAL_WINDOWS_BY_MARKET :: "string \<Rightarrow> (int \<times> int) list" where
  "APPROVAL_WINDOWS_BY_MARKET market =
     (if market = ''equity_us'' then US_APPROVAL_WINDOWS
      else if market = ''equity_kr'' then KR_APPROVAL_WINDOWS else [])"

definition min_list_int :: "int list \<Rightarrow> int" where
  "min_list_int xs = foldr min (tl xs) (hd xs)"

definition resolve_defensive_valid_until ::
  "string \<Rightarrow> pydatetime \<Rightarrow> (svc_error, int option) result" where
  "resolve_defensive_valid_until market now =
     (let windows = APPROVAL_WINDOWS_BY_MARKET market in
      if windows = [] then Inr None
      else bindR (of_option (ValueError ''now must be timezone-aware'')
                    (case now of Aware t \<Rightarrow> Some t | Naive _ \<Rightarrow> None)) (\<lambda>t.
        let today = kst_midnight t;
            upcoming = filter (\<lambda>e. e > t) (map (\<lambda>(_, e). today + e) windows)
        in if upcoming \<noteq> [] then Inr (Some (min_list_int upcoming))
           else Inr (Some (today + days 1 + min_list_int (map snd windows)))))"

section \<open>The loss-cut binding\<close>

definition LOSS_CUT_EXIT_REASONS :: "string set" where
  "LOSS_CUT_EXIT_REASONS = {''stop_loss'', ''thesis_change''}"

definition LOSS_CUT_TRIGGER_TYPES :: "string set" where
  "LOSS_CUT_TRIGGER_TYPES = {''stop_loss'', ''thesis_change''}"

definition LOSS_CUT_MAX_AGE :: int where "LOSS_CUT_MAX_AGE = hours 72"

record retrospective =
  rt_symbol :: "string option"
  rt_trigger_type :: "string option"
  rt_created_at :: "pydatetime option"

definition retrospective_errors :: "retrospective \<Rightarrow> int \<Rightarrow> string \<Rightarrow> int \<Rightarrow> string list" where
  "retrospective_errors retro rid symbol t =
     (if upper (strip (text_of (rt_symbol retro))) \<noteq> upper (strip symbol)
      then [''retrospective_id '' @ show_int rid @ '' symbol mismatch''] else []) @
     (if (case rt_trigger_type retro of None \<Rightarrow> True | Some x \<Rightarrow> x \<notin> LOSS_CUT_TRIGGER_TYPES)
      then [''retrospective trigger_type is not loss-cut eligible''] else []) @
     (case rt_created_at retro of
        None \<Rightarrow> []
      | Some created \<Rightarrow>
          if t - instant created > LOSS_CUT_MAX_AGE
          then [''retrospective_id '' @ show_int rid @ '' is stale (> 72h old)''] else [])"

definition loss_cut_errors ::
  "(int \<Rightarrow> retrospective option) \<Rightarrow> string \<Rightarrow> string \<Rightarrow> string \<Rightarrow> string \<Rightarrow> string \<Rightarrow> string option
   \<Rightarrow> int option \<Rightarrow> int \<Rightarrow> string list" where
  "loss_cut_errors retros symbol market account_mode side order_type exit_reason retrospective_id t =
     (if (case exit_reason of None \<Rightarrow> True | Some x \<Rightarrow> x \<notin> LOSS_CUT_EXIT_REASONS)
      then [''loss_cut requires exit_reason in ['' @ py_repr ''stop_loss'' @ '', '' @
            py_repr ''thesis_change'' @ '']''] else []) @
     (if retrospective_id = None then [''loss_cut requires retrospective_id''] else []) @
     (if (account_mode, market) \<notin>
           {(''kis_live'', ''equity_kr''), (''kis_live'', ''equity_us''), (''toss_live'', ''equity_kr''),
            (''toss_live'', ''equity_us''), (''upbit'', ''crypto'')}
      then [''loss_cut requires a supported live account and market''] else []) @
     (if side \<noteq> ''sell'' then [''loss_cut requires side='' @ py_repr ''sell''] else []) @
     (if order_type \<noteq> ''limit'' then [''loss_cut requires order_type='' @ py_repr ''limit''] else []) @
     (case retrospective_id of
        None \<Rightarrow> []
      | Some rid \<Rightarrow>
          (case retros rid of
             None \<Rightarrow> [''retrospective_id '' @ show_int rid @ '' not found'']
           | Some retro \<Rightarrow> retrospective_errors retro rid symbol t))"

definition validate_exit_binding ::
  "(int \<Rightarrow> retrospective option) \<Rightarrow> string \<Rightarrow> string \<Rightarrow> string \<Rightarrow> string \<Rightarrow> string \<Rightarrow> string option
   \<Rightarrow> string option \<Rightarrow> int option \<Rightarrow> string option \<Rightarrow> int \<Rightarrow> (svc_error, unit) result" where
  "validate_exit_binding retros symbol market account_mode side order_type exit_intent exit_reason
       retrospective_id approval_issue_id t =
     (case exit_intent of
        None \<Rightarrow>
          require (exit_reason = None \<and> retrospective_id = None \<and> approval_issue_id = None)
            (ProposalError ''exit binding fields require exit_intent'')
      | Some intent \<Rightarrow>
          if intent \<noteq> ''loss_cut''
          then Inl (ProposalError ''unknown exit_intent'')
          else (case loss_cut_errors retros symbol market account_mode side order_type exit_reason
                       retrospective_id t of
                  [] \<Rightarrow> Inr ()
                | e # es \<Rightarrow> Inl (LossCutInvalid (e # es))))"

section \<open>The payload hash\<close>

text \<open>
  The hash covers the canonical JSON text of this content; SHA-256 over that text is the
  parameter \<open>hash\<close>. Validity times are not part of the content.
\<close>

record rung_spec =
  rs_rung_index :: int
  rs_side :: string
  rs_quantity :: string
  rs_limit_price :: "string option"
  rs_notional :: "string option"

record payload_content =
  pc_symbol :: string
  pc_market :: string
  pc_account_mode :: string
  pc_order_type :: string
  pc_action :: string
  pc_target_broker_order_id :: "string option"
  pc_target_order_snapshot :: "payload option"
  pc_exit_intent :: "string option"
  pc_exit_reason :: "string option"
  pc_retrospective_id :: "int option"
  pc_approval_issue_id :: "string option"
  pc_rungs :: "rung_spec list"

definition rung_spec_of :: "rung_input \<Rightarrow> rung_spec" where
  "rung_spec_of r =
     \<lparr>rs_rung_index = ri_rung_index r, rs_side = ri_side r, rs_quantity = dec_str (ri_quantity r),
      rs_limit_price = map_option dec_str (ri_limit_price r),
      rs_notional = map_option dec_str (ri_notional r)\<rparr>"

record proposal_request =
  q_symbol :: string
  q_market :: string
  q_account_mode :: string
  q_side :: string
  q_order_type :: string
  q_proposer :: string
  q_rungs :: "rung_input list"
  q_thesis :: "string option"
  q_strategy :: "string option"
  q_rationale :: "dict option"
  q_broker_account_id :: "string option"
  q_lot_context :: "dict option"
  q_valid_until :: "pydatetime option"
  q_exit_intent :: "string option"
  q_exit_reason :: "string option"
  q_retrospective_id :: "int option"
  q_approval_issue_id :: "string option"
  q_correlation_id :: "string option"
  q_source_asof :: "dict option"
  q_supersedes_proposal_id :: "uuid option"
  q_action :: "string option"
  q_target_broker_order_id :: "string option"
  q_target_order_snapshot :: "payload option"

definition payload_content_of ::
  "proposal_request \<Rightarrow> string \<Rightarrow> payload option \<Rightarrow> payload_content" where
  "payload_content_of q action snapshot =
     \<lparr>pc_symbol = q_symbol q, pc_market = q_market q, pc_account_mode = q_account_mode q,
      pc_order_type = q_order_type q, pc_action = action,
      pc_target_broker_order_id = q_target_broker_order_id q, pc_target_order_snapshot = snapshot,
      pc_exit_intent = q_exit_intent q, pc_exit_reason = q_exit_reason q,
      pc_retrospective_id = q_retrospective_id q, pc_approval_issue_id = q_approval_issue_id q,
      pc_rungs = sort_key rs_rung_index (map rung_spec_of (q_rungs q))\<rparr>"

definition compute_proposal_payload_hash ::
  "(payload_content \<Rightarrow> string) \<Rightarrow> proposal_request \<Rightarrow> string \<Rightarrow> payload option \<Rightarrow> string" where
  "compute_proposal_payload_hash hash q action snapshot = hash (payload_content_of q action snapshot)"

section \<open>Creating a proposal\<close>

text \<open>A column \<open>NUMERIC(38, 12)\<close>: twelve decimals, half away from zero, below \<open>10 ^ 26\<close>.\<close>

definition numeric_round :: "rat \<Rightarrow> rat" where
  "numeric_round x =
     (if 0 \<le> x then of_int \<lfloor>x * 10 ^ 12 + 1 / 2\<rfloor> / 10 ^ 12
      else - (of_int \<lfloor>- x * 10 ^ 12 + 1 / 2\<rfloor> / 10 ^ 12))"

definition numeric_column :: "pydecimal \<Rightarrow> (svc_error, rat) result" where
  "numeric_column d =
     (let x = numeric_round (dec_value d) in
      if is_finite d \<and> \<bar>x\<bar> < 10 ^ 26 then Inr x else Inl (IntegrityError ''numeric field overflow''))"

definition numeric_column_opt :: "pydecimal option \<Rightarrow> (svc_error, rat option) result" where
  "numeric_column_opt v = (case v of
     None \<Rightarrow> Inr None
   | Some d \<Rightarrow> bindR (numeric_column d) (\<lambda>x. Inr (Some x)))"

definition create_rung :: "int \<Rightarrow> rung_input \<Rightarrow> store \<Rightarrow> (svc_error, store) result" where
  "create_rung pk r s =
     bindR (numeric_column (ri_quantity r)) (\<lambda>quantity.
     bindR (numeric_column_opt (ri_limit_price r)) (\<lambda>limit_price.
     bindR (numeric_column_opt (ri_notional r)) (\<lambda>notional.
     bindR (of_option (IntegrityError ''order_proposal_rungs'')
              (insert_rung
                 \<lparr>r_id = 0, r_proposal_pk = pk, r_rung_index = ri_rung_index r, r_side = ri_side r,
                  r_quantity = quantity, r_limit_price = limit_price, r_notional = notional,
                  r_state = PendingApproval, r_approval_hash_digest = None, r_approval_revision = None,
                  r_idempotency_key = None, r_broker_order_id = None, r_correlation_id = None,
                  r_validated_at = None, r_filled_qty = None, r_void_reason = None,
                  r_created_at = 0, r_updated_at = 0\<rparr> s))
       (\<lambda>(s1, _). Inr s1))))"

definition SUPERSEDE_INVALIDATABLE_RUNG_STATES :: "rung_state set" where
  "SUPERSEDE_INVALIDATABLE_RUNG_STATES = {PendingApproval, NeedsReconfirm}"

definition supersede_step :: "int \<Rightarrow> store \<Rightarrow> rung \<Rightarrow> (svc_error, store) result" where
  "supersede_step t s r =
     (if r_state r \<notin> SUPERSEDE_INVALIDATABLE_RUNG_STATES then Inr s
      else bindR (map_error BadTransition (check_transition (r_state r) Superseded)) (\<lambda>_.
        Inr (fst (update_rung r (\<lambda>x. stamp t (x\<lparr>r_state := Superseded\<rparr>)) s))))"

definition supersede_group ::
  "order_proposal \<Rightarrow> uuid \<Rightarrow> int \<Rightarrow> store \<Rightarrow> (svc_error, store) result" where
  "supersede_group grp proposal_id t s =
     bindR (foldR (supersede_step t) s (list_rungs s (g_id grp))) (\<lambda>s1.
       Inr (fst (update_group grp (\<lambda>g. g\<lparr>g_lifecycle_state := GSuperseded,
              g_superseded_by_proposal_id := Some proposal_id,
              g_approval_nonce_used_at := Some t\<rparr>) s1)))"

text \<open>The validity of the new proposal: given or the next KST midnight, raised to the floor.\<close>

definition resolve_valid_until :: "proposal_request \<Rightarrow> int \<Rightarrow> (svc_error, int) result" where
  "resolve_valid_until q t =
     bindR (case q_exit_intent q of
              None \<Rightarrow> Inr None
            | Some intent \<Rightarrow>
                if intent \<in> DEFENSIVE_EXIT_INTENTS
                then resolve_defensive_valid_until (q_market q) (Aware t) else Inr None)
       (\<lambda>defensive_floor.
     bindR (case q_valid_until q of
              None \<Rightarrow> Inr (kst_midnight t + days 1)
            | Some v \<Rightarrow> bindR (require_timezone_aware v) (\<lambda>u.
                if u \<le> t then Inl (ProposalError ''valid_until must be in the future'') else Inr u))
       (\<lambda>valid_until.
       Inr (case defensive_floor of
              None \<Rightarrow> valid_until
            | Some f \<Rightarrow> if valid_until < f then f else valid_until)))"

definition snapshot_json :: "payload \<Rightarrow> json" where
  "snapshot_json p = JObj (map (\<lambda>(k, v). (k, case v of None \<Rightarrow> JNull | Some x \<Rightarrow> JStr x)) p)"

definition merged_source_asof :: "proposal_request \<Rightarrow> payload option \<Rightarrow> dict" where
  "merged_source_asof q snapshot =
     (case snapshot of
        None \<Rightarrow> or_empty (q_source_asof q)
      | Some p \<Rightarrow> dict_set ''target_order_snapshot'' (snapshot_json p) (or_empty (q_source_asof q)))"

definition new_group ::
  "proposal_request \<Rightarrow> uuid \<Rightarrow> uuid \<Rightarrow> string \<Rightarrow> string \<Rightarrow> int \<Rightarrow> dict \<Rightarrow> order_proposal" where
  "new_group q proposal_id root_id payload_hash action valid_until source_asof =
     \<lparr>g_id = 0, g_proposal_id = proposal_id, g_root_proposal_id = root_id, g_revision = 1,
      g_supersedes_proposal_id = q_supersedes_proposal_id q, g_superseded_by_proposal_id = None,
      g_no_resubmit = False, g_void_reason = None, g_payload_hash = Some payload_hash,
      g_symbol = q_symbol q, g_market = q_market q, g_account_mode = q_account_mode q,
      g_side = q_side q, g_order_type = q_order_type q, g_proposer = q_proposer q,
      g_thesis = q_thesis q, g_strategy = q_strategy q, g_rationale = q_rationale q,
      g_broker_account_id = q_broker_account_id q, g_lot_context = q_lot_context q,
      g_action = Some action, g_target_broker_order_id = q_target_broker_order_id q,
      g_exit_intent = q_exit_intent q, g_exit_reason = q_exit_reason q,
      g_retrospective_id = q_retrospective_id q, g_approval_issue_id = q_approval_issue_id q,
      g_lifecycle_state = Proposed, g_correlation_id = q_correlation_id q,
      g_valid_until = Some valid_until, g_validated_at = None, g_source_asof = or_none source_asof,
      g_approval_nonce = None, g_approval_nonce_used_at = None,
      g_approval_dispatch_state = None, g_approval_dispatch_attempt_id = None,
      g_approval_dispatch_attempted_at = None, g_approval_dispatch_failure_code = None,
      g_approval_dispatch_payload_chars = None, g_approval_dispatch_card_kind = None,
      g_approval_dispatch_membership_revision = None, g_approval_dispatch_membership_digest = None,
      g_approval_dispatch_published_at = None, g_approved_by_telegram_user_id = None,
      g_approved_at = None, g_commit_lease_until = None, g_created_at = 0, g_updated_at = 0\<rparr>"

definition find_superseded ::
  "proposal_request \<Rightarrow> store \<Rightarrow> (svc_error, order_proposal option) result" where
  "find_superseded q s =
     (case q_supersedes_proposal_id q of
        None \<Rightarrow> Inr None
      | Some pid \<Rightarrow>
          (case get_group_by_proposal_id s pid of
             None \<Rightarrow> Inl (NotFound pid None) | Some g \<Rightarrow> Inr (Some g)))"

text \<open>The writes: the group, its rungs, then the invalidation of the superseded group.\<close>

definition insert_proposal ::
  "(payload_content \<Rightarrow> string) \<Rightarrow> proposal_request \<Rightarrow> uuid \<Rightarrow> string \<Rightarrow> payload option \<Rightarrow> int
   \<Rightarrow> order_proposal option \<Rightarrow> int \<Rightarrow> store \<Rightarrow> (svc_error, store \<times> order_proposal) result" where
  "insert_proposal hash q proposal_id action snapshot valid_until superseded_group t s =
     (let root_id = (case superseded_group of None \<Rightarrow> proposal_id | Some g \<Rightarrow> g_root_proposal_id g);
          payload_hash = compute_proposal_payload_hash hash q action snapshot
      in bindR (of_option (IntegrityError ''order_proposals'')
                 (insert_group (new_group q proposal_id root_id payload_hash action valid_until
                                  (merged_source_asof q snapshot)) s)) (\<lambda>(s1, grp).
         bindR (foldR (\<lambda>s' r. create_rung (g_id grp) r s') s1 (q_rungs q)) (\<lambda>s2.
         bindR (case superseded_group of None \<Rightarrow> Inr s2 | Some g \<Rightarrow> supersede_group g proposal_id t s2)
           (\<lambda>s3. Inr (s3, grp)))))"

text \<open>
  \<open>proposal_id\<close> is the fresh \<open>uuid4\<close>, \<open>now\<close> the given or current time.
\<close>

definition create_proposal ::
  "(payload_content \<Rightarrow> string) \<Rightarrow> iso_reader \<Rightarrow> iso_printer \<Rightarrow> (int \<Rightarrow> retrospective option)
   \<Rightarrow> proposal_request \<Rightarrow> uuid \<Rightarrow> pydatetime \<Rightarrow> store
   \<Rightarrow> (svc_error, store \<times> order_proposal) result" where
  "create_proposal hash read_iso show_iso retros q proposal_id now s =
     bindR (require (q_rungs q \<noteq> []) (ValueError ''at least one rung required'')) (\<lambda>_.
     bindR (validate_action_contract read_iso show_iso (q_action q) (q_account_mode q) (q_market q)
              (q_symbol q) (q_side q) (q_order_type q) (q_rungs q) (q_target_broker_order_id q)
              (q_target_order_snapshot q)) (\<lambda>(action, target).
     bindR (require_timezone_aware now) (\<lambda>t.
     bindR (resolve_valid_until q t) (\<lambda>valid_until.
     bindR (validate_exit_binding retros (q_symbol q) (q_market q) (q_account_mode q) (q_side q)
              (q_order_type q) (q_exit_intent q) (q_exit_reason q) (q_retrospective_id q)
              (q_approval_issue_id q) t) (\<lambda>_.
     bindR (find_superseded q s) (\<lambda>superseded_group.
       insert_proposal hash q proposal_id action (map_option to_payload target) valid_until
         superseded_group t s))))))"

end
