(* ===== verification/ProposalRuns.thy ===== *)
theory ProposalRuns
  imports ProposalFrames DispatchService ProposalCreate
begin

text \<open>
  Every public operation of the proposal service as a command, transactions as runs of
  commands, and the frame lemma of each operation.
\<close>

section \<open>Group writes\<close>

definition group_frame :: "string set \<Rightarrow> (order_proposal \<Rightarrow> order_proposal) \<Rightarrow> bool" where
  "group_frame N upd \<longleftrightarrow>
     (\<forall>g. group_payload (upd g) = group_payload g \<and>
          g_superseded_by_proposal_id (upd g) = g_superseded_by_proposal_id g \<and>
          g_lifecycle_state (upd g) = g_lifecycle_state g \<and>
          (g_no_resubmit g \<longrightarrow> g_no_resubmit (upd g)) \<and>
          (\<forall>n. n \<notin> N \<longrightarrow> spent n g \<longrightarrow> spent n (upd g)))"

lemma group_frame_evolves: "group_frame N upd \<Longrightarrow> group_evolves N g (upd g)"
  by (simp add: group_frame_def group_evolves_def)

lemma update_group_evolves:
  assumes "wf_store s" and "grp \<in> set (db_groups s)" and "group_frame N upd"
  shows "evolves N s (fst (update_group grp upd s))"
proof -
  let ?g = "grp\<lparr>g_updated_at := db_now s\<rparr>"
  have "group_evolves N grp ?g" by (simp add: group_evolves_def group_payload_def spent_def)
  then have "group_evolves N grp (upd ?g)"
    using group_frame_evolves [OF assms(3)] group_evolves_trans by blast
  moreover have "g_lifecycle_state (upd ?g) = g_lifecycle_state grp"
    using assms(3) by (simp add: group_frame_def)
  ultimately show ?thesis
    using put_group_evolves [OF assms(1,2)] by (simp add: update_group_def Let_def)
qed

lemma update_group_result:
  "update_group grp upd s = (s', g) \<Longrightarrow> s' = fst (update_group grp upd s)"
  by simp

lemma locked_group_Inr:
  "locked_group pid s = Inr grp \<Longrightarrow> grp \<in> set (db_groups s) \<and> g_proposal_id grp = pid"
  by (auto simp: locked_group_def dest: get_group_in)

lemma attempts_only_evolves:
  assumes "wf_store s" and "db_groups s' = db_groups s" and "db_rungs s' = db_rungs s"
    and "db_group_seq s' = db_group_seq s" and "db_rung_seq s' = db_rung_seq s"
  shows "evolves N s s'"
proof -
  have l: "list_rungs s' = list_rungs s" by (simp add: list_rungs_def assms fun_eq_iff)
  show ?thesis using assms by (auto simp: evolves_def wf_store_def rollup_inv_def l)
qed

section \<open>Expiry, sweep and void\<close>

lemma nonce_cleared_frame:
  "group_evolves N g (g\<lparr>g_approval_nonce := None\<rparr>) \<and>
   g_lifecycle_state (g\<lparr>g_approval_nonce := None\<rparr>) = g_lifecycle_state g"
  by (simp add: group_evolves_def group_payload_def spent_def)

lemma expire_if_needed_evolves:
  assumes wf: "wf_store s" and ok: "expire_if_needed pid now s = Inr (s', b)"
  shows "evolves N s s'"
proof -
  from ok obtain t grp where grp: "get_group_by_proposal_id s pid = Some grp"
    and cases: "s' = s \<or> (\<exists>s1 out. foldR (expire_step t) (s, []) (list_rungs s (g_id grp)) = Inr (s1, out)
        \<and> s' = rollup grp out (\<lambda>g. g\<lparr>g_approval_nonce := None\<rparr>) s1)"
    by (auto simp: expire_if_needed_def bindR_eq_Inr Let_def split: if_splits option.splits)
  have "grp \<in> set (db_groups s)" using get_group_in [OF grp] by simp
  then show ?thesis
    using cases collecting_loop_rollup(1) [OF collecting_expire_step wf _ _ nonce_cleared_frame] wf
    by blast
qed

lemma expire_rung_write_evolves:
  assumes wf: "wf_store s" and grp: "grp \<in> set (db_groups s)" and rung: "rung \<in> set (db_rungs s)"
    and pk: "r_proposal_pk rung = g_id grp" and i: "r_rung_index rung = i"
    and a: "Expired \<in> ALLOWED (r_state rung)"
  shows "evolves N s (expire_rung_write t grp rung i s)"
proof -
  define r1 where "r1 = stamp t (rung\<lparr>r_updated_at := db_now s, r_state := Expired\<rparr>)"
  define s1 where "s1 = put_rung r1 s"
  define mat where "mat = map (\<lambda>x. if r_rung_index x = i then r1 else x) (list_rungs s1 (g_id grp))"
  have s': "expire_rung_write t grp rung i s
      = rollup grp mat (\<lambda>g. if \<forall>x \<in> set mat. r_state x \<in> LOCAL_TERMINAL_STATES
                            then g\<lparr>g_approval_nonce := None\<rparr> else g) s1"
    unfolding expire_rung_write_def update_rung_def Let_def split_def fst_conv snd_conv
      r1_def [symmetric] s1_def [symmetric] mat_def [symmetric] by (rule refl)
  have ev: "rung_evolves rung r1"
    using a by (auto simp: r1_def rung_evolves_def stamp_def rung_payload_def rung_edges_def)
  then have eqs: "r_id r1 = r_id rung" "r_proposal_pk r1 = r_proposal_pk rung" "r_rung_index r1 = i"
    using i by (auto simp: rung_evolves_def rung_payload_def)
  have rw: "rungs_rewritten (g_id grp) s s1"
    using put_rung_rewritten [OF wf rung ev] pk by (simp add: s1_def)
  have wf1: "wf_store s1" using rw by (simp add: rungs_rewritten_def)
  have r1_in: "r1 \<in> set (list_rungs s1 (g_id grp))"
    using put_rung_rows [OF wf rung eqs(1)] eqs pk by (simp add: s1_def)
  have inj: "inj_on (\<lambda>r. (r_proposal_pk r, r_rung_index r)) (set (db_rungs s1))"
    using wf1 by (simp add: wf_store_def distinct_map)
  have only: "x = r1" if "x \<in> set (list_rungs s1 (g_id grp))" "r_rung_index x = i" for x
    using inj_onD [OF inj, of x r1] that r1_in eqs by simp
  have "mat = list_rungs s1 (g_id grp)"
    unfolding mat_def by (rule map_idI) (use only in simp)
  then have "set mat = set (list_rungs s1 (g_id grp))" by simp
  then have m: "recompute_group_state mat = recompute_group_state (list_rungs s1 (g_id grp))"
    by (rule recompute_set_cong)
  show ?thesis
    unfolding s' rollup_def update_group_def Let_def fst_conv
    by (rule rewritten_rollup_evolves [OF rw grp wf])
      (simp_all add: group_evolves_def group_payload_def spent_def m)
qed

lemma expire_rung_if_needed_evolves:
  assumes wf: "wf_store s" and ok: "expire_rung_if_needed pid i now s = Inr (s', b)"
  shows "evolves N s s'"
proof (cases "s' = s")
  case True
  then show ?thesis using wf by blast
next
  case False
  with ok obtain t grp rung where lk: "get_locked_rung pid i s = Inr (grp, rung)"
    and "Expired \<in> ALLOWED (r_state rung)" "s' = expire_rung_write t grp rung i s"
    by (auto simp: expire_rung_if_needed_def bindR_eq_Inr split: if_splits option.splits)
  then show ?thesis
    using expire_rung_write_evolves [OF wf get_locked_rung_Inr(1,3,4,5) [OF lk]] by simp
qed

lemma expire_mutable_step_evolves:
  assumes "wf_store (fst st)" and "expire_mutable_step pid now st r = Inr st'"
  shows "evolves N (fst st) (fst st')"
  using assms expire_rung_if_needed_evolves [OF assms(1)]
  by (auto simp: expire_mutable_step_def bindR_eq_Inr split: if_splits)

text \<open>A fold of steps that each evolve the store evolves it.\<close>

lemma foldR_evolves:
  assumes wf: "wf_store s" and fold: "foldR step (s, x) ys = Inr (s', x')"
    and step: "\<And>st y st'. wf_store (fst st) \<Longrightarrow> step st y = Inr st' \<Longrightarrow> evolves N (fst st) (fst st')"
  shows "evolves N s s'"
proof -
  have "evolves N s (fst (s', x'))"
  proof (rule foldR_invariant [OF fold])
    show "evolves N s (fst (s, x))" using wf by auto
    fix st y st'
    assume e: "evolves N s (fst st)" and "step st y = Inr st'"
    then have "evolves N (fst st) (fst st')" using step evolves_wf by blast
    with e show "evolves N s (fst st')" by (rule evolves_trans)
  qed
  then show ?thesis by simp
qed

lemma expire_mutable_rungs_evolves:
  assumes wf: "wf_store s" and ok: "expire_mutable_rungs_if_needed pid now s = Inr (s', n)"
  shows "evolves N s s'"
proof (cases "s' = s")
  case True
  then show ?thesis using wf by blast
next
  case False
  with ok obtain rungs where "foldR (expire_mutable_step pid now) (s, 0) rungs = Inr (s', n)"
    unfolding expire_mutable_rungs_if_needed_def by (auto simp: bindR_eq_Inr split: if_splits)
  then show ?thesis by (rule foldR_evolves [OF wf _ expire_mutable_step_evolves])
qed

lemma sweep_expired_one_evolves:
  assumes wf: "wf_store s" and ok: "sweep_expired_one t (s, res) pid = Inr (s', res')"
  shows "evolves N s s'"
proof (cases "s' = s")
  case True
  then show ?thesis using wf by blast
next
  case False
  with ok obtain grp s1 out where grp: "get_group_by_proposal_id s pid = Some grp"
    and "foldR (expire_step t) (s, []) (list_rungs s (g_id grp)) = Inr (s1, out)"
    and "s' = rollup grp out (\<lambda>g. g\<lparr>g_approval_nonce := None\<rparr>) s1"
    by (auto simp: sweep_expired_one_def bindR_eq_Inr Let_def split: if_splits option.splits)
  then show ?thesis
    using collecting_loop_rollup(1) [OF collecting_expire_step wf _ _ nonce_cleared_frame]
      get_group_in [OF grp] by blast
qed

lemma sweep_expired_evolves:
  assumes wf: "wf_store s" and ok: "sweep_expired now s = Inr (s', res)"
  shows "evolves N s s'"
proof -
  from ok obtain t where "foldR (sweep_expired_one t) (s, []) (list_expiry_candidates s t) = Inr (s', res)"
    by (auto simp: sweep_expired_def bindR_eq_Inr)
  then show ?thesis
    by (rule foldR_evolves [OF wf]) (metis sweep_expired_one_evolves prod.collapse)
qed

lemma void_proposal_Inr:
  assumes "void_proposal pid reason now lookup ledger s = Inr (s', out)"
  obtains t grp why s1 where "now = Aware t" "get_group_by_proposal_id s pid = Some grp"
    "\<forall>r \<in> set (list_rungs s (g_id grp)). r_state r \<in> VOIDABLE_RUNG_STATES \<union> {Unverified}"
    "evidence_phase grp (filter (\<lambda>r. r_state r = Unverified) (list_rungs s (g_id grp))) t lookup ledger
       = Inr why"
    "foldR (void_step t (strip reason @ why)) (s, []) (list_rungs s (g_id grp)) = Inr (s1, out)"
    "s' = rollup grp out
       (\<lambda>g. g\<lparr>g_void_reason := Some (strip reason @ why), g_no_resubmit := True,
               g_approval_nonce := None, g_approval_nonce_used_at := Some t\<rparr>) s1"
proof -
  from assms obtain t grp where t: "now = Aware t" and grp: "get_group_by_proposal_id s pid = Some grp"
    and nf: "find (\<lambda>r. r_state r \<notin> VOIDABLE_RUNG_STATES \<union> {Unverified}) (list_rungs s (g_id grp)) = None"
    and rest: "bindR (evidence_phase grp (filter (\<lambda>r. r_state r = Unverified) (list_rungs s (g_id grp)))
          t lookup ledger)
        (\<lambda>why. bindR (foldR (void_step t (strip reason @ why)) (s, []) (list_rungs s (g_id grp)))
          (\<lambda>(s1, voided). Inr (rollup grp voided
             (\<lambda>g. g\<lparr>g_void_reason := Some (strip reason @ why), g_no_resubmit := True,
               g_approval_nonce := None, g_approval_nonce_used_at := Some t\<rparr>) s1, voided))) = Inr (s', out)"
    by (auto simp: void_proposal_def bindR_eq_Inr Let_def split: option.splits)
  then show thesis using that [OF t grp] nf by (auto simp: bindR_eq_Inr find_None_all)
qed

lemma void_proposal_evolves:
  assumes wf: "wf_store s" and ok: "void_proposal pid reason now lookup ledger s = Inr (s', out)"
  shows "evolves N s s'"
  using ok
proof (cases rule: void_proposal_Inr)
  case (1 t grp why s1)
  have upd: "\<And>g. group_evolves N g (g\<lparr>g_void_reason := Some (strip reason @ why), g_no_resubmit := True,
      g_approval_nonce := None, g_approval_nonce_used_at := Some t\<rparr>) \<and>
      g_lifecycle_state (g\<lparr>g_void_reason := Some (strip reason @ why), g_no_resubmit := True,
      g_approval_nonce := None, g_approval_nonce_used_at := Some t\<rparr>) = g_lifecycle_state g"
    by (simp add: group_evolves_def group_payload_def spent_def)
  show ?thesis
    using collecting_loop_rollup(1) [OF collecting_void_step wf _ 1(5) upd] get_group_in [OF 1(2)] 1(6)
    by simp
qed

section \<open>The writers of the submit path\<close>

lemma audit_stamp: "audit_frame f \<Longrightarrow> audit_frame (\<lambda>r. stamp t (f r))"
  by (simp add: audit_frame_def stamp_def rung_payload_def)

lemma audit_stamp_id: "audit_frame (stamp t)"
  by (simp add: audit_frame_def stamp_def rung_payload_def)

lemma submit_audits:
  "audit_frame (\<lambda>r. stamp t (r\<lparr>r_broker_order_id := a, r_correlation_id := b, r_idempotency_key := c,
     r_approval_hash_digest := d, r_validated_at := e\<rparr>))"
  "audit_frame (\<lambda>r. stamp t (r\<lparr>r_broker_order_id := a, r_validated_at := e\<rparr>))"
  "audit_frame (\<lambda>r. stamp t (r\<lparr>r_void_reason := w\<rparr>))"
  "audit_frame (\<lambda>r. stamp t (r\<lparr>r_approval_revision := v, r_validated_at := e\<rparr>))"
  "audit_frame (fill_audit t q)"
  "audit_frame (\<lambda>r. let r1 = stamp t (r\<lparr>r_void_reason := w, r_validated_at := e\<rparr>);
                  r2 = (if b = None then r1 else r1\<lparr>r_correlation_id := b\<rparr>)
              in if c = None then r2 else r2\<lparr>r_idempotency_key := c\<rparr>)"
  by (simp_all add: audit_frame_def stamp_def rung_payload_def Let_def fill_audit_def)

lemma record_ack_evolves:
  "wf_store s \<Longrightarrow> record_ack pid i bo co ik dg now s = Inr (s', r) \<Longrightarrow> evolves N s s'"
  unfolding record_ack_def by (auto simp: bindR_eq_Inr intro: transition_rung_evolves [OF _ submit_audits(1)])

lemma record_resting_evolves:
  "wf_store s \<Longrightarrow> record_resting pid i bo co ik dg now s = Inr (s', r) \<Longrightarrow> evolves N s s'"
  unfolding record_resting_def by (auto simp: bindR_eq_Inr intro: transition_rung_evolves [OF _ submit_audits(1)])

lemma record_cancelled_evolves:
  "wf_store s \<Longrightarrow> record_cancelled pid i bo now s = Inr (s', r) \<Longrightarrow> evolves N s s'"
  unfolding record_cancelled_def by (auto simp: bindR_eq_Inr intro: transition_rung_evolves [OF _ submit_audits(2)])

lemma record_rejected_evolves:
  "wf_store s \<Longrightarrow> record_rejected pid i why now s = Inr (s', r) \<Longrightarrow> evolves N s s'"
  unfolding record_rejected_def by (auto simp: bindR_eq_Inr intro: transition_rung_evolves [OF _ submit_audits(3)])

lemma record_unverified_evolves:
  "wf_store s \<Longrightarrow> record_unverified pid i why now co ik s = Inr (s', r) \<Longrightarrow> evolves N s s'"
  unfolding record_unverified_def
  by (auto simp: bindR_eq_Inr simp del: Let_def intro: transition_rung_evolves [OF _ submit_audits(6)])

lemma mark_needs_reconfirm_evolves:
  assumes wf: "wf_store s" and ok: "mark_needs_reconfirm pid i now s = Inr (s', r)"
  shows "evolves N s s'"
proof -
  from ok obtain t grp rung where lk: "get_locked_rung pid i s = Inr (grp, rung)"
    and tr: "transition_locked_rung grp rung NeedsReconfirm
         (\<lambda>r. stamp t (r\<lparr>r_approval_revision :=
                    Some ((case r_approval_revision rung of None \<Rightarrow> 0 | Some n \<Rightarrow> n) + 1),
                  r_validated_at := Some t\<rparr>)) s = Inr (s', r)"
    by (auto simp: mark_needs_reconfirm_def bindR_eq_Inr)
  show ?thesis
    by (rule transition_locked_rung_evolves [OF wf get_locked_rung_Inr(1,3,4) [OF lk] submit_audits(4) tr])
qed

lemma restore_pending_evolves:
  assumes "wf_store s" and "get_locked_rung pid i s = Inr (grp, rung)"
    and "restore_pending grp rung t s = Inr (s', r)"
  shows "evolves N s s'"
  using assms(1,3) transition_locked_rung_evolves [OF assms(1) get_locked_rung_Inr(1,3,4) [OF assms(2)] audit_stamp_id]
  by (auto simp: restore_pending_def split: if_splits)

lemma restore_rung_evolves:
  assumes wf: "wf_store s" and ok: "restore_rung_after_pre_send_block pid i now expired s = Inr (s', r)"
  shows "evolves N s s'"
proof -
  from ok obtain t grp rung s1 r1 where lk: "get_locked_rung pid i s = Inr (grp, rung)"
    and st: "restore_pending grp rung t s = Inr (s1, r1)"
    and fin: "s' = s1 \<or> (\<exists>b. expire_rung_if_needed pid i now s1 = Inr (s', b))"
    by (auto simp: restore_rung_after_pre_send_block_def bindR_eq_Inr split: if_splits)
  have e1: "evolves N s s1" by (rule restore_pending_evolves [OF wf lk st])
  then show ?thesis
    using fin expire_rung_if_needed_evolves [OF evolves_wf [OF e1]] evolves_trans by blast
qed

section \<open>Evidence\<close>

lemma put_rung_same_state_evolves:
  assumes wf: "wf_store s" and r0: "r0 \<in> set (db_rungs s)"
    and pay: "rung_payload r = rung_payload r0" and st: "r_state r = r_state r0"
  shows "evolves N s (put_rung r s)"
proof -
  have ev: "rung_evolves r0 r" using pay st by (simp add: rung_evolves_def)
  have rw: "rungs_rewritten (r_proposal_pk r0) s (put_rung r s)" by (rule put_rung_rewritten [OF wf r0 ev])
  have id: "r_id r = r_id r0" "r_proposal_pk r = r_proposal_pk r0" using pay by (auto simp: rung_payload_def)
  have uniq: "x = r0" if "x \<in> set (db_rungs s)" "r_id x = r_id r0" for x
    using that r0 wf by (auto simp: wf_store_def distinct_map dest: inj_onD)
  note rows = put_rung_rows [OF wf r0 id(1)]
  have set: "r_state ` set (list_rungs (put_rung r s) pk) = r_state ` set (list_rungs s pk)" for pk
  proof
    show "r_state ` set (list_rungs (put_rung r s) pk) \<subseteq> r_state ` set (list_rungs s pk)"
      using rows r0 st id by auto
    show "r_state ` set (list_rungs s pk) \<subseteq> r_state ` set (list_rungs (put_rung r s) pk)"
    proof
      fix y assume "y \<in> r_state ` set (list_rungs s pk)"
      then obtain x where x: "x \<in> set (db_rungs s)" "r_proposal_pk x = pk" "y = r_state x" by auto
      show "y \<in> r_state ` set (list_rungs (put_rung r s) pk)"
      proof (cases "r_id x = r_id r")
        case True
        then have "x = r0" using uniq x(1) id by simp
        then have "r \<in> set (list_rungs (put_rung r s) pk)" "y = r_state r" using x rows id st by auto
        then show ?thesis by (metis imageI)
      next
        case False
        then show ?thesis using x rows by auto
      qed
    qed
  qed
  have "recompute_group_state (list_rungs (put_rung r s) pk) = recompute_group_state (list_rungs s pk)" for pk
    by (rule recompute_cong) (simp only: set_map set)
  then have "rollup_inv s \<Longrightarrow> rollup_inv (put_rung r s)" by (simp add: rollup_inv_def)
  then show ?thesis using rw by (auto simp: evolves_def rungs_rewritten_def)
qed

lemma update_rung_audit_evolves:
  assumes "wf_store s" and "r0 \<in> set (db_rungs s)" and "audit_frame audit"
    and "update_rung r0 audit s = (s', r')"
  shows "evolves N s s'"
proof -
  have "s' = put_rung (audit (r0\<lparr>r_updated_at := db_now s\<rparr>)) s"
    using assms(4) by (auto simp: update_rung_def Let_def)
  then show ?thesis
    using assms(3) put_rung_same_state_evolves [OF assms(1,2)] by (simp add: audit_frame_def rung_payload_def)
qed

lemma apply_fill_evidence_evolves:
  assumes wf: "wf_store s" and lk: "get_locked_rung pid i s = Inr (grp, locked)"
    and ok: "apply_fill_evidence grp locked q st t s = Inr (s', out)"
  shows "evolves N s s'"
proof -
  note l = get_locked_rung_Inr [OF lk]
  from ok consider "s' = s" | r where "update_rung locked (fill_audit t q) s = (s', r)"
    | r where "transition_locked_rung grp locked st (fill_audit t q) s = Inr (s', r)"
    by (auto simp: apply_fill_evidence_def bindR_eq_Inr split: if_splits prod.splits)
  then show ?thesis
  proof cases
    case 1
    then show ?thesis using wf by blast
  next
    case 2
    then show ?thesis by (rule update_rung_audit_evolves [OF wf l(3) submit_audits(5)])
  next
    case 3
    then show ?thesis by (rule transition_locked_rung_evolves [OF wf l(1,3,4) submit_audits(5)])
  qed
qed

lemma record_fill_evidence_evolves:
  assumes wf: "wf_store s"
    and ok: "record_fill_evidence co bo ik q st now mode seen s = Inr (s', out)"
  shows "evolves N s s'"
proof (cases "s' = s")
  case True
  then show ?thesis using wf by blast
next
  case False
  with ok obtain t pid i grp locked where "get_locked_rung pid i s = Inr (grp, locked)"
    and "apply_fill_evidence grp locked q st t s = Inr (s', out)"
    by (auto simp: record_fill_evidence_def bindR_eq_Inr split: option.splits)
  then show ?thesis by (rule apply_fill_evidence_evolves [OF wf])
qed

lemma record_fill_evidence_for_rung_evolves:
  assumes wf: "wf_store s"
    and ok: "record_fill_evidence_for_rung rid co bo ik q st t m sy mk s = Inr (s', out)"
  shows "evolves N s s'"
proof (cases "s' = s")
  case True
  then show ?thesis using wf by blast
next
  case False
  with ok obtain pid i grp locked r where lk: "get_locked_rung pid i s = Inr (grp, locked)"
    and tr: "transition_locked_rung grp locked st (fill_audit t q) s = Inr (s', r)"
    by (auto simp: record_fill_evidence_for_rung_def bindR_eq_Inr split: option.splits if_splits)
  show ?thesis by (rule transition_locked_rung_evolves [OF wf get_locked_rung_Inr(1,3,4) [OF lk] submit_audits(5) tr])
qed


lemma sweep_stale_step_evolves:
  assumes wf: "wf_store (fst st)" and ok: "sweep_stale_step t ev st item = Inr st'"
  shows "evolves N (fst st) (fst st')"
proof (cases "fst st' = fst st")
  case True
  then show ?thesis using wf by auto
next
  case False
  with ok obtain pid i grp rung r where lk: "get_locked_rung pid i (fst st) = Inr (grp, rung)"
    and tr: "transition_locked_rung grp rung VoidedLocalStale
        (\<lambda>r. stamp t (r\<lparr>r_void_reason := Some ''no_broker_order''\<rparr>)) (fst st) = Inr (fst st', r)"
    by (cases item) (auto simp: sweep_stale_step_def bindR_eq_Inr split: if_splits)
  show ?thesis by (rule transition_locked_rung_evolves [OF wf get_locked_rung_Inr(1,3,4) [OF lk] submit_audits(3) tr])
qed

lemma sweep_local_stale_evolves:
  assumes wf: "wf_store s" and ok: "sweep_local_stale now ev s = Inr (s', out)"
  shows "evolves N s s'"
proof -
  from ok obtain t where "foldR (sweep_stale_step t ev) (s, []) (list_local_stale_candidates s) = Inr (s', out)"
    by (auto simp: sweep_local_stale_def bindR_eq_Inr)
  then show ?thesis by (rule foldR_evolves [OF wf _ sweep_stale_step_evolves])
qed

section \<open>Group writes of the approval path\<close>

text \<open>The result of an operation that writes one locked group row inside its frame.\<close>

lemma locked_write_evolves:
  assumes "wf_store s" and "locked_group pid s = Inr grp" and "group_frame N upd"
    and "update_group grp upd s = (s', g)"
  shows "evolves N s s'"
  using update_group_evolves [OF assms(1) _ assms(3), of grp] locked_group_Inr [OF assms(2)] assms(4)
  by (metis fst_conv)

lemmas frame_defs = group_frame_def group_payload_def spent_def

lemma acquire_commit_lease_evolves:
  assumes wf: "wf_store s" and ok: "acquire_commit_lease pid now n s = Inr (s', b)"
  shows "evolves N s s'"
proof (cases "s' = s")
  case True
  then show ?thesis using wf by blast
next
  case False
  with ok obtain t grp where g: "get_group_by_proposal_id s pid = Some grp"
    and s': "s' = fst (update_group grp (\<lambda>g. g\<lparr>g_commit_lease_until := Some (t + seconds n)\<rparr>) s)"
    by (auto simp: acquire_commit_lease_def bindR_eq_Inr split: if_splits)
  show ?thesis unfolding s'
    by (rule update_group_evolves [OF wf]) (use get_group_in [OF g] in \<open>simp_all add: frame_defs\<close>)
qed

lemma set_approval_nonce_evolves:
  assumes wf: "wf_store s" and N: "n \<in> N" and ok: "set_approval_nonce pid n rq s = Inr s'"
  shows "evolves N s s'"
proof -
  from ok obtain grp where lk: "locked_group pid s = Inr grp"
    and s': "s' = fst (update_group grp (\<lambda>g. g\<lparr>
                  g_approval_nonce := Some n, g_approval_nonce_used_at := None,
                  g_approval_dispatch_state := Some DFailed, g_approval_dispatch_published_at := None,
                  g_approval_dispatch_failure_code := Some ''approval_dispatch_snapshot_missing''\<rparr>) s)"
    by (auto simp: set_approval_nonce_def bindR_eq_Inr split: if_splits option.splits)
  show ?thesis unfolding s'
    by (rule update_group_evolves [OF wf]) (use locked_group_Inr [OF lk] in \<open>insert N, auto simp: frame_defs\<close>)
qed

lemma clear_approval_nonce_evolves:
  assumes wf: "wf_store s" and ok: "clear_approval_nonce pid e s = Inr (s', g)"
  shows "evolves N s s'"
proof -
  from ok obtain grp where lk: "locked_group pid s = Inr grp"
    and u: "update_group grp (\<lambda>g. g\<lparr>g_approval_nonce := None, g_approval_nonce_used_at := None\<rparr>) s = (s', g)"
    by (auto simp: clear_approval_nonce_def bindR_eq_Inr split: if_splits)
  show ?thesis by (rule locked_write_evolves [OF wf lk _ u]) (simp add: frame_defs)
qed

lemma restore_approval_evolves:
  assumes wf: "wf_store s" and N: "ex \<or> n \<in> N"
    and ok: "restore_approval_after_window_block pid n ex s = Inr (s', g)"
  shows "evolves N s s'"
proof -
  from ok obtain grp src where lk: "locked_group pid s = Inr grp"
    and u: "update_group grp (\<lambda>g. g\<lparr>g_source_asof := or_none src,
              g_approval_nonce := (if ex then None else Some n), g_approval_nonce_used_at := None,
              g_approved_by_telegram_user_id := None, g_approved_at := None,
              g_commit_lease_until := None\<rparr>) s = (s', g)"
    unfolding restore_approval_after_window_block_def Let_def
    by (auto simp: bindR_eq_Inr simp del: update_group_result split: if_splits)
  show ?thesis by (rule locked_write_evolves [OF wf lk _ u]) (use N in \<open>auto simp: frame_defs\<close>)
qed

lemma issue_loss_cut_evolves:
  assumes wf: "wf_store s" and N: "n2 \<in> N"
    and ok: "issue_loss_cut_confirmation pid n1 n2 u now ttl s = Inr (s', g)"
  shows "evolves N s s'"
proof -
  from ok obtain grp src where lk: "locked_group pid s = Inr grp"
    and u: "update_group grp (\<lambda>g. g\<lparr>g_source_asof := src, g_approval_nonce := Some n2,
              g_approval_nonce_used_at := None\<rparr>) s = (s', g)"
    unfolding issue_loss_cut_confirmation_def Let_def by (auto simp: bindR_eq_Inr split: if_splits)
  show ?thesis by (rule locked_write_evolves [OF wf lk _ u]) (use N in \<open>auto simp: frame_defs\<close>)
qed

lemma require_open_window_Inr:
  "require_open_window grp (Aware t) = Inr u \<longleftrightarrow> (\<exists>v. g_valid_until grp = Some v \<and> t < v)"
  by (auto simp: require_open_window_def valid_until_block_def column_datetime_def bindR_eq_Inr
      split: option.splits)

lemma mark_nonce_used_Inr:
  assumes "mark_nonce_used grp cb usr t s = Inr (s', g)"
  obtains src where "update_group grp (\<lambda>g. g\<lparr>g_approval_nonce_used_at := Some t, g_source_asof := src\<rparr>) s = (s', g)"
proof (cases "cb_action cb = ''lc''")
  case True
  then show thesis using assms that by (auto simp: mark_nonce_used_def bindR_eq_Inr)
next
  case False
  have "update_group grp (\<lambda>g. g\<lparr>g_approval_nonce_used_at := Some t\<rparr>) s
      = update_group grp (\<lambda>g. g\<lparr>g_approval_nonce_used_at := Some t, g_source_asof := g_source_asof grp\<rparr>) s"
    by (simp add: update_group_def)
  then show thesis using assms that [of "g_source_asof grp"] False by (simp add: mark_nonce_used_def)
qed

lemma consume_published_Inr:
  assumes "consume_published_proposal_callback pid cb now usr s = Inr (s', g)"
  obtains t grp k where "now = Aware t" "locked_group pid s = Inr grp"
    "assert_published_proposal_binding grp cb = Inr k" "require_open_window grp (Aware t) = Inr ()"
    "mark_nonce_used grp cb usr t s = Inr (s', g)"
  using assms by (auto simp: consume_published_proposal_callback_def bindR_eq_Inr)

lemma consume_published_evolves:
  assumes wf: "wf_store s" and ok: "consume_published_proposal_callback pid cb now usr s = Inr (s', g)"
  shows "evolves N s s'"
  using ok
proof (cases rule: consume_published_Inr)
  case (1 t grp k)
  from 1(5) show ?thesis
    by (cases rule: mark_nonce_used_Inr) (rule locked_write_evolves [OF wf 1(2)], simp_all add: frame_defs)
qed

text \<open>The wrappers end in the one consumer.\<close>

lemma consume_approval_nonce_Inr:
  assumes "consume_approval_nonce pid n now s = Inr r"
  obtains grp cb where "locked_group pid s = Inr grp" "current_callback_envelope grp ''op'' n = Inr cb"
    "consume_published_proposal_callback pid cb now None s = Inr r"
  using assms by (auto simp: consume_approval_nonce_def bindR_eq_Inr split: option.splits)

lemma consume_with_action_Inr:
  assumes "consume_with_action a pid n usr now s = Inr r"
  obtains grp cb where "locked_group pid s = Inr grp" "current_callback_envelope grp a n = Inr cb"
    "consume_published_proposal_callback pid cb now usr s = Inr r"
  using assms by (auto simp: consume_with_action_def bindR_eq_Inr split: option.splits)

lemma consume_approval_nonce_evolves:
  "wf_store s \<Longrightarrow> consume_approval_nonce pid n now s = Inr (s', g) \<Longrightarrow> evolves N s s'"
  by (metis consume_approval_nonce_Inr consume_published_evolves)

lemma consume_with_action_evolves:
  "wf_store s \<Longrightarrow> consume_with_action a pid n usr now s = Inr (s', g) \<Longrightarrow> evolves N s s'"
  by (metis consume_with_action_Inr consume_published_evolves)

section \<open>Audit writes and dispatch attempts\<close>

lemma record_approval_evolves:
  assumes wf: "wf_store s" and ok: "record_approval pid u now s = Inr (s', g)"
  shows "evolves N s s'"
proof -
  from ok obtain t grp where lk: "locked_group pid s = Inr grp"
    and w: "update_group grp (\<lambda>g. g\<lparr>g_approved_by_telegram_user_id := Some u,
              g_approved_at := Some t\<rparr>) s = (s', g)"
    by (auto simp: record_approval_def bindR_eq_Inr)
  show ?thesis by (rule locked_write_evolves [OF wf lk _ w]) (simp add: frame_defs)
qed

lemma record_approval_dispatch_evolves:
  assumes wf: "wf_store s" and ok: "record_approval_dispatch pid m c now p s = Inr (s', g)"
  shows "evolves N s s'"
proof -
  from ok obtain t grp where lk: "locked_group pid s = Inr grp"
    and w: "update_group grp (\<lambda>g. g\<lparr>
         g_source_asof := Some (location_fields (Some m) (Some c) t p (or_empty (g_source_asof grp))),
         g_approval_dispatch_state := Some DFailed,
         g_approval_dispatch_attempted_at :=
           (case g_approval_dispatch_attempted_at grp of None \<Rightarrow> Some t | Some x \<Rightarrow> Some x),
         g_approval_dispatch_published_at := None,
         g_approval_dispatch_failure_code := Some ''approval_dispatch_snapshot_missing'',
         g_approval_nonce := None, g_approval_nonce_used_at := None\<rparr>) s = (s', g)"
    by (auto simp: record_approval_dispatch_def bindR_eq_Inr)
  show ?thesis by (rule locked_write_evolves [OF wf lk _ w]) (simp add: frame_defs)
qed

text \<open>The writers that only touch \<open>source_asof\<close>.\<close>

lemma source_write_evolves:
  assumes "wf_store s" and "locked_group pid s = Inr grp"
    and "update_group grp (\<lambda>g. g\<lparr>g_source_asof := src\<rparr>) s = (s', g)"
  shows "evolves N s s'"
  by (rule locked_write_evolves [OF assms(1,2) _ assms(3)]) (simp add: frame_defs)

lemma record_auto_approval_evolves:
  "wf_store s \<Longrightarrow> record_auto_approval pid v el oc now s = Inr (s', g) \<Longrightarrow> evolves N s s'"
  by (auto simp: record_auto_approval_def bindR_eq_Inr intro: source_write_evolves)

lemma record_auto_note_evolves:
  "wf_store s \<Longrightarrow> record_auto_note k n pid s = Inr (s', g) \<Longrightarrow> evolves N s s'"
  by (auto simp: record_auto_note_def bindR_eq_Inr intro: source_write_evolves)

lemma record_auto_veto_evolves:
  "wf_store s \<Longrightarrow> record_auto_veto pid u oc now s = Inr (s', g) \<Longrightarrow> evolves N s s'"
  by (auto simp: record_auto_veto_def bindR_eq_Inr intro: record_auto_note_evolves)

lemma record_auto_notification_failure_evolves:
  "wf_store s \<Longrightarrow> record_auto_notification_failure pid e oc now s = Inr (s', g) \<Longrightarrow> evolves N s s'"
  by (auto simp: record_auto_notification_failure_def bindR_eq_Inr intro: record_auto_note_evolves)

lemma record_approval_dispatch_alert_evolves:
  "wf_store s \<Longrightarrow> record_approval_dispatch_alert pid st a d now s = Inr (s', g) \<Longrightarrow> evolves N s s'"
  unfolding record_approval_dispatch_alert_def
  by (auto simp: bindR_eq_Inr intro: source_write_evolves)

definition same_tables :: "store \<Rightarrow> store \<Rightarrow> bool" where
  "same_tables s s' \<longleftrightarrow>
     db_groups s' = db_groups s \<and> db_rungs s' = db_rungs s \<and>
     db_group_seq s' = db_group_seq s \<and> db_rung_seq s' = db_rung_seq s"

lemma same_tables_evolves: "wf_store s \<Longrightarrow> same_tables s s' \<Longrightarrow> evolves N s s'"
  by (rule attempts_only_evolves) (simp_all add: same_tables_def)

lemma same_tables_put_attempt: "same_tables s (put_attempt a s)"
  by (simp add: same_tables_def put_attempt_def)

lemma same_tables_supersede: "same_tables s (supersede_previous_attempt grp aid s)"
  by (simp add: supersede_previous_attempt_def update_approval_dispatch_attempt_def Let_def
      same_tables_put_attempt same_tables_def put_attempt_def split: option.splits)

lemma same_tables_insert:
  "insert_approval_dispatch_attempt a s = Some (s', x) \<Longrightarrow> same_tables s s'"
  by (auto simp: insert_approval_dispatch_attempt_def same_tables_def Let_def split: if_splits)

lemma same_tables_trans: "same_tables a b \<Longrightarrow> same_tables b c \<Longrightarrow> same_tables a c"
  by (simp add: same_tables_def)

lemma same_tables_update_evolves:
  assumes "wf_store s" and "same_tables s s1" and "grp \<in> set (db_groups s)" and "group_frame N upd"
  shows "evolves N s (fst (update_group grp upd s1))"
proof -
  have e: "evolves N s s1" by (rule same_tables_evolves [OF assms(1,2)])
  have "grp \<in> set (db_groups s1)" using assms(2,3) by (simp add: same_tables_def)
  then show ?thesis
    using e update_group_evolves [OF evolves_wf [OF e] _ assms(4)] evolves_trans by blast
qed

lemma start_approval_dispatch_evolves:
  assumes wf: "wf_store s" and ok: "start_approval_dispatch h pid aid b now pc cc s = Inr (s', a)"
  shows "evolves N s s'"
proof -
  from ok obtain t grp s1 where lk: "locked_group pid s = Inr grp"
    and ins: "insert_approval_dispatch_attempt (new_attempt grp aid b t pc cc)
        (supersede_previous_attempt grp aid s) = Some (s1, a)"
    and s': "s' = fst (update_group grp (\<lambda>g. g\<lparr>
              g_approval_dispatch_state := Some DPending,
              g_approval_dispatch_attempt_id := Some aid,
              g_approval_dispatch_attempted_at := Some t,
              g_approval_dispatch_published_at := None,
              g_approval_dispatch_failure_code := None,
              g_approval_dispatch_payload_chars := Some pc,
              g_approval_dispatch_card_kind := Some (b_card_kind b),
              g_approval_dispatch_membership_revision := Some (b_membership_revision b),
              g_approval_dispatch_membership_digest := Some (b_membership_digest b)\<rparr>) s1)"
    by (auto simp: start_approval_dispatch_def bindR_eq_Inr)
  have st: "same_tables s s1"
    using same_tables_trans [OF same_tables_supersede same_tables_insert [OF ins]] .
  show ?thesis unfolding s'
    by (rule same_tables_update_evolves [OF wf st])
      (use locked_group_Inr [OF lk] in \<open>simp_all add: frame_defs\<close>)
qed

lemma finish_group_frame: "group_frame N (finish_group grp p st f c t ps)"
  by (simp add: frame_defs finish_group_def Let_def)

lemma finish_Inr:
  assumes "finish_approval_dispatch h pid aid p c now ps s = Inr (s', out)"
  obtains t grp a where "now = Aware t" "locked_group pid s = Inr grp"
    "get_approval_dispatch_attempt s aid = Some a" "a_proposal_pk a = g_id grp" "a_state a = DPending"
    "p_card_published p \<Longrightarrow> p_message_id p \<noteq> None \<and> c \<noteq> None"
    "out = from_publication p (fst (publication_outcome (is_current_owner h grp a) grp p))
             (snd (publication_outcome (is_current_owner h grp a) grp p))"
    "s' = (let o1 = publication_outcome (is_current_owner h grp a) grp p;
               s1 = finish_attempt a p (fst o1) (snd o1) t s
           in if is_current_owner h grp a
              then fst (update_group grp (finish_group grp p (fst o1) (snd o1) c t ps) s1) else s1)"
  using assms
  by (auto simp: finish_approval_dispatch_def bindR_eq_Inr Let_def split: if_splits option.splits)

lemma finish_approval_dispatch_evolves:
  assumes wf: "wf_store s" and ok: "finish_approval_dispatch h pid aid p c now ps s = Inr (s', out)"
  shows "evolves N s s'"
  using ok
proof (cases rule: finish_Inr)
  case (1 t grp a)
  have st: "same_tables s (finish_attempt a p x y t s)" for x y
    by (simp add: finish_attempt_def update_approval_dispatch_attempt_def Let_def same_tables_put_attempt)
  have e: "evolves N s (fst (update_group grp (finish_group grp p x y c t ps) (finish_attempt a p x y t s)))" for x y
    by (rule same_tables_update_evolves [OF wf st _ finish_group_frame]) (use locked_group_Inr [OF 1(2)] in simp)
  show ?thesis
    unfolding 1(8) Let_def using e same_tables_evolves [OF wf st] by simp
qed

section \<open>Creation\<close>

lemma insert_group_Some:
  assumes wf: "wf_store s" and ok: "insert_group g s = Some (s', g')"
  shows "wf_store s'" "db_groups s' = db_groups s @ [g']" "db_rungs s' = db_rungs s"
    "g' = g\<lparr>g_id := db_group_seq s, g_created_at := db_now s, g_updated_at := db_now s\<rparr>"
    "\<forall>x \<in> set (db_groups s). g_id x < g_id g'" "\<forall>x \<in> set (db_groups s). g_proposal_id x \<noteq> g_proposal_id g'"
proof -
  from ok have s': "s' = s\<lparr>db_groups := db_groups s @ [g'], db_group_seq := db_group_seq s + 1\<rparr>"
    and g': "g' = g\<lparr>g_id := db_group_seq s, g_created_at := db_now s, g_updated_at := db_now s\<rparr>"
    and fresh: "\<forall>x \<in> set (db_groups s). g_proposal_id x \<noteq> g_proposal_id g"
    by (auto simp: insert_group_def Let_def split: if_splits)
  have lt: "\<forall>x \<in> set (db_groups s). g_id x < db_group_seq s" using wf by (simp add: wf_store_def)
  show "wf_store s'" using wf lt fresh by (auto simp: s' g' wf_store_def)
  show "db_groups s' = db_groups s @ [g']" "db_rungs s' = db_rungs s" by (simp_all add: s')
  show "g' = g\<lparr>g_id := db_group_seq s, g_created_at := db_now s, g_updated_at := db_now s\<rparr>" by (rule g')
  show "\<forall>x \<in> set (db_groups s). g_id x < g_id g'" using lt by (simp add: g')
  show "\<forall>x \<in> set (db_groups s). g_proposal_id x \<noteq> g_proposal_id g'" using fresh by (simp add: g')
qed

lemma insert_rung_Some:
  assumes wf: "wf_store s" and pk: "r_proposal_pk r \<in> g_id ` set (db_groups s)"
    and ok: "insert_rung r s = Some (s', r')"
  shows "wf_store s'" "db_rungs s' = db_rungs s @ [r']" "db_groups s' = db_groups s"
    "r' = r\<lparr>r_id := db_rung_seq s, r_created_at := db_now s, r_updated_at := db_now s\<rparr>"
proof -
  from ok have s': "s' = s\<lparr>db_rungs := db_rungs s @ [r'], db_rung_seq := db_rung_seq s + 1\<rparr>"
    and r': "r' = r\<lparr>r_id := db_rung_seq s, r_created_at := db_now s, r_updated_at := db_now s\<rparr>"
    and fresh: "\<forall>x \<in> set (db_rungs s). \<not> (r_proposal_pk x = r_proposal_pk r \<and> r_rung_index x = r_rung_index r)"
    by (auto simp: insert_rung_def Let_def split: if_splits)
  have lt: "\<forall>x \<in> set (db_rungs s). r_id x < db_rung_seq s" using wf by (simp add: wf_store_def)
  then have "db_rung_seq s \<notin> r_id ` set (db_rungs s)" by auto
  moreover have "(r_proposal_pk r, r_rung_index r) \<notin> (\<lambda>r. (r_proposal_pk r, r_rung_index r)) ` set (db_rungs s)"
    using fresh by auto
  ultimately show "wf_store s'" using wf lt pk by (auto simp: s' r' wf_store_def)
  show "db_rungs s' = db_rungs s @ [r']" "db_groups s' = db_groups s" by (simp_all add: s')
  show "r' = r\<lparr>r_id := db_rung_seq s, r_created_at := db_now s, r_updated_at := db_now s\<rparr>" by (rule r')
qed

lemma create_rung_Inr:
  assumes wf: "wf_store s" and pk: "pk \<in> g_id ` set (db_groups s)" and ok: "create_rung pk r s = Inr s'"
  shows "wf_store s' \<and> db_groups s' = db_groups s \<and>
    (\<exists>x. db_rungs s' = db_rungs s @ [x] \<and> r_proposal_pk x = pk \<and> r_state x = PendingApproval)"
proof -
  from ok obtain r0 r1 where i: "insert_rung r0 s = Some (s', r1)" and r0: "r_proposal_pk r0 = pk" "r_state r0 = PendingApproval"
    by (auto simp: create_rung_def bindR_eq_Inr)
  note ins = insert_rung_Some [OF wf _ i]
  show ?thesis using ins pk r0 by (intro conjI exI [of _ r1]) simp_all
qed

lemma create_rungs_Inr:
  assumes "wf_store s" and "pk \<in> g_id ` set (db_groups s)"
    and "foldR (\<lambda>s' r. create_rung pk r s') s rs = Inr s'"
  shows "wf_store s' \<and> db_groups s' = db_groups s \<and>
    (\<exists>new. db_rungs s' = db_rungs s @ new \<and> length new = length rs \<and>
       (\<forall>x \<in> set new. r_proposal_pk x = pk \<and> r_state x = PendingApproval))"
  using assms
proof (induction rs arbitrary: s)
  case Nil
  then show ?case by simp
next
  case (Cons r rs)
  from Cons.prems(3) obtain s1 where s1: "create_rung pk r s = Inr s1"
    and rest: "foldR (\<lambda>s' r. create_rung pk r s') s1 rs = Inr s'"
    by (auto simp: bindR_eq_Inr)
  obtain x where x: "wf_store s1" "db_groups s1 = db_groups s" "db_rungs s1 = db_rungs s @ [x]"
      "r_proposal_pk x = pk" "r_state x = PendingApproval"
    using create_rung_Inr [OF Cons.prems(1,2) s1] by blast
  obtain new where n: "wf_store s'" "db_groups s' = db_groups s1" "db_rungs s' = db_rungs s1 @ new"
      "length new = length rs" "\<forall>x \<in> set new. r_proposal_pk x = pk \<and> r_state x = PendingApproval"
    using Cons.IH [OF x(1) _ rest] Cons.prems(2) x(2) by auto
  show ?case using x n by (intro conjI exI [of _ "x # new"]) auto
qed

lemma recompute_pending:
  "rs \<noteq> [] \<Longrightarrow> \<forall>r \<in> set rs. r_state r = PendingApproval \<Longrightarrow> recompute_group_state rs = Proposed"
proof -
  assume "rs \<noteq> []" and all: "\<forall>r \<in> set rs. r_state r = PendingApproval"
  then have "set (map r_state rs) = {PendingApproval}" by (cases rs) auto
  then show ?thesis by (simp add: recompute_group_state_def Let_def)
qed

text \<open>A fresh group with pending rungs leaves every other group as it was.\<close>

lemma fresh_proposal_evolves:
  assumes wf: "wf_store s" and ins: "insert_group g0 s = Some (s1, g)"
    and life: "g_lifecycle_state g0 = Proposed" and rs: "rs \<noteq> []"
    and fold: "foldR (\<lambda>s' r. create_rung (g_id g) r s') s1 rs = Inr s2"
  shows "evolves N s s2" and "set (db_groups s) \<subseteq> set (db_groups s2)"
proof -
  note i = insert_group_Some [OF wf ins]
  obtain new where n: "wf_store s2" "db_groups s2 = db_groups s @ [g]" "db_rungs s2 = db_rungs s @ new"
      "length new = length rs" "\<forall>x \<in> set new. r_proposal_pk x = g_id g \<and> r_state x = PendingApproval"
    using create_rungs_Inr [OF i(1) _ fold] i(2,3) by auto
  have "rollup_inv s2" if inv: "rollup_inv s"
    unfolding rollup_inv_def
  proof (intro ballI impI)
    fix x assume x: "x \<in> set (db_groups s2)" and ns: "g_superseded_by_proposal_id x = None"
    show "g_lifecycle_state x = recompute_group_state (list_rungs s2 (g_id x))"
    proof (cases "x = g")
      case True
      have "\<forall>r \<in> set (db_rungs s). r_proposal_pk r \<in> g_id ` set (db_groups s)" using wf by (simp add: wf_store_def)
      then have old: "\<forall>r \<in> set (db_rungs s). r_proposal_pk r \<noteq> g_id g" using i(5) by fastforce
      then have "set (list_rungs s2 (g_id g)) = set new" using n(3,5) by auto
      then have "recompute_group_state (list_rungs s2 (g_id g)) = recompute_group_state new"
        by (rule recompute_set_cong)
      also have "\<dots> = Proposed" using n(4,5) rs by (intro recompute_pending) auto
      finally show ?thesis using True i(4) life by simp
    next
      case False
      then have xs: "x \<in> set (db_groups s)" using x n(2) by auto
      then have "g_id x \<noteq> g_id g" using i(5) by force
      then have "set (list_rungs s2 (g_id x)) = set (list_rungs s (g_id x))" using n(3,5) by auto
      then have "recompute_group_state (list_rungs s2 (g_id x)) = recompute_group_state (list_rungs s (g_id x))"
        by (rule recompute_set_cong)
      then show ?thesis using inv xs ns by (simp add: rollup_inv_def)
    qed
  qed
  then show "evolves N s s2" using n(1,2,3) by (auto simp: evolves_def)
  show "set (db_groups s) \<subseteq> set (db_groups s2)" using n(2) by auto
qed

lemma supersede_step_Inr:
  assumes "supersede_step t s r = Inr s1"
  shows "s1 = s \<or> (\<exists>r1. rung_evolves r r1 \<and> s1 = put_rung r1 s)"
proof (cases "r_state r \<notin> SUPERSEDE_INVALIDATABLE_RUNG_STATES")
  case True
  then show ?thesis using assms by (simp add: supersede_step_def)
next
  case False
  let ?r = "stamp t (r\<lparr>r_updated_at := db_now s, r_state := Superseded\<rparr>)"
  from False assms have "Superseded \<in> ALLOWED (r_state r)" "s1 = put_rung ?r s"
    by (auto simp: supersede_step_def bindR_eq_Inr update_rung_def Let_def)
  then show ?thesis
    by (intro disjI2 exI [of _ ?r])
      (auto simp: rung_evolves_def rung_payload_def rung_edges_def stamp_def)
qed

lemma supersede_loop:
  assumes "wf_store s" and "set rs \<subseteq> set (db_rungs s)" and "\<forall>r \<in> set rs. r_proposal_pk r = k"
    and "distinct (map r_id rs)" and "foldR (supersede_step t) s rs = Inr s'"
  shows "rungs_rewritten k s s'"
  using assms
proof (induction rs arbitrary: s)
  case Nil
  then show ?case by (simp add: rungs_rewritten_refl)
next
  case (Cons r rs)
  from Cons.prems(5) obtain s1 where s1: "supersede_step t s r = Inr s1"
    and rest: "foldR (supersede_step t) s1 rs = Inr s'" by (auto simp: bindR_eq_Inr)
  have rin: "r \<in> set (db_rungs s)" and rk: "r_proposal_pk r = k" using Cons.prems(2,3) by auto
  have rw: "rungs_rewritten k s s1"
    using supersede_step_Inr [OF s1] rungs_rewritten_refl [OF Cons.prems(1)]
      put_rung_rewritten [OF Cons.prems(1) rin] rk by blast
  have sub: "set rs \<subseteq> set (db_rungs s1)"
  proof
    fix x assume x: "x \<in> set rs"
    then have xs: "x \<in> set (db_rungs s)" using Cons.prems(2) by auto
    have ne: "r_id x \<noteq> r_id r" using x Cons.prems(4) by (auto simp: image_iff)
    from supersede_step_Inr [OF s1] show "x \<in> set (db_rungs s1)"
    proof
      assume "s1 = s"
      then show ?thesis using xs by simp
    next
      assume "\<exists>r1. rung_evolves r r1 \<and> s1 = put_rung r1 s"
      then obtain r1 where e: "rung_evolves r r1" "s1 = put_rung r1 s" by blast
      have id: "r_id r1 = r_id r" using e(1) by (simp add: rung_evolves_def rung_payload_def)
      show ?thesis using put_rung_rows [OF Cons.prems(1) rin id] xs ne id e(2) by simp
    qed
  qed
  have "rungs_rewritten k s1 s'"
    using Cons.IH [OF _ sub _ _ rest] rw Cons.prems(3,4) by (simp add: rungs_rewritten_def)
  then show ?case using rw rungs_rewritten_trans by blast
qed

lemma supersede_group_evolves:
  assumes wf: "wf_store s" and grp: "grp \<in> set (db_groups s)" and ok: "supersede_group grp pid t s = Inr s'"
  shows "evolves N s s'"
proof -
  from ok obtain s1 where s1: "foldR (supersede_step t) s (list_rungs s (g_id grp)) = Inr s1"
    and s': "s' = put_group (grp\<lparr>g_updated_at := db_now s1, g_lifecycle_state := GSuperseded,
              g_superseded_by_proposal_id := Some pid, g_approval_nonce_used_at := Some t\<rparr>) s1"
    by (auto simp: supersede_group_def bindR_eq_Inr update_group_def Let_def)
  have rw: "rungs_rewritten (g_id grp) s s1"
    by (rule supersede_loop [OF wf _ _ distinct_list_rungs [OF wf] s1]) auto
  show ?thesis unfolding s'
    by (rule rewritten_rollup_evolves [OF rw grp wf]) (simp_all add: group_evolves_def group_payload_def spent_def)
qed

lemma find_superseded_Inr:
  assumes "find_superseded q s = Inr old"
  shows "(q_supersedes_proposal_id q = None \<and> old = None) \<or>
    (\<exists>p o1. q_supersedes_proposal_id q = Some p \<and> get_group_by_proposal_id s p = Some o1 \<and> old = Some o1)"
proof (cases "q_supersedes_proposal_id q")
  case None
  then show ?thesis using assms by (simp add: find_superseded_def)
next
  case (Some p)
  then show ?thesis
    using assms by (cases "get_group_by_proposal_id s p") (auto simp: find_superseded_def)
qed

lemma create_proposal_Inr:
  assumes "create_proposal hash ri si retros q pid now s = Inr (s', g)"
  obtains t action target vu old where "now = Aware t" "q_rungs q \<noteq> []"
    "validate_action_contract ri si (q_action q) (q_account_mode q) (q_market q) (q_symbol q) (q_side q)
       (q_order_type q) (q_rungs q) (q_target_broker_order_id q) (q_target_order_snapshot q) = Inr (action, target)"
    "resolve_valid_until q t = Inr vu"
    "validate_exit_binding retros (q_symbol q) (q_market q) (q_account_mode q) (q_side q) (q_order_type q)
       (q_exit_intent q) (q_exit_reason q) (q_retrospective_id q) (q_approval_issue_id q) t = Inr ()"
    "find_superseded q s = Inr old"
    "insert_proposal hash q pid action (map_option to_payload target) vu old t s = Inr (s', g)"
  using assms by (auto simp: create_proposal_def bindR_eq_Inr)

lemma insert_proposal_Inr:
  assumes "insert_proposal hash q pid action snapshot vu old t s = Inr (s', g)"
  obtains s1 s2 where
    "insert_group (new_group q pid (case old of None \<Rightarrow> pid | Some o1 \<Rightarrow> g_root_proposal_id o1)
       (hash (payload_content_of q action snapshot)) action vu (merged_source_asof q snapshot)) s = Some (s1, g)"
    "foldR (\<lambda>s' r. create_rung (g_id g) r s') s1 (q_rungs q) = Inr s2"
    "(case old of None \<Rightarrow> Inr s2 | Some o1 \<Rightarrow> supersede_group o1 pid t s2) = Inr s'"
  using assms by (auto simp: insert_proposal_def compute_proposal_payload_hash_def bindR_eq_Inr)

lemma insert_proposal_evolves:
  assumes wf: "wf_store s" and rungs: "q_rungs q \<noteq> []"
    and old: "\<forall>o1. old = Some o1 \<longrightarrow> o1 \<in> set (db_groups s)"
    and ok: "insert_proposal hash q pid action snapshot vu old t s = Inr (s', g)"
  shows "evolves N s s'"
  using ok
proof (cases rule: insert_proposal_Inr)
  case (1 s1 s2)
  have e: "evolves N s s2" and sub: "set (db_groups s) \<subseteq> set (db_groups s2)"
    using fresh_proposal_evolves [OF wf 1(1) _ rungs 1(2)] by (auto simp: new_group_def)
  show ?thesis
  proof (cases old)
    case None
    then show ?thesis using 1(3) e by simp
  next
    case (Some o1)
    then have "o1 \<in> set (db_groups s2)" using old sub by blast
    then have "evolves N s2 s'" using supersede_group_evolves [OF evolves_wf [OF e]] 1(3) Some by simp
    then show ?thesis using e evolves_trans by blast
  qed
qed

lemma create_proposal_evolves:
  assumes wf: "wf_store s" and ok: "create_proposal hash ri si retros q pid now s = Inr (s', g)"
  shows "evolves N s s'"
  using ok
proof (cases rule: create_proposal_Inr)
  case (1 t action target vu old)
  have "\<forall>o1. old = Some o1 \<longrightarrow> o1 \<in> set (db_groups s)"
    using find_superseded_Inr [OF 1(6)] get_group_in by auto
  then show ?thesis by (rule insert_proposal_evolves [OF wf 1(2) _ 1(7)])
qed

end
