(* ===== verification/ProposalHistory.thy ===== *)
theory ProposalHistory
  imports ProposalRuns
begin

text \<open>
  Histories of the proposal service: a command per public operation that writes, executed in
  its own transaction. A raise rolls the transaction back. The theorems hold for every
  history: payloads never change, rung states follow the graph, a group's state is the
  rollup of its rungs, a superseded proposal cannot be approved any more.
\<close>

section \<open>Commands\<close>

text \<open>The audit columns that \<open>transition_rung\<close> takes as keyword arguments.\<close>

datatype audit_field =
    AuditUpdatedAt int | AuditValidatedAt "int option" | AuditVoidReason "string option"
  | AuditFilledQty "rat option" | AuditBrokerOrderId "string option"
  | AuditCorrelationId "string option" | AuditIdempotencyKey "string option"
  | AuditApprovalDigest "string option" | AuditApprovalRevision "int option"

fun set_audit :: "audit_field \<Rightarrow> rung \<Rightarrow> rung" where
  "set_audit (AuditUpdatedAt v) r = r\<lparr>r_updated_at := v\<rparr>"
| "set_audit (AuditValidatedAt v) r = r\<lparr>r_validated_at := v\<rparr>"
| "set_audit (AuditVoidReason v) r = r\<lparr>r_void_reason := v\<rparr>"
| "set_audit (AuditFilledQty v) r = r\<lparr>r_filled_qty := v\<rparr>"
| "set_audit (AuditBrokerOrderId v) r = r\<lparr>r_broker_order_id := v\<rparr>"
| "set_audit (AuditCorrelationId v) r = r\<lparr>r_correlation_id := v\<rparr>"
| "set_audit (AuditIdempotencyKey v) r = r\<lparr>r_idempotency_key := v\<rparr>"
| "set_audit (AuditApprovalDigest v) r = r\<lparr>r_approval_hash_digest := v\<rparr>"
| "set_audit (AuditApprovalRevision v) r = r\<lparr>r_approval_revision := v\<rparr>"

definition set_audits :: "audit_field list \<Rightarrow> rung \<Rightarrow> rung" where
  "set_audits fs r = fold set_audit fs r"

record environment =
  env_hash :: "payload_content \<Rightarrow> string"
  env_digest :: digest_fn
  env_read_iso :: iso_reader
  env_show_iso :: iso_printer

datatype svc_cmd =
    Create proposal_request uuid pydatetime "int \<Rightarrow> retrospective option"
  | Transition uuid int rung_state "audit_field list"
  | ExpireGroup uuid pydatetime
  | ExpireRung uuid int pydatetime
  | ExpireMutable uuid pydatetime
  | SweepExpired pydatetime
  | SweepStale pydatetime "rung \<Rightarrow> string"
  | Void uuid string pydatetime "evidence_lookup option" "toss_ledger_row list"
  | SetNonce uuid string bool
  | ClearNonce uuid "string option"
  | RestoreApproval uuid string bool
  | RestoreRung uuid int pydatetime bool
  | ConsumePublished uuid callback_envelope pydatetime "string option"
  | ConsumeApproval uuid string pydatetime
  | ConsumeVeto uuid string pydatetime
  | IssueLossCut uuid string string string pydatetime int
  | ConsumeLossCut uuid string string pydatetime
  | RecordApproval uuid string pydatetime
  | RecordDispatch uuid int string pydatetime "string option"
  | StartDispatch uuid uuid dispatch_binding pydatetime int int
  | FinishDispatch uuid uuid approval_publication "string option" pydatetime "string option"
  | AutoApproval uuid string "json list" "string list" pydatetime
  | AutoVetoNote uuid string "json list" pydatetime
  | AutoNotificationFailure uuid string "json list" pydatetime
  | DispatchAlert uuid string "string option" string pydatetime
  | CommitLease uuid pydatetime int
  | Ack uuid int string string "string option" "string option" pydatetime
  | Rest uuid int string string "string option" "string option" pydatetime
  | MarkUnverified uuid int string pydatetime "string option" "string option"
  | MarkCancelled uuid int string pydatetime
  | MarkRejected uuid int string pydatetime
  | Reconfirm uuid int pydatetime
  | Fill "string option" "string option" "string option" "rat option" rung_state pydatetime
      "string option" store
  | FillRung int "string option" "string option" "string option" "rat option" rung_state int
      string string string

definition stored :: "('e, 's \<times> 'a) result \<Rightarrow> ('e, 's) result" where
  "stored m = (case m of Inl e \<Rightarrow> Inl e | Inr p \<Rightarrow> Inr (fst p))"

lemma stored_eq [simp]: "stored m = Inr s \<longleftrightarrow> (\<exists>x. m = Inr (s, x))"
  by (auto simp: stored_def split: sum.splits)

fun exec :: "environment \<Rightarrow> svc_cmd \<Rightarrow> store \<Rightarrow> (svc_error, store) result" where
  "exec env (Create q pid now retros) s =
     stored (create_proposal (env_hash env) (env_read_iso env) (env_show_iso env) retros q pid now s)"
| "exec env (Transition pid i new fs) s = stored (transition_rung pid i new (set_audits fs) s)"
| "exec env (ExpireGroup pid now) s = stored (expire_if_needed pid now s)"
| "exec env (ExpireRung pid i now) s = stored (expire_rung_if_needed pid i now s)"
| "exec env (ExpireMutable pid now) s = stored (expire_mutable_rungs_if_needed pid now s)"
| "exec env (SweepExpired now) s = stored (sweep_expired now s)"
| "exec env (SweepStale now ev) s = stored (sweep_local_stale now ev s)"
| "exec env (Void pid why now lookup ledger) s = stored (void_proposal pid why now lookup ledger s)"
| "exec env (SetNonce pid n rq) s = set_approval_nonce pid n rq s"
| "exec env (ClearNonce pid e) s = stored (clear_approval_nonce pid e s)"
| "exec env (RestoreApproval pid n ex) s = stored (restore_approval_after_window_block pid n ex s)"
| "exec env (RestoreRung pid i now ex) s = stored (restore_rung_after_pre_send_block pid i now ex s)"
| "exec env (ConsumePublished pid cb now usr) s =
     stored (consume_published_proposal_callback pid cb now usr s)"
| "exec env (ConsumeApproval pid n now) s = stored (consume_approval_nonce pid n now s)"
| "exec env (ConsumeVeto pid n now) s = stored (consume_auto_veto_nonce pid n now s)"
| "exec env (IssueLossCut pid n1 n2 usr now ttl) s =
     stored (issue_loss_cut_confirmation pid n1 n2 usr now ttl s)"
| "exec env (ConsumeLossCut pid n usr now) s = stored (consume_loss_cut_confirmation pid n usr now s)"
| "exec env (RecordApproval pid usr now) s = stored (record_approval pid usr now s)"
| "exec env (RecordDispatch pid m c now ps) s = stored (record_approval_dispatch pid m c now ps s)"
| "exec env (StartDispatch pid aid b now pc cc) s =
     stored (start_approval_dispatch (env_digest env) pid aid b now pc cc s)"
| "exec env (FinishDispatch pid aid p c now ps) s =
     stored (finish_approval_dispatch (env_digest env) pid aid p c now ps s)"
| "exec env (AutoApproval pid v el oc now) s = stored (record_auto_approval pid v el oc now s)"
| "exec env (AutoVetoNote pid usr oc now) s = stored (record_auto_veto pid usr oc now s)"
| "exec env (AutoNotificationFailure pid e oc now) s =
     stored (record_auto_notification_failure pid e oc now s)"
| "exec env (DispatchAlert pid st a d now) s = stored (record_approval_dispatch_alert pid st a d now s)"
| "exec env (CommitLease pid now n) s = stored (acquire_commit_lease pid now n s)"
| "exec env (Ack pid i bo co ik dg now) s = stored (record_ack pid i bo co ik dg now s)"
| "exec env (Rest pid i bo co ik dg now) s = stored (record_resting pid i bo co ik dg now s)"
| "exec env (MarkUnverified pid i why now co ik) s = stored (record_unverified pid i why now co ik s)"
| "exec env (MarkCancelled pid i bo now) s = stored (record_cancelled pid i bo now s)"
| "exec env (MarkRejected pid i why now) s = stored (record_rejected pid i why now s)"
| "exec env (Reconfirm pid i now) s = stored (mark_needs_reconfirm pid i now s)"
| "exec env (Fill co bo ik q st now mode seen) s =
     stored (record_fill_evidence co bo ik q st now mode seen s)"
| "exec env (FillRung rid co bo ik q st t mode sy mk) s =
     stored (record_fill_evidence_for_rung rid co bo ik q st t mode sy mk s)"

text \<open>One transaction: the store moves on, or the raise leaves it as it was.\<close>

definition commit :: "environment \<Rightarrow> svc_cmd \<times> int \<Rightarrow> store \<Rightarrow> store" where
  "commit env ct s =
     (let s0 = s\<lparr>db_now := max (db_now s) (snd ct)\<rparr> in
      case exec env (fst ct) s0 of Inl _ \<Rightarrow> s0 | Inr s' \<Rightarrow> s')"

definition history :: "environment \<Rightarrow> (svc_cmd \<times> int) list \<Rightarrow> store \<Rightarrow> store" where
  "history env cts s = fold (commit env) cts s"

definition empty_store :: store where
  "empty_store = \<lparr>db_now = 0, db_groups = [], db_rungs = [], db_attempts = [],
     db_group_seq = 1, db_rung_seq = 1, db_attempt_seq = 1\<rparr>"

section \<open>Every history evolves the store\<close>

text \<open>The nonces that a command may make current on a proposal.\<close>

fun issued :: "svc_cmd \<Rightarrow> string set" where
  "issued (SetNonce pid n rq) = {n}"
| "issued (RestoreApproval pid n ex) = (if ex then {} else {n})"
| "issued (IssueLossCut pid n1 n2 usr now ttl) = {n2}"
| "issued _ = {}"

lemma set_audits_frame: "audit_frame (set_audits fs)"
proof -
  have one: "rung_payload (set_audit f r) = rung_payload r \<and> r_state (set_audit f r) = r_state r" for f r
    by (cases f) (simp_all add: rung_payload_def)
  have "rung_payload (fold set_audit fs r) = rung_payload r \<and> r_state (fold set_audit fs r) = r_state r" for r
    by (induction fs arbitrary: r) (simp_all add: one)
  then show ?thesis by (simp add: audit_frame_def set_audits_def)
qed

lemmas op_evolves =
  create_proposal_evolves expire_if_needed_evolves
  expire_rung_if_needed_evolves expire_mutable_rungs_evolves sweep_expired_evolves
  sweep_local_stale_evolves void_proposal_evolves clear_approval_nonce_evolves
  restore_rung_evolves consume_published_evolves consume_approval_nonce_evolves
  record_approval_evolves record_approval_dispatch_evolves start_approval_dispatch_evolves
  finish_approval_dispatch_evolves record_auto_approval_evolves record_auto_veto_evolves
  record_auto_notification_failure_evolves record_approval_dispatch_alert_evolves
  acquire_commit_lease_evolves record_ack_evolves record_resting_evolves
  record_unverified_evolves record_cancelled_evolves record_rejected_evolves
  mark_needs_reconfirm_evolves record_fill_evidence_evolves record_fill_evidence_for_rung_evolves

lemma exec_evolves:
  assumes "wf_store s" and "issued c \<subseteq> N" and "exec env c s = Inr s'"
  shows "evolves N s s'"
proof (cases c)
  case (SetNonce pid n rq)
  then show ?thesis using assms set_approval_nonce_evolves [OF assms(1), of n N] by auto
next
  case (RestoreApproval pid n ex)
  then show ?thesis
    using assms restore_approval_evolves [OF assms(1), of ex n N] by (auto split: if_splits)
next
  case (IssueLossCut pid n1 n2 usr now ttl)
  then show ?thesis using assms issue_loss_cut_evolves [OF assms(1), of n2 N] by auto
qed (use assms(1,3) in \<open>auto intro: op_evolves transition_rung_evolves [OF _ set_audits_frame]
      consume_with_action_evolves simp: consume_auto_veto_nonce_def consume_loss_cut_confirmation_def\<close>)

lemma clock_evolves: "wf_store s \<Longrightarrow> evolves N s (s\<lparr>db_now := t\<rparr>)"
  by (rule attempts_only_evolves) simp_all

lemma commit_evolves:
  assumes wf: "wf_store s" and N: "issued (fst ct) \<subseteq> N"
  shows "evolves N s (commit env ct s)"
proof -
  let ?s = "s\<lparr>db_now := max (db_now s) (snd ct)\<rparr>"
  have e: "evolves N s ?s" by (rule clock_evolves [OF wf])
  show ?thesis
  proof (cases "exec env (fst ct) ?s")
    case (Inl err)
    then show ?thesis using e by (simp add: commit_def)
  next
    case (Inr s')
    then have "evolves N ?s s'" by (rule exec_evolves [OF evolves_wf [OF e] N])
    then show ?thesis using evolves_trans [OF e] Inr by (simp add: commit_def)
  qed
qed

lemma history_evolves:
  assumes "wf_store s" and "\<forall>ct \<in> set cts. issued (fst ct) \<subseteq> N"
  shows "evolves N s (history env cts s)"
  using assms
proof (induction cts arbitrary: s)
  case Nil
  then show ?case by (auto simp: history_def)
next
  case (Cons c cts)
  have e: "evolves N s (commit env c s)" by (rule commit_evolves) (use Cons.prems in auto)
  have "history env (c # cts) s = history env cts (commit env c s)" by (simp add: history_def)
  then show ?case using evolves_trans [OF e Cons.IH [OF evolves_wf [OF e]]] Cons.prems by simp
qed

lemma wf_empty: "wf_store empty_store" "rollup_inv empty_store"
  by (simp_all add: wf_store_def rollup_inv_def empty_store_def)

end
