(* ===== verification/ProposalSamples.thy ===== *)
theory ProposalSamples
  imports ProposalHistory
begin

text \<open>
  A concrete store on which the theorems about the proposal service are instantiated: a live
  proposal with a current approval card, a pending and a resting rung, and a superseded
  proposal whose order still rests at the broker.
\<close>

definition sample_request :: proposal_request where
  "sample_request =
     \<lparr>q_symbol = ''005930'', q_market = ''equity_kr'', q_account_mode = ''kis_live'', q_side = ''buy'',
      q_order_type = ''limit'', q_proposer = ''agent'',
      q_rungs = [\<lparr>ri_rung_index = 0, ri_side = ''buy'', ri_quantity = Dec False 10 0,
                  ri_limit_price = Some (Dec False 70000 0), ri_notional = None\<rparr>],
      q_thesis = None, q_strategy = None, q_rationale = None, q_broker_account_id = None,
      q_lot_context = None, q_valid_until = None, q_exit_intent = None, q_exit_reason = None,
      q_retrospective_id = None, q_approval_issue_id = None, q_correlation_id = None,
      q_source_asof = None, q_supersedes_proposal_id = None, q_action = None,
      q_target_broker_order_id = None, q_target_order_snapshot = None\<rparr>"

definition sample_env :: environment where
  "sample_env =
     \<lparr>env_hash = (\<lambda>_. ''hash''), env_digest = (\<lambda>(k, n, ms). ''digest'' @ show_int n),
      env_read_iso = (\<lambda>_. Some (Aware 0)), env_show_iso = (\<lambda>_. ''1970-01-01T00:00:00+00:00'')\<rparr>"

definition sample_group :: order_proposal where
  "sample_group =
     (new_group sample_request ''p0000001'' ''p0000001'' ''hash'' ''place'' (hours 10) [])
       \<lparr>g_id := 1, g_lifecycle_state := PartiallySubmitted,
        g_approval_nonce := Some ''n1'', g_approval_dispatch_state := Some SentCurrent,
        g_approval_dispatch_attempt_id := Some ''a1'', g_approval_dispatch_card_kind := Some Manual,
        g_approval_dispatch_membership_revision := Some 1,
        g_approval_dispatch_membership_digest := Some ''digest1''\<rparr>"

definition old_group :: order_proposal where
  "old_group =
     (new_group sample_request ''p0000002'' ''p0000002'' ''hash'' ''place'' (hours 10) [])
       \<lparr>g_id := 2, g_lifecycle_state := GSuperseded,
        g_superseded_by_proposal_id := Some ''p0000001'', g_approval_nonce := Some ''n2'',
        g_approval_nonce_used_at := Some 5\<rparr>"

definition sample_rung :: "int \<Rightarrow> int \<Rightarrow> int \<Rightarrow> rung_state \<Rightarrow> string option \<Rightarrow> rung" where
  "sample_rung i pk index state broker_order_id =
     \<lparr>r_id = i, r_proposal_pk = pk, r_rung_index = index, r_side = ''buy'', r_quantity = 10,
      r_limit_price = Some 70000, r_notional = None, r_state = state, r_approval_hash_digest = None,
      r_approval_revision = None, r_idempotency_key = None, r_broker_order_id = broker_order_id,
      r_correlation_id = None, r_validated_at = None, r_filled_qty = None, r_void_reason = None,
      r_created_at = 0, r_updated_at = 0\<rparr>"

definition sample_store :: store where
  "sample_store =
     \<lparr>db_now = 10, db_groups = [sample_group, old_group],
      db_rungs = [sample_rung 1 1 0 PendingApproval None, sample_rung 2 1 1 Resting (Some ''b1''),
                  sample_rung 3 2 0 Resting (Some ''b2'')],
      db_attempts = [], db_group_seq = 3, db_rung_seq = 4, db_attempt_seq = 1\<rparr>"

definition sample_callback :: callback_envelope where
  "sample_callback =
     \<lparr>cb_action = ''op'', cb_subject_short = ''p0000001'', cb_attempt_id = ''a1'',
      cb_membership_revision = 1, cb_membership_digest = ''digest1'', cb_nonce = ''n1''\<rparr>"

lemma wf_sample: "wf_store sample_store"
  by (simp add: wf_store_def sample_store_def sample_group_def old_group_def new_group_def sample_rung_def)

section \<open>Rungs in every history\<close>

lemma rung_edges_rtrancl_broker:
  "(a, b) \<in> rung_edges\<^sup>* \<Longrightarrow> a \<in> BROKER_OPEN \<or> is_terminal a \<Longrightarrow> b \<in> BROKER_OPEN \<or> is_terminal b"
proof (induction rule: rtrancl_induct)
  case base
  then show ?case by simp
next
  case (step y z)
  then show ?case using from_BROKER_OPEN terminal_no_exit by (auto simp: rung_edges_def)
qed

lemma rung_edges_rtrancl_terminal: "(a, b) \<in> rung_edges\<^sup>* \<Longrightarrow> is_terminal a \<Longrightarrow> b = a"
  by (erule converse_rtranclE) (auto simp: rung_edges_def dest: terminal_no_exit)

text \<open>
  C22: whatever commands are executed, in whatever order and with whatever errors, no rung is
  ever lost and its order (side, quantity, prices) never changes; its state moves along the
  graph only, a terminal state is final, and an order that the broker may hold never becomes
  submittable again.
\<close>

theorem history_keeps_rungs:
  assumes "wf_store s" and "r \<in> set (db_rungs s)"
  shows "\<exists>r' \<in> set (db_rungs (history env cts s)).
    r_id r' = r_id r \<and> r_proposal_pk r' = r_proposal_pk r \<and> r_side r' = r_side r \<and>
    r_quantity r' = r_quantity r \<and> r_limit_price r' = r_limit_price r \<and>
    (r_state r, r_state r') \<in> {(a, b). b \<in> ALLOWED a}\<^sup>* \<and>
    (is_terminal (r_state r) \<longrightarrow> r_state r' = r_state r) \<and>
    (r_state r \<in> BROKER_OPEN \<longrightarrow> r_state r' \<notin> PRE_BROKER)"
proof -
  have "evolves UNIV s (history env cts s)" by (rule history_evolves [OF assms(1)]) simp
  then obtain r' where r': "r' \<in> set (db_rungs (history env cts s))" "rung_evolves r r'"
    using assms(2) by (auto simp: evolves_def)
  have edges: "(r_state r, r_state r') \<in> rung_edges\<^sup>*" using r'(2) by (simp add: rung_evolves_def)
  have "r_state r' \<notin> PRE_BROKER" if "r_state r \<in> BROKER_OPEN"
    using rung_edges_rtrancl_broker [OF edges] that by (auto simp: BROKER_OPEN_def PRE_BROKER_def)
  then show ?thesis
    using r' edges rung_edges_rtrancl_terminal [OF edges]
    by (intro bexI [OF _ r'(1)]) (auto simp: rung_evolves_def rung_payload_def rung_edges_def)
qed

theorem history_keeps_rungs_witness:
  "\<exists>r' \<in> set (db_rungs (history sample_env
        [(Fill None (Some ''b1'') None (Some 10) Filled (Aware 20) None sample_store, 20),
         (ExpireGroup ''p0000001'' (Aware (hours 11)), 30)] sample_store)).
     r_id r' = 2 \<and> r_quantity r' = 10 \<and> r_state r' \<notin> PRE_BROKER"
  using history_keeps_rungs [OF wf_sample, of "sample_rung 2 1 1 Resting (Some ''b1'')" sample_env
    "[(Fill None (Some ''b1'') None (Some 10) Filled (Aware 20) None sample_store, 20),
      (ExpireGroup ''p0000001'' (Aware (hours 11)), 30)]"]
  by (auto simp: sample_store_def sample_rung_def BROKER_OPEN_def)

section \<open>The rollup in every history\<close>

text \<open>
  C23: starting from an empty database, after any history, the state of every proposal that
  was not superseded is the rollup of the states of its rungs: no operation forgets to
  recompute it.
\<close>

theorem group_state_is_rollup:
  assumes "g \<in> set (db_groups (history env cts empty_store))"
    and "g_superseded_by_proposal_id g = None"
  shows "g_lifecycle_state g =
    recompute_group_state (list_rungs (history env cts empty_store) (g_id g))"
proof -
  have "evolves UNIV empty_store (history env cts empty_store)"
    by (rule history_evolves) (simp_all add: wf_empty)
  then show ?thesis using assms wf_empty by (simp add: evolves_def rollup_inv_def)
qed

definition sample_history :: "(svc_cmd \<times> int) list" where
  "sample_history =
     [(Create sample_request ''p0000009'' (Aware 100) (\<lambda>_. None), 100),
      (Transition ''p0000009'' 0 Revalidating [], 110),
      (Transition ''p0000009'' 0 Approved [AuditApprovalRevision (Some 1)], 120)]"

lemma sample_history_rows:
  "map (\<lambda>g. (g_id g, g_lifecycle_state g, g_superseded_by_proposal_id g))
     (db_groups (history sample_env sample_history empty_store)) = [(1, GApproved, None)]"
  by code_simp

theorem group_state_is_rollup_witness:
  "\<exists>g :: order_proposal. recompute_group_state (list_rungs (history sample_env sample_history empty_store) (g_id g)) = GApproved"
proof -
  obtain g where g: "db_groups (history sample_env sample_history empty_store) = [g]"
    "g_lifecycle_state g = GApproved" "g_superseded_by_proposal_id g = None"
    using sample_history_rows by auto
  have "g \<in> set (db_groups (history sample_env sample_history empty_store))" unfolding g(1) by simp
  note rollup = group_state_is_rollup [OF this g(3)]
  show ?thesis by (rule exI [of _ g]) (metis rollup g(2))
qed

end
