(* ===== verification/ApprovalSafety.thy ===== *)
theory ApprovalSafety
  imports ProposalSamples
begin

text \<open>
  The safety of the approval path: what a consumed click has passed, single use of a nonce
  over whole histories, supersession as a one-way door, the owner fence of the dispatch
  attempts, the two-step loss-cut confirmation.
\<close>

section \<open>Reading a proposal after a history\<close>

lemma get_group_unique:
  assumes "wf_store s" and "g \<in> set (db_groups s)"
  shows "get_group_by_proposal_id s (g_proposal_id g) = Some g"
  using find_unique [of g_proposal_id "db_groups s" g] assms
  by (simp add: get_group_by_proposal_id_def wf_store_def)

lemma history_group:
  assumes wf: "wf_store s" and g: "get_group_by_proposal_id s pid = Some g"
    and N: "\<forall>ct \<in> set cts. issued (fst ct) \<subseteq> N"
  obtains g' where "get_group_by_proposal_id (history env cts s) pid = Some g'" "group_evolves N g g'"
proof -
  note gi = get_group_in [OF g]
  have e: "evolves N s (history env cts s)" by (rule history_evolves [OF wf N])
  then obtain g' where g': "g' \<in> set (db_groups (history env cts s))" "group_evolves N g g'"
    using gi by (auto simp: evolves_def)
  have "g_proposal_id g' = pid" using g'(2) gi by (simp add: group_evolves_def group_payload_def)
  then show thesis using get_group_unique [OF evolves_wf [OF e] g'(1)] g'(2) that by simp
qed

section \<open>What a successful click has passed\<close>

lemma callback_block_None:
  "proposal_callback_block_reason grp n = None \<Longrightarrow> proposal_approval_block_reason grp = None"
  by (auto simp: proposal_callback_block_reason_def Let_def split: if_splits)

lemma gate_open_current: "gate_open (gate_snapshot grp state) cb \<Longrightarrow> state = SentCurrent"
  by (simp add: gate_open_def gate_snapshot_def approvable_def)

lemma assert_binding_Inr:
  assumes "assert_published_proposal_binding grp cb = Inr k"
  shows "proposal_approval_block_reason grp = None" "g_approval_dispatch_state grp = Some SentCurrent"
    "gate_open (gate_snapshot grp SentCurrent) cb" "g_approval_dispatch_card_kind grp = Some k"
    "k = AutoVeto \<longleftrightarrow> auto_approved grp"
proof -
  have b: "proposal_callback_block_reason grp (cb_nonce cb) = None"
    using assms by (auto simp: assert_published_proposal_binding_def split: option.splits)
  then show "proposal_approval_block_reason grp = None" by (rule callback_block_None)
  from b assms obtain state where st: "g_approval_dispatch_state grp = Some state"
    and gate: "assert_callback_gate (gate_snapshot grp state) cb = Inr ()"
    and k: "g_approval_dispatch_card_kind grp = Some k" "k = AutoVeto \<longleftrightarrow> auto_approved grp"
    by (auto simp: assert_published_proposal_binding_def bindR_eq_Inr split: if_splits)
  then have go: "gate_open (gate_snapshot grp state) cb" by (simp add: assert_callback_gate_iff)
  then have "state = SentCurrent" by (rule gate_open_current)
  then show "g_approval_dispatch_state grp = Some SentCurrent"
    "gate_open (gate_snapshot grp SentCurrent) cb" using st go by simp_all
  show "g_approval_dispatch_card_kind grp = Some k" "k = AutoVeto \<longleftrightarrow> auto_approved grp" by (rule k)+
qed

text \<open>What an accepted click has checked under the row lock, and its write.\<close>

lemma consumed_write:
  assumes "consume_published_proposal_callback pid cb now usr s = Inr (s', g')"
  obtains grp t k where "now = Aware t" "get_group_by_proposal_id s pid = Some grp"
    "assert_published_proposal_binding grp cb = Inr k" "require_open_window grp (Aware t) = Inr ()"
    "s' = put_group g' s"
    "g' = grp\<lparr>g_updated_at := db_now s, g_approval_nonce_used_at := Some t, g_source_asof := g_source_asof g'\<rparr>"
  using assms
proof (cases rule: consume_published_Inr)
  case (1 t grp k)
  from 1(5) obtain src where
    "update_group grp (\<lambda>g. g\<lparr>g_approval_nonce_used_at := Some t, g_source_asof := src\<rparr>) s = (s', g')"
    by (rule mark_nonce_used_Inr)
  then have "s' = put_group g' s"
    and "g' = grp\<lparr>g_updated_at := db_now s, g_approval_nonce_used_at := Some t, g_source_asof := src\<rparr>"
    by (auto simp: update_group_def Let_def)
  then show thesis using that [of t grp k] 1 by (simp add: locked_group_def)
qed

text \<open>
  C12: a click is consumed only when it passed every check: the proposal exists and is neither
  superseded nor terminal, its current card was published and the callback names exactly
  that card, its nonce, revision and digest with an action of the card's kind, the nonce was
  not used, the click came before \<open>valid_until\<close>, and an auto-veto card belongs to an
  auto-approved proposal and no other. The write marks the nonce used and touches no other
  row and no other column but the loss-cut note.
\<close>

theorem consumed_click_passed_every_check:
  assumes "consume_published_proposal_callback pid cb now usr s = Inr (s', g')"
  shows "\<exists>grp t v k. get_group_by_proposal_id s pid = Some grp \<and> now = Aware t \<and>
    g_valid_until grp = Some v \<and> t < v \<and> proposal_approval_block_reason grp = None \<and>
    gate_open (gate_snapshot grp SentCurrent) cb \<and>
    g_approval_dispatch_state grp = Some SentCurrent \<and>
    g_approval_dispatch_card_kind grp = Some k \<and> (k = AutoVeto \<longleftrightarrow> auto_approved grp) \<and>
    s' = put_group g' s \<and>
    g' = grp\<lparr>g_updated_at := db_now s, g_approval_nonce_used_at := Some t,
             g_source_asof := g_source_asof g'\<rparr>"
  using assms
proof (cases rule: consumed_write)
  case (1 grp t k)
  obtain v where v: "g_valid_until grp = Some v" "t < v" using 1(4) by (auto simp: require_open_window_Inr)
  then show ?thesis using 1(1,2,5,6) assert_binding_Inr [OF 1(3)]
    by (intro exI [of _ grp] exI [of _ t] exI [of _ v] exI [of _ k]) blast
qed

theorem consumed_click_passed_every_check_witness:
  "\<exists>s' g' grp t v k. consume_published_proposal_callback ''p0000001'' sample_callback (Aware 20) None
      sample_store = Inr (s', g') \<and>
    get_group_by_proposal_id sample_store ''p0000001'' = Some grp \<and> g_valid_until grp = Some v \<and> t < v \<and>
    gate_open (gate_snapshot grp SentCurrent) sample_callback \<and>
    g_approval_dispatch_card_kind grp = Some k \<and> (k = AutoVeto \<longleftrightarrow> auto_approved grp)"
proof -
  have "is_ok (consume_published_proposal_callback ''p0000001'' sample_callback (Aware 20) None sample_store)"
    by code_simp
  then obtain s' g' where
    c: "consume_published_proposal_callback ''p0000001'' sample_callback (Aware 20) None sample_store = Inr (s', g')"
    by (auto simp: is_ok_iff)
  then show ?thesis using consumed_click_passed_every_check [OF c] by blast
qed

section \<open>A nonce is consumed at most once\<close>

lemma put_group_read:
  assumes "wf_store s" and "get_group_by_proposal_id s pid = Some g0" and "group_payload g = group_payload g0"
  shows "get_group_by_proposal_id (put_group g s) pid = Some g" and "wf_store (put_group g s)"
proof -
  note gi = get_group_in [OF assms(2)]
  show w: "wf_store (put_group g s)" by (rule wf_put_group [OF assms(1)]) (use gi assms(3) in auto)
  have "g \<in> set (db_groups (put_group g s))"
    using put_group_rows [OF assms(1) _ assms(3)] gi by simp
  then show "get_group_by_proposal_id (put_group g s) pid = Some g"
    using get_group_unique [OF w] gi assms(3) by (metis group_payload_def prod.inject)
qed

text \<open>
  C13: once a click with a nonce has been consumed, no later click with this nonce on the
  proposal succeeds, whatever the history in between, as long as the nonce is not issued
  again.
\<close>

theorem nonce_is_consumed_at_most_once:
  assumes "wf_store s" and "consume_published_proposal_callback pid cb now usr s = Inr (s1, g1)"
    and "\<forall>ct \<in> set cts. cb_nonce cb \<notin> issued (fst ct)" and "cb_nonce cb2 = cb_nonce cb"
  shows "\<not> is_ok (consume_published_proposal_callback pid cb2 now2 usr2 (history env cts s1))"
proof -
  from assms(2) obtain grp t where grp: "get_group_by_proposal_id s pid = Some grp" and s1: "s1 = put_group g1 s"
    and g1: "g1 = grp\<lparr>g_updated_at := db_now s, g_approval_nonce_used_at := Some t,
             g_source_asof := g_source_asof g1\<rparr>"
    by (rule consumed_write)
  have pay: "group_payload g1 = group_payload grp"
    by (subst g1) (simp add: group_payload_def)
  have used: "g_approval_nonce_used_at g1 = Some t" by (subst g1) simp
  note rd = put_group_read [OF assms(1) grp pay, folded s1]
  have N: "\<forall>ct \<in> set cts. issued (fst ct) \<subseteq> - {cb_nonce cb}" using assms(3) by auto
  obtain g2 where g2: "get_group_by_proposal_id (history env cts s1) pid = Some g2"
    "group_evolves (- {cb_nonce cb}) g1 g2"
    using history_group [OF rd(2,1) N] by blast
  have "spent (cb_nonce cb) g1" using used by (simp add: spent_def)
  then have sp: "spent (cb_nonce cb2) g2" using g2(2) assms(4) by (simp add: group_evolves_def)
  show ?thesis
  proof
    assume "is_ok (consume_published_proposal_callback pid cb2 now2 usr2 (history env cts s1))"
    then obtain s3 g3 where "consume_published_proposal_callback pid cb2 now2 usr2 (history env cts s1) = Inr (s3, g3)"
      by (auto simp: is_ok_iff)
    then have "gate_open (gate_snapshot g2 SentCurrent) cb2"
      by (rule consumed_write) (use g2(1) assert_binding_Inr(3) in auto)
    then show False using sp by (simp add: gate_open_def gate_snapshot_def spent_def)
  qed
qed

theorem nonce_is_consumed_at_most_once_witness:
  "\<exists>s1 g1. consume_published_proposal_callback ''p0000001'' sample_callback (Aware 20) None sample_store = Inr (s1, g1) \<and>
     \<not> is_ok (consume_published_proposal_callback ''p0000001'' sample_callback (Aware 40) None
        (history sample_env [(CommitLease ''p0000001'' (Aware 30) 60, 30)] s1))"
proof -
  have "is_ok (consume_published_proposal_callback ''p0000001'' sample_callback (Aware 20) None sample_store)"
    by code_simp
  then obtain s1 g1 where
    c: "consume_published_proposal_callback ''p0000001'' sample_callback (Aware 20) None sample_store = Inr (s1, g1)"
    by (auto simp: is_ok_iff)
  then show ?thesis
    using nonce_is_consumed_at_most_once [OF wf_sample c, of "[(CommitLease ''p0000001'' (Aware 30) 60, 30)]"] by auto
qed

section \<open>A superseded proposal\<close>

text \<open>
  once superseded, a proposal stays superseded through every history, its payload stays
  what it was, no nonce can be staged on it and no click on it is ever consumed.
\<close>

theorem superseded_is_never_approvable:
  assumes "wf_store s" and "get_group_by_proposal_id s pid = Some g"
    and "g_superseded_by_proposal_id g \<noteq> None"
  shows "(\<exists>g'. get_group_by_proposal_id (history env cts s) pid = Some g' \<and>
      g_superseded_by_proposal_id g' \<noteq> None \<and> g_payload_hash g' = g_payload_hash g) \<and>
    \<not> is_ok (set_approval_nonce pid n rq (history env cts s)) \<and>
    \<not> is_ok (consume_published_proposal_callback pid cb now usr (history env cts s))"
proof -
  let ?s = "history env cts s"
  obtain g' where g': "get_group_by_proposal_id ?s pid = Some g'" "group_evolves UNIV g g'"
    using history_group [OF assms(1,2), of cts UNIV] by auto
  have sup: "g_superseded_by_proposal_id g' \<noteq> None" and pay: "group_payload g' = group_payload g"
    using g'(2) assms(3) by (auto simp: group_evolves_def)
  have blk: "proposal_approval_block_reason g' \<noteq> None" using sup by (simp add: proposal_approval_block_reason_def)
  have "\<not> is_ok (set_approval_nonce pid n rq ?s)"
    using blk g'(1) by (auto simp: set_approval_nonce_def locked_group_def is_ok_iff)
  moreover have "\<not> is_ok (consume_published_proposal_callback pid cb now usr ?s)"
  proof
    assume "is_ok (consume_published_proposal_callback pid cb now usr ?s)"
    then obtain s3 g3 where "consume_published_proposal_callback pid cb now usr ?s = Inr (s3, g3)"
      by (auto simp: is_ok_iff)
    then show False by (rule consumed_write) (use g'(1) blk assert_binding_Inr(1) in auto)
  qed
  moreover have "g_payload_hash g' = g_payload_hash g" using pay by (simp add: group_payload_def)
  ultimately show ?thesis using g'(1) sup by blast
qed

theorem superseded_is_never_approvable_witness:
  "\<not> is_ok (set_approval_nonce ''p0000002'' ''n3'' False
      (history sample_env [(RestoreApproval ''p0000002'' ''n2'' False, 20)] sample_store))"
proof -
  have g: "get_group_by_proposal_id sample_store ''p0000002'' = Some old_group"
    by (simp add: get_group_by_proposal_id_def sample_store_def sample_group_def old_group_def new_group_def)
  have "g_superseded_by_proposal_id old_group \<noteq> None" by (simp add: old_group_def)
  then show ?thesis using superseded_is_never_approvable [OF wf_sample g] by blast
qed

section \<open>The owner fence of the dispatch attempts\<close>

lemma finish_attempt_frames [simp]:
  "db_groups (finish_attempt a p st f t s) = db_groups s" "db_rungs (finish_attempt a p st f t s) = db_rungs s"
  "db_now (finish_attempt a p st f t s) = db_now s"
  by (simp_all add: finish_attempt_def update_approval_dispatch_attempt_def Let_def)

lemma publication_outcome_cases:
  "fst (publication_outcome True grp p) = SentCurrent \<longleftrightarrow> p_card_published p \<and> truthy (g_approval_nonce grp)"
  "fst (publication_outcome False grp p) = (if p_card_published p then SentSuperseded else FailedSuperseded)"
  by (auto simp: publication_outcome_def Let_def)

text \<open>
  C24: a dispatch becomes approvable exactly when its attempt still owns the proposal (it is
  the current, pending attempt, of the recorded kind, revision and digest), the card was
  published and a nonce is staged. A late finish of an attempt that lost the proposal
  reports itself superseded and writes nothing on any proposal or rung; a finish that failed
  leaves no nonce behind.
\<close>

theorem dispatch_is_fenced_by_its_owner:
  assumes "finish_approval_dispatch h pid aid p c now ps s = Inr (s', out)"
  shows "\<exists>grp a. get_group_by_proposal_id s pid = Some grp \<and>
    get_approval_dispatch_attempt s aid = Some a \<and> a_proposal_pk a = g_id grp \<and> a_state a = DPending \<and>
    (dispatch_approvable out \<longleftrightarrow>
       is_current_owner h grp a \<and> p_card_published p \<and> truthy (g_approval_nonce grp)) \<and>
    (\<not> is_current_owner h grp a \<longrightarrow>
       db_groups s' = db_groups s \<and> d_state out \<in> {SentSuperseded, FailedSuperseded}) \<and>
    (is_current_owner h grp a \<and> \<not> dispatch_approvable out \<longrightarrow>
       (\<exists>g' \<in> set (db_groups s'). g_id g' = g_id grp \<and> g_approval_nonce g' = None)) \<and>
    db_rungs s' = db_rungs s"
  using assms
proof (cases rule: finish_Inr)
  case (1 t grp a)
  let ?o = "is_current_owner h grp a"
  have grp: "get_group_by_proposal_id s pid = Some grp" "grp \<in> set (db_groups s)"
    using 1(2) get_group_in by (auto simp: locked_group_def)
  have out: "dispatch_approvable out \<longleftrightarrow> ?o \<and> p_card_published p \<and> truthy (g_approval_nonce grp)"
    using publication_outcome_cases [of grp p] by (cases ?o) (simp_all add: 1(7) dispatch_approvable_def approvable_def)
  have not_owner: "db_groups s' = db_groups s \<and> d_state out \<in> {SentSuperseded, FailedSuperseded}" if "\<not> ?o"
    using that publication_outcome_cases(2) [of grp p] by (simp add: 1(7,8) Let_def)
  have failed: "\<exists>g' \<in> set (db_groups s'). g_id g' = g_id grp \<and> g_approval_nonce g' = None"
    if o: "?o" and f: "\<not> dispatch_approvable out"
  proof -
    let ?o1 = "publication_outcome True grp p"
    let ?g = "finish_group grp p (fst ?o1) (snd ?o1) c t ps (grp\<lparr>g_updated_at := db_now s\<rparr>)"
    have st: "fst ?o1 \<noteq> SentCurrent"
      using f o by (simp add: 1(7) dispatch_approvable_def approvable_def)
    have id: "g_id ?g = g_id grp" by (simp add: finish_group_def Let_def)
    have "?g \<in> set (write_row g_id ?g (db_groups s))"
      using grp(2) id by (auto simp: write_row_def image_iff)
    then have "?g \<in> set (db_groups s')"
      using o by (simp add: 1(8) Let_def update_group_def groups.rows_put)
    moreover have "g_approval_nonce ?g = None" using st by (simp add: finish_group_def Let_def)
    ultimately show ?thesis using id by blast
  qed
  have "db_rungs s' = db_rungs s" by (simp add: 1(8) Let_def update_group_def)
  then show ?thesis
    using grp(1) 1(3,4,5) out not_owner failed by (intro exI [of _ grp] exI [of _ a]) blast
qed

definition sample_receipt :: approval_publication where
  "sample_receipt = \<lparr>p_card_published = True, p_partial = False, p_message_id = Some 7,
     p_status_code = Some 200, p_error_code = None, p_error_classification = None,
     p_payload_chars = 100, p_failure_code = None\<rparr>"

definition sample_binding :: "uuid \<Rightarrow> int \<Rightarrow> dispatch_binding" where
  "sample_binding aid n =
     \<lparr>b_attempt_id = aid, b_card_kind = Manual, b_membership_revision = n,
      b_membership_digest = ''digest'' @ show_int n\<rparr>"

text \<open>Two sends of the card in flight: the store after the second one started.\<close>

definition two_sends :: store where
  "two_sends = history sample_env
     [(StartDispatch ''p0000001'' ''a2'' (sample_binding ''a2'' 2) (Aware 20) 100 0, 20),
      (StartDispatch ''p0000001'' ''a3'' (sample_binding ''a3'' 3) (Aware 30) 100 0, 30)] sample_store"

theorem dispatch_is_fenced_by_its_owner_witness:
  "\<exists>s' out. finish_approval_dispatch (env_digest sample_env) ''p0000001'' ''a2'' sample_receipt (Some ''chat'')
      (Aware 40) None two_sends = Inr (s', out) \<and> \<not> dispatch_approvable out \<and>
      (\<exists>grp a. (\<not> is_current_owner (env_digest sample_env) grp a \<longrightarrow> db_groups s' = db_groups two_sends))"
proof -
  have "(case finish_approval_dispatch (env_digest sample_env) ''p0000001'' ''a2'' sample_receipt (Some ''chat'')
      (Aware 40) None two_sends of Inr r \<Rightarrow> \<not> dispatch_approvable (snd r) | _ \<Rightarrow> False)"
    by code_simp
  then obtain s' out where
    f: "finish_approval_dispatch (env_digest sample_env) ''p0000001'' ''a2'' sample_receipt (Some ''chat'')
      (Aware 40) None two_sends = Inr (s', out)" and na: "\<not> dispatch_approvable out"
    by (auto split: sum.splits)
  then show ?thesis using dispatch_is_fenced_by_its_owner [OF f] by blast
qed

section \<open>A published card can be clicked\<close>

lemma start_Inr:
  assumes "start_approval_dispatch h pid aid b now pc cc s = Inr (s', a)"
  obtains t grp s1 where "now = Aware t" "locked_group pid s = Inr grp" "b_attempt_id b = aid"
    "b_card_kind b \<noteq> Batch"
    "b_membership_digest b = build_membership_digest h (b_card_kind b) (b_membership_revision b)
       [(g_proposal_id grp, g_approval_nonce grp)]"
    "insert_approval_dispatch_attempt (new_attempt grp aid b t pc cc) (supersede_previous_attempt grp aid s)
       = Some (s1, a)"
    "s' = fst (update_group grp (\<lambda>g. g\<lparr>
              g_approval_dispatch_state := Some DPending,
              g_approval_dispatch_attempt_id := Some aid,
              g_approval_dispatch_attempted_at := Some t,
              g_approval_dispatch_published_at := None,
              g_approval_dispatch_failure_code := None,
              g_approval_dispatch_payload_chars := Some pc,
              g_approval_dispatch_card_kind := Some (b_card_kind b),
              g_approval_dispatch_membership_revision := Some (b_membership_revision b),
              g_approval_dispatch_membership_digest := Some (b_membership_digest b)\<rparr>) s1)"
  using assms by (auto simp: start_approval_dispatch_def bindR_eq_Inr)

lemma insert_attempt_Some:
  assumes "insert_approval_dispatch_attempt a s = Some (s', a')"
  shows "get_approval_dispatch_attempt s' (a_attempt_id a) = Some a'"
    and "a' = a\<lparr>a_id := db_attempt_seq s, a_created_at := db_now s, a_updated_at := db_now s\<rparr>"
    and "db_groups s' = db_groups s"
proof -
  have app: "find P (xs @ ys) = (case find P xs of None \<Rightarrow> find P ys | Some x \<Rightarrow> Some x)" for P and xs ys :: "dispatch_attempt list"
    by (induction xs) auto
  from assms have none: "\<forall>x \<in> set (db_attempts s). a_attempt_id x \<noteq> a_attempt_id a"
    and a': "a' = a\<lparr>a_id := db_attempt_seq s, a_created_at := db_now s, a_updated_at := db_now s\<rparr>"
    and s': "s' = s\<lparr>db_attempts := db_attempts s @ [a'], db_attempt_seq := db_attempt_seq s + 1\<rparr>"
    by (auto simp: insert_approval_dispatch_attempt_def Let_def split: if_splits)
  have "find (\<lambda>x. a_attempt_id x = a_attempt_id a) (db_attempts s) = None"
    using none by (simp add: find_None_all)
  then show "get_approval_dispatch_attempt s' (a_attempt_id a) = Some a'"
    by (simp add: get_approval_dispatch_attempt_def s' app a')
  show "a' = a\<lparr>a_id := db_attempt_seq s, a_created_at := db_now s, a_updated_at := db_now s\<rparr>" by (rule a')
  show "db_groups s' = db_groups s" by (simp add: s')
qed

text \<open>The store right after a start: the attempt and the group agree on the binding.\<close>

lemma start_makes_owner:
  assumes wf: "wf_store s" and st: "start_approval_dispatch h pid aid b now pc cc s = Inr (s', a)"
    and g0: "get_group_by_proposal_id s pid = Some g0"
  obtains g where "get_group_by_proposal_id s' pid = Some g" "get_approval_dispatch_attempt s' aid = Some a"
    "wf_store s'" "a_proposal_pk a = g_id g" "a_state a = DPending" "is_current_owner h g a"
    "g_approval_nonce g = g_approval_nonce g0" "g_approval_nonce_used_at g = g_approval_nonce_used_at g0"
    "group_payload g = group_payload g0" "g_lifecycle_state g = g_lifecycle_state g0"
    "g_superseded_by_proposal_id g = g_superseded_by_proposal_id g0" "g_source_asof g = g_source_asof g0"
    "g_approval_dispatch_attempt_id g = Some aid" "g_approval_dispatch_card_kind g = Some (b_card_kind b)"
    "g_approval_dispatch_membership_revision g = Some (b_membership_revision b)"
    "g_approval_dispatch_membership_digest g = Some (b_membership_digest b)"
  using st
proof (cases rule: start_Inr)
  case (1 t grp s1)
  have grp: "grp = g0" using 1(2) g0 by (simp add: locked_group_def)
  have same: "same_tables s s1"
    using same_tables_trans [OF same_tables_supersede same_tables_insert [OF 1(6)]] .
  have wf1: "wf_store s1" by (rule evolves_wf [OF same_tables_evolves [OF wf same]])
  have r1: "get_group_by_proposal_id s1 pid = Some g0"
    using same g0 by (simp add: get_group_by_proposal_id_def same_tables_def)
  let ?g = "grp\<lparr>g_updated_at := db_now s1,
              g_approval_dispatch_state := Some DPending,
              g_approval_dispatch_attempt_id := Some aid,
              g_approval_dispatch_attempted_at := Some t,
              g_approval_dispatch_published_at := None,
              g_approval_dispatch_failure_code := None,
              g_approval_dispatch_payload_chars := Some pc,
              g_approval_dispatch_card_kind := Some (b_card_kind b),
              g_approval_dispatch_membership_revision := Some (b_membership_revision b),
              g_approval_dispatch_membership_digest := Some (b_membership_digest b)\<rparr>"
  have s': "s' = put_group ?g s1" by (simp add: 1(7) update_group_def Let_def)
  have pay: "group_payload ?g = group_payload g0" by (simp add: group_payload_def grp)
  note rd = put_group_read [OF wf1 r1 pay, folded s']
  note ins = insert_attempt_Some [OF 1(6)]
  have at: "get_approval_dispatch_attempt s' aid = Some a"
    using ins(1) by (simp add: s' get_approval_dispatch_attempt_def new_attempt_def)
  have a: "a_proposal_pk a = g_id ?g" "a_state a = DPending" "a_attempt_id a = aid"
      "a_card_kind a = b_card_kind b" "a_membership_revision a = b_membership_revision b"
      "a_membership_digest a = b_membership_digest b"
    by (simp_all add: ins(2) new_attempt_def)
  have own: "is_current_owner h ?g a" using a 1(5) by (simp add: is_current_owner_def)
  show thesis by (rule that [OF rd(1) at rd(2) a(1,2) own _ _ pay]) (simp_all add: grp)
qed

lemma assert_binding_ok:
  assumes "proposal_approval_block_reason g = None" and "g_approval_nonce_used_at g = None"
    and "g_approval_dispatch_state g = Some SentCurrent" and "gate_open (gate_snapshot g SentCurrent) cb"
    and "g_approval_dispatch_card_kind g = Some k" and "k = AutoVeto \<longleftrightarrow> auto_approved g"
  shows "assert_published_proposal_binding g cb = Inr k"
proof -
  have "proposal_callback_block_reason g (cb_nonce cb) = None"
    using assms(1,2) by (simp add: proposal_callback_block_reason_def)
  moreover have "assert_callback_gate (gate_snapshot g SentCurrent) cb = Inr ()"
    using assms(4) by (simp add: assert_callback_gate_iff)
  ultimately show ?thesis using assms(3,5,6) by (auto simp: assert_published_proposal_binding_def)
qed

text \<open>
  C25: the approval round trip works. After a start and the finish of a published card, the
  dispatch is approvable, and a click that carries the binding of the card with an action of
  its kind is accepted until \<open>valid_until\<close>, for every proposal that is neither superseded nor
  terminal and whose nonce is fresh (an auto-veto card for auto-approved proposals).
\<close>

theorem published_card_can_be_clicked:
  assumes wf: "wf_store s" and g0: "get_group_by_proposal_id s pid = Some g0"
    and live: "proposal_approval_block_reason g0 = None"
    and nonce: "g_approval_nonce g0 = Some n" "n \<noteq> []" "g_approval_nonce_used_at g0 = None"
    and kind: "b_card_kind b = AutoVeto \<longleftrightarrow> auto_approved g0"
    and st: "start_approval_dispatch h pid aid b now1 pc cc s = Inr (s1, a)"
    and fin: "finish_approval_dispatch h pid aid p c now2 ps s1 = Inr (s2, out)"
    and pub: "p_card_published p"
    and act: "action \<in> ACTIONS_BY_CARD_KIND (b_card_kind b)" "action \<noteq> ''lc''"
    and time: "g_valid_until g0 = Some v" "t < v"
  shows "dispatch_approvable out \<and>
    is_ok (consume_published_proposal_callback pid
      \<lparr>cb_action = action, cb_subject_short = take 8 pid, cb_attempt_id = aid,
       cb_membership_revision = b_membership_revision b,
       cb_membership_digest = b_membership_digest b, cb_nonce = n\<rparr> (Aware t) usr s2)"
  using start_makes_owner [OF wf st g0]
proof (cases rule: start_makes_owner [OF wf st g0])
  case (1 g)
  from fin show ?thesis
  proof (cases rule: finish_Inr)
    case f: (1 t2 grp a2)
    have grp: "grp = g" "a2 = a" using f(2,3) 1(1,2) by (simp_all add: locked_group_def)
    have owner: "is_current_owner h grp a2" using 1(6) grp by simp
    let ?o = "publication_outcome True grp p"
    have tn: "truthy (g_approval_nonce grp)" using 1(7) nonce grp by simp
    have o: "fst ?o = SentCurrent" using publication_outcome_cases(1) pub tn by blast
    have out: "dispatch_approvable out" using owner o by (simp add: f(7) dispatch_approvable_def approvable_def)
    let ?s = "finish_attempt a2 p SentCurrent (snd ?o) t2 s1"
    let ?g = "finish_group grp p SentCurrent (snd ?o) c t2 ps (grp\<lparr>g_updated_at := db_now s1\<rparr>)"
    have s2: "s2 = put_group ?g ?s"
      using owner o by (simp add: f(8) Let_def update_group_def)
    have wf2: "wf_store ?s"
      using evolves_wf [OF same_tables_evolves [OF 1(3)]] by (simp add: same_tables_def finish_attempt_def update_approval_dispatch_attempt_def Let_def put_attempt_def)
    have r2: "get_group_by_proposal_id ?s pid = Some g" using 1(1) by (simp add: get_group_by_proposal_id_def)
    have pay: "group_payload ?g = group_payload g" by (simp add: finish_group_def Let_def group_payload_def grp)
    have rd: "get_group_by_proposal_id s2 pid = Some ?g"
      unfolding s2 by (rule put_group_read(1) [OF wf2 r2 pay])
    have pid: "g_proposal_id g0 = pid" using get_group_in [OF g0] by simp
    have cols: "g_proposal_id ?g = pid" "g_valid_until ?g = Some v" "g_approval_nonce ?g = Some n"
      "g_approval_nonce_used_at ?g = None" "g_lifecycle_state ?g = g_lifecycle_state g0"
      "g_superseded_by_proposal_id ?g = g_superseded_by_proposal_id g0"
      "g_approval_dispatch_state ?g = Some SentCurrent" "g_approval_dispatch_attempt_id ?g = Some aid"
      "g_approval_dispatch_card_kind ?g = Some (b_card_kind b)"
      "g_approval_dispatch_membership_revision ?g = Some (b_membership_revision b)"
      "g_approval_dispatch_membership_digest ?g = Some (b_membership_digest b)"
      using 1 nonce time pid by (simp_all add: finish_group_def Let_def grp group_payload_def)
    let ?cb = "\<lparr>cb_action = action, cb_subject_short = take 8 pid, cb_attempt_id = aid,
         cb_membership_revision = b_membership_revision b, cb_membership_digest = b_membership_digest b,
         cb_nonce = n\<rparr>"
    have auto: "auto_approved ?g \<longleftrightarrow> auto_approved g0"
      using 1(12) by (cases ps) (simp_all add: auto_approved_def finish_group_def Let_def grp location_fields_def)
    have blk: "proposal_approval_block_reason ?g = None"
      using live unfolding proposal_approval_block_reason_def cols(5,6) .
    have gate: "gate_open (gate_snapshot ?g SentCurrent) ?cb"
      using cols act(1) by (simp add: gate_open_def gate_snapshot_def approvable_def)
    have bind: "assert_published_proposal_binding ?g ?cb = Inr (b_card_kind b)"
      by (rule assert_binding_ok [OF blk cols(4,7) gate cols(9)]) (use kind auto in simp)
    have window: "require_open_window ?g (Aware t) = Inr ()"
      using require_open_window_Inr cols(2) time(2) by blast
    have "is_ok (consume_published_proposal_callback pid ?cb (Aware t) usr s2)"
      using rd bind window act(2)
      by (simp add: consume_published_proposal_callback_def locked_group_def mark_nonce_used_def)
    then show ?thesis using out by simp
  qed
qed

theorem published_card_can_be_clicked_witness:
  "\<exists>s1 a s2 out. start_approval_dispatch (env_digest sample_env) ''p0000001'' ''a2'' (sample_binding ''a2'' 2)
        (Aware 20) 100 0 sample_store = Inr (s1, a) \<and>
     finish_approval_dispatch (env_digest sample_env) ''p0000001'' ''a2'' sample_receipt (Some ''chat'')
        (Aware 30) None s1 = Inr (s2, out) \<and> dispatch_approvable out \<and>
     is_ok (consume_published_proposal_callback ''p0000001''
      \<lparr>cb_action = ''op'', cb_subject_short = take 8 ''p0000001'', cb_attempt_id = ''a2'',
       cb_membership_revision = b_membership_revision (sample_binding ''a2'' 2),
       cb_membership_digest = b_membership_digest (sample_binding ''a2'' 2), cb_nonce = ''n1''\<rparr> (Aware 40) None s2)"
proof -
  let ?st = "start_approval_dispatch (env_digest sample_env) ''p0000001'' ''a2'' (sample_binding ''a2'' 2)
        (Aware 20) 100 0 sample_store"
  let ?fin = "\<lambda>s1. finish_approval_dispatch (env_digest sample_env) ''p0000001'' ''a2'' sample_receipt (Some ''chat'')
        (Aware 30) None s1"
  have "is_ok (bindR ?st (\<lambda>(s1, a). ?fin s1))" by code_simp
  then obtain s1 a s2 out where st: "?st = Inr (s1, a)" and fin: "?fin s1 = Inr (s2, out)"
    by (auto simp: is_ok_iff bindR_eq_Inr)
  have g: "get_group_by_proposal_id sample_store ''p0000001'' = Some sample_group"
    by (simp add: get_group_by_proposal_id_def sample_store_def sample_group_def new_group_def)
  have "dispatch_approvable out \<and> is_ok (consume_published_proposal_callback ''p0000001''
      \<lparr>cb_action = ''op'', cb_subject_short = take 8 ''p0000001'', cb_attempt_id = ''a2'',
       cb_membership_revision = b_membership_revision (sample_binding ''a2'' 2),
       cb_membership_digest = b_membership_digest (sample_binding ''a2'' 2), cb_nonce = ''n1''\<rparr> (Aware 40) None s2)"
  proof (rule published_card_can_be_clicked [OF wf_sample g _ _ _ _ _ st fin, where v = "hours 10"])
    show "proposal_approval_block_reason sample_group = None"
      by (simp add: proposal_approval_block_reason_def sample_group_def new_group_def
          APPROVAL_TERMINAL_GROUP_STATES_def)
    show "b_card_kind (sample_binding ''a2'' 2) = AutoVeto \<longleftrightarrow> auto_approved sample_group"
      by (simp add: sample_binding_def auto_approved_def sample_group_def new_group_def or_none_def dict_get_def)
  qed (simp_all add: sample_group_def new_group_def sample_receipt_def sample_binding_def time_defs)
  then show ?thesis using st fin by blast
qed

section \<open>Two clicks for a loss cut\<close>

lemma locked_group_eq [simp]: "locked_group pid s = Inr g \<longleftrightarrow> get_group_by_proposal_id s pid = Some g"
  by (simp add: locked_group_def)

lemma validated_loss_cut_Inr:
  assumes "validated_loss_cut_confirmation_source grp n usr t s = Inr d"
  obtains envelope e where
    "dict_get (or_empty (g_source_asof grp)) LOSS_CUT_CONFIRMATION_KEY = Some (JObj envelope)"
    "dict_get envelope ''expires_at'' = Some (JTime e)" "t < e"
    "dict_get envelope ''proposal_id'' = Some (JStr (g_proposal_id grp))"
    "dict_get envelope ''nonce'' = Some (JStr n)"
    "dict_get envelope ''rungs'' = Some (JArr (rung_binding (list_rungs s (g_id grp))))"
    "d = dict_set LOSS_CUT_CONFIRMATION_KEY (JObj (dict_set ''second_click'' (click usr t n) envelope))
           (or_empty (g_source_asof grp))"
  using assms
  by (auto simp: validated_loss_cut_confirmation_source_def not_le split: option.splits json.splits if_splits)

text \<open>
  C33: the second click of a loss cut is consumed only on the envelope of a first one: its
  time to live has not run out, it was issued for this proposal with this nonce, and the
  rungs waiting for confirmation, with their approval revisions, are still exactly those it
  was shown for. The consumed note keeps the first click and records the second. The statement is
  about the wrapper \<open>consume_loss_cut_confirmation\<close>, which builds the envelope of the second
  click from the stored binding and runs \<open>consume_published_proposal_callback\<close>, the gate the
  webhook calls.
\<close>

theorem loss_cut_needs_a_matching_first_click:
  assumes "consume_loss_cut_confirmation pid n usr now s = Inr (s', g')"
  shows "\<exists>grp t envelope e. get_group_by_proposal_id s pid = Some grp \<and> now = Aware t \<and>
    dict_get (or_empty (g_source_asof grp)) LOSS_CUT_CONFIRMATION_KEY = Some (JObj envelope) \<and>
    dict_get envelope ''expires_at'' = Some (JTime e) \<and> t < e \<and>
    dict_get envelope ''proposal_id'' = Some (JStr pid) \<and> dict_get envelope ''nonce'' = Some (JStr n) \<and>
    dict_get envelope ''rungs'' = Some (JArr (rung_binding (list_rungs s (g_id grp)))) \<and>
    g_approval_dispatch_card_kind grp = Some LossCutConfirmation \<and>
    (\<exists>note. dict_get (or_empty (g_source_asof g')) LOSS_CUT_CONFIRMATION_KEY = Some (JObj note) \<and>
       dict_get note ''first_click'' = dict_get envelope ''first_click'' \<and>
       dict_get note ''second_click'' = Some (click usr t n))"
proof -
  from assms obtain grp cb where lk: "get_group_by_proposal_id s pid = Some grp"
    and env: "current_callback_envelope grp ''lc'' n = Inr cb"
    and con: "consume_published_proposal_callback pid cb now (Some usr) s = Inr (s', g')"
    unfolding consume_loss_cut_confirmation_def by (elim consume_with_action_Inr) auto
  have cb: "cb_action cb = ''lc''" "cb_nonce cb = n"
    using env by (auto simp: current_callback_envelope_def split: option.splits)
  from con show ?thesis
  proof (cases rule: consume_published_Inr)
    case (1 t grp' k)
    have grp: "grp' = grp" using 1(2) lk by simp
    have k: "k = LossCutConfirmation"
      using assert_binding_Inr(3,4) [OF 1(3)] cb(1) by (cases k) (auto simp: gate_open_def gate_snapshot_def)
    obtain d where d: "validated_loss_cut_confirmation_source grp n usr t s = Inr d"
      and g': "g' = grp\<lparr>g_updated_at := db_now s, g_approval_nonce_used_at := Some t, g_source_asof := Some d\<rparr>"
      using 1(5) cb grp by (auto simp: mark_nonce_used_def bindR_eq_Inr update_group_def Let_def)
    have pid: "g_proposal_id grp = pid" using get_group_in [OF lk] by simp
    from d show ?thesis
    proof (cases rule: validated_loss_cut_Inr)
      case v: (1 envelope e)
      have "dict_get (or_empty (g_source_asof g')) LOSS_CUT_CONFIRMATION_KEY
          = Some (JObj (dict_set ''second_click'' (click usr t n) envelope))"
        by (simp add: g' v(7))
      then show ?thesis
        using v(1-6) lk 1(1) pid assert_binding_Inr(4) [OF 1(3)] grp k
        by (intro exI [of _ grp] exI [of _ t] exI [of _ envelope] exI [of _ e]) auto
    qed
  qed
qed

definition loss_cut_store :: store where
  "loss_cut_store = sample_store\<lparr>db_groups :=
     [sample_group\<lparr>g_exit_intent := Some ''loss_cut'', g_approval_nonce_used_at := Some 9,
        g_approval_dispatch_card_kind := Some LossCutConfirmation\<rparr>, old_group]\<rparr>"

theorem loss_cut_needs_a_matching_first_click_witness:
  "\<exists>s1 g1 s2 g2 note. issue_loss_cut_confirmation ''p0000001'' ''n1'' ''n7'' ''u1'' (Aware 20) 300 loss_cut_store = Inr (s1, g1) \<and>
     consume_loss_cut_confirmation ''p0000001'' ''n7'' ''u1'' (Aware 30) s1 = Inr (s2, g2) \<and>
     dict_get (or_empty (g_source_asof g2)) LOSS_CUT_CONFIRMATION_KEY = Some (JObj note)"
proof -
  let ?i = "issue_loss_cut_confirmation ''p0000001'' ''n1'' ''n7'' ''u1'' (Aware 20) 300 loss_cut_store"
  have "is_ok (bindR ?i (\<lambda>(s1, g1). consume_loss_cut_confirmation ''p0000001'' ''n7'' ''u1'' (Aware 30) s1))"
    by code_simp
  then obtain s1 g1 s2 g2 where i: "?i = Inr (s1, g1)"
    and c: "consume_loss_cut_confirmation ''p0000001'' ''n7'' ''u1'' (Aware 30) s1 = Inr (s2, g2)"
    by (auto simp: is_ok_iff bindR_eq_Inr)
  then show ?thesis using loss_cut_needs_a_matching_first_click [OF c] by blast
qed

section \<open>What supersession does not fence\<close>

text \<open>
  A proposal that is already superseded can be superseded again: the pointer to its first
  successor is overwritten and both successors stay approvable.
\<close>

definition replacement :: proposal_request where
  "replacement = sample_request\<lparr>q_supersedes_proposal_id := Some ''p0000001''\<rparr>"

definition superseded_twice :: store where
  "superseded_twice = history sample_env
     [(Create replacement ''p0000003'' (Aware 20) (\<lambda>_. None), 20),
      (Create replacement ''p0000004'' (Aware 30) (\<lambda>_. None), 30)] sample_store"

lemma two_live_successors:
  "map (\<lambda>g. (g_proposal_id g, g_superseded_by_proposal_id g, proposal_approval_block_reason g = None))
     (db_groups superseded_twice) =
   [(''p0000001'', Some ''p0000004'', False), (''p0000002'', Some ''p0000001'', False),
    (''p0000003'', None, True), (''p0000004'', None, True)]"
  by code_simp

text \<open>
  A broker fill of a superseded proposal's resting order recomputes its group: the lifecycle
  state \<open>superseded\<close> is lost, only the pointer still blocks the approval.
\<close>

lemma superseded_state_is_overwritten:
  "map (\<lambda>g. (g_proposal_id g, g_superseded_by_proposal_id g, g_lifecycle_state g))
     (db_groups (history sample_env
        [(Fill None (Some ''b2'') None (Some 10) Filled (Aware 20) None sample_store, 20)] sample_store)) =
   [(''p0000001'', None, PartiallySubmitted), (''p0000002'', Some ''p0000001'', Terminal)]"
  by code_simp

end
