(* ===== verification/ProposalSafety.thy ===== *)
theory ProposalSafety
  imports ApprovalSafety
begin

text \<open>
  The safety of the lifecycle path: expiry of one proposal and the batch sweeper, voiding
  with proof of absence, evidence that arrives late, the strict matcher.
\<close>

section \<open>The write loops\<close>

text \<open>A write loop whose every step succeeds returns the rewritten rows in order.\<close>

lemma write_loop_total:
  assumes "\<And>r st. r \<in> set rs \<Longrightarrow> \<exists>s1 r1. step st r = Inr (s1, snd st @ [r1]) \<and> Q r r1"
  shows "\<exists>s' out. foldR step (s, acc) rs = Inr (s', acc @ out) \<and> list_all2 Q rs out"
  using assms
proof (induction rs arbitrary: s acc)
  case Nil
  then show ?case by simp
next
  case (Cons r rs)
  obtain s1 r1 where st: "step (s, acc) r = Inr (s1, acc @ [r1])" "Q r r1"
    using Cons.prems [of r "(s, acc)"] by auto
  obtain s' out where "foldR step (s1, acc @ [r1]) rs = Inr (s', (acc @ [r1]) @ out)" "list_all2 Q rs out"
    using Cons.IH [of s1 "acc @ [r1]"] Cons.prems by (meson list.set_intros(2))
  then show ?case using st by (intro exI [of _ s'] exI [of _ "r1 # out"]) simp
qed

lemma voidable_edges:
  "st \<in> VOIDABLE_RUNG_STATES \<Longrightarrow> Expired \<in> ALLOWED st \<and> Voided \<in> ALLOWED st"
  "VoidedLocalStale \<in> ALLOWED Unverified"
  by (auto simp: VOIDABLE_RUNG_STATES_def)

lemma expire_step_total:
  assumes "r_state r \<in> VOIDABLE_RUNG_STATES"
  shows "\<exists>s1 r1. expire_step t st r = Inr (s1, snd st @ [r1]) \<and> r_state r1 = Expired \<and> r_id r1 = r_id r"
proof -
  have "check_transition (r_state r) Expired = Inr ()"
    using voidable_edges(1) [OF assms] by (simp add: check_transition_eq)
  then have e: "expire_step t st r =
      (let (s1, rung1) = update_rung r (\<lambda>r. stamp t (r\<lparr>r_state := Expired\<rparr>)) (fst st) in Inr (s1, snd st @ [rung1]))"
    unfolding expire_step_def by (simp only: map_error_eq bindR_simps)
  show ?thesis unfolding e by (simp add: update_rung_def Let_def stamp_def)
qed

lemma expire_loop_total:
  assumes "\<forall>r \<in> set rs. r_state r \<in> VOIDABLE_RUNG_STATES"
  shows "\<exists>s' out. foldR (expire_step t) (s, []) rs = Inr (s', out) \<and>
    list_all2 (\<lambda>r r1. r_state r1 = Expired \<and> r_id r1 = r_id r) rs out"
  using write_loop_total [of rs "expire_step t" "\<lambda>r r1. r_state r1 = Expired \<and> r_id r1 = r_id r" s "[]"]
    expire_step_total assms by auto

lemma list_all2_set: "list_all2 Q xs ys \<Longrightarrow> y \<in> set ys \<Longrightarrow> \<exists>x \<in> set xs. Q x y"
  by (metis in_set_conv_nth list_all2_conv_all_nth)

lemma recompute_all_expired:
  "rs \<noteq> [] \<Longrightarrow> \<forall>r \<in> set rs. r_state r = Expired \<Longrightarrow> recompute_group_state rs = GExpired"
proof -
  assume "rs \<noteq> []" and all: "\<forall>r \<in> set rs. r_state r = Expired"
  then have "set (map r_state rs) = {Expired}" by (cases rs) auto
  then show ?thesis by (simp add: recompute_group_state_def Let_def)
qed

lemma list_loop_rewritten:
  assumes "collecting step" and "wf_store s" and "foldR step (s, []) (list_rungs s k) = Inr (s1, out)"
  shows "rungs_rewritten k s s1"
  by (rule conjunct1 [OF collecting_loop [OF assms(1,2) _ _ distinct_list_rungs [OF assms(2)] assms(3)]]) auto

text \<open>What the loop and the rollup leave behind: the rows of this group rewritten, no other.\<close>

lemma loop_other_rungs:
  assumes "collecting step" and "wf_store s" and "foldR step (s, []) (list_rungs s k) = Inr (s1, out)"
    and "x \<in> set (db_rungs s)" and "r_proposal_pk x \<noteq> k"
  shows "x \<in> set (db_rungs s1)"
proof -
  have loop: "rungs_rewritten k s s1 \<and>
      (\<exists>rs1. out = [] @ rs1 \<and> list_all2 rung_evolves (list_rungs s k) rs1 \<and>
         (\<forall>x. x \<in> set (db_rungs s1) \<longleftrightarrow> x \<in> set rs1 \<or> (x \<in> set (db_rungs s) \<and> r_id x \<notin> r_id ` set (list_rungs s k))))"
    by (rule collecting_loop [OF assms(1,2) _ _ distinct_list_rungs [OF assms(2)] assms(3)]) auto
  have inj: "inj_on r_id (set (db_rungs s))" using assms(2) by (simp add: wf_store_def distinct_map)
  have "r_id x \<notin> r_id ` set (list_rungs s k)"
  proof
    assume "r_id x \<in> r_id ` set (list_rungs s k)"
    then obtain y where "y \<in> set (db_rungs s)" "r_proposal_pk y = k" "r_id x = r_id y" by auto
    then show False using inj_onD [OF inj, of x y] assms(4,5) by simp
  qed
  then show ?thesis using loop assms(4) by blast
qed

section \<open>Expiry of one proposal\<close>

text \<open>
  expiry is all or nothing. It answers \<open>False\<close> and writes nothing exactly while the
  proposal is valid; afterwards it raises, naming a rung that is not locally mutable, or
  expires every rung, sets the proposal to \<open>expired\<close> and clears its nonce. It never trips over
  the transition graph, and never touches a rung of another proposal.
\<close>

theorem expire_is_all_or_nothing:
  assumes wf: "wf_store s" and g: "get_group_by_proposal_id s pid = Some g"
    and rungs: "list_rungs s (g_id g) \<noteq> []"
  shows "case expire_if_needed pid (Aware t) s of
      Inl e \<Rightarrow> (\<exists>r \<in> set (list_rungs s (g_id g)). r_state r \<notin> VOIDABLE_RUNG_STATES \<and>
          e = CannotExpireProposal (r_rung_index r) (r_state r))
    | Inr (s', b) \<Rightarrow>
        if b then (\<forall>v. g_valid_until g = Some v \<longrightarrow> v \<le> t) \<and>
          (\<forall>r \<in> set (list_rungs s' (g_id g)). r_state r = Expired) \<and>
          (\<exists>g'. get_group_by_proposal_id s' pid = Some g' \<and> g_lifecycle_state g' = GExpired \<and>
             g_approval_nonce g' = None \<and> group_payload g' = group_payload g) \<and>
          (\<forall>r \<in> set (db_rungs s). r_proposal_pk r \<noteq> g_id g \<longrightarrow> r \<in> set (db_rungs s'))
        else s' = s \<and> (\<exists>v. g_valid_until g = Some v \<and> t < v)"
proof (cases "case g_valid_until g of None \<Rightarrow> False | Some v \<Rightarrow> v > t")
  case True
  then show ?thesis using g by (auto simp: expire_if_needed_def split: option.splits)
next
  case False
  let ?rs = "list_rungs s (g_id g)"
  show ?thesis
  proof (cases "find (\<lambda>r. r_state r \<notin> VOIDABLE_RUNG_STATES) ?rs")
    case (Some r)
    then have "r_state r \<notin> VOIDABLE_RUNG_STATES \<and> r \<in> set ?rs" by (rule find_SomeD)
    moreover have "expire_if_needed pid (Aware t) s = Inl (CannotExpireProposal (r_rung_index r) (r_state r))"
      using g False Some by (simp add: expire_if_needed_def Let_def)
    ultimately show ?thesis by auto
  next
    case None
    then have "\<forall>r \<in> set ?rs. r_state r \<in> VOIDABLE_RUNG_STATES" by (simp add: find_None_all)
    then obtain s1 out where loop: "foldR (expire_step t) (s, []) ?rs = Inr (s1, out)"
      and all2: "list_all2 (\<lambda>r r1. r_state r1 = Expired \<and> r_id r1 = r_id r) ?rs out"
      using expire_loop_total by blast
    let ?upd = "\<lambda>g. g\<lparr>g_approval_nonce := None\<rparr>"
    let ?s' = "rollup g out ?upd s1"
    have e: "expire_if_needed pid (Aware t) s = Inr (?s', True)"
      using g False None loop by (simp add: expire_if_needed_def Let_def)
    have gin: "g \<in> set (db_groups s)" using get_group_in [OF g] by simp
    note roll = collecting_loop_rollup [OF collecting_expire_step wf gin loop nonce_cleared_frame]
    have exp: "\<forall>r \<in> set out. r_state r = Expired" using list_all2_set [OF all2] by blast
    have "out \<noteq> []" using list_all2_lengthD [OF all2] rungs by auto
    then have life: "recompute_group_state out = GExpired" using recompute_all_expired exp by blast
    have rw: "rungs_rewritten (g_id g) s s1" by (rule list_loop_rewritten [OF collecting_expire_step wf loop])
    have wf1: "wf_store s1" and g1: "get_group_by_proposal_id s1 pid = Some g"
      using rw g by (simp_all add: rungs_rewritten_def get_group_by_proposal_id_def)
    let ?g = "g\<lparr>g_updated_at := db_now s1, g_lifecycle_state := recompute_group_state out, g_approval_nonce := None\<rparr>"
    have s': "?s' = put_group ?g s1" by (simp add: rollup_def update_group_def Let_def)
    have pay: "group_payload ?g = group_payload g" by (simp add: group_payload_def)
    have rd: "get_group_by_proposal_id ?s' pid = Some ?g"
      unfolding s' by (rule put_group_read(1) [OF wf1 g1 pay])
    have others: "\<forall>r \<in> set (db_rungs s). r_proposal_pk r \<noteq> g_id g \<longrightarrow> r \<in> set (db_rungs ?s')"
      using loop_other_rungs [OF collecting_expire_step wf loop] by (simp add: s')
    have states: "\<forall>r \<in> set (list_rungs ?s' (g_id g)). r_state r = Expired"
      using exp unfolding roll(2) .
    have valid: "\<forall>v. g_valid_until g = Some v \<longrightarrow> v \<le> t" using False by auto
    have grp: "\<exists>g'. get_group_by_proposal_id ?s' pid = Some g' \<and> g_lifecycle_state g' = GExpired \<and>
             g_approval_nonce g' = None \<and> group_payload g' = group_payload g"
      using rd life pay by (intro exI [of _ ?g]) simp
    show ?thesis unfolding e using valid states grp others by simp
  qed
qed

definition pending_store :: store where
  "pending_store = sample_store\<lparr>db_rungs :=
     [sample_rung 1 1 0 PendingApproval None, sample_rung 2 1 1 NeedsReconfirm None,
      sample_rung 3 2 0 Resting (Some ''b2'')]\<rparr>"

lemma wf_pending: "wf_store pending_store"
  by (simp add: wf_store_def pending_store_def sample_store_def sample_group_def old_group_def
      new_group_def sample_rung_def)

lemma pending_group: "get_group_by_proposal_id pending_store ''p0000001'' = Some sample_group"
  by (simp add: get_group_by_proposal_id_def pending_store_def sample_store_def sample_group_def new_group_def)

lemma pending_rungs: "list_rungs pending_store (g_id sample_group) \<noteq> []"
  by (simp add: list_rungs_def pending_store_def sample_store_def sample_group_def new_group_def sample_rung_def)

theorem expire_is_all_or_nothing_witness:
  "\<exists>s'. expire_if_needed ''p0000001'' (Aware (hours 11)) pending_store = Inr (s', True) \<and>
     (\<forall>r \<in> set (list_rungs s' 1). r_state r = Expired)"
proof -
  have "(case expire_if_needed ''p0000001'' (Aware (hours 11)) pending_store of Inr p \<Rightarrow> snd p | _ \<Rightarrow> False)"
    by code_simp
  then obtain s' where e: "expire_if_needed ''p0000001'' (Aware (hours 11)) pending_store = Inr (s', True)"
    by (auto split: sum.splits)
  have id: "g_id sample_group = 1" by (simp add: sample_group_def)
  show ?thesis
    using expire_is_all_or_nothing [OF wf_pending pending_group pending_rungs, of "hours 11"]
    unfolding e id by auto
qed
section \<open>The sweeper\<close>

lemma sweep_one_total:
  assumes "wf_store s"
  shows "\<exists>s' res'. sweep_expired_one t (s, res) pid = Inr (s', res') \<and> evolves N s s' \<and>
    (\<forall>r \<in> set (db_rungs s). r_state r \<notin> VOIDABLE_RUNG_STATES \<longrightarrow> r \<in> set (db_rungs s')) \<and>
    (\<forall>g v. g \<in> set (db_groups s) \<and> g_valid_until g = Some v \<and> v > t \<longrightarrow> g \<in> set (db_groups s'))"
proof (cases "get_group_by_proposal_id s pid")
  case None
  then show ?thesis using assms by (auto simp: sweep_expired_one_def)
next
  case (Some g)
  let ?rs = "list_rungs s (g_id g)"
  show ?thesis
  proof (cases "(case g_valid_until g of None \<Rightarrow> True | Some v \<Rightarrow> v > t) \<or>
      g_lifecycle_state g \<in> APPROVAL_TERMINAL_GROUP_STATES \<or> (\<exists>r \<in> set ?rs. r_state r \<notin> VOIDABLE_RUNG_STATES)")
    case True
    then have "sweep_expired_one t (s, res) pid = Inr (s, res)"
      using Some by (auto simp: sweep_expired_one_def Let_def split: option.splits)
    then show ?thesis using assms by auto
  next
    case False
    then obtain v where v: "g_valid_until g = Some v" "v \<le> t" by (auto split: option.splits)
    obtain s1 out where loop: "foldR (expire_step t) (s, []) ?rs = Inr (s1, out)"
      using expire_loop_total [of ?rs t s] False by blast
    let ?s' = "rollup g out (\<lambda>g. g\<lparr>g_approval_nonce := None\<rparr>) s1"
    obtain res' where e: "sweep_expired_one t (s, res) pid = Inr (?s', res')"
      using Some False loop v by (auto simp: sweep_expired_one_def Let_def)
    have gin: "g \<in> set (db_groups s)" using get_group_in [OF Some] by simp
    have ev: "evolves N s ?s'" by (rule sweep_expired_one_evolves [OF assms e])
    have rw: "rungs_rewritten (g_id g) s s1" by (rule list_loop_rewritten [OF collecting_expire_step assms loop])
    have rungs: "r \<in> set (db_rungs ?s')" if "r \<in> set (db_rungs s)" "r_state r \<notin> VOIDABLE_RUNG_STATES" for r
    proof -
      have "r_proposal_pk r \<noteq> g_id g" using that False by auto
      then show ?thesis using loop_other_rungs [OF collecting_expire_step assms loop that(1)]
        by (simp add: rollup_def update_group_def Let_def)
    qed
    have groups: "x \<in> set (db_groups ?s')" if x: "x \<in> set (db_groups s)" "g_valid_until x = Some w" "w > t" for x w
    proof -
      have inj: "inj_on g_id (set (db_groups s))" using assms by (simp add: wf_store_def distinct_map)
      have "g_id x \<noteq> g_id g" using inj_onD [OF inj, of x g] x gin v by auto
      then have "x \<in> set (write_row g_id h (db_groups s))" if "g_id h = g_id g" for h
        using x(1) that by (auto simp: write_row_def image_iff)
      moreover have "db_groups s1 = db_groups s" using rw by (simp add: rungs_rewritten_def)
      ultimately show ?thesis by (simp add: rollup_def update_group_def Let_def groups.rows_put)
    qed
    show ?thesis using e ev rungs groups by blast
  qed
qed

lemma sweep_loop_total:
  assumes "wf_store s"
  shows "\<exists>s' res'. foldR (sweep_expired_one t) (s, res) pids = Inr (s', res') \<and> wf_store s' \<and>
    (\<forall>r \<in> set (db_rungs s). r_state r \<notin> VOIDABLE_RUNG_STATES \<longrightarrow> r \<in> set (db_rungs s')) \<and>
    (\<forall>g v. g \<in> set (db_groups s) \<and> g_valid_until g = Some v \<and> v > t \<longrightarrow> g \<in> set (db_groups s'))"
  using assms
proof (induction pids arbitrary: s res)
  case Nil
  then show ?case by simp
next
  case (Cons p pids)
  obtain s1 res1 where one: "sweep_expired_one t (s, res) p = Inr (s1, res1)" "evolves {} s s1"
    "\<forall>r \<in> set (db_rungs s). r_state r \<notin> VOIDABLE_RUNG_STATES \<longrightarrow> r \<in> set (db_rungs s1)"
    "\<forall>g v. g \<in> set (db_groups s) \<and> g_valid_until g = Some v \<and> v > t \<longrightarrow> g \<in> set (db_groups s1)"
    using sweep_one_total [OF Cons.prems] by blast
  then show ?case using Cons.IH [OF evolves_wf [OF one(2)], of res1] by (simp only: foldR.simps bindR_simps) blast
qed

text \<open>
  the batch sweeper never raises, whatever the state of the rungs: it skips what it may
  not expire. No rung that has left for the broker or is final, and no proposal that is
  still valid, is written by it.
\<close>

theorem sweep_never_raises_and_spares_the_broker_side:
  assumes "wf_store s"
  shows "\<exists>s' swept. sweep_expired (Aware t) s = Inr (s', swept) \<and>
    (\<forall>r \<in> set (db_rungs s). r_state r \<notin> VOIDABLE_RUNG_STATES \<longrightarrow> r \<in> set (db_rungs s')) \<and>
    (\<forall>g v. g \<in> set (db_groups s) \<and> g_valid_until g = Some v \<and> v > t \<longrightarrow> g \<in> set (db_groups s'))"
  using sweep_loop_total [OF assms, of t "[]" "list_expiry_candidates s t"]
  by (simp only: sweep_expired_def require_timezone_aware_simps bindR_simps) blast

theorem sweep_never_raises_and_spares_the_broker_side_witness:
  "\<exists>s' swept. sweep_expired (Aware (hours 11)) sample_store = Inr (s', swept) \<and>
     sample_rung 2 1 1 Resting (Some ''b1'') \<in> set (db_rungs s')"
proof -
  have "sample_rung 2 1 1 Resting (Some ''b1'') \<in> set (db_rungs sample_store)" by (simp add: sample_store_def)
  moreover have "r_state (sample_rung 2 1 1 Resting (Some ''b1'')) \<notin> VOIDABLE_RUNG_STATES"
    by (simp add: sample_rung_def VOIDABLE_RUNG_STATES_def)
  ultimately show ?thesis
    using sweep_never_raises_and_spares_the_broker_side [OF wf_sample, of "hours 11"] by blast
qed

section \<open>Voiding\<close>

definition UNVERIFIED_OF :: "store \<Rightarrow> order_proposal \<Rightarrow> rung list" where
  "UNVERIFIED_OF s g = filter (\<lambda>r. r_state r = Unverified) (list_rungs s (g_id g))"

text \<open>One loop turn that passed: absent at the broker, and no ledger row holds the order.\<close>

lemma absence_summary_Inr:
  assumes "absence_summary mode evs rows r = Inr x"
  obtains ev where "map_of evs (r_rung_index r) = Some ev" "ev_outcome ev = ''absent''"
    "\<forall>row \<in> set rows. \<not> ledger_row_matches r row"
  using assms
  by (auto simp: absence_summary_def Let_def filter_empty_conv split: option.splits if_splits list.splits)

lemma absence_summaries_each:
  assumes "absence_summaries mode evs rows rs = Inr xs" and "r \<in> set rs"
  shows "\<exists>x. absence_summary mode evs rows r = Inr x"
proof -
  have "\<exists>x. absence_summary mode evs rows r = Inr x"
    if "foldR (\<lambda>acc r. bindR (absence_summary mode evs rows r) (\<lambda>x. Inr (acc @ [x]))) acc rs = Inr xs" for acc
    using that assms(2) by (induction rs arbitrary: acc) (auto simp: bindR_eq_Inr)
  then show ?thesis using assms(1) unfolding absence_summaries_def by blast
qed

lemma evidence_phase_Inr:
  assumes "evidence_phase grp unverified t lookup ledger = Inr why" and "r \<in> set unverified"
  obtains f evs ev where "lookup = Some f" "f grp unverified t = Inr evs"
    "UNVERIFIED_VOID_SETTLEMENT_GRACE \<le> t - r_updated_at r"
    "map_of evs (r_rung_index r) = Some ev" "ev_outcome ev = ''absent''"
    "g_account_mode grp = ''toss_live'' \<Longrightarrow> \<forall>row \<in> set (toss_rows_for unverified ledger). \<not> ledger_row_matches r row"
proof -
  let ?rows = "if g_account_mode grp = ''toss_live'' then toss_rows_for unverified ledger else []"
  from assms obtain f evs xs where f: "lookup = Some f" "f grp unverified t = Inr evs"
    and grace: "find (\<lambda>r. t - r_updated_at r < UNVERIFIED_VOID_SETTLEMENT_GRACE) unverified = None"
    and xs: "absence_summaries (g_account_mode grp) evs ?rows unverified = Inr xs"
    unfolding evidence_phase_def by (auto simp: bindR_eq_Inr Let_def split: list.splits option.splits)
  have gr: "UNVERIFIED_VOID_SETTLEMENT_GRACE \<le> t - r_updated_at r"
    using grace assms(2) by (auto simp: find_None_all)
  obtain x where "absence_summary (g_account_mode grp) evs ?rows r = Inr x"
    using absence_summaries_each [OF xs assms(2)] by blast
  then obtain ev where "map_of evs (r_rung_index r) = Some ev" "ev_outcome ev = ''absent''"
    "\<forall>row \<in> set ?rows. \<not> ledger_row_matches r row" by (rule absence_summary_Inr)
  then show thesis using that [OF f gr] by auto
qed

text \<open>A ledger row that matches a rung with clean keys is among the rows that are fetched.\<close>

lemma matching_rows_are_fetched:
  assumes "r \<in> set rs" and "row \<in> set ledger" and "ledger_row_matches r row"
    and "\<forall>k. r_idempotency_key r = Some k \<or> r_broker_order_id r = Some k \<longrightarrow> strip k = k"
  shows "row \<in> set (toss_rows_for rs ledger)"
proof -
  from assms(3) consider k where "r_idempotency_key r = Some k" "k \<noteq> []" "tl_client_order_id row = Some k"
    | b where "r_broker_order_id r = Some b" "b \<noteq> []" "tl_broker_order_id row = Some b"
    by (auto simp: ledger_row_matches_def truthy_def split: option.splits)
  then show ?thesis
  proof cases
    case 1
    then have "k \<in> (\<lambda>r. strip (the (r_idempotency_key r))) ` {x \<in> set rs. truthy (r_idempotency_key x)}"
      using assms(1,4) by (intro image_eqI [of _ _ r]) auto
    then show ?thesis using 1 assms(2) by (simp add: toss_rows_for_def Let_def)
  next
    case 2
    then have "b \<in> (\<lambda>r. strip (the (r_broker_order_id r))) ` {x \<in> set rs. truthy (r_broker_order_id x)}"
      using assms(1,4) by (intro image_eqI [of _ _ r]) auto
    then show ?thesis using 2 assms(2) by (simp add: toss_rows_for_def Let_def)
  qed
qed

lemma void_step_result:
  assumes "void_step t why st r = Inr (s1, acc1)"
  shows "\<exists>r1. acc1 = snd st @ [r1] \<and> r_state r1 \<in> {Voided, VoidedLocalStale}"
  using assms by (auto simp: void_step_def bindR_eq_Inr Let_def update_rung_def stamp_def split: if_splits)

lemma void_loop_states:
  assumes "foldR (void_step t why) (s, acc) rs = Inr (s1, out)"
    and "\<forall>r \<in> set acc. r_state r \<in> {Voided, VoidedLocalStale}"
  shows "\<forall>r \<in> set out. r_state r \<in> {Voided, VoidedLocalStale}"
  using assms
proof (induction rs arbitrary: s acc)
  case Nil
  then show ?case by simp
next
  case (Cons r rs)
  from Cons.prems(1) obtain s2 acc2 where st: "void_step t why (s, acc) r = Inr (s2, acc2)"
    and rest: "foldR (void_step t why) (s2, acc2) rs = Inr (s1, out)" by (auto simp: bindR_eq_Inr)
  have "\<forall>r \<in> set acc2. r_state r \<in> {Voided, VoidedLocalStale}"
    using void_step_result [OF st] Cons.prems(2) by auto
  then show ?case by (rule Cons.IH [OF rest])
qed

text \<open>What the evidence phase of a void has established for each rung.\<close>

lemma void_admits:
  assumes admitted: "\<forall>r \<in> set (list_rungs s (g_id g)). r_state r \<in> VOIDABLE_RUNG_STATES \<union> {Unverified}"
    and phase: "evidence_phase g (UNVERIFIED_OF s g) t lookup ledger = Inr why"
    and r: "r \<in> set (list_rungs s (g_id g))"
  shows "r_state r \<in> VOIDABLE_RUNG_STATES \<or>
       (r_state r = Unverified \<and> UNVERIFIED_VOID_SETTLEMENT_GRACE \<le> t - r_updated_at r \<and>
        (\<exists>f evs ev. lookup = Some f \<and> f g (UNVERIFIED_OF s g) t = Inr evs \<and>
           map_of evs (r_rung_index r) = Some ev \<and> ev_outcome ev = ''absent'') \<and>
        (g_account_mode g = ''toss_live'' \<and>
           (\<forall>k. r_idempotency_key r = Some k \<or> r_broker_order_id r = Some k \<longrightarrow> strip k = k) \<longrightarrow>
         (\<forall>row \<in> set ledger. \<not> ledger_row_matches r row)))"
proof (cases "r_state r = Unverified")
  case False
  then show ?thesis using r admitted by blast
next
  case True
  then have ru: "r \<in> set (UNVERIFIED_OF s g)" using r by (simp add: UNVERIFIED_OF_def)
  from phase ru obtain f evs ev where
    e: "lookup = Some f" "f g (UNVERIFIED_OF s g) t = Inr evs"
      "UNVERIFIED_VOID_SETTLEMENT_GRACE \<le> t - r_updated_at r"
      "map_of evs (r_rung_index r) = Some ev" "ev_outcome ev = ''absent''"
    and rows: "g_account_mode g = ''toss_live'' \<Longrightarrow>
       \<forall>row \<in> set (toss_rows_for (UNVERIFIED_OF s g) ledger). \<not> ledger_row_matches r row"
    by (rule evidence_phase_Inr) blast
  have "g_account_mode g = ''toss_live'' \<and>
         (\<forall>k. r_idempotency_key r = Some k \<or> r_broker_order_id r = Some k \<longrightarrow> strip k = k) \<longrightarrow>
       (\<forall>row \<in> set ledger. \<not> ledger_row_matches r row)"
    using rows matching_rows_are_fetched [OF ru] by blast
  then show ?thesis using True e by blast
qed

text \<open>
  C38: a void is safe. If it goes through, no rung was known to be at the broker; a rung of
  unknown outcome was voided only after five minutes of silence, with the broker lookup
  answering that the order is absent and, for Toss, with no ledger row that holds it. The
  proposal is left with voided rungs only, cannot be resubmitted and carries no nonce.
\<close>

theorem void_needs_proof_of_absence:
  assumes wf: "wf_store s" and ok: "void_proposal pid reason now lookup ledger s = Inr (s', out)"
  shows "\<exists>g g' t. get_group_by_proposal_id s pid = Some g \<and> now = Aware t \<and>
    (\<forall>r \<in> set (list_rungs s (g_id g)). r_state r \<in> VOIDABLE_RUNG_STATES \<or>
       (r_state r = Unverified \<and> UNVERIFIED_VOID_SETTLEMENT_GRACE \<le> t - r_updated_at r \<and>
        (\<exists>f evs ev. lookup = Some f \<and> f g (UNVERIFIED_OF s g) t = Inr evs \<and>
           map_of evs (r_rung_index r) = Some ev \<and> ev_outcome ev = ''absent'') \<and>
        (g_account_mode g = ''toss_live'' \<and>
           (\<forall>k. r_idempotency_key r = Some k \<or> r_broker_order_id r = Some k \<longrightarrow> strip k = k) \<longrightarrow>
         (\<forall>row \<in> set ledger. \<not> ledger_row_matches r row)))) \<and>
    get_group_by_proposal_id s' pid = Some g' \<and> g_no_resubmit g' \<and> g_approval_nonce g' = None \<and>
    (\<forall>r \<in> set (list_rungs s' (g_id g)). r_state r \<in> {Voided, VoidedLocalStale})"
  using ok
proof (cases rule: void_proposal_Inr)
  case (1 t g why s1)
  let ?rs = "list_rungs s (g_id g)"
  have gin: "g \<in> set (db_groups s)" using get_group_in [OF 1(2)] by simp
  note each = void_admits [OF 1(3) 1(4) [folded UNVERIFIED_OF_def]]
  let ?upd = "\<lambda>g. g\<lparr>g_void_reason := Some (strip reason @ why), g_no_resubmit := True,
      g_approval_nonce := None, g_approval_nonce_used_at := Some t\<rparr>"
  have upd: "group_evolves {} g (?upd g) \<and> g_lifecycle_state (?upd g) = g_lifecycle_state g" for g
    by (simp add: group_evolves_def group_payload_def spent_def)
  note roll = collecting_loop_rollup [OF collecting_void_step wf gin 1(5) upd]
  have rw: "rungs_rewritten (g_id g) s s1" by (rule list_loop_rewritten [OF collecting_void_step wf 1(5)])
  have wf1: "wf_store s1" and g1: "get_group_by_proposal_id s1 pid = Some g"
    using rw 1(2) by (simp_all add: rungs_rewritten_def get_group_by_proposal_id_def)
  let ?g = "?upd (g\<lparr>g_updated_at := db_now s1, g_lifecycle_state := recompute_group_state out\<rparr>)"
  have s': "s' = put_group ?g s1" unfolding 1(6) by (simp add: rollup_def update_group_def Let_def)
  have pay: "group_payload ?g = group_payload g" by (simp add: group_payload_def)
  have rd: "get_group_by_proposal_id s' pid = Some ?g" unfolding s' by (rule put_group_read(1) [OF wf1 g1 pay])
  have states: "\<forall>r \<in> set (list_rungs s' (g_id g)). r_state r \<in> {Voided, VoidedLocalStale}"
    using void_loop_states [OF 1(5)] roll(2) unfolding 1(6) by simp
  show ?thesis
    using each 1(1,2) rd states by (intro exI [of _ g] exI [of _ ?g] exI [of _ t]) simp
qed

definition unverified_store :: store where
  "unverified_store = sample_store\<lparr>
     db_groups := [sample_group\<lparr>g_account_mode := ''toss_live''\<rparr>, old_group],
     db_rungs := [sample_rung 1 1 0 PendingApproval None, sample_rung 2 1 1 Unverified None,
       sample_rung 3 2 0 Resting (Some ''b2'')]\<rparr>"

definition absent_lookup :: evidence_lookup where
  "absent_lookup g rs t = Inr (map (\<lambda>r. (r_rung_index r,
     \<lparr>ev_outcome = ''absent'', ev_lookup_scope = ''open and closed orders'', ev_broker_state = None,
      ev_broker_order_id = None, ev_reason = None\<rparr>)) rs)"

lemma wf_unverified: "wf_store unverified_store"
  by (simp add: wf_store_def unverified_store_def sample_store_def sample_group_def old_group_def
      new_group_def sample_rung_def)

theorem void_needs_proof_of_absence_witness:
  "\<exists>s' out g'. void_proposal ''p0000001'' ''stale'' (Aware (minutes 6)) (Some absent_lookup)
      [\<lparr>tl_client_order_id = Some ''other'', tl_broker_order_id = None, tl_status = ''filled''\<rparr>]
      unverified_store = Inr (s', out) \<and>
    get_group_by_proposal_id s' ''p0000001'' = Some g' \<and> g_no_resubmit g' \<and> g_approval_nonce g' = None"
proof -
  let ?v = "void_proposal ''p0000001'' ''stale'' (Aware (minutes 6)) (Some absent_lookup)
      [\<lparr>tl_client_order_id = Some ''other'', tl_broker_order_id = None, tl_status = ''filled''\<rparr>]
      unverified_store"
  have "is_ok ?v" by code_simp
  then obtain s' out where v: "?v = Inr (s', out)" by (auto simp: is_ok_iff)
  show ?thesis using v void_needs_proof_of_absence [OF wf_unverified v] by blast
qed

section \<open>Evidence that arrives late\<close>

lemma find_index_unique:
  assumes "wf_store s" and "r \<in> set (db_rungs s)"
  shows "find (\<lambda>x. r_rung_index x = r_rung_index r) (list_rungs s (r_proposal_pk r)) = Some r"
proof -
  have inj: "inj_on (\<lambda>r. (r_proposal_pk r, r_rung_index r)) (set (db_rungs s))"
    using assms(1) by (simp add: wf_store_def distinct_map)
  have "r \<in> set (list_rungs s (r_proposal_pk r))" using assms(2) by simp
  then obtain x where x: "find (\<lambda>x. r_rung_index x = r_rung_index r) (list_rungs s (r_proposal_pk r)) = Some x"
    using find_some_ex [of r _ "\<lambda>x. r_rung_index x = r_rung_index r"] by blast
  then have "r_rung_index x = r_rung_index r" "x \<in> set (db_rungs s)" "r_proposal_pk x = r_proposal_pk r"
    by (auto dest!: find_SomeD)
  then have "x = r" using inj_onD [OF inj, of x r] assms(2) by simp
  then show ?thesis using x by simp
qed

text \<open>The rung seen by the search, locked after a history: it moved along the graph.\<close>

lemma locked_after_history:
  assumes wf: "wf_store seen" and r: "r \<in> set (db_rungs seen)" and g: "g \<in> set (db_groups seen)"
    and pk: "r_proposal_pk r = g_id g" and e: "evolves N seen s"
  obtains g' r' where "get_locked_rung (g_proposal_id g) (r_rung_index r) s = Inr (g', r')"
    "rung_evolves r r'"
proof -
  obtain g' where g': "g' \<in> set (db_groups s)" "group_payload g' = group_payload g"
    using e g by (auto simp: evolves_def group_evolves_def)
  obtain r' where r': "r' \<in> set (db_rungs s)" "rung_evolves r r'" using e r by (auto simp: evolves_def)
  have wf': "wf_store s" by (rule evolves_wf [OF e])
  have ids: "g_proposal_id g' = g_proposal_id g" "g_id g' = g_id g" using g'(2) by (simp_all add: group_payload_def)
  have rids: "r_rung_index r' = r_rung_index r" "r_proposal_pk r' = r_proposal_pk r"
    using r'(2) by (simp_all add: rung_evolves_def rung_payload_def)
  have "get_group_by_proposal_id s (g_proposal_id g) = Some g'"
    using get_group_unique [OF wf' g'(1)] ids by simp
  moreover have "find (\<lambda>x. r_rung_index x = r_rung_index r) (list_rungs s (g_id g')) = Some r'"
    using find_index_unique [OF wf' r'(1)] ids rids pk by simp
  ultimately have "get_locked_rung (g_proposal_id g) (r_rung_index r) s = Inr (g', r')"
    by (simp add: get_locked_rung_def)
  then show thesis using that r'(2) by blast
qed

lemma evidence_match:
  assumes "find_rung_by_evidence s co bo ik (Some S) mode = Some (pid, r)"
  obtains g where "g \<in> set (db_groups s)" "g_proposal_id g = pid" "r \<in> set (db_rungs s)"
    "r_proposal_pk r = g_id g" "r_state r \<in> S"
proof -
  have m: "rung_matches s col v (Some S) mode = Some (pid, r) \<Longrightarrow>
      \<exists>g. g \<in> set (db_groups s) \<and> g_proposal_id g = pid \<and> r \<in> set (db_rungs s) \<and> r_proposal_pk r = g_id g \<and> r_state r \<in> S"
    for col v
    by (auto simp: rung_matches_def split: option.splits dest!: find_SomeD)
  have "\<exists>col v. rung_matches s col v (Some S) mode = Some (pid, r)"
    using assms by (auto simp: find_rung_by_evidence_def split: option.splits)
  then show thesis using m that by blast
qed

lemma broker_open_edges:
  "a \<in> {Acked, Resting, PartiallyFilled, Unverified} \<Longrightarrow> b \<in> {Filled, PartiallyFilled, Cancelled, Expired} \<Longrightarrow>
   a = b \<or> b \<in> ALLOWED a \<or> (a = Acked \<and> b = Expired)"
  by auto

text \<open>What recording evidence on an open rung gives.\<close>

lemma open_rung_evidence:
  assumes wf: "wf_store s" and l: "r' \<in> set (db_rungs s)" and st: "st \<in> {Filled, PartiallyFilled, Cancelled, Expired}"
    and dom: "is_terminal (r_state r') \<or> r_state r' \<in> {Acked, Resting, PartiallyFilled, Unverified}"
  shows "case apply_fill_evidence g' r' q st t s of
      Inl e \<Rightarrow> st = Expired \<and> e = BadTransition (NotAllowed ''acked'' ''expired'')
    | Inr (s', None) \<Rightarrow> s' = s
    | Inr (s', Some r) \<Rightarrow> r_state r = st \<and> r \<in> set (db_rungs s')"
proof -
  show ?thesis
  proof (cases "is_terminal (r_state r')")
    case True
    then show ?thesis by (simp only: apply_fill_evidence_def) simp
  next
    case nt: False
    show ?thesis
    proof (cases "r_state r' = st")
      case True
      show ?thesis
      proof (cases "adds_quantity q r'")
        case False
        then show ?thesis using nt True by (simp only: apply_fill_evidence_def) simp
      next
        case adds: True
        let ?r = "fill_audit t q (r'\<lparr>r_updated_at := db_now s\<rparr>)"
        have a: "apply_fill_evidence g' r' q st t s = Inr (put_rung ?r s, Some ?r)"
          using nt True adds by (simp only: apply_fill_evidence_def update_rung_def Let_def) simp
        have "r_id ?r = r_id r'" "r_state ?r = st" using True by (simp_all add: fill_audit_def stamp_def)
        then show ?thesis unfolding a using put_rung_rows [OF wf l, of ?r ?r] by simp
      qed
    next
      case False
      then have c: "st \<in> ALLOWED (r_state r') \<or> (r_state r' = Acked \<and> st = Expired)"
        using broker_open_edges [OF _ st, of "r_state r'"] dom nt by blast
      have a: "apply_fill_evidence g' r' q st t s =
          bindR (transition_locked_rung g' r' st (fill_audit t q) s) (\<lambda>(s1, r1). Inr (s1, Some r1))"
        using nt False by (simp only: apply_fill_evidence_def) simp
      show ?thesis
      proof (cases "transition_locked_rung g' r' st (fill_audit t q) s")
        case (Inl e)
        then have "st \<notin> ALLOWED (r_state r') \<and> e = BadTransition (NotAllowed (state_name (r_state r')) (state_name st))"
          by (auto simp: transition_locked_rung_def bindR_eq_Inl Let_def split: prod.splits)
        then show ?thesis unfolding a Inl using c by auto
      next
        case (Inr p)
        obtain s' r1 where p: "p = (s', r1)" by (cases p)
        note ti = transition_locked_rung_Inr [OF Inr [unfolded p]]
        have "r_id r1 = r_id r'" "r_state r1 = st" unfolding ti(2) by (simp_all add: fill_audit_def stamp_def)
        moreover have "r1 \<in> set (db_rungs s')"
          unfolding ti(3) using put_rung_rows [OF wf l calculation(1), of r1] by simp
        ultimately show ?thesis unfolding a Inr p by simp
      qed
    qed
  qed
qed

text \<open>
  broker evidence converges whatever happened between the search and the lock. The
  search result may be stale; still the evidence is applied, ignored as a repetition, or
  dropped because the rung became final, and an applied rung has the reported state. The one
  exception is an expiry reported for an acknowledged rung, which raises an invalid
  transition.
\<close>

theorem late_evidence_converges:
  assumes wf: "wf_store seen" and st: "st \<in> {Filled, PartiallyFilled, Cancelled, Expired}"
  shows "case record_fill_evidence co bo ik q st (Aware t) mode seen (history env cts seen) of
      Inl e \<Rightarrow> st = Expired \<and> e = BadTransition (NotAllowed ''acked'' ''expired'')
    | Inr (s', None) \<Rightarrow> s' = history env cts seen
    | Inr (s', Some r) \<Rightarrow> r_state r = st \<and> r \<in> set (db_rungs s')"
proof (cases "find_rung_by_evidence seen co bo ik (Some EVIDENCE_ACCEPTING_RUNG_STATES) mode")
  case None
  then show ?thesis by (simp add: record_fill_evidence_def)
next
  case (Some m)
  obtain pid r where m: "m = (pid, r)" by (cases m)
  let ?s = "history env cts seen"
  have ev: "evolves UNIV seen ?s" by (rule history_evolves [OF wf]) simp
  obtain g where g: "g \<in> set (db_groups seen)" "g_proposal_id g = pid" "r \<in> set (db_rungs seen)"
      "r_proposal_pk r = g_id g" and rs: "r_state r \<in> EVIDENCE_ACCEPTING_RUNG_STATES"
    using evidence_match [of seen co bo ik EVIDENCE_ACCEPTING_RUNG_STATES mode pid r] Some m by metis
  obtain g' r' where lk: "get_locked_rung pid (r_rung_index r) ?s = Inr (g', r')" and re: "rung_evolves r r'"
    using locked_after_history [OF wf g(3,1,4) ev] g(2) by metis
  have l: "r' \<in> set (db_rungs ?s)" using get_locked_rung_Inr [OF lk] by simp
  have wfs: "wf_store ?s" by (rule evolves_wf [OF ev])
  have edges: "(r_state r, r_state r') \<in> rung_edges\<^sup>*" using re by (simp add: rung_evolves_def)
  have dom: "is_terminal (r_state r') \<or> r_state r' \<in> {Acked, Resting, PartiallyFilled, Unverified}"
    using rung_edges_rtrancl_broker [OF edges] rs
    by (auto simp: BROKER_OPEN_def EVIDENCE_ACCEPTING_RUNG_STATES_def)
  have rec: "record_fill_evidence co bo ik q st (Aware t) mode seen ?s = apply_fill_evidence g' r' q st t ?s"
    using Some m lk by (simp add: record_fill_evidence_def)
  show ?thesis unfolding rec by (rule open_rung_evidence [OF wfs l st dom])
qed

theorem late_evidence_converges_witness:
  "\<exists>s' r. record_fill_evidence None (Some ''b1'') None (Some 10) Filled (Aware 30) None sample_store
      (history sample_env [(Fill None (Some ''b1'') None (Some 4) PartiallyFilled (Aware 20) None sample_store, 20)]
         sample_store) = Inr (s', Some r) \<and> r_state r = Filled"
proof -
  let ?s = "history sample_env [(Fill None (Some ''b1'') None (Some 4) PartiallyFilled (Aware 20) None sample_store, 20)]
         sample_store"
  let ?f = "record_fill_evidence None (Some ''b1'') None (Some 10) Filled (Aware 30) None sample_store ?s"
  have "(case ?f of Inr p \<Rightarrow> snd p \<noteq> None | _ \<Rightarrow> False)" by code_simp
  then obtain s' r where f: "?f = Inr (s', Some r)" by (auto split: sum.splits)
  have "Filled \<in> {Filled, PartiallyFilled, Cancelled, Expired}" by simp
  from late_evidence_converges [OF wf_sample this, where co = None and bo = "Some ''b1''" and ik = None
      and q = "Some 10" and t = 30 and mode = None and env = sample_env
      and cts = "[(Fill None (Some ''b1'') None (Some 4) PartiallyFilled (Aware 20) None sample_store, 20)]"]
  show ?thesis unfolding f by auto
qed

text \<open>The exception, on a concrete store: an acknowledged order that the broker reports expired.\<close>

lemma acked_expiry_raises:
  "record_fill_evidence None (Some ''b1'') None None Expired (Aware 30) None
     (sample_store\<lparr>db_rungs := [sample_rung 1 1 0 Acked (Some ''b1'')]\<rparr>)
     (sample_store\<lparr>db_rungs := [sample_rung 1 1 0 Acked (Some ''b1'')]\<rparr>)
   = Inl (BadTransition (NotAllowed ''acked'' ''expired''))"
  by code_simp

section \<open>Unambiguous evidence\<close>

lemma fold_inter_subset: "x \<in> fold (\<inter>) Ss S \<longleftrightarrow> x \<in> S \<and> (\<forall>T \<in> set Ss. x \<in> T)"
  by (induction Ss arbitrary: S) auto

lemma intersect_all_iff: "Ss \<noteq> [] \<Longrightarrow> x \<in> intersect_all Ss \<longleftrightarrow> (\<forall>T \<in> set Ss. x \<in> T)"
  by (cases Ss) (auto simp: intersect_all_def fold_inter_subset)

text \<open>The rungs that carry a key, in the given account, symbol and market.\<close>

definition carriers ::
  "store \<Rightarrow> string \<Rightarrow> string \<Rightarrow> string \<Rightarrow> (rung \<Rightarrow> string option) \<Rightarrow> string option \<Rightarrow> int set" where
  "carriers s account_mode symbol market column key =
     (case key of None \<Rightarrow> {}
      | Some v \<Rightarrow> {r_id r | r. r \<in> set (db_rungs s) \<and> column r = Some v \<and>
          (\<exists>g \<in> set (db_groups s). g_id g = r_proposal_pk r \<and> g_account_mode g = account_mode \<and>
             g_symbol g = symbol \<and> g_market g = market)})"

lemma evidence_ids_carriers: "set (evidence_ids s a sy mk col key) = carriers s a sy mk col key"
  by (auto simp: evidence_ids_def carriers_def split: option.splits)

text \<open>
  the strict matcher answers a rung only when every key that matches anything in the
  account, symbol and market matches exactly one rung in common, and that is its answer; a
  duplicated broker order id is never accepted. It answers nothing exactly when no key
  matches. Every other constellation raises.
\<close>

theorem strict_match_is_unambiguous:
  "let B = carriers s a sy mk r_broker_order_id bo; C = carriers s a sy mk r_correlation_id co;
       K = carriers s a sy mk r_idempotency_key ik; Ss = filter (\<lambda>S. S \<noteq> {}) [B, C, K]
   in case find_unambiguous_evidence_rung_id co bo ik a sy mk s of
        Inr None \<Rightarrow> Ss = []
      | Inr (Some i) \<Rightarrow> Ss \<noteq> [] \<and> \<Inter> (set Ss) = {i} \<and> card B \<le> 1
      | Inl e \<Rightarrow> Ss \<noteq> [] \<and> (card B > 1 \<or> \<Inter> (set Ss) = {} \<or> card (\<Inter> (set Ss)) > 1)"
proof -
  define B where "B = carriers s a sy mk r_broker_order_id bo"
  define C where "C = carriers s a sy mk r_correlation_id co"
  define K where "K = carriers s a sy mk r_idempotency_key ik"
  define Ss where "Ss = filter (\<lambda>S. S \<noteq> {}) [B, C, K]"
  have fin: "finite B" "finite C" "finite K"
    by (simp_all add: B_def C_def K_def evidence_ids_carriers [symmetric])
  have int: "Ss \<noteq> [] \<Longrightarrow> intersect_all Ss = \<Inter> (set Ss)" by (auto simp: intersect_all_iff)
  have res: "find_unambiguous_evidence_rung_id co bo ik a sy mk s =
      (if co = None \<and> bo = None \<and> ik = None then Inr None
       else if Ss = [] then Inr None
       else if card B > 1 then Inl (ProposalError ''broker_id_duplicate'')
       else if B = {} \<and> K = {} \<and> card C > 1 then Inl (ProposalError ''content_hash_only_ambiguous'')
       else if intersect_all Ss = {} then Inl (ProposalError ''proposal_evidence_conflict'')
       else if card (intersect_all Ss) > 1 then Inl (ProposalError ''proposal_evidence_ambiguous'')
       else Inr (Some (Min (intersect_all Ss))))"
    unfolding find_unambiguous_evidence_rung_id_def Let_def evidence_ids_carriers
      B_def [symmetric] C_def [symmetric] K_def [symmetric] Ss_def [symmetric] by (rule refl)
  have none: "co = None \<and> bo = None \<and> ik = None \<Longrightarrow> Ss = []"
    by (simp add: Ss_def B_def C_def K_def carriers_def)
  have fini: "finite (\<Inter> (set Ss))" if "Ss \<noteq> []"
  proof -
    obtain S where "S \<in> set Ss" using \<open>Ss \<noteq> []\<close> by (cases Ss) auto
    moreover then have "finite S" using fin by (auto simp: Ss_def split: if_splits)
    ultimately show ?thesis by (meson Inter_lower finite_subset)
  qed
  have alone: "\<Inter> (set Ss) = C" if "B = {}" "K = {}" "Ss \<noteq> []" using that by (auto simp: Ss_def split: if_splits)
  have one: "\<Inter> (set Ss) = {Min (\<Inter> (set Ss))}" if ne: "Ss \<noteq> []" and i: "\<Inter> (set Ss) \<noteq> {}" "\<not> card (\<Inter> (set Ss)) > 1"
  proof -
    have "card (\<Inter> (set Ss)) = 1"
      using i fini [OF ne] by (metis card_0_eq less_one linorder_neqE_nat)
    then obtain x where "\<Inter> (set Ss) = {x}" by (metis card_1_singletonE)
    then show ?thesis by simp
  qed
  show ?thesis
    unfolding B_def [symmetric] C_def [symmetric] K_def [symmetric] Let_def Ss_def [symmetric] res
    using none int one alone by (auto simp: not_less)
qed

end
