(* ===== verification/CreationSafety.thy ===== *)
theory CreationSafety
  imports ProposalSafety
begin

text \<open>
  What a successful \<open>create_proposal\<close> guarantees: the validity floor of defensive proposals,
  the stored row and its rungs, the contracts of the actions that target a broker order, the
  binding of a loss cut to a fresh retrospective, and the take-over by supersession.
\<close>

section \<open>The defensive validity floor\<close>

lemma min_list_int_in: "xs \<noteq> [] \<Longrightarrow> min_list_int xs \<in> set xs"
proof -
  have "foldr min ys y \<in> insert y (set ys)" for y and ys :: "int list"
    by (induction ys) (auto simp: min_def)
  then show "xs \<noteq> [] \<Longrightarrow> min_list_int xs \<in> set xs" by (cases xs) (simp_all add: min_list_int_def)
qed

lemma min_list_int_le: "x \<in> set xs \<Longrightarrow> min_list_int xs \<le> x"
proof -
  have "z \<in> insert y (set ys) \<Longrightarrow> foldr min ys y \<le> z" for y z and ys :: "int list"
    by (induction ys) auto
  then show "x \<in> set xs \<Longrightarrow> min_list_int xs \<le> x" by (cases xs) (simp_all add: min_list_int_def)
qed

text \<open>The time of day in KST.\<close>

definition kst_time :: "int \<Rightarrow> int" where "kst_time t = (t + kst_offset) mod days 1"

lemma kst_split: "t = kst_midnight t + kst_time t"
  using div_mult_mod_eq [of "t + kst_offset" "days 1"] unfolding kst_midnight_def kst_time_def by linarith

lemma kst_time_at: "0 \<le> b \<Longrightarrow> b < days 1 \<Longrightarrow> kst_time (kst_midnight t + days 1 * k + b) = b"
proof -
  assume b: "0 \<le> b" "b < days 1"
  have "kst_midnight t + days 1 * k + b + kst_offset = b + ((t + kst_offset) div days 1 + k) * days 1"
    by (simp add: kst_midnight_def algebra_simps)
  then show ?thesis using b by (simp only: kst_time_def mod_mult_self1) simp
qed

lemma kst_midnight_later:
  assumes "t < x" and "kst_midnight x \<noteq> kst_midnight t"
  shows "kst_midnight t + days 1 \<le> kst_midnight x"
proof -
  let ?a = "(t + kst_offset) div days 1" and ?b = "(x + kst_offset) div days 1"
  have "?a \<le> ?b" by (rule zdiv_mono1) (use assms(1) in simp_all)
  then have "?a + 1 \<le> ?b" using assms(2) by (auto simp: kst_midnight_def)
  then have "(?a + 1) * days 1 \<le> ?b * days 1" by (rule mult_right_mono) (simp add: time_defs)
  then show ?thesis by (simp add: kst_midnight_def algebra_simps)
qed

lemma windows_in_day: "(a, b) \<in> set (APPROVAL_WINDOWS_BY_MARKET m) \<Longrightarrow> 0 \<le> b \<and> b < days 1"
  by (auto simp: APPROVAL_WINDOWS_BY_MARKET_def US_APPROVAL_WINDOWS_def KR_APPROVAL_WINDOWS_def clock_def
      time_defs split: if_splits)

text \<open>
  for a market with approval windows the floor of a defensive proposal is the first
  instant after now at which such a window closes in KST; other markets have no floor.
\<close>

theorem defensive_floor_is_the_next_window_end:
  "case resolve_defensive_valid_until market (Aware t) of
     Inl e \<Rightarrow> False
   | Inr None \<Rightarrow> APPROVAL_WINDOWS_BY_MARKET market = []
   | Inr (Some f) \<Rightarrow> t < f \<and> kst_time f \<in> snd ` set (APPROVAL_WINDOWS_BY_MARKET market) \<and>
       \<not> (\<exists>x. t < x \<and> x < f \<and> kst_time x \<in> snd ` set (APPROVAL_WINDOWS_BY_MARKET market))"
proof (cases "APPROVAL_WINDOWS_BY_MARKET market = []")
  case True
  then show ?thesis by (simp add: resolve_defensive_valid_until_def)
next
  case False
  let ?W = "APPROVAL_WINDOWS_BY_MARKET market"
  let ?E = "map snd ?W"
  let ?up = "filter (\<lambda>e. e > t) (map (\<lambda>(_, e). kst_midnight t + e) ?W)"
  define f where "f = (if ?up \<noteq> [] then min_list_int ?up else kst_midnight t + days 1 + min_list_int ?E)"
  have res: "resolve_defensive_valid_until market (Aware t) = Inr (Some f)"
    using False by (simp add: resolve_defensive_valid_until_def f_def Let_def)
  have E: "0 \<le> b \<and> b < days 1" if "b \<in> set ?E" for b using that windows_in_day by auto
  have minE: "min_list_int ?E \<in> set ?E" using False by (intro min_list_int_in) simp
  have upD: "\<exists>b \<in> set ?E. x = kst_midnight t + b \<and> t < x" if "x \<in> set ?up" for x using that by force
  have f: "t < f \<and> kst_time f \<in> set ?E"
  proof (cases "?up = []")
    case True
    have "kst_time (kst_midnight t + days 1 * 1 + min_list_int ?E) = min_list_int ?E"
      by (rule kst_time_at) (use E [OF minE] in simp_all)
    then show ?thesis using True minE E [OF minE] kst_midnight_next [of t] by (simp add: f_def)
  next
    case ne: False
    have "f \<in> set ?up" using min_list_int_in [OF ne] unfolding f_def if_P [OF ne] .
    then obtain b where b: "b \<in> set ?E" "f = kst_midnight t + b" "t < f" using upD by blast
    have "kst_time (kst_midnight t + days 1 * 0 + b) = b" by (rule kst_time_at) (use E [OF b(1)] in simp_all)
    then show ?thesis using b by simp
  qed
  have least: "f \<le> x" if x: "t < x" "kst_time x \<in> set ?E" for x
  proof (cases "kst_midnight x = kst_midnight t")
    case True
    then have "x = kst_midnight t + kst_time x" using kst_split [of x] by simp
    then have xin: "x \<in> set ?up" using x by force
    then have ne: "?up \<noteq> []" by (metis empty_iff list.set(1))
    show ?thesis using min_list_int_le [OF xin] unfolding f_def if_P [OF ne] .
  next
    case False
    then have later: "kst_midnight t + days 1 \<le> kst_midnight x" by (rule kst_midnight_later [OF x(1)])
    have bound: "kst_midnight t + days 1 + kst_time x \<le> x" using later kst_split [of x] by linarith
    show ?thesis
    proof (cases "?up = []")
      case True
      then show ?thesis using bound min_list_int_le [OF x(2)] by (simp add: f_def)
    next
      case ne: False
      have "f \<in> set ?up" using min_list_int_in [OF ne] unfolding f_def if_P [OF ne] .
      then obtain b where "b \<in> set ?E" "f = kst_midnight t + b" using upD by blast
      then show ?thesis using E [of b] E [OF x(2)] bound by linarith
    qed
  qed
  then have "\<not> (\<exists>x. t < x \<and> x < f \<and> kst_time x \<in> snd ` set ?W)" by (metis list.set_map not_less)
  then show ?thesis unfolding res using f by simp
qed

section \<open>What a created proposal looks like\<close>

text \<open>The rungs of the new group, one per input and in the same order.\<close>

definition rung_of_input :: "int \<Rightarrow> rung_input \<Rightarrow> rung \<Rightarrow> bool" where
  "rung_of_input pk i r \<longleftrightarrow>
     r_proposal_pk r = pk \<and> r_rung_index r = ri_rung_index i \<and> r_side r = ri_side i \<and> r_side r \<in> SIDES \<and>
     r_quantity r = numeric_round (dec_value (ri_quantity i)) \<and>
     r_limit_price r = map_option (\<lambda>d. numeric_round (dec_value d)) (ri_limit_price i) \<and>
     r_state r = PendingApproval \<and> r_broker_order_id r = None \<and> r_filled_qty r = None"

lemma numeric_column_opt_Inr:
  "numeric_column_opt v = Inr x \<Longrightarrow> x = map_option (\<lambda>d. numeric_round (dec_value d)) v"
  by (auto simp: numeric_column_opt_def numeric_column_def Let_def bindR_eq_Inr split: option.splits if_splits)

lemma create_rung_row:
  assumes wf: "wf_store s" and pk: "pk \<in> g_id ` set (db_groups s)" and ok: "create_rung pk i s = Inr s'"
  shows "wf_store s' \<and> db_groups s' = db_groups s \<and> (\<exists>x. db_rungs s' = db_rungs s @ [x] \<and> rung_of_input pk i x)"
proof -
  from ok obtain q p n r1 where q: "numeric_column (ri_quantity i) = Inr q"
    and p: "numeric_column_opt (ri_limit_price i) = Inr p"
    and ins: "insert_rung \<lparr>r_id = 0, r_proposal_pk = pk, r_rung_index = ri_rung_index i, r_side = ri_side i,
                  r_quantity = q, r_limit_price = p, r_notional = n,
                  r_state = PendingApproval, r_approval_hash_digest = None, r_approval_revision = None,
                  r_idempotency_key = None, r_broker_order_id = None, r_correlation_id = None,
                  r_validated_at = None, r_filled_qty = None, r_void_reason = None,
                  r_created_at = 0, r_updated_at = 0\<rparr> s = Some (s', r1)"
    by (auto simp: create_rung_def bindR_eq_Inr)
  have side: "ri_side i \<in> SIDES" using ins by (auto simp: insert_rung_def Let_def split: if_splits)
  have qv: "q = numeric_round (dec_value (ri_quantity i))"
    using q by (auto simp: numeric_column_def Let_def split: if_splits)
  note row = insert_rung_Some [OF wf _ ins]
  have "rung_of_input pk i r1"
    using row(4) pk side qv numeric_column_opt_Inr [OF p] by (simp add: rung_of_input_def)
  then show ?thesis using row(1-3) pk by auto
qed

lemma create_rung_rows:
  assumes "wf_store s" and "pk \<in> g_id ` set (db_groups s)"
    and "foldR (\<lambda>s' r. create_rung pk r s') s is = Inr s'"
  shows "\<exists>new. db_rungs s' = db_rungs s @ new \<and> list_all2 (rung_of_input pk) is new"
  using assms
proof (induction "is" arbitrary: s)
  case Nil
  then show ?case by simp
next
  case (Cons i "is")
  from Cons.prems(3) obtain s1 where s1: "create_rung pk i s = Inr s1"
    and rest: "foldR (\<lambda>s' r. create_rung pk r s') s1 is = Inr s'"
    by (auto simp: bindR_eq_Inr)
  obtain x where x: "wf_store s1" "db_groups s1 = db_groups s" "db_rungs s1 = db_rungs s @ [x]" "rung_of_input pk i x"
    using create_rung_row [OF Cons.prems(1,2) s1] by blast
  obtain new where "db_rungs s' = db_rungs s1 @ new" "list_all2 (rung_of_input pk) is new"
    using Cons.IH [OF x(1) _ rest] Cons.prems(2) x(2) by auto
  then show ?case using x by (intro exI [of _ "x # new"]) simp
qed

lemma resolve_valid_until_future:
  assumes "resolve_valid_until q t = Inr v"
  shows "t < v" and "q_valid_until q = Some (Aware u) \<Longrightarrow> u \<le> v"
proof -
  from assms obtain fl vu where
    vu: "(case q_valid_until q of
              None \<Rightarrow> Inr (kst_midnight t + days 1)
            | Some v \<Rightarrow> bindR (require_timezone_aware v) (\<lambda>u.
                if u \<le> t then Inl (ProposalError ''valid_until must be in the future'') else Inr u)) = Inr vu"
    and v: "v = (case fl of None \<Rightarrow> vu | Some f \<Rightarrow> if vu < f then f else vu)"
    by (auto simp: resolve_valid_until_def bindR_eq_Inr)
  have "t < vu" using vu kst_midnight_next [of t] by (auto simp: bindR_eq_Inr split: option.splits if_splits)
  then show "t < v" using v by (auto split: option.splits if_splits)
  show "u \<le> v" if "q_valid_until q = Some (Aware u)"
    using that vu v by (auto split: option.splits if_splits)
qed

lemma check_action_capability_Inr:
  "check_action_capability a m k = Inr n \<Longrightarrow>
     (m, k) \<in> SUBMITTABLE_ACCOUNT_MODE_MARKETS \<and> n \<in> {''place'', ''replace'', ''cancel''}"
  by (auto simp: check_action_capability_def action_capabilities_def Let_def SUPPORTED_TARGET_ACTIONS_def
      SUBMITTABLE_ACCOUNT_MODE_MARKETS_def split: if_splits option.splits)

lemma create_action:
  assumes "validate_action_contract ri si a m k sy sd ot rs tb ts = Inr (action, target)"
  shows "check_action_capability a m k = Inr action"
  using assms by (auto simp: validate_action_contract_def bindR_eq_Inr split: if_splits list.splits option.splits)

text \<open>A supersession rewrites the rows of the old group only.\<close>

lemma supersede_group_other:
  assumes wf: "wf_store s" and grp: "grp \<in> set (db_groups s)" and ok: "supersede_group grp pid t s = Inr s'"
  obtains s1 where "rungs_rewritten (g_id grp) s s1"
    "s' = put_group (grp\<lparr>g_updated_at := db_now s1, g_lifecycle_state := GSuperseded,
              g_superseded_by_proposal_id := Some pid, g_approval_nonce_used_at := Some t\<rparr>) s1"
    "foldR (supersede_step t) s (list_rungs s (g_id grp)) = Inr s1"
proof -
  from ok obtain s1 where s1: "foldR (supersede_step t) s (list_rungs s (g_id grp)) = Inr s1"
    and s': "s' = put_group (grp\<lparr>g_updated_at := db_now s1, g_lifecycle_state := GSuperseded,
              g_superseded_by_proposal_id := Some pid, g_approval_nonce_used_at := Some t\<rparr>) s1"
    by (auto simp: supersede_group_def bindR_eq_Inr update_group_def Let_def)
  have "rungs_rewritten (g_id grp) s s1"
    by (rule supersede_loop [OF wf _ _ distinct_list_rungs [OF wf] s1]) auto
  then show thesis using that s' s1 by blast
qed

text \<open>
  a created proposal is live and complete. Its account and market can be submitted to,
  its identifier was free, it is stored as proposed, not superseded and without a nonce, with
  the hash of its payload; it is valid strictly after now and at least as long as the caller
  asked; its rungs are exactly the inputs, each pending approval, with the quantities rounded
  as the columns round them.
\<close>

theorem created_proposal_is_pending:
  assumes wf: "wf_store s" and ok: "create_proposal hash ri si retros q pid now s = Inr (s', g)"
  shows "\<exists>t v action snapshot new. now = Aware t \<and> t < v \<and> g_valid_until g = Some v \<and>
    (\<forall>u. q_valid_until q = Some (Aware u) \<longrightarrow> u \<le> v) \<and>
    (q_account_mode q, q_market q) \<in> SUBMITTABLE_ACCOUNT_MODE_MARKETS \<and>
    get_group_by_proposal_id s pid = None \<and> get_group_by_proposal_id s' pid = Some g \<and>
    g_lifecycle_state g = Proposed \<and> proposal_approval_block_reason g = None \<and> g_approval_nonce g = None \<and>
    g_payload_hash g = Some (hash (payload_content_of q action snapshot)) \<and>
    new \<noteq> [] \<and> list_all2 (rung_of_input (g_id g)) (q_rungs q) new \<and>
    set (list_rungs s' (g_id g)) = set new"
proof -
  from ok obtain t action target vu old where now: "now = Aware t" and rungs: "q_rungs q \<noteq> []"
    and act: "validate_action_contract ri si (q_action q) (q_account_mode q) (q_market q) (q_symbol q) (q_side q)
       (q_order_type q) (q_rungs q) (q_target_broker_order_id q) (q_target_order_snapshot q) = Inr (action, target)"
    and vu: "resolve_valid_until q t = Inr vu" and oldr: "find_superseded q s = Inr old"
    and ip: "insert_proposal hash q pid action (map_option to_payload target) vu old t s = Inr (s', g)"
    by (rule create_proposal_Inr)
  from ip obtain s1 s2 where ig: "insert_group (new_group q pid (case old of None \<Rightarrow> pid | Some o1 \<Rightarrow> g_root_proposal_id o1)
       (hash (payload_content_of q action (map_option to_payload target))) action vu
       (merged_source_asof q (map_option to_payload target))) s = Some (s1, g)"
    and fold: "foldR (\<lambda>s' r. create_rung (g_id g) r s') s1 (q_rungs q) = Inr s2"
    and sup: "(case old of None \<Rightarrow> Inr s2 | Some o1 \<Rightarrow> supersede_group o1 pid t s2) = Inr s'"
    by (rule insert_proposal_Inr)
  note ins = insert_group_Some [OF wf ig]
  have pidg: "g_proposal_id g = pid" by (simp add: ins(4) new_group_def)
  obtain new where new: "db_rungs s2 = db_rungs s @ new" "list_all2 (rung_of_input (g_id g)) (q_rungs q) new"
    using create_rung_rows [OF ins(1) _ fold] ins(2,3) by auto
  obtain wf2: "wf_store s2" and gs2: "db_groups s2 = db_groups s @ [g]"
    using create_rungs_Inr [OF ins(1) _ fold] ins(2) by auto
  have newpk: "\<forall>x \<in> set new. r_proposal_pk x = g_id g"
    using list_all2_set [OF new(2)] by (auto simp: rung_of_input_def)
  have "\<forall>r \<in> set (db_rungs s). r_proposal_pk r \<in> g_id ` set (db_groups s)" using wf by (simp add: wf_store_def)
  then have old_pk: "\<forall>r \<in> set (db_rungs s). r_proposal_pk r \<noteq> g_id g" using ins(5) by fastforce
  have rows2: "set (list_rungs s2 (g_id g)) = set new" using new(1) newpk old_pk by auto
  have g2: "g \<in> set (db_groups s2)" using gs2 by simp
  have fin: "get_group_by_proposal_id s' pid = Some g \<and> set (list_rungs s' (g_id g)) = set new"
  proof (cases old)
    case None
    then show ?thesis using sup get_group_unique [OF wf2 g2] pidg rows2 by simp
  next
    case (Some o1)
    then have o1: "o1 \<in> set (db_groups s)" using find_superseded_Inr [OF oldr] get_group_in by auto
    have ne: "g_id o1 \<noteq> g_id g" using ins(5) o1 by force
    have o2: "o1 \<in> set (db_groups s2)" using o1 gs2 by simp
    have sg: "supersede_group o1 pid t s2 = Inr s'" using sup Some by simp
    obtain s3 where s3: "rungs_rewritten (g_id o1) s2 s3"
      "s' = put_group (o1\<lparr>g_updated_at := db_now s3, g_lifecycle_state := GSuperseded,
              g_superseded_by_proposal_id := Some pid, g_approval_nonce_used_at := Some t\<rparr>) s3"
      by (rule supersede_group_other [OF wf2 o2 sg])
    have wf': "wf_store s'" by (rule evolves_wf [OF create_proposal_evolves [OF wf ok]])
    have "g \<in> set (db_groups s')"
      using g2 s3 ne by (auto simp: groups.rows_put write_row_def rungs_rewritten_def image_iff)
    moreover have "set (list_rungs s' (g_id g)) = set new"
      using s3(1) rows2 ne unfolding s3(2) rungs_rewritten_def by (simp only: list_rungs_put_group)
    ultimately show ?thesis using get_group_unique [OF wf'] pidg by metis
  qed
  have free: "get_group_by_proposal_id s pid = None"
    using ins(6) pidg by (simp add: get_group_by_proposal_id_def find_None_all)
  have cols: "g_valid_until g = Some vu" "g_lifecycle_state g = Proposed" "g_approval_nonce g = None"
      "g_payload_hash g = Some (hash (payload_content_of q action (map_option to_payload target)))"
      "g_superseded_by_proposal_id g = None"
    by (simp_all add: ins(4) new_group_def)
  have live: "proposal_approval_block_reason g = None"
    using cols by (simp add: proposal_approval_block_reason_def APPROVAL_TERMINAL_GROUP_STATES_def)
  have ne: "new \<noteq> []" using list_all2_lengthD [OF new(2)] rungs by auto
  show ?thesis
    using now resolve_valid_until_future [OF vu] check_action_capability_Inr [OF create_action [OF act]] cols live
      free fin new(2) ne
    by (intro exI [of _ t] exI [of _ vu] exI [of _ action] exI [of _ "map_option to_payload target"] exI [of _ new]) simp
qed
section \<open>Supersession\<close>

definition superseded_state :: "rung_state \<Rightarrow> rung_state" where
  "superseded_state st = (if st \<in> SUPERSEDE_INVALIDATABLE_RUNG_STATES then Superseded else st)"

lemma supersede_step_row:
  assumes wf: "wf_store s" and r: "r \<in> set (db_rungs s)" and ok: "supersede_step t s r = Inr s1"
  shows "\<exists>r1 \<in> set (db_rungs s1). r_id r1 = r_id r \<and> r_proposal_pk r1 = r_proposal_pk r \<and>
           r_state r1 = superseded_state (r_state r)"
    and "x \<in> set (db_rungs s) \<Longrightarrow> r_id x \<noteq> r_id r \<Longrightarrow> x \<in> set (db_rungs s1)"
    and "wf_store s1"
    and "x \<in> set (db_rungs s1) \<Longrightarrow> \<exists>y \<in> set (db_rungs s). r_id y = r_id x \<and> r_proposal_pk y = r_proposal_pk x"
proof -
  let ?r = "stamp t (r\<lparr>r_updated_at := db_now s, r_state := Superseded\<rparr>)"
  have cases: "s1 = (if r_state r \<in> SUPERSEDE_INVALIDATABLE_RUNG_STATES then put_rung ?r s else s)"
    using ok by (auto simp: supersede_step_def bindR_eq_Inr update_rung_def Let_def split: if_splits)
  have same: "r_id ?r = r_id r" "r_proposal_pk ?r = r_proposal_pk r" "r_state ?r = Superseded"
    by (simp_all add: stamp_def)
  note rows = put_rung_rows [OF wf r same(1)]
  show "\<exists>r1 \<in> set (db_rungs s1). r_id r1 = r_id r \<and> r_proposal_pk r1 = r_proposal_pk r \<and>
           r_state r1 = superseded_state (r_state r)"
  proof (cases "r_state r \<in> SUPERSEDE_INVALIDATABLE_RUNG_STATES")
    case True
    then have "?r \<in> set (db_rungs s1)" using cases rows by simp
    then show ?thesis using same True unfolding superseded_state_def by metis
  next
    case False
    then show ?thesis using cases r unfolding superseded_state_def by (intro bexI [of _ r]) simp_all
  qed
  show "x \<in> set (db_rungs s1)" if "x \<in> set (db_rungs s)" "r_id x \<noteq> r_id r"
    using cases rows [of x] that same(1) by (simp split: if_splits)
  show "\<exists>y \<in> set (db_rungs s). r_id y = r_id x \<and> r_proposal_pk y = r_proposal_pk x" if "x \<in> set (db_rungs s1)"
  proof (cases "x \<in> set (db_rungs s)")
    case False
    then have "x = ?r" using that cases rows [of x] by (simp split: if_splits)
    then show ?thesis using r same(1,2) by (intro bexI [of _ r]) simp_all
  qed blast
  show "wf_store s1"
    using supersede_loop [OF wf, of "[r]" "r_proposal_pk r" t s1] r ok by (simp add: rungs_rewritten_def)
qed

lemma supersede_loop_states:
  assumes "wf_store s" and "set rs \<subseteq> set (db_rungs s)" and "distinct (map r_id rs)"
    and "foldR (supersede_step t) s rs = Inr s'"
  shows "(\<forall>r \<in> set rs. \<exists>r1 \<in> set (db_rungs s'). r_id r1 = r_id r \<and> r_proposal_pk r1 = r_proposal_pk r \<and>
            r_state r1 = superseded_state (r_state r)) \<and>
         (\<forall>x \<in> set (db_rungs s). r_id x \<notin> r_id ` set rs \<longrightarrow> x \<in> set (db_rungs s')) \<and>
         (\<forall>x \<in> set (db_rungs s'). \<exists>y \<in> set (db_rungs s). r_id y = r_id x \<and> r_proposal_pk y = r_proposal_pk x)"
  using assms
proof (induction rs arbitrary: s)
  case Nil
  then show ?case by auto
next
  case (Cons r rs)
  from Cons.prems(4) obtain s1 where s1: "supersede_step t s r = Inr s1"
    and rest: "foldR (supersede_step t) s1 rs = Inr s'" by (auto simp: bindR_eq_Inr)
  have rin: "r \<in> set (db_rungs s)" using Cons.prems(2) by auto
  have new: "r_id r \<notin> r_id ` set rs" using Cons.prems(3) by simp
  note row = supersede_step_row [OF Cons.prems(1) rin s1]
  have sub: "set rs \<subseteq> set (db_rungs s1)"
  proof
    fix x assume x: "x \<in> set rs"
    then have "r_id x \<noteq> r_id r" using new by (metis image_eqI)
    then show "x \<in> set (db_rungs s1)" using x Cons.prems(2) row(2) by auto
  qed
  have IH: "(\<forall>r \<in> set rs. \<exists>r1 \<in> set (db_rungs s'). r_id r1 = r_id r \<and> r_proposal_pk r1 = r_proposal_pk r \<and>
            r_state r1 = superseded_state (r_state r)) \<and>
         (\<forall>x \<in> set (db_rungs s1). r_id x \<notin> r_id ` set rs \<longrightarrow> x \<in> set (db_rungs s')) \<and>
         (\<forall>x \<in> set (db_rungs s'). \<exists>y \<in> set (db_rungs s1). r_id y = r_id x \<and> r_proposal_pk y = r_proposal_pk x)"
    by (rule Cons.IH [OF row(3) sub _ rest]) (use Cons.prems(3) in simp)
  obtain r1 where r1: "r1 \<in> set (db_rungs s1)" "r_id r1 = r_id r" "r_proposal_pk r1 = r_proposal_pk r"
    "r_state r1 = superseded_state (r_state r)" using row(1) by blast
  have "r1 \<in> set (db_rungs s')" using IH r1(1,2) new by simp
  moreover have "x \<in> set (db_rungs s')" if "x \<in> set (db_rungs s)" "r_id x \<notin> r_id ` set (r # rs)" for x
    using that row(2) [of x] IH by simp
  moreover have "\<exists>y \<in> set (db_rungs s). r_id y = r_id x \<and> r_proposal_pk y = r_proposal_pk x"
    if "x \<in> set (db_rungs s')" for x
    using IH row(4) that by metis
  ultimately show ?case using IH r1 by auto
qed
lemma supersede_group_states:
  assumes wf: "wf_store s" and grp: "grp \<in> set (db_groups s)" and ok: "supersede_group grp pid t s = Inr s'"
    and wf': "wf_store s'"
  obtains old' where "get_group_by_proposal_id s' (g_proposal_id grp) = Some old'"
    "g_id old' = g_id grp" "g_lifecycle_state old' = GSuperseded"
    "g_superseded_by_proposal_id old' = Some pid" "g_approval_nonce_used_at old' = Some t"
    "\<forall>r \<in> set (list_rungs s (g_id grp)). \<exists>r1 \<in> set (list_rungs s' (g_id grp)).
       r_id r1 = r_id r \<and> r_state r1 = superseded_state (r_state r)"
    "\<forall>x \<in> set (list_rungs s' (g_id grp)). r_id x \<in> r_id ` set (list_rungs s (g_id grp))"
proof -
  obtain s1 where rw: "rungs_rewritten (g_id grp) s s1"
    and s': "s' = put_group (grp\<lparr>g_updated_at := db_now s1, g_lifecycle_state := GSuperseded,
              g_superseded_by_proposal_id := Some pid, g_approval_nonce_used_at := Some t\<rparr>) s1"
    and loop: "foldR (supersede_step t) s (list_rungs s (g_id grp)) = Inr s1"
    by (rule supersede_group_other [OF wf grp ok])
  let ?g = "grp\<lparr>g_updated_at := db_now s1, g_lifecycle_state := GSuperseded,
              g_superseded_by_proposal_id := Some pid, g_approval_nonce_used_at := Some t\<rparr>"
  have grp1: "grp \<in> set (db_groups s1)" and wf1: "wf_store s1" using rw grp by (simp_all add: rungs_rewritten_def)
  have "?g \<in> set (db_groups s')"
    using put_group_rows [OF wf1 grp1, of ?g ?g] by (simp add: s' group_payload_def)
  then have get: "get_group_by_proposal_id s' (g_proposal_id grp) = Some ?g"
    using get_group_unique [OF wf', of ?g] by simp
  have sub: "set (list_rungs s (g_id grp)) \<subseteq> set (db_rungs s)" by auto
  have states: "\<forall>r \<in> set (list_rungs s (g_id grp)). \<exists>r1 \<in> set (db_rungs s1). r_id r1 = r_id r \<and>
      r_proposal_pk r1 = r_proposal_pk r \<and> r_state r1 = superseded_state (r_state r)"
    using supersede_loop_states [OF wf sub distinct_list_rungs [OF wf] loop] by blast
  have after: "\<forall>r \<in> set (list_rungs s (g_id grp)). \<exists>r1 \<in> set (list_rungs s' (g_id grp)).
       r_id r1 = r_id r \<and> r_state r1 = superseded_state (r_state r)"
  proof
    fix r assume r: "r \<in> set (list_rungs s (g_id grp))"
    then obtain r1 where "r1 \<in> set (db_rungs s1)" "r_id r1 = r_id r" "r_proposal_pk r1 = g_id grp"
      "r_state r1 = superseded_state (r_state r)" using states by fastforce
    then show "\<exists>r1 \<in> set (list_rungs s' (g_id grp)). r_id r1 = r_id r \<and> r_state r1 = superseded_state (r_state r)"
      by (intro bexI [of _ r1]) (simp_all add: s')
  qed
  have kept: "r_id x \<in> r_id ` set (list_rungs s (g_id grp))" if x: "x \<in> set (list_rungs s' (g_id grp))" for x
  proof -
    have "x \<in> set (db_rungs s1)" "r_proposal_pk x = g_id grp" using x by (simp_all add: s')
    then obtain y where "y \<in> set (db_rungs s)" "r_id y = r_id x" "r_proposal_pk y = g_id grp"
      using supersede_loop_states [OF wf sub distinct_list_rungs [OF wf] loop] by metis
    then show ?thesis by (intro image_eqI [of _ _ y]) simp_all
  qed
  show thesis by (rule that [OF get _ _ _ _ after]) (use kept in simp_all)
qed

text \<open>
  superseding takes the old proposal over completely. It is marked superseded by the new
  one, its nonce is spent, it can no longer be approved, and none of its rungs is left pending
  or waiting for reconfirmation; every other rung keeps its state (the broker may hold it).
  Both proposals share the root of the chain.
\<close>

theorem supersession_takes_over:
  assumes wf: "wf_store s" and ok: "create_proposal hash ri si retros q pid now s = Inr (s', g)"
    and sup: "q_supersedes_proposal_id q = Some p"
  shows "\<exists>old old'. get_group_by_proposal_id s p = Some old \<and> get_group_by_proposal_id s' p = Some old' \<and>
    g_id old' = g_id old \<and> g_lifecycle_state old' = GSuperseded \<and> g_superseded_by_proposal_id old' = Some pid \<and>
    g_approval_nonce_used_at old' \<noteq> None \<and>
    proposal_approval_block_reason old' = Some (SupersededBy (Some pid)) \<and>
    g_root_proposal_id g = g_root_proposal_id old \<and>
    (\<forall>r \<in> set (list_rungs s (g_id old)). \<exists>r' \<in> set (list_rungs s' (g_id old)). r_id r' = r_id r \<and>
       r_state r' = (if r_state r \<in> {PendingApproval, NeedsReconfirm} then Superseded else r_state r)) \<and>
    (\<forall>r' \<in> set (list_rungs s' (g_id old)). r_id r' \<in> r_id ` set (list_rungs s (g_id old)))"
proof -
  from ok obtain t action target vu old where rungs: "q_rungs q \<noteq> []"
    and oldr: "find_superseded q s = Inr old"
    and ip: "insert_proposal hash q pid action (map_option to_payload target) vu old t s = Inr (s', g)"
    by (rule create_proposal_Inr)
  obtain o1 where get: "get_group_by_proposal_id s p = Some o1" and old: "old = Some o1"
    using find_superseded_Inr [OF oldr] sup by auto
  from ip old obtain s1 s2 where ig: "insert_group (new_group q pid (g_root_proposal_id o1)
       (hash (payload_content_of q action (map_option to_payload target))) action vu
       (merged_source_asof q (map_option to_payload target))) s = Some (s1, g)"
    and fold: "foldR (\<lambda>s' r. create_rung (g_id g) r s') s1 (q_rungs q) = Inr s2"
    and sg: "supersede_group o1 pid t s2 = Inr s'"
    by (auto elim: insert_proposal_Inr)
  note ins = insert_group_Some [OF wf ig]
  have o1: "o1 \<in> set (db_groups s)" "g_proposal_id o1 = p" using get get_group_in by auto
  obtain new where new: "db_rungs s2 = db_rungs s @ new" "list_all2 (rung_of_input (g_id g)) (q_rungs q) new"
    using create_rung_rows [OF ins(1) _ fold] ins(2,3) by auto
  obtain wf2: "wf_store s2" and gs2: "db_groups s2 = db_groups s @ [g]"
    using create_rungs_Inr [OF ins(1) _ fold] ins(2) by auto
  have ne: "g_id o1 \<noteq> g_id g" using ins(5) o1 by force
  have newpk: "\<forall>x \<in> set new. r_proposal_pk x = g_id g"
    using list_all2_set [OF new(2)] by (auto simp: rung_of_input_def)
  have same: "set (list_rungs s2 (g_id o1)) = set (list_rungs s (g_id o1))" using new(1) newpk ne by auto
  have o2: "o1 \<in> set (db_groups s2)" using o1 gs2 by simp
  have wf': "wf_store s'" by (rule evolves_wf [OF create_proposal_evolves [OF wf ok]])
  obtain old' where old': "get_group_by_proposal_id s' (g_proposal_id o1) = Some old'"
    "g_id old' = g_id o1" "g_lifecycle_state old' = GSuperseded"
    "g_superseded_by_proposal_id old' = Some pid" "g_approval_nonce_used_at old' = Some t"
    and rows: "\<forall>r \<in> set (list_rungs s2 (g_id o1)). \<exists>r1 \<in> set (list_rungs s' (g_id o1)).
       r_id r1 = r_id r \<and> r_state r1 = superseded_state (r_state r)"
    and kept: "\<forall>x \<in> set (list_rungs s' (g_id o1)). r_id x \<in> r_id ` set (list_rungs s2 (g_id o1))"
    by (rule supersede_group_states [OF wf2 o2 sg wf'])
  have root: "g_root_proposal_id g = g_root_proposal_id o1" by (simp add: ins(4) new_group_def)
  have block: "proposal_approval_block_reason old' = Some (SupersededBy (Some pid))"
    using old'(4) by (simp add: proposal_approval_block_reason_def)
  have SI: "SUPERSEDE_INVALIDATABLE_RUNG_STATES = {PendingApproval, NeedsReconfirm}"
    by (simp add: SUPERSEDE_INVALIDATABLE_RUNG_STATES_def)
  show ?thesis
    by (intro exI [of _ o1] exI [of _ old'] conjI)
      (use get old' o1 block root rows [unfolded same superseded_state_def SI] kept [unfolded same] in blast)+
qed
definition superseding_request :: proposal_request where
  "superseding_request = sample_request\<lparr>q_supersedes_proposal_id := Some ''p0000001''\<rparr>"

definition sample_create :: "proposal_request \<Rightarrow> store \<Rightarrow> (svc_error, store \<times> order_proposal) result" where
  "sample_create q s = create_proposal (\<lambda>_. ''hash'') (\<lambda>_. Some (Aware 0)) (\<lambda>_. ''1970-01-01T00:00:00+00:00'')
     (\<lambda>i. if i = 7 then Some \<lparr>rt_symbol = Some ''005930'', rt_trigger_type = Some ''stop_loss'',
                               rt_created_at = Some (Aware 0)\<rparr> else None) q ''p0000009'' (Aware 100) s"

lemma sample_creates: "is_ok (sample_create superseding_request sample_store)"
  by code_simp

theorem created_proposal_is_pending_witness:
  "\<exists>s' g. sample_create superseding_request sample_store = Inr (s', g) \<and>
     g_lifecycle_state g = Proposed \<and> length (list_rungs s' (g_id g)) > 0"
proof -
  obtain s' g where ok: "sample_create superseding_request sample_store = Inr (s', g)"
    using sample_creates by (auto simp: is_ok_iff)
  obtain new where "g_lifecycle_state g = Proposed" "new \<noteq> []" "set (list_rungs s' (g_id g)) = set new"
    using created_proposal_is_pending [OF wf_sample ok [unfolded sample_create_def]] by blast
  then show ?thesis using ok by (metis length_greater_0_conv set_empty)
qed

theorem supersession_takes_over_witness:
  "\<exists>s' g old'. sample_create superseding_request sample_store = Inr (s', g) \<and>
     get_group_by_proposal_id s' ''p0000001'' = Some old' \<and> g_lifecycle_state old' = GSuperseded"
proof -
  obtain s' g where ok: "sample_create superseding_request sample_store = Inr (s', g)"
    using sample_creates by (auto simp: is_ok_iff)
  have "q_supersedes_proposal_id superseding_request = Some ''p0000001''" by (simp add: superseding_request_def)
  then show ?thesis
    using ok supersession_takes_over [OF wf_sample ok [unfolded sample_create_def]] by blast
qed

section \<open>Loss cuts\<close>

lemma append_nil_each: "xs @ ys = [] \<longleftrightarrow> xs = [] \<and> ys = []"
  by simp

lemma validate_exit_binding_Inr:
  assumes "validate_exit_binding retros symbol market mode side ot (Some intent) reason rid issue t = Inr ()"
  shows "intent = ''loss_cut''" "loss_cut_errors retros symbol market mode side ot reason rid t = []"
proof -
  show "intent = ''loss_cut''" using assms by (simp add: validate_exit_binding_def split: if_splits)
  then show "loss_cut_errors retros symbol market mode side ot reason rid t = []"
    using assms by (simp add: validate_exit_binding_def split: list.splits)
qed

lemma loss_cut_errors_nil:
  assumes "loss_cut_errors retros symbol market mode side ot reason rid t = []"
  shows "side = ''sell''" "ot = ''limit''" "\<exists>x. reason = Some x \<and> x \<in> LOSS_CUT_EXIT_REASONS"
    "\<exists>i retro. rid = Some i \<and> retros i = Some retro \<and> retrospective_errors retro i symbol t = []"
  using assms unfolding loss_cut_errors_def append_nil_each
  by (auto split: if_splits option.splits)

lemma retrospective_errors_nil:
  assumes "retrospective_errors retro rid symbol t = []"
  shows "upper (strip (text_of (rt_symbol retro))) = upper (strip symbol)"
    "\<exists>x. rt_trigger_type retro = Some x \<and> x \<in> LOSS_CUT_TRIGGER_TYPES"
    "rt_created_at retro = Some c \<Longrightarrow> t - instant c \<le> LOSS_CUT_MAX_AGE"
  using assms unfolding retrospective_errors_def append_nil_each
  by (auto split: if_splits option.splits)

text \<open>
  a proposal with an exit intent is created only as a loss cut that sells at a limit, for
  one of the two accepted reasons, bound to a stored retrospective of the same symbol and of
  an accepted trigger that is at most 72 hours old; a proposal without an exit intent carries
  none of the binding fields.
\<close>

theorem exit_intent_is_bound_to_a_fresh_retrospective:
  assumes ok: "create_proposal hash ri si retros q pid now s = Inr (s', g)"
  shows "case q_exit_intent q of
    None \<Rightarrow> q_exit_reason q = None \<and> q_retrospective_id q = None \<and> q_approval_issue_id q = None
  | Some intent \<Rightarrow> intent = ''loss_cut'' \<and> q_side q = ''sell'' \<and> q_order_type q = ''limit'' \<and>
      (\<exists>x \<in> LOSS_CUT_EXIT_REASONS. q_exit_reason q = Some x) \<and>
      (\<exists>rid retro t. q_retrospective_id q = Some rid \<and> retros rid = Some retro \<and> now = Aware t \<and>
         upper (strip (text_of (rt_symbol retro))) = upper (strip (q_symbol q)) \<and>
         (\<exists>x \<in> LOSS_CUT_TRIGGER_TYPES. rt_trigger_type retro = Some x) \<and>
         (case rt_created_at retro of None \<Rightarrow> True | Some c \<Rightarrow> t - instant c \<le> hours 72))"
proof -
  from ok obtain t where now: "now = Aware t"
    and bind: "validate_exit_binding retros (q_symbol q) (q_market q) (q_account_mode q) (q_side q) (q_order_type q)
       (q_exit_intent q) (q_exit_reason q) (q_retrospective_id q) (q_approval_issue_id q) t = Inr ()"
    by (rule create_proposal_Inr)
  show ?thesis
  proof (cases "q_exit_intent q")
    case None
    then show ?thesis using bind by (simp add: validate_exit_binding_def split: if_splits)
  next
    case (Some intent)
    note v = validate_exit_binding_Inr [OF bind [unfolded Some]]
    note l = loss_cut_errors_nil [OF v(2)]
    obtain i retro where r: "q_retrospective_id q = Some i" "retros i = Some retro"
      "retrospective_errors retro i (q_symbol q) t = []" using l(4) by blast
    note e = retrospective_errors_nil [OF r(3)]
    have age: "case rt_created_at retro of None \<Rightarrow> True | Some c \<Rightarrow> t - instant c \<le> hours 72"
      using e(3) by (simp add: LOSS_CUT_MAX_AGE_def split: option.splits)
    show ?thesis using Some v(1) l(1-3) r(1,2) e(1,2) age now by auto
  qed
qed

definition loss_cut_request :: proposal_request where
  "loss_cut_request = sample_request\<lparr>q_side := ''sell'', q_exit_intent := Some ''loss_cut'',
     q_exit_reason := Some ''stop_loss'', q_retrospective_id := Some 7\<rparr>"

lemma sample_loss_cut: "is_ok (sample_create loss_cut_request sample_store)"
  by code_simp

theorem exit_intent_is_bound_to_a_fresh_retrospective_witness:
  "is_ok (sample_create loss_cut_request sample_store) \<and> q_side loss_cut_request = ''sell'' \<and>
   q_order_type loss_cut_request = ''limit''"
proof -
  obtain s' g where ok: "sample_create loss_cut_request sample_store = Inr (s', g)"
    using sample_loss_cut by (auto simp: is_ok_iff)
  have "q_exit_intent loss_cut_request = Some ''loss_cut''" by (simp add: loss_cut_request_def)
  then show ?thesis
    using exit_intent_is_bound_to_a_fresh_retrospective [OF ok [unfolded sample_create_def]] sample_loss_cut by simp
qed

section \<open>Actions on a broker order\<close>

lemma bind_require_Inr: "bindR (require b e) f = Inr y \<Longrightarrow> b \<and> f () = Inr y"
  by (cases b) simp_all

lemma canonical_decimal_RawDec:
  "canonical_decimal (RawDec d) = Inr q \<Longrightarrow> is_finite d \<and> q = Some (canonical_text d)"
  by (simp add: canonical_decimal_def raw_decimal_def split: if_splits)

lemma check_cancel_rung_Inr:
  assumes "check_cancel_rung r snapshot = Inr u"
  shows "t_remaining_quantity snapshot = canonical_text (ri_quantity r)"
    "t_limit_price snapshot = map_option canonical_text (ri_limit_price r)" "t_side snapshot = ri_side r"
proof -
  from assms obtain q p where q: "canonical_decimal (RawDec (ri_quantity r)) = Inr q"
    and eq: "q = Some (t_remaining_quantity snapshot)"
    and p: "canonical_decimal (raw_price (ri_limit_price r)) = Inr p"
    and side: "p = t_limit_price snapshot \<and> ri_side r = t_side snapshot"
    by (auto simp: check_cancel_rung_def bindR_eq_Inr split: if_splits)
  show "t_remaining_quantity snapshot = canonical_text (ri_quantity r)"
    using canonical_decimal_RawDec [OF q] eq by simp
  show "t_side snapshot = ri_side r" using side by simp
  show "t_limit_price snapshot = map_option canonical_text (ri_limit_price r)"
  proof (cases "ri_limit_price r")
    case None
    then show ?thesis using p side by (simp add: raw_price_def canonical_decimal_def raw_decimal_def)
  next
    case (Some d)
    then show ?thesis using canonical_decimal_RawDec [of d p] p side by (simp add: raw_price_def)
  qed
qed

lemma validate_action_contract_Inr:
  assumes "validate_action_contract ri si a mode market symbol side ot rungs tb ts = Inr (action, target)"
  shows "(action = ''place'' \<and> tb = None \<and> ts = None \<and> target = None) \<or>
    (action \<noteq> ''place'' \<and> (\<exists>r snapshot. rungs = [r] \<and> target = Some snapshot \<and> tb = Some (t_broker_order_id snapshot) \<and>
       open_with_remaining snapshot \<and> t_symbol snapshot = symbol \<and> t_side snapshot = side \<and>
       t_order_type snapshot = ot \<and> (action = ''cancel'' \<longrightarrow> check_cancel_rung r snapshot = Inr ())))"
proof -
  from assms obtain n where n: "check_action_capability a mode market = Inr n"
    by (auto simp: validate_action_contract_def bindR_eq_Inr)
  show ?thesis
  proof (cases "n = ''place''")
    case True
    then show ?thesis using assms n by (simp add: validate_action_contract_def split: if_splits)
  next
    case False
    then show ?thesis
      using assms n unfolding validate_action_contract_def
      by (auto simp: bindR_eq_Inr split: list.splits option.splits if_splits)
  qed
qed

text \<open>
  a proposal that replaces or cancels a broker order has exactly one rung, names the
  order, and was made on a snapshot of that order which is open with a positive remaining
  quantity and agrees on symbol, side and order type; a cancel rung repeats the remaining
  quantity, the price and the side of the snapshot. A placing proposal names no order.
\<close>

theorem target_actions_rest_on_an_open_snapshot:
  assumes ok: "create_proposal hash ri si retros q pid now s = Inr (s', g)"
  shows "(g_action g = Some ''place'' \<and> q_target_broker_order_id q = None \<and> q_target_order_snapshot q = None) \<or>
    (\<exists>action r snapshot. g_action g = Some action \<and> action \<in> {''replace'', ''cancel''} \<and> q_rungs q = [r] \<and>
       g_target_broker_order_id g = Some (t_broker_order_id snapshot) \<and> open_with_remaining snapshot \<and>
       t_symbol snapshot = q_symbol q \<and> t_side snapshot = q_side q \<and> t_order_type snapshot = q_order_type q \<and>
       (action = ''cancel'' \<longrightarrow> t_remaining_quantity snapshot = canonical_text (ri_quantity r) \<and>
          t_limit_price snapshot = map_option canonical_text (ri_limit_price r) \<and> t_side snapshot = ri_side r))"
proof -
  from ok obtain t action target vu old where
    act: "validate_action_contract ri si (q_action q) (q_account_mode q) (q_market q) (q_symbol q) (q_side q)
       (q_order_type q) (q_rungs q) (q_target_broker_order_id q) (q_target_order_snapshot q) = Inr (action, target)"
    and ip: "insert_proposal hash q pid action (map_option to_payload target) vu old t s = Inr (s', g)"
    by (rule create_proposal_Inr)
  from ip obtain s1 where "insert_group (new_group q pid (case old of None \<Rightarrow> pid | Some o1 \<Rightarrow> g_root_proposal_id o1)
       (hash (payload_content_of q action (map_option to_payload target))) action vu
       (merged_source_asof q (map_option to_payload target))) s = Some (s1, g)"
    by (auto elim: insert_proposal_Inr)
  then have g: "g_action g = Some action" "g_target_broker_order_id g = q_target_broker_order_id q"
    by (auto simp: insert_group_def Let_def new_group_def split: if_splits)
  have cap: "action \<in> {''place'', ''replace'', ''cancel''}"
    using check_action_capability_Inr [OF create_action [OF act]] by simp
  note v = validate_action_contract_Inr [OF act]
  show ?thesis
  proof (cases "action = ''place''")
    case True
    then show ?thesis using v g by simp
  next
    case False
    then obtain r snapshot where s: "q_rungs q = [r]" "q_target_broker_order_id q = Some (t_broker_order_id snapshot)"
       "open_with_remaining snapshot" "t_symbol snapshot = q_symbol q" "t_side snapshot = q_side q"
       "t_order_type snapshot = q_order_type q" "action = ''cancel'' \<longrightarrow> check_cancel_rung r snapshot = Inr ()"
      using v by blast
    have canc: "action = ''cancel'' \<longrightarrow> t_remaining_quantity snapshot = canonical_text (ri_quantity r) \<and>
          t_limit_price snapshot = map_option canonical_text (ri_limit_price r) \<and> t_side snapshot = ri_side r"
      using s(7) check_cancel_rung_Inr [of r snapshot "()"] by blast
    have act2: "action \<in> {''replace'', ''cancel''}" using cap False by blast
    show ?thesis
      by (intro disjI2 exI [of _ action] exI [of _ r] exI [of _ snapshot] conjI)
        (use act2 g s canc in \<open>simp only:\<close>)+
  qed
qed

definition cancel_request :: proposal_request where
  "cancel_request = sample_request\<lparr>q_action := Some ''cancel'', q_target_broker_order_id := Some ''b1'',
     q_target_order_snapshot := Some [(''broker_order_id'', Some ''b1''), (''symbol'', Some ''005930''),
       (''side'', Some ''BUY''), (''order_type'', Some ''limit''), (''limit_price'', Some ''70000.00''),
       (''remaining_quantity'', Some ''10.0''), (''status'', Some ''partial''),
       (''observed_at'', Some ''1970-01-01T00:00:00Z'')]\<rparr>"

lemma sample_cancel: "is_ok (sample_create cancel_request sample_store)"
  by code_simp

theorem target_actions_rest_on_an_open_snapshot_witness:
  "\<exists>s' g. sample_create cancel_request sample_store = Inr (s', g) \<and>
     g_action g \<noteq> Some ''place'' \<and> g_target_broker_order_id g = Some ''b1''"
proof -
  obtain s' g where ok: "sample_create cancel_request sample_store = Inr (s', g)"
    using sample_cancel by (auto simp: is_ok_iff)
  have target: "q_target_broker_order_id cancel_request \<noteq> None" by (simp add: cancel_request_def)
  have "g_action g \<noteq> Some ''place''"
    by (rule disjE [OF target_actions_rest_on_an_open_snapshot [OF ok [unfolded sample_create_def]]])
      (use target in \<open>simp; fail\<close>, elim exE conjE, auto)
  moreover have "case sample_create cancel_request sample_store of Inl e \<Rightarrow> False
   | Inr (s', g) \<Rightarrow> g_target_broker_order_id g = Some ''b1''" by code_simp
  ultimately show ?thesis using ok by auto
qed

section \<open>Canonical decimals as keys\<close>

text \<open>Numbers of at most 28 digits, and the value of a number of a broker row.\<close>

definition fits :: "pydecimal \<Rightarrow> bool" where
  "fits d = (case d of Dec _ c _ \<Rightarrow> digit_count c \<le> PRECISION | _ \<Rightarrow> True)"

definition row_number :: "raw_number \<Rightarrow> rat option" where
  "row_number v = (case raw_decimal v of Some (Some d) \<Rightarrow> Some (dec_value d) | _ \<Rightarrow> None)"

definition row_number_fits :: "raw_number \<Rightarrow> bool" where
  "row_number_fits v = (case raw_decimal v of Some (Some d) \<Rightarrow> fits d | _ \<Rightarrow> True)"

lemma canonical_text_key:
  assumes "is_finite a" "is_finite b" "fits a" "fits b"
  shows "canonical_text a = canonical_text b \<longleftrightarrow> dec_value a = dec_value b"
  using assms canonical_text_eq_iff by (cases a; cases b) (auto simp: is_finite_def fits_def)

lemma canonical_text_reads:
  assumes "is_finite a" "fits a"
  shows "\<exists>d. parse_decimal (canonical_text a) = Some d \<and> is_finite d \<and> dec_value d = dec_value a"
  using assms canonical_text_reads_back by (cases a) (auto simp: is_finite_def fits_def)

text \<open>
  canonical decimals are faithful keys. The canonical text of a finite number of at most
  28 digits reads back to a number of the same value, and two such numbers have the same
  canonical text exactly when they have the same value, however they were written.
\<close>

theorem canonical_decimal_is_a_faithful_key:
  assumes "is_finite a" "is_finite b" "fits a" "fits b"
  shows "\<exists>x y d. canonical_decimal (RawDec a) = Inr (Some x) \<and> canonical_decimal (RawDec b) = Inr (Some y) \<and>
    parse_decimal x = Some d \<and> dec_value d = dec_value a \<and> (x = y \<longleftrightarrow> dec_value a = dec_value b)"
  using assms canonical_text_key canonical_text_reads [of a]
  by (auto simp: canonical_decimal_def raw_decimal_def)

theorem canonical_decimal_is_a_faithful_key_witness:
  "canonical_decimal (RawDec (Dec False 100 (-1))) = canonical_decimal (RawDec (Dec False 1 1))"
proof -
  have f: "fits (Dec False 100 (-1)) \<and> fits (Dec False 1 1)" by code_simp
  show ?thesis
    using canonical_decimal_is_a_faithful_key [OF _ _ conjunct1 [OF f] conjunct2 [OF f]]
    by (auto simp: is_finite_def dec_value_def pow10_def)
qed

lemma canonical_decimal_Inr:
  assumes "canonical_decimal v = Inr p"
  shows "(raw_decimal v = None \<and> p = None) \<or>
    (\<exists>d. raw_decimal v = Some (Some d) \<and> is_finite d \<and> p = Some (canonical_text d))"
  using assms by (auto simp: canonical_decimal_def split: option.splits if_splits)

lemma canonical_decimal_eq:
  assumes p: "canonical_decimal v = Inr p" "canonical_decimal w = Inr q"
    and "row_number_fits v" "row_number_fits w"
  shows "p = q \<longleftrightarrow> row_number v = row_number w"
  using canonical_decimal_Inr [OF p(1)] canonical_decimal_Inr [OF p(2)] assms(3,4)
  by (auto simp: row_number_def row_number_fits_def canonical_text_key)

lemma canonical_text_nonempty: "is_finite a \<Longrightarrow> fits a \<Longrightarrow> canonical_text a \<noteq> []"
proof
  assume a: "is_finite a" "fits a" and e: "canonical_text a = []"
  have "parse_decimal [] = None" by code_simp
  then show False using canonical_text_reads [OF a] e by simp
qed

lemma or_zero_canonical:
  assumes p: "canonical_decimal v = Inr p" and f: "row_number_fits v"
  shows "\<exists>d. is_finite d \<and> fits d \<and> or_zero p = canonical_text d \<and>
    dec_value d = (case row_number v of None \<Rightarrow> 0 | Some x \<Rightarrow> x)"
proof (cases "raw_decimal v")
  case None
  then have "p = None" using canonical_decimal_Inr [OF p] by auto
  then show ?thesis
    using None canonical_text_zero [OF digit_count_zero, of False 0]
    by (intro exI [of _ "Dec False 0 0"])
      (simp add: is_finite_def fits_def or_zero_def truthy_def row_number_def dec_value_def digit_count_zero)
next
  case (Some x)
  then obtain d where d: "raw_decimal v = Some (Some d)" "is_finite d" "p = Some (canonical_text d)"
    using canonical_decimal_Inr [OF p] by auto
  then have "fits d" using f by (simp add: row_number_fits_def)
  then show ?thesis
    using d canonical_text_nonempty [OF d(2)]
    by (intro exI [of _ d]) (simp add: or_zero_def truthy_def row_number_def)
qed

definition lower_text :: "string option \<Rightarrow> string" where
  "lower_text v = lower (strip (text_of v))"

lemma required_text_Inr: "required_text n v = Inr x \<Longrightarrow> x = strip (text_of v)"
  by (simp add: required_text_def Let_def split: if_splits)

lemma from_parts_Inr:
  assumes "from_parts si boid sy sd ot lp rq st obs = Inr snapshot"
  shows "t_broker_order_id snapshot = strip (text_of boid)" "t_symbol snapshot = strip (text_of sy)"
    "t_side snapshot = lower_text sd" "t_order_type snapshot = lower_text ot" "t_limit_price snapshot = lp"
    "t_remaining_quantity snapshot = rq" "t_status snapshot = lower (strip st)"
  using assms required_text_Inr
  by (auto simp: from_parts_def bindR_eq_Inr Let_def lower_text_def text_of_def required_text_def
      dest!: bind_require_Inr split: if_splits)

text \<open>
  the check of a fresh broker order against the approved one compares values, not texts.
  For rows whose numbers have at most 28 digits it succeeds exactly when both rows name the
  same order, symbol, side, order type and status up to case and surrounding space, the same
  price and the same remaining quantity (a missing quantity counts as zero); the time of the
  observation does not matter.
\<close>

theorem matches_approved_compares_values:
  assumes a: "from_broker_order si row1 t1 = Inr a" and b: "from_broker_order si row2 t2 = Inr b"
    and "row_number_fits (bo_ordered_price row1)" "row_number_fits (bo_remaining_qty row1)"
    and "row_number_fits (bo_ordered_price row2)" "row_number_fits (bo_remaining_qty row2)"
  shows "matches_approved a b \<longleftrightarrow>
    strip (text_of (bo_order_id row1)) = strip (text_of (bo_order_id row2)) \<and>
    strip (text_of (bo_symbol row1)) = strip (text_of (bo_symbol row2)) \<and>
    lower (strip (text_of (bo_side row1))) = lower (strip (text_of (bo_side row2))) \<and>
    t_order_type a = t_order_type b \<and> t_status a = t_status b \<and>
    row_number (bo_ordered_price row1) = row_number (bo_ordered_price row2) \<and>
    (case row_number (bo_remaining_qty row1) of None \<Rightarrow> 0 | Some x \<Rightarrow> x) =
    (case row_number (bo_remaining_qty row2) of None \<Rightarrow> 0 | Some x \<Rightarrow> x)"
proof -
  from a obtain p1 q1 where p1: "canonical_decimal (bo_ordered_price row1) = Inr p1"
    and q1: "canonical_decimal (bo_remaining_qty row1) = Inr q1"
    and a1: "from_parts si (bo_order_id row1) (bo_symbol row1) (bo_side row1)
         (if truthy (bo_order_type row1) then bo_order_type row1 else Some ''limit'')
         p1 (or_zero q1) (normalize_status (bo_status row1)) t1 = Inr a"
    by (auto simp: from_broker_order_def bindR_eq_Inr)
  from b obtain p2 q2 where p2: "canonical_decimal (bo_ordered_price row2) = Inr p2"
    and q2: "canonical_decimal (bo_remaining_qty row2) = Inr q2"
    and b2: "from_parts si (bo_order_id row2) (bo_symbol row2) (bo_side row2)
         (if truthy (bo_order_type row2) then bo_order_type row2 else Some ''limit'')
         p2 (or_zero q2) (normalize_status (bo_status row2)) t2 = Inr b"
    by (auto simp: from_broker_order_def bindR_eq_Inr)
  note fa = from_parts_Inr [OF a1] and fb = from_parts_Inr [OF b2]
  have price: "t_limit_price a = t_limit_price b \<longleftrightarrow>
      row_number (bo_ordered_price row1) = row_number (bo_ordered_price row2)"
    using canonical_decimal_eq [OF p1 p2 assms(3,5)] fa(5) fb(5) by simp
  obtain d1 where d1: "is_finite d1" "fits d1" "or_zero q1 = canonical_text d1"
    "dec_value d1 = (case row_number (bo_remaining_qty row1) of None \<Rightarrow> 0 | Some x \<Rightarrow> x)"
    using or_zero_canonical [OF q1 assms(4)] by blast
  obtain d2 where d2: "is_finite d2" "fits d2" "or_zero q2 = canonical_text d2"
    "dec_value d2 = (case row_number (bo_remaining_qty row2) of None \<Rightarrow> 0 | Some x \<Rightarrow> x)"
    using or_zero_canonical [OF q2 assms(6)] by blast
  have qty: "t_remaining_quantity a = t_remaining_quantity b \<longleftrightarrow> dec_value d1 = dec_value d2"
    using canonical_text_key [OF d1(1) d2(1) d1(2) d2(2)] fa(6) fb(6) d1(3) d2(3) by simp
  show ?thesis
    unfolding matches_approved_def price qty d1(4) d2(4) fa(1-3) fb(1-3) lower_text_def by blast
qed

definition sample_row :: "string \<Rightarrow> string \<Rightarrow> broker_order_row" where
  "sample_row price status =
     \<lparr>bo_order_id = Some ''b1'', bo_symbol = Some ''005930'', bo_side = Some ''buy'', bo_order_type = None,
      bo_ordered_price = RawText price, bo_remaining_qty = RawNone, bo_status = Some status\<rparr>"

theorem matches_approved_compares_values_witness:
  "\<exists>a b. from_broker_order (\<lambda>_. ''t'') (sample_row ''70000.0'' ''filled'') (Aware 0) = Inr a \<and>
     from_broker_order (\<lambda>_. ''t'') (sample_row '' 7e4'' ''FILLED'') (Aware 9) = Inr b \<and> matches_approved a b"
proof -
  have ok: "is_ok (from_broker_order (\<lambda>_. ''t'') (sample_row ''70000.0'' ''filled'') (Aware 0)) \<and>
    is_ok (from_broker_order (\<lambda>_. ''t'') (sample_row '' 7e4'' ''FILLED'') (Aware 9))" by code_simp
  then obtain a b where a: "from_broker_order (\<lambda>_. ''t'') (sample_row ''70000.0'' ''filled'') (Aware 0) = Inr a"
    and b: "from_broker_order (\<lambda>_. ''t'') (sample_row '' 7e4'' ''FILLED'') (Aware 9) = Inr b"
    by (auto simp: is_ok_iff)
  have f: "row_number_fits (RawText ''70000.0'') \<and> row_number_fits (RawText '' 7e4'') \<and> row_number_fits RawNone"
    by code_simp
  have n: "row_number (RawText ''70000.0'') = row_number (RawText '' 7e4'')" by code_simp
  have st: "t_status a = t_status b \<and> t_order_type a = t_order_type b"
  proof -
    have "(case from_broker_order (\<lambda>_. ''t'') (sample_row ''70000.0'' ''filled'') (Aware 0) of Inl _ \<Rightarrow> False
        | Inr x \<Rightarrow> (case from_broker_order (\<lambda>_. ''t'') (sample_row '' 7e4'' ''FILLED'') (Aware 9) of
             Inl _ \<Rightarrow> False | Inr y \<Rightarrow> t_status x = t_status y \<and> t_order_type x = t_order_type y))"
      by code_simp
    then show ?thesis by (simp add: a b)
  qed
  show ?thesis
    using matches_approved_compares_values [OF a b] f n st a b by (auto simp: sample_row_def)
qed

end
