(* ===== verification/KisCircuit.thy ===== *)
theory KisCircuit
  imports Prelude
begin

text \<open>
  The per-process circuit breaker of the shared KIS client
  (\<open>brokers/kis/circuit_breaker.py\<close>): its state, one function per method, the runs of
  concurrent requests over it and what they cannot do. Times are the readings of the injected
  monotonic clock, as rationals.
\<close>

section \<open>State and settings\<close>

datatype circuit_state = CircuitClosed | CircuitOpen | CircuitHalfOpen

record circuit_settings =
  cfg_enabled :: bool
  cfg_threshold :: int
  cfg_cooldown :: rat

record circuit_breaker =
  cb_state :: circuit_state
  cb_failures :: int
  cb_opened_at :: rat
  cb_probe_in_flight :: bool
  cb_next_token :: int
  cb_probe_owner :: int

definition new_breaker :: circuit_breaker where
  "new_breaker = \<lparr>cb_state = CircuitClosed, cb_failures = 0, cb_opened_at = 0,
     cb_probe_in_flight = False, cb_next_token = 0, cb_probe_owner = 0\<rparr>"

section \<open>Methods\<close>

definition reset_breaker :: "circuit_breaker \<Rightarrow> circuit_breaker" where
  "reset_breaker b = b\<lparr>cb_state := CircuitClosed, cb_failures := 0, cb_opened_at := 0,
     cb_probe_in_flight := False, cb_probe_owner := 0\<rparr>"

text \<open>
  \<open>before_request\<close> draws a token before it decides, so the breaker changes on a raise too;
  the error is the \<open>retry_after\<close> of \<open>KISCircuitOpen\<close>.
\<close>

definition before_request ::
  "circuit_settings \<Rightarrow> rat \<Rightarrow> circuit_breaker \<Rightarrow> circuit_breaker \<times> (rat, int) result" where
  "before_request cfg now b0 =
     (let token = cb_next_token b0 + 1; b = b0\<lparr>cb_next_token := token\<rparr> in
      if \<not> cfg_enabled cfg then (b, Inr token)
      else case cb_state b of
        CircuitOpen \<Rightarrow>
          (let elapsed = now - cb_opened_at b in
           if elapsed < cfg_cooldown cfg then (b, Inl (cfg_cooldown cfg - elapsed))
           else (b\<lparr>cb_state := CircuitHalfOpen, cb_probe_in_flight := True, cb_probe_owner := token\<rparr>,
                 Inr token))
      | CircuitHalfOpen \<Rightarrow>
          if cb_probe_in_flight b then (b, Inl (cfg_cooldown cfg))
          else (b\<lparr>cb_probe_in_flight := True, cb_probe_owner := token\<rparr>, Inr token)
      | CircuitClosed \<Rightarrow> (b, Inr token))"

text \<open>\<open>token is not None and token != self._probe_owner\<close>\<close>

definition stale_token :: "int option \<Rightarrow> circuit_breaker \<Rightarrow> bool" where
  "stale_token token b = (case token of None \<Rightarrow> False | Some x \<Rightarrow> x \<noteq> cb_probe_owner b)"

definition record_success ::
  "circuit_settings \<Rightarrow> int option \<Rightarrow> circuit_breaker \<Rightarrow> circuit_breaker" where
  "record_success cfg token b =
     (if \<not> cfg_enabled cfg then b
      else if cb_state b = CircuitHalfOpen \<and> stale_token token b then b
      else b\<lparr>cb_state := CircuitClosed, cb_failures := 0, cb_probe_in_flight := False,
             cb_probe_owner := 0\<rparr>)"

definition record_reachable_error ::
  "circuit_settings \<Rightarrow> int option \<Rightarrow> circuit_breaker \<Rightarrow> circuit_breaker" where
  "record_reachable_error cfg token b =
     (if \<not> cfg_enabled cfg then b
      else if cb_state b = CircuitHalfOpen
      then (if stale_token token b then b
            else b\<lparr>cb_state := CircuitClosed, cb_failures := 0, cb_probe_in_flight := False,
                   cb_probe_owner := 0\<rparr>)
      else b\<lparr>cb_probe_in_flight := False, cb_probe_owner := 0\<rparr>)"

definition release_probe ::
  "circuit_settings \<Rightarrow> int option \<Rightarrow> circuit_breaker \<Rightarrow> circuit_breaker" where
  "release_probe cfg token b =
     (if \<not> cfg_enabled cfg then b
      else if cb_state b = CircuitHalfOpen \<and> token = Some (cb_probe_owner b)
      then b\<lparr>cb_probe_in_flight := False\<rparr> else b)"

definition record_failure ::
  "circuit_settings \<Rightarrow> rat \<Rightarrow> int option \<Rightarrow> circuit_breaker \<Rightarrow> circuit_breaker" where
  "record_failure cfg now token b =
     (if \<not> cfg_enabled cfg then b
      else if cb_state b = CircuitHalfOpen
      then (if stale_token token b then b
            else b\<lparr>cb_probe_in_flight := False, cb_probe_owner := 0, cb_opened_at := now,
                   cb_state := CircuitOpen\<rparr>)
      else let b1 = b\<lparr>cb_probe_in_flight := False, cb_probe_owner := 0,
                      cb_failures := cb_failures b + 1\<rparr> in
           if cb_state b1 = CircuitClosed \<and> cb_failures b1 \<ge> cfg_threshold cfg
           then b1\<lparr>cb_opened_at := now, cb_state := CircuitOpen\<rparr> else b1)"

definition record_indeterminate ::
  "circuit_settings \<Rightarrow> rat \<Rightarrow> int option \<Rightarrow> circuit_breaker \<Rightarrow> circuit_breaker" where
  "record_indeterminate cfg now token b =
     (if \<not> cfg_enabled cfg then b
      else if cb_state b = CircuitHalfOpen \<and> \<not> stale_token token b
      then b\<lparr>cb_probe_in_flight := False, cb_probe_owner := 0, cb_opened_at := now,
             cb_state := CircuitOpen\<rparr> else b)"

lemmas breaker_defs = before_request_def record_success_def record_reachable_error_def
  release_probe_def record_failure_def record_indeterminate_def reset_breaker_def stale_token_def

section \<open>Runs\<close>

text \<open>
  What the concurrent requests of the process do to the shared breaker, in the order of their
  (synchronous) calls. \<open>Admit\<close> is a \<open>before_request\<close>; the others report an outcome.
\<close>

datatype breaker_call =
    Admit rat | Success "int option" | Reachable "int option" | Release "int option"
  | Failure rat "int option" | Indeterminate rat "int option" | Reset

fun call_breaker :: "circuit_settings \<Rightarrow> breaker_call \<Rightarrow> circuit_breaker \<Rightarrow> circuit_breaker" where
  "call_breaker cfg (Admit t) b = fst (before_request cfg t b)"
| "call_breaker cfg (Success tk) b = record_success cfg tk b"
| "call_breaker cfg (Reachable tk) b = record_reachable_error cfg tk b"
| "call_breaker cfg (Release tk) b = release_probe cfg tk b"
| "call_breaker cfg (Failure t tk) b = record_failure cfg t tk b"
| "call_breaker cfg (Indeterminate t tk) b = record_indeterminate cfg t tk b"
| "call_breaker cfg Reset b = reset_breaker b"

text \<open>The settings are read at each call, so a reachable state may have seen several.\<close>

inductive breaker_reachable :: "circuit_breaker \<Rightarrow> bool" where
  start: "breaker_reachable new_breaker"
| call: "breaker_reachable b \<Longrightarrow> breaker_reachable (call_breaker cfg c b)"

definition run_calls :: "circuit_settings \<Rightarrow> breaker_call list \<Rightarrow> circuit_breaker \<Rightarrow> circuit_breaker" where
  "run_calls cfg cs b = fold (call_breaker cfg) cs b"

lemma run_calls_simps [simp]:
  "run_calls cfg [] b = b"
  "run_calls cfg (c # cs) b = run_calls cfg cs (call_breaker cfg c b)"
  by (simp_all add: run_calls_def)

section \<open>The invariant\<close>

text \<open>
  A probe exists only in the half-open state, where it was handed out to a token that was
  drawn; the failure count is never negative.
\<close>

definition breaker_inv :: "circuit_breaker \<Rightarrow> bool" where
  "breaker_inv b \<longleftrightarrow>
     0 \<le> cb_failures b \<and> 0 \<le> cb_next_token b \<and> cb_probe_owner b \<le> cb_next_token b \<and>
     (if cb_state b = CircuitHalfOpen then 0 < cb_probe_owner b
      else \<not> cb_probe_in_flight b \<and> cb_probe_owner b = 0)"

lemma call_breaker_inv: "breaker_inv b \<Longrightarrow> breaker_inv (call_breaker cfg c b)"
  by (cases c; cases "cb_state b")
    (auto simp: breaker_inv_def breaker_defs Let_def split: option.splits)

text \<open>
  in every state the process can reach, a probe is in flight or owned only in the half-open
  state, its owner is a token that was drawn, and the failure count is not negative.
\<close>

theorem breaker_invariant:
  "breaker_reachable b \<Longrightarrow> breaker_inv b"
proof (induction rule: breaker_reachable.induct)
  case start
  show ?case by (simp add: breaker_inv_def new_breaker_def)
next
  case (call b cfg c)
  show ?case by (rule call_breaker_inv [OF call.IH])
qed

definition kis_settings :: circuit_settings where
  "kis_settings = \<lparr>cfg_enabled = True, cfg_threshold = 5, cfg_cooldown = 45\<rparr>"

definition tripped :: circuit_breaker where
  "tripped = run_calls kis_settings (replicate 5 (Failure 10 None)) new_breaker"

lemma run_calls_reachable: "breaker_reachable b \<Longrightarrow> breaker_reachable (run_calls cfg cs b)"
  by (induction cs arbitrary: b) (simp_all add: breaker_reachable.call)

lemma tripped_reachable: "breaker_reachable tripped"
  unfolding tripped_def by (rule run_calls_reachable [OF breaker_reachable.start])

theorem breaker_invariant_witness:
  "cb_state tripped = CircuitOpen \<and> breaker_inv tripped"
proof
  show "cb_state tripped = CircuitOpen" by code_simp
  show "breaker_inv tripped" by (rule breaker_invariant [OF tripped_reachable])
qed

section \<open>One probe at a time\<close>

text \<open>A call that cannot come from the request that owns the probe.\<close>

fun stale_call :: "int \<Rightarrow> breaker_call \<Rightarrow> bool" where
  "stale_call owner (Admit t) = True"
| "stale_call owner (Success tk) = (\<exists>x. tk = Some x \<and> x \<noteq> owner)"
| "stale_call owner (Reachable tk) = (\<exists>x. tk = Some x \<and> x \<noteq> owner)"
| "stale_call owner (Release tk) = (tk \<noteq> Some owner)"
| "stale_call owner (Failure t tk) = (\<exists>x. tk = Some x \<and> x \<noteq> owner)"
| "stale_call owner (Indeterminate t tk) = (\<exists>x. tk = Some x \<and> x \<noteq> owner)"
| "stale_call owner Reset = False"

definition probing :: "int \<Rightarrow> circuit_breaker \<Rightarrow> bool" where
  "probing owner b \<longleftrightarrow> cb_state b = CircuitHalfOpen \<and> cb_probe_in_flight b \<and> cb_probe_owner b = owner"

lemma stale_call_keeps_probe:
  "probing owner b \<Longrightarrow> stale_call owner c \<Longrightarrow> probing owner (call_breaker cfg c b)"
  by (cases c) (auto simp: probing_def breaker_defs Let_def)

text \<open>
  while a probe is in flight, nothing that the other requests do ends it or admits a
  second one: after any run of their calls the same token still owns the probe, and the next
  request is refused.
\<close>

theorem one_probe_at_a_time:
  assumes "probing owner b" and "\<forall>c \<in> set cs. stale_call owner c" and "cfg_enabled cfg"
  shows "probing owner (run_calls cfg cs b) \<and>
    snd (before_request cfg t (run_calls cfg cs b)) = Inl (cfg_cooldown cfg)"
proof -
  have "probing owner (run_calls cfg cs b)"
    using assms(1,2) by (induction cs arbitrary: b) (simp_all add: stale_call_keeps_probe)
  then show ?thesis using assms(3) by (simp add: probing_def before_request_def Let_def)
qed

definition probed :: circuit_breaker where
  "probed = call_breaker kis_settings (Admit 60) tripped"

theorem one_probe_at_a_time_witness:
  "snd (before_request kis_settings 99
     (run_calls kis_settings [Admit 61, Failure 62 (Some 7), Release (Some 9), Success (Some 3)] probed)) = Inl 45"
proof -
  have p: "probing 1 probed" by code_simp
  show ?thesis
    using one_probe_at_a_time [OF p, of "[Admit 61, Failure 62 (Some 7), Release (Some 9), Success (Some 3)]" kis_settings 99]
    by (simp add: kis_settings_def)
qed

section \<open>No lock-out\<close>

text \<open>How the owner of a probe can end it.\<close>

fun owner_outcome :: "int \<Rightarrow> breaker_call \<Rightarrow> bool" where
  "owner_outcome owner (Success tk) = (tk = Some owner)"
| "owner_outcome owner (Reachable tk) = (tk = Some owner)"
| "owner_outcome owner (Release tk) = (tk = Some owner)"
| "owner_outcome owner (Failure t tk) = (tk = Some owner)"
| "owner_outcome owner (Indeterminate t tk) = (tk = Some owner)"
| "owner_outcome owner _ = False"

fun cooled_down :: "circuit_settings \<Rightarrow> breaker_call \<Rightarrow> rat \<Rightarrow> bool" where
  "cooled_down cfg (Failure t tk) u = (t + cfg_cooldown cfg \<le> u)"
| "cooled_down cfg (Indeterminate t tk) u = (t + cfg_cooldown cfg \<le> u)"
| "cooled_down cfg _ u = True"

text \<open>
  the breaker never locks the process out. An open breaker admits the first request once
  the cooldown has passed; and whatever the owner of the probe reports, a request that comes a
  cooldown later (at once, if the outcome was not a failure) is admitted.
\<close>

theorem breaker_never_locks_out:
  assumes "cfg_enabled cfg"
  shows "(cb_state b = CircuitOpen \<and> cb_opened_at b + cfg_cooldown cfg \<le> t \<longrightarrow>
           is_ok (snd (before_request cfg t b)) \<and> probing (cb_next_token b + 1) (fst (before_request cfg t b))) \<and>
    (probing owner b \<and> owner_outcome owner c \<and> cooled_down cfg c t \<longrightarrow>
           is_ok (snd (before_request cfg t (call_breaker cfg c b))))"
proof -
  have "is_ok (snd (before_request cfg t b)) \<and> probing (cb_next_token b + 1) (fst (before_request cfg t b))"
    if "cb_state b = CircuitOpen" "cb_opened_at b + cfg_cooldown cfg \<le> t"
    using that assms by (simp add: before_request_def probing_def Let_def)
  moreover have "is_ok (snd (before_request cfg t (call_breaker cfg c b)))"
    if "probing owner b" "owner_outcome owner c" "cooled_down cfg c t"
    using that assms by (cases c) (auto simp: probing_def breaker_defs Let_def)
  ultimately show ?thesis by blast
qed

theorem breaker_never_locks_out_witness:
  "is_ok (snd (before_request kis_settings 60 tripped)) \<and>
   is_ok (snd (before_request kis_settings 110 (call_breaker kis_settings (Failure 65 (Some 1)) probed)))"
proof
  have e: "cfg_enabled kis_settings" by (simp add: kis_settings_def)
  have o: "cb_state tripped = CircuitOpen \<and> cb_opened_at tripped + cfg_cooldown kis_settings \<le> 60" by code_simp
  show "is_ok (snd (before_request kis_settings 60 tripped))"
    using breaker_never_locks_out [OF e, of tripped 60 0 Reset] o by blast
  have p: "probing 1 probed" by code_simp
  show "is_ok (snd (before_request kis_settings 110 (call_breaker kis_settings (Failure 65 (Some 1)) probed)))"
    using breaker_never_locks_out [OF e, of probed 110 1 "Failure 65 (Some 1)"] p by (simp add: kis_settings_def)
qed

section \<open>When it trips\<close>

text \<open>Calls that leave a closed breaker's failure count alone, and those that count a strike.\<close>

fun strikes :: "breaker_call list \<Rightarrow> int" where
  "strikes [] = 0"
| "strikes (Failure t tk # cs) = 1 + strikes cs"
| "strikes (_ # cs) = strikes cs"

fun resets_count :: "breaker_call \<Rightarrow> bool" where
  "resets_count (Success tk) = True"
| "resets_count Reset = True"
| "resets_count _ = False"

lemma strikes_nonneg: "0 \<le> strikes cs"
  by (induction cs rule: strikes.induct) simp_all

lemma closed_counts:
  assumes "cb_state b = CircuitClosed" and "\<forall>c \<in> set cs. \<not> resets_count c"
    and "cb_failures b + strikes cs < cfg_threshold cfg" and "cfg_enabled cfg"
  shows "cb_state (run_calls cfg cs b) = CircuitClosed \<and>
    cb_failures (run_calls cfg cs b) = cb_failures b + strikes cs"
  using assms(1-3)
proof (induction cs arbitrary: b)
  case Nil
  then show ?case by simp
next
  case (Cons c cs)
  have nn: "0 \<le> strikes cs" by (rule strikes_nonneg)
  have step: "cb_state (call_breaker cfg c b) = CircuitClosed \<and>
    cb_failures (call_breaker cfg c b) + strikes cs = cb_failures b + strikes (c # cs)"
    using Cons.prems nn assms(4) by (cases c) (auto simp: breaker_defs Let_def)
  then show ?case using Cons.IH [of "call_breaker cfg c b"] Cons.prems by simp
qed

text \<open>
  a closed breaker opens exactly on the strike that reaches the threshold. As long as fewer
  connect failures than the threshold were recorded since the last success it stays closed,
  whatever else was recorded (reachable errors, cancellations, released probes do not count
  and do not reset the count); the failure that reaches the threshold opens it, and the next
  request within the cooldown is refused without any I/O.
\<close>

theorem breaker_trips_on_the_threshold:
  assumes closed: "cb_state b = CircuitClosed" and fresh: "cb_failures b = 0"
    and quiet: "\<forall>c \<in> set cs. \<not> resets_count c" and en: "cfg_enabled cfg"
  shows "(strikes cs < cfg_threshold cfg \<longrightarrow> cb_state (run_calls cfg cs b) = CircuitClosed) \<and>
    (strikes cs + 1 = cfg_threshold cfg \<longrightarrow>
      cb_state (run_calls cfg (cs @ [Failure t tk]) b) = CircuitOpen \<and>
      (t \<le> u \<and> u < t + cfg_cooldown cfg \<longrightarrow>
         \<not> is_ok (snd (before_request cfg u (run_calls cfg (cs @ [Failure t tk]) b)))))"
proof (intro conjI impI)
  show "cb_state (run_calls cfg cs b) = CircuitClosed" if "strikes cs < cfg_threshold cfg"
    using closed_counts [OF closed quiet _ en] that fresh by simp
next
  assume n: "strikes cs + 1 = cfg_threshold cfg"
  have c: "cb_state (run_calls cfg cs b) = CircuitClosed" "cb_failures (run_calls cfg cs b) = strikes cs"
    using closed_counts [OF closed quiet _ en] n fresh by simp_all
  have r: "run_calls cfg (cs @ [Failure t tk]) b = record_failure cfg t tk (run_calls cfg cs b)"
    by (simp add: run_calls_def)
  have o: "cb_state (run_calls cfg (cs @ [Failure t tk]) b) = CircuitOpen \<and>
      cb_opened_at (run_calls cfg (cs @ [Failure t tk]) b) = t"
    unfolding r using c n en by (simp add: record_failure_def Let_def)
  show "cb_state (run_calls cfg (cs @ [Failure t tk]) b) = CircuitOpen" using o by blast
  show "\<not> is_ok (snd (before_request cfg u (run_calls cfg (cs @ [Failure t tk]) b)))"
    if "t \<le> u \<and> u < t + cfg_cooldown cfg"
    using o that en by (simp add: before_request_def Let_def)
qed

theorem breaker_trips_on_the_threshold_witness:
  "cb_state (run_calls kis_settings
     ([Failure 1 None, Reachable None, Failure 2 None, Indeterminate 3 None, Failure 4 None, Failure 5 None]
      @ [Failure 6 None]) new_breaker) = CircuitOpen"
  using breaker_trips_on_the_threshold [of new_breaker
      "[Failure 1 None, Reachable None, Failure 2 None, Indeterminate 3 None, Failure 4 None, Failure 5 None]"
      kis_settings 6 None]
  by (simp add: new_breaker_def kis_settings_def)

text \<open>A late success of a request that was admitted before the trip closes an open breaker.\<close>

lemma late_success_closes_open_breaker:
  "cb_state b = CircuitOpen \<Longrightarrow> cfg_enabled cfg \<Longrightarrow> cb_state (record_success cfg (Some tk) b) = CircuitClosed"
  by (simp add: record_success_def)

end
