(* ===== verification/KisSend.thy ===== *)
theory KisSend
  imports KisCircuit PyText
begin

text \<open>
  Sending one request to KIS: the outcome tracker (\<open>send_outcome.py\<close>), the throttle
  classifier (\<open>order_throttle.py\<close>), the retry loop and its breaker wrapper (\<open>base.py\<close>), and
  the bounded re-POST of a domestic order (\<open>domestic_orders.py\<close>). What the outside world does
  in each attempt is a value of \<open>attempt\<close>; texts are UTF-8 bytes.
\<close>

section \<open>The outcome tracker\<close>

datatype order_send_disposition = NotCreated | Accepted | UnknownOutcome

record order_send_tracker =
  tr_disposition :: order_send_disposition
  tr_last_http_status :: "int option"

definition new_tracker :: order_send_tracker where
  "new_tracker = \<lparr>tr_disposition = NotCreated, tr_last_http_status = None\<rparr>"

definition mark_dispatched :: "order_send_tracker \<Rightarrow> order_send_tracker" where
  "mark_dispatched tr = tr\<lparr>tr_disposition := UnknownOutcome, tr_last_http_status := None\<rparr>"

definition mark_http_response :: "int \<Rightarrow> order_send_tracker \<Rightarrow> order_send_tracker" where
  "mark_http_response status tr =
     tr\<lparr>tr_last_http_status := Some status,
        tr_disposition := (if 400 \<le> status \<and> status < 500 then NotCreated else UnknownOutcome)\<rparr>"

definition below_500 :: "order_send_tracker \<Rightarrow> bool" where
  "below_500 tr \<longleftrightarrow> (case tr_last_http_status tr of None \<Rightarrow> True | Some s \<Rightarrow> s < 500)"

definition mark_provider_rejected :: "order_send_tracker \<Rightarrow> order_send_tracker" where
  "mark_provider_rejected tr = (if below_500 tr then tr\<lparr>tr_disposition := NotCreated\<rparr> else tr)"

definition mark_accepted :: "order_send_tracker \<Rightarrow> order_send_tracker" where
  "mark_accepted tr = (if below_500 tr then tr\<lparr>tr_disposition := Accepted\<rparr> else tr)"

definition mark_unknown :: "order_send_tracker \<Rightarrow> order_send_tracker" where
  "mark_unknown tr = tr\<lparr>tr_disposition := UnknownOutcome\<rparr>"

definition has_untrusted_server_error_response :: "order_send_tracker \<Rightarrow> bool" where
  "has_untrusted_server_error_response tr \<longleftrightarrow>
     (case tr_last_http_status tr of None \<Rightarrow> False | Some s \<Rightarrow> 500 \<le> s)"

section \<open>Order identifiers and throttle rejections\<close>

datatype odno_value = OdnoText string | OdnoInt int | OdnoOther

definition normalize_broker_order_id :: "odno_value \<Rightarrow> string option" where
  "normalize_broker_order_id v =
     (let text = (case v of OdnoText s \<Rightarrow> Some s | OdnoInt i \<Rightarrow> Some (show_int i) | OdnoOther \<Rightarrow> None) in
      case text of None \<Rightarrow> None | Some s \<Rightarrow> if strip s = [] then None else Some (strip s))"

fun has_prefix :: "'a list \<Rightarrow> 'a list \<Rightarrow> bool" where
  "has_prefix [] ys = True"
| "has_prefix (x # xs) [] = False"
| "has_prefix (x # xs) (y # ys) = (x = y \<and> has_prefix xs ys)"

fun contains :: "'a list \<Rightarrow> 'a list \<Rightarrow> bool" where
  "contains needle [] = (needle = [])"
| "contains needle (y # ys) = (has_prefix needle (y # ys) \<or> contains needle ys)"

definition PER_SECOND :: string where
  "PER_SECOND = [CHR 0xEC, CHR 0xB4, CHR 0x88, CHR 0xEB, CHR 0x8B, CHR 0xB9]"

definition EXCEEDED :: string where
  "EXCEEDED = [CHR 0xEC, CHR 0xB4, CHR 0x88, CHR 0xEA, CHR 0xB3, CHR 0xBC]"

definition REQUEST_LIMIT :: string where
  "REQUEST_LIMIT = [CHR 0xEC, CHR 0x9A, CHR 0x94, CHR 0xEC, CHR 0xB2, CHR 0xAD,
     CHR 0xEC, CHR 0xA0, CHR 0x9C, CHR 0xED, CHR 0x95, CHR 0x9C]"

definition MAX_THROTTLE_RESUBMITS :: nat where "MAX_THROTTLE_RESUBMITS = 2"

definition THROTTLE_MSG_CODES :: "string set" where
  "THROTTLE_MSG_CODES = {''EGW00201'', ''EGW00215''}"

definition is_provider_throttle_reject :: "string \<Rightarrow> string \<Rightarrow> bool" where
  "is_provider_throttle_reject msg_cd msg1 \<longleftrightarrow>
     upper (strip msg_cd) \<in> THROTTLE_MSG_CODES \<or>
     (contains PER_SECOND msg1 \<and> contains EXCEEDED msg1)"

definition throttle_backoff_seconds :: "int \<Rightarrow> rat" where
  "throttle_backoff_seconds depth = 1 / 4 * 2 ^ nat (max depth 0)"

section \<open>Exceptions and responses\<close>

text \<open>
  \<open>ConnectFailed\<close> stands for the httpx transport errors of \<open>_CONNECT_FAILURES\<close>,
  \<open>ConnectionRefused\<close> for the OSError among them, \<open>RequestFailed\<close> for the other
  \<open>httpx.RequestError\<close>s.
\<close>

datatype kis_exception =
    PreSendFreshness | GateUnavailable | Cancelled | ConnectFailed | ConnectionRefused
  | RequestFailed | HttpStatusError int | RateLimitExceeded | CircuitOpenRaised rat
  | OtherError string

definition is_kis_connect_failure :: "kis_exception \<Rightarrow> bool" where
  "is_kis_connect_failure e \<longleftrightarrow> e = ConnectFailed \<or> e = ConnectionRefused"

definition is_request_error :: "kis_exception \<Rightarrow> bool" where
  "is_request_error e \<longleftrightarrow> e = ConnectFailed \<or> e = RequestFailed"

text \<open>The JSON object of a body; a missing field is \<open>None\<close> for \<open>rt_cd\<close> and empty otherwise.\<close>

record kis_body =
  kb_rt_cd :: "string option"
  kb_msg_cd :: string
  kb_msg1 :: string
  kb_odno :: "string option"

record http_response =
  resp_status :: int
  resp_body :: "kis_body option"

definition rate_limit_heuristics :: "string list" where
  "rate_limit_heuristics = [''RATE'', ''LIMIT'', REQUEST_LIMIT, EXCEEDED]"

definition parse_kis_response :: "http_response \<Rightarrow> (kis_exception, kis_body \<times> bool) result" where
  "parse_kis_response r =
     (case resp_body r of
        None \<Rightarrow> if resp_status r \<ge> 400 then Inl (HttpStatusError (resp_status r))
                else Inl (OtherError ''KIS API non-JSON response'')
      | Some b \<Rightarrow>
          if resp_status r \<ge> 400 \<and> resp_status r \<noteq> 500 then Inl (HttpStatusError (resp_status r))
          else Inr (b, kb_rt_cd b \<noteq> Some ''0'' \<and>
                 list_ex (\<lambda>h. contains h (upper (kb_msg_cd b)) \<or> contains h (upper (kb_msg1 b)))
                   rate_limit_heuristics))"

section \<open>The retry loop\<close>

text \<open>
  What happens to one attempt: the local limiter raises, the client, gate or freshness hook
  raises before the send, the HTTP call raises, or it returns. A cancellation while the loop
  sleeps is the \<open>LimiterRaises Cancelled\<close> of the next attempt; a failure to scope the mock gate
  or to find the limiter is a \<open>LimiterRaises\<close> of the first.
\<close>

datatype attempt =
    LimiterRaises kis_exception | PreSendRaises kis_exception
  | HttpRaises kis_exception | HttpReturns http_response

text \<open>The tracker and the cancellation phase, and the number of HTTP requests started.\<close>

record dispatch_progress =
  dp_tracker :: "order_send_tracker option"
  dp_http_started :: bool
  dp_response_seen :: bool
  dp_sent :: nat

definition no_progress :: "order_send_tracker option \<Rightarrow> dispatch_progress" where
  "no_progress tr = \<lparr>dp_tracker = tr, dp_http_started = False, dp_response_seen = False, dp_sent = 0\<rparr>"

definition start_http :: "dispatch_progress \<Rightarrow> dispatch_progress" where
  "start_http p = p\<lparr>dp_tracker := map_option mark_dispatched (dp_tracker p),
     dp_http_started := True, dp_sent := dp_sent p + 1\<rparr>"

definition see_response :: "int \<Rightarrow> dispatch_progress \<Rightarrow> dispatch_progress" where
  "see_response status p = p\<lparr>dp_response_seen := True,
     dp_tracker := map_option (mark_http_response status) (dp_tracker p)\<rparr>"

datatype attempt_end = TryAgain | Raised kis_exception | Returned kis_body

definition on_exception :: "nat \<Rightarrow> bool \<Rightarrow> nat \<Rightarrow> kis_exception \<Rightarrow> attempt_end" where
  "on_exception max_retries retry_request_errors n e =
     (if (e = HttpStatusError 429 \<or> (is_request_error e \<and> retry_request_errors)) \<and> n < max_retries
      then TryAgain else Raised e)"

definition run_attempt ::
  "nat \<Rightarrow> bool \<Rightarrow> nat \<Rightarrow> attempt \<Rightarrow> dispatch_progress \<Rightarrow> dispatch_progress \<times> attempt_end" where
  "run_attempt max_retries retry_request_errors n a p =
     (case a of
        LimiterRaises e \<Rightarrow> (p, Raised e)
      | PreSendRaises e \<Rightarrow> (p, on_exception max_retries retry_request_errors n e)
      | HttpRaises e \<Rightarrow> (start_http p, on_exception max_retries retry_request_errors n e)
      | HttpReturns r \<Rightarrow>
          let p1 = see_response (resp_status r) (start_http p) in
          if resp_status r = 429 then (p1, TryAgain)
          else case parse_kis_response r of
                 Inl e \<Rightarrow> (p1, on_exception max_retries retry_request_errors n e)
               | Inr (b, is_rate_limited) \<Rightarrow>
                   (p1, if is_rate_limited \<and> n < max_retries then TryAgain else Returned b))"

text \<open>\<open>for attempt in range(max_retries + 1)\<close>: \<open>k\<close> attempts are left, \<open>n\<close> is the next index.\<close>

fun dispatch_from ::
  "nat \<Rightarrow> bool \<Rightarrow> (nat \<Rightarrow> attempt) \<Rightarrow> nat \<Rightarrow> nat \<Rightarrow> dispatch_progress
   \<Rightarrow> dispatch_progress \<times> (kis_exception, kis_body) result" where
  "dispatch_from max_retries re world n 0 p = (p, Inl RateLimitExceeded)"
| "dispatch_from max_retries re world n (Suc k) p =
     (case run_attempt max_retries re n (world n) p of
        (p1, TryAgain) \<Rightarrow> dispatch_from max_retries re world (n + 1) k p1
      | (p1, Raised e) \<Rightarrow> (p1, Inl e)
      | (p1, Returned b) \<Rightarrow> (p1, Inr b))"

definition dispatch_rate_limited ::
  "nat \<Rightarrow> bool \<Rightarrow> (nat \<Rightarrow> attempt) \<Rightarrow> order_send_tracker option
   \<Rightarrow> dispatch_progress \<times> (kis_exception, kis_body) result" where
  "dispatch_rate_limited max_retries re world tr =
     dispatch_from max_retries re world 0 (max_retries + 1) (no_progress tr)"

section \<open>The breaker around it\<close>

definition breaker_verdict ::
  "circuit_settings \<Rightarrow> rat \<Rightarrow> int \<Rightarrow> dispatch_progress \<Rightarrow> (kis_exception, kis_body) result
   \<Rightarrow> circuit_breaker \<Rightarrow> circuit_breaker" where
  "breaker_verdict cfg now lease p res b =
     (case res of
        Inr _ \<Rightarrow> record_success cfg (Some lease) b
      | Inl e \<Rightarrow>
          if e \<in> {PreSendFreshness, GateUnavailable, Cancelled}
          then (if dp_response_seen p then record_reachable_error cfg (Some lease) b
                else if dp_http_started p then record_indeterminate cfg now (Some lease) b
                else release_probe cfg (Some lease) b)
          else if is_kis_connect_failure e then record_failure cfg now (Some lease) b
          else record_reachable_error cfg (Some lease) b)"

text \<open>\<open>t0\<close> and \<open>t1\<close> are the clock readings before and after the dispatch.\<close>

definition request_with_rate_limit ::
  "circuit_settings \<Rightarrow> rat \<Rightarrow> rat \<Rightarrow> nat \<Rightarrow> bool \<Rightarrow> (nat \<Rightarrow> attempt) \<Rightarrow> order_send_tracker option
   \<Rightarrow> circuit_breaker
   \<Rightarrow> circuit_breaker \<times> dispatch_progress \<times> (kis_exception, kis_body) result" where
  "request_with_rate_limit cfg t0 t1 max_retries re world tr b =
     (case before_request cfg t0 b of
        (b1, Inl retry_after) \<Rightarrow> (b1, no_progress tr, Inl (CircuitOpenRaised retry_after))
      | (b1, Inr lease) \<Rightarrow>
          (case dispatch_rate_limited max_retries re world tr of
             (p, res) \<Rightarrow> (breaker_verdict cfg t1 lease p res b1, p, res)))"

section \<open>Submitting a domestic order\<close>

definition MAX_TOKEN_REFRESH_RESUBMITS :: nat where "MAX_TOKEN_REFRESH_RESUBMITS = 1"

definition TOKEN_EXPIRED_CODES :: "string set" where
  "TOKEN_EXPIRED_CODES = {''EGW00123'', ''EGW00121''}"

datatype after_reject = RefreshToken | Throttled | GiveUp

text \<open>What \<open>order_korea_stock\<close> does with a body whose \<open>rt_cd\<close> is not \<open>0\<close>.\<close>

definition after_provider_reject ::
  "kis_body \<Rightarrow> order_send_tracker \<Rightarrow> nat \<Rightarrow> nat \<Rightarrow> after_reject" where
  "after_provider_reject js outcome token_depth throttle_depth =
     (if kb_msg_cd js \<in> TOKEN_EXPIRED_CODES
      then (if token_depth \<ge> MAX_TOKEN_REFRESH_RESUBMITS then GiveUp else RefreshToken)
      else if is_provider_throttle_reject (kb_msg_cd js) (kb_msg1 js)
      then (if tr_disposition outcome \<noteq> NotCreated then GiveUp
            else if throttle_depth < MAX_THROTTLE_RESUBMITS then Throttled else GiveUp)
      else GiveUp)"

text \<open>
  The \<open>i\<close>-th call finds \<open>prepare i\<close>: the token fetch (which may use the breaker) and an error of
  the token, the settings, the side or the route before anything is sent, or \<open>None\<close>; then \<open>world i\<close> is its one attempt and \<open>clock i\<close>
  its two breaker readings. The result carries the breaker, the caller's tracker and the
  number of orders that were sent.
\<close>

record order_world =
  ow_prepare :: "nat \<Rightarrow> circuit_breaker \<Rightarrow> circuit_breaker \<times> kis_exception option"
  ow_attempt :: "nat \<Rightarrow> attempt"
  ow_clock :: "nat \<Rightarrow> rat \<times> rat"

function order_korea_stock ::
  "circuit_settings \<Rightarrow> order_world \<Rightarrow> nat \<Rightarrow> nat \<Rightarrow> nat \<Rightarrow> order_send_tracker option \<Rightarrow> circuit_breaker
   \<Rightarrow> circuit_breaker \<times> order_send_tracker option \<times> nat \<times> (kis_exception, kis_body) result" where
  "order_korea_stock cfg w i token_depth throttle_depth send_outcome b =
     (case ow_prepare w i b of
        (b0, Some e) \<Rightarrow> (b0, send_outcome, 0, Inl e)
      | (b0, None) \<Rightarrow>
          (case request_with_rate_limit cfg (fst (ow_clock w i)) (snd (ow_clock w i)) 0 False
                  (\<lambda>_. ow_attempt w i)
                  (Some (case send_outcome of None \<Rightarrow> new_tracker | Some tr \<Rightarrow> tr)) b0 of
             (b1, p, Inl e) \<Rightarrow> (b1, if send_outcome = None then None else dp_tracker p, dp_sent p, Inl e)
           | (b1, p, Inr js) \<Rightarrow>
               if kb_rt_cd js = Some ''0''
               then (b1, if send_outcome = None then None else dp_tracker p, dp_sent p, Inr js)
               else
                 let outcome = mark_provider_rejected (the (dp_tracker p));
                     kept = (if send_outcome = None then None else Some outcome)
                 in case after_provider_reject js outcome token_depth throttle_depth of
                      GiveUp \<Rightarrow> (b1, kept, dp_sent p, Inl (OtherError (kb_msg_cd js @ '' '' @ kb_msg1 js)))
                    | RefreshToken \<Rightarrow>
                        (case order_korea_stock cfg w (i + 1) (token_depth + 1) throttle_depth kept b1 of
                           (b2, tr, n, res) \<Rightarrow> (b2, tr, dp_sent p + n, res))
                    | Throttled \<Rightarrow>
                        (case order_korea_stock cfg w (i + 1) token_depth (throttle_depth + 1) kept b1 of
                           (b2, tr, n, res) \<Rightarrow> (b2, tr, dp_sent p + n, res))))"
  by pat_completeness auto

lemma after_reject_depths:
  "after_provider_reject js outcome token_depth throttle_depth = RefreshToken \<Longrightarrow>
     token_depth < MAX_TOKEN_REFRESH_RESUBMITS"
  "after_provider_reject js outcome token_depth throttle_depth = Throttled \<Longrightarrow>
     throttle_depth < MAX_THROTTLE_RESUBMITS \<and> tr_disposition outcome = NotCreated"
  by (auto simp: after_provider_reject_def split: if_splits)

termination order_korea_stock
  by (relation "measure (\<lambda>(cfg, w, i, td, thd, so, b).
        (MAX_TOKEN_REFRESH_RESUBMITS - td) + (MAX_THROTTLE_RESUBMITS - thd))")
    (auto dest: after_reject_depths intro: diff_less_mono2)

declare order_korea_stock.simps [simp del]

end
