(* ===== verification/KisSendSafety.thy ===== *)
theory KisSendSafety
  imports KisSend
begin

text \<open>
  What a request to KIS guarantees: bounded retries, an order that is posted at most once per
  call, a proven "not created", bounded and justified re-POSTs, and what the breaker learns.
\<close>

section \<open>Retries\<close>

lemma run_attempt_sent:
  "run_attempt m re n a p = (p1, res) \<Longrightarrow> dp_sent p \<le> dp_sent p1 \<and> dp_sent p1 \<le> dp_sent p + 1"
  by (auto simp: run_attempt_def start_http_def see_response_def Let_def split: attempt.splits if_splits sum.splits)

lemma dispatch_from_sent: "dp_sent (fst (dispatch_from m re world n k p)) \<le> dp_sent p + k"
proof (induction k arbitrary: n p)
  case 0
  then show ?case by simp
next
  case (Suc k)
  obtain p1 res where a: "run_attempt m re n (world n) p = (p1, res)" by fastforce
  have "dp_sent p1 \<le> dp_sent p + 1" using run_attempt_sent [OF a] by simp
  then show ?case using a Suc.IH [of "n + 1" p1] by (cases res) auto
qed

text \<open>An attempt that the loop may repeat.\<close>

definition retryable :: "nat \<Rightarrow> bool \<Rightarrow> attempt \<Rightarrow> bool" where
  "retryable m re a = (case a of
     LimiterRaises e \<Rightarrow> False
   | PreSendRaises e \<Rightarrow> 0 < m \<and> (e = HttpStatusError 429 \<or> (is_request_error e \<and> re))
   | HttpRaises e \<Rightarrow> 0 < m \<and> (e = HttpStatusError 429 \<or> (is_request_error e \<and> re))
   | HttpReturns r \<Rightarrow> resp_status r = 429 \<or> 0 < m)"

lemma run_attempt_again: "run_attempt m re n a p = (p1, TryAgain) \<Longrightarrow> retryable m re a"
  by (auto simp: run_attempt_def on_exception_def retryable_def Let_def
      split: attempt.splits if_splits sum.splits)

lemma dispatch_from_stops:
  assumes "\<not> retryable m re (world n)"
  shows "dp_sent (fst (dispatch_from m re world n (Suc k) p)) \<le> dp_sent p + 1"
proof -
  obtain p1 res where a: "run_attempt m re n (world n) p = (p1, res)" by fastforce
  have "res \<noteq> TryAgain" using run_attempt_again a assms by blast
  then show ?thesis using a run_attempt_sent [OF a] by (cases res) auto
qed

text \<open>
  a dispatch sends at most \<open>max_retries + 1\<close> HTTP requests, whatever the network does, and
  nothing more once an attempt was not retryable: with request-error retries switched off, a
  transport error of the first attempt (its outcome is unknown) is never followed by another
  request.
\<close>

theorem dispatch_is_bounded:
  "dp_sent (fst (dispatch_rate_limited m re world tr)) \<le> m + 1 \<and>
   (\<not> re \<and> world 0 \<in> {HttpRaises ConnectFailed, HttpRaises RequestFailed, HttpRaises Cancelled} \<longrightarrow>
      dp_sent (fst (dispatch_rate_limited m re world tr)) \<le> 1)"
proof -
  have "dp_sent (fst (dispatch_rate_limited m re world tr)) \<le> m + 1"
    using dispatch_from_sent [of m re world 0 "m + 1" "no_progress tr"]
    by (simp add: dispatch_rate_limited_def no_progress_def)
  moreover have "dp_sent (fst (dispatch_rate_limited m re world tr)) \<le> 1"
    if "\<not> re" "world 0 \<in> {HttpRaises ConnectFailed, HttpRaises RequestFailed, HttpRaises Cancelled}"
  proof -
    have "\<not> retryable m re (world 0)" using that by (auto simp: retryable_def is_request_error_def)
    then show ?thesis
      using dispatch_from_stops [of m re world 0 m "no_progress tr"]
      by (simp add: dispatch_rate_limited_def no_progress_def)
  qed
  ultimately show ?thesis by blast
qed

theorem dispatch_is_bounded_witness:
  "dp_sent (fst (dispatch_rate_limited 3 False (\<lambda>_. HttpRaises ConnectFailed) None)) \<le> 1"
  using dispatch_is_bounded [of 3 False "\<lambda>_. HttpRaises ConnectFailed" None] by simp

section \<open>What the tracker proves\<close>

lemma dispatch_once:
  "dispatch_rate_limited 0 re world tr =
     (case run_attempt 0 re 0 (world 0) (no_progress tr) of
        (p1, TryAgain) \<Rightarrow> (p1, Inl RateLimitExceeded)
      | (p1, Raised e) \<Rightarrow> (p1, Inl e)
      | (p1, Returned b) \<Rightarrow> (p1, Inr b))"
  by (simp add: dispatch_rate_limited_def split: prod.splits attempt_end.splits)

lemma dispatch_once_progress:
  "fst (dispatch_rate_limited 0 re world tr) =
     (case world 0 of
        LimiterRaises e \<Rightarrow> no_progress tr
      | PreSendRaises e \<Rightarrow> no_progress tr
      | HttpRaises e \<Rightarrow> start_http (no_progress tr)
      | HttpReturns r \<Rightarrow> see_response (resp_status r) (start_http (no_progress tr)))"
  unfolding dispatch_once
  by (auto simp: run_attempt_def on_exception_def Let_def split: attempt.splits sum.splits)

text \<open>
  an order dispatch (no retries) sends at most one request, and its tracker says "not
  created" only with proof: nothing was sent at all, or the broker answered with a client
  error. A timeout, a cancelled call, a success status and a server error all leave the outcome
  unknown, and no dispatch by itself ever claims acceptance.
\<close>

theorem not_created_is_proven:
  "dp_sent (fst (dispatch_rate_limited 0 re world (Some new_tracker))) \<le> 1 \<and>
   (case dp_tracker (fst (dispatch_rate_limited 0 re world (Some new_tracker))) of
      None \<Rightarrow> False
    | Some tr \<Rightarrow>
        tr_disposition tr \<noteq> Accepted \<and>
        (tr_disposition tr = NotCreated \<longleftrightarrow>
           dp_sent (fst (dispatch_rate_limited 0 re world (Some new_tracker))) = 0 \<or>
           (\<exists>r. world 0 = HttpReturns r \<and> 400 \<le> resp_status r \<and> resp_status r < 500)))"
  unfolding dispatch_once_progress
  by (auto simp: no_progress_def start_http_def see_response_def new_tracker_def mark_dispatched_def
      mark_http_response_def split: attempt.splits)

section \<open>Re-POSTs of an order\<close>

text \<open>A response that allows the order to be posted again.\<close>

definition rejected_by_provider :: "attempt \<Rightarrow> bool" where
  "rejected_by_provider a \<longleftrightarrow>
     (\<exists>r js. a = HttpReturns r \<and> resp_body r = Some js \<and> kb_rt_cd js \<noteq> Some ''0'' \<and>
        (resp_status r < 400 \<or> resp_status r = 500) \<and>
        (kb_msg_cd js \<in> TOKEN_EXPIRED_CODES \<or>
         (is_provider_throttle_reject (kb_msg_cd js) (kb_msg1 js) \<and> resp_status r < 400)))"

lemma request_returned:
  assumes "request_with_rate_limit cfg t0 t1 0 False world (Some tr) b = (b1, p, Inr js)"
  shows "\<exists>r. world 0 = HttpReturns r \<and> resp_body r = Some js \<and> (resp_status r < 400 \<or> resp_status r = 500) \<and>
    dp_sent p = 1 \<and> dp_tracker p = Some (mark_http_response (resp_status r) (mark_dispatched tr))"
proof -
  have d: "dispatch_rate_limited 0 False world (Some tr) = (p, Inr js)"
    using assms by (auto simp: request_with_rate_limit_def split: prod.splits sum.splits)
  then obtain r l where r: "world 0 = HttpReturns r" and ps: "parse_kis_response r = Inr (js, l)"
    by (auto simp: dispatch_once run_attempt_def on_exception_def Let_def
        split: attempt.splits sum.splits if_splits)
  have "fst (dispatch_rate_limited 0 False world (Some tr)) = p" using d by simp
  then have "p = see_response (resp_status r) (start_http (no_progress (Some tr)))"
    using dispatch_once_progress [of False world "Some tr"] r(1) by simp
  moreover have "resp_body r = Some js \<and> (resp_status r < 400 \<or> resp_status r = 500)"
    using ps by (auto simp: parse_kis_response_def split: option.splits if_splits)
  ultimately show ?thesis
    using r by (auto simp: see_response_def start_http_def no_progress_def)
qed

lemma rejected_outcome:
  assumes "resp_status r < 400 \<or> resp_status r = 500"
    and "tr_disposition (mark_provider_rejected (mark_http_response (resp_status r) (mark_dispatched tr))) = NotCreated"
  shows "resp_status r < 400"
  using assms by (auto simp: mark_provider_rejected_def mark_http_response_def mark_dispatched_def below_500_def
      split: if_splits)

lemma reject_is_justified:
  assumes req: "request_with_rate_limit cfg t0 t1 0 False (\<lambda>_. a) (Some tr) b = (b1, p, Inr js)"
    and rej: "kb_rt_cd js \<noteq> Some ''0''"
    and next_step: "after_provider_reject js (mark_provider_rejected (the (dp_tracker p))) td thd \<noteq> GiveUp"
  shows "rejected_by_provider a \<and> dp_sent p = 1"
proof -
  obtain r where r: "a = HttpReturns r" "resp_body r = Some js" "resp_status r < 400 \<or> resp_status r = 500"
    and p: "dp_sent p = 1" "dp_tracker p = Some (mark_http_response (resp_status r) (mark_dispatched tr))"
    using request_returned [OF req] by auto
  have "kb_msg_cd js \<in> TOKEN_EXPIRED_CODES \<or>
      (is_provider_throttle_reject (kb_msg_cd js) (kb_msg1 js) \<and> resp_status r < 400)"
    using next_step rejected_outcome [OF r(3), of tr] p(2)
    by (auto simp: after_provider_reject_def split: if_splits)
  then show ?thesis using r p rej unfolding rejected_by_provider_def by blast
qed

lemma request_sent_once:
  "request_with_rate_limit cfg t0 t1 0 False world tr b = (b1, p, res) \<Longrightarrow> dp_sent p \<le> 1"
  using dispatch_from_sent [of 0 False world 0 1 "no_progress tr"]
  by (auto simp: request_with_rate_limit_def dispatch_rate_limited_def no_progress_def split: prod.splits sum.splits)

definition resubmits_left :: "nat \<Rightarrow> nat \<Rightarrow> nat" where
  "resubmits_left td thd = (MAX_TOKEN_REFRESH_RESUBMITS - td) + (MAX_THROTTLE_RESUBMITS - thd)"

text \<open>One call: it stops after at most one request, or a justified re-POST follows.\<close>

lemma order_step:
  assumes "order_korea_stock cfg w i td thd so b = (b', tr, n, res)"
  shows "n \<le> 1 \<or>
    (rejected_by_provider (ow_attempt w i) \<and>
     (\<exists>so1 b1 b2 tr2 n2 res2 td1 thd1. n = 1 + n2 \<and> Suc (resubmits_left td1 thd1) = resubmits_left td thd \<and>
       order_korea_stock cfg w (i + 1) td1 thd1 so1 b1 = (b2, tr2, n2, res2)))"
proof -
  obtain b0 pr where prep: "ow_prepare w i b = (b0, pr)" by fastforce
  let ?tr = "case so of None \<Rightarrow> new_tracker | Some tr \<Rightarrow> tr"
  obtain b1 p rs where req: "request_with_rate_limit cfg (fst (ow_clock w i)) (snd (ow_clock w i)) 0 False
      (\<lambda>_. ow_attempt w i) (Some ?tr) b0 = (b1, p, rs)" by (metis prod_cases3)
  note once = request_sent_once [OF req]
  note unfolded = assms [unfolded order_korea_stock.simps [of cfg w i td thd so b] prep]
  show ?thesis
  proof (cases pr)
    case (Some e)
    then show ?thesis using unfolded by simp
  next
    case None
    show ?thesis
    proof (cases rs)
      case (Inl e)
      then show ?thesis using unfolded None once by (simp add: req)
    next
      case (Inr js)
      note req' = req [unfolded Inr]
      let ?out = "mark_provider_rejected (the (dp_tracker p))"
      let ?kept = "if so = None then None else Some ?out"
      let ?next = "after_provider_reject js ?out td thd"
      show ?thesis
      proof (cases "kb_rt_cd js = Some ''0'' \<or> ?next = GiveUp")
        case True
        then show ?thesis using unfolded None once by (auto simp: req' Let_def split: if_splits)
      next
        case False
        then have j: "rejected_by_provider (ow_attempt w i) \<and> dp_sent p = 1"
          using reject_is_justified [OF req', of td thd] by blast
        show ?thesis
        proof (cases ?next)
          case RefreshToken
          obtain b2 tr2 n2 res2 where rec: "order_korea_stock cfg w (i + 1) (td + 1) thd ?kept b1 = (b2, tr2, n2, res2)"
            by (metis prod_cases4)
          have "n = 1 + n2" using unfolded None False RefreshToken rec j by (simp add: req' Let_def)
          moreover have "Suc (resubmits_left (td + 1) thd) = resubmits_left td thd"
            using after_reject_depths(1) [OF RefreshToken] by (simp add: resubmits_left_def)
          ultimately show ?thesis using j rec by blast
        next
          case Throttled
          obtain b2 tr2 n2 res2 where rec: "order_korea_stock cfg w (i + 1) td (thd + 1) ?kept b1 = (b2, tr2, n2, res2)"
            by (metis prod_cases4)
          have "n = 1 + n2" using unfolded None False Throttled rec j by (simp add: req' Let_def)
          moreover have "Suc (resubmits_left td (thd + 1)) = resubmits_left td thd"
            using after_reject_depths(2) [OF Throttled] unfolding resubmits_left_def by linarith
          ultimately show ?thesis using j rec by blast
        next
          case GiveUp
          then show ?thesis using False by simp
        qed
      qed
    qed
  qed
qed

lemma order_posts:
  assumes "order_korea_stock cfg w i td thd so b = (b', tr, n, res)"
  shows "n \<le> resubmits_left td thd + 1 \<and>
    (\<forall>j. i \<le> j \<and> j + 1 < i + n \<longrightarrow> rejected_by_provider (ow_attempt w j))"
  using assms
proof (induction "resubmits_left td thd" arbitrary: i td thd so b b' tr n res rule: less_induct)
  case less
  show ?case
  proof (cases "n \<le> 1")
    case True
    then show ?thesis by auto
  next
    case False
    then obtain so1 b1 b2 tr2 n2 res2 td1 thd1 where rej: "rejected_by_provider (ow_attempt w i)"
      and n: "n = 1 + n2" and rec: "order_korea_stock cfg w (i + 1) td1 thd1 so1 b1 = (b2, tr2, n2, res2)"
      and m: "Suc (resubmits_left td1 thd1) = resubmits_left td thd"
      using order_step [OF less.prems] by blast
    have IH: "n2 \<le> resubmits_left td1 thd1 + 1"
      "\<forall>j. i + 1 \<le> j \<and> j + 1 < i + 1 + n2 \<longrightarrow> rejected_by_provider (ow_attempt w j)"
      using less.hyps [OF _ rec] m by auto
    have "rejected_by_provider (ow_attempt w j)" if "i \<le> j" "j + 1 < i + n" for j
      using rej IH(2) that n by (cases "j = i") auto
    then show ?thesis using IH(1) m n by auto
  qed
qed

text \<open>
  C39: one submission of a domestic order posts at most four requests (one, a refreshed token,
  two throttle retries), and every request but the last one was answered by a body with a
  non-zero \<open>rt_cd\<close> that reports an expired token or a gateway throttle below status 500. No
  request follows a timeout, a transport error, a success or any other answer.
\<close>

theorem order_reposts_are_justified:
  assumes "order_korea_stock cfg w 0 0 0 so b = (b', tr, n, res)"
  shows "n \<le> 4 \<and> (\<forall>j. j + 1 < n \<longrightarrow> rejected_by_provider (ow_attempt w j))"
  using order_posts [OF assms]
  by (simp add: resubmits_left_def MAX_TOKEN_REFRESH_RESUBMITS_def MAX_THROTTLE_RESUBMITS_def)

definition throttle_body :: "string \<Rightarrow> kis_body" where
  "throttle_body code = \<lparr>kb_rt_cd = Some ''1'', kb_msg_cd = code, kb_msg1 = [], kb_odno = None\<rparr>"

definition throttled_world :: "string \<Rightarrow> int \<Rightarrow> order_world" where
  "throttled_world code status =
     \<lparr>ow_prepare = (\<lambda>_ b. (b, None)),
      ow_attempt = (\<lambda>_. HttpReturns \<lparr>resp_status = status, resp_body = Some (throttle_body code)\<rparr>),
      ow_clock = (\<lambda>_. (0, 0))\<rparr>"

theorem order_reposts_are_justified_witness:
  "fst (snd (snd (order_korea_stock kis_settings (throttled_world ''EGW00201'' 200) 0 0 0 None new_breaker))) = 3 \<and>
   rejected_by_provider (ow_attempt (throttled_world ''EGW00201'' 200) 1)"
proof -
  have three: "fst (snd (snd (order_korea_stock kis_settings (throttled_world ''EGW00201'' 200) 0 0 0 None new_breaker))) = 3"
    by code_simp
  obtain b' tr n res where o: "order_korea_stock kis_settings (throttled_world ''EGW00201'' 200) 0 0 0 None new_breaker
      = (b', tr, n, res)" by (metis prod_cases4)
  then have "n = 3" using three by simp
  then show ?thesis using order_reposts_are_justified [OF o] three by simp
qed

text \<open>The token retry does not look at the outcome: it re-posts after a server error.\<close>

lemma token_repost_after_server_error:
  "fst (snd (snd (order_korea_stock kis_settings (throttled_world ''EGW00123'' 500) 0 0 0 None new_breaker))) = 2"
  by code_simp

section \<open>What the breaker learns\<close>

text \<open>Requests one after the other: clock readings, retry limit, retry flag and network.\<close>

record kis_request =
  rq_before :: rat
  rq_after :: rat
  rq_max_retries :: nat
  rq_retry_errors :: bool
  rq_world :: "nat \<Rightarrow> attempt"

definition serve :: "circuit_settings \<Rightarrow> kis_request \<Rightarrow> circuit_breaker \<Rightarrow> circuit_breaker" where
  "serve cfg q b = fst (request_with_rate_limit cfg (rq_before q) (rq_after q) (rq_max_retries q)
     (rq_retry_errors q) (rq_world q) None b)"

definition unreachable :: "kis_request \<Rightarrow> bool" where
  "unreachable q \<longleftrightarrow> (\<forall>n. rq_world q n = HttpRaises ConnectFailed)"

lemma dispatch_unreachable:
  assumes "\<forall>n. world n = HttpRaises ConnectFailed" and "n + k = Suc m" and "0 < k"
  shows "snd (dispatch_from m re world n k p) = Inl ConnectFailed"
  using assms(2,3)
proof (induction k arbitrary: n p)
  case 0
  then show ?case by simp
next
  case (Suc k)
  show ?case
  proof (cases "re \<and> n < m")
    case True
    then show ?thesis
      using Suc.IH [of "n + 1"] Suc.prems assms(1)
      by (simp add: run_attempt_def on_exception_def is_request_error_def)
  next
    case False
    then show ?thesis
      using assms(1) by (cases re) (simp_all add: run_attempt_def on_exception_def is_request_error_def)
  qed
qed

lemma closed_admits:
  "cb_state b = CircuitClosed \<Longrightarrow> before_request cfg t b =
     (b\<lparr>cb_next_token := cb_next_token b + 1\<rparr>, Inr (cb_next_token b + 1))"
  by (simp add: before_request_def Let_def)

lemma serve_unreachable:
  assumes "unreachable q" and "cb_state b = CircuitClosed" and "cfg_enabled cfg"
  shows "\<exists>lease. serve cfg q b = record_failure cfg (rq_after q) lease (fst (before_request cfg (rq_before q) b))"
proof -
  obtain b1 lease where a: "before_request cfg (rq_before q) b = (b1, Inr lease)"
    using closed_admits [OF assms(2)] by blast
  obtain p res where d: "dispatch_rate_limited (rq_max_retries q) (rq_retry_errors q) (rq_world q) None = (p, res)"
    by fastforce
  have "snd (dispatch_rate_limited (rq_max_retries q) (rq_retry_errors q) (rq_world q) None) = Inl ConnectFailed"
    unfolding dispatch_rate_limited_def
    by (rule dispatch_unreachable) (use assms(1) in \<open>simp_all add: unreachable_def\<close>)
  then have "res = Inl ConnectFailed" using d by simp
  then show ?thesis
    using a d by (intro exI [of _ "Some lease"])
      (simp add: serve_def request_with_rate_limit_def breaker_verdict_def is_kis_connect_failure_def)
qed

lemma outage_counts:
  assumes "\<forall>q \<in> set qs. unreachable q" and "cb_state b = CircuitClosed" and "cfg_enabled cfg"
    and "cb_failures b + int (length qs) < cfg_threshold cfg"
  shows "cb_state (fold (serve cfg) qs b) = CircuitClosed \<and>
    cb_failures (fold (serve cfg) qs b) = cb_failures b + int (length qs)"
  using assms(1,2,4)
proof (induction qs arbitrary: b)
  case Nil
  then show ?case by simp
next
  case (Cons q qs)
  obtain lease where s: "serve cfg q b = record_failure cfg (rq_after q) lease (fst (before_request cfg (rq_before q) b))"
    using serve_unreachable [of q b cfg] Cons.prems assms(3) by auto
  have "cb_state (serve cfg q b) = CircuitClosed \<and> cb_failures (serve cfg q b) = cb_failures b + 1"
    unfolding s using Cons.prems assms(3) by (simp add: before_request_def record_failure_def Let_def)
  then show ?case using Cons.IH [of "serve cfg q b"] Cons.prems by simp
qed

text \<open>
  an outage trips the breaker. After as many requests as the threshold, one after the
  other and all without a connection (with or without retries), a request within the cooldown
  fails at once with \<open>KISCircuitOpen\<close> and sends nothing.
\<close>

theorem outage_trips_the_breaker:
  assumes "\<forall>q \<in> set qs. unreachable q" and "int (length qs) = cfg_threshold cfg" and "qs \<noteq> []"
    and closed: "cb_state b = CircuitClosed" "cb_failures b = 0" and en: "cfg_enabled cfg"
    and "t < rq_after (last qs) + cfg_cooldown cfg"
  shows "\<exists>b' p retry. request_with_rate_limit cfg t t1 m re world tr (fold (serve cfg) qs b) =
    (b', p, Inl (CircuitOpenRaised retry)) \<and> dp_sent p = 0 \<and> dp_tracker p = tr"
proof -
  obtain ps q where qs: "qs = ps @ [q]" using assms(3) by (metis rev_exhaust)
  let ?b = "fold (serve cfg) ps b"
  have c: "cb_state ?b = CircuitClosed \<and> cb_failures ?b = int (length ps)"
    using outage_counts [of ps b cfg] assms(1,2) closed en qs by simp
  obtain lease where s: "serve cfg q ?b = record_failure cfg (rq_after q) lease (fst (before_request cfg (rq_before q) ?b))"
    using serve_unreachable [of q ?b cfg] assms(1) c en qs by auto
  have o: "cb_state (fold (serve cfg) qs b) = CircuitOpen \<and> cb_opened_at (fold (serve cfg) qs b) = rq_after q"
    using c s assms(2) en qs by (simp add: before_request_def record_failure_def Let_def)
  have "t - rq_after q < cfg_cooldown cfg" using assms(7) qs by simp
  then show ?thesis
    using o en by (simp add: request_with_rate_limit_def before_request_def Let_def no_progress_def)
qed

definition dead_request :: kis_request where
  "dead_request = \<lparr>rq_before = 0, rq_after = 5, rq_max_retries = 2, rq_retry_errors = True,
     rq_world = (\<lambda>_. HttpRaises ConnectFailed)\<rparr>"

theorem outage_trips_the_breaker_witness:
  "\<exists>b' p retry. request_with_rate_limit kis_settings 9 10 0 False (\<lambda>_. HttpRaises ConnectFailed) None
     (fold (serve kis_settings) (replicate 5 dead_request) new_breaker) = (b', p, Inl (CircuitOpenRaised retry)) \<and>
     dp_sent p = 0 \<and> dp_tracker p = None"
  by (rule outage_trips_the_breaker)
    (simp_all add: unreachable_def dead_request_def kis_settings_def new_breaker_def)

text \<open>
  An error that is raised before anything is sent and that is none of the three abort signals
  is recorded as "KIS answered": it closes a half-open circuit.
\<close>

lemma unsent_error_closes_half_open:
  "case request_with_rate_limit kis_settings 60 61 0 False (\<lambda>_. LimiterRaises RateLimitExceeded) None tripped of
     (b', p, res) \<Rightarrow> dp_sent p = 0 \<and> cb_state tripped = CircuitOpen \<and> cb_state b' = CircuitClosed"
  by code_simp

end
