(* ===== verification/VtsGate.thy ===== *)
theory VtsGate
  imports KisSend
begin

text \<open>
  The distributed gate of the KIS mock host (\<open>brokers/kis/vts_distributed_gate.py\<close>): the
  atomic Lua claim over the Redis slot, the checked reply, the acquire loop with its deadline,
  and the process-local pacer it replaced (\<open>vts_order_pacer.py\<close>). Redis itself, the freshness
  hook and the clocks are what each round is given.
\<close>

section \<open>The atomic claim\<close>

text \<open>
  The slot of a scope holds the last admitted server time and the time at which the key
  expires, both in milliseconds; an expired key reads as absent.
\<close>

type_synonym gate_slot = "(int \<times> int) option"

definition read_slot :: "int \<Rightarrow> gate_slot \<Rightarrow> int option" where
  "read_slot now slot = (case slot of
     None \<Rightarrow> None | Some (last_admit, expires) \<Rightarrow> if now < expires then Some last_admit else None)"

definition server_ms :: "int \<Rightarrow> int \<Rightarrow> int" where
  "server_ms secs micros = secs * 1000 + micros div 1000"

definition claim_script :: "int \<Rightarrow> int \<Rightarrow> int \<Rightarrow> gate_slot \<Rightarrow> gate_slot \<times> (int \<times> int)" where
  "claim_script interval_ms ttl_ms now_ms slot =
     (case read_slot now_ms slot of
        None \<Rightarrow> (Some (now_ms, now_ms + ttl_ms), (1, 0))
      | Some last_admit \<Rightarrow>
          let eligible_at = last_admit + interval_ms in
          if now_ms \<ge> eligible_at then (Some (now_ms, now_ms + ttl_ms), (1, 0))
          else (Some (last_admit, now_ms + ttl_ms), (0, eligible_at - now_ms)))"

text \<open>The claims of all processes, in the order in which Redis executes them.\<close>

fun admitted_times :: "int \<Rightarrow> int \<Rightarrow> int list \<Rightarrow> gate_slot \<Rightarrow> int list" where
  "admitted_times interval_ms ttl_ms [] slot = []"
| "admitted_times interval_ms ttl_ms (t # ts) slot =
     (case claim_script interval_ms ttl_ms t slot of
        (slot1, (a, r)) \<Rightarrow> (if a = 1 then [t] else []) @ admitted_times interval_ms ttl_ms ts slot1)"

section \<open>The gate\<close>

record vts_gate =
  vg_interval_ms :: int
  vg_ttl_ms :: int
  vg_acquire_deadline :: rat

text \<open>\<open>int(round(x * 1000))\<close>: to the nearest millisecond, a half to the even one.\<close>

definition round_half_even :: "rat \<Rightarrow> int" where
  "round_half_even x =
     (let n = \<lfloor>x\<rfloor>; r = x - of_int n in
      if r < 1 / 2 then n else if r > 1 / 2 then n + 1 else if even n then n else n + 1)"

definition new_vts_gate :: "rat \<Rightarrow> rat \<Rightarrow> int \<Rightarrow> rat \<Rightarrow> (string, vts_gate) result" where
  "new_vts_gate interval margin ttl_seconds deadline =
     bindR (require (0 < interval) ''interval_seconds must be positive'') (\<lambda>_.
     bindR (require (0 \<le> margin) ''safety_margin_seconds must be non-negative'') (\<lambda>_.
     bindR (require (0 < ttl_seconds) ''ttl_seconds must be positive'') (\<lambda>_.
     bindR (require (0 < deadline) ''acquire_deadline_seconds must be positive'') (\<lambda>_.
       Inr \<lparr>vg_interval_ms = round_half_even ((interval + margin) * 1000),
            vg_ttl_ms = ttl_seconds * 1000, vg_acquire_deadline = deadline\<rparr>))))"

definition default_vts_gate :: "(string, vts_gate) result" where
  "default_vts_gate = new_vts_gate 1 (5 / 100) 120 10"

definition build_vts_gate_scope_key ::
  "(string \<Rightarrow> string) \<Rightarrow> string \<Rightarrow> string \<Rightarrow> (string, string) result" where
  "build_vts_gate_scope_key fingerprint host app_key =
     (let normalized = lower host in
      if normalized = [] then Inl ''VTS gate scope requires a non-empty host''
      else if app_key = [] then Inl ''VTS gate scope requires a non-empty app key''
      else Inr (''kis_mock:gate:'' @ normalized @ '':'' @ fingerprint app_key))"

text \<open>What Redis answers: two integers, anything else, or an error.\<close>

datatype redis_reply = Reply int int | MalformedReply | RedisFailure

definition check_claim :: "redis_reply \<Rightarrow> (kis_exception, bool \<times> rat) result" where
  "check_claim reply = (case reply of
     Reply admitted retry_after_ms \<Rightarrow>
       if admitted \<notin> {0, 1} \<or> retry_after_ms < 0 then Inl GateUnavailable
       else if admitted = 1 \<and> retry_after_ms \<noteq> 0 then Inl GateUnavailable
       else if admitted = 0 \<and> retry_after_ms = 0 then Inl GateUnavailable
       else Inr (admitted = 1, of_int retry_after_ms / 1000)
   | _ \<Rightarrow> Inl GateUnavailable)"

text \<open>
  One turn of the acquire loop: the clock readings at its checks, how the freshness hook ended
  (a timeout is the \<open>wait_for\<close> over the remaining time), and the reply of the claim.
\<close>

datatype hook_end = HookReturned | HookTimedOut | HookRaised kis_exception

datatype claim_end = ClaimTimedOut | ClaimReplied redis_reply

record gate_round =
  gr_start :: rat
  gr_hook :: hook_end
  gr_after_hook :: rat
  gr_before_claim :: rat
  gr_claim :: claim_end
  gr_after_claim :: rat

datatype round_end = GateAcquired | GateFailed kis_exception | Contended rat

definition freshness_check :: "rat \<Rightarrow> bool \<Rightarrow> gate_round \<Rightarrow> (kis_exception, unit) result" where
  "freshness_check deadline has_hook r =
     (if \<not> has_hook then Inr ()
      else case gr_hook r of
        HookRaised e \<Rightarrow> Inl e
      | HookTimedOut \<Rightarrow> Inl GateUnavailable
      | HookReturned \<Rightarrow> require (0 < deadline - gr_after_hook r) GateUnavailable)"

definition claim_reply :: "gate_round \<Rightarrow> (kis_exception, bool \<times> rat) result" where
  "claim_reply r = (case gr_claim r of
     ClaimTimedOut \<Rightarrow> Inl GateUnavailable | ClaimReplied reply \<Rightarrow> check_claim reply)"

text \<open>What a turn checks before its claim, and how many claims it makes: one, or none.\<close>

definition before_claim :: "rat \<Rightarrow> bool \<Rightarrow> gate_round \<Rightarrow> (kis_exception, unit) result" where
  "before_claim deadline has_hook r =
     bindR (require (0 < deadline - gr_start r) GateUnavailable) (\<lambda>_.
     bindR (freshness_check deadline has_hook r) (\<lambda>_.
       require (0 < deadline - gr_before_claim r) GateUnavailable))"

definition turn_claims :: "rat \<Rightarrow> bool \<Rightarrow> gate_round \<Rightarrow> nat" where
  "turn_claims deadline has_hook r = (case before_claim deadline has_hook r of Inl _ \<Rightarrow> 0 | Inr _ \<Rightarrow> 1)"

definition gate_turn :: "rat \<Rightarrow> bool \<Rightarrow> gate_round \<Rightarrow> round_end" where
  "gate_turn deadline has_hook r =
     (case bindR (before_claim deadline has_hook r) (\<lambda>_. claim_reply r) of
        Inl e \<Rightarrow> GateFailed e
      | Inr (True, retry_after) \<Rightarrow>
          if deadline - gr_after_claim r \<le> 0 then GateFailed GateUnavailable else GateAcquired
      | Inr (False, retry_after) \<Rightarrow>
          if gr_after_claim r + retry_after > deadline then GateFailed GateUnavailable
          else Contended retry_after)"

text \<open>
  The \<open>while True\<close> loop from its turn \<open>k\<close> on; every turn before it made one claim and was
  denied. The value is how \<open>acquire\<close> ends, the \<open>contention_attempts\<close> of its result or the
  exception, and beside it, in either case, the number of claims the whole call made.
\<close>

partial_function (option) acquire_from ::
  "rat \<Rightarrow> bool \<Rightarrow> (nat \<Rightarrow> gate_round) \<Rightarrow> nat \<Rightarrow> ((kis_exception, nat) result \<times> nat) option" where
  "acquire_from deadline has_hook world k =
     (case gate_turn deadline has_hook (world k) of
        GateAcquired \<Rightarrow> Some (Inr (k + 1), k + turn_claims deadline has_hook (world k))
      | GateFailed e \<Rightarrow> Some (Inl e, k + turn_claims deadline has_hook (world k))
      | Contended retry_after \<Rightarrow> acquire_from deadline has_hook world (k + 1))"

text \<open>
  \<open>deadline_monotonic\<close> is the caller's absolute deadline; without one the budget of the gate
  runs from \<open>start\<close>, the clock reading at the entry of \<open>acquire\<close>.
\<close>

definition acquire_until :: "vts_gate \<Rightarrow> rat option \<Rightarrow> rat \<Rightarrow> rat" where
  "acquire_until g deadline_monotonic start =
     (case deadline_monotonic of None \<Rightarrow> start + vg_acquire_deadline g | Some d \<Rightarrow> d)"

definition gate_acquire ::
  "vts_gate \<Rightarrow> rat option \<Rightarrow> rat \<Rightarrow> bool \<Rightarrow> (nat \<Rightarrow> gate_round)
   \<Rightarrow> ((kis_exception, nat) result \<times> nat) option" where
  "gate_acquire g deadline_monotonic start has_hook world =
     acquire_from (acquire_until g deadline_monotonic start) has_hook world 0"

section \<open>The pacer\<close>

text \<open>\<open>now\<close> and \<open>then\<close> are the clock readings before and after the sleep.\<close>

definition pacer_acquire :: "rat \<Rightarrow> rat \<Rightarrow> rat \<Rightarrow> rat \<Rightarrow> rat \<times> rat" where
  "pacer_acquire min_interval last_dispatch now after =
     (let elapsed = now - last_dispatch; wait = max 0 (min_interval - elapsed) in (after, wait))"

fun pacer_run :: "rat \<Rightarrow> rat \<Rightarrow> (rat \<times> rat) list \<Rightarrow> rat list" where
  "pacer_run min_interval last_dispatch [] = []"
| "pacer_run min_interval last_dispatch ((now, after) # rs) =
     (let (d, wait) = pacer_acquire min_interval last_dispatch now after in
      d # pacer_run min_interval d rs)"

section \<open>Spacing of the admissions\<close>

lemma claim_cases:
  obtains "read_slot t slot = None" "claim_script i ttl t slot = (Some (t, t + ttl), (1, 0))"
  | l where "read_slot t slot = Some l" "l + i \<le> t" "claim_script i ttl t slot = (Some (t, t + ttl), (1, 0))"
  | l where "read_slot t slot = Some l" "t < l + i" "claim_script i ttl t slot = (Some (l, t + ttl), (0, l + i - t))"
proof (cases "read_slot t slot")
  case None
  then show thesis using that(1) by (simp add: claim_script_def)
next
  case (Some l)
  then show thesis using that(2,3) [of l] by (cases "l + i \<le> t") (simp_all add: claim_script_def Let_def)
qed

lemma admitted_after_slot:
  assumes "sorted ts" and "0 \<le> i" and "i \<le> ttl"
    and "slot = Some (l, x)" and "l + i \<le> x" and "\<forall>t \<in> set ts. l \<le> t"
  shows "(\<forall>a \<in> set (admitted_times i ttl ts slot). l + i \<le> a) \<and>
    sorted_wrt (\<lambda>a b. a + i \<le> b) (admitted_times i ttl ts slot)"
  using assms(1,4-6)
proof (induction ts arbitrary: slot l x)
  case Nil
  then show ?case by simp
next
  case (Cons t ts)
  have ts: "sorted ts" "\<forall>u \<in> set ts. t \<le> u" using Cons.prems(1) by auto
  have "l \<le> t" using Cons.prems(4) by simp
  show ?case
  proof (cases rule: claim_cases [of t slot i ttl])
    case 1
    then have "l + i \<le> t" using Cons.prems(2,3) by (auto simp: read_slot_def split: if_splits)
    then show ?thesis
      using 1 Cons.IH [of "Some (t, t + ttl)" t "t + ttl"] ts assms(2,3) by auto
  next
    case (2 l')
    then have "l + i \<le> t" using Cons.prems(2) by (auto simp: read_slot_def split: if_splits)
    then show ?thesis
      using 2 Cons.IH [of "Some (t, t + ttl)" t "t + ttl"] ts assms(2,3) by auto
  next
    case (3 l')
    then have "l' = l" using Cons.prems(2) by (auto simp: read_slot_def split: if_splits)
    then show ?thesis
      using 3 Cons.IH [of "Some (l, t + ttl)" l "t + ttl"] ts Cons.prems(4) assms(3) \<open>l \<le> t\<close> by auto
  qed
qed

text \<open>
  however many processes claim, in whatever order Redis executes the claims, two admitted
  requests of a scope are at least an interval apart in server time, provided that the key
  outlives the interval (1050 ms against 120 s by default) and server time does not run back.
\<close>

theorem admissions_are_spaced:
  assumes "sorted ts" and "0 \<le> i" and "i \<le> ttl"
  shows "sorted_wrt (\<lambda>a b. a + i \<le> b) (admitted_times i ttl ts None)"
proof (cases ts)
  case Nil
  then show ?thesis by simp
next
  case (Cons t us)
  have "sorted us" "\<forall>u \<in> set us. t \<le> u" using assms(1) Cons by auto
  then show ?thesis
    using admitted_after_slot [of us i ttl "Some (t, t + ttl)" t "t + ttl"] assms Cons
    by (auto simp: claim_script_def read_slot_def)
qed

theorem admissions_are_spaced_witness:
  "sorted_wrt (\<lambda>a b. a + 1050 \<le> b) (admitted_times 1050 120000 [5, 20, 1000, 1055, 1056, 2200] None) \<and>
   length (admitted_times 1050 120000 [5, 20, 1000, 1055, 1056, 2200] None) = 3"
  using admissions_are_spaced [of "[5, 20, 1000, 1055, 1056, 2200]" 1050 120000] by (simp, code_simp)

text \<open>The constructor accepts a time to live shorter than the interval; then the spacing fails.\<close>

lemma short_ttl_breaks_the_spacing:
  "(case new_vts_gate 1 (5 / 100) 1 10 of
      Inl _ \<Rightarrow> False
    | Inr g \<Rightarrow> admitted_times (vg_interval_ms g) (vg_ttl_ms g) [0, 1000] None = [0, 1000])"
  by code_simp

text \<open>
  a denied claim is told exactly when to come back: at that server time, and not before,
  the next claim of the scope is admitted, if nobody else was admitted in between.
\<close>

theorem retry_after_is_exact:
  assumes "claim_script i ttl t slot = (slot1, (0, r))" and "t \<le> u" and "u < t + ttl"
  shows "0 < r \<and> (fst (snd (claim_script i ttl u slot1)) = 1 \<longleftrightarrow> t + r \<le> u)"
proof (cases rule: claim_cases [of t slot i ttl])
  case (3 l)
  then have "slot1 = Some (l, t + ttl)" "r = l + i - t" using assms(1) by auto
  then show ?thesis using 3 assms(2,3) by (auto simp: claim_script_def read_slot_def Let_def)
qed (use assms(1) in auto)

theorem retry_after_is_exact_witness:
  "fst (snd (claim_script 1050 120000 1050 (Some (0, 120400)))) = 1"
proof -
  have d: "claim_script 1050 120000 400 (Some (0, 120000)) = (Some (0, 120400), (0, 650))" by code_simp
  show ?thesis using retry_after_is_exact [OF d, of 1050] by simp
qed

section \<open>The acquire loop\<close>

lemma contended_turn:
  assumes "gate_turn deadline has_hook r = Contended retry_after"
  shows "gr_start r < deadline \<and> gr_after_claim r + retry_after \<le> deadline \<and>
    (\<exists>ms. 1 \<le> ms \<and> gr_claim r = ClaimReplied (Reply 0 ms) \<and> retry_after = of_int ms / 1000)"
  using assms
  by (auto simp: gate_turn_def before_claim_def claim_reply_def check_claim_def require_def bindR_def
      split: sum.splits bool.splits if_splits claim_end.splits redis_reply.splits)

lemma acquired_turn:
  assumes "gate_turn deadline has_hook r = GateAcquired"
  shows "gr_claim r = ClaimReplied (Reply 1 0) \<and> gr_after_claim r < deadline \<and>
    (has_hook \<longrightarrow> gr_hook r = HookReturned \<and> gr_after_hook r < deadline)"
  using assms
  by (auto simp: gate_turn_def before_claim_def claim_reply_def check_claim_def freshness_check_def require_def bindR_def
      split: sum.splits bool.splits if_splits claim_end.splits redis_reply.splits hook_end.splits)

lemma turn_claims_le: "turn_claims deadline has_hook r \<le> 1"
  by (simp add: turn_claims_def split: sum.splits)

lemma acquired_turn_claims:
  "gate_turn deadline has_hook r = GateAcquired \<Longrightarrow> turn_claims deadline has_hook r = 1"
  by (auto simp: gate_turn_def turn_claims_def bindR_def split: sum.splits)

lemma late_turn:
  assumes "deadline \<le> gr_start r"
  shows "gate_turn deadline has_hook r = GateFailed GateUnavailable \<and> turn_claims deadline has_hook r = 0"
  using assms by (simp add: gate_turn_def turn_claims_def before_claim_def require_def)

lemma acquire_ends:
  assumes "\<And>j. gr_start (world j) \<le> gr_after_claim (world j)"
    and "\<And>j ra. gate_turn deadline has_hook (world j) = Contended ra \<Longrightarrow>
           gr_after_claim (world j) + ra \<le> gr_start (world (j + 1))"
    and "deadline - gr_start (world k) \<le> of_nat n / 1000"
  shows "\<exists>res claims. acquire_from deadline has_hook world k = Some (res, claims) \<and> claims \<le> k + n \<and>
    (\<forall>c. res = Inr c \<longrightarrow> claims = c)"
  using assms(3)
proof (induction n arbitrary: k)
  case 0
  then show ?case using late_turn [of deadline "world k"] by (subst acquire_from.simps) simp
next
  case (Suc n)
  have one: "k + turn_claims deadline has_hook (world k) \<le> k + Suc n"
    using turn_claims_le [of deadline has_hook "world k"] by simp
  show ?case
  proof (cases "gate_turn deadline has_hook (world k)")
    case GateAcquired
    then show ?thesis using one acquired_turn_claims [OF GateAcquired] by (subst acquire_from.simps) simp
  next
    case (GateFailed e)
    then show ?thesis using one by (subst acquire_from.simps) simp
  next
    case (Contended ra)
    obtain ms where ms: "1 \<le> ms" "ra = of_int ms / 1000" using contended_turn [OF Contended] by blast
    have "(1::rat) \<le> of_int ms" using ms(1) by simp
    then have ra: "1 / 1000 \<le> ra" unfolding ms(2) by (simp add: divide_right_mono)
    have next_start: "gr_start (world k) + ra \<le> gr_start (world (k + 1))"
      using assms(1) [of k] assms(2) [OF Contended] by linarith
    have "of_nat (Suc n) / 1000 = (of_nat n / 1000 + 1 / 1000 :: rat)" by (simp add: add_divide_distrib)
    then have "deadline - gr_start (world (k + 1)) \<le> of_nat n / 1000"
      using next_start ra Suc.prems by linarith
    then have "\<exists>res claims. acquire_from deadline has_hook world (k + 1) = Some (res, claims) \<and>
      claims \<le> k + 1 + n \<and> (\<forall>c. res = Inr c \<longrightarrow> claims = c)" by (rule Suc.IH)
    then show ?thesis using Contended by (subst acquire_from.simps) simp
  qed
qed

text \<open>
  C40: the acquire loop ends. If the clock does not run back within a turn and a sleep lasts at
  least as long as asked, the call returns or raises, whatever deadline it was given; and
  whether it returns or raises, it has made at most one claim per millisecond from its entry
  to that deadline: no caller hangs on the gate or floods Redis. The
  \<open>contention_attempts\<close> of a result is that number of claims.
\<close>

theorem gate_acquire_terminates:
  assumes "\<And>j. gr_start (world j) \<le> gr_after_claim (world j)"
    and "\<And>j ra. gate_turn (acquire_until g deadline_monotonic start) has_hook (world j) = Contended ra \<Longrightarrow>
           gr_after_claim (world j) + ra \<le> gr_start (world (j + 1))"
    and "start \<le> gr_start (world 0)"
  shows "\<exists>res claims. gate_acquire g deadline_monotonic start has_hook world = Some (res, claims) \<and>
    claims \<le> nat \<lceil>(acquire_until g deadline_monotonic start - start) * 1000\<rceil> \<and>
    (\<forall>c. res = Inr c \<longrightarrow> claims = c)"
proof -
  let ?d = "acquire_until g deadline_monotonic start"
  let ?n = "nat \<lceil>(?d - start) * 1000\<rceil>"
  have "(?d - start) * 1000 \<le> of_nat ?n" by (simp add: of_nat_ceiling)
  then have "?d - start \<le> of_nat ?n / 1000" by (simp add: le_divide_eq)
  then have "?d - gr_start (world 0) \<le> of_nat ?n / 1000" using assms(3) by linarith
  then show ?thesis
    using acquire_ends [where world = world and k = 0 and n = ?n, OF assms(1) assms(2)]
    by (simp add: gate_acquire_def)
qed

definition patient_world :: "nat \<Rightarrow> gate_round" where
  "patient_world j =
     (let t = of_nat j / 2 in
      \<lparr>gr_start = t, gr_hook = HookReturned, gr_after_hook = t, gr_before_claim = t,
       gr_claim = ClaimReplied (if j < 3 then Reply 0 500 else Reply 1 0), gr_after_claim = t\<rparr>)"

definition sample_gate :: vts_gate where
  "sample_gate = \<lparr>vg_interval_ms = 1050, vg_ttl_ms = 120000, vg_acquire_deadline = 10\<rparr>"

lemma patient_turn:
  "gate_turn d True (patient_world j) = Contended ra \<Longrightarrow>
     gr_after_claim (patient_world j) + ra \<le> gr_start (patient_world (j + 1))"
  by (auto simp: patient_world_def Let_def add_divide_distrib split: if_splits dest!: contended_turn)

lemma patient_clock: "gr_start (patient_world j) \<le> gr_after_claim (patient_world j)"
  by (simp add: patient_world_def Let_def)

lemma patient_acquires: "gate_acquire sample_gate None 0 True patient_world = Some (Inr 4, 4)"
proof -
  have t: "gate_turn 10 True (patient_world 0) = Contended (1 / 2)"
    "gate_turn 10 True (patient_world 1) = Contended (1 / 2)"
    "gate_turn 10 True (patient_world 2) = Contended (1 / 2)"
    "gate_turn 10 True (patient_world 3) = GateAcquired"
    by code_simp+
  have "acquire_from 10 True patient_world 0 = acquire_from 10 True patient_world 3"
    using t by (simp add: acquire_from.simps [of _ _ _ 0] acquire_from.simps [of _ _ _ "Suc 0"]
        acquire_from.simps [of _ _ _ "Suc (Suc 0)"] numeral_eq_Suc)
  then show ?thesis
    using t(4) acquired_turn_claims [OF t(4)]
    by (simp add: gate_acquire_def acquire_until_def sample_gate_def acquire_from.simps [of _ _ _ 3])
qed

text \<open>With the deadline of the caller at one second the same turns fail, after two claims.\<close>

lemma patient_fails:
  "gate_acquire sample_gate (Some 1) 0 True patient_world = Some (Inl GateUnavailable, 2)"
proof -
  have t: "gate_turn 1 True (patient_world 0) = Contended (1 / 2)"
    "gate_turn 1 True (patient_world 1) = Contended (1 / 2)"
    "gate_turn 1 True (patient_world 2) = GateFailed GateUnavailable"
    "turn_claims 1 True (patient_world 2) = 0"
    by code_simp+
  have "acquire_from 1 True patient_world 0 = acquire_from 1 True patient_world 2"
    using t by (simp add: acquire_from.simps [of _ _ _ 0] acquire_from.simps [of _ _ _ "Suc 0"] numeral_eq_Suc)
  then show ?thesis
    using t(3,4) by (simp add: gate_acquire_def acquire_until_def acquire_from.simps [of _ _ _ 2])
qed

theorem gate_acquire_terminates_witness:
  "(\<exists>res claims. gate_acquire sample_gate None 0 True patient_world = Some (res, claims) \<and> claims \<le> 10000) \<and>
   (\<exists>claims. gate_acquire sample_gate (Some 1) 0 True patient_world = Some (Inl GateUnavailable, claims) \<and>
      claims \<le> 1000)"
proof -
  have start: "0 \<le> gr_start (patient_world 0)" by (simp add: patient_world_def Let_def)
  have budget: "acquire_until sample_gate None 0 = 10" "acquire_until sample_gate (Some 1) 0 = 1"
    by (simp_all add: acquire_until_def sample_gate_def)
  note ends = gate_acquire_terminates [of patient_world sample_gate _ 0 True, OF patient_clock _ start]
  from ends [of None, OF patient_turn [of "acquire_until sample_gate None 0"]]
    ends [of "Some 1", OF patient_turn [of "acquire_until sample_gate (Some 1) 0"]]
  show ?thesis unfolding budget by (auto simp: patient_fails)
qed

lemma acquired_from:
  "acquire_from d h w i = Some r \<Longrightarrow>
     \<forall>c. fst r = Inr c \<longrightarrow> (\<exists>k \<ge> i. c = k + 1 \<and> snd r = c \<and> gate_turn d h (w k) = GateAcquired \<and>
       (\<forall>j. i \<le> j \<and> j < k \<longrightarrow> (\<exists>ra. gate_turn d h (w j) = Contended ra)))"
proof (induction d h w i r rule: acquire_from.raw_induct [rotated, consumes 1, case_names step])
  case (step loop d h w i r)
  show ?case
  proof (cases "gate_turn d h (w i)")
    case GateAcquired
    then have "r = (Inr (i + 1), i + 1)" using step(2) acquired_turn_claims [OF GateAcquired] by simp
    then show ?thesis using GateAcquired by (intro allI impI exI [of _ i]) auto
  next
    case (GateFailed e)
    then show ?thesis using step(2) by auto
  next
    case (Contended ra)
    then have rec: "loop d h w (i + 1) = Some r" using step(2) by simp
    have rest: "\<exists>ra. gate_turn d h (w j) = Contended ra" if "i \<le> j" "\<not> i + 1 \<le> j" for j
      using that Contended by (cases "j = i") auto
    show ?thesis
    proof (intro allI impI)
      fix c assume "fst r = Inr c"
      then obtain k where k: "i + 1 \<le> k" "c = k + 1" "snd r = c" "gate_turn d h (w k) = GateAcquired"
        "\<forall>j. i + 1 \<le> j \<and> j < k \<longrightarrow> (\<exists>ra. gate_turn d h (w j) = Contended ra)"
        using spec [OF step(1) [OF rec], of c] by (elim impE) auto
      then show "\<exists>k \<ge> i. c = k + 1 \<and> snd r = c \<and> gate_turn d h (w k) = GateAcquired \<and>
         (\<forall>j. i \<le> j \<and> j < k \<longrightarrow> (\<exists>ra. gate_turn d h (w j) = Contended ra))"
        using rest by (intro exI [of _ k]) (metis add_leD1)
    qed
  qed
qed

text \<open>
  an acquired permit is fresh and unique. The claim that admitted the caller is the last
  one it made; the freshness hook had returned in that very turn, before the claim; the claim
  came back within the deadline; and every earlier claim of the call had been denied, so no
  call consumes two slots.
\<close>

theorem acquired_permit_is_fresh:
  assumes "gate_acquire g deadline_monotonic start has_hook world = Some (Inr c, claims)"
  shows "\<exists>k. c = k + 1 \<and> claims = k + 1 \<and> gr_claim (world k) = ClaimReplied (Reply 1 0) \<and>
    gr_after_claim (world k) < acquire_until g deadline_monotonic start \<and>
    (has_hook \<longrightarrow> gr_hook (world k) = HookReturned) \<and>
    (\<forall>j < k. \<exists>ms. 1 \<le> ms \<and> gr_claim (world j) = ClaimReplied (Reply 0 ms))"
proof -
  let ?d = "acquire_until g deadline_monotonic start"
  obtain k where k: "c = k + 1" "claims = c" "gate_turn ?d has_hook (world k) = GateAcquired"
    "\<forall>j < k. \<exists>ra. gate_turn ?d has_hook (world j) = Contended ra"
    using acquired_from [OF assms [unfolded gate_acquire_def]] by auto
  have "\<exists>ms. 1 \<le> ms \<and> gr_claim (world j) = ClaimReplied (Reply 0 ms)" if "j < k" for j
    using k(4) that contended_turn by blast
  then show ?thesis using k(1,2) acquired_turn [OF k(3)] by auto
qed

theorem acquired_permit_is_fresh_witness:
  "gr_claim (patient_world 3) = ClaimReplied (Reply 1 0) \<and> gr_hook (patient_world 3) = HookReturned"
  using acquired_permit_is_fresh [OF patient_acquires] by auto

section \<open>The pacer's spacing\<close>

text \<open>Every sleep lasts at least as long as asked.\<close>

fun slept_enough :: "rat \<Rightarrow> rat \<Rightarrow> (rat \<times> rat) list \<Rightarrow> bool" where
  "slept_enough m l [] = True"
| "slept_enough m l ((now, after) # rs) =
     (now + snd (pacer_acquire m l now after) \<le> after \<and> slept_enough m after rs)"

lemma pacer_spacing:
  "slept_enough m l rs \<Longrightarrow> 0 \<le> m \<Longrightarrow> sorted_wrt (\<lambda>a b. a + m \<le> b) (l # pacer_run m l rs)"
proof (induction rs arbitrary: l)
  case Nil
  then show ?case by simp
next
  case (Cons r rs)
  obtain now after where r: "r = (now, after)" by (cases r)
  have first: "l + m \<le> after" using Cons.prems r by (auto simp: pacer_acquire_def Let_def max_def split: if_splits)
  have rest: "sorted_wrt (\<lambda>a b. a + m \<le> b) (after # pacer_run m after rs)"
    using Cons.IH [of after] Cons.prems r by simp
  have "\<forall>x \<in> set (pacer_run m after rs). l + m \<le> x" using rest first Cons.prems(2) by force
  then show ?case using rest first r by (simp add: pacer_acquire_def Let_def)
qed

section \<open>Which requests pass the gate\<close>

text \<open>
  \<open>netloc\<close> is the lower-cased host of \<open>urlsplit\<close>, \<open>None\<close> on its \<open>ValueError\<close>; the URL of
  the request and the configured mock base may be no text at all.
\<close>

definition KIS_MOCK_REST_HOSTS :: "string set" where
  "KIS_MOCK_REST_HOSTS = {''openapivts.koreainvestment.com:29443''}"

definition host_of :: "(string \<Rightarrow> string option) \<Rightarrow> string option \<Rightarrow> string" where
  "host_of netloc url = (case url of None \<Rightarrow> [] | Some u \<Rightarrow> (case netloc u of None \<Rightarrow> [] | Some h \<Rightarrow> h))"

definition vts_gate_scope ::
  "(string \<Rightarrow> string option) \<Rightarrow> (string \<Rightarrow> string) \<Rightarrow> bool \<Rightarrow> string option \<Rightarrow> string option
   \<Rightarrow> string option \<Rightarrow> (kis_exception, string option) result" where
  "vts_gate_scope netloc fingerprint is_mock_client mock_base url app_key =
     (let mock_netloc = host_of netloc mock_base;
          request_netloc = host_of netloc url;
          targets_mock_host = (request_netloc \<noteq> [] \<and>
            ((mock_netloc \<noteq> [] \<and> request_netloc = mock_netloc) \<or> request_netloc \<in> KIS_MOCK_REST_HOSTS))
      in if \<not> (is_mock_client \<or> targets_mock_host) then Inr None
         else if request_netloc = [] then Inl GateUnavailable
         else if \<not> truthy app_key then Inl GateUnavailable
         else map_error (\<lambda>_. GateUnavailable)
                (bindR (build_vts_gate_scope_key fingerprint request_netloc (the app_key)) (\<lambda>k. Inr (Some k))))"

text \<open>
  no mock request passes ungated. A request of a mock client, or one that goes to the
  configured mock host or the official one, gets a scope or is refused before anything is
  sent; a live request never touches Redis, whatever the mock settings are.
\<close>

theorem mock_requests_are_gated:
  "(is_mock_client \<or> host_of netloc url \<in> KIS_MOCK_REST_HOSTS \<longrightarrow>
      vts_gate_scope netloc fp is_mock_client mock_base url app_key \<noteq> Inr None) \<and>
   (\<not> is_mock_client \<and> host_of netloc url \<notin> KIS_MOCK_REST_HOSTS \<and> host_of netloc url \<noteq> host_of netloc mock_base \<longrightarrow>
      vts_gate_scope netloc fp is_mock_client mock_base url app_key = Inr None)"
proof -
  have host: "[] \<notin> KIS_MOCK_REST_HOSTS" by (simp add: KIS_MOCK_REST_HOSTS_def)
  show ?thesis
    using host by (auto simp: vts_gate_scope_def Let_def bindR_eq_Inr)
qed

theorem mock_requests_are_gated_witness:
  "vts_gate_scope (\<lambda>u. Some u) id False None (Some ''openapivts.koreainvestment.com:29443'') (Some ''key'') \<noteq> Inr None \<and>
   vts_gate_scope (\<lambda>u. Some u) id False None (Some ''openapi.koreainvestment.com:9443'') (Some ''key'') = Inr None"
  using mock_requests_are_gated [of False "\<lambda>u. Some u" "Some ''openapivts.koreainvestment.com:29443''" id None "Some ''key''"]
    mock_requests_are_gated [of False "\<lambda>u. Some u" "Some ''openapi.koreainvestment.com:9443''" id None "Some ''key''"]
  by (auto simp: host_of_def KIS_MOCK_REST_HOSTS_def)

end
