(* ===== verification/BatchService.thy ===== *)
theory BatchService
  imports DispatchService
begin

text \<open>
  Batch approvals (\<open>service.py\<close>, "register_approval_batch_member" and below): proposals are
  staged into a batch of their chat, the batch is frozen when it holds enough live members, its
  summary card is published behind an owner fence, and one click consumes exactly the membership
  shown on the card. The two batch tables stand beside the proposal store, which no batch
  operation writes. The clock columns \<open>created_at\<close> and \<open>updated_at\<close> of the two tables, which
  nothing reads, and the advisory chat lock are left out; ids, nonces and SHA-256 are arguments.
\<close>

section \<open>Tables\<close>

datatype summary_state = SummaryIdle | SummarySending | SummarySent

record approval_batch =
  bt_id :: int
  bt_batch_id :: uuid
  bt_chat_id :: string
  bt_window_started_at :: int
  bt_window_closes_at :: int
  bt_expires_at :: int
  bt_nonce :: string
  bt_nonce_used_at :: "int option"
  bt_approved_by :: "string option"
  bt_approved_at :: "int option"
  bt_summary_message_id :: "int option"
  bt_summary_state :: summary_state
  bt_summary_lease_until :: "int option"
  bt_dispatch_state :: "dispatch_state option"
  bt_attempt_id :: "uuid option"
  bt_attempted_at :: "int option"
  bt_published_at :: "int option"
  bt_failure_code :: "string option"
  bt_payload_chars :: "int option"
  bt_status_code :: "int option"
  bt_error_code :: "int option"
  bt_error_classification :: "telegram_error_classification option"
  bt_membership_revision :: "int option"
  bt_membership_digest :: "string option"
  bt_frozen_at :: "int option"

record batch_member =
  bm_id :: int
  bm_batch_pk :: int
  bm_proposal_pk :: int
  bm_nonce :: string
  bm_message_id :: int
  bm_membership_revision :: "int option"
  bm_attempt_id :: "uuid option"
  bm_group_revision :: "int option"
  bm_group_digest :: "string option"
  bm_card_kind :: "card_kind option"
  bm_result :: "string option"
  bm_result_detail :: "(string \<times> string) list option"
  bm_processed_at :: "int option"
  bm_added_at :: int

record batch_db =
  bd_store :: store
  bd_batches :: "approval_batch list"
  bd_members :: "batch_member list"
  bd_batch_seq :: int
  bd_member_seq :: int

datatype batch_error =
    BatchError string
  | BatchMemberStale uuid batch_block
  | BatchGateRefused gate_error
  | BatchServiceError svc_error

definition put_batch :: "approval_batch \<Rightarrow> batch_db \<Rightarrow> batch_db" where
  "put_batch b db = db\<lparr>bd_batches := write_row bt_id b (bd_batches db)\<rparr>"

definition put_member :: "batch_member \<Rightarrow> batch_db \<Rightarrow> batch_db" where
  "put_member m db = db\<lparr>bd_members := write_row bm_id m (bd_members db)\<rparr>"

interpretation batches: keyed_table bd_batches put_batch bt_id
  by unfold_locales (simp add: put_batch_def)

interpretation members: keyed_table bd_members put_member bm_id
  by unfold_locales (simp add: put_member_def)

definition get_approval_batch_by_id :: "batch_db \<Rightarrow> uuid \<Rightarrow> approval_batch option" where
  "get_approval_batch_by_id db batch_id = find (\<lambda>b. bt_batch_id b = batch_id) (bd_batches db)"

definition get_group_by_pk :: "batch_db \<Rightarrow> int \<Rightarrow> order_proposal option" where
  "get_group_by_pk db pk = find (\<lambda>g. g_id g = pk) (db_groups (bd_store db))"

definition get_approval_batch_member_by_nonce :: "batch_db \<Rightarrow> int \<Rightarrow> string \<Rightarrow> batch_member option" where
  "get_approval_batch_member_by_nonce db pk nonce =
     find (\<lambda>m. bm_proposal_pk m = pk \<and> bm_nonce m = nonce) (bd_members db)"

definition get_approval_batch_member_by_id :: "batch_db \<Rightarrow> int \<Rightarrow> batch_member option" where
  "get_approval_batch_member_by_id db i = find (\<lambda>m. bm_id m = i) (bd_members db)"

text \<open>Ordered by \<open>added_at\<close> and then by key; the table is in key order.\<close>

definition list_approval_batch_members :: "batch_db \<Rightarrow> int \<Rightarrow> batch_member list" where
  "list_approval_batch_members db pk =
     sort_key bm_added_at (filter (\<lambda>m. bm_batch_pk m = pk) (bd_members db))"

definition open_batch :: "string \<Rightarrow> int \<Rightarrow> approval_batch \<Rightarrow> bool" where
  "open_batch chat_id t b \<longleftrightarrow>
     bt_chat_id b = chat_id \<and> bt_nonce_used_at b = None \<and> bt_frozen_at b = None \<and>
     bt_dispatch_state b = Some DPending \<and> bt_summary_state b = SummaryIdle \<and>
     bt_summary_message_id b = None \<and> bt_attempt_id b = None \<and> bt_membership_digest b = None \<and>
     bt_window_closes_at b > t \<and> bt_expires_at b > t"

text \<open>The newest open batch: the table is in key order.\<close>

definition get_open_approval_batch :: "batch_db \<Rightarrow> string \<Rightarrow> int \<Rightarrow> approval_batch option" where
  "get_open_approval_batch db chat_id t = find (open_batch chat_id t) (rev (bd_batches db))"

definition insert_approval_batch :: "approval_batch \<Rightarrow> batch_db \<Rightarrow> (batch_error, batch_db \<times> approval_batch) result"
  where
  "insert_approval_batch b db =
     (if \<exists>x \<in> set (bd_batches db). bt_batch_id x = bt_batch_id b
      then Inl (BatchServiceError (IntegrityError ''uq_order_proposal_approval_batches_batch_id''))
      else let b' = b\<lparr>bt_id := bd_batch_seq db\<rparr>
        in Inr (db\<lparr>bd_batches := bd_batches db @ [b'], bd_batch_seq := bd_batch_seq db + 1\<rparr>, b'))"

definition insert_approval_batch_member :: "batch_member \<Rightarrow> batch_db \<Rightarrow> (batch_error, batch_db) result" where
  "insert_approval_batch_member m db =
     (if \<exists>x \<in> set (bd_members db). bm_batch_pk x = bm_batch_pk m \<and> bm_proposal_pk x = bm_proposal_pk m
      then Inl (BatchServiceError (IntegrityError ''uq_order_proposal_batch_member''))
      else if \<exists>x \<in> set (bd_members db). bm_proposal_pk x = bm_proposal_pk m \<and> bm_nonce x = bm_nonce m
      then Inl (BatchServiceError (IntegrityError ''uq_order_proposal_batch_member_nonce''))
      else Inr (db\<lparr>bd_members := bd_members db @ [m\<lparr>bm_id := bd_member_seq db\<rparr>],
                   bd_member_seq := bd_member_seq db + 1\<rparr>))"

section \<open>Registration and freezing\<close>

definition bounded_batch_expiry :: "int \<Rightarrow> int \<Rightarrow> int option list \<Rightarrow> int" where
  "bounded_batch_expiry t ttl_seconds deadlines =
     foldl min (t + seconds ttl_seconds) (List.map_filter (\<lambda>d. d) deadlines)"

definition new_batch :: "uuid \<Rightarrow> string \<Rightarrow> string \<Rightarrow> int \<Rightarrow> int \<Rightarrow> int \<Rightarrow> approval_batch" where
  "new_batch batch_id nonce chat_id t window_seconds expires_at =
     \<lparr>bt_id = 0, bt_batch_id = batch_id, bt_chat_id = chat_id, bt_window_started_at = t,
      bt_window_closes_at = t + seconds window_seconds, bt_expires_at = expires_at, bt_nonce = nonce,
      bt_nonce_used_at = None, bt_approved_by = None, bt_approved_at = None, bt_summary_message_id = None,
      bt_summary_state = SummaryIdle, bt_summary_lease_until = None, bt_dispatch_state = Some DPending,
      bt_attempt_id = None, bt_attempted_at = None, bt_published_at = None, bt_failure_code = None,
      bt_payload_chars = None, bt_status_code = None, bt_error_code = None, bt_error_classification = None,
      bt_membership_revision = Some 1, bt_membership_digest = None, bt_frozen_at = None\<rparr>"

definition new_member :: "int \<Rightarrow> order_proposal \<Rightarrow> string \<Rightarrow> int \<Rightarrow> int \<Rightarrow> batch_member" where
  "new_member batch_pk grp nonce message_id t =
     \<lparr>bm_id = 0, bm_batch_pk = batch_pk, bm_proposal_pk = g_id grp, bm_nonce = nonce,
      bm_message_id = message_id, bm_membership_revision = None,
      bm_attempt_id = g_approval_dispatch_attempt_id grp,
      bm_group_revision = g_approval_dispatch_membership_revision grp,
      bm_group_digest = g_approval_dispatch_membership_digest grp,
      bm_card_kind = g_approval_dispatch_card_kind grp,
      bm_result = None, bm_result_detail = None, bm_processed_at = None, bm_added_at = t\<rparr>"

text \<open>The group still carries the approval the member was staged with.\<close>

definition snapshot_is_current :: "batch_member \<Rightarrow> order_proposal \<Rightarrow> bool" where
  "snapshot_is_current m grp \<longleftrightarrow>
     g_approval_nonce grp = Some (bm_nonce m) \<and>
     g_approval_dispatch_attempt_id grp = bm_attempt_id m \<and>
     g_approval_dispatch_membership_revision grp = bm_group_revision m \<and>
     g_approval_dispatch_membership_digest grp = bm_group_digest m \<and>
     g_approval_dispatch_card_kind grp = bm_card_kind m"

definition live_member :: "batch_db \<Rightarrow> int \<Rightarrow> batch_member \<Rightarrow> (batch_member \<times> order_proposal) option" where
  "live_member db t m =
     (case get_group_by_pk db (bm_proposal_pk m) of
        None \<Rightarrow> None
      | Some grp \<Rightarrow>
          if snapshot_is_current m grp \<and>
             batch_member_block_reason grp (list_rungs (bd_store db) (g_id grp)) (Aware t) = Inr None
          then Some (m, grp) else None)"

definition member_deadlines :: "batch_db \<Rightarrow> batch_member list \<Rightarrow> int option list" where
  "member_deadlines db ms =
     List.map_filter (\<lambda>m. map_option g_valid_until (get_group_by_pk db (bm_proposal_pk m))) ms"

record digest_member =
  dm_proposal_id :: uuid
  dm_nonce :: string
  dm_message_id :: int
  dm_attempt_id :: "uuid option"
  dm_revision :: "int option"
  dm_digest :: "string option"

definition digest_member_of :: "batch_member \<Rightarrow> order_proposal \<Rightarrow> digest_member" where
  "digest_member_of m grp =
     \<lparr>dm_proposal_id = g_proposal_id grp, dm_nonce = bm_nonce m, dm_message_id = bm_message_id m,
      dm_attempt_id = bm_attempt_id m, dm_revision = bm_group_revision m, dm_digest = bm_group_digest m\<rparr>"

text \<open>The hash of a batch card: its revision and members; the kind is always \<open>Batch\<close>.\<close>

type_synonym batch_digest_fn = "int \<times> digest_member list \<Rightarrow> string"

record batch_registration =
  br_batch :: approval_batch
  br_member_count :: nat
  br_send :: bool
  br_binding :: "dispatch_binding option"

definition batch_revision :: "approval_batch \<Rightarrow> int" where
  "batch_revision b = (case bt_membership_revision b of None \<Rightarrow> 1 | Some r \<Rightarrow> if r = 0 then 1 else r)"

definition freeze_batch ::
  "batch_digest_fn \<Rightarrow> approval_batch \<Rightarrow> (batch_member \<times> order_proposal) list \<Rightarrow> uuid \<Rightarrow> int \<Rightarrow> batch_db
   \<Rightarrow> batch_db \<times> approval_batch \<times> dispatch_binding" where
  "freeze_batch h b live attempt_id t db =
     (let revision = batch_revision b;
          digest = h (revision, map (\<lambda>(m, grp). digest_member_of m grp) live);
          db1 = foldl (\<lambda>d (m, _). put_member (m\<lparr>bm_membership_revision := Some revision\<rparr>) d) db live;
          b1 = b\<lparr>bt_dispatch_state := Some DPending, bt_attempt_id := Some attempt_id,
                 bt_attempted_at := Some t, bt_failure_code := None,
                 bt_membership_revision := Some revision, bt_membership_digest := Some digest,
                 bt_frozen_at := Some t, bt_summary_state := SummarySending, bt_summary_lease_until := None\<rparr>
      in (put_batch b1 db1, b1,
          \<lparr>b_attempt_id = attempt_id, b_card_kind = Batch, b_membership_revision = revision,
           b_membership_digest = digest\<rparr>))"

text \<open>The fresh values the registration draws: two UUIDs and a nonce.\<close>

record batch_draw =
  dr_batch_id :: uuid
  dr_nonce :: string
  dr_attempt_id :: uuid

definition staged_batch ::
  "order_proposal \<Rightarrow> string \<Rightarrow> int \<Rightarrow> int \<Rightarrow> int \<Rightarrow> batch_draw \<Rightarrow> batch_db
   \<Rightarrow> (batch_error, batch_db \<times> approval_batch) result" where
  "staged_batch grp chat_id t window_seconds ttl_seconds draw db =
     (case get_open_approval_batch db chat_id t of
        Some b \<Rightarrow> Inr (db, b)
      | None \<Rightarrow> insert_approval_batch
          (new_batch (dr_batch_id draw) (dr_nonce draw) chat_id t window_seconds
             (bounded_batch_expiry t ttl_seconds [g_valid_until grp])) db)"

definition settle_registration ::
  "batch_digest_fn \<Rightarrow> approval_batch \<Rightarrow> int \<Rightarrow> int \<Rightarrow> nat \<Rightarrow> uuid \<Rightarrow> batch_db \<Rightarrow> batch_db \<times> batch_registration"
  where
  "settle_registration h b t ttl_seconds threshold attempt_id db =
     (let ms = list_approval_batch_members db (bt_id b);
          live = List.map_filter (live_member db t) ms;
          b1 = b\<lparr>bt_expires_at := bounded_batch_expiry t ttl_seconds (member_deadlines db ms)\<rparr>;
          db1 = put_batch b1 db
      in if length live \<ge> threshold
         then let (db2, b2, binding) = freeze_batch h b1 live attempt_id t db1 in
           (db2, \<lparr>br_batch = b2, br_member_count = length live, br_send = True, br_binding = Some binding\<rparr>)
         else (db1, \<lparr>br_batch = b1, br_member_count = length live, br_send = False, br_binding = None\<rparr>))"

definition register_approval_batch_member ::
  "batch_digest_fn \<Rightarrow> uuid \<Rightarrow> string \<Rightarrow> int \<Rightarrow> pydatetime \<Rightarrow> int \<Rightarrow> int \<Rightarrow> nat \<Rightarrow> batch_draw \<Rightarrow> batch_db
   \<Rightarrow> (batch_error, batch_db \<times> batch_registration option) result" where
  "register_approval_batch_member h proposal_id chat_id message_id now window_seconds ttl_seconds threshold draw db =
     bindR (map_error BatchServiceError (require_timezone_aware now)) (\<lambda>t.
     bindR (require (threshold \<ge> 2) (BatchServiceError (ValueError ''summary_member_threshold must be at least 2''))) (\<lambda>_.
     bindR (map_error BatchServiceError (locked_group proposal_id (bd_store db))) (\<lambda>grp.
     bindR (map_error BatchServiceError
       (batch_member_block_reason grp (list_rungs (bd_store db) (g_id grp)) now)) (\<lambda>block.
       let nonce = the (g_approval_nonce grp) in
       if block \<noteq> None then Inr (db, None)
       else if get_approval_batch_member_by_nonce db (g_id grp) nonce \<noteq> None then Inr (db, None)
       else
         bindR (staged_batch grp chat_id t window_seconds ttl_seconds draw db) (\<lambda>(db1, b).
           if \<exists>m \<in> set (list_approval_batch_members db1 (bt_id b)). bm_proposal_pk m = g_id grp
           then Inr (db1, None)
           else
             bindR (insert_approval_batch_member (new_member (bt_id b) grp nonce message_id t) db1) (\<lambda>db2.
               let (db3, reg) = settle_registration h b t ttl_seconds threshold (dr_attempt_id draw) db2
               in Inr (db3, Some reg)))))))"

section \<open>Consumption\<close>

definition assert_published_batch_binding ::
  "approval_batch \<Rightarrow> callback_envelope \<Rightarrow> string \<Rightarrow> int \<Rightarrow> bool \<Rightarrow> (batch_error, unit) result" where
  "assert_published_batch_binding b callback chat_id t allow_expired =
     (if bt_chat_id b \<noteq> chat_id then Inl (BatchError ''approval_batch_chat_mismatch'')
      else case bt_dispatch_state b of
        None \<Rightarrow> Inl (BatchError ''approval_dispatch_state_invalid'')
      | Some state \<Rightarrow>
          bindR (map_error (\<lambda>e. case e of
                   NonceMismatch \<Rightarrow> BatchError ''approval_batch_nonce_mismatch''
                 | NonceReplay \<Rightarrow> BatchError ''approval_batch_nonce_replay''
                 | x \<Rightarrow> BatchGateRefused x)
            (assert_callback_gate
               \<lparr>sn_subject_short = take 8 (bt_batch_id b), sn_state = state,
                sn_attempt_id = bt_attempt_id b, sn_card_kind = Some Batch,
                sn_membership_revision = bt_membership_revision b,
                sn_membership_digest = bt_membership_digest b,
                sn_nonce = Some (bt_nonce b), sn_nonce_used = (bt_nonce_used_at b \<noteq> None)\<rparr> callback))
            (\<lambda>_. require (allow_expired \<or> t < bt_expires_at b) (BatchError ''approval_batch_expired'')))"

definition the_batch :: "uuid \<Rightarrow> batch_db \<Rightarrow> (batch_error, approval_batch) result" where
  "the_batch batch_id db = of_option (BatchError ''approval_batch_not_found'') (get_approval_batch_by_id db batch_id)"

definition preflight_published_batch_callback ::
  "uuid \<Rightarrow> callback_envelope \<Rightarrow> string \<Rightarrow> pydatetime \<Rightarrow> bool \<Rightarrow> batch_db \<Rightarrow> (batch_error, approval_batch) result"
  where
  "preflight_published_batch_callback batch_id callback chat_id now allow_expired db =
     bindR (map_error BatchServiceError (require_timezone_aware now)) (\<lambda>t.
     bindR (the_batch batch_id db) (\<lambda>b.
     bindR (assert_published_batch_binding b callback chat_id t allow_expired) (\<lambda>_. Inr b)))"

record batch_member_snapshot =
  ms_member_id :: int
  ms_proposal_id :: uuid
  ms_nonce :: string
  ms_message_id :: int
  ms_binding :: dispatch_binding

definition member_snapshot_of ::
  "batch_db \<Rightarrow> int \<Rightarrow> batch_member \<Rightarrow> (batch_error, batch_member_snapshot \<times> digest_member) result" where
  "member_snapshot_of db t m =
     bindR (of_option (BatchError ''approval_batch_member_snapshot_invalid'')
              (get_group_by_pk db (bm_proposal_pk m))) (\<lambda>grp.
     bindR (map_error BatchServiceError
       (batch_member_block_reason grp (list_rungs (bd_store db) (g_id grp)) (Aware t))) (\<lambda>block.
     case block of
       Some reason \<Rightarrow> Inl (BatchMemberStale (g_proposal_id grp) reason)
     | None \<Rightarrow>
         (case (bm_card_kind m, bm_attempt_id m, bm_group_revision m, bm_group_digest m) of
            (Some kind, Some attempt, Some revision, Some digest) \<Rightarrow>
              if \<not> snapshot_is_current m grp then Inl (BatchError ''approval_batch_membership_changed'')
              else Inr (\<lparr>ms_member_id = bm_id m, ms_proposal_id = g_proposal_id grp, ms_nonce = bm_nonce m,
                         ms_message_id = bm_message_id m,
                         ms_binding = \<lparr>b_attempt_id = attempt, b_card_kind = kind,
                                       b_membership_revision = revision, b_membership_digest = digest\<rparr>\<rparr>,
                        digest_member_of m grp)
          | _ \<Rightarrow> Inl (BatchError ''approval_batch_member_snapshot_invalid''))))"

fun member_snapshots ::
  "batch_db \<Rightarrow> int \<Rightarrow> batch_member list \<Rightarrow> (batch_error, (batch_member_snapshot \<times> digest_member) list) result" where
  "member_snapshots db t [] = Inr []"
| "member_snapshots db t (m # ms) =
     bindR (member_snapshot_of db t m) (\<lambda>x. bindR (member_snapshots db t ms) (\<lambda>xs. Inr (x # xs)))"

definition revision_members :: "batch_db \<Rightarrow> approval_batch \<Rightarrow> int \<Rightarrow> batch_member list" where
  "revision_members db b revision =
     filter (\<lambda>m. bm_membership_revision m = Some revision) (list_approval_batch_members db (bt_id b))"

definition consume_approval_batch_nonce ::
  "batch_digest_fn \<Rightarrow> uuid \<Rightarrow> callback_envelope \<Rightarrow> string \<Rightarrow> string \<Rightarrow> pydatetime \<Rightarrow> (uuid \<times> string) list option
   \<Rightarrow> batch_db \<Rightarrow> (batch_error, batch_db \<times> approval_batch \<times> batch_member_snapshot list) result" where
  "consume_approval_batch_nonce h batch_id callback chat_id telegram_user_id now expected db =
     bindR (map_error BatchServiceError (require_timezone_aware now)) (\<lambda>t.
     bindR (the_batch batch_id db) (\<lambda>b.
     bindR (assert_published_batch_binding b callback chat_id t False) (\<lambda>_.
       let ms = revision_members db b (cb_membership_revision callback) in
       bindR (require (2 \<le> length ms) (BatchError ''approval_batch_too_small'')) (\<lambda>_.
       bindR (member_snapshots db t ms) (\<lambda>pairs.
       bindR (require (Some (h (cb_membership_revision callback, map snd pairs)) = bt_membership_digest b)
                (BatchError ''approval_batch_membership_digest_mismatch'')) (\<lambda>_.
       bindR (require (expected = None \<or>
                       expected = Some (map (\<lambda>(sn, _). (ms_proposal_id sn, ms_nonce sn)) pairs))
                (BatchError ''approval_batch_membership_changed'')) (\<lambda>_.
         let b' = b\<lparr>bt_nonce_used_at := Some t, bt_approved_by := Some telegram_user_id,
                    bt_approved_at := Some t\<rparr>
         in Inr (put_batch b' db, b', map fst pairs))))))))"

section \<open>Publication\<close>

definition record_approval_batch_payload ::
  "uuid \<Rightarrow> uuid \<Rightarrow> int \<Rightarrow> batch_db \<Rightarrow> (batch_error, batch_db \<times> approval_batch) result" where
  "record_approval_batch_payload batch_id attempt_id payload_chars db =
     bindR (the_batch batch_id db) (\<lambda>b.
     bindR (require (bt_attempt_id b = Some attempt_id \<and> bt_dispatch_state b = Some DPending)
              (BatchError ''approval_batch_dispatch_owner_mismatch'')) (\<lambda>_.
       let b' = b\<lparr>bt_payload_chars := Some payload_chars\<rparr> in Inr (put_batch b' db, b')))"

definition batch_owner :: "approval_batch \<Rightarrow> uuid \<Rightarrow> bool" where
  "batch_owner b attempt_id \<longleftrightarrow>
     bt_dispatch_state b = Some DPending \<and> bt_attempt_id b = Some attempt_id \<and>
     bt_membership_revision b \<noteq> None \<and> bt_membership_digest b \<noteq> None \<and> bt_frozen_at b \<noteq> None"

definition batch_outcome :: "approval_publication \<Rightarrow> dispatch_state \<times> string option" where
  "batch_outcome publication =
     (let failure = (if truthy (p_failure_code publication) then p_failure_code publication
                     else Some ''telegram_dispatch_failed'')
      in if p_card_published publication then (SentCurrent, None)
         else if p_partial publication then (PartialFailed, failure)
         else (DFailed, failure))"

definition finish_approval_batch_dispatch ::
  "uuid \<Rightarrow> uuid \<Rightarrow> approval_publication \<Rightarrow> pydatetime \<Rightarrow> batch_db
   \<Rightarrow> (batch_error, batch_db \<times> telegram_dispatch_result) result" where
  "finish_approval_batch_dispatch batch_id attempt_id publication now db =
     bindR (map_error BatchServiceError (require_timezone_aware now)) (\<lambda>t.
     bindR (the_batch batch_id db) (\<lambda>b.
       if \<not> batch_owner b attempt_id
       then Inr (db, from_publication publication
              (if p_card_published publication then SentSuperseded else FailedSuperseded)
              (Some ''approval_dispatch_superseded''))
       else let (state, failure_code) = batch_outcome publication;
                sent = (state = SentCurrent);
                b' = b\<lparr>bt_dispatch_state := Some state,
                       bt_published_at := (if sent then Some t else None),
                       bt_failure_code := failure_code,
                       bt_payload_chars := Some (p_payload_chars publication),
                       bt_status_code := p_status_code publication,
                       bt_error_code := p_error_code publication,
                       bt_error_classification := p_error_classification publication,
                       bt_summary_message_id := (if sent then p_message_id publication else None),
                       bt_summary_state := (if sent then SummarySent else SummaryIdle),
                       bt_summary_lease_until := None\<rparr>
            in Inr (put_batch b' db, from_publication publication state failure_code)))"

definition record_approval_batch_summary :: "pydatetime \<Rightarrow> (batch_error, approval_batch) result" where
  "record_approval_batch_summary now =
     bindR (map_error BatchServiceError (require_timezone_aware now)) (\<lambda>_.
       Inl (BatchError ''approval_batch_ownerless_finalize_forbidden''))"

definition release_approval_batch_summary_claim ::
  "uuid \<Rightarrow> pydatetime \<Rightarrow> batch_db \<Rightarrow> (batch_error, batch_db \<times> approval_batch) result" where
  "release_approval_batch_summary_claim batch_id now db =
     bindR (map_error BatchServiceError (require_timezone_aware now)) (\<lambda>_.
     bindR (the_batch batch_id db) (\<lambda>b.
       let b' = b\<lparr>bt_summary_state := SummaryIdle, bt_dispatch_state := Some DFailed,
                  bt_failure_code := Some ''approval_batch_dispatch_failed'', bt_summary_lease_until := None\<rparr>
       in Inr (put_batch b' db, b')))"

text \<open>What the summary card shows: once frozen, the members of the frozen revision only.\<close>

fun display_proposals ::
  "batch_db \<Rightarrow> batch_member list \<Rightarrow> (batch_error, (order_proposal \<times> rung list) list) result" where
  "display_proposals db [] = Inr []"
| "display_proposals db (m # ms) =
     bindR (of_option (BatchError ''approval_batch_membership_changed'')
              (get_group_by_pk db (bm_proposal_pk m))) (\<lambda>grp.
     bindR (display_proposals db ms) (\<lambda>ps. Inr ((grp, list_rungs (bd_store db) (g_id grp)) # ps)))"

definition get_approval_batch_display ::
  "uuid \<Rightarrow> batch_db \<Rightarrow> (batch_error, approval_batch \<times> (order_proposal \<times> rung list) list) result" where
  "get_approval_batch_display batch_id db =
     bindR (the_batch batch_id db) (\<lambda>b.
     bindR (display_proposals db (filter (\<lambda>m. bt_frozen_at b = None \<or>
              bm_membership_revision m = bt_membership_revision b)
              (list_approval_batch_members db (bt_id b)))) (\<lambda>ps. Inr (b, ps)))"

definition record_approval_batch_member_result ::
  "int \<Rightarrow> string \<Rightarrow> (string \<times> string) list \<Rightarrow> pydatetime \<Rightarrow> batch_db \<Rightarrow> (batch_error, batch_db \<times> batch_member) result"
  where
  "record_approval_batch_member_result member_id outcome detail now db =
     bindR (map_error BatchServiceError (require_timezone_aware now)) (\<lambda>t.
     bindR (of_option (BatchError ''approval_batch_member_not_found'')
              (get_approval_batch_member_by_id db member_id)) (\<lambda>m.
       let bounded = foldl (\<lambda>d (k, v). AList.update (take 80 k) (take 500 v) d) [] detail;
           m' = m\<lparr>bm_result := Some (take 40 outcome), bm_result_detail := Some bounded,
                  bm_processed_at := Some t\<rparr>
       in Inr (put_member m' db, m')))"

end
