(* ===== verification/BatchFrames.thy ===== *)
theory BatchFrames
  imports BatchService ProposalHistory
begin

text \<open>
  Histories of batch operations interleaved with proposal commands, the well-formedness of the
  batch tables, and the frame every operation respects: a frozen batch and its members stay.
\<close>

section \<open>Histories of batch operations\<close>

datatype batch_op =
    RegisterMember uuid string int pydatetime int int nat batch_draw
  | BatchPayload uuid uuid int
  | FinishBatch uuid uuid approval_publication pydatetime
  | ReleaseBatch uuid pydatetime
  | ConsumeBatch uuid callback_envelope string string pydatetime "(uuid \<times> string) list option"
  | MemberResult int string "(string \<times> string) list" pydatetime
  | ProposalCommand svc_cmd int

definition or_stay :: "'s \<Rightarrow> ('e, 's \<times> 'a) result \<Rightarrow> 's" where
  "or_stay db r = (case r of Inl _ \<Rightarrow> db | Inr (db', _) \<Rightarrow> db')"

fun batch_step :: "environment \<Rightarrow> batch_digest_fn \<Rightarrow> batch_op \<Rightarrow> batch_db \<Rightarrow> batch_db" where
  "batch_step env h (RegisterMember pid chat mid now ws ttl n draw) db =
     or_stay db (register_approval_batch_member h pid chat mid now ws ttl n draw db)"
| "batch_step env h (BatchPayload bid aid n) db = or_stay db (record_approval_batch_payload bid aid n db)"
| "batch_step env h (FinishBatch bid aid p now) db = or_stay db (finish_approval_batch_dispatch bid aid p now db)"
| "batch_step env h (ReleaseBatch bid now) db = or_stay db (release_approval_batch_summary_claim bid now db)"
| "batch_step env h (ConsumeBatch bid cb chat user now ex) db =
     or_stay db (consume_approval_batch_nonce h bid cb chat user now ex db)"
| "batch_step env h (MemberResult mid out detail now) db =
     or_stay db (record_approval_batch_member_result mid out detail now db)"
| "batch_step env h (ProposalCommand c t) db = db\<lparr>bd_store := commit env (c, t) (bd_store db)\<rparr>"

definition batch_history :: "environment \<Rightarrow> batch_digest_fn \<Rightarrow> batch_op list \<Rightarrow> batch_db \<Rightarrow> batch_db" where
  "batch_history env h ops db = fold (batch_step env h) ops db"

section \<open>Well-formed tables and what stays\<close>

definition frozen_ids :: "batch_db \<Rightarrow> int set" where
  "frozen_ids db = {bt_id b |b. b \<in> set (bd_batches db) \<and> bt_frozen_at b \<noteq> None}"

definition wf_batches :: "batch_db \<Rightarrow> bool" where
  "wf_batches db \<longleftrightarrow>
     wf_store (bd_store db) \<and>
     distinct (map bt_id (bd_batches db)) \<and> distinct (map bt_batch_id (bd_batches db)) \<and>
     distinct (map bm_id (bd_members db)) \<and>
     (\<forall>b \<in> set (bd_batches db). bt_id b < bd_batch_seq db) \<and>
     (\<forall>m \<in> set (bd_members db). bm_id m < bd_member_seq db \<and> bm_batch_pk m < bd_batch_seq db) \<and>
     (\<forall>m \<in> set (bd_members db). bm_membership_revision m = None \<or> bm_batch_pk m \<in> frozen_ids db)"

text \<open>The immutable part of a member and of a frozen batch.\<close>

definition member_key where
  "member_key (m :: batch_member) = (bm_id m, bm_batch_pk m, bm_proposal_pk m, bm_nonce m, bm_message_id m,
     bm_membership_revision m, bm_attempt_id m, bm_group_revision m, bm_group_digest m,
     bm_card_kind m, bm_added_at m)"

definition batch_key where
  "batch_key (b :: approval_batch) = (bt_id b, bt_batch_id b, bt_chat_id b, bt_nonce b, bt_expires_at b, bt_attempt_id b,
     bt_membership_revision b, bt_membership_digest b, bt_frozen_at b)"

definition batch_kept :: "approval_batch \<Rightarrow> approval_batch \<Rightarrow> bool" where
  "batch_kept b b' \<longleftrightarrow> batch_key b' = batch_key b \<and> (bt_nonce_used_at b = None \<or> bt_nonce_used_at b' = bt_nonce_used_at b)"

definition frozen_kept :: "batch_db \<Rightarrow> batch_db \<Rightarrow> bool" where
  "frozen_kept db db' \<longleftrightarrow>
     wf_batches db' \<and> evolves UNIV (bd_store db) (bd_store db') \<and>
     (\<forall>b \<in> set (bd_batches db). bt_frozen_at b \<noteq> None \<longrightarrow>
        (\<exists>b' \<in> set (bd_batches db'). batch_kept b b') \<and>
        map member_key (list_approval_batch_members db' (bt_id b)) =
        map member_key (list_approval_batch_members db (bt_id b)))"

lemma batch_kept_trans: "batch_kept a b \<Longrightarrow> batch_kept b c \<Longrightarrow> batch_kept a c"
  by (auto simp: batch_kept_def)

lemma batch_kept_id: "batch_kept a b \<Longrightarrow> bt_id b = bt_id a \<and> bt_frozen_at b = bt_frozen_at a"
  by (simp add: batch_kept_def batch_key_def)

lemma frozen_kept_refl: "wf_batches db \<Longrightarrow> frozen_kept db db"
  by (auto simp: frozen_kept_def batch_kept_def wf_batches_def)

lemma frozen_kept_trans:
  assumes "frozen_kept a b" and "frozen_kept b c"
  shows "frozen_kept a c"
  unfolding frozen_kept_def
proof (intro conjI ballI impI)
  show "wf_batches c" using assms by (simp add: frozen_kept_def)
  show "evolves UNIV (bd_store a) (bd_store c)"
    using assms by (auto simp: frozen_kept_def intro: evolves_trans)
  fix x assume x: "x \<in> set (bd_batches a)" "bt_frozen_at x \<noteq> None"
  then obtain y where y: "y \<in> set (bd_batches b)" "batch_kept x y"
    "map member_key (list_approval_batch_members b (bt_id x)) =
     map member_key (list_approval_batch_members a (bt_id x))"
    using assms(1) by (auto simp: frozen_kept_def)
  then obtain z where z: "z \<in> set (bd_batches c)" "batch_kept y z"
    "map member_key (list_approval_batch_members c (bt_id y)) =
     map member_key (list_approval_batch_members b (bt_id y))"
    using assms(2) x batch_kept_id [OF y(2)] by (auto simp: frozen_kept_def)
  show "\<exists>b' \<in> set (bd_batches c). batch_kept x b'" using z y batch_kept_trans by blast
  show "map member_key (list_approval_batch_members c (bt_id x)) =
    map member_key (list_approval_batch_members a (bt_id x))"
    using z(3) y batch_kept_id [OF y(2)] by simp
qed

lemma sort_key_map:
  assumes "\<And>x. f (k x) = g x"
  shows "map k (sort_key g xs) = sort_key f (map k xs)"
proof (induction xs)
  case (Cons x xs)
  have "map k (insort_key g x ys) = insort_key f (k x) (map k ys)" for ys
    by (induction ys) (simp_all add: assms)
  then show ?case using Cons by simp
qed simp

definition key_pk where "key_pk k = fst (snd k)"
definition key_added where "key_added k = snd (snd (snd (snd (snd (snd (snd (snd (snd (snd k)))))))))"

lemma listed_keys:
  "map member_key (list_approval_batch_members db pk) =
     sort_key key_added (filter (\<lambda>k. key_pk k = pk) (map member_key (bd_members db)))"
proof -
  have "map member_key (sort_key bm_added_at xs) = sort_key key_added (map member_key xs)" for xs
    by (rule sort_key_map) (simp add: member_key_def key_added_def)
  then show ?thesis
    by (simp add: list_approval_batch_members_def filter_map o_def) (simp add: member_key_def key_pk_def)
qed

lemma same_keys_listed:
  assumes "map member_key (bd_members db') = map member_key (bd_members db)"
  shows "map member_key (list_approval_batch_members db' pk) = map member_key (list_approval_batch_members db pk)"
  by (simp add: listed_keys assms)

section \<open>Every operation keeps them\<close>

lemma wf_same_batch:
  "wf_batches db \<Longrightarrow> x \<in> set (bd_batches db) \<Longrightarrow> y \<in> set (bd_batches db) \<Longrightarrow> bt_id x = bt_id y \<Longrightarrow> x = y"
  unfolding wf_batches_def by (blast intro: same_row)

lemma wf_same_member:
  "wf_batches db \<Longrightarrow> x \<in> set (bd_members db) \<Longrightarrow> y \<in> set (bd_members db) \<Longrightarrow> bm_id x = bm_id y \<Longrightarrow> x = y"
  unfolding wf_batches_def by (blast intro: same_row)

lemma frozen_ids_write:
  assumes "distinct (map bt_id (bd_batches db))" and "b \<in> set (bd_batches db)" and "bt_id b' = bt_id b"
    and "bd_batches db' = write_row bt_id b' (bd_batches db)"
    and "bt_frozen_at b \<noteq> None \<Longrightarrow> bt_frozen_at b' \<noteq> None"
  shows "frozen_ids db \<subseteq> frozen_ids db'"
proof
  fix i assume "i \<in> frozen_ids db"
  then obtain x where x: "x \<in> set (bd_batches db)" "bt_frozen_at x \<noteq> None" "i = bt_id x"
    by (auto simp: frozen_ids_def)
  show "i \<in> frozen_ids db'"
  proof (cases "bt_id x = bt_id b")
    case True
    then have "x = b" using same_row [OF assms(1) x(1) assms(2)] by simp
    moreover have "b' \<in> set (bd_batches db')" using assms(2-4) by (force simp: write_row_def)
    ultimately show ?thesis using x assms(3,5) unfolding frozen_ids_def by (smt (verit) mem_Collect_eq)
  next
    case False
    then have "x \<in> set (bd_batches db')" using x(1) assms(3,4) by (force simp: write_row_def)
    then show ?thesis using x by (auto simp: frozen_ids_def)
  qed
qed

lemma batch_local:
  assumes wf: "wf_batches db" and b: "b \<in> set (bd_batches db)"
    and id: "bt_id b' = bt_id b" "bt_batch_id b' = bt_batch_id b"
    and kept: "bt_frozen_at b \<noteq> None \<Longrightarrow> batch_kept b b'"
    and store: "bd_store db' = bd_store db" and seqs: "bd_batch_seq db' = bd_batch_seq db" "bd_member_seq db' = bd_member_seq db"
    and batches: "bd_batches db' = write_row bt_id b' (bd_batches db)"
    and members: "bd_members db' = map f (bd_members db)"
    and f: "\<And>m. m \<in> set (bd_members db) \<Longrightarrow> bm_id (f m) = bm_id m \<and> bm_batch_pk (f m) = bm_batch_pk m \<and>
      (member_key (f m) = member_key m \<or> (bm_batch_pk m = bt_id b \<and> bt_frozen_at b = None \<and> bt_frozen_at b' \<noteq> None))"
  shows "frozen_kept db db'"
proof -
  have frz: "frozen_ids db \<subseteq> frozen_ids db'"
    using frozen_ids_write [OF _ b id(1) batches] wf kept batch_kept_id [of b b'] by (auto simp: wf_batches_def)
  have b': "b' \<in> set (bd_batches db')" using b id(1) batches by (force simp: write_row_def)
  have other: "x \<in> set (bd_batches db')" if "x \<in> set (bd_batches db)" "bt_id x \<noteq> bt_id b" for x
    using that id(1) batches by (force simp: write_row_def)
  have same: "x = b" if "x \<in> set (bd_batches db)" "bt_id x = bt_id b" for x
    by (rule wf_same_batch [OF wf that(1) b that(2)])
  have batch_ids: "map bt_batch_id (bd_batches db') = map bt_batch_id (bd_batches db)"
    using same id by (auto simp: batches write_row_def)
  have bids: "map bt_id (bd_batches db') = map bt_id (bd_batches db)" using batches by simp
  have mids: "map bm_id (bd_members db') = map bm_id (bd_members db)" using members f by simp
  have rev: "bm_membership_revision (f m) = None \<or> bm_batch_pk (f m) \<in> frozen_ids db'" if m: "m \<in> set (bd_members db)" for m
  proof (cases "member_key (f m) = member_key m")
    case True
    then show ?thesis using m frz wf by (auto simp: wf_batches_def member_key_def)
  next
    case False
    then show ?thesis using f [OF m] b' id(1) by (auto simp: frozen_ids_def)
  qed
  have wf': "wf_batches db'"
    unfolding wf_batches_def
  proof (intro conjI ballI)
    fix x assume "x \<in> set (bd_batches db')"
    then have "bt_id x \<in> set (map bt_id (bd_batches db))" unfolding bids [symmetric] by simp
    then show "bt_id x < bd_batch_seq db'" using wf seqs by (auto simp: wf_batches_def)
  next
    fix x assume "x \<in> set (bd_members db')"
    then obtain m where m: "m \<in> set (bd_members db)" "x = f m" using members by auto
    show "bm_id x < bd_member_seq db'" using m f [OF m(1)] wf seqs by (auto simp: wf_batches_def)
    show "bm_batch_pk x < bd_batch_seq db'" using m f [OF m(1)] wf seqs by (auto simp: wf_batches_def)
    show "bm_membership_revision x = None \<or> bm_batch_pk x \<in> frozen_ids db'" using m rev by simp
  next
    show "wf_store (bd_store db')" using wf store by (simp add: wf_batches_def)
    show "distinct (map bt_id (bd_batches db'))" using wf bids by (simp add: wf_batches_def)
    show "distinct (map bt_batch_id (bd_batches db'))" using wf batch_ids by (simp add: wf_batches_def)
    show "distinct (map bm_id (bd_members db'))" using wf mids by (simp add: wf_batches_def)
  qed
  have listed: "map member_key (list_approval_batch_members db' (bt_id x)) =
      map member_key (list_approval_batch_members db (bt_id x))"
    if x: "x \<in> set (bd_batches db)" "bt_frozen_at x \<noteq> None" for x
  proof -
    have "filter (\<lambda>k. key_pk k = bt_id x) (map member_key (map f ms)) =
        filter (\<lambda>k. key_pk k = bt_id x) (map member_key ms)" if "set ms \<subseteq> set (bd_members db)" for ms
      using that
    proof (induction ms)
      case (Cons m ms)
      then have m: "m \<in> set (bd_members db)" by simp
      show ?case
      proof (cases "member_key (f m) = member_key m")
        case True
        then show ?thesis using Cons by simp
      next
        case False
        then have pk: "bm_batch_pk m = bt_id b" and "bt_frozen_at b = None" using f [OF m] by blast+
        then have "bm_batch_pk m \<noteq> bt_id x" using same [OF x(1)] x(2) by auto
        then show ?thesis using Cons f [OF m] by (simp add: member_key_def key_pk_def)
      qed
    qed simp
    then show ?thesis by (simp only: listed_keys members subset_refl)
  qed
  show ?thesis
    unfolding frozen_kept_def
  proof (intro conjI ballI impI)
    show "wf_batches db'" by (rule wf')
    show "evolves UNIV (bd_store db) (bd_store db')" using wf store by (auto simp: wf_batches_def)
    fix x assume x: "x \<in> set (bd_batches db)" "bt_frozen_at x \<noteq> None"
    show "\<exists>y \<in> set (bd_batches db'). batch_kept x y"
    proof (cases "bt_id x = bt_id b")
      case True
      then show ?thesis using same [OF x(1)] kept x(2) b' by blast
    next
      case False
      then show ?thesis using other [OF x(1)] by (auto simp: batch_kept_def)
    qed
    show "map member_key (list_approval_batch_members db' (bt_id x)) =
      map member_key (list_approval_batch_members db (bt_id x))" by (rule listed [OF x])
  qed
qed

lemma put_batch_kept:
  assumes "wf_batches db" and "b \<in> set (bd_batches db)" and "bt_id b' = bt_id b" and "bt_batch_id b' = bt_batch_id b"
    and "bt_frozen_at b \<noteq> None \<Longrightarrow> batch_kept b b'"
  shows "frozen_kept db (put_batch b' db)"
  by (rule batch_local [OF assms, where f = "\<lambda>m. m"]) (simp_all add: put_batch_def)

lemma put_member_kept:
  assumes wf: "wf_batches db" and m: "m \<in> set (bd_members db)" and key: "member_key m' = member_key m"
  shows "frozen_kept db (put_member m' db)"
proof -
  have same: "x = m" if "x \<in> set (bd_members db)" "bm_id x = bm_id m" for x
    by (rule wf_same_member [OF wf that(1) m that(2)])
  have keys: "map member_key (bd_members (put_member m' db)) = map member_key (bd_members db)"
    using same key by (auto simp: put_member_def write_row_def member_key_def)
  have d: "bd_store (put_member m' db) = bd_store db" "bd_batches (put_member m' db) = bd_batches db"
    "bd_batch_seq (put_member m' db) = bd_batch_seq db" "bd_member_seq (put_member m' db) = bd_member_seq db"
    "frozen_ids (put_member m' db) = frozen_ids db"
    by (simp_all add: put_member_def frozen_ids_def)
  have "wf_batches (put_member m' db)"
    unfolding wf_batches_def d
  proof (intro conjI ballI)
    fix x assume "x \<in> set (bd_members (put_member m' db))"
    then have "member_key x \<in> set (map member_key (bd_members db))"
      unfolding keys [symmetric] by simp
    then obtain y where y: "y \<in> set (bd_members db)" "member_key x = member_key y" by auto
    then show "bm_id x < bd_member_seq db" "bm_batch_pk x < bd_batch_seq db"
      "bm_membership_revision x = None \<or> bm_batch_pk x \<in> frozen_ids db"
      using wf by (auto simp: wf_batches_def member_key_def)
  next
    show "distinct (map bm_id (bd_members (put_member m' db)))" using wf by (simp add: wf_batches_def)
  qed (use wf in \<open>simp_all add: wf_batches_def\<close>)
  then show ?thesis
    unfolding frozen_kept_def using wf d same_keys_listed [OF keys]
    by (auto simp: batch_kept_def wf_batches_def)
qed

section \<open>Registration\<close>

definition with_revision :: "int \<Rightarrow> int set \<Rightarrow> batch_member \<Rightarrow> batch_member" where
  "with_revision r ids m = (if bm_id m \<in> ids then m\<lparr>bm_membership_revision := Some r\<rparr> else m)"

lemma freeze_members:
  assumes "distinct (map bm_id (bd_members db))" and "\<forall>(m, g) \<in> set live. m \<in> set (bd_members db)"
    and "distinct (map (bm_id \<circ> fst) live)"
  shows "foldl (\<lambda>d (m, _). put_member (m\<lparr>bm_membership_revision := Some r\<rparr>) d) db live =
    db\<lparr>bd_members := map (with_revision r (bm_id ` fst ` set live)) (bd_members db)\<rparr>"
  using assms
proof (induction live arbitrary: db)
  case Nil
  show ?case by (simp add: with_revision_def map_idI)
next
  case (Cons x live)
  obtain m g where x: "x = (m, g)" by (cases x)
  define db1 where "db1 = put_member (m\<lparr>bm_membership_revision := Some r\<rparr>) db"
  have m: "m \<in> set (bd_members db)" using Cons.prems x by auto
  have ids: "map bm_id (bd_members db1) = map bm_id (bd_members db)" by (simp add: db1_def)
  have fresh: "bm_id m \<notin> bm_id ` fst ` set live" using Cons.prems(3) x by (auto simp: image_iff)
  have "m' \<in> set (bd_members db1)" if "(m', g') \<in> set live" for m' g'
  proof -
    have "m' \<in> set (bd_members db)" "bm_id m' \<noteq> bm_id m"
      using Cons.prems(2) that fresh by (force simp: image_iff)+
    then show ?thesis by (force simp: db1_def put_member_def write_row_def)
  qed
  then have "foldl (\<lambda>d (m, _). put_member (m\<lparr>bm_membership_revision := Some r\<rparr>) d) db1 live =
      db1\<lparr>bd_members := map (with_revision r (bm_id ` fst ` set live)) (bd_members db1)\<rparr>"
    using Cons.prems(1,3) ids by (intro Cons.IH) auto
  moreover have "map (with_revision r (bm_id ` fst ` set live)) (bd_members db1) =
      map (with_revision r (bm_id ` fst ` set (x # live))) (bd_members db)"
    unfolding db1_def put_member_def write_row_def
    using fresh m same_row [OF Cons.prems(1) _ m] by (auto simp: with_revision_def x)
  ultimately show ?case by (simp add: x flip: db1_def) (simp add: db1_def put_member_def x)
qed

lemma map_filter_set: "set (List.map_filter f xs) = {y. \<exists>x \<in> set xs. f x = Some y}"
  by (induction xs) (auto simp: map_filter_simps split: option.splits)

lemma live_members_listed:
  assumes "wf_batches db" and "live = List.map_filter (live_member db t) (list_approval_batch_members db pk)"
  shows "\<forall>(m, g) \<in> set live. m \<in> set (bd_members db) \<and> bm_batch_pk m = pk"
    and "distinct (map (bm_id \<circ> fst) live)"
proof -
  let ?ms = "list_approval_batch_members db pk"
  have fst: "fst x = m" if "live_member db t m = Some x" for m x
    using that by (auto simp: live_member_def split: option.splits if_splits)
  show "\<forall>(m, g) \<in> set live. m \<in> set (bd_members db) \<and> bm_batch_pk m = pk"
    using fst by (fastforce simp: assms(2) map_filter_set list_approval_batch_members_def)
  have "distinct (map bm_id ?ms)"
    using assms(1) by (simp add: wf_batches_def list_approval_batch_members_def distinct_map inj_on_def)
  moreover have "set (map (bm_id \<circ> fst) (List.map_filter (live_member db t) ms)) \<subseteq> set (map bm_id ms) \<and>
      (distinct (map bm_id ms) \<longrightarrow> distinct (map (bm_id \<circ> fst) (List.map_filter (live_member db t) ms)))" for ms
    using fst by (induction ms) (auto simp: map_filter_simps split: option.splits)
  ultimately show "distinct (map (bm_id \<circ> fst) live)" unfolding assms(2) by blast
qed

lemma write_row_twice: "key r = key q \<Longrightarrow> write_row key r (write_row key q xs) = write_row key r xs"
  by (simp add: write_row_def)

lemma frozen_batch_rows:
  assumes wf: "wf_batches db" and live: "live = List.map_filter (live_member db t) (list_approval_batch_members db (bt_id b))"
    and id: "bt_id b0 = bt_id b" and fr: "freeze_batch h b0 live attempt t (put_batch b0 db) = (db', b', binding)"
  shows "db' = db\<lparr>bd_batches := write_row bt_id b' (bd_batches db),
      bd_members := map (with_revision (batch_revision b0) (bm_id ` fst ` set live)) (bd_members db)\<rparr>"
    and "bt_id b' = bt_id b0" and "bt_batch_id b' = bt_batch_id b0" and "bt_frozen_at b' = Some t"
proof -
  have b': "bt_id b' = bt_id b0" "bt_batch_id b' = bt_batch_id b0" "bt_frozen_at b' = Some t"
    using fr by (auto simp: freeze_batch_def Let_def)
  have "foldl (\<lambda>d (m, _). put_member (m\<lparr>bm_membership_revision := Some (batch_revision b0)\<rparr>) d) (put_batch b0 db) live =
      (put_batch b0 db)\<lparr>bd_members := map (with_revision (batch_revision b0) (bm_id ` fst ` set live)) (bd_members (put_batch b0 db))\<rparr>"
    using live_members_listed [OF wf live] wf
    by (intro freeze_members) (auto simp: put_batch_def wf_batches_def)
  then have "db' = put_batch b' ((put_batch b0 db)\<lparr>bd_members :=
      map (with_revision (batch_revision b0) (bm_id ` fst ` set live)) (bd_members (put_batch b0 db))\<rparr>)"
    using fr by (auto simp: freeze_batch_def Let_def)
  then show "db' = db\<lparr>bd_batches := write_row bt_id b' (bd_batches db),
      bd_members := map (with_revision (batch_revision b0) (bm_id ` fst ` set live)) (bd_members db)\<rparr>"
    using b' by (simp add: put_batch_def write_row_twice)
  show "bt_id b' = bt_id b0" "bt_batch_id b' = bt_batch_id b0" "bt_frozen_at b' = Some t" by (rule b')+
qed

lemma settle_kept:
  assumes wf: "wf_batches db" and b: "b \<in> set (bd_batches db)" "bt_frozen_at b = None"
    and st: "settle_registration h b t ttl n attempt db = (db', reg)"
  shows "frozen_kept db db'"
proof -
  let ?ms = "list_approval_batch_members db (bt_id b)"
  define live where "live = List.map_filter (live_member db t) ?ms"
  define b1 where "b1 = b\<lparr>bt_expires_at := bounded_batch_expiry t ttl (member_deadlines db ?ms)\<rparr>"
  show ?thesis
  proof (cases "n \<le> length live")
    case False
    then have "db' = put_batch b1 db" using st by (simp add: settle_registration_def Let_def live_def b1_def)
    moreover have "frozen_kept db (put_batch b1 db)"
      using b by (intro put_batch_kept [OF wf b(1)]) (simp_all add: b1_def)
    ultimately show ?thesis by simp
  next
    case True
    obtain db2 b2 bind where fr: "freeze_batch h b1 live attempt t (put_batch b1 db) = (db2, b2, bind)"
      by (cases "freeze_batch h b1 live attempt t (put_batch b1 db)") auto
    have db': "db' = db2"
      using st True fr by (simp add: settle_registration_def Let_def flip: live_def b1_def)
    have id: "bt_id b1 = bt_id b" "bt_batch_id b1 = bt_batch_id b" by (simp_all add: b1_def)
    note rows = frozen_batch_rows [OF wf live_def id(1) fr]
    have pk: "bm_batch_pk m = bt_id b" if "m \<in> set (bd_members db)" "bm_id m \<in> bm_id ` fst ` set live" for m
    proof -
      from that(2) obtain m' g where m': "(m', g) \<in> set live" "bm_id m = bm_id m'" by auto
      have "m' \<in> set (bd_members db)" "bm_batch_pk m' = bt_id b"
        using live_members_listed(1) [OF wf live_def] m'(1) by auto
      then show ?thesis using wf_same_member [OF wf that(1) _ m'(2)] by simp
    qed
    show ?thesis
      unfolding db'
    proof (rule batch_local [OF wf b(1)])
      show "bt_id b2 = bt_id b" "bt_batch_id b2 = bt_batch_id b" using rows(2,3) id by simp_all
      show "bd_store db2 = bd_store db" "bd_batch_seq db2 = bd_batch_seq db" "bd_member_seq db2 = bd_member_seq db"
        by (subst rows(1), simp)+
      show "bd_batches db2 = write_row bt_id b2 (bd_batches db)" by (subst rows(1)) simp
      show "bd_members db2 = map (with_revision (batch_revision b1) (bm_id ` fst ` set live)) (bd_members db)"
        by (subst rows(1)) simp
    qed (use b(2) rows(4) pk in \<open>auto simp: with_revision_def\<close>)
  qed
qed

lemma insert_batch_kept:
  assumes wf: "wf_batches db" and ins: "insert_approval_batch b db = Inr (db', b')" and "bt_frozen_at b = None"
  shows "frozen_kept db db' \<and> b' \<in> set (bd_batches db') \<and> bt_frozen_at b' = None"
proof -
  have fresh: "bt_batch_id b \<notin> bt_batch_id ` set (bd_batches db)"
    and b': "b' = b\<lparr>bt_id := bd_batch_seq db\<rparr>"
    and db': "db' = db\<lparr>bd_batches := bd_batches db @ [b'], bd_batch_seq := bd_batch_seq db + 1\<rparr>"
    using ins by (auto simp: insert_approval_batch_def Let_def split: if_splits)
  have id: "bt_id b' = bd_batch_seq db" "bt_batch_id b' = bt_batch_id b" "bt_frozen_at b' = None"
    using assms(3) by (simp_all add: b')
  have frz: "frozen_ids db' = frozen_ids db" using id by (auto simp: db' frozen_ids_def)
  have new: "bt_id b' \<notin> bt_id ` set (bd_batches db)" using wf id(1) by (fastforce simp: wf_batches_def)
  have wf': "wf_batches db'"
    unfolding wf_batches_def frz using wf new fresh id by (fastforce simp: wf_batches_def db')
  show ?thesis
    unfolding frozen_kept_def using wf wf' id
    by (auto simp: wf_batches_def db' batch_kept_def list_approval_batch_members_def)
qed

lemma insert_member_kept:
  assumes wf: "wf_batches db" and b: "b \<in> set (bd_batches db)" "bt_frozen_at b = None" "bm_batch_pk m = bt_id b"
    and rev: "bm_membership_revision m = None" and ins: "insert_approval_batch_member m db = Inr db'"
  shows "frozen_kept db db' \<and> bd_batches db' = bd_batches db"
proof -
  define m' where "m' = m\<lparr>bm_id := bd_member_seq db\<rparr>"
  have db': "db' = db\<lparr>bd_members := bd_members db @ [m'], bd_member_seq := bd_member_seq db + 1\<rparr>"
    using ins by (auto simp: insert_approval_batch_member_def m'_def split: if_splits)
  have m': "bm_id m' = bd_member_seq db" "bm_batch_pk m' = bt_id b" "bm_membership_revision m' = None"
    using b rev by (simp_all add: m'_def)
  have new: "bm_id m' \<notin> bm_id ` set (bd_members db)" using wf m'(1) by (fastforce simp: wf_batches_def)
  have frz: "frozen_ids db' = frozen_ids db" by (simp add: db' frozen_ids_def)
  have wf': "wf_batches db'"
    unfolding wf_batches_def frz using wf new m' b(1) by (fastforce simp: wf_batches_def db')
  have "list_approval_batch_members db' (bt_id x) = list_approval_batch_members db (bt_id x)"
    if "x \<in> set (bd_batches db)" "bt_frozen_at x \<noteq> None" for x
  proof -
    have "bt_id x \<noteq> bt_id b" using wf_same_batch [OF wf that(1) b(1)] that(2) b(2) by auto
    then show ?thesis by (simp add: list_approval_batch_members_def db' m'(2))
  qed
  then show ?thesis
    unfolding frozen_kept_def using wf wf' by (auto simp: wf_batches_def db' batch_kept_def)
qed

lemma open_batch_found:
  assumes "get_open_approval_batch db chat t = Some b"
  shows "b \<in> set (bd_batches db) \<and> bt_frozen_at b = None"
  using find_SomeD [of "open_batch chat t" "rev (bd_batches db)" b] assms
  by (simp add: get_open_approval_batch_def open_batch_def)

lemma staged_kept:
  assumes wf: "wf_batches db" and st: "staged_batch grp chat t ws ttl draw db = Inr (db', b)"
  shows "frozen_kept db db' \<and> b \<in> set (bd_batches db') \<and> bt_frozen_at b = None"
proof (cases "get_open_approval_batch db chat t")
  case None
  then show ?thesis
    using st insert_batch_kept [OF wf, of "new_batch (dr_batch_id draw) (dr_nonce draw) chat t ws
      (bounded_batch_expiry t ttl [g_valid_until grp])" db' b]
    by (simp add: staged_batch_def new_batch_def)
next
  case (Some x)
  then show ?thesis using st open_batch_found [OF Some] frozen_kept_refl [OF wf] by (simp add: staged_batch_def)
qed

lemma register_Inr:
  assumes "register_approval_batch_member h pid chat mid now ws ttl n draw db = Inr (db', out)"
  obtains (skipped) "db' = db" "out = None"
  | (duplicate) t grp b where "now = Aware t" "staged_batch grp chat t ws ttl draw db = Inr (db', b)" "out = None"
  | (registered) t grp nonce db1 b db2 reg where "now = Aware t" "2 \<le> n"
      "get_group_by_proposal_id (bd_store db) pid = Some grp"
      "batch_member_block_reason grp (list_rungs (bd_store db) (g_id grp)) now = Inr None"
      "staged_batch grp chat t ws ttl draw db = Inr (db1, b)"
      "insert_approval_batch_member (new_member (bt_id b) grp nonce mid t) db1 = Inr db2"
      "settle_registration h b t ttl n (dr_attempt_id draw) db2 = (db', reg)" "out = Some reg"
proof -
  from assms obtain t grp block where now: "now = Aware t" and n: "2 \<le> n"
    and grp: "get_group_by_proposal_id (bd_store db) pid = Some grp"
    and block: "batch_member_block_reason grp (list_rungs (bd_store db) (g_id grp)) now = Inr block"
    and rest: "(let nonce = the (g_approval_nonce grp) in
       if block \<noteq> None then Inr (db, None)
       else if get_approval_batch_member_by_nonce db (g_id grp) nonce \<noteq> None then Inr (db, None)
       else bindR (staged_batch grp chat t ws ttl draw db) (\<lambda>(db1, b).
           if \<exists>m \<in> set (list_approval_batch_members db1 (bt_id b)). bm_proposal_pk m = g_id grp
           then Inr (db1, None)
           else bindR (insert_approval_batch_member (new_member (bt_id b) grp nonce mid t) db1) (\<lambda>db2.
               let (db3, reg) = settle_registration h b t ttl n (dr_attempt_id draw) db2
               in Inr (db3, Some reg)))) = Inr (db', out)"
    unfolding register_approval_batch_member_def
    by (cases now) (auto simp: bindR_eq_Inr locked_group_def)
  show ?thesis
  proof (cases "block \<noteq> None \<or> get_approval_batch_member_by_nonce db (g_id grp) (the (g_approval_nonce grp)) \<noteq> None")
    case True
    then show ?thesis using rest skipped by (auto simp: Let_def split: if_splits)
  next
    case False
    then obtain db1 b where st: "staged_batch grp chat t ws ttl draw db = Inr (db1, b)"
      and out: "(if \<exists>m \<in> set (list_approval_batch_members db1 (bt_id b)). bm_proposal_pk m = g_id grp
           then Inr (db1, None)
           else bindR (insert_approval_batch_member (new_member (bt_id b) grp (the (g_approval_nonce grp)) mid t) db1) (\<lambda>db2.
               let (db3, reg) = settle_registration h b t ttl n (dr_attempt_id draw) db2
               in Inr (db3, Some reg))) = Inr (db', out)"
      using rest by (auto simp: Let_def bindR_eq_Inr)
    show ?thesis
    proof (cases "\<exists>m \<in> set (list_approval_batch_members db1 (bt_id b)). bm_proposal_pk m = g_id grp")
      case True
      then show ?thesis using out st now duplicate by simp
    next
      case F: False
      then have "bindR (insert_approval_batch_member (new_member (bt_id b) grp (the (g_approval_nonce grp)) mid t) db1) (\<lambda>db2.
               let (db3, reg) = settle_registration h b t ttl n (dr_attempt_id draw) db2
               in Inr (db3, Some reg)) = Inr (db', out)" using out by simp
      then obtain db2 where "insert_approval_batch_member (new_member (bt_id b) grp (the (g_approval_nonce grp)) mid t) db1 = Inr db2"
        "(let (db3, reg) = settle_registration h b t ttl n (dr_attempt_id draw) db2 in
          Inr (db3, Some reg) :: (batch_error, batch_db \<times> batch_registration option) result) = Inr (db', out)"
        unfolding bindR_eq_Inr by blast
      then show ?thesis
        using registered [OF now n grp _ st] block False
        by (cases "settle_registration h b t ttl n (dr_attempt_id draw) db2") auto
    qed
  qed
qed

lemma register_kept:
  assumes wf: "wf_batches db" and r: "register_approval_batch_member h pid chat mid now ws ttl n draw db = Inr (db', out)"
  shows "frozen_kept db db'"
  using r
proof (cases rule: register_Inr)
  case skipped
  then show ?thesis using frozen_kept_refl [OF wf] by simp
next
  case (duplicate t grp b)
  then show ?thesis using staged_kept [OF wf] by blast
next
  case (registered t grp nonce db1 b db2 reg)
  have 1: "frozen_kept db db1" "b \<in> set (bd_batches db1)" "bt_frozen_at b = None"
    using staged_kept [OF wf registered(5)] by auto
  have wf1: "wf_batches db1" using 1(1) by (simp add: frozen_kept_def)
  have 2: "frozen_kept db1 db2" "bd_batches db2 = bd_batches db1"
    using insert_member_kept [OF wf1 1(2,3) _ _ registered(6)] by (simp_all add: new_member_def)
  have wf2: "wf_batches db2" using 2(1) by (simp add: frozen_kept_def)
  have "frozen_kept db2 db'" using settle_kept [OF wf2 _ 1(3) registered(7)] 1(2) 2(2) by simp
  then show ?thesis using 1(1) 2(1) frozen_kept_trans by blast
qed

section \<open>The other operations\<close>

lemma the_batch_Inr: "the_batch bid db = Inr b \<longleftrightarrow> get_approval_batch_by_id db bid = Some b"
  by (simp add: the_batch_def)

lemma the_batch_in: "get_approval_batch_by_id db bid = Some b \<Longrightarrow> b \<in> set (bd_batches db) \<and> bt_batch_id b = bid"
  by (auto simp: get_approval_batch_by_id_def dest: find_SomeD)

text \<open>A write on the batch of an id that keeps its identity and never clears a used nonce.\<close>

lemma looked_up_kept:
  assumes "wf_batches db" and "get_approval_batch_by_id db bid = Some b" and "batch_kept b b'"
  shows "frozen_kept db (put_batch b' db)"
  using assms the_batch_in [OF assms(2)]
  by (intro put_batch_kept) (auto simp: batch_kept_def batch_key_def)

lemma finish_kept:
  assumes wf: "wf_batches db" and f: "finish_approval_batch_dispatch bid aid p now db = Inr (db', r)"
  shows "frozen_kept db db'"
proof -
  from f obtain t b where b: "get_approval_batch_by_id db bid = Some b"
    and rest: "finish_approval_batch_dispatch bid aid p (Aware t) db = Inr (db', r)"
    by (cases now) (auto simp: finish_approval_batch_dispatch_def bindR_eq_Inr the_batch_Inr)
  obtain state code where o: "batch_outcome p = (state, code)" by (cases "batch_outcome p")
  show ?thesis
  proof (cases "batch_owner b aid")
    case True
    then show ?thesis
      using rest b o
      by (auto simp: finish_approval_batch_dispatch_def the_batch_def Let_def batch_kept_def batch_key_def
          intro!: looked_up_kept [OF wf b])
  next
    case False
    then show ?thesis using rest b frozen_kept_refl [OF wf]
      by (simp add: finish_approval_batch_dispatch_def the_batch_def)
  qed
qed

lemma assert_batch_Inr:
  "assert_published_batch_binding b cb chat t False = Inr u \<longleftrightarrow>
     bt_chat_id b = chat \<and> t < bt_expires_at b \<and>
     gate_open \<lparr>sn_subject_short = take 8 (bt_batch_id b), sn_state = SentCurrent,
        sn_attempt_id = bt_attempt_id b, sn_card_kind = Some Batch,
        sn_membership_revision = bt_membership_revision b, sn_membership_digest = bt_membership_digest b,
        sn_nonce = Some (bt_nonce b), sn_nonce_used = (bt_nonce_used_at b \<noteq> None)\<rparr> cb \<and>
     bt_dispatch_state b = Some SentCurrent"
  by (cases "bt_dispatch_state b")
    (auto simp: assert_published_batch_binding_def bindR_eq_Inr assert_callback_gate_iff gate_open_def approvable_def)

lemma consume_Inr:
  assumes "consume_approval_batch_nonce h bid cb chat user now ex db = Inr (db', b', snaps)"
  obtains t b pairs where "now = Aware t" "get_approval_batch_by_id db bid = Some b"
    "assert_published_batch_binding b cb chat t False = Inr ()"
    "2 \<le> length (revision_members db b (cb_membership_revision cb))"
    "member_snapshots db t (revision_members db b (cb_membership_revision cb)) = Inr pairs"
    "bt_membership_digest b = Some (h (cb_membership_revision cb, map snd pairs))"
    "b' = b\<lparr>bt_nonce_used_at := Some t, bt_approved_by := Some user, bt_approved_at := Some t\<rparr>"
    "db' = put_batch b' db" "snaps = map fst pairs"
  using assms unfolding consume_approval_batch_nonce_def
  by (cases now) (auto simp: bindR_eq_Inr the_batch_Inr Let_def)

lemma consume_kept:
  assumes wf: "wf_batches db" and c: "consume_approval_batch_nonce h bid cb chat user now ex db = Inr (db', out)"
  shows "frozen_kept db db'"
proof -
  obtain b' snaps where out: "out = (b', snaps)" by (cases out)
  from c [unfolded out] show ?thesis
  proof (cases rule: consume_Inr)
    case (1 t b pairs)
    have "bt_nonce_used_at b = None" using 1(3) by (simp add: assert_batch_Inr gate_open_def)
    then show ?thesis
      using 1 looked_up_kept [OF wf 1(2), of b'] by (simp add: batch_kept_def batch_key_def)
  qed
qed

lemma member_result_kept:
  assumes wf: "wf_batches db" and r: "record_approval_batch_member_result mid out detail now db = Inr (db', m')"
  shows "frozen_kept db db'"
proof -
  from r obtain m where m: "get_approval_batch_member_by_id db mid = Some m"
    and w: "db' = put_member m' db" "member_key m' = member_key m"
    unfolding record_approval_batch_member_result_def
    by (auto simp: bindR_eq_Inr Let_def member_key_def)
  have "m \<in> set (bd_members db)" using m by (auto simp: get_approval_batch_member_by_id_def dest: find_SomeD)
  then show ?thesis using put_member_kept [OF wf _ w(2)] w(1) by simp
qed

lemma batch_step_kept:
  assumes wf: "wf_batches db"
  shows "frozen_kept db (batch_step env h x db)"
proof (cases x)
  case (ProposalCommand c t)
  have "wf_store (bd_store db)" using wf by (simp add: wf_batches_def)
  then have e: "evolves UNIV (bd_store db) (commit env (c, t) (bd_store db))" by (intro commit_evolves) simp_all
  then have "wf_store (commit env (c, t) (bd_store db))" by (rule evolves_wf)
  then show ?thesis
    using wf e ProposalCommand
    by (auto simp: frozen_kept_def wf_batches_def frozen_ids_def batch_kept_def list_approval_batch_members_def)
next
  case (BatchPayload bid aid n)
  have "frozen_kept db db'" if "record_approval_batch_payload bid aid n db = Inr (db', b')" for db' b'
    using that looked_up_kept [OF wf]
    by (auto simp: record_approval_batch_payload_def bindR_eq_Inr the_batch_Inr Let_def batch_kept_def batch_key_def)
  then show ?thesis using BatchPayload frozen_kept_refl [OF wf] by (auto simp: or_stay_def split: sum.splits)
next
  case (ReleaseBatch bid now)
  have "frozen_kept db db'" if "release_approval_batch_summary_claim bid now db = Inr (db', b')" for db' b'
    using that looked_up_kept [OF wf]
    by (auto simp: release_approval_batch_summary_claim_def bindR_eq_Inr the_batch_Inr Let_def batch_kept_def batch_key_def)
  then show ?thesis using ReleaseBatch frozen_kept_refl [OF wf] by (auto simp: or_stay_def split: sum.splits)
qed (use frozen_kept_refl [OF wf] register_kept [OF wf] finish_kept [OF wf] consume_kept [OF wf]
    member_result_kept [OF wf] in \<open>auto simp: or_stay_def split: sum.splits\<close>)

lemma batch_history_kept: "wf_batches db \<Longrightarrow> frozen_kept db (batch_history env h ops db)"
proof (induction ops arbitrary: db)
  case Nil
  then show ?case by (simp add: batch_history_def frozen_kept_refl)
next
  case (Cons x ops)
  have 1: "frozen_kept db (batch_step env h x db)" by (rule batch_step_kept [OF Cons.prems])
  then have "wf_batches (batch_step env h x db)" by (simp add: frozen_kept_def)
  from frozen_kept_trans [OF 1 Cons.IH [OF this]] show ?case by (simp add: batch_history_def)
qed

end
