(* ===== verification/BatchSafety.thy ===== *)
theory BatchSafety
  imports BatchFrames ProposalSamples
begin

text \<open>
  What a batch card promises: a frozen membership never changes, whatever batch operations and
  proposal commands follow; a click approves exactly the members the card showed, all of them
  still live under the same approvals; and a published batch can be clicked.
\<close>

section \<open>What a frozen batch shows\<close>

lemma live_fst:
  assumes "distinct (map bm_id ms)" and "live = List.map_filter (live_member db t) ms"
  shows "map fst live = filter (\<lambda>m. bm_id m \<in> bm_id ` fst ` set live) ms"
proof -
  have fst: "fst x = m" if "live_member db t m = Some x" for m x
    using that by (auto simp: live_member_def split: option.splits if_splits)
  have 1: "map fst (List.map_filter (live_member db t) xs) = filter (\<lambda>m. live_member db t m \<noteq> None) xs" for xs
    using fst by (induction xs) (auto simp: map_filter_simps split: option.splits)
  have "(live_member db t m \<noteq> None) = (bm_id m \<in> bm_id ` fst ` set live)" if m: "m \<in> set ms" for m
  proof
    assume "live_member db t m \<noteq> None"
    then obtain x where x: "live_member db t m = Some x" by auto
    then have "x \<in> set live" using m by (auto simp: assms(2) map_filter_set)
    then show "bm_id m \<in> bm_id ` fst ` set live" using fst [OF x] by force
  next
    assume "bm_id m \<in> bm_id ` fst ` set live"
    then obtain x where x: "x \<in> set live" "bm_id m = bm_id (fst x)" by auto
    then obtain m' where m': "m' \<in> set ms" "live_member db t m' = Some x" by (auto simp: assms(2) map_filter_set)
    then have "m = m'" using same_row [OF assms(1) m m'(1)] x(2) fst [OF m'(2)] by simp
    then show "live_member db t m \<noteq> None" using m'(2) by simp
  qed
  then have "filter (\<lambda>m. live_member db t m \<noteq> None) ms = filter (\<lambda>m. bm_id m \<in> bm_id ` fst ` set live) ms"
    by (intro filter_cong) simp_all
  then show ?thesis unfolding assms(2) using 1 by simp
qed

lemma listed_with_revision:
  assumes "bd_members db' = map (with_revision r L) (bd_members db)"
  shows "list_approval_batch_members db' pk = map (with_revision r L) (list_approval_batch_members db pk)"
proof -
  have pk: "bm_batch_pk (with_revision r L m) = bm_batch_pk m" "bm_added_at (with_revision r L m) = bm_added_at m" for m
    by (simp_all add: with_revision_def)
  show ?thesis
    unfolding list_approval_batch_members_def assms filter_map o_def pk
    by (rule sort_key_map [symmetric]) (rule pk(2))
qed

lemma distinct_listed: "wf_batches db \<Longrightarrow> distinct (map bm_id (list_approval_batch_members db pk))"
  by (simp add: wf_batches_def list_approval_batch_members_def distinct_map inj_on_def)

lemma frozen_batch_members:
  assumes wf: "wf_batches db" and b: "b \<in> set (bd_batches db)" "bt_frozen_at b = None"
    and live: "live = List.map_filter (live_member db t) (list_approval_batch_members db (bt_id b))"
    and members: "bd_members db' = map (with_revision r (bm_id ` fst ` set live)) (bd_members db)"
  shows "filter (\<lambda>m. bm_membership_revision m = Some r) (list_approval_batch_members db' (bt_id b)) =
    map (\<lambda>(m, g). m\<lparr>bm_membership_revision := Some r\<rparr>) live"
proof -
  let ?ms = "list_approval_batch_members db (bt_id b)" and ?L = "bm_id ` fst ` set live"
  have none: "bm_membership_revision m = None" if "m \<in> set ?ms" for m
  proof -
    have "bt_id b \<notin> frozen_ids db"
      using b wf_same_batch [OF wf b(1)] by (auto simp: frozen_ids_def)
    then show ?thesis using that wf by (auto simp: wf_batches_def list_approval_batch_members_def)
  qed
  have rev: "bm_membership_revision (with_revision r ?L m) = Some r \<longleftrightarrow> bm_id m \<in> ?L" if "m \<in> set ?ms" for m
    using none [OF that] by (simp add: with_revision_def)
  have "filter (\<lambda>m. bm_membership_revision m = Some r) (map (with_revision r ?L) ?ms) =
      map (with_revision r ?L) (filter (\<lambda>m. bm_id m \<in> ?L) ?ms)"
    unfolding filter_map o_def using rev by (metis (mono_tags, lifting) filter_cong)
  also have "filter (\<lambda>m. bm_id m \<in> ?L) ?ms = map fst live"
    using live_fst [OF distinct_listed [OF wf] live] by simp
  also have "map (with_revision r ?L) (map fst live) = map (\<lambda>(m, g). m\<lparr>bm_membership_revision := Some r\<rparr>) live"
    by (force simp: with_revision_def)
  finally show ?thesis by (simp add: listed_with_revision [OF members])
qed

text \<open>The frozen row and its members, and the live proposals behind them.\<close>

lemma settle_sends:
  assumes wf: "wf_batches db" and b: "b \<in> set (bd_batches db)" "bt_frozen_at b = None"
    and st: "settle_registration h b t ttl n attempt db = (db', reg)" and send: "br_send reg"
    and ms: "ms = list_approval_batch_members db (bt_id b)" and live: "live = List.map_filter (live_member db t) ms"
  shows "br_batch reg \<in> set (bd_batches db')" and "n \<le> length live"
    and "bd_store db' = bd_store db"
    and "br_batch reg = b\<lparr>bt_expires_at := bounded_batch_expiry t ttl (member_deadlines db ms),
        bt_dispatch_state := Some DPending, bt_attempt_id := Some attempt, bt_attempted_at := Some t,
        bt_failure_code := None, bt_membership_revision := Some (batch_revision b),
        bt_membership_digest := Some (h (batch_revision b, map (\<lambda>(m, g). digest_member_of m g) live)),
        bt_frozen_at := Some t, bt_summary_state := SummarySending, bt_summary_lease_until := None\<rparr>"
    and "filter (\<lambda>m. bm_membership_revision m = Some (batch_revision b)) (list_approval_batch_members db' (bt_id b)) =
      map (\<lambda>(m, g). m\<lparr>bm_membership_revision := Some (batch_revision b)\<rparr>) live"
proof -
  define b1 where "b1 = b\<lparr>bt_expires_at := bounded_batch_expiry t ttl (member_deadlines db ms)\<rparr>"
  show n: "n \<le> length live"
    using st send by (auto simp: settle_registration_def Let_def live ms split: if_splits)
  obtain b2 bind where fr: "freeze_batch h b1 live attempt t (put_batch b1 db) = (db', b2, bind)" and reg: "br_batch reg = b2"
    using st n unfolding settle_registration_def Let_def
    by (auto simp: live ms b1_def split: prod.splits)
  have id: "bt_id b1 = bt_id b" "batch_revision b1 = batch_revision b"
    by (simp_all add: b1_def batch_revision_def)
  note rows = frozen_batch_rows [OF wf live [unfolded ms] id(1) fr]
  show "br_batch reg \<in> set (bd_batches db')"
    unfolding reg using b(1) rows(2) id(1) by (subst rows(1)) (force simp: write_row_def)
  show "bd_store db' = bd_store db" by (subst rows(1)) simp
  show "br_batch reg = b\<lparr>bt_expires_at := bounded_batch_expiry t ttl (member_deadlines db ms),
        bt_dispatch_state := Some DPending, bt_attempt_id := Some attempt, bt_attempted_at := Some t,
        bt_failure_code := None, bt_membership_revision := Some (batch_revision b),
        bt_membership_digest := Some (h (batch_revision b, map (\<lambda>(m, g). digest_member_of m g) live)),
        bt_frozen_at := Some t, bt_summary_state := SummarySending, bt_summary_lease_until := None\<rparr>"
    using fr by (auto simp: reg freeze_batch_def Let_def id(2)) (simp add: b1_def)
  have "bd_members db' = map (with_revision (batch_revision b) (bm_id ` fst ` set live)) (bd_members db)"
    by (subst rows(1)) (simp add: id(2))
  from frozen_batch_members [OF wf b live [unfolded ms] this]
  show "filter (\<lambda>m. bm_membership_revision m = Some (batch_revision b)) (list_approval_batch_members db' (bt_id b)) =
      map (\<lambda>(m, g). m\<lparr>bm_membership_revision := Some (batch_revision b)\<rparr>) live" .
qed

text \<open>A sending registration ends in such a settlement.\<close>

lemma staged_open:
  "staged_batch grp chat t ws ttl draw db = Inr (db', b) \<Longrightarrow> bt_chat_id b = chat \<and> bt_nonce_used_at b = None"
  using find_SomeD [of "open_batch chat t" "rev (bd_batches db)"]
  by (auto simp: staged_batch_def insert_approval_batch_def new_batch_def Let_def get_open_approval_batch_def
      open_batch_def split: option.splits if_splits)

lemma register_sends:
  assumes wf: "wf_batches db" and r: "register_approval_batch_member h pid chat mid now ws ttl n draw db = Inr (db', Some reg)"
  obtains t dbs b where "now = Aware t" "2 \<le> n" "wf_batches dbs" "b \<in> set (bd_batches dbs)" "bt_frozen_at b = None"
    "settle_registration h b t ttl n (dr_attempt_id draw) dbs = (db', reg)"
    "bt_chat_id b = chat" "bt_nonce_used_at b = None"
  using r
proof (cases rule: register_Inr)
  case (registered t grp nonce db1 b db2 reg')
  have 1: "frozen_kept db db1" "b \<in> set (bd_batches db1)" "bt_frozen_at b = None"
    using staged_kept [OF wf registered(5)] by auto
  then have wf1: "wf_batches db1" by (simp add: frozen_kept_def)
  have 2: "frozen_kept db1 db2" "bd_batches db2 = bd_batches db1"
    using insert_member_kept [OF wf1 1(2,3) _ _ registered(6)] by (simp_all add: new_member_def)
  then show ?thesis
    using that [of t db2 b] registered 1 staged_open [OF registered(5)] by (simp add: frozen_kept_def)
qed simp_all

lemma live_in:
  assumes "(m, g) \<in> set (List.map_filter (live_member db t) ms)"
  shows "m \<in> set ms \<and> get_group_by_pk db (bm_proposal_pk m) = Some g \<and> snapshot_is_current m g \<and>
    batch_member_block_reason g (list_rungs (bd_store db) (g_id g)) (Aware t) = Inr None"
  using assms by (auto simp: map_filter_set live_member_def split: option.splits if_splits)

lemma display_all:
  assumes "\<forall>(m, g) \<in> set live. get_group_by_pk db (bm_proposal_pk m) = Some g"
  shows "display_proposals db (map (\<lambda>(m, g). m\<lparr>bm_membership_revision := r\<rparr>) live) =
    Inr (map (\<lambda>(m, g). (g, list_rungs (bd_store db) (g_id g))) live)"
  using assms by (induction live) (auto simp: get_group_by_pk_def)

lemma found_after_put:
  assumes wf: "wf_batches db" and b: "b \<in> set (bd_batches db)" and key: "batch_key b' = batch_key b"
  shows "get_approval_batch_by_id (put_batch b' db) (bt_batch_id b) = Some b'"
proof -
  have id: "bt_id b' = bt_id b" "bt_batch_id b' = bt_batch_id b" using key by (simp_all add: batch_key_def)
  have same: "x = b" if "x \<in> set (bd_batches db)" "bt_id x = bt_id b" for x
    by (rule wf_same_batch [OF wf that(1) b that(2)])
  have "map bt_batch_id (bd_batches (put_batch b' db)) = map bt_batch_id (bd_batches db)"
    using same id by (auto simp: put_batch_def write_row_def)
  then have "distinct (map bt_batch_id (bd_batches (put_batch b' db)))" using wf by (simp add: wf_batches_def)
  moreover have "b' \<in> set (bd_batches (put_batch b' db))"
    using b id by (force simp: put_batch_def write_row_def)
  ultimately show ?thesis
    using id(2) find_unique [of bt_batch_id "bd_batches (put_batch b' db)" b'] by (simp add: get_approval_batch_by_id_def)
qed

section \<open>Properties\<close>

text \<open>
  Once a batch is frozen, no history of batch operations and proposal commands changes it:
  its nonce, chat, expiry, publication owner, revision and digest stay, a used nonce stays used,
  and the list of its members with their approval snapshots stays as it was shown.
\<close>

theorem frozen_membership_never_changes:
  assumes "wf_batches db" and "b \<in> set (bd_batches db)" and "bt_frozen_at b \<noteq> None"
  shows "(\<exists>b' \<in> set (bd_batches (batch_history env h ops db)). batch_kept b b') \<and>
    map member_key (list_approval_batch_members (batch_history env h ops db) (bt_id b)) =
    map member_key (list_approval_batch_members db (bt_id b))"
  using batch_history_kept [OF assms(1), of env h ops] assms(2,3) unfolding frozen_kept_def by blast

lemma snapshots_of:
  assumes "member_snapshots db t ms = Inr pairs"
  shows "list_all2 (\<lambda>m (sn, dm). ms_member_id sn = bm_id m \<and> ms_nonce sn = bm_nonce m \<and>
    (\<exists>grp. get_group_by_pk db (bm_proposal_pk m) = Some grp \<and> ms_proposal_id sn = g_proposal_id grp \<and>
       snapshot_is_current m grp \<and> dm = digest_member_of m grp \<and>
       batch_member_block_reason grp (list_rungs (bd_store db) (g_id grp)) (Aware t) = Inr None)) ms pairs"
  using assms
proof (induction ms arbitrary: pairs)
  case (Cons m ms)
  then obtain sn dm rest where p: "pairs = (sn, dm) # rest" "member_snapshot_of db t m = Inr (sn, dm)"
    "member_snapshots db t ms = Inr rest" by (auto simp: bindR_eq_Inr)
  then show ?case
    using Cons.IH [OF p(3)]
    by (auto simp: member_snapshot_of_def bindR_eq_Inr split: option.splits if_splits)
qed simp

lemma pk_keeps_proposal:
  assumes "evolves UNIV s s'" and "find (\<lambda>g. g_id g = pk) (db_groups s) = Some g"
    and "find (\<lambda>g. g_id g = pk) (db_groups s') = Some g'"
  shows "g_proposal_id g' = g_proposal_id g"
proof -
  have g: "g \<in> set (db_groups s)" "g_id g = pk" and g': "g' \<in> set (db_groups s')" "g_id g' = pk"
    using assms(2,3) by (auto dest!: find_SomeD)
  obtain x where x: "x \<in> set (db_groups s')" "group_payload x = group_payload g"
    using assms(1) g(1) by (auto simp: evolves_def group_evolves_def)
  then have "x = g'"
    using assms(1) g g' same_row [of g_id "db_groups s'" x g'] by (auto simp: evolves_def wf_store_def group_payload_def)
  then show ?thesis using x(2) by (simp add: group_payload_def)
qed

text \<open>A frozen batch is read back as it was, up to what is not its identity.\<close>

lemma frozen_row_found:
  assumes kept: "frozen_kept db1 db2" and b: "b \<in> set (bd_batches db1)" "bt_frozen_at b \<noteq> None"
    and found: "get_approval_batch_by_id db2 (bt_batch_id b) = Some b'"
  shows "batch_kept b b'"
proof -
  obtain x where x: "x \<in> set (bd_batches db2)" "batch_kept b x" using kept b by (auto simp: frozen_kept_def)
  have b': "b' \<in> set (bd_batches db2)" "bt_batch_id b' = bt_batch_id b" using the_batch_in [OF found] by auto
  have "distinct (map bt_batch_id (bd_batches db2))" using kept by (simp add: frozen_kept_def wf_batches_def)
  moreover have "bt_batch_id x = bt_batch_id b'" using x(2) b'(2) by (simp add: batch_kept_def batch_key_def)
  ultimately have "x = b'" using x(1) b'(1) by (blast intro: same_row)
  then show ?thesis using x(2) by simp
qed

lemma frozen_revision_members:
  assumes kept: "frozen_kept db1 db2" and b: "b \<in> set (bd_batches db1)" "bt_frozen_at b \<noteq> None" "bt_id b' = bt_id b"
    and shown: "revision_members db1 b r = map f live"
  shows "list_all2 (\<lambda>m x. member_key m = member_key (f x)) (revision_members db2 b' r) live"
proof -
  have keys: "map member_key (list_approval_batch_members db2 (bt_id b)) =
      map member_key (list_approval_batch_members db1 (bt_id b))"
    using kept b by (auto simp: frozen_kept_def)
  have rev_keys: "map member_key (filter (\<lambda>m. bm_membership_revision m = Some r) xs) =
      filter (\<lambda>k. fst (snd (snd (snd (snd (snd k))))) = Some r) (map member_key xs)" for xs
    by (induction xs) (simp_all add: member_key_def)
  have "map member_key (revision_members db2 b' r) = map member_key (revision_members db1 b r)"
    unfolding revision_members_def b(3) rev_keys keys ..
  then show ?thesis unfolding shown by (simp add: list.rel_map flip: list.rel_eq)
qed

text \<open>The clicked members are the shown ones, under the same proposals and nonces.\<close>

lemma clicked_are_shown:
  assumes same: "list_all2 (\<lambda>m (m', g). bm_proposal_pk m = bm_proposal_pk m' \<and> bm_nonce m = bm_nonce m') ms live"
    and snap: "member_snapshots db2 t ms = Inr pairs"
    and shown: "\<forall>(m, g) \<in> set live. get_group_by_pk db1 (bm_proposal_pk m) = Some g \<and> snapshot_is_current m g"
    and ev: "evolves UNIV (bd_store db1) (bd_store db2)"
  shows "map (\<lambda>p. (ms_proposal_id (fst p), Some (ms_nonce (fst p)))) pairs =
    map (\<lambda>x. (g_proposal_id (snd x), g_approval_nonce (snd x))) live"
proof (rule nth_equalityI)
  note snaps = snapshots_of [OF snap]
  show "length (map (\<lambda>p. (ms_proposal_id (fst p), Some (ms_nonce (fst p)))) pairs) =
      length (map (\<lambda>x. (g_proposal_id (snd x), g_approval_nonce (snd x))) live)"
    using list_all2_lengthD [OF same] list_all2_lengthD [OF snaps] by simp
  fix i assume "i < length (map (\<lambda>p. (ms_proposal_id (fst p), Some (ms_nonce (fst p)))) pairs)"
  then have i: "i < length pairs" "i < length ms" "i < length live"
    using list_all2_lengthD [OF same] list_all2_lengthD [OF snaps] by simp_all
  obtain m g where l: "live ! i = (m, g)" by (cases "live ! i")
  obtain sn dm where p: "pairs ! i = (sn, dm)" by (cases "pairs ! i")
  have 1: "bm_proposal_pk (ms ! i) = bm_proposal_pk m" "bm_nonce (ms ! i) = bm_nonce m"
    using list_all2_nthD [OF same i(2)] l by simp_all
  obtain grp where 2: "ms_nonce sn = bm_nonce m" "get_group_by_pk db2 (bm_proposal_pk m) = Some grp"
    "ms_proposal_id sn = g_proposal_id grp"
    using list_all2_nthD [OF snaps i(2)] p 1 by auto
  have 3: "get_group_by_pk db1 (bm_proposal_pk m) = Some g" "snapshot_is_current m g"
    using shown nth_mem [OF i(3)] l by auto
  have "g_proposal_id grp = g_proposal_id g"
    using pk_keeps_proposal [OF ev] 2(2) 3(1) by (simp add: get_group_by_pk_def)
  then show "map (\<lambda>p. (ms_proposal_id (fst p), Some (ms_nonce (fst p)))) pairs ! i =
      map (\<lambda>x. (g_proposal_id (snd x), g_approval_nonce (snd x))) live ! i"
    using 2 3(2) i by (simp add: l p snapshot_is_current_def)
qed

lemma clicked_are_current:
  assumes snap: "member_snapshots db t ms = Inr pairs" and sn: "sn \<in> fst ` set pairs"
  shows "\<exists>g \<in> set (db_groups (bd_store db)). g_proposal_id g = ms_proposal_id sn \<and>
    g_approval_nonce g = Some (ms_nonce sn) \<and>
    batch_member_block_reason g (list_rungs (bd_store db) (g_id g)) (Aware t) = Inr None"
proof -
  obtain i dm where i: "i < length pairs" "pairs ! i = (sn, dm)" using sn by (auto simp: in_set_conv_nth)
  note snaps = snapshots_of [OF snap]
  have "i < length ms" using i(1) list_all2_lengthD [OF snaps] by simp
  then obtain grp where "get_group_by_pk db (bm_proposal_pk (ms ! i)) = Some grp" "ms_proposal_id sn = g_proposal_id grp"
    "ms_nonce sn = bm_nonce (ms ! i)" "snapshot_is_current (ms ! i) grp"
    "batch_member_block_reason grp (list_rungs (bd_store db) (g_id grp)) (Aware t) = Inr None"
    using list_all2_nthD [OF snaps] i(2) by fastforce
  then show ?thesis by (auto simp: get_group_by_pk_def snapshot_is_current_def dest!: find_SomeD)
qed

text \<open>What a sending registration leaves: a frozen row whose display is the live members.\<close>

lemma frozen_display:
  assumes wf: "wf_batches db"
    and reg: "register_approval_batch_member h pid chat mid now ws ttl n draw db = Inr (db1, Some reg)" "br_send reg"
  obtains r live where "br_batch reg \<in> set (bd_batches db1)" "bt_frozen_at (br_batch reg) \<noteq> None"
    "bt_membership_revision (br_batch reg) = Some r" "2 \<le> length live"
    "revision_members db1 (br_batch reg) r = map (\<lambda>(m, g). m\<lparr>bm_membership_revision := Some r\<rparr>) live"
    "\<forall>(m, g) \<in> set live. get_group_by_pk db1 (bm_proposal_pk m) = Some g \<and> snapshot_is_current m g"
    "get_approval_batch_display (bt_batch_id (br_batch reg)) db1 =
       Inr (br_batch reg, map (\<lambda>(m, g). (g, list_rungs (bd_store db1) (g_id g))) live)"
proof -
  obtain t dbs b where s: "2 \<le> n" "wf_batches dbs" "b \<in> set (bd_batches dbs)" "bt_frozen_at b = None"
    "settle_registration h b t ttl n (dr_attempt_id draw) dbs = (db1, reg)"
    by (rule register_sends [OF wf reg(1)])
  define live where "live = List.map_filter (live_member dbs t) (list_approval_batch_members dbs (bt_id b))"
  note sent = settle_sends [OF s(2-5) reg(2) refl live_def]
  let ?b = "br_batch reg" and ?r = "batch_revision b"
  have row: "bt_id ?b = bt_id b" "bt_membership_revision ?b = Some ?r" "bt_frozen_at ?b \<noteq> None"
    by (simp_all add: sent(4))
  have wf1: "wf_batches db1" using register_kept [OF wf reg(1)] by (simp add: frozen_kept_def)
  have found: "get_approval_batch_by_id db1 (bt_batch_id ?b) = Some ?b"
    using wf1 sent(1) by (simp add: get_approval_batch_by_id_def wf_batches_def find_unique)
  have groups1: "\<forall>(m, g) \<in> set live. get_group_by_pk db1 (bm_proposal_pk m) = Some g \<and> snapshot_is_current m g"
    using live_in [of _ _ dbs t] by (auto simp: live_def get_group_by_pk_def sent(3))
  have "get_approval_batch_display (bt_batch_id ?b) db1 =
       Inr (?b, map (\<lambda>(m, g). (g, list_rungs (bd_store db1) (g_id g))) live)"
    using found row sent(5) display_all [of live db1 "Some ?r"] groups1
    by (auto simp: get_approval_batch_display_def the_batch_def case_prod_beta)
  with that [of ?r live] show ?thesis
    using sent(1,2,5) row s(1) groups1 by (simp add: revision_members_def)
qed

text \<open>
  C15: Let a registration freeze a batch and hand it to the sender, and let anything happen until
  a click on it is accepted. The click then approves exactly the proposals the card displayed, in
  that order and under the nonces they had then; each of them is still open under this nonce and
  the batch has not expired.
\<close>

theorem one_click_approves_the_displayed_members:
  assumes wf: "wf_batches db"
    and reg: "register_approval_batch_member h pid chat mid now ws ttl n draw db = Inr (db1, Some reg)" "br_send reg"
    and click: "consume_approval_batch_nonce h (bt_batch_id (br_batch reg)) cb chat' user (Aware t2) ex
      (batch_history env h ops db1) = Inr (db3, b3, snaps)"
  shows "\<exists>ps. get_approval_batch_display (bt_batch_id (br_batch reg)) db1 = Inr (br_batch reg, ps) \<and> 2 \<le> length ps \<and>
    map (\<lambda>sn. (ms_proposal_id sn, Some (ms_nonce sn))) snaps = map (\<lambda>(g, _). (g_proposal_id g, g_approval_nonce g)) ps \<and>
    (\<forall>sn \<in> set snaps. \<exists>g \<in> set (db_groups (bd_store (batch_history env h ops db1))).
       g_proposal_id g = ms_proposal_id sn \<and> g_approval_nonce g = Some (ms_nonce sn) \<and>
       batch_member_block_reason g (list_rungs (bd_store (batch_history env h ops db1)) (g_id g)) (Aware t2) = Inr None) \<and>
    t2 < bt_expires_at (br_batch reg)"
proof -
  let ?b = "br_batch reg" and ?db2 = "batch_history env h ops db1"
  obtain r live where shown: "?b \<in> set (bd_batches db1)" "bt_frozen_at ?b \<noteq> None" "bt_membership_revision ?b = Some r"
    "2 \<le> length live" "revision_members db1 ?b r = map (\<lambda>(m, g). m\<lparr>bm_membership_revision := Some r\<rparr>) live"
    "\<forall>(m, g) \<in> set live. get_group_by_pk db1 (bm_proposal_pk m) = Some g \<and> snapshot_is_current m g"
    and display: "get_approval_batch_display (bt_batch_id ?b) db1 =
       Inr (?b, map (\<lambda>(m, g). (g, list_rungs (bd_store db1) (g_id g))) live)"
    by (rule frozen_display [OF wf reg])
  have "wf_batches db1" using register_kept [OF wf reg(1)] by (simp add: frozen_kept_def)
  then have kept: "frozen_kept db1 ?db2" by (rule batch_history_kept)
  from click show ?thesis
  proof (cases rule: consume_Inr)
    case (1 t2' b' pairs)
    have b': "batch_kept ?b b'" by (rule frozen_row_found [OF kept shown(1,2) 1(2)])
    then have k: "bt_id b' = bt_id ?b" "bt_membership_revision b' = Some r" "bt_expires_at b' = bt_expires_at ?b"
      using shown(3) by (simp_all add: batch_kept_def batch_key_def)
    have gate: "cb_membership_revision cb = r" "t2' < bt_expires_at ?b"
      using 1(3) k by (auto simp: assert_batch_Inr gate_open_def)
    have same: "list_all2 (\<lambda>m (m', g). bm_proposal_pk m = bm_proposal_pk m' \<and> bm_nonce m = bm_nonce m')
        (revision_members ?db2 b' r) live"
      using frozen_revision_members [OF kept shown(1,2) k(1) shown(5)]
      by (rule list_all2_mono) (auto simp: member_key_def)
    have "evolves UNIV (bd_store db1) (bd_store ?db2)" using kept by (simp add: frozen_kept_def)
    note ids = clicked_are_shown [OF same 1(5) [unfolded gate(1)] shown(6) this]
    then have ids': "map (\<lambda>sn. (ms_proposal_id sn, Some (ms_nonce sn))) snaps =
        map (\<lambda>(g, _). (g_proposal_id g, g_approval_nonce g)) (map (\<lambda>(m, g). (g, list_rungs (bd_store db1) (g_id g))) live)"
      by (simp add: 1(9) case_prod_beta o_def)
    show ?thesis
      using display shown(4) ids' gate(2) clicked_are_current [OF 1(5)] 1(1) by (auto simp: 1(9))
  qed
qed

lemma expiry_bounded:
  "bounded_batch_expiry t ttl ds \<le> t + seconds ttl"
  "Some v \<in> set ds \<Longrightarrow> bounded_batch_expiry t ttl ds \<le> v"
proof -
  have fold: "foldl min (a :: int) xs \<le> a \<and> (\<forall>x \<in> set xs. foldl min a xs \<le> x)" for a xs
    by (induction xs arbitrary: a) (auto, smt (verit, best), smt (verit, best))
  show "bounded_batch_expiry t ttl ds \<le> t + seconds ttl"
    using fold unfolding bounded_batch_expiry_def by blast
  show "Some v \<in> set ds \<Longrightarrow> bounded_batch_expiry t ttl ds \<le> v"
    using fold unfolding bounded_batch_expiry_def by (fastforce simp: map_filter_set)
qed

lemma block_reason_later:
  assumes "batch_member_block_reason grp rungs (Aware t) = Inr None" and "\<And>v. g_valid_until grp = Some v \<Longrightarrow> t' < v"
  shows "batch_member_block_reason grp rungs (Aware t') = Inr None"
  using assms
  by (auto simp: batch_member_block_reason_def valid_until_block_column map_error_def
      split: option.splits if_splits)

lemma snapshots_succeed:
  assumes "\<forall>(m, g) \<in> set live. get_group_by_pk db (bm_proposal_pk m) = Some g \<and> snapshot_is_current m g \<and>
    batch_member_block_reason g (list_rungs (bd_store db) (g_id g)) (Aware t) = Inr None \<and>
    g_approval_dispatch_attempt_id g \<noteq> None \<and> g_approval_dispatch_membership_revision g \<noteq> None \<and>
    g_approval_dispatch_membership_digest g \<noteq> None"
  shows "\<exists>pairs. member_snapshots db t (map (\<lambda>(m, g). m\<lparr>bm_membership_revision := r\<rparr>) live) = Inr pairs \<and>
    map snd pairs = map (\<lambda>(m, g). digest_member_of m g) live"
  using assms
proof (induction live)
  case (Cons x live)
  obtain m g where x: "x = (m, g)" by (cases x)
  let ?m = "m\<lparr>bm_membership_revision := r\<rparr>"
  have g: "get_group_by_pk db (bm_proposal_pk ?m) = Some g" "snapshot_is_current ?m g"
    "batch_member_block_reason g (list_rungs (bd_store db) (g_id g)) (Aware t) = Inr None"
    using Cons.prems by (auto simp: x snapshot_is_current_def)
  have kind: "g_approval_dispatch_card_kind g \<in> {Some Manual, Some card_kind.Reconfirm}"
    using g(3) by (auto simp: batch_member_block_reason_def split: option.splits if_splits)
  have "\<exists>sn. member_snapshot_of db t ?m = Inr (sn, digest_member_of m g)"
    using Cons.prems g kind
    by (auto simp: member_snapshot_of_def x snapshot_is_current_def digest_member_of_def split: option.splits)
  moreover obtain pairs where "member_snapshots db t (map (\<lambda>(m, g). m\<lparr>bm_membership_revision := r\<rparr>) live) = Inr pairs"
    "map snd pairs = map (\<lambda>(m, g). digest_member_of m g) live"
    using Cons by auto
  ultimately show ?case by (auto simp: x)
qed simp

definition batch_callback :: "approval_batch \<Rightarrow> callback_envelope" where
  "batch_callback b =
     \<lparr>cb_action = ''ba'', cb_subject_short = take 8 (bt_batch_id b), cb_attempt_id = the (bt_attempt_id b),
      cb_membership_revision = the (bt_membership_revision b),
      cb_membership_digest = the (bt_membership_digest b), cb_nonce = bt_nonce b\<rparr>"

definition complete_bindings :: "store \<Rightarrow> bool" where
  "complete_bindings s \<longleftrightarrow> (\<forall>g \<in> set (db_groups s). g_approval_dispatch_state g = Some SentCurrent \<longrightarrow>
     g_approval_dispatch_attempt_id g \<noteq> None \<and> g_approval_dispatch_membership_revision g \<noteq> None \<and>
     g_approval_dispatch_membership_digest g \<noteq> None)"

lemma current_dispatch:
  "batch_member_block_reason g rs now = Inr None \<Longrightarrow> g_approval_dispatch_state g = Some SentCurrent"
  by (auto simp: batch_member_block_reason_def split: option.splits if_splits)

lemma live_still_live:
  assumes mg: "(m, g) \<in> set (List.map_filter (live_member dbs t) ms)" and store: "bd_store db = bd_store dbs"
    and complete: "complete_bindings (bd_store dbs)"
    and time: "t2 < bounded_batch_expiry t ttl (member_deadlines dbs ms)"
  shows "get_group_by_pk db (bm_proposal_pk m) = Some g \<and> snapshot_is_current m g \<and>
      batch_member_block_reason g (list_rungs (bd_store db) (g_id g)) (Aware t2) = Inr None \<and>
      g_approval_dispatch_attempt_id g \<noteq> None \<and> g_approval_dispatch_membership_revision g \<noteq> None \<and>
      g_approval_dispatch_membership_digest g \<noteq> None"
proof -
  have m: "m \<in> set ms" "get_group_by_pk dbs (bm_proposal_pk m) = Some g" "snapshot_is_current m g"
    "batch_member_block_reason g (list_rungs (bd_store dbs) (g_id g)) (Aware t) = Inr None"
    using live_in [OF mg] by simp_all
  have "Some v \<in> set (member_deadlines dbs ms)" if "g_valid_until g = Some v" for v
    using m(1,2) that by (force simp: member_deadlines_def map_filter_set)
  then have "t2 < v" if "g_valid_until g = Some v" for v
    using expiry_bounded(2) time that by (meson order_less_le_trans)
  then have "batch_member_block_reason g (list_rungs (bd_store dbs) (g_id g)) (Aware t2) = Inr None"
    by (rule block_reason_later [OF m(4)])
  moreover have "g \<in> set (db_groups (bd_store dbs))"
    using m(2) by (auto simp: get_group_by_pk_def dest: find_SomeD)
  ultimately show ?thesis
    using m complete current_dispatch [OF m(4)] store by (simp add: complete_bindings_def get_group_by_pk_def)
qed

text \<open>
  A frozen batch whose card was published by its owner can be clicked: the callback built from
  its row is consumed at every instant before the expiry, for as many members as were announced,
  while the proposals stay as they were.
\<close>

theorem published_batch_can_be_clicked:
  assumes wf: "wf_batches db"
    and reg: "register_approval_batch_member h pid chat mid (Aware t) ws ttl n draw db = Inr (db1, Some reg)" "br_send reg"
    and complete: "complete_bindings (bd_store db1)"
    and fin: "finish_approval_batch_dispatch (bt_batch_id (br_batch reg)) (dr_attempt_id draw) publication (Aware t1) db1 =
      Inr (db2, res)" "p_card_published publication"
    and time: "t2 < bt_expires_at (br_batch reg)"
  shows "\<exists>db3 b3 snaps. consume_approval_batch_nonce h (bt_batch_id (br_batch reg)) (batch_callback (br_batch reg)) chat
      user (Aware t2) None db2 = Inr (db3, b3, snaps) \<and> length snaps = br_member_count reg"
proof -
  let ?b = "br_batch reg"
  obtain t' dbs b where s: "Aware t = Aware t'" "2 \<le> n" "wf_batches dbs" "b \<in> set (bd_batches dbs)" "bt_frozen_at b = None"
    "settle_registration h b t' ttl n (dr_attempt_id draw) dbs = (db1, reg)" "bt_chat_id b = chat" "bt_nonce_used_at b = None"
    by (rule register_sends [OF wf reg(1)])
  define ms where "ms = list_approval_batch_members dbs (bt_id b)"
  define live where "live = List.map_filter (live_member dbs t') ms"
  define r where "r = batch_revision b"
  note sent = settle_sends [OF s(3-6) reg(2) ms_def live_def, folded r_def]
  have count: "br_member_count reg = length live"
    using s(6) by (auto simp: settle_registration_def Let_def live_def ms_def split: if_splits prod.splits)
  have wf1: "wf_batches db1" using register_kept [OF wf reg(1)] by (simp add: frozen_kept_def)
  have found: "get_approval_batch_by_id db1 (bt_batch_id ?b) = Some ?b"
    using wf1 sent(1) by (simp add: get_approval_batch_by_id_def wf_batches_def find_unique)
  have owner: "batch_owner ?b (dr_attempt_id draw)" by (simp add: batch_owner_def sent(4))
  obtain b' where b': "db2 = put_batch b' db1" "batch_key b' = batch_key ?b" "bt_dispatch_state b' = Some SentCurrent"
    "bt_nonce_used_at b' = None"
    using fin owner found s(8) unfolding finish_approval_batch_dispatch_def
    by (auto simp: the_batch_def batch_outcome_def Let_def batch_key_def sent(4))
  have found2: "get_approval_batch_by_id db2 (bt_batch_id ?b) = Some b'"
    using found_after_put [OF wf1 sent(1) b'(2)] b'(1) by simp
  have tables: "bd_members db2 = bd_members db1" "bd_store db2 = bd_store db1" by (simp_all add: b'(1) put_batch_def)
  have k: "bt_id b' = bt_id b" "bt_batch_id b' = bt_batch_id ?b" "bt_chat_id b' = chat" "bt_nonce b' = bt_nonce ?b"
    "bt_expires_at b' = bt_expires_at ?b" "bt_attempt_id b' = Some (dr_attempt_id draw)"
    "bt_membership_revision b' = Some r"
    "bt_membership_digest b' = Some (h (r, map (\<lambda>(m, g). digest_member_of m g) live))"
    using b'(2) s(7) by (simp_all add: batch_key_def sent(4))
  have shown: "revision_members db2 b' r = map (\<lambda>(m, g). m\<lparr>bm_membership_revision := Some r\<rparr>) live"
    using sent(5) by (simp add: revision_members_def list_approval_batch_members_def tables k(1))
  have lives: "get_group_by_pk db2 (bm_proposal_pk m) = Some g \<and> snapshot_is_current m g \<and>
      batch_member_block_reason g (list_rungs (bd_store db2) (g_id g)) (Aware t2) = Inr None \<and>
      g_approval_dispatch_attempt_id g \<noteq> None \<and> g_approval_dispatch_membership_revision g \<noteq> None \<and>
      g_approval_dispatch_membership_digest g \<noteq> None" if mg: "(m, g) \<in> set live" for m g
    using live_still_live [OF mg [unfolded live_def], of db2 t2 ttl] complete sent(3,4) tables time
    by (simp add: ms_def)
  then obtain pairs where pairs: "member_snapshots db2 t2 (revision_members db2 b' r) = Inr pairs"
    "map snd pairs = map (\<lambda>(m, g). digest_member_of m g) live"
    using snapshots_succeed [of live db2 t2 "Some r"] unfolding shown by blast
  have gate: "assert_published_batch_binding b' (batch_callback ?b) chat t2 False = Inr ()"
    using b'(3,4) k time
    by (simp add: assert_batch_Inr gate_open_def approvable_def batch_callback_def sent(4))
  have len: "length pairs = length live" using pairs(2) by (metis length_map)
  have rev: "cb_membership_revision (batch_callback ?b) = r" by (simp add: batch_callback_def sent(4))
  show ?thesis
    using found2 gate pairs k(8) sent(2) s(2) count len
    by (simp add: consume_approval_batch_nonce_def the_batch_def rev shown Let_def)
qed

section \<open>A concrete batch\<close>

definition second_group :: order_proposal where
  "second_group = sample_group\<lparr>g_id := 2, g_proposal_id := ''p0000002'', g_approval_nonce := Some ''n2'',
     g_approval_dispatch_attempt_id := Some ''a2''\<rparr>"

definition two_proposals :: batch_db where
  "two_proposals =
     \<lparr>bd_store = \<lparr>db_now = 10, db_groups = [sample_group, second_group],
        db_rungs = [sample_rung 1 1 0 PendingApproval None, sample_rung 2 2 0 PendingApproval None],
        db_attempts = [], db_group_seq = 3, db_rung_seq = 4, db_attempt_seq = 1\<rparr>,
      bd_batches = [], bd_members = [], bd_batch_seq = 1, bd_member_seq = 1\<rparr>"

definition batch_hash :: batch_digest_fn where "batch_hash = (\<lambda>(r, ms). concat (map dm_nonce ms))"

definition one_staged :: batch_db where
  "one_staged = batch_step sample_env batch_hash
     (RegisterMember ''p0000001'' ''chat'' 11 (Aware 10) 600 600 2
        \<lparr>dr_batch_id = ''b0000001'', dr_nonce = ''bn'', dr_attempt_id = ''ba1''\<rparr>) two_proposals"

definition second_registration where
  "second_registration = register_approval_batch_member batch_hash ''p0000002'' ''chat'' 12 (Aware 20) 600 600 2
     \<lparr>dr_batch_id = ''b0000002'', dr_nonce = ''bn2'', dr_attempt_id = ''ba2''\<rparr> one_staged"

definition batch_receipt :: approval_publication where
  "batch_receipt = \<lparr>p_card_published = True, p_partial = False, p_message_id = Some 7, p_status_code = Some 200,
     p_error_code = None, p_error_classification = None, p_payload_chars = 40, p_failure_code = None\<rparr>"

lemma wf_two: "wf_batches two_proposals"
  by (simp add: wf_batches_def two_proposals_def wf_store_def sample_group_def second_group_def new_group_def sample_rung_def)

lemma wf_staged: "wf_batches one_staged"
  using batch_step_kept [OF wf_two] unfolding one_staged_def frozen_kept_def by blast

definition second_outcome where
  "second_outcome = (case second_registration of
     Inr (db1, Some reg) \<Rightarrow>
       (case finish_approval_batch_dispatch (bt_batch_id (br_batch reg)) ''ba2'' batch_receipt (Aware 25) db1 of
          Inl _ \<Rightarrow> None
        | Inr (db2, res) \<Rightarrow> Some (db1, reg, db2, res))
   | _ \<Rightarrow> None)"

abbreviation second_draw :: batch_draw where
  "second_draw \<equiv> \<lparr>dr_batch_id = ''b0000002'', dr_nonce = ''bn2'', dr_attempt_id = ''ba2''\<rparr>"

lemma second_freezes:
  obtains db1 reg db2 res db3 b3 snaps where "second_registration = Inr (db1, Some reg)" "br_send reg"
    "complete_bindings (bd_store db1)" "30 < bt_expires_at (br_batch reg)"
    "finish_approval_batch_dispatch (bt_batch_id (br_batch reg)) (dr_attempt_id second_draw) batch_receipt (Aware 25) db1 =
      Inr (db2, res)"
    "consume_approval_batch_nonce batch_hash (bt_batch_id (br_batch reg)) (batch_callback (br_batch reg)) ''chat''
      ''user'' (Aware 30) None db2 = Inr (db3, b3, snaps)"
proof -
  have ev: "case second_outcome of None \<Rightarrow> False
     | Some (db1, reg, db2, res) \<Rightarrow> br_send reg \<and> complete_bindings (bd_store db1) \<and> 30 < bt_expires_at (br_batch reg) \<and>
         is_ok (consume_approval_batch_nonce batch_hash (bt_batch_id (br_batch reg)) (batch_callback (br_batch reg)) ''chat''
           ''user'' (Aware 30) None db2)"
    by code_simp
  then obtain db1 reg db2 res where o: "second_outcome = Some (db1, reg, db2, res)"
    by (cases second_outcome) auto
  have fin: "second_registration = Inr (db1, Some reg) \<and>
      finish_approval_batch_dispatch (bt_batch_id (br_batch reg)) (dr_attempt_id second_draw) batch_receipt (Aware 25) db1 =
        Inr (db2, res)"
    using o unfolding second_outcome_def by (auto split: sum.splits option.splits prod.splits)
  obtain x where "consume_approval_batch_nonce batch_hash (bt_batch_id (br_batch reg)) (batch_callback (br_batch reg)) ''chat''
      ''user'' (Aware 30) None db2 = Inr x" using ev by (auto simp: o is_ok_iff)
  then show ?thesis using ev fin by (cases x) (auto simp: o intro: that)
qed

lemma frozen_membership_never_changes_witness:
  "\<exists>db1 reg b'. second_registration = Inr (db1, Some reg) \<and>
     b' \<in> set (bd_batches (batch_history sample_env batch_hash [MemberResult 1 ''approved'' [] (Aware 40)] db1)) \<and>
     batch_kept (br_batch reg) b'"
proof -
  obtain db1 reg where f: "second_registration = Inr (db1, Some reg)" "br_send reg" by (rule second_freezes)
  obtain r live where b: "br_batch reg \<in> set (bd_batches db1)" "bt_frozen_at (br_batch reg) \<noteq> None"
    by (rule frozen_display [OF wf_staged f(1) [unfolded second_registration_def] f(2)])
  have "wf_batches db1"
    using register_kept [OF wf_staged f(1) [unfolded second_registration_def]] by (simp add: frozen_kept_def)
  from frozen_membership_never_changes [OF this b] f show ?thesis by blast
qed

lemma one_click_approves_the_displayed_members_witness:
  "\<exists>db1 reg ps. second_registration = Inr (db1, Some reg) \<and>
     get_approval_batch_display (bt_batch_id (br_batch reg)) db1 = Inr (br_batch reg, ps) \<and> 2 \<le> length ps"
proof -
  obtain db1 reg db2 res db3 b3 snaps where f: "second_registration = Inr (db1, Some reg)" "br_send reg"
    "complete_bindings (bd_store db1)" "30 < bt_expires_at (br_batch reg)"
    "finish_approval_batch_dispatch (bt_batch_id (br_batch reg)) (dr_attempt_id second_draw) batch_receipt (Aware 25) db1 =
      Inr (db2, res)"
    "consume_approval_batch_nonce batch_hash (bt_batch_id (br_batch reg)) (batch_callback (br_batch reg)) ''chat''
      ''user'' (Aware 30) None db2 = Inr (db3, b3, snaps)" by (rule second_freezes)
  have "batch_history sample_env batch_hash
      [FinishBatch (bt_batch_id (br_batch reg)) (dr_attempt_id second_draw) batch_receipt (Aware 25)] db1 = db2"
    using f(5) by (simp add: batch_history_def or_stay_def)
  with f(6) have "consume_approval_batch_nonce batch_hash (bt_batch_id (br_batch reg)) (batch_callback (br_batch reg)) ''chat''
      ''user'' (Aware 30) None (batch_history sample_env batch_hash
        [FinishBatch (bt_batch_id (br_batch reg)) (dr_attempt_id second_draw) batch_receipt (Aware 25)] db1) = Inr (db3, b3, snaps)"
    by simp
  from one_click_approves_the_displayed_members [OF wf_staged f(1) [unfolded second_registration_def] f(2) this] f(1)
  show ?thesis by blast
qed

lemma published_batch_can_be_clicked_witness:
  "\<exists>db1 reg db2 res db3 b3 snaps. second_registration = Inr (db1, Some reg) \<and>
     finish_approval_batch_dispatch (bt_batch_id (br_batch reg)) (dr_attempt_id second_draw) batch_receipt (Aware 25) db1 =
       Inr (db2, res) \<and>
     consume_approval_batch_nonce batch_hash (bt_batch_id (br_batch reg)) (batch_callback (br_batch reg)) ''chat''
       ''user'' (Aware 30) None db2 = Inr (db3, b3, snaps)"
proof -
  obtain db1 reg db2 res where f: "second_registration = Inr (db1, Some reg)" "br_send reg"
    "complete_bindings (bd_store db1)" "30 < bt_expires_at (br_batch reg)"
    "finish_approval_batch_dispatch (bt_batch_id (br_batch reg)) (dr_attempt_id second_draw) batch_receipt (Aware 25) db1 =
      Inr (db2, res)" by (rule second_freezes)
  have "p_card_published batch_receipt" by (simp add: batch_receipt_def)
  from published_batch_can_be_clicked [OF wf_staged f(1) [unfolded second_registration_def] f(2,3,5) this f(4)] f
  show ?thesis by blast
qed

end
