(* ===== verification/MarketSessions.thy ===== *)
theory MarketSessions
  imports ApprovalContract PyText
begin

text \<open>
  When a market accepts orders: the Toss calendar windows (\<open>brokers/toss/market_calendar.py\<close>),
  the exchange sessions (\<open>market_events/session_calendar.py\<close>, over the third-party
  \<open>exchange_calendars\<close>, a parameter) and NXT tradability (\<open>nxt_preflight.py\<close>). Instants are
  microseconds, dates are day numbers of the local calendar.
\<close>

section \<open>Toss session windows\<close>

record session_window =
  sw_start :: int
  sw_end :: int

definition window_contains :: "session_window \<Rightarrow> int \<Rightarrow> bool" where
  "window_contains w t \<longleftrightarrow> sw_start w \<le> t \<and> t < sw_end w"

definition opt_contains :: "session_window option \<Rightarrow> int \<Rightarrow> bool" where
  "opt_contains w t = (case w of None \<Rightarrow> False | Some x \<Rightarrow> window_contains x t)"

datatype toss_day =
    TossKrMarketDay (td_date: int) (kr_pre_market: "session_window option")
      (kr_regular_market: "session_window option") (kr_after_market: "session_window option")
  | TossUsMarketDay (td_date: int) (us_day_market: "session_window option")
      (us_pre_market: "session_window option") (us_regular_market: "session_window option")
      (us_after_market: "session_window option")

definition kst_date :: "int \<Rightarrow> int" where
  "kst_date t = (t + kst_offset) div days 1"

definition day_for :: "toss_day list \<Rightarrow> int \<Rightarrow> toss_day option" where
  "day_for calendar d = find (\<lambda>x. td_date x = d) calendar"

definition kr_toss_session_for :: "int \<Rightarrow> toss_day list \<Rightarrow> string option" where
  "kr_toss_session_for t calendar =
     (case day_for calendar (kst_date t) of
        Some (TossKrMarketDay _ pre regular after) \<Rightarrow>
          if opt_contains pre t then Some ''nxt_premarket''
          else if opt_contains regular t then Some ''regular''
          else if opt_contains after t then Some ''nxt_after''
          else None
      | _ \<Rightarrow> None)"

definition us_session_of_day :: "int \<Rightarrow> toss_day \<Rightarrow> string option" where
  "us_session_of_day t d = (case d of
     TossUsMarketDay _ dm pre regular after \<Rightarrow>
       if opt_contains dm t then Some ''day''
       else if opt_contains pre t then Some ''pre''
       else if opt_contains regular t then Some ''regular''
       else if opt_contains after t then Some ''post''
       else None
   | _ \<Rightarrow> None)"

fun us_toss_session_for :: "int \<Rightarrow> toss_day list \<Rightarrow> string option" where
  "us_toss_session_for t [] = None"
| "us_toss_session_for t (d # ds) =
     (case us_session_of_day t d of Some s \<Rightarrow> Some s | None \<Rightarrow> us_toss_session_for t ds)"

section \<open>Exchange sessions\<close>

text \<open>
  \<open>exchange_calendars\<close> answers a date with the UTC bounds of its session, or with no session;
  its errors are of the classification (out of range, bad date) or, for a session, of its bounds.
  Every error counts as "no session".
\<close>

datatype exchange_answer = SessionBounds int int | SessionBoundsError | NoSession | CalendarError

type_synonym exchange_calendar = "string \<Rightarrow> int \<Rightarrow> exchange_answer"

definition trading_session_status :: "exchange_calendar \<Rightarrow> string \<Rightarrow> int \<Rightarrow> string" where
  "trading_session_status xcal market d =
     (case xcal market d of SessionBounds _ _ \<Rightarrow> ''open'' | SessionBoundsError \<Rightarrow> ''open'' | NoSession \<Rightarrow> ''closed'' | CalendarError \<Rightarrow> ''unknown'')"

definition is_trading_session :: "exchange_calendar \<Rightarrow> string \<Rightarrow> int \<Rightarrow> bool" where
  "is_trading_session xcal market d \<longleftrightarrow> trading_session_status xcal market d = ''open''"

definition regular_session_bounds :: "exchange_calendar \<Rightarrow> string \<Rightarrow> int \<Rightarrow> (int \<times> int) option" where
  "regular_session_bounds xcal market d =
     (case xcal market d of SessionBounds o1 c \<Rightarrow> Some (o1, c) | _ \<Rightarrow> None)"

definition SESSION_SEARCH_DAYS :: int where "SESSION_SEARCH_DAYS = 32"

definition next_trading_session :: "exchange_calendar \<Rightarrow> string \<Rightarrow> int \<Rightarrow> int option" where
  "next_trading_session xcal market d =
     find (is_trading_session xcal market) (map (\<lambda>k. d + k) [1..SESSION_SEARCH_DAYS])"

definition previous_trading_session :: "exchange_calendar \<Rightarrow> string \<Rightarrow> int \<Rightarrow> int option" where
  "previous_trading_session xcal market d =
     find (is_trading_session xcal market) (map (\<lambda>k. d - k) [1..SESSION_SEARCH_DAYS])"

section \<open>NXT tradability\<close>

definition NXT_FLAG_STALE_AFTER :: int where "NXT_FLAG_STALE_AFTER = days 2"

record nxt_tradability =
  nx_eligible :: bool
  nx_suspended :: "bool option"
  nx_asof :: "int option"

definition nxt_tradable :: "nxt_tradability \<Rightarrow> bool" where
  "nxt_tradable n \<longleftrightarrow> nx_eligible n \<and> nx_suspended n \<noteq> Some True"

definition nxt_is_stale :: "int \<Rightarrow> nxt_tradability \<Rightarrow> bool" where
  "nxt_is_stale now n = (case nx_asof n of None \<Rightarrow> True | Some a \<Rightarrow> now - a > NXT_FLAG_STALE_AFTER)"

definition NXT_SESSIONS :: "string set" where "NXT_SESSIONS = {''nxt_premarket'', ''nxt_after''}"

record nxt_verdict =
  nv_block :: bool
  nv_reason :: "string option"
  nv_session :: "string option"
  nv_alternatives :: "string list"
  nv_advisory :: bool

definition evaluate_nxt_preflight :: "string option \<Rightarrow> nxt_tradability \<Rightarrow> nxt_verdict" where
  "evaluate_nxt_preflight session n =
     (case session of
        None \<Rightarrow> \<lparr>nv_block = False, nv_reason = Some ''nxt_session_unavailable'', nv_session = None,
                nv_alternatives = [], nv_advisory = True\<rparr>
      | Some s \<Rightarrow>
          if s \<notin> NXT_SESSIONS \<or> nxt_tradable n
          then \<lparr>nv_block = False, nv_reason = None, nv_session = session, nv_alternatives = [],
                nv_advisory = False\<rparr>
          else \<lparr>nv_block = True,
                nv_reason = Some (if nx_suspended n = Some True then ''nxt_trading_suspended''
                                  else ''not_nxt_eligible''),
                nv_session = session,
                nv_alternatives = [''retry_at_regular'', ''route_via_kis''], nv_advisory = False\<rparr>)"

section \<open>Lemmas\<close>

lemma kr_session_window:
  assumes "kr_toss_session_for t calendar = Some s"
  shows "\<exists>d pre regular after. TossKrMarketDay d pre regular after \<in> set calendar \<and>
    ((s = ''nxt_premarket'' \<and> opt_contains pre t) \<or> (s = ''regular'' \<and> opt_contains regular t) \<or>
     (s = ''nxt_after'' \<and> opt_contains after t))"
  using assms
  by (auto simp: kr_toss_session_for_def day_for_def split: option.splits toss_day.splits if_splits
      dest!: find_SomeD)

lemma us_session_window:
  "us_toss_session_for t calendar = Some ''regular'' \<Longrightarrow>
     \<exists>d dm pre regular after. TossUsMarketDay d dm pre regular after \<in> set calendar \<and> opt_contains regular t"
proof (induction calendar)
  case Nil
  then show ?case by simp
next
  case (Cons d ds)
  show ?case
  proof (cases "us_session_of_day t d")
    case None
    then obtain da dm pre regular after where
      "TossUsMarketDay da dm pre regular after \<in> set ds" "opt_contains regular t"
      using Cons by auto
    then show ?thesis by (meson list.set_intros(2))
  next
    case (Some s)
    then have "us_session_of_day t d = Some ''regular''" using Cons.prems by simp
    then obtain da dm pre regular after where d: "d = TossUsMarketDay da dm pre regular after"
      and "opt_contains regular t"
      by (cases d) (auto simp: us_session_of_day_def split: if_splits)
    then show ?thesis by (meson list.set_intros(1))
  qed
qed

lemma next_session_after: "next_trading_session xcal m d = Some n \<Longrightarrow> d < n \<and> is_trading_session xcal m n"
  by (auto simp: next_trading_session_def dest!: find_SomeD)

lemma next_session_first:
  assumes "next_trading_session xcal m d = Some n" and "d < x" and "x < n"
  shows "\<not> is_trading_session xcal m x"
proof
  assume x: "is_trading_session xcal m x"
  have first: "find P (map (\<lambda>k. d + k) [a..b]) = Some n \<Longrightarrow> d + a \<le> x \<Longrightarrow> x < n \<Longrightarrow> \<not> P x"
    for P a b
  proof (induction "nat (b - a + 1)" arbitrary: a)
    case 0
    then show ?case by simp
  next
    case (Suc k)
    have ab: "[a..b] = a # [a + 1..b]" using Suc.hyps(2) by (simp add: upto_rec1)
    show ?case
    proof (cases "x = d + a")
      case True
      then show ?thesis using Suc.prems ab by (auto split: if_splits)
    next
      case False
      then show ?thesis
        using Suc.hyps Suc.prems by (intro Suc.hyps(1) [of "a + 1"]) (auto simp: ab split: if_splits)
    qed
  qed
  show False using first [of "is_trading_session xcal m" 1 SESSION_SEARCH_DAYS] assms x
    by (simp add: next_trading_session_def)
qed

end
