(* ===== verification/ApprovalWindow.thy ===== *)
theory ApprovalWindow
  imports MarketSessions ProposalStore
begin

text \<open>
  The approval and submission window of a proposal (\<open>order_proposals/approval_window.py\<close>): the
  session evidence per broker and market, the decision, its binding to the advertised policy
  stamp and the re-check at the send instant. SHA-256 of the stamp material, the New York
  date, the exchange calendar, the Toss calendars and the NXT lookup are the environment.
\<close>

section \<open>Evidence and decisions\<close>

record session_evidence =
  se_known :: bool
  se_source :: string
  se_current_session :: string
  se_allowed_sessions :: "string list"
  se_allowed_now :: bool
  se_allowed_until :: "int option"
  se_next_allowed_at :: "int option"
  se_detail :: "string option"

record window_decision =
  wd_code :: approval_window_code
  wd_observed_at :: int
  wd_valid_until :: "int option"
  wd_policy_stamp :: string
  wd_market :: string
  wd_account_mode :: string
  wd_action :: string
  wd_order_type :: string
  wd_evidence :: "session_evidence option"
  wd_detail :: "string option"

record window_environment =
  we_stamp_hash :: "string \<Rightarrow> string"
  we_ny_date :: "int \<Rightarrow> int"
  we_exchange :: exchange_calendar
  we_toss_kr :: "int \<Rightarrow> toss_day list option"
  we_toss_us :: "int \<Rightarrow> toss_day list option"
  we_nxt :: "string \<Rightarrow> (unit, nxt_tradability option) result"

definition window_allowed :: "window_decision \<Rightarrow> bool" where
  "window_allowed d \<longleftrightarrow> wd_code d = ALLOW"

definition POLICY_VERSION :: string where "POLICY_VERSION = ''order-proposal-approval-window-v1''"

definition contract_action :: "order_proposal \<Rightarrow> string" where
  "contract_action grp = (if truthy (g_action grp) then the (g_action grp) else ''place'')"

definition policy_stamp :: "(string \<Rightarrow> string) \<Rightarrow> order_proposal \<Rightarrow> session_evidence option \<Rightarrow> string" where
  "policy_stamp h grp ev =
     (let allowed = (case ev of None \<Rightarrow> ''none'' | Some e \<Rightarrow> join '','' (se_allowed_sessions e));
          material = join ''|'' [POLICY_VERSION, g_account_mode grp, g_market grp, contract_action grp,
                               g_order_type grp, ''DAY'', allowed]
      in POLICY_VERSION @ '':'' @ h material)"

text \<open>The decision with the fields that every branch shares.\<close>

definition decide ::
  "order_proposal \<Rightarrow> int \<Rightarrow> approval_window_code \<Rightarrow> string \<Rightarrow> session_evidence option \<Rightarrow> string option
   \<Rightarrow> window_decision" where
  "decide grp t code stamp ev detail =
     \<lparr>wd_code = code, wd_observed_at = t, wd_valid_until = g_valid_until grp, wd_policy_stamp = stamp,
      wd_market = g_market grp, wd_account_mode = g_account_mode grp, wd_action = contract_action grp,
      wd_order_type = g_order_type grp, wd_evidence = ev, wd_detail = detail\<rparr>"

definition exempt_evidence :: "int \<Rightarrow> session_evidence" where
  "exempt_evidence valid_until =
     \<lparr>se_known = True, se_source = ''proposal_exit_intent'', se_current_session = ''exempt'',
      se_allowed_sessions = [''exit_intent_exempt''], se_allowed_now = True,
      se_allowed_until = Some valid_until, se_next_allowed_at = None,
      se_detail = Some ''protective_exit_session_calendar_exempt''\<rparr>"

definition exit_intent_window_exemption ::
  "window_environment \<Rightarrow> order_proposal \<Rightarrow> pydatetime \<Rightarrow> (window_error, window_decision option) result" where
  "exit_intent_window_exemption env grp now =
     (if \<not> truthy (g_exit_intent grp) then Inr None
      else bindR (valid_until_block (column_datetime (g_valid_until grp)) now) (\<lambda>block.
        Inr (Some (case block of
          Some (code, detail) \<Rightarrow>
            decide grp (instant now) code (policy_stamp (we_stamp_hash env) grp None) None (Some detail)
        | None \<Rightarrow>
            let ev = exempt_evidence (the (g_valid_until grp)) in
            decide grp (instant now) ALLOW (policy_stamp (we_stamp_hash env) grp (Some ev)) (Some ev)
              (Some ''exit_intent_session_calendar_exempt'')))))"

section \<open>Session resolution\<close>

definition containing_window :: "session_window list \<Rightarrow> int \<Rightarrow> session_window option" where
  "containing_window ws t = find (\<lambda>w. window_contains w t) ws"

definition next_window_start :: "session_window list \<Rightarrow> int \<Rightarrow> int option" where
  "next_window_start ws after =
     (let candidates = filter (\<lambda>s. s \<ge> after) (map sw_start ws) in
      if candidates = [] then None else Some (foldr min (tl candidates) (hd candidates)))"

definition opt_list :: "'a option \<Rightarrow> 'a list" where
  "opt_list v = (case v of None \<Rightarrow> [] | Some x \<Rightarrow> [x])"

definition toss_us_regular_windows :: "toss_day list \<Rightarrow> session_window list" where
  "toss_us_regular_windows calendar =
     sort_key sw_start (concat (map (\<lambda>d. case d of
       TossUsMarketDay _ _ _ regular _ \<Rightarrow> opt_list regular | _ \<Rightarrow> []) calendar))"

definition toss_kr_windows :: "toss_day list \<Rightarrow> bool \<Rightarrow> session_window list" where
  "toss_kr_windows calendar allow_nxt =
     sort_key sw_start (concat (map (\<lambda>d. case d of
       TossKrMarketDay _ pre regular after \<Rightarrow>
         (if allow_nxt then opt_list pre else []) @ opt_list regular @
         (if allow_nxt then opt_list after else [])
     | _ \<Rightarrow> []) calendar))"

definition session_or_closed :: "string option \<Rightarrow> string" where
  "session_or_closed s = (if truthy s then the s else ''closed'')"

text \<open>An answer that is not known allows nothing.\<close>

definition unknown_evidence :: "string \<Rightarrow> string \<Rightarrow> string list \<Rightarrow> string \<Rightarrow> session_evidence" where
  "unknown_evidence source session allowed detail =
     \<lparr>se_known = False, se_source = source, se_current_session = session, se_allowed_sessions = allowed,
      se_allowed_now = False, se_allowed_until = None, se_next_allowed_at = None, se_detail = Some detail\<rparr>"

definition resolve_toss_us_session :: "window_environment \<Rightarrow> int \<Rightarrow> session_evidence" where
  "resolve_toss_us_session env t =
     (let source = ''toss_market_calendar:us'' in
      case we_toss_us env (kst_date t) of
        None \<Rightarrow> unknown_evidence source ''unknown'' [''regular''] ''calendar_unavailable''
      | Some calendar \<Rightarrow>
          let windows = toss_us_regular_windows calendar;
              session = session_or_closed (us_toss_session_for t calendar);
              current = containing_window windows t;
              next_open = next_window_start windows (case current of Some w \<Rightarrow> sw_end w | None \<Rightarrow> t)
          in if windows = [] \<or> (session \<noteq> ''regular'' \<and> next_open = None)
             then unknown_evidence source session [''regular''] ''regular_window_unavailable''
             else \<lparr>se_known = True, se_source = source, se_current_session = session,
                   se_allowed_sessions = [''regular''], se_allowed_now = (session = ''regular''),
                   se_allowed_until = (if session = ''regular'' then map_option sw_end current else None),
                   se_next_allowed_at = next_open, se_detail = None\<rparr>)"

definition next_session_open :: "exchange_calendar \<Rightarrow> string \<Rightarrow> int \<Rightarrow> int option" where
  "next_session_open xcal market d =
     (case next_trading_session xcal market d of
        None \<Rightarrow> None
      | Some n \<Rightarrow> map_option fst (regular_session_bounds xcal market n))"

definition resolve_xnys_session :: "window_environment \<Rightarrow> int \<Rightarrow> session_evidence" where
  "resolve_xnys_session env t =
     (let source = ''exchange_calendars:XNYS'';
          d = we_ny_date env t;
          bounds = regular_session_bounds (we_exchange env) ''us'' d;
          later = next_session_open (we_exchange env) ''us'' d;
          open_now = (case bounds of Some (o1, c) \<Rightarrow> o1 \<le> t \<and> t < c | None \<Rightarrow> False)
      in if open_now
         then \<lparr>se_known = True, se_source = source, se_current_session = ''regular'',
               se_allowed_sessions = [''regular''], se_allowed_now = True,
               se_allowed_until = map_option snd bounds, se_next_allowed_at = later, se_detail = None\<rparr>
         else let next_open = (case bounds of
                    Some (o1, c) \<Rightarrow> if t < o1 then Some o1 else later
                  | None \<Rightarrow> later)
              in case next_open of
                   None \<Rightarrow> unknown_evidence source ''closed'' [''regular''] ''next_regular_window_unavailable''
                 | Some n \<Rightarrow>
                     \<lparr>se_known = True, se_source = source, se_current_session = ''closed'',
                      se_allowed_sessions = [''regular''], se_allowed_now = False,
                      se_allowed_until = None, se_next_allowed_at = Some n, se_detail = None\<rparr>)"

text \<open>The NXT capability: whether it is known, whether it holds, and the detail text.\<close>

definition nxt_capability :: "window_environment \<Rightarrow> string \<Rightarrow> int \<Rightarrow> bool \<times> bool \<times> string" where
  "nxt_capability env symbol t =
     (case we_nxt env symbol of
        Inl _ \<Rightarrow> (False, False, ''nxt_capability_lookup_failed'')
      | Inr None \<Rightarrow> (False, False, ''nxt_capability_unavailable'')
      | Inr (Some n) \<Rightarrow>
          if nxt_is_stale t n then (False, False, ''nxt_capability_stale'')
          else (True, nxt_tradable n,
                if nxt_tradable n then ''nxt_tradable''
                else if nx_suspended n = Some True then ''nxt_trading_suspended''
                else ''not_nxt_eligible''))"

definition kr_allowed_sessions :: "bool \<Rightarrow> string list" where
  "kr_allowed_sessions allow_nxt =
     (if allow_nxt then [''nxt_premarket'', ''regular'', ''nxt_after''] else [''regular''])"

definition or_next_session :: "window_environment \<Rightarrow> int \<Rightarrow> int option \<Rightarrow> int option" where
  "or_next_session env t v =
     (case v of Some x \<Rightarrow> Some x | None \<Rightarrow> next_session_open (we_exchange env) ''kr'' (kst_date t))"

definition resolve_kr_session :: "window_environment \<Rightarrow> string \<Rightarrow> int \<Rightarrow> session_evidence" where
  "resolve_kr_session env symbol t =
     (let krx_bounds = regular_session_bounds (we_exchange env) ''kr'' (kst_date t);
          in_krx_regular = (case krx_bounds of Some (o1, c) \<Rightarrow> o1 \<le> t \<and> t < c | None \<Rightarrow> False);
          calendar = we_toss_kr env (kst_date t);
          (nxt_known, nxt_ok, nxt_detail) = nxt_capability env symbol t;
          integrated = ''exchange_calendars:XKRX+toss_market_calendar:kr_integrated'';
          universe = ''toss_market_calendar:kr_integrated+kr_symbol_universe''
      in if in_krx_regular
         then let allow_nxt = (calendar \<noteq> None \<and> nxt_known \<and> nxt_ok);
                  windows = (case calendar of None \<Rightarrow> [] | Some c \<Rightarrow> toss_kr_windows c allow_nxt);
                  current = containing_window windows t;
                  after = (case current of Some w \<Rightarrow> sw_end w | None \<Rightarrow> snd (the krx_bounds))
              in \<lparr>se_known = True, se_source = ''exchange_calendars:XKRX+toss_nxt_capability'',
                  se_current_session = ''regular'', se_allowed_sessions = kr_allowed_sessions allow_nxt,
                  se_allowed_now = True, se_allowed_until = map_option snd krx_bounds,
                  se_next_allowed_at = or_next_session env t (next_window_start windows after),
                  se_detail = Some nxt_detail\<rparr>
         else case calendar of
           None \<Rightarrow> unknown_evidence integrated ''unknown'' [''regular''] ''integrated_calendar_unavailable''
         | Some c \<Rightarrow>
             let session = session_or_closed (kr_toss_session_for t c) in
             if session = ''regular''
             then unknown_evidence integrated session [''regular''] ''regular_calendar_disagreement''
             else if session \<in> NXT_SESSIONS \<and> \<not> nxt_known
             then unknown_evidence universe session [''regular''] nxt_detail
             else let allow_nxt = (nxt_known \<and> nxt_ok);
                      allowed_sessions = kr_allowed_sessions allow_nxt;
                      allowed_now = (session \<in> set allowed_sessions);
                      windows = toss_kr_windows c allow_nxt;
                      current = (if allowed_now then containing_window windows t else None);
                      next_open = or_next_session env t
                        (next_window_start windows (case current of Some w \<Rightarrow> sw_end w | None \<Rightarrow> t))
                  in if \<not> allowed_now \<and> next_open = None
                     then unknown_evidence universe session allowed_sessions ''next_allowed_window_unavailable''
                     else \<lparr>se_known = True, se_source = universe, se_current_session = session,
                           se_allowed_sessions = allowed_sessions, se_allowed_now = allowed_now,
                           se_allowed_until = map_option sw_end current,
                           se_next_allowed_at = next_open, se_detail = Some nxt_detail\<rparr>)"

definition resolve_submission_session :: "window_environment \<Rightarrow> order_proposal \<Rightarrow> int \<Rightarrow> session_evidence" where
  "resolve_submission_session env grp t =
     (let market = g_market grp; account_mode = g_account_mode grp in
      if market = ''crypto'' \<and> account_mode = ''upbit''
      then \<lparr>se_known = True, se_source = ''crypto:24x7'', se_current_session = ''24x7'',
            se_allowed_sessions = [''24x7''], se_allowed_now = True, se_allowed_until = None,
            se_next_allowed_at = None, se_detail = None\<rparr>
      else if market = ''equity_us'' \<and> account_mode = ''toss_live'' then resolve_toss_us_session env t
      else if market = ''equity_us'' \<and> account_mode = ''kis_live'' then resolve_xnys_session env t
      else if market = ''equity_kr'' \<and> account_mode \<in> {''kis_live'', ''toss_live''}
      then resolve_kr_session env (g_symbol grp) t
      else unknown_evidence ''unsupported_submission_contract'' ''unknown'' []
             (''unsupported:'' @ account_mode @ ''/'' @ market))"

section \<open>The decision\<close>

text \<open>The resolver raises the name of its exception, or returns evidence.\<close>

type_synonym session_resolver = "order_proposal \<Rightarrow> int \<Rightarrow> (string, session_evidence) result"

definition resolver_evidence :: "(string, session_evidence) result \<Rightarrow> session_evidence" where
  "resolver_evidence r = (case r of
     Inr ev \<Rightarrow> ev
   | Inl e \<Rightarrow> unknown_evidence ''session_resolver'' ''unknown'' [] (''resolver_error:'' @ e))"

definition decide_by_evidence ::
  "window_environment \<Rightarrow> order_proposal \<Rightarrow> int \<Rightarrow> int \<Rightarrow> session_evidence \<Rightarrow> window_decision" where
  "decide_by_evidence env grp t valid_until ev =
     (let stamp = policy_stamp (we_stamp_hash env) grp (Some ev) in
      if \<not> se_known ev
      then decide grp t CALENDAR_UNKNOWN stamp (Some ev)
             (Some (if truthy (se_detail ev) then the (se_detail ev) else ''session_evidence_unknown''))
      else if se_allowed_now ev then decide grp t ALLOW stamp (Some ev) None
      else if (case se_next_allowed_at ev of None \<Rightarrow> False | Some n \<Rightarrow> n \<ge> valid_until)
      then decide grp t NO_EXECUTABLE_WINDOW stamp (Some ev) (Some ''valid_until_not_after_next_allowed_session'')
      else decide grp t DEFER_SESSION_CLOSED stamp (Some ev) (Some ''submission_session_closed''))"

definition evaluate_approval_window ::
  "window_environment \<Rightarrow> session_resolver \<Rightarrow> order_proposal \<Rightarrow> pydatetime
   \<Rightarrow> (window_error, window_decision) result" where
  "evaluate_approval_window env resolver grp now =
     bindR (require (aware now) WindowNowNaive) (\<lambda>_.
     bindR (exit_intent_window_exemption env grp now) (\<lambda>exempt.
       case exempt of
         Some d \<Rightarrow> Inr d
       | None \<Rightarrow>
           bindR (valid_until_block (column_datetime (g_valid_until grp)) now) (\<lambda>block.
             case block of
               Some (code, detail) \<Rightarrow>
                 Inr (decide grp (instant now) code (policy_stamp (we_stamp_hash env) grp None) None (Some detail))
             | None \<Rightarrow>
                 Inr (decide_by_evidence env grp (instant now) (the (g_valid_until grp))
                        (resolver_evidence (resolver grp (instant now)))))))"

definition bind_approval_window_policy :: "window_decision \<Rightarrow> string option \<Rightarrow> window_decision" where
  "bind_approval_window_policy d expected =
     (if wd_code d \<in> {EXPIRED, INVALID_VALID_UNTIL} then d
      else if expected = Some (wd_policy_stamp d) then d
      else d\<lparr>wd_code := CALENDAR_UNKNOWN,
             wd_detail := Some (case expected of
               None \<Rightarrow> ''approval_window_policy_stamp_missing''
             | Some s \<Rightarrow> ''approval_window_policy_stamp_mismatch:expected='' @ s @ '':actual='' @ wd_policy_stamp d)\<rparr>)"

definition closed_evidence :: "session_evidence \<Rightarrow> session_evidence" where
  "closed_evidence ev = ev\<lparr>se_current_session := ''closed'', se_allowed_now := False, se_allowed_until := None\<rparr>"

text \<open>The re-check of an allowing decision at the instant \<open>t\<close> of an unexpired proposal.\<close>

definition recheck_allowed :: "window_decision \<Rightarrow> int \<Rightarrow> int \<Rightarrow> window_decision" where
  "recheck_allowed d t valid_until =
     (case wd_evidence d of
        None \<Rightarrow> d\<lparr>wd_code := CALENDAR_UNKNOWN, wd_observed_at := t,
                  wd_detail := Some ''session_evidence_missing_at_completion''\<rparr>
      | Some ev \<Rightarrow>
          if \<not> se_known ev
          then d\<lparr>wd_code := CALENDAR_UNKNOWN, wd_observed_at := t,
                 wd_detail := Some ''session_evidence_missing_at_completion''\<rparr>
          else if se_allowed_sessions ev = [''24x7''] then d\<lparr>wd_observed_at := t\<rparr>
          else case se_allowed_until ev of
            None \<Rightarrow> d\<lparr>wd_code := CALENDAR_UNKNOWN, wd_observed_at := t,
                      wd_evidence := Some (ev\<lparr>se_current_session := ''unknown'', se_allowed_now := False\<rparr>),
                      wd_detail := Some ''allowed_interval_end_missing''\<rparr>
          | Some until \<Rightarrow>
              if t < until then d\<lparr>wd_observed_at := t\<rparr>
              else let closed = d\<lparr>wd_observed_at := t, wd_evidence := Some (closed_evidence ev)\<rparr> in
                case se_next_allowed_at ev of
                  None \<Rightarrow> closed\<lparr>wd_code := CALENDAR_UNKNOWN,
                            wd_detail := Some ''next_allowed_window_stale_or_unavailable''\<rparr>
                | Some n \<Rightarrow>
                    if n \<le> t
                    then closed\<lparr>wd_code := CALENDAR_UNKNOWN,
                           wd_detail := Some ''next_allowed_window_stale_or_unavailable''\<rparr>
                    else if n \<ge> valid_until
                    then closed\<lparr>wd_code := NO_EXECUTABLE_WINDOW,
                           wd_detail := Some ''valid_until_not_after_next_allowed_session''\<rparr>
                    else closed\<lparr>wd_code := DEFER_SESSION_CLOSED,
                           wd_detail := Some ''submission_session_closed_during_evaluation''\<rparr>)"

definition recheck_approval_window_decision ::
  "order_proposal \<Rightarrow> window_decision \<Rightarrow> pydatetime \<Rightarrow> (window_error, window_decision) result" where
  "recheck_approval_window_decision grp d now =
     bindR (valid_until_block (column_datetime (g_valid_until grp)) now) (\<lambda>block.
       Inr (case block of
         Some (code, detail) \<Rightarrow>
           d\<lparr>wd_code := code, wd_observed_at := instant now, wd_valid_until := g_valid_until grp,
             wd_detail := Some detail\<rparr>
       | None \<Rightarrow>
           if \<not> window_allowed d then d\<lparr>wd_observed_at := instant now\<rparr>
           else recheck_allowed d (instant now) (the (g_valid_until grp))))"

text \<open>\<open>now1\<close> and \<open>now2\<close> are the readings of the clock before and after the awaited evaluation.\<close>

definition evaluate_approval_window_boundary ::
  "window_environment \<Rightarrow> (order_proposal \<Rightarrow> pydatetime \<Rightarrow> (window_error, window_decision) result)
   \<Rightarrow> string option \<Rightarrow> bool \<Rightarrow> order_proposal \<Rightarrow> pydatetime \<Rightarrow> pydatetime
   \<Rightarrow> (window_error, window_decision) result" where
  "evaluate_approval_window_boundary env evaluator expected require_stamp grp now1 now2 =
     bindR (exit_intent_window_exemption env grp now1) (\<lambda>exempt.
       case exempt of
         Some d \<Rightarrow> recheck_approval_window_decision grp d now2
       | None \<Rightarrow>
           bindR (evaluator grp now1) (\<lambda>d.
             recheck_approval_window_decision grp
               (if require_stamp then bind_approval_window_policy d expected else d) now2))"

definition approval_window_rung_result :: "window_decision \<Rightarrow> string option" where
  "approval_window_rung_result d = (case wd_code d of
     EXPIRED \<Rightarrow> Some ''expired''
   | INVALID_VALID_UNTIL \<Rightarrow> Some ''invalid_valid_until''
   | DEFER_SESSION_CLOSED \<Rightarrow> Some ''defer_session_closed''
   | CALENDAR_UNKNOWN \<Rightarrow> Some ''calendar_unknown''
   | NO_EXECUTABLE_WINDOW \<Rightarrow> Some ''no_executable_window''
   | ALLOW \<Rightarrow> None)"

end
