(* ===== verification/BuyingPower.thy ===== *)
theory BuyingPower
  imports ProposalStore
begin

text \<open>
  Buying power (\<open>order_proposals/buying_power.py\<close>): the process-local cache of one account with
  its provisional claims, the cash an order needs and the advisory of a new proposal. Cash amounts
  are exact rationals (the decimal context keeps 28 digits); the clock is the monotonic clock of
  the process in seconds. Texts and the default broker readers are left out.
\<close>

section \<open>The cache of one account\<close>

record buying_power_cell =
  bp_entry :: "(rat \<times> rat) option"
  bp_claims :: "(string \<times> rat \<times> rat) list"

definition empty_cell :: buying_power_cell where
  "empty_cell = \<lparr>bp_entry = None, bp_claims = []\<rparr>"

text \<open>\<open>_active_claim_total\<close> drops the expired claims and sums the others.\<close>

definition drop_expired :: "rat \<Rightarrow> buying_power_cell \<Rightarrow> buying_power_cell" where
  "drop_expired now c = c\<lparr>bp_claims := filter (\<lambda>(_, expires_at, _). \<not> expires_at \<le> now) (bp_claims c)\<rparr>"

definition claim_total :: "buying_power_cell \<Rightarrow> rat" where
  "claim_total c = sum_list (map (\<lambda>(_, _, amount). amount) (bp_claims c))"

definition fresh_entry :: "buying_power_cell \<Rightarrow> rat \<Rightarrow> (rat \<times> rat) option" where
  "fresh_entry c now = (case bp_entry c of
     None \<Rightarrow> None | Some (expires_at, v) \<Rightarrow> if expires_at > now then Some (expires_at, v) else None)"

text \<open>The loader answers with a value or raises; the clock is read again after it.\<close>

record load_answer =
  la_value :: "(string, rat) result"
  la_now :: rat

definition get_or_load ::
  "rat \<Rightarrow> rat \<Rightarrow> load_answer \<Rightarrow> buying_power_cell \<Rightarrow> buying_power_cell \<times> (string, rat) result" where
  "get_or_load ttl now load c =
     (case fresh_entry c now of
        Some (_, v) \<Rightarrow> let c1 = drop_expired now c in (c1, Inr (max (v - claim_total c1) 0))
      | None \<Rightarrow>
          (case la_value load of
             Inl e \<Rightarrow> (c, Inl e)
           | Inr v \<Rightarrow>
               let c1 = drop_expired (la_now load) (c\<lparr>bp_entry := Some (la_now load + ttl, v)\<rparr>)
               in (c1, Inr (max (v - claim_total c1) 0))))"

record buying_power_claim =
  cl_available :: rat
  cl_token :: "string option"

text \<open>The instant a claim is made at and the entry it is made against.\<close>

definition claim_entry ::
  "rat \<Rightarrow> rat \<Rightarrow> load_answer \<Rightarrow> buying_power_cell \<Rightarrow> (string, rat \<times> rat \<times> buying_power_cell) result" where
  "claim_entry ttl now load c =
     (case fresh_entry c now of
        Some (_, v) \<Rightarrow> Inr (now, v, c)
      | None \<Rightarrow>
          (case la_value load of
             Inl e \<Rightarrow> Inl e
           | Inr v \<Rightarrow> Inr (la_now load, v, c\<lparr>bp_entry := Some (la_now load + ttl, v)\<rparr>)))"

definition claim ::
  "rat \<Rightarrow> rat \<Rightarrow> rat \<Rightarrow> load_answer \<Rightarrow> string \<Rightarrow> buying_power_cell
   \<Rightarrow> buying_power_cell \<times> (string, buying_power_claim) result" where
  "claim ttl now amount load token c =
     (case claim_entry ttl now load c of
        Inl e \<Rightarrow> (c, Inl e)
      | Inr (t, v, c0) \<Rightarrow>
          let c1 = drop_expired t c0;
              available = max (v - claim_total c1) 0
          in if available \<ge> amount
             then (c1\<lparr>bp_claims := bp_claims c1 @ [(token, t + ttl, amount)]\<rparr>,
                   Inr \<lparr>cl_available = available, cl_token = Some token\<rparr>)
             else (c1, Inr \<lparr>cl_available = available, cl_token = None\<rparr>))"

definition release :: "rat \<Rightarrow> string \<Rightarrow> buying_power_cell \<Rightarrow> buying_power_cell" where
  "release now token c =
     (let c1 = drop_expired now c in c1\<lparr>bp_claims := filter (\<lambda>(k, _, _). k \<noteq> token) (bp_claims c1)\<rparr>)"

section \<open>Cash of an order\<close>

definition currency_for_market :: "string \<Rightarrow> string option" where
  "currency_for_market market =
     (if market = ''equity_kr'' then Some ''KRW'' else if market = ''equity_us'' then Some ''USD''
      else if market = ''crypto'' then Some ''KRW'' else None)"

definition required_cash :: "rat \<Rightarrow> rat \<Rightarrow> rat option \<Rightarrow> rat option \<Rightarrow> rat" where
  "required_cash quantity limit_price estimated_value fee =
     (case estimated_value of None \<Rightarrow> quantity * limit_price | Some v \<Rightarrow> v) +
     (case fee of None \<Rightarrow> 0 | Some f \<Rightarrow> f)"

section \<open>The advisory of a new proposal\<close>

definition markets_for_currency :: "string \<Rightarrow> string set" where
  "markets_for_currency currency =
     (if currency = ''KRW'' then {''equity_kr'', ''crypto''}
      else if currency = ''USD'' then {''equity_us''} else {})"

definition counts_as_pending ::
  "string \<Rightarrow> string option \<Rightarrow> string \<Rightarrow> int \<Rightarrow> order_proposal \<Rightarrow> rung \<Rightarrow> bool" where
  "counts_as_pending account_mode broker_account_id currency t g r \<longleftrightarrow>
     g_id g = r_proposal_pk r \<and> g_account_mode g = account_mode \<and> g_broker_account_id g = broker_account_id \<and>
     g_market g \<in> markets_for_currency currency \<and> g_action g = Some ''place'' \<and>
     r_state r = PendingApproval \<and> r_side r = ''buy'' \<and>
     (case g_valid_until g of None \<Rightarrow> True | Some v \<Rightarrow> v > t)"

definition pending_buy_requirement ::
  "store \<Rightarrow> string \<Rightarrow> string option \<Rightarrow> string \<Rightarrow> int \<Rightarrow> rat \<times> nat" where
  "pending_buy_requirement s account_mode broker_account_id currency t =
     (if markets_for_currency currency = {} then (0, 0)
      else let rungs = filter (\<lambda>r. \<exists>g \<in> set (db_groups s).
                 counts_as_pending account_mode broker_account_id currency t g r) (db_rungs s)
        in (sum_list (map (\<lambda>r. case r_limit_price r of None \<Rightarrow> 0 | Some p \<Rightarrow> r_quantity r * p) rungs),
            length (filter (\<lambda>r. r_limit_price r = None) rungs)))"

datatype advisory_status = Unavailable | Sufficient | Insufficient

record create_advisory =
  ad_status :: advisory_status
  ad_currency :: string
  ad_buying_power :: "rat option"
  ad_pending_required :: rat
  ad_shortfall :: "rat option"
  ad_skipped_market_rungs :: nat

text \<open>The reader raises, knows nothing (\<open>None\<close>) or answers.\<close>

definition build_create_advisory ::
  "store \<Rightarrow> string \<Rightarrow> string option \<Rightarrow> string \<Rightarrow> int \<Rightarrow> (string, rat option) result \<Rightarrow> create_advisory" where
  "build_create_advisory s account_mode broker_account_id currency t reader =
     (let (required, skipped) = pending_buy_requirement s account_mode broker_account_id currency t in
      case (case reader of Inl _ \<Rightarrow> None | Inr v \<Rightarrow> v) of
        None \<Rightarrow> \<lparr>ad_status = Unavailable, ad_currency = currency, ad_buying_power = None,
                ad_pending_required = required, ad_shortfall = None, ad_skipped_market_rungs = skipped\<rparr>
      | Some available \<Rightarrow>
          let shortfall = max (required - available) 0 in
          \<lparr>ad_status = (if shortfall > 0 then Insufficient else Sufficient), ad_currency = currency,
           ad_buying_power = Some available, ad_pending_required = required,
           ad_shortfall = Some shortfall, ad_skipped_market_rungs = skipped\<rparr>)"

section \<open>Runs of the cache\<close>

datatype cell_op = GetOrLoad load_answer | Claim rat load_answer string | Release string

text \<open>An operation at a time, with the claims it grants and the tokens it gives back.\<close>

definition grants :: "rat \<Rightarrow> cell_op \<times> rat \<Rightarrow> buying_power_cell \<Rightarrow> (string \<times> rat) list" where
  "grants ttl opt c = (case opt of
     (Claim amount load token, now) \<Rightarrow>
       (case snd (claim ttl now amount load token c) of
          Inr cl \<Rightarrow> (case cl_token cl of Some k \<Rightarrow> [(k, amount)] | None \<Rightarrow> []) | Inl _ \<Rightarrow> [])
   | _ \<Rightarrow> [])"

definition cell_step :: "rat \<Rightarrow> cell_op \<times> rat \<Rightarrow> buying_power_cell \<Rightarrow> buying_power_cell" where
  "cell_step ttl opt c = (case opt of
     (GetOrLoad load, now) \<Rightarrow> fst (get_or_load ttl now load c)
   | (Claim amount load token, now) \<Rightarrow> fst (claim ttl now amount load token c)
   | (Release token, now) \<Rightarrow> release now token c)"

text \<open>What was granted and not given back, along a run.\<close>

fun outstanding :: "rat \<Rightarrow> (string \<times> rat) list \<Rightarrow> (cell_op \<times> rat) list \<Rightarrow> buying_power_cell \<Rightarrow> (string \<times> rat) list" where
  "outstanding ttl held [] c = held"
| "outstanding ttl held (x # ops) c =
     outstanding ttl
       (case fst x of Release token \<Rightarrow> filter (\<lambda>(k, _). k \<noteq> token) held | _ \<Rightarrow> held @ grants ttl x c)
       ops (cell_step ttl x c)"

definition cell_run :: "rat \<Rightarrow> (cell_op \<times> rat) list \<Rightarrow> buying_power_cell \<Rightarrow> buying_power_cell" where
  "cell_run ttl ops c = fold (cell_step ttl) ops c"

section \<open>Lemmas\<close>

definition since :: "rat \<Rightarrow> buying_power_cell \<Rightarrow> (string \<times> rat) list" where
  "since e c = map (\<lambda>(k, _, a). (k, a)) (filter (\<lambda>(_, x, _). e \<le> x) (bp_claims c))"

definition sound_cell :: "rat \<Rightarrow> rat \<Rightarrow> buying_power_cell \<Rightarrow> bool" where
  "sound_cell e v c \<longleftrightarrow> bp_entry c = Some (e, v) \<and> (\<forall>(_, _, a) \<in> set (bp_claims c). 0 \<le> a) \<and>
     sum_list (map snd (since e c)) \<le> max v 0"

lemma since_le_total:
  assumes "\<forall>(_, _, a) \<in> set (bp_claims c). 0 \<le> a"
  shows "sum_list (map snd (since e c)) \<le> claim_total c"
proof -
  have "\<forall>(_, _, a) \<in> set cs. (0 :: rat) \<le> a \<Longrightarrow>
      sum_list (map snd (map (\<lambda>(k, _, a). (k, a)) (filter (\<lambda>(_, x, _). e \<le> x) cs))) \<le>
      sum_list (map (\<lambda>(_, _, a). a) cs)" for cs :: "(string \<times> rat \<times> rat) list"
    by (induction cs) (auto intro: add_mono)
  then show ?thesis using assms by (simp add: since_def claim_total_def)
qed

lemma since_drop: "now < e \<Longrightarrow> since e (drop_expired now c) = since e c"
  by (auto simp: since_def drop_expired_def intro!: arg_cong [of _ _ "map _"] filter_cong)

lemma sound_drop: "now < e \<Longrightarrow> sound_cell e v c \<Longrightarrow> sound_cell e v (drop_expired now c)"
  by (auto simp: sound_cell_def since_drop) (auto simp: drop_expired_def)

lemma since_release:
  assumes "now < e"
  shows "since e (release now token c) = filter (\<lambda>(k, _). k \<noteq> token) (since e c)"
proof -
  have "map (\<lambda>(k, _, a). (k, a)) (filter (\<lambda>(_, x, _). e \<le> x) (filter (\<lambda>(k, _, _). k \<noteq> token) cs)) =
      filter (\<lambda>(k, _). k \<noteq> token) (map (\<lambda>(k, _, a). (k, a)) (filter (\<lambda>(_, x, _). e \<le> x) cs))"
    for cs :: "(string \<times> rat \<times> rat) list"
    by (induction cs) auto
  moreover have "bp_claims (release now token c) = filter (\<lambda>(k, _, _). k \<noteq> token) (bp_claims (drop_expired now c))"
    by (simp add: release_def Let_def)
  ultimately have "since e (release now token c) = filter (\<lambda>(k, _). k \<noteq> token) (since e (drop_expired now c))"
    by (simp only: since_def)
  then show ?thesis by (simp only: since_drop [OF assms])
qed

lemma filtered_sum_le:
  assumes "\<forall>(_, a) \<in> set xs. (0 :: rat) \<le> a"
  shows "sum_list (map snd (filter P xs)) \<le> sum_list (map snd xs)"
  using assms by (induction xs) (auto intro: add_increasing add_mono)

lemma claim_sound:
  assumes s: "sound_cell e v c" and t: "e - ttl \<le> now" "now < e" and a: "0 \<le> amount"
    and c': "c' = fst (claim ttl now amount load token c)"
  shows "sound_cell e v c' \<and> since e c' = since e c @ grants ttl (Claim amount load token, now) c"
proof -
  let ?c1 = "drop_expired now c"
  have s1: "sound_cell e v ?c1" "since e ?c1 = since e c" using sound_drop [OF t(2) s] since_drop [OF t(2)] by auto
  have entry: "claim_entry ttl now load c = Inr (now, v, c)"
    using s t(2) by (simp add: claim_entry_def fresh_entry_def sound_cell_def)
  show ?thesis
  proof (cases "max (v - claim_total ?c1) 0 \<ge> amount")
    case False
    then show ?thesis using s1 by (simp add: c' claim_def entry Let_def grants_def)
  next
    case True
    let ?c2 = "?c1\<lparr>bp_claims := bp_claims ?c1 @ [(token, now + ttl, amount)]\<rparr>"
    have since2: "since e ?c2 = since e c @ [(token, amount)]"
      using t(1) s1(2) by (auto simp: since_def)
    have "sum_list (map snd (since e ?c1)) \<le> claim_total ?c1"
      using s1(1) by (intro since_le_total) (simp add: sound_cell_def)
    then have "sum_list (map snd (since e c)) + amount \<le> max v 0"
      using True s1 a s by (auto simp: sound_cell_def max_def split: if_splits)
    then have "sound_cell e v ?c2" using s1(1) a since2 by (auto simp: sound_cell_def)
    then show ?thesis using since2 True by (simp add: c' claim_def entry Let_def grants_def)
  qed
qed

lemma outstanding_sound:
  assumes "sound_cell e v c" and "\<forall>(x, now) \<in> set ops. e - ttl \<le> now \<and> now < e"
    and "\<forall>amount load token now. (Claim amount load token, now) \<in> set ops \<longrightarrow> 0 \<le> amount"
  shows "sound_cell e v (cell_run ttl ops c) \<and> outstanding ttl (since e c) ops c = since e (cell_run ttl ops c)"
  using assms
proof (induction ops arbitrary: c)
  case Nil
  then show ?case by (simp add: cell_run_def)
next
  case (Cons y ops)
  obtain x now where y: "y = (x, now)" by (cases y)
  have t: "e - ttl \<le> now" "now < e" using Cons.prems(2) y by auto
  have step: "sound_cell e v (cell_step ttl y c) \<and> since e (cell_step ttl y c) =
      (case x of Release token \<Rightarrow> filter (\<lambda>(k, _). k \<noteq> token) (since e c) | _ \<Rightarrow> since e c @ grants ttl y c)"
  proof (cases x)
    case (GetOrLoad load)
    have "fresh_entry c now = Some (e, v)" using Cons.prems(1) t(2) by (simp add: fresh_entry_def sound_cell_def)
    then show ?thesis
      using sound_drop [OF t(2) Cons.prems(1)] since_drop [OF t(2)]
      by (simp add: y GetOrLoad cell_step_def get_or_load_def Let_def grants_def)
  next
    case (Claim amount load token)
    then show ?thesis
      using claim_sound [OF Cons.prems(1) t _ refl, of amount load token] Cons.prems(3)
      by (auto simp: y cell_step_def)
  next
    case (Release token)
    have pos: "\<forall>(_, a) \<in> set (since e c). 0 \<le> a" using Cons.prems(1) by (auto simp: sound_cell_def since_def)
    have "sound_cell e v (release now token c)"
      using Cons.prems(1) since_release [OF t(2), of token c] filtered_sum_le [OF pos, of "\<lambda>(k, _). k \<noteq> token"]
      by (auto simp: sound_cell_def release_def drop_expired_def)
    then show ?thesis using since_release [OF t(2)] by (simp add: y Release cell_step_def)
  qed
  have "sound_cell e v (cell_run ttl ops (cell_step ttl y c)) \<and>
      outstanding ttl (since e (cell_step ttl y c)) ops (cell_step ttl y c) = since e (cell_run ttl ops (cell_step ttl y c))"
    using Cons.prems(2,3) step by (intro Cons.IH) auto
  then show ?case using step by (cases x) (simp_all add: y cell_run_def)
qed

text \<open>
  C37: Against one observation of the balance the cache never promises more than it: while the
  observation is fresh, whatever reads, claims and releases come, the claims granted since it and
  not given back sum to at most the observed balance, even though older claims run out meanwhile.
\<close>

theorem claims_never_overcommit:
  assumes "bp_entry c = Some (e, v)" and "\<forall>(k, x, a) \<in> set (bp_claims c). x < e \<and> 0 \<le> a"
    and "\<forall>(x, now) \<in> set ops. e - ttl \<le> now \<and> now < e"
    and "\<forall>amount load token now. (Claim amount load token, now) \<in> set ops \<longrightarrow> 0 \<le> amount"
  shows "sum_list (map snd (outstanding ttl [] ops c)) \<le> max v 0"
proof -
  have empty: "since e c = []" using assms(2) by (auto simp: since_def filter_empty_conv)
  then have "sound_cell e v c" using assms(1,2) by (auto simp: sound_cell_def)
  from outstanding_sound [OF this assms(3,4)] empty
  have "sound_cell e v (cell_run ttl ops c)" "outstanding ttl [] ops c = since e (cell_run ttl ops c)" by simp_all
  then show ?thesis unfolding sound_cell_def by simp
qed

definition sample_load :: load_answer where "sample_load = \<lparr>la_value = Inr 100, la_now = 10\<rparr>"

definition sample_claims :: "(cell_op \<times> rat) list" where
  "sample_claims = [(Claim 60 sample_load ''a'', 10), (Claim 60 sample_load ''b'', 10), (Release ''a'', 21/2),
     (Claim 70 sample_load ''c'', 21/2), (GetOrLoad sample_load, 21/2)]"

lemma claims_never_overcommit_witness:
  "outstanding 1 [] sample_claims \<lparr>bp_entry = Some (11, 100), bp_claims = []\<rparr> = [(''c'', 70)] \<and>
   sum_list (map snd (outstanding 1 [] sample_claims \<lparr>bp_entry = Some (11, 100), bp_claims = []\<rparr>)) \<le> max 100 0"
proof
  show "outstanding 1 [] sample_claims \<lparr>bp_entry = Some (11, 100), bp_claims = []\<rparr> = [(''c'', 70)]" by code_simp
  show "sum_list (map snd (outstanding 1 [] sample_claims \<lparr>bp_entry = Some (11, 100), bp_claims = []\<rparr>)) \<le> max 100 0"
    by (rule claims_never_overcommit [where e = 11]) (auto simp: sample_claims_def)
qed

end
