(* ===== verification/Revalidation.thy ===== *)
theory Revalidation
  imports ProposalCreate ProposalEvidence ApprovalService ApprovalWindow BuyingPower
begin

text \<open>
  The click-time orchestrator \<open>order_proposals/revalidation.py\<close>: fresh preview, comparison with
  what was approved, window gates, submission and classification of the answer, for the place,
  replace and cancel actions. Everything awaited (previews, gates, claims, broker calls, clock
  readings) is an answer handed to the definitions; the store threads through the service calls;
  the broker mutations and the claims an execution performs are its list of events.
\<close>

section \<open>Answers of the outside world\<close>

text \<open>One evaluation of the window boundary: two clock readings and what the session resolver says.\<close>

record window_reading =
  wr_env :: window_environment
  wr_session :: "(string, session_evidence) result"
  wr_now1 :: int
  wr_now2 :: int

record toss_payload =
  tp_client_order_id :: "string option"
  tp_quantity :: "string option"
  tp_price :: "string option"

text \<open>
  A dry-run preview: \<open>success\<close> is \<open>True\<close>, \<open>False\<close> or anything else (\<open>None\<close>); prices and
  quantities are the texts of their values.
\<close>

record preview_answer =
  pv_success :: "bool option"
  pv_insufficient_balance :: bool
  pv_violations :: bool
  pv_error_code :: string
  pv_error :: "string option"
  pv_price :: "string option"
  pv_quantity :: "string option"
  pv_approval_hash :: "string option"
  pv_idempotency_key :: "string option"
  pv_estimated_value :: "rat option"
  pv_fee :: "rat option"
  pv_payload :: "toss_payload option"

record submit_answer =
  sb_success :: "bool option"
  sb_status :: "string option"
  sb_broker_order_id :: "string option"
  sb_error :: "string option"
  sb_correlation_id :: "string option"
  sb_idempotency_key :: "string option"
  sb_digest :: "string option"

datatype evidence_outcome = EvidenceFound | EvidenceAbsent | EvidenceUnknown

record submit_evidence =
  se_outcome :: evidence_outcome
  se_order_id :: string
  se_state :: string
  se_reason :: "string option"

datatype gate_answer = GateDecision bool string | GateFailed string

text \<open>What leaves the process on the way, in order.\<close>

datatype submit_event =
    LivePost window_decision
  | CancelPost window_decision
  | ClaimTaken
  | ClaimReleased

section \<open>Outcomes\<close>

datatype outcome_result =
    SubmittedAcked | SubmittedResting | OutcomeReconfirm | GuardBlocked | OutcomeUnverified
  | OutcomeError | OutcomeCancelled | ApprovalRequired | OutcomeWindow string

datatype outcome_detail =
    DetailError "string option"
  | DetailReason string
  | DetailBlock block_reason
  | DetailWindow window_decision string
  | DetailDiff "string option \<times> string option" "string option \<times> string option"
  | DetailShortfall string rat rat
  | DetailSubmit submit_answer
  | NoDetail

record rung_outcome =
  ro_rung_index :: int
  ro_result :: outcome_result
  ro_detail :: outcome_detail

type_synonym 'a submit_result = "(svc_error, store \<times> 'a \<times> submit_event list) result"

definition finished :: "int \<Rightarrow> outcome_result \<Rightarrow> outcome_detail \<Rightarrow> submit_event list \<Rightarrow> store \<Rightarrow> rung_outcome submit_result" where
  "finished i res detail events s = Inr (s, \<lparr>ro_rung_index = i, ro_result = res, ro_detail = detail\<rparr>, events)"

text \<open>A service call whose result is dropped, and one that ends the rung.\<close>

definition back_to_pending :: "order_proposal \<Rightarrow> int \<Rightarrow> store \<Rightarrow> (svc_error, store \<times> rung) result" where
  "back_to_pending grp i s = transition_rung (g_proposal_id grp) i PendingApproval id s"

definition ends_with ::
  "(svc_error, store \<times> rung) result \<Rightarrow> int \<Rightarrow> outcome_result \<Rightarrow> outcome_detail \<Rightarrow> submit_event list
   \<Rightarrow> rung_outcome submit_result" where
  "ends_with m i res detail events = bindR m (\<lambda>(s, _). finished i res detail events s)"

section \<open>Window gates\<close>

definition window_at :: "order_proposal \<Rightarrow> string option \<Rightarrow> window_reading \<Rightarrow> (svc_error, window_decision) result" where
  "window_at grp policy w =
     map_error (\<lambda>_. NaiveDatetime)
       (evaluate_approval_window_boundary (wr_env w)
          (evaluate_approval_window (wr_env w) (\<lambda>_ _. wr_session w)) policy True grp
          (Aware (wr_now1 w)) (Aware (wr_now2 w)))"

text \<open>The result of a blocked rung and the code in its detail.\<close>

definition window_text :: "window_decision \<Rightarrow> string" where
  "window_text d = (case approval_window_rung_result d of None \<Rightarrow> ''allow'' | Some t \<Rightarrow> t)"

definition window_detail :: "window_decision \<Rightarrow> outcome_detail" where
  "window_detail d = DetailWindow d (window_code_value (wd_code d))"

text \<open>The ORM row of the rung is the row of the store.\<close>

definition rung_row :: "order_proposal \<Rightarrow> int \<Rightarrow> store \<Rightarrow> rung option" where
  "rung_row grp i s = find (\<lambda>r. r_rung_index r = i) (list_rungs s (g_id grp))"

definition in_flight :: "rung_state set" where "in_flight = {Revalidating, Approved, Submitting}"

definition converge_window_block ::
  "order_proposal \<Rightarrow> int \<Rightarrow> window_decision \<Rightarrow> pydatetime \<Rightarrow> bool \<Rightarrow> submit_event list \<Rightarrow> store
   \<Rightarrow> rung_outcome submit_result" where
  "converge_window_block grp i d now restore_pre_send_state events s =
     (let expired = (wd_code d = EXPIRED);
          state_in_flight = (case rung_row grp i s of None \<Rightarrow> False | Some r \<Rightarrow> r_state r \<in> in_flight);
          done = (\<lambda>s'. finished i (OutcomeWindow (window_text d)) (window_detail d) events s')
      in if restore_pre_send_state \<and> state_in_flight
         then bindR (restore_rung_after_pre_send_block (g_proposal_id grp) i now expired s) (\<lambda>(s', _). done s')
         else if expired
         then bindR (expire_rung_if_needed (g_proposal_id grp) i now s) (\<lambda>(s', _). done s')
         else done s)"

text \<open>A gate either lets the rung go on, or ends it.\<close>

definition pre_mutation_window_gate ::
  "order_proposal \<Rightarrow> int \<Rightarrow> string \<Rightarrow> window_reading \<Rightarrow> submit_event list \<Rightarrow> (unit \<Rightarrow> rung_outcome submit_result)
   \<Rightarrow> store \<Rightarrow> rung_outcome submit_result" where
  "pre_mutation_window_gate grp i policy w events go_on s =
     bindR (window_at grp (Some policy) w) (\<lambda>d.
       if window_allowed d then go_on ()
       else converge_window_block grp i d (Aware (wd_observed_at d)) True events s)"

definition record_post_cancel_window_block ::
  "order_proposal \<Rightarrow> int \<Rightarrow> window_decision \<Rightarrow> submit_event list \<Rightarrow> store \<Rightarrow> rung_outcome submit_result" where
  "record_post_cancel_window_block grp i d events s =
     bindR (of_option (ValueError ''target id validated before replacement cancellation'')
              (g_target_broker_order_id grp)) (\<lambda>target_id.
       ends_with (record_cancelled (g_proposal_id grp) i target_id (Aware (wd_observed_at d)) s) i
         (OutcomeWindow (window_text d))
         (DetailWindow d (window_code_value (wd_code d) @ '':target_cancelled_replacement_not_submitted'')) events)"

definition post_cancel_replace_window_gate ::
  "order_proposal \<Rightarrow> int \<Rightarrow> string \<Rightarrow> window_reading \<Rightarrow> submit_event list \<Rightarrow> (unit \<Rightarrow> rung_outcome submit_result)
   \<Rightarrow> store \<Rightarrow> rung_outcome submit_result" where
  "post_cancel_replace_window_gate grp i policy w events go_on s =
     bindR (window_at grp (Some policy) w) (\<lambda>d.
       if window_allowed d then go_on () else record_post_cancel_window_block grp i d events s)"

text \<open>
  \<open>ApprovalWindowPreSendGate\<close>: the transport calls the hook before every HTTP mutation. A blocked
  hook raises out of the transport, so the mutations are those before the first blocked reading.
\<close>

fun run_hooks ::
  "order_proposal \<Rightarrow> string \<Rightarrow> window_reading list
   \<Rightarrow> (svc_error, window_decision list \<times> window_decision option) result" where
  "run_hooks grp policy [] = Inr ([], None)"
| "run_hooks grp policy (w # ws) =
     bindR (window_at grp (Some policy) w) (\<lambda>d.
       if window_allowed d
       then bindR (run_hooks grp policy ws) (\<lambda>(ds, blocked). Inr (d # ds, blocked))
       else Inr ([], Some d))"

section \<open>Previews\<close>

fun contains_text :: "string \<Rightarrow> string \<Rightarrow> bool" where
  "contains_text marker [] = (marker = [])"
| "contains_text marker (c # s) = (take (length marker) (c # s) = marker \<or> contains_text marker s)"

definition GUARD_ERROR_CODES :: "string set" where
  "GUARD_ERROR_CODES = {''loss_cut_preconditions_failed'', ''nxt_session_not_tradable''}"

definition GUARD_ERROR_MARKERS :: "string list" where
  "GUARD_ERROR_MARKERS =
     [''loss_sell_blocked'', ''sell price '', ''live market sell blocked'', ''loss_cut sell price'',
      ''no holdings found'', ''no sellable holdings'', ''insufficient '', ''stop-loss cooldown'',
      ''opposite pending order'']"

definition is_guard_blocked_preview :: "preview_answer \<Rightarrow> bool" where
  "is_guard_blocked_preview pv \<longleftrightarrow>
     pv_success pv = Some False \<and>
     (pv_insufficient_balance pv \<or> pv_violations pv \<or> lower (pv_error_code pv) \<in> GUARD_ERROR_CODES \<or>
      list_ex (\<lambda>marker. contains_text marker (lower (text_of (pv_error pv)))) GUARD_ERROR_MARKERS)"

text \<open>\<open>_norm\<close> of a decimal, of a \<open>NUMERIC(38, 12)\<close> column and of a preview value.\<close>

definition norm_decimal :: "pydecimal \<Rightarrow> string" where
  "norm_decimal d =
     (let text = format_f (normalize d)
      in if CHR ''.'' \<in> set text then rstrip_char (CHR ''.'') (rstrip_char (CHR ''0'') text) else text)"

definition column_decimal :: "rat \<Rightarrow> pydecimal" where
  "column_decimal x = Dec (x < 0) (nat \<lfloor>\<bar>x\<bar> * 10 ^ 12\<rfloor>) (- 12)"

definition norm_value :: "string option \<Rightarrow> string option" where
  "norm_value v = (case v of None \<Rightarrow> None
     | Some text \<Rightarrow> Some (case parse_decimal text of None \<Rightarrow> text | Some d \<Rightarrow> norm_decimal d))"

definition approved_terms :: "rung \<Rightarrow> string option \<times> string option" where
  "approved_terms r =
     (map_option (\<lambda>p. norm_decimal (column_decimal p)) (r_limit_price r),
      Some (norm_decimal (column_decimal (r_quantity r))))"

definition previewed_terms :: "rung \<Rightarrow> preview_answer \<Rightarrow> string option \<times> string option" where
  "previewed_terms r pv =
     (if r_limit_price r = None then None else norm_value (pv_price pv), norm_value (pv_quantity pv))"

text \<open>The deterministic client order ids; SHA-256 in hexadecimal is an argument.\<close>

definition proposal_client_order_id :: "(string \<Rightarrow> string) \<Rightarrow> order_proposal \<Rightarrow> int \<Rightarrow> string option" where
  "proposal_client_order_id sha grp i =
     (let digest = sha (g_proposal_id grp @ '':'' @ show_int i) in
      if g_account_mode grp = ''toss_live'' then Some (''tosprop-'' @ take 24 digest)
      else if g_account_mode grp = ''upbit'' then Some (''oprop-'' @ take 32 digest)
      else None)"

definition adapt_toss_preview :: "preview_answer \<Rightarrow> preview_answer" where
  "adapt_toss_preview pv = (case pv_payload pv of
     None \<Rightarrow> pv
   | Some p \<Rightarrow> pv\<lparr>pv_price := tp_price p, pv_quantity := tp_quantity p, pv_idempotency_key := tp_client_order_id p\<rparr>)"

definition blank :: "string option \<Rightarrow> bool" where
  "blank v = (case v of None \<Rightarrow> True | Some s \<Rightarrow> strip s = [])"

definition invalid_toss_preview_reason :: "preview_answer \<Rightarrow> string option \<Rightarrow> string \<Rightarrow> string option" where
  "invalid_toss_preview_reason pv expected_client_order_id order_type =
     (if pv_success pv \<noteq> Some True then Some ''success_not_true''
      else case pv_payload pv of
        None \<Rightarrow> Some ''payload_preview_missing_or_malformed''
      | Some p \<Rightarrow>
          if blank (pv_approval_hash pv) then Some ''approval_hash_missing''
          else if blank (tp_client_order_id p) then Some ''client_order_id_missing''
          else if tp_client_order_id p \<noteq> expected_client_order_id then Some ''client_order_id_mismatch''
          else if blank (tp_quantity p) then Some ''quantity_missing''
          else if order_type = ''limit'' \<and> blank (tp_price p) then Some ''limit_price_missing''
          else None)"

section \<open>The eligibility gate of the automatic path\<close>

text \<open>\<open>None\<close>: the manual click path, which wires no gate.\<close>

definition apply_eligibility_gate ::
  "order_proposal \<Rightarrow> int \<Rightarrow> gate_answer option \<Rightarrow> submit_event list \<Rightarrow> (unit \<Rightarrow> rung_outcome submit_result)
   \<Rightarrow> store \<Rightarrow> rung_outcome submit_result" where
  "apply_eligibility_gate grp i gate events go_on s =
     (case gate of
        None \<Rightarrow> go_on ()
      | Some (GateDecision True _) \<Rightarrow> go_on ()
      | Some (GateDecision False reason) \<Rightarrow>
          ends_with (back_to_pending grp i s) i ApprovalRequired (DetailReason reason) events
      | Some (GateFailed e) \<Rightarrow>
          ends_with (back_to_pending grp i s) i ApprovalRequired (DetailReason ''eligibility_error'') events)"

section \<open>Classification of a submit answer\<close>

definition or_text :: "string option \<Rightarrow> string option \<Rightarrow> string option" where
  "or_text a b = (if truthy a then a else b)"

text \<open>The one-character ellipsis of the source is the character 0x85 here.\<close>

definition truncate_submit_diagnostic :: "string \<Rightarrow> string" where
  "truncate_submit_diagnostic v =
     (let compact = join '' '' (split_ws v) in
      if length compact > 240 then take 239 compact @ [CHR 0x85] else compact)"

text \<open>The identifier lookup of Upbit after an explicit rejection.\<close>

definition classify_by_evidence ::
  "order_proposal \<Rightarrow> int \<Rightarrow> preview_answer \<Rightarrow> submit_answer \<Rightarrow> string \<Rightarrow> pydatetime \<Rightarrow> string \<Rightarrow> submit_evidence
   \<Rightarrow> submit_event list \<Rightarrow> store \<Rightarrow> rung_outcome submit_result option" where
  "classify_by_evidence grp i pv sb corr now identifier ev events s =
     (let pid = g_proposal_id grp;
          original_error = (if truthy (sb_error sb) then the (sb_error sb) else ''submit_rejected'')
      in case se_outcome ev of
        EvidenceFound \<Rightarrow> Some (
          if se_state ev \<in> {''wait'', ''watch''}
          then ends_with (record_resting pid i (se_order_id ev) corr (Some identifier) (pv_approval_hash pv) now s)
                 i SubmittedResting (DetailSubmit sb) events
          else ends_with (record_ack pid i (se_order_id ev) corr (Some identifier) (pv_approval_hash pv) now s)
                 i SubmittedAcked (DetailSubmit sb) events)
      | EvidenceUnknown \<Rightarrow> Some (
          ends_with (record_unverified pid i
              (''submit_evidence_unknown:'' @ (if truthy (se_reason ev) then the (se_reason ev) else original_error))
              now (Some corr) (Some identifier) s)
            i OutcomeUnverified (DetailError (Some original_error)) events)
      | EvidenceAbsent \<Rightarrow> None)"

definition ambiguous_submit ::
  "order_proposal \<Rightarrow> int \<Rightarrow> preview_answer \<Rightarrow> submit_answer \<Rightarrow> string \<Rightarrow> pydatetime \<Rightarrow> string option
   \<Rightarrow> submit_event list \<Rightarrow> store \<Rightarrow> rung_outcome submit_result" where
  "ambiguous_submit grp i pv sb corr now identifier events s =
     (let diagnostic = truncate_submit_diagnostic
            (if truthy (sb_error sb) then the (sb_error sb)
             else ''status='' @ (case sb_status sb of None \<Rightarrow> ''None'' | Some t \<Rightarrow> py_repr t))
      in ends_with (record_unverified (g_proposal_id grp) i (''ambiguous_submit_response:'' @ diagnostic) now
             (Some corr) (or_text identifier (or_text (sb_idempotency_key sb) (pv_idempotency_key pv))) s)
           i OutcomeUnverified (DetailSubmit sb) events)"

definition classify_submit ::
  "order_proposal \<Rightarrow> int \<Rightarrow> preview_answer \<Rightarrow> submit_answer \<Rightarrow> string \<Rightarrow> pydatetime \<Rightarrow> string option
   \<Rightarrow> submit_evidence \<Rightarrow> submit_event list \<Rightarrow> store \<Rightarrow> rung_outcome submit_result" where
  "classify_submit grp i pv sb corr now identifier ev events s =
     (let pid = g_proposal_id grp in
      if sb_success sb = Some False
      then (case (if g_account_mode grp = ''upbit'' then identifier else None) of
              Some k \<Rightarrow>
                (case classify_by_evidence grp i pv sb corr now k ev events s of
                   Some m \<Rightarrow> m
                 | None \<Rightarrow> ends_with (record_rejected pid i
                     (if truthy (sb_error sb) then the (sb_error sb) else ''submit_rejected'') now s)
                     i OutcomeError (DetailError (sb_error sb)) events)
            | None \<Rightarrow> ends_with (record_rejected pid i
                (if truthy (sb_error sb) then the (sb_error sb) else ''submit_rejected'') now s)
                i OutcomeError (DetailError (sb_error sb)) events)
      else if sb_success sb = Some True \<and> sb_broker_order_id sb \<noteq> None \<and>
              sb_status sb \<in> {Some ''acked'', Some ''resting''}
      then let oid = the (sb_broker_order_id sb);
               corr' = (if truthy (sb_correlation_id sb) then the (sb_correlation_id sb) else corr);
               key = or_text (sb_idempotency_key sb) (pv_idempotency_key pv);
               digest = or_text (sb_digest sb) (pv_approval_hash pv)
           in if sb_status sb = Some ''acked''
              then ends_with (record_ack pid i oid corr' key digest now s) i SubmittedAcked (DetailSubmit sb) events
              else ends_with (record_resting pid i oid corr' key digest now s) i SubmittedResting (DetailSubmit sb) events
      else ambiguous_submit grp i pv sb corr now identifier events s)"

section \<open>The production place function\<close>

text \<open>The raw answer of a live order tool, before the proposal contract.\<close>

record raw_submit =
  rs_success :: "bool option"
  rs_broker_status :: "string option"
  rs_mutation_sent :: bool
  rs_status_code :: "int option"
  rs_code :: string
  rs_message :: "string option"
  rs_response_message :: "string option"
  rs_error :: "string option"
  rs_order_id :: "string option"
  rs_client_order_id :: "string option"
  rs_status :: "string option"
  rs_broker_order_id :: "string option"
  rs_correlation_id :: "string option"
  rs_idempotency_key :: "string option"
  rs_digest :: "string option"

definition unadapted :: "raw_submit \<Rightarrow> submit_answer" where
  "unadapted r =
     \<lparr>sb_success = rs_success r, sb_status = rs_status r, sb_broker_order_id = rs_broker_order_id r,
      sb_error = rs_error r, sb_correlation_id = rs_correlation_id r,
      sb_idempotency_key = rs_idempotency_key r, sb_digest = rs_digest r\<rparr>"

definition accepted_status :: "string \<Rightarrow> string" where
  "accepted_status order_type = (if order_type = ''market'' then ''acked'' else ''resting'')"

definition toss_submit_error_summary :: "raw_submit \<Rightarrow> string option" where
  "toss_submit_error_summary r =
     (let code = strip (rs_code r); message = strip (text_of (rs_message r)) in
      if code = [] then None
      else Some (truncate_submit_diagnostic
             (if message \<noteq> [] then ''Toss '' @ code @ '': '' @ message else ''Toss '' @ code)))"

definition typed_client_rejection :: "raw_submit \<Rightarrow> bool" where
  "typed_client_rejection r \<longleftrightarrow>
     (case rs_status_code r of None \<Rightarrow> False | Some c \<Rightarrow> 400 \<le> c \<and> c < 500 \<and> c \<noteq> 429) \<and> strip (rs_code r) \<noteq> []"

definition adapt_toss_submit :: "string \<Rightarrow> raw_submit \<Rightarrow> submit_answer" where
  "adapt_toss_submit order_type r =
     (let a = (unadapted r)\<lparr>sb_error := (case toss_submit_error_summary r of None \<Rightarrow> rs_error r | d \<Rightarrow> d)\<rparr>;
          failed_send = (rs_success r = Some False \<and> rs_mutation_sent r);
          broker_rejected = (rs_broker_status r = Some ''rejected'' \<or> (failed_send \<and> typed_client_rejection r))
      in if failed_send \<and> \<not> broker_rejected then a\<lparr>sb_success := None\<rparr>
         else if rs_success r = Some False \<or> broker_rejected
         then a\<lparr>sb_success := Some False,
                sb_error := or_text (sb_error a) (or_text (rs_response_message r)
                              (or_text (rs_message r) (Some ''toss_order_rejected'')))\<rparr>
         else if rs_success r \<noteq> Some True \<or> rs_order_id r = None \<or> rs_digest r = None then a
         else a\<lparr>sb_status := Some (accepted_status order_type), sb_broker_order_id := rs_order_id r,
                sb_idempotency_key := rs_client_order_id r\<rparr>)"

definition adapt_live_submit :: "string \<Rightarrow> raw_submit \<Rightarrow> submit_answer" where
  "adapt_live_submit order_type r =
     (if rs_broker_status r = Some ''rejected''
      then (unadapted r)\<lparr>sb_success := Some False,
             sb_error := or_text (rs_response_message r) (or_text (rs_message r) (Some ''broker_rejected''))\<rparr>
      else if rs_broker_status r = Some ''accepted''
      then (unadapted r)\<lparr>sb_broker_order_id := rs_order_id r, sb_status := Some (accepted_status order_type)\<rparr>
      else unadapted r)"

definition toss_id_char :: "char \<Rightarrow> bool" where
  "toss_id_char c \<longleftrightarrow> is_digit c \<or> (97 \<le> char_code c \<and> char_code c \<le> 122) \<or> (65 \<le> char_code c \<and> char_code c \<le> 90) \<or>
     c = CHR ''-'' \<or> c = CHR ''_''"

definition is_valid_toss_client_order_id :: "string option \<Rightarrow> bool" where
  "is_valid_toss_client_order_id v = (case v of None \<Rightarrow> False
     | Some s \<Rightarrow> length s \<le> 36 \<and> s \<noteq> [] \<and> list_all toss_id_char s)"

definition refused_toss_id :: submit_answer where
  "refused_toss_id = \<lparr>sb_success = Some False, sb_status = None, sb_broker_order_id = None,
     sb_error = Some (''Toss clientOrderId must be at most 36 characters and match [a-zA-Z0-9'' @
               [CHR 0x5C] @ ''-_]+''),
     sb_correlation_id = None, sb_idempotency_key = None, sb_digest = None\<rparr>"

text \<open>
  A live call: the hook before every HTTP mutation, then the adapted answer or the exception. The
  third component is the blocking decision of the hook.
\<close>

definition live_call ::
  "order_proposal \<Rightarrow> string \<Rightarrow> string option \<Rightarrow> window_reading list \<Rightarrow> (string, raw_submit) result
   \<Rightarrow> (svc_error, window_decision list \<times> window_decision option \<times> (string, submit_answer) result) result" where
  "live_call grp policy identifier hooks reply =
     (if g_account_mode grp = ''toss_live'' \<and> \<not> is_valid_toss_client_order_id identifier
      then Inr ([], None, Inr refused_toss_id)
      else bindR (run_hooks grp policy hooks) (\<lambda>(posts, blocked).
        Inr (posts, blocked, (case reply of
          Inl e \<Rightarrow> Inl e
        | Inr r \<Rightarrow> Inr (if g_account_mode grp = ''toss_live'' then adapt_toss_submit (g_order_type grp) r
                        else adapt_live_submit (g_order_type grp) r)))))"

definition dry_run :: "order_proposal \<Rightarrow> (string, preview_answer) result \<Rightarrow> (string, preview_answer) result" where
  "dry_run grp reply = (case reply of
     Inl e \<Rightarrow> Inl e
   | Inr pv \<Rightarrow> Inr (if g_account_mode grp = ''toss_live'' then adapt_toss_preview pv else pv))"

section \<open>Placing a rung\<close>

record place_answers =
  pa_window1 :: window_reading
  pa_preview :: "(string, preview_answer) result"
  pa_gate :: "gate_answer option"
  pa_window2 :: window_reading
  pa_claim :: "(rat \<times> string option) option"
  pa_window3 :: window_reading
  pa_correlation :: string
  pa_hooks :: "window_reading list"
  pa_submit :: "(string, raw_submit) result"
  pa_evidence :: submit_evidence

definition failed_submit :: "string \<Rightarrow> submit_answer" where
  "failed_submit e = \<lparr>sb_success = Some False, sb_status = None, sb_broker_order_id = None, sb_error = Some e,
     sb_correlation_id = None, sb_idempotency_key = None, sb_digest = None\<rparr>"

text \<open>An exception of a live call that no hook explains.\<close>

definition submit_exception ::
  "order_proposal \<Rightarrow> int \<Rightarrow> preview_answer \<Rightarrow> string \<Rightarrow> string \<Rightarrow> pydatetime \<Rightarrow> string option \<Rightarrow> submit_evidence
   \<Rightarrow> submit_event list \<Rightarrow> store \<Rightarrow> rung_outcome submit_result" where
  "submit_exception grp i pv e corr now identifier ev events s =
     (if g_account_mode grp = ''upbit''
      then classify_submit grp i pv (failed_submit e) corr now identifier ev events s
      else ends_with (record_unverified (g_proposal_id grp) i (''submit_exception:'' @ e) now (Some corr)
                        (pv_idempotency_key pv) s) i OutcomeUnverified (DetailError (Some e)) events)"

text \<open>\<open>_release_after_rejection\<close>: a reservation is given back, its failure is only logged.\<close>

definition released :: "bool \<Rightarrow> submit_event list" where
  "released reserved = (if reserved then [ClaimReleased] else [])"

definition release_on_error :: "bool \<Rightarrow> rung_outcome submit_result \<Rightarrow> rung_outcome submit_result" where
  "release_on_error reserved m = bindR m (\<lambda>(s, oc, events).
     Inr (s, oc, events @ (if ro_result oc = OutcomeError then released reserved else [])))"

definition submit_place ::
  "(string \<Rightarrow> string) \<Rightarrow> order_proposal \<Rightarrow> rung \<Rightarrow> preview_answer \<Rightarrow> pydatetime \<Rightarrow> string \<Rightarrow> place_answers \<Rightarrow> bool
   \<Rightarrow> submit_event list \<Rightarrow> store \<Rightarrow> rung_outcome submit_result" where
  "submit_place sha grp rung pv now policy ans reserved events s =
     (let pid = g_proposal_id grp; i = r_rung_index rung; identifier = proposal_client_order_id sha grp i in
      bindR (transition_rung pid i Approved id s) (\<lambda>(s1, _).
      bindR (transition_rung pid i Submitting id s1) (\<lambda>(s2, _).
      bindR (live_call grp policy identifier (pa_hooks ans) (pa_submit ans)) (\<lambda>(posts, blocked, reply).
        let events' = events @ map LivePost posts in
        case blocked of
          Some d \<Rightarrow> converge_window_block grp i d (Aware (wd_observed_at d)) True (events' @ released reserved) s2
        | None \<Rightarrow>
            (case reply of
               Inl e \<Rightarrow> submit_exception grp i pv e (pa_correlation ans) now identifier (pa_evidence ans) events' s2
             | Inr sb \<Rightarrow> release_on_error reserved
                 (classify_submit grp i pv sb (pa_correlation ans) now identifier (pa_evidence ans) events' s2))))))"

text \<open>The buying-power check of a limit buy; an unknown balance lets the order through.\<close>

definition claim_for_place ::
  "(string \<Rightarrow> string) \<Rightarrow> order_proposal \<Rightarrow> rung \<Rightarrow> preview_answer \<Rightarrow> pydatetime \<Rightarrow> string \<Rightarrow> place_answers \<Rightarrow> store
   \<Rightarrow> rung_outcome submit_result" where
  "claim_for_place sha grp rung pv now policy ans s =
     (let pid = g_proposal_id grp; i = r_rung_index rung;
          go = (\<lambda>reserved events. pre_mutation_window_gate grp i policy (pa_window3 ans)
                  (events @ released reserved)
                  (\<lambda>_. submit_place sha grp rung pv now policy ans reserved events s) s)
      in if r_side rung = ''buy'' \<and> r_limit_price rung \<noteq> None
         then bindR (of_option (ValueError ''unsupported buying-power market'') (currency_for_market (g_market grp)))
           (\<lambda>currency.
             let required = required_cash (r_quantity rung) (the (r_limit_price rung))
                              (pv_estimated_value pv) (pv_fee pv)
             in case pa_claim ans of
                  None \<Rightarrow> go False []
                | Some (available, _) \<Rightarrow>
                    if available < required
                    then ends_with (mark_needs_reconfirm pid i now s) i OutcomeReconfirm
                           (DetailShortfall currency available required) []
                    else go True [ClaimTaken])
         else go False [])"

definition check_preview ::
  "(string \<Rightarrow> string) \<Rightarrow> order_proposal \<Rightarrow> rung \<Rightarrow> preview_answer \<Rightarrow> pydatetime \<Rightarrow> string \<Rightarrow> place_answers \<Rightarrow> store
   \<Rightarrow> rung_outcome submit_result" where
  "check_preview sha grp rung pv now policy ans s =
     (let i = r_rung_index rung;
          invalid = (if g_account_mode grp = ''toss_live''
                     then invalid_toss_preview_reason pv (proposal_client_order_id sha grp i) (g_order_type grp)
                     else None)
      in if pv_success pv = Some False
         then ends_with (back_to_pending grp i s) i
                (if is_guard_blocked_preview pv then GuardBlocked else OutcomeError) (DetailError (pv_error pv)) []
         else case invalid of
           Some reason \<Rightarrow> ends_with (back_to_pending grp i s) i OutcomeError
                            (DetailError (Some (''invalid_toss_preview:'' @ reason))) []
         | None \<Rightarrow>
             if approved_terms rung \<noteq> previewed_terms rung pv
             then ends_with (mark_needs_reconfirm (g_proposal_id grp) i now s) i OutcomeReconfirm
                    (DetailDiff (approved_terms rung) (previewed_terms rung pv)) []
             else apply_eligibility_gate grp i (pa_gate ans) []
                    (\<lambda>_. pre_mutation_window_gate grp i policy (pa_window2 ans) []
                       (\<lambda>_. claim_for_place sha grp rung pv now policy ans s) s) s)"

definition revalidate_place_rung ::
  "(string \<Rightarrow> string) \<Rightarrow> order_proposal \<Rightarrow> rung \<Rightarrow> pydatetime \<Rightarrow> string \<Rightarrow> place_answers \<Rightarrow> store
   \<Rightarrow> rung_outcome submit_result" where
  "revalidate_place_rung sha grp rung now policy ans s =
     (let i = r_rung_index rung in
      pre_mutation_window_gate grp i policy (pa_window1 ans) [] (\<lambda>_.
        bindR (transition_rung (g_proposal_id grp) i Revalidating id s) (\<lambda>(s1, _).
          case dry_run grp (pa_preview ans) of
            Inl e \<Rightarrow> ends_with (back_to_pending grp i s1) i OutcomeError (DetailError (Some e)) []
          | Inr pv \<Rightarrow> check_preview sha grp rung pv now policy ans s1)) s)"

section \<open>The target of a replace or cancel\<close>

text \<open>
  The approved snapshot is read from \<open>source_asof\<close>, where \<open>to_payload\<close> wrote texts and nulls; any
  other shape fails like a missing one.
\<close>

fun json_texts :: "(string \<times> json) list \<Rightarrow> payload option" where
  "json_texts [] = Some []"
| "json_texts ((k, JStr v) # xs) = map_option (\<lambda>p. (k, Some v) # p) (json_texts xs)"
| "json_texts ((k, JNull) # xs) = map_option (\<lambda>p. (k, None) # p) (json_texts xs)"
| "json_texts _ = None"

definition approved_target ::
  "iso_reader \<Rightarrow> iso_printer \<Rightarrow> order_proposal \<Rightarrow> (string, string \<times> target_order_snapshot) result" where
  "approved_target read_iso show_iso grp =
     (case g_target_broker_order_id grp of
        None \<Rightarrow> Inl ''target_broker_order_id_missing''
      | Some target_id \<Rightarrow>
          (case dict_get (or_empty (g_source_asof grp)) ''target_order_snapshot'' of
             Some (JObj d) \<Rightarrow>
               (case json_texts d of
                  None \<Rightarrow> Inl ''target_order_snapshot''
                | Some p \<Rightarrow>
                    (case from_payload read_iso show_iso p of
                       Inr snapshot \<Rightarrow> Inr (target_id, snapshot)
                     | Inl (ProposalError m) \<Rightarrow> Inl m
                     | Inl _ \<Rightarrow> Inl ''target_order_snapshot''))
           | _ \<Rightarrow> Inl ''target_order_snapshot''))"

definition field_mismatch :: "target_order_snapshot \<Rightarrow> target_order_snapshot \<Rightarrow> string option" where
  "field_mismatch approved fresh =
     map_option fst (find (\<lambda>(_, same). \<not> same)
       [(''broker_order_id'', t_broker_order_id approved = t_broker_order_id fresh),
        (''symbol'', t_symbol approved = t_symbol fresh),
        (''side'', t_side approved = t_side fresh),
        (''order_type'', t_order_type approved = t_order_type fresh),
        (''limit_price'', t_limit_price approved = t_limit_price fresh),
        (''remaining_quantity'', t_remaining_quantity approved = t_remaining_quantity fresh)])"

definition target_mismatch_reason ::
  "target_order_snapshot \<Rightarrow> target_order_snapshot \<Rightarrow> (string, string option) result" where
  "target_mismatch_reason approved fresh =
     (if t_status fresh \<noteq> ''open'' then Inr (Some (''target_not_open:'' @ t_status fresh))
      else case parse_decimal (t_remaining_quantity fresh) of
        None \<Rightarrow> Inl ''invalid decimal''
      | Some d \<Rightarrow>
          if \<not> is_finite d then Inl ''invalid decimal''
          else if dec_value d \<le> 0 then Inr (Some ''target_has_no_remaining_quantity'')
          else Inr (map_option (\<lambda>f. ''target_snapshot_mismatch:'' @ f) (field_mismatch approved fresh)))"

text \<open>What the broker says of the target: evidence, no evidence, or an exception.\<close>

type_synonym target_answer = "(string, target_order_snapshot option) result"

text \<open>Without evidence the comparison itself fails on \<open>None\<close>, inside the guarded block.\<close>

definition compare_target :: "target_order_snapshot \<Rightarrow> target_answer \<Rightarrow> (string, string option) result" where
  "compare_target approved answer = (case answer of
     Inl e \<Rightarrow> Inl e
   | Inr None \<Rightarrow> Inl ''NoneType object has no attribute status''
   | Inr (Some fresh) \<Rightarrow> target_mismatch_reason approved fresh)"

definition validate_target_action ::
  "iso_reader \<Rightarrow> iso_printer \<Rightarrow> order_proposal \<Rightarrow> int \<Rightarrow> pydatetime \<Rightarrow> target_answer
   \<Rightarrow> (store \<Rightarrow> rung_outcome submit_result) \<Rightarrow> store \<Rightarrow> rung_outcome submit_result" where
  "validate_target_action read_iso show_iso grp i now answer go_on s =
     (let pid = g_proposal_id grp in
      bindR (transition_rung pid i Revalidating id s) (\<lambda>(s1, _).
        case approved_target read_iso show_iso grp of
          Inl e \<Rightarrow> ends_with (record_rejected pid i (''target_evidence_invalid:'' @ e) now s1) i
                     OutcomeError (DetailError (Some e)) []
        | Inr (_, approved) \<Rightarrow>
            (case compare_target approved answer of
               Inl e \<Rightarrow> ends_with (back_to_pending grp i s1) i OutcomeError
                          (DetailError (Some (''target_fetch_error:'' @ e))) []
             | Inr (Some reason) \<Rightarrow> ends_with (record_rejected pid i reason now s1) i OutcomeError
                          (DetailError (Some reason)) []
             | Inr None \<Rightarrow> go_on s1)))"

section \<open>Cancelling the target\<close>

datatype cancel_reply = CancelAnswered bool "string option" | CancelNoDict

record cancel_answers =
  ca_hooks :: "window_reading list"
  ca_reply :: "(string, cancel_reply) result"
  ca_confirm :: target_answer

definition confirm_cancelled ::
  "order_proposal \<Rightarrow> int \<Rightarrow> pydatetime \<Rightarrow> target_answer \<Rightarrow> submit_event list
   \<Rightarrow> (submit_event list \<Rightarrow> rung_outcome submit_result) \<Rightarrow> store \<Rightarrow> rung_outcome submit_result" where
  "confirm_cancelled grp i now answer events go_on s =
     (let unverified = (\<lambda>reason text. ends_with
            (record_unverified (g_proposal_id grp) i reason now None None s) i OutcomeUnverified
            (DetailError (Some text)) events)
      in case answer of
        Inl e \<Rightarrow> unverified (''cancel_confirmation_error:'' @ e) e
      | Inr None \<Rightarrow> unverified ''cancel_confirmation_missing_evidence'' ''cancel_confirmation_missing_evidence''
      | Inr (Some confirmed) \<Rightarrow>
          if t_status confirmed \<noteq> ''cancelled''
          then unverified (''cancel_unconfirmed:'' @ t_status confirmed) ''cancel_unconfirmed''
          else go_on events)"

definition cancel_and_confirm_target ::
  "order_proposal \<Rightarrow> int \<Rightarrow> pydatetime \<Rightarrow> string \<Rightarrow> cancel_answers
   \<Rightarrow> (submit_event list \<Rightarrow> rung_outcome submit_result) \<Rightarrow> store \<Rightarrow> rung_outcome submit_result" where
  "cancel_and_confirm_target grp i now policy ans go_on s =
     (let pid = g_proposal_id grp in
      if g_target_broker_order_id grp = None
      then ends_with (record_rejected pid i ''target_broker_order_id_missing'' now s) i OutcomeError
             (DetailError (Some ''target_broker_order_id_missing'')) []
      else bindR (run_hooks grp policy (ca_hooks ans)) (\<lambda>(posts, blocked).
        let events = map CancelPost posts;
            refused = (\<lambda>reason. ends_with (record_rejected pid i reason now s) i OutcomeError
                         (DetailError (Some ''cancel_rejected'')) events)
        in case blocked of
          Some d \<Rightarrow> converge_window_block grp i d (Aware (wd_observed_at d)) True events s
        | None \<Rightarrow>
            (case ca_reply ans of
               Inl e \<Rightarrow> ends_with (record_unverified pid i (''cancel_exception:'' @ e) now None None s) i
                          OutcomeUnverified (DetailError (Some e)) events
             | Inr CancelNoDict \<Rightarrow> refused ''cancel_rejected''
             | Inr (CancelAnswered False err) \<Rightarrow>
                 refused (if truthy err then the err else ''cancel_rejected'')
             | Inr (CancelAnswered True _) \<Rightarrow> confirm_cancelled grp i now (ca_confirm ans) events go_on s)))"

section \<open>Cancelling\<close>

record target_answers =
  ta_window1 :: window_reading
  ta_target :: target_answer
  ta_gate :: "gate_answer option"
  ta_window2 :: window_reading
  ta_cancel :: cancel_answers

definition submitting_cancel ::
  "order_proposal \<Rightarrow> int \<Rightarrow> pydatetime \<Rightarrow> string \<Rightarrow> cancel_answers
   \<Rightarrow> (submit_event list \<Rightarrow> store \<Rightarrow> rung_outcome submit_result) \<Rightarrow> store \<Rightarrow> rung_outcome submit_result" where
  "submitting_cancel grp i now policy ans go_on s =
     bindR (transition_rung (g_proposal_id grp) i Approved id s) (\<lambda>(s1, _).
     bindR (transition_rung (g_proposal_id grp) i Submitting id s1) (\<lambda>(s2, _).
       cancel_and_confirm_target grp i now policy ans (\<lambda>events. go_on events s2) s2))"

definition finish_cancel :: "order_proposal \<Rightarrow> int \<Rightarrow> pydatetime \<Rightarrow> submit_event list \<Rightarrow> store \<Rightarrow> rung_outcome submit_result" where
  "finish_cancel grp i now events s =
     bindR (of_option (ValueError ''target id validated before cancellation'') (g_target_broker_order_id grp))
       (\<lambda>target_id. ends_with (record_cancelled (g_proposal_id grp) i target_id now s) i OutcomeCancelled
          NoDetail events)"

definition revalidate_cancel_rung ::
  "iso_reader \<Rightarrow> iso_printer \<Rightarrow> order_proposal \<Rightarrow> rung \<Rightarrow> pydatetime \<Rightarrow> string \<Rightarrow> target_answers \<Rightarrow> store
   \<Rightarrow> rung_outcome submit_result" where
  "revalidate_cancel_rung read_iso show_iso grp rung now policy ans s =
     (let i = r_rung_index rung in
      pre_mutation_window_gate grp i policy (ta_window1 ans) [] (\<lambda>_.
        validate_target_action read_iso show_iso grp i now (ta_target ans) (\<lambda>s1.
          apply_eligibility_gate grp i (ta_gate ans) [] (\<lambda>_.
            pre_mutation_window_gate grp i policy (ta_window2 ans) [] (\<lambda>_.
              submitting_cancel grp i now policy (ta_cancel ans) (finish_cancel grp i now) s1) s1) s1) s) s)"

section \<open>Replacing\<close>

record replace_answers = target_answers +
  ra_preview :: "(string, preview_answer) result"
  ra_window3 :: window_reading
  ra_opposite :: "(string, string option option) result"
  ra_window4 :: window_reading
  ra_correlation :: string
  ra_window5 :: window_reading
  ra_hooks :: "window_reading list"
  ra_submit :: "(string, raw_submit) result"
  ra_evidence :: submit_evidence

definition revalidate_replace_preview ::
  "order_proposal \<Rightarrow> rung \<Rightarrow> pydatetime \<Rightarrow> (string, preview_answer) result
   \<Rightarrow> (preview_answer \<Rightarrow> rung_outcome submit_result) \<Rightarrow> store \<Rightarrow> rung_outcome submit_result" where
  "revalidate_replace_preview grp rung now answer go_on s =
     (let i = r_rung_index rung in
      case dry_run grp answer of
        Inl e \<Rightarrow> ends_with (back_to_pending grp i s) i OutcomeError (DetailError (Some e)) []
      | Inr pv \<Rightarrow>
          if pv_success pv = Some False
          then ends_with (back_to_pending grp i s) i
                 (if is_guard_blocked_preview pv then GuardBlocked else OutcomeError) (DetailError (pv_error pv)) []
          else if approved_terms rung \<noteq> previewed_terms rung pv
          then ends_with (mark_needs_reconfirm (g_proposal_id grp) i now s) i OutcomeReconfirm
                 (DetailDiff (approved_terms rung) (previewed_terms rung pv)) []
          else go_on pv)"

text \<open>
  The opposite-pending guard before the cancellation: no order, an order with a possible error
  text, or an exception.
\<close>

definition check_replace_opposite_pending ::
  "order_proposal \<Rightarrow> int \<Rightarrow> (string, string option option) result \<Rightarrow> (unit \<Rightarrow> rung_outcome submit_result)
   \<Rightarrow> store \<Rightarrow> rung_outcome submit_result" where
  "check_replace_opposite_pending grp i answer go_on s = (case answer of
     Inl e \<Rightarrow> ends_with (back_to_pending grp i s) i OutcomeError
                (DetailError (Some (''opposite_pending_check_error:'' @ e))) []
   | Inr None \<Rightarrow> go_on ()
   | Inr (Some err) \<Rightarrow> ends_with (back_to_pending grp i s) i GuardBlocked
                (DetailError (or_text err (Some ''opposite_pending_order_exists''))) [])"

definition submit_replacement ::
  "(string \<Rightarrow> string) \<Rightarrow> order_proposal \<Rightarrow> int \<Rightarrow> preview_answer \<Rightarrow> pydatetime \<Rightarrow> string \<Rightarrow> replace_answers
   \<Rightarrow> submit_event list \<Rightarrow> store \<Rightarrow> rung_outcome submit_result" where
  "submit_replacement sha grp i pv now policy ans events s =
     (let identifier = proposal_client_order_id sha grp i in
      post_cancel_replace_window_gate grp i policy (ra_window5 ans) events (\<lambda>_.
        bindR (live_call grp policy identifier (ra_hooks ans) (ra_submit ans)) (\<lambda>(posts, blocked, reply).
          let events' = events @ map LivePost posts in
          case blocked of
            Some d \<Rightarrow> record_post_cancel_window_block grp i d events' s
          | None \<Rightarrow>
              (case reply of
                 Inl e \<Rightarrow> submit_exception grp i pv e (ra_correlation ans) now identifier (ra_evidence ans) events' s
               | Inr sb \<Rightarrow> classify_submit grp i pv sb (ra_correlation ans) now identifier (ra_evidence ans) events' s))) s)"

definition replace_after_preview ::
  "(string \<Rightarrow> string) \<Rightarrow> order_proposal \<Rightarrow> int \<Rightarrow> preview_answer \<Rightarrow> pydatetime \<Rightarrow> string \<Rightarrow> replace_answers \<Rightarrow> store
   \<Rightarrow> rung_outcome submit_result" where
  "replace_after_preview sha grp i pv now policy ans s =
     pre_mutation_window_gate grp i policy (ra_window3 ans) [] (\<lambda>_.
       check_replace_opposite_pending grp i (ra_opposite ans) (\<lambda>_.
         pre_mutation_window_gate grp i policy (ra_window4 ans) [] (\<lambda>_.
           submitting_cancel grp i now policy (ta_cancel ans)
             (submit_replacement sha grp i pv now policy ans) s) s) s) s"

definition revalidate_replace_rung ::
  "(string \<Rightarrow> string) \<Rightarrow> iso_reader \<Rightarrow> iso_printer \<Rightarrow> order_proposal \<Rightarrow> rung \<Rightarrow> pydatetime \<Rightarrow> string
   \<Rightarrow> replace_answers \<Rightarrow> store \<Rightarrow> rung_outcome submit_result" where
  "revalidate_replace_rung sha read_iso show_iso grp rung now policy ans s =
     (let i = r_rung_index rung in
      pre_mutation_window_gate grp i policy (ta_window1 ans) [] (\<lambda>_.
        validate_target_action read_iso show_iso grp i now (ta_target ans) (\<lambda>s1.
          apply_eligibility_gate grp i (ta_gate ans) [] (\<lambda>_.
            pre_mutation_window_gate grp i policy (ta_window2 ans) [] (\<lambda>_.
              revalidate_replace_preview grp rung now (ra_preview ans) (\<lambda>pv.
                replace_after_preview sha grp i pv now policy ans s1) s1) s1) s1) s) s)"

section \<open>The whole proposal\<close>

record action_answers =
  aa_place :: place_answers
  aa_target :: replace_answers

type_synonym run_result = "(svc_error, store \<times> rung_outcome list \<times> submit_event list) result"

definition revalidate_rung ::
  "(string \<Rightarrow> string) \<Rightarrow> iso_reader \<Rightarrow> iso_printer \<Rightarrow> order_proposal \<Rightarrow> rung \<Rightarrow> pydatetime \<Rightarrow> string
   \<Rightarrow> action_answers \<Rightarrow> store \<Rightarrow> rung_outcome submit_result" where
  "revalidate_rung sha read_iso show_iso grp rung now policy ans s =
     (let action = contract_action grp in
      if action = ''replace''
      then revalidate_replace_rung sha read_iso show_iso grp rung now policy (aa_target ans) s
      else if action = ''cancel''
      then revalidate_cancel_rung read_iso show_iso grp rung now policy (target_answers.truncate (aa_target ans)) s
      else revalidate_place_rung sha grp rung now policy (aa_place ans) s)"

text \<open>One turn of the loop: the rung is read as it is by now, and skipped unless pending.\<close>

definition revalidate_step ::
  "(order_proposal \<Rightarrow> rung \<Rightarrow> store \<Rightarrow> rung_outcome submit_result) \<Rightarrow> order_proposal
   \<Rightarrow> store \<times> rung_outcome list \<times> submit_event list \<Rightarrow> int \<Rightarrow> run_result" where
  "revalidate_step handle grp acc i =
     (let (s, outcomes, events) = acc in
      case rung_row grp i s of
        None \<Rightarrow> Inr acc
      | Some rung \<Rightarrow>
          if r_state rung \<noteq> PendingApproval then Inr acc
          else bindR (handle grp rung s) (\<lambda>(s1, oc, evs). Inr (s1, outcomes @ [oc], events @ evs)))"

definition block_all ::
  "order_proposal \<Rightarrow> window_decision \<Rightarrow> store \<times> rung_outcome list \<times> submit_event list \<Rightarrow> int \<Rightarrow> run_result" where
  "block_all grp d acc i =
     (let (s, outcomes, events) = acc in
      bindR (converge_window_block grp i d (Aware (wd_observed_at d)) False [] s)
        (\<lambda>(s1, oc, evs). Inr (s1, outcomes @ [oc], events @ evs)))"

definition active_policy_stamp :: "order_proposal \<Rightarrow> string option \<Rightarrow> string option" where
  "active_policy_stamp grp expected =
     (case expected of
        Some p \<Rightarrow> Some p
      | None \<Rightarrow>
          (case dict_get (or_empty (g_source_asof grp)) ''approval_window_policy_stamp'' of
             Some (JStr p) \<Rightarrow> Some p
           | _ \<Rightarrow> None))"

definition flat_outcome :: "outcome_result \<Rightarrow> outcome_detail \<Rightarrow> rung \<Rightarrow> rung_outcome" where
  "flat_outcome res detail r = \<lparr>ro_rung_index = r_rung_index r, ro_result = res, ro_detail = detail\<rparr>"

text \<open>
  \<open>gated\<close> says that an eligibility gate is wired. The assertion that a policy stamp is known once the
  window allows is an error of its own.
\<close>

definition revalidate_and_submit ::
  "(string \<Rightarrow> string) \<Rightarrow> iso_reader \<Rightarrow> iso_printer \<Rightarrow> uuid \<Rightarrow> pydatetime \<Rightarrow> string option \<Rightarrow> bool
   \<Rightarrow> window_reading \<Rightarrow> (int \<Rightarrow> action_answers) \<Rightarrow> store \<Rightarrow> run_result" where
  "revalidate_and_submit sha read_iso show_iso proposal_id now expected gated first_window answers s =
     bindR (get_proposal proposal_id s) (\<lambda>(grp, rungs).
       case proposal_approval_block_reason grp of
         Some b \<Rightarrow> Inr (s, map (flat_outcome OutcomeError (DetailBlock b)) rungs, [])
       | None \<Rightarrow>
           (let pending = filter (\<lambda>r. r_state r = PendingApproval) rungs;
                active = active_policy_stamp grp expected
            in bindR (window_at grp active first_window) (\<lambda>d.
              if \<not> window_allowed d
              then foldR (block_all grp d) (s, [], []) (map r_rung_index pending)
              else bindR (of_option (ValueError ''assert active_policy_stamp is not None'') active) (\<lambda>policy.
                if gated \<and> 1 < length pending
                then Inr (s, map (flat_outcome ApprovalRequired (DetailReason ''multi_rung_requires_approval'')) pending, [])
                else foldR (revalidate_step (\<lambda>g r. revalidate_rung sha read_iso show_iso g r now policy
                              (answers (r_rung_index r))) grp)
                       (s, [], []) (map r_rung_index rungs)))))"

end
