(* ===== verification/WindowSafety.thy ===== *)
theory WindowSafety
  imports ApprovalWindow ProposalSamples
begin

text \<open>
  What the approval window promises its three callers (dispatch, callback, submission): when the
  boundary allows, what the evidence behind an open session is, and what a deferral tells.
\<close>

section \<open>The evaluation and its re-check\<close>

lemma exemption_cases:
  "exit_intent_window_exemption env grp (Aware t) =
     Inr (if \<not> truthy (g_exit_intent grp) then None
          else Some (case valid_until_block (column_datetime (g_valid_until grp)) (Aware t) of
            Inr (Some (code, detail)) \<Rightarrow>
              decide grp t code (policy_stamp (we_stamp_hash env) grp None) None (Some detail)
          | _ \<Rightarrow> let ev = exempt_evidence (the (g_valid_until grp)) in
              decide grp t ALLOW (policy_stamp (we_stamp_hash env) grp (Some ev)) (Some ev)
                (Some ''exit_intent_session_calendar_exempt'')))"
  by (simp add: exit_intent_window_exemption_def valid_until_block_column split: option.splits)

definition live_at :: "order_proposal \<Rightarrow> int \<Rightarrow> bool" where
  "live_at grp t \<longleftrightarrow> (case g_valid_until grp of None \<Rightarrow> False | Some v \<Rightarrow> t < v)"

definition holds_at :: "session_evidence \<Rightarrow> int \<Rightarrow> bool" where
  "holds_at ev t \<longleftrightarrow> se_known ev \<and>
     (se_allowed_sessions ev = [''24x7''] \<or> (case se_allowed_until ev of None \<Rightarrow> False | Some u \<Rightarrow> t < u))"

lemma recheck_allows:
  "(\<exists>d'. recheck_approval_window_decision grp d (Aware t) = Inr d' \<and> window_allowed d') \<longleftrightarrow>
     live_at grp t \<and> window_allowed d \<and> (\<exists>ev. wd_evidence d = Some ev \<and> holds_at ev t)"
  by (auto simp: recheck_approval_window_decision_def valid_until_block_column window_allowed_def
      recheck_allowed_def live_at_def holds_at_def Let_def split: option.splits if_splits)

lemma exemption_allows:
  assumes "exit_intent_window_exemption env grp (Aware t1) = Inr (Some d)"
  shows "window_allowed d \<and> (\<exists>ev. wd_evidence d = Some ev \<and> holds_at ev t2) \<and> live_at grp t2 \<longleftrightarrow>
    live_at grp t1 \<and> live_at grp t2"
  using assms
  by (auto simp: exemption_cases valid_until_block_column window_allowed_def live_at_def holds_at_def
      decide_def exempt_evidence_def Let_def split: option.splits if_splits)

lemma evaluate_allows:
  assumes "exit_intent_window_exemption env grp (Aware t) = Inr None"
  shows "\<exists>d. evaluate_approval_window env resolver grp (Aware t) = Inr d \<and>
    (window_allowed d \<longleftrightarrow> live_at grp t \<and> (\<exists>ev. resolver grp t = Inr ev \<and> se_known ev \<and> se_allowed_now ev)) \<and>
    (window_allowed d \<longrightarrow> (\<exists>ev. resolver grp t = Inr ev \<and> wd_evidence d = Some ev \<and>
       wd_policy_stamp d = policy_stamp (we_stamp_hash env) grp (Some ev)))"
  using assms
  by (auto simp: evaluate_approval_window_def require_def valid_until_block_column live_at_def
      decide_by_evidence_def decide_def window_allowed_def resolver_evidence_def unknown_evidence_def Let_def
      split: option.splits sum.splits)

lemma bind_allows:
  "window_allowed (bind_approval_window_policy d expected) \<longleftrightarrow>
     window_allowed d \<and> expected = Some (wd_policy_stamp d)"
  by (auto simp: bind_approval_window_policy_def window_allowed_def)

lemma bind_evidence: "wd_evidence (bind_approval_window_policy d expected) = wd_evidence d"
  by (simp add: bind_approval_window_policy_def)

lemma boundary_allows:
  "(\<exists>d. evaluate_approval_window_boundary env (evaluate_approval_window env resolver) expected
          require_stamp grp (Aware t1) (Aware t2) = Inr d \<and> window_allowed d) \<longleftrightarrow>
     live_at grp t1 \<and> live_at grp t2 \<and>
     (truthy (g_exit_intent grp) \<or>
      (\<exists>ev. resolver grp t1 = Inr ev \<and> se_allowed_now ev \<and> holds_at ev t2 \<and>
         (if require_stamp then expected = Some (policy_stamp (we_stamp_hash env) grp (Some ev)) else True)))"
  (is "?allowed \<longleftrightarrow> ?spec")
proof (cases "truthy (g_exit_intent grp)")
  case True
  obtain d where d: "exit_intent_window_exemption env grp (Aware t1) = Inr (Some d)"
    using True by (auto simp: exemption_cases)
  have "?allowed \<longleftrightarrow> live_at grp t2 \<and> window_allowed d \<and> (\<exists>ev. wd_evidence d = Some ev \<and> holds_at ev t2)"
    using d recheck_allows [of grp d t2] by (simp add: evaluate_approval_window_boundary_def)
  then show ?thesis using exemption_allows [OF d, of t2] True by blast
next
  case False
  have none: "exit_intent_window_exemption env grp (Aware t1) = Inr None"
    using False by (simp add: exemption_cases)
  from evaluate_allows [OF none, of resolver] obtain d where
    d: "evaluate_approval_window env resolver grp (Aware t1) = Inr d" and
    allowed: "window_allowed d \<longleftrightarrow>
      live_at grp t1 \<and> (\<exists>ev. resolver grp t1 = Inr ev \<and> se_known ev \<and> se_allowed_now ev)" and
    stamped: "window_allowed d \<Longrightarrow> \<exists>ev. resolver grp t1 = Inr ev \<and> wd_evidence d = Some ev \<and>
       wd_policy_stamp d = policy_stamp (we_stamp_hash env) grp (Some ev)" by blast
  define d' where "d' = (if require_stamp then bind_approval_window_policy d expected else d)"
  have "?allowed \<longleftrightarrow> live_at grp t2 \<and> window_allowed d' \<and> (\<exists>ev. wd_evidence d' = Some ev \<and> holds_at ev t2)"
    using none d recheck_allows [of grp d' t2] by (simp add: evaluate_approval_window_boundary_def d'_def)
  also have "\<dots> \<longleftrightarrow> ?spec"
    using allowed stamped False
    by (auto simp: d'_def bind_allows bind_evidence holds_at_def split: if_splits)
  finally show ?thesis .
qed

text \<open>
  The boundary of dispatch, callback and submission allows exactly when the proposal is valid
  at both readings of the clock and is either a protective exit, or has known open evidence of its
  session that is still open at the second reading and, where the card must carry the policy
  stamp, the stamp of this very evidence.
\<close>

theorem boundary_allows_only_open_sessions:
  "(\<exists>d. evaluate_approval_window_boundary env (evaluate_approval_window env resolver) expected
          require_stamp grp (Aware t1) (Aware t2) = Inr d \<and> window_allowed d) \<longleftrightarrow>
     live_at grp t1 \<and> live_at grp t2 \<and>
     (truthy (g_exit_intent grp) \<or>
      (\<exists>ev. resolver grp t1 = Inr ev \<and> se_allowed_now ev \<and> holds_at ev t2 \<and>
         (if require_stamp then expected = Some (policy_stamp (we_stamp_hash env) grp (Some ev)) else True)))"
  by (rule boundary_allows)

text \<open>Expiry is decided before any calendar: a dead proposal has one answer for all resolvers.\<close>

lemma expiry_outranks_the_calendar:
  assumes "\<not> live_at grp t"
  shows "\<exists>d. wd_code d \<in> {EXPIRED, INVALID_VALID_UNTIL} \<and>
    (\<forall>resolver. evaluate_approval_window env resolver grp (Aware t) = Inr d)"
proof (cases "truthy (g_exit_intent grp)")
  case True
  then show ?thesis using assms
    by (auto simp: evaluate_approval_window_def require_def exemption_cases valid_until_block_column
        live_at_def decide_def split: option.splits)
next
  case False
  then show ?thesis using assms
    by (auto simp: evaluate_approval_window_def require_def exemption_cases valid_until_block_column
        live_at_def decide_def split: option.splits)
qed

section \<open>The evidence behind an open session\<close>

lemma containing_window_found:
  assumes "w \<in> set ws" and "window_contains w t"
  obtains w' where "containing_window ws t = Some w'" and "w' \<in> set ws" and "window_contains w' t"
  using assms by (cases "containing_window ws t") (auto simp: containing_window_def find_None_iff dest: find_SomeD)

lemma kr_windows_member:
  assumes "TossKrMarketDay d pre regular after \<in> set cal"
    and "(allow \<and> (w = pre \<or> w = after)) \<or> w = regular" and "opt_contains w t"
  shows "\<exists>x \<in> set (toss_kr_windows cal allow). window_contains x t"
proof -
  obtain x where x: "w = Some x" and c: "window_contains x t"
    using assms(3) by (cases w) (auto simp: opt_contains_def)
  have "x \<in> set (toss_kr_windows cal allow)"
    using assms(1,2) x by (force simp: toss_kr_windows_def opt_list_def intro!: bexI [OF _ assms(1)])
  then show ?thesis using c by blast
qed

lemma us_windows_member:
  assumes "TossUsMarketDay d dm pre regular after \<in> set cal" and "opt_contains regular t"
  shows "\<exists>x \<in> set (toss_us_regular_windows cal). window_contains x t"
proof -
  obtain x where x: "regular = Some x" and c: "window_contains x t"
    using assms(2) by (cases regular) (auto simp: opt_contains_def)
  have "x \<in> set (toss_us_regular_windows cal)"
    using x by (force simp: toss_us_regular_windows_def opt_list_def intro!: bexI [OF _ assms(1)])
  then show ?thesis using c by blast
qed

lemma toss_us_open:
  assumes "se_allowed_now (resolve_toss_us_session env t)"
  shows "\<exists>cal w. we_toss_us env (kst_date t) = Some cal \<and> w \<in> set (toss_us_regular_windows cal) \<and>
    window_contains w t \<and> se_allowed_until (resolve_toss_us_session env t) = Some (sw_end w)"
proof -
  obtain cal where cal: "we_toss_us env (kst_date t) = Some cal"
    using assms by (cases "we_toss_us env (kst_date t)") (simp_all add: resolve_toss_us_session_def unknown_evidence_def)
  have "session_or_closed (us_toss_session_for t cal) = ''regular''"
    using assms cal by (auto simp: resolve_toss_us_session_def unknown_evidence_def Let_def split: if_splits)
  then have s: "us_toss_session_for t cal = Some ''regular''"
    by (cases "us_toss_session_for t cal") (auto simp: session_or_closed_def split: if_splits)
  obtain x where "x \<in> set (toss_us_regular_windows cal)" "window_contains x t"
    using us_session_window [OF s] us_windows_member by blast
  then obtain w where w: "containing_window (toss_us_regular_windows cal) t = Some w"
    "w \<in> set (toss_us_regular_windows cal)" "window_contains w t"
    by (rule containing_window_found)
  then show ?thesis
    using assms cal s by (auto simp: resolve_toss_us_session_def unknown_evidence_def Let_def split: if_splits)
qed

lemma xnys_open:
  assumes "se_allowed_now (resolve_xnys_session env t)"
  shows "\<exists>o1 u. regular_session_bounds (we_exchange env) ''us'' (we_ny_date env t) = Some (o1, u) \<and>
    o1 \<le> t \<and> t < u \<and> se_allowed_until (resolve_xnys_session env t) = Some u"
  using assms by (auto simp: resolve_xnys_session_def unknown_evidence_def Let_def split: if_splits option.splits)

definition nxt_carries :: "window_environment \<Rightarrow> string \<Rightarrow> int \<Rightarrow> bool" where
  "nxt_carries env symbol t \<longleftrightarrow>
     (case we_nxt env symbol of Inr (Some n) \<Rightarrow> nxt_tradable n \<and> \<not> nxt_is_stale t n | _ \<Rightarrow> False)"

lemma nxt_capability_carries:
  "nxt_capability env symbol t = (True, True, detail) \<Longrightarrow> nxt_carries env symbol t"
  by (auto simp: nxt_capability_def nxt_carries_def split: sum.splits option.splits if_splits)

lemma kr_open:
  assumes "se_allowed_now (resolve_kr_session env symbol t)"
  shows "(\<exists>o1 u. regular_session_bounds (we_exchange env) ''kr'' (kst_date t) = Some (o1, u) \<and>
      o1 \<le> t \<and> t < u \<and> se_allowed_until (resolve_kr_session env symbol t) = Some u) \<or>
    (nxt_carries env symbol t \<and> (\<exists>cal w. we_toss_kr env (kst_date t) = Some cal \<and>
      w \<in> set (toss_kr_windows cal True) \<and> window_contains w t \<and>
      se_allowed_until (resolve_kr_session env symbol t) = Some (sw_end w)))"
proof (cases "case regular_session_bounds (we_exchange env) ''kr'' (kst_date t) of
    Some (o1, c) \<Rightarrow> o1 \<le> t \<and> t < c | None \<Rightarrow> False")
  case True
  then show ?thesis
    by (auto simp: resolve_kr_session_def Let_def split: option.splits prod.splits)
next
  case False
  obtain known ok detail where n: "nxt_capability env symbol t = (known, ok, detail)"
    by (cases "nxt_capability env symbol t") auto
  obtain cal where cal: "we_toss_kr env (kst_date t) = Some cal"
    using assms False n
    by (cases "we_toss_kr env (kst_date t)") (simp_all add: resolve_kr_session_def unknown_evidence_def)
  define session where "session = session_or_closed (kr_toss_session_for t cal)"
  have open_session: "session \<noteq> ''regular''" "\<not> (session \<in> NXT_SESSIONS \<and> \<not> known)"
    "session \<in> set (kr_allowed_sessions (known \<and> ok))"
    using assms False n cal
    by (auto simp: resolve_kr_session_def unknown_evidence_def Let_def session_def split: if_splits)
  then have ok: "known" "ok" and s: "session = ''nxt_premarket'' \<or> session = ''nxt_after''"
    by (auto simp: kr_allowed_sessions_def split: if_splits)
  have some: "kr_toss_session_for t cal = Some session"
    using s by (auto simp: session_def session_or_closed_def truthy_def split: if_splits option.splits)
  obtain x where "x \<in> set (toss_kr_windows cal True)" "window_contains x t"
    using kr_session_window [OF some] s kr_windows_member [of _ _ _ _ cal True _ t] by fastforce
  then obtain w where w: "containing_window (toss_kr_windows cal True) t = Some w"
    "w \<in> set (toss_kr_windows cal True)" "window_contains w t"
    by (rule containing_window_found)
  have "se_allowed_until (resolve_kr_session env symbol t) = Some (sw_end w)"
    using False n cal open_session ok w(1)
    by (simp add: resolve_kr_session_def Let_def session_def)
  moreover have "nxt_carries env symbol t" using nxt_capability_carries n ok by simp
  ultimately show ?thesis using cal w(2,3) by blast
qed

lemma kr_closed_names_next:
  assumes "se_known (resolve_kr_session env symbol t)" and "\<not> se_allowed_now (resolve_kr_session env symbol t)"
  shows "se_next_allowed_at (resolve_kr_session env symbol t) \<noteq> None"
proof -
  obtain known ok detail where n: "nxt_capability env symbol t = (known, ok, detail)"
    by (cases "nxt_capability env symbol t") auto
  have closed: "\<not> (case regular_session_bounds (we_exchange env) ''kr'' (kst_date t) of
      Some (o1, c) \<Rightarrow> o1 \<le> t \<and> t < c | None \<Rightarrow> False)"
    using assms(2) n unfolding resolve_kr_session_def Let_def by (auto split: if_splits)
  obtain cal where cal: "we_toss_kr env (kst_date t) = Some cal"
    using assms(1) n closed
    by (cases "we_toss_kr env (kst_date t)") (simp_all add: resolve_kr_session_def unknown_evidence_def)
  show ?thesis
    using assms n closed cal
    by (auto simp: resolve_kr_session_def unknown_evidence_def Let_def split: if_splits)
qed

lemma closed_names_next:
  assumes "se_known (resolve_submission_session env grp t)"
    and "\<not> se_allowed_now (resolve_submission_session env grp t)"
  shows "se_next_allowed_at (resolve_submission_session env grp t) \<noteq> None"
proof -
  have us: "se_known (resolve_toss_us_session env t) \<Longrightarrow> \<not> se_allowed_now (resolve_toss_us_session env t) \<Longrightarrow>
      se_next_allowed_at (resolve_toss_us_session env t) \<noteq> None"
    by (cases "we_toss_us env (kst_date t)")
      (auto simp: resolve_toss_us_session_def unknown_evidence_def Let_def split: if_splits)
  have ny: "se_known (resolve_xnys_session env t) \<Longrightarrow> \<not> se_allowed_now (resolve_xnys_session env t) \<Longrightarrow>
      se_next_allowed_at (resolve_xnys_session env t) \<noteq> None"
    by (auto simp: resolve_xnys_session_def unknown_evidence_def Let_def split: if_splits option.splits)
  have kr: "se_known (resolve_kr_session env x t) \<Longrightarrow> \<not> se_allowed_now (resolve_kr_session env x t) \<Longrightarrow>
      se_next_allowed_at (resolve_kr_session env x t) \<noteq> None" for x
    by (rule kr_closed_names_next)
  show ?thesis
    using assms us ny kr by (auto simp: resolve_submission_session_def unknown_evidence_def Let_def split: if_splits)
qed

text \<open>
  A session the evidence calls open is open: on the 24x7 market, inside a Toss regular window,
  inside the exchange's session, or (Korea only) inside a Toss window of the day for a symbol that
  fresh evidence shows tradable on NXT; and the advertised end is the end of that very window.
\<close>

theorem open_session_is_grounded:
  assumes "se_allowed_now (resolve_submission_session env grp t)"
  shows "(g_market grp = ''crypto'' \<and> g_account_mode grp = ''upbit'') \<or>
    (g_market grp = ''equity_us'' \<and> g_account_mode grp = ''toss_live'' \<and>
     (\<exists>cal w. we_toss_us env (kst_date t) = Some cal \<and> w \<in> set (toss_us_regular_windows cal) \<and>
       window_contains w t \<and> se_allowed_until (resolve_submission_session env grp t) = Some (sw_end w))) \<or>
    (g_market grp = ''equity_us'' \<and> g_account_mode grp = ''kis_live'' \<and>
     (\<exists>o1 u. regular_session_bounds (we_exchange env) ''us'' (we_ny_date env t) = Some (o1, u) \<and>
       o1 \<le> t \<and> t < u \<and> se_allowed_until (resolve_submission_session env grp t) = Some u)) \<or>
    (g_market grp = ''equity_kr'' \<and>
     ((\<exists>o1 u. regular_session_bounds (we_exchange env) ''kr'' (kst_date t) = Some (o1, u) \<and>
        o1 \<le> t \<and> t < u \<and> se_allowed_until (resolve_submission_session env grp t) = Some u) \<or>
      (nxt_carries env (g_symbol grp) t \<and>
       (\<exists>cal w. we_toss_kr env (kst_date t) = Some cal \<and> w \<in> set (toss_kr_windows cal True) \<and>
         window_contains w t \<and> se_allowed_until (resolve_submission_session env grp t) = Some (sw_end w)))))"
proof -
  let ?m = "g_market grp" and ?a = "g_account_mode grp"
  consider "?m = ''crypto'' \<and> ?a = ''upbit''" | "?m = ''equity_us'' \<and> ?a = ''toss_live''"
    | "?m = ''equity_us'' \<and> ?a = ''kis_live''" | "?m = ''equity_kr'' \<and> ?a \<in> {''kis_live'', ''toss_live''}"
    | "resolve_submission_session env grp t = unknown_evidence ''unsupported_submission_contract'' ''unknown'' []
         (''unsupported:'' @ ?a @ ''/'' @ ?m)"
    unfolding resolve_submission_session_def Let_def by presburger
  then show ?thesis
  proof cases
    case 2
    then have "resolve_submission_session env grp t = resolve_toss_us_session env t"
      by (simp add: resolve_submission_session_def)
    then show ?thesis using 2 assms toss_us_open [of env t] by simp
  next
    case 3
    then have "resolve_submission_session env grp t = resolve_xnys_session env t"
      by (simp add: resolve_submission_session_def)
    then show ?thesis using 3 assms xnys_open [of env t] by simp
  next
    case 4
    then have "resolve_submission_session env grp t = resolve_kr_session env (g_symbol grp) t"
      by (auto simp: resolve_submission_session_def)
    then show ?thesis using 4 assms kr_open [of env "g_symbol grp" t] by simp
  qed (use assms in \<open>simp_all add: unknown_evidence_def\<close>)
qed

definition sample_window_env :: window_environment where
  "sample_window_env =
     \<lparr>we_stamp_hash = (\<lambda>s. s), we_ny_date = (\<lambda>t. t div days 1), we_exchange = (\<lambda>_ _. NoSession),
      we_toss_kr = (\<lambda>d. Some [TossKrMarketDay d
         (Some \<lparr>sw_start = d * days 1 - hours 1, sw_end = d * days 1\<rparr>)
         (Some \<lparr>sw_start = d * days 1, sw_end = d * days 1 + hours 6\<rparr>) None]),
      we_toss_us = (\<lambda>_. None),
      we_nxt = (\<lambda>_. Inr (Some \<lparr>nx_eligible = True, nx_suspended = Some False, nx_asof = Some 0\<rparr>))\<rparr>"

definition kr_group :: order_proposal where
  "kr_group = sample_group\<lparr>g_market := ''equity_kr'', g_account_mode := ''kis_live''\<rparr>"

text \<open>Eight in the morning in Korea, a pre-market minute of NXT.\<close>

lemma kr_group_fields:
  "g_market kr_group = ''equity_kr''" "g_account_mode kr_group = ''kis_live''"
  "g_valid_until kr_group = Some (hours 10)"
  by (simp_all add: kr_group_def sample_group_def new_group_def)

lemma open_session_is_grounded_witness:
  "nxt_carries sample_window_env (g_symbol kr_group) (- hours 1)"
proof -
  have "se_allowed_now (resolve_submission_session sample_window_env kr_group (- hours 1))" by code_simp
  from open_session_is_grounded [OF this] show ?thesis
    by (simp add: kr_group_fields) (simp add: sample_window_env_def regular_session_bounds_def)
qed

text \<open>
  A closed but known session defers with the next allowed session named, and it defers only
  when that session comes before the proposal dies; otherwise the answer is that none is executable.
\<close>

theorem deferral_names_an_executable_session:
  assumes "evaluate_approval_window env (\<lambda>g x. Inr (resolve_submission_session env g x)) grp (Aware t) = Inr d"
    and "wd_code d \<in> {DEFER_SESSION_CLOSED, NO_EXECUTABLE_WINDOW}"
  shows "\<exists>ev n v. wd_evidence d = Some ev \<and> se_next_allowed_at ev = Some n \<and> g_valid_until grp = Some v \<and>
    t < v \<and> (wd_code d = DEFER_SESSION_CLOSED \<longleftrightarrow> n < v)"
proof -
  let ?ev = "resolve_submission_session env grp t"
  have named: "se_known ?ev \<Longrightarrow> \<not> se_allowed_now ?ev \<Longrightarrow> se_next_allowed_at ?ev \<noteq> None"
    by (rule closed_names_next)
  have live: "\<not> truthy (g_exit_intent grp)" "\<exists>v. g_valid_until grp = Some v \<and> t < v"
    using assms by (auto simp: evaluate_approval_window_def require_def exemption_cases valid_until_block_column
        decide_def Let_def split: option.splits if_splits)
  then obtain v where v: "g_valid_until grp = Some v" "t < v" by blast
  have d: "d = decide_by_evidence env grp t v ?ev"
    using assms(1) live v
    by (simp add: evaluate_approval_window_def require_def exemption_cases valid_until_block_column resolver_evidence_def)
  show ?thesis
    using assms(2) v named by (auto simp: d decide_by_evidence_def decide_def Let_def split: if_splits option.splits)
qed

lemma deferral_names_an_executable_session_witness:
  "\<exists>d ev n v. evaluate_approval_window sample_window_env
      (\<lambda>g x. Inr (resolve_submission_session sample_window_env g x)) kr_group (Aware (- hours 2)) = Inr d \<and>
    wd_evidence d = Some ev \<and> se_next_allowed_at ev = Some n \<and> g_valid_until kr_group = Some v \<and> n < v"
proof -
  have "case evaluate_approval_window sample_window_env
      (\<lambda>g x. Inr (resolve_submission_session sample_window_env g x)) kr_group (Aware (- hours 2)) of
      Inr d \<Rightarrow> wd_code d = DEFER_SESSION_CLOSED | Inl _ \<Rightarrow> False" by code_simp
  then obtain d where d: "evaluate_approval_window sample_window_env
      (\<lambda>g x. Inr (resolve_submission_session sample_window_env g x)) kr_group (Aware (- hours 2)) = Inr d"
    and c: "wd_code d = DEFER_SESSION_CLOSED" by (auto split: sum.splits)
  show ?thesis using deferral_names_an_executable_session [OF d] c d by fastforce
qed

end
