(* ===== verification/RungWrites.thy ===== *)
theory RungWrites
  imports Revalidation ProposalRuns WindowSafety
begin

text \<open>
  What a write of the submission path does to the one rung it names, and that it succeeds: the
  lifecycle writers of \<open>ProposalService\<close> and \<open>ProposalEvidence\<close> as total steps from the states in
  which \<open>revalidation.py\<close> calls them, with every other rung of the proposal left as it is.
\<close>

section \<open>A rung of the store\<close>

text \<open>The rung \<open>i\<close> of the proposal is in state \<open>st\<close>, in a well-formed store.\<close>

definition rung_in :: "store \<Rightarrow> order_proposal \<Rightarrow> int \<Rightarrow> rung_state \<Rightarrow> bool" where
  "rung_in s grp i st \<longleftrightarrow> wf_store s \<and>
     (\<exists>g r. get_locked_rung (g_proposal_id grp) i s = Inr (g, r) \<and> g_id g = g_id grp \<and>
        g_valid_until g = g_valid_until grp \<and> r_state r = st)"

text \<open>
  The dispatch attempts, and the columns of a group that bind its next card or its audit, are not touched;
  a nonce can only be dropped.
\<close>

definition card_columns :: "order_proposal \<Rightarrow> int \<times> uuid option \<times> int option \<times> dict option \<times> int option" where
  "card_columns g =
     (g_id g, g_superseded_by_proposal_id g, g_approval_dispatch_membership_revision g, g_source_asof g,
      g_approval_nonce_used_at g)"

definition nonce_kept :: "order_proposal \<Rightarrow> order_proposal \<Rightarrow> bool" where
  "nonce_kept g g' \<longleftrightarrow> g_approval_nonce g' \<in> {None, g_approval_nonce g}"

definition untouched :: "store \<Rightarrow> store \<Rightarrow> bool" where
  "untouched s s' \<longleftrightarrow> db_attempts s' = db_attempts s \<and>
     map card_columns (db_groups s') = map card_columns (db_groups s) \<and>
     list_all2 nonce_kept (db_groups s) (db_groups s')"

lemma nonce_kept_refl [simp, intro]: "nonce_kept g g"
  by (simp add: nonce_kept_def)

lemma untouched_refl [simp, intro]: "untouched s s"
  by (simp add: untouched_def list_all2_same)

lemma nonce_kept_trans: "nonce_kept a b \<Longrightarrow> nonce_kept b c \<Longrightarrow> nonce_kept a c"
  by (auto simp: nonce_kept_def)

lemma untouched_trans: "untouched s t \<Longrightarrow> untouched t u \<Longrightarrow> untouched s u"
  using list_all2_trans [of nonce_kept nonce_kept nonce_kept "db_groups s" "db_groups t" "db_groups u"] nonce_kept_trans
  unfolding untouched_def by auto

lemma untouched_put:
  assumes "wf_store s" and "g0 \<in> set (db_groups s)" and "card_columns g = card_columns g0" and "nonce_kept g0 g"
  shows "untouched s (put_group g (put_rung r s))"
proof -
  have i: "g_id g = g_id g0" using assms(3) by (simp add: card_columns_def)
  have "map card_columns (db_groups (put_group g (put_rung r s))) = map card_columns (db_groups (put_rung r s))"
    using assms i by (intro groups.map_put_frame [of "put_rung r s" g0]) (simp_all add: wf_store_def)
  moreover have "list_all2 nonce_kept (db_groups s) (db_groups (put_group g (put_rung r s)))"
    using assms i same_row [of g_id "db_groups s" _ g0]
    by (auto simp: put_group_def write_row_def list_all2_map2 list_all2_same wf_store_def)
  ultimately show ?thesis by (simp add: untouched_def)
qed

definition moves :: "order_proposal \<Rightarrow> int \<Rightarrow> store \<Rightarrow> store \<Rightarrow> bool" where
  "moves grp i s s' \<longleftrightarrow> evolves {} s s' \<and> untouched s s' \<and> (\<forall>j st. j \<noteq> i \<longrightarrow> rung_in s grp j st \<longrightarrow> rung_in s' grp j st)"

lemma rung_in_wf: "rung_in s grp i st \<Longrightarrow> wf_store s"
  by (simp add: rung_in_def)

lemma moves_refl: "wf_store s \<Longrightarrow> moves grp i s s"
  by (auto simp: moves_def)

lemma moves_trans: "moves grp i s t \<Longrightarrow> moves grp i t u \<Longrightarrow> moves grp i s u"
  unfolding moves_def by (metis evolves_trans untouched_trans)

lemma group_is:
  assumes wf: "wf_store s" and g: "g \<in> set (db_groups s)"
  shows "get_group_by_proposal_id s (g_proposal_id g) = Some g"
proof -
  obtain x where x: "find (\<lambda>y. g_proposal_id y = g_proposal_id g) (db_groups s) = Some x"
    using find_some_ex [OF g, of "\<lambda>y. g_proposal_id y = g_proposal_id g"] by blast
  moreover have "distinct (map g_proposal_id (db_groups s))" using wf by (simp add: wf_store_def)
  ultimately have "x = g" using same_row [OF _ _ g] find_SomeD [OF x] by blast
  then show ?thesis using x by (simp add: get_group_by_proposal_id_def)
qed

lemma locked_rung_is:
  assumes wf: "wf_store s" and g: "g \<in> set (db_groups s)" and r: "r \<in> set (db_rungs s)"
    and pk: "r_proposal_pk r = g_id g"
  shows "get_locked_rung (g_proposal_id g) (r_rung_index r) s = Inr (g, r)"
proof -
  have distinct: "distinct (map (\<lambda>r. (r_proposal_pk r, r_rung_index r)) (db_rungs s))"
    using wf by (simp add: wf_store_def)
  have "get_group_by_proposal_id s (g_proposal_id g) = Some g" by (rule group_is [OF wf g])
  moreover have "find (\<lambda>y. r_rung_index y = r_rung_index r) (list_rungs s (g_id g)) = Some r"
  proof -
    have m: "r \<in> set (list_rungs s (g_id g))" using r pk by simp
    then obtain x where x: "find (\<lambda>y. r_rung_index y = r_rung_index r) (list_rungs s (g_id g)) = Some x"
      using find_some_ex [OF m, of "\<lambda>y. r_rung_index y = r_rung_index r"] by blast
    then have "x \<in> set (db_rungs s)" "r_proposal_pk x = g_id g" "r_rung_index x = r_rung_index r"
      using find_SomeD [OF x] by auto
    then have "x = r" using same_row [OF distinct _ r] pk by simp
    then show ?thesis using x by simp
  qed
  ultimately show ?thesis by (simp add: get_locked_rung_def)
qed

lemma group_payload_fields:
  "group_payload g = group_payload g0 \<Longrightarrow>
     g_id g = g_id g0 \<and> g_proposal_id g = g_proposal_id g0 \<and> g_valid_until g = g_valid_until g0"
  by (simp add: group_payload_def)

text \<open>A rung is rewritten, then a group of its proposal: the other rungs keep their rows.\<close>

lemma written_rung_in:
  assumes at_i: "get_locked_rung (g_proposal_id grp) i s = Inr (g0, r0)" and wf: "wf_store s"
    and ids: "g_id g0 = g_id grp" "g_valid_until g0 = g_valid_until grp"
    and r: "rung_payload r = rung_payload r0" and g: "group_payload g = group_payload g0"
    and s': "s' = put_group g (put_rung r s)" and wf': "wf_store s'"
  shows "rung_in s' grp i (r_state r) \<and> (\<forall>j st. j \<noteq> i \<longrightarrow> rung_in s grp j st \<longrightarrow> rung_in s' grp j st)"
proof -
  note lk = get_locked_rung_Inr [OF at_i]
  note gf = group_payload_fields [OF g]
  have rf: "r_id r = r_id r0" "r_proposal_pk r = r_proposal_pk r0" "r_rung_index r = r_rung_index r0"
    using r by (auto simp: rung_payload_def)
  have gs: "db_groups (put_rung r s) = db_groups s" by (simp add: put_rung_def)
  have wf1: "wf_store (put_rung r s)" by (rule wf_put_rung [OF wf lk(3) r])
  have in_g: "g \<in> set (db_groups s')"
    using put_group_rows [OF wf1, of g0 g g] lk(1) gs g by (simp add: s')
  have rungs: "db_rungs s' = db_rungs (put_rung r s)" by (simp add: s' put_group_def)
  have in_r: "r \<in> set (db_rungs s')" using put_rung_rows [OF wf lk(3) rf(1)] rungs by simp
  have "get_locked_rung (g_proposal_id grp) i s' = Inr (g, r)"
    using locked_rung_is [OF wf' in_g in_r] lk gf rf by simp
  moreover have "rung_in s' grp j st" if "j \<noteq> i" "rung_in s grp j st" for j st
  proof -
    from that(2) obtain g1 r1 where j: "get_locked_rung (g_proposal_id grp) j s = Inr (g1, r1)" "r_state r1 = st"
      by (auto simp: rung_in_def)
    note lj = get_locked_rung_Inr [OF j(1)]
    have "g1 = g0" using j(1) at_i by (auto simp: get_locked_rung_def bindR_eq_Inr)
    moreover have "r_id r1 \<noteq> r_id r"
      using that(1) lj(3,5) lk(3,5) rf(1) wf same_row [of r_id "db_rungs s" r1 r0] by (auto simp: wf_store_def)
    then have "r1 \<in> set (db_rungs s')" using put_rung_rows [OF wf lk(3) rf(1)] lj(3) rungs by simp
    ultimately have "get_locked_rung (g_proposal_id grp) j s' = Inr (g, r1)"
      using locked_rung_is [OF wf' in_g, of r1] lj lk gf by simp
    then show ?thesis using wf' gf ids j(2) by (auto simp: rung_in_def)
  qed
  ultimately show ?thesis using wf' gf ids by (auto simp: rung_in_def)
qed

lemma locked_step:
  assumes lk: "get_locked_rung (g_proposal_id grp) i s = Inr (g0, r0)" and wf: "wf_store s"
    and ids: "g_id g0 = g_id grp" "g_valid_until g0 = g_valid_until grp"
    and allowed: "new \<in> ALLOWED (r_state r0)" and frame: "audit_frame audit"
  obtains s' r' where "transition_locked_rung g0 r0 new audit s = Inr (s', r')"
    and "rung_in s' grp i new" and "moves grp i s s'"
proof -
  from allowed obtain s' r' where ok: "transition_locked_rung g0 r0 new audit s = Inr (s', r')"
    by (auto simp: transition_locked_rung_def check_transition_ok map_error_def Let_def split_def)
  note t = transition_locked_rung_Inr [OF ok] and l = get_locked_rung_Inr [OF lk]
  have e: "evolves {} s s'" by (rule transition_locked_rung_evolves [OF wf l(1,3,4) frame ok])
  have pay: "rung_payload r' = rung_payload r0" "r_state r' = new"
    using t(2) frame by (auto simp: audit_frame_def rung_payload_def)
  have "rung_in s' grp i (r_state r') \<and> (\<forall>j st. j \<noteq> i \<longrightarrow> rung_in s grp j st \<longrightarrow> rung_in s' grp j st)"
    by (rule written_rung_in [OF lk wf ids pay(1) _ t(3) evolves_wf [OF e]]) (simp add: group_payload_def)
  moreover have "untouched s s'"
    using untouched_put [OF wf l(1)] t(3) by (simp add: card_columns_def nonce_kept_def)
  ultimately show thesis using that [OF ok] e pay(2) by (simp add: moves_def)
qed

lemma rung_step:
  assumes "rung_in s grp i st" and "new \<in> ALLOWED st" and "audit_frame audit"
  obtains s' r' where "transition_rung (g_proposal_id grp) i new audit s = Inr (s', r')"
    and "rung_in s' grp i new" and "moves grp i s s'"
proof -
  from assms(1) obtain g r where lk: "get_locked_rung (g_proposal_id grp) i s = Inr (g, r)"
    and f: "g_id g = g_id grp" "g_valid_until g = g_valid_until grp" "r_state r = st" and wf: "wf_store s"
    by (auto simp: rung_in_def)
  obtain s' r' where "transition_locked_rung g r new audit s = Inr (s', r')"
    and "rung_in s' grp i new" and "moves grp i s s'"
    using locked_step [OF lk wf f(1,2) _ assms(3)] assms(2) f(3) by auto
  then show thesis using that lk by (simp add: transition_rung_def)
qed

section \<open>The writers succeed\<close>

definition writes :: "order_proposal \<Rightarrow> int \<Rightarrow> rung_state \<Rightarrow> store \<Rightarrow> (svc_error, store \<times> 'a) result \<Rightarrow> bool" where
  "writes grp i st s m \<longleftrightarrow> (\<exists>s' x. m = Inr (s', x) \<and> rung_in s' grp i st \<and> moves grp i s s')"

lemma transition_writes:
  "rung_in s grp i st \<Longrightarrow> new \<in> ALLOWED st \<Longrightarrow> audit_frame audit \<Longrightarrow>
     writes grp i new s (transition_rung (g_proposal_id grp) i new audit s)"
  using rung_step [of s grp i st new audit] unfolding writes_def by metis

lemma audit_id: "audit_frame id"
  by (simp add: audit_frame_def)

lemma back_to_pending_writes:
  "rung_in s grp i st \<Longrightarrow> st \<in> in_flight \<Longrightarrow> writes grp i PendingApproval s (back_to_pending grp i s)"
  unfolding back_to_pending_def by (rule transition_writes [OF _ _ audit_id], assumption) (auto simp: in_flight_def)

lemma record_ack_writes:
  "rung_in s grp i Submitting \<Longrightarrow>
     writes grp i Acked s (record_ack (g_proposal_id grp) i bo co ik dg (Aware t) s)"
  unfolding record_ack_def by (simp, rule transition_writes [OF _ _ submit_audits(1)], auto)

lemma record_resting_writes:
  "rung_in s grp i Submitting \<Longrightarrow>
     writes grp i Resting s (record_resting (g_proposal_id grp) i bo co ik dg (Aware t) s)"
  unfolding record_resting_def by (simp, rule transition_writes [OF _ _ submit_audits(1)], auto)

lemma record_cancelled_writes:
  "rung_in s grp i Submitting \<Longrightarrow>
     writes grp i Cancelled s (record_cancelled (g_proposal_id grp) i bo (Aware t) s)"
  unfolding record_cancelled_def by (simp, rule transition_writes [OF _ _ submit_audits(2)], auto)

lemma record_rejected_writes:
  "rung_in s grp i st \<Longrightarrow> st \<in> {Revalidating, Submitting} \<Longrightarrow>
     writes grp i Rejected s (record_rejected (g_proposal_id grp) i why (Aware t) s)"
  unfolding record_rejected_def by (simp, rule transition_writes [OF _ _ submit_audits(3)], auto)

lemma record_unverified_writes:
  "rung_in s grp i Submitting \<Longrightarrow>
     writes grp i Unverified s (record_unverified (g_proposal_id grp) i why (Aware t) co ik s)"
  unfolding record_unverified_def
  by (simp only: require_timezone_aware_simps bindR_simps, rule transition_writes [OF _ _ submit_audits(6)], auto)

lemma mark_needs_reconfirm_writes:
  assumes "rung_in s grp i Revalidating"
  shows "writes grp i NeedsReconfirm s (mark_needs_reconfirm (g_proposal_id grp) i (Aware t) s)"
proof -
  from assms obtain g r where lk: "get_locked_rung (g_proposal_id grp) i s = Inr (g, r)"
    and f: "g_id g = g_id grp" "g_valid_until g = g_valid_until grp" "r_state r = Revalidating" and wf: "wf_store s"
    by (auto simp: rung_in_def)
  have "NeedsReconfirm \<in> ALLOWED (r_state r)" by (simp add: f(3))
  from locked_step [OF lk wf f(1,2) this submit_audits(4)]
  show ?thesis unfolding writes_def mark_needs_reconfirm_def by (simp add: lk) metis
qed

definition expired_at :: "order_proposal \<Rightarrow> int \<Rightarrow> bool" where
  "expired_at grp t \<longleftrightarrow> (case g_valid_until grp of None \<Rightarrow> False | Some v \<Rightarrow> v \<le> t)"

definition after_expiry :: "order_proposal \<Rightarrow> int \<Rightarrow> rung_state" where
  "after_expiry grp t = (if expired_at grp t then Expired else PendingApproval)"

lemma expire_write_shape:
  obtains r g where "expire_rung_write t g0 r0 i s = put_group g (put_rung r s)"
    and "rung_payload r = rung_payload r0" and "r_state r = Expired" and "group_payload g = group_payload g0"
    and "card_columns g = card_columns g0" and "nonce_kept g0 g"
proof -
  let ?r = "stamp t (r0\<lparr>r_updated_at := db_now s, r_state := Expired\<rparr>)"
  have p: "rung_payload ?r = rung_payload r0" "r_state ?r = Expired"
    by (simp_all add: stamp_def rung_payload_def)
  have "\<exists>g. expire_rung_write t g0 r0 i s = put_group g (put_rung ?r s) \<and> group_payload g = group_payload g0 \<and>
      card_columns g = card_columns g0 \<and> nonce_kept g0 g"
    by (auto simp: card_columns_def nonce_kept_def expire_rung_write_def update_rung_def rollup_def update_group_def Let_def
        split_def group_payload_def)
  then show thesis using that p by blast
qed

lemma expire_voidable_writes:
  assumes at_i: "rung_in s grp i st" and st: "st \<in> VOIDABLE_RUNG_STATES"
  shows "writes grp i (if expired_at grp t then Expired else st) s (expire_rung_if_needed (g_proposal_id grp) i (Aware t) s)"
proof -
  from assms obtain g r where lk: "get_locked_rung (g_proposal_id grp) i s = Inr (g, r)"
    and f: "g_id g = g_id grp" "g_valid_until g = g_valid_until grp" "r_state r = st" and wf: "wf_store s"
    by (auto simp: rung_in_def)
  show ?thesis
  proof (cases "expired_at grp t")
    case False
    then have "expire_rung_if_needed (g_proposal_id grp) i (Aware t) s = Inr (s, False)"
      using lk f by (auto simp: expire_rung_if_needed_def valid_until_block_column map_error_def expired_at_def
          split: option.splits)
    then show ?thesis using at_i False moves_refl [OF wf] by (auto simp: writes_def)
  next
    case True
    have "Expired \<in> ALLOWED st" "st \<noteq> Expired" using st by (auto simp: VOIDABLE_RUNG_STATES_def)
    with True have ok: "expire_rung_if_needed (g_proposal_id grp) i (Aware t) s = Inr (expire_rung_write t g r i s, True)"
      using lk f st by (auto simp: expire_rung_if_needed_def valid_until_block_column map_error_def expired_at_def
          check_transition_ok split: option.splits)
    obtain r1 g1 where sh: "expire_rung_write t g r i s = put_group g1 (put_rung r1 s)"
      "rung_payload r1 = rung_payload r" "r_state r1 = Expired" "group_payload g1 = group_payload g"
      "card_columns g1 = card_columns g" "nonce_kept g g1"
      by (rule expire_write_shape)
    have e: "evolves {} s (expire_rung_write t g r i s)" by (rule expire_rung_if_needed_evolves [OF wf ok])
    have "rung_in (expire_rung_write t g r i s) grp i Expired \<and>
        (\<forall>j st. j \<noteq> i \<longrightarrow> rung_in s grp j st \<longrightarrow> rung_in (expire_rung_write t g r i s) grp j st)"
      using written_rung_in [OF lk wf f(1,2) sh(2,4,1) evolves_wf [OF e]] sh(3) by simp
    moreover have "untouched s (expire_rung_write t g r i s)"
      unfolding sh(1) by (rule untouched_put [OF wf get_locked_rung_Inr(1) [OF lk] sh(5,6)])
    ultimately show ?thesis using ok e True by (auto simp: writes_def moves_def)
  qed
qed

lemma expire_writes:
  "rung_in s grp i PendingApproval \<Longrightarrow>
     writes grp i (after_expiry grp t) s (expire_rung_if_needed (g_proposal_id grp) i (Aware t) s)"
  using expire_voidable_writes [of s grp i PendingApproval t] by (simp add: VOIDABLE_RUNG_STATES_def after_expiry_def)

lemma restore_writes:
  assumes at_i: "rung_in s grp i st" and flight: "st \<in> in_flight"
  shows "writes grp i (if expired then after_expiry grp t else PendingApproval) s
    (restore_rung_after_pre_send_block (g_proposal_id grp) i (Aware t) expired s)"
proof -
  from at_i obtain g r where lk: "get_locked_rung (g_proposal_id grp) i s = Inr (g, r)"
    and f: "g_id g = g_id grp" "g_valid_until g = g_valid_until grp" "r_state r = st" and wf: "wf_store s"
    by (auto simp: rung_in_def)
  have "PendingApproval \<in> ALLOWED (r_state r)" and fl: "r_state r \<in> {Revalidating, Approved, Submitting}"
    using flight f(3) by (auto simp: in_flight_def)
  from locked_step [OF lk wf f(1,2) this(1) audit_stamp_id]
  obtain s1 r1 where ok: "transition_locked_rung g r PendingApproval (stamp t) s = Inr (s1, r1)"
    and s1: "rung_in s1 grp i PendingApproval" "moves grp i s s1" by metis
  have start: "restore_rung_after_pre_send_block (g_proposal_id grp) i (Aware t) expired s =
      (if expired
       then bindR (expire_rung_if_needed (g_proposal_id grp) i (Aware t) s1) (\<lambda>(s2, _).
            bindR (get_locked_rung (g_proposal_id grp) i s2) (\<lambda>(_, rung2). Inr (s2, rung2)))
       else Inr (s1, r1))"
    using fl by (simp add: restore_rung_after_pre_send_block_def lk restore_pending_def ok)
  show ?thesis
  proof (cases expired)
    case False
    then show ?thesis using start s1 by (simp add: writes_def)
  next
    case True
    obtain s2 b where s2: "expire_rung_if_needed (g_proposal_id grp) i (Aware t) s1 = Inr (s2, b)"
      "rung_in s2 grp i (after_expiry grp t)" "moves grp i s1 s2"
      using expire_writes [OF s1(1), of t] by (auto simp: writes_def)
    then obtain g2 r2 where "get_locked_rung (g_proposal_id grp) i s2 = Inr (g2, r2)" by (auto simp: rung_in_def)
    then show ?thesis using start s2 True moves_trans [OF s1(2) s2(3)] by (auto simp: writes_def)
  qed
qed

end
