(* ===== verification/SubmitVerdict.thy ===== *)
theory SubmitVerdict
  imports RungWrites
begin

text \<open>
  The specification of \<open>revalidation.py\<close>: the final rung state, the reported outcome and the broker
  mutations as a function of the answers alone, with no store and no error, and the proof that the
  place, cancel and replace orchestrations compute it.
\<close>

section \<open>Verdicts: what the answers alone decide\<close>

type_synonym verdict = "rung_state \<times> outcome_result \<times> submit_event list"

lemma window_at_total: "\<exists>d. window_at grp p w = Inr d"
proof -
  have "\<exists>d. evaluate_approval_window_boundary (wr_env w) (evaluate_approval_window (wr_env w) (\<lambda>_ _. wr_session w))
     p True grp (Aware (wr_now1 w)) (Aware (wr_now2 w)) = Inr d"
    by (auto simp: evaluate_approval_window_boundary_def evaluate_approval_window_def exemption_cases
        recheck_approval_window_decision_def valid_until_block_column require_def Let_def
        split: option.splits sum.splits if_splits)
  then show ?thesis by (auto simp: window_at_def map_error_def)
qed

definition decision_at :: "order_proposal \<Rightarrow> string option \<Rightarrow> window_reading \<Rightarrow> window_decision" where
  "decision_at grp p w = projr (window_at grp p w)"

lemma window_at_eq [simp]: "window_at grp p w = Inr (decision_at grp p w)"
  using window_at_total [of grp p w] by (auto simp: decision_at_def)

definition block_verdict :: "order_proposal \<Rightarrow> window_decision \<Rightarrow> submit_event list \<Rightarrow> verdict" where
  "block_verdict grp d events =
     (if wd_code d = EXPIRED then after_expiry grp (wd_observed_at d) else PendingApproval,
      OutcomeWindow (window_text d), events)"

definition gate_verdict :: "order_proposal \<Rightarrow> string \<Rightarrow> window_reading \<Rightarrow> submit_event list \<Rightarrow> verdict \<Rightarrow> verdict" where
  "gate_verdict grp p w events v =
     (let d = decision_at grp (Some p) w in if window_allowed d then v else block_verdict grp d events)"

definition eligibility_verdict :: "gate_answer option \<Rightarrow> submit_event list \<Rightarrow> verdict \<Rightarrow> verdict" where
  "eligibility_verdict gate events v = (case gate of
     None \<Rightarrow> v
   | Some (GateDecision True _) \<Rightarrow> v
   | _ \<Rightarrow> (PendingApproval, ApprovalRequired, events))"

fun hook_verdict :: "window_decision list \<Rightarrow> window_decision list \<times> window_decision option" where
  "hook_verdict [] = ([], None)"
| "hook_verdict (d # ds) =
     (if window_allowed d then let (posts, blocked) = hook_verdict ds in (d # posts, blocked) else ([], Some d))"

lemma run_hooks_eq: "run_hooks grp p ws = Inr (hook_verdict (map (decision_at grp (Some p)) ws))"
  by (induction ws) (simp_all add: split_def Let_def)

definition adapted :: "order_proposal \<Rightarrow> raw_submit \<Rightarrow> submit_answer" where
  "adapted grp r = (if g_account_mode grp = ''toss_live'' then adapt_toss_submit (g_order_type grp) r
                    else adapt_live_submit (g_order_type grp) r)"

definition call_verdict ::
  "order_proposal \<Rightarrow> string \<Rightarrow> string option \<Rightarrow> window_reading list \<Rightarrow> (string, raw_submit) result
   \<Rightarrow> window_decision list \<times> window_decision option \<times> (string, submit_answer) result" where
  "call_verdict grp p identifier hooks reply =
     (if g_account_mode grp = ''toss_live'' \<and> \<not> is_valid_toss_client_order_id identifier
      then ([], None, Inr refused_toss_id)
      else let (posts, blocked) = hook_verdict (map (decision_at grp (Some p)) hooks)
           in (posts, blocked, case reply of Inl e \<Rightarrow> Inl e | Inr r \<Rightarrow> Inr (adapted grp r)))"

lemma live_call_eq: "live_call grp p identifier hooks reply = Inr (call_verdict grp p identifier hooks reply)"
  by (auto simp: live_call_def call_verdict_def run_hooks_eq adapted_def split_def Let_def split: sum.splits)

definition answer_verdict ::
  "order_proposal \<Rightarrow> string option \<Rightarrow> submit_evidence \<Rightarrow> submit_answer \<Rightarrow> submit_event list \<Rightarrow> verdict" where
  "answer_verdict grp identifier ev sb events =
     (if sb_success sb = Some False
      then (if g_account_mode grp = ''upbit'' \<and> identifier \<noteq> None \<and> se_outcome ev = EvidenceFound
            then (if se_state ev \<in> {''wait'', ''watch''} then (Resting, SubmittedResting, events)
                  else (Acked, SubmittedAcked, events))
            else if g_account_mode grp = ''upbit'' \<and> identifier \<noteq> None \<and> se_outcome ev = EvidenceUnknown
            then (Unverified, OutcomeUnverified, events)
            else (Rejected, OutcomeError, events))
      else if sb_success sb = Some True \<and> sb_broker_order_id sb \<noteq> None \<and> sb_status sb = Some ''acked''
      then (Acked, SubmittedAcked, events)
      else if sb_success sb = Some True \<and> sb_broker_order_id sb \<noteq> None \<and> sb_status sb = Some ''resting''
      then (Resting, SubmittedResting, events)
      else (Unverified, OutcomeUnverified, events))"

definition exception_verdict ::
  "order_proposal \<Rightarrow> string option \<Rightarrow> submit_evidence \<Rightarrow> string \<Rightarrow> submit_event list \<Rightarrow> verdict" where
  "exception_verdict grp identifier ev e events =
     (if g_account_mode grp = ''upbit'' then answer_verdict grp identifier ev (failed_submit e) events
      else (Unverified, OutcomeUnverified, events))"

definition reply_verdict ::
  "order_proposal \<Rightarrow> string option \<Rightarrow> submit_evidence \<Rightarrow> (string, submit_answer) result \<Rightarrow> submit_event list \<Rightarrow> verdict" where
  "reply_verdict grp identifier ev reply events = (case reply of
     Inl e \<Rightarrow> exception_verdict grp identifier ev e events
   | Inr sb \<Rightarrow> answer_verdict grp identifier ev sb events)"

text \<open>A rejected answer gives a reservation back, a rejected exception does not.\<close>

definition release_verdict :: "bool \<Rightarrow> verdict \<Rightarrow> verdict" where
  "release_verdict reserved v = (case v of (st, res, events) \<Rightarrow>
     (st, res, events @ (if res = OutcomeError then released reserved else [])))"

definition submit_verdict ::
  "(string \<Rightarrow> string) \<Rightarrow> order_proposal \<Rightarrow> int \<Rightarrow> string \<Rightarrow> place_answers \<Rightarrow> bool \<Rightarrow> submit_event list \<Rightarrow> verdict" where
  "submit_verdict sha grp i p ans reserved events =
     (let identifier = proposal_client_order_id sha grp i;
          (posts, blocked, reply) = call_verdict grp p identifier (pa_hooks ans) (pa_submit ans);
          events' = events @ map LivePost posts
      in case blocked of
        Some d \<Rightarrow> block_verdict grp d (events' @ released reserved)
      | None \<Rightarrow>
          (case reply of
             Inl e \<Rightarrow> exception_verdict grp identifier (pa_evidence ans) e events'
           | Inr sb \<Rightarrow> release_verdict reserved (answer_verdict grp identifier (pa_evidence ans) sb events')))"

definition claim_verdict ::
  "(string \<Rightarrow> string) \<Rightarrow> order_proposal \<Rightarrow> rung \<Rightarrow> preview_answer \<Rightarrow> string \<Rightarrow> place_answers \<Rightarrow> verdict" where
  "claim_verdict sha grp rung pv p ans =
     (let go = (\<lambda>reserved events. gate_verdict grp p (pa_window3 ans) (events @ released reserved)
                  (submit_verdict sha grp (r_rung_index rung) p ans reserved events));
          required = required_cash (r_quantity rung) (the (r_limit_price rung)) (pv_estimated_value pv) (pv_fee pv)
      in if r_side rung = ''buy'' \<and> r_limit_price rung \<noteq> None
         then (case pa_claim ans of
                 None \<Rightarrow> go False []
               | Some (available, _) \<Rightarrow>
                   if available < required then (NeedsReconfirm, OutcomeReconfirm, []) else go True [ClaimTaken])
         else go False [])"

definition preview_result :: "preview_answer \<Rightarrow> outcome_result" where
  "preview_result pv = (if is_guard_blocked_preview pv then GuardBlocked else OutcomeError)"

definition invalid_preview :: "(string \<Rightarrow> string) \<Rightarrow> order_proposal \<Rightarrow> int \<Rightarrow> preview_answer \<Rightarrow> bool" where
  "invalid_preview sha grp i pv \<longleftrightarrow> g_account_mode grp = ''toss_live'' \<and>
     invalid_toss_preview_reason pv (proposal_client_order_id sha grp i) (g_order_type grp) \<noteq> None"

definition preview_verdict ::
  "(string \<Rightarrow> string) \<Rightarrow> order_proposal \<Rightarrow> rung \<Rightarrow> preview_answer \<Rightarrow> string \<Rightarrow> place_answers \<Rightarrow> verdict" where
  "preview_verdict sha grp rung pv p ans =
     (if pv_success pv = Some False then (PendingApproval, preview_result pv, [])
      else if invalid_preview sha grp (r_rung_index rung) pv then (PendingApproval, OutcomeError, [])
      else if approved_terms rung \<noteq> previewed_terms rung pv then (NeedsReconfirm, OutcomeReconfirm, [])
      else eligibility_verdict (pa_gate ans) []
             (gate_verdict grp p (pa_window2 ans) [] (claim_verdict sha grp rung pv p ans)))"

definition place_verdict ::
  "(string \<Rightarrow> string) \<Rightarrow> order_proposal \<Rightarrow> rung \<Rightarrow> string \<Rightarrow> place_answers \<Rightarrow> verdict" where
  "place_verdict sha grp rung p ans =
     gate_verdict grp p (pa_window1 ans) []
       (case dry_run grp (pa_preview ans) of
          Inl _ \<Rightarrow> (PendingApproval, OutcomeError, [])
        | Inr pv \<Rightarrow> preview_verdict sha grp rung pv p ans)"

section \<open>The code computes the verdict\<close>

definition settles :: "order_proposal \<Rightarrow> int \<Rightarrow> store \<Rightarrow> verdict \<Rightarrow> rung_outcome submit_result \<Rightarrow> bool" where
  "settles grp i s v m \<longleftrightarrow> (\<exists>s' oc. m = Inr (s', oc, snd (snd v)) \<and> ro_rung_index oc = i \<and>
     ro_result oc = fst (snd v) \<and> rung_in s' grp i (fst v) \<and> moves grp i s s')"

lemma settles_step:
  "moves grp i s s1 \<Longrightarrow> settles grp i s1 v m \<Longrightarrow> settles grp i s v m"
  unfolding settles_def by (metis moves_trans)

lemma settles_ends:
  "writes grp i st s m \<Longrightarrow> settles grp i s (st, res, events) (ends_with m i res detail events)"
  by (auto simp: writes_def settles_def ends_with_def finished_def)

lemma settles_bind:
  assumes "writes grp i st s m" and "\<And>s1 x. rung_in s1 grp i st \<Longrightarrow> moves grp i s s1 \<Longrightarrow> settles grp i s1 v (f (s1, x))"
  shows "settles grp i s v (bindR m f)"
  using assms settles_step unfolding writes_def by (metis bindR_simps(2))

lemma rung_row_in:
  assumes "rung_in s grp i st"
  shows "\<exists>r. rung_row grp i s = Some r \<and> r_state r = st"
proof -
  from assms obtain g r where "get_locked_rung (g_proposal_id grp) i s = Inr (g, r)" "g_id g = g_id grp" "r_state r = st"
    by (auto simp: rung_in_def)
  then show ?thesis by (auto simp: get_locked_rung_def rung_row_def bindR_eq_Inr of_option_def split: option.splits)
qed

lemma settles_block:
  assumes at_i: "rung_in s grp i st" and st: "st \<in> insert PendingApproval in_flight"
  shows "settles grp i s (block_verdict grp d events)
    (converge_window_block grp i d (Aware (wd_observed_at d)) True events s)"
proof -
  obtain r where r: "rung_row grp i s = Some r" "r_state r = st" using rung_row_in [OF at_i] by blast
  show ?thesis
  proof (cases "st \<in> in_flight")
    case True
    then have "converge_window_block grp i d (Aware (wd_observed_at d)) True events s =
        bindR (restore_rung_after_pre_send_block (g_proposal_id grp) i (Aware (wd_observed_at d)) (wd_code d = EXPIRED) s)
          (\<lambda>(s', _). finished i (OutcomeWindow (window_text d)) (window_detail d) events s')"
      using r by (simp add: converge_window_block_def)
    then show ?thesis
      using restore_writes [OF at_i True, of "wd_code d = EXPIRED" "wd_observed_at d"]
      by (auto simp: writes_def settles_def block_verdict_def finished_def)
  next
    case False
    then have pending: "st = PendingApproval" using st by simp
    then have "converge_window_block grp i d (Aware (wd_observed_at d)) True events s =
       (if wd_code d = EXPIRED then bindR (expire_rung_if_needed (g_proposal_id grp) i (Aware (wd_observed_at d)) s)
          (\<lambda>(s', _). finished i (OutcomeWindow (window_text d)) (window_detail d) events s')
        else finished i (OutcomeWindow (window_text d)) (window_detail d) events s)"
      using r by (simp add: converge_window_block_def in_flight_def)
    then show ?thesis
      using expire_writes [of s grp i "wd_observed_at d"] at_i pending moves_refl [OF rung_in_wf [OF at_i]]
      by (auto simp: writes_def settles_def block_verdict_def finished_def)
  qed
qed

lemma settles_gate:
  assumes "rung_in s grp i st" and "st \<in> insert PendingApproval in_flight"
    and "window_allowed (decision_at grp (Some p) w) \<Longrightarrow> settles grp i s v (go_on ())"
  shows "settles grp i s (gate_verdict grp p w events v) (pre_mutation_window_gate grp i p w events go_on s)"
  using assms settles_block [OF assms(1,2)] by (simp add: pre_mutation_window_gate_def gate_verdict_def Let_def)

lemma settles_eligibility:
  assumes "rung_in s grp i Revalidating" and "settles grp i s v (go_on ())"
  shows "settles grp i s (eligibility_verdict gate events v) (apply_eligibility_gate grp i gate events go_on s)"
  using assms settles_ends [OF back_to_pending_writes [OF assms(1)]]
  by (auto simp: apply_eligibility_gate_def eligibility_verdict_def in_flight_def split: option.splits gate_answer.splits bool.splits)

lemma settles_answer:
  assumes at_i: "rung_in s grp i Submitting"
  shows "settles grp i s (answer_verdict grp identifier ev sb events)
    (classify_submit grp i pv sb corr (Aware t) identifier ev events s)"
proof -
  note ack = settles_ends [OF record_ack_writes [OF at_i]]
  note rest = settles_ends [OF record_resting_writes [OF at_i]]
  note rej = settles_ends [OF record_rejected_writes [OF at_i, simplified]]
  note unv = settles_ends [OF record_unverified_writes [OF at_i]]
  show ?thesis
  proof (cases "sb_success sb = Some False")
    case True
    note refused = True
    show ?thesis
    proof (cases "if g_account_mode grp = ''upbit'' then identifier else None")
      case None
      then have "\<not> (g_account_mode grp = ''upbit'' \<and> identifier \<noteq> None)" by (auto split: if_splits)
      then have v: "answer_verdict grp identifier ev sb events = (Rejected, OutcomeError, events)"
        using refused by (auto simp: answer_verdict_def)
      show ?thesis unfolding v classify_submit_def Let_def None using refused rej by simp
    next
      case (Some k)
      then have k: "g_account_mode grp = ''upbit''" "identifier = Some k" by (auto split: if_splits)
      show ?thesis
        by (cases "se_outcome ev")
          (simp_all add: classify_submit_def answer_verdict_def Let_def k refused classify_by_evidence_def ack rest rej unv)
    qed
  next
    case False
    then show ?thesis
      unfolding classify_submit_def answer_verdict_def Let_def ambiguous_submit_def
      using ack rest unv
      by (cases "sb_status sb = Some ''acked''"; cases "sb_broker_order_id sb"; cases "sb_success sb = Some True")
        simp_all
  qed
qed

lemma settles_exception:
  assumes at_i: "rung_in s grp i Submitting"
  shows "settles grp i s (exception_verdict grp identifier ev e events)
    (submit_exception grp i pv e corr (Aware t) identifier ev events s)"
  using settles_answer [OF at_i] settles_ends [OF record_unverified_writes [OF at_i]]
  by (simp add: submit_exception_def exception_verdict_def)

lemma settles_release:
  "settles grp i s v m \<Longrightarrow> settles grp i s (release_verdict reserved v) (release_on_error reserved m)"
  by (auto simp: settles_def release_verdict_def release_on_error_def split: prod.splits)

section \<open>Placing refines its verdict\<close>

lemma settles_submit:
  assumes at_i: "rung_in s grp (r_rung_index rung) Revalidating"
  shows "settles grp (r_rung_index rung) s (submit_verdict sha grp (r_rung_index rung) p ans reserved events)
    (submit_place sha grp rung pv (Aware t) p ans reserved events s)"
  unfolding submit_place_def Let_def
proof (rule settles_bind [OF transition_writes [OF at_i _ audit_id]])
  show "Approved \<in> ALLOWED Revalidating" by simp
next
  fix s1 x1 assume s1: "rung_in s1 grp (r_rung_index rung) Approved"
  let ?i = "r_rung_index rung" and ?id = "proposal_client_order_id sha grp (r_rung_index rung)"
  obtain posts blocked reply where call: "call_verdict grp p ?id (pa_hooks ans) (pa_submit ans) = (posts, blocked, reply)"
    by (cases "call_verdict grp p ?id (pa_hooks ans) (pa_submit ans)") auto
  show "settles grp ?i s1 (submit_verdict sha grp ?i p ans reserved events)
    (case (s1, x1) of (s1, _) \<Rightarrow> bindR (transition_rung (g_proposal_id grp) ?i Submitting id s1) (\<lambda>(s2, _).
      bindR (live_call grp p ?id (pa_hooks ans) (pa_submit ans)) (\<lambda>(posts, blocked, reply).
        case blocked of
          Some d \<Rightarrow> converge_window_block grp ?i d (Aware (wd_observed_at d)) True
                      ((events @ map LivePost posts) @ released reserved) s2
        | None \<Rightarrow>
            (case reply of
               Inl e \<Rightarrow> submit_exception grp ?i pv e (pa_correlation ans) (Aware t) ?id (pa_evidence ans)
                          (events @ map LivePost posts) s2
             | Inr sb \<Rightarrow> release_on_error reserved
                 (classify_submit grp ?i pv sb (pa_correlation ans) (Aware t) ?id (pa_evidence ans)
                    (events @ map LivePost posts) s2)))))"
    unfolding prod.case
  proof (rule settles_bind [OF transition_writes [OF s1 _ audit_id]])
    show "Submitting \<in> ALLOWED Approved" by simp
  next
    fix s2 x2 assume s2: "rung_in s2 grp ?i Submitting"
    then show "settles grp ?i s2 (submit_verdict sha grp ?i p ans reserved events)
      (case (s2, x2) of (s2, _) \<Rightarrow>
        bindR (live_call grp p ?id (pa_hooks ans) (pa_submit ans)) (\<lambda>(posts, blocked, reply).
        case blocked of
          Some d \<Rightarrow> converge_window_block grp ?i d (Aware (wd_observed_at d)) True
                      ((events @ map LivePost posts) @ released reserved) s2
        | None \<Rightarrow>
            (case reply of
               Inl e \<Rightarrow> submit_exception grp ?i pv e (pa_correlation ans) (Aware t) ?id (pa_evidence ans)
                          (events @ map LivePost posts) s2
             | Inr sb \<Rightarrow> release_on_error reserved
                 (classify_submit grp ?i pv sb (pa_correlation ans) (Aware t) ?id (pa_evidence ans)
                    (events @ map LivePost posts) s2))))"
      using settles_block [OF s2] settles_exception [OF s2] settles_release [OF settles_answer [OF s2]]
      by (simp add: live_call_eq call submit_verdict_def Let_def in_flight_def split: option.splits sum.splits)
  qed
qed

lemma settles_claim:
  assumes at_i: "rung_in s grp (r_rung_index rung) Revalidating" and market: "currency_for_market (g_market grp) \<noteq> None"
  shows "settles grp (r_rung_index rung) s (claim_verdict sha grp rung pv p ans)
    (claim_for_place sha grp rung pv (Aware t) p ans s)"
proof -
  from market obtain cur where cur: "currency_for_market (g_market grp) = Some cur" by blast
  have go: "settles grp (r_rung_index rung) s
      (gate_verdict grp p (pa_window3 ans) (events @ released reserved)
         (submit_verdict sha grp (r_rung_index rung) p ans reserved events))
      (pre_mutation_window_gate grp (r_rung_index rung) p (pa_window3 ans) (events @ released reserved)
         (\<lambda>_. submit_place sha grp rung pv (Aware t) p ans reserved events s) s)" for reserved events
    by (rule settles_gate [OF at_i]) (simp_all add: in_flight_def settles_submit [OF at_i])
  show ?thesis
    using go [of "[]" False] go [of "[ClaimTaken]" True] settles_ends [OF mark_needs_reconfirm_writes [OF at_i]]
    by (auto simp: claim_for_place_def claim_verdict_def Let_def cur of_option_def split: option.splits)
qed

lemma settles_preview:
  assumes at_i: "rung_in s grp (r_rung_index rung) Revalidating" and market: "currency_for_market (g_market grp) \<noteq> None"
  shows "settles grp (r_rung_index rung) s (preview_verdict sha grp rung pv p ans)
    (check_preview sha grp rung pv (Aware t) p ans s)"
proof -
  let ?i = "r_rung_index rung"
  have pend: "settles grp ?i s (PendingApproval, res, events) (ends_with (back_to_pending grp ?i s) ?i res detail events)"
    for res events detail
    by (rule settles_ends [OF back_to_pending_writes [OF at_i]]) (simp add: in_flight_def)
  have gate: "settles grp ?i s (eligibility_verdict (pa_gate ans) []
      (gate_verdict grp p (pa_window2 ans) [] (claim_verdict sha grp rung pv p ans)))
    (apply_eligibility_gate grp ?i (pa_gate ans) [] (\<lambda>_. pre_mutation_window_gate grp ?i p (pa_window2 ans) []
       (\<lambda>_. claim_for_place sha grp rung pv (Aware t) p ans s) s) s)"
    by (rule settles_eligibility [OF at_i], rule settles_gate [OF at_i])
      (simp_all add: in_flight_def settles_claim [OF at_i market])
  have invalid: "(if g_account_mode grp = ''toss_live''
      then invalid_toss_preview_reason pv (proposal_client_order_id sha grp ?i) (g_order_type grp) else None) = None
      \<longleftrightarrow> \<not> invalid_preview sha grp ?i pv" by (simp add: invalid_preview_def)
  show ?thesis
  proof (cases "pv_success pv = Some False")
    case True
    then show ?thesis using pend by (simp add: check_preview_def preview_verdict_def preview_result_def Let_def)
  next
    case False
    show ?thesis
    proof (cases "invalid_preview sha grp ?i pv")
      case True
      then obtain reason where "g_account_mode grp = ''toss_live''"
        "invalid_toss_preview_reason pv (proposal_client_order_id sha grp ?i) (g_order_type grp) = Some reason"
        by (auto simp: invalid_preview_def)
      then show ?thesis using True False pend by (simp add: check_preview_def preview_verdict_def Let_def)
    next
      case valid: False
      then show ?thesis
        using False gate invalid settles_ends [OF mark_needs_reconfirm_writes [OF at_i]]
        unfolding check_preview_def preview_verdict_def Let_def by simp
    qed
  qed
qed

lemma settles_place:
  assumes at_i: "rung_in s grp (r_rung_index rung) PendingApproval" and market: "currency_for_market (g_market grp) \<noteq> None"
  shows "settles grp (r_rung_index rung) s (place_verdict sha grp rung p ans)
    (revalidate_place_rung sha grp rung (Aware t) p ans s)"
  unfolding revalidate_place_rung_def place_verdict_def Let_def
proof (rule settles_gate [OF at_i], simp)
  let ?i = "r_rung_index rung"
  show "settles grp ?i s
     (case dry_run grp (pa_preview ans) of Inl _ \<Rightarrow> (PendingApproval, OutcomeError, [])
      | Inr pv \<Rightarrow> preview_verdict sha grp rung pv p ans)
     (bindR (transition_rung (g_proposal_id grp) ?i Revalidating id s) (\<lambda>(s1, _).
        case dry_run grp (pa_preview ans) of
          Inl e \<Rightarrow> ends_with (back_to_pending grp ?i s1) ?i OutcomeError (DetailError (Some e)) []
        | Inr pv \<Rightarrow> check_preview sha grp rung pv (Aware t) p ans s1))"
  proof (rule settles_bind [OF transition_writes [OF at_i _ audit_id]])
    show "Revalidating \<in> ALLOWED PendingApproval" by simp
  next
    fix s1 x assume s1: "rung_in s1 grp ?i Revalidating"
    then show "settles grp ?i s1 (case dry_run grp (pa_preview ans) of Inl _ \<Rightarrow> (PendingApproval, OutcomeError, [])
      | Inr pv \<Rightarrow> preview_verdict sha grp rung pv p ans)
      (case (s1, x) of (s1, _) \<Rightarrow> case dry_run grp (pa_preview ans) of
          Inl e \<Rightarrow> ends_with (back_to_pending grp ?i s1) ?i OutcomeError (DetailError (Some e)) []
        | Inr pv \<Rightarrow> check_preview sha grp rung pv (Aware t) p ans s1)"
      using settles_preview [OF s1 market] settles_ends [OF back_to_pending_writes [OF s1]]
      by (simp add: in_flight_def split: sum.splits)
  qed
qed

section \<open>Cancelling and replacing\<close>

text \<open>The checks of the target, before anything is cancelled.\<close>

definition target_verdict ::
  "iso_reader \<Rightarrow> iso_printer \<Rightarrow> order_proposal \<Rightarrow> target_answer \<Rightarrow> verdict \<Rightarrow> verdict" where
  "target_verdict read_iso show_iso grp answer v =
     (case approved_target read_iso show_iso grp of
        Inl _ \<Rightarrow> (Rejected, OutcomeError, [])
      | Inr (_, approved) \<Rightarrow>
          (case compare_target approved answer of
             Inl _ \<Rightarrow> (PendingApproval, OutcomeError, [])
           | Inr (Some _) \<Rightarrow> (Rejected, OutcomeError, [])
           | Inr None \<Rightarrow> v))"

definition cancelled_target :: "target_answer \<Rightarrow> bool" where
  "cancelled_target answer = (case answer of Inr (Some t) \<Rightarrow> t_status t = ''cancelled'' | _ \<Rightarrow> False)"

definition cancel_verdict ::
  "order_proposal \<Rightarrow> string \<Rightarrow> cancel_answers \<Rightarrow> (submit_event list \<Rightarrow> verdict) \<Rightarrow> verdict" where
  "cancel_verdict grp p ans k =
     (if g_target_broker_order_id grp = None then (Rejected, OutcomeError, [])
      else let (posts, blocked) = hook_verdict (map (decision_at grp (Some p)) (ca_hooks ans));
               events = map CancelPost posts
           in case blocked of
             Some d \<Rightarrow> block_verdict grp d events
           | None \<Rightarrow>
               (case ca_reply ans of
                  Inl _ \<Rightarrow> (Unverified, OutcomeUnverified, events)
                | Inr (CancelAnswered True _) \<Rightarrow>
                    if cancelled_target (ca_confirm ans) then k events
                    else (Unverified, OutcomeUnverified, events)
                | Inr _ \<Rightarrow> (Rejected, OutcomeError, events)))"

definition cancel_rung_verdict ::
  "iso_reader \<Rightarrow> iso_printer \<Rightarrow> order_proposal \<Rightarrow> string \<Rightarrow> target_answers \<Rightarrow> verdict" where
  "cancel_rung_verdict read_iso show_iso grp p ans =
     gate_verdict grp p (ta_window1 ans) []
       (target_verdict read_iso show_iso grp (ta_target ans)
         (eligibility_verdict (ta_gate ans) []
           (gate_verdict grp p (ta_window2 ans) []
             (cancel_verdict grp p (ta_cancel ans) (\<lambda>events. (Cancelled, OutcomeCancelled, events))))))"

text \<open>A window that closes once the target is cancelled leaves the rung cancelled.\<close>

definition lost_replacement :: "window_decision \<Rightarrow> submit_event list \<Rightarrow> verdict" where
  "lost_replacement d events = (Cancelled, OutcomeWindow (window_text d), events)"

definition replacement_verdict ::
  "(string \<Rightarrow> string) \<Rightarrow> order_proposal \<Rightarrow> int \<Rightarrow> string \<Rightarrow> replace_answers \<Rightarrow> submit_event list \<Rightarrow> verdict" where
  "replacement_verdict sha grp i p ans events =
     (let identifier = proposal_client_order_id sha grp i; d = decision_at grp (Some p) (ra_window5 ans)
      in if \<not> window_allowed d then lost_replacement d events
         else let (posts, blocked, reply) = call_verdict grp p identifier (ra_hooks ans) (ra_submit ans);
                  events' = events @ map LivePost posts
              in case blocked of
                Some d \<Rightarrow> lost_replacement d events'
              | None \<Rightarrow> reply_verdict grp identifier (ra_evidence ans) reply events')"

definition opposite_verdict :: "(string, string option option) result \<Rightarrow> verdict \<Rightarrow> verdict" where
  "opposite_verdict answer v = (case answer of
     Inl _ \<Rightarrow> (PendingApproval, OutcomeError, [])
   | Inr None \<Rightarrow> v
   | Inr (Some _) \<Rightarrow> (PendingApproval, GuardBlocked, []))"

definition replace_preview_verdict :: "rung \<Rightarrow> (string, preview_answer) result \<Rightarrow> verdict \<Rightarrow> verdict" where
  "replace_preview_verdict rung answer v = (case answer of
     Inl _ \<Rightarrow> (PendingApproval, OutcomeError, [])
   | Inr pv \<Rightarrow>
       if pv_success pv = Some False then (PendingApproval, preview_result pv, [])
       else if approved_terms rung \<noteq> previewed_terms rung pv then (NeedsReconfirm, OutcomeReconfirm, [])
       else v)"

definition replace_rung_verdict ::
  "(string \<Rightarrow> string) \<Rightarrow> iso_reader \<Rightarrow> iso_printer \<Rightarrow> order_proposal \<Rightarrow> rung \<Rightarrow> string \<Rightarrow> replace_answers \<Rightarrow> verdict" where
  "replace_rung_verdict sha read_iso show_iso grp rung p ans =
     gate_verdict grp p (ta_window1 ans) []
       (target_verdict read_iso show_iso grp (ta_target ans)
         (eligibility_verdict (ta_gate ans) []
           (gate_verdict grp p (ta_window2 ans) []
             (replace_preview_verdict rung (dry_run grp (ra_preview ans))
               (gate_verdict grp p (ra_window3 ans) []
                 (opposite_verdict (ra_opposite ans)
                   (gate_verdict grp p (ra_window4 ans) []
                     (cancel_verdict grp p (ta_cancel ans)
                       (replacement_verdict sha grp (r_rung_index rung) p ans)))))))))"

lemma approved_target_id:
  "approved_target read_iso show_iso grp = Inr (tid, snap) \<Longrightarrow> g_target_broker_order_id grp = Some tid"
  by (auto simp: approved_target_def split: option.splits json.splits sum.splits svc_error.splits)

lemma settles_target:
  assumes at_i: "rung_in s grp i PendingApproval"
    and go: "\<And>s1. g_target_broker_order_id grp \<noteq> None \<Longrightarrow> rung_in s1 grp i Revalidating \<Longrightarrow>
      settles grp i s1 v (go_on s1)"
  shows "settles grp i s (target_verdict read_iso show_iso grp answer v)
    (validate_target_action read_iso show_iso grp i (Aware t) answer go_on s)"
  unfolding validate_target_action_def Let_def
proof (rule settles_bind [OF transition_writes [OF at_i _ audit_id]])
  show "Revalidating \<in> ALLOWED PendingApproval" by simp
next
  fix s1 :: store and x :: rung assume s1: "rung_in s1 grp i Revalidating"
  note rej = settles_ends [OF record_rejected_writes [OF s1, simplified]]
  note pend = settles_ends [OF back_to_pending_writes [OF s1, unfolded in_flight_def, simplified]]
  show "settles grp i s1 (target_verdict read_iso show_iso grp answer v)
    (case (s1, x) of (s1, _) \<Rightarrow> (case approved_target read_iso show_iso grp of
        Inl e \<Rightarrow> ends_with (record_rejected (g_proposal_id grp) i (''target_evidence_invalid:'' @ e) (Aware t) s1) i
                   OutcomeError (DetailError (Some e)) []
      | Inr (_, approved) \<Rightarrow>
          (case compare_target approved answer of
             Inl e \<Rightarrow> ends_with (back_to_pending grp i s1) i OutcomeError
                        (DetailError (Some (''target_fetch_error:'' @ e))) []
           | Inr (Some reason) \<Rightarrow> ends_with (record_rejected (g_proposal_id grp) i reason (Aware t) s1) i OutcomeError
                        (DetailError (Some reason)) []
           | Inr None \<Rightarrow> go_on s1)))"
  proof (cases "approved_target read_iso show_iso grp")
    case (Inl e)
    then show ?thesis using rej by (simp add: target_verdict_def)
  next
    case (Inr ts)
    then have "g_target_broker_order_id grp \<noteq> None" using approved_target_id by (cases ts) blast
    from go [OF this s1] Inr show ?thesis using rej pend
      by (cases ts) (simp add: target_verdict_def split: sum.split option.split)
  qed
qed

lemma settles_confirm:
  assumes at_i: "rung_in s grp i Submitting" and go: "settles grp i s (k events) (go_on events)"
  shows "settles grp i s (if cancelled_target answer then k events else (Unverified, OutcomeUnverified, events))
    (confirm_cancelled grp i (Aware t) answer events go_on s)"
  using go settles_ends [OF record_unverified_writes [OF at_i]]
  by (simp add: confirm_cancelled_def cancelled_target_def Let_def split: sum.split option.split)

lemma settles_cancel_target:
  assumes at_i: "rung_in s grp i Submitting" and go: "\<And>events. settles grp i s (k events) (go_on events)"
  shows "settles grp i s (cancel_verdict grp p ans k) (cancel_and_confirm_target grp i (Aware t) p ans go_on s)"
proof (cases "g_target_broker_order_id grp = None")
  case True
  then show ?thesis
    using settles_ends [OF record_rejected_writes [OF at_i, simplified]]
    by (simp add: cancel_verdict_def cancel_and_confirm_target_def Let_def)
next
  case False
  obtain posts blocked where h: "hook_verdict (map (decision_at grp (Some p)) (ca_hooks ans)) = (posts, blocked)"
    by (cases "hook_verdict (map (decision_at grp (Some p)) (ca_hooks ans))") auto
  show ?thesis
  proof (cases blocked)
    case (Some d)
    then show ?thesis using False settles_block [OF at_i]
      by (auto simp: cancel_verdict_def cancel_and_confirm_target_def Let_def run_hooks_eq h in_flight_def)
  next
    case None
    then show ?thesis
      using False settles_ends [OF record_rejected_writes [OF at_i, simplified]]
        settles_ends [OF record_unverified_writes [OF at_i]] settles_confirm [where k = k and go_on = go_on and events = "map CancelPost posts" and answer = "ca_confirm ans", OF at_i go]
      by (auto simp: cancel_verdict_def cancel_and_confirm_target_def Let_def run_hooks_eq h
          split: sum.split cancel_reply.split bool.split if_splits)
  qed
qed

lemma settles_submitting:
  assumes at_i: "rung_in s grp i Revalidating"
    and go: "\<And>events s2. rung_in s2 grp i Submitting \<Longrightarrow> settles grp i s2 (k events) (go_on events s2)"
  shows "settles grp i s (cancel_verdict grp p ans k) (submitting_cancel grp i (Aware t) p ans go_on s)"
  unfolding submitting_cancel_def
proof (rule settles_bind [OF transition_writes [OF at_i _ audit_id]])
  show "Approved \<in> ALLOWED Revalidating" by simp
next
  fix s1 :: store and x :: rung assume s1: "rung_in s1 grp i Approved"
  show "settles grp i s1 (cancel_verdict grp p ans k)
    (case (s1, x) of (s1, _) \<Rightarrow> bindR (transition_rung (g_proposal_id grp) i Submitting id s1)
       (\<lambda>(s2, _). cancel_and_confirm_target grp i (Aware t) p ans (\<lambda>events. go_on events s2) s2))"
    unfolding prod.case
  proof (rule settles_bind [OF transition_writes [OF s1 _ audit_id]])
    show "Submitting \<in> ALLOWED Approved" by simp
  next
    fix s2 :: store and y :: rung assume s2: "rung_in s2 grp i Submitting"
    show "settles grp i s2 (cancel_verdict grp p ans k)
      (case (s2, y) of (s2, _) \<Rightarrow> cancel_and_confirm_target grp i (Aware t) p ans (\<lambda>events. go_on events s2) s2)"
      using settles_cancel_target [OF s2 go [OF s2]] by simp
  qed
qed

lemma settles_gate_revalidating:
  "rung_in s grp i Revalidating \<Longrightarrow> settles grp i s v (go_on ()) \<Longrightarrow>
     settles grp i s (gate_verdict grp p w events v) (pre_mutation_window_gate grp i p w events go_on s)"
  by (rule settles_gate, assumption) (simp_all add: in_flight_def)

lemma settles_cancel:
  assumes at_i: "rung_in s grp (r_rung_index rung) PendingApproval"
  shows "settles grp (r_rung_index rung) s (cancel_rung_verdict read_iso show_iso grp p ans)
    (revalidate_cancel_rung read_iso show_iso grp rung (Aware t) p ans s)"
proof -
  have fin: "settles grp (r_rung_index rung) s2 (Cancelled, OutcomeCancelled, events)
      (finish_cancel grp (r_rung_index rung) (Aware t) events s2)"
    if "g_target_broker_order_id grp \<noteq> None" "rung_in s2 grp (r_rung_index rung) Submitting" for events s2
    using settles_ends [OF record_cancelled_writes [OF that(2)]] that(1)
    by (auto simp: finish_cancel_def of_option_def)
  show ?thesis unfolding revalidate_cancel_rung_def cancel_rung_verdict_def Let_def
    by (rule settles_gate [OF at_i], simp,
        intro settles_target [OF at_i] settles_eligibility settles_gate_revalidating settles_submitting fin)
qed

lemma settles_replace_preview:
  assumes at_i: "rung_in s grp (r_rung_index rung) Revalidating"
    and go: "\<And>pv. settles grp (r_rung_index rung) s v (go_on pv)"
  shows "settles grp (r_rung_index rung) s (replace_preview_verdict rung (dry_run grp answer) v)
    (revalidate_replace_preview grp rung (Aware t) answer go_on s)"
  using go settles_ends [OF back_to_pending_writes [OF at_i, unfolded in_flight_def, simplified]]
    settles_ends [OF mark_needs_reconfirm_writes [OF at_i]]
  by (simp add: revalidate_replace_preview_def replace_preview_verdict_def Let_def preview_result_def split: sum.split)

lemma settles_opposite:
  assumes at_i: "rung_in s grp i Revalidating" and go: "settles grp i s v (go_on ())"
  shows "settles grp i s (opposite_verdict answer v) (check_replace_opposite_pending grp i answer go_on s)"
  using go settles_ends [OF back_to_pending_writes [OF at_i, unfolded in_flight_def, simplified]]
  by (simp add: check_replace_opposite_pending_def opposite_verdict_def split: sum.split option.split)

lemma settles_lost:
  assumes at_i: "rung_in s grp i Submitting" and tid: "g_target_broker_order_id grp = Some tid"
  shows "settles grp i s (lost_replacement d events) (record_post_cancel_window_block grp i d events s)"
  using settles_ends [OF record_cancelled_writes [OF at_i]]
  by (simp add: record_post_cancel_window_block_def lost_replacement_def tid of_option_def)

lemma settles_replacement:
  assumes at_i: "rung_in s grp i Submitting" and tid: "g_target_broker_order_id grp = Some tid"
  shows "settles grp i s (replacement_verdict sha grp i p ans events)
    (submit_replacement sha grp i pv (Aware t) p ans events s)"
proof -
  obtain posts blocked reply where
    call: "call_verdict grp p (proposal_client_order_id sha grp i) (ra_hooks ans) (ra_submit ans) = (posts, blocked, reply)"
    by (cases "call_verdict grp p (proposal_client_order_id sha grp i) (ra_hooks ans) (ra_submit ans)") auto
  show ?thesis
    using settles_lost [OF assms] settles_answer [OF at_i] settles_exception [OF at_i]
    by (simp add: submit_replacement_def post_cancel_replace_window_gate_def replacement_verdict_def live_call_eq call
        reply_verdict_def Let_def split: option.split sum.split)
qed

lemma settles_replace:
  assumes at_i: "rung_in s grp (r_rung_index rung) PendingApproval"
  shows "settles grp (r_rung_index rung) s (replace_rung_verdict sha read_iso show_iso grp rung p ans)
    (revalidate_replace_rung sha read_iso show_iso grp rung (Aware t) p ans s)"
proof -
  have repl: "settles grp (r_rung_index rung) s2 (replacement_verdict sha grp (r_rung_index rung) p ans events)
      (submit_replacement sha grp (r_rung_index rung) pv (Aware t) p ans events s2)"
    if "g_target_broker_order_id grp \<noteq> None" "rung_in s2 grp (r_rung_index rung) Submitting" for pv events s2
    using settles_replacement [OF that(2)] that(1) by auto
  show ?thesis unfolding revalidate_replace_rung_def replace_rung_verdict_def replace_after_preview_def Let_def
    by (rule settles_gate [OF at_i], simp,
        intro settles_target [OF at_i] settles_eligibility settles_gate_revalidating settles_replace_preview
          settles_opposite settles_submitting repl)
qed

end
