(* ===== verification/RevalidationRuns.thy ===== *)
theory RevalidationRuns
  imports SubmitVerdict
begin

text \<open>
  Every verdict agrees with the outcome it reports, every mutation is allowed by a window reading, and
  the loop of \<open>revalidate_and_submit\<close> over the rungs of a proposal ends with each of them settled.
\<close>

section \<open>Outcomes tell the rung state\<close>

text \<open>The outcomes of a window, \<open>approval_window_rung_result\<close>; another text tells nothing.\<close>

definition window_texts :: "string set" where
  "window_texts = {''allow'', ''expired'', ''invalid_valid_until'', ''defer_session_closed'', ''calendar_unknown'',
     ''no_executable_window''}"

lemma window_text_in [simp]: "window_text d \<in> window_texts"
  by (auto simp: window_text_def approval_window_rung_result_def window_texts_def split: approval_window_code.splits)

fun outcome_states :: "outcome_result \<Rightarrow> rung_state set" where
  "outcome_states SubmittedAcked = {Acked}"
| "outcome_states SubmittedResting = {Resting}"
| "outcome_states OutcomeReconfirm = {NeedsReconfirm}"
| "outcome_states GuardBlocked = {PendingApproval}"
| "outcome_states OutcomeUnverified = {Unverified}"
| "outcome_states OutcomeError = {PendingApproval, Rejected}"
| "outcome_states OutcomeCancelled = {Cancelled}"
| "outcome_states ApprovalRequired = {PendingApproval}"
| "outcome_states (OutcomeWindow t) = (if t \<in> window_texts then {PendingApproval, Expired, Cancelled} else {})"

definition rung_verdict ::
  "(string \<Rightarrow> string) \<Rightarrow> iso_reader \<Rightarrow> iso_printer \<Rightarrow> order_proposal \<Rightarrow> rung \<Rightarrow> string \<Rightarrow> action_answers \<Rightarrow> verdict" where
  "rung_verdict sha read_iso show_iso grp rung p ans =
     (let action = contract_action grp in
      if action = ''replace'' then replace_rung_verdict sha read_iso show_iso grp rung p (aa_target ans)
      else if action = ''cancel''
      then cancel_rung_verdict read_iso show_iso grp p (target_answers.truncate (aa_target ans))
      else place_verdict sha grp rung p (aa_place ans))"

lemma settles_rung:
  assumes "rung_in s grp (r_rung_index rung) PendingApproval" and "currency_for_market (g_market grp) \<noteq> None"
  shows "settles grp (r_rung_index rung) s (rung_verdict sha read_iso show_iso grp rung p ans)
    (revalidate_rung sha read_iso show_iso grp rung (Aware t) p ans s)"
  using settles_place [OF assms] settles_replace [OF assms(1)] settles_cancel [OF assms(1)]
  by (simp add: revalidate_rung_def rung_verdict_def Let_def)

text \<open>A verdict agrees with its outcome; its mutations are each allowed by a window reading.\<close>

definition allowed_event :: "order_proposal \<Rightarrow> string \<Rightarrow> submit_event \<Rightarrow> bool" where
  "allowed_event grp p e = (case e of
     LivePost d \<Rightarrow> window_allowed d \<and> (\<exists>w. d = decision_at grp (Some p) w)
   | CancelPost d \<Rightarrow> window_allowed d \<and> (\<exists>w. d = decision_at grp (Some p) w)
   | _ \<Rightarrow> True)"

definition sound_verdict :: "order_proposal \<Rightarrow> string \<Rightarrow> verdict \<Rightarrow> bool" where
  "sound_verdict grp p v \<longleftrightarrow> fst v \<in> outcome_states (fst (snd v)) \<and> (\<forall>e \<in> set (snd (snd v)). allowed_event grp p e)"

lemma sound_plain:
  "sound_verdict grp p (st, res, events) \<longleftrightarrow> st \<in> outcome_states res \<and> (\<forall>e \<in> set events. allowed_event grp p e)"
  by (simp add: sound_verdict_def)

lemma sound_block: "\<forall>e \<in> set events. allowed_event grp p e \<Longrightarrow> sound_verdict grp p (block_verdict grp d events)"
  by (simp add: block_verdict_def sound_plain after_expiry_def)

lemma sound_gate:
  "sound_verdict grp p v \<Longrightarrow> \<forall>e \<in> set events. allowed_event grp p e \<Longrightarrow>
     sound_verdict grp p (gate_verdict grp p w events v)"
  by (simp add: gate_verdict_def Let_def sound_block)

lemma sound_eligibility: "sound_verdict grp p v \<Longrightarrow> sound_verdict grp p (eligibility_verdict gate [] v)"
  by (auto simp: eligibility_verdict_def sound_plain split: option.splits gate_answer.splits bool.splits)

lemma hook_posts:
  "hook_verdict ds = (posts, blocked) \<Longrightarrow> d \<in> set posts \<Longrightarrow> d \<in> set ds \<and> window_allowed d"
  by (induction ds arbitrary: posts) (auto split: if_splits prod.splits)

lemma hook_events:
  assumes "hook_verdict (map (decision_at grp (Some p)) ws) = (posts, blocked)"
  shows "\<forall>e \<in> set (map LivePost posts). allowed_event grp p e" "\<forall>e \<in> set (map CancelPost posts). allowed_event grp p e"
  using hook_posts [OF assms] by (auto simp: allowed_event_def)

lemma call_events:
  "call_verdict grp p k ws reply = (posts, blocked, answer) \<Longrightarrow> \<forall>e \<in> set (map LivePost posts). allowed_event grp p e"
  using hook_events(1) [of grp p ws] by (auto simp: call_verdict_def split: if_splits prod.splits)

lemma sound_answer:
  "\<forall>e \<in> set events. allowed_event grp p e \<Longrightarrow> sound_verdict grp p (answer_verdict grp k ev sb events)"
  by (simp add: answer_verdict_def sound_plain)

lemma sound_exception:
  "\<forall>e \<in> set events. allowed_event grp p e \<Longrightarrow> sound_verdict grp p (exception_verdict grp k ev x events)"
  by (simp add: exception_verdict_def sound_plain sound_answer)

lemma released_allowed: "\<forall>e \<in> set (released b). allowed_event grp p e"
  by (simp add: released_def allowed_event_def)

lemma sound_release: "sound_verdict grp p v \<Longrightarrow> sound_verdict grp p (release_verdict b v)"
  using released_allowed [of b] by (auto simp: release_verdict_def sound_verdict_def split: prod.splits)

lemma sound_submit:
  assumes "\<forall>e \<in> set events. allowed_event grp p e"
  shows "sound_verdict grp p (submit_verdict sha grp i p ans reserved events)"
proof -
  obtain posts blocked reply where
    call: "call_verdict grp p (proposal_client_order_id sha grp i) (pa_hooks ans) (pa_submit ans) = (posts, blocked, reply)"
    by (cases "call_verdict grp p (proposal_client_order_id sha grp i) (pa_hooks ans) (pa_submit ans)") auto
  have all: "\<forall>e \<in> set (events @ map LivePost posts). allowed_event grp p e"
    using assms call_events [OF call] by auto
  then have "\<forall>e \<in> set ((events @ map LivePost posts) @ released reserved). allowed_event grp p e"
    using released_allowed [of reserved] by auto
  then show ?thesis
    using all sound_block sound_exception sound_release [OF sound_answer]
    by (simp add: submit_verdict_def call Let_def split: option.split sum.split)
qed

lemma claim_event: "allowed_event grp p ClaimTaken"
  by (simp add: allowed_event_def)

lemma sound_place: "sound_verdict grp p (place_verdict sha grp rung p ans)"
proof -
  have go: "sound_verdict grp p (gate_verdict grp p (pa_window3 ans) (events @ released r)
      (submit_verdict sha grp (r_rung_index rung) p ans r events))"
    if "\<forall>e \<in> set events. allowed_event grp p e" for events r
    using that released_allowed [of r] by (intro sound_gate sound_submit) auto
  have claim: "sound_verdict grp p (claim_verdict sha grp rung pv p ans)" for pv
    using go [of "[]"] go [of "[ClaimTaken]"]
    by (auto simp: claim_verdict_def Let_def sound_plain claim_event split: option.split)
  have "sound_verdict grp p (preview_verdict sha grp rung pv p ans)" for pv
    using sound_eligibility [OF sound_gate [OF claim]]
    by (simp add: preview_verdict_def sound_plain preview_result_def)
  then show ?thesis
    unfolding place_verdict_def by (intro sound_gate) (simp_all add: sound_plain split: sum.split)
qed

lemma sound_target:
  "sound_verdict grp p v \<Longrightarrow> sound_verdict grp p (target_verdict read_iso show_iso grp answer v)"
  by (simp add: target_verdict_def sound_plain split: sum.split prod.split option.split)

lemma sound_cancel_target:
  assumes k: "\<And>events. \<forall>e \<in> set events. allowed_event grp p e \<Longrightarrow> sound_verdict grp p (k events)"
  shows "sound_verdict grp p (cancel_verdict grp p ans k)"
proof -
  obtain posts blocked where h: "hook_verdict (map (decision_at grp (Some p)) (ca_hooks ans)) = (posts, blocked)"
    by (cases "hook_verdict (map (decision_at grp (Some p)) (ca_hooks ans))") auto
  note ev = hook_events(2) [OF h]
  show ?thesis
    using sound_block [OF ev] k [OF ev] ev
    by (simp add: cancel_verdict_def h sound_plain Let_def split: option.split sum.split cancel_reply.split bool.split)
qed

lemma sound_replacement:
  assumes "\<forall>e \<in> set events. allowed_event grp p e"
  shows "sound_verdict grp p (replacement_verdict sha grp i p ans events)"
proof -
  obtain posts blocked reply where
    call: "call_verdict grp p (proposal_client_order_id sha grp i) (ra_hooks ans) (ra_submit ans) = (posts, blocked, reply)"
    by (cases "call_verdict grp p (proposal_client_order_id sha grp i) (ra_hooks ans) (ra_submit ans)") auto
  have all: "\<forall>e \<in> set (events @ map LivePost posts). allowed_event grp p e"
    using assms call_events [OF call] by auto
  show ?thesis
    using assms all sound_exception [OF all] sound_answer [OF all]
    by (simp add: replacement_verdict_def call Let_def lost_replacement_def sound_plain reply_verdict_def
        split: option.split sum.split)
qed

lemma sound_rung: "sound_verdict grp p (rung_verdict sha read_iso show_iso grp rung p ans)"
proof -
  have c: "sound_verdict grp p (cancel_rung_verdict read_iso show_iso grp p tans)" for tans
    unfolding cancel_rung_verdict_def
    by (intro sound_gate sound_target sound_eligibility sound_cancel_target) (simp_all add: sound_plain)
  have "sound_verdict grp p (replace_rung_verdict sha read_iso show_iso grp rung p rans)" for rans
  proof -
    have "sound_verdict grp p (gate_verdict grp p (ra_window4 rans) []
        (cancel_verdict grp p (ta_cancel rans) (replacement_verdict sha grp (r_rung_index rung) p rans)))"
      by (intro sound_gate sound_cancel_target sound_replacement) simp_all
    then have o: "sound_verdict grp p (gate_verdict grp p (ra_window3 rans) [] (opposite_verdict (ra_opposite rans)
        (gate_verdict grp p (ra_window4 rans) []
        (cancel_verdict grp p (ta_cancel rans) (replacement_verdict sha grp (r_rung_index rung) p rans)))))"
      by (intro sound_gate) (simp_all add: opposite_verdict_def sound_plain split: sum.split option.split)
    have "sound_verdict grp p (replace_preview_verdict rung a v)" if "sound_verdict grp p v" for a v
      using that by (simp add: replace_preview_verdict_def sound_plain preview_result_def split: sum.split)
    then show ?thesis unfolding replace_rung_verdict_def
      using o by (intro sound_gate sound_target sound_eligibility) simp_all
  qed
  then show ?thesis using c sound_place by (simp add: rung_verdict_def Let_def)
qed

section \<open>The loop over the rungs\<close>

text \<open>
  What a run over the rungs \<open>idxs\<close> leaves: other rungs untouched, every pending one of \<open>idxs\<close> reported, and
  every outcome about one of them, in a state it tells.
\<close>

definition run_ok ::
  "order_proposal \<Rightarrow> string \<Rightarrow> int list \<Rightarrow> store \<Rightarrow> store \<Rightarrow> rung_outcome list \<Rightarrow> submit_event list \<Rightarrow> bool" where
  "run_ok grp p idxs s s' outcomes events \<longleftrightarrow>
     evolves {} s s' \<and> untouched s s' \<and>
     (\<forall>j st. j \<notin> set idxs \<or> st \<noteq> PendingApproval \<longrightarrow> rung_in s grp j st \<longrightarrow> rung_in s' grp j st) \<and>
     (\<forall>j \<in> set idxs. rung_in s grp j PendingApproval \<longrightarrow>
        (\<exists>oc \<in> set outcomes. ro_rung_index oc = j \<and> (\<exists>st \<in> outcome_states (ro_result oc). rung_in s' grp j st))) \<and>
     (\<forall>oc \<in> set outcomes. ro_rung_index oc \<in> set idxs \<and>
        (\<exists>st \<in> outcome_states (ro_result oc). rung_in s' grp (ro_rung_index oc) st)) \<and>
     (\<forall>e \<in> set events. allowed_event grp p e)"

lemma rung_in_unique: "rung_in s grp i st \<Longrightarrow> rung_in s grp i st' \<Longrightarrow> st = st'"
  by (auto simp: rung_in_def)

lemma run_ok_nil: "wf_store s \<Longrightarrow> run_ok grp p [] s s [] []"
  by (auto simp: run_ok_def)

lemma run_ok_Cons:
  assumes one: "run_ok grp p [i] s s1 o1 e1" and rest: "run_ok grp p idxs s1 s' o2 e2" and fresh: "i \<notin> set idxs"
  shows "run_ok grp p (i # idxs) s s' (o1 @ o2) (e1 @ e2)"
  unfolding run_ok_def
proof (intro conjI allI impI ballI)
  show "evolves {} s s'" using one rest evolves_trans unfolding run_ok_def by blast
next
  show "untouched s s'" using one rest untouched_trans unfolding run_ok_def by blast
next
  fix j st assume "j \<notin> set (i # idxs) \<or> st \<noteq> PendingApproval" and "rung_in s grp j st"
  moreover from this have "rung_in s1 grp j st" using one unfolding run_ok_def by auto
  ultimately show "rung_in s' grp j st" using rest unfolding run_ok_def by auto
next
  fix j assume j: "j \<in> set (i # idxs)" and pend: "rung_in s grp j PendingApproval"
  show "\<exists>oc \<in> set (o1 @ o2). ro_rung_index oc = j \<and> (\<exists>st \<in> outcome_states (ro_result oc). rung_in s' grp j st)"
  proof (cases "j = i")
    case True
    then obtain oc st where "oc \<in> set o1" "ro_rung_index oc = i" "st \<in> outcome_states (ro_result oc)" "rung_in s1 grp i st"
      using one pend unfolding run_ok_def by (metis list.set_intros(1))
    moreover from this have "rung_in s' grp i st" using rest fresh unfolding run_ok_def by blast
    ultimately show ?thesis using True by auto
  next
    case False
    then have "rung_in s1 grp j PendingApproval" "j \<in> set idxs" using one pend j unfolding run_ok_def by auto
    then show ?thesis using rest unfolding run_ok_def by (metis Un_iff set_append)
  qed
next
  fix oc assume "oc \<in> set (o1 @ o2)"
  then show "ro_rung_index oc \<in> set (i # idxs)" using one rest unfolding run_ok_def by auto
next
  fix oc assume oc: "oc \<in> set (o1 @ o2)"
  show "\<exists>st \<in> outcome_states (ro_result oc). rung_in s' grp (ro_rung_index oc) st"
  proof (cases "oc \<in> set o2")
    case True
    then show ?thesis using rest unfolding run_ok_def by blast
  next
    case False
    then obtain st where st: "st \<in> outcome_states (ro_result oc)" "rung_in s1 grp (ro_rung_index oc) st" "ro_rung_index oc = i"
      using one oc unfolding run_ok_def by auto
    then have "rung_in s' grp (ro_rung_index oc) st" using rest fresh unfolding run_ok_def by blast
    then show ?thesis using st(1) by blast
  qed
next
  fix e assume "e \<in> set (e1 @ e2)"
  then show "allowed_event grp p e" using one rest unfolding run_ok_def by auto
qed

lemma settles_run_ok:
  assumes "settles grp i s v m" and "sound_verdict grp p v" and pending: "rung_in s grp i PendingApproval"
  obtains s' oc where "m = Inr (s', oc, snd (snd v))" and "run_ok grp p [i] s s' [oc] (snd (snd v))"
proof -
  from assms(1) obtain s' oc where m: "m = Inr (s', oc, snd (snd v))" "ro_rung_index oc = i"
    "ro_result oc = fst (snd v)" "rung_in s' grp i (fst v)" "moves grp i s s'" by (auto simp: settles_def)
  have keep: "\<forall>j st. j \<noteq> i \<longrightarrow> rung_in s grp j st \<longrightarrow> rung_in s' grp j st" using m(5) by (simp add: moves_def)
  have told: "fst v \<in> outcome_states (ro_result oc)" "\<forall>e \<in> set (snd (snd v)). allowed_event grp p e"
    using assms(2) m(3) by (simp_all add: sound_verdict_def)
  have "run_ok grp p [i] s s' [oc] (snd (snd v))"
    unfolding run_ok_def
  proof (intro conjI allI impI ballI)
    show "evolves {} s s'" using m(5) by (simp add: moves_def)
  next
    show "untouched s s'" using m(5) by (simp add: moves_def)
  next
    fix j st assume "j \<notin> set [i] \<or> st \<noteq> PendingApproval" and at_j: "rung_in s grp j st"
    then have "j \<noteq> i" using pending rung_in_unique by auto
    then show "rung_in s' grp j st" using keep at_j by blast
  next
    fix j assume "j \<in> set [i]"
    then show "\<exists>oc' \<in> set [oc]. ro_rung_index oc' = j \<and> (\<exists>st \<in> outcome_states (ro_result oc'). rung_in s' grp j st)"
      using m(2,4) told(1) by auto
  next
    fix oc' assume "oc' \<in> set [oc]"
    then show "ro_rung_index oc' \<in> set [i]" "\<exists>st \<in> outcome_states (ro_result oc'). rung_in s' grp (ro_rung_index oc') st"
      using m(2,4) told(1) by auto
  next
    fix e assume "e \<in> set (snd (snd v))"
    then show "allowed_event grp p e" using told(2) by blast
  qed
  then show thesis by (rule that [OF m(1)])
qed

lemma skipped_run_ok:
  assumes "wf_store s" and "\<not> rung_in s grp i PendingApproval"
  shows "run_ok grp p [i] s s [] []"
  using assms by (auto simp: run_ok_def)

definition has_group :: "store \<Rightarrow> order_proposal \<Rightarrow> bool" where
  "has_group s grp \<longleftrightarrow> wf_store s \<and>
     (\<exists>g. get_group_by_proposal_id s (g_proposal_id grp) = Some g \<and> g_id g = g_id grp \<and> g_valid_until g = g_valid_until grp)"

lemma has_group_evolves:
  assumes "has_group s grp" and "evolves {} s s'"
  shows "has_group s' grp"
proof -
  from assms(1) obtain g where g: "get_group_by_proposal_id s (g_proposal_id grp) = Some g" "g_id g = g_id grp"
    "g_valid_until g = g_valid_until grp" by (auto simp: has_group_def)
  with assms(2) obtain g' where g': "g' \<in> set (db_groups s')" "group_payload g' = group_payload g"
    using get_group_in [OF g(1)] unfolding evolves_def group_evolves_def by blast
  have wf: "wf_store s'" by (rule evolves_wf [OF assms(2)])
  show ?thesis using group_is [OF wf g'(1)] group_payload_fields [OF g'(2)] get_group_in [OF g(1)] g wf
    by (auto simp: has_group_def)
qed

lemma rung_row_state:
  assumes "has_group s grp" and "rung_row grp i s = Some rung"
  shows "rung_in s grp i (r_state rung) \<and> r_rung_index rung = i"
  using assms find_SomeD [OF assms(2) [unfolded rung_row_def]]
  by (auto simp: rung_in_def has_group_def rung_row_def get_locked_rung_def)

lemma no_rung_row: "rung_row grp i s = None \<Longrightarrow> \<not> rung_in s grp i st"
  using rung_row_in by fastforce

lemma foldR_run_ok:
  assumes "has_group s grp" and "distinct idxs" and "\<forall>i \<in> set idxs. strict \<longrightarrow> rung_in s grp i PendingApproval"
    and step: "\<And>s outcomes events i. has_group s grp \<Longrightarrow> i \<in> set idxs \<Longrightarrow> (strict \<longrightarrow> rung_in s grp i PendingApproval) \<Longrightarrow>
      \<exists>s1 o1 e1. f (s, outcomes, events) i = Inr (s1, outcomes @ o1, events @ e1) \<and> run_ok grp p [i] s s1 o1 e1"
  shows "\<exists>s' o1 e1. foldR f (s, outcomes, events) idxs = Inr (s', outcomes @ o1, events @ e1) \<and> run_ok grp p idxs s s' o1 e1"
  using assms
proof (induction idxs arbitrary: s outcomes events)
  case Nil
  then show ?case using run_ok_nil by (fastforce simp: has_group_def)
next
  case (Cons i idxs)
  from Cons.prems(3) have "strict \<longrightarrow> rung_in s grp i PendingApproval" by simp
  from Cons.prems(4) [OF Cons.prems(1) _ this, of outcomes events] obtain s1 o1 e1
    where one: "f (s, outcomes, events) i = Inr (s1, outcomes @ o1, events @ e1)" "run_ok grp p [i] s s1 o1 e1"
    by auto
  have wf1: "has_group s1 grp" using has_group_evolves [OF Cons.prems(1)] one(2) by (simp add: run_ok_def)
  have rest: "\<forall>j \<in> set idxs. strict \<longrightarrow> rung_in s1 grp j PendingApproval"
  proof (intro ballI impI)
    fix j assume j: "j \<in> set idxs" and strict
    then have "j \<notin> set [i]" "rung_in s grp j PendingApproval" using Cons.prems(2,3) by auto
    then show "rung_in s1 grp j PendingApproval" using one(2) unfolding run_ok_def by blast
  qed
  obtain s' o2 e2 where "foldR f (s1, outcomes @ o1, events @ e1) idxs = Inr (s', (outcomes @ o1) @ o2, (events @ e1) @ e2)"
    and ok: "run_ok grp p idxs s1 s' o2 e2"
    using Cons.IH [OF wf1 _ rest, of "outcomes @ o1" "events @ e1"] Cons.prems(2,4) by auto
  then have "foldR f (s, outcomes, events) (i # idxs) = Inr (s', outcomes @ (o1 @ o2), events @ (e1 @ e2))"
    using one(1) by simp
  then show ?case using run_ok_Cons [OF one(2) ok] Cons.prems(2) by fastforce
qed

lemma pending_block_run_ok:
  assumes "rung_in s grp i PendingApproval"
  obtains s' oc where "converge_window_block grp i d (Aware (wd_observed_at d)) False [] s = Inr (s', oc, [])"
    and "run_ok grp p [i] s s' [oc] []"
proof -
  have "converge_window_block grp i d (Aware (wd_observed_at d)) False [] s =
      converge_window_block grp i d (Aware (wd_observed_at d)) True [] s"
    using rung_row_in [OF assms] by (auto simp: converge_window_block_def in_flight_def)
  moreover have st: "settles grp i s (block_verdict grp d [])
      (converge_window_block grp i d (Aware (wd_observed_at d)) True [] s)"
    by (rule settles_block [OF assms]) simp
  have sound: "sound_verdict grp p (block_verdict grp d [])" by (rule sound_block) simp
  have none: "snd (snd (block_verdict grp d [])) = []" by (simp add: block_verdict_def)
  obtain s' oc where "converge_window_block grp i d (Aware (wd_observed_at d)) True [] s = Inr (s', oc, [])"
    and "run_ok grp p [i] s s' [oc] []"
    by (rule settles_run_ok [OF st sound assms, unfolded none])
  ultimately show thesis using that by simp
qed

lemma block_all_run_ok:
  assumes "has_group s grp" and "distinct idxs" and "\<forall>i \<in> set idxs. rung_in s grp i PendingApproval"
  shows "\<exists>s' o1 e1. foldR (block_all grp d) (s, [], []) idxs = Inr (s', o1, e1) \<and> run_ok grp p idxs s s' o1 e1"
proof -
  have "\<exists>s' o1 e1. foldR (block_all grp d) (s, [], []) idxs = Inr (s', [] @ o1, [] @ e1) \<and> run_ok grp p idxs s s' o1 e1"
  proof (rule foldR_run_ok [where strict = True])
    show "\<forall>i \<in> set idxs. True \<longrightarrow> rung_in s grp i PendingApproval" using assms(3) by simp
  next
    fix s outcomes events i assume "True \<longrightarrow> rung_in s grp i PendingApproval"
    then have "rung_in s grp i PendingApproval" by simp
    then obtain s' oc where "converge_window_block grp i d (Aware (wd_observed_at d)) False [] s = Inr (s', oc, [])"
      and "run_ok grp p [i] s s' [oc] []" by (rule pending_block_run_ok)
    then show "\<exists>s1 o1 e1. block_all grp d (s, outcomes, events) i = Inr (s1, outcomes @ o1, events @ e1) \<and>
        run_ok grp p [i] s s1 o1 e1"
      by (fastforce simp: block_all_def)
  qed (use assms in auto)
  then show ?thesis by simp
qed

text \<open>One turn of the loop: a pending rung ends with its verdict, any other is skipped.\<close>

abbreviation rung_handler where
  "rung_handler sha read_iso show_iso t p answers \<equiv>
     (\<lambda>g r. revalidate_rung sha read_iso show_iso g r (Aware t) p (answers (r_rung_index r)))"

lemma revalidate_turn:
  assumes g: "has_group s grp" and market: "currency_for_market (g_market grp) \<noteq> None"
  shows "(\<not> rung_in s grp i PendingApproval \<and>
       revalidate_step (rung_handler sha read_iso show_iso t p answers) grp (s, outcomes, events) i = Inr (s, outcomes, events)) \<or>
     (\<exists>rung s' oc. rung_in s grp i PendingApproval \<and> r_rung_index rung = i \<and>
       revalidate_step (rung_handler sha read_iso show_iso t p answers) grp (s, outcomes, events) i =
         Inr (s', outcomes @ [oc], events @ snd (snd (rung_verdict sha read_iso show_iso grp rung p (answers i)))) \<and>
       run_ok grp p [i] s s' [oc] (snd (snd (rung_verdict sha read_iso show_iso grp rung p (answers i)))))"
proof (cases "\<exists>rung. rung_row grp i s = Some rung \<and> r_state rung = PendingApproval")
  case False
  have "\<not> rung_in s grp i PendingApproval" using False rung_row_in by blast
  then show ?thesis using False by (auto simp: revalidate_step_def split: option.splits)
next
  case True
  then obtain rung where rung: "rung_row grp i s = Some rung" "r_state rung = PendingApproval" by blast
  then have at_i: "rung_in s grp i PendingApproval" "r_rung_index rung = i"
    using rung_row_state [OF g rung(1)] rung(2) by simp_all
  let ?v = "rung_verdict sha read_iso show_iso grp rung p (answers i)"
  have "settles grp i s ?v (revalidate_rung sha read_iso show_iso grp rung (Aware t) p (answers (r_rung_index rung)) s)"
    using settles_rung [OF _ market, of s rung] at_i by simp
  from settles_run_ok [OF this sound_rung at_i(1)] obtain s' oc where
    "revalidate_rung sha read_iso show_iso grp rung (Aware t) p (answers (r_rung_index rung)) s = Inr (s', oc, snd (snd ?v))"
    "run_ok grp p [i] s s' [oc] (snd (snd ?v))" by metis
  then have "revalidate_step (rung_handler sha read_iso show_iso t p answers) grp (s, outcomes, events) i =
      Inr (s', outcomes @ [oc], events @ snd (snd ?v)) \<and> run_ok grp p [i] s s' [oc] (snd (snd ?v))"
    using rung by (simp add: revalidate_step_def)
  then show ?thesis using at_i by blast
qed

lemma revalidate_run_ok:
  assumes grp: "has_group s grp" and dist: "distinct idxs" and market: "currency_for_market (g_market grp) \<noteq> None"
  shows "\<exists>s' o1 e1. foldR (revalidate_step (rung_handler sha read_iso show_iso t p answers) grp)
      (s, [], []) idxs = Inr (s', o1, e1) \<and> run_ok grp p idxs s s' o1 e1"
proof -
  have "\<exists>s' o1 e1. foldR (revalidate_step (rung_handler sha read_iso show_iso t p answers) grp) (s, [], []) idxs =
      Inr (s', [] @ o1, [] @ e1) \<and> run_ok grp p idxs s s' o1 e1"
  proof (rule foldR_run_ok [where strict = False])
    fix s outcomes events i assume g: "has_group s grp"
    have skip: "\<not> rung_in s grp i PendingApproval \<Longrightarrow> run_ok grp p [i] s s [] []"
      by (rule skipped_run_ok) (use g in \<open>simp_all add: has_group_def\<close>)
    show "\<exists>s1 o1 e1. revalidate_step (rung_handler sha read_iso show_iso t p answers) grp (s, outcomes, events) i =
        Inr (s1, outcomes @ o1, events @ e1) \<and> run_ok grp p [i] s s1 o1 e1"
      using revalidate_turn [OF g market, of i sha read_iso show_iso t p answers outcomes events] skip by fastforce
  qed (use grp dist in auto)
  then show ?thesis by simp
qed

text \<open>Every event of a run belongs to the verdict of a rung that was pending when the run began.\<close>

lemma events_origin:
  assumes "has_group s grp" and "currency_for_market (g_market grp) \<noteq> None" and "distinct idxs"
    and "foldR (revalidate_step (rung_handler sha read_iso show_iso t p answers) grp) (s, outcomes, events) idxs =
      Inr (s', outcomes', events')"
    and "e \<in> set events'" and "e \<notin> set events" and "\<forall>i \<in> set idxs. \<exists>st. rung_in s grp i st"
  shows "\<exists>i \<in> set idxs. \<exists>rung. r_rung_index rung = i \<and> rung_in s grp i PendingApproval \<and>
    e \<in> set (snd (snd (rung_verdict sha read_iso show_iso grp rung p (answers i))))"
  using assms
proof (induction idxs arbitrary: s outcomes events)
  case Nil
  then show ?case by simp
next
  case (Cons i idxs)
  let ?f = "revalidate_step (rung_handler sha read_iso show_iso t p answers) grp"
  from revalidate_turn [OF Cons.prems(1,2), of i sha read_iso show_iso t p answers outcomes events]
  consider (skip) "?f (s, outcomes, events) i = Inr (s, outcomes, events)"
    | (turn) rung s1 oc where "rung_in s grp i PendingApproval" "r_rung_index rung = i"
      "?f (s, outcomes, events) i =
         Inr (s1, outcomes @ [oc], events @ snd (snd (rung_verdict sha read_iso show_iso grp rung p (answers i))))"
      "run_ok grp p [i] s s1 [oc] (snd (snd (rung_verdict sha read_iso show_iso grp rung p (answers i))))"
    by blast
  then show ?case
  proof cases
    case skip
    then show ?thesis using Cons.IH [OF Cons.prems(1,2)] Cons.prems(3-7) by auto
  next
    case turn
    let ?ev = "snd (snd (rung_verdict sha read_iso show_iso grp rung p (answers i)))"
    show ?thesis
    proof (cases "e \<in> set ?ev")
      case True
      then show ?thesis using turn by auto
    next
      case False
      have g1: "has_group s1 grp" using has_group_evolves [OF Cons.prems(1)] turn(4) by (simp add: run_ok_def)
      have keep: "rung_in s1 grp j st" if "j \<noteq> i" "rung_in s grp j st" for j st
        using turn(4) that by (simp add: run_ok_def)
      have fresh: "i \<notin> set idxs" using Cons.prems(3) by simp
      have rows: "\<forall>j \<in> set idxs. \<exists>st. rung_in s1 grp j st" using Cons.prems(7) keep fresh by (metis list.set_intros(2))
      have "foldR ?f (s1, outcomes @ [oc], events @ ?ev) idxs = Inr (s', outcomes', events')"
        using Cons.prems(4) turn(3) by simp
      from Cons.IH [OF g1 Cons.prems(2) _ this Cons.prems(5) _ rows] Cons.prems(3,6) False
      obtain j r where j: "j \<in> set idxs" "r_rung_index r = j" "rung_in s1 grp j PendingApproval"
        "e \<in> set (snd (snd (rung_verdict sha read_iso show_iso grp r p (answers j))))" by auto
      then obtain st where st: "rung_in s grp j st" "j \<noteq> i" using Cons.prems(7) fresh by auto
      then have "st = PendingApproval" using keep rung_in_unique [OF _ j(3)] by blast
      then show ?thesis using j st by auto
    qed
  qed
qed

section \<open>Every rung settles\<close>

lemma get_proposal_rows:
  assumes "get_proposal pid s = Inr (grp, rungs)"
  shows "get_group_by_proposal_id s pid = Some grp" "g_proposal_id grp = pid" "rungs = list_rungs s (g_id grp)"
  using assms get_group_in by (auto simp: get_proposal_def bindR_eq_Inr)

lemma distinct_rung_indices:
  assumes "wf_store s"
  shows "distinct (map r_rung_index (list_rungs s pk))"
proof -
  have "inj_on (\<lambda>r. (r_proposal_pk r, r_rung_index r)) (set (db_rungs s))" using assms by (simp add: wf_store_def distinct_map)
  then have "inj_on r_rung_index (set (list_rungs s pk))" by (auto simp: inj_on_def)
  moreover have "distinct (list_rungs s pk)" using distinct_list_rungs [OF assms] by (simp add: distinct_map)
  ultimately show ?thesis by (simp add: distinct_map)
qed

lemma row_rung_in:
  assumes "wf_store s" and "get_group_by_proposal_id s (g_proposal_id grp) = Some grp" and "r \<in> set (list_rungs s (g_id grp))"
  shows "rung_in s grp (r_rung_index r) (r_state r)"
  using locked_rung_is [OF assms(1), of grp r] get_group_in [OF assms(2)] assms by (auto simp: rung_in_def)

lemma rung_in_row:
  assumes "rung_in s grp i st"
  shows "\<exists>r \<in> set (list_rungs s (g_id grp)). r_rung_index r = i \<and> r_state r = st"
  using assms get_locked_rung_Inr by (fastforce simp: rung_in_def)

lemma whole_run:
  assumes wf: "wf_store s" and gp: "get_proposal pid s = Inr (grp, rungs)"
    and open_group: "proposal_approval_block_reason grp = None" and market: "currency_for_market (g_market grp) \<noteq> None"
    and stamped: "active_policy_stamp grp expected = Some policy"
  shows "\<exists>s' outcomes events idxs.
    revalidate_and_submit sha read_iso show_iso pid (Aware t) expected gated w answers s = Inr (s', outcomes, events) \<and>
    run_ok grp policy idxs s s' outcomes events \<and>
    (\<forall>r \<in> set rungs. r_state r = PendingApproval \<longrightarrow> r_rung_index r \<in> set idxs)"
    (is "\<exists>s' outcomes events idxs. ?run = _ \<and> _")
proof -
  note g = get_proposal_rows [OF gp]
  let ?pending = "filter (\<lambda>r. r_state r = PendingApproval) rungs" and ?d = "decision_at grp (Some policy) w"
  have grp: "has_group s grp" using wf g(1,2) by (simp add: has_group_def)
  have start: "rung_in s grp (r_rung_index r) (r_state r)" if "r \<in> set rungs" for r
    using row_rung_in [OF wf] g that by simp
  have indices: "distinct (map r_rung_index rungs)" using distinct_rung_indices [OF wf] g(3) by simp
  have shape: "revalidate_and_submit sha read_iso show_iso pid (Aware t) expected gated w answers s =
      (if \<not> window_allowed ?d then foldR (block_all grp ?d) (s, [], []) (map r_rung_index ?pending)
       else if gated \<and> 1 < length ?pending
       then Inr (s, map (flat_outcome ApprovalRequired (DetailReason ''multi_rung_requires_approval'')) ?pending, [])
       else foldR (revalidate_step (\<lambda>g r. revalidate_rung sha read_iso show_iso g r (Aware t) policy
              (answers (r_rung_index r))) grp) (s, [], []) (map r_rung_index rungs))"
    by (simp add: revalidate_and_submit_def gp open_group stamped Let_def of_option_def)
  consider "\<not> window_allowed ?d" | "window_allowed ?d" "gated" "1 < length ?pending"
    | "window_allowed ?d" "\<not> (gated \<and> 1 < length ?pending)" by blast
  then show ?thesis
  proof cases
    case 1
    have "distinct (map r_rung_index ?pending)" using indices by (simp add: distinct_map_filter)
    moreover have "\<forall>i \<in> set (map r_rung_index ?pending). rung_in s grp i PendingApproval" using start by force
    ultimately obtain s' o1 e1 where "foldR (block_all grp ?d) (s, [], []) (map r_rung_index ?pending) = Inr (s', o1, e1)"
      "run_ok grp policy (map r_rung_index ?pending) s s' o1 e1"
      using block_all_run_ok [OF grp] by metis
    moreover have "?run = foldR (block_all grp ?d) (s, [], []) (map r_rung_index ?pending)" using shape 1 by simp
    ultimately show ?thesis by fastforce
  next
    case 2
    let ?out = "map (flat_outcome ApprovalRequired (DetailReason ''multi_rung_requires_approval'')) ?pending"
    have "run_ok grp policy (map r_rung_index ?pending) s s ?out []"
      using wf start by (auto simp: run_ok_def flat_outcome_def) (metis (mono_tags))
    moreover have "?run = Inr (s, ?out, [])" using shape 2 by auto
    ultimately show ?thesis by fastforce
  next
    case 3
    from revalidate_run_ok [OF grp indices market, of sha read_iso show_iso t policy answers]
    obtain s' o1 e1 where
      "foldR (revalidate_step (\<lambda>g r. revalidate_rung sha read_iso show_iso g r (Aware t) policy
              (answers (r_rung_index r))) grp) (s, [], []) (map r_rung_index rungs) = Inr (s', o1, e1)"
      "run_ok grp policy (map r_rung_index rungs) s s' o1 e1" by metis
    moreover have "?run = foldR (revalidate_step (\<lambda>g r. revalidate_rung sha read_iso show_iso g r (Aware t) policy
              (answers (r_rung_index r))) grp) (s, [], []) (map r_rung_index rungs)" using shape 3 by auto
    ultimately show ?thesis by fastforce
  qed
qed

end
