(* ===== verification/RevalidationSafety.thy ===== *)
theory RevalidationSafety
  imports RevalidationRuns ProposalSamples
begin

text \<open>
  What the submission orchestrator promises: every rung settles and is reported truthfully, nothing is
  sent before every check has passed, a replacement follows a confirmed cancellation, ambiguity is
  never a rejection, and the buying-power claim follows the order.
\<close>

section \<open>Whole runs\<close>

text \<open>
  C6: However the broker, the windows, the gates and the clock answer, re-validation of a proposal
  that may still be approved ends without an error; a rung that was not pending keeps its state, and
  every pending one is reported with an outcome that tells the state it is left in, which is never
  revalidating, approved or submitting.
\<close>

theorem revalidation_settles_every_rung:
  assumes "wf_store s" and "get_proposal pid s = Inr (grp, rungs)"
    and "proposal_approval_block_reason grp = None" and "currency_for_market (g_market grp) \<noteq> None"
    and "active_policy_stamp grp expected = Some policy"
  shows "\<exists>s' outcomes events.
    revalidate_and_submit sha read_iso show_iso pid (Aware t) expected gated w answers s = Inr (s', outcomes, events) \<and>
    wf_store s' \<and>
    (\<forall>r \<in> set rungs. \<exists>r' \<in> set (list_rungs s' (g_id grp)). r_rung_index r' = r_rung_index r \<and>
       (if r_state r = PendingApproval
        then \<exists>oc \<in> set outcomes. ro_rung_index oc = r_rung_index r \<and> r_state r' \<in> outcome_states (ro_result oc)
        else r_state r' = r_state r))"
proof -
  note g = get_proposal_rows [OF assms(2)]
  obtain s' outcomes events idxs where
    run: "revalidate_and_submit sha read_iso show_iso pid (Aware t) expected gated w answers s = Inr (s', outcomes, events)"
    and ok: "run_ok grp policy idxs s s' outcomes events"
    and all: "\<forall>r \<in> set rungs. r_state r = PendingApproval \<longrightarrow> r_rung_index r \<in> set idxs"
    using whole_run [OF assms, of sha read_iso show_iso t gated w answers] by blast
  have "\<exists>r' \<in> set (list_rungs s' (g_id grp)). r_rung_index r' = r_rung_index r \<and>
     (if r_state r = PendingApproval
      then \<exists>oc \<in> set outcomes. ro_rung_index oc = r_rung_index r \<and> r_state r' \<in> outcome_states (ro_result oc)
      else r_state r' = r_state r)" if r: "r \<in> set rungs" for r
  proof -
    have start: "rung_in s grp (r_rung_index r) (r_state r)" using row_rung_in [OF assms(1)] g r by simp
    show ?thesis
    proof (cases "r_state r = PendingApproval")
      case True
      then obtain oc st where oc: "oc \<in> set outcomes" "ro_rung_index oc = r_rung_index r"
        "st \<in> outcome_states (ro_result oc)" "rung_in s' grp (r_rung_index r) st"
        using ok start all r unfolding run_ok_def by metis
      then show ?thesis using True rung_in_row [OF oc(4)] by auto
    next
      case False
      then have "rung_in s' grp (r_rung_index r) (r_state r)" using ok start unfolding run_ok_def by blast
      from rung_in_row [OF this] show ?thesis using False by auto
    qed
  qed
  then show ?thesis using run ok evolves_wf unfolding run_ok_def by blast
qed

text \<open>
  C4: Every order and every cancellation that leaves the process leaves under a window reading taken
  while the proposal is valid, which is a protective exit or has open session evidence carrying the
  very policy stamp the card advertised.
\<close>

theorem mutations_only_while_valid_and_open:
  assumes "wf_store s" and "get_proposal pid s = Inr (grp, rungs)"
    and "proposal_approval_block_reason grp = None" and "currency_for_market (g_market grp) \<noteq> None"
    and "active_policy_stamp grp expected = Some policy"
    and "revalidate_and_submit sha read_iso show_iso pid (Aware t) expected gated w answers s = Inr (s', outcomes, events)"
    and "LivePost d \<in> set events \<or> CancelPost d \<in> set events"
  shows "\<exists>reading. window_at grp (Some policy) reading = Inr d \<and>
    live_at grp (wr_now1 reading) \<and> live_at grp (wr_now2 reading) \<and>
    (truthy (g_exit_intent grp) \<or>
     (\<exists>ev. wr_session reading = Inr ev \<and> se_allowed_now ev \<and> holds_at ev (wr_now2 reading) \<and>
        policy = policy_stamp (we_stamp_hash (wr_env reading)) grp (Some ev)))"
proof -
  obtain idxs where "run_ok grp policy idxs s s' outcomes events"
    using whole_run [OF assms(1-5), of sha read_iso show_iso t gated w answers] assms(6) by auto
  then have "allowed_event grp policy (LivePost d) \<or> allowed_event grp policy (CancelPost d)"
    using assms(7) by (auto simp: run_ok_def)
  then obtain reading where d: "window_at grp (Some policy) reading = Inr d" "window_allowed d"
    by (auto simp: allowed_event_def)
  then have "evaluate_approval_window_boundary (wr_env reading)
      (evaluate_approval_window (wr_env reading) (\<lambda>_ _. wr_session reading)) (Some policy) True grp
      (Aware (wr_now1 reading)) (Aware (wr_now2 reading)) = Inr d"
    unfolding window_at_def map_error_def by (auto split: sum.splits)
  from boundary_allows [THEN iffD1, OF exI, OF conjI, OF this d(2)] show ?thesis using d(1) by auto
qed

section \<open>What has left the process\<close>

fun is_post :: "submit_event \<Rightarrow> bool" where
  "is_post (LivePost _) = True"
| "is_post _ = False"

fun is_send :: "submit_event \<Rightarrow> bool" where
  "is_send (LivePost _) = True"
| "is_send (CancelPost _) = True"
| "is_send _ = False"

definition posted :: "submit_event list \<Rightarrow> bool" where
  "posted events \<longleftrightarrow> (\<exists>e \<in> set events. is_post e)"

definition sent :: "submit_event list \<Rightarrow> bool" where
  "sent events \<longleftrightarrow> (\<exists>e \<in> set events. is_send e)"

lemma posted_simps [simp]:
  "\<not> posted []" "posted (a @ b) \<longleftrightarrow> posted a \<or> posted b" "posted (map LivePost ds) \<longleftrightarrow> ds \<noteq> []"
  "\<not> posted (map CancelPost ds)" "\<not> posted (released r)" "posted (e # es) \<longleftrightarrow> is_post e \<or> posted es"
  by (auto simp: posted_def released_def) (simp add: ex_in_conv)

lemma sent_simps [simp]:
  "\<not> sent []" "sent (a @ b) \<longleftrightarrow> sent a \<or> sent b" "sent (map LivePost ds) \<longleftrightarrow> ds \<noteq> []"
  "sent (map CancelPost ds) \<longleftrightarrow> ds \<noteq> []" "\<not> sent (released r)"
  "sent (e # es) \<longleftrightarrow> is_send e \<or> sent es"
  by (auto simp: sent_def released_def) (simp_all add: ex_in_conv)

text \<open>The state, outcome and events of a finished rung are those of its verdict.\<close>

lemma settles_result:
  assumes "settles grp i s v m" and "m = Inr (s', oc, events)"
  shows "rung_in s' grp i (fst v)" "ro_result oc = fst (snd v)" "events = snd (snd v)" "moves grp i s s'"
  using assms by (auto simp: settles_def)

lemma pending_row:
  assumes "wf_store s" and "get_locked_rung (g_proposal_id grp) (r_rung_index rung) s = Inr (grp, rung)"
    and "r_state rung = PendingApproval"
  shows "rung_in s grp (r_rung_index rung) PendingApproval"
  using assms by (auto simp: rung_in_def)

section \<open>An order is posted only after every check\<close>

text \<open>What has to hold before a place order may be posted.\<close>

definition affordable :: "rung \<Rightarrow> preview_answer \<Rightarrow> (rat \<times> string option) option \<Rightarrow> bool" where
  "affordable rung pv balance \<longleftrightarrow>
     (r_side rung = ''buy'' \<longrightarrow>
        (case (r_limit_price rung, balance) of
           (Some price, Some (available, _)) \<Rightarrow>
             required_cash (r_quantity rung) price (pv_estimated_value pv) (pv_fee pv) \<le> available
         | _ \<Rightarrow> True))"

definition gate_passed :: "gate_answer option \<Rightarrow> bool" where
  "gate_passed gate = (case gate of None \<Rightarrow> True | Some (GateDecision ok _) \<Rightarrow> ok | Some (GateFailed _) \<Rightarrow> False)"

definition opens :: "order_proposal \<Rightarrow> string \<Rightarrow> window_reading \<Rightarrow> bool" where
  "opens grp p w \<longleftrightarrow> window_allowed (decision_at grp (Some p) w)"

definition place_checked :: "(string \<Rightarrow> string) \<Rightarrow> order_proposal \<Rightarrow> rung \<Rightarrow> string \<Rightarrow> place_answers \<Rightarrow> bool" where
  "place_checked sha grp rung p ans \<longleftrightarrow>
     opens grp p (pa_window1 ans) \<and> opens grp p (pa_window2 ans) \<and> opens grp p (pa_window3 ans) \<and>
     gate_passed (pa_gate ans) \<and>
     (\<exists>pv. dry_run grp (pa_preview ans) = Inr pv \<and> pv_success pv \<noteq> Some False \<and>
        \<not> invalid_preview sha grp (r_rung_index rung) pv \<and> approved_terms rung = previewed_terms rung pv \<and>
        affordable rung pv (pa_claim ans))"

lemma gate_posted:
  "posted (snd (snd (gate_verdict grp p w events v))) \<Longrightarrow> \<not> posted events \<Longrightarrow>
     opens grp p w \<and> posted (snd (snd v))"
  by (auto simp: gate_verdict_def opens_def block_verdict_def Let_def split: if_splits)

lemma eligibility_posted:
  "posted (snd (snd (eligibility_verdict gate [] v))) \<Longrightarrow> gate_passed gate \<and> posted (snd (snd v))"
  by (auto simp: eligibility_verdict_def gate_passed_def split: option.splits gate_answer.splits bool.splits)

lemma claim_posted:
  assumes "posted (snd (snd (claim_verdict sha grp rung pv p ans)))"
  shows "opens grp p (pa_window3 ans) \<and> affordable rung pv (pa_claim ans)"
proof -
  have open3: "opens grp p (pa_window3 ans)"
    if "posted (snd (snd (gate_verdict grp p (pa_window3 ans) (ev @ released r) v)))" "\<not> posted ev" for ev r v
    using gate_posted [OF that(1)] that(2) by simp
  show ?thesis
  proof (cases "r_side rung = ''buy'' \<and> r_limit_price rung \<noteq> None")
    case False
    then have "posted (snd (snd (gate_verdict grp p (pa_window3 ans) ([] @ released False)
        (submit_verdict sha grp (r_rung_index rung) p ans False []))))"
      using assms by (auto simp: claim_verdict_def Let_def)
    from open3 [OF this] show ?thesis using False by (auto simp: affordable_def split: option.splits)
  next
    case True
    then obtain price where price: "r_side rung = ''buy''" "r_limit_price rung = Some price" by blast
    show ?thesis
    proof (cases "pa_claim ans")
      case None
      then have "posted (snd (snd (gate_verdict grp p (pa_window3 ans) ([] @ released False)
        (submit_verdict sha grp (r_rung_index rung) p ans False []))))"
        using assms price by (simp add: claim_verdict_def Let_def)
      from open3 [OF this] show ?thesis using None price by (simp add: affordable_def)
    next
      case (Some c)
      obtain available token where c: "c = (available, token)" by (cases c) auto
      have "\<not> available < required_cash (r_quantity rung) price (pv_estimated_value pv) (pv_fee pv)"
        using assms Some c price by (auto simp: claim_verdict_def Let_def)
      moreover from this have "posted (snd (snd (gate_verdict grp p (pa_window3 ans) ([ClaimTaken] @ released True)
        (submit_verdict sha grp (r_rung_index rung) p ans True [ClaimTaken]))))"
        using assms Some c price by (simp add: claim_verdict_def Let_def)
      then have "opens grp p (pa_window3 ans)" by (rule open3) simp
      ultimately show ?thesis using Some c price by (simp add: affordable_def)
    qed
  qed
qed

lemma place_posted:
  assumes "posted (snd (snd (place_verdict sha grp rung p ans)))"
  shows "place_checked sha grp rung p ans"
proof -
  from gate_posted [OF assms [unfolded place_verdict_def]]
  have w1: "opens grp p (pa_window1 ans)" and rest: "posted (snd (snd (case dry_run grp (pa_preview ans) of
      Inl _ \<Rightarrow> (PendingApproval, OutcomeError, []) | Inr pv \<Rightarrow> preview_verdict sha grp rung pv p ans)))" by simp_all
  then obtain pv where pv: "dry_run grp (pa_preview ans) = Inr pv"
    and post: "posted (snd (snd (preview_verdict sha grp rung pv p ans)))" by (auto split: sum.splits)
  then have checks: "pv_success pv \<noteq> Some False" "\<not> invalid_preview sha grp (r_rung_index rung) pv"
    "approved_terms rung = previewed_terms rung pv"
    "posted (snd (snd (eligibility_verdict (pa_gate ans) []
       (gate_verdict grp p (pa_window2 ans) [] (claim_verdict sha grp rung pv p ans)))))"
    by (auto simp: preview_verdict_def split: if_splits)
  from eligibility_posted [OF checks(4)] have g: "gate_passed (pa_gate ans)"
    and c: "posted (snd (snd (gate_verdict grp p (pa_window2 ans) [] (claim_verdict sha grp rung pv p ans))))" by simp_all
  from gate_posted [OF c] have w2: "opens grp p (pa_window2 ans)"
    and cl: "posted (snd (snd (claim_verdict sha grp rung pv p ans)))" by simp_all
  show ?thesis using w1 w2 pv checks(1-3) g claim_posted [OF cl] unfolding place_checked_def by simp
qed

text \<open>
  C5: An order leaves for the broker only for a rung whose three window gates were open, whose
  eligibility gate passed, whose fresh preview succeeded with exactly the approved price and quantity,
  and whose cost a known balance covers; each post was allowed by a window reading of its own.
\<close>

theorem order_posted_only_after_every_check:
  assumes "wf_store s" and "get_locked_rung (g_proposal_id grp) (r_rung_index rung) s = Inr (grp, rung)"
    and "r_state rung = PendingApproval" and "currency_for_market (g_market grp) \<noteq> None"
    and "revalidate_place_rung sha grp rung (Aware t) policy ans s = Inr (s', oc, events)"
    and "LivePost d \<in> set events"
  shows "place_checked sha grp rung policy ans \<and> window_allowed d \<and>
    (\<exists>w. window_at grp (Some policy) w = Inr d)"
proof -
  note st = settles_place [OF pending_row [OF assms(1-3)] assms(4), of sha policy ans t]
  note r = settles_result [OF st assms(5)]
  have "posted (snd (snd (place_verdict sha grp rung policy ans)))" using r(3) assms(6) by (force simp: posted_def)
  moreover have "allowed_event grp policy (LivePost d)"
    using sound_place [of grp policy sha rung ans] r(3) assms(6) by (auto simp: sound_verdict_def)
  ultimately show ?thesis using place_posted by (auto simp: allowed_event_def)
qed

section \<open>A pending rung has nothing at the broker\<close>

lemma hook_single:
  "hook_verdict (map f ws) = (posts, Some d) \<Longrightarrow> length ws \<le> 1 \<Longrightarrow> posts = []"
  by (cases ws) (auto split: if_splits)

lemma call_single:
  "call_verdict grp p k ws reply = (posts, Some d, answer) \<Longrightarrow> length ws \<le> 1 \<Longrightarrow> posts = []"
  using hook_single by (auto simp: call_verdict_def split: if_splits prod.splits)

definition local_state :: "rung_state set" where
  "local_state = {PendingApproval, NeedsReconfirm, Expired}"

lemma gate_local:
  "(fst v \<in> local_state \<Longrightarrow> \<not> sent (snd (snd v))) \<Longrightarrow> \<not> sent events \<Longrightarrow>
     fst (gate_verdict grp p w events v) \<in> local_state \<Longrightarrow> \<not> sent (snd (snd (gate_verdict grp p w events v)))"
  by (auto simp: gate_verdict_def block_verdict_def Let_def split: if_splits)

lemma answer_not_local: "fst (answer_verdict grp k ev sb events) \<notin> local_state"
  by (auto simp: answer_verdict_def local_state_def)

lemma exception_not_local: "fst (exception_verdict grp k ev e events) \<notin> local_state"
  using answer_not_local by (auto simp: exception_verdict_def) (simp add: local_state_def)

lemma release_fst: "fst (release_verdict r v) = fst v"
  by (simp add: release_verdict_def split: prod.splits)

lemma submit_local:
  assumes "length (pa_hooks ans) \<le> 1" and "\<not> sent events"
    and "fst (submit_verdict sha grp i p ans r events) \<in> local_state"
  shows "\<not> sent (snd (snd (submit_verdict sha grp i p ans r events)))"
proof -
  obtain posts blocked reply where
    call: "call_verdict grp p (proposal_client_order_id sha grp i) (pa_hooks ans) (pa_submit ans) = (posts, blocked, reply)"
    by (cases "call_verdict grp p (proposal_client_order_id sha grp i) (pa_hooks ans) (pa_submit ans)") auto
  show ?thesis
  proof (cases blocked)
    case None
    then show ?thesis using assms(3) answer_not_local exception_not_local
      by (auto simp: submit_verdict_def call Let_def release_fst split: sum.splits)
  next
    case (Some d)
    then show ?thesis using call_single [OF call [unfolded Some] assms(1)] assms(2)
      by (simp add: submit_verdict_def call Let_def block_verdict_def)
  qed
qed

text \<open>A verdict that leaves the rung to the operator has sent nothing.\<close>

definition quiet :: "verdict \<Rightarrow> bool" where
  "quiet v \<longleftrightarrow> (fst v \<in> local_state \<longrightarrow> \<not> sent (snd (snd v)))"

lemma quiet_plain: "quiet (st, res, events) \<longleftrightarrow> (st \<in> local_state \<longrightarrow> \<not> sent events)"
  by (simp add: quiet_def)

lemma quiet_block: "\<not> sent events \<Longrightarrow> quiet (block_verdict grp d events)"
  by (simp add: block_verdict_def quiet_plain)

lemma quiet_gate: "quiet v \<Longrightarrow> \<not> sent events \<Longrightarrow> quiet (gate_verdict grp p w events v)"
  by (simp add: gate_verdict_def Let_def quiet_block)

lemma quiet_eligibility: "quiet v \<Longrightarrow> quiet (eligibility_verdict gate [] v)"
  by (auto simp: eligibility_verdict_def quiet_plain split: option.splits gate_answer.splits bool.splits)

lemma quiet_answer: "quiet (answer_verdict grp k ev sb events)"
  using answer_not_local by (simp add: quiet_def)

lemma quiet_exception: "quiet (exception_verdict grp k ev e events)"
  using exception_not_local by (simp add: quiet_def)

lemma quiet_place:
  assumes "length (pa_hooks ans) \<le> 1"
  shows "quiet (place_verdict sha grp rung p ans)"
proof -
  have submit: "quiet (gate_verdict grp p (pa_window3 ans) (events @ released r)
      (submit_verdict sha grp (r_rung_index rung) p ans r events))" if "\<not> sent events" for events r
    using submit_local [OF assms that] that by (intro quiet_gate) (simp_all add: quiet_def)
  have claim: "quiet (claim_verdict sha grp rung pv p ans)" for pv
    using submit [of "[]" False] submit [of "[ClaimTaken]" True]
    by (auto simp: claim_verdict_def Let_def quiet_plain split: option.split)
  have "quiet (preview_verdict sha grp rung pv p ans)" for pv
    using quiet_eligibility [OF quiet_gate [OF claim]] by (simp add: preview_verdict_def quiet_plain)
  then show ?thesis unfolding place_verdict_def by (intro quiet_gate) (simp_all add: quiet_plain split: sum.split)
qed

lemma quiet_target: "quiet v \<Longrightarrow> quiet (target_verdict read_iso show_iso grp answer v)"
  by (simp add: target_verdict_def quiet_plain split: sum.split prod.split option.split)

lemma quiet_cancel:
  assumes one: "length (ca_hooks ans) \<le> 1" and k: "\<And>events. quiet (k events)"
  shows "quiet (cancel_verdict grp p ans k)"
proof -
  obtain posts blocked where h: "hook_verdict (map (decision_at grp (Some p)) (ca_hooks ans)) = (posts, blocked)"
    by (cases "hook_verdict (map (decision_at grp (Some p)) (ca_hooks ans))") auto
  show ?thesis
  proof (cases blocked)
    case None
    then show ?thesis using k [of "map CancelPost posts"]
      by (simp add: cancel_verdict_def h quiet_plain local_state_def Let_def split: sum.split cancel_reply.split bool.split)
  next
    case (Some d)
    then have "posts = []" using hook_single h one by metis
    then show ?thesis using Some by (simp add: cancel_verdict_def h quiet_plain quiet_block)
  qed
qed

lemma quiet_replacement: "quiet (replacement_verdict sha grp i p ans events)"
proof -
  obtain posts blocked reply where
    "call_verdict grp p (proposal_client_order_id sha grp i) (ra_hooks ans) (ra_submit ans) = (posts, blocked, reply)"
    by (cases "call_verdict grp p (proposal_client_order_id sha grp i) (ra_hooks ans) (ra_submit ans)") auto
  then show ?thesis using quiet_answer quiet_exception
    by (simp add: replacement_verdict_def Let_def lost_replacement_def quiet_plain local_state_def reply_verdict_def
        split: option.split sum.split)
qed

lemma quiet_rung:
  assumes "length (pa_hooks (aa_place ans)) \<le> 1" and "length (ca_hooks (ta_cancel (aa_target ans))) \<le> 1"
  shows "quiet (rung_verdict sha read_iso show_iso grp rung p ans)"
proof -
  have c: "quiet (cancel_rung_verdict read_iso show_iso grp p (target_answers.truncate (aa_target ans)))"
    unfolding cancel_rung_verdict_def
    by (intro quiet_gate quiet_target quiet_eligibility quiet_cancel)
      (simp_all add: assms(2) [simplified] target_answers.truncate_def quiet_plain local_state_def)
  have pre: "quiet (replace_preview_verdict rung a v)" if "quiet v" for a v
    using that by (simp add: replace_preview_verdict_def quiet_plain split: sum.split)
  have opp: "quiet (opposite_verdict a v)" if "quiet v" for a v
    using that by (simp add: opposite_verdict_def quiet_plain split: sum.split option.split)
  have "quiet (replace_rung_verdict sha read_iso show_iso grp rung p (aa_target ans))"
    unfolding replace_rung_verdict_def
    by (intro quiet_gate quiet_target quiet_eligibility pre opp quiet_cancel quiet_replacement assms(2)) simp_all
  then show ?thesis using c quiet_place [OF assms(1)] by (simp add: rung_verdict_def Let_def)
qed

text \<open>
  C18: With transports that mutate once per call, a rung that re-validation leaves open to the operator
  (pending again, waiting for a new confirmation, or expired) has sent nothing to the broker: neither
  an order nor a cancellation.
\<close>

theorem pending_again_means_nothing_sent:
  assumes "wf_store s" and "get_locked_rung (g_proposal_id grp) (r_rung_index rung) s = Inr (grp, rung)"
    and "r_state rung = PendingApproval" and "currency_for_market (g_market grp) \<noteq> None"
    and "length (pa_hooks (aa_place ans)) \<le> 1" and "length (ca_hooks (ta_cancel (aa_target ans))) \<le> 1"
    and "revalidate_rung sha read_iso show_iso grp rung (Aware t) policy ans s = Inr (s', oc, events)"
    and "get_locked_rung (g_proposal_id grp) (r_rung_index rung) s' = Inr (g', r')" and "r_state r' \<in> local_state"
  shows "\<not> sent events"
proof -
  note st = settles_rung [OF pending_row [OF assms(1-3)] assms(4), of sha read_iso show_iso policy ans t]
  note r = settles_result [OF st assms(7)]
  have "fst (rung_verdict sha read_iso show_iso grp rung policy ans) = r_state r'"
    using r(1) assms(8) by (auto simp: rung_in_def)
  then show ?thesis using quiet_rung [OF assms(5,6), of sha read_iso show_iso grp rung policy] assms(9) r(3)
    by (simp add: quiet_def)
qed

section \<open>Ambiguity is never a rejection\<close>

text \<open>The answers that refuse an order outright.\<close>

definition refuses :: "order_proposal \<Rightarrow> raw_submit \<Rightarrow> bool" where
  "refuses grp r \<longleftrightarrow>
     rs_broker_status r = Some ''rejected'' \<or>
     (rs_success r = Some False \<and>
        (g_account_mode grp = ''toss_live'' \<longrightarrow> \<not> rs_mutation_sent r \<or> typed_client_rejection r))"

lemma adapted_refuses: "sb_success (adapted grp r) = Some False \<Longrightarrow> refuses grp r"
  by (auto simp: adapted_def adapt_toss_submit_def adapt_live_submit_def refuses_def unadapted_def Let_def
      split: if_splits)

definition no_order_found :: "order_proposal \<Rightarrow> submit_evidence \<Rightarrow> bool" where
  "no_order_found grp ev \<longleftrightarrow> (g_account_mode grp = ''upbit'' \<longrightarrow> se_outcome ev = EvidenceAbsent)"

text \<open>What must have been answered for a rung to end rejected.\<close>

definition rejection_grounds :: "(string \<Rightarrow> string) \<Rightarrow> order_proposal \<Rightarrow> int \<Rightarrow> place_answers \<Rightarrow> bool" where
  "rejection_grounds sha grp i ans \<longleftrightarrow>
     (g_account_mode grp = ''toss_live'' \<and> \<not> is_valid_toss_client_order_id (proposal_client_order_id sha grp i)) \<or>
     (\<exists>r. pa_submit ans = Inr r \<and> refuses grp r \<and> no_order_found grp (pa_evidence ans)) \<or>
     (\<exists>e. pa_submit ans = Inl e \<and> g_account_mode grp = ''upbit'' \<and> se_outcome (pa_evidence ans) = EvidenceAbsent)"

lemma upbit_identifier: "g_account_mode grp = ''upbit'' \<Longrightarrow> proposal_client_order_id sha grp i \<noteq> None"
  by (simp add: proposal_client_order_id_def Let_def)

lemma answer_rejected:
  assumes "fst (answer_verdict grp (proposal_client_order_id sha grp i) ev sb events) = Rejected"
  shows "sb_success sb = Some False \<and> no_order_found grp ev"
  using assms upbit_identifier [of grp sha i]
  by (cases "se_outcome ev") (auto simp: answer_verdict_def no_order_found_def split: if_splits)

lemma block_not_rejected: "fst (block_verdict grp d events) \<noteq> Rejected"
  by (simp add: block_verdict_def after_expiry_def)

lemma gate_rejected: "fst (gate_verdict grp p w events v) = Rejected \<Longrightarrow> fst v = Rejected"
  using block_not_rejected by (auto simp: gate_verdict_def Let_def split: if_splits)

lemma submit_rejected:
  assumes "fst (submit_verdict sha grp i p ans r events) = Rejected"
  shows "rejection_grounds sha grp i ans"
proof -
  let ?k = "proposal_client_order_id sha grp i"
  obtain posts blocked reply where call: "call_verdict grp p ?k (pa_hooks ans) (pa_submit ans) = (posts, blocked, reply)"
    by (cases "call_verdict grp p ?k (pa_hooks ans) (pa_submit ans)") auto
  have none: "blocked = None"
    using assms block_not_rejected by (auto simp: submit_verdict_def call Let_def split: option.splits)
  show ?thesis
  proof (cases reply)
    case (Inl e)
    then have sub: "pa_submit ans = Inl e" using call by (auto simp: call_verdict_def split: if_splits prod.splits sum.splits)
    have ex: "fst (exception_verdict grp ?k (pa_evidence ans) e (events @ map LivePost posts)) = Rejected"
      using assms by (simp add: submit_verdict_def call none Inl)
    then have upbit: "g_account_mode grp = ''upbit''" by (auto simp: exception_verdict_def split: if_splits)
    then have "no_order_found grp (pa_evidence ans)" using ex answer_rejected by (auto simp: exception_verdict_def)
    then show ?thesis using sub upbit by (simp add: rejection_grounds_def no_order_found_def)
  next
    case (Inr sb)
    have an: "fst (answer_verdict grp ?k (pa_evidence ans) sb (events @ map LivePost posts)) = Rejected"
      using assms by (simp add: submit_verdict_def call none Inr release_fst)
    from answer_rejected [OF an] show ?thesis
      using call Inr adapted_refuses
      by (auto simp: call_verdict_def rejection_grounds_def split: if_splits prod.splits sum.splits)
  qed
qed

lemma place_rejected:
  assumes "fst (place_verdict sha grp rung p ans) = Rejected"
  shows "rejection_grounds sha grp (r_rung_index rung) ans"
proof -
  from gate_rejected [OF assms [unfolded place_verdict_def]] obtain pv
    where "fst (preview_verdict sha grp rung pv p ans) = Rejected" by (auto split: sum.splits)
  then have "fst (eligibility_verdict (pa_gate ans) [] (gate_verdict grp p (pa_window2 ans) []
      (claim_verdict sha grp rung pv p ans))) = Rejected" by (auto simp: preview_verdict_def split: if_splits)
  then have "fst (gate_verdict grp p (pa_window2 ans) [] (claim_verdict sha grp rung pv p ans)) = Rejected"
    by (auto simp: eligibility_verdict_def split: option.splits gate_answer.splits bool.splits)
  note claim = gate_rejected [OF this]
  have go: ?thesis if "fst (gate_verdict grp p (pa_window3 ans) ev (submit_verdict sha grp (r_rung_index rung) p ans r ev')) = Rejected"
    for ev ev' r using submit_rejected [OF gate_rejected [OF that]] .
  show ?thesis using claim go by (auto simp: claim_verdict_def Let_def split: if_splits option.splits)
qed

text \<open>
  C19: A placed rung ends rejected only on an outright refusal: a client order id the broker cannot
  take, a refusing answer, or on Upbit an exception; and on Upbit only when the lookup by identifier
  shows no order. A Toss answer that failed after the mutation was sent without a typed client error
  is no refusal.
\<close>

theorem rejected_only_when_refused:
  assumes "wf_store s" and "get_locked_rung (g_proposal_id grp) (r_rung_index rung) s = Inr (grp, rung)"
    and "r_state rung = PendingApproval" and "currency_for_market (g_market grp) \<noteq> None"
    and "revalidate_place_rung sha grp rung (Aware t) policy ans s = Inr (s', oc, events)"
    and "get_locked_rung (g_proposal_id grp) (r_rung_index rung) s' = Inr (g', r')" and "r_state r' = Rejected"
  shows "rejection_grounds sha grp (r_rung_index rung) ans"
proof -
  note st = settles_place [OF pending_row [OF assms(1-3)] assms(4), of sha policy ans t]
  note r = settles_result [OF st assms(5)]
  have "fst (place_verdict sha grp rung policy ans) = Rejected" using r(1) assms(6,7) by (auto simp: rung_in_def)
  then show ?thesis by (rule place_rejected)
qed

section \<open>A replacement follows a confirmed cancellation\<close>

text \<open>What has to hold before the replacement of a resting order may be posted.\<close>

definition target_unchanged :: "iso_reader \<Rightarrow> iso_printer \<Rightarrow> order_proposal \<Rightarrow> target_answer \<Rightarrow> bool" where
  "target_unchanged read_iso show_iso grp answer \<longleftrightarrow>
     (\<exists>tid approved fresh. approved_target read_iso show_iso grp = Inr (tid, approved) \<and> answer = Inr (Some fresh) \<and>
        t_status fresh = ''open'' \<and> field_mismatch approved fresh = None)"

definition replace_checked :: "iso_reader \<Rightarrow> iso_printer \<Rightarrow> order_proposal \<Rightarrow> rung \<Rightarrow> string \<Rightarrow> replace_answers \<Rightarrow> bool" where
  "replace_checked read_iso show_iso grp rung p ans \<longleftrightarrow>
     list_all (opens grp p) [ta_window1 ans, ta_window2 ans, ra_window3 ans, ra_window4 ans, ra_window5 ans] \<and>
     gate_passed (ta_gate ans) \<and> target_unchanged read_iso show_iso grp (ta_target ans) \<and> ra_opposite ans = Inr None \<and>
     (\<exists>pv. dry_run grp (ra_preview ans) = Inr pv \<and> pv_success pv \<noteq> Some False \<and>
        approved_terms rung = previewed_terms rung pv) \<and>
     (\<exists>err. ca_reply (ta_cancel ans) = Inr (CancelAnswered True err)) \<and> cancelled_target (ca_confirm (ta_cancel ans))"

lemma compare_target_same:
  "compare_target approved answer = Inr None \<Longrightarrow>
     \<exists>fresh. answer = Inr (Some fresh) \<and> t_status fresh = ''open'' \<and> field_mismatch approved fresh = None"
  by (auto simp: compare_target_def target_mismatch_reason_def split: sum.splits option.splits if_splits)

lemma target_posted:
  assumes "posted (snd (snd (target_verdict read_iso show_iso grp answer v)))"
  shows "target_unchanged read_iso show_iso grp answer \<and> posted (snd (snd v))"
proof (cases "approved_target read_iso show_iso grp")
  case (Inl e)
  then show ?thesis using assms by (simp add: target_verdict_def)
next
  case (Inr ts)
  obtain tid approved where ts: "ts = (tid, approved)" by (cases ts)
  have "compare_target approved answer = Inr None \<and> posted (snd (snd v))"
    using assms Inr ts by (simp add: target_verdict_def split: sum.splits option.splits)
  then show ?thesis using compare_target_same Inr ts unfolding target_unchanged_def by blast
qed

lemma cancel_posted:
  assumes "posted (snd (snd (cancel_verdict grp p ans k)))"
  shows "(\<exists>err. ca_reply ans = Inr (CancelAnswered True err)) \<and> cancelled_target (ca_confirm ans) \<and>
    (\<exists>ds. posted (snd (snd (k (map CancelPost ds)))))"
proof -
  obtain ds blocked where h: "hook_verdict (map (decision_at grp (Some p)) (ca_hooks ans)) = (ds, blocked)"
    by (cases "hook_verdict (map (decision_at grp (Some p)) (ca_hooks ans))") auto
  then have "blocked = None" using assms
    by (auto simp: cancel_verdict_def block_verdict_def Let_def split: if_splits option.splits)
  then show ?thesis using assms
    by (auto simp: cancel_verdict_def h Let_def split: if_splits sum.splits cancel_reply.splits bool.splits)
qed

lemma replacement_posted:
  "posted (snd (snd (replacement_verdict sha grp i p ans (map CancelPost ds)))) \<Longrightarrow> opens grp p (ra_window5 ans)"
  by (auto simp: replacement_verdict_def opens_def lost_replacement_def Let_def split: if_splits)

lemma replace_posted:
  assumes "posted (snd (snd (replace_rung_verdict sha read_iso show_iso grp rung p ans)))"
  shows "replace_checked read_iso show_iso grp rung p ans"
proof -
  from gate_posted [OF assms [unfolded replace_rung_verdict_def]]
  have 1: "opens grp p (ta_window1 ans)" and s1: "posted (snd (snd (target_verdict read_iso show_iso grp (ta_target ans)
    (eligibility_verdict (ta_gate ans) [] (gate_verdict grp p (ta_window2 ans) []
      (replace_preview_verdict rung (dry_run grp (ra_preview ans)) (gate_verdict grp p (ra_window3 ans) []
        (opposite_verdict (ra_opposite ans) (gate_verdict grp p (ra_window4 ans) []
          (cancel_verdict grp p (ta_cancel ans) (replacement_verdict sha grp (r_rung_index rung) p ans)))))))))))" by simp_all
  note t = target_posted [OF s1]
  note e = eligibility_posted [OF conjunct2 [OF t]]
  from gate_posted [OF conjunct2 [OF e]] have 2: "opens grp p (ta_window2 ans)"
    and s2: "posted (snd (snd (replace_preview_verdict rung (dry_run grp (ra_preview ans)) (gate_verdict grp p (ra_window3 ans) []
        (opposite_verdict (ra_opposite ans) (gate_verdict grp p (ra_window4 ans) []
          (cancel_verdict grp p (ta_cancel ans) (replacement_verdict sha grp (r_rung_index rung) p ans))))))))" by simp_all
  then obtain pv where pv: "dry_run grp (ra_preview ans) = Inr pv" "pv_success pv \<noteq> Some False"
    "approved_terms rung = previewed_terms rung pv"
    and s3: "posted (snd (snd (gate_verdict grp p (ra_window3 ans) []
        (opposite_verdict (ra_opposite ans) (gate_verdict grp p (ra_window4 ans) []
          (cancel_verdict grp p (ta_cancel ans) (replacement_verdict sha grp (r_rung_index rung) p ans)))))))"
    by (auto simp: replace_preview_verdict_def split: sum.splits if_splits)
  from gate_posted [OF s3] have 3: "opens grp p (ra_window3 ans)" and s4: "posted (snd (snd
      (opposite_verdict (ra_opposite ans) (gate_verdict grp p (ra_window4 ans) []
        (cancel_verdict grp p (ta_cancel ans) (replacement_verdict sha grp (r_rung_index rung) p ans))))))" by simp_all
  then have o: "ra_opposite ans = Inr None" and s5: "posted (snd (snd (gate_verdict grp p (ra_window4 ans) []
      (cancel_verdict grp p (ta_cancel ans) (replacement_verdict sha grp (r_rung_index rung) p ans)))))"
    by (auto simp: opposite_verdict_def split: sum.splits option.splits)
  from gate_posted [OF s5] have 4: "opens grp p (ra_window4 ans)"
    and s6: "posted (snd (snd (cancel_verdict grp p (ta_cancel ans) (replacement_verdict sha grp (r_rung_index rung) p ans))))"
    by simp_all
  from cancel_posted [OF s6] replacement_posted have 5: "opens grp p (ra_window5 ans)" by blast
  show ?thesis unfolding replace_checked_def
    using 1 2 3 4 5 t e o pv cancel_posted [OF s6] by simp
qed

text \<open>
  C20: A replacement is posted only when the order it replaces was found open and unchanged since the
  approval, the broker accepted its cancellation and a fresh look shows it cancelled, with all five
  window gates open, no opposite order pending and a preview of exactly the approved terms.
\<close>

theorem replacement_only_after_confirmed_cancel:
  assumes "wf_store s" and "get_locked_rung (g_proposal_id grp) (r_rung_index rung) s = Inr (grp, rung)"
    and "r_state rung = PendingApproval"
    and "revalidate_replace_rung sha read_iso show_iso grp rung (Aware t) policy ans s = Inr (s', oc, events)"
    and "LivePost d \<in> set events"
  shows "replace_checked read_iso show_iso grp rung policy ans"
proof -
  note st = settles_replace [OF pending_row [OF assms(1-3)], of sha read_iso show_iso policy ans t]
  note r = settles_result [OF st assms(4)]
  have "posted (snd (snd (replace_rung_verdict sha read_iso show_iso grp rung policy ans)))"
    using r(3) assms(5) by (force simp: posted_def)
  then show ?thesis by (rule replace_posted)
qed

section \<open>The buying-power claim of a placed order\<close>

definition took :: "submit_event list \<Rightarrow> bool" where "took events \<longleftrightarrow> ClaimTaken \<in> set events"
definition gave_back :: "submit_event list \<Rightarrow> bool" where "gave_back events \<longleftrightarrow> ClaimReleased \<in> set events"

text \<open>
  The claim of the rung is given back: when the rung is open again, or when it was rejected by an answer
  of the broker. An Upbit exception that the lookup turns into a rejection keeps the claim.
\<close>

definition returns_claim :: "order_proposal \<Rightarrow> place_answers \<Rightarrow> rung_state \<Rightarrow> bool" where
  "returns_claim grp ans st \<longleftrightarrow>
     st \<in> {PendingApproval, Expired} \<or> (st = Rejected \<and> \<not> (g_account_mode grp = ''upbit'' \<and> (\<exists>e. pa_submit ans = Inl e)))"

definition claim_kept :: "order_proposal \<Rightarrow> place_answers \<Rightarrow> verdict \<Rightarrow> bool" where
  "claim_kept grp ans v \<longleftrightarrow>
     (gave_back (snd (snd v)) \<longleftrightarrow> took (snd (snd v)) \<and> returns_claim grp ans (fst v))"

lemma claim_simps [simp]:
  "\<not> took []" "took (a @ b) \<longleftrightarrow> took a \<or> took b" "\<not> took (map LivePost ds)" "\<not> took (released r)"
  "took (e # es) \<longleftrightarrow> e = ClaimTaken \<or> took es"
  "\<not> gave_back []" "gave_back (a @ b) \<longleftrightarrow> gave_back a \<or> gave_back b" "\<not> gave_back (map LivePost ds)"
  "gave_back (released r) \<longleftrightarrow> r" "gave_back (e # es) \<longleftrightarrow> e = ClaimReleased \<or> gave_back es"
  by (auto simp: took_def gave_back_def released_def)

lemma claim_kept_plain:
  "claim_kept grp ans (st, res, events) \<longleftrightarrow> (gave_back events \<longleftrightarrow> took events \<and> returns_claim grp ans st)"
  by (simp add: claim_kept_def)

lemma block_returns: "returns_claim grp ans (fst (block_verdict grp d events))"
  by (simp add: block_verdict_def returns_claim_def after_expiry_def)

lemma claim_kept_block:
  "gave_back events \<longleftrightarrow> took events \<Longrightarrow> claim_kept grp ans (block_verdict grp d events)"
  using block_returns [of grp ans d events] by (simp add: claim_kept_def block_verdict_def)

lemma claim_kept_gate:
  "claim_kept grp ans v \<Longrightarrow> gave_back events \<longleftrightarrow> took events \<Longrightarrow> claim_kept grp ans (gate_verdict grp p w events v)"
  by (simp add: gate_verdict_def Let_def claim_kept_block)

lemma answer_states:
  "answer_verdict grp k ev sb events = (st, res, events') \<Longrightarrow>
     events' = events \<and> st \<in> {Acked, Resting, Unverified, Rejected} \<and> (res = OutcomeError \<longleftrightarrow> st = Rejected)"
  by (auto simp: answer_verdict_def split: if_splits)

lemma submit_verdict_call:
  "call_verdict grp p (proposal_client_order_id sha grp i) (pa_hooks ans) (pa_submit ans) = (posts, blocked, reply) \<Longrightarrow>
   submit_verdict sha grp i p ans r events = (case blocked of
        Some d \<Rightarrow> block_verdict grp d ((events @ map LivePost posts) @ released r)
      | None \<Rightarrow>
          (case reply of
             Inl e \<Rightarrow> exception_verdict grp (proposal_client_order_id sha grp i) (pa_evidence ans) e (events @ map LivePost posts)
           | Inr sb \<Rightarrow> release_verdict r (answer_verdict grp (proposal_client_order_id sha grp i) (pa_evidence ans) sb
                          (events @ map LivePost posts))))"
  by (simp add: submit_verdict_def Let_def)

lemma claim_kept_submit:
  assumes taken: "took events \<longleftrightarrow> reserved" and "\<not> gave_back events"
  shows "claim_kept grp ans (submit_verdict sha grp i p ans reserved events)"
proof -
  let ?k = "proposal_client_order_id sha grp i"
  obtain posts blocked reply where call: "call_verdict grp p ?k (pa_hooks ans) (pa_submit ans) = (posts, blocked, reply)"
    by (cases "call_verdict grp p ?k (pa_hooks ans) (pa_submit ans)") auto
  show ?thesis
  proof (cases blocked)
    case (Some d)
    then show ?thesis using assms claim_kept_block [of "(events @ map LivePost posts) @ released reserved" grp ans d]
      by (simp add: submit_verdict_def call Let_def)
  next
    case None
    show ?thesis
    proof (cases reply)
      case (Inl e)
      then have "pa_submit ans = Inl e" using call by (auto simp: call_verdict_def split: if_splits prod.splits sum.splits)
      then show ?thesis using assms None Inl answer_states [of grp ?k "pa_evidence ans" "failed_submit e" "events @ map LivePost posts"]
        by (cases "answer_verdict grp ?k (pa_evidence ans) (failed_submit e) (events @ map LivePost posts)")
          (auto simp: submit_verdict_call [OF call] exception_verdict_def claim_kept_plain returns_claim_def)
    next
      case (Inr sb)
      have reply: "\<not> (g_account_mode grp = ''upbit'' \<and> (\<exists>e. pa_submit ans = Inl e))"
        using call Inr by (auto simp: call_verdict_def split: if_splits prod.splits sum.splits)
      obtain st res events' where an: "answer_verdict grp ?k (pa_evidence ans) sb (events @ map LivePost posts) = (st, res, events')"
        by (cases "answer_verdict grp ?k (pa_evidence ans) sb (events @ map LivePost posts)") auto
      show ?thesis using assms None Inr answer_states [OF an] reply
        by (auto simp: submit_verdict_call [OF call] an release_verdict_def claim_kept_plain returns_claim_def)
    qed
  qed
qed

lemma claim_kept_place: "claim_kept grp ans (place_verdict sha grp rung p ans)"
proof -
  have plain: "claim_kept grp ans (st, res, [])" for st res by (simp add: claim_kept_plain)
  have go: "claim_kept grp ans (gate_verdict grp p (pa_window3 ans) (events @ released r)
      (submit_verdict sha grp (r_rung_index rung) p ans r events))" if "took events \<longleftrightarrow> r" "\<not> gave_back events" for events r
    using that claim_kept_submit [OF that] by (intro claim_kept_gate) simp_all
  have claim: "claim_kept grp ans (claim_verdict sha grp rung pv p ans)" for pv
    using go [of "[]" False] go [of "[ClaimTaken]" True] plain
    by (auto simp: claim_verdict_def Let_def split: option.split)
  have gate2: "claim_kept grp ans (gate_verdict grp p (pa_window2 ans) [] (claim_verdict sha grp rung pv p ans))" for pv
    by (rule claim_kept_gate [OF claim]) simp
  have "claim_kept grp ans (preview_verdict sha grp rung pv p ans)" for pv
    using gate2 plain
    by (auto simp: preview_verdict_def eligibility_verdict_def split: option.split gate_answer.split bool.split)
  then show ?thesis unfolding place_verdict_def using plain by (intro claim_kept_gate) (simp_all split: sum.split)
qed

text \<open>
  C21: The buying power claimed for an order is given back exactly when the rung ends pending, expired
  or rejected, except when Upbit raised and its lookup shows no order; what is never claimed is never
  given back.
\<close>

theorem claim_returned_with_the_order:
  assumes "wf_store s" and "get_locked_rung (g_proposal_id grp) (r_rung_index rung) s = Inr (grp, rung)"
    and "r_state rung = PendingApproval" and "currency_for_market (g_market grp) \<noteq> None"
    and "revalidate_place_rung sha grp rung (Aware t) policy ans s = Inr (s', oc, events)"
    and "get_locked_rung (g_proposal_id grp) (r_rung_index rung) s' = Inr (g', r')"
  shows "ClaimReleased \<in> set events \<longleftrightarrow> ClaimTaken \<in> set events \<and> returns_claim grp ans (r_state r')"
proof -
  note st = settles_place [OF pending_row [OF assms(1-3)] assms(4), of sha policy ans t]
  note r = settles_result [OF st assms(5)]
  have "fst (place_verdict sha grp rung policy ans) = r_state r'" using r(1) assms(6) by (auto simp: rung_in_def)
  then show ?thesis using claim_kept_place [of grp ans sha rung policy] r(3)
    by (simp add: claim_kept_def took_def gave_back_def)
qed

section \<open>The orchestration refines its specification\<close>

text \<open>
  C7: The orchestration of a pending rung, its transactions, retries of state and error paths
  included, computes the verdict: it never fails, the broker mutations and the reported result are those
  that the specification reads off the answers alone, and the stored state is the one it names.
\<close>

theorem revalidation_computes_its_verdict:
  assumes "wf_store s" and "get_locked_rung (g_proposal_id grp) (r_rung_index rung) s = Inr (grp, rung)"
    and "r_state rung = PendingApproval" and "currency_for_market (g_market grp) \<noteq> None"
  shows "\<exists>s' oc g' r'.
    revalidate_rung sha read_iso show_iso grp rung (Aware t) policy ans s =
      Inr (s', oc, snd (snd (rung_verdict sha read_iso show_iso grp rung policy ans))) \<and>
    ro_rung_index oc = r_rung_index rung \<and>
    ro_result oc = fst (snd (rung_verdict sha read_iso show_iso grp rung policy ans)) \<and>
    get_locked_rung (g_proposal_id grp) (r_rung_index rung) s' = Inr (g', r') \<and>
    r_state r' = fst (rung_verdict sha read_iso show_iso grp rung policy ans) \<and> wf_store s'"
proof -
  note st = settles_rung [OF pending_row [OF assms(1-3)] assms(4), of sha read_iso show_iso policy ans t]
  then show ?thesis unfolding settles_def rung_in_def by blast
qed

section \<open>Sample answers\<close>

text \<open>A Korean limit buy on KIS: open session, matching preview, covered cost, an accepting broker.\<close>

definition open_evidence :: session_evidence where
  "open_evidence = \<lparr>se_known = True, se_source = ''sample'', se_current_session = ''regular'',
     se_allowed_sessions = [''regular''], se_allowed_now = True, se_allowed_until = Some (hours 1),
     se_next_allowed_at = Some (hours 24), se_detail = None\<rparr>"

definition open_reading :: window_reading where
  "open_reading = \<lparr>wr_env = sample_window_env, wr_session = Inr open_evidence, wr_now1 = 0, wr_now2 = 1\<rparr>"

definition sample_policy :: string where
  "sample_policy = policy_stamp (\<lambda>s. s) sample_group (Some open_evidence)"

definition sample_preview :: preview_answer where
  "sample_preview = \<lparr>pv_success = Some True, pv_insufficient_balance = False, pv_violations = False,
     pv_error_code = '''', pv_error = None, pv_price = Some ''70000.0'', pv_quantity = Some ''10'',
     pv_approval_hash = Some ''h'', pv_idempotency_key = None, pv_estimated_value = None, pv_fee = Some 100,
     pv_payload = None\<rparr>"

definition sample_raw :: raw_submit where
  "sample_raw = \<lparr>rs_success = Some True, rs_broker_status = Some ''accepted'', rs_mutation_sent = True,
     rs_status_code = None, rs_code = '''', rs_message = None, rs_response_message = None, rs_error = None,
     rs_order_id = Some ''b9'', rs_client_order_id = None, rs_status = None, rs_broker_order_id = None,
     rs_correlation_id = None, rs_idempotency_key = None, rs_digest = None\<rparr>"

definition refused_raw :: raw_submit where
  "refused_raw = sample_raw\<lparr>rs_broker_status := Some ''rejected'', rs_message := Some ''no''\<rparr>"

definition no_evidence :: submit_evidence where
  "no_evidence = \<lparr>se_outcome = EvidenceAbsent, se_order_id = '''', se_state = '''', se_reason = None\<rparr>"

definition sample_place :: "(string, raw_submit) result \<Rightarrow> place_answers" where
  "sample_place reply = \<lparr>pa_window1 = open_reading, pa_preview = Inr sample_preview, pa_gate = None,
     pa_window2 = open_reading, pa_claim = Some (1000000, None), pa_window3 = open_reading,
     pa_correlation = ''c'', pa_hooks = [open_reading], pa_submit = reply, pa_evidence = no_evidence\<rparr>"

definition pending_rung :: rung where
  "pending_rung = sample_rung 1 1 0 PendingApproval None"

lemma sample_locked: "get_locked_rung (g_proposal_id sample_group) (r_rung_index pending_rung) sample_store = Inr (sample_group, pending_rung)"
  by (simp add: pending_rung_def sample_store_def sample_group_def old_group_def new_group_def sample_rung_def
      get_locked_rung_def get_group_by_proposal_id_def list_rungs_def)

lemma sample_pending: "r_state pending_rung = PendingApproval" "currency_for_market (g_market sample_group) \<noteq> None"
  by (simp_all add: pending_rung_def sample_rung_def sample_group_def new_group_def sample_request_def currency_for_market_def)

definition ends :: "rung_outcome submit_result \<Rightarrow> (submit_event list \<Rightarrow> bool) \<Rightarrow> rung_state \<Rightarrow> bool" where
  "ends m Q st = (case m of Inl _ \<Rightarrow> False | Inr (s', oc, events) \<Rightarrow> Q events \<and>
     (case get_locked_rung ''p0000001'' 0 s' of Inl _ \<Rightarrow> False | Inr (g', r') \<Rightarrow> r_state r' = st))"

lemma endsE:
  assumes "ends m Q st"
  obtains s' oc events g' r' where "m = Inr (s', oc, events)" "Q events"
    "get_locked_rung (g_proposal_id sample_group) (r_rung_index pending_rung) s' = Inr (g', r')" "r_state r' = st"
proof -
  have "g_proposal_id sample_group = ''p0000001''" "r_rung_index pending_rung = 0"
    by (simp_all add: sample_group_def new_group_def pending_rung_def sample_rung_def)
  then show thesis using assms that by (auto simp: ends_def split: sum.splits)
qed

lemma sample_columns: "column_decimal 70000 = Dec False 70000000000000000 (-12)" "column_decimal 10 = Dec False 10000000000000 (-12)"
  by (simp_all add: column_decimal_def)

lemma sample_normal: "normalize (Dec False 70000000000000000 (-12)) = Dec False 7 4" "normalize (Dec False 10000000000000 (-12)) = Dec False 1 1"
  by (simp_all add: normalize_def round_context_def PRECISION_def digit_count_def strip_zeros.simps show_nat.simps)

lemma sample_norm: "norm_decimal (column_decimal 70000) = ''70000''" "norm_decimal (column_decimal 10) = ''10''"
  unfolding sample_columns norm_decimal_def sample_normal by code_simp+

lemma sample_terms: "approved_terms pending_rung = previewed_terms pending_rung sample_preview"
proof -
  have "previewed_terms pending_rung sample_preview = (Some ''70000'', Some ''10'')" by code_simp
  then show ?thesis by (simp add: approved_terms_def pending_rung_def sample_rung_def sample_norm)
qed

lemma sample_opens: "window_allowed (decision_at sample_group (Some sample_policy) open_reading)"
proof -
  have "opens sample_group sample_policy open_reading" by code_simp
  then show ?thesis by (simp add: opens_def)
qed

lemma sample_group_fields [simp]:
  "g_account_mode sample_group = ''kis_live''" "g_order_type sample_group = ''limit''"
  "g_market sample_group = ''equity_kr''" "g_proposal_id sample_group = ''p0000001''"
  by (simp_all add: sample_group_def new_group_def sample_request_def)

lemma sample_verdict:
  "place_verdict (\<lambda>s. s) sample_group pending_rung sample_policy (sample_place reply) =
     submit_verdict (\<lambda>s. s) sample_group 0 sample_policy (sample_place reply) True [ClaimTaken]"
proof -
  have cost: "required_cash (r_quantity pending_rung) 70000 None (Some 100) \<le> 1000000"
    by (simp add: pending_rung_def sample_rung_def required_cash_def)
  have rung: "r_side pending_rung = ''buy''" "r_limit_price pending_rung = Some 70000" "r_rung_index pending_rung = 0"
    by (simp_all add: pending_rung_def sample_rung_def)
  have pv: "dry_run sample_group (Inr sample_preview) = Inr sample_preview" "pv_success sample_preview = Some True"
    "pv_estimated_value sample_preview = None" "pv_fee sample_preview = Some 100"
    "\<not> invalid_preview (\<lambda>s. s) sample_group 0 sample_preview"
    by (simp_all add: dry_run_def sample_preview_def invalid_preview_def)
  show ?thesis using cost
    by (simp add: place_verdict_def gate_verdict_def sample_opens sample_place_def pv preview_verdict_def sample_terms
        rung eligibility_verdict_def claim_verdict_def)
qed

lemma sample_submit:
  "place_verdict (\<lambda>s. s) sample_group pending_rung sample_policy (sample_place (Inr sample_raw)) =
     (Resting, SubmittedResting, [ClaimTaken, LivePost (decision_at sample_group (Some sample_policy) open_reading)])"
  "place_verdict (\<lambda>s. s) sample_group pending_rung sample_policy (sample_place (Inr refused_raw)) =
     (Rejected, OutcomeError, [ClaimTaken, LivePost (decision_at sample_group (Some sample_policy) open_reading), ClaimReleased])"
  unfolding sample_verdict
  by (simp_all add: submit_verdict_def call_verdict_def sample_place_def sample_opens adapted_def
      sample_raw_def refused_raw_def adapt_live_submit_def unadapted_def answer_verdict_def accepted_status_def
      release_verdict_def released_def or_text_def truthy_def)

text \<open>The run that computes a verdict of the sample.\<close>

lemma sample_place_run:
  assumes "place_verdict (\<lambda>s. s) sample_group pending_rung sample_policy (sample_place reply) = (st, res, events)"
  obtains s' oc g' r' where
    "revalidate_place_rung (\<lambda>s. s) sample_group pending_rung (Aware 0) sample_policy (sample_place reply) sample_store
       = Inr (s', oc, events)"
    "get_locked_rung (g_proposal_id sample_group) (r_rung_index pending_rung) s' = Inr (g', r')" "r_state r' = st"
proof -
  have at_i: "rung_in sample_store sample_group (r_rung_index pending_rung) PendingApproval"
    by (rule pending_row [OF wf_sample sample_locked sample_pending(1)])
  from settles_place [OF at_i sample_pending(2), of "\<lambda>s. s" sample_policy "sample_place reply" 0]
  show thesis using that unfolding settles_def assms by (auto simp: rung_in_def)
qed

text \<open>The same rung replacing an order that rests at the broker.\<close>

definition target_at :: "string \<Rightarrow> target_order_snapshot" where
  "target_at status = \<lparr>t_broker_order_id = ''b1'', t_symbol = ''005930'', t_side = ''buy'', t_order_type = ''limit'',
     t_limit_price = Some ''69000'', t_remaining_quantity = ''10'', t_status = status,
     t_observed_at = ''1970-01-01T00:00:00+00:00''\<rparr>"

definition replace_group :: order_proposal where
  "replace_group = sample_group\<lparr>g_action := Some ''replace'', g_target_broker_order_id := Some ''b1'',
     g_source_asof := Some [(''target_order_snapshot'', JObj [(''broker_order_id'', JStr ''b1''), (''symbol'', JStr ''005930''),
       (''side'', JStr ''buy''), (''order_type'', JStr ''limit''), (''limit_price'', JStr ''69000''),
       (''remaining_quantity'', JStr ''10''), (''status'', JStr ''open''), (''observed_at'', JStr ''1970-01-01T00:00:00+00:00'')])]\<rparr>"

definition replace_store :: store where
  "replace_store = sample_store\<lparr>db_groups := [replace_group, old_group]\<rparr>"

definition replace_policy :: string where
  "replace_policy = policy_stamp (\<lambda>s. s) replace_group (Some open_evidence)"

definition sample_replace :: replace_answers where
  "sample_replace = \<lparr>ta_window1 = open_reading, ta_target = Inr (Some (target_at ''open'')), ta_gate = None,
     ta_window2 = open_reading,
     ta_cancel = \<lparr>ca_hooks = [open_reading], ca_reply = Inr (CancelAnswered True None),
       ca_confirm = Inr (Some (target_at ''cancelled''))\<rparr>,
     ra_preview = Inr sample_preview, ra_window3 = open_reading, ra_opposite = Inr None, ra_window4 = open_reading,
     ra_correlation = ''c'', ra_window5 = open_reading, ra_hooks = [open_reading], ra_submit = Inr sample_raw,
     ra_evidence = no_evidence\<rparr>"

lemma replace_locked:
  "get_locked_rung (g_proposal_id replace_group) (r_rung_index pending_rung) replace_store = Inr (replace_group, pending_rung)"
  by (simp add: pending_rung_def replace_store_def replace_group_def sample_store_def sample_group_def old_group_def
      new_group_def sample_rung_def get_locked_rung_def get_group_by_proposal_id_def list_rungs_def)

lemma wf_replace: "wf_store replace_store"
  by (simp add: wf_store_def replace_store_def replace_group_def sample_store_def sample_group_def old_group_def
      new_group_def sample_rung_def)

lemma replace_opens: "window_allowed (decision_at replace_group (Some replace_policy) open_reading)"
proof -
  have "opens replace_group replace_policy open_reading" by code_simp
  then show ?thesis by (simp add: opens_def)
qed

lemma replace_target:
  "approved_target (env_read_iso sample_env) (env_show_iso sample_env) replace_group = Inr (''b1'', target_at ''open'')"
  "compare_target (target_at ''open'') (Inr (Some (target_at ''open''))) = Inr None"
  by code_simp+

lemma replace_verdict:
  "LivePost (decision_at replace_group (Some replace_policy) open_reading) \<in>
     set (snd (snd (replace_rung_verdict (\<lambda>s. s) (env_read_iso sample_env) (env_show_iso sample_env)
       replace_group pending_rung replace_policy sample_replace)))"
proof -
  have f: "g_account_mode replace_group = ''kis_live''" "g_target_broker_order_id replace_group = Some ''b1''"
    "g_order_type replace_group = ''limit''" by (simp_all add: replace_group_def)
  have pv: "dry_run replace_group (Inr sample_preview) = Inr sample_preview" "pv_success sample_preview = Some True"
    by (simp_all add: dry_run_def f sample_preview_def)
  have c: "cancelled_target (Inr (Some (target_at ''cancelled'')))" by (simp add: cancelled_target_def target_at_def)
  show ?thesis
    by (simp add: replace_rung_verdict_def gate_verdict_def replace_opens sample_replace_def target_verdict_def
        replace_target eligibility_verdict_def replace_preview_verdict_def pv sample_terms opposite_verdict_def
        cancel_verdict_def f c replacement_verdict_def call_verdict_def reply_verdict_def adapted_def sample_raw_def
        adapt_live_submit_def unadapted_def answer_verdict_def accepted_status_def Let_def)
qed

section \<open>Witnesses\<close>

lemma order_posted_only_after_every_check_witness:
  "place_checked (\<lambda>s. s) sample_group pending_rung sample_policy (sample_place (Inr sample_raw))"
proof (rule sample_place_run [OF sample_submit(1)])
  fix s' oc assume run: "revalidate_place_rung (\<lambda>s. s) sample_group pending_rung (Aware 0) sample_policy
      (sample_place (Inr sample_raw)) sample_store = Inr (s', oc, [ClaimTaken,
        LivePost (decision_at sample_group (Some sample_policy) open_reading)])"
  from order_posted_only_after_every_check [OF wf_sample sample_locked sample_pending run]
  show ?thesis by simp
qed

lemma rejected_only_when_refused_witness:
  "rejection_grounds (\<lambda>s. s) sample_group (r_rung_index pending_rung) (sample_place (Inr refused_raw))"
proof (rule sample_place_run [OF sample_submit(2)])
  fix s' oc g' r' assume run: "revalidate_place_rung (\<lambda>s. s) sample_group pending_rung (Aware 0) sample_policy
      (sample_place (Inr refused_raw)) sample_store = Inr (s', oc, [ClaimTaken,
        LivePost (decision_at sample_group (Some sample_policy) open_reading), ClaimReleased])"
    and row: "get_locked_rung (g_proposal_id sample_group) (r_rung_index pending_rung) s' = Inr (g', r')"
    "r_state r' = Rejected"
  show ?thesis by (rule rejected_only_when_refused [OF wf_sample sample_locked sample_pending run row])
qed

lemma claim_returned_with_the_order_witness:
  "returns_claim sample_group (sample_place (Inr refused_raw)) Rejected"
proof (rule sample_place_run [OF sample_submit(2)])
  fix s' oc g' r' assume run: "revalidate_place_rung (\<lambda>s. s) sample_group pending_rung (Aware 0) sample_policy
      (sample_place (Inr refused_raw)) sample_store = Inr (s', oc, [ClaimTaken,
        LivePost (decision_at sample_group (Some sample_policy) open_reading), ClaimReleased])"
    and row: "get_locked_rung (g_proposal_id sample_group) (r_rung_index pending_rung) s' = Inr (g', r')"
    "r_state r' = Rejected"
  from claim_returned_with_the_order [OF wf_sample sample_locked sample_pending run row(1)] row(2)
  show ?thesis by simp
qed

lemma replacement_only_after_confirmed_cancel_witness:
  "replace_checked (env_read_iso sample_env) (env_show_iso sample_env) replace_group pending_rung replace_policy sample_replace"
proof -
  have at_i: "rung_in replace_store replace_group (r_rung_index pending_rung) PendingApproval"
    by (rule pending_row [OF wf_replace replace_locked sample_pending(1)])
  obtain s' oc events where run: "revalidate_replace_rung (\<lambda>s. s) (env_read_iso sample_env) (env_show_iso sample_env)
      replace_group pending_rung (Aware 0) replace_policy sample_replace replace_store = Inr (s', oc, events)"
    "LivePost (decision_at replace_group (Some replace_policy) open_reading) \<in> set events"
    using settles_replace [OF at_i, of "\<lambda>s. s" "env_read_iso sample_env" "env_show_iso sample_env" replace_policy sample_replace 0]
      replace_verdict unfolding settles_def by auto
  show ?thesis by (rule replacement_only_after_confirmed_cancel [OF wf_replace replace_locked sample_pending(1) run])
qed

text \<open>A preview that the guards refuse brings the rung back.\<close>

definition guarded_answers :: action_answers where
  "guarded_answers = \<lparr>aa_place = (sample_place (Inr sample_raw))\<lparr>pa_preview :=
     Inr (sample_preview\<lparr>pv_success := Some False, pv_violations := True\<rparr>)\<rparr>, aa_target = sample_replace\<rparr>"

lemma pending_again_means_nothing_sent_witness:
  "\<exists>s' oc events. revalidate_rung (\<lambda>s. s) (env_read_iso sample_env) (env_show_iso sample_env) sample_group pending_rung
     (Aware 0) sample_policy guarded_answers sample_store = Inr (s', oc, events) \<and> \<not> sent events"
proof -
  have at_i: "rung_in sample_store sample_group (r_rung_index pending_rung) PendingApproval"
    by (rule pending_row [OF wf_sample sample_locked sample_pending(1)])
  have action: "contract_action sample_group = ''place''"
    by (simp add: contract_action_def sample_group_def new_group_def truthy_def)
  have v: "fst (rung_verdict (\<lambda>s. s) (env_read_iso sample_env) (env_show_iso sample_env) sample_group pending_rung
      sample_policy guarded_answers) = PendingApproval"
    by (simp add: rung_verdict_def action place_verdict_def gate_verdict_def sample_opens guarded_answers_def
        sample_place_def dry_run_def preview_verdict_def)
  obtain s' oc events g' r' where run: "revalidate_rung (\<lambda>s. s) (env_read_iso sample_env) (env_show_iso sample_env)
      sample_group pending_rung (Aware 0) sample_policy guarded_answers sample_store = Inr (s', oc, events)"
    and row: "get_locked_rung (g_proposal_id sample_group) (r_rung_index pending_rung) s' = Inr (g', r')"
      "r_state r' = PendingApproval"
    using settles_rung [OF at_i sample_pending(2), of "\<lambda>s. s" "env_read_iso sample_env" "env_show_iso sample_env"
        sample_policy guarded_answers 0] v
    by (auto simp: settles_def rung_in_def)
  have hooks: "length (pa_hooks (aa_place guarded_answers)) \<le> 1" "length (ca_hooks (ta_cancel (aa_target guarded_answers))) \<le> 1"
    by (simp_all add: guarded_answers_def sample_place_def sample_replace_def)
  have "r_state r' \<in> local_state" using row(2) by (simp add: local_state_def)
  from pending_again_means_nothing_sent [OF wf_sample sample_locked sample_pending hooks run row(1) this] run
  show ?thesis by blast
qed

lemma sample_rows:
  "get_proposal ''p0000001'' sample_store = Inr (sample_group, [pending_rung, sample_rung 2 1 1 Resting (Some ''b1'')])"
  "proposal_approval_block_reason sample_group = None"
  "active_policy_stamp sample_group (Some sample_policy) = Some sample_policy"
  by (simp_all add: get_proposal_def get_group_by_proposal_id_def list_rungs_def sample_store_def pending_rung_def
      sample_rung_def old_group_def new_group_def sample_group_def proposal_approval_block_reason_def
      APPROVAL_TERMINAL_GROUP_STATES_def active_policy_stamp_def)

lemma revalidation_settles_every_rung_witness:
  "\<exists>s' outcomes events. revalidate_and_submit (\<lambda>s. s) (env_read_iso sample_env) (env_show_iso sample_env) ''p0000001''
     (Aware 0) (Some sample_policy) False open_reading (\<lambda>_. guarded_answers) sample_store = Inr (s', outcomes, events) \<and> wf_store s'"
  using revalidation_settles_every_rung [OF wf_sample sample_rows(1,2) sample_pending(2) sample_rows(3),
      of "\<lambda>s. s" "env_read_iso sample_env" "env_show_iso sample_env" 0 False open_reading "\<lambda>_. guarded_answers"]
  by blast

lemma revalidation_computes_its_verdict_witness:
  "\<exists>s' oc. revalidate_rung (\<lambda>s. s) (env_read_iso sample_env) (env_show_iso sample_env) sample_group pending_rung
     (Aware 0) sample_policy guarded_answers sample_store = Inr (s', oc, []) \<and> ro_result oc = GuardBlocked"
proof -
  have action: "contract_action sample_group = ''place''"
    by (simp add: contract_action_def sample_group_def new_group_def truthy_def)
  have v: "rung_verdict (\<lambda>s. s) (env_read_iso sample_env) (env_show_iso sample_env) sample_group pending_rung
      sample_policy guarded_answers = (PendingApproval, GuardBlocked, [])"
    by (simp add: rung_verdict_def action place_verdict_def gate_verdict_def sample_opens guarded_answers_def
        sample_place_def dry_run_def preview_verdict_def preview_result_def is_guard_blocked_preview_def)
  from revalidation_computes_its_verdict [OF wf_sample sample_locked sample_pending, of "\<lambda>s. s" "env_read_iso sample_env"
      "env_show_iso sample_env" 0 sample_policy guarded_answers]
  show ?thesis unfolding v by auto
qed

text \<open>A whole run of the sample proposal posts its one pending rung.\<close>

definition sample_actions :: action_answers where
  "sample_actions = \<lparr>aa_place = sample_place (Inr sample_raw), aa_target = sample_replace\<rparr>"

lemma sample_whole_run:
  obtains s' oc where "revalidate_and_submit (\<lambda>s. s) (env_read_iso sample_env) (env_show_iso sample_env) ''p0000001''
     (Aware 0) (Some sample_policy) False open_reading (\<lambda>_. sample_actions) sample_store = Inr (s', [oc],
       [ClaimTaken, LivePost (decision_at sample_group (Some sample_policy) open_reading)])"
proof -
  let ?handle = "\<lambda>g r. revalidate_rung (\<lambda>s. s) (env_read_iso sample_env) (env_show_iso sample_env) g r (Aware 0)
    sample_policy sample_actions"
  let ?events = "[ClaimTaken, LivePost (decision_at sample_group (Some sample_policy) open_reading)]"
  have action: "contract_action sample_group = ''place''"
    by (simp add: contract_action_def sample_group_def new_group_def truthy_def)
  have at0: "rung_in sample_store sample_group (r_rung_index pending_rung) PendingApproval"
    by (rule pending_row [OF wf_sample sample_locked sample_pending(1)])
  have i1: "r_rung_index (sample_rung 2 1 1 Resting (Some ''b1'')) = 1" by (simp add: sample_rung_def)
  have i0: "r_rung_index pending_rung = 0" by (simp add: pending_rung_def sample_rung_def)
  obtain s' oc where run: "?handle sample_group pending_rung sample_store = Inr (s', oc, ?events)" and mv: "moves sample_group 0 sample_store s'"
    using settles_place [OF at0 sample_pending(2), of "\<lambda>s. s" sample_policy "sample_place (Inr sample_raw)" 0]
    unfolding settles_def by (auto simp: revalidate_rung_def action sample_actions_def sample_submit i0)
  have at1: "rung_in sample_store sample_group 1 Resting"
    using row_rung_in [OF wf_sample, of sample_group "sample_rung 2 1 1 Resting (Some ''b1'')"]
    by (simp add: sample_store_def sample_rung_def sample_group_def new_group_def get_group_by_proposal_id_def)
  then have "rung_in s' sample_group 1 Resting" using mv unfolding moves_def by (metis zero_neq_one)
  then obtain r1 where r1: "rung_row sample_group 1 s' = Some r1" "r_state r1 = Resting" using rung_row_in by blast
  have row0: "rung_row sample_group 0 sample_store = Some pending_rung"
    by (simp add: rung_row_def list_rungs_def sample_store_def sample_rung_def sample_group_def new_group_def pending_rung_def)
  have "foldR (revalidate_step ?handle sample_group) (sample_store, [], []) [0, 1] = Inr (s', [oc], ?events)"
    using run r1 by (simp add: revalidate_step_def row0 sample_pending(1))
  then have "revalidate_and_submit (\<lambda>s. s) (env_read_iso sample_env) (env_show_iso sample_env) ''p0000001''
     (Aware 0) (Some sample_policy) False open_reading (\<lambda>_. sample_actions) sample_store = Inr (s', [oc], ?events)"
    by (simp add: revalidate_and_submit_def sample_rows sample_opens of_option_def i0 i1)
  then show thesis by (rule that)
qed

lemma mutations_only_while_valid_and_open_witness:
  "\<exists>reading. window_at sample_group (Some sample_policy) reading =
       Inr (decision_at sample_group (Some sample_policy) open_reading) \<and>
     live_at sample_group (wr_now1 reading) \<and> live_at sample_group (wr_now2 reading)"
proof (rule sample_whole_run)
  fix s' oc assume run: "revalidate_and_submit (\<lambda>s. s) (env_read_iso sample_env) (env_show_iso sample_env) ''p0000001''
     (Aware 0) (Some sample_policy) False open_reading (\<lambda>_. sample_actions) sample_store = Inr (s', [oc],
       [ClaimTaken, LivePost (decision_at sample_group (Some sample_policy) open_reading)])"
  show ?thesis
    using mutations_only_while_valid_and_open [OF wf_sample sample_rows(1,2) sample_pending(2) sample_rows(3) run,
        of "decision_at sample_group (Some sample_policy) open_reading"] by auto
qed

end
