(* ===== verification/BinanceLedger.thy ===== *)
theory BinanceLedger
  imports ProposalStore "HOL-Library.List_Lexorder" "HOL-Library.Char_ord"
begin

text \<open>
  The order ledger of the Binance demo accounts: the tables of
  \<open>app/models/binance_demo_order_ledger.py\<close> and \<open>app/models/crypto_instruments.py\<close>, the
  repository and the service of \<open>app/services/brokers/binance/demo/ledger/\<close>. A call is a
  function from the database to a result; a raise leaves no database behind. The advisory lock
  of a reservation and the row lock of a transition make each call one step.
\<close>

section \<open>States and the transition table\<close>

datatype demo_state =
    Planned | Previewed | Validated | DSubmitted | DFilled | Closed | DCancelled | Reconciled | Anomaly

fun DEMO_ALLOWED :: "demo_state \<Rightarrow> demo_state set" where
  "DEMO_ALLOWED Planned = {Previewed, DCancelled, Anomaly}"
| "DEMO_ALLOWED Previewed = {Validated, DCancelled, Anomaly}"
| "DEMO_ALLOWED Validated = {DSubmitted, DCancelled, Anomaly}"
| "DEMO_ALLOWED DSubmitted = {DFilled, DCancelled, Anomaly}"
| "DEMO_ALLOWED DFilled = {Closed, Anomaly}"
| "DEMO_ALLOWED Closed = {Reconciled, Anomaly}"
| "DEMO_ALLOWED DCancelled = {Reconciled, Anomaly}"
| "DEMO_ALLOWED Reconciled = {}"
| "DEMO_ALLOWED Anomaly = {}"

text \<open>The states in which a root order occupies an exposure slot.\<close>

definition BLOCKING_ROOT_LIFECYCLE_STATES :: "demo_state set" where
  "BLOCKING_ROOT_LIFECYCLE_STATES = {Planned, Previewed, Validated, DSubmitted, DFilled, Anomaly}"

definition IDEMPOTENCY_TERMINAL_STATES :: "demo_state set" where
  "IDEMPOTENCY_TERMINAL_STATES = {DCancelled, Reconciled, Anomaly}"

definition ALLOWED_PRODUCTS :: "string set" where
  "ALLOWED_PRODUCTS = {''spot'', ''usdm_futures''}"

definition IMMUTABLE_FILL_METADATA_KEYS :: "string list" where
  "IMMUTABLE_FILL_METADATA_KEYS = [''filled_qty'', ''filled_avg_price'', ''fee_usdt'']"

definition PAPER_EXECUTION_IDENTITY_KEY :: string where
  "PAPER_EXECUTION_IDENTITY_KEY = ''paper_execution_identity''"

section \<open>Errors\<close>

text \<open>The constraints of the tables, as an \<open>IntegrityError\<close> of the driver names them.\<close>

datatype demo_constraint =
    CkOrderType | CkProduct | CkSide | UqClientOrderId | UqOpenRoot | UqBrokerAck | FkInstrument

datatype demo_error =
    DemoInvalidProduct string
  | NoLedgerRow string
  | DemoNotAllowed demo_state demo_state
  | PrematureFillActuals
  | FillActualConflict string
  | FillActualFrozen string
  | DuplicateAcknowledgement string
  | DemoIntegrityError demo_constraint
  | NumericOverflow
  | NoResolvableInstrument

definition check_demo_transition :: "demo_state \<Rightarrow> demo_state \<Rightarrow> (demo_error, unit) result" where
  "check_demo_transition s t = require (t \<in> DEMO_ALLOWED s) (DemoNotAllowed s t)"

section \<open>Values\<close>

text \<open>
  Python's \<open>==\<close> on JSON values, as equality of normal forms: dictionaries are equal whatever the
  order of their keys (a JSONB column does not keep it), booleans equal the integers 0 and 1.
\<close>

fun json_norm :: "json \<Rightarrow> json" where
  "json_norm (JBool b) = JInt (if b then 1 else 0)"
| "json_norm (JArr xs) = JArr (map json_norm xs)"
| "json_norm (JObj d) = JObj (sort_key fst (AList.clearjunk (map (\<lambda>(k, v). (k, json_norm v)) d)))"
| "json_norm JNull = JNull"
| "json_norm (JInt i) = JInt i"
| "json_norm (JStr t) = JStr t"
| "json_norm (JTime t) = JTime t"

definition json_eq :: "json \<Rightarrow> json \<Rightarrow> bool" where
  "json_eq a b \<longleftrightarrow> json_norm a = json_norm b"

text \<open>\<open>dict(d)\<close> followed by \<open>update(e)\<close>.\<close>

definition merged :: "dict \<Rightarrow> dict \<Rightarrow> dict" where
  "merged d e = AList.merge d e"

text \<open>A column \<open>NUMERIC(precision, scale)\<close>: PostgreSQL rounds half away from zero.\<close>

definition pg_numeric :: "nat \<Rightarrow> nat \<Rightarrow> rat \<Rightarrow> (demo_error, rat) result" where
  "pg_numeric precision scale x =
     (let n = \<lfloor>\<bar>x\<bar> * 10 ^ scale + 1 / 2\<rfloor> in
      if n < 10 ^ precision then Inr (sgn x * of_int n / 10 ^ scale) else Inl NumericOverflow)"

fun pg_numeric_option :: "nat \<Rightarrow> nat \<Rightarrow> rat option \<Rightarrow> (demo_error, rat option) result" where
  "pg_numeric_option precision scale None = Inr None"
| "pg_numeric_option precision scale (Some x) = bindR (pg_numeric precision scale x) (\<lambda>y. Inr (Some y))"

section \<open>Tables\<close>

record demo_row =
  d_id :: int
  d_instrument_id :: int
  d_product :: string
  d_venue_host :: string
  d_client_order_id :: string
  d_parent_client_order_id :: "string option"
  d_broker_order_id :: "string option"
  d_side :: string
  d_order_type :: string
  d_qty :: rat
  d_price :: "rat option"
  d_tp_price :: "rat option"
  d_sl_price :: "rat option"
  d_lifecycle_state :: demo_state
  d_planned_at :: "int option"
  d_previewed_at :: "int option"
  d_validated_at :: "int option"
  d_submitted_at :: "int option"
  d_filled_at :: "int option"
  d_closed_at :: "int option"
  d_cancelled_at :: "int option"
  d_reconciled_at :: "int option"
  d_last_reconciled_at :: "int option"
  d_anomaly_reason :: "string option"
  d_anomaly_at :: "int option"
  d_notional_usdt :: "rat option"
  d_notional_override_reason :: "string option"
  d_extra_metadata :: "dict option"
  d_created_at :: int
  d_updated_at :: int

record crypto_instrument =
  ci_id :: int
  ci_venue :: string
  ci_product :: string
  ci_venue_symbol :: string
  ci_base_asset :: string
  ci_quote_asset :: string
  ci_status :: string

text \<open>The database: the server clock, the two tables and their key sequences.\<close>

record demo_db =
  dl_now :: int
  dl_rows :: "demo_row list"
  dl_seq :: int
  dl_instruments :: "crypto_instrument list"
  dl_instrument_seq :: int

definition put_demo :: "demo_row \<Rightarrow> demo_db \<Rightarrow> demo_db" where
  "put_demo r db = db\<lparr>dl_rows := write_row d_id r (dl_rows db)\<rparr>"

definition is_root :: "demo_row \<Rightarrow> bool" where
  "is_root r \<longleftrightarrow> d_parent_client_order_id r = None"

definition is_open_root :: "demo_row \<Rightarrow> bool" where
  "is_open_root r \<longleftrightarrow> is_root r \<and> d_lifecycle_state r \<in> BLOCKING_ROOT_LIFECYCLE_STATES"

definition slot :: "demo_row \<Rightarrow> string \<times> int" where
  "slot r = (d_product r, d_instrument_id r)"

definition broker_ack :: "demo_row \<Rightarrow> string \<times> string \<times> int \<times> string option" where
  "broker_ack r = (d_product r, d_venue_host r, d_instrument_id r, d_broker_order_id r)"

text \<open>
  What the table checks when a row is written: its check constraints, then its unique indexes in
  the order of their creation, then the foreign key.
\<close>

definition other_rows :: "demo_db \<Rightarrow> demo_row \<Rightarrow> demo_row list" where
  "other_rows db r = filter (\<lambda>x. d_id x \<noteq> d_id r) (dl_rows db)"

definition violated :: "demo_db \<Rightarrow> demo_row \<Rightarrow> demo_constraint option" where
  "violated db r =
     (if d_order_type r \<notin> {''LIMIT'', ''MARKET''} then Some CkOrderType
      else if d_product r \<notin> ALLOWED_PRODUCTS then Some CkProduct
      else if d_side r \<notin> {''BUY'', ''SELL''} then Some CkSide
      else if \<exists>x \<in> set (other_rows db r). d_client_order_id x = d_client_order_id r
        then Some UqClientOrderId
      else if is_open_root r \<and> (\<exists>x \<in> set (other_rows db r). is_open_root x \<and> slot x = slot r)
        then Some UqOpenRoot
      else if d_broker_order_id r \<noteq> None \<and> (\<exists>x \<in> set (other_rows db r). broker_ack x = broker_ack r)
        then Some UqBrokerAck
      else if d_instrument_id r \<notin> ci_id ` set (dl_instruments db) then Some FkInstrument
      else None)"

definition insert_demo :: "demo_row \<Rightarrow> demo_db \<Rightarrow> (demo_constraint, demo_db \<times> demo_row) result" where
  "insert_demo r db =
     (case violated db r of
        Some c \<Rightarrow> Inl c
      | None \<Rightarrow> Inr (db\<lparr>dl_rows := dl_rows db @ [r], dl_seq := dl_seq db + 1\<rparr>, r))"

definition flush_demo :: "demo_row \<Rightarrow> demo_db \<Rightarrow> (demo_constraint, demo_db \<times> demo_row) result" where
  "flush_demo r db = (case violated db r of Some c \<Rightarrow> Inl c | None \<Rightarrow> Inr (put_demo r db, r))"

section \<open>Queries\<close>

definition get_by_client_order_id :: "demo_db \<Rightarrow> string \<Rightarrow> demo_row option" where
  "get_by_client_order_id db cid = find (\<lambda>r. d_client_order_id r = cid) (dl_rows db)"

definition open_roots :: "demo_db \<Rightarrow> demo_row list" where
  "open_roots db = filter is_open_root (dl_rows db)"

definition count_open_root_lifecycles :: "demo_db \<Rightarrow> int" where
  "count_open_root_lifecycles db = int (length (open_roots db))"

definition has_open_root_lifecycle_for_instrument :: "demo_db \<Rightarrow> string \<Rightarrow> int \<Rightarrow> bool" where
  "has_open_root_lifecycle_for_instrument db product instrument_id \<longleftrightarrow>
     0 < length (filter (\<lambda>r. slot r = (product, instrument_id)) (open_roots db))"

definition count_lifecycles_since :: "demo_db \<Rightarrow> int \<Rightarrow> int" where
  "count_lifecycles_since db since =
     int (length (filter (\<lambda>r. case d_planned_at r of None \<Rightarrow> False | Some t \<Rightarrow> since \<le> t) (dl_rows db)))"

text \<open>\<open>max\<close> of a nullable column: null when no row has a value.\<close>

fun column_max :: "int option list \<Rightarrow> int option" where
  "column_max [] = None"
| "column_max (None # ts) = column_max ts"
| "column_max (Some t # ts) = (case column_max ts of None \<Rightarrow> Some t | Some u \<Rightarrow> Some (max t u))"

definition latest_close_at_for_instrument :: "demo_db \<Rightarrow> string \<Rightarrow> int \<Rightarrow> int option" where
  "latest_close_at_for_instrument db product instrument_id =
     column_max (map d_closed_at (filter (\<lambda>r. slot r = (product, instrument_id)) (dl_rows db)))"

definition closed_rows_since :: "demo_db \<Rightarrow> int \<Rightarrow> demo_row list" where
  "closed_rows_since db since =
     filter (\<lambda>r. case d_closed_at r of None \<Rightarrow> False | Some t \<Rightarrow> since \<le> t) (dl_rows db)"

definition status_distribution :: "demo_db \<Rightarrow> (demo_state \<times> int) list" where
  "status_distribution db =
     map (\<lambda>s. (s, int (length (filter (\<lambda>r. d_lifecycle_state r = s) (dl_rows db)))))
       (remdups (map d_lifecycle_state (dl_rows db)))"

definition list_recent :: "demo_db \<Rightarrow> nat \<Rightarrow> demo_state option \<Rightarrow> demo_row list" where
  "list_recent db limit state =
     take limit (sort_key (\<lambda>r. - d_updated_at r)
       (case state of None \<Rightarrow> dl_rows db | Some s \<Rightarrow> filter (\<lambda>r. d_lifecycle_state r = s) (dl_rows db)))"

definition stale_open_roots :: "demo_db \<Rightarrow> int \<Rightarrow> nat \<Rightarrow> demo_row list" where
  "stale_open_roots db older_than limit =
     take limit (sort_key (\<lambda>r. the (d_planned_at r))
       (filter (\<lambda>r. case d_planned_at r of None \<Rightarrow> False | Some t \<Rightarrow> t \<le> older_than) (open_roots db)))"

definition latest_activity_at :: "demo_db \<Rightarrow> int option" where
  "latest_activity_at db = column_max (map (\<lambda>r. Some (d_updated_at r)) (dl_rows db))"

section \<open>Instruments\<close>

definition resolve_instrument_id :: "demo_db \<Rightarrow> string \<Rightarrow> string \<Rightarrow> string \<Rightarrow> int option" where
  "resolve_instrument_id db venue product symbol =
     map_option ci_id (find (\<lambda>i. ci_venue i = venue \<and> ci_product i = product \<and> ci_venue_symbol i = symbol)
       (dl_instruments db))"

text \<open>
  \<open>INSERT ... ON CONFLICT DO NOTHING RETURNING id\<close>, then a lookup; the sequence advances even when
  nothing is inserted.
\<close>

definition insert_instrument ::
  "string \<Rightarrow> string \<Rightarrow> string \<Rightarrow> string \<Rightarrow> string \<Rightarrow> demo_db \<Rightarrow> demo_db \<times> int option" where
  "insert_instrument venue product symbol base quote db =
     (let db' = db\<lparr>dl_instrument_seq := dl_instrument_seq db + 1\<rparr> in
      case resolve_instrument_id db venue product symbol of
        Some _ \<Rightarrow> (db', None)
      | None \<Rightarrow>
          (db'\<lparr>dl_instruments := dl_instruments db @
              [\<lparr>ci_id = dl_instrument_seq db, ci_venue = venue, ci_product = product,
                ci_venue_symbol = symbol, ci_base_asset = base, ci_quote_asset = quote,
                ci_status = ''active''\<rparr>]\<rparr>,
           Some (dl_instrument_seq db)))"

definition resolve_or_create_instrument ::
  "string \<Rightarrow> string \<Rightarrow> string \<Rightarrow> string \<Rightarrow> string \<Rightarrow> demo_db \<Rightarrow> (demo_error, demo_db \<times> int) result" where
  "resolve_or_create_instrument venue product symbol base quote db =
     bindR (require (product \<in> ALLOWED_PRODUCTS) (DemoInvalidProduct product)) (\<lambda>_.
     case insert_instrument venue product symbol base quote db of
       (db', Some i) \<Rightarrow> Inr (db', i)
     | (db', None) \<Rightarrow>
         bindR (of_option NoResolvableInstrument (resolve_instrument_id db' venue product symbol))
           (\<lambda>i. Inr (db', i)))"

section \<open>Planned rows\<close>

record plan_request =
  pl_instrument_id :: int
  pl_product :: string
  pl_venue_host :: string
  pl_client_order_id :: string
  pl_side :: string
  pl_order_type :: string
  pl_qty :: rat
  pl_price :: "rat option"
  pl_tp_price :: "rat option"
  pl_sl_price :: "rat option"
  pl_notional_usdt :: "rat option"
  pl_notional_override_reason :: "string option"
  pl_extra_metadata :: "dict option"
  pl_now :: int

definition planned_row ::
  "plan_request \<Rightarrow> string option \<Rightarrow> dict option \<Rightarrow> demo_db \<Rightarrow> (demo_error, demo_row) result" where
  "planned_row q parent metadata db =
     bindR (pg_numeric 28 12 (pl_qty q)) (\<lambda>qty.
     bindR (pg_numeric_option 28 12 (pl_price q)) (\<lambda>price.
     bindR (pg_numeric_option 28 12 (pl_tp_price q)) (\<lambda>tp.
     bindR (pg_numeric_option 28 12 (pl_sl_price q)) (\<lambda>sl.
     bindR (pg_numeric_option 20 8 (pl_notional_usdt q)) (\<lambda>notional.
     Inr \<lparr>d_id = dl_seq db, d_instrument_id = pl_instrument_id q, d_product = pl_product q,
          d_venue_host = pl_venue_host q, d_client_order_id = pl_client_order_id q,
          d_parent_client_order_id = parent, d_broker_order_id = None, d_side = pl_side q,
          d_order_type = pl_order_type q, d_qty = qty, d_price = price, d_tp_price = tp,
          d_sl_price = sl, d_lifecycle_state = Planned, d_planned_at = Some (pl_now q),
          d_previewed_at = None, d_validated_at = None, d_submitted_at = None, d_filled_at = None,
          d_closed_at = None, d_cancelled_at = None, d_reconciled_at = None,
          d_last_reconciled_at = None, d_anomaly_reason = None, d_anomaly_at = None,
          d_notional_usdt = notional,
          d_notional_override_reason = pl_notional_override_reason q,
          d_extra_metadata = metadata, d_created_at = dl_now db, d_updated_at = dl_now db\<rparr>)))))"

definition insert_planned ::
  "plan_request \<Rightarrow> string option \<Rightarrow> demo_db \<Rightarrow> (demo_error, demo_db \<times> demo_row) result" where
  "insert_planned q parent db =
     bindR (planned_row q parent (pl_extra_metadata q) db) (\<lambda>r.
     map_error DemoIntegrityError (insert_demo r db))"

definition reject_premature_fill_metadata :: "dict option \<Rightarrow> (demo_error, unit) result" where
  "reject_premature_fill_metadata metadata =
     require (\<forall>k \<in> set IMMUTABLE_FILL_METADATA_KEYS. dict_get (or_empty metadata) k = None)
       PrematureFillActuals"

definition record_planned ::
  "plan_request \<Rightarrow> string option \<Rightarrow> demo_db \<Rightarrow> (demo_error, demo_db \<times> demo_row) result" where
  "record_planned q parent db =
     bindR (require (pl_product q \<in> ALLOWED_PRODUCTS) (DemoInvalidProduct (pl_product q))) (\<lambda>_.
     bindR (reject_premature_fill_metadata (pl_extra_metadata q)) (\<lambda>_.
     insert_planned q parent db))"

section \<open>Reserving a root slot\<close>

datatype reservation_status =
    Reserved | SlotTaken | Replayed | InProgress | Collision

record reservation =
  rs_status :: reservation_status
  rs_row :: "demo_row option"
  rs_reason :: "string option"

text \<open>The replay or collision of a client order id that the ledger already has.\<close>

definition identity_of :: "demo_row \<Rightarrow> json option" where
  "identity_of r = dict_get (or_empty (d_extra_metadata r)) PAPER_EXECUTION_IDENTITY_KEY"

definition same_identity :: "json option \<Rightarrow> dict \<Rightarrow> bool" where
  "same_identity found identity =
     (case found of None \<Rightarrow> False | Some v \<Rightarrow> json_eq v (JObj identity))"

definition replay :: "demo_row \<Rightarrow> dict \<Rightarrow> reservation" where
  "replay existing identity =
     (if \<not> same_identity (identity_of existing) identity
      then \<lparr>rs_status = Collision, rs_row = Some existing, rs_reason = Some ''immutable_metadata_mismatch''\<rparr>
      else if d_lifecycle_state existing \<in> IDEMPOTENCY_TERMINAL_STATES
      then \<lparr>rs_status = Replayed, rs_row = Some existing, rs_reason = Some ''terminal_replay''\<rparr>
      else \<lparr>rs_status = InProgress, rs_row = Some existing, rs_reason = Some ''root_inflight''\<rparr>)"

definition slot_taken :: "string \<Rightarrow> reservation" where
  "slot_taken reason = \<lparr>rs_status = SlotTaken, rs_row = None, rs_reason = Some reason\<rparr>"

definition known_replay :: "demo_db \<Rightarrow> string \<Rightarrow> dict option \<Rightarrow> reservation option" where
  "known_replay db cid identity =
     (case identity of
        None \<Rightarrow> None
      | Some i \<Rightarrow> map_option (\<lambda>existing. replay existing i) (get_by_client_order_id db cid))"

definition stored_metadata :: "dict option \<Rightarrow> dict option \<Rightarrow> dict" where
  "stored_metadata extra identity =
     (case identity of
        None \<Rightarrow> or_empty extra
      | Some i \<Rightarrow> dict_set PAPER_EXECUTION_IDENTITY_KEY (JObj i) (or_empty extra))"

definition insert_root ::
  "plan_request \<Rightarrow> dict option \<Rightarrow> demo_db \<Rightarrow> (demo_error, demo_db \<times> reservation) result" where
  "insert_root q identity db =
     bindR (planned_row q None (or_none (stored_metadata (pl_extra_metadata q) identity)) db) (\<lambda>r.
     case insert_demo r db of
       Inr (db', row) \<Rightarrow> Inr (db', \<lparr>rs_status = Reserved, rs_row = Some row, rs_reason = None\<rparr>)
     | Inl UqOpenRoot \<Rightarrow> Inr (db, slot_taken ''unique_conflict'')
     | Inl c \<Rightarrow> Inl (DemoIntegrityError c))"

definition repo_reserve_root_planned ::
  "plan_request \<Rightarrow> dict option \<Rightarrow> int \<Rightarrow> demo_db \<Rightarrow> (demo_error, demo_db \<times> reservation) result" where
  "repo_reserve_root_planned q identity cap db =
     (case known_replay db (pl_client_order_id q) identity of
        Some answer \<Rightarrow> Inr (db, answer)
      | None \<Rightarrow>
          if cap \<le> count_open_root_lifecycles db then Inr (db, slot_taken ''global_open_root_cap'')
          else if has_open_root_lifecycle_for_instrument db (pl_product q) (pl_instrument_id q)
          then Inr (db, slot_taken ''instrument_open_root'')
          else insert_root q identity db)"

definition reserve_root_planned ::
  "plan_request \<Rightarrow> dict option \<Rightarrow> int \<Rightarrow> demo_db \<Rightarrow> (demo_error, demo_db \<times> reservation) result" where
  "reserve_root_planned q identity cap db =
     bindR (require (pl_product q \<in> ALLOWED_PRODUCTS) (DemoInvalidProduct (pl_product q))) (\<lambda>_.
     bindR (reject_premature_fill_metadata (pl_extra_metadata q)) (\<lambda>_.
     repo_reserve_root_planned q identity cap db))"

section \<open>Transitions\<close>

definition fill_actual_check ::
  "dict \<Rightarrow> demo_state \<Rightarrow> dict \<Rightarrow> string \<Rightarrow> (demo_error, unit) result" where
  "fill_actual_check existing new_state metadata k =
     (case dict_get metadata k of
        None \<Rightarrow> Inr ()
      | Some v \<Rightarrow>
          (case dict_get existing k of
             None \<Rightarrow> require (new_state = DFilled) (FillActualFrozen k)
           | Some w \<Rightarrow>
               require (json_eq w v)
                 (if new_state = DFilled then FillActualConflict k else FillActualFrozen k)))"

text \<open>The order in which a \<open>frozenset\<close> is walked is fixed here to the order of the constant.\<close>

definition validate_fill_metadata_merge ::
  "demo_row \<Rightarrow> demo_state \<Rightarrow> dict option \<Rightarrow> (demo_error, unit) result" where
  "validate_fill_metadata_merge row new_state metadata =
     foldR (\<lambda>_ k. fill_actual_check (or_empty (d_extra_metadata row)) new_state (or_empty metadata) k)
       () IMMUTABLE_FILL_METADATA_KEYS"

fun stamped :: "demo_state \<Rightarrow> int \<Rightarrow> demo_row \<Rightarrow> demo_row" where
  "stamped Planned t r = r\<lparr>d_planned_at := Some t\<rparr>"
| "stamped Previewed t r = r\<lparr>d_previewed_at := Some t\<rparr>"
| "stamped Validated t r = r\<lparr>d_validated_at := Some t\<rparr>"
| "stamped DSubmitted t r = r\<lparr>d_submitted_at := Some t\<rparr>"
| "stamped DFilled t r = r\<lparr>d_filled_at := Some t\<rparr>"
| "stamped Closed t r = r\<lparr>d_closed_at := Some t\<rparr>"
| "stamped DCancelled t r = r\<lparr>d_cancelled_at := Some t\<rparr>"
| "stamped Reconciled t r = r\<lparr>d_reconciled_at := Some t, d_last_reconciled_at := Some t\<rparr>"
| "stamped Anomaly t r = r\<lparr>d_anomaly_at := Some t\<rparr>"

definition or_keep :: "'a option \<Rightarrow> 'a option \<Rightarrow> 'a option" where
  "or_keep new old = (case new of None \<Rightarrow> old | Some x \<Rightarrow> Some x)"

definition applied ::
  "demo_row \<Rightarrow> demo_state \<Rightarrow> int \<Rightarrow> string option \<Rightarrow> string option \<Rightarrow> dict option \<Rightarrow> demo_row" where
  "applied row new_state t broker reason merge =
     (stamped new_state t
        (row\<lparr>d_lifecycle_state := new_state, d_updated_at := t,
             d_broker_order_id := or_keep broker (d_broker_order_id row),
             d_anomaly_reason := or_keep reason (d_anomaly_reason row)\<rparr>))
      \<lparr>d_extra_metadata :=
         (case merge of
            None \<Rightarrow> d_extra_metadata row
          | Some e \<Rightarrow> Some (merged (or_empty (d_extra_metadata row)) e))\<rparr>"

definition update_state ::
  "demo_row \<Rightarrow> demo_state \<Rightarrow> int \<Rightarrow> string option \<Rightarrow> string option \<Rightarrow> dict option \<Rightarrow> demo_db
     \<Rightarrow> (demo_error, demo_db \<times> demo_row) result" where
  "update_state row new_state t broker reason merge db =
     map_error
       (\<lambda>c. case (broker, c) of
              (Some b, UqBrokerAck) \<Rightarrow> DuplicateAcknowledgement b
            | _ \<Rightarrow> DemoIntegrityError c)
       (flush_demo (applied row new_state t broker reason merge) db)"

definition transition ::
  "string \<Rightarrow> demo_state \<Rightarrow> int \<Rightarrow> string option \<Rightarrow> string option \<Rightarrow> dict option \<Rightarrow> demo_db
     \<Rightarrow> (demo_error, demo_db \<times> demo_row) result" where
  "transition cid new_state t broker reason merge db =
     bindR (of_option (NoLedgerRow cid) (get_by_client_order_id db cid)) (\<lambda>row.
     bindR (check_demo_transition (d_lifecycle_state row) new_state) (\<lambda>_.
     bindR (validate_fill_metadata_merge row new_state merge) (\<lambda>_.
     update_state row new_state t broker reason merge db)))"

type_synonym demo_call = "demo_db \<Rightarrow> (demo_error, demo_db \<times> demo_row) result"

definition record_previewed :: "string \<Rightarrow> int \<Rightarrow> dict option \<Rightarrow> demo_call" where
  "record_previewed cid t merge = transition cid Previewed t None None merge"

definition record_validated :: "string \<Rightarrow> int \<Rightarrow> dict option \<Rightarrow> demo_call" where
  "record_validated cid t merge = transition cid Validated t None None merge"

definition record_submitted :: "string \<Rightarrow> string \<Rightarrow> int \<Rightarrow> dict option \<Rightarrow> demo_call" where
  "record_submitted cid broker t merge = transition cid DSubmitted t (Some broker) None merge"

definition record_filled :: "string \<Rightarrow> int \<Rightarrow> dict option \<Rightarrow> demo_call" where
  "record_filled cid t merge = transition cid DFilled t None None merge"

definition record_closed :: "string \<Rightarrow> int \<Rightarrow> dict option \<Rightarrow> demo_call" where
  "record_closed cid t merge = transition cid Closed t None None merge"

definition record_cancelled_demo :: "string \<Rightarrow> int \<Rightarrow> dict option \<Rightarrow> demo_call" where
  "record_cancelled_demo cid t merge = transition cid DCancelled t None None merge"

definition record_reconciled :: "string \<Rightarrow> int \<Rightarrow> dict option \<Rightarrow> demo_call" where
  "record_reconciled cid t merge = transition cid Reconciled t None None merge"

definition record_anomaly :: "string \<Rightarrow> string \<Rightarrow> int \<Rightarrow> dict option \<Rightarrow> demo_call" where
  "record_anomaly cid reason t merge = transition cid Anomaly t None (Some reason) merge"

section \<open>Interfaces\<close>

definition is_demo_terminal :: "demo_state \<Rightarrow> bool" where
  "is_demo_terminal s \<longleftrightarrow> s \<in> {Reconciled, Anomaly}"

lemma check_demo_transition_eq [simp]:
  "check_demo_transition s t = Inr u \<longleftrightarrow> t \<in> DEMO_ALLOWED s"
  by (simp add: check_demo_transition_def)

interpretation demo_graph: guarded_graph DEMO_ALLOWED is_demo_terminal check_demo_transition
proof unfold_locales
  show "is_demo_terminal s \<longleftrightarrow> DEMO_ALLOWED s = {}" for s
    by (cases s) (simp_all add: is_demo_terminal_def)
  show "is_ok (check_demo_transition s t) \<longleftrightarrow> t \<in> DEMO_ALLOWED s" for s t
    by (simp add: is_ok_iff)
qed

interpretation demo_table: keyed_table dl_rows put_demo d_id
  by unfold_locales (simp add: put_demo_def)

end
