(* ===== verification/BinanceSafety.thy ===== *)
theory BinanceSafety
  imports BinanceLedger
begin

text \<open>
  What the Binance demo ledger promises over every history of calls: its rows stay well-formed and
  carry the evidence of their state, recorded facts are final, the reservations keep the open root
  orders within the cap, and a repeated reservation is recognised.
\<close>

section \<open>Histories\<close>

text \<open>
  One command per call that writes; \<open>ServerClock\<close> moves the clock of the database. A raise rolls
  its transaction back.
\<close>

datatype demo_cmd =
    RecordPlanned plan_request "string option"
  | ReserveRoot plan_request "dict option" int
  | RecordPreviewed string int "dict option"
  | RecordValidated string int "dict option"
  | RecordSubmitted string string int "dict option"
  | RecordFilled string int "dict option"
  | RecordClosed string int "dict option"
  | RecordCancelled string int "dict option"
  | RecordReconciled string int "dict option"
  | RecordAnomaly string string int "dict option"
  | ResolveInstrument string string string string string
  | ServerClock int

definition db_only :: "(demo_error, demo_db \<times> 'a) result \<Rightarrow> (demo_error, demo_db) result" where
  "db_only m = bindR m (\<lambda>(db, _). Inr db)"

fun demo_exec :: "demo_cmd \<Rightarrow> demo_db \<Rightarrow> (demo_error, demo_db) result" where
  "demo_exec (RecordPlanned q parent) db = db_only (record_planned q parent db)"
| "demo_exec (ReserveRoot q identity cap) db = db_only (reserve_root_planned q identity cap db)"
| "demo_exec (RecordPreviewed cid t m) db = db_only (record_previewed cid t m db)"
| "demo_exec (RecordValidated cid t m) db = db_only (record_validated cid t m db)"
| "demo_exec (RecordSubmitted cid b t m) db = db_only (record_submitted cid b t m db)"
| "demo_exec (RecordFilled cid t m) db = db_only (record_filled cid t m db)"
| "demo_exec (RecordClosed cid t m) db = db_only (record_closed cid t m db)"
| "demo_exec (RecordCancelled cid t m) db = db_only (record_cancelled_demo cid t m db)"
| "demo_exec (RecordReconciled cid t m) db = db_only (record_reconciled cid t m db)"
| "demo_exec (RecordAnomaly cid reason t m) db = db_only (record_anomaly cid reason t m db)"
| "demo_exec (ResolveInstrument venue product symbol base quote) db =
     db_only (resolve_or_create_instrument venue product symbol base quote db)"
| "demo_exec (ServerClock t) db = Inr (db\<lparr>dl_now := t\<rparr>)"

definition demo_commit :: "demo_cmd \<Rightarrow> demo_db \<Rightarrow> demo_db" where
  "demo_commit c db = (case demo_exec c db of Inl _ \<Rightarrow> db | Inr db' \<Rightarrow> db')"

primrec demo_run :: "demo_cmd list \<Rightarrow> demo_db \<Rightarrow> demo_db" where
  "demo_run [] db = db"
| "demo_run (c # cs) db = demo_run cs (demo_commit c db)"

text \<open>The metadata a command merges into its row.\<close>

fun merge_of :: "demo_cmd \<Rightarrow> dict" where
  "merge_of (RecordPreviewed cid t m) = or_empty m"
| "merge_of (RecordValidated cid t m) = or_empty m"
| "merge_of (RecordSubmitted cid b t m) = or_empty m"
| "merge_of (RecordFilled cid t m) = or_empty m"
| "merge_of (RecordClosed cid t m) = or_empty m"
| "merge_of (RecordCancelled cid t m) = or_empty m"
| "merge_of (RecordReconciled cid t m) = or_empty m"
| "merge_of (RecordAnomaly cid reason t m) = or_empty m"
| "merge_of _ = []"

section \<open>The three kinds of step\<close>

inductive demo_step :: "demo_cmd \<Rightarrow> demo_db \<Rightarrow> demo_db \<Rightarrow> bool" where
  quiet: "dl_rows db' = dl_rows db \<Longrightarrow> dl_seq db' = dl_seq db \<Longrightarrow> demo_step c db db'"
| plan: "planned_row q parent meta db = Inr r \<Longrightarrow> violated db r = None \<Longrightarrow>
     reject_premature_fill_metadata meta = Inr () \<Longrightarrow>
     (c = RecordPlanned q parent \<or>
      (\<exists>identity cap. c = ReserveRoot q identity cap \<and> parent = None \<and>
        count_open_root_lifecycles db < cap)) \<Longrightarrow>
     dl_rows db' = dl_rows db @ [r] \<Longrightarrow> dl_seq db' = dl_seq db + 1 \<Longrightarrow> demo_step c db db'"
| move: "get_by_client_order_id db cid = Some row \<Longrightarrow> t \<in> DEMO_ALLOWED (d_lifecycle_state row) \<Longrightarrow>
     validate_fill_metadata_merge row t merge = Inr () \<Longrightarrow> (t = DSubmitted \<longleftrightarrow> broker \<noteq> None) \<Longrightarrow>
     or_empty merge = merge_of c \<Longrightarrow> (t = Anomaly \<Longrightarrow> \<exists>reason. c = RecordAnomaly cid reason now merge) \<Longrightarrow>
     violated db (applied row t now broker reason merge) = None \<Longrightarrow>
     db' = put_demo (applied row t now broker reason merge) db \<Longrightarrow> demo_step c db db'"

inductive_cases demo_stepE: "demo_step c db db'"

lemma transition_step:
  assumes "transition cid t now broker reason merge db = Inr (db', r)"
    and "t = DSubmitted \<longleftrightarrow> broker \<noteq> None" and "or_empty merge = merge_of c"
    and "t = Anomaly \<Longrightarrow> \<exists>reason. c = RecordAnomaly cid reason now merge"
  shows "demo_step c db db'"
proof -
  from assms(1) obtain row where row: "get_by_client_order_id db cid = Some row"
      "t \<in> DEMO_ALLOWED (d_lifecycle_state row)" "validate_fill_metadata_merge row t merge = Inr ()"
      "flush_demo (applied row t now broker reason merge) db = Inr (db', r)"
    by (auto simp: transition_def bindR_eq_Inr update_state_def)
  then have "violated db (applied row t now broker reason merge) = None"
      "db' = put_demo (applied row t now broker reason merge) db"
    by (auto simp: flush_demo_def split: option.splits)
  with row assms(2-) show ?thesis by (blast intro: demo_step.move)
qed

lemma db_only_eq: "db_only m = Inr db' \<longleftrightarrow> (\<exists>x. m = Inr (db', x))"
  by (auto simp: db_only_def bindR_eq_Inr)

lemma insert_demo_eq:
  "insert_demo r db = Inr (db', r') \<longleftrightarrow>
     violated db r = None \<and> r' = r \<and> db' = db\<lparr>dl_rows := dl_rows db @ [r], dl_seq := dl_seq db + 1\<rparr>"
  by (auto simp: insert_demo_def split: option.splits)

lemma reject_premature_eq [simp]:
  "reject_premature_fill_metadata m = Inr u \<longleftrightarrow>
     (\<forall>k \<in> set IMMUTABLE_FILL_METADATA_KEYS. dict_get (or_empty m) k = None)"
  by (simp add: reject_premature_fill_metadata_def)

lemma identity_is_no_fill_key: "PAPER_EXECUTION_IDENTITY_KEY \<notin> set IMMUTABLE_FILL_METADATA_KEYS"
  by (simp add: PAPER_EXECUTION_IDENTITY_KEY_def IMMUTABLE_FILL_METADATA_KEYS_def)

lemma stored_metadata_premature:
  "reject_premature_fill_metadata m = Inr () \<Longrightarrow>
   reject_premature_fill_metadata (or_none (stored_metadata m identity)) = Inr ()"
  using identity_is_no_fill_key by (auto simp: stored_metadata_def split: option.splits)

lemma insert_root_cases:
  "insert_root q identity db = Inr (db', a) \<longleftrightarrow>
     (\<exists>r. planned_row q None (or_none (stored_metadata (pl_extra_metadata q) identity)) db = Inr r \<and>
       ((violated db r = None \<and> db' = db\<lparr>dl_rows := dl_rows db @ [r], dl_seq := dl_seq db + 1\<rparr> \<and>
         a = \<lparr>rs_status = Reserved, rs_row = Some r, rs_reason = None\<rparr>) \<or>
        (violated db r = Some UqOpenRoot \<and> db' = db \<and> a = slot_taken ''unique_conflict'')))"
proof (cases "planned_row q None (or_none (stored_metadata (pl_extra_metadata q) identity)) db")
  case (Inl e)
  then show ?thesis by (simp add: insert_root_def)
next
  case (Inr r)
  show ?thesis
  proof (cases "violated db r")
    case None
    with Inr show ?thesis by (auto simp: insert_root_def insert_demo_def)
  next
    case (Some c)
    with Inr show ?thesis by (cases c) (auto simp: insert_root_def insert_demo_def)
  qed
qed

lemma reserve_step:
  assumes "reserve_root_planned q identity cap db = Inr (db', a)"
  shows "demo_step (ReserveRoot q identity cap) db db'"
proof -
  from assms have m: "reject_premature_fill_metadata (pl_extra_metadata q) = Inr ()"
    and r: "repo_reserve_root_planned q identity cap db = Inr (db', a)"
    by (auto simp: reserve_root_planned_def bindR_eq_Inr)
  from r consider "db' = db" | "count_open_root_lifecycles db < cap" "insert_root q identity db = Inr (db', a)"
    by (auto simp: repo_reserve_root_planned_def split: option.splits if_splits)
  then show ?thesis
  proof cases
    case 1
    then show ?thesis by (simp add: demo_step.quiet)
  next
    case 2
    let ?meta = "or_none (stored_metadata (pl_extra_metadata q) identity)"
    from 2(2) consider "db' = db"
      | r where "planned_row q None ?meta db = Inr r" "violated db r = None"
          "db' = db\<lparr>dl_rows := dl_rows db @ [r], dl_seq := dl_seq db + 1\<rparr>"
      unfolding insert_root_cases by blast
    then show ?thesis
    proof cases
      case 1
      then show ?thesis by (simp add: demo_step.quiet)
    next
      case (2 r)
      then show ?thesis
        using stored_metadata_premature [OF m, of identity] \<open>count_open_root_lifecycles db < cap\<close>
        by (intro demo_step.plan [of q None ?meta db r]) auto
    qed
  qed
qed

lemma record_planned_step:
  "record_planned q parent db = Inr (db', r) \<Longrightarrow> demo_step (RecordPlanned q parent) db db'"
  by (auto simp: record_planned_def insert_planned_def bindR_eq_Inr insert_demo_eq intro!: demo_step.plan)

lemma resolve_keeps_rows:
  "resolve_or_create_instrument v p s b q db = Inr (db', i) \<Longrightarrow>
   dl_rows db' = dl_rows db \<and> dl_seq db' = dl_seq db"
  by (auto simp: resolve_or_create_instrument_def insert_instrument_def bindR_eq_Inr Let_def
      split: option.splits)

lemmas record_defs = record_previewed_def record_validated_def record_submitted_def
  record_filled_def record_closed_def record_cancelled_demo_def record_reconciled_def record_anomaly_def

lemma exec_step: "demo_exec c db = Inr db' \<Longrightarrow> demo_step c db db'"
  by (cases c)
    (auto simp: db_only_eq record_defs dest!: resolve_keeps_rows intro: record_planned_step reserve_step
      transition_step demo_step.quiet)

lemma commit_step: "demo_step c db (demo_commit c db)"
  by (auto simp: demo_commit_def intro: exec_step demo_step.quiet split: sum.splits)

section \<open>What a transition writes\<close>

text \<open>The columns that no call changes after the insert.\<close>

definition terms :: "demo_row \<Rightarrow> _" where
  "terms r = (d_id r, slot r, d_venue_host r, d_client_order_id r, d_parent_client_order_id r,
     d_side r, d_order_type r, d_qty r, d_price r, d_tp_price r, d_sl_price r, d_notional_usdt r)"

lemma merged_get: "dict_get (merged d e) k = (case dict_get e k of None \<Rightarrow> dict_get d k | Some v \<Rightarrow> Some v)"
  by (simp add: dict_get_def merged_def merge_conv' map_add_def split: option.splits)

lemma applied_state [simp]: "d_lifecycle_state (applied r t now b a m) = t"
  and applied_broker [simp]: "d_broker_order_id (applied r t now b a m) = or_keep b (d_broker_order_id r)"
  and applied_terms [simp]: "terms (applied r t now b a m) = terms r"
  by (cases t; simp add: applied_def terms_def slot_def)+

lemma applied_metadata [simp]:
  "dict_get (or_empty (d_extra_metadata (applied r t now b a m))) k =
     (case dict_get (or_empty m) k of None \<Rightarrow> dict_get (or_empty (d_extra_metadata r)) k | Some v \<Rightarrow> Some v)"
proof (cases m)
  case None
  then show ?thesis by (cases t) (simp_all add: applied_def dict_get_def)
next
  case (Some e)
  then show ?thesis by (cases t) (simp_all add: applied_def merged_get)
qed

lemma terms_eqD:
  assumes "terms r = terms r'"
  shows "d_id r = d_id r'" "slot r = slot r'" "d_client_order_id r = d_client_order_id r'"
    "is_root r = is_root r'" "d_parent_client_order_id r = d_parent_client_order_id r'"
    "d_venue_host r = d_venue_host r'"
  using assms by (simp_all add: terms_def is_root_def)

lemmas applied_columns [simp] = applied_terms [THEN terms_eqD(1)] applied_terms [THEN terms_eqD(2)]
  applied_terms [THEN terms_eqD(3)] applied_terms [THEN terms_eqD(4)]

lemma planned_row_columns:
  assumes "planned_row q parent meta db = Inr r"
  shows "d_id r = dl_seq db" "d_client_order_id r = pl_client_order_id q"
    "d_parent_client_order_id r = parent" "d_broker_order_id r = None" "d_lifecycle_state r = Planned"
    "d_extra_metadata r = meta" "slot r = (pl_product q, pl_instrument_id q)"
    "d_planned_at r \<noteq> None" "d_previewed_at r = None" "d_validated_at r = None"
    "d_submitted_at r = None" "d_filled_at r = None" "d_closed_at r = None"
  using assms by (auto simp: planned_row_def bindR_eq_Inr slot_def)

section \<open>Well-formed ledgers\<close>

text \<open>
  A row carries the evidence of its state: it was acknowledged exactly if it was submitted, it has
  the time stamps of the states behind it and none of those ahead, fill actuals only after the fill.
\<close>

definition has_fill_actuals :: "demo_row \<Rightarrow> bool" where
  "has_fill_actuals r \<longleftrightarrow>
     (\<exists>k \<in> set IMMUTABLE_FILL_METADATA_KEYS. dict_get (or_empty (d_extra_metadata r)) k \<noteq> None)"

definition passed :: "demo_row \<Rightarrow> bool list" where
  "passed r = map (\<lambda>t. t \<noteq> None)
     [d_previewed_at r, d_validated_at r, d_submitted_at r, d_filled_at r, d_closed_at r]"

fun stage :: "demo_state \<Rightarrow> nat set" where
  "stage Planned = {0}"
| "stage Previewed = {1}"
| "stage Validated = {2}"
| "stage DSubmitted = {3}"
| "stage DFilled = {4}"
| "stage Closed = {5}"
| "stage DCancelled = {0, 1, 2, 3}"
| "stage Reconciled = {0, 1, 2, 3, 5}"
| "stage Anomaly = {0, 1, 2, 3, 4, 5}"

definition evidence :: "demo_row \<Rightarrow> bool" where
  "evidence r \<longleftrightarrow>
     (\<exists>n \<in> stage (d_lifecycle_state r). passed r = replicate n True @ replicate (5 - n) False) \<and>
     d_planned_at r \<noteq> None \<and>
     (d_broker_order_id r \<noteq> None \<longleftrightarrow> d_submitted_at r \<noteq> None) \<and>
     (has_fill_actuals r \<longrightarrow> d_filled_at r \<noteq> None)"

definition acked :: "demo_row list \<Rightarrow> demo_row list" where
  "acked rs = filter (\<lambda>r. d_broker_order_id r \<noteq> None) rs"

definition wf_demo :: "demo_db \<Rightarrow> bool" where
  "wf_demo db \<longleftrightarrow>
     distinct (map d_id (dl_rows db)) \<and> (\<forall>r \<in> set (dl_rows db). d_id r < dl_seq db) \<and>
     distinct (map d_client_order_id (dl_rows db)) \<and>
     distinct (map slot (open_roots db)) \<and>
     distinct (map broker_ack (acked (dl_rows db))) \<and>
     (\<forall>r \<in> set (dl_rows db). evidence r)"

lemma passed_applied:
  assumes "evidence r" and "t \<in> DEMO_ALLOWED (d_lifecycle_state r)" and "t = DSubmitted \<longleftrightarrow> b \<noteq> None"
  shows "\<exists>n \<in> stage t. passed (applied r t now b a m) = replicate n True @ replicate (5 - n) False"
  using assms
  by (cases "d_lifecycle_state r"; cases t)
    (auto simp: evidence_def applied_def passed_def numeral_eq_Suc)

lemma applied_stamps:
  "d_planned_at r \<noteq> None \<Longrightarrow> d_planned_at (applied r t now b a m) \<noteq> None"
  "t \<noteq> DSubmitted \<Longrightarrow> d_submitted_at (applied r t now b a m) = d_submitted_at r"
  "d_submitted_at (applied r DSubmitted now b a m) \<noteq> None"
  "d_filled_at (applied r DFilled now b a m) \<noteq> None"
  "t \<noteq> DFilled \<Longrightarrow> d_filled_at (applied r t now b a m) = d_filled_at r"
  by (cases t; simp add: applied_def)+

lemma validate_merge_iff:
  "validate_fill_metadata_merge row t m = Inr u \<longleftrightarrow>
     (\<forall>k \<in> set IMMUTABLE_FILL_METADATA_KEYS. fill_actual_check (or_empty (d_extra_metadata row)) t (or_empty m) k = Inr ())"
  by (auto simp: validate_fill_metadata_merge_def IMMUTABLE_FILL_METADATA_KEYS_def bindR_eq_Inr)

lemma merged_actuals:
  assumes "validate_fill_metadata_merge row t m = Inr ()" and "k \<in> set IMMUTABLE_FILL_METADATA_KEYS"
  shows "dict_get (or_empty m) k = Some v \<Longrightarrow> t = DFilled \<or> (\<exists>w. dict_get (or_empty (d_extra_metadata row)) k = Some w)"
    and "dict_get (or_empty m) k = Some v \<Longrightarrow> dict_get (or_empty (d_extra_metadata row)) k = Some w \<Longrightarrow> json_eq w v"
  using assms by (auto simp: validate_merge_iff fill_actual_check_def split: option.splits)

lemma evidence_applied:
  assumes e: "evidence r" and t: "t \<in> DEMO_ALLOWED (d_lifecycle_state r)"
    and b: "t = DSubmitted \<longleftrightarrow> b \<noteq> None" and v: "validate_fill_metadata_merge r t m = Inr ()"
  shows "evidence (applied r t now b a m)"
proof -
  let ?r = "applied r t now b a m"
  have acks: "d_broker_order_id ?r \<noteq> None \<longleftrightarrow> d_submitted_at ?r \<noteq> None"
    using e b by (cases "t = DSubmitted") (auto simp: evidence_def applied_stamps or_keep_def split: option.splits)
  have fills: "d_filled_at ?r \<noteq> None" if "has_fill_actuals ?r"
  proof (cases "t = DFilled")
    case True
    then show ?thesis by (simp only: applied_stamps not_False_eq_True)
  next
    case False
    from that obtain k v where k: "k \<in> set IMMUTABLE_FILL_METADATA_KEYS"
      "dict_get (or_empty (d_extra_metadata ?r)) k = Some v" by (auto simp: has_fill_actuals_def)
    then have "has_fill_actuals r"
      using merged_actuals(1) [OF v k(1)] False by (auto simp: has_fill_actuals_def split: option.splits)
    then show ?thesis using e by (simp add: evidence_def applied_stamps(5) [OF False])
  qed
  have "d_planned_at ?r \<noteq> None" using e by (simp only: evidence_def applied_stamps) (simp add: applied_stamps(1))
  then show ?thesis
    using passed_applied [OF e t b, of now a m] acks fills unfolding evidence_def by simp
qed

lemma evidence_planned:
  assumes "planned_row q parent meta db = Inr r" and "reject_premature_fill_metadata meta = Inr ()"
  shows "evidence r"
  using assms planned_row_columns [OF assms(1)]
  by (simp add: evidence_def passed_def has_fill_actuals_def numeral_eq_Suc)

section \<open>Every call keeps a ledger well-formed\<close>

lemma not_violated:
  assumes "violated db r = None"
  shows "\<And>x. x \<in> set (other_rows db r) \<Longrightarrow> d_client_order_id x \<noteq> d_client_order_id r"
    and "\<And>x. x \<in> set (other_rows db r) \<Longrightarrow> is_open_root r \<Longrightarrow> is_open_root x \<Longrightarrow> slot x \<noteq> slot r"
    and "\<And>x. x \<in> set (other_rows db r) \<Longrightarrow> d_broker_order_id r \<noteq> None \<Longrightarrow> broker_ack x \<noteq> broker_ack r"
  using assms by (auto simp: violated_def split: if_splits)

lemma distinct_keys_row:
  assumes "distinct (map key (filter P rows))" and "distinct (map d_id rows)"
    and "\<And>x. x \<in> set rows \<Longrightarrow> d_id x \<noteq> d_id r \<Longrightarrow> P x \<Longrightarrow> P r \<Longrightarrow> key x \<noteq> key r"
  shows "distinct (map key (filter P (write_row d_id r rows)))"
  using assms
proof (induction rows)
  case Nil
  then show ?case by (simp add: write_row_def)
next
  case (Cons x rows)
  have IH: "distinct (map key (filter P (write_row d_id r rows)))"
    using Cons by (auto split: if_splits)
  have tail: "y \<in> set (write_row d_id r rows) \<Longrightarrow> y = r \<and> d_id r \<in> d_id ` set rows \<or> y \<in> set rows \<and> d_id y \<noteq> d_id r" for y
    by (auto simp: write_row_def image_iff split: if_splits) (metis)+
  show ?case
  proof (cases "d_id x = d_id r")
    case True
    then have "d_id r \<notin> d_id ` set rows" using Cons.prems(2) by auto
    then have "write_row d_id r rows = rows" by (rule write_row_absent)
    then have "write_row d_id r (x # rows) = r # rows" using True by (simp add: write_row_def)
    moreover have "key r \<notin> key ` set (filter P rows)" if "P r"
      using Cons.prems(3) that \<open>d_id r \<notin> d_id ` set rows\<close> by (force simp: image_iff)
    ultimately show ?thesis using Cons.prems(1) by (auto split: if_splits)
  next
    case False
    have "key x \<notin> key ` {y \<in> set (write_row d_id r rows). P y}" if "P x"
    proof (clarsimp simp: image_iff)
      fix y assume y: "y \<in> set (write_row d_id r rows)" "P y" "key x = key y"
      from tail [OF y(1)] show False
      proof
        assume "y = r \<and> d_id r \<in> d_id ` set rows"
        then show False using Cons.prems(3) [of x] False that y by simp
      next
        assume "y \<in> set rows \<and> d_id y \<noteq> d_id r"
        then show False using Cons.prems(1) that y by (auto simp: image_iff)
      qed
    qed
    then show ?thesis using IH False by (auto simp: write_row_def)
  qed
qed

lemma put_distinct:
  assumes "distinct (map key (filter P (dl_rows db)))" and "distinct (map d_id (dl_rows db))"
    and "\<And>x. x \<in> set (other_rows db r) \<Longrightarrow> P x \<Longrightarrow> P r \<Longrightarrow> key x \<noteq> key r"
  shows "distinct (map key (filter P (dl_rows (put_demo r db))))"
  using assms by (auto simp: demo_table.rows_put other_rows_def intro!: distinct_keys_row)

lemma wf_put:
  assumes "wf_demo db" and "violated db r = None" and "evidence r" and "d_id r < dl_seq db"
  shows "wf_demo (put_demo r db)"
proof -
  have d: "distinct (map d_id (dl_rows db))" using assms(1) by (simp add: wf_demo_def)
  note c = not_violated [OF assms(2)]
  have "distinct (map d_client_order_id (dl_rows (put_demo r db)))"
    using put_distinct [of d_client_order_id "\<lambda>_. True" db r] assms(1) d c(1) by (simp add: wf_demo_def)
  moreover have "distinct (map slot (open_roots (put_demo r db)))"
    unfolding open_roots_def
    using assms(1) d c(2) by (intro put_distinct) (auto simp: wf_demo_def open_roots_def)
  moreover have "distinct (map broker_ack (acked (dl_rows (put_demo r db))))"
    unfolding acked_def
    using assms(1) d c(3) by (intro put_distinct) (auto simp: wf_demo_def acked_def)
  moreover have "\<forall>x \<in> set (dl_rows (put_demo r db)). evidence x \<and> d_id x < dl_seq db"
    using assms(1,3,4) by (auto simp: wf_demo_def demo_table.rows_put dest!: write_row_set)
  ultimately show ?thesis
    using d by (simp add: wf_demo_def) (simp add: put_demo_def)
qed

lemma wf_append:
  assumes "wf_demo db" and "violated db r = None" and "evidence r" and "d_id r = dl_seq db"
    and "d_broker_order_id r = None"
    and "dl_rows db' = dl_rows db @ [r]" and "dl_seq db' = dl_seq db + 1"
  shows "wf_demo db'"
proof -
  have others: "other_rows db r = dl_rows db"
    using assms(1,4) by (auto simp: other_rows_def wf_demo_def intro!: filter_True)
  note c = not_violated [OF assms(2), unfolded others]
  have ids: "d_id r \<notin> d_id ` set (dl_rows db)" using assms(1,4) by (auto simp: wf_demo_def)
  have "slot r \<notin> slot ` set (open_roots db)" if "is_open_root r"
    using c(2) [OF _ that] by (fastforce simp: open_roots_def)
  then have "distinct (map slot (open_roots db'))"
    using assms(1,6) by (auto simp: wf_demo_def open_roots_def)
  moreover have "distinct (map d_client_order_id (dl_rows db'))"
  proof -
    have "d_client_order_id r \<notin> d_client_order_id ` set (dl_rows db)" using c(1) by fastforce
    then show ?thesis using assms(1,6) by (simp add: wf_demo_def)
  qed
  ultimately show ?thesis
    using assms ids by (auto simp: wf_demo_def acked_def)
qed

lemma found_row:
  "get_by_client_order_id db cid = Some row \<Longrightarrow> row \<in> set (dl_rows db) \<and> d_client_order_id row = cid"
  unfolding get_by_client_order_id_def by (drule find_SomeD) simp

lemma wf_step: "demo_step c db db' \<Longrightarrow> wf_demo db \<Longrightarrow> wf_demo db'"
proof (induction rule: demo_step.induct)
  case (quiet db' db c)
  then show ?case by (simp add: wf_demo_def open_roots_def)
next
  case (plan q parent meta db r c db')
  then show ?case
    using evidence_planned planned_row_columns [OF plan(1)] by (blast intro: wf_append)
next
  case (move db cid row t m b c now a db')
  then have row: "row \<in> set (dl_rows db)" by (simp add: found_row)
  then have "evidence (applied row t now b a m)"
    using move by (intro evidence_applied) (simp_all add: wf_demo_def)
  moreover have "d_id row < dl_seq db" using row move.prems by (simp add: wf_demo_def)
  ultimately show ?case using move by (simp add: wf_put)
qed

lemma wf_commit: "wf_demo db \<Longrightarrow> wf_demo (demo_commit c db)"
  by (rule wf_step [OF commit_step])

lemma wf_run: "wf_demo db \<Longrightarrow> wf_demo (demo_run cs db)"
  by (induction cs arbitrary: db) (simp_all add: wf_commit)

lemma empty_ledger_wf: "wf_demo \<lparr>dl_now = t, dl_rows = [], dl_seq = n, dl_instruments = ins, dl_instrument_seq = k\<rparr>"
  by (simp add: wf_demo_def open_roots_def acked_def)

section \<open>What later calls leave of a row\<close>

lemma path_from_append:
  "path_from A s (xs @ ys) \<longleftrightarrow> path_from A s xs \<and> path_from A (last (s # xs)) ys"
  by (induction xs arbitrary: s) auto

text \<open>A later version of a row: its terms, its acknowledgement and its fill actuals are final.\<close>

definition later :: "demo_row \<Rightarrow> demo_row \<Rightarrow> bool" where
  "later r r' \<longleftrightarrow>
     terms r' = terms r \<and>
     (\<exists>ts. path_from DEMO_ALLOWED (d_lifecycle_state r) ts \<and>
        d_lifecycle_state r' = last (d_lifecycle_state r # ts)) \<and>
     (d_broker_order_id r \<noteq> None \<longrightarrow> d_broker_order_id r' = d_broker_order_id r) \<and>
     (\<forall>k \<in> set IMMUTABLE_FILL_METADATA_KEYS. \<forall>v.
        dict_get (or_empty (d_extra_metadata r)) k = Some v \<longrightarrow>
        (\<exists>w. dict_get (or_empty (d_extra_metadata r')) k = Some w \<and> json_eq v w))"

lemma later_refl: "later r r"
proof -
  have "path_from DEMO_ALLOWED (d_lifecycle_state r) [] \<and>
      d_lifecycle_state r = last (d_lifecycle_state r # [])" by simp
  then show ?thesis unfolding later_def json_eq_def by blast
qed

lemma later_trans:
  assumes "later r r'" and "later r' r''"
  shows "later r r''"
proof -
  from assms obtain ts us where p: "path_from DEMO_ALLOWED (d_lifecycle_state r) ts"
      "d_lifecycle_state r' = last (d_lifecycle_state r # ts)"
      "path_from DEMO_ALLOWED (d_lifecycle_state r') us"
      "d_lifecycle_state r'' = last (d_lifecycle_state r' # us)"
    by (auto simp: later_def)
  then have "path_from DEMO_ALLOWED (d_lifecycle_state r) (ts @ us) \<and>
      d_lifecycle_state r'' = last (d_lifecycle_state r # ts @ us)"
    by (simp add: path_from_append)
  moreover have "\<forall>k \<in> set IMMUTABLE_FILL_METADATA_KEYS. \<forall>v.
      dict_get (or_empty (d_extra_metadata r)) k = Some v \<longrightarrow>
      (\<exists>w. dict_get (or_empty (d_extra_metadata r'')) k = Some w \<and> json_eq v w)"
    using assms by (fastforce simp: later_def json_eq_def)
  ultimately show ?thesis using assms unfolding later_def by (intro conjI) auto
qed

lemma later_applied:
  assumes e: "evidence r" and t: "t \<in> DEMO_ALLOWED (d_lifecycle_state r)"
    and b: "t = DSubmitted \<longleftrightarrow> b \<noteq> None" and v: "validate_fill_metadata_merge r t m = Inr ()"
  shows "later r (applied r t now b a m)"
proof -
  have path: "\<exists>ts. path_from DEMO_ALLOWED (d_lifecycle_state r) ts \<and>
      d_lifecycle_state (applied r t now b a m) = last (d_lifecycle_state r # ts)"
    using t by (intro exI [of _ "[t]"]) simp
  have acked_once: "d_broker_order_id r = None" if "t = DSubmitted"
  proof -
    have "d_lifecycle_state r = Validated" using t that by (cases "d_lifecycle_state r") simp_all
    then show ?thesis using e by (auto simp: evidence_def passed_def numeral_eq_Suc)
  qed
  have facts: "\<exists>w. dict_get (or_empty (d_extra_metadata (applied r t now b a m))) k = Some w \<and> json_eq u w"
    if "k \<in> set IMMUTABLE_FILL_METADATA_KEYS" "dict_get (or_empty (d_extra_metadata r)) k = Some u" for k u
    using that merged_actuals(2) [OF v that(1) _ that(2)]
    by (auto simp: json_eq_def split: option.splits)
  have "d_broker_order_id r \<noteq> None \<longrightarrow> d_broker_order_id (applied r t now b a m) = d_broker_order_id r"
    using acked_once b by (auto simp: or_keep_def split: option.splits)
  then show ?thesis using path facts unfolding later_def by (intro conjI ballI allI impI) simp_all
qed

lemma row_of_put:
  "x \<in> set (dl_rows db) \<Longrightarrow> x \<in> set (dl_rows (put_demo r db)) \<or> d_id x = d_id r \<and> r \<in> set (dl_rows (put_demo r db))"
  by (auto simp: put_demo_def write_row_def image_iff)

text \<open>What one command does to a row: nothing, or one transition.\<close>

definition touched :: "demo_cmd \<Rightarrow> demo_row \<Rightarrow> demo_row \<Rightarrow> bool" where
  "touched c r r' \<longleftrightarrow>
     r' = r \<or>
     (\<exists>t now b a m. r' = applied r t now b a m \<and> t \<in> DEMO_ALLOWED (d_lifecycle_state r) \<and>
        (t = DSubmitted \<longleftrightarrow> b \<noteq> None) \<and> validate_fill_metadata_merge r t m = Inr () \<and>
        or_empty m = merge_of c)"

lemma touched_step:
  "demo_step c db db' \<Longrightarrow> wf_demo db \<Longrightarrow> x \<in> set (dl_rows db) \<Longrightarrow> \<exists>x' \<in> set (dl_rows db'). touched c x x'"
proof (induction rule: demo_step.induct)
  case (move db cid row t m b c now a db')
  then have row: "row \<in> set (dl_rows db)" by (simp add: found_row)
  show ?case
  proof (cases "d_id x = d_id row")
    case True
    then have "x = row" using row move.prems by (auto simp: wf_demo_def intro: same_row)
    moreover have "touched c row (applied row t now b a m)"
      unfolding touched_def using move.hyps by blast
    ultimately show ?thesis using row by (auto simp: move.hyps put_demo_def write_row_def image_iff)
  next
    case False
    then show ?thesis
      using row_of_put [OF move.prems(2), of "applied row t now b a m"] move.hyps
      by (auto simp: touched_def)
  qed
qed (auto simp: touched_def)

lemma run_rows:
  assumes "wf_demo db" and "x \<in> set (dl_rows db)"
    and refl: "\<And>r. R r r" and trans: "\<And>r r' r''. R r r' \<Longrightarrow> R r' r'' \<Longrightarrow> R r r''"
    and touch: "\<And>c r r'. c \<in> set cs \<Longrightarrow> evidence r \<Longrightarrow> touched c r r' \<Longrightarrow> R r r'"
  shows "\<exists>x' \<in> set (dl_rows (demo_run cs db)). R x x'"
  using assms(1,2) touch
proof (induction cs arbitrary: db x)
  case Nil
  then show ?case using refl by auto
next
  case (Cons c cs)
  obtain y where y: "y \<in> set (dl_rows (demo_commit c db))" "touched c x y"
    using touched_step [OF commit_step Cons.prems(1,2)] by blast
  have "evidence x" using Cons.prems(1,2) by (simp add: wf_demo_def)
  then have "R x y" using Cons.prems(3) [of c] y(2) by simp
  moreover have "\<exists>x' \<in> set (dl_rows (demo_run cs (demo_commit c db))). R y x'"
  proof (rule Cons.IH [OF wf_commit [OF Cons.prems(1)] y(1)])
    show "R r r'" if "c' \<in> set cs" "evidence r" "touched c' r r'" for c' r r'
      using Cons.prems(3) [of c' r r'] that by simp
  qed
  ultimately show ?case using trans by auto
qed

lemma later_touched: "evidence r \<Longrightarrow> touched c r r' \<Longrightarrow> later r r'"
  unfolding touched_def by (auto intro: later_refl later_applied)

lemma later_run:
  "wf_demo db \<Longrightarrow> x \<in> set (dl_rows db) \<Longrightarrow> \<exists>x' \<in> set (dl_rows (demo_run cs db)). later x x'"
  using run_rows [of db x later cs] later_refl later_trans later_touched by blast

lemma identity_run:
  assumes "wf_demo db" and "x \<in> set (dl_rows db)"
    and "\<And>c. c \<in> set cs \<Longrightarrow> dict_get (merge_of c) PAPER_EXECUTION_IDENTITY_KEY = None"
  shows "\<exists>x' \<in> set (dl_rows (demo_run cs db)). terms x' = terms x \<and> identity_of x' = identity_of x"
proof (rule run_rows [OF assms(1,2)])
  show "terms r' = terms r \<and> identity_of r' = identity_of r"
    if "c \<in> set cs" "evidence r" "touched c r r'" for c r r'
    using that(3) assms(3) [OF that(1)] by (auto simp: touched_def identity_of_def)
qed simp_all

section \<open>Open roots\<close>

text \<open>
  The steps that open a root without a reservation: a root planned directly, and an anomaly recorded
  on a root that had freed its slot.
\<close>

fun unreserved :: "demo_cmd \<Rightarrow> demo_db \<Rightarrow> bool" where
  "unreserved (RecordPlanned q None) db = True"
| "unreserved (RecordAnomaly cid reason t m) db =
     (case get_by_client_order_id db cid of
        None \<Rightarrow> False
      | Some r \<Rightarrow> is_root r \<and> d_lifecycle_state r \<in> {Closed, DCancelled})"
| "unreserved _ db = False"

primrec unreserved_steps :: "demo_cmd list \<Rightarrow> demo_db \<Rightarrow> int" where
  "unreserved_steps [] db = 0"
| "unreserved_steps (c # cs) db =
     (if unreserved c db then 1 else 0) + unreserved_steps cs (demo_commit c db)"

lemma count_write_row:
  assumes "distinct (map d_id rows)" and "row \<in> set rows" and "d_id r = d_id row"
  shows "length (filter P (write_row d_id r rows)) + (if P row then 1 else 0) =
         length (filter P rows) + (if P r then 1 else 0)"
  using assms
proof (induction rows)
  case Nil
  then show ?case by simp
next
  case (Cons x rows)
  show ?case
  proof (cases "d_id x = d_id r")
    case True
    then have "x = row" using Cons.prems by (auto simp: image_iff)
    moreover have "write_row d_id r rows = rows" using Cons.prems(1) True by (intro write_row_absent) auto
    ultimately show ?thesis using True by (simp add: write_row_def)
  next
    case False
    then have "row \<in> set rows" using Cons.prems by auto
    then show ?thesis using Cons False by (simp add: write_row_def)
  qed
qed

lemma reopening:
  "t \<in> DEMO_ALLOWED s \<Longrightarrow> t \<in> BLOCKING_ROOT_LIFECYCLE_STATES \<Longrightarrow>
   s \<in> BLOCKING_ROOT_LIFECYCLE_STATES \<or> (t = Anomaly \<and> s \<in> {Closed, DCancelled})"
  by (cases s) (auto simp: BLOCKING_ROOT_LIFECYCLE_STATES_def)

lemma count_step:
  assumes "demo_step c db db'" and "wf_demo db"
    and "\<And>q i n. c = ReserveRoot q i n \<Longrightarrow> n \<le> cap"
  shows "count_open_root_lifecycles db' \<le>
    max cap (count_open_root_lifecycles db) + (if unreserved c db then 1 else 0)"
  using assms
proof (induction rule: demo_step.induct)
  case (quiet db' db c)
  then show ?case by (auto simp: count_open_root_lifecycles_def open_roots_def max_def)
next
  case (plan q parent meta db r c db')
  have n: "count_open_root_lifecycles db' \<le> count_open_root_lifecycles db + (if is_root r then 1 else 0)"
    using plan.hyps by (simp add: count_open_root_lifecycles_def open_roots_def is_open_root_def)
  show ?case
  proof (cases "c = RecordPlanned q parent")
    case True
    then show ?thesis
      using n planned_row_columns(3) [OF plan.hyps(1)] by (cases parent) (simp_all add: is_root_def)
  next
    case False
    then obtain identity k where "c = ReserveRoot q identity k" "count_open_root_lifecycles db < k"
      using plan.hyps(4) by blast
    then show ?thesis using n plan.prems(2) by (fastforce split: if_splits)
  qed
next
  case (move db cid row t m b c now a db')
  let ?r = "applied row t now b a m"
  have row: "row \<in> set (dl_rows db)" using move.hyps(1) by (simp add: found_row)
  have "is_open_root row \<or> unreserved c db" if "is_open_root ?r"
  proof (cases "d_lifecycle_state row \<in> BLOCKING_ROOT_LIFECYCLE_STATES")
    case True
    then show ?thesis using that by (simp add: is_open_root_def)
  next
    case False
    then have "t = Anomaly \<and> d_lifecycle_state row \<in> {Closed, DCancelled}"
      using reopening [OF move.hyps(2)] that by (simp add: is_open_root_def)
    then show ?thesis using move.hyps(1,6) that by (auto simp: is_open_root_def)
  qed
  then show ?case
    using count_write_row [of "dl_rows db" row ?r is_open_root] row move.prems(1) move.hyps(8)
    by (auto simp: wf_demo_def count_open_root_lifecycles_def open_roots_def demo_table.rows_put split: if_splits)
qed

lemma count_run:
  assumes "wf_demo db" and "\<And>q i n. ReserveRoot q i n \<in> set cs \<Longrightarrow> n \<le> cap"
  shows "count_open_root_lifecycles (demo_run cs db) \<le>
    max cap (count_open_root_lifecycles db) + unreserved_steps cs db"
  using assms
proof (induction cs arbitrary: db)
  case Nil
  then show ?case by simp
next
  case (Cons c cs)
  have "count_open_root_lifecycles (demo_commit c db) \<le>
      max cap (count_open_root_lifecycles db) + (if unreserved c db then 1 else 0)"
  proof (rule count_step [OF commit_step Cons.prems(1)])
    show "n \<le> cap" if "c = ReserveRoot q i n" for q i n
      using Cons.prems(2) [of q i n] that by simp
  qed
  moreover have "count_open_root_lifecycles (demo_run cs (demo_commit c db)) \<le>
      max cap (count_open_root_lifecycles (demo_commit c db)) + unreserved_steps cs (demo_commit c db)"
  proof (rule Cons.IH [OF wf_commit [OF Cons.prems(1)]])
    show "n \<le> cap" if "ReserveRoot q i n \<in> set cs" for q i n
      using Cons.prems(2) [of q i n] that by simp
  qed
  ultimately show ?case by (auto simp: max_def split: if_splits)
qed

text \<open>The index behind a reservation never has to act: the check before the insert decides.\<close>

lemma reservation_decided_before_insert:
  assumes "wf_demo db"
  shows "reserve_root_planned q identity cap db \<noteq> Inr (db', slot_taken ''unique_conflict'')"
proof
  assume "reserve_root_planned q identity cap db = Inr (db', slot_taken ''unique_conflict'')"
  then have r: "\<not> has_open_root_lifecycle_for_instrument db (pl_product q) (pl_instrument_id q)"
    "insert_root q identity db = Inr (db', slot_taken ''unique_conflict'')"
    by (auto simp: reserve_root_planned_def repo_reserve_root_planned_def bindR_eq_Inr slot_taken_def
        known_replay_def replay_def split: option.splits if_splits)
  then obtain x where x: "planned_row q None (or_none (stored_metadata (pl_extra_metadata q) identity)) db = Inr x"
    "violated db x = Some UqOpenRoot"
    by (auto simp: insert_root_cases slot_taken_def)
  then have "\<exists>y \<in> set (dl_rows db). is_open_root y \<and> slot y = slot x"
    by (auto simp: violated_def other_rows_def split: if_splits)
  then show False
    using r(1) planned_row_columns(7) [OF x(1)]
    by (auto simp: has_open_root_lifecycle_for_instrument_def open_roots_def filter_empty_conv)
qed

section \<open>Repeated reservations\<close>

lemma reserved_row:
  assumes "reserve_root_planned q (Some i) cap db = Inr (db', a)" and "rs_status a = Reserved"
  shows "\<exists>r. rs_row a = Some r \<and> r \<in> set (dl_rows db') \<and> d_client_order_id r = pl_client_order_id q \<and>
    identity_of r = Some (JObj i)"
proof -
  have "insert_root q (Some i) db = Inr (db', a)"
    using assms by (auto simp: reserve_root_planned_def repo_reserve_root_planned_def bindR_eq_Inr
        known_replay_def replay_def slot_taken_def split: option.splits if_splits)
  then obtain r where r: "planned_row q None (or_none (stored_metadata (pl_extra_metadata q) (Some i))) db = Inr r"
    "db' = db\<lparr>dl_rows := dl_rows db @ [r], dl_seq := dl_seq db + 1\<rparr>" "rs_row a = Some r"
    using assms(2) by (auto simp: insert_root_cases slot_taken_def)
  then show ?thesis
    using planned_row_columns [OF r(1)] by (simp add: identity_of_def stored_metadata_def)
qed

lemma known_row_replays:
  assumes "wf_demo db" and "r \<in> set (dl_rows db)" and "identity_of r = Some (JObj i)"
    and "pl_client_order_id q = d_client_order_id r"
    and "pl_product q \<in> ALLOWED_PRODUCTS" and "reject_premature_fill_metadata (pl_extra_metadata q) = Inr ()"
  shows "reserve_root_planned q (Some j) cap db = Inr (db, replay r j) \<and> rs_row (replay r j) = Some r \<and>
    rs_status (replay r j) \<noteq> Reserved \<and> (rs_status (replay r j) = Collision \<longleftrightarrow> \<not> json_eq (JObj i) (JObj j))"
proof -
  have "get_by_client_order_id db (d_client_order_id r) = Some r"
    unfolding get_by_client_order_id_def using assms(1,2) by (intro find_unique) (auto simp: wf_demo_def)
  then have "reserve_root_planned q (Some j) cap db = Inr (db, replay r j)"
    using assms(4-6) by (simp add: reserve_root_planned_def repo_reserve_root_planned_def known_replay_def
        reject_premature_fill_metadata_def)
  then show ?thesis using assms(3) by (simp add: replay_def same_identity_def)
qed

section \<open>A sample ledger\<close>

definition demo_plan :: "string \<Rightarrow> int \<Rightarrow> plan_request" where
  "demo_plan cid i =
     \<lparr>pl_instrument_id = i, pl_product = ''spot'', pl_venue_host = ''demo-api.binance.com'',
      pl_client_order_id = cid, pl_side = ''BUY'', pl_order_type = ''LIMIT'', pl_qty = 1,
      pl_price = Some 2, pl_tp_price = None, pl_sl_price = None, pl_notional_usdt = Some 2,
      pl_notional_override_reason = None, pl_extra_metadata = None, pl_now = 5\<rparr>"

definition demo_instrument :: "int \<Rightarrow> string \<Rightarrow> crypto_instrument" where
  "demo_instrument i symbol =
     \<lparr>ci_id = i, ci_venue = ''binance'', ci_product = ''spot'', ci_venue_symbol = symbol,
      ci_base_asset = ''BTC'', ci_quote_asset = ''USDT'', ci_status = ''active''\<rparr>"

definition empty_ledger :: demo_db where
  "empty_ledger =
     \<lparr>dl_now = 1, dl_rows = [], dl_seq = 1,
      dl_instruments = [demo_instrument 7 ''BTCUSDT'', demo_instrument 8 ''ETHUSDT''], dl_instrument_seq = 9\<rparr>"

definition demo_identity :: dict where "demo_identity = [(''run'', JInt 1)]"

definition reserved_ledger :: demo_db where
  "reserved_ledger = demo_commit (ReserveRoot (demo_plan ''a'' 7) (Some demo_identity) 1) empty_ledger"

definition demo_fill_calls :: "demo_cmd list" where
  "demo_fill_calls =
     [RecordPreviewed ''a'' 6 None, RecordValidated ''a'' 7 None, RecordSubmitted ''a'' ''B1'' 8 None,
      RecordFilled ''a'' 9 (Some [(''filled_qty'', JStr ''1'')])]"

lemma pg_one: "pg_numeric 28 12 1 = Inr 1" "pg_numeric 28 12 2 = Inr 2" "pg_numeric 20 8 2 = Inr 2"
  by (simp_all add: pg_numeric_def floor_eq_iff)

definition demo_reserved_row :: demo_row where
  "demo_reserved_row =
     \<lparr>d_id = 1, d_instrument_id = 7, d_product = ''spot'', d_venue_host = ''demo-api.binance.com'',
      d_client_order_id = ''a'', d_parent_client_order_id = None, d_broker_order_id = None,
      d_side = ''BUY'', d_order_type = ''LIMIT'', d_qty = 1, d_price = Some 2, d_tp_price = None,
      d_sl_price = None, d_lifecycle_state = Planned, d_planned_at = Some 5, d_previewed_at = None,
      d_validated_at = None, d_submitted_at = None, d_filled_at = None, d_closed_at = None,
      d_cancelled_at = None, d_reconciled_at = None, d_last_reconciled_at = None,
      d_anomaly_reason = None, d_anomaly_at = None, d_notional_usdt = Some 2,
      d_notional_override_reason = None,
      d_extra_metadata = Some [(PAPER_EXECUTION_IDENTITY_KEY, JObj demo_identity)],
      d_created_at = 1, d_updated_at = 1\<rparr>"

definition demo_filled_row :: demo_row where
  "demo_filled_row = demo_reserved_row
     \<lparr>d_lifecycle_state := DFilled, d_previewed_at := Some 6, d_validated_at := Some 7,
      d_submitted_at := Some 8, d_broker_order_id := Some ''B1'', d_filled_at := Some 9, d_updated_at := 9,
      d_extra_metadata := Some [(PAPER_EXECUTION_IDENTITY_KEY, JObj demo_identity), (''filled_qty'', JStr ''1'')]\<rparr>"

lemma reserved_sample:
  "reserve_root_planned (demo_plan ''a'' 7) (Some demo_identity) 1 empty_ledger =
     Inr (empty_ledger\<lparr>dl_rows := [demo_reserved_row], dl_seq := 2\<rparr>,
       \<lparr>rs_status = Reserved, rs_row = Some demo_reserved_row, rs_reason = None\<rparr>)"
  by (simp add: reserve_root_planned_def repo_reserve_root_planned_def known_replay_def demo_plan_def
      ALLOWED_PRODUCTS_def reject_premature_fill_metadata_def IMMUTABLE_FILL_METADATA_KEYS_def dict_get_def
      get_by_client_order_id_def empty_ledger_def count_open_root_lifecycles_def open_roots_def
      has_open_root_lifecycle_for_instrument_def insert_root_def planned_row_def pg_one stored_metadata_def
      dict_set_def or_none_def insert_demo_def violated_def other_rows_def demo_instrument_def
      demo_reserved_row_def)

lemma reserved_ledger_eq: "reserved_ledger = empty_ledger\<lparr>dl_rows := [demo_reserved_row], dl_seq := 2\<rparr>"
  by (simp add: reserved_ledger_def demo_commit_def reserved_sample db_only_def)

lemma wf_empty_ledger: "wf_demo empty_ledger"
  unfolding empty_ledger_def by (rule empty_ledger_wf)

lemma wf_reserved: "wf_demo reserved_ledger"
  unfolding reserved_ledger_def by (rule wf_commit [OF wf_empty_ledger])

lemma commit_transition:
  assumes "transition cid t now b a m db = Inr (db', r)" and "demo_exec c db = db_only (transition cid t now b a m db)"
  shows "demo_commit c db = db'"
  using assms by (simp add: demo_commit_def db_only_def)

lemma filled_ledger_eq:
  "demo_run demo_fill_calls reserved_ledger = empty_ledger\<lparr>dl_rows := [demo_filled_row], dl_seq := 2\<rparr>"
  by (simp add: demo_fill_calls_def reserved_ledger_eq demo_commit_def db_only_def record_defs transition_def
      get_by_client_order_id_def demo_reserved_row_def check_demo_transition_def
      validate_fill_metadata_merge_def IMMUTABLE_FILL_METADATA_KEYS_def fill_actual_check_def dict_get_def
      update_state_def flush_demo_def violated_def other_rows_def ALLOWED_PRODUCTS_def empty_ledger_def
      demo_instrument_def put_demo_def write_row_def applied_def or_keep_def merged_def
      demo_filled_row_def PAPER_EXECUTION_IDENTITY_KEY_def AList.merge_def is_open_root_def)

section \<open>Gaps\<close>

text \<open>
  An anomaly recorded on a root that had freed its slot takes the slot again; when another root holds
  it, the raw error of the driver reaches the caller, outside any savepoint.
\<close>

lemma reopening_raises_driver_error:
  assumes r: "get_by_client_order_id db cid = Some r" "is_root r" "d_lifecycle_state r \<in> {Closed, DCancelled}"
    and ok: "violated db r = None"
    and x: "x \<in> set (dl_rows db)" "d_id x \<noteq> d_id r" "is_open_root x" "slot x = slot r"
  shows "record_anomaly cid reason t None db = Inl (DemoIntegrityError UqOpenRoot)"
proof -
  have "Anomaly \<in> DEMO_ALLOWED (d_lifecycle_state r)" using r(3) by auto
  moreover have "validate_fill_metadata_merge r Anomaly None = Inr ()"
    by (simp add: validate_merge_iff fill_actual_check_def dict_get_def)
  moreover have "violated db (applied r Anomaly t None (Some reason) None) = Some UqOpenRoot"
  proof -
    let ?r = "applied r Anomaly t None (Some reason) None"
    have same: "d_order_type ?r = d_order_type r" "d_product ?r = d_product r" "d_side ?r = d_side r"
      by (simp_all add: applied_def)
    have checks: "d_order_type r \<in> {''LIMIT'', ''MARKET''}" "d_product r \<in> ALLOWED_PRODUCTS"
      "d_side r \<in> {''BUY'', ''SELL''}" using ok by (auto simp: violated_def split: if_splits)
    have others: "other_rows db ?r = other_rows db r" by (simp add: other_rows_def)
    have unique: "\<not> (\<exists>y \<in> set (other_rows db r). d_client_order_id y = d_client_order_id r)"
      using not_violated(1) [OF ok] by blast
    have "is_open_root ?r" using r(2) by (simp add: is_open_root_def BLOCKING_ROOT_LIFECYCLE_STATES_def)
    moreover have "x \<in> set (other_rows db r)" using x by (simp add: other_rows_def)
    ultimately have "is_open_root ?r \<and> (\<exists>y \<in> set (other_rows db r). is_open_root y \<and> slot y = slot ?r)"
      using x by auto
    then show ?thesis
      unfolding violated_def others same applied_columns using checks unique by (simp only: simp_thms if_True if_False)
  qed
  ultimately show ?thesis
    using r(1) by (simp add: record_anomaly_def transition_def update_state_def flush_demo_def check_demo_transition_def)
qed

text \<open>The execution identity is not among the protected keys: a merge replaces it.\<close>

lemma identity_can_be_replaced:
  "identity_of (hd (dl_rows (demo_commit
     (RecordPreviewed ''a'' 6 (Some [(PAPER_EXECUTION_IDENTITY_KEY, JNull)])) reserved_ledger))) = Some JNull"
  by (simp add: reserved_ledger_eq demo_commit_def db_only_def record_defs transition_def
      get_by_client_order_id_def demo_reserved_row_def check_demo_transition_def
      validate_fill_metadata_merge_def IMMUTABLE_FILL_METADATA_KEYS_def fill_actual_check_def dict_get_def
      update_state_def flush_demo_def violated_def other_rows_def ALLOWED_PRODUCTS_def empty_ledger_def
      demo_instrument_def put_demo_def write_row_def applied_def or_keep_def merged_def
      PAPER_EXECUTION_IDENTITY_KEY_def AList.merge_def is_open_root_def identity_of_def)

section \<open>Properties\<close>

text \<open>
  C36: whatever calls follow, raised or not, the ledger keeps its types: row ids, client order ids and
  broker acknowledgements are unique, no two open roots share a slot, and every row carries the
  evidence of its state. In particular a filled or closed order was submitted and acknowledged.
\<close>

theorem ledger_stays_typed:
  assumes "wf_demo db"
  shows "wf_demo (demo_run cs db) \<and>
    (\<forall>r \<in> set (dl_rows (demo_run cs db)). d_lifecycle_state r \<in> {DFilled, Closed} \<longrightarrow>
       d_submitted_at r \<noteq> None \<and> d_broker_order_id r \<noteq> None \<and> d_filled_at r \<noteq> None)"
proof (intro conjI ballI impI)
  show wf: "wf_demo (demo_run cs db)" by (rule wf_run [OF assms])
  fix r assume r: "r \<in> set (dl_rows (demo_run cs db))" "d_lifecycle_state r \<in> {DFilled, Closed}"
  then have e: "evidence r" using wf by (simp add: wf_demo_def)
  with r(2) show "d_submitted_at r \<noteq> None" "d_filled_at r \<noteq> None"
    by (auto simp: evidence_def passed_def numeral_eq_Suc)
  with e show "d_broker_order_id r \<noteq> None" by (simp add: evidence_def)
qed

theorem ledger_stays_typed_witness:
  "wf_demo (demo_run demo_fill_calls reserved_ledger) \<and> demo_filled_row \<in> set (dl_rows (demo_run demo_fill_calls reserved_ledger))"
  using ledger_stays_typed [OF wf_reserved, of demo_fill_calls] by (simp add: filled_ledger_eq)

text \<open>
  C34: what the ledger recorded is final: after any further calls a row is still there with its terms,
  its broker acknowledgement and its fill actuals, and its state has moved along the transition table.
\<close>

theorem recorded_facts_are_final:
  assumes "wf_demo db" and "r \<in> set (dl_rows db)"
  shows "\<exists>r' \<in> set (dl_rows (demo_run cs db)).
    terms r' = terms r \<and>
    (\<exists>ts. path_from DEMO_ALLOWED (d_lifecycle_state r) ts \<and>
       d_lifecycle_state r' = last (d_lifecycle_state r # ts)) \<and>
    (d_broker_order_id r \<noteq> None \<longrightarrow> d_broker_order_id r' = d_broker_order_id r) \<and>
    (\<forall>k \<in> set IMMUTABLE_FILL_METADATA_KEYS. \<forall>v.
       dict_get (or_empty (d_extra_metadata r)) k = Some v \<longrightarrow>
       (\<exists>w. dict_get (or_empty (d_extra_metadata r')) k = Some w \<and> json_eq v w))"
  using later_run [OF assms] unfolding later_def .

theorem recorded_facts_are_final_witness:
  "let db = demo_run demo_fill_calls reserved_ledger;
       cs = [RecordClosed ''a'' 10 (Some [(''filled_qty'', JStr ''2'')]), RecordAnomaly ''a'' ''lost'' 11 None] in
   \<exists>r' \<in> set (dl_rows (demo_run cs db)). terms r' = terms demo_filled_row \<and> d_broker_order_id r' = Some ''B1''"
  using recorded_facts_are_final [of "demo_run demo_fill_calls reserved_ledger" demo_filled_row
      "[RecordClosed ''a'' 10 (Some [(''filled_qty'', JStr ''2'')]), RecordAnomaly ''a'' ''lost'' 11 None]",
      OF wf_run [OF wf_reserved]]
  by (auto simp: filled_ledger_eq demo_filled_row_def Let_def)

text \<open>
  C35: reservations with caps up to \<open>cap\<close> never take the number of open root orders above it; only the
  steps that open a root without a reservation can, by one each. And no slot ever has two open roots.
\<close>

theorem reservations_respect_the_cap:
  assumes "wf_demo db" and "\<And>q i n. ReserveRoot q i n \<in> set cs \<Longrightarrow> n \<le> cap"
  shows "count_open_root_lifecycles (demo_run cs db) \<le>
      max cap (count_open_root_lifecycles db) + unreserved_steps cs db \<and>
    distinct (map slot (open_roots (demo_run cs db)))"
  using count_run [OF assms] wf_run [OF assms(1), of cs] by (simp add: wf_demo_def)

theorem reservations_respect_the_cap_witness:
  "let cs = [ReserveRoot (demo_plan ''a'' 7) (Some demo_identity) 1, ReserveRoot (demo_plan ''b'' 8) None 1,
             RecordPreviewed ''a'' 6 None] in
   count_open_root_lifecycles (demo_run cs empty_ledger) \<le> 1"
  using reservations_respect_the_cap [of empty_ledger
      "[ReserveRoot (demo_plan ''a'' 7) (Some demo_identity) 1, ReserveRoot (demo_plan ''b'' 8) None 1,
        RecordPreviewed ''a'' 6 None]" 1, OF wf_empty_ledger]
  by (auto simp: count_open_root_lifecycles_def open_roots_def empty_ledger_def Let_def)

text \<open>
  a reservation with an execution identity is made once. As long as no later call overwrites the
  identity, the same client order id is never reserved again: the ledger stays as it is and answers
  with the row it has, as a replay or in progress for the same identity, as a collision for another.
\<close>

theorem reservation_is_made_once:
  assumes "wf_demo db" and "reserve_root_planned q (Some i) cap db = Inr (db1, first)"
    and "rs_status first = Reserved"
    and "\<And>c. c \<in> set cs \<Longrightarrow> dict_get (merge_of c) PAPER_EXECUTION_IDENTITY_KEY = None"
  shows "\<exists>again row row'. reserve_root_planned q (Some j) cap' (demo_run cs db1) = Inr (demo_run cs db1, again) \<and>
    rs_row first = Some row \<and> rs_row again = Some row' \<and> terms row' = terms row \<and>
    rs_status again \<noteq> Reserved \<and> (rs_status again = Collision \<longleftrightarrow> \<not> json_eq (JObj i) (JObj j))"
proof -
  have wf: "wf_demo db1" by (rule wf_step [OF reserve_step [OF assms(2)] assms(1)])
  obtain row where row: "rs_row first = Some row" "row \<in> set (dl_rows db1)"
    "d_client_order_id row = pl_client_order_id q" "identity_of row = Some (JObj i)"
    using reserved_row [OF assms(2,3)] by blast
  obtain row' where row': "row' \<in> set (dl_rows (demo_run cs db1))" "terms row' = terms row"
    "identity_of row' = Some (JObj i)"
    using identity_run [OF wf row(2) assms(4)] row(4) by auto
  have "pl_product q \<in> ALLOWED_PRODUCTS" "reject_premature_fill_metadata (pl_extra_metadata q) = Inr ()"
    using assms(2) by (auto simp: reserve_root_planned_def bindR_eq_Inr)
  then show ?thesis
    using known_row_replays [OF wf_run [OF wf] row'(1,3), of q j cap'] terms_eqD(3) [OF row'(2)] row(1,3) row'(2)
    by auto
qed

theorem reservation_is_made_once_witness:
  "\<exists>again row'. reserve_root_planned (demo_plan ''a'' 7) (Some demo_identity) 5 (demo_run demo_fill_calls reserved_ledger) =
      Inr (demo_run demo_fill_calls reserved_ledger, again) \<and>
    rs_row again = Some row' \<and> terms row' = terms demo_reserved_row \<and> rs_status again \<notin> {Reserved, Collision}"
proof -
  have p: "c \<in> set demo_fill_calls \<Longrightarrow> dict_get (merge_of c) PAPER_EXECUTION_IDENTITY_KEY = None" for c
    by (auto simp: demo_fill_calls_def dict_get_def PAPER_EXECUTION_IDENTITY_KEY_def)
  show ?thesis
    using reservation_is_made_once [OF wf_empty_ledger reserved_sample _ p, of demo_fill_calls demo_identity 5]
    by (auto simp: json_eq_def simp flip: reserved_ledger_eq)
qed

end
