(* ===== verification/DecimalContext.thy ===== *)
theory DecimalContext
  imports PyDecimal
begin

text \<open>
  Python's default decimal context on values: 28 significant digits, rounded half to even, and the columns
  \<open>NUMERIC(20, 8)\<close> of PostgreSQL, whose values it keeps exactly.
\<close>

section \<open>The decimal context\<close>

fun ndigits :: "nat \<Rightarrow> nat" where
  "ndigits n = (if n < 10 then 1 else Suc (ndigits (n div 10)))"

declare ndigits.simps [simp del]

text \<open>The exponent of the leading digit: \<open>10 ^ e \<le> |x| < 10 ^ (e + 1)\<close>.\<close>

definition leading_exponent :: "rat \<Rightarrow> int" where
  "leading_exponent x =
     (if 1 \<le> \<bar>x\<bar> then int (ndigits (nat \<lfloor>\<bar>x\<bar>\<rfloor>)) - 1
      else - int (ndigits (nat (\<lceil>1 / \<bar>x\<bar>\<rceil> - 1))))"

definition half_even :: "rat \<Rightarrow> int" where
  "half_even y =
     (let f = \<lfloor>y\<rfloor>; d = y - of_int f in
      if d < 1 / 2 then f else if 1 / 2 < d then f + 1 else if even f then f else f + 1)"

definition dec28 :: "rat \<Rightarrow> rat" where
  "dec28 x =
     (if x = 0 then 0
      else let scale = (10 :: rat) powi (27 - leading_exponent x) in of_int (half_even (x * scale)) / scale)"

section \<open>Exact results\<close>

lemma ndigits_step: "n < 10 \<Longrightarrow> ndigits n = 1" "10 \<le> n \<Longrightarrow> ndigits n = Suc (ndigits (n div 10))"
  by (simp_all add: ndigits.simps [of n])

lemma dec28_zero [simp]: "dec28 0 = 0"
  by (simp add: dec28_def)

lemma half_even_of_int [simp]: "half_even (of_int n) = n"
  by (simp add: half_even_def Let_def)

lemma dec28_exact: "27 - leading_exponent x = int k \<Longrightarrow> x * 10 ^ k = of_int n \<Longrightarrow> dec28 x = x"
proof -
  assume "27 - leading_exponent x = int k" and n: "x * 10 ^ k = of_int n"
  then have "(10 :: rat) powi (27 - leading_exponent x) = 10 ^ k" by simp
  moreover have "of_int n / 10 ^ k = x" using n by (simp add: field_simps)
  ultimately show "dec28 x = x" using n by (simp add: dec28_def Let_def)
qed

lemma ndigits_bound: "0 < k \<Longrightarrow> n < 10 ^ k \<Longrightarrow> ndigits n \<le> k"
proof (induction k arbitrary: n)
  case (Suc k)
  show ?case
  proof (cases "n < 10")
    case True
    then show ?thesis by (simp add: ndigits_step)
  next
    case False
    then have "0 < k" using Suc.prems(2) by (cases k) auto
    moreover have "n div 10 < 10 ^ k" using Suc.prems(2) by (simp add: less_mult_imp_div_less mult.commute)
    ultimately show ?thesis using Suc.IH False by (simp add: ndigits_step)
  qed
qed simp

lemma leading_exponent_bound:
  assumes "\<bar>x\<bar> < 10 ^ k" and "0 < k"
  shows "leading_exponent x < int k"
proof (cases "1 \<le> \<bar>x\<bar>")
  case True
  have "\<lfloor>\<bar>x\<bar>\<rfloor> < 10 ^ k" using assms(1) by (simp add: floor_less_iff)
  then have "nat \<lfloor>\<bar>x\<bar>\<rfloor> < 10 ^ k" using True by (simp add: nat_less_iff)
  then have "ndigits (nat \<lfloor>\<bar>x\<bar>\<rfloor>) \<le> k" by (rule ndigits_bound [OF assms(2)])
  then show ?thesis using True by (simp add: leading_exponent_def)
next
  case False
  then show ?thesis using assms(2) by (simp add: leading_exponent_def)
qed

text \<open>The values of a column with \<open>scale\<close> decimal places.\<close>

definition on_scale :: "nat \<Rightarrow> rat \<Rightarrow> bool" where
  "on_scale scale x \<longleftrightarrow> x * 10 ^ scale \<in> \<int>"

lemma on_scale_add [intro]: "on_scale n x \<Longrightarrow> on_scale n y \<Longrightarrow> on_scale n (x + y)"
  and on_scale_diff [intro]: "on_scale n x \<Longrightarrow> on_scale n y \<Longrightarrow> on_scale n (x - y)"
  and on_scale_minus [intro]: "on_scale n x \<Longrightarrow> on_scale n (- x)"
  and on_scale_zero [simp]: "on_scale n 0"
  by (auto simp: on_scale_def distrib_right left_diff_distrib)

lemma on_scale_sum_list: "(\<And>x. x \<in> set xs \<Longrightarrow> on_scale n (f x)) \<Longrightarrow> on_scale n (\<Sum>x\<leftarrow>xs. f x)"
  by (induction xs) auto

lemma dec28_on_scale:
  assumes "on_scale scale x" and "\<bar>x\<bar> < 10 ^ (28 - scale)" and "scale < 28"
  shows "dec28 x = x"
proof -
  have e: "leading_exponent x < int (28 - scale)" by (rule leading_exponent_bound [OF assms(2)]) (use assms(3) in simp)
  define k where "k = nat (27 - leading_exponent x)"
  have k: "27 - leading_exponent x = int k" "scale \<le> k" using e assms(3) by (auto simp: k_def)
  obtain m where m: "x * 10 ^ scale = of_int m" using assms(1) by (auto simp: on_scale_def elim: Ints_cases)
  have "x * 10 ^ k = of_int (m * 10 ^ (k - scale))"
    using m k(2) by (metis (no_types, lifting) le_add_diff_inverse mult.assoc of_int_mult of_int_numeral of_int_power power_add)
  then show ?thesis by (rule dec28_exact [OF k(1)])
qed

section \<open>Columns\<close>

text \<open>A column \<open>NUMERIC(precision, scale)\<close>: PostgreSQL rounds half away from zero; \<open>None\<close> is its overflow.\<close>

definition pg_round :: "nat \<Rightarrow> nat \<Rightarrow> rat \<Rightarrow> rat option" where
  "pg_round precision scale x =
     (let n = \<lfloor>\<bar>x\<bar> * 10 ^ scale + 1 / 2\<rfloor> in
      if n < 10 ^ precision then Some (sgn x * of_int n / 10 ^ scale) else None)"

lemma pg_round_on_scale:
  assumes "pg_round precision scale x = Some y"
  shows "on_scale scale y"
proof -
  have y: "y = sgn x * of_int \<lfloor>\<bar>x\<bar> * 10 ^ scale + 1 / 2\<rfloor> / 10 ^ scale"
    using assms by (simp add: pg_round_def Let_def split: if_splits)
  have "sgn x \<in> \<int>" by (simp add: sgn_if)
  then show ?thesis unfolding y on_scale_def by simp
qed

lemma pg_round_again:
  assumes "pg_round precision scale x = Some y"
  shows "pg_round precision scale y = Some y"
proof -
  let ?n = "\<lfloor>\<bar>x\<bar> * 10 ^ scale + 1 / 2\<rfloor>"
  have n: "?n < 10 ^ precision" and y: "y = sgn x * of_int ?n / 10 ^ scale"
    using assms by (auto simp: pg_round_def Let_def split: if_splits)
  have pos: "0 \<le> ?n" by (simp add: zero_le_floor)
  have y_abs: "\<bar>y\<bar> * 10 ^ scale = of_int ?n"
  proof (cases "x = 0")
    case True
    have "\<lfloor>1 / 2 :: rat\<rfloor> = 0" by (rule floor_unique) simp_all
    then show ?thesis using True by (simp add: y)
  next
    case False
    then have "\<bar>sgn x\<bar> = 1" by (simp add: sgn_if)
    moreover have "\<bar>of_int ?n :: rat\<bar> = of_int ?n" using pos by simp
    ultimately show ?thesis unfolding y by (simp only: abs_mult abs_divide) simp
  qed
  have fl: "\<lfloor>of_int ?n + 1 / 2 :: rat\<rfloor> = ?n" by (rule floor_unique) simp_all
  have "sgn y * of_int ?n / 10 ^ scale = y" unfolding y_abs [symmetric] by (simp add: sgn_mult_abs)
  then show ?thesis using n unfolding pg_round_def Let_def y_abs fl by simp
qed

lemma pg_round_exact:
  assumes "on_scale scale x" and "pg_round precision scale x = Some y"
  shows "y = x"
proof -
  obtain m where m: "x * 10 ^ scale = of_int m" using assms(1) by (auto simp: on_scale_def elim: Ints_cases)
  have "\<bar>x\<bar> * 10 ^ scale = \<bar>x * 10 ^ scale\<bar>" by (simp add: abs_mult)
  then have a: "\<bar>x\<bar> * 10 ^ scale = of_int \<bar>m\<bar>" by (simp add: m)
  have "\<lfloor>of_int \<bar>m\<bar> + 1 / 2 :: rat\<rfloor> = \<bar>m\<bar>" by (rule floor_unique) simp_all
  then have "y = sgn x * of_int \<bar>m\<bar> / 10 ^ scale"
    using assms(2) unfolding a [symmetric] by (simp add: pg_round_def Let_def a split: if_splits)
  also have "\<dots> = sgn x * \<bar>x\<bar>" unfolding a [symmetric] by simp
  also have "\<dots> = x" by (simp add: sgn_mult_abs)
  finally show ?thesis .
qed

end
