(* ===== verification/AutoApprove.thy ===== *)
theory AutoApprove
  imports Revalidation DecimalContext
begin

text \<open>
  The eligibility policy of the automatic path (\<open>order_proposals/auto_approve.py\<close>): one freshly
  previewed rung against the limits of its market. Decimal arithmetic is that of
  \<open>DecimalContext\<close>. The policy file is the argument \<open>policy\<close>.
\<close>

section \<open>Limits and decisions\<close>

record auto_approve_limits =
  al_min_distance_pct :: rat
  al_per_order_cap :: rat
  al_daily_cap :: rat
  al_policy_version :: string

definition POLICY_MARKET :: "(string \<times> string) list" where
  "POLICY_MARKET = [(''equity_kr'', ''kr''), (''equity_us'', ''us''), (''crypto'', ''crypto'')]"

definition VETO_CAPABLE_ACCOUNT_MARKETS :: "(string \<times> string) set" where
  "VETO_CAPABLE_ACCOUNT_MARKETS =
     {(''kis_live'', ''equity_kr''), (''kis_live'', ''equity_us''), (''upbit'', ''crypto'')}"

definition limits_for_market :: "(string \<Rightarrow> auto_approve_limits) \<Rightarrow> string \<Rightarrow> auto_approve_limits option" where
  "limits_for_market policy market = map_option policy (map_of POLICY_MARKET market)"

text \<open>
  The details of a decision: texts, and the decimals that \<open>_text\<close> prints in full, kept as numbers.
\<close>

datatype auto_detail = AutoText string | AutoNumber rat

record auto_decision =
  ad_eligible :: bool
  ad_reason :: string
  ad_details :: "(string \<times> auto_detail) list"

definition auto_reject :: "auto_approve_limits \<Rightarrow> string \<Rightarrow> (string \<times> auto_detail) list \<Rightarrow> auto_decision" where
  "auto_reject limits reason details =
     \<lparr>ad_eligible = False, ad_reason = reason,
      ad_details = (''policy_version'', AutoText (al_policy_version limits)) # details\<rparr>"

definition auto_accept ::
  "auto_approve_limits \<Rightarrow> rat \<Rightarrow> rat \<Rightarrow> rat \<Rightarrow> rat \<Rightarrow> rat \<Rightarrow> rat \<Rightarrow> string \<Rightarrow> auto_decision" where
  "auto_accept limits current price distance notional daily daily_after loss_guard =
     \<lparr>ad_eligible = True, ad_reason = ''eligible'',
      ad_details =
        [(''policy_version'', AutoText (al_policy_version limits)),
         (''current_price'', AutoNumber current), (''limit_price'', AutoNumber price),
         (''distance_pct'', AutoNumber distance),
         (''min_distance_pct'', AutoNumber (al_min_distance_pct limits)),
         (''notional'', AutoNumber notional), (''daily_notional_before'', AutoNumber daily),
         (''daily_notional_after'', AutoNumber daily_after),
         (''per_order_cap'', AutoNumber (al_per_order_cap limits)),
         (''daily_cap'', AutoNumber (al_daily_cap limits)), (''loss_guard'', AutoText loss_guard)]\<rparr>"

section \<open>Eligibility\<close>

text \<open>
  The price of the preview is its \<open>current_price\<close> as far as it parses to a finite decimal. The
  columns of a rung always do.
\<close>

definition distance_decision ::
  "auto_approve_limits \<Rightarrow> string \<Rightarrow> rat \<Rightarrow> rat \<Rightarrow> rat \<Rightarrow> rat \<Rightarrow> rat \<Rightarrow> auto_decision" where
  "distance_decision limits side current price notional daily daily_after =
     (let fraction = dec28 (al_min_distance_pct limits / 100) in
      if side = ''buy''
      then if price > dec28 (current * dec28 (1 - fraction))
           then auto_reject limits ''distance_below_minimum'' []
           else auto_accept limits current price
                  (dec28 (dec28 (dec28 (current - price) / current) * 100)) notional daily daily_after
                  ''not_applicable''
      else if side = ''sell''
      then if price < dec28 (current * dec28 (1 + fraction))
           then auto_reject limits ''distance_below_minimum'' []
           else auto_accept limits current price
                  (dec28 (dec28 (dec28 (price - current) / current) * 100)) notional daily daily_after
                  ''preview_passed''
      else auto_reject limits ''side_not_supported'' [])"

definition cap_decision ::
  "auto_approve_limits \<Rightarrow> string \<Rightarrow> rat \<Rightarrow> rat \<Rightarrow> rat \<Rightarrow> rat \<Rightarrow> auto_decision" where
  "cap_decision limits side current price quantity daily =
     (let notional = dec28 (price * quantity); daily_after = dec28 (daily + notional) in
      if notional > al_per_order_cap limits
      then auto_reject limits ''per_order_cap_exceeded''
             [(''notional'', AutoNumber notional), (''per_order_cap'', AutoNumber (al_per_order_cap limits))]
      else if daily_after > al_daily_cap limits
      then auto_reject limits ''daily_cap_exceeded''
             [(''daily_notional_after'', AutoNumber daily_after), (''daily_cap'', AutoNumber (al_daily_cap limits))]
      else distance_decision limits side current price notional daily daily_after)"

definition evaluate_auto_approve_eligibility ::
  "order_proposal \<Rightarrow> rung \<Rightarrow> preview_answer \<Rightarrow> rat option \<Rightarrow> auto_approve_limits \<Rightarrow> rat \<Rightarrow> auto_decision" where
  "evaluate_auto_approve_eligibility grp rung pv current_price limits daily =
     (if contract_action grp \<noteq> ''place'' then auto_reject limits ''action_not_place'' []
      else if g_order_type grp \<noteq> ''limit'' then auto_reject limits ''order_type_not_limit'' []
      else if g_exit_intent grp \<noteq> None then auto_reject limits ''exit_intent_present'' []
      else if (g_account_mode grp, g_market grp) \<notin> VETO_CAPABLE_ACCOUNT_MARKETS
      then auto_reject limits ''account_not_veto_capable'' []
      else if pv_success pv \<noteq> Some True then auto_reject limits ''preview_guard_failed'' []
      else case (current_price, r_limit_price rung) of
             (Some current, Some price) \<Rightarrow>
               if current \<le> 0 \<or> price \<le> 0 \<or> r_quantity rung \<le> 0
               then auto_reject limits ''price_or_quantity_missing'' []
               else cap_decision limits (r_side rung) current price (r_quantity rung) daily
           | _ \<Rightarrow> auto_reject limits ''price_or_quantity_missing'' [])"

section \<open>What eligibility means\<close>

definition far_enough :: "auto_approve_limits \<Rightarrow> string \<Rightarrow> rat \<Rightarrow> rat \<Rightarrow> bool" where
  "far_enough limits side current price \<longleftrightarrow>
     (let fraction = dec28 (al_min_distance_pct limits / 100) in
      (side = ''buy'' \<and> price \<le> dec28 (current * dec28 (1 - fraction))) \<or>
      (side = ''sell'' \<and> dec28 (current * dec28 (1 + fraction)) \<le> price))"

lemma reject_not_eligible [simp]: "\<not> ad_eligible (auto_reject limits reason details)"
  by (simp add: auto_reject_def)

lemma accept_eligible [simp]: "ad_eligible (auto_accept limits c p d n b a g)"
  by (simp add: auto_accept_def)

lemma distance_eligible:
  "ad_eligible (distance_decision limits side current price notional daily after) \<longleftrightarrow>
     far_enough limits side current price"
  by (auto simp: distance_decision_def far_enough_def Let_def)

lemma eligible_iff:
  "ad_eligible (evaluate_auto_approve_eligibility grp rung pv current_price limits daily) \<longleftrightarrow>
     contract_action grp = ''place'' \<and> g_order_type grp = ''limit'' \<and> g_exit_intent grp = None \<and>
     (g_account_mode grp, g_market grp) \<in> VETO_CAPABLE_ACCOUNT_MARKETS \<and> pv_success pv = Some True \<and>
     (\<exists>current price. current_price = Some current \<and> r_limit_price rung = Some price \<and>
        0 < current \<and> 0 < price \<and> 0 < r_quantity rung \<and>
        dec28 (price * r_quantity rung) \<le> al_per_order_cap limits \<and>
        dec28 (daily + dec28 (price * r_quantity rung)) \<le> al_daily_cap limits \<and>
        far_enough limits (r_side rung) current price)"
  by (auto simp: evaluate_auto_approve_eligibility_def cap_decision_def Let_def distance_eligible
      split: option.splits)

end
