(* ===== verification/AutoVeto.thy ===== *)
theory AutoVeto
  imports RevalidationRuns ProposalSamples
begin

text \<open>
  Cancelling what was submitted automatically (\<open>order_proposals/auto_veto.py\<close>): a cancellation is
  requested for every rung whose order may be open, and the rung converges only from the status the
  broker reports afterwards. The advisory locks on the broker orders are taken before the call.
\<close>

section \<open>The operation\<close>

text \<open>\<open>_CANCELLABLE_STATES\<close>\<close>

definition CANCELLABLE_STATES :: "rung_state set" where
  "CANCELLABLE_STATES = {Acked, Resting, PartiallyFilled, Unverified}"

datatype veto_result =
    VetoFilled
  | VetoCancelled
  | NotCancellable
  | CancelFailed "string option" "string option"

record veto_outcome =
  vo_rung_index :: int
  vo_result :: veto_result

record veto_answers =
  va_cancel :: "(string, cancel_reply) result"
  va_fetch :: target_answer

fun cancel_error :: "(string, cancel_reply) result \<Rightarrow> string option" where
  "cancel_error (Inl e) = Some e"
| "cancel_error (Inr CancelNoDict) = Some ''cancel_rejected''"
| "cancel_error (Inr (CancelAnswered False err)) = Some (if truthy err then the err else ''cancel_rejected'')"
| "cancel_error (Inr (CancelAnswered True _)) = None"

text \<open>The status read after the request; a missing snapshot fails on its attribute.\<close>

definition NO_STATUS :: string where
  "NO_STATUS = CHR 0x27 # ''NoneType'' @ CHR 0x27 # '' object has no attribute '' @ CHR 0x27 # ''status'' @ [CHR 0x27]"

fun status_after :: "target_answer \<Rightarrow> (string, string) result" where
  "status_after (Inl e) = Inl e"
| "status_after (Inr None) = Inl NO_STATUS"
| "status_after (Inr (Some snapshot)) = Inr (t_status snapshot)"

definition failed_cancel :: "veto_answers \<Rightarrow> veto_result" where
  "failed_cancel ans =
     (case status_after (va_fetch ans) of
        Inr status \<Rightarrow> CancelFailed (Some status) (cancel_error (va_cancel ans))
      | Inl e \<Rightarrow> CancelFailed None
          (Some (if truthy (cancel_error (va_cancel ans)) then the (cancel_error (va_cancel ans)) else e)))"

text \<open>
  The locks on the broker orders of the cancellable rungs; a blank order id is refused.
\<close>

definition acquire_auto_veto_locks :: "rung list \<Rightarrow> (svc_error, unit) result" where
  "acquire_auto_veto_locks rungs =
     require (\<forall>r \<in> set rungs. r_state r \<in> CANCELLABLE_STATES \<longrightarrow> truthy (r_broker_order_id r) \<longrightarrow>
                strip (the (r_broker_order_id r)) \<noteq> [])
       (ProposalError ''broker_order_id is required for mutation lock'')"

type_synonym veto_run = "(svc_error, store \<times> veto_outcome list \<times> string list) result"

text \<open>One turn: the store, the outcomes so far and the broker orders a cancellation was requested for.\<close>

definition veto_rung ::
  "order_proposal \<Rightarrow> pydatetime \<Rightarrow> (int \<Rightarrow> veto_answers) \<Rightarrow> store \<times> veto_outcome list \<times> string list
   \<Rightarrow> rung \<Rightarrow> veto_run" where
  "veto_rung grp now answers acc rung =
     (let (s, outcomes, requested) = acc; i = r_rung_index rung;
          report = (\<lambda>s' result requested'. Inr (s', outcomes @ [\<lparr>vo_rung_index = i, vo_result = result\<rparr>], requested'))
      in if r_state rung = Filled then report s VetoFilled requested
         else if r_state rung = Cancelled then report s VetoCancelled requested
         else if r_state rung \<notin> CANCELLABLE_STATES \<or> \<not> truthy (r_broker_order_id rung)
         then report s NotCancellable requested
         else let order = the (r_broker_order_id rung); ans = answers i;
                  requested' = requested @ [order] in
           (case status_after (va_fetch ans) of
              Inr status \<Rightarrow>
                if status = ''cancelled''
                then bindR (record_cancelled (g_proposal_id grp) i order now s)
                       (\<lambda>(s', _). report s' VetoCancelled requested')
                else if status = ''filled''
                then bindR (transition_rung (g_proposal_id grp) i Filled
                              (\<lambda>r. stamp (instant now) (r\<lparr>r_broker_order_id := Some order,
                                 r_filled_qty := Some (r_quantity rung), r_validated_at := Some (instant now)\<rparr>)) s)
                       (\<lambda>(s', _). report s' VetoFilled requested')
                else report s (failed_cancel ans) requested'
            | Inl e \<Rightarrow> report s (failed_cancel ans) requested'))"

definition cancel_auto_submitted_rungs ::
  "order_proposal \<Rightarrow> rung list \<Rightarrow> pydatetime \<Rightarrow> (int \<Rightarrow> veto_answers) \<Rightarrow> store \<Rightarrow> veto_run" where
  "cancel_auto_submitted_rungs grp rungs now answers s = foldR (veto_rung grp now answers) (s, [], []) rungs"

section \<open>Every turn succeeds and tells the truth\<close>

definition veto_state :: "veto_result \<Rightarrow> rung_state \<Rightarrow> rung_state" where
  "veto_state result before =
     (case result of VetoFilled \<Rightarrow> Filled | VetoCancelled \<Rightarrow> Cancelled | _ \<Rightarrow> before)"

text \<open>What one turn reports of a rung, and whether it requests a cancellation.\<close>

definition must_cancel :: "rung \<Rightarrow> bool" where
  "must_cancel rung \<longleftrightarrow> r_state rung \<in> CANCELLABLE_STATES \<and> truthy (r_broker_order_id rung)"

definition veto_verdict :: "rung \<Rightarrow> veto_answers \<Rightarrow> veto_result" where
  "veto_verdict rung ans =
     (if r_state rung = Filled then VetoFilled
      else if r_state rung = Cancelled then VetoCancelled
      else if \<not> must_cancel rung then NotCancellable
      else case status_after (va_fetch ans) of
             Inr status \<Rightarrow>
               if status = ''cancelled'' then VetoCancelled
               else if status = ''filled'' then VetoFilled else failed_cancel ans
           | Inl e \<Rightarrow> failed_cancel ans)"

lemma cancellable_moves:
  "st \<in> CANCELLABLE_STATES \<Longrightarrow> Cancelled \<in> ALLOWED st \<and> Filled \<in> ALLOWED st"
  by (auto simp: CANCELLABLE_STATES_def)

lemma veto_rung_turn:
  assumes "rung_in s grp (r_rung_index rung) (r_state rung)"
  obtains s' where
    "veto_rung grp (Aware t) answers (s, outcomes, requested) rung =
       Inr (s', outcomes @ [\<lparr>vo_rung_index = r_rung_index rung, vo_result = veto_verdict rung (answers (r_rung_index rung))\<rparr>],
            requested @ (if must_cancel rung then [the (r_broker_order_id rung)] else []))"
    and "rung_in s' grp (r_rung_index rung) (veto_state (veto_verdict rung (answers (r_rung_index rung))) (r_state rung))"
    and "moves grp (r_rung_index rung) s s'"
proof (cases "must_cancel rung")
  case False
  then show thesis
    using assms moves_refl [OF rung_in_wf [OF assms]]
    by (intro that [of s]) (auto simp: veto_rung_def veto_verdict_def must_cancel_def veto_state_def Let_def)
next
  case True
  then have c: "r_state rung \<in> CANCELLABLE_STATES" "truthy (r_broker_order_id rung)"
    "r_state rung \<noteq> Filled" "r_state rung \<noteq> Cancelled"
    by (auto simp: must_cancel_def CANCELLABLE_STATES_def)
  show thesis
  proof (cases "status_after (va_fetch (answers (r_rung_index rung)))")
    case (Inl e)
    then show thesis
      using assms c True moves_refl [OF rung_in_wf [OF assms]]
      by (intro that [of s]) (auto simp: veto_rung_def veto_verdict_def veto_state_def failed_cancel_def Let_def)
  next
    case (Inr status)
    consider "status = ''cancelled''" | "status = ''filled''" | "status \<noteq> ''cancelled''" "status \<noteq> ''filled''" by blast
    then show thesis
    proof cases
      case 1
      have "writes grp (r_rung_index rung) Cancelled s
          (record_cancelled (g_proposal_id grp) (r_rung_index rung) (the (r_broker_order_id rung)) (Aware t) s)"
        unfolding record_cancelled_def
        by (simp, rule transition_writes [OF assms _ submit_audits(2)]) (use cancellable_moves [OF c(1)] in simp)
      then show thesis
        using 1 Inr c True
        by (auto simp: writes_def veto_rung_def veto_verdict_def veto_state_def Let_def intro!: that)
    next
      case 2
      have "writes grp (r_rung_index rung) Filled s
          (transition_rung (g_proposal_id grp) (r_rung_index rung) Filled
             (\<lambda>r. stamp t (r\<lparr>r_broker_order_id := Some (the (r_broker_order_id rung)),
                r_filled_qty := Some (r_quantity rung), r_validated_at := Some t\<rparr>)) s)"
        by (rule transition_writes [OF assms]) (use cancellable_moves [OF c(1)] in \<open>simp_all add: audit_frame_def stamp_def rung_payload_def\<close>)
      then show thesis
        using 2 Inr c True
        by (auto simp: writes_def veto_rung_def veto_verdict_def veto_state_def Let_def intro!: that)
    next
      case 3
      then show thesis
        using assms c True Inr moves_refl [OF rung_in_wf [OF assms]]
        by (intro that [of s]) (auto simp: veto_rung_def veto_verdict_def veto_state_def failed_cancel_def Let_def)
    qed
  qed
qed

lemma veto_run:
  assumes "wf_store s" and "\<And>r. r \<in> set rungs \<Longrightarrow> rung_in s grp (r_rung_index r) (r_state r)"
    and "distinct (map r_rung_index rungs)"
  shows "\<exists>s'. foldR (veto_rung grp (Aware t) answers) (s, outcomes, requested) rungs =
      Inr (s', outcomes @ map (\<lambda>r. \<lparr>vo_rung_index = r_rung_index r, vo_result = veto_verdict r (answers (r_rung_index r))\<rparr>) rungs,
           requested @ map (\<lambda>r. the (r_broker_order_id r)) (filter must_cancel rungs)) \<and>
    evolves {} s s' \<and>
    (\<forall>r \<in> set rungs. rung_in s' grp (r_rung_index r) (veto_state (veto_verdict r (answers (r_rung_index r))) (r_state r))) \<and>
    (\<forall>j st. j \<notin> r_rung_index ` set rungs \<longrightarrow> rung_in s grp j st \<longrightarrow> rung_in s' grp j st)"
  using assms
proof (induction rungs arbitrary: s outcomes requested)
  case Nil
  then show ?case using moves_refl [of s grp] by (auto simp: moves_def)
next
  case (Cons r rungs)
  obtain s1 where s1: "veto_rung grp (Aware t) answers (s, outcomes, requested) r =
       Inr (s1, outcomes @ [\<lparr>vo_rung_index = r_rung_index r, vo_result = veto_verdict r (answers (r_rung_index r))\<rparr>],
            requested @ (if must_cancel r then [the (r_broker_order_id r)] else []))"
    and at_r: "rung_in s1 grp (r_rung_index r) (veto_state (veto_verdict r (answers (r_rung_index r))) (r_state r))"
    and m: "moves grp (r_rung_index r) s s1"
    using veto_rung_turn [OF Cons.prems(2) [of r], of t answers outcomes requested] by auto
  have keep: "rung_in s1 grp j st" if "j \<noteq> r_rung_index r" "rung_in s grp j st" for j st
    using m that by (auto simp: moves_def)
  have rest: "rung_in s1 grp (r_rung_index x) (r_state x)" if "x \<in> set rungs" for x
  proof (rule keep)
    show "r_rung_index x \<noteq> r_rung_index r" using Cons.prems(3) that by (auto simp: image_iff)
    show "rung_in s grp (r_rung_index x) (r_state x)" using Cons.prems(2) that by simp
  qed
  have "distinct (map r_rung_index rungs)" using Cons.prems(3) by simp
  from Cons.IH [OF rung_in_wf [OF at_r] rest this, of "outcomes @ [\<lparr>vo_rung_index = r_rung_index r, vo_result = veto_verdict r (answers (r_rung_index r))\<rparr>]"
      "requested @ (if must_cancel r then [the (r_broker_order_id r)] else [])"]
  obtain s' where s': "foldR (veto_rung grp (Aware t) answers) (s, outcomes, requested) (r # rungs) =
      Inr (s', outcomes @ map (\<lambda>r. \<lparr>vo_rung_index = r_rung_index r, vo_result = veto_verdict r (answers (r_rung_index r))\<rparr>) (r # rungs),
           requested @ map (\<lambda>r. the (r_broker_order_id r)) (filter must_cancel (r # rungs)))"
    and e: "evolves {} s1 s'"
    and all: "\<forall>x \<in> set rungs. rung_in s' grp (r_rung_index x) (veto_state (veto_verdict x (answers (r_rung_index x))) (r_state x))"
    and others: "\<forall>j st. j \<notin> r_rung_index ` set rungs \<longrightarrow> rung_in s1 grp j st \<longrightarrow> rung_in s' grp j st"
    by (auto simp: s1)
  have "rung_in s' grp (r_rung_index r) (veto_state (veto_verdict r (answers (r_rung_index r))) (r_state r))"
    using others at_r Cons.prems(3) by (auto simp: image_iff)
  moreover have "evolves {} s s'" using m e evolves_trans by (auto simp: moves_def)
  ultimately show ?case using s' all others keep by auto
qed

section \<open>Property\<close>

text \<open>
  Vetoing an automatically submitted proposal never fails. A cancellation is requested for exactly
  the rungs whose order may be open, whatever the broker answered to the ones before; every rung is
  reported, and is reported cancelled or filled only if it was so already or the broker said so after
  the request; the stored state is the reported one, or the one before.
\<close>

theorem veto_follows_the_broker:
  assumes "wf_store s" and "get_proposal pid s = Inr (grp, rungs)"
  shows "\<exists>s' outcomes. cancel_auto_submitted_rungs grp rungs (Aware t) answers s =
      Inr (s', outcomes, map (\<lambda>r. the (r_broker_order_id r)) (filter must_cancel rungs)) \<and> wf_store s' \<and>
    (\<forall>r \<in> set rungs. \<exists>oc \<in> set outcomes. \<exists>r' \<in> set (list_rungs s' (g_id grp)).
       vo_rung_index oc = r_rung_index r \<and> r_rung_index r' = r_rung_index r \<and>
       r_state r' = veto_state (vo_result oc) (r_state r) \<and>
       (vo_result oc = VetoCancelled \<longrightarrow> r_state r = Cancelled \<or>
          must_cancel r \<and> status_after (va_fetch (answers (r_rung_index r))) = Inr ''cancelled'') \<and>
       (vo_result oc = VetoFilled \<longrightarrow> r_state r = Filled \<or>
          must_cancel r \<and> status_after (va_fetch (answers (r_rung_index r))) = Inr ''filled''))"
proof -
  note g = get_proposal_rows [OF assms(2)]
  have rows: "rung_in s grp (r_rung_index r) (r_state r)" if "r \<in> set rungs" for r
    using row_rung_in [OF assms(1)] g that by simp
  have "distinct (map r_rung_index rungs)" using distinct_rung_indices [OF assms(1)] g(3) by simp
  from veto_run [OF assms(1) rows this, of t answers "[]" "[]"]
  obtain s' where run: "cancel_auto_submitted_rungs grp rungs (Aware t) answers s =
      Inr (s', map (\<lambda>r. \<lparr>vo_rung_index = r_rung_index r, vo_result = veto_verdict r (answers (r_rung_index r))\<rparr>) rungs,
           map (\<lambda>r. the (r_broker_order_id r)) (filter must_cancel rungs))"
    and e: "evolves {} s s'"
    and all: "\<forall>r \<in> set rungs. rung_in s' grp (r_rung_index r) (veto_state (veto_verdict r (answers (r_rung_index r))) (r_state r))"
    by (auto simp: cancel_auto_submitted_rungs_def)
  have truth: "(veto_verdict r ans = VetoCancelled \<longrightarrow> r_state r = Cancelled \<or> must_cancel r \<and> status_after (va_fetch ans) = Inr ''cancelled'') \<and>
      (veto_verdict r ans = VetoFilled \<longrightarrow> r_state r = Filled \<or> must_cancel r \<and> status_after (va_fetch ans) = Inr ''filled'')" for r ans
    by (auto simp: veto_verdict_def failed_cancel_def split: sum.splits)
  have "\<exists>oc \<in> set (map (\<lambda>r. \<lparr>vo_rung_index = r_rung_index r, vo_result = veto_verdict r (answers (r_rung_index r))\<rparr>) rungs).
      \<exists>r' \<in> set (list_rungs s' (g_id grp)).
       vo_rung_index oc = r_rung_index r \<and> r_rung_index r' = r_rung_index r \<and>
       r_state r' = veto_state (vo_result oc) (r_state r) \<and>
       (vo_result oc = VetoCancelled \<longrightarrow> r_state r = Cancelled \<or>
          must_cancel r \<and> status_after (va_fetch (answers (r_rung_index r))) = Inr ''cancelled'') \<and>
       (vo_result oc = VetoFilled \<longrightarrow> r_state r = Filled \<or>
          must_cancel r \<and> status_after (va_fetch (answers (r_rung_index r))) = Inr ''filled'')"
    if r: "r \<in> set rungs" for r
  proof -
    obtain r' where "r' \<in> set (list_rungs s' (g_id grp))" "r_rung_index r' = r_rung_index r"
      "r_state r' = veto_state (veto_verdict r (answers (r_rung_index r))) (r_state r)"
      using all r rung_in_row by blast
    then show ?thesis using r truth [of r "answers (r_rung_index r)"]
      by (intro bexI [of _ "\<lparr>vo_rung_index = r_rung_index r, vo_result = veto_verdict r (answers (r_rung_index r))\<rparr>"]
            bexI [of _ r']) auto
  qed
  then show ?thesis using run e evolves_wf by blast
qed

definition sample_veto :: "int \<Rightarrow> veto_answers" where
  "sample_veto i = \<lparr>va_cancel = Inl ''timeout'', va_fetch = Inl ''timeout''\<rparr>"

theorem veto_follows_the_broker_witness:
  "\<exists>s' outcomes. cancel_auto_submitted_rungs sample_group (list_rungs sample_store (g_id sample_group)) (Aware 5) sample_veto sample_store =
     Inr (s', outcomes, [''b1'']) \<and> wf_store s'"
proof -
  have p: "get_proposal (g_proposal_id sample_group) sample_store = Inr (sample_group, list_rungs sample_store (g_id sample_group))"
    by (simp add: get_proposal_def get_group_by_proposal_id_def sample_store_def sample_group_def new_group_def old_group_def)
  have "list_rungs sample_store (g_id sample_group) =
      [sample_rung 1 1 0 PendingApproval None, sample_rung 2 1 1 Resting (Some ''b1'')]"
    by (simp add: list_rungs_def sample_store_def sample_group_def new_group_def sample_rung_def)
  then show ?thesis
    using veto_follows_the_broker [OF wf_sample p, of 5 sample_veto]
    by (auto simp: must_cancel_def CANCELLABLE_STATES_def sample_rung_def truthy_def)
qed

end
