(* ===== verification/Dispatch.thy ===== *)
theory Dispatch
  imports AutoApprove AutoVeto BatchService DispatchService Telegram
begin

text \<open>
  Sending a proposal for approval, or submitting it automatically (\<open>order_proposals/dispatch.py\<close>).
  A session is a function of the database; between two commits other transactions may run, which
  the argument \<open>others\<close> stands for. What is awaited (clock readings, calendars, Telegram and broker
  answers, random nonces and ids) is handed in; what is sent to Telegram is the list of texts.
  The rendering of the cards is an argument.
\<close>

datatype dispatch_error =
    DispatchService svc_error
  | DispatchText text_error
  | DispatchReceipt publication_error
  | DispatchBatch batch_error
  | FailedReceiptRequired

abbreviation svc :: "(svc_error, 'a) result \<Rightarrow> (dispatch_error, 'a) result" where
  "svc m \<equiv> map_error DispatchService m"

section \<open>Publishing\<close>

record dispatch_messages =
  dm_context :: "pytext list"
  dm_text :: pytext
  dm_payload_chars :: int

text \<open>The notifier: what its n-th call in a session raises or returns.\<close>

type_synonym notifier = "nat \<Rightarrow> (string, telegram_method_result) result"

fun any_too_long :: "pytext list \<Rightarrow> (text_error, bool) result" where
  "any_too_long [] = Inr False"
| "any_too_long (t # ts) =
     bindR (telegram_text_length t) (\<lambda>n.
       if TELEGRAM_SEND_MESSAGE_TEXT_LIMIT < n then Inr True else any_too_long ts)"

text \<open>An exception of the notifier becomes a transport failure.\<close>

definition method_reply ::
  "pytext \<Rightarrow> (string, telegram_method_result) result \<Rightarrow> (text_error, telegram_method_result) result" where
  "method_reply text reply = (case reply of
     Inr m \<Rightarrow> Inr m
   | Inl _ \<Rightarrow> bindR (telegram_text_length text) (\<lambda>n.
       Inr (telegram_method_failed n ''telegram_transport_error'' None None (Some TRANSPORT_ERROR))))"

text \<open>The contexts in order; \<open>Some\<close> publication when one fails.\<close>

fun send_contexts ::
  "notifier \<Rightarrow> int \<Rightarrow> pytext list \<Rightarrow> pytext list
   \<Rightarrow> (text_error, pytext list \<times> approval_publication option) result" where
  "send_contexts notifier payload sent [] = Inr (sent, None)"
| "send_contexts notifier payload sent (t # ts) =
     bindR (method_reply t (notifier (length sent))) (\<lambda>m.
       if \<not> tm_ok m
       then Inr (sent @ [t], Some (publication_failed payload ''approval_context_dispatch_failed'' (sent \<noteq> []) (Some m)))
       else send_contexts notifier payload (sent @ [t]) ts)"

definition publish_approval_messages ::
  "notifier \<Rightarrow> dispatch_messages \<Rightarrow> (dispatch_error, pytext list \<times> approval_publication) result" where
  "publish_approval_messages notifier messages =
     (let payload = dm_payload_chars messages in
      bindR (map_error DispatchText (any_too_long (dm_context messages @ [dm_text messages]))) (\<lambda>long.
      if long then Inr ([], publication_failed payload ''approval_payload_too_long'' False None)
      else bindR (map_error DispatchText (send_contexts notifier payload [] (dm_context messages))) (\<lambda>(sent, stop).
        case stop of
          Some p \<Rightarrow> Inr (sent, p)
        | None \<Rightarrow>
            bindR (map_error DispatchText (method_reply (dm_text messages) (notifier (length sent)))) (\<lambda>m.
              if \<not> tm_ok m
              then Inr (sent @ [dm_text messages],
                     publication_failed payload ''approval_card_dispatch_failed'' (sent \<noteq> []) (Some m))
              else bindR (map_error DispatchReceipt (publication_published payload m)) (\<lambda>p.
                     Inr (sent @ [dm_text messages], p))))))"

section \<open>Window blocks\<close>

definition boundary_at ::
  "order_proposal \<Rightarrow> string option \<Rightarrow> bool \<Rightarrow> window_reading \<Rightarrow> (svc_error, window_decision) result" where
  "boundary_at grp expected require_stamp w =
     map_error (\<lambda>_. NaiveDatetime)
       (evaluate_approval_window_boundary (wr_env w)
          (evaluate_approval_window (wr_env w) (\<lambda>_ _. wr_session w)) expected require_stamp grp
          (Aware (wr_now1 w)) (Aware (wr_now2 w)))"

definition approval_window_failure_code :: "window_decision \<Rightarrow> string" where
  "approval_window_failure_code d =
     (let evidence_detail = (case wd_evidence d of None \<Rightarrow> None | Some ev \<Rightarrow> se_detail ev);
          detail = or_text evidence_detail (wd_detail d)
      in window_code_value (wd_code d) @ ''/'' @ (if truthy detail then the detail else ''unspecified''))"

definition proposal_binding ::
  "digest_fn \<Rightarrow> order_proposal \<Rightarrow> string option \<Rightarrow> uuid \<Rightarrow> card_kind \<Rightarrow> dispatch_binding" where
  "proposal_binding h grp nonce attempt_id kind =
     build_proposal_dispatch_binding h (g_proposal_id grp) nonce attempt_id kind
       (g_approval_dispatch_membership_revision grp)"

definition record_approval_window_block ::
  "digest_fn \<Rightarrow> order_proposal \<Rightarrow> window_decision \<Rightarrow> uuid \<Rightarrow> dispatch_binding option \<Rightarrow> store
   \<Rightarrow> (svc_error, store \<times> telegram_dispatch_result) result" where
  "record_approval_window_block h grp d attempt_id binding s =
     (let resolved = (case binding of
            Some b \<Rightarrow> b
          | None \<Rightarrow> proposal_binding h grp (g_approval_nonce grp) attempt_id Manual);
          publication = publication_failed 0 (approval_window_failure_code d) False None;
          now = Aware (wd_observed_at d)
      in bindR (start_approval_dispatch h (g_proposal_id grp) attempt_id resolved now 0 0 s) (\<lambda>(s1, _).
         finish_approval_dispatch h (g_proposal_id grp) attempt_id publication None now
           (Some (wd_policy_stamp d)) s1))"

definition expire_when_expired :: "uuid \<Rightarrow> window_decision \<Rightarrow> store \<Rightarrow> (svc_error, store) result" where
  "expire_when_expired proposal_id d s =
     (if wd_code d = EXPIRED
      then bindR (expire_mutable_rungs_if_needed proposal_id (Aware (wd_observed_at d)) s) (\<lambda>(s1, _). Inr s1)
      else Inr s)"

section \<open>Sending for approval: the first transaction\<close>

text \<open>The three readings of the window; the first two do not ask for a stamp.\<close>

record send_answers =
  sa_attempt_id :: uuid
  sa_nonce :: string
  sa_window1 :: window_reading
  sa_window2 :: window_reading
  sa_window3 :: window_reading

text \<open>Ends in a recorded block, or with a nonce and a pending attempt ready to publish.\<close>

datatype preparation =
    WindowBlocked window_decision
  | ReadyToPublish dispatch_messages window_decision

type_synonym renderer = "order_proposal \<Rightarrow> rung list \<Rightarrow> dispatch_binding \<Rightarrow> dispatch_messages"

definition blocked_send ::
  "digest_fn \<Rightarrow> order_proposal \<Rightarrow> window_decision \<Rightarrow> uuid \<Rightarrow> dispatch_binding option \<Rightarrow> store
   \<Rightarrow> (svc_error, store \<times> preparation) result" where
  "blocked_send h grp d attempt_id binding s =
     bindR (record_approval_window_block h grp d attempt_id binding s) (\<lambda>(s1, _).
     bindR (expire_when_expired (g_proposal_id grp) d s1) (\<lambda>s2. Inr (s2, WindowBlocked d)))"

definition stage_card ::
  "digest_fn \<Rightarrow> renderer \<Rightarrow> uuid \<Rightarrow> bool \<Rightarrow> window_decision \<Rightarrow> send_answers \<Rightarrow> store
   \<Rightarrow> (svc_error, store \<times> preparation) result" where
  "stage_card h render proposal_id redispatch window ans s =
     bindR (set_approval_nonce proposal_id (sa_nonce ans) redispatch s) (\<lambda>s1.
     bindR (get_proposal proposal_id s1) (\<lambda>(grp, rungs).
       let binding = proposal_binding h grp (Some (sa_nonce ans)) (sa_attempt_id ans) Manual;
           messages = render grp rungs binding
       in bindR (boundary_at grp (Some (wd_policy_stamp window)) True (sa_window3 ans)) (\<lambda>send_window.
          if \<not> window_allowed send_window
          then blocked_send h grp send_window (sa_attempt_id ans) (Some binding) s1
          else bindR (start_approval_dispatch h proposal_id (sa_attempt_id ans) binding
                        (Aware (wd_observed_at send_window)) (dm_payload_chars messages)
                        (int (length (dm_context messages))) s1)
                 (\<lambda>(s2, _). Inr (s2, ReadyToPublish messages send_window)))))"

definition prepare_card ::
  "digest_fn \<Rightarrow> renderer \<Rightarrow> uuid \<Rightarrow> bool \<Rightarrow> send_answers \<Rightarrow> store \<Rightarrow> (svc_error, store \<times> preparation) result"
  where
  "prepare_card h render proposal_id redispatch ans s =
     bindR (get_proposal proposal_id s) (\<lambda>(grp, _).
     bindR (boundary_at grp None False (sa_window1 ans)) (\<lambda>w1.
       if \<not> window_allowed w1 then blocked_send h grp w1 (sa_attempt_id ans) None s
       else bindR (boundary_at grp None False (sa_window2 ans)) (\<lambda>w2.
         if \<not> window_allowed w2 then blocked_send h grp w2 (sa_attempt_id ans) None s
         else stage_card h render proposal_id redispatch w2 ans s)))"

section \<open>The batch card\<close>

text \<open>
  One reading per displayed member, the two later clock readings, the draws and the notifier of the
  batch card. The windows of the registration are its defaults: 600 s, 600 s, two members.
\<close>

record batch_answers =
  ba_draw :: batch_draw
  ba_windows :: "nat \<Rightarrow> window_reading"
  ba_final_now :: int
  ba_publish_now :: int
  ba_notifier :: notifier

type_synonym batch_renderer = "approval_batch \<Rightarrow> (order_proposal \<times> rung list) list \<Rightarrow> dispatch_binding \<Rightarrow> pytext"

type_synonym member_decisions = "(order_proposal \<times> window_decision) list"

text \<open>The first member whose window is closed, or the decisions of all.\<close>

fun member_windows ::
  "(nat \<Rightarrow> window_reading) \<Rightarrow> nat \<Rightarrow> (order_proposal \<times> rung list) list
   \<Rightarrow> (svc_error, (order_proposal \<times> window_decision) + member_decisions) result" where
  "member_windows windows i [] = Inr (Inr [])"
| "member_windows windows i ((grp, _) # ps) =
     bindR (boundary_at grp (active_policy_stamp grp None) True (windows i)) (\<lambda>d.
       if \<not> window_allowed d then Inr (Inl (grp, d))
       else bindR (member_windows windows (Suc i) ps) (\<lambda>rest.
         Inr (case rest of Inl b \<Rightarrow> Inl b | Inr ds \<Rightarrow> Inr ((grp, d) # ds))))"

fun recheck_members ::
  "int \<Rightarrow> member_decisions \<Rightarrow> (svc_error, (order_proposal \<times> window_decision) option) result" where
  "recheck_members t [] = Inr None"
| "recheck_members t ((grp, d) # ds) =
     bindR (map_error (\<lambda>_. NaiveDatetime) (recheck_approval_window_decision grp d (Aware t))) (\<lambda>final.
       if \<not> window_allowed final then Inr (Some (grp, final)) else recheck_members t ds)"

definition on_store :: "(svc_error, store) result \<Rightarrow> batch_db \<Rightarrow> (dispatch_error, batch_db) result" where
  "on_store m db = bindR (svc m) (\<lambda>s. Inr (db\<lparr>bd_store := s\<rparr>))"

definition stop_batch ::
  "uuid \<Rightarrow> order_proposal \<times> window_decision \<Rightarrow> batch_db \<Rightarrow> (dispatch_error, batch_db \<times> pytext list) result" where
  "stop_batch batch_id blocked db =
     (let (grp, d) = blocked in
      bindR (on_store (expire_when_expired (g_proposal_id grp) d (bd_store db)) db) (\<lambda>db1.
      bindR (map_error DispatchBatch (release_approval_batch_summary_claim batch_id (Aware (wd_observed_at d)) db1))
        (\<lambda>(db2, _). Inr (db2, []))))"

definition publish_batch_card ::
  "batch_renderer \<Rightarrow> approval_batch \<Rightarrow> (order_proposal \<times> rung list) list \<Rightarrow> dispatch_binding \<Rightarrow> member_decisions
   \<Rightarrow> batch_answers \<Rightarrow> (batch_db \<Rightarrow> batch_db) \<Rightarrow> batch_db \<Rightarrow> (dispatch_error, batch_db \<times> pytext list) result" where
  "publish_batch_card render_batch batch proposals binding decisions ans others db =
     (let text = render_batch batch proposals binding in
      bindR (map_error DispatchText (telegram_text_length text)) (\<lambda>n.
      bindR (map_error DispatchBatch
               (record_approval_batch_payload (bt_batch_id batch) (b_attempt_id binding) n db)) (\<lambda>(db1, _).
        let db2 = others db1 in
        bindR (svc (recheck_members (ba_publish_now ans) decisions)) (\<lambda>late.
          case late of
            Some blocked \<Rightarrow> stop_batch (bt_batch_id batch) blocked db2
          | None \<Rightarrow>
              bindR (publish_approval_messages (ba_notifier ans)
                       \<lparr>dm_context = [], dm_text = text, dm_payload_chars = n\<rparr>) (\<lambda>(sent, publication).
              bindR (map_error DispatchBatch
                       (finish_approval_batch_dispatch (bt_batch_id batch) (b_attempt_id binding) publication
                          (Aware (ba_publish_now ans)) db2)) (\<lambda>(db3, _). Inr (db3, sent)))))))"

definition register_and_publish_batch_summary ::
  "batch_digest_fn \<Rightarrow> batch_renderer \<Rightarrow> uuid \<Rightarrow> int \<Rightarrow> string \<Rightarrow> pydatetime \<Rightarrow> batch_answers
   \<Rightarrow> (nat \<Rightarrow> batch_db \<Rightarrow> batch_db) \<Rightarrow> batch_db \<Rightarrow> (dispatch_error, batch_db \<times> pytext list) result" where
  "register_and_publish_batch_summary hb render_batch proposal_id message_id chat_id now ans others db =
     bindR (map_error DispatchBatch
              (register_approval_batch_member hb proposal_id chat_id message_id now 600 600 2 (ba_draw ans) db))
       (\<lambda>(db1, registration).
       case registration of
         None \<Rightarrow> Inr (db1, [])
       | Some reg \<Rightarrow>
           if \<not> br_send reg \<or> br_binding reg = None then Inr (db1, [])
           else let db2 = others 0 db1; batch_id = bt_batch_id (br_batch reg) in
             bindR (map_error DispatchBatch (get_approval_batch_display batch_id db2)) (\<lambda>(batch, proposals).
             bindR (svc (member_windows (ba_windows ans) 0 proposals)) (\<lambda>decided.
               case decided of
                 Inl blocked \<Rightarrow> stop_batch (bt_batch_id batch) blocked db2
               | Inr decisions \<Rightarrow>
                   bindR (svc (recheck_members (ba_final_now ans) decisions)) (\<lambda>late.
                     case late of
                       Some blocked \<Rightarrow> stop_batch (bt_batch_id batch) blocked db2
                     | None \<Rightarrow> publish_batch_card render_batch batch proposals (the (br_binding reg)) decisions
                                 ans (others 1) db2))))"

section \<open>The constants of a deployment\<close>

text \<open>
  Settings, hashes, ISO-8601, the renderers of the cards, the policy file and the text of a decimal.
\<close>

record dispatch_world =
  dw_digest :: digest_fn
  dw_batch_digest :: batch_digest_fn
  dw_sha :: "string \<Rightarrow> string"
  dw_read_iso :: iso_reader
  dw_show_iso :: iso_printer
  dw_render :: renderer
  dw_render_batch :: batch_renderer
  dw_render_veto :: "order_proposal \<Rightarrow> rung list \<Rightarrow> string \<Rightarrow> dispatch_binding \<Rightarrow> pytext"
  dw_policy :: "string \<Rightarrow> auto_approve_limits"
  dw_decimal_text :: "rat \<Rightarrow> string"
  dw_auto_approve :: bool
  dw_allowlist :: "string list"

datatype dispatch_answer =
    DispatchResult telegram_dispatch_result
  | DispatchBlocked window_decision

type_synonym dispatch_run = "(dispatch_error, batch_db \<times> pytext list \<times> dispatch_answer) result"

section \<open>Sending for approval\<close>

definition record_approval_dispatch_failure ::
  "digest_fn \<Rightarrow> uuid \<Rightarrow> approval_publication \<Rightarrow> pydatetime \<Rightarrow> uuid \<Rightarrow> store
   \<Rightarrow> (dispatch_error, store \<times> telegram_dispatch_result) result" where
  "record_approval_dispatch_failure h proposal_id publication now attempt_id s =
     (if p_card_published publication then Inl FailedReceiptRequired
      else svc (bindR (get_proposal proposal_id s) (\<lambda>(grp, _).
             bindR (start_approval_dispatch h proposal_id attempt_id
                      (proposal_binding h grp (g_approval_nonce grp) attempt_id Manual) now
                      (p_payload_chars publication) 0 s) (\<lambda>(s1, _).
             finish_approval_dispatch h proposal_id attempt_id publication None now None s1))))"

record card_answers =
  ca_send :: send_answers
  ca_notifier :: notifier
  ca_batch :: batch_answers

text \<open>The second transaction: the receipt, then the batch card for an approvable proposal.\<close>

definition finish_card ::
  "dispatch_world \<Rightarrow> uuid \<Rightarrow> string \<Rightarrow> uuid \<Rightarrow> window_decision \<Rightarrow> approval_publication \<Rightarrow> pytext list
   \<Rightarrow> batch_answers \<Rightarrow> (nat \<Rightarrow> batch_db \<Rightarrow> batch_db) \<Rightarrow> batch_db \<Rightarrow> dispatch_run" where
  "finish_card w proposal_id chat_id attempt_id send_window publication sent ans others db =
     (let now = Aware (wd_observed_at send_window) in
      bindR (svc (finish_approval_dispatch (dw_digest w) proposal_id attempt_id publication (Some chat_id) now
                    (Some (wd_policy_stamp send_window)) (bd_store db))) (\<lambda>(s1, result).
        let db1 = others 1 (db\<lparr>bd_store := s1\<rparr>) in
        case d_message_id result of
          None \<Rightarrow> Inr (db1, sent, DispatchResult result)
        | Some message_id \<Rightarrow>
            if \<not> dispatch_approvable result then Inr (db1, sent, DispatchResult result)
            else bindR (register_and_publish_batch_summary (dw_batch_digest w) (dw_render_batch w) proposal_id
                          message_id chat_id now ans (\<lambda>n. others (n + 2)) db1)
                   (\<lambda>(db2, more). Inr (db2, sent @ more, DispatchResult result))))"

definition send_proposal_for_approval ::
  "dispatch_world \<Rightarrow> uuid \<Rightarrow> pydatetime \<Rightarrow> bool \<Rightarrow> card_answers \<Rightarrow> (nat \<Rightarrow> batch_db \<Rightarrow> batch_db) \<Rightarrow> batch_db
   \<Rightarrow> dispatch_run" where
  "send_proposal_for_approval w proposal_id now redispatch ans others db =
     (case dw_allowlist w of
        [] \<Rightarrow>
          bindR (record_approval_dispatch_failure (dw_digest w) proposal_id
                   (publication_failed 0 ''telegram_allowlist_empty'' False None) now
                   (sa_attempt_id (ca_send ans)) (bd_store db))
            (\<lambda>(s1, result). Inr (db\<lparr>bd_store := s1\<rparr>, [], DispatchResult result))
      | chat_id # _ \<Rightarrow>
          bindR (svc (prepare_card (dw_digest w) (dw_render w) proposal_id redispatch (ca_send ans) (bd_store db)))
            (\<lambda>(s1, prepared).
            case prepared of
              WindowBlocked d \<Rightarrow> Inr (db\<lparr>bd_store := s1\<rparr>, [], DispatchBlocked d)
            | ReadyToPublish messages send_window \<Rightarrow>
                bindR (publish_approval_messages (ca_notifier ans) messages) (\<lambda>(sent, publication).
                finish_card w proposal_id chat_id (sa_attempt_id (ca_send ans)) send_window publication sent
                  (ca_batch ans) others (others 0 (db\<lparr>bd_store := s1\<rparr>)))))"

section \<open>The notional of the day\<close>

text \<open>\<open>source_asof["auto_approved"]["approved_at"]\<close>; null unless it is a timestamp.\<close>

definition auto_approved_at :: "order_proposal \<Rightarrow> int option" where
  "auto_approved_at grp =
     (case dict_get (auto_dict grp) ''approved_at'' of Some (JTime t) \<Rightarrow> Some t | _ \<Rightarrow> None)"

text \<open>A rung without a limit price has no notional and drops out of the sum.\<close>

definition rung_notional :: "rung \<Rightarrow> rat" where
  "rung_notional r = (case r_limit_price r of None \<Rightarrow> 0 | Some p \<Rightarrow> r_quantity r * p)"

definition auto_approved_notional_between ::
  "string \<Rightarrow> string \<Rightarrow> string option \<Rightarrow> int \<Rightarrow> int \<Rightarrow> store \<Rightarrow> rat" where
  "auto_approved_notional_between account_mode market broker_account_id start_at end_at s =
     sum_list (map (\<lambda>g. sum_list (map rung_notional (filter (\<lambda>r. r_proposal_pk r = g_id g) (db_rungs s))))
       (filter (\<lambda>g. g_account_mode g = account_mode \<and> g_market g = market \<and>
                  g_broker_account_id g = broker_account_id \<and>
                  (case auto_approved_at g of None \<Rightarrow> False | Some t \<Rightarrow> start_at \<le> t \<and> t < end_at))
         (db_groups s)))"

definition auto_approved_daily_notional :: "order_proposal \<Rightarrow> pydatetime \<Rightarrow> store \<Rightarrow> (svc_error, rat) result" where
  "auto_approved_daily_notional grp now s =
     bindR (require_timezone_aware now) (\<lambda>t.
       Inr (auto_approved_notional_between (g_account_mode grp) (g_market grp) (g_broker_account_id grp)
              (kst_midnight t) (kst_midnight t + days 1) s))"

section \<open>Submitting automatically: the first transaction\<close>

text \<open>
  The answers of an automatic submission: the dispatch window, what \<open>revalidate_and_submit\<close> awaits
  per rung, and the \<open>current_price\<close> of each preview as far as it is a finite decimal.
\<close>

record auto_answers =
  au_window :: window_reading
  au_first_window :: window_reading
  au_actions :: "int \<Rightarrow> action_answers"
  au_current_price :: "int \<Rightarrow> rat option"
  au_veto_nonce :: string
  au_attempt_id :: uuid

definition gate_of :: "auto_decision \<Rightarrow> gate_answer" where
  "gate_of d = GateDecision (ad_eligible d) (ad_reason d)"

definition rung_eligibility ::
  "order_proposal \<Rightarrow> auto_approve_limits \<Rightarrow> rat \<Rightarrow> auto_answers \<Rightarrow> rung \<Rightarrow> preview_answer \<Rightarrow> auto_decision" where
  "rung_eligibility grp limits daily ans rung pv =
     evaluate_auto_approve_eligibility grp rung pv (au_current_price ans (r_rung_index rung)) limits daily"

text \<open>
  The gate closure handed to the orchestrator: it answers with the eligibility of the previewed rung.
  For a replacement or a cancellation the policy refuses by the action alone. A gated run submits one
  rung at most, so the notional of the day that the closure advances is the one read before the run.
\<close>

definition gated_answers ::
  "order_proposal \<Rightarrow> rung list \<Rightarrow> auto_approve_limits \<Rightarrow> rat \<Rightarrow> auto_answers \<Rightarrow> int \<Rightarrow> action_answers" where
  "gated_answers grp rungs limits daily ans i =
     (let a = au_actions ans i in
      case find (\<lambda>r. r_rung_index r = i) rungs of
        None \<Rightarrow> a
      | Some rung \<Rightarrow>
          a\<lparr>aa_place := (aa_place a)\<lparr>pa_gate := Some (case dry_run grp (pa_preview (aa_place a)) of
                Inl e \<Rightarrow> GateFailed e
              | Inr pv \<Rightarrow> gate_of (rung_eligibility grp limits daily ans rung pv))\<rparr>,
            aa_target := (aa_target a)\<lparr>ta_gate := Some (GateDecision False ''action_not_place'')\<rparr>\<rparr>)"

fun outcome_text :: "outcome_result \<Rightarrow> string" where
  "outcome_text SubmittedAcked = ''submitted_acked''"
| "outcome_text SubmittedResting = ''submitted_resting''"
| "outcome_text OutcomeReconfirm = ''needs_reconfirm''"
| "outcome_text GuardBlocked = ''guard_blocked''"
| "outcome_text OutcomeUnverified = ''unverified''"
| "outcome_text OutcomeError = ''error''"
| "outcome_text OutcomeCancelled = ''cancelled''"
| "outcome_text ApprovalRequired = ''approval_required''"
| "outcome_text (OutcomeWindow t) = t"

definition is_submitted :: "rung_outcome \<Rightarrow> bool" where
  "is_submitted oc \<longleftrightarrow> ro_result oc \<in> {SubmittedAcked, SubmittedResting}"

definition all_submitted :: "rung_outcome list \<Rightarrow> nat \<Rightarrow> bool" where
  "all_submitted outcomes pending_count \<longleftrightarrow>
     outcomes \<noteq> [] \<and> length outcomes = pending_count \<and> (\<forall>oc \<in> set outcomes. is_submitted oc)"

text \<open>The audit entry of one gate decision.\<close>

fun detail_json :: "(rat \<Rightarrow> string) \<Rightarrow> auto_detail \<Rightarrow> json" where
  "detail_json show_dec (AutoText t) = JStr t"
| "detail_json show_dec (AutoNumber x) = JStr (show_dec x)"

definition decision_entry :: "(rat \<Rightarrow> string) \<Rightarrow> int \<Rightarrow> auto_decision \<Rightarrow> json" where
  "decision_entry show_dec i d =
     JObj ([(''rung_index'', JInt i), (''eligible'', JBool (ad_eligible d)), (''reason'', JStr (ad_reason d))] @
           map (\<lambda>(k, v). (k, detail_json show_dec v)) (ad_details d))"

definition gate_entries ::
  "dispatch_world \<Rightarrow> order_proposal \<Rightarrow> rung list \<Rightarrow> auto_approve_limits \<Rightarrow> rat \<Rightarrow> auto_answers \<Rightarrow> json list" where
  "gate_entries w grp pending limits daily ans =
     List.map_filter (\<lambda>rung.
        case dry_run grp (pa_preview (aa_place (au_actions ans (r_rung_index rung)))) of
          Inl _ \<Rightarrow> None
        | Inr pv \<Rightarrow> Some (decision_entry (dw_decimal_text w) (r_rung_index rung)
                             (rung_eligibility grp limits daily ans rung pv))) pending"

datatype auto_step =
    AutoBlocked window_decision
  | AutoNotPending
  | AutoDeclined
  | AutoSubmitted dispatch_messages

definition stage_veto_card ::
  "dispatch_world \<Rightarrow> uuid \<Rightarrow> string \<Rightarrow> json list \<Rightarrow> rung_outcome list \<Rightarrow> pydatetime \<Rightarrow> auto_answers \<Rightarrow> store
   \<Rightarrow> (dispatch_error, store \<times> dispatch_messages) result" where
  "stage_veto_card w proposal_id policy_version entries outcomes now ans s =
     bindR (svc (record_auto_approval proposal_id policy_version entries
                   (map (\<lambda>oc. outcome_text (ro_result oc)) outcomes) now s)) (\<lambda>(s1, _).
     bindR (svc (set_approval_nonce proposal_id (au_veto_nonce ans) False s1)) (\<lambda>s2.
     bindR (svc (get_proposal proposal_id s2)) (\<lambda>(grp, rungs).
       let binding = proposal_binding (dw_digest w) grp (Some (au_veto_nonce ans)) (au_attempt_id ans) AutoVeto;
           text = dw_render_veto w grp rungs policy_version binding
       in bindR (map_error DispatchText (telegram_text_length text)) (\<lambda>n.
          bindR (svc (start_approval_dispatch (dw_digest w) proposal_id (au_attempt_id ans) binding now n 0 s2))
            (\<lambda>(s3, _). Inr (s3, \<lparr>dm_context = [], dm_text = text, dm_payload_chars = n\<rparr>))))))"

definition auto_submit ::
  "dispatch_world \<Rightarrow> uuid \<Rightarrow> order_proposal \<Rightarrow> rung list \<Rightarrow> window_decision \<Rightarrow> auto_approve_limits \<Rightarrow> pydatetime
   \<Rightarrow> auto_answers \<Rightarrow> store \<Rightarrow> (dispatch_error, store \<times> submit_event list \<times> auto_step) result" where
  "auto_submit w proposal_id grp rungs window limits now ans s =
     (let pending = filter (\<lambda>r. r_state r = PendingApproval) rungs in
      bindR (svc (auto_approved_daily_notional grp now s)) (\<lambda>daily.
      bindR (svc (revalidate_and_submit (dw_sha w) (dw_read_iso w) (dw_show_iso w) proposal_id
                    (Aware (wd_observed_at window)) (Some (wd_policy_stamp window)) True (au_first_window ans)
                    (gated_answers grp rungs limits daily ans) s)) (\<lambda>(s1, outcomes, events).
        if all_submitted outcomes (length pending)
        then bindR (stage_veto_card w proposal_id (al_policy_version limits)
                      (gate_entries w grp pending limits daily ans) outcomes now ans s1)
               (\<lambda>(s2, messages). Inr (s2, events, AutoSubmitted messages))
        else Inr (s1, events, AutoDeclined))))"

definition auto_dispatch ::
  "dispatch_world \<Rightarrow> uuid \<Rightarrow> pydatetime \<Rightarrow> auto_answers \<Rightarrow> store
   \<Rightarrow> (dispatch_error, store \<times> submit_event list \<times> auto_step) result" where
  "auto_dispatch w proposal_id now ans s =
     bindR (svc (get_proposal proposal_id s)) (\<lambda>(grp, rungs).
     bindR (svc (boundary_at grp None False (au_window ans))) (\<lambda>window.
       if \<not> window_allowed window
       then bindR (svc (expire_when_expired proposal_id window s)) (\<lambda>s1. Inr (s1, [], AutoBlocked window))
       else if \<not> (\<exists>r \<in> set rungs. r_state r = PendingApproval) then Inr (s, [], AutoNotPending)
       else case limits_for_market (dw_policy w) (g_market grp) of
              None \<Rightarrow> Inr (s, [], AutoDeclined)
            | Some limits \<Rightarrow> auto_submit w proposal_id grp rungs window limits now ans s))"

section \<open>The second transaction: the veto card and its compensation\<close>

fun veto_json :: "veto_outcome \<Rightarrow> json" where
  "veto_json oc = JObj ((''rung_index'', JInt (vo_rung_index oc)) #
     (case vo_result oc of
        VetoFilled \<Rightarrow> [(''result'', JStr ''filled'')]
      | VetoCancelled \<Rightarrow> [(''result'', JStr ''cancelled'')]
      | NotCancellable \<Rightarrow> [(''result'', JStr ''not_cancellable'')]
      | CancelFailed status error \<Rightarrow>
          [(''result'', JStr ''cancel_failed''),
           (''broker_status'', case status of None \<Rightarrow> JNull | Some t \<Rightarrow> JStr t),
           (''error'', case error of None \<Rightarrow> JNull | Some t \<Rightarrow> JStr t)]))"

definition compensate ::
  "uuid \<Rightarrow> telegram_dispatch_result \<Rightarrow> pydatetime \<Rightarrow> (int \<Rightarrow> veto_answers) \<Rightarrow> store
   \<Rightarrow> (svc_error, store \<times> string list) result" where
  "compensate proposal_id result now answers s =
     bindR (get_proposal proposal_id s) (\<lambda>(grp, rungs).
     bindR (acquire_auto_veto_locks rungs) (\<lambda>_.
     bindR (cancel_auto_submitted_rungs grp rungs now answers s) (\<lambda>(s1, outcomes, requested).
     bindR (record_auto_notification_failure proposal_id
              (if truthy (d_failure_code result) then the (d_failure_code result) else ''telegram_dispatch_failed'')
              (map veto_json outcomes) now s1) (\<lambda>(s2, _). Inr (s2, requested)))))"

definition finish_veto_card ::
  "dispatch_world \<Rightarrow> uuid \<Rightarrow> uuid \<Rightarrow> approval_publication \<Rightarrow> pydatetime \<Rightarrow> (int \<Rightarrow> veto_answers) \<Rightarrow> store
   \<Rightarrow> (svc_error, store \<times> string list \<times> telegram_dispatch_result) result" where
  "finish_veto_card w proposal_id attempt_id publication now answers s =
     bindR (finish_approval_dispatch (dw_digest w) proposal_id attempt_id publication
              (case dw_allowlist w of [] \<Rightarrow> None | chat_id # _ \<Rightarrow> Some chat_id) now None s) (\<lambda>(s1, result).
       if d_state result \<in> {DFailed, PartialFailed}
       then bindR (compensate proposal_id result now answers s1) (\<lambda>(s2, requested). Inr (s2, requested, result))
       else Inr (s1, [], result))"

definition not_pending_result :: telegram_dispatch_result where
  "not_pending_result =
     \<lparr>d_state = DFailed, d_message_id = None, d_status_code = None, d_error_code = None,
      d_error_classification = None, d_payload_chars = 0,
      d_failure_code = Some ''proposal_not_pending_approval''\<rparr>"

text \<open>
  The whole dispatch. Beside the database, the texts sent and the answer, it tells the broker mutations
  of the orchestrator and the broker orders whose cancellation was requested.
\<close>

type_synonym full_run =
  "(dispatch_error, batch_db \<times> submit_event list \<times> string list \<times> pytext list \<times> dispatch_answer) result"

definition sent_for_approval :: "submit_event list \<Rightarrow> dispatch_run \<Rightarrow> full_run" where
  "sent_for_approval events m = bindR m (\<lambda>(db, sent, answer). Inr (db, events, [], sent, answer))"

definition dispatch_proposal ::
  "dispatch_world \<Rightarrow> uuid \<Rightarrow> pydatetime \<Rightarrow> auto_answers \<Rightarrow> notifier \<Rightarrow> (int \<Rightarrow> veto_answers) \<Rightarrow> card_answers
   \<Rightarrow> (nat \<Rightarrow> batch_db \<Rightarrow> batch_db) \<Rightarrow> batch_db \<Rightarrow> full_run" where
  "dispatch_proposal w proposal_id now auto veto_notifier veto_answers cards others db =
     (if \<not> dw_auto_approve w
      then sent_for_approval [] (send_proposal_for_approval w proposal_id now False cards others db)
      else bindR (auto_dispatch w proposal_id now auto (bd_store db)) (\<lambda>(s1, events, step).
        let db1 = db\<lparr>bd_store := s1\<rparr>; later = (\<lambda>n. others (n + 1)) in
        case step of
          AutoBlocked d \<Rightarrow> Inr (db1, events, [], [], DispatchBlocked d)
        | AutoNotPending \<Rightarrow> Inr (db1, events, [], [], DispatchResult not_pending_result)
        | AutoDeclined \<Rightarrow>
            sent_for_approval events (send_proposal_for_approval w proposal_id now False cards later (others 0 db1))
        | AutoSubmitted messages \<Rightarrow>
            bindR (case dw_allowlist w of
                     [] \<Rightarrow> Inr ([], publication_failed (dm_payload_chars messages) ''telegram_allowlist_empty'' False None)
                   | _ \<Rightarrow> publish_approval_messages veto_notifier messages) (\<lambda>(sent, publication).
            let db2 = others 0 db1 in
            bindR (svc (finish_veto_card w proposal_id (au_attempt_id auto) publication now veto_answers (bd_store db2)))
              (\<lambda>(s3, requested, result).
                Inr (db2\<lparr>bd_store := s3\<rparr>, events, requested, sent, DispatchResult result)))))"

end
