(* ===== verification/DispatchSafety.thy ===== *)
theory DispatchSafety
  imports Dispatch RevalidationSafety ApprovalSafety "HOL-Library.Sublist"
begin

text \<open>
  What the dispatch of a proposal promises: a button is published after all of its context, a card
  only from a committed and open approval, an order without a click only within the policy, an
  automatic submission is always recorded, and an undelivered veto card takes the orders back.
\<close>

section \<open>Publishing\<close>

lemma any_too_long_False:
  "any_too_long ts = Inr False \<Longrightarrow> t \<in> set ts \<Longrightarrow>
     \<exists>n. telegram_text_length t = Inr n \<and> n \<le> TELEGRAM_SEND_MESSAGE_TEXT_LIMIT"
  by (induction ts) (auto simp: bindR_eq_Inr split: if_splits)

definition accepted :: "notifier \<Rightarrow> nat \<Rightarrow> bool" where
  "accepted notifier i \<longleftrightarrow> (\<exists>m. notifier i = Inr m \<and> tm_ok m)"

lemma method_reply_ok: "method_reply t r = Inr m \<Longrightarrow> tm_ok m \<Longrightarrow> r = Inr m"
  by (auto simp: method_reply_def telegram_method_failed_def bindR_eq_Inr split: sum.splits)

lemma send_contexts_result:
  assumes "send_contexts notifier payload out ts = Inr (out', stop)"
    and "\<And>i. i < length out \<Longrightarrow> accepted notifier i"
  shows "prefix out' (out @ ts) \<and>
    (case stop of
       None \<Rightarrow> out' = out @ ts \<and> (\<forall>i < length out'. accepted notifier i)
     | Some p \<Rightarrow> \<not> p_card_published p)"
  using assms
proof (induction ts arbitrary: out)
  case Nil
  then show ?case by auto
next
  case (Cons t ts)
  from Cons.prems(1) obtain m where m: "method_reply t (notifier (length out)) = Inr m"
    by (auto simp: bindR_eq_Inr)
  show ?case
  proof (cases "tm_ok m")
    case False
    then show ?thesis using Cons.prems(1) m
      by (auto simp: publication_failed_def)
  next
    case True
    then have "accepted notifier (length out)" using method_reply_ok [OF m] by (simp add: accepted_def)
    then have "\<And>i. i < length (out @ [t]) \<Longrightarrow> accepted notifier i"
      using Cons.prems(2) by (auto simp: less_Suc_eq)
    moreover have "send_contexts notifier payload (out @ [t]) ts = Inr (out', stop)"
      using Cons.prems(1) m True by simp
    ultimately show ?thesis using Cons.IH [of "out @ [t]"] by (simp split: option.splits)
  qed
qed

text \<open>
  A button is published only after every context message of its proposal: what is sent is a
  prefix of the contexts followed by the card, each within Telegram's size limit, and a receipt of a
  published card means that all of them were sent, in order, and each was accepted.
\<close>

theorem card_follows_its_context:
  assumes "publish_approval_messages notifier messages = Inr (out, publication)"
  shows "prefix out (dm_context messages @ [dm_text messages]) \<and>
    (\<forall>t \<in> set out. \<exists>n. telegram_text_length t = Inr n \<and> n \<le> TELEGRAM_SEND_MESSAGE_TEXT_LIMIT) \<and>
    (p_card_published publication \<longrightarrow>
       out = dm_context messages @ [dm_text messages] \<and> (\<forall>i < length out. accepted notifier i))"
proof -
  let ?all = "dm_context messages @ [dm_text messages]"
  from assms obtain long where long: "any_too_long ?all = Inr long"
    by (auto simp: publish_approval_messages_def Let_def bindR_eq_Inr)
  show ?thesis
  proof (cases long)
    case True
    then show ?thesis using assms long by (auto simp: publish_approval_messages_def publication_failed_def)
  next
    case False
    then have fits: "\<forall>t \<in> set ?all. \<exists>n. telegram_text_length t = Inr n \<and> n \<le> TELEGRAM_SEND_MESSAGE_TEXT_LIMIT"
      using any_too_long_False [of ?all] long by auto
    from assms long False obtain ctx stop where
      ctx: "send_contexts notifier (dm_payload_chars messages) [] (dm_context messages) = Inr (ctx, stop)"
      by (auto simp: publish_approval_messages_def Let_def bindR_eq_Inr)
    note c = send_contexts_result [OF ctx, simplified]
    have "prefix out ?all \<and> (p_card_published publication \<longrightarrow> out = ?all \<and> (\<forall>i < length out. accepted notifier i))"
    proof (cases stop)
      case (Some p)
      then show ?thesis using assms long False ctx c
        by (auto simp: publish_approval_messages_def Let_def intro: prefix_order.trans)
    next
      case None
      then have ctx_all: "ctx = dm_context messages" "\<forall>i < length ctx. accepted notifier i" using c by simp_all
      from assms long False ctx None obtain m where
        m: "method_reply (dm_text messages) (notifier (length ctx)) = Inr m"
        by (auto simp: publish_approval_messages_def Let_def bindR_eq_Inr)
      then have out: "out = ?all" and pub: "p_card_published publication \<Longrightarrow> tm_ok m"
        using assms long False ctx None ctx_all(1)
        by (auto simp: publish_approval_messages_def Let_def bindR_eq_Inr publication_failed_def split: if_splits)
      have "\<forall>i < length out. accepted notifier i" if "p_card_published publication"
        using ctx_all method_reply_ok [OF m pub [OF that]] out pub [OF that]
        by (auto simp: less_Suc_eq accepted_def)
      then show ?thesis using out by simp
    qed
    then show ?thesis using fits set_mono_prefix by blast
  qed
qed

definition sample_reply :: telegram_method_result where
  "sample_reply = \<lparr>tm_ok = True, tm_message_id = Some 7, tm_status_code = Some 200, tm_error_code = None,
     tm_error_classification = None, tm_payload_chars = 1, tm_failure_code = None\<rparr>"

definition sample_messages :: dispatch_messages where
  "sample_messages = \<lparr>dm_context = [[65]], dm_text = [66], dm_payload_chars = 1\<rparr>"

theorem card_follows_its_context_witness:
  "\<exists>p. publish_approval_messages (\<lambda>_. Inr sample_reply) sample_messages = Inr ([[65], [66]], p) \<and>
     p_card_published p \<and> prefix [[65], [66]] (dm_context sample_messages @ [dm_text sample_messages])"
proof -
  have "\<exists>p. publish_approval_messages (\<lambda>_. Inr sample_reply) sample_messages = Inr ([[65], [66]], p) \<and> p_card_published p"
    by (simp add: publish_approval_messages_def sample_messages_def telegram_text_length_def surrogate_def
        utf16_bytes_def TELEGRAM_SEND_MESSAGE_TEXT_LIMIT_def method_reply_def sample_reply_def
        publication_published_def Let_def)
  then obtain p where p: "publish_approval_messages (\<lambda>_. Inr sample_reply) sample_messages = Inr ([[65], [66]], p)"
    "p_card_published p" by blast
  then show ?thesis using card_follows_its_context [OF p(1)] by blast
qed

section \<open>Orders without a click\<close>

text \<open>A replacement or a cancellation whose gate refuses sends nothing.\<close>

lemma refused_target_events:
  assumes "ta_gate (aa_target ans) = Some (GateDecision False why)" and "contract_action grp \<noteq> ''place''"
    and "contract_action grp \<in> {''replace'', ''cancel''}"
  shows "snd (snd (rung_verdict sha read_iso show_iso grp rung p ans)) = []"
proof -
  have g: "snd (snd (gate_verdict grp p w [] v)) = []" if "snd (snd v) = []" for w v
    using that by (simp add: gate_verdict_def block_verdict_def Let_def)
  have t: "snd (snd (target_verdict read_iso show_iso grp a v)) = []" if "snd (snd v) = []" for a v
    using that by (simp add: target_verdict_def split: sum.split prod.split option.split)
  show ?thesis using assms
    by (auto simp: rung_verdict_def replace_rung_verdict_def cancel_rung_verdict_def eligibility_verdict_def
        target_answers.truncate_def Let_def intro!: g t)
qed

lemma block_all_events:
  "foldR (block_all grp d) (s, outcomes, events) idxs = Inr (s', outcomes', events') \<Longrightarrow> events' = events"
proof (induction idxs arbitrary: s outcomes events)
  case (Cons i idxs)
  then obtain s1 o1 e1 where "block_all grp d (s, outcomes, events) i = Inr (s1, o1, e1)"
    and rest: "foldR (block_all grp d) (s1, o1, e1) idxs = Inr (s', outcomes', events')"
    by (auto simp: bindR_eq_Inr)
  then have "e1 = events"
    by (auto simp: block_all_def converge_window_block_def finished_def Let_def bindR_eq_Inr split: if_splits)
  then show ?case using Cons.IH [OF rest] by simp
qed simp

lemma policy_market: "limits_for_market policy market = Some limits \<Longrightarrow> currency_for_market market \<noteq> None"
  by (auto simp: limits_for_market_def POLICY_MARKET_def currency_for_market_def split: if_splits)

text \<open>Every event of a gated run belongs to the one pending rung of a proposal that may be approved.\<close>

lemma gated_run_origin:
  assumes wf: "wf_store s" and gp: "get_proposal pid s = Inr (grp, rungs)"
    and market: "currency_for_market (g_market grp) \<noteq> None"
    and run: "revalidate_and_submit sha read_iso show_iso pid (Aware t) (Some policy) True w answers s = Inr (s', outcomes, events)"
    and e: "e \<in> set events"
  obtains rung row where "filter (\<lambda>r. r_state r = PendingApproval) rungs = [rung]"
    and "find (\<lambda>r. r_rung_index r = r_rung_index rung) rungs = Some rung"
    and "e \<in> set (snd (snd (rung_verdict sha read_iso show_iso grp row policy (answers (r_rung_index rung)))))"
    and "run_ok grp policy (map r_rung_index rungs) s s' outcomes events"
proof -
  note g = get_proposal_rows [OF gp]
  let ?pending = "filter (\<lambda>r. r_state r = PendingApproval) rungs" and ?d = "decision_at grp (Some policy) w"
  let ?f = "revalidate_step (rung_handler sha read_iso show_iso t policy answers) grp"
  have grp: "has_group s grp" using wf g(1,2) by (simp add: has_group_def)
  have start: "rung_in s grp (r_rung_index r) (r_state r)" if "r \<in> set rungs" for r
    using row_rung_in [OF wf] g that by simp
  have indices: "distinct (map r_rung_index rungs)" using distinct_rung_indices [OF wf] g(3) by simp
  have open_group: "proposal_approval_block_reason grp = None"
    using run e by (auto simp: revalidate_and_submit_def gp split: option.splits)
  have "revalidate_and_submit sha read_iso show_iso pid (Aware t) (Some policy) True w answers s =
      (if \<not> window_allowed ?d then foldR (block_all grp ?d) (s, [], []) (map r_rung_index ?pending)
       else if 1 < length ?pending
       then Inr (s, map (flat_outcome ApprovalRequired (DetailReason ''multi_rung_requires_approval'')) ?pending, [])
       else foldR ?f (s, [], []) (map r_rung_index rungs))"
    by (simp add: revalidate_and_submit_def gp open_group active_policy_stamp_def Let_def of_option_def)
  note shape = this [unfolded run]
  have allowed: "window_allowed ?d"
  proof (rule ccontr)
    assume "\<not> window_allowed ?d"
    then have "foldR (block_all grp ?d) (s, [], []) (map r_rung_index ?pending) = Inr (s', outcomes, events)"
      using shape by simp
    then show False using block_all_events e by fastforce
  qed
  have few: "\<not> 1 < length ?pending" using shape allowed e by (auto split: if_splits)
  have fold: "foldR ?f (s, [], []) (map r_rung_index rungs) = Inr (s', outcomes, events)"
    using shape allowed few by simp
  have rows: "\<forall>i \<in> set (map r_rung_index rungs). \<exists>st. rung_in s grp i st" using start by auto
  from events_origin [OF grp market indices fold e _ rows] obtain row i where
    i: "rung_in s grp i PendingApproval" "e \<in> set (snd (snd (rung_verdict sha read_iso show_iso grp row policy (answers i))))"
    by auto
  from rung_in_row [OF i(1)] obtain rung where rung: "rung \<in> set rungs" "r_rung_index rung = i" "r_state rung = PendingApproval"
    using g(3) by auto
  have "rung \<in> set ?pending" using rung by simp
  then have one: "?pending = [rung]" using few by (cases ?pending) auto
  have found: "find (\<lambda>r. r_rung_index r = i) rungs = Some rung"
  proof -
    obtain x where x: "find (\<lambda>r. r_rung_index r = i) rungs = Some x"
      using find_some_ex [OF rung(1), of "\<lambda>r. r_rung_index r = i"] rung(2) by blast
    then show ?thesis using find_SomeD [OF x] same_row [OF indices _ rung(1)] rung(2) by simp
  qed
  obtain s2 o2 e2 where "foldR ?f (s, [], []) (map r_rung_index rungs) = Inr (s2, o2, e2)"
    "run_ok grp policy (map r_rung_index rungs) s s2 o2 e2"
    using revalidate_run_ok [OF grp indices market, of sha read_iso show_iso t policy answers] by metis
  then have ok: "run_ok grp policy (map r_rung_index rungs) s s' outcomes events" using fold by simp
  show thesis by (rule that [OF one _ _ ok, of row]) (use found i rung in simp_all)
qed

lemma auto_submit_run:
  assumes "auto_submit w pid grp rungs window limits now ans s = Inr (s', events, step)"
  obtains daily s1 outcomes where "auto_approved_daily_notional grp now s = Inr daily"
    and "revalidate_and_submit (dw_sha w) (dw_read_iso w) (dw_show_iso w) pid (Aware (wd_observed_at window))
      (Some (wd_policy_stamp window)) True (au_first_window ans) (gated_answers grp rungs limits daily ans) s =
      Inr (s1, outcomes, events)"
    and "(step = AutoDeclined \<and> s' = s1) \<or>
      (all_submitted outcomes (length (filter (\<lambda>r. r_state r = PendingApproval) rungs)) \<and>
       (\<exists>entries messages. step = AutoSubmitted messages \<and>
          stage_veto_card w pid (al_policy_version limits) entries outcomes now ans s1 = Inr (s', messages)))"
  using assms that
  by (auto simp: auto_submit_def Let_def bindR_eq_Inr map_error_def split: if_splits sum.splits; blast)

lemma auto_dispatch_run:
  assumes "auto_dispatch w pid now ans s = Inr (s', events, step)" and "events \<noteq> [] \<or> (\<exists>m. step = AutoSubmitted m)"
    and "get_proposal pid s = Inr (grp, rungs)"
  obtains window limits where "window_allowed window" and "limits_for_market (dw_policy w) (g_market grp) = Some limits"
    and "auto_submit w pid grp rungs window limits now ans s = Inr (s', events, step)"
  using assms by (auto simp: auto_dispatch_def bindR_eq_Inr map_error_def split: if_splits sum.splits option.splits)

text \<open>
  C8: An order that leaves without a click belongs to the only pending rung of a new limit order
  without exit intent, on an account whose orders can be vetoed; its notional fits the cap of one order
  and, with what was approved automatically that day, the cap of the day, and its price keeps the
  policy's distance from the price of its fresh preview.
\<close>

theorem automatic_orders_are_within_policy:
  assumes "wf_store s" and "get_proposal pid s = Inr (grp, rungs)"
    and "auto_dispatch w pid now ans s = Inr (s', events, step)" and "LivePost d \<in> set events"
  shows "\<exists>rung limits daily current price.
    filter (\<lambda>r. r_state r = PendingApproval) rungs = [rung] \<and>
    limits_for_market (dw_policy w) (g_market grp) = Some limits \<and>
    auto_approved_daily_notional grp now s = Inr daily \<and>
    contract_action grp = ''place'' \<and> g_order_type grp = ''limit'' \<and> g_exit_intent grp = None \<and>
    (g_account_mode grp, g_market grp) \<in> VETO_CAPABLE_ACCOUNT_MARKETS \<and>
    au_current_price ans (r_rung_index rung) = Some current \<and> r_limit_price rung = Some price \<and>
    0 < current \<and> 0 < price \<and> 0 < r_quantity rung \<and>
    dec28 (price * r_quantity rung) \<le> al_per_order_cap limits \<and>
    dec28 (daily + dec28 (price * r_quantity rung)) \<le> al_daily_cap limits \<and>
    far_enough limits (r_side rung) current price"
proof -
  from assms(4) have "events \<noteq> []" by auto
  with auto_dispatch_run [OF assms(3) _ assms(2)] obtain window limits where
    limits: "limits_for_market (dw_policy w) (g_market grp) = Some limits"
    and sub: "auto_submit w pid grp rungs window limits now ans s = Inr (s', events, step)" by metis
  from sub obtain daily s1 outcomes where daily: "auto_approved_daily_notional grp now s = Inr daily"
    and run: "revalidate_and_submit (dw_sha w) (dw_read_iso w) (dw_show_iso w) pid (Aware (wd_observed_at window))
      (Some (wd_policy_stamp window)) True (au_first_window ans) (gated_answers grp rungs limits daily ans) s =
      Inr (s1, outcomes, events)"
    by (rule auto_submit_run)
  from gated_run_origin [OF assms(1,2) policy_market [OF limits] run assms(4)] obtain rung row where
    one: "filter (\<lambda>r. r_state r = PendingApproval) rungs = [rung]"
    and found: "find (\<lambda>r. r_rung_index r = r_rung_index rung) rungs = Some rung"
    and ev: "LivePost d \<in> set (snd (snd (rung_verdict (dw_sha w) (dw_read_iso w) (dw_show_iso w) grp row
      (wd_policy_stamp window) (gated_answers grp rungs limits daily ans (r_rung_index rung)))))" .
  let ?a = "gated_answers grp rungs limits daily ans (r_rung_index rung)"
  have gates: "ta_gate (aa_target ?a) = Some (GateDecision False ''action_not_place'')"
    "pa_gate (aa_place ?a) = Some (case dry_run grp (pa_preview (aa_place (au_actions ans (r_rung_index rung)))) of
                Inl e \<Rightarrow> GateFailed e
              | Inr pv \<Rightarrow> gate_of (rung_eligibility grp limits daily ans rung pv))"
    using found by (simp_all add: gated_answers_def Let_def)
  have "contract_action grp \<notin> {''replace'', ''cancel''}"
    using refused_target_events [OF gates(1), of grp] ev by fastforce
  then have "LivePost d \<in> set (snd (snd (place_verdict (dw_sha w) grp row (wd_policy_stamp window) (aa_place ?a))))"
    using ev by (auto simp: rung_verdict_def Let_def)
  then have "place_checked (dw_sha w) grp row (wd_policy_stamp window) (aa_place ?a)"
    using place_posted by (force simp: posted_def)
  then have "gate_passed (pa_gate (aa_place ?a))" by (simp add: place_checked_def)
  then obtain pv where "ad_eligible (rung_eligibility grp limits daily ans rung pv)"
    by (auto simp: gates(2) gate_passed_def gate_of_def split: sum.splits)
  then show ?thesis using one limits daily by (auto simp: rung_eligibility_def eligible_iff)
qed

section \<open>The record of an automatic submission\<close>

lemma block_reason_None:
  "proposal_approval_block_reason g = None \<longleftrightarrow>
     g_superseded_by_proposal_id g = None \<and> g_lifecycle_state g \<notin> APPROVAL_TERMINAL_GROUP_STATES"
  by (auto simp: proposal_approval_block_reason_def APPROVAL_TERMINAL_GROUP_STATES_def)

text \<open>A nonce, a binding and a start on an approvable group succeed.\<close>

definition attempt_fresh :: "store \<Rightarrow> uuid \<Rightarrow> bool" where
  "attempt_fresh s aid \<longleftrightarrow> (\<forall>a \<in> set (db_attempts s). a_attempt_id a \<noteq> aid)"

lemma supersede_fresh: "attempt_fresh s aid \<Longrightarrow> attempt_fresh (supersede_previous_attempt grp aid s) aid"
  by (fastforce dest: write_row_set find_SomeD simp: attempt_fresh_def supersede_previous_attempt_def update_approval_dispatch_attempt_def
      get_approval_dispatch_attempt_def put_attempt_def Let_def split: option.splits if_splits)

lemma supersede_rungs: "db_rungs (supersede_previous_attempt grp aid s) = db_rungs s"
  by (simp add: supersede_previous_attempt_def update_approval_dispatch_attempt_def Let_def split: option.split)

lemma start_total:
  assumes g: "get_group_by_proposal_id s pid = Some grp" and fresh: "attempt_fresh s aid"
    and kind: "kind \<noteq> Batch" and sizes: "0 \<le> n" "0 \<le> k"
  obtains s' a where "start_approval_dispatch h pid aid (proposal_binding h grp (g_approval_nonce grp) aid kind) (Aware t) n k s =
      Inr (s', a)" and "db_rungs s' = db_rungs s"
proof -
  let ?b = "proposal_binding h grp (g_approval_nonce grp) aid kind"
  have b: "b_attempt_id ?b = aid" "b_card_kind ?b = kind"
    "b_membership_revision ?b = (case g_approval_dispatch_membership_revision grp of None \<Rightarrow> 0 | Some n \<Rightarrow> n) + 1"
    "b_membership_digest ?b = build_membership_digest h kind (b_membership_revision ?b) [(g_proposal_id grp, g_approval_nonce grp)]"
    by (simp_all add: proposal_binding_def build_proposal_dispatch_binding_def Let_def)
  obtain s1 a where ins: "insert_approval_dispatch_attempt (new_attempt grp aid ?b t n k) (supersede_previous_attempt grp aid s) = Some (s1, a)"
    using supersede_fresh [OF fresh] by (auto simp: insert_approval_dispatch_attempt_def attempt_fresh_def new_attempt_def Let_def)
  then have "db_rungs s1 = db_rungs s"
    by (auto simp: insert_approval_dispatch_attempt_def Let_def supersede_rungs split: if_splits)
  then have "\<exists>s' a. start_approval_dispatch h pid aid ?b (Aware t) n k s = Inr (s', a) \<and> db_rungs s' = db_rungs s"
    using kind sizes g
    by (simp add: start_approval_dispatch_def locked_group_def require_def of_option_def update_group_def Let_def b ins)
  then show thesis using that by blast
qed

lemma auto_veto_record:
  assumes wf: "wf_store s" and g: "get_group_by_proposal_id s pid = Some grp"
    and live: "proposal_approval_block_reason grp = None" and fresh: "attempt_fresh s (au_attempt_id ans)"
    and enc: "\<And>g rs b. is_ok (telegram_text_length (dw_render_veto w g rs version b))"
  obtains s' messages g' a where
    "stage_veto_card w pid version entries outcomes (Aware t) ans s = Inr (s', messages)"
    "get_group_by_proposal_id s' pid = Some g'" "group_payload g' = group_payload grp"
    "auto_approved_at g' = Some t" "g_approval_nonce g' = Some (au_veto_nonce ans)" "g_approval_nonce_used_at g' = None"
    "get_approval_dispatch_attempt s' (au_attempt_id ans) = Some a" "a_state a = DPending"
    "is_current_owner (dw_digest w) g' a" "a_card_kind a = AutoVeto" "db_rungs s' = db_rungs s" "wf_store s'"
proof -
  let ?note = "JObj [(''policy_version'', JStr version), (''approved_at'', JTime t), (''eligibility'', JArr entries),
     (''outcomes'', JArr (map JStr (map (\<lambda>oc. outcome_text (ro_result oc)) outcomes)))]"
  define g1 where "g1 = grp\<lparr>g_updated_at := db_now s, g_source_asof := Some (dict_set ''auto_approved'' ?note (or_empty (g_source_asof grp)))\<rparr>"
  define s1 where "s1 = put_group g1 s"
  define g2 where "g2 = g1\<lparr>g_updated_at := db_now s1, g_approval_nonce := Some (au_veto_nonce ans), g_approval_nonce_used_at := None,
     g_approval_dispatch_state := Some DFailed, g_approval_dispatch_published_at := None,
     g_approval_dispatch_failure_code := Some ''approval_dispatch_snapshot_missing''\<rparr>"
  define s2 where "s2 = put_group g2 s1"
  have pay: "group_payload g1 = group_payload grp" "group_payload g2 = group_payload grp"
    by (simp_all add: g1_def g2_def group_payload_def)
  have r1: "get_group_by_proposal_id s1 pid = Some g1" "wf_store s1"
    using put_group_read [OF wf g pay(1)] by (simp_all add: s1_def)
  have r2: "get_group_by_proposal_id s2 pid = Some g2" "wf_store s2"
    using put_group_read [OF r1(2,1), of g2] pay by (simp_all add: s2_def)
  have step1: "record_auto_approval pid version entries (map (\<lambda>oc. outcome_text (ro_result oc)) outcomes) (Aware t) s = Inr (s1, g1)"
    using g by (simp add: record_auto_approval_def locked_group_def update_group_def Let_def s1_def g1_def)
  have "proposal_approval_block_reason g1 = None"
    using live by (simp add: block_reason_None g1_def)
  then have step2: "set_approval_nonce pid (au_veto_nonce ans) False s1 = Inr s2"
    using r1(1) by (simp add: set_approval_nonce_def locked_group_def update_group_def Let_def s2_def g2_def)
  have step3: "get_proposal pid s2 = Inr (g2, list_rungs s2 (g_id g2))"
    using r2(1) by (simp add: get_proposal_def)
  have fresh2: "attempt_fresh s2 (au_attempt_id ans)" using fresh by (simp add: attempt_fresh_def s1_def s2_def)
  let ?b = "proposal_binding (dw_digest w) g2 (Some (au_veto_nonce ans)) (au_attempt_id ans) AutoVeto"
  let ?text = "dw_render_veto w g2 (list_rungs s2 (g_id g2)) version ?b"
  obtain n where n: "telegram_text_length ?text = Inr n" using enc [of g2 "list_rungs s2 (g_id g2)" ?b] by (auto simp: is_ok_iff)
  then have "0 \<le> n" by (auto simp: telegram_text_length_eq text_units_def utf16_bytes_def intro!: sum_list_nonneg split: if_splits)
  have nonce: "g_approval_nonce g2 = Some (au_veto_nonce ans)" by (simp add: g2_def)
  obtain s3 a where st: "start_approval_dispatch (dw_digest w) pid (au_attempt_id ans) ?b (Aware t) n 0 s2 = Inr (s3, a)"
    and rungs: "db_rungs s3 = db_rungs s2"
    using start_total [OF r2(1) fresh2, of AutoVeto n 0 "dw_digest w" t] \<open>0 \<le> n\<close> nonce by auto
  from r2(2) st r2(1) show thesis
  proof (cases rule: start_makes_owner)
    case (1 g')
    have "g_source_asof g' = g_source_asof g2" by (rule 1(12))
    then have src: "dict_get (or_empty (g_source_asof g')) ''auto_approved'' = Some ?note"
      by (simp add: g2_def g1_def)
    show thesis
    proof (rule that)
      show "stage_veto_card w pid version entries outcomes (Aware t) ans s =
          Inr (s3, \<lparr>dm_context = [], dm_text = ?text, dm_payload_chars = n\<rparr>)"
        using step1 step2 step3 n st by (simp add: stage_veto_card_def Let_def)
      show "get_group_by_proposal_id s3 pid = Some g'" by (rule 1(1))
      show "group_payload g' = group_payload grp" using 1(9) pay(2) by simp
      show "auto_approved_at g' = Some t"
        unfolding auto_approved_at_def auto_dict_def src by (simp add: dict_get_def)
      show "g_approval_nonce g' = Some (au_veto_nonce ans)" "g_approval_nonce_used_at g' = None"
        using 1(7,8) by (simp_all add: g2_def)
      show "get_approval_dispatch_attempt s3 (au_attempt_id ans) = Some a" by (rule 1(2))
      show "a_state a = DPending" "is_current_owner (dw_digest w) g' a" by (rule 1(5), rule 1(6))
      show "a_card_kind a = AutoVeto"
        using 1(6,14) by (simp add: is_current_owner_def proposal_binding_def build_proposal_dispatch_binding_def Let_def)
      show "db_rungs s3 = db_rungs s" by (simp add: rungs s2_def s1_def)
      show "wf_store s3" by (rule 1(3))
    qed
  qed
qed

text \<open>The proposal after a run that submitted its rungs is still open.\<close>

lemma broker_side_open:
  "r \<in> set rs \<Longrightarrow> r_state r \<in> {Acked, Resting} \<Longrightarrow> recompute_group_state rs \<notin> APPROVAL_TERMINAL_GROUP_STATES"
proof -
  assume r: "r \<in> set rs" "r_state r \<in> {Acked, Resting}"
  let ?st = "set (map r_state rs)"
  have m: "r_state r \<in> ?st" using r(1) by simp
  have "\<not> ?st \<subseteq> {Filled, Cancelled, Expired, Rejected, Voided, VoidedLocalStale, Superseded}"
  proof
    assume "?st \<subseteq> {Filled, Cancelled, Expired, Rejected, Voided, VoidedLocalStale, Superseded}"
    then have "r_state r \<in> {Filled, Cancelled, Expired, Rejected, Voided, VoidedLocalStale, Superseded}" using m by blast
    then show False using r(2) by (elim insertE) simp_all
  qed
  moreover have "?st \<inter> {Acked, Resting, PartiallyFilled, Filled, Submitting} \<noteq> {}" using m r(2) by blast
  ultimately have "recompute_group_state rs \<in> {PartiallySubmitted, Submitted}"
    unfolding recompute_group_state_def Let_def by (simp only: if_False simp_thms insert_iff split: if_split)
  then show ?thesis by (auto simp: APPROVAL_TERMINAL_GROUP_STATES_def)
qed

lemma untouched_group:
  assumes "wf_store s" and "untouched s s'" and "g \<in> set (db_groups s)" and "g' \<in> set (db_groups s')" and "g_id g' = g_id g"
  shows "card_columns g' = card_columns g"
proof -
  have "card_columns g' \<in> card_columns ` set (db_groups s)"
    using assms(2,4) by (metis (no_types) image_eqI list.set_map untouched_def)
  then obtain g0 where g0: "g0 \<in> set (db_groups s)" "card_columns g' = card_columns g0" by blast
  then have "g_id g0 = g_id g" using assms(5) by (simp add: card_columns_def)
  then have "g0 = g" using same_row [of g_id "db_groups s" g0 g] assms(1,3) g0(1) by (simp add: wf_store_def)
  then show ?thesis using g0(2) by simp
qed

lemma submitted_run:
  assumes wf: "wf_store s" and inv: "rollup_inv s" and gp: "get_proposal pid s = Inr (grp, rungs)"
    and market: "currency_for_market (g_market grp) \<noteq> None" and fresh: "attempt_fresh s aid"
  obtains s' outcomes events where
    "revalidate_and_submit sha read_iso show_iso pid (Aware t) (Some policy) True w answers s = Inr (s', outcomes, events)"
    and "wf_store s'"
    and "all_submitted outcomes (length (filter (\<lambda>r. r_state r = PendingApproval) rungs)) \<longrightarrow>
      (\<exists>g'. get_group_by_proposal_id s' pid = Some g' \<and> g_id g' = g_id grp \<and> proposal_approval_block_reason g' = None \<and>
        attempt_fresh s' aid \<and>
        (\<forall>r \<in> set rungs. r_state r = PendingApproval \<longrightarrow>
           (\<exists>r' \<in> set (list_rungs s' (g_id grp)). r_rung_index r' = r_rung_index r \<and> r_state r' \<in> {Acked, Resting})))"
proof (cases "proposal_approval_block_reason grp")
  case (Some b)
  have "revalidate_and_submit sha read_iso show_iso pid (Aware t) (Some policy) True w answers s =
      Inr (s, map (flat_outcome OutcomeError (DetailBlock b)) rungs, [])"
    by (simp add: revalidate_and_submit_def gp Some)
  moreover have "\<not> all_submitted (map (flat_outcome OutcomeError (DetailBlock b)) rungs) n" for n
    by (cases rungs) (simp_all add: all_submitted_def flat_outcome_def is_submitted_def)
  ultimately show thesis using that wf by blast
next
  case None
  note g = get_proposal_rows [OF gp]
  have active: "active_policy_stamp grp (Some policy) = Some policy" by (simp add: active_policy_stamp_def)
  obtain s' outcomes events idxs where
    run: "revalidate_and_submit sha read_iso show_iso pid (Aware t) (Some policy) True w answers s = Inr (s', outcomes, events)"
    and ok: "run_ok grp policy idxs s s' outcomes events"
    and all: "\<forall>r \<in> set rungs. r_state r = PendingApproval \<longrightarrow> r_rung_index r \<in> set idxs"
    using whole_run [OF wf gp None market active, of sha read_iso show_iso t True w answers] by blast
  have e: "evolves {} s s'" and u: "untouched s s'" using ok by (simp_all add: run_ok_def)
  have wf': "wf_store s'" by (rule evolves_wf [OF e])
  have grp: "has_group s grp" using wf g(1,2) by (simp add: has_group_def)
  show thesis
  proof (rule that [OF run wf' impI])
    assume sub: "all_submitted outcomes (length (filter (\<lambda>r. r_state r = PendingApproval) rungs))"
    have rows: "\<exists>r' \<in> set (list_rungs s' (g_id grp)). r_rung_index r' = r_rung_index r \<and> r_state r' \<in> {Acked, Resting}"
      if r: "r \<in> set rungs" "r_state r = PendingApproval" for r
    proof -
      have "rung_in s grp (r_rung_index r) PendingApproval" using row_rung_in [OF wf, of grp r] g r by simp
      then obtain oc st where oc: "oc \<in> set outcomes" "st \<in> outcome_states (ro_result oc)" "rung_in s' grp (r_rung_index r) st"
        using ok all r unfolding run_ok_def by metis
      moreover have "is_submitted oc" using sub oc(1) by (simp add: all_submitted_def)
      ultimately have "st \<in> {Acked, Resting}" by (auto simp: is_submitted_def)
      then show ?thesis using rung_in_row [OF oc(3)] by auto
    qed
    obtain r0 where r0: "r0 \<in> set rungs" "r_state r0 = PendingApproval"
    proof -
      have "filter (\<lambda>r. r_state r = PendingApproval) rungs \<noteq> []" using sub by (auto simp: all_submitted_def)
      then show thesis using that by (auto simp: filter_empty_conv)
    qed
    obtain g' where g': "get_group_by_proposal_id s' pid = Some g'" "g_id g' = g_id grp"
      using has_group_evolves [OF grp e] g(2) by (auto simp: has_group_def)
    have rows': "grp \<in> set (db_groups s)" "g' \<in> set (db_groups s')" using get_group_in g(1) g'(1) by blast+
    have cols: "card_columns g' = card_columns grp" by (rule untouched_group [OF wf u rows' g'(2)])
    then have sup: "g_superseded_by_proposal_id g' = None" using None by (simp add: card_columns_def block_reason_None)
    have "rollup_inv s'" using e inv by (simp add: evolves_def)
    then have "g_lifecycle_state g' = recompute_group_state (list_rungs s' (g_id g'))"
      using rows'(2) sup by (simp add: rollup_inv_def)
    moreover obtain r1 where "r1 \<in> set (list_rungs s' (g_id g'))" "r_state r1 \<in> {Acked, Resting}"
      using rows [OF r0] g'(2) by auto
    ultimately have "proposal_approval_block_reason g' = None"
      using sup broker_side_open by (simp add: block_reason_None)
    moreover have "attempt_fresh s' aid" using fresh u by (simp add: attempt_fresh_def untouched_def)
    ultimately show "\<exists>g'. get_group_by_proposal_id s' pid = Some g' \<and> g_id g' = g_id grp \<and>
        proposal_approval_block_reason g' = None \<and> attempt_fresh s' aid \<and>
        (\<forall>r \<in> set rungs. r_state r = PendingApproval \<longrightarrow>
           (\<exists>r' \<in> set (list_rungs s' (g_id grp)). r_rung_index r' = r_rung_index r \<and> r_state r' \<in> {Acked, Resting}))"
      using g' rows by blast
  qed
qed

text \<open>What a submission without a click leaves in the database, when the veto card is written.\<close>

lemma veto_card_recorded:
  assumes "wf_store s1" and "get_group_by_proposal_id s1 pid = Some g1" and "proposal_approval_block_reason g1 = None"
    and "attempt_fresh s1 (au_attempt_id ans)"
    and "\<And>g rs b. is_ok (telegram_text_length (dw_render_veto w g rs version b))"
    and "\<forall>r \<in> set rungs. r_state r = PendingApproval \<longrightarrow>
          (\<exists>r' \<in> set (list_rungs s1 i). r_rung_index r' = r_rung_index r \<and> r_state r' \<in> {Acked, Resting})"
  shows "\<exists>s2 messages. stage_veto_card w pid version entries outcomes (Aware t) ans s1 = Inr (s2, messages) \<and> wf_store s2 \<and>
    (\<exists>g' a. get_group_by_proposal_id s2 pid = Some g' \<and> auto_approved_at g' = Some t \<and>
          g_approval_nonce g' = Some (au_veto_nonce ans) \<and> g_approval_nonce_used_at g' = None \<and>
          get_approval_dispatch_attempt s2 (au_attempt_id ans) = Some a \<and> a_state a = DPending \<and>
          a_card_kind a = AutoVeto \<and> is_current_owner (dw_digest w) g' a) \<and>
    (\<forall>r \<in> set rungs. r_state r = PendingApproval \<longrightarrow>
          (\<exists>r' \<in> set (list_rungs s2 i). r_rung_index r' = r_rung_index r \<and> r_state r' \<in> {Acked, Resting}))"
proof -
  obtain s2 messages g' a where
    st: "stage_veto_card w pid version entries outcomes (Aware t) ans s1 = Inr (s2, messages)"
    and read: "get_group_by_proposal_id s2 pid = Some g'"
    and rec: "auto_approved_at g' = Some t" "g_approval_nonce g' = Some (au_veto_nonce ans)" "g_approval_nonce_used_at g' = None"
      "get_approval_dispatch_attempt s2 (au_attempt_id ans) = Some a" "a_state a = DPending"
      "is_current_owner (dw_digest w) g' a" "a_card_kind a = AutoVeto"
    and same: "db_rungs s2 = db_rungs s1" "wf_store s2"
    by (rule auto_veto_record [OF assms(1-5)])
  show ?thesis using st same read rec assms(6) by auto
qed

lemma auto_submit_records:
  assumes "wf_store s" and "rollup_inv s" and "get_proposal pid s = Inr (grp, rungs)"
    and limits: "limits_for_market (dw_policy w) (g_market grp) = Some limits"
    and "attempt_fresh s (au_attempt_id ans)"
    and enc: "\<forall>g rs version b. is_ok (telegram_text_length (dw_render_veto w g rs version b))"
  shows "\<exists>s' events step. auto_submit w pid grp rungs window limits (Aware t) ans s = Inr (s', events, step) \<and> wf_store s' \<and>
    (case step of AutoSubmitted messages \<Rightarrow>
       (\<exists>g' a. get_group_by_proposal_id s' pid = Some g' \<and> auto_approved_at g' = Some t \<and>
          g_approval_nonce g' = Some (au_veto_nonce ans) \<and> g_approval_nonce_used_at g' = None \<and>
          get_approval_dispatch_attempt s' (au_attempt_id ans) = Some a \<and> a_state a = DPending \<and>
          a_card_kind a = AutoVeto \<and> is_current_owner (dw_digest w) g' a) \<and>
       (\<forall>r \<in> set rungs. r_state r = PendingApproval \<longrightarrow>
          (\<exists>r' \<in> set (list_rungs s' (g_id grp)). r_rung_index r' = r_rung_index r \<and> r_state r' \<in> {Acked, Resting}))
     | _ \<Rightarrow> True)"
proof -
  let ?n = "length (filter (\<lambda>r. r_state r = PendingApproval) rungs)"
  obtain daily where daily: "auto_approved_daily_notional grp (Aware t) s = Inr daily"
    by (simp add: auto_approved_daily_notional_def)
  obtain s1 outcomes events where
    run: "revalidate_and_submit (dw_sha w) (dw_read_iso w) (dw_show_iso w) pid (Aware (wd_observed_at window))
      (Some (wd_policy_stamp window)) True (au_first_window ans) (gated_answers grp rungs limits daily ans) s =
      Inr (s1, outcomes, events)"
    and wf1: "wf_store s1"
    and all: "all_submitted outcomes ?n \<longrightarrow>
      (\<exists>g'. get_group_by_proposal_id s1 pid = Some g' \<and> g_id g' = g_id grp \<and> proposal_approval_block_reason g' = None \<and>
        attempt_fresh s1 (au_attempt_id ans) \<and>
        (\<forall>r \<in> set rungs. r_state r = PendingApproval \<longrightarrow>
           (\<exists>r' \<in> set (list_rungs s1 (g_id grp)). r_rung_index r' = r_rung_index r \<and> r_state r' \<in> {Acked, Resting})))"
    by (rule submitted_run [OF assms(1-3) policy_market [OF limits] assms(5), where sha = "dw_sha w"
          and read_iso = "dw_read_iso w" and show_iso = "dw_show_iso w" and t = "wd_observed_at window"
          and policy = "wd_policy_stamp window" and w = "au_first_window ans"
          and answers = "gated_answers grp rungs limits daily ans"])
  show ?thesis
  proof (cases "all_submitted outcomes ?n")
    case False
    then have "auto_submit w pid grp rungs window limits (Aware t) ans s = Inr (s1, events, AutoDeclined)"
      using daily run by (simp add: auto_submit_def Let_def map_error_def)
    then show ?thesis using wf1 by simp
  next
    case True
    let ?entries = "gate_entries w grp (filter (\<lambda>r. r_state r = PendingApproval) rungs) limits daily ans"
    from all True obtain g1 where g1: "get_group_by_proposal_id s1 pid = Some g1" "proposal_approval_block_reason g1 = None"
        "attempt_fresh s1 (au_attempt_id ans)"
      and rows: "\<forall>r \<in> set rungs. r_state r = PendingApproval \<longrightarrow>
           (\<exists>r' \<in> set (list_rungs s1 (g_id grp)). r_rung_index r' = r_rung_index r \<and> r_state r' \<in> {Acked, Resting})"
      by blast
    obtain s2 messages where
      st: "stage_veto_card w pid (al_policy_version limits) ?entries outcomes (Aware t) ans s1 = Inr (s2, messages)"
      and post: "wf_store s2" "\<exists>g' a. get_group_by_proposal_id s2 pid = Some g' \<and> auto_approved_at g' = Some t \<and>
          g_approval_nonce g' = Some (au_veto_nonce ans) \<and> g_approval_nonce_used_at g' = None \<and>
          get_approval_dispatch_attempt s2 (au_attempt_id ans) = Some a \<and> a_state a = DPending \<and>
          a_card_kind a = AutoVeto \<and> is_current_owner (dw_digest w) g' a"
        "\<forall>r \<in> set rungs. r_state r = PendingApproval \<longrightarrow>
          (\<exists>r' \<in> set (list_rungs s2 (g_id grp)). r_rung_index r' = r_rung_index r \<and> r_state r' \<in> {Acked, Resting})"
      using veto_card_recorded [OF wf1 g1 _ rows, of w "al_policy_version limits" ?entries outcomes t] enc by blast
    have "auto_submit w pid grp rungs window limits (Aware t) ans s = Inr (s2, events, AutoSubmitted messages)"
      using daily run True st by (simp add: auto_submit_def Let_def map_error_def)
    then show ?thesis using post by (intro exI [of _ s2] exI [of _ events] exI [of _ "AutoSubmitted messages"]) simp
  qed
qed

text \<open>
  C9: An automatic submission is never lost: once the window is open the first transaction ends
  without an error whatever the broker did, and where it submitted, it leaves the proposal marked as
  approved at that time, with a fresh veto nonce and a pending veto card it owns, and every rung that
  was pending on the broker's side.
\<close>

theorem auto_submission_is_recorded:
  assumes "wf_store s" and "rollup_inv s" and "get_proposal pid s = Inr (grp, rungs)"
    and "boundary_at grp None False (au_window ans) = Inr window" and "window_allowed window"
    and "attempt_fresh s (au_attempt_id ans)"
    and "\<forall>g rs version b. is_ok (telegram_text_length (dw_render_veto w g rs version b))"
  shows "\<exists>s' events step. auto_dispatch w pid (Aware t) ans s = Inr (s', events, step) \<and> wf_store s' \<and>
    (case step of AutoSubmitted messages \<Rightarrow>
       (\<exists>g' a. get_group_by_proposal_id s' pid = Some g' \<and> auto_approved_at g' = Some t \<and>
          g_approval_nonce g' = Some (au_veto_nonce ans) \<and> g_approval_nonce_used_at g' = None \<and>
          get_approval_dispatch_attempt s' (au_attempt_id ans) = Some a \<and> a_state a = DPending \<and>
          a_card_kind a = AutoVeto \<and> is_current_owner (dw_digest w) g' a) \<and>
       (\<forall>r \<in> set rungs. r_state r = PendingApproval \<longrightarrow>
          (\<exists>r' \<in> set (list_rungs s' (g_id grp)). r_rung_index r' = r_rung_index r \<and> r_state r' \<in> {Acked, Resting}))
     | _ \<Rightarrow> True)"
proof -
  have dispatch: "auto_dispatch w pid (Aware t) ans s =
      (if \<not> (\<exists>r \<in> set rungs. r_state r = PendingApproval) then Inr (s, [], AutoNotPending)
       else case limits_for_market (dw_policy w) (g_market grp) of
              None \<Rightarrow> Inr (s, [], AutoDeclined)
            | Some limits \<Rightarrow> auto_submit w pid grp rungs window limits (Aware t) ans s)"
    using assms(3-5) by (simp add: auto_dispatch_def map_error_def)
  show ?thesis
  proof (cases "\<exists>r \<in> set rungs. r_state r = PendingApproval")
    case False
    then show ?thesis using dispatch assms(1) by simp
  next
    case pending: True
    show ?thesis
    proof (cases "limits_for_market (dw_policy w) (g_market grp)")
      case None
      then show ?thesis using dispatch pending assms(1) by simp
    next
      case (Some limits)
      then have "auto_dispatch w pid (Aware t) ans s = auto_submit w pid grp rungs window limits (Aware t) ans s"
        using dispatch pending by simp
      then show ?thesis
        using auto_submit_records [OF assms(1-3) Some assms(6,7)] by presburger
    qed
  qed
qed

section \<open>A submission of the sample\<close>

definition sample_limits :: auto_approve_limits where
  "sample_limits = \<lparr>al_min_distance_pct = 1, al_per_order_cap = 1000000, al_daily_cap = 1000000, al_policy_version = ''v1''\<rparr>"

definition sample_world :: dispatch_world where
  "sample_world = \<lparr>dw_digest = env_digest sample_env, dw_batch_digest = (\<lambda>_. ''''), dw_sha = (\<lambda>s. s),
     dw_read_iso = env_read_iso sample_env, dw_show_iso = env_show_iso sample_env,
     dw_render = (\<lambda>_ _ _. sample_messages), dw_render_batch = (\<lambda>_ _ _. [66]), dw_render_veto = (\<lambda>_ _ _ _. [86]),
     dw_policy = (\<lambda>_. sample_limits), dw_decimal_text = (\<lambda>_. ''''), dw_auto_approve = True, dw_allowlist = [''chat'']\<rparr>"

definition auto_with :: "(string, raw_submit) result \<Rightarrow> auto_answers" where
  "auto_with reply = \<lparr>au_window = open_reading, au_first_window = open_reading,
     au_actions = (\<lambda>_. \<lparr>aa_place = sample_place reply, aa_target = sample_replace\<rparr>),
     au_current_price = (\<lambda>_. Some 80000), au_veto_nonce = ''v9'', au_attempt_id = ''a9''\<rparr>"

abbreviation sample_auto :: auto_answers where
  "sample_auto \<equiv> auto_with (Inr sample_raw)"

lemma leading_values:
  "leading_exponent (1 / 100) = -2" "leading_exponent (99 / 100) = -1"
  "leading_exponent 79200 = 4" "leading_exponent 700000 = 5"
proof -
  have "\<lceil>100 / 99 :: rat\<rceil> = 2" by (simp add: ceiling_eq_iff)
  then show "leading_exponent (99 / 100) = -1" by (simp add: leading_exponent_def ndigits_step)
qed (simp_all add: leading_exponent_def ndigits_step)

lemma dec28_values:
  "dec28 (1 / 100) = 1 / 100" "dec28 (99 / 100) = 99 / 100" "dec28 79200 = 79200" "dec28 700000 = 700000"
proof -
  show "dec28 (1 / 100) = 1 / 100"
    by (rule dec28_exact [where k = 29 and n = "10 ^ 27"]) (simp_all add: leading_values)
  show "dec28 (99 / 100) = 99 / 100"
    by (rule dec28_exact [where k = 28 and n = "99 * 10 ^ 26"]) (simp_all add: leading_values)
  show "dec28 79200 = 79200"
    by (rule dec28_exact [where k = 23 and n = "792 * 10 ^ 25"]) (simp_all add: leading_values)
  show "dec28 700000 = 700000"
    by (rule dec28_exact [where k = 22 and n = "7 * 10 ^ 27"]) (simp_all add: leading_values)
qed

lemma sample_window:
  obtains window where "boundary_at sample_group None False open_reading = Inr window" "window_allowed window"
    "wd_policy_stamp window = sample_policy"
proof -
  have "(case boundary_at sample_group None False open_reading of Inl _ \<Rightarrow> False
     | Inr d \<Rightarrow> window_allowed d \<and> wd_policy_stamp d = sample_policy)" by code_simp
  then show thesis using that by (auto split: sum.splits)
qed

lemma sample_action: "contract_action sample_group = ''place''"
  by (simp add: contract_action_def sample_group_def new_group_def truthy_def)

lemma sample_eligible:
  "ad_eligible (rung_eligibility sample_group sample_limits 0 (auto_with reply) pending_rung sample_preview)"
proof -
  have g: "g_exit_intent sample_group = None" by (simp add: sample_group_def new_group_def sample_request_def)
  have far: "far_enough sample_limits ''buy'' 80000 70000"
    by (simp add: far_enough_def sample_limits_def Let_def dec28_values)
  show ?thesis
    using far
    by (simp add: rung_eligibility_def eligible_iff sample_action g VETO_CAPABLE_ACCOUNT_MARKETS_def sample_preview_def
        auto_with_def pending_rung_def sample_rung_def dec28_values)
       (simp add: sample_limits_def)
qed

lemma gate_irrelevant:
  "place_verdict sha g r p (a\<lparr>pa_gate := Some (GateDecision True why)\<rparr>) = place_verdict sha g r p (a\<lparr>pa_gate := None\<rparr>)"
proof -
  have sub: "submit_verdict sha g i p (a\<lparr>pa_gate := x\<rparr>) b e = submit_verdict sha g i p a b e" for i b e x
    by (simp add: submit_verdict_def Let_def split_def cong: option.case_cong sum.case_cong)
  have claim: "claim_verdict sha g r pv p (a\<lparr>pa_gate := x\<rparr>) = claim_verdict sha g r pv p a" for pv x
    by (auto simp: claim_verdict_def Let_def split_def sub cong: option.case_cong)
  have "preview_verdict sha g r pv p (a\<lparr>pa_gate := Some (GateDecision True why)\<rparr>) =
      preview_verdict sha g r pv p (a\<lparr>pa_gate := None\<rparr>)" for pv
    by (simp add: preview_verdict_def eligibility_verdict_def claim)
  then show ?thesis by (simp add: place_verdict_def split: sum.split)
qed

lemma sample_daily:
  assumes "untouched sample_store s"
  shows "auto_approved_daily_notional sample_group (Aware 20) s = Inr 0"
proof -
  have none: "auto_approved_at g = None" if "g \<in> set (db_groups s)" for g
  proof -
    have "card_columns g \<in> card_columns ` set (db_groups sample_store)"
      using assms that by (metis (no_types) image_eqI list.set_map untouched_def)
    then have "or_empty (g_source_asof g) = []"
      by (auto simp: card_columns_def sample_store_def sample_group_def old_group_def new_group_def or_none_def)
    then show ?thesis by (simp add: auto_approved_at_def auto_dict_def dict_get_def)
  qed
  then have "filter (\<lambda>g. g_account_mode g = a \<and> g_market g = m \<and> g_broker_account_id g = b \<and>
      (case auto_approved_at g of None \<Rightarrow> False | Some t \<Rightarrow> P t)) (db_groups s) = []" for a m b P
    by (simp add: filter_empty_conv)
  then show ?thesis by (simp add: auto_approved_daily_notional_def auto_approved_notional_between_def)
qed

lemma sample_untouched: "untouched sample_store sample_store"
  by (rule untouched_refl)

abbreviation sample_rows_list where
  "sample_rows_list \<equiv> [pending_rung, sample_rung 2 1 1 Resting (Some ''b1'')]"

abbreviation sample_events where
  "sample_events \<equiv> [ClaimTaken, LivePost (decision_at sample_group (Some sample_policy) open_reading)]"

lemma sample_gated_verdict:
  "place_verdict (\<lambda>s. s) sample_group pending_rung sample_policy
     (aa_place (gated_answers sample_group sample_rows_list sample_limits 0 (auto_with reply) 0)) =
     place_verdict (\<lambda>s. s) sample_group pending_rung sample_policy (sample_place reply)"
proof -
  have i0: "r_rung_index pending_rung = 0" by (simp add: pending_rung_def sample_rung_def)
  have dry: "dry_run sample_group (Inr sample_preview) = Inr sample_preview" by (simp add: dry_run_def)
  have "aa_place (gated_answers sample_group sample_rows_list sample_limits 0 (auto_with reply) 0) =
      (sample_place reply)\<lparr>pa_gate := Some (GateDecision True
        (ad_reason (rung_eligibility sample_group sample_limits 0 (auto_with reply) pending_rung sample_preview)))\<rparr>"
    using sample_eligible [of reply]
    by (simp add: gated_answers_def i0 auto_with_def sample_place_def dry gate_of_def Let_def)
  moreover have "(sample_place reply)\<lparr>pa_gate := None\<rparr> = sample_place reply"
    by (simp add: sample_place_def)
  ultimately show ?thesis by (simp add: gate_irrelevant)
qed

lemma sample_gated_run:
  assumes "place_verdict (\<lambda>s. s) sample_group pending_rung sample_policy (sample_place reply) = (st, res, events)"
  obtains s' oc where "revalidate_and_submit (\<lambda>s. s) (env_read_iso sample_env) (env_show_iso sample_env) ''p0000001''
     (Aware t) (Some sample_policy) True open_reading
     (gated_answers sample_group sample_rows_list sample_limits 0 (auto_with reply)) sample_store = Inr (s', [oc], events)"
    and "ro_result oc = res" and "untouched sample_store s'"
proof -
  let ?ans = "gated_answers sample_group sample_rows_list sample_limits 0 (auto_with reply)"
  let ?handle = "\<lambda>g r. revalidate_rung (\<lambda>s. s) (env_read_iso sample_env) (env_show_iso sample_env) g r (Aware t)
    sample_policy (?ans (r_rung_index r))"
  have at0: "rung_in sample_store sample_group (r_rung_index pending_rung) PendingApproval"
    by (rule pending_row [OF wf_sample sample_locked sample_pending(1)])
  have i1: "r_rung_index (sample_rung 2 1 1 Resting (Some ''b1'')) = 1" by (simp add: sample_rung_def)
  have i0: "r_rung_index pending_rung = 0" by (simp add: pending_rung_def sample_rung_def)
  obtain s' oc where run: "?handle sample_group pending_rung sample_store = Inr (s', oc, events)"
    and oc: "ro_result oc = res" and mv: "moves sample_group 0 sample_store s'"
    using settles_place [OF at0 sample_pending(2), of "\<lambda>s. s" sample_policy "aa_place (?ans 0)" t]
    unfolding settles_def sample_gated_verdict assms by (auto simp: revalidate_rung_def sample_action i0)
  have at1: "rung_in sample_store sample_group 1 Resting"
    using row_rung_in [OF wf_sample, of sample_group "sample_rung 2 1 1 Resting (Some ''b1'')"]
    by (simp add: sample_store_def sample_rung_def sample_group_def new_group_def get_group_by_proposal_id_def)
  then have "rung_in s' sample_group 1 Resting" using mv unfolding moves_def by (metis zero_neq_one)
  then obtain r1 where r1: "rung_row sample_group 1 s' = Some r1" "r_state r1 = Resting" using rung_row_in by blast
  have row0: "rung_row sample_group 0 sample_store = Some pending_rung"
    by (simp add: rung_row_def list_rungs_def sample_store_def sample_rung_def sample_group_def new_group_def pending_rung_def)
  have "foldR (revalidate_step ?handle sample_group) (sample_store, [], []) [0, 1] = Inr (s', [oc], events)"
    using run r1 by (simp add: revalidate_step_def row0 sample_pending(1))
  moreover have "filter (\<lambda>r. r_state r = PendingApproval) sample_rows_list = [pending_rung]"
    by (simp add: pending_rung_def sample_rung_def)
  ultimately have "revalidate_and_submit (\<lambda>s. s) (env_read_iso sample_env) (env_show_iso sample_env) ''p0000001''
     (Aware t) (Some sample_policy) True open_reading ?ans sample_store = Inr (s', [oc], events)"
    by (simp add: revalidate_and_submit_def sample_rows sample_opens of_option_def i0 i1)
  moreover have "untouched sample_store s'" using mv unfolding moves_def by (elim conjE)
  ultimately show thesis using oc by (intro that)
qed

lemma sample_world_fields [simp]:
  "dw_digest sample_world = env_digest sample_env" "dw_sha sample_world = (\<lambda>s. s)"
  "dw_read_iso sample_world = env_read_iso sample_env" "dw_show_iso sample_world = env_show_iso sample_env"
  "dw_policy sample_world = (\<lambda>_. sample_limits)" "dw_render_veto sample_world = (\<lambda>_ _ _ _. [86])"
  by (simp_all add: sample_world_def)

lemma sample_limits_market: "limits_for_market (dw_policy sample_world) (g_market sample_group) = Some sample_limits"
  by (simp add: limits_for_market_def POLICY_MARKET_def)

lemma sample_fresh: "attempt_fresh sample_store (au_attempt_id sample_auto)"
  by (simp add: attempt_fresh_def sample_store_def)

lemma sample_veto_text: "is_ok (telegram_text_length (dw_render_veto sample_world g rs version b))"
  by (simp add: telegram_text_length_def surrogate_def)

lemma sample_rollup: "rollup_inv sample_store"
  by (simp add: rollup_inv_def sample_store_def sample_group_def old_group_def new_group_def list_rungs_def
      sample_rung_def recompute_group_state_def Let_def)

text \<open>The automatic dispatch of the sample submits its order.\<close>

lemma sample_auto_dispatch:
  obtains s' messages where
    "auto_dispatch sample_world ''p0000001'' (Aware 20) sample_auto sample_store = Inr (s', sample_events, AutoSubmitted messages)"
proof (rule sample_window)
  fix window assume window: "boundary_at sample_group None False open_reading = Inr window" "window_allowed window"
    "wd_policy_stamp window = sample_policy"
  have au: "au_window sample_auto = open_reading" "au_first_window sample_auto = open_reading" by (simp_all add: auto_with_def)
  have one: "filter (\<lambda>r. r_state r = PendingApproval) sample_rows_list = [pending_rung]"
    by (simp add: pending_rung_def sample_rung_def)
  have fr: "attempt_fresh sample_store (au_attempt_id sample_auto)" by (rule sample_fresh)
  obtain s1 oc where run: "revalidate_and_submit (\<lambda>s. s) (env_read_iso sample_env) (env_show_iso sample_env) ''p0000001''
     (Aware (wd_observed_at window)) (Some sample_policy) True open_reading
     (gated_answers sample_group sample_rows_list sample_limits 0 sample_auto) sample_store = Inr (s1, [oc], sample_events)"
    and oc: "ro_result oc = SubmittedResting" by (rule sample_gated_run [OF sample_submit(1)])
  obtain s2 o2 e2 where run2: "revalidate_and_submit (\<lambda>s. s) (env_read_iso sample_env) (env_show_iso sample_env) ''p0000001''
     (Aware (wd_observed_at window)) (Some sample_policy) True open_reading
     (gated_answers sample_group sample_rows_list sample_limits 0 sample_auto) sample_store = Inr (s2, o2, e2)" and wf2: "wf_store s2"
    and open2: "all_submitted o2 (length (filter (\<lambda>r. r_state r = PendingApproval) sample_rows_list)) \<longrightarrow>
      (\<exists>g'. get_group_by_proposal_id s2 ''p0000001'' = Some g' \<and> g_id g' = g_id sample_group \<and>
        proposal_approval_block_reason g' = None \<and> attempt_fresh s2 (au_attempt_id sample_auto) \<and>
        (\<forall>r \<in> set sample_rows_list. r_state r = PendingApproval \<longrightarrow>
           (\<exists>r' \<in> set (list_rungs s2 (g_id sample_group)). r_rung_index r' = r_rung_index r \<and> r_state r' \<in> {Acked, Resting})))"
    by (rule submitted_run [OF wf_sample sample_rollup sample_rows(1) sample_pending(2) fr,
          where sha = "\<lambda>s. s" and read_iso = "env_read_iso sample_env" and show_iso = "env_show_iso sample_env"
            and t = "wd_observed_at window" and policy = sample_policy and w = open_reading
            and answers = "gated_answers sample_group sample_rows_list sample_limits 0 sample_auto"])
  have eq: "s2 = s1" "o2 = [oc]" using run run2 by simp_all
  have sub: "all_submitted [oc] (length (filter (\<lambda>r. r_state r = PendingApproval) sample_rows_list))"
    using oc one by (simp add: all_submitted_def is_submitted_def)
  then obtain g1 where g1: "get_group_by_proposal_id s1 ''p0000001'' = Some g1" "proposal_approval_block_reason g1 = None"
    "attempt_fresh s1 (au_attempt_id sample_auto)" using open2 eq by blast
  let ?entries = "gate_entries sample_world sample_group [pending_rung] sample_limits 0 sample_auto"
  obtain s3 messages where st: "stage_veto_card sample_world ''p0000001'' (al_policy_version sample_limits) ?entries [oc]
      (Aware 20) sample_auto s1 = Inr (s3, messages)"
    by (rule auto_veto_record [OF wf2 [unfolded eq] g1 sample_veto_text])
  have "auto_submit sample_world ''p0000001'' sample_group sample_rows_list window sample_limits (Aware 20) sample_auto sample_store =
      Inr (s3, sample_events, AutoSubmitted messages)"
    using sample_daily [OF sample_untouched] run sub st window(3) au one by (simp add: auto_submit_def Let_def map_error_def)
  moreover have "\<exists>r \<in> set sample_rows_list. r_state r = PendingApproval" by (simp add: pending_rung_def sample_rung_def)
  ultimately have "auto_dispatch sample_world ''p0000001'' (Aware 20) sample_auto sample_store =
      Inr (s3, sample_events, AutoSubmitted messages)"
    using window(1,2) au sample_limits_market by (simp add: auto_dispatch_def sample_rows(1) map_error_def)
  then show thesis by (rule that)
qed

theorem automatic_orders_are_within_policy_witness:
  "\<exists>rung price. filter (\<lambda>r. r_state r = PendingApproval) sample_rows_list = [rung] \<and> r_limit_price rung = Some price \<and>
     dec28 (price * r_quantity rung) \<le> al_per_order_cap sample_limits"
proof (rule sample_auto_dispatch)
  fix s' messages
  assume "auto_dispatch sample_world ''p0000001'' (Aware 20) sample_auto sample_store = Inr (s', sample_events, AutoSubmitted messages)"
  from automatic_orders_are_within_policy [OF wf_sample sample_rows(1) this,
      of "decision_at sample_group (Some sample_policy) open_reading"] sample_limits_market
  show ?thesis by (auto simp: sample_pending(1))
qed

theorem auto_submission_is_recorded_witness:
  "\<exists>s' events messages. auto_dispatch sample_world ''p0000001'' (Aware 20) sample_auto sample_store =
       Inr (s', events, AutoSubmitted messages) \<and>
     (\<exists>g'. get_group_by_proposal_id s' ''p0000001'' = Some g' \<and> auto_approved_at g' = Some 20 \<and> g_approval_nonce g' = Some ''v9'')"
proof (rule sample_auto_dispatch)
  fix s1 messages
  assume run: "auto_dispatch sample_world ''p0000001'' (Aware 20) sample_auto sample_store = Inr (s1, sample_events, AutoSubmitted messages)"
  show ?thesis
  proof (rule sample_window)
    fix window assume window: "boundary_at sample_group None False open_reading = Inr window" "window_allowed window"
    then have w: "boundary_at sample_group None False (au_window sample_auto) = Inr window" by (simp add: auto_with_def)
    have veto: "\<forall>g rs version b. is_ok (telegram_text_length (dw_render_veto sample_world g rs version b))"
      using sample_veto_text by blast
    have nonce: "au_veto_nonce sample_auto = ''v9''" by (simp add: auto_with_def)
    from auto_submission_is_recorded [OF wf_sample sample_rollup sample_rows(1) w window(2) sample_fresh veto, of 20]
    obtain s' events step where s': "auto_dispatch sample_world ''p0000001'' (Aware 20) sample_auto sample_store = Inr (s', events, step)"
      and rec: "case step of AutoSubmitted messages \<Rightarrow>
       (\<exists>g' a. get_group_by_proposal_id s' ''p0000001'' = Some g' \<and> auto_approved_at g' = Some 20 \<and>
          g_approval_nonce g' = Some (au_veto_nonce sample_auto) \<and> g_approval_nonce_used_at g' = None \<and>
          get_approval_dispatch_attempt s' (au_attempt_id sample_auto) = Some a \<and> a_state a = DPending \<and>
          a_card_kind a = AutoVeto \<and> is_current_owner (dw_digest sample_world) g' a) \<and>
       (\<forall>r \<in> set sample_rows_list. r_state r = PendingApproval \<longrightarrow>
          (\<exists>r' \<in> set (list_rungs s' (g_id sample_group)). r_rung_index r' = r_rung_index r \<and> r_state r' \<in> {Acked, Resting}))
     | _ \<Rightarrow> True" by blast
    have "step = AutoSubmitted messages" "s' = s1" using s' run by simp_all
    then show ?thesis using rec run nonce by auto
  qed
qed

section \<open>The undelivered veto card\<close>

lemma finish_by_owner:
  assumes wf: "wf_store s" and g: "get_group_by_proposal_id s pid = Some grp"
    and a: "get_approval_dispatch_attempt s aid = Some a" "a_state a = DPending" "a_proposal_pk a = g_id grp"
    and owner: "is_current_owner h grp a" and unsent: "\<not> p_card_published publication"
  obtains s' result where
    "finish_approval_dispatch h pid aid publication chat (Aware t) ps s = Inr (s', result)"
    "d_state result \<in> {DFailed, PartialFailed}" "wf_store s'" "db_rungs s' = db_rungs s"
    "get_group_by_proposal_id s' pid = Some (finish_group grp publication (d_state result)
       (snd (publication_outcome True grp publication)) chat t ps (grp\<lparr>g_updated_at := db_now s\<rparr>))"
proof -
  let ?o = "publication_outcome True grp publication"
  let ?s = "finish_attempt a publication (fst ?o) (snd ?o) t s"
  let ?g = "finish_group grp publication (fst ?o) (snd ?o) chat t ps (grp\<lparr>g_updated_at := db_now s\<rparr>)"
  have o: "fst ?o \<in> {DFailed, PartialFailed}" using unsent by (simp add: publication_outcome_def Let_def)
  have fin: "finish_approval_dispatch h pid aid publication chat (Aware t) ps s =
      Inr (put_group ?g ?s, from_publication publication (fst ?o) (snd ?o))"
    using g a owner unsent
    by (simp add: finish_approval_dispatch_def locked_group_def require_def of_option_def update_group_def Let_def)
  have wf1: "wf_store ?s"
    using evolves_wf [OF same_tables_evolves [OF wf]]
    by (simp add: same_tables_def finish_attempt_def update_approval_dispatch_attempt_def Let_def put_attempt_def)
  have r1: "get_group_by_proposal_id ?s pid = Some grp" using g by (simp add: get_group_by_proposal_id_def)
  have pay: "group_payload ?g = group_payload grp" by (simp add: finish_group_def Let_def group_payload_def)
  note rd = put_group_read [OF wf1 r1 pay]
  show thesis by (rule that [OF fin]) (use o rd in simp_all)
qed

text \<open>
  What the compensation does: it takes every live order back, each rung gets the state its broker proved, and
  the failure is noted.
\<close>

lemma compensation_recorded:
  assumes wf: "wf_store s" and gp: "get_proposal pid s = Inr (g1, rungs)" and dead: "g_approval_nonce g1 = None"
    and locks: "acquire_auto_veto_locks rungs = Inr ()"
  shows "\<exists>s' g' note. compensate pid result (Aware t) answers s =
      Inr (s', map (\<lambda>r. the (r_broker_order_id r)) (filter must_cancel rungs)) \<and>
    get_group_by_proposal_id s' pid = Some g' \<and>
    (\<forall>n. spent n g') \<and> dict_get (auto_dict g') ''notification_failure'' = Some (JObj note) \<and>
    (\<forall>r \<in> set rungs. must_cancel r \<longrightarrow> (\<exists>r' \<in> set (list_rungs s' (g_id g1)). r_rung_index r' = r_rung_index r \<and>
       (r_state r' = Cancelled \<longleftrightarrow> status_after (va_fetch (answers (r_rung_index r))) = Inr ''cancelled'')))"
proof -
  note g = get_proposal_rows [OF gp]
  have rows: "rung_in s g1 (r_rung_index r) (r_state r)" if "r \<in> set rungs" for r
    using row_rung_in [OF wf, of g1 r] g that by simp
  have "distinct (map r_rung_index rungs)" using distinct_rung_indices [OF wf] g(3) by simp
  from veto_run [OF wf rows this, of t answers "[]" "[]"] obtain u where
    run: "cancel_auto_submitted_rungs g1 rungs (Aware t) answers s =
      Inr (u, map (\<lambda>r. \<lparr>vo_rung_index = r_rung_index r, vo_result = veto_verdict r (answers (r_rung_index r))\<rparr>) rungs,
           map (\<lambda>r. the (r_broker_order_id r)) (filter must_cancel rungs))"
    and e: "evolves {} s u"
    and all: "\<forall>r \<in> set rungs. rung_in u g1 (r_rung_index r) (veto_state (veto_verdict r (answers (r_rung_index r))) (r_state r))"
    by (auto simp: cancel_auto_submitted_rungs_def)
  let ?out = "map (\<lambda>r. \<lparr>vo_rung_index = r_rung_index r, vo_result = veto_verdict r (answers (r_rung_index r))\<rparr>) rungs"
  have wf2: "wf_store u" by (rule evolves_wf [OF e])
  have "g1 \<in> set (db_groups s)" using get_group_in [OF g(1)] by (rule conjunct1)
  then obtain g2 where g2: "group_evolves {} g1 g2" "g2 \<in> set (db_groups u)"
    using e unfolding evolves_def by blast
  have "group_payload g2 = group_payload g1" using g2(1) unfolding group_evolves_def by (rule conjunct1)
  from group_payload_fields [OF this] have pid2: "g_proposal_id g2 = pid" using g(2) by simp
  then have r2: "get_group_by_proposal_id u pid = Some g2" using group_is [OF wf2 g2(2)] by simp
  have spent2: "\<forall>n. spent n g2" using g2(1) dead by (simp add: group_evolves_def spent_def)
  let ?error = "if truthy (d_failure_code result) then the (d_failure_code result) else ''telegram_dispatch_failed''"
  let ?note = "[(''error'', JStr ?error), (''handled_at'', JTime t), (''outcomes'', JArr (map veto_json ?out))]"
  let ?g3 = "g2\<lparr>g_updated_at := db_now u, g_source_asof :=
    Some (dict_set ''auto_approved'' (JObj (dict_set ''notification_failure'' (JObj ?note) (auto_dict g2))) (or_empty (g_source_asof g2)))\<rparr>"
  have rec: "record_auto_notification_failure pid ?error (map veto_json ?out) (Aware t) u = Inr (put_group ?g3 u, ?g3)"
    using r2 by (simp add: record_auto_notification_failure_def record_auto_note_def locked_group_def update_group_def Let_def)
  have comp: "compensate pid result (Aware t) answers s =
      Inr (put_group ?g3 u, map (\<lambda>r. the (r_broker_order_id r)) (filter must_cancel rungs))"
    unfolding compensate_def gp using locks run rec by simp
  have read: "get_group_by_proposal_id (put_group ?g3 u) pid = Some ?g3"
    by (rule put_group_read(1) [OF wf2 r2]) (simp add: group_payload_def)
  have spent3: "\<forall>n. spent n ?g3" using spent2 by (simp add: spent_def)
  have noted: "dict_get (auto_dict ?g3) ''notification_failure'' = Some (JObj ?note)" by (simp add: auto_dict_def)
  have truth: "\<exists>r' \<in> set (list_rungs (put_group ?g3 u) (g_id g1)). r_rung_index r' = r_rung_index r \<and>
       (r_state r' = Cancelled \<longleftrightarrow> status_after (va_fetch (answers (r_rung_index r))) = Inr ''cancelled'')"
    if r: "r \<in> set rungs" "must_cancel r" for r
  proof -
    have "rung_in u g1 (r_rung_index r) (veto_state (veto_verdict r (answers (r_rung_index r))) (r_state r))"
      using all r(1) by blast
    from rung_in_row [OF this] obtain r' where r': "r' \<in> set (list_rungs u (g_id g1))" "r_rung_index r' = r_rung_index r"
      "r_state r' = veto_state (veto_verdict r (answers (r_rung_index r))) (r_state r)" by auto
    have "r_state r \<notin> {Filled, Cancelled}" using r(2) by (auto simp: must_cancel_def CANCELLABLE_STATES_def)
    then have "(r_state r' = Cancelled \<longleftrightarrow> status_after (va_fetch (answers (r_rung_index r))) = Inr ''cancelled'')"
      using r'(3) r(2) by (auto simp: veto_verdict_def veto_state_def failed_cancel_def split: sum.splits)
    moreover have "list_rungs (put_group ?g3 u) (g_id g1) = list_rungs u (g_id g1)" by (simp add: list_rungs_def)
    ultimately show ?thesis using r'(1,2) by auto
  qed
  show ?thesis
    by (intro exI conjI ballI impI, rule comp, rule read, rule spent3, rule noted, rule truth)
qed

text \<open>
  C10: An automatic submission whose veto card could not be delivered is taken back: a cancellation is
  requested for every order that may be open, the failure is recorded with what became of each rung,
  no nonce stays clickable, and a rung is cancelled exactly as the broker reports it.
\<close>

theorem undelivered_veto_card_takes_orders_back:
  assumes "wf_store s" and "get_proposal pid s = Inr (grp, rungs)"
    and "get_approval_dispatch_attempt s aid = Some a" and "a_state a = DPending" and "a_proposal_pk a = g_id grp"
    and "is_current_owner (dw_digest w) grp a" and "\<not> p_card_published publication"
    and "acquire_auto_veto_locks rungs = Inr ()"
  shows "\<exists>s' result g' note. finish_veto_card w pid aid publication (Aware t) answers s =
      Inr (s', map (\<lambda>r. the (r_broker_order_id r)) (filter must_cancel rungs), result) \<and>
    d_state result \<in> {DFailed, PartialFailed} \<and> get_group_by_proposal_id s' pid = Some g' \<and>
    (\<forall>n. spent n g') \<and> dict_get (auto_dict g') ''notification_failure'' = Some (JObj note) \<and>
    (\<forall>r \<in> set rungs. must_cancel r \<longrightarrow> (\<exists>r' \<in> set (list_rungs s' (g_id grp)). r_rung_index r' = r_rung_index r \<and>
       (r_state r' = Cancelled \<longleftrightarrow> status_after (va_fetch (answers (r_rung_index r))) = Inr ''cancelled'')))"
proof -
  let ?chat = "case dw_allowlist w of [] \<Rightarrow> None | chat_id # _ \<Rightarrow> Some chat_id"
  note g = get_proposal_rows [OF assms(2)]
  obtain s1 result where fin: "finish_approval_dispatch (dw_digest w) pid aid publication ?chat (Aware t) None s = Inr (s1, result)"
    and st: "d_state result \<in> {DFailed, PartialFailed}" and wf1: "wf_store s1" and rungs1: "db_rungs s1 = db_rungs s"
    and g1: "get_group_by_proposal_id s1 pid = Some (finish_group grp publication (d_state result)
       (snd (publication_outcome True grp publication)) ?chat t None (grp\<lparr>g_updated_at := db_now s\<rparr>))"
    by (rule finish_by_owner [OF assms(1) g(1) assms(3-7)])
  let ?g1 = "finish_group grp publication (d_state result) (snd (publication_outcome True grp publication)) ?chat t None
    (grp\<lparr>g_updated_at := db_now s\<rparr>)"
  have cols: "g_id ?g1 = g_id grp" "g_proposal_id ?g1 = pid" "g_approval_nonce ?g1 = None"
    using st g(2) by (auto simp: finish_group_def Let_def)
  have gp1: "get_proposal pid s1 = Inr (?g1, rungs)"
    using g1 g(3) rungs1 cols(1) by (simp add: get_proposal_def list_rungs_def)
  from compensation_recorded [OF wf1 gp1 cols(3) assms(8), of result t answers] obtain s2 g3 nt where
    comp: "compensate pid result (Aware t) answers s1 =
      Inr (s2, map (\<lambda>r. the (r_broker_order_id r)) (filter must_cancel rungs))"
    and post: "get_group_by_proposal_id s2 pid = Some g3" "\<forall>n. spent n g3"
      "dict_get (auto_dict g3) ''notification_failure'' = Some (JObj nt)"
      "\<forall>r \<in> set rungs. must_cancel r \<longrightarrow> (\<exists>r' \<in> set (list_rungs s2 (g_id grp)). r_rung_index r' = r_rung_index r \<and>
       (r_state r' = Cancelled \<longleftrightarrow> status_after (va_fetch (answers (r_rung_index r))) = Inr ''cancelled''))"
    unfolding cols(1) by (elim exE conjE) (rule that)
  have "finish_veto_card w pid aid publication (Aware t) answers s =
      Inr (s2, map (\<lambda>r. the (r_broker_order_id r)) (filter must_cancel rungs), result)"
    using fin st comp by (simp add: finish_veto_card_def)
  then show ?thesis using st post by (intro exI conjI)
qed

theorem undelivered_veto_card_takes_orders_back_witness:
  "\<exists>s s' result. finish_veto_card sample_world ''p0000001'' ''a9'' (publication_failed 1 ''telegram_transport_error'' False None)
     (Aware 30) sample_veto s = Inr (s', [''b1''], result)"
proof -
  have grp: "get_group_by_proposal_id sample_store ''p0000001'' = Some sample_group"
    by (simp add: get_group_by_proposal_id_def sample_store_def)
  have fr: "attempt_fresh sample_store ''a9''" by (simp add: attempt_fresh_def sample_store_def)
  obtain s a where st: "start_approval_dispatch (dw_digest sample_world) ''p0000001'' ''a9''
      (proposal_binding (dw_digest sample_world) sample_group (g_approval_nonce sample_group) ''a9'' AutoVeto) (Aware 20) 1 0 sample_store =
      Inr (s, a)" and rungs: "db_rungs s = db_rungs sample_store"
    by (rule start_total [OF grp fr, where kind = AutoVeto and n = 1 and k = 0 and t = 20 and h = "dw_digest sample_world"]) simp_all
  show ?thesis
    using start_makes_owner [OF wf_sample st grp]
  proof (cases rule: start_makes_owner [OF wf_sample st grp])
    case (1 g)
    have id: "g_id g = 1" using group_payload_fields [OF 1(9)] by (simp add: sample_group_def)
    have rows: "list_rungs s (g_id g) = [pending_rung, sample_rung 2 1 1 Resting (Some ''b1'')]"
      by (simp add: list_rungs_def rungs id sample_store_def sample_rung_def pending_rung_def)
    have gp: "get_proposal ''p0000001'' s = Inr (g, [pending_rung, sample_rung 2 1 1 Resting (Some ''b1'')])"
      using 1(1) rows by (simp add: get_proposal_def)
    have unsent: "\<not> p_card_published (publication_failed 1 ''telegram_transport_error'' False None)"
      by (simp add: publication_failed_def)
    have locks: "acquire_auto_veto_locks [pending_rung, sample_rung 2 1 1 Resting (Some ''b1'')] = Inr ()"
      by code_simp
    have must: "filter must_cancel [pending_rung, sample_rung 2 1 1 Resting (Some ''b1'')] = [sample_rung 2 1 1 Resting (Some ''b1'')]"
      by (simp add: must_cancel_def pending_rung_def sample_rung_def CANCELLABLE_STATES_def truthy_def)
    have order: "r_broker_order_id (sample_rung 2 1 1 Resting (Some ''b1'')) = Some ''b1''" by (simp add: sample_rung_def)
    from undelivered_veto_card_takes_orders_back [OF 1(3) gp 1(2,5,4,6) unsent locks, of 30 sample_veto]
    show ?thesis using must order by auto
  qed
qed

section \<open>A card is sent from a committed attempt\<close>

text \<open>What the first transaction has left when the card is ready.\<close>

definition card_committed :: "dispatch_world \<Rightarrow> uuid \<Rightarrow> send_answers \<Rightarrow> store \<Rightarrow> bool" where
  "card_committed w pid ans s \<longleftrightarrow> (\<exists>g a. get_group_by_proposal_id s pid = Some g \<and>
     proposal_approval_block_reason g = None \<and> g_approval_nonce g = Some (sa_nonce ans) \<and> g_approval_nonce_used_at g = None \<and>
     get_approval_dispatch_attempt s (sa_attempt_id ans) = Some a \<and> a_state a = DPending \<and> a_card_kind a = Manual \<and>
     is_current_owner (dw_digest w) g a)"

lemma set_nonce_group:
  assumes "wf_store s" and "set_approval_nonce pid nonce redispatch s = Inr s'"
  obtains grp g where "get_group_by_proposal_id s pid = Some grp" "get_group_by_proposal_id s' pid = Some g" "wf_store s'"
    "proposal_approval_block_reason g = None" "g_approval_nonce g = Some nonce" "g_approval_nonce_used_at g = None"
    "redispatch \<Longrightarrow> g_approval_dispatch_state grp \<noteq> Some DPending \<and>
       (g_approval_dispatch_state grp = Some SentCurrent \<longrightarrow> g_approval_nonce_used_at grp \<noteq> None)"
proof -
  from assms(2) obtain grp where grp: "get_group_by_proposal_id s pid = Some grp"
    and live: "proposal_approval_block_reason grp = None"
    and fence: "redispatch \<longrightarrow> g_approval_dispatch_state grp \<noteq> Some DPending \<and>
       (g_approval_dispatch_state grp = Some SentCurrent \<longrightarrow> g_approval_nonce_used_at grp \<noteq> None)"
    and s': "s' = fst (update_group grp (\<lambda>g. g\<lparr>
                  g_approval_nonce := Some nonce, g_approval_nonce_used_at := None,
                  g_approval_dispatch_state := Some DFailed, g_approval_dispatch_published_at := None,
                  g_approval_dispatch_failure_code := Some ''approval_dispatch_snapshot_missing''\<rparr>) s)"
    by (auto simp: set_approval_nonce_def bindR_eq_Inr split: option.splits if_splits)
  let ?g = "grp\<lparr>g_updated_at := db_now s, g_approval_nonce := Some nonce, g_approval_nonce_used_at := None,
     g_approval_dispatch_state := Some DFailed, g_approval_dispatch_published_at := None,
     g_approval_dispatch_failure_code := Some ''approval_dispatch_snapshot_missing''\<rparr>"
  have eq: "s' = put_group ?g s" using s' by (simp add: update_group_def Let_def)
  have pay: "group_payload ?g = group_payload grp" by (simp add: group_payload_def)
  note rd = put_group_read [OF assms(1) grp pay, folded eq]
  show thesis using live fence by (intro that [OF grp rd]) (simp_all add: block_reason_None)
qed

lemma ready_card:
  assumes "wf_store s" and "prepare_card (dw_digest w) (dw_render w) pid redispatch ans s = Inr (s', ReadyToPublish messages d)"
  shows "card_committed w pid ans s' \<and> window_allowed d \<and>
    (\<exists>grp. get_group_by_proposal_id s pid = Some grp \<and>
      (redispatch \<longrightarrow> g_approval_dispatch_state grp \<noteq> Some DPending \<and>
        (g_approval_dispatch_state grp = Some SentCurrent \<longrightarrow> g_approval_nonce_used_at grp \<noteq> None)))"
proof -
  from assms(2) obtain window where st: "stage_card (dw_digest w) (dw_render w) pid redispatch window ans s = Inr (s', ReadyToPublish messages d)"
    by (auto simp: prepare_card_def blocked_send_def bindR_eq_Inr split: if_splits)
  then obtain s1 g1 rungs a n k where nonce: "set_approval_nonce pid (sa_nonce ans) redispatch s = Inr s1"
    and gp: "get_proposal pid s1 = Inr (g1, rungs)" and allowed: "window_allowed d"
    and start: "start_approval_dispatch (dw_digest w) pid (sa_attempt_id ans)
       (proposal_binding (dw_digest w) g1 (Some (sa_nonce ans)) (sa_attempt_id ans) Manual)
       (Aware (wd_observed_at d)) n k s1 = Inr (s', a)"
    by (auto simp: stage_card_def blocked_send_def bindR_eq_Inr Let_def split: if_splits)
  from assms(1) nonce show ?thesis
  proof (cases rule: set_nonce_group)
    case (1 grp g)
    from 1(3) start 1(2) show ?thesis
    proof (cases rule: start_makes_owner)
      case own: (1 g')
      have "proposal_approval_block_reason g' = None" using 1(4) own(10,11) by (simp add: block_reason_None)
      moreover have "a_card_kind a = Manual"
        using own(6,14) by (simp add: is_current_owner_def proposal_binding_def build_proposal_dispatch_binding_def Let_def)
      ultimately have "card_committed w pid ans s'"
        using own(1,2,5,6,7,8) 1(5,6) unfolding card_committed_def by auto
      then show ?thesis using allowed 1(1,7) by auto
    qed
  qed
qed

text \<open>
  C30: Nothing is sent for approval unless the first transaction committed an approvable proposal with
  a fresh nonce and a pending attempt that owns the card, under an open window; on a redispatch no
  other attempt was pending and no unused card was current.
\<close>

theorem card_is_sent_from_a_committed_attempt:
  assumes "wf_store (bd_store db)"
    and "send_proposal_for_approval w pid now redispatch ans others db = Inr (db', out, answer)" and "out \<noteq> []"
  shows "\<exists>s1 messages d grp. prepare_card (dw_digest w) (dw_render w) pid redispatch (ca_send ans) (bd_store db) =
       Inr (s1, ReadyToPublish messages d) \<and> card_committed w pid (ca_send ans) s1 \<and> window_allowed d \<and>
     get_group_by_proposal_id (bd_store db) pid = Some grp \<and>
     (redispatch \<longrightarrow> g_approval_dispatch_state grp \<noteq> Some DPending \<and>
        (g_approval_dispatch_state grp = Some SentCurrent \<longrightarrow> g_approval_nonce_used_at grp \<noteq> None))"
proof -
  obtain chat_id rest where chats: "dw_allowlist w = chat_id # rest"
    using assms(2,3) by (cases "dw_allowlist w") (auto simp: send_proposal_for_approval_def bindR_eq_Inr)
  then obtain s1 prepared where
    prep0: "prepare_card (dw_digest w) (dw_render w) pid redispatch (ca_send ans) (bd_store db) = Inr (s1, prepared)"
    using assms(2) by (auto simp: send_proposal_for_approval_def bindR_eq_Inr map_error_def split: sum.splits)
  obtain messages d where
    prep: "prepare_card (dw_digest w) (dw_render w) pid redispatch (ca_send ans) (bd_store db) = Inr (s1, ReadyToPublish messages d)"
    using assms(2,3) chats prep0
    by (cases prepared) (auto simp: send_proposal_for_approval_def map_error_def)
  from ready_card [OF assms(1) prep] prep show ?thesis by blast
qed

definition sample_send :: card_answers where
  "sample_send = \<lparr>ca_send = \<lparr>sa_attempt_id = ''a9'', sa_nonce = ''n9'', sa_window1 = open_reading,
       sa_window2 = open_reading, sa_window3 = open_reading\<rparr>,
     ca_notifier = (\<lambda>_. Inl ''timeout''), 
     ca_batch = \<lparr>ba_draw = \<lparr>dr_batch_id = ''bb'', dr_nonce = ''bn'', dr_attempt_id = ''ba''\<rparr>, ba_windows = (\<lambda>_. open_reading),
       ba_final_now = 1, ba_publish_now = 1, ba_notifier = (\<lambda>_. Inl ''timeout'')\<rparr>\<rparr>"

definition sample_batches :: batch_db where
  "sample_batches = \<lparr>bd_store = sample_store, bd_batches = [], bd_members = [], bd_batch_seq = 1, bd_member_seq = 1\<rparr>"

theorem card_is_sent_from_a_committed_attempt_witness:
  "\<exists>s1. card_committed sample_world ''p0000001'' (ca_send sample_send) s1"
proof -
  have "(case send_proposal_for_approval sample_world ''p0000001'' (Aware 0) False sample_send (\<lambda>_ d. d) sample_batches of
      Inl _ \<Rightarrow> False | Inr (_, out, _) \<Rightarrow> out \<noteq> [])"
    by code_simp
  then obtain db' out answer where run: "send_proposal_for_approval sample_world ''p0000001'' (Aware 0) False sample_send
      (\<lambda>_ d. d) sample_batches = Inr (db', out, answer)" and "out \<noteq> []"
    by (auto split: sum.splits)
  moreover have "wf_store (bd_store sample_batches)" using wf_sample by (simp add: sample_batches_def)
  ultimately show ?thesis
    using card_is_sent_from_a_committed_attempt by blast
qed

section \<open>The daily cap\<close>

text \<open>
  An automatic order whose submission is ambiguous was posted, yet the proposal is not marked as
  approved automatically: the day's notional does not contain it.
\<close>

lemma lost_order_escapes_the_daily_cap:
  "\<exists>s' events. auto_dispatch sample_world ''p0000001'' (Aware 20) (auto_with (Inl ''timeout'')) sample_store =
     Inr (s', events, AutoDeclined) \<and> posted events \<and>
     auto_approved_daily_notional sample_group (Aware 20) s' = Inr 0"
proof (rule sample_window)
  fix window assume window: "boundary_at sample_group None False open_reading = Inr window" "window_allowed window"
    "wd_policy_stamp window = sample_policy"
  have au: "au_window (auto_with r) = open_reading" "au_first_window (auto_with r) = open_reading" for r
    by (simp_all add: auto_with_def)
  have v: "place_verdict (\<lambda>s. s) sample_group pending_rung sample_policy (sample_place (Inl ''timeout'')) =
      (Unverified, OutcomeUnverified, sample_events)"
    unfolding sample_verdict
    by (simp add: submit_verdict_def call_verdict_def sample_place_def sample_opens exception_verdict_def Let_def)
  obtain s1 oc where run: "revalidate_and_submit (\<lambda>s. s) (env_read_iso sample_env) (env_show_iso sample_env) ''p0000001''
     (Aware (wd_observed_at window)) (Some sample_policy) True open_reading
     (gated_answers sample_group sample_rows_list sample_limits 0 (auto_with (Inl ''timeout''))) sample_store =
     Inr (s1, [oc], sample_events)"
    and oc: "ro_result oc = OutcomeUnverified" and u: "untouched sample_store s1" by (rule sample_gated_run [OF v])
  have "auto_submit sample_world ''p0000001'' sample_group sample_rows_list window sample_limits (Aware 20)
      (auto_with (Inl ''timeout'')) sample_store = Inr (s1, sample_events, AutoDeclined)"
    using sample_daily [OF sample_untouched] run oc window(3) au
    by (simp add: auto_submit_def Let_def map_error_def all_submitted_def is_submitted_def)
  moreover have "\<exists>r \<in> set sample_rows_list. r_state r = PendingApproval" by (simp add: pending_rung_def sample_rung_def)
  ultimately have "auto_dispatch sample_world ''p0000001'' (Aware 20) (auto_with (Inl ''timeout'')) sample_store =
      Inr (s1, sample_events, AutoDeclined)"
    using window(1,2) au sample_limits_market by (simp add: auto_dispatch_def sample_rows(1) map_error_def)
  moreover have "posted sample_events" by (simp add: posted_def)
  ultimately show ?thesis using sample_daily [OF u] by blast
qed

end
