(* ===== verification/CallbackData.thy ===== *)
theory CallbackData
  imports ApprovalContract PyText
begin

text \<open>
  The data of a card's buttons (\<open>order_proposals/approval_message.py\<close>, \<open>build_callback_data\<close> to
  \<open>_base36_decode\<close>): action, eight characters of the subject, the attempt's UUID in base64, the
  revision in base36, the digest and the nonce, within Telegram's 64 bytes. What is built parses back.
  \<open>urlsafe_b64encode\<close>, \<open>int(_, 36)\<close> and the fields of the pattern are those of the standard library
  on the texts that reach them.
\<close>

section \<open>Alphabets\<close>

definition base36_alphabet :: string where
  "base36_alphabet = ''0123456789abcdefghijklmnopqrstuvwxyz''"

definition urlsafe_alphabet :: string where
  "urlsafe_alphabet = ''ABCDEFGHIJKLMNOPQRSTUVWXYZabcdefghijklmnopqrstuvwxyz0123456789-_''"

definition hex_alphabet :: string where "hex_alphabet = ''0123456789abcdef''"

fun position :: "'a list \<Rightarrow> 'a \<Rightarrow> nat option" where
  "position [] c = None"
| "position (x # xs) c = (if x = c then Some 0 else map_option Suc (position xs c))"

lemma position_nth: "distinct xs \<Longrightarrow> n < length xs \<Longrightarrow> position xs (xs ! n) = Some n"
  by (induction xs arbitrary: n) (auto simp: nth_Cons' gr0_conv_Suc split: if_splits)

lemma position_some: "c \<in> set xs \<Longrightarrow> \<exists>n. position xs c = Some n \<and> n < length xs \<and> xs ! n = c"
  by (induction xs) auto

lemma alphabets:
  "distinct base36_alphabet" "length base36_alphabet = 36"
  "distinct urlsafe_alphabet" "length urlsafe_alphabet = 64"
  "distinct hex_alphabet" "length hex_alphabet = 16"
  by (simp_all add: base36_alphabet_def urlsafe_alphabet_def hex_alphabet_def)

lemma no_separator:
  "CHR '':'' \<notin> set base36_alphabet" "CHR '':'' \<notin> set urlsafe_alphabet" "CHR '':'' \<notin> set hex_alphabet"
  "CHR ''='' \<notin> set urlsafe_alphabet" "CHR ''-'' \<notin> set hex_alphabet"
  by (simp_all add: base36_alphabet_def urlsafe_alphabet_def hex_alphabet_def)

section \<open>Base 36\<close>

fun base36_digits :: "nat \<Rightarrow> string \<Rightarrow> string" where
  "base36_digits v encoded =
     (if v = 0 then encoded else base36_digits (v div 36) (base36_alphabet ! (v mod 36) # encoded))"

declare base36_digits.simps [simp del]

definition base36_encode :: "int \<Rightarrow> (string, string) result" where
  "base36_encode v = bindR (require (0 < v) ''base36 value must be positive'') (\<lambda>_. Inr (base36_digits (nat v) []))"

fun base36_value :: "nat \<Rightarrow> string \<Rightarrow> nat option" where
  "base36_value acc [] = Some acc"
| "base36_value acc (c # cs) = (case position base36_alphabet c of
     None \<Rightarrow> None
   | Some d \<Rightarrow> base36_value (acc * 36 + d) cs)"

definition base36_decode :: "string \<Rightarrow> (string, int) result" where
  "base36_decode t =
     bindR (of_option ''invalid literal for int() with base 36'' (if t = [] then None else base36_value 0 t)) (\<lambda>n.
     bindR (require (0 < n) ''base36 value must be positive'') (\<lambda>_. Inr (int n)))"

lemma base36_value_digits: "base36_value 0 (base36_digits v cs) = base36_value v cs"
proof (induction v cs rule: base36_digits.induct)
  case (1 v cs)
  show ?case
  proof (cases "v = 0")
    case False
    then have "base36_value 0 (base36_digits v cs) = base36_value (v div 36) (base36_alphabet ! (v mod 36) # cs)"
      using 1 by (simp add: base36_digits.simps [of v])
    also have "\<dots> = base36_value v cs"
      using position_nth [OF alphabets(1), of "v mod 36"] by (simp add: alphabets(2))
    finally show ?thesis .
  qed (simp add: base36_digits.simps)
qed

lemma base36_digits_acc: "base36_digits v cs = base36_digits v [] @ cs"
proof (induction v arbitrary: cs rule: less_induct)
  case (less v)
  show ?case
  proof (cases "v = 0")
    case False
    have "base36_digits (v div 36) (x # cs) = base36_digits (v div 36) [x] @ cs" for x
      using less [of "v div 36" "x # cs"] less [of "v div 36" "[x]"] False by simp
    then show ?thesis using False by (simp add: base36_digits.simps [of v])
  qed (simp add: base36_digits.simps)
qed

lemma base36_digits_set: "set (base36_digits v []) \<subseteq> set base36_alphabet"
proof (induction v rule: less_induct)
  case (less v)
  have "base36_alphabet ! (v mod 36) \<in> set base36_alphabet"
    by (rule nth_mem) (simp add: alphabets(2))
  then show ?case
    using less [of "v div 36"]
    by (cases "v = 0")
       (simp_all add: base36_digits.simps [of v] base36_digits.simps [of 0] base36_digits_acc [of "v div 36" "[x]" for x])
qed

lemma base36_digits_length: "v \<noteq> 0 \<Longrightarrow> length (base36_digits v []) = Suc (length (base36_digits (v div 36) []))"
  by (simp add: base36_digits.simps [of v] base36_digits_acc [of "v div 36" "[x]" for x])

lemma base36_digits_bounded: "length (base36_digits v []) \<le> n \<longleftrightarrow> v < 36 ^ n"
proof (induction n arbitrary: v)
  case 0
  show ?case by (cases "v = 0") (simp_all add: base36_digits_length base36_digits.simps [of 0])
next
  case (Suc n)
  show ?case
  proof (cases "v = 0")
    case False
    then have "length (base36_digits v []) \<le> Suc n \<longleftrightarrow> v div 36 < 36 ^ n"
      by (simp add: base36_digits_length Suc)
    also have "\<dots> \<longleftrightarrow> v < 36 ^ Suc n" unfolding power_Suc2 by (rule div_less_iff_less_mult) simp
    finally show ?thesis .
  qed (simp add: base36_digits.simps)
qed

lemma base36_roundtrip:
  assumes "base36_encode v = Inr t"
  shows "base36_decode t = Inr v"
proof -
  have t: "0 < v" "t = base36_digits (nat v) []" using assms by (auto simp: base36_encode_def bindR_eq_Inr)
  then have "t \<noteq> []" using base36_digits_bounded [of "nat v" 0] by auto
  moreover have "base36_value 0 t = Some (nat v)" by (simp add: t base36_value_digits)
  ultimately show ?thesis using t(1) by (simp add: base36_decode_def require_def)
qed

section \<open>UUIDs and base 64\<close>

text \<open>The text of a UUID: the hex of its bytes, in groups of 4, 2, 2, 2 and 6.\<close>

definition hex_byte :: "nat \<Rightarrow> string" where
  "hex_byte b = [hex_alphabet ! (b div 16), hex_alphabet ! (b mod 16)]"

definition hex_text :: "nat list \<Rightarrow> string" where "hex_text bs = concat (map hex_byte bs)"

definition uuid_text :: "nat list \<Rightarrow> uuid" where
  "uuid_text bs = join ''-'' [hex_text (take 4 bs), hex_text (take 2 (drop 4 bs)), hex_text (take 2 (drop 6 bs)),
                            hex_text (take 2 (drop 8 bs)), hex_text (drop 10 bs)]"

fun hex_bytes :: "string \<Rightarrow> nat list" where
  "hex_bytes (c # d # cs) = (case (position hex_alphabet c, position hex_alphabet d) of
     (Some h, Some l) \<Rightarrow> (h * 16 + l) # hex_bytes cs
   | _ \<Rightarrow> [])"
| "hex_bytes _ = []"

definition uuid_bytes :: "uuid \<Rightarrow> nat list" where
  "uuid_bytes u = hex_bytes (filter (\<lambda>c. c \<noteq> CHR ''-'') u)"

text \<open>The texts that are the text of a UUID.\<close>

definition wf_uuid :: "uuid \<Rightarrow> bool" where
  "wf_uuid u \<longleftrightarrow> length (uuid_bytes u) = 16 \<and> uuid_text (uuid_bytes u) = u"

abbreviation sextet :: "nat \<Rightarrow> char" where "sextet n \<equiv> urlsafe_alphabet ! n"

fun b64_encode :: "nat list \<Rightarrow> string" where
  "b64_encode [] = []"
| "b64_encode [a] = [sextet (a div 4), sextet (a mod 4 * 16), CHR ''='', CHR ''='']"
| "b64_encode [a, b] =
     [sextet (a div 4), sextet (a mod 4 * 16 + b div 16), sextet (b mod 16 * 4), CHR ''='']"
| "b64_encode (a # b # c # bs) =
     [sextet (a div 4), sextet (a mod 4 * 16 + b div 16), sextet (b mod 16 * 4 + c div 64), sextet (c mod 64)]
     @ b64_encode bs"

text \<open>Padding ends the text; the bits that do not fill a byte are dropped.\<close>

fun b64_decode :: "string \<Rightarrow> nat list option" where
  "b64_decode [] = Some []"
| "b64_decode (p # q # r # t # cs) =
     (case (position urlsafe_alphabet p, position urlsafe_alphabet q) of
        (Some i, Some j) \<Rightarrow>
          if r = CHR ''='' \<and> t = CHR ''='' then Some [i * 4 + j div 16]
          else (case position urlsafe_alphabet r of
             None \<Rightarrow> None
           | Some k \<Rightarrow>
               if t = CHR ''='' then Some [i * 4 + j div 16, j mod 16 * 16 + k div 4]
               else (case position urlsafe_alphabet t of
                  None \<Rightarrow> None
                | Some l \<Rightarrow> map_option
                    (\<lambda>bs. (i * 4 + j div 16) # (j mod 16 * 16 + k div 4) # (k mod 4 * 64 + l) # bs) (b64_decode cs)))
      | _ \<Rightarrow> None)"
| "b64_decode _ = None"

definition encode_uuid :: "uuid \<Rightarrow> string" where
  "encode_uuid u = rev (dropWhile (\<lambda>c. c = CHR ''='') (rev (b64_encode (uuid_bytes u))))"

definition decode_uuid :: "string \<Rightarrow> (string, uuid) result" where
  "decode_uuid t =
     bindR (of_option ''invalid compact UUID'' (b64_decode (t @ ''==''))) (\<lambda>bs.
     bindR (require (length bs = 16) ''invalid compact UUID'') (\<lambda>_. Inr (uuid_text bs)))"

section \<open>Callback data\<close>

definition ALLOWED_ACTIONS :: "string set" where "ALLOWED_ACTIONS = {''op'', ''dn'', ''lc'', ''vc'', ''ba''}"

definition MAX_CALLBACK_BYTES :: nat where "MAX_CALLBACK_BYTES = 64"

definition safe_token :: "string \<Rightarrow> bool" where
  "safe_token t \<longleftrightarrow> t \<noteq> [] \<and> set t \<subseteq> set urlsafe_alphabet"

definition build_callback_data :: "string \<Rightarrow> uuid \<Rightarrow> string \<Rightarrow> dispatch_binding \<Rightarrow> (string, string) result" where
  "build_callback_data action proposal_id nonce binding =
     bindR (require (action \<in> ALLOWED_ACTIONS) ''action must be one of: op, dn, lc, vc, ba'') (\<lambda>_.
     bindR (require (safe_token nonce) ''nonce must be a non-empty URL-safe token'') (\<lambda>_.
     bindR (require (0 < b_membership_revision binding) ''membership_revision must be positive'') (\<lambda>_.
     bindR (base36_encode (b_membership_revision binding)) (\<lambda>revision.
     bindR (require (length revision \<le> 3) ''membership_revision exceeds callback capacity'') (\<lambda>_.
     bindR (require (length (b_membership_digest binding) = 12 \<and> safe_token (b_membership_digest binding))
              ''membership_digest must be a 12-character URL-safe token'') (\<lambda>_.
       let data = join '':'' [action, take 8 proposal_id, encode_uuid (b_attempt_id binding), revision,
                            b_membership_digest binding, nonce]
       in if length data > MAX_CALLBACK_BYTES then Inl ''callback data must not exceed 64 bytes''
          else Inr data))))))"

definition build_batch_callback_data :: "uuid \<Rightarrow> string \<Rightarrow> dispatch_binding \<Rightarrow> (string, string) result" where
  "build_batch_callback_data batch_id nonce binding =
     (if b_card_kind binding \<noteq> Batch then Inl ''batch callback requires a batch card binding''
      else build_callback_data ''ba'' batch_id nonce binding)"

text \<open>No class of the pattern holds a colon: the groups are the fields between the colons.\<close>

fun colon_fields :: "string \<Rightarrow> string list" where
  "colon_fields [] = [[]]"
| "colon_fields (c # cs) =
     (if c = CHR '':'' then [] # colon_fields cs
      else (case colon_fields cs of [] \<Rightarrow> [[c]] | w # ws \<Rightarrow> (c # w) # ws))"

definition callback_pattern ::
  "string \<Rightarrow> (string \<times> string \<times> string \<times> string \<times> string \<times> string) option" where
  "callback_pattern data = (case colon_fields data of
     [action, short, attempt, revision, digest, nonce] \<Rightarrow>
       if action \<in> ALLOWED_ACTIONS \<and> length short = 8 \<and> set short \<subseteq> set hex_alphabet \<and>
          length attempt = 22 \<and> set attempt \<subseteq> set urlsafe_alphabet \<and>
          1 \<le> length revision \<and> length revision \<le> 3 \<and> set revision \<subseteq> set base36_alphabet \<and>
          length digest = 12 \<and> set digest \<subseteq> set urlsafe_alphabet \<and> safe_token nonce
       then Some (action, short, attempt, revision, digest, nonce) else None
   | _ \<Rightarrow> None)"

definition parse_callback_data :: "string option \<Rightarrow> (string, callback_envelope) result" where
  "parse_callback_data data = (case data of
     None \<Rightarrow> Inl ''malformed callback data''
   | Some d \<Rightarrow>
       if length d > MAX_CALLBACK_BYTES then Inl ''malformed callback data''
       else (case callback_pattern d of
          None \<Rightarrow> Inl ''malformed callback data''
        | Some (action, short, attempt, revision, digest, nonce) \<Rightarrow>
            map_error (\<lambda>_. ''malformed callback data'')
              (bindR (decode_uuid attempt) (\<lambda>attempt_id.
               bindR (base36_decode revision) (\<lambda>n.
                 Inr \<lparr>cb_action = action, cb_subject_short = short, cb_attempt_id = attempt_id,
                      cb_membership_revision = n, cb_membership_digest = digest, cb_nonce = nonce\<rparr>)))))"

section \<open>What is built parses back\<close>

lemma position_bound: "position xs c = Some n \<Longrightarrow> n < length xs"
  by (induction xs arbitrary: n) (auto split: if_splits)

lemma sextet_position: "n < 64 \<Longrightarrow> position urlsafe_alphabet (sextet n) = Some n"
  by (rule position_nth) (simp_all add: alphabets)

lemma sextet_safe: "n < 64 \<Longrightarrow> sextet n \<in> set urlsafe_alphabet"
  by (rule nth_mem) (simp add: alphabets)

lemma sextet_no_padding: "n < 64 \<Longrightarrow> sextet n \<noteq> CHR ''=''"
  using sextet_safe [of n] no_separator(4) by metis

lemma div_block: "y < n \<Longrightarrow> (x * n + y) div n = (x::nat)" "y < n \<Longrightarrow> (x * n + y) mod n = (y::nat)"
  by simp_all

lemma byte_parts:
  assumes "b < (256::nat)"
  shows "b div 4 < 64" "b div 16 < 16" "b div 64 < 4" "b mod 4 < 4" "b mod 16 < 16" "b mod 64 < 64"
  using assms by (simp_all add: less_mult_imp_div_less)

lemma sextet_bounds:
  assumes "a < (256::nat)" "b < 256" "c < 256"
  shows "a div 4 < 64" "a mod 4 * 16 < 64" "a mod 4 * 16 + b div 16 < 64" "b mod 16 * 4 < 64"
    "b mod 16 * 4 + c div 64 < 64" "c mod 64 < 64"
  using byte_parts [OF assms(1)] byte_parts [OF assms(2)] byte_parts [OF assms(3)] by linarith+

lemma sextet_join:
  assumes "a < (256::nat)" "b < 256" "c < 256"
  shows "a div 4 * 4 + (a mod 4 * 16 + b div 16) div 16 = a" "a div 4 * 4 + (a mod 4 * 16) div 16 = a"
    "(a mod 4 * 16 + b div 16) mod 16 * 16 + (b mod 16 * 4 + c div 64) div 4 = b"
    "(a mod 4 * 16 + b div 16) mod 16 * 16 + (b mod 16 * 4) div 4 = b"
    "(b mod 16 * 4 + c div 64) mod 4 * 64 + c mod 64 = c"
  unfolding div_block(1) [OF byte_parts(2) [OF assms(2)]] div_block(2) [OF byte_parts(2) [OF assms(2)]]
    div_block(1) [OF byte_parts(3) [OF assms(3)]] div_block(2) [OF byte_parts(3) [OF assms(3)]]
  by simp_all

lemma b64_decode_block:
  assumes "i < 64" "j < 64" "k < 64" "l < 64"
  shows "b64_decode (sextet i # sextet j # sextet k # sextet l # cs) = map_option
    (\<lambda>bs. (i * 4 + j div 16) # (j mod 16 * 16 + k div 4) # (k mod 4 * 64 + l) # bs) (b64_decode cs)"
  using assms by (simp add: sextet_position sextet_no_padding)

lemma b64_roundtrip: "\<forall>b \<in> set bs. b < 256 \<Longrightarrow> b64_decode (b64_encode bs) = Some bs"
proof (induction bs rule: b64_encode.induct)
  case (2 a)
  then show ?case
    using sextet_bounds [of a 0 0] sextet_join [of a 0 0] by (simp add: sextet_position)
next
  case (3 a b)
  then show ?case
    using sextet_bounds [of a b 0] sextet_join [of a b 0]
    by (simp add: sextet_position sextet_no_padding)
next
  case (4 a b c bs)
  then have small: "a < 256" "b < 256" "c < 256" and rest: "b64_decode (b64_encode bs) = Some bs" by simp_all
  show ?case
    unfolding b64_encode.simps append.simps
      b64_decode_block [OF sextet_bounds(1) [OF small] sextet_bounds(3) [OF small]
        sextet_bounds(5) [OF small] sextet_bounds(6) [OF small]]
      rest sextet_join(1,3,5) [OF small] option.map ..
qed simp

lemma b64_shape:
  "length bs = 3 * n + 1 \<Longrightarrow> \<forall>b \<in> set bs. b < 256 \<Longrightarrow>
     \<exists>t. b64_encode bs = t @ ''=='' \<and> length t = 4 * n + 2 \<and> set t \<subseteq> set urlsafe_alphabet"
proof (induction n arbitrary: bs)
  case 0
  then obtain a where a: "bs = [a]" "a < 256" by (cases bs) auto
  then show ?case
    using sextet_bounds [of a 0 0]
    by (intro exI [of _ "[sextet (a div 4), sextet (a mod 4 * 16)]"]) (simp add: sextet_safe)
next
  case (Suc n)
  then obtain a b c cs where bs: "bs = a # b # c # cs" "length cs = 3 * n + 1"
    by (cases bs; cases "tl bs"; cases "tl (tl bs)") auto
  have "\<forall>b \<in> set cs. b < 256" using Suc.prems bs by simp
  then obtain t where t: "b64_encode cs = t @ ''==''" "length t = 4 * n + 2" "set t \<subseteq> set urlsafe_alphabet"
    using Suc.IH [OF bs(2)] by blast
  have small: "a < 256" "b < 256" "c < 256" using Suc.prems bs by auto
  show ?case
    using sextet_bounds [OF small] t bs
    by (intro exI [of _ "[sextet (a div 4), sextet (a mod 4 * 16 + b div 16),
          sextet (b mod 16 * 4 + c div 64), sextet (c mod 64)] @ t"]) (simp add: sextet_safe)
qed

lemma hex_bytes_small: "b \<in> set (hex_bytes t) \<Longrightarrow> b < 256"
proof (induction t rule: hex_bytes.induct)
  case (1 c d cs)
  then obtain h l where p: "position hex_alphabet c = Some h" "position hex_alphabet d = Some l"
    by (cases "position hex_alphabet c"; cases "position hex_alphabet d") auto
  have "h < 16" "l < 16" using p position_bound by (fastforce simp: alphabets)+
  then have "h * 16 + l < 256" by linarith
  then show ?case using 1 p by auto
qed simp_all

lemma encoded_uuid:
  assumes "wf_uuid u"
  shows "length (encode_uuid u) = 22" "set (encode_uuid u) \<subseteq> set urlsafe_alphabet" "decode_uuid (encode_uuid u) = Inr u"
proof -
  have small: "\<forall>b \<in> set (uuid_bytes u). b < 256" by (simp add: uuid_bytes_def hex_bytes_small)
  then obtain t where t: "b64_encode (uuid_bytes u) = t @ ''==''" "length t = 22" "set t \<subseteq> set urlsafe_alphabet"
    using b64_shape [of "uuid_bytes u" 5] assms by (auto simp: wf_uuid_def)
  have "\<forall>c \<in> set t. c \<noteq> CHR ''=''" using t(3) no_separator(4) by auto
  then have e: "encode_uuid u = t" using t(1,2)
    by (cases t rule: rev_cases) (simp_all add: encode_uuid_def)
  show "length (encode_uuid u) = 22" "set (encode_uuid u) \<subseteq> set urlsafe_alphabet" using e t by simp_all
  show "decode_uuid (encode_uuid u) = Inr u"
    using e t(1) b64_roundtrip [OF small] assms by (simp add: decode_uuid_def wf_uuid_def require_def)
qed

lemma hex_text_props: "\<forall>b \<in> set bs. b < 256 \<Longrightarrow> length (hex_text bs) = 2 * length bs \<and> set (hex_text bs) \<subseteq> set hex_alphabet"
proof (induction bs)
  case (Cons b bs)
  then have "b < 256" by simp
  then have "b div 16 < 16" "b mod 16 < 16" by presburger+
  then have "b div 16 < length hex_alphabet" "b mod 16 < length hex_alphabet" by (simp_all add: alphabets)
  then show ?case using Cons by (auto simp: hex_text_def hex_byte_def intro: nth_mem)
qed (simp add: hex_text_def)

lemma uuid_short:
  assumes "wf_uuid u"
  shows "length (take 8 u) = 8" "set (take 8 u) \<subseteq> set hex_alphabet"
proof -
  let ?bs = "uuid_bytes u"
  have "\<forall>b \<in> set (take 4 ?bs). b < 256" by (auto simp: uuid_bytes_def dest!: in_set_takeD hex_bytes_small)
  then have h: "length (hex_text (take 4 ?bs)) = 8" "set (hex_text (take 4 ?bs)) \<subseteq> set hex_alphabet"
    using hex_text_props [of "take 4 ?bs"] assms by (simp_all add: wf_uuid_def)
  have u: "u = uuid_text ?bs" using assms by (simp add: wf_uuid_def)
  have "take 8 u = hex_text (take 4 ?bs)" by (subst u) (simp add: uuid_text_def h)
  then show "length (take 8 u) = 8" "set (take 8 u) \<subseteq> set hex_alphabet" using h by simp_all
qed

lemma colon_fields_nonempty: "colon_fields t \<noteq> []"
  by (cases t) (auto split: list.splits)

lemma colon_fields_append: "CHR '':'' \<notin> set w \<Longrightarrow> colon_fields (w @ CHR '':'' # t) = w # colon_fields t"
  by (induction w) auto

lemma colon_fields_last: "CHR '':'' \<notin> set w \<Longrightarrow> colon_fields w = [w]"
  by (induction w) auto

lemma colon_fields_join:
  "xs \<noteq> [] \<Longrightarrow> \<forall>w \<in> set xs. CHR '':'' \<notin> set w \<Longrightarrow> colon_fields (join '':'' xs) = xs"
  by (induction xs rule: induct_list012) (simp_all add: colon_fields_append colon_fields_last)

lemma allowed_no_separator: "action \<in> ALLOWED_ACTIONS \<Longrightarrow> CHR '':'' \<notin> set action \<and> length action = 2"
  by (auto simp: ALLOWED_ACTIONS_def)

text \<open>What the fields of built data are.\<close>

lemma built_fields:
  assumes "build_callback_data action pid nonce b = Inr d" and pid: "wf_uuid pid" and attempt: "wf_uuid (b_attempt_id b)"
  obtains revision where "base36_encode (b_membership_revision b) = Inr revision" "length d \<le> MAX_CALLBACK_BYTES"
    "callback_pattern d = Some (action, take 8 pid, encode_uuid (b_attempt_id b), revision, b_membership_digest b, nonce)"
proof -
  obtain revision where r: "base36_encode (b_membership_revision b) = Inr revision"
    and action: "action \<in> ALLOWED_ACTIONS" and nonce: "safe_token nonce"
    and len: "length revision \<le> 3" "length d \<le> MAX_CALLBACK_BYTES"
    and digest: "length (b_membership_digest b) = 12" "safe_token (b_membership_digest b)"
    and d: "d = join '':'' [action, take 8 pid, encode_uuid (b_attempt_id b), revision, b_membership_digest b, nonce]"
    using assms(1) by (auto simp: build_callback_data_def bindR_eq_Inr Let_def split: if_splits)
  have revision: "revision = base36_digits (nat (b_membership_revision b)) []" "0 < b_membership_revision b"
    using r by (auto simp: base36_encode_def bindR_eq_Inr)
  have rs: "set revision \<subseteq> set base36_alphabet" using base36_digits_set revision(1) by simp
  have "revision \<noteq> []" using revision base36_digits_bounded [of "nat (b_membership_revision b)" 0] by auto
  note parts = allowed_no_separator [OF action] uuid_short [OF pid] encoded_uuid [OF attempt]
  have "\<forall>w \<in> set [action, take 8 pid, encode_uuid (b_attempt_id b), revision, b_membership_digest b, nonce].
      CHR '':'' \<notin> set w"
    using parts rs nonce digest no_separator by (auto simp: safe_token_def)
  then have "colon_fields d = [action, take 8 pid, encode_uuid (b_attempt_id b), revision, b_membership_digest b, nonce]"
    unfolding d by (intro colon_fields_join) simp_all
  then have "callback_pattern d = Some (action, take 8 pid, encode_uuid (b_attempt_id b), revision, b_membership_digest b, nonce)"
    using parts rs action nonce digest len(1) \<open>revision \<noteq> []\<close>
    by (simp add: callback_pattern_def safe_token_def Suc_le_eq)
  then show thesis using that r len(2) by blast
qed

definition envelope_of :: "string \<Rightarrow> uuid \<Rightarrow> string \<Rightarrow> dispatch_binding \<Rightarrow> callback_envelope" where
  "envelope_of action pid nonce b =
     \<lparr>cb_action = action, cb_subject_short = take 8 pid, cb_attempt_id = b_attempt_id b,
      cb_membership_revision = b_membership_revision b, cb_membership_digest = b_membership_digest b,
      cb_nonce = nonce\<rparr>"

text \<open>
  C32: the data of a button is within Telegram's 64 bytes and parses back to exactly what it was
  built from: the action, the subject's prefix, the attempt, the revision, the digest and the nonce.
\<close>

theorem callback_data_roundtrip:
  assumes built: "build_callback_data action pid nonce b = Inr d"
    and "wf_uuid pid" "wf_uuid (b_attempt_id b)"
  shows "length d \<le> 64 \<and> parse_callback_data (Some d) = Inr (envelope_of action pid nonce b)"
proof -
  obtain revision where r: "base36_encode (b_membership_revision b) = Inr revision" "length d \<le> MAX_CALLBACK_BYTES"
    "callback_pattern d = Some (action, take 8 pid, encode_uuid (b_attempt_id b), revision, b_membership_digest b, nonce)"
    using built_fields [OF assms] .
  have "decode_uuid (encode_uuid (b_attempt_id b)) = Inr (b_attempt_id b)" using encoded_uuid assms by blast
  then show ?thesis
    using r base36_roundtrip [OF r(1)] by (simp add: parse_callback_data_def envelope_of_def MAX_CALLBACK_BYTES_def)
qed

text \<open>The nonces the service draws (eleven characters) always fit, for every revision below 36 cubed.\<close>

lemma callback_data_length:
  assumes "action \<in> ALLOWED_ACTIONS" "wf_uuid pid" "wf_uuid (b_attempt_id b)" "length revision \<le> 3"
    "length (b_membership_digest b) = 12"
  shows "length (join '':'' [action, take 8 pid, encode_uuid (b_attempt_id b), revision, b_membership_digest b, nonce])
    \<le> 52 + length nonce"
  using assms allowed_no_separator [of action] uuid_short(1) [of pid] encoded_uuid(1) [of "b_attempt_id b"] by simp

text \<open>
  a button can be built exactly for the revisions 1 to 46655 when the nonce has at most twelve
  characters, as the eleven of the nonces that are drawn.
\<close>

theorem callback_data_capacity:
  assumes "action \<in> ALLOWED_ACTIONS" "wf_uuid pid" "wf_uuid (b_attempt_id b)"
    and "safe_token nonce" "length nonce \<le> 12"
    and "length (b_membership_digest b) = 12" "safe_token (b_membership_digest b)"
  shows "is_ok (build_callback_data action pid nonce b) \<longleftrightarrow>
    0 < b_membership_revision b \<and> b_membership_revision b < 46656"
proof (cases "0 < b_membership_revision b")
  case True
  let ?v = "b_membership_revision b"
  let ?revision = "base36_digits (nat ?v) []"
  let ?data = "join '':'' [action, take 8 pid, encode_uuid (b_attempt_id b), ?revision, b_membership_digest b, nonce]"
  have e: "base36_encode ?v = Inr ?revision" using True by (simp add: base36_encode_def require_def)
  have cap: "length ?revision \<le> 3 \<longleftrightarrow> ?v < 46656"
    using base36_digits_bounded [of "nat ?v" 3] True by (simp add: nat_less_iff)
  have "length ?revision \<le> 3 \<Longrightarrow> length ?data \<le> 64"
    using callback_data_length [OF assms(1-3) _ assms(6), of ?revision nonce] assms(5) by linarith
  then show ?thesis
    using True assms e cap
    by (auto simp: build_callback_data_def require_def Let_def MAX_CALLBACK_BYTES_def not_le linorder_not_less)
next
  case False
  then show ?thesis by (auto simp: build_callback_data_def is_ok_iff bindR_eq_Inr)
qed

lemma base36_value_bound:
  "base36_value acc t = Some n \<Longrightarrow> acc < m \<Longrightarrow> n < m * 36 ^ length t"
proof (induction t arbitrary: acc m)
  case (Cons c cs)
  then obtain k where k: "position base36_alphabet c = Some k" "base36_value (acc * 36 + k) cs = Some n"
    by (auto split: option.splits)
  have "k < 36" using position_bound [OF k(1)] by (simp add: alphabets)
  then have "acc * 36 + k < m * 36" using Cons.prems(2) by linarith
  then show ?case using Cons.IH [OF k(2), of "m * 36"] by (simp add: mult.assoc)
qed simp

definition wf_envelope :: "callback_envelope \<Rightarrow> bool" where
  "wf_envelope cb \<longleftrightarrow>
     cb_action cb \<in> ALLOWED_ACTIONS \<and>
     length (cb_subject_short cb) = 8 \<and> set (cb_subject_short cb) \<subseteq> set hex_alphabet \<and>
     0 < cb_membership_revision cb \<and> cb_membership_revision cb < 46656 \<and>
     length (cb_membership_digest cb) = 12 \<and> safe_token (cb_membership_digest cb) \<and>
     safe_token (cb_nonce cb)"

text \<open>
  whatever text arrives, an envelope comes out of it only with an action of the cards, a
  subject of eight hexadecimal digits, a revision from 1 to 46655, a digest of twelve characters and a
  nonce of URL-safe ones.
\<close>

theorem parsed_callbacks_are_well_formed:
  assumes "parse_callback_data data = Inr cb"
  shows "wf_envelope cb"
proof -
  obtain d action short attempt revision digest nonce where data: "data = Some d"
    and p: "callback_pattern d = Some (action, short, attempt, revision, digest, nonce)"
    using assms by (cases data) (auto simp: parse_callback_data_def split: if_splits option.splits)
  have ok: "action \<in> ALLOWED_ACTIONS" "length short = 8" "set short \<subseteq> set hex_alphabet" "length revision \<le> 3"
    "length digest = 12" "set digest \<subseteq> set urlsafe_alphabet" "safe_token nonce"
    using p by (auto simp: callback_pattern_def split: list.splits if_splits)
  obtain attempt_id n where n: "base36_decode revision = Inr n"
    and cb: "cb = \<lparr>cb_action = action, cb_subject_short = short, cb_attempt_id = attempt_id,
                  cb_membership_revision = n, cb_membership_digest = digest, cb_nonce = nonce\<rparr>"
    using assms p data by (auto simp: parse_callback_data_def bindR_eq_Inr split: if_splits)
  obtain k where k: "base36_value 0 revision = Some k" "n = int k" "0 < k"
    using n by (auto simp: base36_decode_def bindR_eq_Inr split: if_splits)
  have "k < 36 ^ length revision" using base36_value_bound [OF k(1), of 1] by simp
  also have "\<dots> \<le> (36::nat) ^ 3" using ok(4) by (intro power_increasing) simp_all
  finally have "n < 46656" using k by simp
  moreover have "digest \<noteq> []" using ok(5) by auto
  ultimately show ?thesis using cb ok k by (simp add: wf_envelope_def safe_token_def)
qed

text \<open>A card at work.\<close>

definition sample_uuid :: uuid where "sample_uuid = ''0123abcd-89ef-4567-89ab-cdef01234567''"

definition sample_card_binding :: dispatch_binding where
  "sample_card_binding = \<lparr>b_attempt_id = ''fedcba98-7654-4210-8fed-cba987654321'', b_card_kind = Manual,
     b_membership_revision = 37, b_membership_digest = ''AbCdEfGhIj_-''\<rparr>"

definition sample_data :: string where
  "sample_data = ''op:0123abcd:_ty6mHZUQhCP7cuph2VDIQ:11:AbCdEfGhIj_-:n0nce-n0nce''"

lemma sample_uuid_wf: "wf_uuid sample_uuid" "wf_uuid (b_attempt_id sample_card_binding)"
  by code_simp+

lemma sample_built: "build_callback_data ''op'' sample_uuid ''n0nce-n0nce'' sample_card_binding = Inr sample_data"
  by code_simp

theorem callback_data_roundtrip_witness:
  "length sample_data \<le> 64 \<and>
   parse_callback_data (Some sample_data) = Inr (envelope_of ''op'' sample_uuid ''n0nce-n0nce'' sample_card_binding)"
  by (rule callback_data_roundtrip [OF sample_built sample_uuid_wf])

theorem callback_data_capacity_witness:
  "is_ok (build_callback_data ''op'' sample_uuid ''n0nce-n0nce'' sample_card_binding) \<longleftrightarrow>
    0 < b_membership_revision sample_card_binding \<and> b_membership_revision sample_card_binding < 46656"
  by (rule callback_data_capacity [OF _ sample_uuid_wf]) code_simp+

theorem parsed_callbacks_are_well_formed_witness:
  "wf_envelope (envelope_of ''op'' sample_uuid ''n0nce-n0nce'' sample_card_binding)"
proof -
  have "parse_callback_data (Some sample_data) = Inr (envelope_of ''op'' sample_uuid ''n0nce-n0nce'' sample_card_binding)"
    by code_simp
  then show ?thesis by (rule parsed_callbacks_are_well_formed)
qed

end
