(* ===== verification/Callback.thy ===== *)
theory Callback
  imports Dispatch CallbackData
begin

text \<open>
  Telegram callbacks (\<open>order_proposals/telegram_callback.py\<close>): from the click to the committed broker
  outcome. A handler owns its session: its result is the database as of the last commit, what left the
  process so far, and the answer or the exception. What is awaited is handed in as in \<open>Dispatch\<close>;
  texts of edits are not modelled. \<open>others 0\<close> are the transactions of others between the gate and the
  row lock of the nonce, the later ones those between the commits of the handler.
\<close>

section \<open>Flows\<close>

datatype effect =
    Answered
  | Edited
  | Sent pytext
  | Broker submit_event
  | CancelAsked string

datatype callback_error =
    CallbackService svc_error
  | CallbackBatch batch_error
  | CallbackDispatch dispatch_error
  | CallbackPreview string

text \<open>The reason of an answer: a text, the text of a caught domain error, or the code of a window.\<close>

datatype callback_reason =
    Says string
  | Raised callback_error
  | WindowReason window_decision
  | MemberBlock batch_block

record rung_report =
  rr_index :: int
  rr_result :: string

record member_result =
  mr_proposal_id :: uuid
  mr_status :: string
  mr_reason :: "callback_reason option"
  mr_rungs :: "rung_report list"

record callback_answer =
  an_handled :: bool
  an_reason :: callback_reason
  an_rungs :: "rung_report list"
  an_operator_reason :: "window_decision option"
  an_members :: "member_result list"

type_synonym ('s, 'a) flow = "'s \<times> effect list \<times> (callback_error, 'a) result"

definition answer :: "bool \<Rightarrow> callback_reason \<Rightarrow> callback_answer" where
  "answer handled reason =
     \<lparr>an_handled = handled, an_reason = reason, an_rungs = [], an_operator_reason = None, an_members = []\<rparr>"

text \<open>\<open>isinstance(exc, OrderProposalError)\<close>\<close>

fun is_proposal_error :: "svc_error \<Rightarrow> bool" where
  "is_proposal_error NaiveDatetime = False"
| "is_proposal_error (IntegrityError _) = False"
| "is_proposal_error (ValueError _) = False"
| "is_proposal_error _ = True"

fun is_batch_proposal_error :: "batch_error \<Rightarrow> bool" where
  "is_batch_proposal_error (BatchServiceError e) = is_proposal_error e"
| "is_batch_proposal_error _ = True"

text \<open>A call whose exception leaves the handler, and one inside \<open>try ... except OrderProposalError\<close>.\<close>

definition run :: "'s \<Rightarrow> effect list \<Rightarrow> (svc_error, 'a) result \<Rightarrow> ('a \<Rightarrow> ('s, 'b) flow) \<Rightarrow> ('s, 'b) flow" where
  "run committed out m k = (case m of Inl e \<Rightarrow> (committed, out, Inl (CallbackService e)) | Inr x \<Rightarrow> k x)"

definition guarded ::
  "'s \<Rightarrow> effect list \<Rightarrow> (svc_error, 'a) result \<Rightarrow> ('a \<Rightarrow> ('s, callback_answer) flow) \<Rightarrow> ('s, callback_answer) flow"
  where
  "guarded committed out m k = (case m of
     Inl e \<Rightarrow> if is_proposal_error e then (committed, out, Inr (answer False (Raised (CallbackService e))))
             else (committed, out, Inl (CallbackService e))
   | Inr x \<Rightarrow> k x)"

section \<open>The context of a click\<close>

text \<open>
  The parsed callback, the chat, the message of the card, the query to answer, the user and \<open>now\<close>.
\<close>

record click_context =
  cc_callback :: callback_envelope
  cc_chat_id :: string
  cc_message_id :: "int option"
  cc_query_id :: "string option"
  cc_user :: string
  cc_now :: pydatetime

definition answered :: "string option \<Rightarrow> effect list" where
  "answered query_id = (if truthy query_id then [Answered] else [])"

definition edited :: "click_context \<Rightarrow> effect list" where
  "edited c = (if cc_message_id c = None then [] else [Edited])"

definition bound_window :: "order_proposal \<Rightarrow> window_reading \<Rightarrow> (svc_error, window_decision) result" where
  "bound_window grp w = boundary_at grp (active_policy_stamp grp None) True w"

definition reject_window_callback ::
  "click_context \<Rightarrow> string option \<Rightarrow> uuid \<Rightarrow> window_decision \<Rightarrow> store \<Rightarrow> effect list \<Rightarrow> store
   \<Rightarrow> (store, callback_answer) flow" where
  "reject_window_callback c query_id proposal_id d committed out s =
     run committed out (expire_when_expired proposal_id d s) (\<lambda>s1.
       (s1, out @ edited c @ answered query_id, Inr (answer False (WindowReason d))))"

text \<open>Two readings in a row; the second one is the one that counts.\<close>

definition twice_open ::
  "click_context \<Rightarrow> string option \<Rightarrow> uuid \<Rightarrow> order_proposal \<Rightarrow> window_reading \<Rightarrow> window_reading \<Rightarrow> store
   \<Rightarrow> effect list \<Rightarrow> store \<Rightarrow> (window_decision \<Rightarrow> (store, callback_answer) flow) \<Rightarrow> (store, callback_answer) flow" where
  "twice_open c query_id proposal_id grp w1 w2 committed out s k =
     run committed out (bound_window grp w1) (\<lambda>d1.
       if \<not> window_allowed d1 then reject_window_callback c query_id proposal_id d1 committed out s
       else run committed out (bound_window grp w2) (\<lambda>d2.
         if \<not> window_allowed d2 then reject_window_callback c query_id proposal_id d2 committed out s
         else k d2))"

section \<open>Deny\<close>

definition DENY_REJECTABLE_STATES :: "rung_state set" where
  "DENY_REJECTABLE_STATES = {PendingApproval, NeedsReconfirm, Submitting, Unverified}"

definition deny_step ::
  "uuid \<Rightarrow> pydatetime \<Rightarrow> store \<times> int list \<Rightarrow> rung \<Rightarrow> (svc_error, store \<times> int list) result" where
  "deny_step proposal_id now acc rung =
     (let (s, rejected) = acc in
      if r_state rung \<in> DENY_REJECTABLE_STATES
      then bindR (record_rejected proposal_id (r_rung_index rung) ''telegram_deny'' now s)
             (\<lambda>(s1, _). Inr (s1, rejected @ [r_rung_index rung]))
      else Inr acc)"

definition handle_deny :: "click_context \<Rightarrow> uuid \<Rightarrow> (nat \<Rightarrow> store \<Rightarrow> store) \<Rightarrow> store \<Rightarrow> (store, callback_answer) flow" where
  "handle_deny c proposal_id others s =
     guarded s [] (preflight_published_proposal_callback proposal_id (cc_callback c) s) (\<lambda>_.
     let out = answered (cc_query_id c); t = others 0 s in
     guarded t out (consume_published_proposal_callback proposal_id (cc_callback c) (cc_now c) None t) (\<lambda>(s1, _).
     run t out (bindR (get_proposal proposal_id s1) (\<lambda>(_, rungs).
                 foldR (deny_step proposal_id (cc_now c)) (s1, []) rungs)) (\<lambda>(s2, rejected).
       (s2, out @ edited c,
        Inr ((answer True (Says ''denied''))\<lparr>an_rungs := map (\<lambda>i. \<lparr>rr_index = i, rr_result = ''rejected''\<rparr>) rejected\<rparr>)))))"

section \<open>Veto\<close>

definition veto_report :: "veto_outcome \<Rightarrow> rung_report" where
  "veto_report oc = \<lparr>rr_index = vo_rung_index oc,
     rr_result = (case vo_result oc of VetoFilled \<Rightarrow> ''filled'' | VetoCancelled \<Rightarrow> ''cancelled''
                  | NotCancellable \<Rightarrow> ''not_cancellable'' | CancelFailed _ _ \<Rightarrow> ''cancel_failed'')\<rparr>"

definition veto_reason :: "veto_outcome list \<Rightarrow> string" where
  "veto_reason outcomes =
     (let results = map (rr_result \<circ> veto_report) outcomes in
      if ''filled'' \<in> set results then ''auto_veto_filled''
      else if ''cancel_failed'' \<in> set results \<or> ''not_cancellable'' \<in> set results then ''auto_veto_failed''
      else ''auto_veto_cancelled'')"

definition handle_auto_veto ::
  "click_context \<Rightarrow> uuid \<Rightarrow> (int \<Rightarrow> veto_answers) \<Rightarrow> (nat \<Rightarrow> store \<Rightarrow> store) \<Rightarrow> store \<Rightarrow> (store, callback_answer) flow" where
  "handle_auto_veto c proposal_id answers others s =
     guarded s [] (preflight_published_proposal_callback proposal_id (cc_callback c) s) (\<lambda>_.
     let out = answered (cc_query_id c); t = others 0 s in
     run s out (bindR (get_proposal proposal_id s) (\<lambda>(_, rungs). acquire_auto_veto_locks rungs)) (\<lambda>_.
     guarded t out (consume_published_proposal_callback proposal_id (cc_callback c) (cc_now c) None t) (\<lambda>(s1, _).
     run t out (bindR (get_proposal proposal_id s1) (\<lambda>(grp, rungs).
                 cancel_auto_submitted_rungs grp rungs (cc_now c) answers s1)) (\<lambda>(s2, outcomes, requested).
     let out2 = out @ map CancelAsked requested in
     run t out2 (record_auto_veto proposal_id (cc_user c) (map veto_json outcomes) (cc_now c) s2) (\<lambda>(s3, _).
       (s3, out2 @ edited c,
        Inr ((answer True (Says (veto_reason outcomes)))\<lparr>an_rungs := map veto_report outcomes\<rparr>)))))))"

section \<open>Approve\<close>

text \<open>
  What an approving click awaits: the readings at the nonce, those of the run, the clock of an expiry, the
  readings at the reconfirm nonce and card, the draws, the notifier and the failure code of an alert.
\<close>

record approve_answers =
  ap_window1 :: window_reading
  ap_window2 :: window_reading
  ap_first_window :: window_reading
  ap_actions :: "int \<Rightarrow> action_answers"
  ap_expiry_now :: int
  ap_reconfirm1 :: window_reading
  ap_reconfirm2 :: window_reading
  ap_send :: window_reading
  ap_nonce :: string
  ap_attempt_id :: uuid
  ap_notifier :: notifier
  ap_alert :: "string option"

text \<open>The lock of the target of a replacement or a cancellation; its refusals are errors.\<close>

definition acquire_target_mutation_lock :: "order_proposal \<Rightarrow> (svc_error, bool) result" where
  "acquire_target_mutation_lock grp =
     (if contract_action grp \<notin> {''replace'', ''cancel''} then Inr False
      else if \<not> truthy (g_target_broker_order_id grp)
      then Inl (ProposalError ''target action requires target_broker_order_id'')
      else bindR (require (strip (the (g_target_broker_order_id grp)) \<noteq> [])
                    (ProposalError ''broker_order_id is required for mutation lock'')) (\<lambda>_. Inr True))"

definition commit_lease_seconds :: int where "commit_lease_seconds = 10"

definition loss_cut_ttl_seconds :: int where "loss_cut_ttl_seconds = 90"

definition reopen_step :: "uuid \<Rightarrow> store \<Rightarrow> rung \<Rightarrow> (svc_error, store) result" where
  "reopen_step proposal_id s rung =
     (if r_state rung = NeedsReconfirm
      then bindR (transition_rung proposal_id (r_rung_index rung) PendingApproval id s) (\<lambda>(s1, _). Inr s1)
      else Inr s)"

definition reopen_reconfirming :: "uuid \<Rightarrow> store \<Rightarrow> (svc_error, store) result" where
  "reopen_reconfirming proposal_id s =
     bindR (get_proposal proposal_id s) (\<lambda>(_, rungs). foldR (reopen_step proposal_id) s rungs)"

text \<open>Outcomes.\<close>

definition WINDOW_BLOCK_RESULTS :: "string set" where
  "WINDOW_BLOCK_RESULTS =
     {''expired'', ''invalid_valid_until'', ''defer_session_closed'', ''calendar_unknown'', ''no_executable_window''}"

definition result_text :: "rung_outcome \<Rightarrow> string" where
  "result_text oc = outcome_text (ro_result oc)"

definition serialize_rung_outcomes :: "rung_outcome list \<Rightarrow> rung_report list" where
  "serialize_rung_outcomes outcomes = map (\<lambda>oc. \<lparr>rr_index = ro_rung_index oc, rr_result = result_text oc\<rparr>) outcomes"

definition window_blocked :: "rung_outcome list \<Rightarrow> rung_outcome list" where
  "window_blocked outcomes = filter (\<lambda>oc. result_text oc \<in> WINDOW_BLOCK_RESULTS) outcomes"

definition all_window_blocked :: "rung_outcome list \<Rightarrow> bool" where
  "all_window_blocked outcomes \<longleftrightarrow> outcomes \<noteq> [] \<and> length (window_blocked outcomes) = length outcomes"

definition zero_send_results :: "string set" where
  "zero_send_results = WINDOW_BLOCK_RESULTS \<union> {''needs_reconfirm'', ''guard_blocked'', ''approval_required''}"

definition zero_send_window_block :: "rung_outcome list \<Rightarrow> bool" where
  "zero_send_window_block outcomes \<longleftrightarrow>
     window_blocked outcomes \<noteq> [] \<and> (\<forall>oc \<in> set outcomes. result_text oc \<in> zero_send_results)"

text \<open>\<open>detail["target_cancelled"]\<close> is set only where the replacement was lost to a window.\<close>

definition target_was_cancelled :: "rung_outcome list \<Rightarrow> bool" where
  "target_was_cancelled outcomes \<longleftrightarrow> (\<exists>oc \<in> set (window_blocked outcomes).
     case ro_detail oc of
       DetailWindow d e \<Rightarrow> e = window_code_value (wd_code d) @ '':target_cancelled_replacement_not_submitted''
     | _ \<Rightarrow> False)"

definition window_block_error :: "rung_outcome \<Rightarrow> string" where
  "window_block_error oc = (case ro_detail oc of
     DetailWindow _ e \<Rightarrow> (if e = [] then ''approval_window_blocked'' else e)
   | DetailError (Some e) \<Rightarrow> (if e = [] then ''approval_window_blocked'' else e)
   | _ \<Rightarrow> ''approval_window_blocked'')"

definition window_of :: "rung_outcome \<Rightarrow> window_decision option" where
  "window_of oc = (case ro_detail oc of DetailWindow d _ \<Rightarrow> Some d | _ \<Rightarrow> None)"

definition expire_at :: "uuid \<Rightarrow> bool \<Rightarrow> int \<Rightarrow> store \<Rightarrow> (svc_error, store) result" where
  "expire_at proposal_id expired t s =
     (if expired then bindR (expire_mutable_rungs_if_needed proposal_id (Aware t) s) (\<lambda>(s1, _). Inr s1) else Inr s)"

text \<open>The window shut everything before anything was sent: the card may be used again.\<close>

definition give_card_back ::
  "click_context \<Rightarrow> uuid \<Rightarrow> rung_outcome list \<Rightarrow> int \<Rightarrow> store \<Rightarrow> effect list \<Rightarrow> store \<Rightarrow> (store, callback_answer) flow" where
  "give_card_back c proposal_id outcomes expiry_now committed out s =
     (let expired = (\<exists>oc \<in> set (window_blocked outcomes). result_text oc = ''expired'')
      in run committed out (bindR (expire_at proposal_id expired expiry_now s) (\<lambda>s1.
           restore_approval_after_window_block proposal_id (cb_nonce (cc_callback c)) expired s1)) (\<lambda>(s2, _).
         (s2, out @ edited c,
          Inr \<lparr>an_handled = False, an_reason = Says (window_block_error (hd (window_blocked outcomes))),
               an_rungs = serialize_rung_outcomes outcomes,
               an_operator_reason = window_of (hd (window_blocked outcomes)), an_members = []\<rparr>)))"

text \<open>A card whose window shut after its nonce was staged: the nonce is taken back.\<close>

definition unstage_card ::
  "uuid \<Rightarrow> string \<Rightarrow> window_decision \<Rightarrow> store \<Rightarrow> (svc_error, store) result" where
  "unstage_card proposal_id nonce d s =
     bindR (expire_when_expired proposal_id d s) (\<lambda>s1.
     bindR (restore_approval_after_window_block proposal_id nonce (wd_code d = EXPIRED) s1) (\<lambda>(s2, _).
       if wd_code d = EXPIRED then Inr s2
       else bindR (clear_approval_nonce proposal_id (Some nonce) s2) (\<lambda>(s3, _). Inr s3)))"

text \<open>\<open>_alert_non_sent_callback_dispatch\<close>: an alert never fails; what it could record stays.\<close>

definition alert_non_sent_dispatch ::
  "uuid \<Rightarrow> telegram_dispatch_result \<Rightarrow> string option \<Rightarrow> int \<Rightarrow> store \<Rightarrow> store" where
  "alert_non_sent_dispatch proposal_id result failure t s =
     (if dispatch_ok result then s
      else case record_approval_dispatch_alert proposal_id (if failure = None then ''sent'' else ''failed'') failure
             (if truthy (d_failure_code result) then the (d_failure_code result) else ''approval_dispatch_failed'')
             (Aware t) s of
        Inl _ \<Rightarrow> s
      | Inr (s1, _) \<Rightarrow> s1)"

definition disp ::
  "'s \<Rightarrow> effect list \<Rightarrow> (dispatch_error, 'a) result \<Rightarrow> ('a \<Rightarrow> ('s, 'b) flow) \<Rightarrow> ('s, 'b) flow" where
  "disp committed out m k = (case m of Inl e \<Rightarrow> (committed, out, Inl (CallbackDispatch e)) | Inr x \<Rightarrow> k x)"

type_synonym reconfirm_renderer =
  "order_proposal \<Rightarrow> rung list \<Rightarrow> rung_outcome list \<Rightarrow> dispatch_binding \<Rightarrow> dispatch_messages"

text \<open>
  The reconfirm card: staged and committed with the outcomes, then published, then finished in a
  transaction of its own.
\<close>

definition publish_reconfirm ::
  "dispatch_world \<Rightarrow> click_context \<Rightarrow> uuid \<Rightarrow> dispatch_messages \<Rightarrow> window_decision \<Rightarrow> rung_outcome list
   \<Rightarrow> approve_answers \<Rightarrow> (nat \<Rightarrow> store \<Rightarrow> store) \<Rightarrow> effect list \<Rightarrow> store \<Rightarrow> (store, callback_answer) flow" where
  "publish_reconfirm w c proposal_id messages send_window outcomes ans others out s =
     disp s (out @ edited c) (publish_approval_messages (ap_notifier ans) messages) (\<lambda>(sent, publication).
     let out2 = out @ edited c @ map Sent sent; s1 = others 1 s; t = wd_observed_at send_window in
     run s1 out2 (finish_approval_dispatch (dw_digest w) proposal_id (ap_attempt_id ans) publication
                   (Some (cc_chat_id c)) (Aware t) (Some (wd_policy_stamp send_window)) s1) (\<lambda>(s2, result).
       (alert_non_sent_dispatch proposal_id result (ap_alert ans) t (others 2 s2), out2,
        Inr ((answer True (Says ''needs_reconfirm''))\<lparr>an_rungs := serialize_rung_outcomes outcomes\<rparr>))))"

definition send_reconfirm ::
  "dispatch_world \<Rightarrow> reconfirm_renderer \<Rightarrow> click_context \<Rightarrow> uuid \<Rightarrow> rung_outcome list \<Rightarrow> approve_answers
   \<Rightarrow> (nat \<Rightarrow> store \<Rightarrow> store) \<Rightarrow> store \<Rightarrow> effect list \<Rightarrow> store \<Rightarrow> (store, callback_answer) flow" where
  "send_reconfirm w render c proposal_id outcomes ans others committed out s =
     run committed out (set_approval_nonce proposal_id (ap_nonce ans) False s) (\<lambda>s1.
     run committed out (get_proposal proposal_id s1) (\<lambda>(grp, rungs).
       let binding = proposal_binding (dw_digest w) grp (Some (ap_nonce ans)) (ap_attempt_id ans) card_kind.Reconfirm;
           messages = render grp rungs outcomes binding
       in run committed out (bound_window grp (ap_send ans)) (\<lambda>d.
          if \<not> window_allowed d
          then run committed out (unstage_card proposal_id (ap_nonce ans) d s1) (\<lambda>s2.
                 (s2, out @ edited c,
                  Inr ((answer False (WindowReason d))\<lparr>an_rungs := serialize_rung_outcomes outcomes\<rparr>)))
          else run committed out (start_approval_dispatch (dw_digest w) proposal_id (ap_attempt_id ans) binding
                      (Aware (wd_observed_at d)) (dm_payload_chars messages)
                      (int (length (dm_context messages))) s1) (\<lambda>(s2, _).
                 publish_reconfirm w c proposal_id messages d outcomes ans others out s2))))"

definition approve_finished :: "click_context \<Rightarrow> rung_outcome list \<Rightarrow> effect list \<Rightarrow> store \<Rightarrow> (store, callback_answer) flow" where
  "approve_finished c outcomes out s =
     (s, out @ edited c,
      Inr ((answer (\<not> all_window_blocked outcomes)
        (if all_window_blocked outcomes then Says (window_block_error (hd (window_blocked outcomes)))
         else if window_blocked outcomes \<noteq> [] then Says ''approved_with_window_block''
         else Says ''approved''))\<lparr>an_rungs := serialize_rung_outcomes outcomes\<rparr>))"

text \<open>After the run: the database it leaves is not committed yet.\<close>

definition after_run ::
  "dispatch_world \<Rightarrow> reconfirm_renderer \<Rightarrow> click_context \<Rightarrow> uuid \<Rightarrow> rung_outcome list \<Rightarrow> approve_answers
   \<Rightarrow> (nat \<Rightarrow> store \<Rightarrow> store) \<Rightarrow> store \<Rightarrow> effect list \<Rightarrow> store \<Rightarrow> (store, callback_answer) flow" where
  "after_run w render c proposal_id outcomes ans others committed out s =
     (if zero_send_window_block outcomes \<and> \<not> target_was_cancelled outcomes
      then give_card_back c proposal_id outcomes (ap_expiry_now ans) committed out s
      else if \<exists>oc \<in> set outcomes. result_text oc = ''needs_reconfirm''
      then run committed out (get_proposal proposal_id s) (\<lambda>(grp, _).
             twice_open c (cc_query_id c) proposal_id grp (ap_reconfirm1 ans) (ap_reconfirm2 ans) committed out s (\<lambda>_.
               send_reconfirm w render c proposal_id outcomes ans others committed out s))
      else approve_finished c outcomes out s)"

text \<open>The lease and the approval, then the run.\<close>

definition approve_locked ::
  "dispatch_world \<Rightarrow> reconfirm_renderer \<Rightarrow> click_context \<Rightarrow> uuid \<Rightarrow> window_decision \<Rightarrow> approve_answers
   \<Rightarrow> (nat \<Rightarrow> store \<Rightarrow> store) \<Rightarrow> store \<Rightarrow> effect list \<Rightarrow> store \<Rightarrow> (store, callback_answer) flow" where
  "approve_locked w render c proposal_id window ans others committed out s =
     (let now = Aware (wd_observed_at window) in
      run committed out (acquire_commit_lease proposal_id now commit_lease_seconds s) (\<lambda>(s1, acquired).
      if \<not> acquired then (s1, out, Inr (answer False (Says ''lease_held'')))
      else run committed out (bindR (record_approval proposal_id (cc_user c) now s1) (\<lambda>(s2, _).
                reopen_reconfirming proposal_id s2)) (\<lambda>s3.
      run committed out (revalidate_and_submit (dw_sha w) (dw_read_iso w) (dw_show_iso w) proposal_id now
             (Some (wd_policy_stamp window)) False (ap_first_window ans) (ap_actions ans) s3) (\<lambda>(s4, outcomes, events).
      after_run w render c proposal_id outcomes ans others committed (out @ map Broker events) s4))))"

definition handle_approve ::
  "dispatch_world \<Rightarrow> reconfirm_renderer \<Rightarrow> bool \<Rightarrow> click_context \<Rightarrow> uuid \<Rightarrow> approve_answers
   \<Rightarrow> (nat \<Rightarrow> store \<Rightarrow> store) \<Rightarrow> store \<Rightarrow> (store, callback_answer) flow" where
  "handle_approve w render loss_cut_confirmation c proposal_id ans others s =
     guarded s [] (preflight_published_proposal_callback proposal_id (cc_callback c) s) (\<lambda>_.
     let out = answered (cc_query_id c); t = others 0 s in
     run s out (get_proposal proposal_id s) (\<lambda>(grp, _).
     run s out (acquire_target_mutation_lock grp) (\<lambda>_.
     twice_open c (cc_query_id c) proposal_id grp (ap_window1 ans) (ap_window2 ans) t out t (\<lambda>window.
     guarded t out (consume_published_proposal_callback proposal_id (cc_callback c) (Aware (wd_observed_at window))
                     (if loss_cut_confirmation then Some (cc_user c) else None) t) (\<lambda>(s1, _).
       approve_locked w render c proposal_id window ans others t out s1)))))"

section \<open>The first click of a loss cut\<close>

text \<open>
  The readings at the click, after the preview and at the card; the preview, which only reads; the draws;
  the text of the card; what the edit of the card answers and the failure code of an alert.
\<close>

record loss_cut_answers =
  lc_window1 :: window_reading
  lc_window2 :: window_reading
  lc_preview :: "(string, unit) result"
  lc_window3 :: window_reading
  lc_window4 :: window_reading
  lc_nonce :: string
  lc_attempt_id :: uuid
  lc_render :: "order_proposal \<Rightarrow> rung list \<Rightarrow> dispatch_binding \<Rightarrow> pytext"
  lc_publish :: window_reading
  lc_edit :: "(string, telegram_method_result) result"
  lc_alert :: "string option"

text \<open>The card is the edited message: without one, or when the edit fails, nothing was published.\<close>

definition edit_publication ::
  "int option \<Rightarrow> pytext \<Rightarrow> (string, telegram_method_result) result \<Rightarrow> (dispatch_error, approval_publication) result" where
  "edit_publication message_id content reply =
     bindR (map_error DispatchText (telegram_text_length content)) (\<lambda>n.
       if message_id = None then Inr (publication_failed n ''approval_edit_message_missing'' False None)
       else bindR (map_error DispatchText (method_reply content reply)) (\<lambda>m.
         if tm_ok m then map_error DispatchReceipt (publication_published n m)
         else Inr (publication_failed n ''approval_card_edit_failed'' False (Some m))))"

definition publish_confirmation ::
  "dispatch_world \<Rightarrow> click_context \<Rightarrow> uuid \<Rightarrow> pytext \<Rightarrow> window_decision \<Rightarrow> loss_cut_answers
   \<Rightarrow> (nat \<Rightarrow> store \<Rightarrow> store) \<Rightarrow> effect list \<Rightarrow> store \<Rightarrow> (store, callback_answer) flow" where
  "publish_confirmation w c proposal_id content window ans others out s =
     disp s (out @ edited c) (edit_publication (cc_message_id c) content (lc_edit ans)) (\<lambda>publication.
     let out2 = out @ edited c; s1 = others 1 s; t = wd_observed_at window in
     run s1 out2 (finish_approval_dispatch (dw_digest w) proposal_id (lc_attempt_id ans) publication
                   (Some (cc_chat_id c)) (Aware t) (Some (wd_policy_stamp window)) s1) (\<lambda>(s2, result).
       (alert_non_sent_dispatch proposal_id result (lc_alert ans) t (others 2 s2), out2,
        Inr (answer (dispatch_ok result)
          (Says (if dispatch_ok result then ''loss_cut_confirmation_required''
                 else ''loss_cut_confirmation_dispatch_failed''))))))"

definition stage_confirmation ::
  "dispatch_world \<Rightarrow> click_context \<Rightarrow> uuid \<Rightarrow> pydatetime \<Rightarrow> loss_cut_answers
   \<Rightarrow> (nat \<Rightarrow> store \<Rightarrow> store) \<Rightarrow> store \<Rightarrow> effect list \<Rightarrow> store \<Rightarrow> (store, callback_answer) flow" where
  "stage_confirmation w c proposal_id now ans others committed out s =
     run committed out (issue_loss_cut_confirmation proposal_id (cb_nonce (cc_callback c)) (lc_nonce ans) (cc_user c)
                          now loss_cut_ttl_seconds s) (\<lambda>(s1, _).
     run committed out (get_proposal proposal_id s1) (\<lambda>(grp, rungs).
       let binding = proposal_binding (dw_digest w) grp (Some (lc_nonce ans)) (lc_attempt_id ans) LossCutConfirmation;
           content = lc_render ans grp rungs binding
       in run committed out (bound_window grp (lc_publish ans)) (\<lambda>d.
          if \<not> window_allowed d
          then run committed out (unstage_card proposal_id (lc_nonce ans) d s1) (\<lambda>s2.
                 (s2, out @ edited c, Inr (answer False (WindowReason d))))
          else disp committed out (map_error DispatchText (telegram_text_length content)) (\<lambda>n.
               run committed out (start_approval_dispatch (dw_digest w) proposal_id (lc_attempt_id ans) binding
                      (Aware (wd_observed_at d)) n 0 s1) (\<lambda>(s2, _).
                 publish_confirmation w c proposal_id content d ans others out s2)))))"

definition handle_loss_cut_first_click ::
  "dispatch_world \<Rightarrow> click_context \<Rightarrow> uuid \<Rightarrow> loss_cut_answers \<Rightarrow> (nat \<Rightarrow> store \<Rightarrow> store) \<Rightarrow> store
   \<Rightarrow> (store, callback_answer) flow" where
  "handle_loss_cut_first_click w c proposal_id ans others s =
     guarded s [] (preflight_published_proposal_callback proposal_id (cc_callback c) s) (\<lambda>_.
     let out = answered (cc_query_id c); t = others 0 s in
     run s out (preflight_published_proposal_callback proposal_id (cc_callback c) s) (\<lambda>grp.
     twice_open c None proposal_id grp (lc_window1 ans) (lc_window2 ans) t out t (\<lambda>_.
     case lc_preview ans of
       Inl e \<Rightarrow> (t, out, Inl (CallbackPreview e))
     | Inr _ \<Rightarrow>
         guarded t out (preflight_published_proposal_callback proposal_id (cc_callback c) t) (\<lambda>grp1.
         twice_open c None proposal_id grp1 (lc_window3 ans) (lc_window4 ans) t out t (\<lambda>window.
           let now = Aware (wd_observed_at window) in
           guarded t out (consume_published_proposal_callback proposal_id (cc_callback c) now None t) (\<lambda>(s1, _).
             stage_confirmation w c proposal_id now ans others t out s1))))))"

section \<open>The click on a batch card\<close>

text \<open>
  The clock at the gate, at the display, before the second pass and at the nonce; the readings of the two
  passes; what each member awaits and the transactions of others while it is approved.
\<close>

record batch_click_answers =
  bc_gate_now :: int
  bc_display_now :: int
  bc_first :: "nat \<Rightarrow> window_reading"
  bc_second_now :: int
  bc_second :: "nat \<Rightarrow> window_reading"
  bc_final_now :: int
  bc_member :: "nat \<Rightarrow> approve_answers"
  bc_inner :: "nat \<Rightarrow> nat \<Rightarrow> store \<Rightarrow> store"

text \<open>Each member is judged at the reading of the one before it; the flag says that one is blocked.\<close>

fun window_pass ::
  "(nat \<Rightarrow> window_reading) \<Rightarrow> nat \<Rightarrow> int \<Rightarrow> (order_proposal \<times> rung list) list
   \<Rightarrow> (svc_error, (order_proposal \<times> rung list \<times> window_decision) list \<times> bool) result" where
  "window_pass windows i t [] = Inr ([], False)"
| "window_pass windows i t ((grp, rungs) # ps) =
     bindR (batch_member_block_reason grp rungs (Aware t)) (\<lambda>block.
     bindR (bound_window grp (windows i)) (\<lambda>d.
     bindR (window_pass windows (Suc i) (wd_observed_at d) ps) (\<lambda>(rest, blocked).
       Inr ((grp, rungs, d) # rest, block \<noteq> None \<or> \<not> window_allowed d \<or> blocked))))"

type_synonym judged_member = "order_proposal \<times> rung list \<times> batch_block option \<times> window_decision"

fun final_pass ::
  "int \<Rightarrow> (order_proposal \<times> rung list \<times> window_decision) list \<Rightarrow> (svc_error, judged_member list) result" where
  "final_pass t [] = Inr []"
| "final_pass t ((grp, rungs, d) # ps) =
     bindR (batch_member_block_reason grp rungs (Aware t)) (\<lambda>block.
     bindR (map_error (\<lambda>_. NaiveDatetime) (recheck_approval_window_decision grp d (Aware t))) (\<lambda>d1.
     bindR (final_pass t ps) (\<lambda>rest. Inr ((grp, rungs, block, d1) # rest))))"

definition judge_members ::
  "batch_click_answers \<Rightarrow> (order_proposal \<times> rung list) list \<Rightarrow> (svc_error, judged_member list) result" where
  "judge_members ans proposals =
     bindR (window_pass (bc_first ans) 0 (bc_display_now ans) proposals) (\<lambda>(first, blocked).
     bindR (if blocked then Inr (first, blocked)
            else window_pass (bc_second ans) 0 (bc_second_now ans) proposals) (\<lambda>(pass, _).
       final_pass (bc_final_now ans) pass))"

definition member_blocked :: "judged_member \<Rightarrow> bool" where
  "member_blocked m = (case m of (_, _, block, d) \<Rightarrow> block \<noteq> None \<or> \<not> window_allowed d)"

definition blocked_result :: "judged_member \<Rightarrow> member_result" where
  "blocked_result m = (case m of (grp, rungs, block, d) \<Rightarrow>
     \<lparr>mr_proposal_id = g_proposal_id grp, mr_status = ''skipped'',
      mr_reason = Some (case block of
         Some b \<Rightarrow> MemberBlock b
       | None \<Rightarrow> if \<not> window_allowed d then WindowReason d else Says ''batch_atomic_window_block''),
      mr_rungs = (if block \<noteq> None \<or> window_allowed d then []
        else map (\<lambda>r. \<lparr>rr_index = r_rung_index r, rr_result = window_text d\<rparr>)
               (filter (\<lambda>r. r_state r \<in> {PendingApproval, NeedsReconfirm}) rungs))\<rparr>)"

definition expire_member :: "int \<Rightarrow> store \<Rightarrow> judged_member \<Rightarrow> (svc_error, store) result" where
  "expire_member t s m = (case m of (grp, _, _, d) \<Rightarrow> expire_at (g_proposal_id grp) (wd_code d = EXPIRED) t s)"

definition edited_at :: "int option \<Rightarrow> effect list" where
  "edited_at message_id = (if message_id = None then [] else [Edited])"

subsection \<open>One member\<close>

definition member_callback :: "batch_member_snapshot \<Rightarrow> callback_envelope" where
  "member_callback m =
     \<lparr>cb_action = ''op'', cb_subject_short = take 8 (ms_proposal_id m),
      cb_attempt_id = b_attempt_id (ms_binding m), cb_membership_revision = b_membership_revision (ms_binding m),
      cb_membership_digest = b_membership_digest (ms_binding m), cb_nonce = ms_nonce m\<rparr>"

definition BATCH_SUCCESS_RESULTS :: "string set" where
  "BATCH_SUCCESS_RESULTS = {''submitted_acked'', ''submitted_resting'', ''cancelled''}"

definition BATCH_SKIP_RESULTS :: "string set" where
  "BATCH_SKIP_RESULTS = {''guard_blocked'', ''approval_required''} \<union> WINDOW_BLOCK_RESULTS"

text \<open>\<open>dict.fromkeys\<close>: the first occurrences, in order.\<close>

definition unique :: "'a list \<Rightarrow> 'a list" where "unique xs = rev (remdups (rev xs))"

definition classify_batch_approval_result :: "callback_answer \<Rightarrow> string \<times> callback_reason option" where
  "classify_batch_approval_result a =
     (let outcomes = map rr_result (an_rungs a);
          non_success = filter (\<lambda>v. v \<notin> BATCH_SUCCESS_RESULTS) outcomes
      in if \<not> an_handled a then (''skipped'', Some (an_reason a))
         else if an_reason a = Says ''needs_reconfirm'' then (''needs_reconfirm'', None)
         else if outcomes = [] then (''skipped'', Some (Says ''no_rung_outcomes''))
         else if set outcomes \<subseteq> BATCH_SUCCESS_RESULTS then (''approved'', None)
         else if set outcomes \<subseteq> BATCH_SKIP_RESULTS then (''skipped'', Some (Says (join '','' (unique outcomes))))
         else (''failed'', Some (Says (join '','' (unique (if non_success = [] then outcomes else non_success))))))"

definition approved_member_result :: "uuid \<Rightarrow> callback_answer \<Rightarrow> member_result" where
  "approved_member_result proposal_id a =
     (let (status, reason) = classify_batch_approval_result a in
      \<lparr>mr_proposal_id = proposal_id, mr_status = status,
       mr_reason = (case an_operator_reason a of None \<Rightarrow> reason | Some d \<Rightarrow> Some (WindowReason d)),
       mr_rungs = an_rungs a\<rparr>)"

definition internal_error :: "uuid \<Rightarrow> member_result" where
  "internal_error proposal_id =
     \<lparr>mr_proposal_id = proposal_id, mr_status = ''failed'', mr_reason = Some (Says ''internal_error''), mr_rungs = []\<rparr>"

text \<open>
  A member is approved as if its own card had been clicked; an exception stays with the member. The
  result is what is committed, what left the process, and whether the member's card is edited.
\<close>

definition approve_member ::
  "dispatch_world \<Rightarrow> reconfirm_renderer \<Rightarrow> click_context \<Rightarrow> int \<Rightarrow> batch_member_snapshot \<Rightarrow> approve_answers
   \<Rightarrow> (nat \<Rightarrow> store \<Rightarrow> store) \<Rightarrow> store \<Rightarrow> store \<times> effect list \<times> member_result \<times> bool" where
  "approve_member w render c t m ans others s =
     (let pid = ms_proposal_id m in
      case bindR (get_proposal pid s) (\<lambda>(grp, rungs). batch_member_block_reason grp rungs (Aware t)) of
        Inl _ \<Rightarrow> (s, [], internal_error pid, True)
      | Inr (Some b) \<Rightarrow>
          (s, [], \<lparr>mr_proposal_id = pid, mr_status = ''skipped'', mr_reason = Some (MemberBlock b), mr_rungs = []\<rparr>, True)
      | Inr None \<Rightarrow>
          (case handle_approve w render False
                  (c\<lparr>cc_callback := member_callback m, cc_message_id := Some (ms_message_id m), cc_query_id := None,
                     cc_now := Aware t\<rparr>) pid ans others s of
             (s1, out, Inl _) \<Rightarrow> (s1, out, internal_error pid, True)
           | (s1, out, Inr a) \<Rightarrow> (s1, out, approved_member_result pid a, \<not> an_handled a)))"

text \<open>The texts of reasons are an argument.\<close>

definition member_detail :: "(callback_reason \<Rightarrow> string) \<Rightarrow> member_result \<Rightarrow> (string \<times> string) list" where
  "member_detail say r =
     [(''proposal_id'', mr_proposal_id r),
      (''reason'', case mr_reason r of None \<Rightarrow> [] | Some x \<Rightarrow> say x),
      (''rung_results'', join '','' (map (\<lambda>x. show_int (rr_index x) @ '':'' @ rr_result x) (mr_rungs r)))]"

definition member_step ::
  "dispatch_world \<Rightarrow> reconfirm_renderer \<Rightarrow> (callback_reason \<Rightarrow> string) \<Rightarrow> click_context \<Rightarrow> int
   \<Rightarrow> batch_click_answers \<Rightarrow> nat \<Rightarrow> batch_member_snapshot \<Rightarrow> batch_db \<Rightarrow> batch_db \<times> effect list \<times> member_result" where
  "member_step w render say c t ans i m db =
     (let (s1, out, result, edit) = approve_member w render c t m (bc_member ans i) (bc_inner ans i) (bd_store db);
          db1 = db\<lparr>bd_store := s1\<rparr>;
          db2 = (case record_approval_batch_member_result (ms_member_id m) (mr_status result) (member_detail say result)
                   (Aware t) db1 of Inl _ \<Rightarrow> db1 | Inr (d, _) \<Rightarrow> d)
      in (db2, out @ (if edit then [Edited] else []), result))"

fun member_steps ::
  "dispatch_world \<Rightarrow> reconfirm_renderer \<Rightarrow> (callback_reason \<Rightarrow> string) \<Rightarrow> click_context \<Rightarrow> int
   \<Rightarrow> batch_click_answers \<Rightarrow> (nat \<Rightarrow> batch_db \<Rightarrow> batch_db) \<Rightarrow> nat \<Rightarrow> batch_member_snapshot list \<Rightarrow> batch_db
   \<Rightarrow> batch_db \<times> effect list \<times> member_result list" where
  "member_steps w render say c t ans others i [] db = (db, [], [])"
| "member_steps w render say c t ans others i (m # ms) db =
     (let (db1, out1, r) = member_step w render say c t ans i m (others i db);
          (db2, out2, rs) = member_steps w render say c t ans others (Suc i) ms db1
      in (db2, out1 @ out2, r # rs))"

subsection \<open>The whole click\<close>

definition batch_run ::
  "batch_db \<Rightarrow> effect list \<Rightarrow> (batch_error, 'a) result \<Rightarrow> ('a \<Rightarrow> (batch_db, 'b) flow) \<Rightarrow> (batch_db, 'b) flow" where
  "batch_run committed out m k = (case m of Inl e \<Rightarrow> (committed, out, Inl (CallbackBatch e)) | Inr x \<Rightarrow> k x)"

definition batch_guarded ::
  "batch_db \<Rightarrow> effect list \<Rightarrow> (batch_error \<Rightarrow> effect list) \<Rightarrow> (batch_error, 'a) result
   \<Rightarrow> ('a \<Rightarrow> (batch_db, callback_answer) flow) \<Rightarrow> (batch_db, callback_answer) flow" where
  "batch_guarded committed out extra m k = (case m of
     Inl e \<Rightarrow> if is_batch_proposal_error e
             then (committed, out @ extra e, Inr (answer False (Raised (CallbackBatch e))))
             else (committed, out, Inl (CallbackBatch e))
   | Inr x \<Rightarrow> k x)"

definition resolve_approval_batch_id_prefix :: "string \<Rightarrow> batch_db \<Rightarrow> uuid option" where
  "resolve_approval_batch_id_prefix short db =
     (case filter (\<lambda>b. take (length short) (bt_batch_id b) = short) (bd_batches db) of
        [b] \<Rightarrow> Some (bt_batch_id b) | _ \<Rightarrow> None)"

definition member_has_expired :: "int \<Rightarrow> order_proposal \<times> rung list \<Rightarrow> bool" where
  "member_has_expired t p \<longleftrightarrow>
     (case valid_until_block (column_datetime (g_valid_until (fst p))) (Aware t) of
        Inr (Some (code, _)) \<Rightarrow> code = EXPIRED | _ \<Rightarrow> False)"

text \<open>The click is spent and committed; the members follow, each in a session of its own.\<close>

definition approve_members ::
  "dispatch_world \<Rightarrow> reconfirm_renderer \<Rightarrow> (callback_reason \<Rightarrow> string) \<Rightarrow> click_context \<Rightarrow> uuid
   \<Rightarrow> batch_member_snapshot list \<Rightarrow> batch_click_answers \<Rightarrow> (nat \<Rightarrow> batch_db \<Rightarrow> batch_db) \<Rightarrow> effect list \<Rightarrow> batch_db
   \<Rightarrow> (batch_db, callback_answer) flow" where
  "approve_members w render say c batch_id members ans others out db =
     (let (db1, out1, results) = member_steps w render say c (bc_final_now ans) ans others 0 members db;
          db2 = others (length members) db1
      in batch_run db2 (out @ out1) (get_approval_batch_display batch_id db2) (\<lambda>_.
           (db2, out @ out1 @ edited c,
            Inr ((answer True (Says ''batch_approved''))\<lparr>an_members := results\<rparr>))))"

definition handle_batch_approve ::
  "dispatch_world \<Rightarrow> reconfirm_renderer \<Rightarrow> (callback_reason \<Rightarrow> string) \<Rightarrow> click_context \<Rightarrow> batch_click_answers
   \<Rightarrow> (nat \<Rightarrow> batch_db \<Rightarrow> batch_db) \<Rightarrow> batch_db \<Rightarrow> (batch_db, callback_answer) flow" where
  "handle_batch_approve w render say c ans others db =
     (case resolve_approval_batch_id_prefix (cb_subject_short (cc_callback c)) db of
        None \<Rightarrow> (db, [], Inr (answer False (Says ''approval_batch_not_found'')))
      | Some batch_id \<Rightarrow>
     batch_guarded db [] (\<lambda>_. []) (preflight_published_batch_callback batch_id (cc_callback c) (cc_chat_id c)
                                    (Aware (bc_gate_now ans)) True db) (\<lambda>_.
     batch_run db [] (get_approval_batch_display batch_id db) (\<lambda>(batch, proposals).
     let batch_expired = (bt_expires_at batch \<le> bc_display_now ans) in
     if length proposals < 2 then (db, [], Inr (answer False (Says ''approval_batch_too_small'')))
     else if batch_expired \<and> \<not> list_ex (member_has_expired (bc_display_now ans)) proposals
     then (db, [], Inr (answer False (Says ''approval_batch_expired'')))
     else let out = answered (cc_query_id c) in
     run db out (judge_members ans proposals) (\<lambda>judged.
       if list_ex member_blocked judged
       then run db out (foldR (expire_member (bc_final_now ans)) (bd_store db) judged) (\<lambda>s1.
              (db\<lparr>bd_store := s1\<rparr>, out @ edited c,
               Inr ((answer False (Says ''BATCH_WINDOW_BLOCKED''))\<lparr>an_members := map blocked_result judged\<rparr>)))
       else if batch_expired
       then (db, out @ edited c, Inr (answer False (Says ''approval_batch_expired'')))
       else batch_guarded db out (\<lambda>e. if e = BatchError ''approval_batch_expired'' then edited c else [])
              (consume_approval_batch_nonce (dw_batch_digest w) batch_id (cc_callback c) (cc_chat_id c) (cc_user c)
                 (Aware (bc_final_now ans))
                 (Some (map (\<lambda>(grp, _). (g_proposal_id grp,
                    (case g_approval_nonce grp of None \<Rightarrow> [] | Some n \<Rightarrow> n))) proposals)) db) (\<lambda>(db1, _, members).
              approve_members w render say c batch_id members ans others out db1)))))"

section \<open>The webhook\<close>

text \<open>\<open>str\<close> of the chat, the optional ids and the data of a callback query.\<close>

record callback_query =
  cq_id :: "string option"
  cq_chat_id :: string
  cq_message_id :: "int option"
  cq_user_id :: "string option"
  cq_data :: "string option"

record click_answers =
  ck_approve :: approve_answers
  ck_loss_cut :: loss_cut_answers
  ck_veto :: "int \<Rightarrow> veto_answers"
  ck_batch :: batch_click_answers

definition resolve_proposal_id_prefix :: "string \<Rightarrow> store \<Rightarrow> uuid option" where
  "resolve_proposal_id_prefix short s =
     (if length short \<noteq> 8 \<or> \<not> set short \<subseteq> set ''0123456789abcdefABCDEF'' then None
      else case filter (\<lambda>g. take 8 (g_proposal_id g) = short) (db_groups s) of
        [g] \<Rightarrow> Some (g_proposal_id g) | _ \<Rightarrow> None)"

definition click_of :: "callback_query \<Rightarrow> callback_envelope \<Rightarrow> pydatetime \<Rightarrow> click_context" where
  "click_of q callback now =
     \<lparr>cc_callback = callback, cc_chat_id = cq_chat_id q, cc_message_id = cq_message_id q, cc_query_id = cq_id q,
      cc_user = (case cq_user_id q of None \<Rightarrow> [] | Some u \<Rightarrow> u), cc_now = now\<rparr>"

text \<open>The action of the callback decides the handler; \<open>op\<close> on a loss cut asks for a second click.\<close>

definition handle_proposal_click ::
  "dispatch_world \<Rightarrow> reconfirm_renderer \<Rightarrow> click_context \<Rightarrow> uuid \<Rightarrow> click_answers \<Rightarrow> (nat \<Rightarrow> store \<Rightarrow> store)
   \<Rightarrow> store \<Rightarrow> (store, callback_answer) flow" where
  "handle_proposal_click w render c proposal_id ans others s =
     (let action = cb_action (cc_callback c) in
      if action = ''vc'' then handle_auto_veto c proposal_id (ck_veto ans) others s
      else if action = ''dn'' then handle_deny c proposal_id others s
      else if action = ''op''
      then run s [] (get_proposal proposal_id s) (\<lambda>(grp, _).
             if g_exit_intent grp = Some ''loss_cut''
             then handle_loss_cut_first_click w c proposal_id (ck_loss_cut ans) others s
             else handle_approve w render False c proposal_id (ck_approve ans) others s)
      else handle_approve w render True c proposal_id (ck_approve ans) others s)"

definition handle_click ::
  "dispatch_world \<Rightarrow> reconfirm_renderer \<Rightarrow> (callback_reason \<Rightarrow> string) \<Rightarrow> click_context \<Rightarrow> click_answers
   \<Rightarrow> (nat \<Rightarrow> batch_db \<Rightarrow> batch_db) \<Rightarrow> (nat \<Rightarrow> store \<Rightarrow> store) \<Rightarrow> batch_db \<Rightarrow> (batch_db, callback_answer) flow" where
  "handle_click w render say c ans others inner db =
     (if cb_action (cc_callback c) = ''ba'' then handle_batch_approve w render say c (ck_batch ans) others db
      else case resolve_proposal_id_prefix (cb_subject_short (cc_callback c)) (bd_store db) of
        None \<Rightarrow> (db, [], Inr (answer False (Says ''proposal_not_found'')))
      | Some proposal_id \<Rightarrow>
          (let (s1, out, res) = handle_proposal_click w render c proposal_id ans inner (bd_store db)
           in (db\<lparr>bd_store := s1\<rparr>, out, res)))"

text \<open>An exception becomes an answer; what was committed stays.\<close>

definition settle :: "('s, callback_answer) flow \<Rightarrow> 's \<times> effect list \<times> callback_answer" where
  "settle f = (case f of
     (s, out, Inl _) \<Rightarrow> (s, out, answer False (Says ''internal_error''))
   | (s, out, Inr a) \<Rightarrow> (s, out, a))"

definition handle_callback_update ::
  "dispatch_world \<Rightarrow> reconfirm_renderer \<Rightarrow> (callback_reason \<Rightarrow> string) \<Rightarrow> callback_query option \<Rightarrow> pydatetime
   \<Rightarrow> click_answers \<Rightarrow> (nat \<Rightarrow> batch_db \<Rightarrow> batch_db) \<Rightarrow> (nat \<Rightarrow> store \<Rightarrow> store) \<Rightarrow> batch_db
   \<Rightarrow> batch_db \<times> effect list \<times> callback_answer" where
  "handle_callback_update w render say update now ans others inner db =
     (case update of
        None \<Rightarrow> (db, [], answer False (Says ''not_callback''))
      | Some q \<Rightarrow>
          if cq_chat_id q \<notin> set (dw_allowlist w) then (db, [], answer False (Says ''chat_not_allowed''))
          else case parse_callback_data (cq_data q) of
            Inl _ \<Rightarrow> (db, [], answer False (Says ''malformed_callback_data''))
          | Inr callback \<Rightarrow> settle (handle_click w render say (click_of q callback now) ans others inner db))"

end
