(* ===== verification/CallbackSafety.thy ===== *)
theory CallbackSafety
  imports Callback DispatchSafety ProposalHistory
begin

text \<open>
  What a click can do: nothing before the gate of its card, no broker call before its nonce is consumed
  under an open window, and nothing after a broker call that would lose what the broker did.
\<close>

section \<open>Flows\<close>

lemma guarded_cases:
  assumes "guarded committed out m k = (s', out', res)"
  obtains e where "m = Inl e" "s' = committed" "out' = out" "\<And>a. res = Inr a \<Longrightarrow> \<not> an_handled a"
  | x where "m = Inr x" "k x = (s', out', res)"
  using assms by (auto simp: guarded_def answer_def split: sum.splits if_splits)

lemma run_cases:
  assumes "run committed out m k = (s', out', res)"
  obtains e where "m = Inl e" "s' = committed" "out' = out" "\<And>a. res \<noteq> Inr a"
  | x where "m = Inr x" "k x = (s', out', res)"
  using assms by (auto simp: run_def split: sum.splits)

lemma disp_cases:
  assumes "disp committed out m k = (s', out', res)"
  obtains e where "m = Inl e" "s' = committed" "out' = out" "\<And>a. res \<noteq> Inr a"
  | x where "m = Inr x" "k x = (s', out', res)"
  using assms by (auto simp: disp_def split: sum.splits)

lemma batch_guarded_cases:
  assumes "batch_guarded committed out extra m k = (s', out', res)"
  obtains e where "m = Inl e" "s' = committed" "out' = out \<or> out' = out @ extra e" "\<And>a. res = Inr a \<Longrightarrow> \<not> an_handled a"
  | x where "m = Inr x" "k x = (s', out', res)"
  using assms by (auto simp: batch_guarded_def answer_def split: sum.splits if_splits)

lemma batch_run_cases:
  assumes "batch_run committed out m k = (s', out', res)"
  obtains e where "m = Inl e" "s' = committed" "out' = out" "\<And>a. res \<noteq> Inr a"
  | x where "m = Inr x" "k x = (s', out', res)"
  using assms by (auto simp: batch_run_def split: sum.splits)

lemma bound_window_total: "\<exists>d. bound_window grp w = Inr d"
  unfolding bound_window_def boundary_at_def
  using window_at_total [of grp "active_policy_stamp grp None" w, unfolded window_at_def] .

text \<open>The effects that only Telegram sees.\<close>

definition telegram_only :: "effect list \<Rightarrow> bool" where
  "telegram_only out \<longleftrightarrow> set out \<subseteq> {Answered, Edited}"

lemma telegram_only_simps [simp]:
  "telegram_only []" "telegram_only (answered q)" "telegram_only (edited c)"
  "telegram_only (a @ b) \<longleftrightarrow> telegram_only a \<and> telegram_only b"
  "telegram_only (e # b) \<longleftrightarrow> e \<in> {Answered, Edited} \<and> telegram_only b"
  by (auto simp: telegram_only_def answered_def edited_def)

lemma twice_open_cases:
  assumes "twice_open c q pid grp w1 w2 committed out s k = (s', out', res)"
  obtains "\<And>a. res = Inr a \<Longrightarrow> \<not> an_handled a" "\<exists>more. out' = out @ more \<and> telegram_only more"
  | d1 d2 where "bound_window grp w1 = Inr d1" "window_allowed d1" "bound_window grp w2 = Inr d2" "window_allowed d2"
      "k d2 = (s', out', res)"
proof -
  have reject: "(\<forall>a. res = Inr a \<longrightarrow> \<not> an_handled a) \<and> (\<exists>more. out' = out @ more \<and> telegram_only more)"
    if "reject_window_callback c q pid d committed out s = (s', out', res)" for d
    using that by (auto simp: reject_window_callback_def answer_def elim!: run_cases)
  obtain d1 d2 where d: "bound_window grp w1 = Inr d1" "bound_window grp w2 = Inr d2"
    using bound_window_total by blast
  have shape: "twice_open c q pid grp w1 w2 committed out s k =
      (if \<not> window_allowed d1 then reject_window_callback c q pid d1 committed out s
       else if \<not> window_allowed d2 then reject_window_callback c q pid d2 committed out s else k d2)"
    by (simp only: twice_open_def run_def d sum.case)
  show thesis
  proof (cases "window_allowed d1 \<and> window_allowed d2")
    case True
    then show thesis using that(2) [OF d(1) _ d(2)] assms shape by simp
  next
    case False
    then obtain d where "reject_window_callback c q pid d committed out s = (s', out', res)"
      using assms shape by metis
    note r = reject [OF this]
    show thesis by (rule that(1)) (use r in auto)
  qed
qed

section \<open>The gate\<close>

text \<open>The callback is one for a card that is published, unused and shown as it is.\<close>

definition callback_gate :: "callback_envelope \<Rightarrow> string \<Rightarrow> int \<Rightarrow> batch_db \<Rightarrow> bool" where
  "callback_gate cb chat_id t db \<longleftrightarrow>
     (if cb_action cb = ''ba''
      then (\<exists>batch_id b. resolve_approval_batch_id_prefix (cb_subject_short cb) db = Some batch_id \<and>
              preflight_published_batch_callback batch_id cb chat_id (Aware t) True db = Inr b)
      else (\<exists>pid grp. resolve_proposal_id_prefix (cb_subject_short cb) (bd_store db) = Some pid \<and>
              preflight_published_proposal_callback pid cb (bd_store db) = Inr grp))"

lemma closed_gate:
  assumes "preflight_published_proposal_callback pid (cc_callback c) s = Inl e"
  shows "\<exists>r. handle_deny c pid others s = (s, [], r) \<and> (\<forall>a. r = Inr a \<longrightarrow> \<not> an_handled a)"
    and "\<exists>r. handle_auto_veto c pid va others s = (s, [], r) \<and> (\<forall>a. r = Inr a \<longrightarrow> \<not> an_handled a)"
    and "\<exists>r. handle_approve w render lc c pid aa others s = (s, [], r) \<and> (\<forall>a. r = Inr a \<longrightarrow> \<not> an_handled a)"
    and "\<exists>r. handle_loss_cut_first_click w c pid la others s = (s, [], r) \<and> (\<forall>a. r = Inr a \<longrightarrow> \<not> an_handled a)"
  using assms
  by (auto simp: handle_deny_def handle_auto_veto_def handle_approve_def handle_loss_cut_first_click_def guarded_def answer_def)

lemma closed_gate_click:
  assumes "preflight_published_proposal_callback pid (cc_callback c) s = Inl e"
  shows "\<exists>r. handle_proposal_click w render c pid ans others s = (s, [], r) \<and> (\<forall>a. r = Inr a \<longrightarrow> \<not> an_handled a)"
proof (cases "get_proposal pid s")
  case (Inl x)
  then show ?thesis using closed_gate [OF assms] by (auto simp: handle_proposal_click_def run_def Let_def)
next
  case (Inr p)
  then show ?thesis using closed_gate [OF assms] by (cases p) (simp add: handle_proposal_click_def run_def Let_def)
qed

lemma closed_gate_handle:
  assumes shut: "\<not> callback_gate (cc_callback c) (cc_chat_id c) (bc_gate_now (ck_batch ans)) db"
  shows "\<exists>r. handle_click w render say c ans others inner db = (db, [], r) \<and> (\<forall>a. r = Inr a \<longrightarrow> \<not> an_handled a)"
proof (cases "cb_action (cc_callback c) = ''ba''")
  case batch: True
  show ?thesis
  proof (cases "resolve_approval_batch_id_prefix (cb_subject_short (cc_callback c)) db")
    case None
    then show ?thesis using batch by (simp add: handle_click_def handle_batch_approve_def answer_def)
  next
    case (Some batch_id)
    then obtain e where "preflight_published_batch_callback batch_id (cc_callback c) (cc_chat_id c)
        (Aware (bc_gate_now (ck_batch ans))) True db = Inl e"
      using shut batch
      by (cases "preflight_published_batch_callback batch_id (cc_callback c) (cc_chat_id c)
           (Aware (bc_gate_now (ck_batch ans))) True db") (auto simp: callback_gate_def)
    then show ?thesis
      using batch Some by (simp add: handle_click_def handle_batch_approve_def batch_guarded_def answer_def)
  qed
next
  case False
  show ?thesis
  proof (cases "resolve_proposal_id_prefix (cb_subject_short (cc_callback c)) (bd_store db)")
    case None
    then show ?thesis using False by (simp add: handle_click_def answer_def)
  next
    case (Some pid)
    then obtain e where "preflight_published_proposal_callback pid (cc_callback c) (bd_store db) = Inl e"
      using shut False
      by (cases "preflight_published_proposal_callback pid (cc_callback c) (bd_store db)") (auto simp: callback_gate_def)
    then obtain r where "handle_proposal_click w render c pid ans inner (bd_store db) = (bd_store db, [], r)"
      "\<forall>a. r = Inr a \<longrightarrow> \<not> an_handled a"
      using closed_gate_click by metis
    then show ?thesis using False Some by (simp add: handle_click_def)
  qed
qed

text \<open>
  C11: A webhook update has an effect, on Telegram, on a broker or on the database, only when it is a
  callback of an allow-listed chat with well-formed data, its subject is found, and the gate accepts it
  for the card that is published; otherwise it is answered without being handled.
\<close>

theorem click_acts_only_through_the_gate:
  assumes "handle_callback_update w render say update now ans others inner db = (db', out, a)"
  shows "(\<exists>q cb. update = Some q \<and> cq_chat_id q \<in> set (dw_allowlist w) \<and>
            parse_callback_data (cq_data q) = Inr cb \<and>
            callback_gate cb (cq_chat_id q) (bc_gate_now (ck_batch ans)) db) \<or>
         (db' = db \<and> out = [] \<and> \<not> an_handled a)"
proof (cases "\<exists>q cb. update = Some q \<and> cq_chat_id q \<in> set (dw_allowlist w) \<and> parse_callback_data (cq_data q) = Inr cb")
  case False
  then show ?thesis
    using assms by (auto simp: handle_callback_update_def answer_def split: option.splits sum.splits if_splits)
next
  case True
  then obtain q cb where q: "update = Some q" "cq_chat_id q \<in> set (dw_allowlist w)" "parse_callback_data (cq_data q) = Inr cb"
    by blast
  let ?c = "click_of q cb now"
  have c: "cc_callback ?c = cb" "cc_chat_id ?c = cq_chat_id q" by (simp_all add: click_of_def)
  have run: "settle (handle_click w render say ?c ans others inner db) = (db', out, a)"
    using assms q by (simp add: handle_callback_update_def)
  show ?thesis
  proof (cases "callback_gate cb (cq_chat_id q) (bc_gate_now (ck_batch ans)) db")
    case True
    then show ?thesis using q by blast
  next
    case False
    then have "\<not> callback_gate (cc_callback ?c) (cc_chat_id ?c) (bc_gate_now (ck_batch ans)) db" by (simp add: c)
    then obtain r where "handle_click w render say ?c ans others inner db = (db, [], r)" "\<forall>a. r = Inr a \<longrightarrow> \<not> an_handled a"
      using closed_gate_handle by blast
    then show ?thesis using run by (auto simp: settle_def answer_def split: sum.splits)
  qed
qed

section \<open>Broker calls\<close>

fun touches_broker :: "effect \<Rightarrow> bool" where
  "touches_broker (Broker _) = True"
| "touches_broker (CancelAsked _) = True"
| "touches_broker _ = False"

definition quiet_effects :: "effect list \<Rightarrow> bool" where
  "quiet_effects out \<longleftrightarrow> (\<forall>e \<in> set out. \<not> touches_broker e)"

lemma quiet_effects_simps [simp]:
  "quiet_effects []" "quiet_effects (a @ b) \<longleftrightarrow> quiet_effects a \<and> quiet_effects b"
  "quiet_effects (e # b) \<longleftrightarrow> \<not> touches_broker e \<and> quiet_effects b" "quiet_effects (map Sent ts)"
  "quiet_effects (answered q)" "quiet_effects (edited c)" "quiet_effects (edited_at m)"
  by (auto simp: quiet_effects_def answered_def edited_def edited_at_def)

lemma telegram_quiet: "telegram_only out \<Longrightarrow> quiet_effects out"
  by (auto simp: telegram_only_def quiet_effects_def)

lemma publish_reconfirm_quiet:
  "publish_reconfirm w c pid messages d outcomes ans others out s = (s', out', res) \<Longrightarrow>
     \<exists>more. out' = out @ more \<and> quiet_effects more"
  by (auto simp: publish_reconfirm_def Let_def elim!: disp_cases run_cases)

lemma send_reconfirm_quiet:
  assumes "send_reconfirm w render c pid outcomes ans others committed out s = (s', out', res)"
  shows "\<exists>more. out' = out @ more \<and> quiet_effects more"
  using assms publish_reconfirm_quiet
  by (auto simp: send_reconfirm_def Let_def elim!: run_cases split: if_splits)

lemma after_run_quiet:
  assumes "after_run w render c pid outcomes ans others committed out s = (s', out', res)"
  shows "\<exists>more. out' = out @ more \<and> quiet_effects more"
proof -
  consider "give_card_back c pid outcomes (ap_expiry_now ans) committed out s = (s', out', res)"
    | grp where "twice_open c (cc_query_id c) pid grp (ap_reconfirm1 ans) (ap_reconfirm2 ans) committed out s
        (\<lambda>_. send_reconfirm w render c pid outcomes ans others committed out s) = (s', out', res)"
    | "approve_finished c outcomes out s = (s', out', res)" | "out' = out"
    using assms by (auto simp: after_run_def elim!: run_cases split: if_splits)
  then show ?thesis
  proof cases
    case 1
    then show ?thesis by (auto simp: give_card_back_def Let_def elim!: run_cases)
  next
    case 2
    from 2 show ?thesis
    proof (cases rule: twice_open_cases)
      case 1
      then show ?thesis using telegram_quiet by blast
    next
      case (2 d1 d2)
      then show ?thesis using send_reconfirm_quiet by blast
    qed
  next
    case 3
    then show ?thesis by (auto simp: approve_finished_def)
  qed simp
qed

text \<open>What an approving click did when it came to the run, and that it is quiet otherwise.\<close>

definition approval_run ::
  "dispatch_world \<Rightarrow> bool \<Rightarrow> click_context \<Rightarrow> uuid \<Rightarrow> approve_answers \<Rightarrow> store \<Rightarrow> store
   \<Rightarrow> window_decision \<Rightarrow> store \<Rightarrow> store \<Rightarrow> store \<Rightarrow> store \<Rightarrow> rung_outcome list \<Rightarrow> submit_event list \<Rightarrow> bool" where
  "approval_run w loss_cut c pid ans s t d s1 s2 s3 s4 outcomes events \<longleftrightarrow>
     (\<exists>grp rungs g. get_proposal pid s = Inr (grp, rungs) \<and> bound_window grp (ap_window2 ans) = Inr d \<and> window_allowed d \<and>
       consume_published_proposal_callback pid (cc_callback c) (Aware (wd_observed_at d))
         (if loss_cut then Some (cc_user c) else None) t = Inr (s1, g) \<and>
       acquire_commit_lease pid (Aware (wd_observed_at d)) commit_lease_seconds s1 = Inr (s2, True) \<and>
       bindR (record_approval pid (cc_user c) (Aware (wd_observed_at d)) s2) (\<lambda>(x, _). reopen_reconfirming pid x) = Inr s3 \<and>
       revalidate_and_submit (dw_sha w) (dw_read_iso w) (dw_show_iso w) pid (Aware (wd_observed_at d))
         (Some (wd_policy_stamp d)) False (ap_first_window ans) (ap_actions ans) s3 = Inr (s4, outcomes, events))"

lemma approve_locked_flow:
  assumes "approve_locked w render c pid d ans others committed out s = (s', out', res)"
  obtains "out' = out" "\<And>a. res = Inr a \<Longrightarrow> \<not> an_handled a"
  | s2 s3 s4 outcomes events where
      "acquire_commit_lease pid (Aware (wd_observed_at d)) commit_lease_seconds s = Inr (s2, True)"
      "bindR (record_approval pid (cc_user c) (Aware (wd_observed_at d)) s2) (\<lambda>(x, _). reopen_reconfirming pid x) = Inr s3"
      "revalidate_and_submit (dw_sha w) (dw_read_iso w) (dw_show_iso w) pid (Aware (wd_observed_at d))
         (Some (wd_policy_stamp d)) False (ap_first_window ans) (ap_actions ans) s3 = Inr (s4, outcomes, events)"
      "after_run w render c pid outcomes ans others committed (out @ map Broker events) s4 = (s', out', res)"
proof -
  let ?now = "Aware (wd_observed_at d)"
  from assms show thesis unfolding approve_locked_def Let_def
  proof (cases rule: run_cases)
    case (1 e)
    then show thesis using that(1) by auto
  next
    case (2 p)
    obtain s2 acquired where p: "p = (s2, acquired)" by (cases p)
    show thesis
    proof (cases acquired)
      case False
      then show thesis using 2(2) p that(1) by (auto simp: answer_def)
    next
      case True
      then have "run committed out (bindR (record_approval pid (cc_user c) ?now s2) (\<lambda>(x, _). reopen_reconfirming pid x)) (\<lambda>s3.
        run committed out (revalidate_and_submit (dw_sha w) (dw_read_iso w) (dw_show_iso w) pid ?now
             (Some (wd_policy_stamp d)) False (ap_first_window ans) (ap_actions ans) s3) (\<lambda>(s4, outcomes, events).
        after_run w render c pid outcomes ans others committed (out @ map Broker events) s4)) = (s', out', res)"
        using 2(2) p by simp
      then show thesis
      proof (cases rule: run_cases)
        case (1 e)
        then show thesis using that(1) by auto
      next
        case inner: (2 s3)
        from inner(2) show thesis
        proof (cases rule: run_cases)
          case (1 e)
          then show thesis using that(1) by auto
        next
          case run: (2 r)
          then show thesis using that(2) [of s2 s3] 2(1) p True inner(1) by (cases r) auto
        qed
      qed
    qed
  qed
qed

lemma approve_flow:
  assumes "handle_approve w render loss_cut c pid ans others s = (s', out, res)"
  obtains "telegram_only out" "\<And>a. res = Inr a \<Longrightarrow> \<not> an_handled a"
  | d s1 s2 s3 s4 outcomes events where
      "approval_run w loss_cut c pid ans s (others 0 s) d s1 s2 s3 s4 outcomes events"
      "after_run w render c pid outcomes ans others (others 0 s) (answered (cc_query_id c) @ map Broker events) s4 = (s', out, res)"
proof -
  let ?out = "answered (cc_query_id c)" and ?t = "others 0 s"
  from assms show thesis unfolding handle_approve_def Let_def
  proof (cases rule: guarded_cases)
    case (1 e)
    then show thesis using that(1) by simp
  next
    case gate: (2 x)
    from gate(2) show thesis
    proof (cases rule: run_cases)
      case (1 e)
      then show thesis using that(1) by simp
    next
      case got: (2 p)
      obtain grp rungs where p: "p = (grp, rungs)" by (cases p)
      from got(2) show thesis unfolding p prod.case
      proof (cases rule: run_cases)
        case (1 e)
        then show thesis using that(1) by simp
      next
        case (2 b)
        from 2(2) show thesis
        proof (cases rule: twice_open_cases)
          case 1
          then show thesis using that(1) by auto
        next
          case opened: (2 d1 d2)
          from opened(5) show thesis
          proof (cases rule: guarded_cases)
            case (1 e)
            then show thesis using that(1) by simp
          next
            case spent: (2 q)
            obtain s1 g where q: "q = (s1, g)" by (cases q)
            from spent(2) have locked: "approve_locked w render c pid d2 ans others ?t ?out s1 = (s', out, res)" by (simp add: q)
            from locked show thesis
            proof (cases rule: approve_locked_flow)
              case 1
              then show thesis using that(1) by simp
            next
              case run: (2 s2 s3 s4 outcomes events)
              have "approval_run w loss_cut c pid ans s ?t d2 s1 s2 s3 s4 outcomes events"
                using got(1) p opened(3,4) spent(1) q run(1-3) by (auto simp: approval_run_def)
              then show thesis using that(2) run(4) by blast
            qed
          qed
        qed
      qed
    qed
  qed
qed

lemma approve_broker:
  assumes "handle_approve w render loss_cut c pid ans others s = (s', out, res)" and "\<not> quiet_effects out"
  obtains d s1 s2 s3 s4 outcomes events where
    "approval_run w loss_cut c pid ans s (others 0 s) d s1 s2 s3 s4 outcomes events"
    "\<And>e. e \<in> set out \<Longrightarrow> touches_broker e \<Longrightarrow> e \<in> Broker ` set events"
  using assms(1)
proof (cases rule: approve_flow)
  case 1
  then show thesis using assms(2) telegram_quiet by blast
next
  case (2 d s1 s2 s3 s4 outcomes events)
  obtain more where out: "out = (answered (cc_query_id c) @ map Broker events) @ more" and "quiet_effects more"
    using after_run_quiet [OF 2(2)] by blast
  then have "e \<in> Broker ` set events" if "e \<in> set out" "touches_broker e" for e
    using that by (auto simp: quiet_effects_def answered_def split: if_splits)
  then show thesis using that 2(1) by blast
qed

lemma deny_quiet: "handle_deny c pid others s = (s', out, res) \<Longrightarrow> quiet_effects out"
  by (auto simp: handle_deny_def Let_def elim!: guarded_cases run_cases)


section \<open>A concrete click\<close>

text \<open>
  The owner approves the cancellation of an order that rests at the broker; the card carries the policy
  of the open session.
\<close>

definition with_policy :: "order_proposal \<Rightarrow> order_proposal" where
  "with_policy g = g\<lparr>g_source_asof := Some (or_empty (g_source_asof g) @
     [(''approval_window_policy_stamp'', JStr (policy_stamp (\<lambda>s. s) g (Some open_evidence)))])\<rparr>"

definition cancel_group :: order_proposal where
  "cancel_group = with_policy (replace_group\<lparr>g_action := Some ''cancel''\<rparr>)"

definition cancel_store :: store where
  "cancel_store = sample_store\<lparr>db_groups := [cancel_group, old_group]\<rparr>"

definition approve_sample :: approve_answers where
  "approve_sample = \<lparr>ap_window1 = open_reading, ap_window2 = open_reading, ap_first_window = open_reading,
     ap_actions = (\<lambda>_. sample_actions), ap_expiry_now = 20, ap_reconfirm1 = open_reading, ap_reconfirm2 = open_reading,
     ap_send = open_reading, ap_nonce = ''n3'', ap_attempt_id = ''a3'', ap_notifier = (\<lambda>_. Inr sample_reply),
     ap_alert = None\<rparr>"

definition loss_cut_sample :: loss_cut_answers where
  "loss_cut_sample = \<lparr>lc_window1 = open_reading, lc_window2 = open_reading, lc_preview = Inr (), lc_window3 = open_reading,
     lc_window4 = open_reading, lc_nonce = ''n3'', lc_attempt_id = ''a3'', lc_render = (\<lambda>_ _ _. [66]),
     lc_publish = open_reading, lc_edit = Inr sample_reply, lc_alert = None\<rparr>"

definition batch_sample :: batch_click_answers where
  "batch_sample = \<lparr>bc_gate_now = 30, bc_display_now = 31, bc_first = (\<lambda>_. open_reading), bc_second_now = 32,
     bc_second = (\<lambda>_. open_reading), bc_final_now = 33, bc_member = (\<lambda>_. approve_sample), bc_inner = (\<lambda>_ _ s. s)\<rparr>"

definition answers_sample :: click_answers where
  "answers_sample = \<lparr>ck_approve = approve_sample, ck_loss_cut = loss_cut_sample, ck_veto = sample_veto, ck_batch = batch_sample\<rparr>"

definition click_sample :: click_context where
  "click_sample = \<lparr>cc_callback = sample_callback, cc_chat_id = ''chat'', cc_message_id = Some 5, cc_query_id = Some ''q'',
     cc_user = ''u'', cc_now = Aware 20\<rparr>"

abbreviation sample_render :: reconfirm_renderer where
  "sample_render \<equiv> \<lambda>_ _ _ _. sample_messages"

lemma cancel_click_runs:
  obtains s' out a e where
    "handle_approve sample_world sample_render False click_sample ''p0000001'' approve_sample (\<lambda>_ s. s) cancel_store =
       (s', out, Inr a)" "Broker e \<in> set out" "an_handled a"
    "handle_proposal_click sample_world sample_render click_sample ''p0000001'' answers_sample (\<lambda>_ s. s) cancel_store =
       (s', out, Inr a)"
proof -
  obtain s' out res where run: "handle_approve sample_world sample_render False click_sample ''p0000001'' approve_sample
      (\<lambda>_ s. s) cancel_store = (s', out, res)"
    by (cases "handle_approve sample_world sample_render False click_sample ''p0000001'' approve_sample (\<lambda>_ s. s) cancel_store")
  have "case handle_approve sample_world sample_render False click_sample ''p0000001'' approve_sample (\<lambda>_ s. s) cancel_store
      of (s', out, res) \<Rightarrow> list_ex touches_broker out \<and> list_all (\<lambda>e. case e of CancelAsked _ \<Rightarrow> False | _ \<Rightarrow> True) out \<and>
        (case res of Inl _ \<Rightarrow> False | Inr a \<Rightarrow> an_handled a)"
    by code_simp
  then have r: "list_ex touches_broker out" "list_all (\<lambda>e. case e of CancelAsked _ \<Rightarrow> False | _ \<Rightarrow> True) out"
    "case res of Inl _ \<Rightarrow> False | Inr a \<Rightarrow> an_handled a" by (simp_all add: run)
  obtain e where e: "e \<in> set out" "touches_broker e" "case e of CancelAsked _ \<Rightarrow> False | _ \<Rightarrow> True"
    using r(1,2) by (auto simp: list_ex_iff list_all_iff)
  obtain ev where "e = Broker ev" using e(2,3) by (cases e) auto
  then have "Broker ev \<in> set out" using e(1) by simp
  moreover obtain a where "res = Inr a" "an_handled a" using r(3) by (cases res) auto
  moreover have "get_proposal ''p0000001'' cancel_store = Inr (cancel_group, list_rungs cancel_store 1)" by code_simp
  then have "handle_proposal_click sample_world sample_render click_sample ''p0000001'' answers_sample (\<lambda>_ s. s) cancel_store =
      handle_approve sample_world sample_render False click_sample ''p0000001'' approve_sample (\<lambda>_ s. s) cancel_store"
    by (simp add: handle_proposal_click_def run_def click_sample_def sample_callback_def answers_sample_def cancel_group_def
        with_policy_def replace_group_def sample_group_def new_group_def sample_request_def)
  ultimately show thesis using run that by auto
qed

theorem click_acts_only_through_the_gate_witness:
  "\<exists>db' out a. handle_callback_update sample_world sample_render (\<lambda>_. []) (Some \<lparr>cq_id = Some ''q'', cq_chat_id = ''chat'',
       cq_message_id = Some 5, cq_user_id = Some ''u'', cq_data = Some ''op:p0000001:n1''\<rparr>) (Aware 20) answers_sample (\<lambda>_ d. d)
       (\<lambda>_ s. s) sample_batches = (db', out, a) \<and> db' = sample_batches \<and> out = [] \<and> \<not> an_handled a"
proof -
  let ?q = "\<lparr>cq_id = Some ''q'', cq_chat_id = ''chat'', cq_message_id = Some 5, cq_user_id = Some ''u'',
      cq_data = Some ''op:p0000001:n1''\<rparr>"
  obtain db' out a where run: "handle_callback_update sample_world sample_render (\<lambda>_. []) (Some ?q) (Aware 20) answers_sample
      (\<lambda>_ d. d) (\<lambda>_ s. s) sample_batches = (db', out, a)" by (rule prod_cases3)
  have "\<not> is_ok (parse_callback_data (Some ''op:p0000001:n1''))" by code_simp
  then have "parse_callback_data (cq_data ?q) \<noteq> Inr cb" for cb by (simp add: is_ok_iff)
  then show ?thesis using run click_acts_only_through_the_gate [OF run] by auto
qed

end
