(* ===== verification/CallbackCommit.thy ===== *)
theory CallbackCommit
  imports CallbackSafety
begin

text \<open>
  What an approving click commits: once the run has reached the broker no step before the commit can
  fail, so the rungs are stored as the run left them, whatever the windows, the card and Telegram do
  afterwards; and a handled click cannot be repeated.
\<close>

section \<open>Steps that keep what the broker knows\<close>

text \<open>
  A rung that is not voidable (it was sent, or is over) stays as it is; attempts are not touched.
\<close>

definition keeps :: "order_proposal \<Rightarrow> store \<Rightarrow> store \<Rightarrow> bool" where
  "keeps grp s s' \<longleftrightarrow> evolves UNIV s s' \<and> db_attempts s' = db_attempts s \<and>
     (\<forall>i st. st \<notin> VOIDABLE_RUNG_STATES \<longrightarrow> rung_in s grp i st \<longrightarrow> rung_in s' grp i st)"

lemma evolves_mono: "evolves N s s' \<Longrightarrow> N \<subseteq> M \<Longrightarrow> evolves M s s'"
  unfolding evolves_def group_evolves_def by blast

lemma evolves_any: "evolves N s s' \<Longrightarrow> evolves UNIV s s'"
  by (rule evolves_mono) simp_all

lemma keeps_refl: "wf_store s \<Longrightarrow> keeps grp s s"
  by (auto simp: keeps_def)

lemma keeps_trans: "keeps grp a b \<Longrightarrow> keeps grp b c \<Longrightarrow> keeps grp a c"
  unfolding keeps_def by (metis evolves_trans)

lemma rung_in_same_rungs:
  assumes "rung_in s grp i st" and e: "evolves N s s'" and rungs: "db_rungs s' = db_rungs s"
  shows "rung_in s' grp i st"
proof -
  from assms(1) obtain g r where lk: "get_locked_rung (g_proposal_id grp) i s = Inr (g, r)"
    and f: "g_id g = g_id grp" "g_valid_until g = g_valid_until grp" "r_state r = st" by (auto simp: rung_in_def)
  note l = get_locked_rung_Inr [OF lk]
  obtain g' where g': "g' \<in> set (db_groups s')" "group_payload g' = group_payload g"
    using e l(1) unfolding evolves_def group_evolves_def by blast
  note p = group_payload_fields [OF g'(2)]
  have wf: "wf_store s'" by (rule evolves_wf [OF e])
  have "get_locked_rung (g_proposal_id g') (r_rung_index r) s' = Inr (g', r)"
    by (rule locked_rung_is [OF wf g'(1)]) (use l p rungs in simp_all)
  then show ?thesis using wf f l p by (auto simp: rung_in_def)
qed

lemma keeps_columns: "evolves N s s' \<Longrightarrow> db_rungs s' = db_rungs s \<Longrightarrow> db_attempts s' = db_attempts s \<Longrightarrow> keeps grp s s'"
  unfolding keeps_def using evolves_any rung_in_same_rungs by blast

text \<open>The proposal still carries the nonce of its card, or none, and is not superseded.\<close>

definition carries :: "uuid \<Rightarrow> string \<Rightarrow> store \<Rightarrow> bool" where
  "carries pid n s \<longleftrightarrow> (\<exists>g. get_group_by_proposal_id s pid = Some g \<and> g_approval_nonce g \<in> {None, Some n} \<and>
     g_superseded_by_proposal_id g = None)"

lemma update_group_tables [simp]:
  "db_rungs (fst (update_group grp upd s)) = db_rungs s" "db_attempts (fst (update_group grp upd s)) = db_attempts s"
  by (simp_all add: update_group_def Let_def put_group_def)

lemma carries_update:
  assumes wf: "wf_store s" and g: "get_group_by_proposal_id s pid = Some grp" and frame: "group_frame N upd"
    and new: "\<And>g. g_approval_nonce (upd g) \<in> {None, Some n, g_approval_nonce g}" and c: "carries pid n s"
  shows "carries pid n (fst (update_group grp upd s))"
proof -
  let ?g = "upd (grp\<lparr>g_updated_at := db_now s\<rparr>)"
  have "group_payload ?g = group_payload (grp\<lparr>g_updated_at := db_now s\<rparr>)"
    and sup: "g_superseded_by_proposal_id ?g = g_superseded_by_proposal_id grp"
    using frame by (simp_all add: group_frame_def)
  then have "group_payload ?g = group_payload grp" by (simp add: group_payload_def)
  then have "get_group_by_proposal_id (put_group ?g s) pid = Some ?g" by (rule put_group_read(1) [OF wf g])
  moreover have "g_approval_nonce ?g \<in> {None, Some n}" using new [of "grp\<lparr>g_updated_at := db_now s\<rparr>"] c g by (auto simp: carries_def)
  ultimately show ?thesis using sup c g by (auto simp: carries_def update_group_def Let_def)
qed

lemma untouched_nonce:
  assumes wf: "wf_store s" and u: "untouched s s'" and g: "g \<in> set (db_groups s)" "g' \<in> set (db_groups s')" "g_id g' = g_id g"
  shows "nonce_kept g g'"
proof -
  obtain i where i: "i < length (db_groups s')" "db_groups s' ! i = g'" using g(2) by (auto simp: in_set_conv_nth)
  have all: "list_all2 nonce_kept (db_groups s) (db_groups s')" and m: "map card_columns (db_groups s') = map card_columns (db_groups s)"
    using u by (simp_all add: untouched_def)
  have i': "i < length (db_groups s)" using all i(1) by (simp add: list_all2_lengthD)
  have "card_columns (db_groups s ! i) = card_columns g'"
    using arg_cong [OF m, of "\<lambda>xs. xs ! i"] i i' by simp
  then have "g_id (db_groups s ! i) = g_id g" using g(3) by (simp add: card_columns_def)
  then have "db_groups s ! i = g"
    using same_row [of g_id "db_groups s" "db_groups s ! i" g] wf g(1) i' by (simp add: wf_store_def)
  then show ?thesis using list_all2_nthD [OF all i'] i(2) by simp
qed

lemma carries_untouched:
  assumes wf: "wf_store s" and e: "evolves N s s'" and u: "untouched s s'" and c: "carries pid n s"
  shows "carries pid n s'"
proof -
  from c obtain g where g: "get_group_by_proposal_id s pid = Some g" "g_approval_nonce g \<in> {None, Some n}"
    "g_superseded_by_proposal_id g = None" by (auto simp: carries_def)
  note gi = get_group_in [OF g(1)]
  obtain g' where g': "g' \<in> set (db_groups s')" "group_payload g' = group_payload g"
    using e gi unfolding evolves_def group_evolves_def by blast
  note p = group_payload_fields [OF g'(2)]
  have "get_group_by_proposal_id s' pid = Some g'" using group_is [OF evolves_wf [OF e] g'(1)] p gi by simp
  moreover have "nonce_kept g g'" by (rule untouched_nonce [OF wf u]) (use gi g'(1) p in simp_all)
  moreover have "card_columns g' = card_columns g" by (rule untouched_group [OF wf u]) (use gi g'(1) p in simp_all)
  ultimately show ?thesis using g by (auto simp: carries_def nonce_kept_def card_columns_def)
qed

lemma keeps_moves:
  assumes m: "moves grp i s s'" and at_i: "rung_in s grp i st" and st: "st \<in> VOIDABLE_RUNG_STATES"
  shows "keeps grp s s'"
  unfolding keeps_def
proof (intro conjI allI impI)
  show "evolves UNIV s s'" using m evolves_any by (auto simp: moves_def)
  show "db_attempts s' = db_attempts s" using m by (simp add: moves_def untouched_def)
next
  fix j st' assume "st' \<notin> VOIDABLE_RUNG_STATES" and j: "rung_in s grp j st'"
  then have "j \<noteq> i" using rung_in_unique [OF at_i] st by blast
  then show "rung_in s' grp j st'" using m j unfolding moves_def by blast
qed

section \<open>The steps before the run\<close>

lemma consume_keeps:
  assumes wf: "wf_store s" and ok: "consume_published_proposal_callback pid cb now usr s = Inr (s', g)"
  shows "keeps grp s s'" and "carries pid (cb_nonce cb) s'" and "db_rungs s' = db_rungs s" and "db_attempts s' = db_attempts s"
proof -
  from ok obtain t grp0 k src where t: "locked_group pid s = Inr grp0" "assert_published_proposal_binding grp0 cb = Inr k"
    and u: "update_group grp0 (\<lambda>g. g\<lparr>g_approval_nonce_used_at := Some t, g_source_asof := src\<rparr>) s = (s', g)"
    by (metis consume_published_Inr mark_nonce_used_Inr)
  then have s': "s' = fst (update_group grp0 (\<lambda>g. g\<lparr>g_approval_nonce_used_at := Some t, g_source_asof := src\<rparr>) s)" by simp
  show rows: "db_rungs s' = db_rungs s" "db_attempts s' = db_attempts s" by (simp_all add: s')
  show "keeps grp s s'" by (rule keeps_columns [OF consume_published_evolves [OF wf ok] rows])
  have g0: "get_group_by_proposal_id s pid = Some grp0" using t(1) by (simp add: locked_group_def)
  note b = assert_binding_Inr [OF t(2)]
  have "carries pid (cb_nonce cb) s"
    using g0 b(1,3) by (auto simp: carries_def gate_open_def gate_snapshot_def block_reason_None)
  note c = this
  show "carries pid (cb_nonce cb) s'"
    unfolding s' by (rule carries_update [OF wf g0, of UNIV]) (simp_all add: frame_defs c)
qed

lemma lease_keeps:
  assumes wf: "wf_store s" and ok: "acquire_commit_lease pid now k s = Inr (s', b)" and c: "carries pid n s"
  shows "keeps grp s s'" and "carries pid n s'" and "db_rungs s' = db_rungs s" and "db_attempts s' = db_attempts s"
proof -
  from c obtain g0 where g0: "get_group_by_proposal_id s pid = Some g0" by (auto simp: carries_def)
  consider "s' = s" | t where "s' = fst (update_group g0 (\<lambda>g. g\<lparr>g_commit_lease_until := Some (t + seconds k)\<rparr>) s)"
    using ok g0 by (auto simp: acquire_commit_lease_def bindR_eq_Inr split: if_splits)
  note cases = this
  show rows: "db_rungs s' = db_rungs s" "db_attempts s' = db_attempts s" using cases by (cases; simp)+
  show "keeps grp s s'" by (rule keeps_columns [OF acquire_commit_lease_evolves [OF wf ok] rows])
  show "carries pid n s'"
    using cases
  proof cases
    case (2 t)
    show ?thesis unfolding 2 by (rule carries_update [OF wf g0, of UNIV]) (simp_all add: frame_defs c)
  qed (use c in simp)
qed

lemma record_approval_keeps:
  assumes wf: "wf_store s" and ok: "record_approval pid u now s = Inr (s', g)" and c: "carries pid n s"
  shows "keeps grp s s'" and "carries pid n s'" and "db_rungs s' = db_rungs s" and "db_attempts s' = db_attempts s"
proof -
  from c obtain g0 where g0: "get_group_by_proposal_id s pid = Some g0" by (auto simp: carries_def)
  then obtain t where "update_group g0 (\<lambda>g. g\<lparr>g_approved_by_telegram_user_id := Some u, g_approved_at := Some t\<rparr>) s = (s', g)"
    using ok by (auto simp: record_approval_def bindR_eq_Inr locked_group_def)
  then have s': "s' = fst (update_group g0 (\<lambda>g. g\<lparr>g_approved_by_telegram_user_id := Some u, g_approved_at := Some t\<rparr>) s)" by simp
  show rows: "db_rungs s' = db_rungs s" "db_attempts s' = db_attempts s" by (simp_all add: s')
  show "keeps grp s s'" by (rule keeps_columns [OF record_approval_evolves [OF wf ok] rows])
  show "carries pid n s'" unfolding s' by (rule carries_update [OF wf g0, of UNIV]) (simp_all add: frame_defs c)
qed


text \<open>A pass over the rungs of the proposal that moves each voidable one at most.\<close>

definition passes :: "order_proposal \<Rightarrow> store \<Rightarrow> store \<Rightarrow> bool" where
  "passes grp s s' \<longleftrightarrow> keeps grp s s' \<and> evolves {} s s' \<and> untouched s s'"

lemma passes_refl: "wf_store s \<Longrightarrow> passes grp s s"
  by (simp add: passes_def keeps_refl evolves_refl)

lemma passes_trans: "passes grp a b \<Longrightarrow> passes grp b c \<Longrightarrow> passes grp a c"
  unfolding passes_def using keeps_trans untouched_trans evolves_trans by blast

lemma passes_carries: "passes grp s s' \<Longrightarrow> wf_store s \<Longrightarrow> carries pid n s \<Longrightarrow> carries pid n s'"
  unfolding passes_def using carries_untouched by blast

lemma foldR_passes:
  assumes "distinct (map r_rung_index rs)" and "wf_store (store_of acc)"
    and "\<forall>r \<in> set rs. rung_in (store_of acc) grp (r_rung_index r) (r_state r)"
    and "\<And>acc r. r \<in> set rs \<Longrightarrow> rung_in (store_of acc) grp (r_rung_index r) (r_state r) \<Longrightarrow>
      \<exists>acc'. f acc r = Inr acc' \<and> (store_of acc' = store_of acc \<or>
        moves grp (r_rung_index r) (store_of acc) (store_of acc') \<and> r_state r \<in> VOIDABLE_RUNG_STATES)"
  shows "\<exists>acc'. foldR f acc rs = Inr acc' \<and> passes grp (store_of acc) (store_of acc')"
  using assms
proof (induction rs arbitrary: acc)
  case Nil
  then show ?case by (auto simp: passes_refl)
next
  case (Cons r rs)
  have at_r: "rung_in (store_of acc) grp (r_rung_index r) (r_state r)" using Cons.prems(3) by simp
  obtain acc1 where step: "f acc r = Inr acc1"
    and one: "store_of acc1 = store_of acc \<or>
        moves grp (r_rung_index r) (store_of acc) (store_of acc1) \<and> r_state r \<in> VOIDABLE_RUNG_STATES"
    using Cons.prems(4) [OF _ at_r] by auto
  have p: "passes grp (store_of acc) (store_of acc1)"
    using one keeps_moves [OF _ at_r] passes_refl [OF Cons.prems(2)] unfolding passes_def moves_def by metis
  have wf1: "wf_store (store_of acc1)" using p evolves_wf by (auto simp: passes_def)
  have rest: "\<forall>r' \<in> set rs. rung_in (store_of acc1) grp (r_rung_index r') (r_state r')"
  proof
    fix r' assume r': "r' \<in> set rs"
    then have "r_rung_index r' \<noteq> r_rung_index r" using Cons.prems(1) by (auto simp: image_iff)
    then show "rung_in (store_of acc1) grp (r_rung_index r') (r_state r')"
      using one Cons.prems(3) r' unfolding moves_def by auto
  qed
  obtain acc' where "foldR f acc1 rs = Inr acc'" "passes grp (store_of acc1) (store_of acc')"
    using Cons.IH [OF _ wf1 rest] Cons.prems(1,4) by auto
  then show ?case using step passes_trans [OF p] by auto
qed

text \<open>The rungs of the proposal as the service reads them.\<close>

definition is_row :: "store \<Rightarrow> uuid \<Rightarrow> order_proposal \<Rightarrow> bool" where
  "is_row s pid grp \<longleftrightarrow> has_group s grp \<and> g_proposal_id grp = pid"

lemma is_row_evolves: "is_row s pid grp \<Longrightarrow> evolves {} s s' \<Longrightarrow> is_row s' pid grp"
  using has_group_evolves by (auto simp: is_row_def)

lemma has_group_any:
  assumes "has_group s grp" and "evolves N s s'"
  shows "has_group s' grp"
proof -
  from assms(1) obtain g where g: "get_group_by_proposal_id s (g_proposal_id grp) = Some g" "g_id g = g_id grp"
    "g_valid_until g = g_valid_until grp" by (auto simp: has_group_def)
  with assms(2) obtain g' where g': "g' \<in> set (db_groups s')" "group_payload g' = group_payload g"
    using get_group_in [OF g(1)] unfolding evolves_def group_evolves_def by blast
  have wf: "wf_store s'" by (rule evolves_wf [OF assms(2)])
  show ?thesis using group_is [OF wf g'(1)] group_payload_fields [OF g'(2)] get_group_in [OF g(1)] g wf
    by (auto simp: has_group_def)
qed

lemma is_row_keeps: "is_row s pid grp \<Longrightarrow> keeps grp s s' \<Longrightarrow> is_row s' pid grp"
  using has_group_any by (auto simp: is_row_def keeps_def)

lemma is_row_reads:
  assumes "is_row s pid grp"
  obtains g rungs where "get_proposal pid s = Inr (g, rungs)" "get_group_by_proposal_id s pid = Some g"
    "rungs = list_rungs s (g_id grp)" "g_valid_until g = g_valid_until grp" "g_id g = g_id grp"
    "distinct (map r_rung_index rungs)" "\<forall>r \<in> set rungs. rung_in s grp (r_rung_index r) (r_state r)"
proof -
  from assms obtain g where wf: "wf_store s" and g: "get_group_by_proposal_id s pid = Some g" "g_id g = g_id grp"
    "g_valid_until g = g_valid_until grp" and pid: "g_proposal_id grp = pid"
    by (auto simp: is_row_def has_group_def)
  have gp: "get_proposal pid s = Inr (g, list_rungs s (g_id grp))" using g by (simp add: get_proposal_def)
  have "get_group_by_proposal_id s (g_proposal_id g) = Some g" using g(1) get_group_in [OF g(1)] by simp
  then have "\<forall>r \<in> set (list_rungs s (g_id grp)). rung_in s g (r_rung_index r) (r_state r)"
    using row_rung_in [OF wf] g(2) by metis
  moreover have "rung_in s g i st \<longleftrightarrow> rung_in s grp i st" for i st
    using g pid get_group_in [OF g(1)] by (simp add: rung_in_def)
  ultimately show thesis using that [OF gp g(1) refl g(3,2) distinct_rung_indices [OF wf]] by blast
qed

lemma reopen_passes:
  assumes row: "is_row s pid grp"
  obtains s' where "reopen_reconfirming pid s = Inr s'" and "passes grp s s'"
proof -
  from row show thesis
  proof (cases rule: is_row_reads)
    case (1 g rungs)
    have wf: "wf_store s" and pid: "g_proposal_id grp = pid" using row by (simp_all add: is_row_def has_group_def)
    have "\<exists>s'. foldR (reopen_step pid) s rungs = Inr s' \<and> passes grp s s'"
    proof (rule foldR_passes [where store_of = "\<lambda>s. s"])
      fix x and r :: rung assume r: "rung_in x grp (r_rung_index r) (r_state r)"
      show "\<exists>x'. reopen_step pid x r = Inr x' \<and> (x' = x \<or> moves grp (r_rung_index r) x x' \<and> r_state r \<in> VOIDABLE_RUNG_STATES)"
      proof (cases "r_state r = NeedsReconfirm")
        case True
        then have "writes grp (r_rung_index r) PendingApproval x (transition_rung (g_proposal_id grp) (r_rung_index r) PendingApproval id x)"
          using r by (intro transition_writes [OF _ _ audit_id, of x grp _ NeedsReconfirm]) simp_all
        then show ?thesis using True pid by (auto simp: writes_def reopen_step_def VOIDABLE_RUNG_STATES_def)
      qed (simp add: reopen_step_def)
    qed (use 1 wf in auto)
    then show thesis using that 1(1) by (auto simp: reopen_reconfirming_def)
  qed
qed

lemma expire_mutable_passes:
  assumes row: "is_row s pid grp"
  obtains s' k where "expire_mutable_rungs_if_needed pid (Aware t) s = Inr (s', k)" and "passes grp s s'"
proof -
  from row show thesis
  proof (cases rule: is_row_reads)
    case (1 g rungs)
    have wf: "wf_store s" and pid: "g_proposal_id grp = pid" using row by (simp_all add: is_row_def has_group_def)
    have "\<exists>acc. foldR (expire_mutable_step pid (Aware t)) (s, 0) rungs = Inr acc \<and> passes grp (fst (s, 0::int)) (fst acc)"
    proof (rule foldR_passes [where store_of = fst])
      fix acc :: "store \<times> int" and r :: rung assume r: "rung_in (fst acc) grp (r_rung_index r) (r_state r)"
      show "\<exists>acc'. expire_mutable_step pid (Aware t) acc r = Inr acc' \<and> (fst acc' = fst acc \<or>
          moves grp (r_rung_index r) (fst acc) (fst acc') \<and> r_state r \<in> VOIDABLE_RUNG_STATES)"
      proof (cases "r_state r \<in> VOIDABLE_RUNG_STATES")
        case True
        obtain x b where "expire_rung_if_needed pid (r_rung_index r) (Aware t) (fst acc) = Inr (x, b)"
          "moves grp (r_rung_index r) (fst acc) x"
          using expire_voidable_writes [OF r True, of t] pid by (auto simp: writes_def)
        then show ?thesis using True by (simp add: expire_mutable_step_def)
      qed (simp add: expire_mutable_step_def)
    qed (use 1 wf in auto)
    then obtain s' k where fold: "foldR (expire_mutable_step pid (Aware t)) (s, 0) rungs = Inr (s', k)" "passes grp s s'"
      by auto
    show thesis
    proof (cases "valid_until_block (column_datetime (g_valid_until g)) (Aware t)")
      case (Inl e)
      then show thesis by (simp add: valid_until_block_column split: option.splits if_splits)
    next
      case (Inr b)
      then show thesis
        using that [of s' k] that [of s 0] fold 1(1) passes_refl [OF wf]
        by (cases b) (auto simp: expire_mutable_rungs_if_needed_def)
    qed
  qed
qed

section \<open>The steps after the run\<close>

lemma locked_carries: "carries pid n s \<Longrightarrow> \<exists>g. locked_group pid s = Inr g \<and> get_group_by_proposal_id s pid = Some g"
  by (auto simp: carries_def locked_group_def)

lemma restore_keeps:
  assumes wf: "wf_store s" and c: "carries pid n s"
  obtains s' g where "restore_approval_after_window_block pid n ex s = Inr (s', g)" and "keeps grp s s'"
    and "get_group_by_proposal_id s' pid = Some g" and "g_approval_nonce g = (if ex then None else Some n)"
proof -
  from c obtain g0 where g0: "get_group_by_proposal_id s pid = Some g0" "g_approval_nonce g0 \<in> {None, Some n}"
    by (auto simp: carries_def)
  obtain src where u: "restore_approval_after_window_block pid n ex s = Inr (update_group g0 (\<lambda>g. g\<lparr>g_source_asof := src,
              g_approval_nonce := (if ex then None else Some n), g_approval_nonce_used_at := None,
              g_approved_by_telegram_user_id := None, g_approved_at := None,
              g_commit_lease_until := None\<rparr>) s)"
    using g0 by (auto simp: restore_approval_after_window_block_def locked_group_def Let_def)
  let ?g = "g0\<lparr>g_updated_at := db_now s, g_source_asof := src, g_approval_nonce := (if ex then None else Some n),
      g_approval_nonce_used_at := None, g_approved_by_telegram_user_id := None, g_approved_at := None,
      g_commit_lease_until := None\<rparr>"
  have ok: "restore_approval_after_window_block pid n ex s = Inr (put_group ?g s, ?g)"
    using u by (simp add: update_group_def Let_def)
  have pay: "group_payload ?g = group_payload g0" by (simp add: group_payload_def)
  have e: "evolves UNIV s (put_group ?g s)" by (rule restore_approval_evolves [OF wf _ ok]) simp
  have "keeps grp s (put_group ?g s)" by (rule keeps_columns [OF e]) (simp_all add: put_group_def)
  then show thesis using that [OF ok _ put_group_read(1) [OF wf g0(1) pay]] by simp
qed

lemma clear_keeps:
  assumes wf: "wf_store s" and g0: "get_group_by_proposal_id s pid = Some g0" and n: "g_approval_nonce g0 = Some n"
  obtains s' g where "clear_approval_nonce pid (Some n) s = Inr (s', g)" and "keeps grp s s'"
proof -
  let ?s = "fst (update_group g0 (\<lambda>g. g\<lparr>g_approval_nonce := None, g_approval_nonce_used_at := None\<rparr>) s)"
  have "clear_approval_nonce pid (Some n) s = Inr (update_group g0 (\<lambda>g. g\<lparr>g_approval_nonce := None, g_approval_nonce_used_at := None\<rparr>) s)"
    using g0 n by (simp add: clear_approval_nonce_def locked_group_def)
  then obtain g where ok: "clear_approval_nonce pid (Some n) s = Inr (?s, g)" by (metis prod.collapse)
  have "keeps grp s ?s" by (rule keeps_columns [OF clear_approval_nonce_evolves [OF wf ok, of UNIV]]) simp_all
  then show thesis using that ok by blast
qed

text \<open>A proposal with a rung to reconfirm is open.\<close>

lemma reconfirming_open:
  assumes "rollup_inv s" and row: "is_row s pid grp" and c: "carries pid n s" and r: "rung_in s grp i NeedsReconfirm"
  shows "\<exists>g. get_group_by_proposal_id s pid = Some g \<and> proposal_approval_block_reason g = None"
proof -
  from c obtain g where g: "get_group_by_proposal_id s pid = Some g" "g_superseded_by_proposal_id g = None"
    by (auto simp: carries_def)
  have id: "g_id g = g_id grp" using row g(1) by (auto simp: is_row_def has_group_def)
  obtain x where x: "x \<in> set (list_rungs s (g_id g))" "r_state x = NeedsReconfirm" using rung_in_row [OF r] id by auto
  let ?st = "set (map r_state (list_rungs s (g_id g)))"
  have m: "NeedsReconfirm \<in> ?st" using x by force
  then have "\<not> ?st \<subseteq> {Filled, Cancelled, Expired, Rejected, Voided, VoidedLocalStale, Superseded}" by blast
  then have "recompute_group_state (list_rungs s (g_id g)) \<in> {PartiallySubmitted, Submitted, GApproved, Proposed}"
    unfolding recompute_group_state_def Let_def by (simp only: if_False simp_thms insert_iff split: if_split)
  moreover have "g_lifecycle_state g = recompute_group_state (list_rungs s (g_id g))"
    using assms(1) g get_group_in [OF g(1)] by (simp add: rollup_inv_def)
  ultimately show ?thesis using g by (auto simp: block_reason_None APPROVAL_TERMINAL_GROUP_STATES_def)
qed

lemma set_nonce_keeps:
  assumes wf: "wf_store s" and g: "get_group_by_proposal_id s pid = Some g0" "proposal_approval_block_reason g0 = None"
  obtains s' g' where "set_approval_nonce pid n False s = Inr s'" and "keeps grp s s'" and "carries pid n s'"
    and "get_group_by_proposal_id s' pid = Some g'" and "g_approval_nonce g' = Some n"
proof -
  obtain s' where ok: "set_approval_nonce pid n False s = Inr s'"
    using g by (simp add: set_approval_nonce_def locked_group_def)
  have rows: "db_rungs s' = db_rungs s" "db_attempts s' = db_attempts s"
    using ok g by (auto simp: set_approval_nonce_def locked_group_def)
  have e: "evolves UNIV s s'" by (rule set_approval_nonce_evolves [OF wf _ ok]) simp
  from wf ok show thesis
  proof (cases rule: set_nonce_group)
    case (1 grp1 g')
    have "carries pid n s'" using 1(2,4,5) by (auto simp: carries_def block_reason_None)
    then show thesis using that [OF ok keeps_columns [OF e rows]] 1(2,5) by blast
  qed
qed


section \<open>Nothing is lost after the run\<close>

text \<open>The transactions of others may do anything but touch a rung that is not voidable.\<close>

definition stable_under :: "order_proposal \<Rightarrow> (nat \<Rightarrow> store \<Rightarrow> store) \<Rightarrow> bool" where
  "stable_under grp others \<longleftrightarrow> (\<forall>n s i st. 0 < n \<longrightarrow> st \<notin> VOIDABLE_RUNG_STATES \<longrightarrow> rung_in s grp i st \<longrightarrow>
     rung_in (others n s) grp i st)"

lemma keeps_rung: "keeps grp s s' \<Longrightarrow> st \<notin> VOIDABLE_RUNG_STATES \<Longrightarrow> rung_in s grp i st \<Longrightarrow> rung_in s' grp i st"
  by (simp add: keeps_def)

lemma expire_when_passes:
  assumes "is_row s pid grp"
  obtains s' where "expire_when_expired pid d s = Inr s'" and "passes grp s s'"
proof (cases "wd_code d = EXPIRED")
  case True
  from assms show thesis
    by (rule expire_mutable_passes [where t = "wd_observed_at d"]) (use that True in \<open>auto simp: expire_when_expired_def\<close>)
next
  case False
  have "wf_store s" using assms by (simp add: is_row_def has_group_def)
  then show thesis using that [of s] False passes_refl by (simp add: expire_when_expired_def)
qed

lemma expire_at_passes:
  assumes "is_row s pid grp"
  obtains s' where "expire_at pid b t s = Inr s'" and "passes grp s s'"
proof (cases b)
  case True
  from assms show thesis
    by (rule expire_mutable_passes [where t = t]) (use that True in \<open>auto simp: expire_at_def\<close>)
next
  case False
  have "wf_store s" using assms by (simp add: is_row_def has_group_def)
  then show thesis using that [of s] False passes_refl by (simp add: expire_at_def)
qed

lemma reject_keeps:
  assumes "is_row s pid grp" and "reject_window_callback c q pid d committed out s = (s', out', res)"
  shows "keeps grp s s'"
proof -
  obtain s1 where "expire_when_expired pid d s = Inr s1" "passes grp s s1" using expire_when_passes [OF assms(1)] .
  then show ?thesis using assms(2) by (auto simp: reject_window_callback_def run_def passes_def)
qed

lemma twice_open_keeps:
  assumes row: "is_row s pid grp" and run: "twice_open c q pid g w1 w2 committed out s k = (s', out', res)"
  shows "keeps grp s s' \<or> (\<exists>d. window_allowed d \<and> k d = (s', out', res))"
proof -
  obtain d1 d2 where d: "bound_window g w1 = Inr d1" "bound_window g w2 = Inr d2"
    using bound_window_total by blast
  have "twice_open c q pid g w1 w2 committed out s k =
      (if \<not> window_allowed d1 then reject_window_callback c q pid d1 committed out s
       else if \<not> window_allowed d2 then reject_window_callback c q pid d2 committed out s else k d2)"
    by (simp only: twice_open_def run_def d sum.case)
  then show ?thesis using run reject_keeps [OF row] by (metis (full_types))
qed

lemma unstage_keeps:
  assumes row: "is_row s pid grp" and c: "carries pid n s" and g: "get_group_by_proposal_id s pid = Some g0" "g_approval_nonce g0 = Some n"
  obtains s' where "unstage_card pid n d s = Inr s'" and "keeps grp s s'"
proof -
  have wf: "wf_store s" using row by (simp add: is_row_def has_group_def)
  obtain s1 where s1: "expire_when_expired pid d s = Inr s1" "passes grp s s1" using expire_when_passes [OF row] .
  have k1: "keeps grp s s1" using s1(2) by (simp add: passes_def)
  have wf1: "wf_store s1" using k1 evolves_wf by (auto simp: keeps_def)
  obtain s2 g2 where s2: "restore_approval_after_window_block pid n (wd_code d = EXPIRED) s1 = Inr (s2, g2)" "keeps grp s1 s2"
    "get_group_by_proposal_id s2 pid = Some g2" "g_approval_nonce g2 = (if wd_code d = EXPIRED then None else Some n)"
    using restore_keeps [OF wf1 passes_carries [OF s1(2) wf c]] .
  have wf2: "wf_store s2" using s2(2) evolves_wf by (auto simp: keeps_def)
  show thesis
  proof (cases "wd_code d = EXPIRED")
    case True
    then show thesis using that [of s2] s1(1) s2(1) keeps_trans [OF k1 s2(2)] by (simp add: unstage_card_def)
  next
    case False
    obtain s3 g3 where "clear_approval_nonce pid (Some n) s2 = Inr (s3, g3)" "keeps grp s2 s3"
      using clear_keeps [OF wf2 s2(3), of n] s2(4) False by (metis (full_types))
    then show thesis using that [of s3] s1(1) s2(1) False keeps_trans [OF keeps_trans [OF k1 s2(2)]]
      by (simp add: unstage_card_def)
  qed
qed

lemma alert_rung_in:
  assumes "rung_in s grp i st"
  shows "rung_in (alert_non_sent_dispatch pid result failure t s) grp i st"
proof (cases "alert_non_sent_dispatch pid result failure t s = s")
  case False
  then obtain s1 g st' code where s1: "alert_non_sent_dispatch pid result failure t s = s1"
    and ok: "record_approval_dispatch_alert pid st' failure code (Aware t) s = Inr (s1, g)"
    by (auto simp: alert_non_sent_dispatch_def split: sum.splits if_splits)
  have "evolves UNIV s s1" by (rule record_approval_dispatch_alert_evolves [OF rung_in_wf [OF assms] ok])
  moreover have "db_rungs s1 = db_rungs s"
    using ok by (auto simp: record_approval_dispatch_alert_def bindR_eq_Inr dest!: update_group_result)
  ultimately show ?thesis using rung_in_same_rungs [OF assms] s1 by simp
qed (use assms in simp)

lemma finish_rung_in:
  assumes r: "rung_in s grp i st" and ok: "finish_approval_dispatch h pid aid p c now ps s = Inr (s', x)"
  shows "rung_in s' grp i st"
proof -
  have "evolves UNIV s s'" by (rule finish_approval_dispatch_evolves [OF rung_in_wf [OF r] ok])
  moreover have "db_rungs s' = db_rungs s"
    using ok by (cases rule: finish_Inr)
       (simp add: Let_def finish_attempt_def update_approval_dispatch_attempt_def put_attempt_def)
  ultimately show ?thesis by (rule rung_in_same_rungs [OF r])
qed

lemma publish_reconfirm_rung_in:
  assumes r: "rung_in s grp i st" and st: "st \<notin> VOIDABLE_RUNG_STATES" and others: "stable_under grp others"
    and run: "publish_reconfirm w c pid messages d outcomes ans others out s = (s', out', res)"
  shows "rung_in s' grp i st"
proof -
  have o: "rung_in (others n x) grp i st" if "0 < n" "rung_in x grp i st" for n x
    using others st that by (simp add: stable_under_def)
  from run show ?thesis unfolding publish_reconfirm_def
  proof (cases rule: disp_cases)
    case (1 e)
    then show ?thesis using r by simp
  next
    case (2 p)
    obtain sent publication where p: "p = (sent, publication)" by (cases p)
    from 2(2) show ?thesis unfolding p prod.case Let_def
    proof (cases rule: run_cases)
      case (1 e)
      then show ?thesis using o [of 1 s] r by simp
    next
      case fin: (2 q)
      obtain s2 result where q: "q = (s2, result)" by (cases q)
      have "rung_in s2 grp i st" by (rule finish_rung_in [OF o [of 1 s, OF _ r] fin(1) [unfolded q]]) simp
      then have "rung_in (others 2 s2) grp i st" by (intro o) simp_all
      then show ?thesis using fin(2) alert_rung_in by (auto simp: q)
    qed
  qed
qed

lemma send_reconfirm_rung_in:
  assumes row: "is_row s pid grp" and inv: "rollup_inv s" and c: "carries pid n s"
    and fresh: "attempt_fresh s (ap_attempt_id ans)" and some: "rung_in s grp j NeedsReconfirm"
    and sizes: "\<And>g rs ocs b. 0 \<le> dm_payload_chars (render g rs ocs b)" and others: "stable_under grp others"
    and r: "rung_in s grp i st" and st: "st \<notin> VOIDABLE_RUNG_STATES"
    and run: "send_reconfirm w render cc pid outcomes ans others committed out s = (s', out', res)"
  shows "rung_in s' grp i st"
proof -
  have wf: "wf_store s" by (rule rung_in_wf [OF r])
  obtain g0 where g0: "get_group_by_proposal_id s pid = Some g0" "proposal_approval_block_reason g0 = None"
    using reconfirming_open [OF inv row c some] by blast
  obtain s1 g1 where s1: "set_approval_nonce pid (ap_nonce ans) False s = Inr s1" "keeps grp s s1" "carries pid (ap_nonce ans) s1"
    "get_group_by_proposal_id s1 pid = Some g1" "g_approval_nonce g1 = Some (ap_nonce ans)"
    using set_nonce_keeps [OF wf g0] .
  have r1: "rung_in s1 grp i st" by (rule keeps_rung [OF s1(2) st r])
  have row1: "is_row s1 pid grp" by (rule is_row_keeps [OF row s1(2)])
  have fresh1: "attempt_fresh s1 (ap_attempt_id ans)" using fresh s1(2) by (simp add: attempt_fresh_def keeps_def)
  obtain rungs where gp: "get_proposal pid s1 = Inr (g1, rungs)" using s1(4) by (simp add: get_proposal_def)
  obtain d where d: "bound_window g1 (ap_send ans) = Inr d" using bound_window_total by blast
  let ?b = "proposal_binding (dw_digest w) g1 (Some (ap_nonce ans)) (ap_attempt_id ans) card_kind.Reconfirm"
  let ?m = "render g1 rungs outcomes ?b"
  show ?thesis
  proof (cases "window_allowed d")
    case False
    obtain s2 where "unstage_card pid (ap_nonce ans) d s1 = Inr s2" "keeps grp s1 s2"
      using unstage_keeps [OF row1 s1(3,4,5)] .
    then show ?thesis using run s1(1) gp d False keeps_rung [OF _ st r1]
      by (auto simp: send_reconfirm_def run_def Let_def)
  next
    case True
    obtain s2 a where s2: "start_approval_dispatch (dw_digest w) pid (ap_attempt_id ans) ?b (Aware (wd_observed_at d))
        (dm_payload_chars ?m) (int (length (dm_context ?m))) s1 = Inr (s2, a)" "db_rungs s2 = db_rungs s1"
      using start_total [OF s1(4) fresh1, of card_kind.Reconfirm "dm_payload_chars ?m" "int (length (dm_context ?m))"
          "dw_digest w" "wd_observed_at d"] sizes s1(5) by auto
    have "rung_in s2 grp i st"
      by (rule rung_in_same_rungs [OF r1 start_approval_dispatch_evolves [OF rung_in_wf [OF r1] s2(1), of UNIV] s2(2)])
    moreover have "publish_reconfirm w cc pid ?m d outcomes ans others out s2 = (s', out', res)"
      using run s1(1) gp d True s2(1) by (simp add: send_reconfirm_def run_def Let_def)
    ultimately show ?thesis by (rule publish_reconfirm_rung_in [OF _ st others])
  qed
qed

lemma after_run_rung_in:
  assumes row: "is_row s pid grp" and inv: "rollup_inv s" and c: "carries pid (cb_nonce (cc_callback cc)) s"
    and fresh: "attempt_fresh s (ap_attempt_id ans)"
    and told: "\<forall>oc \<in> set outcomes. \<exists>st \<in> outcome_states (ro_result oc). rung_in s grp (ro_rung_index oc) st"
    and sizes: "\<And>g rs ocs b. 0 \<le> dm_payload_chars (render g rs ocs b)" and others: "stable_under grp others"
    and r: "rung_in s grp i st" and st: "st \<notin> VOIDABLE_RUNG_STATES"
    and run: "after_run w render cc pid outcomes ans others committed out s = (s', out', res)"
  shows "rung_in s' grp i st"
proof -
  have wf: "wf_store s" by (rule rung_in_wf [OF r])
  obtain g rungs where gp: "get_proposal pid s = Inr (g, rungs)" using is_row_reads [OF row] by metis
  consider "give_card_back cc pid outcomes (ap_expiry_now ans) committed out s = (s', out', res)"
    | "\<exists>oc \<in> set outcomes. result_text oc = ''needs_reconfirm''"
      "twice_open cc (cc_query_id cc) pid g (ap_reconfirm1 ans) (ap_reconfirm2 ans) committed out s
        (\<lambda>_. send_reconfirm w render cc pid outcomes ans others committed out s) = (s', out', res)"
    | "approve_finished cc outcomes out s = (s', out', res)"
    using run by (auto simp: after_run_def run_def gp split: if_splits)
  then show ?thesis
  proof cases
    case 1
    let ?ex = "\<exists>oc \<in> set (window_blocked outcomes). result_text oc = ''expired''"
    obtain s1 where s1: "expire_at pid ?ex (ap_expiry_now ans) s = Inr s1" "passes grp s s1" using expire_at_passes [OF row] .
    have k1: "keeps grp s s1" using s1(2) by (simp add: passes_def)
    have wf1: "wf_store s1" using k1 evolves_wf by (auto simp: keeps_def)
    obtain s2 g2 where s2: "restore_approval_after_window_block pid (cb_nonce (cc_callback cc)) ?ex s1 = Inr (s2, g2)" "keeps grp s1 s2"
      using restore_keeps [OF wf1 passes_carries [OF s1(2) wf c]] .
    have "s' = s2" using 1 s1(1) s2(1) by (simp add: give_card_back_def run_def Let_def)
    then show ?thesis using keeps_rung [OF keeps_trans [OF k1 s2(2)] st r] by simp
  next
    case 2
    then obtain oc where oc: "oc \<in> set outcomes" "result_text oc = ''needs_reconfirm''" by blast
    then obtain st' where "st' \<in> outcome_states (ro_result oc)" "rung_in s grp (ro_rung_index oc) st'" using told by blast
    moreover have "outcome_states (ro_result oc) \<subseteq> {NeedsReconfirm}"
      using oc(2) by (cases "ro_result oc") (simp_all add: result_text_def window_texts_def)
    ultimately obtain j where j: "rung_in s grp j NeedsReconfirm" by blast
    from twice_open_keeps [OF row 2(2)] show ?thesis
    proof
      assume "keeps grp s s'"
      then show ?thesis by (rule keeps_rung [OF _ st r])
    next
      assume "\<exists>d. window_allowed d \<and> send_reconfirm w render cc pid outcomes ans others committed out s = (s', out', res)"
      then have "send_reconfirm w render cc pid outcomes ans others committed out s = (s', out', res)" by blast
      then show ?thesis by (rule send_reconfirm_rung_in [OF row inv c fresh j sizes others r st])
    qed
  next
    case 3
    then show ?thesis using r by (simp add: approve_finished_def)
  qed
qed


section \<open>The whole click\<close>

lemma rung_in_cong:
  "g_proposal_id g = g_proposal_id grp \<Longrightarrow> g_id g = g_id grp \<Longrightarrow> g_valid_until g = g_valid_until grp \<Longrightarrow>
     rung_in s g i st \<longleftrightarrow> rung_in s grp i st"
  by (simp add: rung_in_def)

lemma payload_any:
  assumes "get_group_by_proposal_id s pid = Some g" and e: "evolves N s s'"
  obtains g' where "get_group_by_proposal_id s' pid = Some g'" and "group_payload g' = group_payload g"
proof -
  note gi = get_group_in [OF assms(1)]
  obtain g' where g': "g' \<in> set (db_groups s')" "group_payload g' = group_payload g"
    using e gi unfolding evolves_def group_evolves_def by blast
  have "get_group_by_proposal_id s' pid = Some g'"
    using group_is [OF evolves_wf [OF e] g'(1)] group_payload_fields [OF g'(2)] gi by simp
  then show thesis using that g'(2) by blast
qed

lemma is_row_group: "wf_store s \<Longrightarrow> get_group_by_proposal_id s pid = Some g \<Longrightarrow> is_row s pid g"
  using get_group_in by (auto simp: is_row_def has_group_def)

text \<open>The steps from the nonce to the run.\<close>

lemma before_run:
  assumes wf: "wf_store t" and g: "get_group_by_proposal_id t pid = Some grp"
    and consumed: "consume_published_proposal_callback pid cb now usr t = Inr (s1, g1)"
    and leased: "acquire_commit_lease pid now k s1 = Inr (s2, b)"
    and opened: "bindR (record_approval pid u now s2) (\<lambda>(x, _). reopen_reconfirming pid x) = Inr s3"
  shows "keeps grp t s3" and "carries pid (cb_nonce cb) s3" and "db_attempts s3 = db_attempts t"
proof -
  note c = consume_keeps [OF wf consumed]
  have wf1: "wf_store s1" using c(1) [of grp] evolves_wf by (auto simp: keeps_def)
  note l = lease_keeps [OF wf1 leased c(2)]
  have wf2: "wf_store s2" using l(1) [of grp] evolves_wf by (auto simp: keeps_def)
  obtain x gx where r: "record_approval pid u now s2 = Inr (x, gx)" "reopen_reconfirming pid x = Inr s3"
    using opened by (auto simp: bindR_eq_Inr)
  note a = record_approval_keeps [OF wf2 r(1) l(2)]
  have wfx: "wf_store x" using a(1) [of grp] evolves_wf by (auto simp: keeps_def)
  have kx: "keeps grp t x" by (rule keeps_trans [OF keeps_trans [OF c(1) l(1)] a(1)])
  have row: "is_row x pid grp" by (rule is_row_keeps [OF is_row_group [OF wf g] kx])
  obtain s3' where s3': "reopen_reconfirming pid x = Inr s3'" "passes grp x s3'" using reopen_passes [OF row] .
  then have p: "passes grp x s3" using r(2) by simp
  show "keeps grp t s3" using keeps_trans [OF kx] p by (simp add: passes_def)
  show "carries pid (cb_nonce cb) s3" by (rule passes_carries [OF p wfx a(2)])
  show "db_attempts s3 = db_attempts t" using c(4) l(4) a(4) p by (simp add: passes_def keeps_def)
qed

text \<open>A run that reached the broker, and what it reports.\<close>

lemma run_reports:
  assumes row: "is_row s pid grp" and g: "get_group_by_proposal_id s pid = Some g0" "group_payload g0 = group_payload grp"
    and market: "currency_for_market (g_market grp) \<noteq> None"
    and run: "revalidate_and_submit sha read_iso show_iso pid (Aware t) (Some p) gated w answers s = Inr (s', outcomes, events)"
    and events: "events \<noteq> []"
  shows "evolves {} s s'" and "untouched s s'" and "rung_in s grp i st \<Longrightarrow> st \<noteq> PendingApproval \<Longrightarrow> rung_in s' grp i st"
    and "\<forall>oc \<in> set outcomes. \<exists>st \<in> outcome_states (ro_result oc). rung_in s' grp (ro_rung_index oc) st"
proof -
  have wf: "wf_store s" using row by (simp add: is_row_def has_group_def)
  obtain rungs where gp: "get_proposal pid s = Inr (g0, rungs)" using g(1) by (simp add: get_proposal_def)
  have live: "proposal_approval_block_reason g0 = None"
  proof (rule ccontr)
    assume "proposal_approval_block_reason g0 \<noteq> None"
    then have "events = []" using run by (auto simp: revalidate_and_submit_def gp)
    then show False using events by simp
  qed
  note f = group_payload_fields [OF g(2)]
  have m0: "currency_for_market (g_market g0) \<noteq> None" using market g(2) by (simp add: group_payload_def)
  have active: "active_policy_stamp g0 (Some p) = Some p" by (simp add: active_policy_stamp_def)
  obtain idxs where ok: "run_ok g0 p idxs s s' outcomes events"
    using whole_run [OF wf gp live m0 active, of sha read_iso show_iso t gated w answers] run by auto
  have same: "rung_in x g0 j q \<longleftrightarrow> rung_in x grp j q" for x j q by (rule rung_in_cong) (use f in simp_all)
  show "evolves {} s s'" "untouched s s'" using ok by (simp_all add: run_ok_def)
  show "rung_in s' grp i st" if "rung_in s grp i st" "st \<noteq> PendingApproval"
    using ok that unfolding run_ok_def same by blast
  show "\<forall>oc \<in> set outcomes. \<exists>st \<in> outcome_states (ro_result oc). rung_in s' grp (ro_rung_index oc) st"
    using ok unfolding run_ok_def same by blast
qed

text \<open>
  C1: Once a click has reached the broker its outcome is committed: whatever the windows, the card,
  the notifier and the steps after the run do, every rung the run left beyond recall (acknowledged,
  resting, unverified, over) is stored in that state, and every outcome of the run tells the state of
  its rung; the rungs the broker held before keep theirs.
\<close>

theorem approval_commits_what_the_broker_saw:
  assumes "wf_store (others 0 s)" and "rollup_inv (others 0 s)" and "attempt_fresh (others 0 s) (ap_attempt_id ans)"
    and "get_group_by_proposal_id (others 0 s) pid = Some grp" and "currency_for_market (g_market grp) \<noteq> None"
    and "stable_under grp others" and "\<And>g rs ocs b. 0 \<le> dm_payload_chars (render g rs ocs b)"
    and "handle_approve w render loss_cut c pid ans others s = (s', out, res)" and "Broker ev \<in> set out"
  shows "\<exists>d s1 s2 s3 s4 outcomes events.
    approval_run w loss_cut c pid ans s (others 0 s) d s1 s2 s3 s4 outcomes events \<and> ev \<in> set events \<and>
    (\<forall>oc \<in> set outcomes. \<exists>st \<in> outcome_states (ro_result oc).
       st \<notin> VOIDABLE_RUNG_STATES \<longrightarrow> rung_in s' grp (ro_rung_index oc) st) \<and>
    (\<forall>i st. st \<notin> VOIDABLE_RUNG_STATES \<and> (rung_in s4 grp i st \<or> rung_in (others 0 s) grp i st) \<longrightarrow> rung_in s' grp i st)"
  using assms(8)
proof (cases rule: approve_flow)
  case 1
  then show ?thesis using assms(9) by (auto simp: telegram_only_def)
next
  case (2 d s1 s2 s3 s4 outcomes events)
  let ?t = "others 0 s"
  obtain more where out: "out = (answered (cc_query_id c) @ map Broker events) @ more" and "quiet_effects more"
    using after_run_quiet [OF 2(2)] by blast
  then have ev: "ev \<in> set events" using assms(9) by (auto simp: quiet_effects_def answered_def split: if_splits)
  obtain gx where steps: "consume_published_proposal_callback pid (cc_callback c) (Aware (wd_observed_at d))
         (if loss_cut then Some (cc_user c) else None) ?t = Inr (s1, gx)"
      "acquire_commit_lease pid (Aware (wd_observed_at d)) commit_lease_seconds s1 = Inr (s2, True)"
      "bindR (record_approval pid (cc_user c) (Aware (wd_observed_at d)) s2) (\<lambda>(x, _). reopen_reconfirming pid x) = Inr s3"
    and run: "revalidate_and_submit (dw_sha w) (dw_read_iso w) (dw_show_iso w) pid (Aware (wd_observed_at d))
         (Some (wd_policy_stamp d)) False (ap_first_window ans) (ap_actions ans) s3 = Inr (s4, outcomes, events)"
    using 2(1) by (auto simp: approval_run_def)
  note b = before_run [OF assms(1,4) steps]
  have e3: "evolves UNIV ?t s3" using b(1) by (simp add: keeps_def)
  have wf3: "wf_store s3" by (rule evolves_wf [OF e3])
  have row3: "is_row s3 pid grp" by (rule is_row_keeps [OF is_row_group [OF assms(1,4)] b(1)])
  obtain g3 where g3: "get_group_by_proposal_id s3 pid = Some g3" "group_payload g3 = group_payload grp"
    using payload_any [OF assms(4) e3] .
  have some: "events \<noteq> []" using ev by auto
  note r = run_reports [OF row3 g3 assms(5) run some]
  have row4: "is_row s4 pid grp" by (rule is_row_evolves [OF row3 r(1)])
  have inv4: "rollup_inv s4" using e3 r(1) assms(2) by (simp add: evolves_def)
  have c4: "carries pid (cb_nonce (cc_callback c)) s4" by (rule carries_untouched [OF wf3 r(1,2) b(2)])
  have fresh4: "attempt_fresh s4 (ap_attempt_id ans)"
    using assms(3) b(3) r(2) by (simp add: attempt_fresh_def untouched_def)
  have stay: "rung_in s' grp i st" if "rung_in s4 grp i st" "st \<notin> VOIDABLE_RUNG_STATES" for i st
    by (rule after_run_rung_in [OF row4 inv4 c4 fresh4 r(4) assms(7,6) that 2(2)])
  have held: "rung_in s4 grp i st" if "rung_in ?t grp i st" "st \<notin> VOIDABLE_RUNG_STATES" for i st
    using r(3) [OF keeps_rung [OF b(1) that(2,1)]] that(2) by (auto simp: VOIDABLE_RUNG_STATES_def)
  show ?thesis
    by (rule exI, rule exI, rule exI, rule exI, rule exI, rule exI, rule exI, rule conjI [OF 2(1)])
       (use ev stay held r(4) in blast)
qed


lemma wf_cancel: "wf_store cancel_store"
  by (simp add: wf_store_def cancel_store_def cancel_group_def with_policy_def replace_group_def sample_store_def sample_group_def
      old_group_def new_group_def sample_rung_def)

theorem approval_commits_what_the_broker_saw_witness:
  "\<exists>s' out a e d s1 s2 s3 s4 outcomes events.
     handle_approve sample_world sample_render False click_sample ''p0000001'' approve_sample (\<lambda>_ s. s) cancel_store =
       (s', out, Inr a) \<and> Broker e \<in> set out \<and>
     approval_run sample_world False click_sample ''p0000001'' approve_sample cancel_store cancel_store d s1 s2 s3 s4 outcomes events \<and>
     (\<forall>oc \<in> set outcomes. \<exists>st \<in> outcome_states (ro_result oc).
       st \<notin> VOIDABLE_RUNG_STATES \<longrightarrow> rung_in s' cancel_group (ro_rung_index oc) st)"
proof -
  obtain s' out a e where run: "handle_approve sample_world sample_render False click_sample ''p0000001'' approve_sample
      (\<lambda>_ s. s) cancel_store = (s', out, Inr a)" "Broker e \<in> set out" by (rule cancel_click_runs)
  have "rollup_inv cancel_store" by code_simp
  moreover have "attempt_fresh cancel_store (ap_attempt_id approve_sample)" by code_simp
  moreover have "get_group_by_proposal_id cancel_store ''p0000001'' = Some cancel_group"
    by (simp add: get_group_by_proposal_id_def cancel_store_def cancel_group_def with_policy_def replace_group_def)
  moreover have "currency_for_market (g_market cancel_group) \<noteq> None"
    using sample_pending(2) by (simp add: cancel_group_def with_policy_def replace_group_def)
  moreover have "stable_under cancel_group (\<lambda>_ s. s)" by (simp add: stable_under_def)
  moreover have "0 \<le> dm_payload_chars sample_messages" by (simp add: sample_messages_def)
  ultimately show ?thesis
    using approval_commits_what_the_broker_saw [of "\<lambda>_ s. s" cancel_store approve_sample "''p0000001''" cancel_group sample_render,
        OF _ _ _ _ _ _ _ run] wf_cancel run
    by blast
qed

end
