(* ===== verification/ClickSafety.thy ===== *)
theory ClickSafety
  imports CallbackCommit BatchSafety
begin

text \<open>A click that was accepted under the row lock: its card is the published one and its nonce is now used.\<close>

definition accepted_click ::
  "uuid \<Rightarrow> callback_envelope \<Rightarrow> store \<Rightarrow> order_proposal \<Rightarrow> pydatetime \<Rightarrow> string option \<Rightarrow> store \<Rightarrow> bool" where
  "accepted_click pid cb t grp now user s1 \<longleftrightarrow>
     get_group_by_proposal_id t pid = Some grp \<and> proposal_approval_block_reason grp = None \<and>
     g_approval_nonce grp = Some (cb_nonce cb) \<and> g_approval_nonce_used_at grp = None \<and>
     g_approval_dispatch_state grp = Some SentCurrent \<and>
     g_approval_dispatch_attempt_id grp = Some (cb_attempt_id cb) \<and>
     (\<exists>k. g_approval_dispatch_card_kind grp = Some k \<and> cb_action cb \<in> ACTIONS_BY_CARD_KIND k \<and>
        (k = AutoVeto \<longleftrightarrow> auto_approved grp)) \<and>
     (\<exists>g. consume_published_proposal_callback pid cb now user t = Inr (s1, g) \<and> g_approval_nonce_used_at g \<noteq> None)"

lemma accepted_click:
  assumes ok: "consume_published_proposal_callback pid cb now usr t = Inr (s1, g)"
  obtains grp where "accepted_click pid cb t grp now usr s1"
  using ok
proof (cases rule: consume_published_Inr)
  case (1 t' grp k)
  note b = assert_binding_Inr [OF 1(3)]
  have g: "get_group_by_proposal_id t pid = Some grp" using 1(2) by (simp add: locked_group_def)
  obtain src where "update_group grp (\<lambda>g. g\<lparr>g_approval_nonce_used_at := Some t', g_source_asof := src\<rparr>) t = (s1, g)"
    using mark_nonce_used_Inr [OF 1(5)] .
  then have "g_approval_nonce_used_at g = Some t'" by (auto simp: update_group_def Let_def)
  then have "accepted_click pid cb t grp now usr s1"
    using g b ok by (auto simp: accepted_click_def gate_open_def gate_snapshot_def)
  then show thesis by (rule that)
qed

lemma publish_confirmation_quiet:
  "publish_confirmation w c pid content d ans others out s = (s', out', res) \<Longrightarrow> quiet_effects out \<Longrightarrow> quiet_effects out'"
  by (auto simp: publish_confirmation_def Let_def elim!: disp_cases run_cases)

lemma stage_confirmation_quiet:
  assumes "stage_confirmation w c pid now ans others committed out s = (s', out', res)" and "quiet_effects out"
  shows "quiet_effects out'"
  using assms publish_confirmation_quiet
  by (auto simp: stage_confirmation_def Let_def elim!: run_cases disp_cases split: if_splits)

lemma loss_cut_quiet:
  assumes "handle_loss_cut_first_click w c pid ans others s = (s', out, res)"
  shows "quiet_effects out"
  using assms unfolding handle_loss_cut_first_click_def Let_def
proof (cases rule: guarded_cases)
  case (2 x)
  from 2(2) show ?thesis
  proof (cases rule: run_cases)
    case (2 grp)
    from 2(2) show ?thesis
    proof (cases rule: twice_open_cases)
      case 1
      then show ?thesis using telegram_quiet by auto
    next
      case (2 d1 d2)
      show ?thesis
      proof (cases "lc_preview ans")
        case (Inl e)
        then show ?thesis using 2(5) by auto
      next
        case (Inr u)
        from 2(5) show ?thesis unfolding Inr sum.case
        proof (cases rule: guarded_cases)
          case (2 grp1)
          from 2(2) show ?thesis
          proof (cases rule: twice_open_cases)
            case 1
            then show ?thesis using telegram_quiet by auto
          next
            case (2 d3 d4)
            from 2(5) show ?thesis
            proof (cases rule: guarded_cases)
              case (2 p)
              then show ?thesis using stage_confirmation_quiet [of w c pid] by (cases p) auto
            qed simp
          qed
        qed simp
      qed
    qed
  qed simp
qed simp

lemma veto_asks:
  assumes "handle_auto_veto c pid va others s = (s', out, res)" and "e \<in> set out" and "touches_broker e"
  obtains grp s1 broker_order_id where "accepted_click pid (cc_callback c) (others 0 s) grp (cc_now c) None s1" "e = CancelAsked broker_order_id"
  using assms(1) unfolding handle_auto_veto_def Let_def
proof (cases rule: guarded_cases)
  case (1 err)
  then show thesis using assms(2) by simp
next
  case (2 x)
  from 2(2) show thesis
  proof (cases rule: run_cases)
    case (1 err)
    then show thesis using assms(2,3) by (auto simp: answered_def split: if_splits)
  next
    case (2 b)
    from 2(2) show thesis
    proof (cases rule: guarded_cases)
      case (1 err)
      then show thesis using assms(2,3) by (auto simp: answered_def split: if_splits)
    next
      case got: (2 p)
      obtain s1 g where p: "p = (s1, g)" by (cases p)
      obtain grp where grp: "accepted_click pid (cc_callback c) (others 0 s) grp (cc_now c) None s1"
        using accepted_click [OF got(1) [unfolded p]] .
      have "\<exists>i. e = CancelAsked i"
        using got(2) assms(2,3) unfolding p
        by (auto simp: answered_def edited_def split: if_splits elim!: run_cases)
      then show thesis using that [OF grp] by blast
    qed
  qed
qed

lemma approve_calls:
  assumes "handle_approve w render lc c pid aa others s = (s', out, res)" and "e \<in> set out" and "touches_broker e"
    and act: "cb_action (cc_callback c) \<notin> {''vc'', ''dn'', ''ba''}"
  obtains grp user s1 shown rungs d ev where "accepted_click pid (cc_callback c) (others 0 s) grp (Aware (wd_observed_at d)) user s1"
    "e = Broker ev" "cb_action (cc_callback c) \<in> {''op'', ''lc''}" "\<not> auto_approved grp" "get_proposal pid s = Inr (shown, rungs)"
    "bound_window shown (ap_window2 aa) = Inr d" "window_allowed d" "user = (if lc then Some (cc_user c) else None)"
proof -
  have "\<not> quiet_effects out" using assms(2,3) by (auto simp: quiet_effects_def)
  with assms(1) show thesis
  proof (cases rule: approve_broker)
    case (1 d s1 s2 s3 s4 outcomes events)
    then obtain shown rungs g where f: "get_proposal pid s = Inr (shown, rungs)"
        "bound_window shown (ap_window2 aa) = Inr d" "window_allowed d"
        "consume_published_proposal_callback pid (cc_callback c) (Aware (wd_observed_at d))
           (if lc then Some (cc_user c) else None) (others 0 s) = Inr (s1, g)"
      by (auto simp: approval_run_def)
    obtain grp where grp: "accepted_click pid (cc_callback c) (others 0 s) grp (Aware (wd_observed_at d))
        (if lc then Some (cc_user c) else None) s1" using accepted_click [OF f(4)] .
    then obtain k where k: "cb_action (cc_callback c) \<in> ACTIONS_BY_CARD_KIND k" "k = AutoVeto \<longleftrightarrow> auto_approved grp"
      by (auto simp: accepted_click_def)
    have "cb_action (cc_callback c) \<in> {''op'', ''lc''} \<and> \<not> auto_approved grp" using k act by (cases k) auto
    moreover obtain ev where "e = Broker ev" using 1(2) assms(2,3) by blast
    ultimately show thesis using that [OF grp] f(1-3) by blast
  qed
qed

lemma veto_calls:
  assumes "handle_auto_veto c pid va others s = (s', out, res)" and "e \<in> set out" and "touches_broker e"
    and "cb_action (cc_callback c) = ''vc''"
  obtains grp s1 broker_order_id where "accepted_click pid (cc_callback c) (others 0 s) grp (cc_now c) None s1"
    "e = CancelAsked broker_order_id" "auto_approved grp"
proof -
  from assms(1-3) obtain grp s1 i where v: "accepted_click pid (cc_callback c) (others 0 s) grp (cc_now c) None s1"
    "e = CancelAsked i" by (rule veto_asks)
  then obtain k where "''vc'' \<in> ACTIONS_BY_CARD_KIND k" "k = AutoVeto \<longleftrightarrow> auto_approved grp"
    using assms(4) by (auto simp: accepted_click_def)
  then have "auto_approved grp" by (cases k) simp_all
  then show thesis using that v by blast
qed

text \<open>The handlers of a click that may call a broker; an ordinary approval of a loss cut is not one.\<close>

lemma loud_click:
  assumes "handle_proposal_click w render c pid ans others s = (s', out, res)" and "\<not> quiet_effects out"
  obtains "cb_action (cc_callback c) = ''vc''" "handle_auto_veto c pid (ck_veto ans) others s = (s', out, res)"
  | lc where "cb_action (cc_callback c) \<notin> {''vc'', ''dn''}"
      "handle_approve w render lc c pid (ck_approve ans) others s = (s', out, res)"
      "\<And>shown rungs. get_proposal pid s = Inr (shown, rungs) \<Longrightarrow> g_exit_intent shown = Some ''loss_cut'' \<Longrightarrow>
         lc \<and> cb_action (cc_callback c) \<noteq> ''op''"
proof -
  let ?a = "cb_action (cc_callback c)"
  consider "?a = ''vc''" "handle_auto_veto c pid (ck_veto ans) others s = (s', out, res)"
    | "handle_deny c pid others s = (s', out, res)"
    | "?a = ''op''" "run s [] (get_proposal pid s) (\<lambda>(grp, _).
             if g_exit_intent grp = Some ''loss_cut''
             then handle_loss_cut_first_click w c pid (ck_loss_cut ans) others s
             else handle_approve w render False c pid (ck_approve ans) others s) = (s', out, res)"
    | "?a \<notin> {''vc'', ''dn'', ''op''}" "handle_approve w render True c pid (ck_approve ans) others s = (s', out, res)"
    using assms(1) unfolding handle_proposal_click_def Let_def by (auto split: if_splits)
  then show thesis
  proof cases
    case 1
    then show thesis by (rule that(1))
  next
    case 2
    then show thesis using deny_quiet assms(2) by blast
  next
    case 3
    from 3(2) show thesis
    proof (cases rule: run_cases)
      case (1 err)
      then show thesis using assms(2) by simp
    next
      case (2 p)
      obtain shown rungs where p: "p = (shown, rungs)" by (cases p)
      have calm: "g_exit_intent shown \<noteq> Some ''loss_cut''" using 2(2) loss_cut_quiet assms(2) by (auto simp: p)
      then have "handle_approve w render False c pid (ck_approve ans) others s = (s', out, res)" using 2(2) by (simp add: p)
      then show thesis by (rule that(2) [rotated]) (use 3(1) 2(1) calm p in auto)
    qed
  next
    case 4
    then show thesis by (intro that(2) [of True]) auto
  qed
qed

text \<open>
  C2: No broker is called without a click accepted under the row lock: the proposal carries the nonce of
  the callback, unused until then, on the published card of a kind the action belongs to. Cancellations
  of automatic orders need the veto action on the veto card; everything else an approval of a proposal
  that was not submitted automatically, after two open window readings, the nonce consumed at the time
  of the second; a loss cut needs its second click.
\<close>

theorem broker_calls_need_an_accepted_click:
  assumes "handle_proposal_click w render c pid ans others s = (s', out, res)" and "cb_action (cc_callback c) \<noteq> ''ba''"
    and "e \<in> set out" and "touches_broker e"
  shows "\<exists>grp now user s1. accepted_click pid (cc_callback c) (others 0 s) grp now user s1 \<and>
    (case e of
       CancelAsked _ \<Rightarrow> cb_action (cc_callback c) = ''vc'' \<and> auto_approved grp
     | _ \<Rightarrow> cb_action (cc_callback c) \<in> {''op'', ''lc''} \<and> \<not> auto_approved grp \<and>
         (\<exists>shown rungs d. get_proposal pid s = Inr (shown, rungs) \<and>
            bound_window shown (ap_window2 (ck_approve ans)) = Inr d \<and> window_allowed d \<and> now = Aware (wd_observed_at d) \<and>
            (g_exit_intent shown = Some ''loss_cut'' \<longrightarrow> cb_action (cc_callback c) = ''lc'' \<and> user = Some (cc_user c))))"
proof -
  have loud: "\<not> quiet_effects out" using assms(3,4) by (auto simp: quiet_effects_def)
  from assms(1) loud show ?thesis
  proof (cases rule: loud_click)
    case 1
    from 1(2) assms(3,4) 1(1) show ?thesis
    proof (cases rule: veto_calls)
      case (1 grp s1 i)
      then show ?thesis using \<open>cb_action (cc_callback c) = ''vc''\<close> by auto
    qed
  next
    case run: (2 lc)
    have act: "cb_action (cc_callback c) \<notin> {''vc'', ''dn'', ''ba''}" using run(1) assms(2) by simp
    from run(2) assms(3,4) act show ?thesis
    proof (cases rule: approve_calls)
      case (1 grp user s1 shown rungs d ev)
      have "g_exit_intent shown = Some ''loss_cut'' \<longrightarrow> cb_action (cc_callback c) = ''lc'' \<and> user = Some (cc_user c)"
        using run(3) [OF 1(5)] 1(3,8) by auto
      then show ?thesis using 1 by (auto intro!: exI)
    qed
  qed
qed

section \<open>Denying\<close>

lemma reject_writes:
  "rung_in s grp i st \<Longrightarrow> Rejected \<in> ALLOWED st \<Longrightarrow>
     writes grp i Rejected s (record_rejected (g_proposal_id grp) i why (Aware t) s)"
  unfolding record_rejected_def by (simp, rule transition_writes [OF _ _ submit_audits(3)], auto)

lemma deny_step_writes:
  assumes r: "rung_in s grp i (r_state rung)" and i: "r_rung_index rung = i" and pid: "g_proposal_id grp = pid"
  shows "\<exists>s'. deny_step pid (Aware t) (s, done) rung =
      Inr (s', done @ (if r_state rung \<in> DENY_REJECTABLE_STATES then [i] else [])) \<and> moves grp i s s' \<and>
      rung_in s' grp i (if r_state rung \<in> DENY_REJECTABLE_STATES then Rejected else r_state rung)"
proof (cases "r_state rung \<in> DENY_REJECTABLE_STATES")
  case True
  then have "Rejected \<in> ALLOWED (r_state rung)" by (auto simp: DENY_REJECTABLE_STATES_def)
  then show ?thesis
    using reject_writes [OF r, of "''telegram_deny''" t] True i pid by (auto simp: writes_def deny_step_def)
next
  case False
  then show ?thesis using r moves_refl [OF rung_in_wf [OF r]] by (auto simp: deny_step_def)
qed

lemma deny_fold:
  assumes "distinct (map r_rung_index rs)" and "wf_store s" and pid: "g_proposal_id grp = pid"
    and "\<forall>r \<in> set rs. rung_in s grp (r_rung_index r) (r_state r)"
  shows "\<exists>s'. foldR (deny_step pid (Aware t)) (s, seen) rs =
      Inr (s', seen @ map r_rung_index (filter (\<lambda>r. r_state r \<in> DENY_REJECTABLE_STATES) rs)) \<and> evolves {} s s' \<and>
      (\<forall>r \<in> set rs. rung_in s' grp (r_rung_index r)
         (if r_state r \<in> DENY_REJECTABLE_STATES then Rejected else r_state r)) \<and>
      (\<forall>j st. j \<notin> r_rung_index ` set rs \<longrightarrow> rung_in s grp j st \<longrightarrow> rung_in s' grp j st)"
  using assms(1,2,4)
proof (induction rs arbitrary: s seen)
  case Nil
  then show ?case by (simp add: evolves_refl)
next
  case (Cons r rs)
  let ?i = "r_rung_index r" and ?new = "\<lambda>r. if r_state r \<in> DENY_REJECTABLE_STATES then Rejected else r_state r"
  obtain s1 where s1: "deny_step pid (Aware t) (s, seen) r =
      Inr (s1, seen @ (if r_state r \<in> DENY_REJECTABLE_STATES then [?i] else []))" "moves grp ?i s s1" "rung_in s1 grp ?i (?new r)"
    using deny_step_writes [of s grp ?i r pid t seen] Cons.prems(3) pid by auto
  have e1: "evolves {} s s1" and others: "\<And>j st. j \<noteq> ?i \<Longrightarrow> rung_in s grp j st \<Longrightarrow> rung_in s1 grp j st"
    using s1(2) by (auto simp: moves_def)
  have new: "?i \<notin> r_rung_index ` set rs" using Cons.prems(1) by simp
  have rest: "\<forall>r' \<in> set rs. rung_in s1 grp (r_rung_index r') (r_state r')"
    using Cons.prems(3) others new by (metis imageI list.set_intros(2))
  have ids: "distinct (map r_rung_index rs)" using Cons.prems(1) by simp
  note ih = Cons.IH [OF ids evolves_wf [OF e1] rest, of "seen @ (if r_state r \<in> DENY_REJECTABLE_STATES then [?i] else [])"]
  then obtain s' where s': "foldR (deny_step pid (Aware t)) (s1, seen @ (if r_state r \<in> DENY_REJECTABLE_STATES then [?i] else [])) rs =
      Inr (s', (seen @ (if r_state r \<in> DENY_REJECTABLE_STATES then [?i] else [])) @
        map r_rung_index (filter (\<lambda>r. r_state r \<in> DENY_REJECTABLE_STATES) rs))" "evolves {} s1 s'"
      "\<forall>r \<in> set rs. rung_in s' grp (r_rung_index r) (?new r)"
      "\<forall>j st. j \<notin> r_rung_index ` set rs \<longrightarrow> rung_in s1 grp j st \<longrightarrow> rung_in s' grp j st"
    by (elim exE conjE) (rule that)
  show ?case
  proof (intro exI conjI)
    show "foldR (deny_step pid (Aware t)) (s, seen) (r # rs) =
      Inr (s', seen @ map r_rung_index (filter (\<lambda>r. r_state r \<in> DENY_REJECTABLE_STATES) (r # rs)))"
      using s1(1) s'(1) by simp
    show "evolves {} s s'" using e1 s'(2) evolves_trans by blast
    show "\<forall>r \<in> set (r # rs). rung_in s' grp (r_rung_index r) (?new r)" using s'(3,4) s1(3) new by simp
    show "\<forall>j st. j \<notin> r_rung_index ` set (r # rs) \<longrightarrow> rung_in s grp j st \<longrightarrow> rung_in s' grp j st"
      using s'(4) others by auto
  qed
qed

text \<open>
  What a denial that passes the gate and whose nonce is accepted writes. It is never refused, and
  it calls no broker. The set of states it rejects holds \<open>unverified\<close> too, against the comment
  above the set and the rule that such a rung is settled by the broker's evidence only.
\<close>

lemma denial_writes:
  assumes "wf_store (others 0 s)" and "preflight_published_proposal_callback pid (cc_callback c) s = Inr g0"
    and "consume_published_proposal_callback pid (cc_callback c) (cc_now c) None (others 0 s) = Inr (s1, g)"
  shows "\<exists>s' out a grp rungs. handle_deny c pid others s = (s', out, Inr a) \<and> an_handled a \<and> quiet_effects out \<and>
    get_proposal pid (others 0 s) = Inr (grp, rungs) \<and>
    an_rungs a = map (\<lambda>r. \<lparr>rr_index = r_rung_index r, rr_result = ''rejected''\<rparr>)
      (filter (\<lambda>r. r_state r \<in> DENY_REJECTABLE_STATES) rungs) \<and>
    (\<forall>r \<in> set rungs. rung_in s' grp (r_rung_index r)
       (if r_state r \<in> DENY_REJECTABLE_STATES then Rejected else r_state r))"
proof -
  let ?t = "others 0 s"
  note k = consume_keeps [OF assms(1,3)]
  obtain tm where now: "cc_now c = Aware tm" using assms(3) by (rule consume_published_Inr)
  obtain grp where grp: "get_group_by_proposal_id ?t pid = Some grp"
    using assms(3) by (rule consume_published_Inr) (auto simp: locked_group_def split: option.splits)
  have e: "evolves UNIV ?t s1" using k(1) [of grp] by (simp add: keeps_def)
  have wf1: "wf_store s1" by (rule evolves_wf [OF e])
  obtain g1 where g1: "get_group_by_proposal_id s1 pid = Some g1" "group_payload g1 = group_payload grp"
    using payload_any [OF grp e] .
  note f = group_payload_fields [OF g1(2)]
  have gp: "get_proposal pid ?t = Inr (grp, list_rungs ?t (g_id grp))" using grp by (simp add: get_proposal_def)
  have gp1: "get_proposal pid s1 = Inr (g1, list_rungs ?t (g_id grp))"
    using g1(1) f k(3) by (simp add: get_proposal_def list_rungs_def)
  note rows = get_proposal_rows [OF gp1]
  have start: "\<forall>r \<in> set (list_rungs ?t (g_id grp)). rung_in s1 g1 (r_rung_index r) (r_state r)"
    using row_rung_in [OF wf1] rows by simp
  have ids: "distinct (map r_rung_index (list_rungs ?t (g_id grp)))" using distinct_rung_indices [OF assms(1)] .
  obtain s' where s': "foldR (deny_step pid (Aware tm)) (s1, []) (list_rungs ?t (g_id grp)) =
      Inr (s', map r_rung_index (filter (\<lambda>r. r_state r \<in> DENY_REJECTABLE_STATES) (list_rungs ?t (g_id grp))))"
    "\<forall>r \<in> set (list_rungs ?t (g_id grp)). rung_in s' g1 (r_rung_index r)
       (if r_state r \<in> DENY_REJECTABLE_STATES then Rejected else r_state r)"
    using deny_fold [OF ids wf1 rows(2) start, of tm "[]"] by auto
  have same: "rung_in x g1 i st \<longleftrightarrow> rung_in x grp i st" for x i st by (rule rung_in_cong) (use f in simp_all)
  have run: "handle_deny c pid others s = (s', answered (cc_query_id c) @ edited c,
      Inr ((answer True (Says ''denied''))\<lparr>an_rungs := map (\<lambda>i. \<lparr>rr_index = i, rr_result = ''rejected''\<rparr>)
        (map r_rung_index (filter (\<lambda>r. r_state r \<in> DENY_REJECTABLE_STATES) (list_rungs ?t (g_id grp))))\<rparr>))"
    using assms(2,3) gp1 s'(1) now by (simp add: handle_deny_def guarded_def run_def)
  show ?thesis
  proof (intro exI conjI)
    show "handle_deny c pid others s = (s', answered (cc_query_id c) @ edited c, Inr ((answer True (Says ''denied''))\<lparr>an_rungs :=
        map (\<lambda>i. \<lparr>rr_index = i, rr_result = ''rejected''\<rparr>)
        (map r_rung_index (filter (\<lambda>r. r_state r \<in> DENY_REJECTABLE_STATES) (list_rungs ?t (g_id grp))))\<rparr>))" by (rule run)
    show "get_proposal pid ?t = Inr (grp, list_rungs ?t (g_id grp))" by (rule gp)
  qed (use s'(2) in \<open>simp_all add: answer_def comp_def same\<close>)
qed

text \<open>
  C17: A denial that passes the gate and whose nonce is accepted is always carried through, and no
  broker is called: every rung of the proposal that still waits for its approval or for a
  reconfirmation is rejected and reported, once and with nothing but a rejection; every rung that a
  denial may not touch, past its submission or settled, keeps its state and is not reported.
\<close>

theorem denial_rejects_what_waits:
  assumes "wf_store (others 0 s)" and "preflight_published_proposal_callback pid (cc_callback c) s = Inr g0"
    and "consume_published_proposal_callback pid (cc_callback c) (cc_now c) None (others 0 s) = Inr (s1, g)"
  shows "\<exists>s' out a grp rungs. handle_deny c pid others s = (s', out, Inr a) \<and> an_handled a \<and> quiet_effects out \<and>
    get_proposal pid (others 0 s) = Inr (grp, rungs) \<and> distinct (map rr_index (an_rungs a)) \<and>
    rr_result ` set (an_rungs a) \<subseteq> {''rejected''} \<and>
    (\<forall>r \<in> set rungs.
       (r_state r \<in> {PendingApproval, NeedsReconfirm} \<longrightarrow>
          r_rung_index r \<in> rr_index ` set (an_rungs a) \<and> rung_in s' grp (r_rung_index r) Rejected) \<and>
       (r_state r \<notin> DENY_REJECTABLE_STATES \<longrightarrow>
          r_rung_index r \<notin> rr_index ` set (an_rungs a) \<and> rung_in s' grp (r_rung_index r) (r_state r)))"
proof -
  let ?deniable = "\<lambda>r. r_state r \<in> DENY_REJECTABLE_STATES"
  obtain s' out a grp rungs where d: "handle_deny c pid others s = (s', out, Inr a)" "an_handled a" "quiet_effects out"
    "get_proposal pid (others 0 s) = Inr (grp, rungs)"
    "an_rungs a = map (\<lambda>r. \<lparr>rr_index = r_rung_index r, rr_result = ''rejected''\<rparr>) (filter ?deniable rungs)"
    "\<forall>r \<in> set rungs. rung_in s' grp (r_rung_index r) (if ?deniable r then Rejected else r_state r)"
    using denial_writes [of others s, OF assms] by blast
  have ids: "distinct (map r_rung_index rungs)"
    using d(4) distinct_rung_indices [OF assms(1)] by (auto simp: get_proposal_def bindR_eq_Inr)
  have one: "distinct (map r_rung_index (filter ?deniable rungs))" using ids by (rule distinct_map_filter)
  have reported: "r_rung_index r \<in> rr_index ` set (an_rungs a) \<longleftrightarrow> ?deniable r" if "r \<in> set rungs" for r
    using that same_row [OF ids] by (auto simp: d(5) image_iff)
  have shown: "distinct (map rr_index (an_rungs a))" "rr_result ` set (an_rungs a) \<subseteq> {''rejected''}"
    using one by (auto simp: d(5) comp_def)
  have rung: "(r_state r \<in> {PendingApproval, NeedsReconfirm} \<longrightarrow>
        r_rung_index r \<in> rr_index ` set (an_rungs a) \<and> rung_in s' grp (r_rung_index r) Rejected) \<and>
      (r_state r \<notin> DENY_REJECTABLE_STATES \<longrightarrow>
        r_rung_index r \<notin> rr_index ` set (an_rungs a) \<and> rung_in s' grp (r_rung_index r) (r_state r))"
    if r: "r \<in> set rungs" for r
    using bspec [OF d(6) r] unfolding reported [OF r] by (auto simp: DENY_REJECTABLE_STATES_def)
  show ?thesis using d(1-4) shown rung by blast
qed

section \<open>The batch\<close>

lemma approve_member_acts:
  assumes "approve_member w render c t m ans others s = (s1, out, r, edit)"
  shows "mr_proposal_id r = ms_proposal_id m" and
    "e \<in> set out \<Longrightarrow> touches_broker e \<Longrightarrow>
       \<exists>grp now user s1. accepted_click (ms_proposal_id m) (member_callback m) (others 0 s) grp now user s1"
proof -
  let ?c = "c\<lparr>cc_callback := member_callback m, cc_message_id := Some (ms_message_id m), cc_query_id := None, cc_now := Aware t\<rparr>"
  show "mr_proposal_id r = ms_proposal_id m"
    using assms by (auto simp: approve_member_def Let_def internal_error_def approved_member_result_def
        split: sum.splits option.splits prod.splits)
  assume e: "e \<in> set out" "touches_broker e"
  then obtain x res where "handle_approve w render False ?c (ms_proposal_id m) ans others s = (x, out, res)" "\<not> quiet_effects out"
    using assms by (auto simp: approve_member_def Let_def quiet_effects_def split: sum.splits option.splits prod.splits)
  then show "\<exists>grp now user s1. accepted_click (ms_proposal_id m) (member_callback m) (others 0 s) grp now user s1"
  proof (cases rule: approve_broker)
    case (1 d s1 s2 s3 s4 outcomes events)
    then obtain g where "consume_published_proposal_callback (ms_proposal_id m) (member_callback m) (Aware (wd_observed_at d)) None (others 0 s) = Inr (s1, g)"
      by (auto simp: approval_run_def)
    then show ?thesis by (rule accepted_click) blast
  qed
qed

lemma member_steps_act:
  assumes "member_steps w render say c t ans others i ms db = (db', out, rs)"
  shows "map mr_proposal_id rs = map ms_proposal_id ms" and
    "e \<in> set out \<Longrightarrow> touches_broker e \<Longrightarrow>
       \<exists>m \<in> set ms. \<exists>x grp now user s1. accepted_click (ms_proposal_id m) (member_callback m) x grp now user s1"
proof -
  have "map mr_proposal_id rs = map ms_proposal_id ms \<and> (\<forall>e \<in> set out. touches_broker e \<longrightarrow>
       (\<exists>m \<in> set ms. \<exists>x grp now user s1. accepted_click (ms_proposal_id m) (member_callback m) x grp now user s1))"
    using assms
  proof (induction ms arbitrary: i db db' out rs)
    case (Cons m ms)
    obtain db1 out1 r where one: "member_step w render say c t ans i m (others i db) = (db1, out1, r)"
      by (cases "member_step w render say c t ans i m (others i db)")
    obtain db2 out2 rs2 where rest: "member_steps w render say c t ans others (Suc i) ms db1 = (db2, out2, rs2)"
      by (cases "member_steps w render say c t ans others (Suc i) ms db1")
    have all: "out = out1 @ out2" "rs = r # rs2" using Cons.prems one rest by simp_all
    obtain s1 o1 edit where a: "approve_member w render c t m (bc_member ans i) (bc_inner ans i) (bd_store (others i db)) = (s1, o1, r, edit)"
        "out1 = o1 @ (if edit then [Edited] else [])"
      using one by (auto simp: member_step_def Let_def split: prod.splits)
    show ?case
      using Cons.IH [OF rest] approve_member_acts [OF a(1)] a(2) all by (fastforce split: if_splits)
  qed simp
  then show "map mr_proposal_id rs = map ms_proposal_id ms"
    "e \<in> set out \<Longrightarrow> touches_broker e \<Longrightarrow>
       \<exists>m \<in> set ms. \<exists>x grp now user s1. accepted_click (ms_proposal_id m) (member_callback m) x grp now user s1"
    by blast+
qed

lemma approve_members_act:
  assumes "approve_members w render say c batch_id ms ans others (answered (cc_query_id c)) db = (db', out, res)"
  shows "\<forall>a. res = Inr a \<longrightarrow> map mr_proposal_id (an_members a) = map ms_proposal_id ms"
    and "\<forall>e \<in> set out. touches_broker e \<longrightarrow>
       (\<exists>m \<in> set ms. \<exists>x grp now user s1. accepted_click (ms_proposal_id m) (member_callback m) x grp now user s1)"
proof -
  obtain db1 out1 rs where steps: "member_steps w render say c (bc_final_now ans) ans others 0 ms db = (db1, out1, rs)"
    by (cases "member_steps w render say c (bc_final_now ans) ans others 0 ms db")
  note acts = member_steps_act [OF steps]
  have quiet: "e \<notin> set (answered q) \<and> e \<notin> set (edited c)" if "touches_broker e" for e q
    using that by (cases e) (simp_all add: answered_def edited_def)
  from assms have "out \<in> {answered (cc_query_id c) @ out1, answered (cc_query_id c) @ out1 @ edited c} \<and>
      (\<forall>a. res = Inr a \<longrightarrow> an_members a = rs)"
    unfolding approve_members_def steps prod.case Let_def by (cases rule: batch_run_cases) auto
  then show "\<forall>a. res = Inr a \<longrightarrow> map mr_proposal_id (an_members a) = map ms_proposal_id ms"
    and "\<forall>e \<in> set out. touches_broker e \<longrightarrow>
       (\<exists>m \<in> set ms. \<exists>x grp now user s1. accepted_click (ms_proposal_id m) (member_callback m) x grp now user s1)"
    using acts quiet by auto
qed

text \<open>The click from the judgement of the members on, and from the display on.\<close>

lemma judged_flow:
  assumes "run db o1 (judge_members ans proposals) (\<lambda>judged.
      if list_ex member_blocked judged
      then run db o1 (foldR (expire_member t) (bd_store db) judged) (\<lambda>s1.
          (db\<lparr>bd_store := s1\<rparr>, o1 @ edited c,
           Inr ((answer False (Says ''BATCH_WINDOW_BLOCKED''))\<lparr>an_members := map blocked_result judged\<rparr>)))
      else if expired then (db, o1 @ edited c, Inr (answer False (Says ''approval_batch_expired'')))
      else batch_guarded db o1 extra spend k) = (db', out, res)"
    and quiet: "quiet_effects o1" "\<And>e. quiet_effects (extra e)"
  obtains "quiet_effects out"
  | judged x where "judge_members ans proposals = Inr judged" "\<forall>m \<in> set judged. \<not> member_blocked m"
      "spend = Inr x" "k x = (db', out, res)"
  using assms(1)
proof (cases rule: run_cases)
  case (1 e)
  then show thesis using that(1) quiet by simp
next
  case judged: (2 judged)
  show thesis
  proof (cases "list_ex member_blocked judged \<or> expired")
    case True
    then show thesis using judged(2) that(1) quiet by (auto split: if_splits elim!: run_cases)
  next
    case False
    then have "batch_guarded db o1 extra spend k = (db', out, res)" using judged(2) by simp
    then show thesis
    proof (cases rule: batch_guarded_cases)
      case (1 e)
      then show thesis using that(1) quiet by auto
    next
      case (2 x)
      then show thesis using that(2) judged(1) False by (auto simp: list_ex_iff)
    qed
  qed
qed

lemma batch_flow:
  assumes "handle_batch_approve w render say c ans others db = (db', out, res)"
  obtains "quiet_effects out"
  | batch_id shown proposals judged db1 b members where
      "resolve_approval_batch_id_prefix (cb_subject_short (cc_callback c)) db = Some batch_id"
      "get_approval_batch_display batch_id db = Inr (shown, proposals)"
      "judge_members ans proposals = Inr judged" "\<forall>m \<in> set judged. \<not> member_blocked m"
      "consume_approval_batch_nonce (dw_batch_digest w) batch_id (cc_callback c) (cc_chat_id c) (cc_user c) (Aware (bc_final_now ans))
        (Some (map (\<lambda>(grp, _). (g_proposal_id grp, case g_approval_nonce grp of None \<Rightarrow> [] | Some n \<Rightarrow> n)) proposals)) db
        = Inr (db1, b, members)"
      "approve_members w render say c batch_id members ans others (answered (cc_query_id c)) db1 = (db', out, res)"
proof (cases "resolve_approval_batch_id_prefix (cb_subject_short (cc_callback c)) db")
  case None
  then show thesis using assms that(1) by (simp add: handle_batch_approve_def)
next
  case (Some batch_id)
  note run = assms [unfolded handle_batch_approve_def Some option.case]
  from run show thesis
  proof (cases rule: batch_guarded_cases)
    case (1 e)
    then show thesis using that(1) by auto
  next
    case gate: (2 x)
    from gate(2) show thesis
    proof (cases rule: batch_run_cases)
      case (1 e)
      then show thesis using that(1) by simp
    next
      case displayed: (2 p)
      obtain shown proposals where p: "p = (shown, proposals)" by (cases p)
      show thesis
      proof (cases "quiet_effects out")
        case True
        then show thesis by (rule that(1))
      next
        case loud: False
        note rest = displayed(2) [unfolded p prod.case Let_def]
        have "\<not> length proposals < 2"
          and "\<not> (bt_expires_at shown \<le> bc_display_now ans \<and> \<not> list_ex (member_has_expired (bc_display_now ans)) proposals)"
          using rest loud by (auto split: if_splits)
        note rest [unfolded if_not_P [OF this(1)] if_not_P [OF this(2)]]
        then show thesis
          by (rule judged_flow) (use that Some displayed(1) p in \<open>auto split: if_splits\<close>)
      qed
    qed
  qed
qed

text \<open>
  C14: A click on a batch card is all or nothing up to the nonce: a broker is called only when every
  member displayed was judged open in two passes and rechecked, the batch nonce was consumed for exactly
  those members, and then only for a member whose own card was accepted under its own row lock; the
  answer reports each frozen member once, in order.
\<close>

theorem batch_click_is_all_or_nothing:
  assumes "handle_batch_approve w render say c ans others db = (db', out, res)"
  shows "quiet_effects out \<or> (\<exists>batch_id shown proposals judged db1 b members.
    resolve_approval_batch_id_prefix (cb_subject_short (cc_callback c)) db = Some batch_id \<and>
    get_approval_batch_display batch_id db = Inr (shown, proposals) \<and>
    judge_members ans proposals = Inr judged \<and> (\<forall>m \<in> set judged. \<not> member_blocked m) \<and>
    consume_approval_batch_nonce (dw_batch_digest w) batch_id (cc_callback c) (cc_chat_id c) (cc_user c) (Aware (bc_final_now ans))
      (Some (map (\<lambda>(grp, _). (g_proposal_id grp, case g_approval_nonce grp of None \<Rightarrow> [] | Some n \<Rightarrow> n)) proposals)) db
      = Inr (db1, b, members) \<and>
    (\<forall>e \<in> set out. touches_broker e \<longrightarrow>
      (\<exists>m \<in> set members. \<exists>x grp now user s1. accepted_click (ms_proposal_id m) (member_callback m) x grp now user s1)) \<and>
    (\<forall>a. res = Inr a \<longrightarrow> map mr_proposal_id (an_members a) = map ms_proposal_id members))"
  using assms
proof (cases rule: batch_flow)
  case (2 batch_id shown proposals judged db1 b members)
  then show ?thesis using approve_members_act [OF 2(6)] by blast
qed simp

section \<open>Concrete clicks\<close>

theorem broker_calls_need_an_accepted_click_witness:
  "\<exists>s' out a e grp now user s1. handle_proposal_click sample_world sample_render click_sample ''p0000001'' answers_sample
       (\<lambda>_ s. s) cancel_store = (s', out, Inr a) \<and> Broker e \<in> set out \<and>
     accepted_click ''p0000001'' sample_callback cancel_store grp now user s1 \<and> \<not> auto_approved grp"
proof -
  obtain s' out a e where run: "handle_proposal_click sample_world sample_render click_sample ''p0000001'' answers_sample
      (\<lambda>_ s. s) cancel_store = (s', out, Inr a)" "Broker e \<in> set out" by (rule cancel_click_runs)
  have cb: "cc_callback click_sample = sample_callback" "cb_action sample_callback \<noteq> ''ba''"
    by (simp_all add: click_sample_def sample_callback_def)
  then show ?thesis using broker_calls_need_an_accepted_click [OF run(1) _ run(2)] run by fastforce
qed

text \<open>The owner denies the sample proposal, whose second rung rests at the broker.\<close>

abbreviation deny_sample :: click_context where
  "deny_sample \<equiv> click_sample\<lparr>cc_callback := sample_callback\<lparr>cb_action := ''dn''\<rparr>\<rparr>"

theorem denial_rejects_what_waits_witness:
  "\<exists>s' out a. handle_deny deny_sample ''p0000001'' (\<lambda>_ s. s) sample_store = (s', out, Inr a) \<and> an_handled a \<and>
     rr_index ` set (an_rungs a) \<inter> {0, 1} = {0} \<and> rung_in s' sample_group 0 Rejected \<and> rung_in s' sample_group 1 Resting"
proof -
  have "is_ok (preflight_published_proposal_callback ''p0000001'' (cc_callback deny_sample) sample_store)" by code_simp
  then obtain g0 where gate: "preflight_published_proposal_callback ''p0000001'' (cc_callback deny_sample) sample_store = Inr g0"
    by (auto simp: is_ok_iff)
  have "is_ok (consume_published_proposal_callback ''p0000001'' (cc_callback deny_sample) (cc_now deny_sample) None sample_store)"
    by code_simp
  then obtain s1 g where spent:
    "consume_published_proposal_callback ''p0000001'' (cc_callback deny_sample) (cc_now deny_sample) None sample_store = Inr (s1, g)"
    by (auto simp: is_ok_iff)
  show ?thesis
    using denial_rejects_what_waits [of "\<lambda>_ s. s" sample_store, OF wf_sample gate spent]
    by (auto simp: sample_rows pending_rung_def sample_rung_def DENY_REJECTABLE_STATES_def)
qed

text \<open>A published batch of two proposals, the first one a cancellation.\<close>

definition batch_proposals :: batch_db where
  "batch_proposals = two_proposals\<lparr>bd_store := (bd_store two_proposals)\<lparr>db_groups :=
     [cancel_group, with_policy (second_group\<lparr>g_action := Some ''cancel'', g_target_broker_order_id := Some ''b1'',
        g_source_asof := g_source_asof replace_group\<rparr>)]\<rparr>\<rparr>"

definition published_batch :: batch_db where
  "published_batch = foldl (\<lambda>db cmd. batch_step sample_env batch_hash cmd db) batch_proposals
     [RegisterMember ''p0000001'' ''chat'' 11 (Aware 10) 600 600 2
        \<lparr>dr_batch_id = ''b0000001'', dr_nonce = ''bn'', dr_attempt_id = ''ba1''\<rparr>,
      RegisterMember ''p0000002'' ''chat'' 12 (Aware 20) 600 600 2 second_draw,
      FinishBatch ''b0000001'' ''ba2'' batch_receipt (Aware 25)]"

definition batch_click :: click_context where
  "batch_click = click_sample\<lparr>cc_callback := batch_callback (hd (bd_batches published_batch)), cc_now := Aware 30\<rparr>"

abbreviation batch_world :: dispatch_world where
  "batch_world \<equiv> sample_world\<lparr>dw_batch_digest := batch_hash\<rparr>"

theorem batch_click_is_all_or_nothing_witness:
  "\<exists>db' out res db1 b members. handle_batch_approve batch_world sample_render (\<lambda>_. []) batch_click batch_sample (\<lambda>_ d. d)
       published_batch = (db', out, res) \<and> \<not> quiet_effects out \<and>
     consume_approval_batch_nonce batch_hash ''b0000001'' (cc_callback batch_click) ''chat'' ''u'' (Aware 33)
       (Some [(''p0000001'', ''n1''), (''p0000002'', ''n2'')]) published_batch = Inr (db1, b, members) \<and>
     (\<forall>a. res = Inr a \<longrightarrow> map mr_proposal_id (an_members a) = map ms_proposal_id members)"
proof -
  obtain db' out res where run: "handle_batch_approve batch_world sample_render (\<lambda>_. []) batch_click batch_sample (\<lambda>_ d. d)
      published_batch = (db', out, res)" by (rule prod_cases3)
  have "case handle_batch_approve batch_world sample_render (\<lambda>_. []) batch_click batch_sample (\<lambda>_ d. d) published_batch of
      (db', out, res) \<Rightarrow> list_ex touches_broker out" by code_simp
  then have loud: "\<not> quiet_effects out" by (auto simp: run quiet_effects_def list_ex_iff)
  have id: "resolve_approval_batch_id_prefix (cb_subject_short (cc_callback batch_click)) published_batch = Some ''b0000001''"
    by code_simp
  have members: "case get_approval_batch_display ''b0000001'' published_batch of Inl _ \<Rightarrow> False
     | Inr (_, ps) \<Rightarrow> map (\<lambda>(grp, _). (g_proposal_id grp, case g_approval_nonce grp of None \<Rightarrow> [] | Some n \<Rightarrow> n)) ps =
         [(''p0000001'', ''n1''), (''p0000002'', ''n2'')]" by code_simp
  have f: "cc_chat_id batch_click = ''chat''" "cc_user batch_click = ''u''" "bc_final_now batch_sample = 33"
    "dw_batch_digest batch_world = batch_hash"
    by (simp_all add: batch_click_def click_sample_def batch_sample_def)
  from batch_click_is_all_or_nothing [OF run] loud obtain shown ps db1 b ms where
    "get_approval_batch_display ''b0000001'' published_batch = Inr (shown, ps)"
    "consume_approval_batch_nonce batch_hash ''b0000001'' (cc_callback batch_click) ''chat'' ''u'' (Aware 33)
      (Some (map (\<lambda>(grp, _). (g_proposal_id grp, case g_approval_nonce grp of None \<Rightarrow> [] | Some n \<Rightarrow> n)) ps)) published_batch
      = Inr (db1, b, ms)"
    "\<forall>a. res = Inr a \<longrightarrow> map mr_proposal_id (an_members a) = map ms_proposal_id ms"
    unfolding id f by auto
  then show ?thesis using members run loud by auto
qed

end
