(* ===== verification/ClickReplay.thy ===== *)
theory ClickReplay
  imports ClickSafety
begin

text \<open>
  A click that was handled cannot be handled again: whatever its handler does after the nonce is spent,
  the reconfirm card and the confirmation of a loss cut included, and whatever happens later.
\<close>

section \<open>A spent nonce stays spent\<close>

text \<open>The transactions of others never stage the nonce \<open>n\<close> again.\<close>

definition never_staged :: "string \<Rightarrow> (nat \<Rightarrow> store \<Rightarrow> store) \<Rightarrow> bool" where
  "never_staged n others \<longleftrightarrow> (\<forall>k s. 0 < k \<longrightarrow> wf_store s \<longrightarrow> evolves (- {n}) s (others k s))"

text \<open>A run of steps that keeps spent what was spent.\<close>

lemma evolves_then:
  assumes "evolves N s t" and "wf_store t \<Longrightarrow> evolves N t u"
  shows "evolves N s u"
  using assms evolves_wf evolves_trans by blast

lemma evolves_any_nonce: "evolves {} s t \<Longrightarrow> evolves N s t"
  by (rule evolves_mono [OF _ empty_subsetI])

lemma run_evolves:
  assumes wf: "wf_store s" and g: "get_group_by_proposal_id s pid = Some g0" and market: "currency_for_market (g_market g0) \<noteq> None"
    and run: "revalidate_and_submit sha read_iso show_iso pid (Aware t) (Some p) gated w answers s = Inr (s', outcomes, events)"
  shows "evolves N s s'"
proof (cases "proposal_approval_block_reason g0")
  case (Some b)
  then have "s' = s" using run g by (simp add: revalidate_and_submit_def get_proposal_def)
  then show ?thesis using wf evolves_refl by blast
next
  case None
  have gp: "get_proposal pid s = Inr (g0, list_rungs s (g_id g0))" using g by (simp add: get_proposal_def)
  have active: "active_policy_stamp g0 (Some p) = Some p" by (simp add: active_policy_stamp_def)
  obtain idxs where "run_ok g0 p idxs s s' outcomes events"
    using whole_run [OF wf gp None market active, of sha read_iso show_iso t gated w answers] run by auto
  then show ?thesis using evolves_any_nonce by (simp add: run_ok_def)
qed

lemma alert_evolves: "wf_store s \<Longrightarrow> evolves N s (alert_non_sent_dispatch pid result failure t s)"
  by (auto simp: alert_non_sent_dispatch_def evolves_refl intro: record_approval_dispatch_alert_evolves split: sum.splits)

lemma publish_reconfirm_evolves:
  assumes wf: "wf_store s" and others: "never_staged n others"
    and run: "publish_reconfirm w c pid messages d outcomes ans others out s = (s', out', res)"
  shows "evolves (- {n}) s s'"
proof -
  have o: "evolves (- {n}) x (others k x)" if "0 < k" "wf_store x" for k x using others that by (simp add: never_staged_def)
  from run show ?thesis unfolding publish_reconfirm_def
  proof (cases rule: disp_cases)
    case (2 p)
    obtain sent publication where p: "p = (sent, publication)" by (cases p)
    from 2(2) show ?thesis unfolding p prod.case Let_def
    proof (cases rule: run_cases)
      case fin: (2 q)
      obtain s2 result where q: "q = (s2, result)" by (cases q)
      have "evolves (- {n}) s (others 1 s)" using o wf by simp
      moreover have "evolves (- {n}) (others 1 s) s2" if "wf_store (others 1 s)"
        by (rule finish_approval_dispatch_evolves [OF that fin(1) [unfolded q]])
      moreover have "evolves (- {n}) s2 (others 2 s2)" if "wf_store s2" using o that by simp
      moreover have "s' = alert_non_sent_dispatch pid result (ap_alert ans) (wd_observed_at d) (others 2 s2)"
        using fin(2) by (simp add: q)
      ultimately show ?thesis using alert_evolves by (metis evolves_then)
    qed (use o wf in simp)
  qed (use wf in \<open>simp add: evolves_refl\<close>)
qed

lemma after_run_spent:
  assumes wf: "wf_store s" and fresh: "ap_nonce ans \<noteq> n" and others: "never_staged n others"
    and run: "after_run w render c pid outcomes ans others committed out s = (s', out', Inr a)" and handled: "an_handled a"
  shows "evolves (- {n}) s s'"
proof -
  consider "give_card_back c pid outcomes (ap_expiry_now ans) committed out s = (s', out', Inr a)"
    | grp where "twice_open c (cc_query_id c) pid grp (ap_reconfirm1 ans) (ap_reconfirm2 ans) committed out s
        (\<lambda>_. send_reconfirm w render c pid outcomes ans others committed out s) = (s', out', Inr a)"
    | "approve_finished c outcomes out s = (s', out', Inr a)"
    using run by (auto simp: after_run_def elim!: run_cases split: if_splits)
  then show ?thesis
  proof cases
    case 1
    then show ?thesis using handled by (auto simp: give_card_back_def Let_def elim!: run_cases)
  next
    case 2
    from 2 have "send_reconfirm w render c pid outcomes ans others committed out s = (s', out', Inr a)"
      using handled by (cases rule: twice_open_cases) auto
    then obtain s1 grp rungs d s2 att m where s1: "set_approval_nonce pid (ap_nonce ans) False s = Inr s1"
      and s2: "start_approval_dispatch (dw_digest w) pid (ap_attempt_id ans)
          (proposal_binding (dw_digest w) grp (Some (ap_nonce ans)) (ap_attempt_id ans) card_kind.Reconfirm)
          (Aware (wd_observed_at d)) (dm_payload_chars m) (int (length (dm_context m))) s1 = Inr (s2, att)"
      and pub: "publish_reconfirm w c pid m d outcomes ans others out s2 = (s', out', Inr a)"
      using handled
      by (auto simp: send_reconfirm_def Let_def answer_def elim!: run_cases split: if_splits)
    have "evolves (- {n}) s s1" by (rule set_approval_nonce_evolves [OF wf _ s1]) (use fresh in simp)
    moreover have "evolves (- {n}) s1 s2" if "wf_store s1" by (rule start_approval_dispatch_evolves [OF that s2])
    moreover have "evolves (- {n}) s2 s'" if "wf_store s2" by (rule publish_reconfirm_evolves [OF that others pub])
    ultimately show ?thesis by (metis evolves_then)
  next
    case 3
    then show ?thesis using wf by (simp add: approve_finished_def evolves_refl)
  qed
qed

section \<open>The handlers\<close>

text \<open>What a handler left behind after it consumed the nonce.\<close>

definition spends :: "string \<Rightarrow> click_context \<Rightarrow> uuid \<Rightarrow> store \<Rightarrow> store \<Rightarrow> bool" where
  "spends n c pid t s' \<longleftrightarrow>
     (\<exists>now user s1 g. consume_published_proposal_callback pid (cc_callback c) now user t = Inr (s1, g) \<and> evolves (- {n}) s1 s')"

lemma deny_spends:
  assumes wf: "wf_store (others 0 s)" and run: "handle_deny c pid others s = (s', out, Inr a)" and handled: "an_handled a"
  shows "spends n c pid (others 0 s) s'"
proof -
  from run handled obtain s1 g rungs g1 rejected where
    c: "consume_published_proposal_callback pid (cc_callback c) (cc_now c) None (others 0 s) = Inr (s1, g)"
    and f: "get_proposal pid s1 = Inr (g1, rungs)" "foldR (deny_step pid (cc_now c)) (s1, []) rungs = Inr (s', rejected)"
    unfolding handle_deny_def Let_def
    by (auto simp: bindR_eq_Inr elim!: guarded_cases run_cases)
  have wf1: "wf_store s1" using consume_published_evolves [OF wf c] evolves_wf by blast
  obtain tm where now: "cc_now c = Aware tm" using c by (rule consume_published_Inr)
  note rows = get_proposal_rows [OF f(1)]
  have start: "\<forall>r \<in> set rungs. rung_in s1 g1 (r_rung_index r) (r_state r)" using row_rung_in [OF wf1] rows by simp
  have ids: "distinct (map r_rung_index rungs)" using distinct_rung_indices [OF wf1] rows(3) by simp
  have "evolves {} s1 s'" using deny_fold [OF ids wf1 rows(2) start, of tm "[]"] f(2) now by auto
  then show ?thesis using c evolves_any_nonce unfolding spends_def by blast
qed

lemma veto_spends:
  assumes wf: "wf_store (others 0 s)" and run: "handle_auto_veto c pid va others s = (s', out, Inr a)" and handled: "an_handled a"
  shows "spends n c pid (others 0 s) s'"
proof -
  from run handled obtain s1 g rungs g1 s2 outcomes requested g2 where
    c: "consume_published_proposal_callback pid (cc_callback c) (cc_now c) None (others 0 s) = Inr (s1, g)"
    and f: "get_proposal pid s1 = Inr (g1, rungs)"
      "cancel_auto_submitted_rungs g1 rungs (cc_now c) va s1 = Inr (s2, outcomes, requested)"
      "record_auto_veto pid (cc_user c) (map veto_json outcomes) (cc_now c) s2 = Inr (s', g2)"
    unfolding handle_auto_veto_def Let_def
    by (auto simp: bindR_eq_Inr elim!: guarded_cases run_cases)
  have wf1: "wf_store s1" using consume_published_evolves [OF wf c] evolves_wf by blast
  obtain tm where now: "cc_now c = Aware tm" using c by (rule consume_published_Inr)
  note rows = get_proposal_rows [OF f(1)]
  have start: "rung_in s1 g1 (r_rung_index r) (r_state r)" if "r \<in> set rungs" for r using row_rung_in [OF wf1] rows that by simp
  have ids: "distinct (map r_rung_index rungs)" using distinct_rung_indices [OF wf1] rows(3) by simp
  have "evolves {} s1 s2"
    using veto_run [OF wf1 start ids, of tm va "[]" "[]"] f(2) now by (auto simp: cancel_auto_submitted_rungs_def)
  moreover have "evolves (- {n}) s2 s'" if "wf_store s2" by (rule record_auto_veto_evolves [OF that f(3)])
  ultimately have "evolves (- {n}) s1 s'" using evolves_any_nonce evolves_then by metis
  then show ?thesis using c unfolding spends_def by blast
qed

lemma approve_spends:
  assumes wf: "wf_store (others 0 s)" and g: "get_group_by_proposal_id (others 0 s) pid = Some grp"
    and market: "currency_for_market (g_market grp) \<noteq> None" and fresh: "ap_nonce aa \<noteq> n" and others: "never_staged n others"
    and run: "handle_approve w render lc c pid aa others s = (s', out, Inr a)" and handled: "an_handled a"
  shows "spends n c pid (others 0 s) s'"
  using run
proof (cases rule: approve_flow)
  case 1
  then show ?thesis using handled by blast
next
  case (2 d s1 s2 s3 s4 outcomes events)
  let ?t = "others 0 s"
  obtain gx where steps: "consume_published_proposal_callback pid (cc_callback c) (Aware (wd_observed_at d))
         (if lc then Some (cc_user c) else None) ?t = Inr (s1, gx)"
      "acquire_commit_lease pid (Aware (wd_observed_at d)) commit_lease_seconds s1 = Inr (s2, True)"
      "bindR (record_approval pid (cc_user c) (Aware (wd_observed_at d)) s2) (\<lambda>(x, _). reopen_reconfirming pid x) = Inr s3"
    and r: "revalidate_and_submit (dw_sha w) (dw_read_iso w) (dw_show_iso w) pid (Aware (wd_observed_at d))
         (Some (wd_policy_stamp d)) False (ap_first_window aa) (ap_actions aa) s3 = Inr (s4, outcomes, events)"
    using 2(1) by (auto simp: approval_run_def)
  have wf1: "wf_store s1" using consume_published_evolves [OF wf steps(1)] evolves_wf by blast
  have e2: "evolves (- {n}) s1 s2" by (rule acquire_commit_lease_evolves [OF wf1 steps(2)])
  obtain x gy where x: "record_approval pid (cc_user c) (Aware (wd_observed_at d)) s2 = Inr (x, gy)" "reopen_reconfirming pid x = Inr s3"
    using steps(3) by (auto simp: bindR_eq_Inr)
  have ex: "evolves (- {n}) s2 x" by (rule record_approval_evolves [OF evolves_wf [OF e2] x(1)])
  have et: "evolves UNIV ?t x"
    using consume_published_evolves [OF wf steps(1)] e2 ex evolves_any evolves_trans by metis
  obtain g3 where g3: "get_group_by_proposal_id x pid = Some g3" using payload_any [OF g et] by blast
  obtain s3' where "reopen_reconfirming pid x = Inr s3'" "passes g3 x s3'"
    using reopen_passes [OF is_row_group [OF evolves_wf [OF ex] g3]] .
  then have e3: "evolves {} x s3" using x(2) by (simp add: passes_def)
  have e13: "evolves (- {n}) s1 s3" using e2 ex evolves_any_nonce [OF e3] evolves_trans by metis
  obtain g4 where g4: "get_group_by_proposal_id s3 pid = Some g4" "group_payload g4 = group_payload grp"
    using payload_any [OF g evolves_trans [OF et evolves_any [OF e3]]] .
  have m: "currency_for_market (g_market g4) \<noteq> None" using market g4(2) by (simp add: group_payload_def)
  have e4: "evolves (- {n}) s3 s4" by (rule run_evolves [OF evolves_wf [OF e3] g4(1) m r])
  have "evolves (- {n}) s4 s'" by (rule after_run_spent [OF evolves_wf [OF e4] fresh others 2(2) handled])
  then have "evolves (- {n}) s1 s'" using e13 e4 evolves_trans by metis
  then show ?thesis using steps(1) unfolding spends_def by blast
qed


lemma publish_confirmation_evolves:
  assumes wf: "wf_store s" and others: "never_staged n others"
    and run: "publish_confirmation w c pid content d ans others out s = (s', out', res)"
  shows "evolves (- {n}) s s'"
proof -
  have o: "evolves (- {n}) x (others k x)" if "0 < k" "wf_store x" for k x using others that by (simp add: never_staged_def)
  from run show ?thesis unfolding publish_confirmation_def Let_def
  proof (cases rule: disp_cases)
    case (2 publication)
    from 2(2) show ?thesis
    proof (cases rule: run_cases)
      case fin: (2 q)
      obtain s2 result where q: "q = (s2, result)" by (cases q)
      have "evolves (- {n}) s (others 1 s)" using o wf by simp
      moreover have "evolves (- {n}) (others 1 s) s2" if "wf_store (others 1 s)"
        by (rule finish_approval_dispatch_evolves [OF that fin(1) [unfolded q]])
      moreover have "evolves (- {n}) s2 (others 2 s2)" if "wf_store s2" using o that by simp
      moreover have "s' = alert_non_sent_dispatch pid result (lc_alert ans) (wd_observed_at d) (others 2 s2)"
        using fin(2) by (simp add: q)
      ultimately show ?thesis using alert_evolves by (metis evolves_then)
    qed (use o wf in simp)
  qed (use wf in \<open>simp add: evolves_refl\<close>)
qed

lemma stage_confirmation_evolves:
  assumes wf: "wf_store s" and fresh: "lc_nonce ans \<noteq> n" and others: "never_staged n others"
    and run: "stage_confirmation w c pid now ans others committed out s = (s', out', Inr a)" and handled: "an_handled a"
  shows "evolves (- {n}) s s'"
proof -
  obtain s1 g1 d s2 grp k att content where
    s1: "issue_loss_cut_confirmation pid (cb_nonce (cc_callback c)) (lc_nonce ans) (cc_user c) now loss_cut_ttl_seconds s = Inr (s1, g1)"
    and s2: "start_approval_dispatch (dw_digest w) pid (lc_attempt_id ans)
        (proposal_binding (dw_digest w) grp (Some (lc_nonce ans)) (lc_attempt_id ans) LossCutConfirmation)
        (Aware (wd_observed_at d)) k 0 s1 = Inr (s2, att)"
    and pub: "publish_confirmation w c pid content d ans others out s2 = (s', out', Inr a)"
    using run handled
    by (auto simp: stage_confirmation_def Let_def answer_def elim!: run_cases disp_cases split: if_splits)
  have "evolves (- {n}) s s1" by (rule issue_loss_cut_evolves [OF wf _ s1]) (use fresh in simp)
  moreover have "evolves (- {n}) s1 s2" if "wf_store s1" by (rule start_approval_dispatch_evolves [OF that s2])
  moreover have "evolves (- {n}) s2 s'" if "wf_store s2" using publish_confirmation_evolves [OF that others pub] .
  ultimately show ?thesis by (metis evolves_then)
qed

lemma loss_cut_spends:
  assumes wf: "wf_store (others 0 s)" and fresh: "lc_nonce la \<noteq> n" and others: "never_staged n others"
    and run: "handle_loss_cut_first_click w c pid la others s = (s', out, Inr a)" and handled: "an_handled a"
  shows "spends n c pid (others 0 s) s'"
  using run unfolding handle_loss_cut_first_click_def Let_def
proof (cases rule: guarded_cases)
  case (1 e)
  then show ?thesis using handled by blast
next
  case (2 x)
  from 2(2) show ?thesis
  proof (cases rule: run_cases)
    case (2 grp)
    from 2(2) show ?thesis
    proof (cases rule: twice_open_cases)
      case 1
      then show ?thesis using handled by blast
    next
      case (2 d1 d2)
      then obtain u where u: "lc_preview la = Inr u" by (cases "lc_preview la") auto
      from 2(5) show ?thesis unfolding u sum.case
      proof (cases rule: guarded_cases)
        case (1 e)
        then show ?thesis using handled by blast
      next
        case (2 grp1)
        from 2(2) show ?thesis
        proof (cases rule: twice_open_cases)
          case 1
          then show ?thesis using handled by blast
        next
          case (2 d3 d4)
          from 2(5) show ?thesis
          proof (cases rule: guarded_cases)
            case (1 e)
            then show ?thesis using handled by blast
          next
            case spent: (2 p)
            obtain s1 g where p: "p = (s1, g)" by (cases p)
            have wf1: "wf_store s1" using consume_published_evolves [OF wf spent(1) [unfolded p]] evolves_wf by blast
            have "evolves (- {n}) s1 s'"
              by (rule stage_confirmation_evolves [OF wf1 fresh others _ handled]) (use spent(2) p in simp)
            then show ?thesis using spent(1) p unfolding spends_def by blast
          qed
        qed
      qed
    qed
  qed force
qed

section \<open>No replay\<close>

lemma group_any:
  assumes "get_group_by_proposal_id s pid = Some g" and e: "evolves N s s'"
  obtains g' where "get_group_by_proposal_id s' pid = Some g'" and "group_evolves N g g'"
proof -
  note gi = get_group_in [OF assms(1)]
  obtain g' where g': "g' \<in> set (db_groups s')" "group_evolves N g g'" using e gi unfolding evolves_def by blast
  have "group_payload g' = group_payload g" using g'(2) by (simp add: group_evolves_def)
  then have "get_group_by_proposal_id s' pid = Some g'"
    using group_is [OF evolves_wf [OF e] g'(1)] group_payload_fields gi by metis
  then show thesis using that g'(2) by blast
qed

lemma consumed_is_spent:
  assumes wf: "wf_store s" and ok: "consume_published_proposal_callback pid cb now usr s = Inr (s', g)"
  shows "get_group_by_proposal_id s' pid = Some g" and "spent n g"
proof -
  from ok obtain grp t where w: "get_group_by_proposal_id s pid = Some grp" "s' = put_group g s"
    "g = grp\<lparr>g_updated_at := db_now s, g_approval_nonce_used_at := Some t, g_source_asof := g_source_asof g\<rparr>"
    by (rule consumed_write)
  have "group_payload g = group_payload grp" by (subst w(3)) (simp add: group_payload_def)
  then show "get_group_by_proposal_id s' pid = Some g" unfolding w(2) by (rule put_group_read(1) [OF wf w(1)])
  have "g_approval_nonce_used_at g = Some t" by (subst w(3)) simp
  then show "spent n g" by (simp add: spent_def)
qed

lemma click_spends:
  assumes wf: "wf_store (others 0 s)" and g: "get_group_by_proposal_id (others 0 s) pid = Some grp"
    and market: "currency_for_market (g_market grp) \<noteq> None" and fresh: "ap_nonce (ck_approve ans) \<noteq> n" "lc_nonce (ck_loss_cut ans) \<noteq> n"
    and others: "never_staged n others"
    and run: "handle_proposal_click w render c pid ans others s = (s', out, Inr a)" and handled: "an_handled a"
  shows "spends n c pid (others 0 s) s'"
proof -
  consider "handle_auto_veto c pid (ck_veto ans) others s = (s', out, Inr a)"
    | "handle_deny c pid others s = (s', out, Inr a)"
    | "handle_loss_cut_first_click w c pid (ck_loss_cut ans) others s = (s', out, Inr a)"
    | lc where "handle_approve w render lc c pid (ck_approve ans) others s = (s', out, Inr a)"
    using run unfolding handle_proposal_click_def Let_def by (auto split: if_splits elim!: run_cases)
  then show ?thesis
    by cases (use veto_spends deny_spends loss_cut_spends approve_spends wf g market fresh others handled in metis)+
qed

text \<open>
  C3: A click that was handled can never be repeated: no later callback with its nonce passes the gate
  of the proposal, whatever the handler did after it spent the nonce, and whatever history follows, as
  long as the nonce is not drawn again.
\<close>

theorem handled_click_is_spent:
  assumes "wf_store (others 0 s)" and "get_group_by_proposal_id (others 0 s) pid = Some grp"
    and "currency_for_market (g_market grp) \<noteq> None"
    and "n = cb_nonce (cc_callback c)" and "ap_nonce (ck_approve ans) \<noteq> n" and "lc_nonce (ck_loss_cut ans) \<noteq> n"
    and "never_staged n others" and "\<forall>ct \<in> set cts. n \<notin> issued (fst ct)"
    and "handle_proposal_click w render c pid ans others s = (s', out, Inr a)" and "an_handled a"
    and "cb_nonce cb = n"
  shows "\<not> is_ok (preflight_published_proposal_callback pid cb (history env cts s'))"
proof -
  obtain now user s1 g where c: "consume_published_proposal_callback pid (cc_callback c) now user (others 0 s) = Inr (s1, g)"
    and e: "evolves (- {n}) s1 s'"
    using click_spends [OF assms(1,2,3,5,6,7,9,10)] unfolding spends_def by blast
  from c have g1: "get_group_by_proposal_id s1 pid = Some g" and sp: "spent n g"
    using consumed_is_spent [OF assms(1) c] by auto
  have "issued (fst ct) \<subseteq> - {n}" if "ct \<in> set cts" for ct using assms(8) that by auto
  then have "evolves (- {n}) s' (history env cts s')" by (intro history_evolves [OF evolves_wf [OF e]]) blast
  then have "evolves (- {n}) s1 (history env cts s')" using e evolves_trans by blast
  then obtain g2 where g2: "get_group_by_proposal_id (history env cts s') pid = Some g2" "group_evolves (- {n}) g g2"
    using group_any [OF g1] by blast
  then have "spent n g2" using sp by (simp add: group_evolves_def)
  then show ?thesis
    using g2(1) assms(11)
    by (auto simp: is_ok_iff preflight_published_proposal_callback_def bindR_eq_Inr locked_group_def gate_open_def
        gate_snapshot_def spent_def dest!: assert_binding_Inr(3))
qed

theorem handled_click_is_spent_witness:
  "\<exists>s' out a. handle_proposal_click sample_world sample_render click_sample ''p0000001'' answers_sample (\<lambda>_ s. s) cancel_store =
       (s', out, Inr a) \<and>
     \<not> is_ok (preflight_published_proposal_callback ''p0000001'' sample_callback
        (history sample_env [(CommitLease ''p0000001'' (Aware 30) 60, 30)] s'))"
proof -
  obtain s' out a e where run: "handle_proposal_click sample_world sample_render click_sample ''p0000001'' answers_sample
      (\<lambda>_ s. s) cancel_store = (s', out, Inr a)" "an_handled a" by (rule cancel_click_runs)
  have g: "get_group_by_proposal_id cancel_store ''p0000001'' = Some cancel_group"
    by (simp add: get_group_by_proposal_id_def cancel_store_def cancel_group_def with_policy_def replace_group_def)
  have m: "currency_for_market (g_market cancel_group) \<noteq> None"
    using sample_pending(2) by (simp add: cancel_group_def with_policy_def replace_group_def)
  have quiet: "never_staged ''n1'' (\<lambda>_ s. s)" by (simp add: never_staged_def evolves_refl)
  have n: "''n1'' = cb_nonce (cc_callback click_sample)" "ap_nonce (ck_approve answers_sample) \<noteq> ''n1''"
    "lc_nonce (ck_loss_cut answers_sample) \<noteq> ''n1''" "cb_nonce sample_callback = ''n1''"
    by (simp_all add: click_sample_def sample_callback_def answers_sample_def approve_sample_def loss_cut_sample_def)
  show ?thesis
    using handled_click_is_spent [of "\<lambda>_ s. s" cancel_store "''p0000001''" cancel_group "''n1''" click_sample answers_sample
        "[(CommitLease ''p0000001'' (Aware 30) 60, 30)]", OF wf_cancel g m n(1,2,3) quiet _ run n(4)] run(1)
    by auto
qed

end
