(* ===== verification/Redispatch.thy ===== *)
theory Redispatch
  imports DispatchSafety
begin

text \<open>
  May a failed card be sent again (\<open>order_proposals/redispatch.py\<close>)? The check only reads: the columns
  of the proposal, the window, and for each rung a fresh preview, which must repeat the stored order and
  must not cross the market. A price the preview reports is a text; what raises is a left value.
\<close>

section \<open>The check\<close>

definition ELIGIBLE_RUNG_STATES :: "rung_state set" where
  "ELIGIBLE_RUNG_STATES = {PendingApproval, NeedsReconfirm}"

definition REDISPATCHABLE_STATES :: "dispatch_state option set" where
  "REDISPATCHABLE_STATES = {None, Some DFailed, Some PartialFailed}"

datatype redispatch_validation =
    Eligible window_decision "(int \<times> string option \<times> string option \<times> rat) list"
  | Blocked string

text \<open>\<open>_decimal\<close>: a finite decimal, or none.\<close>

definition finite_decimal :: "string option \<Rightarrow> rat option" where
  "finite_decimal v = (case v of None \<Rightarrow> None | Some text \<Rightarrow>
     (case parse_decimal text of None \<Rightarrow> None | Some d \<Rightarrow> if is_finite d then Some (dec_value d) else None))"

definition column_block :: "order_proposal \<Rightarrow> rung list \<Rightarrow> string option" where
  "column_block grp rungs =
     (if g_lifecycle_state grp \<noteq> Proposed then Some ''redispatch_proposal_not_active''
      else if contract_action grp \<noteq> ''place'' then Some ''redispatch_action_not_supported''
      else if g_order_type grp \<noteq> ''limit'' then Some ''redispatch_market_order_unbounded''
      else if g_approval_nonce_used_at grp \<noteq> None then Some ''redispatch_approval_already_acted''
      else if g_approval_dispatch_state grp = Some DPending then Some ''redispatch_dispatch_pending''
      else if g_approval_dispatch_state grp = Some SentCurrent then Some ''redispatch_already_sent''
      else if g_approval_dispatch_state grp \<notin> REDISPATCHABLE_STATES then Some ''redispatch_dispatch_state_not_eligible''
      else if g_approval_dispatch_published_at grp \<noteq> None then Some ''redispatch_publication_already_recorded''
      else if g_approval_nonce grp \<noteq> None then Some ''redispatch_active_nonce_present''
      else if rungs = [] \<or> list_ex (\<lambda>r. r_state r \<notin> ELIGIBLE_RUNG_STATES) rungs
      then Some ''redispatch_rung_state_not_eligible''
      else None)"

definition crossed_market :: "string \<Rightarrow> rat \<Rightarrow> rat \<Rightarrow> bool" where
  "crossed_market side limit_price current_price \<longleftrightarrow>
     side = ''buy'' \<and> current_price < limit_price \<or> side = ''sell'' \<and> limit_price < current_price"

text \<open>The preview of a rung and the current price it reports.\<close>

record redispatch_answers =
  rd_window :: window_reading
  rd_preview :: "int \<Rightarrow> (string, preview_answer) result"
  rd_current_price :: "int \<Rightarrow> string option"

definition check_rung ::
  "redispatch_answers \<Rightarrow> rung \<Rightarrow> (string, int \<times> string option \<times> string option \<times> rat) result" where
  "check_rung ans rung =
     (case rd_preview ans (r_rung_index rung) of
        Inl _ \<Rightarrow> Inl ''redispatch_preview_exception''
      | Inr pv \<Rightarrow>
          let (price, quantity) = approved_terms rung in
          if pv_success pv \<noteq> Some True then Inl ''redispatch_preview_blocked''
          else if norm_value (pv_price pv) \<noteq> price then Inl ''redispatch_price_changed''
          else if norm_value (pv_quantity pv) \<noteq> quantity then Inl ''redispatch_quantity_changed''
          else case (finite_decimal (rd_current_price ans (r_rung_index rung)), r_limit_price rung) of
            (Some current, Some limit_price) \<Rightarrow>
              if current \<le> 0 then Inl ''redispatch_current_price_missing''
              else if crossed_market (r_side rung) limit_price current then Inl ''redispatch_price_crossed_market''
              else Inr (r_rung_index rung, price, quantity, current)
          | _ \<Rightarrow> Inl ''redispatch_current_price_missing'')"

fun check_rungs ::
  "redispatch_answers \<Rightarrow> rung list \<Rightarrow> (string, (int \<times> string option \<times> string option \<times> rat) list) result" where
  "check_rungs ans [] = Inr []"
| "check_rungs ans (r # rs) =
     bindR (check_rung ans r) (\<lambda>p. bindR (check_rungs ans rs) (\<lambda>ps. Inr (p # ps)))"

definition validate_proposal_redispatch ::
  "order_proposal \<Rightarrow> rung list \<Rightarrow> redispatch_answers \<Rightarrow> (svc_error, redispatch_validation) result" where
  "validate_proposal_redispatch grp rungs ans =
     (case column_block grp rungs of
        Some code \<Rightarrow> Inr (Blocked code)
      | None \<Rightarrow>
          bindR (boundary_at grp None False (rd_window ans)) (\<lambda>window.
            if \<not> window_allowed window then Inr (Blocked (approval_window_failure_code window))
            else Inr (case check_rungs ans rungs of
                Inl code \<Rightarrow> Blocked code
              | Inr previews \<Rightarrow> Eligible window previews)))"

section \<open>What it admits\<close>

text \<open>The columns of a proposal whose card never reached the operator, or is out of use.\<close>

definition undelivered :: "order_proposal \<Rightarrow> rung list \<Rightarrow> bool" where
  "undelivered grp rungs \<longleftrightarrow>
     g_lifecycle_state grp = Proposed \<and> contract_action grp = ''place'' \<and> g_order_type grp = ''limit'' \<and>
     g_approval_nonce grp = None \<and> g_approval_nonce_used_at grp = None \<and> g_approval_dispatch_published_at grp = None \<and>
     g_approval_dispatch_state grp \<in> REDISPATCHABLE_STATES \<and>
     rungs \<noteq> [] \<and> (\<forall>r \<in> set rungs. r_state r \<in> ELIGIBLE_RUNG_STATES)"

text \<open>The preview repeats the stored order, at a market the limit does not cross.\<close>

definition repeats_order :: "redispatch_answers \<Rightarrow> rung \<Rightarrow> bool" where
  "repeats_order ans r \<longleftrightarrow>
     (\<exists>pv limit_price current. rd_preview ans (r_rung_index r) = Inr pv \<and> pv_success pv = Some True \<and>
        (norm_value (pv_price pv), norm_value (pv_quantity pv)) = approved_terms r \<and>
        r_limit_price r = Some limit_price \<and> finite_decimal (rd_current_price ans (r_rung_index r)) = Some current \<and>
        0 < current \<and> \<not> crossed_market (r_side r) limit_price current)"

lemma column_block_None: "column_block grp rungs = None \<longleftrightarrow> undelivered grp rungs"
  by (auto simp: column_block_def undelivered_def REDISPATCHABLE_STATES_def list_ex_iff)

lemma check_rung_ok: "is_ok (check_rung ans r) \<longleftrightarrow> repeats_order ans r"
  by (auto simp: check_rung_def repeats_order_def approved_terms_def is_ok_def Let_def not_le split: sum.splits option.splits)

lemma check_rungs_ok: "is_ok (check_rungs ans rs) \<longleftrightarrow> (\<forall>r \<in> set rs. repeats_order ans r)"
  by (induction rs) (auto simp: check_rung_ok [symmetric] is_ok_iff bindR_eq_Inr)

lemma boundary_total: "\<exists>d. boundary_at grp p b w = Inr d"
  unfolding boundary_at_def
  by (auto simp: evaluate_approval_window_boundary_def evaluate_approval_window_def exemption_cases
      recheck_approval_window_decision_def valid_until_block_column require_def Let_def
      split: option.splits sum.splits if_splits)

lemma no_nonce_no_click: "g_approval_nonce grp = None \<Longrightarrow> get_group_by_proposal_id s pid = Some grp \<Longrightarrow>
    preflight_published_proposal_callback pid cb s \<noteq> Inr g"
  by (auto simp: preflight_published_proposal_callback_def bindR_eq_Inr locked_group_def gate_open_def gate_snapshot_def
      dest!: assert_binding_Inr(3))

text \<open>
  C31: The check always ends, and admits a proposal exactly when its card was never delivered, its
  validity and session are open, and the fresh preview of every rung succeeds, repeats the stored price
  and quantity and reports a market the limit does not cross; no earlier button of an admitted proposal
  can be clicked.
\<close>

theorem redispatch_repeats_the_stored_order:
  assumes "get_proposal pid s = Inr (grp, rungs)"
  shows "\<exists>v window. validate_proposal_redispatch grp rungs ans = Inr v \<and> boundary_at grp None False (rd_window ans) = Inr window \<and>
    ((\<exists>d ps. v = Eligible d ps) \<longleftrightarrow>
       undelivered grp rungs \<and> window_allowed window \<and> (\<forall>r \<in> set rungs. repeats_order ans r)) \<and>
    ((\<exists>d ps. v = Eligible d ps) \<longrightarrow> (\<forall>cb. \<not> is_ok (preflight_published_proposal_callback pid cb s)))"
proof -
  obtain window where window: "boundary_at grp None False (rd_window ans) = Inr window" using boundary_total by blast
  have g: "get_group_by_proposal_id s pid = Some grp" using get_proposal_rows(1) [OF assms] .
  have closed: "\<forall>cb. \<not> is_ok (preflight_published_proposal_callback pid cb s)" if "undelivered grp rungs"
    using no_nonce_no_click [OF _ g] that by (auto simp: undelivered_def is_ok_iff)
  show ?thesis
  proof (cases "undelivered grp rungs")
    case False
    then obtain code where "column_block grp rungs = Some code" using column_block_None by fastforce
    then show ?thesis using window False by (auto simp: validate_proposal_redispatch_def)
  next
    case True
    then have "column_block grp rungs = None" by (simp add: column_block_None)
    then have "validate_proposal_redispatch grp rungs ans = Inr (if \<not> window_allowed window
        then Blocked (approval_window_failure_code window)
        else (case check_rungs ans rungs of Inl code \<Rightarrow> Blocked code | Inr previews \<Rightarrow> Eligible window previews))"
      by (simp add: validate_proposal_redispatch_def window)
    then show ?thesis
      using window True closed [OF True] check_rungs_ok [of ans rungs]
      by (cases "check_rungs ans rungs") (auto simp: is_ok_def)
  qed
qed

section \<open>A concrete check\<close>

definition failed_group :: order_proposal where
  "failed_group = sample_group\<lparr>g_lifecycle_state := Proposed, g_approval_nonce := None,
     g_approval_dispatch_state := Some DFailed\<rparr>"

definition failed_store :: store where
  "failed_store = sample_store\<lparr>db_groups := [failed_group, old_group], db_rungs := [pending_rung]\<rparr>"

definition sample_redispatch :: redispatch_answers where
  "sample_redispatch = \<lparr>rd_window = open_reading, rd_preview = (\<lambda>_. Inr sample_preview),
     rd_current_price = (\<lambda>_. Some ''71000'')\<rparr>"

theorem redispatch_repeats_the_stored_order_witness:
  "\<exists>d ps. validate_proposal_redispatch failed_group [pending_rung] sample_redispatch = Inr (Eligible d ps)"
proof -
  have gp: "get_proposal ''p0000001'' failed_store = Inr (failed_group, [pending_rung])"
    by (simp add: get_proposal_def get_group_by_proposal_id_def failed_store_def failed_group_def list_rungs_def
        pending_rung_def sample_rung_def sample_group_def new_group_def)
  have u: "undelivered failed_group [pending_rung]"
    by (simp add: undelivered_def failed_group_def REDISPATCHABLE_STATES_def ELIGIBLE_RUNG_STATES_def pending_rung_def
        sample_rung_def sample_group_def new_group_def sample_request_def contract_action_def truthy_def)
  have open_now: "case boundary_at failed_group None False (rd_window sample_redispatch) of
      Inl _ \<Rightarrow> False | Inr d \<Rightarrow> window_allowed d" by code_simp
  have price: "finite_decimal (rd_current_price sample_redispatch i) = Some 71000" for i
    by (simp add: sample_redispatch_def) code_simp
  have "repeats_order sample_redispatch pending_rung"
    using sample_terms price
    by (simp add: repeats_order_def sample_redispatch_def previewed_terms_def crossed_market_def)
       (simp add: pending_rung_def sample_rung_def sample_preview_def)
  then show ?thesis
    using redispatch_repeats_the_stored_order [OF gp, of sample_redispatch] u open_now by auto
qed

end
