(* ===== verification/ExecutionLedger.thy ===== *)
theory ExecutionLedger
  imports BinanceLedger DecimalContext
begin

text \<open>
  The ledger of executed fills (\<open>app/services/execution_ledger/\<close>, \<open>app/models/execution_ledger.py\<close>,
  \<open>app/schemas/execution_ledger.py\<close>): the reading of a broker row, the upsert by the key of a fill, the
  reconciliation run and the seeding of opening lots. A decimal is its value; the text of a decimal is kept
  where it is stored. \<open>datetime.fromisoformat\<close> is the argument \<open>read_iso\<close>.
\<close>

section \<open>Calendar\<close>

text \<open>\<open>strptime\<close> and \<open>strftime\<close> for the format \<open>%Y%m%d\<close>, by the day number of a date.\<close>

definition days_from_civil :: "int \<Rightarrow> int \<Rightarrow> int \<Rightarrow> int" where
  "days_from_civil y m d =
     (let y1 = (if m \<le> 2 then y - 1 else y); era = y1 div 400; yoe = y1 - era * 400;
          doy = (153 * (m + (if m > 2 then - 3 else 9)) + 2) div 5 + d - 1;
          doe = yoe * 365 + yoe div 4 - yoe div 100 + doy
      in era * 146097 + doe - 719468)"

definition civil_from_days :: "int \<Rightarrow> int \<times> int \<times> int" where
  "civil_from_days z =
     (let z1 = z + 719468; era = z1 div 146097; doe = z1 - era * 146097;
          yoe = (doe - doe div 1460 + doe div 36524 - doe div 146096) div 365;
          doy = doe - (365 * yoe + yoe div 4 - yoe div 100);
          mp = (5 * doy + 2) div 153; d = doy - (153 * mp + 2) div 5 + 1;
          m = (if mp < 10 then mp + 3 else mp - 9)
      in (yoe + era * 400 + (if m \<le> 2 then 1 else 0), m, d))"

definition leap_year :: "int \<Rightarrow> bool" where
  "leap_year y \<longleftrightarrow> y mod 4 = 0 \<and> (y mod 100 \<noteq> 0 \<or> y mod 400 = 0)"

definition days_in_month :: "int \<Rightarrow> int \<Rightarrow> int" where
  "days_in_month y m = (if m = 2 then if leap_year y then 29 else 28 else if m \<in> {4, 6, 9, 11} then 30 else 31)"

definition two_digits :: "int \<Rightarrow> string" where
  "two_digits n = (if n < 10 then ''0'' else []) @ show_int n"

definition day_text :: "int \<Rightarrow> string" where
  "day_text z = (let (y, m, d) = civil_from_days z in show_int y @ two_digits m @ two_digits d)"

definition all_digits :: "string \<Rightarrow> bool" where
  "all_digits s \<longleftrightarrow> s \<noteq> [] \<and> (\<forall>c \<in> set s. is_digit c)"

definition number_at :: "nat \<Rightarrow> nat \<Rightarrow> string \<Rightarrow> int" where
  "number_at start n s = int (digits_value (take n (drop start s)))"

definition read_day :: "string \<Rightarrow> int option" where
  "read_day s =
     (let y = number_at 0 4 s; m = number_at 4 2 s; d = number_at 6 2 s in
      if 1 \<le> y \<and> 1 \<le> m \<and> m \<le> 12 \<and> 1 \<le> d \<and> d \<le> days_in_month y m then Some (days_from_civil y m d) else None)"

definition read_time :: "string \<Rightarrow> int option" where
  "read_time s =
     (let h = number_at 0 2 s; m = number_at 2 2 s; sec = number_at 4 2 s in
      if h < 24 \<and> m < 60 \<and> sec < 60 then Some (seconds (h * 3600 + m * 60 + sec)) else None)"

definition at_kst :: "int \<Rightarrow> int \<Rightarrow> int" where
  "at_kst day time = days day + time - kst_offset"

definition trade_day_kst :: "int \<Rightarrow> string" where
  "trade_day_kst t = day_text ((t + kst_offset) div days 1)"

section \<open>Fills\<close>

datatype exec_error =
    InvalidFill string
  | BadFilledAt string
  | FillSeqOutOfRange
  | FillOverflow
  | CkFill string
  | FetchErrors string
  | CommitDisabled
  | BadRunWindow

record exec_fill =
  xf_broker :: string
  xf_account_mode :: string
  xf_venue :: string
  xf_instrument_type :: string
  xf_symbol :: string
  xf_raw_symbol :: string
  xf_side :: string
  xf_broker_order_id :: string
  xf_fill_seq :: int
  xf_filled_qty :: rat
  xf_filled_price :: rat
  xf_filled_notional :: rat
  xf_fee_amount :: "rat option"
  xf_fee_currency :: "string option"
  xf_filled_at :: int
  xf_currency :: string
  xf_correlation_id :: "string option"
  xf_source :: string
  xf_source_run_id :: "string option"
  xf_raw_payload :: "dict option"

definition strip_non_empty :: "string \<Rightarrow> string \<Rightarrow> (exec_error, string) result" where
  "strip_non_empty name v = (let t = strip v in if t = [] then Inl (InvalidFill name) else Inr t)"

text \<open>The validation of \<open>ExecutionLedgerUpsert\<close>; a missing notional is computed from the validated values.\<close>

definition upsert_model :: "exec_fill \<Rightarrow> rat option \<Rightarrow> (exec_error, exec_fill) result" where
  "upsert_model f notional =
     bindR (require (xf_broker f \<in> {''kis'', ''upbit'', ''toss''}) (InvalidFill ''broker'')) (\<lambda>_.
     bindR (require (xf_account_mode f \<in> {''live'', ''mock''}) (InvalidFill ''account_mode'')) (\<lambda>_.
     bindR (strip_non_empty ''venue'' (xf_venue f)) (\<lambda>venue.
     bindR (require (xf_instrument_type f \<in> {''equity_kr'', ''equity_us'', ''crypto''})
              (InvalidFill ''instrument_type'')) (\<lambda>_.
     bindR (strip_non_empty ''symbol'' (xf_symbol f)) (\<lambda>symbol.
     bindR (strip_non_empty ''raw_symbol'' (xf_raw_symbol f)) (\<lambda>raw_symbol.
     bindR (require (xf_side f \<in> {''buy'', ''sell''}) (InvalidFill ''side'')) (\<lambda>_.
     bindR (strip_non_empty ''broker_order_id'' (xf_broker_order_id f)) (\<lambda>order_id.
     bindR (require (0 \<le> xf_fill_seq f) (InvalidFill ''fill_seq'')) (\<lambda>_.
     bindR (require (0 < xf_filled_qty f) (InvalidFill ''filled_qty'')) (\<lambda>_.
     bindR (require (0 < xf_filled_price f) (InvalidFill ''filled_price'')) (\<lambda>_.
     bindR (require (case notional of None \<Rightarrow> True | Some n \<Rightarrow> 0 \<le> n) (InvalidFill ''filled_notional'')) (\<lambda>_.
     bindR (require (case xf_fee_amount f of None \<Rightarrow> True | Some n \<Rightarrow> 0 \<le> n) (InvalidFill ''fee_amount'')) (\<lambda>_.
     bindR (require (xf_currency f \<in> {''KRW'', ''USD''}) (InvalidFill ''currency'')) (\<lambda>_.
     bindR (require (xf_source f \<in> {''reconciler'', ''websocket'', ''manual_import''}) (InvalidFill ''source'')) (\<lambda>_.
     Inr (f\<lparr>xf_venue := venue, xf_symbol := symbol, xf_raw_symbol := raw_symbol, xf_broker_order_id := order_id,
       xf_filled_notional := (case notional of None \<Rightarrow> dec28 (xf_filled_qty f * xf_filled_price f) | Some n \<Rightarrow> n)\<rparr>))))))))))))))))"

section \<open>Reading a normalised broker row\<close>

text \<open>A row as \<open>normalize_*\<close> leave it; the numbers are the texts that \<open>str\<close> gives of them.\<close>

record fill_row =
  fr_venue :: "string option"
  fr_instrument_type :: string
  fr_symbol :: string
  fr_raw_symbol :: "string option"
  fr_side :: string
  fr_order_id :: string
  fr_fill_seq :: int
  fr_quantity :: "string option"
  fr_price :: "string option"
  fr_total_amount :: "string option"
  fr_fee :: "string option"
  fr_currency :: string
  fr_filled_at :: string
  fr_ord_dt :: "string option"
  fr_ord_tmd :: "string option"
  fr_correlation_id :: "string option"
  fr_raw_payload :: "dict option"

text \<open>What is no number reads as zero; infinities and NaN are refused by the model of the upsert.\<close>

definition to_decimal :: "string option \<Rightarrow> pydecimal" where
  "to_decimal v = (if truthy v then case parse_decimal (the v) of None \<Rightarrow> Dec False 0 0 | Some d \<Rightarrow> d else Dec False 0 0)"

definition finite_value :: "string \<Rightarrow> pydecimal \<Rightarrow> (exec_error, rat) result" where
  "finite_value name d = (if is_finite d then Inr (dec_value d) else Inl (InvalidFill name))"

definition parse_kis_order_timestamp :: "string option \<Rightarrow> string option \<Rightarrow> (exec_error, int) result" where
  "parse_kis_order_timestamp ord_dt ord_tmd =
     (let date_text = strip (case ord_dt of None \<Rightarrow> [] | Some d \<Rightarrow> d);
          time_text = strip (if truthy ord_tmd then the ord_tmd else ''000000'') in
      if length date_text \<noteq> 8 \<or> \<not> all_digits date_text then Inl (BadFilledAt ''ord_dt is invalid'')
      else if length time_text < 6 \<or> \<not> all_digits (take 6 time_text) then Inl (BadFilledAt ''ord_tmd is invalid'')
      else case (read_day date_text, read_time (take 6 time_text)) of
             (Some day, Some time) \<Rightarrow> Inr (at_kst day time)
           | _ \<Rightarrow> Inl (BadFilledAt ''KIS order timestamp is invalid''))"

definition iso_text :: "string \<Rightarrow> string" where
  "iso_text s = concat (map (\<lambda>c. if c = CHR ''Z'' then ''+00:00'' else [c]) s)"

fun as_kst :: "pydatetime \<Rightarrow> int" where
  "as_kst (Naive t) = t - kst_offset"
| "as_kst (Aware t) = t"

definition read_filled_at_text :: "(string \<Rightarrow> pydatetime option) \<Rightarrow> string \<Rightarrow> (exec_error, int) result" where
  "read_filled_at_text read_iso s =
     (case read_iso (iso_text s) of
        Some t \<Rightarrow> Inr (as_kst t)
      | None \<Rightarrow>
          if length s = 8 \<and> all_digits s
          then case read_day s of Some day \<Rightarrow> Inr (at_kst day 0) | None \<Rightarrow> Inl (BadFilledAt ''invalid filled_at'')
          else Inl (BadFilledAt ''invalid filled_at''))"

definition parse_filled_at ::
  "(string \<Rightarrow> pydatetime option) \<Rightarrow> string \<Rightarrow> string option \<Rightarrow> string option \<Rightarrow> (exec_error, int) result" where
  "parse_filled_at read_iso v ord_dt ord_tmd =
     (let s = strip v in
      bindR (if s = [] then parse_kis_order_timestamp ord_dt ord_tmd else read_filled_at_text read_iso s) (\<lambda>t.
      if truthy ord_dt \<and> trade_day_kst t \<noteq> strip (the ord_dt) then Inl (BadFilledAt ''KST trade day mismatch'')
      else Inr t))"

definition to_execution_ledger_upsert ::
  "(string \<Rightarrow> pydatetime option) \<Rightarrow> string \<Rightarrow> string option \<Rightarrow> fill_row \<Rightarrow> (exec_error, exec_fill) result" where
  "to_execution_ledger_upsert read_iso broker source_run_id row =
     bindR (parse_filled_at read_iso (fr_filled_at row) (fr_ord_dt row) (fr_ord_tmd row)) (\<lambda>filled_at.
     bindR (finite_value ''filled_qty'' (to_decimal (fr_quantity row))) (\<lambda>qty.
     bindR (finite_value ''filled_price'' (to_decimal (fr_price row))) (\<lambda>price.
     bindR (finite_value ''filled_notional'' (to_decimal (fr_total_amount row))) (\<lambda>notional.
     bindR (case fr_fee row of None \<Rightarrow> Inr None
            | Some fee \<Rightarrow> bindR (finite_value ''fee_amount'' (to_decimal (Some fee))) (\<lambda>x. Inr (Some x))) (\<lambda>fee.
     upsert_model
       \<lparr>xf_broker = broker, xf_account_mode = ''live'',
        xf_venue = (if truthy (fr_venue row) then the (fr_venue row) else if broker = ''upbit'' then ''upbit_krw'' else ''krx''),
        xf_instrument_type = fr_instrument_type row, xf_symbol = fr_symbol row,
        xf_raw_symbol = (if truthy (fr_raw_symbol row) then the (fr_raw_symbol row) else fr_symbol row),
        xf_side = fr_side row, xf_broker_order_id = fr_order_id row, xf_fill_seq = fr_fill_seq row,
        xf_filled_qty = qty, xf_filled_price = price, xf_filled_notional = notional, xf_fee_amount = fee,
        xf_fee_currency = Some (fr_currency row), xf_filled_at = filled_at, xf_currency = fr_currency row,
        xf_correlation_id = fr_correlation_id row, xf_source = ''reconciler'', xf_source_run_id = source_run_id,
        xf_raw_payload = fr_raw_payload row\<rparr>
       (Some notional))))))"

section \<open>Tables\<close>

record exec_row = exec_fill +
  xr_id :: int
  xr_created_at :: int
  xr_updated_at :: int

record ledger_run =
  lr_run_id :: string
  lr_broker :: string
  lr_window_start :: int
  lr_window_end :: int
  lr_finished_at :: int
  lr_dry_run :: bool
  lr_would_insert :: nat
  lr_would_update :: nat
  lr_unchanged :: nat
  lr_committed_insert :: nat
  lr_committed_update :: nat
  lr_error_summary :: "string option"
  lr_notes :: "string option"
  lr_started_at :: int

text \<open>\<open>xd_now\<close> is \<open>now()\<close> of the transaction, \<open>xd_next_id\<close> the sequence of the primary key.\<close>

record exec_db =
  xd_rows :: "exec_row list"
  xd_runs :: "ledger_run list"
  xd_next_id :: int
  xd_now :: int

type_synonym row_key = "string \<times> string \<times> string \<times> string \<times> int"

definition fill_key :: "('a) exec_fill_scheme \<Rightarrow> row_key" where
  "fill_key f = (xf_broker f, xf_account_mode f, xf_venue f, xf_broker_order_id f, xf_fill_seq f)"

definition MAX_SQL_INT32 :: int where "MAX_SQL_INT32 = 2147483647"

text \<open>The constraints of the table, in its order.\<close>

definition ck_violation :: "exec_fill \<Rightarrow> string option" where
  "ck_violation f =
     (if xf_broker f \<notin> {''kis'', ''upbit'', ''toss''} then Some ''execution_ledger_broker''
      else if xf_account_mode f \<notin> {''live'', ''mock''} then Some ''execution_ledger_account_mode''
      else if xf_side f \<notin> {''buy'', ''sell''} then Some ''execution_ledger_side''
      else if xf_currency f \<notin> {''KRW'', ''USD''} then Some ''execution_ledger_currency''
      else if xf_source f \<notin> {''reconciler'', ''websocket'', ''manual_import''} then Some ''execution_ledger_source''
      else if xf_fill_seq f < 0 then Some ''execution_ledger_fill_seq_nonnegative''
      else if \<not> 0 < xf_filled_qty f then Some ''execution_ledger_filled_qty_positive''
      else if \<not> 0 < xf_filled_price f then Some ''execution_ledger_filled_price_positive''
      else None)"

definition column :: "nat \<Rightarrow> rat \<Rightarrow> (exec_error, rat) result" where
  "column scale x = of_option FillOverflow (pg_round 20 scale x)"

fun optional_column :: "nat \<Rightarrow> rat option \<Rightarrow> (exec_error, rat option) result" where
  "optional_column scale None = Inr None"
| "optional_column scale (Some x) = bindR (column scale x) (\<lambda>y. Inr (Some y))"

text \<open>The columns of a fill as the table keeps them.\<close>

definition stored_fill :: "exec_fill \<Rightarrow> (exec_error, exec_fill) result" where
  "stored_fill f =
     bindR (column 8 (xf_filled_qty f)) (\<lambda>qty.
     bindR (column 8 (xf_filled_price f)) (\<lambda>price.
     bindR (column 4 (xf_filled_notional f)) (\<lambda>notional.
     bindR (optional_column 4 (xf_fee_amount f)) (\<lambda>fee.
     let g = f\<lparr>xf_filled_qty := qty, xf_filled_price := price, xf_filled_notional := notional, xf_fee_amount := fee\<rparr> in
     case ck_violation g of Some c \<Rightarrow> Inl (CkFill c) | None \<Rightarrow> Inr g))))"

definition as_row :: "exec_fill \<Rightarrow> int \<Rightarrow> int \<Rightarrow> int \<Rightarrow> exec_row" where
  "as_row f i created updated = exec_fill.extend f \<lparr>xr_id = i, xr_created_at = created, xr_updated_at = updated\<rparr>"

section \<open>The repository\<close>

datatype upsert_status = UInserted | UUpdated | UUnchanged

definition row_at :: "row_key \<Rightarrow> exec_db \<Rightarrow> exec_row option" where
  "row_at k db = find (\<lambda>r. fill_key r = k) (xd_rows db)"

text \<open>A sequence number beyond the column's type fails in the driver, before the query runs.\<close>

definition get_by_key :: "exec_fill \<Rightarrow> exec_db \<Rightarrow> (exec_error, exec_row option) result" where
  "get_by_key f db = (if MAX_SQL_INT32 < xf_fill_seq f then Inl FillSeqOutOfRange else Inr (row_at (fill_key f) db))"

definition has_fill_for_order :: "string \<Rightarrow> string \<Rightarrow> string \<Rightarrow> string \<Rightarrow> exec_db \<Rightarrow> bool" where
  "has_fill_for_order broker mode venue order_id db \<longleftrightarrow>
     list_ex (\<lambda>r. xf_broker r = broker \<and> xf_account_mode r = mode \<and> xf_venue r = venue \<and> xf_broker_order_id r = order_id)
       (xd_rows db)"

definition payload_equal :: "dict option \<Rightarrow> dict option \<Rightarrow> bool" where
  "payload_equal a b = (case (a, b) of
     (None, None) \<Rightarrow> True | (Some x, Some y) \<Rightarrow> json_eq (JObj x) (JObj y) | _ \<Rightarrow> False)"

text \<open>\<open>COMPARE_COLUMNS\<close>.\<close>

definition values_differ :: "exec_row \<Rightarrow> exec_fill \<Rightarrow> bool" where
  "values_differ row fill \<longleftrightarrow>
     \<not> (xf_account_mode row = xf_account_mode fill \<and> xf_venue row = xf_venue fill \<and>
        xf_instrument_type row = xf_instrument_type fill \<and> xf_symbol row = xf_symbol fill \<and>
        xf_raw_symbol row = xf_raw_symbol fill \<and> xf_side row = xf_side fill \<and>
        xf_filled_qty row = xf_filled_qty fill \<and> xf_filled_price row = xf_filled_price fill \<and>
        xf_filled_notional row = xf_filled_notional fill \<and> xf_fee_amount row = xf_fee_amount fill \<and>
        xf_fee_currency row = xf_fee_currency fill \<and> xf_filled_at row = xf_filled_at fill \<and>
        xf_currency row = xf_currency fill \<and> xf_correlation_id row = xf_correlation_id fill \<and>
        xf_source row = xf_source fill \<and> xf_source_run_id row = xf_source_run_id fill \<and>
        payload_equal (xf_raw_payload row) (xf_raw_payload fill))"

definition classify_fill :: "exec_fill \<Rightarrow> exec_db \<Rightarrow> (exec_error, upsert_status) result" where
  "classify_fill fill db =
     bindR (get_by_key fill db) (\<lambda>existing.
     case existing of None \<Rightarrow> Inr UInserted
     | Some row \<Rightarrow> Inr (if values_differ row fill then UUpdated else UUnchanged))"

definition write_fill :: "exec_fill \<Rightarrow> int \<Rightarrow> exec_db \<Rightarrow> exec_db \<times> int" where
  "write_fill g now db =
     (case row_at (fill_key g) db of
        None \<Rightarrow>
          (db\<lparr>xd_rows := xd_rows db @ [as_row g (xd_next_id db) (xd_now db) (xd_now db)],
              xd_next_id := xd_next_id db + 1\<rparr>, xd_next_id db)
      | Some row \<Rightarrow>
          (db\<lparr>xd_rows := write_row fill_key (as_row g (xr_id row) (xr_created_at row) now) (xd_rows db),
              xd_next_id := xd_next_id db + 1\<rparr>, xr_id row))"

definition upsert_fill :: "exec_fill \<Rightarrow> int \<Rightarrow> exec_db \<Rightarrow> (exec_error, exec_db \<times> upsert_status \<times> int) result" where
  "upsert_fill fill now db =
     bindR (classify_fill fill db) (\<lambda>status.
     if status = UUnchanged then
       bindR (get_by_key fill db) (\<lambda>existing. Inr (db, UUnchanged, case existing of Some row \<Rightarrow> xr_id row | None \<Rightarrow> 0))
     else
       bindR (stored_fill fill) (\<lambda>g. let (db1, i) = write_fill g now db in Inr (db1, status, i)))"

section \<open>A reconciliation run\<close>

record reconcile_diff =
  df_would_insert :: nat
  df_would_update :: nat
  df_unchanged :: nat
  df_committed_insert :: nat
  df_committed_update :: nat
  df_sample_inserts :: "exec_fill list"
  df_sample_updates :: "exec_fill list"

definition empty_diff :: reconcile_diff where
  "empty_diff = \<lparr>df_would_insert = 0, df_would_update = 0, df_unchanged = 0, df_committed_insert = 0,
     df_committed_update = 0, df_sample_inserts = [], df_sample_updates = []\<rparr>"

definition add_sample :: "exec_fill \<Rightarrow> exec_fill list \<Rightarrow> exec_fill list" where
  "add_sample f xs = (if length xs < 10 then xs @ [f\<lparr>xf_raw_payload := None\<rparr>] else xs)"

definition count_status :: "upsert_status \<Rightarrow> exec_fill \<Rightarrow> reconcile_diff \<Rightarrow> reconcile_diff" where
  "count_status status fill d = (case status of
     UInserted \<Rightarrow> d\<lparr>df_would_insert := df_would_insert d + 1, df_sample_inserts := add_sample fill (df_sample_inserts d)\<rparr>
   | UUpdated \<Rightarrow> d\<lparr>df_would_update := df_would_update d + 1, df_sample_updates := add_sample fill (df_sample_updates d)\<rparr>
   | UUnchanged \<Rightarrow> d\<lparr>df_unchanged := df_unchanged d + 1\<rparr>)"

definition count_committed :: "upsert_status \<Rightarrow> reconcile_diff \<Rightarrow> reconcile_diff" where
  "count_committed status d = (case status of
     UInserted \<Rightarrow> d\<lparr>df_committed_insert := df_committed_insert d + 1\<rparr>
   | UUpdated \<Rightarrow> d\<lparr>df_committed_update := df_committed_update d + 1\<rparr>
   | UUnchanged \<Rightarrow> d)"

text \<open>The loop over the fills, with what it had done when a step raised; \<open>clock\<close> gives the time of each write.\<close>

fun reconcile_fills ::
  "bool \<Rightarrow> (nat \<Rightarrow> int) \<Rightarrow> nat \<Rightarrow> exec_fill list \<Rightarrow> exec_db \<Rightarrow> reconcile_diff \<Rightarrow> exec_db \<times> reconcile_diff \<times> exec_error option" where
  "reconcile_fills dry_run clock n [] db d = (db, d, None)"
| "reconcile_fills dry_run clock n (fill # fills) db d =
     (case classify_fill fill db of
        Inl e \<Rightarrow> (db, d, Some e)
      | Inr status \<Rightarrow>
          let d1 = count_status status fill d in
          if dry_run \<or> status = UUnchanged then reconcile_fills dry_run clock (Suc n) fills db d1
          else case upsert_fill fill (clock n) db of
                 Inl e \<Rightarrow> (db, d1, Some e)
               | Inr (db1, committed, _) \<Rightarrow> reconcile_fills dry_run clock (Suc n) fills db1 (count_committed committed d1))"

text \<open>The rows of the fetcher: malformed times are skipped, any other invalid row ends the run.\<close>

fun read_rows ::
  "(string \<Rightarrow> pydatetime option) \<Rightarrow> string \<Rightarrow> string option \<Rightarrow> fill_row list \<Rightarrow> (exec_error, exec_fill list) result" where
  "read_rows read_iso broker run_id [] = Inr []"
| "read_rows read_iso broker run_id (row # rows) =
     (case to_execution_ledger_upsert read_iso broker run_id row of
        Inl (BadFilledAt _) \<Rightarrow> read_rows read_iso broker run_id rows
      | Inl e \<Rightarrow> Inl e
      | Inr fill \<Rightarrow> bindR (read_rows read_iso broker run_id rows) (\<lambda>fills. Inr (fill # fills)))"

text \<open>What the fetcher of filled orders returned: its orders and the text of its errors.\<close>

record fetch_result =
  fe_orders :: "fill_row list"
  fe_errors :: "string option"

definition fetch_normalized ::
  "(string \<Rightarrow> pydatetime option) \<Rightarrow> string \<Rightarrow> string option \<Rightarrow> fetch_result \<Rightarrow> (exec_error, exec_fill list) result" where
  "fetch_normalized read_iso broker run_id fetched =
     (case fe_errors fetched of Some e \<Rightarrow> Inl (FetchErrors e)
      | None \<Rightarrow> read_rows read_iso broker run_id (fe_orders fetched))"

definition resolve_run_window :: "int \<Rightarrow> int \<Rightarrow> int option \<Rightarrow> int option \<Rightarrow> (exec_error, int \<times> int) result" where
  "resolve_run_window now window_hours start_at end_at =
     (let window_end = (case end_at of None \<Rightarrow> now | Some t \<Rightarrow> t);
          window_start = (case start_at of None \<Rightarrow> window_end - hours window_hours | Some t \<Rightarrow> t) in
      if window_end \<le> window_start then Inl BadRunWindow else Inr (window_start, window_end))"

text \<open>What a run reads: the flag, its window, the answer of the broker, its clocks and the text of an error.\<close>

record run_request =
  rq_commit_enabled :: bool
  rq_run_id :: string
  rq_broker :: string
  rq_now :: int
  rq_window_hours :: int
  rq_start_at :: "int option"
  rq_end_at :: "int option"
  rq_dry_run :: bool
  rq_fetched :: fetch_result
  rq_clock :: "nat \<Rightarrow> int"
  rq_finished_at :: int
  rq_error_text :: "exec_error \<Rightarrow> string"

definition record_run :: "run_request \<Rightarrow> int \<Rightarrow> int \<Rightarrow> reconcile_diff \<Rightarrow> exec_error option \<Rightarrow> exec_db \<Rightarrow> exec_db" where
  "record_run q window_start window_end d e db = db\<lparr>xd_runs := xd_runs db @ [
     \<lparr>lr_run_id = rq_run_id q, lr_broker = rq_broker q, lr_window_start = window_start, lr_window_end = window_end,
      lr_finished_at = rq_finished_at q, lr_dry_run = rq_dry_run q, lr_would_insert = df_would_insert d,
      lr_would_update = df_would_update d, lr_unchanged = df_unchanged d, lr_committed_insert = df_committed_insert d,
      lr_committed_update = df_committed_update d, lr_error_summary = map_option (rq_error_text q) e,
      lr_notes = (if rq_dry_run q then Some ''commit disabled'' else None), lr_started_at = xd_now db\<rparr>]\<rparr>"

text \<open>\<open>run\<close> gives the session it leaves behind and its result.\<close>

definition run_reconciler ::
  "(string \<Rightarrow> pydatetime option) \<Rightarrow> run_request \<Rightarrow> exec_db \<Rightarrow> exec_db \<times> (exec_error, reconcile_diff) result" where
  "run_reconciler read_iso q db =
     (if \<not> rq_dry_run q \<and> \<not> rq_commit_enabled q then (db, Inl CommitDisabled)
      else case resolve_run_window (rq_now q) (rq_window_hours q) (rq_start_at q) (rq_end_at q) of
        Inl e \<Rightarrow> (db, Inl e)
      | Inr (window_start, window_end) \<Rightarrow>
          (case fetch_normalized read_iso (rq_broker q) (Some (rq_run_id q)) (rq_fetched q) of
             Inl e \<Rightarrow> (record_run q window_start window_end empty_diff (Some e) db, Inl e)
           | Inr fills \<Rightarrow>
               (case reconcile_fills (rq_dry_run q) (rq_clock q) 0 fills db empty_diff of
                  (db1, d, e) \<Rightarrow> (record_run q window_start window_end d e db1,
                                  case e of None \<Rightarrow> Inr d | Some x \<Rightarrow> Inl x))))"

text \<open>The task around it: the session is committed, or rolled back when a committing run raised.\<close>

definition reconcile_task ::
  "(string \<Rightarrow> pydatetime option) \<Rightarrow> run_request \<Rightarrow> exec_db \<Rightarrow> exec_db \<times> (exec_error, reconcile_diff) result" where
  "reconcile_task read_iso q db =
     (let q1 = q\<lparr>rq_dry_run := \<not> rq_commit_enabled q\<rparr> in
      case run_reconciler read_iso q1 db of
        (db1, Inl e) \<Rightarrow> (if rq_dry_run q1 then db1 else db, Inl e)
      | (db1, Inr d) \<Rightarrow> (db1, Inr d))"

section \<open>Opening lots\<close>

type_synonym match_key = "string \<times> string \<times> string \<times> string \<times> string \<times> string"

definition ledger_match_key :: "('a) exec_fill_scheme \<Rightarrow> match_key" where
  "ledger_match_key f =
     (xf_broker f, xf_account_mode f, xf_venue f, xf_instrument_type f, xf_symbol f, xf_currency f)"

definition signed_qty :: "('a) exec_fill_scheme \<Rightarrow> rat" where
  "signed_qty f = (if xf_side f = ''buy'' then xf_filled_qty f else - xf_filled_qty f)"

definition counted_since :: "int \<Rightarrow> exec_db \<Rightarrow> match_key \<Rightarrow> exec_row list" where
  "counted_since cutover db k =
     filter (\<lambda>r. cutover \<le> xf_filled_at r \<and> xf_source r \<noteq> ''manual_import'' \<and> ledger_match_key r = k) (xd_rows db)"

definition net_quantity_since :: "int \<Rightarrow> exec_db \<Rightarrow> match_key \<Rightarrow> rat option" where
  "net_quantity_since cutover db k =
     (let rows = counted_since cutover db k in if rows = [] then None else Some (\<Sum>r\<leftarrow>rows. signed_qty r))"

record lot_candidate =
  oc_broker :: string
  oc_account_mode :: string
  oc_venue :: string
  oc_instrument_type :: string
  oc_symbol :: string
  oc_raw_symbol :: string
  oc_currency :: string
  oc_current_qty :: pydecimal
  oc_avg_price :: pydecimal
  oc_avg_price_modified :: bool

datatype skip_reason = CoveredByLedgerNet | NonPositiveCurrentQty | NonPositiveAvgPrice | UpbitAvgPriceModified

definition candidate_key :: "lot_candidate \<Rightarrow> match_key" where
  "candidate_key c =
     (oc_broker c, oc_account_mode c, oc_venue c, oc_instrument_type c, oc_symbol c, oc_currency c)"

definition seed_order_id :: "lot_candidate \<Rightarrow> int \<Rightarrow> string" where
  "seed_order_id c cutover =
     ''SEED-'' @ day_text (cutover div days 1) @ ''-'' @ oc_broker c @ ''-'' @ oc_venue c @ ''-'' @ oc_symbol c"

text \<open>The text of a sum over a column with eight decimals, and of the default.\<close>

definition net_text :: "rat option \<Rightarrow> string" where
  "net_text net = (case net of None \<Rightarrow> ''0'' | Some x \<Rightarrow> dec_str (Dec (x < 0) (nat \<lfloor>\<bar>x\<bar> * 10 ^ 8\<rfloor>) (- 8)))"

definition opening_lot :: "(int \<Rightarrow> string) \<Rightarrow> int \<Rightarrow> lot_candidate \<Rightarrow> rat option \<Rightarrow> rat \<Rightarrow> (exec_error, exec_fill) result" where
  "opening_lot show_iso cutover c net opening_qty =
     upsert_model
       \<lparr>xf_broker = oc_broker c, xf_account_mode = oc_account_mode c, xf_venue = oc_venue c,
        xf_instrument_type = oc_instrument_type c, xf_symbol = oc_symbol c, xf_raw_symbol = oc_raw_symbol c,
        xf_side = ''buy'', xf_broker_order_id = seed_order_id c cutover, xf_fill_seq = 0,
        xf_filled_qty = opening_qty, xf_filled_price = dec_value (oc_avg_price c), xf_filled_notional = 0,
        xf_fee_amount = None, xf_fee_currency = None, xf_filled_at = cutover, xf_currency = oc_currency c,
        xf_correlation_id = None, xf_source = ''manual_import'', xf_source_run_id = None,
        xf_raw_payload = Some [(''seed_kind'', JStr ''opening_lot''), (''current_qty'', JStr (dec_str (oc_current_qty c))),
          (''ledger_net_qty'', JStr (net_text net)), (''cutover'', JStr (show_iso cutover))]\<rparr>
       None"

definition lot_decision :: "lot_candidate \<Rightarrow> rat option \<Rightarrow> (skip_reason, rat) result" where
  "lot_decision c net =
     (let qty = dec_value (oc_current_qty c); opening_qty = dec28 (qty - (case net of None \<Rightarrow> 0 | Some x \<Rightarrow> x)) in
      if qty \<le> 0 then Inl NonPositiveCurrentQty
      else if dec_value (oc_avg_price c) \<le> 0 then Inl NonPositiveAvgPrice
      else if oc_broker c = ''upbit'' \<and> oc_avg_price_modified c then Inl UpbitAvgPriceModified
      else if opening_qty \<le> 0 then Inl CoveredByLedgerNet
      else Inr opening_qty)"

record lot_plan =
  lp_upserts :: "exec_fill list"
  lp_skipped :: "(match_key \<times> skip_reason) list"

definition plan_step ::
  "(int \<Rightarrow> string) \<Rightarrow> int \<Rightarrow> (match_key \<Rightarrow> rat option) \<Rightarrow> lot_plan \<Rightarrow> lot_candidate \<Rightarrow> (exec_error, lot_plan) result" where
  "plan_step show_iso cutover net plan c =
     (let n = net (candidate_key c) in
      case lot_decision c n of
        Inl reason \<Rightarrow> Inr (plan\<lparr>lp_skipped := lp_skipped plan @ [(candidate_key c, reason)]\<rparr>)
      | Inr qty \<Rightarrow> bindR (opening_lot show_iso cutover c n qty) (\<lambda>f. Inr (plan\<lparr>lp_upserts := lp_upserts plan @ [f]\<rparr>)))"

definition build_opening_lot_plan ::
  "(int \<Rightarrow> string) \<Rightarrow> lot_candidate list \<Rightarrow> (match_key \<Rightarrow> rat option) \<Rightarrow> int \<Rightarrow> (exec_error, lot_plan) result" where
  "build_opening_lot_plan show_iso candidates net cutover =
     foldR (plan_step show_iso cutover net) \<lparr>lp_upserts = [], lp_skipped = []\<rparr> candidates"

text \<open>The script that seeds: the loop is that of a run; a raise leaves the session uncommitted.\<close>

definition seed_opening_lots ::
  "(int \<Rightarrow> string) \<Rightarrow> bool \<Rightarrow> bool \<Rightarrow> (nat \<Rightarrow> int) \<Rightarrow> int \<Rightarrow> lot_candidate list \<Rightarrow> exec_db
   \<Rightarrow> exec_db \<times> (exec_error, lot_plan \<times> reconcile_diff) result" where
  "seed_opening_lots show_iso commit_enabled dry_run clock cutover candidates db =
     (if \<not> dry_run \<and> \<not> commit_enabled then (db, Inl CommitDisabled)
      else case build_opening_lot_plan show_iso candidates (net_quantity_since cutover db) cutover of
        Inl e \<Rightarrow> (db, Inl e)
      | Inr plan \<Rightarrow>
          (case reconcile_fills dry_run clock 0 (lp_upserts plan) db empty_diff of
             (db1, d, Some e) \<Rightarrow> (db, Inl e)
           | (db1, d, None) \<Rightarrow> (if dry_run then db else db1, Inr (plan, d))))"

end
