(* ===== verification/ExecutionSafety.thy ===== *)
theory ExecutionSafety
  imports ExecutionLedger
begin

text \<open>
  What the ledger of fills promises: one row for each fill, a committed run that records what the broker
  reported or nothing, and opening lots that make the ledger add up to the holdings.
\<close>

section \<open>Columns\<close>

lemma column_Inr: "column scale x = Inr y \<longleftrightarrow> pg_round 20 scale x = Some y"
  by (simp add: column_def of_option_eq)

lemma stored_fillI:
  assumes "pg_round 20 8 (xf_filled_qty f) = Some qty" and "pg_round 20 8 (xf_filled_price f) = Some price"
    and "pg_round 20 4 (xf_filled_notional f) = Some notional" and "optional_column 4 (xf_fee_amount f) = Inr fee"
    and "g = f\<lparr>xf_filled_qty := qty, xf_filled_price := price, xf_filled_notional := notional, xf_fee_amount := fee\<rparr>"
    and "ck_violation g = None"
  shows "stored_fill f = Inr g"
  using assms by (simp add: stored_fill_def column_Inr [THEN iffD2])

text \<open>A stored fill differs from the fill in its decimals only.\<close>

lemma stored_fill_Inr:
  assumes "stored_fill f = Inr g"
  obtains qty price notional fee where
    "g = f\<lparr>xf_filled_qty := qty, xf_filled_price := price, xf_filled_notional := notional, xf_fee_amount := fee\<rparr>"
    "pg_round 20 8 (xf_filled_qty f) = Some qty" "pg_round 20 8 (xf_filled_price f) = Some price"
    "pg_round 20 4 (xf_filled_notional f) = Some notional" "optional_column 4 (xf_fee_amount f) = Inr fee"
    "ck_violation g = None"
  using assms by (auto simp: stored_fill_def bindR_eq_Inr column_Inr Let_def split: option.splits)

lemma stored_columns:
  assumes "stored_fill f = Inr g"
  shows "fill_key g = fill_key f" and "ledger_match_key g = ledger_match_key f" and "xf_source g = xf_source f"
    and "xf_side g = xf_side f" and "xf_filled_at g = xf_filled_at f" and "xf_source_run_id g = xf_source_run_id f"
  using assms by (auto elim!: stored_fill_Inr simp: fill_key_def ledger_match_key_def)

lemma stored_qty:
  assumes "stored_fill f = Inr g"
  shows "on_scale 8 (xf_filled_qty g)" and "on_scale 8 (xf_filled_qty f) \<Longrightarrow> xf_filled_qty g = xf_filled_qty f"
  using assms by (auto elim!: stored_fill_Inr dest: pg_round_on_scale pg_round_exact)

lemma stored_again:
  assumes "stored_fill f = Inr g"
  shows "stored_fill g = Inr g"
proof (rule stored_fill_Inr [OF assms])
  fix qty price notional fee
  assume g: "g = f\<lparr>xf_filled_qty := qty, xf_filled_price := price, xf_filled_notional := notional, xf_fee_amount := fee\<rparr>"
    and r: "pg_round 20 8 (xf_filled_qty f) = Some qty" "pg_round 20 8 (xf_filled_price f) = Some price"
      "pg_round 20 4 (xf_filled_notional f) = Some notional" and fee0: "optional_column 4 (xf_fee_amount f) = Inr fee"
    and ck: "ck_violation g = None"
  have fee: "optional_column 4 fee = Inr fee"
    using fee0 by (cases "xf_fee_amount f") (auto simp: bindR_eq_Inr column_Inr dest: pg_round_again)
  have "column 8 qty = Inr qty" "column 8 price = Inr price" "column 4 notional = Inr notional"
    using r [THEN pg_round_again] by (simp_all add: column_Inr)
  then show ?thesis using ck fee unfolding g by (simp add: stored_fill_def)
qed

section \<open>Rows by key\<close>

lemma as_row_simps [simp]:
  "exec_fill.truncate (as_row g i created updated) = g"
  "fill_key (as_row g i created updated) = fill_key g"
  "ledger_match_key (as_row g i created updated) = ledger_match_key g"
  "signed_qty (as_row g i created updated) = signed_qty g"
  "xf_source (as_row g i created updated) = xf_source g" "xf_side (as_row g i created updated) = xf_side g"
  "xf_filled_at (as_row g i created updated) = xf_filled_at g"
  "xf_filled_qty (as_row g i created updated) = xf_filled_qty g"
  "xf_source_run_id (as_row g i created updated) = xf_source_run_id g"
  "xr_id (as_row g i created updated) = i" "xr_created_at (as_row g i created updated) = created"
  by (simp_all add: as_row_def exec_fill.defs exec_row.defs fill_key_def ledger_match_key_def signed_qty_def)

lemma truncate_key [simp]: "fill_key (exec_fill.truncate r) = fill_key r"
  by (simp add: exec_fill.defs fill_key_def)

lemma truncate_columns [simp]:
  "ledger_match_key (exec_fill.truncate r) = ledger_match_key r" "xf_source (exec_fill.truncate r) = xf_source r"
  "xf_side (exec_fill.truncate r) = xf_side r" "xf_filled_at (exec_fill.truncate r) = xf_filled_at r"
  "xf_filled_qty (exec_fill.truncate r) = xf_filled_qty r"
  "xf_source_run_id (exec_fill.truncate r) = xf_source_run_id r"
  by (simp_all add: exec_fill.defs ledger_match_key_def)

text \<open>One row for a key, and every row within its columns and constraints.\<close>

definition wf_exec :: "exec_db \<Rightarrow> bool" where
  "wf_exec db \<longleftrightarrow> distinct (map fill_key (xd_rows db)) \<and>
     (\<forall>r \<in> set (xd_rows db). stored_fill (exec_fill.truncate r) = Inr (exec_fill.truncate r))"

lemma row_at_SomeD: "row_at k db = Some r \<Longrightarrow> r \<in> set (xd_rows db) \<and> fill_key r = k"
  unfolding row_at_def by (drule find_SomeD) simp

lemma row_at_None: "row_at k db = None \<Longrightarrow> k \<notin> fill_key ` set (xd_rows db)"
  by (auto simp: row_at_def find_None_all)

lemma find_append: "find P (xs @ ys) = (case find P xs of None \<Rightarrow> find P ys | Some x \<Rightarrow> Some x)"
  by (induction xs) auto

text \<open>One write, by the key it is for.\<close>

lemma write_fill_at:
  assumes "wf_exec db" and "stored_fill g = Inr g" and "write_fill g now db = (db1, i)"
  shows "wf_exec db1" and "\<exists>created updated. row_at (fill_key g) db1 = Some (as_row g i created updated)"
    and "k \<noteq> fill_key g \<Longrightarrow> row_at k db1 = row_at k db" and "xd_runs db1 = xd_runs db"
    and "length (xd_rows db1) = length (xd_rows db) + (if row_at (fill_key g) db = None then 1 else 0)"
proof -
  have "wf_exec db1 \<and> (\<exists>created updated. row_at (fill_key g) db1 = Some (as_row g i created updated)) \<and>
    (k \<noteq> fill_key g \<longrightarrow> row_at k db1 = row_at k db) \<and> xd_runs db1 = xd_runs db \<and>
    length (xd_rows db1) = length (xd_rows db) + (if row_at (fill_key g) db = None then 1 else 0)"
  proof (cases "row_at (fill_key g) db")
    case None
    then have db1: "db1 = db\<lparr>xd_rows := xd_rows db @ [as_row g i (xd_now db) (xd_now db)], xd_next_id := xd_next_id db + 1\<rparr>"
      using assms(3) by (auto simp: write_fill_def)
    have "find (\<lambda>r. fill_key r = fill_key g) (xd_rows db) = None" using None by (simp add: row_at_def)
    then show ?thesis
      using assms(1,2) row_at_None [OF None] None
      by (auto simp: db1 wf_exec_def row_at_def find_append split: option.splits)
  next
    case (Some row)
    let ?r = "as_row g (xr_id row) (xr_created_at row) now"
    have db1: "db1 = db\<lparr>xd_rows := write_row fill_key ?r (xd_rows db), xd_next_id := xd_next_id db + 1\<rparr>" "i = xr_id row"
      using assms(3) Some by (auto simp: write_fill_def)
    have at1: "row_at (fill_key g) db1 = Some ?r"
      using find_write_row [of fill_key "fill_key g" "xd_rows db" row ?r] Some by (simp add: db1 row_at_def)
    have other: "k \<noteq> fill_key g \<longrightarrow> row_at k db1 = row_at k db"
      using find_write_row_other [of fill_key ?r k "xd_rows db"] by (auto simp: db1 row_at_def)
    have "\<forall>r \<in> set (write_row fill_key ?r (xd_rows db)). stored_fill (exec_fill.truncate r) = Inr (exec_fill.truncate r)"
      using assms(1,2) by (auto simp: wf_exec_def dest!: write_row_set)
    then show ?thesis using at1 other assms(1) Some by (auto simp: db1 wf_exec_def)
  qed
  then show "wf_exec db1" and "\<exists>created updated. row_at (fill_key g) db1 = Some (as_row g i created updated)"
    and "k \<noteq> fill_key g \<Longrightarrow> row_at k db1 = row_at k db" and "xd_runs db1 = xd_runs db"
    and "length (xd_rows db1) = length (xd_rows db) + (if row_at (fill_key g) db = None then 1 else 0)"
    by simp_all
qed

section \<open>The loop of a committing run\<close>

text \<open>The ledger records a fill when its row has the fill's values, or those the columns make of them.\<close>

definition records :: "exec_row \<Rightarrow> exec_fill \<Rightarrow> bool" where
  "records r f \<longleftrightarrow> fill_key r = fill_key f \<and> (\<not> values_differ r f \<or> stored_fill f = Inr (exec_fill.truncate r))"

lemma classify_fill_Inr:
  assumes "classify_fill f db = Inr status"
  shows "xf_fill_seq f \<le> MAX_SQL_INT32"
    and "status = (case row_at (fill_key f) db of None \<Rightarrow> UInserted | Some r \<Rightarrow> if values_differ r f then UUpdated else UUnchanged)"
  using assms by (auto simp: classify_fill_def get_by_key_def bindR_eq_Inr split: if_splits option.splits)

lemma upsert_changed:
  assumes "classify_fill f db = Inr status" and "status \<noteq> UUnchanged"
  shows "upsert_fill f now db =
    bindR (stored_fill f) (\<lambda>g. Inr (fst (write_fill g now db), status, snd (write_fill g now db)))"
  using assms by (cases "stored_fill f") (simp_all add: upsert_fill_def Let_def case_prod_beta)

text \<open>One turn of the loop: the fill is recorded and the rows of other keys are left alone.\<close>

lemma loop_turn:
  assumes "wf_exec db" and "reconcile_fills False clock n (f # fills) db d = (db1, d1, None)"
  obtains db' d' where "reconcile_fills False clock (Suc n) fills db' d' = (db1, d1, None)" "wf_exec db'"
    "\<exists>r. row_at (fill_key f) db' = Some r \<and> records r f" "\<And>k. k \<noteq> fill_key f \<Longrightarrow> row_at k db' = row_at k db"
    "length (xd_rows db') + df_committed_insert d = length (xd_rows db) + df_committed_insert d'"
    "xd_runs db' = xd_runs db"
proof -
  obtain status where c: "classify_fill f db = Inr status" using assms(2) by (auto split: sum.splits)
  note cl = classify_fill_Inr [OF c]
  show ?thesis
  proof (cases "status = UUnchanged")
    case True
    then obtain r where r: "row_at (fill_key f) db = Some r" "\<not> values_differ r f"
      using cl(2) by (auto split: option.splits if_splits)
    then have "\<exists>r. row_at (fill_key f) db = Some r \<and> records r f" by (auto simp: records_def dest: row_at_SomeD)
    moreover have "reconcile_fills False clock (Suc n) fills db (count_status status f d) = (db1, d1, None)"
      using assms(2) c True by simp
    ultimately show ?thesis using that assms(1) True by (simp add: count_status_def)
  next
    case False
    then have up: "upsert_fill f (clock n) db = bindR (stored_fill f) (\<lambda>g. Inr (fst (write_fill g (clock n) db), status, snd (write_fill g (clock n) db)))"
      by (rule upsert_changed [OF c])
    obtain g where st: "stored_fill f = Inr g" using assms(2) c False up by (cases "stored_fill f") auto
    obtain db' i where w: "write_fill g (clock n) db = (db', i)" by (cases "write_fill g (clock n) db")
    have rest: "reconcile_fills False clock (Suc n) fills db' (count_committed status (count_status status f d)) = (db1, d1, None)"
      using assms(2) c False up st w by simp
    note wr = write_fill_at [OF assms(1) stored_again [OF st] w]
    have key: "fill_key g = fill_key f" using stored_columns(1) [OF st] .
    from wr(2) obtain created updated where
      "row_at (fill_key f) db' = Some (as_row g i created updated)" unfolding key by blast
    then have "\<exists>r. row_at (fill_key f) db' = Some r \<and> records r f" using st key by (auto simp: records_def)
    moreover have "row_at (fill_key f) db = None \<longleftrightarrow> status = UInserted"
      using cl(2) by (auto split: option.splits)
    ultimately show ?thesis
      using that [OF rest wr(1) _ _ _ wr(4)] wr(3,5) False unfolding key
      by (cases status) (auto simp: count_committed_def count_status_def)
  qed
qed

lemma commit_loop:
  assumes "wf_exec db" and "reconcile_fills False clock n fills db d = (db1, d1, None)"
  shows "wf_exec db1 \<and> xd_runs db1 = xd_runs db \<and>
    (\<forall>k. case map_of (rev (map (\<lambda>f. (fill_key f, f)) fills)) k of
       None \<Rightarrow> row_at k db1 = row_at k db
     | Some f \<Rightarrow> \<exists>r. row_at k db1 = Some r \<and> records r f) \<and>
    length (xd_rows db1) + df_committed_insert d = length (xd_rows db) + df_committed_insert d1"
  using assms
proof (induction fills arbitrary: n db d)
  case Nil
  then show ?case by simp
next
  case (Cons f fills)
  show ?case
  proof (rule loop_turn [OF Cons.prems])
    fix db' d'
    assume turn: "reconcile_fills False clock (Suc n) fills db' d' = (db1, d1, None)" "wf_exec db'"
      "\<exists>r. row_at (fill_key f) db' = Some r \<and> records r f" "\<And>k. k \<noteq> fill_key f \<Longrightarrow> row_at k db' = row_at k db"
      "length (xd_rows db') + df_committed_insert d = length (xd_rows db) + df_committed_insert d'" "xd_runs db' = xd_runs db"
    note ih = Cons.IH [OF turn(2,1)]
    have "case map_of (rev (map (\<lambda>f. (fill_key f, f)) (f # fills))) k of
       None \<Rightarrow> row_at k db1 = row_at k db
     | Some f \<Rightarrow> \<exists>r. row_at k db1 = Some r \<and> records r f" for k
      using spec [OF conjunct1 [OF conjunct2 [OF conjunct2 [OF ih]]], of k] turn(3) turn(4) [of k]
      by (auto simp: map_add_def split: option.splits)
    then show ?thesis using ih turn(5,6) by simp
  qed
qed

section \<open>A notional of more than four decimals\<close>

text \<open>
  The comparison takes the fill as it came, the column keeps four decimals: the row written for such a fill
  always differs from it, so the same fill is an update every time.
\<close>

lemma rounded_notional_never_settles:
  assumes "stored_fill f = Inr g" and "\<not> on_scale 4 (xf_filled_notional f)"
  shows "values_differ (as_row g i created updated) f"
proof (rule stored_fill_Inr [OF assms(1)])
  fix qty price notional fee
  assume g: "g = f\<lparr>xf_filled_qty := qty, xf_filled_price := price, xf_filled_notional := notional, xf_fee_amount := fee\<rparr>"
    and r: "pg_round 20 4 (xf_filled_notional f) = Some notional"
  have "xf_filled_notional (as_row g i created updated) = notional" by (simp add: as_row_def exec_fill.defs exec_row.defs g)
  moreover have "notional \<noteq> xf_filled_notional f" using pg_round_on_scale [OF r] assms(2) by auto
  ultimately show ?thesis by (simp add: values_differ_def)
qed

section \<open>A committed run\<close>

lemma task_run:
  assumes "rq_commit_enabled q" and "reconcile_task read_iso q db = (db1, Inr d)"
  obtains fills db0 start end_at where
    "fetch_normalized read_iso (rq_broker q) (Some (rq_run_id q)) (rq_fetched q) = Inr fills"
    "resolve_run_window (rq_now q) (rq_window_hours q) (rq_start_at q) (rq_end_at q) = Inr (start, end_at)"
    "reconcile_fills False (rq_clock q) 0 fills db empty_diff = (db0, d, None)"
    "db1 = record_run (q\<lparr>rq_dry_run := False\<rparr>) start end_at d None db0"
  using assms by (auto simp: reconcile_task_def run_reconciler_def Let_def split: sum.splits prod.splits option.splits)

lemma record_run_rows [simp]: "xd_rows (record_run q s e d x db) = xd_rows db"
  by (simp add: record_run_def)

lemma row_at_cong: "xd_rows db = xd_rows db' \<Longrightarrow> row_at k db = row_at k db'"
  by (simp add: row_at_def)

lemma wf_exec_cong: "xd_rows db = xd_rows db' \<Longrightarrow> wf_exec db = wf_exec db'"
  by (simp add: wf_exec_def)

text \<open>
  C27: A committing reconciliation is all or nothing. When it raises, the ledger is what it was. Otherwise the
  ledger has exactly one row for every fill the broker reported, with the values of the last report of that fill
  (or what its columns make of them), no other row was touched, the rows added are the inserts it counted, and
  the run is recorded.
\<close>

theorem reconciliation_records_what_the_broker_reported:
  assumes "wf_exec db" and "rq_commit_enabled q" and "reconcile_task read_iso q db = (db1, result)"
  shows "wf_exec db1 \<and> (case result of
      Inl e \<Rightarrow> db1 = db
    | Inr d \<Rightarrow> \<exists>fills run. fetch_normalized read_iso (rq_broker q) (Some (rq_run_id q)) (rq_fetched q) = Inr fills \<and>
        (\<forall>k. case map_of (rev (map (\<lambda>f. (fill_key f, f)) fills)) k of
           None \<Rightarrow> row_at k db1 = row_at k db
         | Some f \<Rightarrow> \<exists>r. row_at k db1 = Some r \<and> records r f) \<and>
        length (xd_rows db1) = length (xd_rows db) + df_committed_insert d \<and>
        xd_runs db1 = xd_runs db @ [run] \<and> lr_run_id run = rq_run_id q \<and> lr_error_summary run = None)"
proof (cases result)
  case (Inl e)
  then have "db1 = db" using assms(2,3) by (auto simp: reconcile_task_def Let_def split: prod.splits sum.splits)
  then show ?thesis using Inl assms(1) by simp
next
  case (Inr d)
  show ?thesis
  proof (rule task_run [OF assms(2) assms(3) [unfolded Inr]])
    fix fills db0 start end_at
    assume f: "fetch_normalized read_iso (rq_broker q) (Some (rq_run_id q)) (rq_fetched q) = Inr fills"
      and loop: "reconcile_fills False (rq_clock q) 0 fills db empty_diff = (db0, d, None)"
      and db1: "db1 = record_run (q\<lparr>rq_dry_run := False\<rparr>) start end_at d None db0"
    have rows: "xd_rows db1 = xd_rows db0" by (simp add: db1)
    have at1: "row_at k db1 = row_at k db0" for k by (rule row_at_cong [OF rows])
    note l = commit_loop [OF assms(1) loop]
    have run: "\<exists>run. xd_runs db1 = xd_runs db @ [run] \<and> lr_run_id run = rq_run_id q \<and> lr_error_summary run = None"
      using l by (simp add: db1 record_run_def)
    have "wf_exec db1" using l wf_exec_cong [OF rows] by simp
    moreover have "length (xd_rows db1) = length (xd_rows db) + df_committed_insert d"
      using l rows by (simp add: empty_diff_def)
    ultimately show ?thesis using f l run unfolding Inr at1 by auto
  qed
qed

section \<open>Samples\<close>

definition sample_fill :: "string \<Rightarrow> string \<Rightarrow> rat \<Rightarrow> exec_fill" where
  "sample_fill side order_id qty =
     \<lparr>xf_broker = ''kis'', xf_account_mode = ''live'', xf_venue = ''krx'', xf_instrument_type = ''equity_kr'',
      xf_symbol = ''005930'', xf_raw_symbol = ''005930'', xf_side = side, xf_broker_order_id = order_id, xf_fill_seq = 1,
      xf_filled_qty = qty, xf_filled_price = 100, xf_filled_notional = 100 * qty, xf_fee_amount = Some 0,
      xf_fee_currency = Some ''KRW'', xf_filled_at = days 3, xf_currency = ''KRW'', xf_correlation_id = None,
      xf_source = ''reconciler'', xf_source_run_id = Some ''run0'', xf_raw_payload = None\<rparr>"

definition sample_ledger :: exec_db where
  "sample_ledger = \<lparr>xd_rows = [as_row (sample_fill ''buy'' ''1'' 3) 1 5 5, as_row (sample_fill ''sell'' ''2'' 1) 2 5 5],
     xd_runs = [], xd_next_id = 3, xd_now = 9\<rparr>"

lemma wf_sample_ledger: "wf_exec sample_ledger"
  by code_simp

text \<open>The broker reports the second fill again, with another quantity, a new one and one without a time.\<close>

definition sample_fill_row :: "string \<Rightarrow> string \<Rightarrow> string \<Rightarrow> fill_row" where
  "sample_fill_row order_id qty tmd =
     \<lparr>fr_venue = Some ''krx'', fr_instrument_type = ''equity_kr'', fr_symbol = ''005930'', fr_raw_symbol = None,
      fr_side = ''sell'', fr_order_id = order_id, fr_fill_seq = 1, fr_quantity = Some qty, fr_price = Some ''100.5'',
      fr_total_amount = Some ''201'', fr_fee = Some ''0.0'', fr_currency = ''KRW'', fr_filled_at = [],
      fr_ord_dt = Some ''20240229'', fr_ord_tmd = Some tmd, fr_correlation_id = None, fr_raw_payload = None\<rparr>"

definition sample_run_request :: run_request where
  "sample_run_request = \<lparr>rq_commit_enabled = True, rq_run_id = ''run1'', rq_broker = ''kis'', rq_now = days 20000,
     rq_window_hours = 24, rq_start_at = None, rq_end_at = None, rq_dry_run = False,
     rq_fetched = \<lparr>fe_orders = [sample_fill_row ''2'' ''2'' ''093000'', sample_fill_row ''3'' ''0.25'' ''235959'', sample_fill_row ''4'' ''1'' ''246000''],
       fe_errors = None\<rparr>,
     rq_clock = (\<lambda>_. 7), rq_finished_at = 8, rq_error_text = (\<lambda>_. ''error'')\<rparr>"

theorem reconciliation_records_what_the_broker_reported_witness:
  "\<exists>db1 d. reconcile_task (\<lambda>_. None) sample_run_request sample_ledger = (db1, Inr d) \<and> wf_exec db1 \<and>
     length (xd_rows db1) = 3 \<and> df_committed_update d = 1"
proof -
  let ?run = "reconcile_task (\<lambda>_. None) sample_run_request sample_ledger"
  have "(case ?run of (db1, Inr d) \<Rightarrow> df_committed_insert d = 1 \<and> df_committed_update d = 1 | _ \<Rightarrow> False)" by code_simp
  then obtain db1 d where run: "?run = (db1, Inr d)" and d: "df_committed_insert d = 1" "df_committed_update d = 1"
    by (auto split: prod.splits sum.splits)
  have "rq_commit_enabled sample_run_request" by (simp add: sample_run_request_def)
  from reconciliation_records_what_the_broker_reported [OF wf_sample_ledger this run] show ?thesis
    using run d by (auto simp: sample_ledger_def)
qed

end
