(* ===== verification/ExecutionRerun.thy ===== *)
theory ExecutionRerun
  imports ExecutionSafety
begin

text \<open>
  A run over a window that was reconciled before: the ledger keeps its rows and their contents, and no
  fill is inserted again.
\<close>

section \<open>The same rows under another run\<close>

definition with_run :: "string \<Rightarrow> exec_fill \<Rightarrow> exec_fill" where
  "with_run run f = f\<lparr>xf_source_run_id := Some run\<rparr>"

lemma bindR_assoc: "bindR (bindR m f) g = bindR m (\<lambda>x. bindR (f x) g)"
  by (cases m) simp_all

lemma upsert_model_run:
  "upsert_model (f\<lparr>xf_source_run_id := Some run\<rparr>) n = bindR (upsert_model f n) (\<lambda>g. Inr (with_run run g))"
  unfolding upsert_model_def bindR_assoc by (cases f; cases n) (simp_all add: with_run_def cong del: bindR_weak_cong)

lemma to_upsert_run:
  "to_execution_ledger_upsert read_iso broker (Some run) row =
     bindR (to_execution_ledger_upsert read_iso broker (Some run0) row) (\<lambda>g. Inr (with_run run g))"
  unfolding to_execution_ledger_upsert_def bindR_assoc upsert_model_run [symmetric]
  by (simp cong del: bindR_weak_cong)

lemma read_rows_run:
  "read_rows read_iso broker (Some run) rows =
     bindR (read_rows read_iso broker (Some run0) rows) (\<lambda>fills. Inr (map (with_run run) fills))"
proof (induction rows)
  case (Cons row rows)
  show ?case
  proof (cases "to_execution_ledger_upsert read_iso broker (Some run0) row")
    case (Inl e)
    then show ?thesis using Cons.IH to_upsert_run [of read_iso broker run row run0] by (cases e) simp_all
  next
    case (Inr g)
    then show ?thesis using Cons.IH to_upsert_run [of read_iso broker run row run0]
      by (cases "read_rows read_iso broker (Some run0) rows") simp_all
  qed
qed simp

lemma fetch_run:
  assumes "fetch_normalized read_iso broker (Some run0) fetched = Inr fills"
  shows "fetch_normalized read_iso broker (Some run) fetched = Inr (map (with_run run) fills)"
  using assms read_rows_run [of read_iso broker run "fe_orders fetched" run0]
  by (simp add: fetch_normalized_def split: option.splits)

lemma with_run_simps [simp]:
  "fill_key (with_run run f) = fill_key f" "xf_fill_seq (with_run run f) = xf_fill_seq f"
  "xf_source_run_id (with_run run f) = Some run"
  by (simp_all add: with_run_def fill_key_def)

lemma stored_with_run:
  assumes "stored_fill f = Inr g"
  shows "stored_fill (with_run run f) = Inr (with_run run g)"
proof (rule stored_fill_Inr [OF assms])
  fix qty price notional fee
  assume g: "g = f\<lparr>xf_filled_qty := qty, xf_filled_price := price, xf_filled_notional := notional, xf_fee_amount := fee\<rparr>"
    and r: "pg_round 20 8 (xf_filled_qty f) = Some qty" "pg_round 20 8 (xf_filled_price f) = Some price"
      "pg_round 20 4 (xf_filled_notional f) = Some notional" "optional_column 4 (xf_fee_amount f) = Inr fee"
    and ck: "ck_violation g = None"
  have "ck_violation (with_run run g) = ck_violation g" unfolding ck_violation_def with_run_def by simp
  then have "ck_violation (with_run run g) = None" using ck by simp
  then show ?thesis
    using r by (intro stored_fillI [of _ qty price notional fee]) (simp_all add: with_run_def g)
qed

text \<open>What a row says about a fill, the run and the order of the payload's keys aside.\<close>

definition contents :: "exec_fill \<Rightarrow> exec_fill \<times> json option" where
  "contents f = (f\<lparr>xf_source_run_id := None, xf_raw_payload := None\<rparr>,
     map_option (\<lambda>d. json_norm (JObj d)) (xf_raw_payload f))"

definition standing :: "exec_row \<Rightarrow> int \<times> int \<times> exec_fill \<times> json option" where
  "standing r = (xr_id r, xr_created_at r, contents (exec_fill.truncate r))"

lemma contents_with_run [simp]: "contents (with_run run f) = contents f"
  by (simp add: contents_def with_run_def)

lemma values_differ_contents:
  assumes "fill_key r = fill_key f" and "\<not> values_differ r f"
  shows "contents (exec_fill.truncate r) = contents f" and "xf_source_run_id r = xf_source_run_id f"
  using assms
  by (cases r, cases f, auto simp: values_differ_def fill_key_def contents_def exec_fill.defs payload_equal_def json_eq_def
      split: option.splits)+

lemma same_contents_stored:
  assumes "contents h = contents f" and "stored_fill h = Inr h"
  shows "stored_fill f = Inr f"
proof (rule stored_fill_Inr [OF assms(2)])
  fix qty price notional fee
  assume h: "h = h\<lparr>xf_filled_qty := qty, xf_filled_price := price, xf_filled_notional := notional, xf_fee_amount := fee\<rparr>"
    and r: "pg_round 20 8 (xf_filled_qty h) = Some qty" "pg_round 20 8 (xf_filled_price h) = Some price"
      "pg_round 20 4 (xf_filled_notional h) = Some notional" "optional_column 4 (xf_fee_amount h) = Inr fee"
    and ck: "ck_violation h = None"
  have same: "xf_filled_qty f = xf_filled_qty h" "xf_filled_price f = xf_filled_price h"
    "xf_filled_notional f = xf_filled_notional h" "xf_fee_amount f = xf_fee_amount h" "ck_violation f = ck_violation h"
    using assms(1) by (cases f, cases h, simp add: contents_def ck_violation_def)+
  have vals: "xf_filled_qty h = qty" "xf_filled_price h = price" "xf_filled_notional h = notional" "xf_fee_amount h = fee"
    by (subst h, simp)+
  have self: "f = f\<lparr>xf_filled_qty := qty, xf_filled_price := price, xf_filled_notional := notional, xf_fee_amount := fee\<rparr>"
    using same(1-4) vals by (cases f) simp
  show ?thesis by (rule stored_fillI [OF _ _ _ _ self]) (simp_all only: same r ck)
qed

text \<open>What a recorded fill would be stored as is what its row holds.\<close>

lemma recorded_stored:
  assumes "wf_exec db" and "row_at k db = Some r" and "records r f"
  obtains g where "stored_fill f = Inr g" "contents g = contents (exec_fill.truncate r)" "xf_source_run_id r = xf_source_run_id f"
proof (cases "values_differ r f")
  case True
  then have st: "stored_fill f = Inr (exec_fill.truncate r)" using assms(3) by (simp add: records_def)
  then show ?thesis using that stored_columns(6) [OF st] by simp
next
  case False
  note c = values_differ_contents [OF conjunct1 [OF assms(3) [unfolded records_def]] False]
  have "stored_fill (exec_fill.truncate r) = Inr (exec_fill.truncate r)"
    using assms(1) row_at_SomeD [OF assms(2)] by (simp add: wf_exec_def)
  then show ?thesis using that same_contents_stored [OF c(1)] c by simp
qed

section \<open>The second loop\<close>

lemma map_standing_write:
  assumes "distinct (map fill_key rs)" and "row \<in> set rs" and "fill_key x = fill_key row" and "standing x = standing row"
  shows "map standing (write_row fill_key x rs) = map standing rs"
  using assms same_row [of fill_key rs] by (auto simp: write_row_def)

definition differs_in :: "exec_db \<Rightarrow> exec_fill \<Rightarrow> bool" where
  "differs_in db f = (case row_at (fill_key f) db of None \<Rightarrow> True | Some r \<Rightarrow> values_differ r f)"

text \<open>A fill whose row says the same is rewritten in place or left alone.\<close>

lemma rerun_step:
  assumes "wf_exec db" and "xf_fill_seq f \<le> MAX_SQL_INT32" and r: "row_at (fill_key f) db = Some r"
    and st: "stored_fill f = Inr g" and same: "contents g = contents (exec_fill.truncate r)"
  obtains db' where "upsert_fill f now db = Inr (db', if differs_in db f then UUpdated else UUnchanged, xr_id r)"
    "wf_exec db'" "map standing (xd_rows db') = map standing (xd_rows db)"
    "\<And>k. k \<noteq> fill_key f \<Longrightarrow> row_at k db' = row_at k db" "\<not> differs_in db f \<Longrightarrow> db' = db"
proof (cases "values_differ r f")
  case False
  then have "upsert_fill f now db = Inr (db, UUnchanged, xr_id r)"
    using assms(2) r by (simp add: upsert_fill_def classify_fill_def get_by_key_def)
  then show ?thesis using that [of db] assms(1) r False by (simp add: differs_in_def)
next
  case True
  obtain db' i where w: "write_fill g now db = (db', i)" by (cases "write_fill g now db")
  have key: "fill_key g = fill_key f" using stored_columns(1) [OF st] .
  note wr = write_fill_at [OF assms(1) stored_again [OF st] w]
  have new: "xd_rows db' = write_row fill_key (as_row g (xr_id r) (xr_created_at r) now) (xd_rows db)" and i: "i = xr_id r"
    using w r key by (auto simp: write_fill_def)
  have "fill_key r = fill_key f" "r \<in> set (xd_rows db)" using row_at_SomeD [OF r] by simp_all
  then have "map standing (xd_rows db') = map standing (xd_rows db)"
    using map_standing_write [of "xd_rows db" r "as_row g (xr_id r) (xr_created_at r) now"] assms(1) key same
    by (simp add: new wf_exec_def standing_def)
  moreover have "upsert_fill f now db = Inr (db', UUpdated, xr_id r)"
    using assms(2) r True st w i by (simp add: upsert_fill_def classify_fill_def get_by_key_def)
  ultimately show ?thesis using that [of db'] wr(1,3) key r True by (simp add: differs_in_def)
qed

lemma rerun_loop:
  assumes "wf_exec db" and "distinct (map fill_key fills)"
    and "\<And>f. f \<in> set fills \<Longrightarrow> xf_fill_seq f \<le> MAX_SQL_INT32 \<and> (\<exists>r g. row_at (fill_key f) db = Some r \<and>
      stored_fill f = Inr g \<and> contents g = contents (exec_fill.truncate r))"
  shows "\<exists>db1 d1. reconcile_fills False clock n fills db d = (db1, d1, None) \<and>
    map standing (xd_rows db1) = map standing (xd_rows db) \<and>
    df_would_insert d1 = df_would_insert d \<and> df_committed_insert d1 = df_committed_insert d \<and>
    df_would_update d1 = df_would_update d + length (filter (differs_in db) fills) \<and>
    df_unchanged d1 = df_unchanged d + length (filter (\<lambda>f. \<not> differs_in db f) fills)"
  using assms
proof (induction fills arbitrary: db d n)
  case Nil
  then show ?case by simp
next
  case (Cons f fills)
  obtain r g where f: "xf_fill_seq f \<le> MAX_SQL_INT32" "row_at (fill_key f) db = Some r" "stored_fill f = Inr g"
    "contents g = contents (exec_fill.truncate r)"
    using Cons.prems(3) [of f] by auto
  let ?s = "if differs_in db f then UUpdated else UUnchanged"
  from rerun_step [OF Cons.prems(1) f, of "clock n"] obtain db' where
    up: "upsert_fill f (clock n) db = Inr (db', ?s, xr_id r)" and wf': "wf_exec db'"
    and rows: "map standing (xd_rows db') = map standing (xd_rows db)"
    and keep: "\<And>k. k \<noteq> fill_key f \<Longrightarrow> row_at k db' = row_at k db"
    and left: "\<not> differs_in db f \<Longrightarrow> db' = db" by blast
  have c: "classify_fill f db = Inr ?s"
    using f(1,2) by (simp add: classify_fill_def get_by_key_def differs_in_def)
  have later: "row_at (fill_key h) db' = row_at (fill_key h) db" if "h \<in> set fills" for h
    using that Cons.prems(2) by (intro keep) (metis distinct.simps(2) image_eqI list.simps(9) set_map)
  then have diff: "differs_in db' h = differs_in db h" if "h \<in> set fills" for h
    using that by (simp add: differs_in_def)
  have ids: "distinct (map fill_key fills)" using Cons.prems(2) by simp
  have held: "xf_fill_seq h \<le> MAX_SQL_INT32 \<and> (\<exists>r g. row_at (fill_key h) db' = Some r \<and>
      stored_fill h = Inr g \<and> contents g = contents (exec_fill.truncate r))" if "h \<in> set fills" for h
    using Cons.prems(3) [of h] later [OF that] that by simp
  from Cons.IH [OF wf' ids held, of "Suc n" "count_committed ?s (count_status ?s f d)"] obtain db1 d1 where
    "reconcile_fills False clock (Suc n) fills db' (count_committed ?s (count_status ?s f d)) = (db1, d1, None)"
    "map standing (xd_rows db1) = map standing (xd_rows db')"
    "df_would_insert d1 = df_would_insert (count_committed ?s (count_status ?s f d))"
    "df_committed_insert d1 = df_committed_insert (count_committed ?s (count_status ?s f d))"
    "df_would_update d1 = df_would_update (count_committed ?s (count_status ?s f d)) + length (filter (differs_in db) fills)"
    "df_unchanged d1 = df_unchanged (count_committed ?s (count_status ?s f d)) + length (filter (\<lambda>f. \<not> differs_in db f) fills)"
    using diff by (auto cong: filter_cong)
  then show ?case
    using c up rows left
    by (intro exI [of _ db1] exI [of _ d1], cases "differs_in db f") (simp_all add: count_committed_def count_status_def)
qed

lemma loop_seq:
  assumes "reconcile_fills dry clock n fills db d = (db1, d1, None)" and "f \<in> set fills"
  shows "xf_fill_seq f \<le> MAX_SQL_INT32"
  using assms
proof (induction fills arbitrary: n db d)
  case (Cons h fills)
  then obtain status where c: "classify_fill h db = Inr status" by (auto split: sum.splits)
  show ?case
  proof (cases "f = h")
    case True
    then show ?thesis using classify_fill_Inr(1) [OF c] by simp
  next
    case False
    then show ?thesis using Cons c by (auto simp: Let_def split: sum.splits if_splits prod.splits)
  qed
qed simp

text \<open>The second run, whatever its identifier: the fills it compares and what it reports of them.\<close>

lemma rerun_task:
  assumes "wf_exec db" and "rq_commit_enabled q" and "reconcile_task read_iso q db = (db1, Inr d1)"
    and "fetch_normalized read_iso (rq_broker q) (Some (rq_run_id q)) (rq_fetched q) = Inr fills"
    and "distinct (map fill_key fills)"
  obtains db2 d2 where "reconcile_task read_iso (q\<lparr>rq_run_id := run\<rparr>) db1 = (db2, Inr d2)"
    "map standing (xd_rows db2) = map standing (xd_rows db1)" "df_would_insert d2 = 0" "df_committed_insert d2 = 0"
    "df_would_update d2 = length (filter (differs_in db1) (map (with_run run) fills))"
    "df_unchanged d2 = length (filter (\<lambda>f. \<not> differs_in db1 f) (map (with_run run) fills))"
    "\<And>f. f \<in> set fills \<Longrightarrow> \<exists>r. row_at (fill_key f) db1 = Some r \<and> xf_source_run_id r = Some (rq_run_id q)"
proof (rule task_run [OF assms(2,3)])
  fix fs db0 start end_at
  assume "fetch_normalized read_iso (rq_broker q) (Some (rq_run_id q)) (rq_fetched q) = Inr fs"
    and win: "resolve_run_window (rq_now q) (rq_window_hours q) (rq_start_at q) (rq_end_at q) = Inr (start, end_at)"
    and loop0: "reconcile_fills False (rq_clock q) 0 fs db empty_diff = (db0, d1, None)"
    and db1: "db1 = record_run (q\<lparr>rq_dry_run := False\<rparr>) start end_at d1 None db0"
  then have loop: "reconcile_fills False (rq_clock q) 0 fills db empty_diff = (db0, d1, None)" using assms(4) by simp
  have run0: "\<And>f. f \<in> set fills \<Longrightarrow> xf_source_run_id f = Some (rq_run_id q)"
    using fetch_run [OF assms(4), of "rq_run_id q"] assms(4) by (auto simp: list_eq_iff_nth_eq in_set_conv_nth) (metis with_run_simps(3))
  note l = commit_loop [OF assms(1) loop]
  have rows: "xd_rows db1 = xd_rows db0" by (simp add: db1)
  have wf1: "wf_exec db1" using l wf_exec_cong [OF rows] by simp
  have held: "\<exists>r g. row_at (fill_key f) db1 = Some r \<and> xf_source_run_id r = Some (rq_run_id q) \<and>
      stored_fill f = Inr g \<and> contents g = contents (exec_fill.truncate r)" if f: "f \<in> set fills" for f
  proof -
    have "map_of (rev (map (\<lambda>f. (fill_key f, f)) fills)) (fill_key f) = Some f"
      using assms(5) f by (intro map_of_is_SomeI) (simp_all add: rev_map [symmetric] comp_def)
    then obtain r where r: "row_at (fill_key f) db1 = Some r" "records r f"
      using spec [OF conjunct1 [OF conjunct2 [OF conjunct2 [OF l]]], of "fill_key f"] row_at_cong [OF rows] by auto
    from recorded_stored [OF wf1 r] show ?thesis using r(1) run0 [OF f] by metis
  qed
  have again: "xf_fill_seq h \<le> MAX_SQL_INT32 \<and> (\<exists>r g. row_at (fill_key h) db1 = Some r \<and>
      stored_fill h = Inr g \<and> contents g = contents (exec_fill.truncate r))"
    if h: "h \<in> set (map (with_run run) fills)" for h
  proof -
    obtain f where f: "f \<in> set fills" "h = with_run run f" using h by auto
    obtain r g where g: "row_at (fill_key f) db1 = Some r" "stored_fill f = Inr g" "contents g = contents (exec_fill.truncate r)"
      using held [OF f(1)] by blast
    have "stored_fill h = Inr (with_run run g)" unfolding f(2) by (rule stored_with_run [OF g(2)])
    then show ?thesis using g(1,3) loop_seq [OF loop f(1)] f(2) by auto
  qed
  have ids: "distinct (map fill_key (map (with_run run) fills))" using assms(5) by (simp add: comp_def)
  from rerun_loop [OF wf1 ids again, of "rq_clock q" 0 empty_diff] obtain db2 d2 where
    second: "reconcile_fills False (rq_clock q) 0 (map (with_run run) fills) db1 empty_diff = (db2, d2, None)"
      "map standing (xd_rows db2) = map standing (xd_rows db1)" "df_would_insert d2 = 0" "df_committed_insert d2 = 0"
      "df_would_update d2 = length (filter (differs_in db1) (map (with_run run) fills))"
      "df_unchanged d2 = length (filter (\<lambda>f. \<not> differs_in db1 f) (map (with_run run) fills))"
    by (auto simp: empty_diff_def)
  have "reconcile_task read_iso (q\<lparr>rq_run_id := run\<rparr>) db1 =
    (record_run (q\<lparr>rq_run_id := run, rq_dry_run := False\<rparr>) start end_at d2 None db2, Inr d2)"
    using fetch_run [OF assms(4), of run] win second(1) assms(2) by (simp add: reconcile_task_def run_reconciler_def)
  then show ?thesis
    by (rule that) (use second(2-6) held in \<open>auto\<close>)
qed

text \<open>
  Under a new identifier every fill counts as an update, because the comparison of the code includes the
  identifier of the run: the reported difference is not the one the design asks for.
\<close>

lemma rerun_updates_every_fill_again:
  assumes "wf_exec db" and "rq_commit_enabled q" and "reconcile_task read_iso q db = (db1, Inr d1)"
    and "fetch_normalized read_iso (rq_broker q) (Some (rq_run_id q)) (rq_fetched q) = Inr fills"
    and "distinct (map fill_key fills)" and "run \<noteq> rq_run_id q"
  shows "\<exists>db2 d2. reconcile_task read_iso (q\<lparr>rq_run_id := run\<rparr>) db1 = (db2, Inr d2) \<and>
    df_unchanged d2 = 0 \<and> df_would_update d2 = length fills"
proof (rule rerun_task [OF assms(1-5), of run])
  fix db2 d2
  assume run: "reconcile_task read_iso (q\<lparr>rq_run_id := run\<rparr>) db1 = (db2, Inr d2)"
    and n: "df_would_update d2 = length (filter (differs_in db1) (map (with_run run) fills))"
      "df_unchanged d2 = length (filter (\<lambda>f. \<not> differs_in db1 f) (map (with_run run) fills))"
    and held: "\<And>f. f \<in> set fills \<Longrightarrow> \<exists>r. row_at (fill_key f) db1 = Some r \<and> xf_source_run_id r = Some (rq_run_id q)"
  have all: "differs_in db1 f" if "f \<in> set (map (with_run run) fills)" for f
    using that held assms(6) by (fastforce simp: differs_in_def values_differ_def)
  then have "filter (differs_in db1) (map (with_run run) fills) = map (with_run run) fills"
    "filter (\<lambda>f. \<not> differs_in db1 f) (map (with_run run) fills) = []"
    by (simp_all add: filter_id_conv filter_empty_conv del: set_map)
  then show ?thesis using run n by simp
qed



end
