(* ===== verification/ExecutionSeeds.thy ===== *)
theory ExecutionSeeds
  imports ExecutionSafety
begin

text \<open>
  Opening lots: after a committed seeding the fills since the cutover and the seeded lot of a position add
  up to the holding the broker reported.
\<close>

section \<open>The plan\<close>

text \<open>A candidate as the loaders leave it: its texts are stripped and not empty.\<close>

definition loaded :: "lot_candidate \<Rightarrow> bool" where
  "loaded c \<longleftrightarrow> (\<forall>t \<in> {oc_venue c, oc_symbol c, oc_raw_symbol c}. t \<noteq> [] \<and> strip t = t)"

definition seed_key :: "lot_candidate \<Rightarrow> int \<Rightarrow> row_key" where
  "seed_key c cutover = (oc_broker c, oc_account_mode c, oc_venue c, seed_order_id c cutover, 0)"

definition place :: "lot_candidate \<Rightarrow> string \<times> string \<times> string \<times> string" where
  "place c = (oc_broker c, oc_account_mode c, oc_venue c, oc_symbol c)"

lemma seed_key_inj: "seed_key c cutover = seed_key c' cutover \<Longrightarrow> place c = place c'"
  by (auto simp: seed_key_def seed_order_id_def place_def)

lemma strip_same:
  assumes "s \<noteq> []" and "\<not> is_space (hd s)" and "\<not> is_space (last s)"
  shows "strip s = s"
proof -
  have l: "lstrip s = s" using assms(1,2) by (cases s) (simp_all add: lstrip_def)
  have "dropWhile is_space (rev s) = rev s" using assms(1,3) by (simp add: dropWhile_eq_self_iff hd_rev)
  then show ?thesis by (simp add: strip_def l)
qed

lemma strip_seed:
  assumes "loaded c"
  shows "strip (seed_order_id c cutover) = seed_order_id c cutover"
proof (rule strip_same)
  have sy: "oc_symbol c \<noteq> []" "strip (oc_symbol c) = oc_symbol c" using assms by (simp_all add: loaded_def)
  then have "\<not> is_space (last (oc_symbol c))" using strip_ends [of "oc_symbol c"] by simp
  then show "\<not> is_space (last (seed_order_id c cutover))" using sy by (simp add: seed_order_id_def)
qed (simp_all add: seed_order_id_def is_space_def)

text \<open>What the model of the upsert keeps of a lot.\<close>

lemma upsert_model_Inr:
  assumes "upsert_model f n = Inr g"
  shows "g = f\<lparr>xf_venue := strip (xf_venue f), xf_symbol := strip (xf_symbol f), xf_raw_symbol := strip (xf_raw_symbol f),
    xf_broker_order_id := strip (xf_broker_order_id f),
    xf_filled_notional := (case n of None \<Rightarrow> dec28 (xf_filled_qty f * xf_filled_price f) | Some x \<Rightarrow> x)\<rparr>"
  using assms by (auto simp: upsert_model_def bindR_eq_Inr require_eq strip_non_empty_def Let_def split: if_splits)

lemma opening_lot_Inr:
  assumes "opening_lot show_iso cutover c net qty = Inr f" and "loaded c"
  shows "fill_key f = seed_key c cutover" and "ledger_match_key f = candidate_key c" and "xf_filled_qty f = qty"
    and "xf_source f = ''manual_import''" and "xf_side f = ''buy''" and "xf_filled_at f = cutover"
  using upsert_model_Inr [OF assms(1) [unfolded opening_lot_def]] assms(2) strip_seed [OF assms(2), of cutover]
  by (simp_all add: fill_key_def seed_key_def ledger_match_key_def candidate_key_def loaded_def)

definition planned ::
  "(int \<Rightarrow> string) \<Rightarrow> int \<Rightarrow> (match_key \<Rightarrow> rat option) \<Rightarrow> lot_candidate \<Rightarrow> exec_fill \<Rightarrow> bool" where
  "planned show_iso cutover net c f \<longleftrightarrow>
     (\<exists>qty. lot_decision c (net (candidate_key c)) = Inr qty \<and>
        opening_lot show_iso cutover c (net (candidate_key c)) qty = Inr f)"

lemma plan_loop:
  assumes "foldR (plan_step show_iso cutover net) plan0 candidates = Inr plan"
  shows "\<exists>fs. lp_upserts plan = lp_upserts plan0 @ fs \<and>
    list_all2 (planned show_iso cutover net) (filter (\<lambda>c. is_ok (lot_decision c (net (candidate_key c)))) candidates) fs \<and>
    lp_skipped plan = lp_skipped plan0 @
      map (\<lambda>c. (candidate_key c, projl (lot_decision c (net (candidate_key c)))))
        (filter (\<lambda>c. \<not> is_ok (lot_decision c (net (candidate_key c)))) candidates)"
  using assms
proof (induction candidates arbitrary: plan0)
  case Nil
  then show ?case by simp
next
  case (Cons c cs)
  show ?case
  proof (cases "lot_decision c (net (candidate_key c))")
    case (Inl reason)
    have "plan_step show_iso cutover net plan0 c = Inr (plan0\<lparr>lp_skipped := lp_skipped plan0 @ [(candidate_key c, reason)]\<rparr>)"
      using Inl by (simp add: plan_step_def)
    then have "foldR (plan_step show_iso cutover net) (plan0\<lparr>lp_skipped := lp_skipped plan0 @ [(candidate_key c, reason)]\<rparr>) cs = Inr plan"
      using Cons.prems by simp
    from Cons.IH [OF this] show ?thesis by (auto simp: Inl)
  next
    case (Inr qty)
    have step: "plan_step show_iso cutover net plan0 c =
      bindR (opening_lot show_iso cutover c (net (candidate_key c)) qty) (\<lambda>f. Inr (plan0\<lparr>lp_upserts := lp_upserts plan0 @ [f]\<rparr>))"
      using Inr by (simp add: plan_step_def)
    obtain f where f: "opening_lot show_iso cutover c (net (candidate_key c)) qty = Inr f"
      and rest: "foldR (plan_step show_iso cutover net) (plan0\<lparr>lp_upserts := lp_upserts plan0 @ [f]\<rparr>) cs = Inr plan"
      using Cons.prems by (auto simp: step bindR_eq_Inr)
    have "planned show_iso cutover net c f" using Inr f by (simp add: planned_def)
    then show ?thesis using Cons.IH [OF rest] by (auto simp: Inr)
  qed
qed

lemma all2_right: "list_all2 P xs ys \<Longrightarrow> y \<in> set ys \<Longrightarrow> \<exists>x \<in> set xs. P x y"
  by (induction rule: list_all2_induct) auto

lemma all2_left: "list_all2 P xs ys \<Longrightarrow> x \<in> set xs \<Longrightarrow> \<exists>y \<in> set ys. P x y"
  by (induction rule: list_all2_induct) auto

lemma planned_keys:
  assumes "list_all2 (planned show_iso cutover net) cs fs" and "\<forall>c \<in> set cs. loaded c"
  shows "map fill_key fs = map (\<lambda>c. seed_key c cutover) cs"
  using assms by (induction rule: list_all2_induct) (auto simp: planned_def opening_lot_Inr(1))

lemma planned_distinct:
  assumes "list_all2 (planned show_iso cutover net) (filter P cs) fs" and "\<forall>c \<in> set cs. loaded c" and "distinct (map place cs)"
  shows "distinct (map fill_key fs)"
proof -
  have "map fill_key fs = map (\<lambda>c. seed_key c cutover) (filter P cs)" using planned_keys [OF assms(1)] assms(2) by simp
  moreover have "inj_on (\<lambda>c. seed_key c cutover) (set cs)"
    using assms(3) seed_key_inj by (metis distinct_map inj_on_def)
  ultimately show ?thesis using assms(3) by (simp add: distinct_map inj_on_subset [of _ "set cs"])
qed

lemma planned_seeds:
  assumes "list_all2 (planned show_iso cutover net) (filter P cs) fs" and "\<forall>c \<in> set cs. loaded c" and "f \<in> set fs"
  shows "xf_source f = ''manual_import'' \<and> take 5 (xf_broker_order_id f) = ''SEED-''"
proof -
  obtain c qty where c: "c \<in> set cs" and lot: "opening_lot show_iso cutover c (net (candidate_key c)) qty = Inr f"
    using all2_right [OF assms(1,3)] by (auto simp: planned_def)
  have "loaded c" using assms(2) c by blast
  then show ?thesis
    using opening_lot_Inr(1,4) [OF lot] by (simp add: fill_key_def seed_key_def seed_order_id_def)
qed

lemma records_columns:
  assumes "records r f"
  shows "xf_side r = xf_side f" and "xf_filled_at r = xf_filled_at f" and "ledger_match_key r = ledger_match_key f"
    and "on_scale 8 (xf_filled_qty f) \<Longrightarrow> xf_filled_qty r = xf_filled_qty f"
proof -
  have "xf_side r = xf_side f \<and> xf_filled_at r = xf_filled_at f \<and> ledger_match_key r = ledger_match_key f \<and>
    (on_scale 8 (xf_filled_qty f) \<longrightarrow> xf_filled_qty r = xf_filled_qty f)"
  proof (cases "values_differ r f")
    case True
    then have st: "stored_fill f = Inr (exec_fill.truncate r)" using assms by (simp add: records_def)
    then show ?thesis using stored_columns [OF st] stored_qty(2) [OF st] by simp
  next
    case False
    then show ?thesis using assms by (simp add: records_def values_differ_def fill_key_def ledger_match_key_def)
  qed
  then show "xf_side r = xf_side f" and "xf_filled_at r = xf_filled_at f" and "ledger_match_key r = ledger_match_key f"
    and "on_scale 8 (xf_filled_qty f) \<Longrightarrow> xf_filled_qty r = xf_filled_qty f" by simp_all
qed

section \<open>Seeds and the net quantity\<close>

text \<open>Order ids that begin like a seed belong to seeds.\<close>

definition seeds_are_manual :: "exec_db \<Rightarrow> bool" where
  "seeds_are_manual db \<longleftrightarrow>
     (\<forall>r \<in> set (xd_rows db). take 5 (xf_broker_order_id r) = ''SEED-'' \<longrightarrow> xf_source r = ''manual_import'')"

definition broker_rows :: "exec_db \<Rightarrow> exec_row list" where
  "broker_rows db = filter (\<lambda>r. xf_source r \<noteq> ''manual_import'') (xd_rows db)"

lemma net_quantity_cong:
  assumes "broker_rows db = broker_rows db'"
  shows "net_quantity_since cutover db k = net_quantity_since cutover db' k"
proof -
  have "counted_since cutover d k = filter (\<lambda>r. cutover \<le> xf_filled_at r \<and> ledger_match_key r = k) (broker_rows d)" for d
    unfolding counted_since_def broker_rows_def filter_filter by (rule filter_cong) auto
  then show ?thesis using assms by (simp add: net_quantity_since_def)
qed

lemma filter_write_other:
  assumes "\<not> P r" and "\<And>x. x \<in> set rs \<Longrightarrow> key x = key r \<Longrightarrow> \<not> P x"
  shows "filter P (write_row key r rs) = filter P rs"
  using assms by (induction rs) (auto simp: write_row_def)

lemma seed_turn:
  assumes "seeds_are_manual db" and "xf_source g = ''manual_import''" and "take 5 (xf_broker_order_id g) = ''SEED-''"
    and "write_fill g now db = (db', i)"
  shows "broker_rows db' = broker_rows db" and "seeds_are_manual db'"
proof -
  have old: "xf_source x = ''manual_import''" if "x \<in> set (xd_rows db)" "fill_key x = fill_key g" for x
    using assms(1,3) that by (auto simp: seeds_are_manual_def fill_key_def)
  have "broker_rows db' = broker_rows db \<and> seeds_are_manual db'"
  proof (cases "row_at (fill_key g) db")
    case None
    then show ?thesis using assms by (auto simp: write_fill_def broker_rows_def seeds_are_manual_def)
  next
    case (Some row)
    let ?r = "as_row g (xr_id row) (xr_created_at row) now"
    have db': "xd_rows db' = write_row fill_key ?r (xd_rows db)" using assms(4) Some by (auto simp: write_fill_def)
    have "filter (\<lambda>r. xf_source r \<noteq> ''manual_import'') (write_row fill_key ?r (xd_rows db)) =
      filter (\<lambda>r. xf_source r \<noteq> ''manual_import'') (xd_rows db)"
      by (rule filter_write_other) (use assms(2) old in auto)
    then show ?thesis
      using assms(1,2) by (auto simp: broker_rows_def seeds_are_manual_def db' dest!: write_row_set)
  qed
  then show "broker_rows db' = broker_rows db" and "seeds_are_manual db'" by simp_all
qed

lemma seed_loop:
  assumes "reconcile_fills False clock n fills db d = (db1, d1, None)" and "seeds_are_manual db"
    and "\<forall>f \<in> set fills. xf_source f = ''manual_import'' \<and> take 5 (xf_broker_order_id f) = ''SEED-''"
  shows "broker_rows db1 = broker_rows db"
  using assms
proof (induction fills arbitrary: n db d)
  case (Cons f fills)
  obtain status where c: "classify_fill f db = Inr status" using Cons.prems(1) by (auto split: sum.splits)
  show ?case
  proof (cases "status = UUnchanged")
    case True
    then have "reconcile_fills False clock (Suc n) fills db (count_status status f d) = (db1, d1, None)"
      using Cons.prems(1) c by simp
    then show ?thesis using Cons.IH Cons.prems(2,3) by simp
  next
    case False
    obtain g where g: "stored_fill f = Inr g"
      using Cons.prems(1) c False upsert_changed [OF c False] by (cases "stored_fill f") auto
    obtain db' i where w: "write_fill g (clock n) db = (db', i)" by (cases "write_fill g (clock n) db")
    have rest: "reconcile_fills False clock (Suc n) fills db' (count_committed status (count_status status f d)) = (db1, d1, None)"
      using Cons.prems(1) c False upsert_changed [OF c False] g w by simp
    have "xf_source g = ''manual_import''" "xf_broker_order_id g = xf_broker_order_id f"
      using Cons.prems(3) stored_columns(1,3) [OF g] by (simp_all add: fill_key_def)
    then have t: "broker_rows db' = broker_rows db" "seeds_are_manual db'"
      using seed_turn [OF Cons.prems(2) _ _ w] Cons.prems(3) by simp_all
    then show ?thesis using Cons.IH [OF rest] Cons.prems(3) by simp
  qed
qed simp

lemma net_on_scale:
  assumes "wf_exec db" and "net_quantity_since cutover db k = Some x"
  shows "on_scale 8 x"
proof -
  have "on_scale 8 (xf_filled_qty r)" if "r \<in> set (xd_rows db)" for r
    using assms(1) stored_qty(1) [of "exec_fill.truncate r"] that by (auto simp: wf_exec_def)
  then have "on_scale 8 (\<Sum>r\<leftarrow>counted_since cutover db k. signed_qty r)"
    by (intro on_scale_sum_list) (auto simp: counted_since_def signed_qty_def)
  then show ?thesis using assms(2) by (auto simp: net_quantity_since_def Let_def split: if_splits)
qed

section \<open>A committed seeding\<close>

text \<open>What the fills since the cutover say about a position.\<close>

definition ledger_net :: "int \<Rightarrow> exec_db \<Rightarrow> lot_candidate \<Rightarrow> rat" where
  "ledger_net cutover db c = (case net_quantity_since cutover db (candidate_key c) of None \<Rightarrow> 0 | Some x \<Rightarrow> x)"

lemma seed_run:
  assumes "seed_opening_lots show_iso enabled False clock cutover candidates db = (db', Inr (plan, d))"
  shows "build_opening_lot_plan show_iso candidates (net_quantity_since cutover db) cutover = Inr plan"
    and "reconcile_fills False clock 0 (lp_upserts plan) db empty_diff = (db', d, None)"
  using assms by (auto simp: seed_opening_lots_def split: if_splits sum.splits prod.splits option.splits)

text \<open>
  C26: After opening lots were seeded, the ledger adds up to the holdings: what the fills since the cutover say is
  unchanged by the seeds, and a holding above it has a seeded purchase at the cutover, in the same position, that
  makes up exactly the difference; a holding that the fills already cover is skipped.
\<close>

theorem seeding_completes_positions:
  assumes "wf_exec db" and "seeds_are_manual db" and "\<forall>c \<in> set candidates. loaded c" and "distinct (map place candidates)"
    and "seed_opening_lots show_iso enabled False clock cutover candidates db = (db', Inr (plan, d))"
    and "c \<in> set candidates" and "0 < dec_value (oc_current_qty c)" and "0 < dec_value (oc_avg_price c)"
    and "\<not> (oc_broker c = ''upbit'' \<and> oc_avg_price_modified c)"
    and "on_scale 8 (dec_value (oc_current_qty c))"
    and "\<bar>dec_value (oc_current_qty c) - ledger_net cutover db c\<bar> < 10 ^ 20"
  shows "ledger_net cutover db' c = ledger_net cutover db c \<and>
    (if dec_value (oc_current_qty c) \<le> ledger_net cutover db' c
     then (candidate_key c, CoveredByLedgerNet) \<in> set (lp_skipped plan)
     else \<exists>row. row_at (seed_key c cutover) db' = Some row \<and> xf_side row = ''buy'' \<and> xf_filled_at row = cutover \<and>
       ledger_match_key row = candidate_key c \<and> ledger_net cutover db' c + xf_filled_qty row = dec_value (oc_current_qty c))"
proof -
  let ?net = "net_quantity_since cutover db"
  let ?qty = "dec_value (oc_current_qty c)"
  note run = seed_run [OF assms(5)]
  obtain fs where fs: "lp_upserts plan = fs"
    "list_all2 (planned show_iso cutover ?net) (filter (\<lambda>c. is_ok (lot_decision c (?net (candidate_key c)))) candidates) fs"
    and skipped: "lp_skipped plan = map (\<lambda>c. (candidate_key c, projl (lot_decision c (?net (candidate_key c)))))
        (filter (\<lambda>c. \<not> is_ok (lot_decision c (?net (candidate_key c)))) candidates)"
    using plan_loop [OF run(1) [unfolded build_opening_lot_plan_def]] by auto
  have seeds: "\<forall>f \<in> set (lp_upserts plan). xf_source f = ''manual_import'' \<and> take 5 (xf_broker_order_id f) = ''SEED-''"
    using planned_seeds [OF fs(2) assms(3)] fs(1) by blast
  have net: "ledger_net cutover db' c = ledger_net cutover db c"
    using net_quantity_cong [OF seed_loop [OF run(2) assms(2) seeds]] by (simp add: ledger_net_def)
  have "on_scale 8 (ledger_net cutover db c)"
    using net_on_scale [OF assms(1)] by (auto simp: ledger_net_def split: option.splits)
  then have exact: "dec28 (?qty - ledger_net cutover db c) = ?qty - ledger_net cutover db c"
    and scale: "on_scale 8 (?qty - ledger_net cutover db c)"
    using assms(10,11) by (auto intro!: dec28_on_scale [of 8])
  have decision: "lot_decision c (?net (candidate_key c)) =
    (if ?qty \<le> ledger_net cutover db c then Inl CoveredByLedgerNet else Inr (?qty - ledger_net cutover db c))"
    using assms(7-9) exact by (auto simp: lot_decision_def ledger_net_def Let_def)
  show ?thesis
  proof (cases "?qty \<le> ledger_net cutover db c")
    case True
    then show ?thesis using skipped assms(6) decision net by force
  next
    case False
    then have "c \<in> set (filter (\<lambda>c. is_ok (lot_decision c (?net (candidate_key c)))) candidates)"
      using assms(6) decision by simp
    from all2_left [OF fs(2) this] obtain f where f: "f \<in> set fs"
        "opening_lot show_iso cutover c (?net (candidate_key c)) (?qty - ledger_net cutover db c) = Inr f"
      using decision False by (auto simp: planned_def)
    have "loaded c" using assms(3,6) by blast
    note lot = opening_lot_Inr [OF f(2) this]
    have "map_of (rev (map (\<lambda>f. (fill_key f, f)) fs)) (fill_key f) = Some f"
      using planned_distinct [OF fs(2) assms(3,4)] f(1) by (intro map_of_is_SomeI) (simp_all add: rev_map [symmetric] comp_def)
    then obtain row where row: "row_at (seed_key c cutover) db' = Some row" "records row f"
      using spec [OF conjunct1 [OF conjunct2 [OF conjunct2 [OF commit_loop [OF assms(1) run(2)]]]], of "fill_key f"]
      by (auto simp: fs(1) lot(1))
    show ?thesis using False row(1) records_columns [OF row(2)] lot scale net by (intro conjI) simp_all
  qed
qed

text \<open>A position of ten shares, of which the ledger saw three bought and one sold after the cutover.\<close>

definition sample_lot :: lot_candidate where
  "sample_lot = \<lparr>oc_broker = ''kis'', oc_account_mode = ''live'', oc_venue = ''krx'', oc_instrument_type = ''equity_kr'',
     oc_symbol = ''005930'', oc_raw_symbol = ''005930'', oc_currency = ''KRW'', oc_current_qty = Dec False 10 0,
     oc_avg_price = Dec False 90 0, oc_avg_price_modified = False\<rparr>"

theorem seeding_completes_positions_witness:
  "\<exists>db' row. row_at (seed_key sample_lot (days 2)) db' = Some row \<and>
     ledger_net (days 2) db' sample_lot + xf_filled_qty row = 10 \<and>
     fst (seed_opening_lots (\<lambda>_. ''2024'') True False (\<lambda>_. 7) (days 2) [sample_lot] sample_ledger) = db'"
proof -
  let ?run = "seed_opening_lots (\<lambda>_. ''2024'') True False (\<lambda>_. 7) (days 2) [sample_lot] sample_ledger"
  have "is_ok (snd ?run)" by code_simp
  then obtain db' plan d where run: "?run = (db', Inr (plan, d))" by (cases ?run) (auto simp: is_ok_iff)
  have net: "ledger_net (days 2) sample_ledger sample_lot = 2" by code_simp
  have qty: "dec_value (oc_current_qty sample_lot) = 10" "dec_value (oc_avg_price sample_lot) = 90" by code_simp+
  have manual: "seeds_are_manual sample_ledger" by code_simp
  have ready: "\<forall>c \<in> set [sample_lot]. loaded c" "distinct (map place [sample_lot])" by code_simp+
  have scale: "on_scale 8 (dec_value (oc_current_qty sample_lot))" unfolding qty(1) by (simp add: on_scale_def)
  have pos: "0 < dec_value (oc_current_qty sample_lot)" "0 < dec_value (oc_avg_price sample_lot)" by (simp_all add: qty)
  have bound: "\<bar>dec_value (oc_current_qty sample_lot) - ledger_net (days 2) sample_ledger sample_lot\<bar> < 10 ^ 20"
    by (simp add: qty net)
  have mem: "sample_lot \<in> set [sample_lot]" by simp
  have modified: "\<not> (oc_broker sample_lot = ''upbit'' \<and> oc_avg_price_modified sample_lot)" by (simp add: sample_lot_def)
  have sum: "ledger_net (days 2) db' sample_lot = 2 \<and>
    (if (10::rat) \<le> ledger_net (days 2) db' sample_lot
     then (candidate_key sample_lot, CoveredByLedgerNet) \<in> set (lp_skipped plan)
     else \<exists>row. row_at (seed_key sample_lot (days 2)) db' = Some row \<and> xf_side row = ''buy'' \<and> xf_filled_at row = days 2 \<and>
       ledger_match_key row = candidate_key sample_lot \<and> ledger_net (days 2) db' sample_lot + xf_filled_qty row = 10)"
    using seeding_completes_positions [OF wf_sample_ledger manual ready run mem pos modified scale bound] unfolding qty net .
  then have two: "ledger_net (days 2) db' sample_lot = 2" by (rule conjunct1)
  obtain row where "row_at (seed_key sample_lot (days 2)) db' = Some row" "ledger_net (days 2) db' sample_lot + xf_filled_qty row = 10"
    using conjunct2 [OF sum] unfolding two by auto
  then show ?thesis using run by auto
qed

end
