(* ===== verification/ExecutionQueries.thy ===== *)
theory ExecutionQueries
  imports ExecutionSafety
begin

text \<open>
  Reading the ledger of fills (\<open>execution_ledger/query_service.py\<close>, the queries of
  \<open>repository.py\<close>): provisional websocket rows give way to authoritative ones, sales are matched with
  earlier purchases first in, first out, and the freshness of the ledger. Rows of equal time keep the order of
  their ids; names of symbols are not modelled.
\<close>

section \<open>Provisional rows\<close>

type_synonym order_key = "string \<times> string \<times> string \<times> string \<times> string \<times> string"

definition lstrip_zeros :: "string \<Rightarrow> string" where
  "lstrip_zeros s = (let t = dropWhile (\<lambda>c. c = CHR ''0'') s in if t = [] then s else t)"

definition supersede_key :: "exec_row \<Rightarrow> order_key" where
  "supersede_key r = (xf_broker r, xf_account_mode r, xf_instrument_type r, xf_symbol r, xf_side r,
     lstrip_zeros (xf_broker_order_id r))"

definition supersede_provisional_fills :: "exec_row list \<Rightarrow> exec_row list" where
  "supersede_provisional_fills items =
     (let authoritative = set (map supersede_key (filter (\<lambda>i. xf_source i \<noteq> ''websocket'') items)) in
      filter (\<lambda>i. xf_source i \<noteq> ''websocket'' \<or> supersede_key i \<notin> authoritative) items)"

section \<open>First in, first out\<close>

text \<open>A lot is its remaining quantity and its unit cost; each operation rounds to the decimal context.\<close>

function match_lots :: "rat \<Rightarrow> rat \<Rightarrow> (rat \<times> rat) list \<Rightarrow> rat \<times> rat \<times> (rat \<times> rat) list" where
  "match_lots remaining cost [] = (remaining, cost, [])"
| "match_lots remaining cost ((lot_qty, unit_cost) # lots) =
     (if remaining \<le> 0 then (remaining, cost, (lot_qty, unit_cost) # lots)
      else let matched = min remaining lot_qty;
               cost1 = dec28 (cost + dec28 (matched * unit_cost));
               remaining1 = dec28 (remaining - matched);
               lot_qty1 = dec28 (lot_qty - matched)
           in if lot_qty1 \<le> 0 then match_lots remaining1 cost1 lots
              else match_lots remaining1 cost1 ((lot_qty1, unit_cost) # lots))"
  by pat_completeness auto
termination
proof (relation "measure (\<lambda>(remaining, cost, lots). 2 * length lots + (if 0 < remaining then 1 else 0))", goal_cases)
  case (3 remaining cost lot_qty unit_cost lots matched cost1 remaining1 lot_qty1)
  then have "matched = remaining" by (auto simp: min_def split: if_splits)
  then show ?case using 3 by simp
qed auto

record fifo_state =
  ff_lots :: "match_key \<Rightarrow> (rat \<times> rat) list"
  ff_annotations :: "row_key \<Rightarrow> (rat \<times> rat \<times> rat) option"

definition annotation :: "exec_row \<Rightarrow> rat \<Rightarrow> rat \<times> rat \<times> rat" where
  "annotation item cost =
     (let profit = dec28 (xf_filled_notional item - cost) in
      (cost, profit, if cost \<noteq> 0 then dec28 (dec28 (profit / cost) * 100) else 0))"

definition fifo_step :: "row_key set \<Rightarrow> exec_row \<Rightarrow> fifo_state \<Rightarrow> fifo_state" where
  "fifo_step sell_keys item st =
     (let qty = xf_filled_qty item; k = ledger_match_key item in
      if qty \<le> 0 then st
      else if xf_side item = ''buy''
      then st\<lparr>ff_lots := (ff_lots st)(k := ff_lots st k @ [(qty, dec28 (xf_filled_notional item / qty))])\<rparr>
      else if xf_side item \<noteq> ''sell'' then st
      else let (remaining, cost, lots) = match_lots qty 0 (ff_lots st k);
               st1 = st\<lparr>ff_lots := (ff_lots st)(k := lots)\<rparr>
           in if remaining > 0 then st1
              else if fill_key item \<in> sell_keys
              then st1\<lparr>ff_annotations := (ff_annotations st)(fill_key item \<mapsto> annotation item cost)\<rparr>
              else st1)"

definition fifo :: "row_key set \<Rightarrow> exec_row list \<Rightarrow> fifo_state" where
  "fifo sell_keys history =
     fold (fifo_step sell_keys) (sort_key xf_filled_at history) \<lparr>ff_lots = (\<lambda>_. []), ff_annotations = (\<lambda>_. None)\<rparr>"

definition annotate_realized_profit :: "exec_row list \<Rightarrow> exec_row list \<Rightarrow> (exec_row \<times> (rat \<times> rat \<times> rat) option) list" where
  "annotate_realized_profit sell_items history_items =
     (let st = fifo (set (map fill_key sell_items)) history_items in
      map (\<lambda>item. (item, ff_annotations st (fill_key item))) sell_items)"

section \<open>Queries\<close>

fun market_type :: "string option \<Rightarrow> string option" where
  "market_type None = None"
| "market_type (Some m) =
     (if m = ''kr'' then Some ''equity_kr'' else if m = ''us'' then Some ''equity_us''
      else if m = ''crypto'' then Some ''crypto'' else None)"

definition apply_market_filter :: "string option \<Rightarrow> exec_row list \<Rightarrow> exec_row list" where
  "apply_market_filter market rows =
     (case market_type market of None \<Rightarrow> rows | Some t \<Rightarrow> filter (\<lambda>r. xf_instrument_type r = t) rows)"

definition only :: "'a option \<Rightarrow> ('r \<Rightarrow> 'a) \<Rightarrow> 'r list \<Rightarrow> 'r list" where
  "only v col rows = (case v of None \<Rightarrow> rows | Some x \<Rightarrow> filter (\<lambda>r. col r = x) rows)"

definition newest_first :: "exec_row list \<Rightarrow> exec_row list" where
  "newest_first = sort_key (\<lambda>r. - xf_filled_at r)"

definition list_recent_fills :: "nat \<Rightarrow> string option \<Rightarrow> string option \<Rightarrow> exec_db \<Rightarrow> exec_row list" where
  "list_recent_fills limit market side db =
     take limit (supersede_provisional_fills
       (take (limit * 3) (newest_first (only side xf_side (apply_market_filter market (xd_rows db))))))"

definition list_by_symbol :: "string \<Rightarrow> int \<Rightarrow> int \<Rightarrow> exec_db \<Rightarrow> exec_row list" where
  "list_by_symbol symbol d now db =
     supersede_provisional_fills (newest_first
       (filter (\<lambda>r. xf_symbol r = symbol \<and> now - days d \<le> xf_filled_at r) (xd_rows db)))"

text \<open>The purchases and sales that may explain the sales shown.\<close>

definition history_of :: "exec_row list \<Rightarrow> exec_db \<Rightarrow> exec_row list" where
  "history_of items db =
     (let latest = Max (xf_filled_at ` set items);
          among = (\<lambda>col r. col r \<in> col ` set items) in
      supersede_provisional_fills (sort_key xf_filled_at (sort_key xr_id (filter (\<lambda>r.
        xf_filled_at r \<le> latest \<and> among xf_symbol r \<and> among xf_broker r \<and> among xf_account_mode r \<and>
        among xf_venue r \<and> among xf_instrument_type r \<and> among xf_currency r) (xd_rows db)))))"

definition sells_since :: "int \<Rightarrow> string option \<Rightarrow> exec_db \<Rightarrow> exec_row list" where
  "sells_since cutoff market db =
     supersede_provisional_fills (newest_first (apply_market_filter market
       (filter (\<lambda>r. xf_side r = ''sell'' \<and> cutoff \<le> xf_filled_at r) (xd_rows db))))"

definition list_sell_history ::
  "int \<Rightarrow> string option \<Rightarrow> nat \<Rightarrow> int \<Rightarrow> exec_db \<Rightarrow> nat \<times> (exec_row \<times> (rat \<times> rat \<times> rat) option) list" where
  "list_sell_history d market limit now db =
     (let items = sells_since (now - days d) market db;
          annotated = (if items = [] then [] else annotate_realized_profit items (history_of items db)) in
      (length annotated, take limit annotated))"

text \<open>Fills for triage: by rising id from the watermark, at most 500.\<close>

definition list_recent_fills_for_triage ::
  "int option \<Rightarrow> string option \<Rightarrow> string option \<Rightarrow> string option \<Rightarrow> string option \<Rightarrow> string option \<Rightarrow> int \<Rightarrow> exec_db \<Rightarrow> exec_row list"
  where
  "list_recent_fills_for_triage after_id market side source broker account_mode limit db =
     take (nat (max 1 (min limit 500)))
       (sort_key xr_id (apply_market_filter market (only account_mode xf_account_mode (only broker xf_broker
         (only source xf_source (only side xf_side
           (filter (\<lambda>r. case after_id of None \<Rightarrow> True | Some i \<Rightarrow> i < xr_id r) (xd_rows db))))))))"

section \<open>Freshness\<close>

datatype data_state = Fresh | Stale | Missing

definition clean_runs :: "string \<Rightarrow> exec_db \<Rightarrow> ledger_run list" where
  "clean_runs broker db =
     filter (\<lambda>run. lr_broker run = broker \<and> lr_error_summary run = None \<and> \<not> lr_dry_run run) (xd_runs db)"

text \<open>The join is on the time of the start: of several runs started then the last one is kept.\<close>

definition latest_run :: "string \<Rightarrow> exec_db \<Rightarrow> ledger_run option" where
  "latest_run broker db =
     (let clean = clean_runs broker db in
      if clean = [] then None
      else find (\<lambda>_. True) (rev (filter (\<lambda>run. lr_broker run = broker \<and> \<not> lr_dry_run run \<and>
             lr_started_at run = Max (lr_started_at ` set clean)) (xd_runs db))))"

definition freshness_of :: "int \<Rightarrow> int \<Rightarrow> string \<Rightarrow> exec_db \<Rightarrow> data_state" where
  "freshness_of now window_hours broker db =
     (case latest_run broker db of None \<Rightarrow> Missing
      | Some run \<Rightarrow>
          let lag = now - lr_finished_at run in
          if lag \<le> hours (window_hours * 2) then Fresh else if lag \<le> hours (24 * 3) then Stale else Missing)"

definition worst_state :: "data_state list \<Rightarrow> data_state" where
  "worst_state states =
     (if states = [] \<or> Missing \<in> set states then Missing else if Stale \<in> set states then Stale else Fresh)"

definition state_from_items_and_freshness :: "'i list \<Rightarrow> string option \<Rightarrow> int \<Rightarrow> exec_db \<Rightarrow> data_state \<times> string option" where
  "state_from_items_and_freshness items market now db =
     (let relevant = (if market = Some ''crypto'' then [''upbit''] else if market \<in> {Some ''kr'', Some ''us''} then [''kis'']
                      else [''kis'', ''upbit'']);
          overall = worst_state (map (\<lambda>broker. freshness_of now 24 broker db) relevant) in
      (overall, if items \<noteq> [] then None
                else if overall = Missing then Some ''no reconcile data available yet''
                else Some ''no fills in the requested window''))"

section \<open>Profit is shown exactly for covered sales\<close>

text \<open>Reference: the quantity held in each position; a sale of more than is held leaves nothing.\<close>

definition held_step :: "exec_row \<Rightarrow> (match_key \<Rightarrow> rat) \<Rightarrow> match_key \<Rightarrow> rat" where
  "held_step item held =
     (let k = ledger_match_key item in
      if xf_side item = ''buy'' then held(k := held k + xf_filled_qty item)
      else if xf_side item = ''sell'' then held(k := max 0 (held k - xf_filled_qty item)) else held)"

definition held_after :: "exec_row list \<Rightarrow> match_key \<Rightarrow> rat" where
  "held_after items = fold held_step items (\<lambda>_. 0)"

text \<open>The quantities of rows: positive, with eight decimals, and twelve digits before the point.\<close>

definition row_qty :: "rat \<Rightarrow> bool" where
  "row_qty q \<longleftrightarrow> 0 < q \<and> on_scale 8 q \<and> q < 10 ^ 12"

definition good_lots :: "(rat \<times> rat) list \<Rightarrow> bool" where
  "good_lots lots \<longleftrightarrow> (\<forall>q \<in> set (map fst lots). row_qty q)"

lemma good_lots_simps [simp]:
  "good_lots []" "good_lots ((q, u) # lots) \<longleftrightarrow> row_qty q \<and> good_lots lots"
  "good_lots (xs @ ys) \<longleftrightarrow> good_lots xs \<and> good_lots ys"
  by (auto simp: good_lots_def)

definition lots_qty :: "(rat \<times> rat) list \<Rightarrow> rat" where
  "lots_qty lots = sum_list (map fst lots)"

lemma lots_qty_simps [simp]:
  "lots_qty [] = 0" "lots_qty ((q, u) # lots) = q + lots_qty lots" "lots_qty (xs @ ys) = lots_qty xs + lots_qty ys"
  by (simp_all add: lots_qty_def)

lemma dec28_diff:
  assumes "row_qty a" and "row_qty b"
  shows "dec28 (a - b) = a - b"
proof (rule dec28_on_scale [of 8])
  show "on_scale 8 (a - b)" using assms by (auto simp: row_qty_def)
  have "\<bar>a - b\<bar> < 10 ^ 12" using assms by (auto simp: row_qty_def abs_less_iff)
  then show "\<bar>a - b\<bar> < 10 ^ (28 - 8)" by simp
qed simp

lemma row_qty_diff: "row_qty a \<Longrightarrow> row_qty b \<Longrightarrow> b < a \<Longrightarrow> row_qty (a - b)"
  by (auto simp: row_qty_def)

lemma lots_qty_nonneg: "good_lots lots \<Longrightarrow> 0 \<le> lots_qty lots"
  unfolding lots_qty_def good_lots_def by (rule sum_list_nonneg) (simp add: row_qty_def less_imp_le del: set_map)

lemma match_lots_zero: "match_lots 0 cost lots = (0, cost, lots)"
  by (cases lots) auto

lemma match_lots_exact:
  assumes "row_qty remaining" and "good_lots lots"
    and "match_lots remaining cost lots = (rest, cost1, lots1)"
  shows "good_lots lots1 \<and> lots_qty lots1 = max 0 (lots_qty lots - remaining) \<and>
    rest = max 0 (remaining - lots_qty lots)"
  using assms
proof (induction lots arbitrary: remaining cost)
  case Nil
  then show ?case by (auto simp: row_qty_def)
next
  case (Cons lot lots)
  obtain q u where lot: "lot = (q, u)" by (cases lot)
  have q: "row_qty q" and rest: "good_lots lots" using Cons.prems(2) by (auto simp: lot)
  have sum: "lots_qty (lot # lots) = q + lots_qty lots" by (simp add: lot)
  note nonneg = lots_qty_nonneg [OF rest]
  have pos: "0 < remaining" "0 < q" using Cons.prems(1) q by (auto simp: row_qty_def)
  show ?case
  proof (cases "remaining < q")
    case True
    then have "match_lots remaining cost (lot # lots) =
      (0, dec28 (cost + dec28 (remaining * u)), (q - remaining, u) # lots)"
      using pos dec28_diff [OF q Cons.prems(1)] by (simp add: lot match_lots_zero min_def)
    then show ?thesis
      using Cons.prems(3) True rest nonneg row_qty_diff [OF q Cons.prems(1) True] unfolding sum
      by auto
  next
    case less: False
    show ?thesis
    proof (cases "q = remaining")
      case True
      then have "match_lots remaining cost (lot # lots) = (0, dec28 (cost + dec28 (q * u)), lots)"
        using pos by (simp add: lot match_lots_zero)
      then show ?thesis using Cons.prems(3) True rest nonneg unfolding sum by auto
    next
      case False
      then have l: "q < remaining" using less by simp
      then have "match_lots remaining cost (lot # lots) = match_lots (remaining - q) (dec28 (cost + dec28 (q * u))) lots"
        using pos dec28_diff [OF Cons.prems(1) q] by (simp add: lot min_def)
      then show ?thesis
        using Cons.IH [OF row_qty_diff [OF Cons.prems(1) q l] rest] Cons.prems(3) pos nonneg unfolding sum by auto
    qed
  qed
qed

lemma fifo_step_lots:
  assumes "row_qty (xf_filled_qty item)" and "\<forall>k. good_lots (ff_lots st k)"
    and "\<forall>k. lots_qty (ff_lots st k) = held k"
  shows "\<forall>k. good_lots (ff_lots (fifo_step keys item st) k)"
    and "\<forall>k. lots_qty (ff_lots (fifo_step keys item st) k) = held_step item held k"
    and "ff_annotations (fifo_step keys item st) = ff_annotations st \<or>
      (\<exists>cost. ff_annotations (fifo_step keys item st) = (ff_annotations st)(fill_key item \<mapsto> annotation item cost))"
    and "xf_side item = ''sell'' \<Longrightarrow> fill_key item \<in> keys \<Longrightarrow> ff_annotations st (fill_key item) = None \<Longrightarrow>
      ff_annotations (fifo_step keys item st) (fill_key item) \<noteq> None \<longleftrightarrow> xf_filled_qty item \<le> held (ledger_match_key item)"
proof -
  let ?k = "ledger_match_key item"
  have pos: "\<not> xf_filled_qty item \<le> 0" using assms(1) by (simp add: row_qty_def)
  obtain rest cost lots where m: "match_lots (xf_filled_qty item) 0 (ff_lots st ?k) = (rest, cost, lots)"
    by (cases "match_lots (xf_filled_qty item) 0 (ff_lots st ?k)")
  have lots: "good_lots (ff_lots st ?k)" using assms(2) by blast
  note e = match_lots_exact [OF assms(1) lots m]
  have held: "lots_qty (ff_lots st ?k) = held ?k" using assms(3) by blast
  show "\<forall>k. good_lots (ff_lots (fifo_step keys item st) k)"
    using assms(1,2) e pos m by (auto simp: fifo_step_def Let_def simp del: split_paired_All)
  show "\<forall>k. lots_qty (ff_lots (fifo_step keys item st) k) = held_step item held k"
    using assms(3) e pos m held by (auto simp: fifo_step_def Let_def held_step_def simp del: split_paired_All)
  show "ff_annotations (fifo_step keys item st) = ff_annotations st \<or>
      (\<exists>cost. ff_annotations (fifo_step keys item st) = (ff_annotations st)(fill_key item \<mapsto> annotation item cost))"
    using pos m by (auto simp: fifo_step_def Let_def)
  show "xf_side item = ''sell'' \<Longrightarrow> fill_key item \<in> keys \<Longrightarrow> ff_annotations st (fill_key item) = None \<Longrightarrow>
      ff_annotations (fifo_step keys item st) (fill_key item) \<noteq> None \<longleftrightarrow> xf_filled_qty item \<le> held ?k"
    using pos m e held by (auto simp: fifo_step_def Let_def max_def simp del: split_paired_Ex split: if_splits)
qed

lemma fifo_lots:
  assumes "\<forall>item \<in> set items. row_qty (xf_filled_qty item)" and "\<forall>k. good_lots (ff_lots st k)"
    and "\<forall>k. lots_qty (ff_lots st k) = held k"
  shows "(\<forall>k. good_lots (ff_lots (fold (fifo_step keys) items st) k)) \<and>
    (\<forall>k. lots_qty (ff_lots (fold (fifo_step keys) items st) k) = fold held_step items held k)"
  using assms
proof (induction items arbitrary: st held)
  case Nil
  then show ?case by simp
next
  case (Cons item items)
  have q: "row_qty (xf_filled_qty item)" using Cons.prems(1) by simp
  note step = fifo_step_lots(1,2) [OF q Cons.prems(2,3), of keys]
  show ?case using Cons.IH [OF _ step] Cons.prems(1) by simp
qed

lemma fifo_other:
  assumes "\<forall>item \<in> set items. fill_key item \<noteq> k"
  shows "ff_annotations (fold (fifo_step keys) items st) k = ff_annotations st k"
  using assms
proof (induction items arbitrary: st)
  case (Cons item items)
  have "ff_annotations (fifo_step keys item st) k = ff_annotations st k"
    using Cons.prems by (auto simp: fifo_step_def Let_def split: prod.splits)
  then show ?case using Cons.IH Cons.prems by simp
qed simp

text \<open>The verdict on one sale of the history.\<close>

lemma fifo_verdict:
  assumes "sort_key xf_filled_at history = before @ item # after" and "distinct (map fill_key history)"
    and "\<forall>r \<in> set history. row_qty (xf_filled_qty r)" and "xf_side item = ''sell''" and "fill_key item \<in> keys"
  shows "ff_annotations (fifo keys history) (fill_key item) \<noteq> None \<longleftrightarrow>
      xf_filled_qty item \<le> held_after before (ledger_match_key item)"
    and "ff_annotations (fifo keys history) (fill_key item) = Some v \<Longrightarrow> \<exists>cost. v = annotation item cost"
proof -
  let ?start = "\<lparr>ff_lots = (\<lambda>_. []), ff_annotations = (\<lambda>_. None)\<rparr>"
  let ?st = "fold (fifo_step keys) before ?start"
  have all: "set history = set (before @ item # after)" by (metis assms(1) set_sort)
  have d: "distinct (map fill_key (before @ item # after))"
    unfolding assms(1) [symmetric] using assms(2) by (simp add: distinct_map)
  have q: "\<forall>r \<in> set before. row_qty (xf_filled_qty r)" "row_qty (xf_filled_qty item)" using assms(3) all by auto
  have start: "\<forall>k. good_lots (ff_lots ?start k)" "\<forall>k. lots_qty (ff_lots ?start k) = (\<lambda>_. 0) k" by simp_all
  note lots = fifo_lots [OF q(1) start, of keys]
  have keys: "fill_key item \<notin> fill_key ` set before" "fill_key item \<notin> fill_key ` set after" using d by simp_all
  have "\<forall>x \<in> set before. fill_key x \<noteq> fill_key item" by (metis keys(1) imageI)
  from fifo_other [OF this] have none: "ff_annotations ?st (fill_key item) = None" by simp
  note step = fifo_step_lots [OF q(2) conjunct1 [OF lots] conjunct2 [OF lots], of keys]
  have "\<forall>x \<in> set after. fill_key x \<noteq> fill_key item" by (metis keys(2) imageI)
  from fifo_other [OF this]
  have same: "ff_annotations (fifo keys history) (fill_key item) = ff_annotations (fifo_step keys item ?st) (fill_key item)"
    by (simp add: fifo_def assms(1))
  show "ff_annotations (fifo keys history) (fill_key item) \<noteq> None \<longleftrightarrow>
      xf_filled_qty item \<le> held_after before (ledger_match_key item)"
    and "ff_annotations (fifo keys history) (fill_key item) = Some v \<Longrightarrow> \<exists>cost. v = annotation item cost"
    using step(4) [OF assms(4,5) none] step(3) none
    unfolding same held_after_def by (auto simp del: split_paired_Ex split_paired_All)
qed

lemma stored_row_qty:
  assumes "stored_fill f = Inr f"
  shows "row_qty (xf_filled_qty f)"
proof (rule stored_fill_Inr [OF assms])
  fix qty price notional fee
  assume f: "f = f\<lparr>xf_filled_qty := qty, xf_filled_price := price, xf_filled_notional := notional, xf_fee_amount := fee\<rparr>"
    and r: "pg_round 20 8 (xf_filled_qty f) = Some qty" and ck: "ck_violation f = None"
  have pos: "0 < xf_filled_qty f" using ck by (simp add: ck_violation_def split: if_splits)
  have eq: "xf_filled_qty f = qty" by (subst f) simp
  have "\<lfloor>\<bar>qty\<bar> * 10 ^ 8 + 1 / 2\<rfloor> < 10 ^ 20" using r eq by (simp add: pg_round_def Let_def split: if_splits)
  then have "qty * 10 ^ 8 < 10 ^ 20" using pos eq by (simp add: floor_less_iff)
  then show ?thesis using pos eq pg_round_on_scale [OF r] by (simp add: row_qty_def)
qed

lemma kept_authoritative:
  "xf_source r \<noteq> ''websocket'' \<Longrightarrow> r \<in> set items \<Longrightarrow> r \<in> set (supersede_provisional_fills items)"
  by (simp add: supersede_provisional_fills_def Let_def)

lemma superseded_subset: "set (supersede_provisional_fills items) \<subseteq> set items"
  by (auto simp: supersede_provisional_fills_def Let_def)

lemma sold: "r \<in> set (sells_since cutoff market db) \<Longrightarrow> r \<in> set (xd_rows db) \<and> xf_side r = ''sell''"
  using superseded_subset
  by (fastforce simp: sells_since_def newest_first_def apply_market_filter_def split: option.splits)

lemma history_keys:
  assumes "wf_exec db"
  shows "distinct (map fill_key (history_of items db))" and "set (history_of items db) \<subseteq> set (xd_rows db)"
proof -
  show "set (history_of items db) \<subseteq> set (xd_rows db)"
    using superseded_subset by (fastforce simp: history_of_def Let_def)
  have "inj_on fill_key (set (xd_rows db))" "distinct (xd_rows db)" using assms by (simp_all add: wf_exec_def distinct_map)
  moreover have "distinct (history_of items db)"
    using calculation(2) by (simp add: history_of_def Let_def supersede_provisional_fills_def)
  ultimately show "distinct (map fill_key (history_of items db))"
    using \<open>set (history_of items db) \<subseteq> set (xd_rows db)\<close> by (simp add: distinct_map inj_on_subset)
qed

lemma sale_in_history:
  assumes "item \<in> set (sells_since cutoff market db)" and "xf_source item \<noteq> ''websocket''"
  shows "item \<in> set (history_of (sells_since cutoff market db) db)"
  unfolding history_of_def Let_def
  by (rule kept_authoritative [OF assms(2)]) (use assms(1) sold [OF assms(1)] in simp)

text \<open>
  C28: Profit is shown exactly for covered sales: in the history of sales the sale of an authoritative source
  carries a cost, a profit and a rate if and only if the fills before it left at least its quantity in its
  position, where a sale beyond what is held leaves nothing.
\<close>

theorem profit_is_shown_exactly_for_covered_sales:
  assumes "wf_exec db" and "(item, profit) \<in> set (snd (list_sell_history d market limit now db))"
    and "xf_source item \<noteq> ''websocket''"
  shows "\<exists>before after.
    sort_key xf_filled_at (history_of (sells_since (now - days d) market db) db) = before @ item # after \<and>
    (profit \<noteq> None \<longleftrightarrow> xf_filled_qty item \<le> held_after before (ledger_match_key item)) \<and>
    (\<forall>v. profit = Some v \<longrightarrow> (\<exists>cost. v = annotation item cost))"
proof -
  let ?items = "sells_since (now - days d) market db"
  let ?history = "history_of ?items db"
  have shown: "(item, profit) \<in> set (annotate_realized_profit ?items ?history)"
    using assms(2) by (auto simp: list_sell_history_def Let_def dest: in_set_takeD split: if_splits)
  then have item: "item \<in> set ?items"
    and profit: "profit = ff_annotations (fifo (set (map fill_key ?items)) ?history) (fill_key item)"
    by (auto simp: annotate_realized_profit_def Let_def)
  have "item \<in> set (sort_key xf_filled_at ?history)" using sale_in_history [OF item assms(3)] by simp
  then obtain before after where split: "sort_key xf_filled_at ?history = before @ item # after"
    by (meson split_list)
  have qty: "\<forall>r \<in> set ?history. row_qty (xf_filled_qty r)"
    using history_keys(2) [OF assms(1)] assms(1) stored_row_qty by (fastforce simp: wf_exec_def)
  have key: "fill_key item \<in> set (map fill_key ?items)" using item by simp
  note verdict = fifo_verdict [OF split history_keys(1) [OF assms(1)] qty conjunct2 [OF sold [OF item]] key]
  show ?thesis using split verdict unfolding profit by blast
qed

theorem profit_is_shown_exactly_for_covered_sales_witness:
  "\<exists>before after. sort_key xf_filled_at (history_of (sells_since (days 4 - days 30) None sample_ledger) sample_ledger) =
       before @ as_row (sample_fill ''sell'' ''2'' 1) 2 5 5 # after \<and>
     xf_filled_qty (sample_fill ''sell'' ''2'' 1) \<le> held_after before (ledger_match_key (sample_fill ''sell'' ''2'' 1))"
proof -
  let ?item = "as_row (sample_fill ''sell'' ''2'' 1) 2 5 5"
  have "(case snd (list_sell_history 30 None 10 (days 4) sample_ledger) of [(item, Some v)] \<Rightarrow> item = ?item | _ \<Rightarrow> False)"
    by code_simp
  then obtain v where "(?item, Some v) \<in> set (snd (list_sell_history 30 None 10 (days 4) sample_ledger))"
    by (auto split: list.splits prod.splits option.splits)
  moreover have "xf_source ?item \<noteq> ''websocket''" by (simp add: sample_fill_def)
  ultimately show ?thesis
    using profit_is_shown_exactly_for_covered_sales [OF wf_sample_ledger, of ?item "Some v" 30 None 10 "days 4"] by auto
qed

end
