(* ===== verification/Spec2Isabelle.thy ===== *)
theory Spec2Isabelle
  imports CreationSafety Telegram KisSendSafety VtsGate BatchSafety RevalidationSafety BinanceSafety DispatchSafety ClickReplay
    Redispatch ExecutionRerun ExecutionSeeds ExecutionQueries
begin

text \<open>
  A verification library for the order path of auto_trader: the ladder proposals that a person (or a
  policy) approves and that are then submitted to a broker, the transport to the KIS broker, and the
  ledger of the Binance demo account. Paths below are under src/app; \<open>order_proposals\<close> stands for
  services/order_proposals.

  \<^bold>\<open>How the parts interact.\<close> A proposal is a group row with rungs (orders) in a ladder. It is created
  with its validity and evidence; a dispatch stages a nonce and a pending attempt, sends a Telegram card
  and resolves the publication through an owner fence; a click carries the binding of the card and
  consumes the nonce; the approved rungs are revalidated against fresh previews, claim buying power,
  pass window gates and are posted to the broker; later evidence, expiry, voiding and supersession
  converge what remains. Several proposals may share one batch card. The policy may submit without a
  click; then a veto card is sent, and an undelivered one takes the orders back.

  \<^bold>\<open>Conventions.\<close> A database is a record of tables (lists of rows); a service call is a function from a
  store to a sum of an error and a new store with the answer, so every raise is a value and a raised
  transaction leaves the store of its caller. A call that takes a row lock or an advisory lock is one
  step; between two commits the argument \<open>others\<close> stands for any other transactions. Clock readings,
  calendars, previews, broker and Telegram answers, random nonces and ids are arguments (records of
  answers), an exception of an awaited call is a left value. Instants are microseconds since the epoch,
  \<open>Naive\<close> and \<open>Aware\<close> datetimes are told apart. Hashes, ISO-8601 reading and printing, the rendering of
  cards and the policy file are parameters. Decimals are rationals where the code only compares exact
  values, digits with an exponent where it prints or normalises them, and rationals rounded to the 28
  digits of the default context in the automatic policy. Histories are lists of commands, so that an
  invariant of a history is one for any interleaving of whole transactions.

  \<^bold>\<open>Prelude and texts.\<close> \<open>Prelude\<close>: results (\<open>bindR\<close>, \<open>foldR\<close>, \<open>map_error\<close>, \<open>require\<close>), row writing and
  lookup. \<open>PyText\<close>, \<open>PyDecimal\<close>: Python strings and decimals. \<open>TransitionGraph\<close>: a locale of graphs with
  terminal states, interpreted on the rung machine and on the Binance ledger.

  \<^bold>\<open>Proposals.\<close>
  \<open>RungMachine\<close> (order_proposals/state_machine.py, errors.py): the enforced graph, its check on strings,
  runs and what they imply.
  \<open>ProposalStore\<close> (models/order_proposals.py, order_proposals/repository.py): tables, constraints, the
  locale \<open>keyed_table\<close> with its interpretation on every table.
  \<open>ProposalService\<close>, \<open>ProposalVoid\<close>, \<open>ProposalEvidence\<close>, \<open>ApprovalService\<close>, \<open>DispatchService\<close>
  (order_proposals/service.py): the lifecycle, approval and dispatch operations.
  \<open>ApprovalContract\<close> (order_proposals/approval_contract.py), \<open>ApprovalWindow\<close> and \<open>MarketSessions\<close>
  (order_proposals/approval_window.py; brokers/toss/market_calendar.py, market_events/session_calendar.py), \<open>ProposalCreate\<close> (creation, supersession, exit intents).
  \<open>ProposalFrames\<close>, \<open>ProposalRuns\<close>, \<open>ProposalHistory\<close>, \<open>ProposalSamples\<close>: the frame relation \<open>evolves\<close>,
  that every operation keeps it, histories and sample stores. \<open>ProposalSafety\<close>, \<open>ApprovalSafety\<close>,
  \<open>WindowSafety\<close>, \<open>CreationSafety\<close>: the properties.
  \<open>BatchService\<close>, \<open>BatchFrames\<close>, \<open>BatchSafety\<close> (order_proposals/service.py, batch operations): frozen
  memberships, the batch card and its click.

  \<^bold>\<open>Revalidation and submission.\<close>
  \<open>BuyingPower\<close> (order_proposals/buying_power.py): the claim cache. \<open>Revalidation\<close>
  (order_proposals/revalidation.py): place, replace and cancel of a rung with every gate, hook, adapter
  and error path, and \<open>revalidate_and_submit\<close> over the rungs. \<open>RungWrites\<close>: the lifecycle writes as total
  steps. \<open>SubmitVerdict\<close>: the abstract specification, a verdict that is a function of the answers alone,
  and the refinement of the orchestration to it (\<open>settles\<close>). \<open>RevalidationRuns\<close>: the loop.
  \<open>RevalidationSafety\<close>: the properties.

  \<^bold>\<open>Dispatch.\<close> \<open>Telegram\<close> (telegram_contract.py): text units and splitting.
  \<open>AutoApprove\<close> (order_proposals/auto_approve.py), \<open>AutoVeto\<close> (auto_veto.py), \<open>Dispatch\<close> (dispatch.py):
  sending for approval, the batch card, the automatic submission and its compensation.
  \<open>Redispatch\<close> (redispatch.py): the check before a failed card is sent again.
  \<open>DispatchSafety\<close>: the properties.

  \<^bold>\<open>Callbacks.\<close> \<open>CallbackData\<close> (order_proposals/approval_message.py): the text of a button, built and
  parsed. \<open>Callback\<close> (order_proposals/telegram_callback.py): deny, veto, approve with its reconfirm card,
  the first click of a loss cut, the batch card and its members, and the webhook update. A handler
  returns the database as of its last commit, the list of what left the process (answers, edits, cards,
  broker events) and its answer or exception. \<open>CallbackSafety\<close>: flows by elimination rules, the gate of a
  click; \<open>CallbackCommit\<close>: the steps around a run keep what the broker knows; \<open>ClickSafety\<close>: which clicks
  reach a broker, denials and batches; \<open>ClickReplay\<close>: a handled click can never be
  handled again.

  \<^bold>\<open>KIS.\<close> \<open>KisCircuit\<close> (services/brokers/kis/circuit_breaker.py), \<open>VtsGate\<close> (vts_distributed_gate.py: the gate of the mock
  account, the Redis script included), \<open>KisSend\<close> and \<open>KisSendSafety\<close> (the request loop, its retries and the
  classification of an order post).

  \<^bold>\<open>Binance demo ledger.\<close> \<open>BinanceLedger\<close>, \<open>BinanceSafety\<close> (services/brokers/binance/demo/ledger,
  models/binance_demo_order_ledger.py): reservations, transitions, fill actuals and constraints.

  \<^bold>\<open>Execution ledger.\<close> \<open>ExecutionLedger\<close> (services/execution_ledger: repository.py, reconciler.py,
  opening_lots.py, the reading of a row in normalizers.py; schemas and models of the same name): fills by
  their key, the reconciliation run with its audit row and the session around it, the seeding of opening lots.
  \<open>ExecutionSafety\<close>: what a committed run records; \<open>ExecutionRerun\<close>: the same window again;
  \<open>ExecutionSeeds\<close>: positions after seeding; \<open>ExecutionQueries\<close> (query_service.py): provisional rows,
  sales matched first in, first out, freshness. \<open>DecimalContext\<close>: rounding of decimals and of columns.

  \<^bold>\<open>What the lemma groups show.\<close> Frame lemmas (\<open>evolves\<close>, \<open>untouched\<close>, \<open>moves\<close>) carry well-formedness, the
  rollup of group states, the order of rungs and spent nonces through every operation; the properties
  about a whole history are instances. Verdict lemmas turn a run into its specification, so that
  safety of the broker mutations is case analysis on answers. Witnesses evaluate sample proposals.

  \<^bold>\<open>Bounds and loops.\<close> Retry loops recurse on the attempts that remain; the gate of the mock account is a
  partial function in the option monad whose termination is a theorem, with the bound on its claims for the
  caller's deadline or the gate's own; the splitting of texts and the reading of digits are
  structural or measured. No definition uses fuel.

  \<^bold>\<open>Not modelled.\<close> The texts of cards, the audit of numbers printed in JSON floats, the concurrency of
  locks beyond atomic steps, and the commit that precedes an exception raised in a later transaction of
  one dispatch (the run is then an error); the preview of a loss cut and the recording of an alert's own
  context are arguments of the callback. The rest of the repository (research, screeners, reports, web,
  MCP tooling, jobs, other brokers) is input and output, statistics or glue around libraries and is
  listed with its reason in the manifest.
\<close>

end
